(* ===== verification/Prelude.thy ===== *)
theory Prelude
  imports Main "HOL-Library.AList" "HOL-Library.Sublist" "HOL-Library.Char_ord"
begin

text \<open>
  What every component of the model shares: the JavaScript values and library calls the
  source uses (strings, optional values and their truthiness, timestamps, insertion-ordered
  maps, array searches, slices), results that may be thrown errors, operations on a state,
  and the generic lemmas and lemma collections of the library.

  A JavaScript string is a HOL \<^typ>\<open>string\<close>, a list of code units below 256. An optional
  property is an \<^typ>\<open>'a option\<close>, where \<open>None\<close> stands for \<open>undefined\<close> (and for
  \<open>null\<close>, which the code treats alike). Numbers are \<^typ>\<open>int\<close>: every number the source
  computes with is an integer.
\<close>

named_theorems js_simps \<open>definitions of the JavaScript library calls\<close>
named_theorems store_simps \<open>how storage operations act on the stored data\<close>
named_theorems wf_intros \<open>preservation of the well-formedness invariants\<close>

section \<open>Thrown errors and operations on a state\<close>

text \<open>
  \<open>throw new Error(m)\<close> is \<open>Inl (Error m)\<close>. An operation maps a state to its result, which
  may be a thrown error, and the state it leaves, because an error does not undo the changes
  made before it. \<open>fallible\<close> leaves the type of errors open, for components that throw their own
  error class.
\<close>

datatype error = Error (message: string)

type_synonym 'a result = "error + 'a"
type_synonym ('e, 's, 'a) fallible = "'s \<Rightarrow> ('e + 'a) \<times> 's"
type_synonym ('s, 'a) op = "(error, 's, 'a) fallible"

definition return_op :: "'a \<Rightarrow> ('e, 's, 'a) fallible" where
  "return_op a = (\<lambda>s. (Inr a, s))"

definition throw_op :: "'e \<Rightarrow> ('e, 's, 'a) fallible" where
  "throw_op e = (\<lambda>s. (Inl e, s))"

definition of_result :: "'e + 'a \<Rightarrow> ('e, 's, 'a) fallible" where
  "of_result r = (\<lambda>s. (r, s))"

definition bind_op ::
  "('e, 's, 'a) fallible \<Rightarrow> ('a \<Rightarrow> ('e, 's, 'b) fallible) \<Rightarrow> ('e, 's, 'b) fallible" where
  "bind_op m f = (\<lambda>s. case m s of (Inl e, s') \<Rightarrow> (Inl e, s') | (Inr a, s') \<Rightarrow> f a s')"

definition catch_op ::
  "('e, 's, 'a) fallible \<Rightarrow> ('e \<Rightarrow> ('e', 's, 'a) fallible) \<Rightarrow> ('e', 's, 'a) fallible" where
  "catch_op m h = (\<lambda>s. case m s of (Inl e, s') \<Rightarrow> h e s' | (Inr a, s') \<Rightarrow> (Inr a, s'))"

lemma return_op_apply [simp]: "return_op a s = (Inr a, s)"
  by (simp add: return_op_def)

lemma throw_op_apply [simp]: "throw_op e s = (Inl e, s)"
  by (simp add: throw_op_def)

lemma bind_op_Inr [simp]: "m s = (Inr a, s') \<Longrightarrow> bind_op m f s = f a s'"
  by (simp add: bind_op_def)

lemma bind_op_Inl [simp]: "m s = (Inl e, s') \<Longrightarrow> bind_op m f s = (Inl e, s')"
  by (simp add: bind_op_def)

lemma catch_op_Inr [simp]: "m s = (Inr a, s') \<Longrightarrow> catch_op m h s = (Inr a, s')"
  by (simp add: catch_op_def)

lemma catch_op_Inl [simp]: "m s = (Inl e, s') \<Longrightarrow> catch_op m h s = h e s'"
  by (simp add: catch_op_def)

lemma bind_op_split:
  "P (bind_op m f s) \<longleftrightarrow>
     (\<forall>e s'. m s = (Inl e, s') \<longrightarrow> P (Inl e, s')) \<and>
     (\<forall>a s'. m s = (Inr a, s') \<longrightarrow> P (f a s'))"
  by (auto simp: bind_op_def split: prod.splits sum.splits)

lemma bind_op_eq_Inr:
  "bind_op m f s = (Inr b, t) \<longleftrightarrow> (\<exists>a s'. m s = (Inr a, s') \<and> f a s' = (Inr b, t))"
  by (auto simp: bind_op_def split: prod.splits sum.splits)

lemma bind_op_assoc: "bind_op (bind_op m f) g = bind_op m (\<lambda>a. bind_op (f a) g)"
  by (rule ext) (auto simp: bind_op_def split: prod.splits sum.splits)

section \<open>Strings\<close>

text \<open>
  \<open>toLowerCase\<close> on code units below 256: the ASCII capitals and the Latin-1 capitals
  U+00C0 to U+00DE, except the multiplication sign U+00D7, move up by 32.
\<close>

definition lower_char :: "char \<Rightarrow> char" where
  "lower_char c =
     (let n = of_char c :: nat
      in if (65 \<le> n \<and> n \<le> 90) \<or> (192 \<le> n \<and> n \<le> 222 \<and> n \<noteq> 215) then char_of (n + 32) else c)"

definition toLowerCase :: "string \<Rightarrow> string" where
  "toLowerCase = map lower_char"

text \<open>
  \<open>toUpperCase\<close>: the inverse shift, and sharp s becomes \<open>SS\<close>. The micro sign U+00B5 and
  U+00FF have capitals above U+00FF, which a \<^typ>\<open>char\<close> cannot hold; the model leaves them
  alone, and every use in the source drops both forms.
\<close>

definition upper_char :: "char \<Rightarrow> string" where
  "upper_char c =
     (let n = of_char c :: nat
      in if n = 223 then ''SS''
         else if (97 \<le> n \<and> n \<le> 122) \<or> (224 \<le> n \<and> n \<le> 254 \<and> n \<noteq> 247) then [char_of (n - 32)]
         else [c])"

definition toUpperCase :: "string \<Rightarrow> string" where
  "toUpperCase s = concat (map upper_char s)"

definition is_upper :: "char \<Rightarrow> bool" where
  "is_upper c = (let n = of_char c :: nat in 65 \<le> n \<and> n \<le> 90)"

definition is_lower :: "char \<Rightarrow> bool" where
  "is_lower c = (let n = of_char c :: nat in 97 \<le> n \<and> n \<le> 122)"

definition is_digit :: "char \<Rightarrow> bool" where
  "is_digit c = (let n = of_char c :: nat in 48 \<le> n \<and> n \<le> 57)"

text \<open>The classes \<open>[a-f0-9]\<close> and \<open>[A-Za-z0-9_-]\<close> of the source's patterns.\<close>

definition is_lower_hex :: "char \<Rightarrow> bool" where
  "is_lower_hex c = (is_digit c \<or> (let n = of_char c :: nat in 97 \<le> n \<and> n \<le> 102))"

definition is_word_dash :: "char \<Rightarrow> bool" where
  "is_word_dash c = (is_upper c \<or> is_lower c \<or> is_digit c \<or> c = CHR ''_'' \<or> c = CHR ''-'')"

text \<open>A lower-case hexadecimal digit, and the pattern \<open>^[a-f0-9]{64}$\<close>.\<close>

definition hex_digit :: "nat \<Rightarrow> char" where
  "hex_digit n = ''0123456789abcdef'' ! n"

definition is_sha256_hex :: "string \<Rightarrow> bool" where
  "is_sha256_hex s \<longleftrightarrow> length s = 64 \<and> list_all is_lower_hex s"

text \<open>A digest for the concrete examples: one digit repeated.\<close>

definition hexes :: "char \<Rightarrow> string" where
  "hexes c = replicate 64 c"

lemma hexes_hex [simp]: "is_lower_hex c \<Longrightarrow> is_sha256_hex (hexes c)"
  by (simp add: hexes_def is_sha256_hex_def list_all_iff)

lemma of_char_less_256: "(of_char c :: nat) < 256"
  using of_char_mod_256 [of c, where 'a = nat] by simp

lemma of_char_shift:
  "n < 256 \<Longrightarrow> (of_char (char_of (n :: nat)) :: nat) = n"
  by simp

lemma lower_char_idem [simp]: "lower_char (lower_char c) = lower_char c"
  by (auto simp: lower_char_def Let_def of_char_shift split: if_splits)

lemma toLowerCase_idem [simp]: "toLowerCase (toLowerCase s) = toLowerCase s"
  by (simp add: toLowerCase_def comp_def)

lemma toLowerCase_Nil_iff [simp]: "toLowerCase s = [] \<longleftrightarrow> s = []"
  by (simp add: toLowerCase_def)

text \<open>\<open>s.includes(sub)\<close>, \<open>s.startsWith(p)\<close> and the test of a character for NUL.\<close>

definition str_includes :: "string \<Rightarrow> string \<Rightarrow> bool" where
  "str_includes s sub = list_ex (\<lambda>t. prefix sub t) (suffixes s)"

definition startsWith :: "string \<Rightarrow> string \<Rightarrow> bool" where
  "startsWith s p = prefix p s"

definition has_nul :: "string \<Rightarrow> bool" where
  "has_nul s = (char_of (0 :: nat) \<in> set s)"

text \<open>White space of the pattern \<open>\\s\<close> below U+0100, removing it, and \<open>s.trim()\<close>.\<close>

definition is_space :: "char \<Rightarrow> bool" where
  "is_space c = (let n = of_char c :: nat in (9 \<le> n \<and> n \<le> 13) \<or> n = 32 \<or> n = 160)"

definition remove_spaces :: "string \<Rightarrow> string" where
  "remove_spaces = filter (\<lambda>c. \<not> is_space c)"

definition js_trim :: "string \<Rightarrow> string" where
  "js_trim s = rev (dropWhile is_space (rev (dropWhile is_space s)))"

text \<open>\<open>String(n)\<close> for a natural number, and \<open>padStart(w, '0')\<close>.\<close>

fun show_nat :: "nat \<Rightarrow> string" where
  "show_nat n = (if n < 10 then [char_of (48 + n)] else show_nat (n div 10) @ [char_of (48 + n mod 10)])"

declare show_nat.simps [simp del]

definition show_int :: "int \<Rightarrow> string" where
  "show_int n = (if n < 0 then CHR ''-'' # show_nat (nat (- n)) else show_nat (nat n))"

definition pad_start :: "nat \<Rightarrow> char \<Rightarrow> string \<Rightarrow> string" where
  "pad_start w c s = replicate (w - length s) c @ s"

section \<open>Optional values\<close>

text \<open>
  A string is falsy when it is missing or empty. \<open>a || b\<close> on an optional string is
  \<open>str_or a b\<close>; \<open>a ?? b\<close> keeps an empty string and is \<open>nullish a b\<close>.
\<close>

definition truthy :: "string option \<Rightarrow> bool" where
  "truthy v = (case v of None \<Rightarrow> False | Some s \<Rightarrow> s \<noteq> [])"

definition str_or :: "string option \<Rightarrow> string \<Rightarrow> string" where
  "str_or v d = (case v of None \<Rightarrow> d | Some s \<Rightarrow> if s = [] then d else s)"

definition nullish :: "'a option \<Rightarrow> 'a \<Rightarrow> 'a" where
  "nullish v d = (case v of None \<Rightarrow> d | Some a \<Rightarrow> a)"

lemma truthy_simps [simp]:
  "\<not> truthy None" "truthy (Some s) \<longleftrightarrow> s \<noteq> []"
  by (simp_all add: truthy_def)

lemma str_or_simps [simp]:
  "str_or None d = d" "str_or (Some s) d = (if s = [] then d else s)"
  by (simp_all add: str_or_def)

lemma nullish_simps [simp]: "nullish None d = d" "nullish (Some a) d = a"
  by (simp_all add: nullish_def)

lemma truthy_iff: "truthy v \<longleftrightarrow> (\<exists>s. v = Some s \<and> s \<noteq> [])"
  by (cases v) auto

lemma str_or_Nil_iff [simp]: "str_or v d = [] \<longleftrightarrow> \<not> truthy v \<and> d = []"
  by (cases v) auto

section \<open>Timestamps\<close>

text \<open>
  The source keeps times as text and reads them back with \<open>new Date(text)\<close>. \<open>Iso ms\<close> is the
  text \<open>toISOString\<close> writes for the time \<open>ms\<close> (milliseconds since the epoch);
  \<open>OtherText s t\<close> is any other text \<open>s\<close>, which \<open>Date.parse\<close> reads as \<open>t\<close>, where \<open>None\<close>
  is \<open>NaN\<close>. A comparison with \<open>NaN\<close> is false, whichever way round.
\<close>

datatype stamp = Iso int | OtherText string "int option"

fun date_parse :: "stamp \<Rightarrow> int option" where
  "date_parse (Iso t) = Some t"
| "date_parse (OtherText s t) = t"

fun stamp_truthy :: "stamp option \<Rightarrow> bool" where
  "stamp_truthy None = False"
| "stamp_truthy (Some (Iso t)) = True"
| "stamp_truthy (Some (OtherText s t)) = (s \<noteq> [])"

definition before :: "stamp \<Rightarrow> int \<Rightarrow> bool" where
  "before d now = (case date_parse d of None \<Rightarrow> False | Some t \<Rightarrow> t < now)"

definition after :: "stamp \<Rightarrow> int \<Rightarrow> bool" where
  "after d now = (case date_parse d of None \<Rightarrow> False | Some t \<Rightarrow> now < t)"

definition at_or_after :: "stamp \<Rightarrow> int \<Rightarrow> bool" where
  "at_or_after d t = (case date_parse d of None \<Rightarrow> False | Some t' \<Rightarrow> t' \<ge> t)"

definition at_or_before :: "stamp \<Rightarrow> int \<Rightarrow> bool" where
  "at_or_before d t = (case date_parse d of None \<Rightarrow> False | Some t' \<Rightarrow> t' \<le> t)"

definition finite_date :: "stamp \<Rightarrow> bool" where
  "finite_date d = (date_parse d \<noteq> None)"

lemma before_Iso [simp]: "before (Iso t) now \<longleftrightarrow> t < now"
  by (simp add: before_def)

lemma after_Iso [simp]: "after (Iso t) now \<longleftrightarrow> now < t"
  by (simp add: after_def)

lemma finite_date_Iso [simp]: "finite_date (Iso t)"
  by (simp add: finite_date_def)

lemma stamp_truthy_Iso [simp]: "stamp_truthy (Some (Iso t))"
  by simp

lemma after_not_before: "after d now \<Longrightarrow> \<not> before d now"
  by (auto simp: after_def before_def split: option.splits)

lemma after_mono: "after d now \<Longrightarrow> now' \<le> now \<Longrightarrow> after d now'"
  by (auto simp: after_def split: option.splits)

lemma before_mono: "before d now \<Longrightarrow> now \<le> now' \<Longrightarrow> before d now'"
  by (auto simp: before_def split: option.splits)

section \<open>Maps and arrays\<close>

text \<open>
  A JavaScript \<open>Map\<close> iterates in insertion order, and \<open>set\<close> on a present key keeps its place:
  an association list with \<^const>\<open>AList.update\<close>, \<^const>\<open>AList.delete\<close> and \<^const>\<open>map_of\<close>.
\<close>

type_synonym 'v jsmap = "(string \<times> 'v) list"

abbreviation map_set :: "string \<Rightarrow> 'v \<Rightarrow> 'v jsmap \<Rightarrow> 'v jsmap" where
  "map_set \<equiv> AList.update"

abbreviation map_del :: "string \<Rightarrow> 'v jsmap \<Rightarrow> 'v jsmap" where
  "map_del \<equiv> AList.delete"

abbreviation map_values :: "'v jsmap \<Rightarrow> 'v list" where
  "map_values m \<equiv> map snd m"

definition map_has :: "string \<Rightarrow> 'v jsmap \<Rightarrow> bool" where
  "map_has k m = (map_of m k \<noteq> None)"

definition keys_distinct :: "'v jsmap \<Rightarrow> bool" where
  "keys_distinct m = distinct (map fst m)"

lemma map_of_map_set [simp]: "map_of (map_set k v m) k' = (if k' = k then Some v else map_of m k')"
  by (simp add: update_conv')

lemma map_of_map_del [simp]: "map_of (map_del k m) k' = (if k' = k then None else map_of m k')"
  by (simp add: delete_conv')

lemma keys_distinct_Nil [simp, wf_intros]: "keys_distinct []"
  by (simp add: keys_distinct_def)

lemma keys_distinct_set [simp, wf_intros]: "keys_distinct m \<Longrightarrow> keys_distinct (map_set k v m)"
  by (simp add: keys_distinct_def distinct_update)

lemma keys_distinct_del [simp, wf_intros]: "keys_distinct m \<Longrightarrow> keys_distinct (map_del k m)"
  by (simp add: keys_distinct_def distinct_delete)

lemma map_fst_filter_subset: "set (map fst (filter P m)) \<subseteq> set (map fst m)"
  by auto

lemma keys_distinct_filter [simp, wf_intros]:
  "keys_distinct m \<Longrightarrow> keys_distinct (filter P m)"
  by (simp add: keys_distinct_def distinct_map_filter)

lemma map_of_filter_distinct:
  "keys_distinct m \<Longrightarrow>
   map_of (filter P m) k = (case map_of m k of None \<Rightarrow> None | Some v \<Rightarrow> if P (k, v) then Some v else None)"
proof (induction m)
  case Nil
  then show ?case by simp
next
  case (Cons a m)
  obtain k0 v0 where a: "a = (k0, v0)" by (cases a)
  have m: "keys_distinct m" and k0: "map_of m k0 = None"
    using Cons.prems by (auto simp: keys_distinct_def a map_of_eq_None_iff)
  show ?case
    using Cons.IH [OF m] k0 by (auto simp: a split: option.splits)
qed

lemma set_map_values: "keys_distinct m \<Longrightarrow> v \<in> set (map_values m) \<longleftrightarrow> (\<exists>k. map_of m k = Some v)"
  by (force simp: keys_distinct_def)

text \<open>A loop over the entries that deletes the ones it selects, and counts them.\<close>

definition delete_where :: "('v \<Rightarrow> bool) \<Rightarrow> 'v jsmap \<Rightarrow> int \<times> 'v jsmap" where
  "delete_where p m =
     foldl (\<lambda>(n, acc) (k, v). if p v then (n + 1, map_del k acc) else (n, acc)) (0, m) m"

lemma foldl_delete_where:
  "foldl (\<lambda>(n, acc) (k, v). if p v then (n + 1, map_del k acc) else (n, acc)) (n0 :: int, acc0) xs
     = (n0 + int (length (filter (p \<circ> snd) xs)),
        filter (\<lambda>kv. \<forall>x \<in> set xs. p (snd x) \<longrightarrow> fst x \<noteq> fst kv) acc0)"
proof (induction xs arbitrary: n0 acc0)
  case Nil
  then show ?case by simp
next
  case (Cons x xs)
  then show ?case
    by (cases x) (auto simp: AList.delete_eq split_def intro!: filter_cong)
qed

lemma delete_where_filter:
  assumes "keys_distinct m"
  shows "delete_where p m = (int (length (filter (p \<circ> snd) m)), filter (Not \<circ> p \<circ> snd) m)"
proof -
  have "(\<forall>x \<in> set m. p (snd x) \<longrightarrow> fst x \<noteq> fst kv) \<longleftrightarrow> \<not> p (snd kv)" if "kv \<in> set m" for kv
    using assms that by (auto simp: keys_distinct_def distinct_map dest: inj_onD)
  then show ?thesis
    by (simp add: delete_where_def foldl_delete_where cong: filter_cong)
qed

text \<open>\<open>xs.find(p)\<close> is \<^const>\<open>List.find\<close>; \<open>xs.findIndex(p)\<close> is \<open>None\<close> for -1.\<close>

fun findIndex :: "('a \<Rightarrow> bool) \<Rightarrow> 'a list \<Rightarrow> nat option" where
  "findIndex p [] = None"
| "findIndex p (x # xs) = (if p x then Some 0 else map_option Suc (findIndex p xs))"

lemma findIndex_None_iff: "findIndex p xs = None \<longleftrightarrow> (\<forall>x \<in> set xs. \<not> p x)"
  by (induction xs) auto

lemma findIndex_SomeD:
  "findIndex p xs = Some i \<Longrightarrow> i < length xs \<and> p (xs ! i) \<and> (\<forall>j < i. \<not> p (xs ! j))"
proof (induction xs arbitrary: i)
  case Nil
  then show ?case by simp
next
  case (Cons x xs)
  then show ?case
    by (auto simp: nth_Cons less_Suc_eq_0_disj split: if_splits nat.splits)
qed

lemma find_findIndex:
  "List.find p xs = (case findIndex p xs of None \<Rightarrow> None | Some i \<Rightarrow> Some (xs ! i))"
  by (induction xs) (auto split: option.splits)

text \<open>\<open>xs.splice(i, 1)\<close> removes the element at \<open>i\<close>.\<close>

definition remove_at :: "nat \<Rightarrow> 'a list \<Rightarrow> 'a list" where
  "remove_at i xs = take i xs @ drop (Suc i) xs"

lemma list_update_key:
  assumes "distinct (map f xs)" "i < length xs"
  shows "xs[i := y] = map (\<lambda>s. if f s = f (xs ! i) then y else s) xs"
proof (rule nth_equalityI)
  fix j
  assume "j < length (xs[i := y])"
  moreover from this have "f (xs ! j) = f (xs ! i) \<longleftrightarrow> j = i"
    using assms nth_eq_iff_index_eq [of "map f xs" j i] by simp
  ultimately show "xs[i := y] ! j = map (\<lambda>s. if f s = f (xs ! i) then y else s) xs ! j"
    by (simp add: nth_list_update)
qed simp

lemma length_remove_at [simp]: "i < length xs \<Longrightarrow> length (remove_at i xs) = length xs - 1"
  by (simp add: remove_at_def)

lemma set_remove_at_subset: "set (remove_at i xs) \<subseteq> set xs"
  by (auto simp: remove_at_def dest: in_set_takeD in_set_dropD)

text \<open>\<open>xs.slice(-n)\<close> for a positive \<open>n\<close>: the last \<open>n\<close> elements, all of them if fewer.\<close>

definition slice_last :: "nat \<Rightarrow> 'a list \<Rightarrow> 'a list" where
  "slice_last n xs = drop (length xs - n) xs"

lemma length_slice_last [simp]: "length (slice_last n xs) = min n (length xs)"
  by (simp add: slice_last_def min_def)

lemma set_slice_last_subset: "set (slice_last n xs) \<subseteq> set xs"
  by (auto simp: slice_last_def dest: in_set_dropD)

lemma suffix_slice_last: "suffix (slice_last n xs) xs"
  by (simp add: slice_last_def suffix_drop)

lemma slice_last_all: "length xs \<le> n \<Longrightarrow> slice_last n xs = xs"
  by (simp add: slice_last_def)

lemma slice_last_append: "slice_last n (slice_last n xs @ ys) = slice_last n (xs @ ys)"
  by (cases "n \<le> length xs") (simp_all add: slice_last_def add.commute)

lemma rev_slice_last: "rev (slice_last n xs) = take n (rev xs)"
  by (cases "n \<le> length xs") (simp_all add: slice_last_def rev_drop)

text \<open>\<open>xs.slice(s, e)\<close>: negative positions count from the end, and both are clamped.\<close>

definition slice_pos :: "int \<Rightarrow> nat \<Rightarrow> nat" where
  "slice_pos p len = (if p < 0 then nat (int len + p) else min (nat p) len)"

definition js_slice :: "int \<Rightarrow> int option \<Rightarrow> 'a list \<Rightarrow> 'a list" where
  "js_slice s e xs =
     (let a = slice_pos s (length xs);
          b = (case e of None \<Rightarrow> length xs | Some p \<Rightarrow> slice_pos p (length xs))
      in take (b - a) (drop a xs))"

lemma js_slice_from_end: "0 < n \<Longrightarrow> js_slice (- int n) None xs = slice_last n xs"
  by (simp add: js_slice_def slice_pos_def slice_last_def Let_def nat_diff_distrib')

lemma js_slice_zero [simp]: "js_slice 0 None xs = xs"
  by (simp add: js_slice_def slice_pos_def)

lemma js_slice_prefix: "0 \<le> n \<Longrightarrow> js_slice 0 (Some n) xs = take (nat n) xs"
  by (auto simp: js_slice_def slice_pos_def Let_def min_def)

lemma set_js_slice_subset: "set (js_slice s e xs) \<subseteq> set xs"
  by (auto simp: js_slice_def Let_def dest: in_set_takeD in_set_dropD)

lemmas js_defs [js_simps] = startsWith_def has_nul_def finite_date_def map_has_def

end
