(* ===== verification/Auth_Types.thy ===== *)
theory Auth_Types
  imports Prelude
begin

text \<open>
  The data model of \<open>src/types/auth.ts\<close>: the roles and their hierarchy, accounts, sessions,
  TOTP secrets, backup-code sets, invitations and audit events, with the role predicates
  that file defines.
\<close>

section \<open>Roles\<close>

datatype admin_role =
  Super_admin | Admin | Moderator | Editor | Event_manager | Contributor | Member | Viewer

fun role_name :: "admin_role \<Rightarrow> string" where
  "role_name Super_admin = ''super_admin''"
| "role_name Admin = ''admin''"
| "role_name Moderator = ''moderator''"
| "role_name Editor = ''editor''"
| "role_name Event_manager = ''event_manager''"
| "role_name Contributor = ''contributor''"
| "role_name Member = ''member''"
| "role_name Viewer = ''viewer''"

definition ADMIN_ROLES :: "admin_role list" where
  "ADMIN_ROLES =
     [Super_admin, Admin, Moderator, Editor, Event_manager, Contributor, Member, Viewer]"

fun ROLE_HIERARCHY :: "admin_role \<Rightarrow> int" where
  "ROLE_HIERARCHY Super_admin = 100"
| "ROLE_HIERARCHY Admin = 90"
| "ROLE_HIERARCHY Moderator = 70"
| "ROLE_HIERARCHY Editor = 60"
| "ROLE_HIERARCHY Event_manager = 50"
| "ROLE_HIERARCHY Contributor = 40"
| "ROLE_HIERARCHY Member = 30"
| "ROLE_HIERARCHY Viewer = 10"

definition ROLE_MANAGEMENT_ORDER :: "admin_role list" where
  "ROLE_MANAGEMENT_ORDER = sort_key (\<lambda>r. - ROLE_HIERARCHY r) ADMIN_ROLES"

text \<open>
  Reading a table of type \<open>Record<AdminRole, _>\<close> at a string: the role of that name, if
  there is one.
\<close>

definition role_of :: "string \<Rightarrow> admin_role option" where
  "role_of s = List.find (\<lambda>r. role_name r = s) ADMIN_ROLES"

definition isValidAdminRole :: "string \<Rightarrow> bool" where
  "isValidAdminRole role \<longleftrightarrow> role \<in> set (map role_name ADMIN_ROLES)"

text \<open>
  The two comparisons of \<open>auth.ts\<close> at strings: an unknown role reads \<open>undefined\<close> from
  \<open>ROLE_HIERARCHY\<close>, and every comparison with \<open>undefined\<close> is false.
\<close>

definition hasHigherRole :: "string \<Rightarrow> string \<Rightarrow> bool" where
  "hasHigherRole userRole targetRole =
     (case (role_of userRole, role_of targetRole) of
        (Some u, Some t) \<Rightarrow> ROLE_HIERARCHY u > ROLE_HIERARCHY t
      | _ \<Rightarrow> False)"

definition hasEqualOrHigherRole :: "string \<Rightarrow> string \<Rightarrow> bool" where
  "hasEqualOrHigherRole userRole targetRole =
     (case (role_of userRole, role_of targetRole) of
        (Some u, Some t) \<Rightarrow> ROLE_HIERARCHY u \<ge> ROLE_HIERARCHY t
      | _ \<Rightarrow> False)"

lemma ROLE_HIERARCHY_inj [simp]: "ROLE_HIERARCHY r = ROLE_HIERARCHY r' \<longleftrightarrow> r = r'"
  by (cases r; cases r'; simp)

text \<open>The hierarchy orders the roles linearly, so the library's order lemmas apply to them.\<close>

instantiation admin_role :: linorder
begin

definition less_eq_admin_role :: "admin_role \<Rightarrow> admin_role \<Rightarrow> bool" where
  "less_eq_admin_role r r' \<longleftrightarrow> ROLE_HIERARCHY r \<le> ROLE_HIERARCHY r'"

definition less_admin_role :: "admin_role \<Rightarrow> admin_role \<Rightarrow> bool" where
  "less_admin_role r r' \<longleftrightarrow> ROLE_HIERARCHY r < ROLE_HIERARCHY r'"

instance
  by standard (auto simp: less_eq_admin_role_def less_admin_role_def)

end

lemmas role_order_defs = less_eq_admin_role_def less_admin_role_def

lemma set_ADMIN_ROLES [simp]: "r \<in> set ADMIN_ROLES"
  by (cases r) (simp_all add: ADMIN_ROLES_def)

lemma role_of_role_name [simp]: "role_of (role_name r) = Some r"
  by (cases r) (simp_all add: role_of_def ADMIN_ROLES_def)

lemma role_name_inj [simp]: "role_name r = role_name r' \<longleftrightarrow> r = r'"
  by (metis option.inject role_of_role_name)

lemma role_name_neq_Nil [simp]: "role_name r \<noteq> []" "[] \<noteq> role_name r"
  by (cases r; simp)+

lemma Super_admin_top [simp]: "r \<le> Super_admin" "\<not> Super_admin < r"
  by (cases r; simp add: role_order_defs)+

lemma role_of_Some_iff: "role_of s = Some r \<longleftrightarrow> s = role_name r"
proof
  assume "role_of s = Some r"
  then show "s = role_name r"
    by (auto simp: role_of_def find_Some_iff)
qed simp

lemma isValidAdminRole_iff: "isValidAdminRole s \<longleftrightarrow> (\<exists>r. s = role_name r)"
  by (auto simp: isValidAdminRole_def)

lemma isValidAdminRole_role_name [simp]: "isValidAdminRole (role_name r)"
  by (auto simp: isValidAdminRole_iff)

lemma role_of_None_iff: "role_of s = None \<longleftrightarrow> \<not> isValidAdminRole s"
  by (metis isValidAdminRole_iff not_None_eq role_of_Some_iff)

lemma hasHigherRole_names [simp]:
  "hasHigherRole (role_name r) (role_name r') \<longleftrightarrow> r > r'"
  by (simp add: hasHigherRole_def less_admin_role_def)

lemma hasEqualOrHigherRole_names [simp]:
  "hasEqualOrHigherRole (role_name r) (role_name r') \<longleftrightarrow> r \<ge> r'"
  by (simp add: hasEqualOrHigherRole_def less_eq_admin_role_def)

lemma hasEqualOrHigherRole_valid:
  "hasEqualOrHigherRole u t \<Longrightarrow> isValidAdminRole u \<and> isValidAdminRole t"
  by (auto simp: hasEqualOrHigherRole_def role_of_Some_iff split: option.splits)

section \<open>Accounts\<close>

datatype theme = Light | Dark | Auto

text \<open>
  \<open>AdminUser\<close>. The role is the string the record holds at run time, because stored records and
  session data are not checked against the role list. \<open>u_ownRemovedAt\<close> and \<open>u_ownRemovedBy\<close> say
  whether the object has an own property of that name, which the coordinators test with
  \<open>Object.hasOwn\<close>.
\<close>

record admin_user =
  u_id :: string
  u_handle :: string
  u_email :: "string option"
  u_displayName :: "string option"
  u_passwordHash :: string
  u_totpEnabled :: bool
  u_totpSecretId :: "string option"
  u_role :: string
  u_permissions :: "string list option"
  u_isActive :: bool
  u_isLocked :: "bool option"
  u_lockReason :: "string option"
  u_lockedAt :: "stamp option"
  u_needsOnboarding :: bool
  u_onboardingStep :: int
  u_firstLogin :: "bool option"
  u_createdAt :: stamp
  u_updatedAt :: stamp
  u_lastLoginAt :: "stamp option"
  u_passwordChangedAt :: "stamp option"
  u_bio :: "string option"
  u_avatarUrl :: "string option"
  u_pronouns :: "string option"
  u_timezone :: "string option"
  u_locale :: "string option"
  u_theme :: "theme option"
  u_emailNotifications :: "bool option"
  u_loginAttempts :: "int option"
  u_lastFailedLoginAt :: "stamp option"
  u_ipAddress :: "string option"
  u_userAgent :: "string option"
  u_githubId :: "int option"
  u_githubLogin :: "string option"
  u_githubLinkedAt :: "stamp option"
  u_ownRemovedAt :: bool
  u_ownRemovedBy :: bool

text \<open>An object literal that gives some properties of an account starts from this one, in which
  every optional property is missing.\<close>

definition blank_user :: admin_user where
  "blank_user =
     \<lparr>u_id = [], u_handle = [], u_email = None, u_displayName = None,
      u_passwordHash = [], u_totpEnabled = False, u_totpSecretId = None,
      u_role = [], u_permissions = None, u_isActive = False, u_isLocked = None,
      u_lockReason = None, u_lockedAt = None, u_needsOnboarding = False,
      u_onboardingStep = 0, u_firstLogin = None, u_createdAt = Iso 0, u_updatedAt = Iso 0,
      u_lastLoginAt = None, u_passwordChangedAt = None, u_bio = None, u_avatarUrl = None,
      u_pronouns = None, u_timezone = None, u_locale = None, u_theme = None,
      u_emailNotifications = None, u_loginAttempts = None, u_lastFailedLoginAt = None,
      u_ipAddress = None, u_userAgent = None, u_githubId = None, u_githubLogin = None,
      u_githubLinkedAt = None, u_ownRemovedAt = False, u_ownRemovedBy = False\<rparr>"

text \<open>An account for the concrete examples.\<close>

definition example_user :: "string \<Rightarrow> string \<Rightarrow> string \<Rightarrow> admin_user" where
  "example_user uid handle role =
     blank_user\<lparr>u_id := uid, u_handle := handle, u_passwordHash := ''hash'', u_role := role,
                u_isActive := True\<rparr>"

section \<open>Sessions\<close>

datatype device_type = Mobile | Tablet | Desktop | Unknown_device

record geo_location =
  geo_country :: string
  geo_city :: "string option"

text \<open>
  \<open>SessionUser\<close>. Its name, display name and role are required by the type, but
  \<open>updateSessionUser\<close> casts an object that may lack them, so they are optional here.
\<close>

record session_user =
  su_id :: string
  su_username :: "string option"
  su_name :: "string option"
  su_role :: "string option"
  su_needsOnboarding :: "bool option"
  su_onboardingStep :: "int option"

record session_metadata =
  md_clientIp :: string
  md_clientIpMasked :: "string option"
  md_userAgent :: string
  md_deviceType :: "device_type option"
  md_browserFingerprint :: "string option"
  md_geoLocation :: "geo_location option"

record session =
  s_id :: string
  s_userId :: string
  s_expires :: stamp
  s_expiresAt :: stamp
  s_createdAt :: stamp
  s_user :: "session_user option"
  s_clientIp :: string
  s_clientIpMasked :: "string option"
  s_userAgent :: string
  s_deviceType :: "device_type option"
  s_browserFingerprint :: "string option"
  s_geoLocation :: "geo_location option"
  s_tempTotpSecret :: "string option"
  s_tempTotpExpiresAt :: "stamp option"

section \<open>Credentials\<close>

record encrypted_totp_secret =
  ts_userId :: string
  ts_handle :: string
  ts_encryptedSecret :: string
  ts_iv :: string
  ts_authTag :: string
  ts_salt :: string
  ts_createdAt :: stamp
  ts_lastUsedAt :: "stamp option"
  ts_lastUsedTotpStep :: "int option"
  ts_backupCodesGenerated :: bool
  ts_version :: int

record totp_secret =
  tot_handle :: string
  tot_email :: "string option"
  tot_secret :: string
  tot_qrCodeUrl :: "string option"
  tot_createdAt :: int

record encrypted_backup_code =
  bc_id :: string
  bc_hash :: string
  bc_used :: bool
  bc_usedAt :: "stamp option"

record backup_code_set =
  bs_userId :: string
  bs_codes :: "encrypted_backup_code list"
  bs_generatedAt :: stamp
  bs_lastUsedAt :: "stamp option"

section \<open>Invitations\<close>

record invitation_metadata =
  im_inviterHandle :: string
  im_inviterDisplayName :: "string option"
  im_message :: "string option"
  im_customInstructions :: "string option"

record admin_invitation =
  i_id :: string
  i_token :: string
  i_email :: "string option"
  i_role :: string
  i_createdBy :: string
  i_createdAt :: stamp
  i_expiresAt :: stamp
  i_usedAt :: "stamp option"
  i_usedBy :: "string option"
  i_temporaryTotpSecret :: "string option"
  i_isActive :: bool
  i_metadata :: "invitation_metadata option"

section \<open>Audit events\<close>

datatype audit_event_type =
  LOGIN_SUCCESS | LOGIN_FAILURE | LOGOUT | SESSION_EXPIRED | SESSION_CREATED | SESSION_DESTROYED
| TOTP_ENABLED | TOTP_DISABLED | TOTP_SUCCESS | TOTP_FAILURE | BACKUP_CODE_USED
| BACKUP_CODES_REGENERATED
| USER_CREATED | USER_UPDATED | USER_DELETED | USER_LOCKED | USER_UNLOCKED | PASSWORD_CHANGED
| ROLE_CHANGED | ACCOUNT_LOCKED | ACCOUNT_UNLOCKED
| INVITATION_CREATED | INVITATION_SENT | INVITATION_ACCEPTED | INVITATION_REVOKED
| INVITATION_EXPIRED
| ONBOARDING_STARTED | ONBOARDING_STEP_COMPLETED | ONBOARDING_COMPLETED | ONBOARDING_SKIPPED
| BOOTSTRAP_INITIATED | BOOTSTRAP_COMPLETED | SYSTEM_CONFIGURED | SECURITY_SCAN

datatype audit_severity = Info | Warning | Error_severity | Critical

datatype audit_source = From_system | From_user | From_admin

text \<open>
  \<open>details\<close> is a \<open>Record<string, unknown>\<close>; the code reads only its strings, so it is the list
  of its string-valued entries.
\<close>

record audit_event =
  ae_id :: string
  ae_timestamp :: stamp
  ae_type :: audit_event_type
  ae_userId :: "string option"
  ae_targetUserId :: "string option"
  ae_handle :: "string option"
  ae_ipAddress :: "string option"
  ae_userAgent :: "string option"
  ae_details :: "(string \<times> string) list"
  ae_severity :: audit_severity
  ae_source :: audit_source

end
