(* ===== verification/Permissions.thy ===== *)
theory Permissions
  imports Auth_Types
begin

text \<open>
  Permissions and role-based access: the registry of \<open>src/types/permissions.ts\<close>
  (permission names, the \<open>ROLE_PERMISSIONS\<close> lattice, the explicit own-scope grants, feature
  domains and the role charter) and the checks of \<open>src/core/permissions/index.ts\<close>.
\<close>

section \<open>The permission registry\<close>

datatype permission =
  ADMIN_ACCESS | ADMIN_USERS_VIEW | ADMIN_USERS_MANAGE | ADMIN_USERS_DELETE
| ADMIN_CONTENT_VIEW | ADMIN_CONTENT_PUBLISH | ADMIN_CONTENT_MEDIA_CREATE
| ADMIN_CONTENT_MANAGE | ADMIN_CONTENT_MODERATE | ADMIN_CONTENT_DELETE
| ADMIN_EVENTS_VIEW | ADMIN_EVENTS_MANAGE | ADMIN_EVENTS_DELETE
| ADMIN_ANALYTICS_VIEW | ADMIN_ANALYTICS_EXPORT
| ADMIN_SETTINGS_VIEW | ADMIN_SETTINGS_MANAGE
| ADMIN_SECURITY_VIEW | ADMIN_SECURITY_MANAGE
| ADMIN_LOGS_VIEW | ADMIN_LOGS_EXPORT
| ADMIN_FEDERATION_VIEW | ADMIN_FEDERATION_DELIVER
| CONTENT_OWN_PUBLISH | FEDERATION_OWN_DELIVER

fun perm_name :: "permission \<Rightarrow> string" where
  "perm_name ADMIN_ACCESS = ''admin.access''"
| "perm_name ADMIN_USERS_VIEW = ''admin.users.view''"
| "perm_name ADMIN_USERS_MANAGE = ''admin.users.manage''"
| "perm_name ADMIN_USERS_DELETE = ''admin.users.delete''"
| "perm_name ADMIN_CONTENT_VIEW = ''admin.content.view''"
| "perm_name ADMIN_CONTENT_PUBLISH = ''admin.content.publish''"
| "perm_name ADMIN_CONTENT_MEDIA_CREATE = ''admin.content.media_create''"
| "perm_name ADMIN_CONTENT_MANAGE = ''admin.content.manage''"
| "perm_name ADMIN_CONTENT_MODERATE = ''admin.content.moderate''"
| "perm_name ADMIN_CONTENT_DELETE = ''admin.content.delete''"
| "perm_name ADMIN_EVENTS_VIEW = ''admin.events.view''"
| "perm_name ADMIN_EVENTS_MANAGE = ''admin.events.manage''"
| "perm_name ADMIN_EVENTS_DELETE = ''admin.events.delete''"
| "perm_name ADMIN_ANALYTICS_VIEW = ''admin.analytics.view''"
| "perm_name ADMIN_ANALYTICS_EXPORT = ''admin.analytics.export''"
| "perm_name ADMIN_SETTINGS_VIEW = ''admin.settings.view''"
| "perm_name ADMIN_SETTINGS_MANAGE = ''admin.settings.manage''"
| "perm_name ADMIN_SECURITY_VIEW = ''admin.security.view''"
| "perm_name ADMIN_SECURITY_MANAGE = ''admin.security.manage''"
| "perm_name ADMIN_LOGS_VIEW = ''admin.logs.view''"
| "perm_name ADMIN_LOGS_EXPORT = ''admin.logs.export''"
| "perm_name ADMIN_FEDERATION_VIEW = ''admin.federation.view''"
| "perm_name ADMIN_FEDERATION_DELIVER = ''admin.federation.deliver''"
| "perm_name CONTENT_OWN_PUBLISH = ''content.own.publish''"
| "perm_name FEDERATION_OWN_DELIVER = ''federation.own.deliver''"

definition ADMIN_PERMISSIONS :: "permission list" where
  "ADMIN_PERMISSIONS =
     [ADMIN_ACCESS, ADMIN_USERS_VIEW, ADMIN_USERS_MANAGE, ADMIN_USERS_DELETE,
      ADMIN_CONTENT_VIEW, ADMIN_CONTENT_PUBLISH, ADMIN_CONTENT_MEDIA_CREATE,
      ADMIN_CONTENT_MANAGE, ADMIN_CONTENT_MODERATE, ADMIN_CONTENT_DELETE,
      ADMIN_EVENTS_VIEW, ADMIN_EVENTS_MANAGE, ADMIN_EVENTS_DELETE,
      ADMIN_ANALYTICS_VIEW, ADMIN_ANALYTICS_EXPORT,
      ADMIN_SETTINGS_VIEW, ADMIN_SETTINGS_MANAGE,
      ADMIN_SECURITY_VIEW, ADMIN_SECURITY_MANAGE,
      ADMIN_LOGS_VIEW, ADMIN_LOGS_EXPORT,
      ADMIN_FEDERATION_VIEW, ADMIN_FEDERATION_DELIVER]"

definition PERMISSIONS :: "permission list" where
  "PERMISSIONS = ADMIN_PERMISSIONS @ [CONTENT_OWN_PUBLISH, FEDERATION_OWN_DELIVER]"

definition EXPLICIT_USER_PERMISSIONS :: "permission list" where
  "EXPLICIT_USER_PERMISSIONS = [CONTENT_OWN_PUBLISH, FEDERATION_OWN_DELIVER]"

fun ROLE_PERMISSIONS :: "admin_role \<Rightarrow> permission list" where
  "ROLE_PERMISSIONS Super_admin = ADMIN_PERMISSIONS"
| "ROLE_PERMISSIONS Admin =
     [ADMIN_ACCESS, ADMIN_USERS_VIEW, ADMIN_USERS_MANAGE, ADMIN_CONTENT_VIEW,
      ADMIN_CONTENT_PUBLISH, ADMIN_CONTENT_MEDIA_CREATE, ADMIN_CONTENT_MANAGE,
      ADMIN_CONTENT_DELETE, ADMIN_EVENTS_VIEW, ADMIN_EVENTS_MANAGE, ADMIN_EVENTS_DELETE,
      ADMIN_ANALYTICS_VIEW, ADMIN_SETTINGS_VIEW, ADMIN_LOGS_VIEW,
      ADMIN_FEDERATION_VIEW, ADMIN_FEDERATION_DELIVER]"
| "ROLE_PERMISSIONS Moderator =
     [ADMIN_ACCESS, ADMIN_CONTENT_VIEW, ADMIN_CONTENT_PUBLISH, ADMIN_CONTENT_MODERATE,
      ADMIN_USERS_VIEW, ADMIN_EVENTS_VIEW, ADMIN_ANALYTICS_VIEW, ADMIN_LOGS_VIEW,
      ADMIN_FEDERATION_VIEW, ADMIN_FEDERATION_DELIVER]"
| "ROLE_PERMISSIONS Editor =
     [ADMIN_ACCESS, ADMIN_CONTENT_VIEW, ADMIN_CONTENT_PUBLISH, ADMIN_CONTENT_MEDIA_CREATE,
      ADMIN_CONTENT_MANAGE, ADMIN_EVENTS_VIEW, ADMIN_ANALYTICS_VIEW]"
| "ROLE_PERMISSIONS Event_manager =
     [ADMIN_ACCESS, ADMIN_CONTENT_VIEW, ADMIN_CONTENT_PUBLISH, ADMIN_EVENTS_VIEW,
      ADMIN_EVENTS_MANAGE, ADMIN_ANALYTICS_VIEW]"
| "ROLE_PERMISSIONS Contributor =
     [ADMIN_ACCESS, ADMIN_CONTENT_VIEW, ADMIN_CONTENT_PUBLISH, ADMIN_CONTENT_MEDIA_CREATE,
      ADMIN_EVENTS_VIEW]"
| "ROLE_PERMISSIONS Member = [ADMIN_ACCESS, ADMIN_CONTENT_VIEW, ADMIN_EVENTS_VIEW]"
| "ROLE_PERMISSIONS Viewer = [ADMIN_ACCESS, ADMIN_ANALYTICS_VIEW]"

definition MEMBER_SELF_SERVICE_CORE :: "permission list" where
  "MEMBER_SELF_SERVICE_CORE = ROLE_PERMISSIONS Member"

datatype feature_domain =
  Access_domain | Users_domain | Content_domain | Events_domain | Analytics_domain
| Settings_domain | Security_domain | Logs_domain | Federation_domain

fun domain_name :: "feature_domain \<Rightarrow> string" where
  "domain_name Access_domain = ''access''"
| "domain_name Users_domain = ''users''"
| "domain_name Content_domain = ''content''"
| "domain_name Events_domain = ''events''"
| "domain_name Analytics_domain = ''analytics''"
| "domain_name Settings_domain = ''settings''"
| "domain_name Security_domain = ''security''"
| "domain_name Logs_domain = ''logs''"
| "domain_name Federation_domain = ''federation''"

fun PERMISSION_FEATURE_DOMAIN :: "permission \<Rightarrow> feature_domain" where
  "PERMISSION_FEATURE_DOMAIN ADMIN_ACCESS = Access_domain"
| "PERMISSION_FEATURE_DOMAIN ADMIN_USERS_VIEW = Users_domain"
| "PERMISSION_FEATURE_DOMAIN ADMIN_USERS_MANAGE = Users_domain"
| "PERMISSION_FEATURE_DOMAIN ADMIN_USERS_DELETE = Users_domain"
| "PERMISSION_FEATURE_DOMAIN ADMIN_CONTENT_VIEW = Content_domain"
| "PERMISSION_FEATURE_DOMAIN ADMIN_CONTENT_PUBLISH = Content_domain"
| "PERMISSION_FEATURE_DOMAIN ADMIN_CONTENT_MEDIA_CREATE = Content_domain"
| "PERMISSION_FEATURE_DOMAIN ADMIN_CONTENT_MANAGE = Content_domain"
| "PERMISSION_FEATURE_DOMAIN ADMIN_CONTENT_MODERATE = Content_domain"
| "PERMISSION_FEATURE_DOMAIN ADMIN_CONTENT_DELETE = Content_domain"
| "PERMISSION_FEATURE_DOMAIN ADMIN_EVENTS_VIEW = Events_domain"
| "PERMISSION_FEATURE_DOMAIN ADMIN_EVENTS_MANAGE = Events_domain"
| "PERMISSION_FEATURE_DOMAIN ADMIN_EVENTS_DELETE = Events_domain"
| "PERMISSION_FEATURE_DOMAIN ADMIN_ANALYTICS_VIEW = Analytics_domain"
| "PERMISSION_FEATURE_DOMAIN ADMIN_ANALYTICS_EXPORT = Analytics_domain"
| "PERMISSION_FEATURE_DOMAIN ADMIN_SETTINGS_VIEW = Settings_domain"
| "PERMISSION_FEATURE_DOMAIN ADMIN_SETTINGS_MANAGE = Settings_domain"
| "PERMISSION_FEATURE_DOMAIN ADMIN_SECURITY_VIEW = Security_domain"
| "PERMISSION_FEATURE_DOMAIN ADMIN_SECURITY_MANAGE = Security_domain"
| "PERMISSION_FEATURE_DOMAIN ADMIN_LOGS_VIEW = Logs_domain"
| "PERMISSION_FEATURE_DOMAIN ADMIN_LOGS_EXPORT = Logs_domain"
| "PERMISSION_FEATURE_DOMAIN ADMIN_FEDERATION_VIEW = Federation_domain"
| "PERMISSION_FEATURE_DOMAIN ADMIN_FEDERATION_DELIVER = Federation_domain"
| "PERMISSION_FEATURE_DOMAIN CONTENT_OWN_PUBLISH = Content_domain"
| "PERMISSION_FEATURE_DOMAIN FEDERATION_OWN_DELIVER = Federation_domain"

datatype role_axis = Governance_spine | Specialist

record role_charter_entry =
  axis :: role_axis
  rank :: int

fun ROLE_CHARTER :: "admin_role \<Rightarrow> role_charter_entry" where
  "ROLE_CHARTER Super_admin = \<lparr>axis = Governance_spine, rank = ROLE_HIERARCHY Super_admin\<rparr>"
| "ROLE_CHARTER Admin = \<lparr>axis = Governance_spine, rank = ROLE_HIERARCHY Admin\<rparr>"
| "ROLE_CHARTER Moderator = \<lparr>axis = Governance_spine, rank = ROLE_HIERARCHY Moderator\<rparr>"
| "ROLE_CHARTER Editor = \<lparr>axis = Specialist, rank = ROLE_HIERARCHY Editor\<rparr>"
| "ROLE_CHARTER Event_manager = \<lparr>axis = Specialist, rank = ROLE_HIERARCHY Event_manager\<rparr>"
| "ROLE_CHARTER Contributor = \<lparr>axis = Specialist, rank = ROLE_HIERARCHY Contributor\<rparr>"
| "ROLE_CHARTER Member = \<lparr>axis = Governance_spine, rank = ROLE_HIERARCHY Member\<rparr>"
| "ROLE_CHARTER Viewer = \<lparr>axis = Governance_spine, rank = ROLE_HIERARCHY Viewer\<rparr>"

section \<open>Permission checks\<close>

text \<open>
  \<open>ROLE_PERMISSIONS[role] || [ADMIN_ACCESS]\<close>: an unknown role gets the access floor. (A role
  string that names a member of \<open>Object.prototype\<close>, such as \<open>toString\<close>, would read that
  member; such strings are outside the model.)
\<close>

definition getRolePermissions :: "string \<Rightarrow> string list" where
  "getRolePermissions role =
     (case role_of role of
        Some r \<Rightarrow> map perm_name (ROLE_PERMISSIONS r)
      | None \<Rightarrow> [perm_name ADMIN_ACCESS])"

text \<open>\<open>user.permissions?.includes(permission) === true\<close>\<close>

definition holds_grant :: "admin_user \<Rightarrow> string \<Rightarrow> bool" where
  "holds_grant user permission =
     (case u_permissions user of None \<Rightarrow> False | Some ps \<Rightarrow> permission \<in> set ps)"

definition hasPermission :: "admin_user \<Rightarrow> string \<Rightarrow> bool" where
  "hasPermission user permission =
     (if permission \<in> set (map perm_name EXPLICIT_USER_PERMISSIONS) then holds_grant user permission
      else if u_role user = ''super_admin'' then True
      else if holds_grant user permission then True
      else permission \<in> set (getRolePermissions (u_role user)))"

definition hasAnyPermission :: "admin_user \<Rightarrow> string list \<Rightarrow> bool" where
  "hasAnyPermission user permissions = list_ex (hasPermission user) permissions"

definition hasAllPermissions :: "admin_user \<Rightarrow> string list \<Rightarrow> bool" where
  "hasAllPermissions user permissions = list_all (hasPermission user) permissions"

fun join_comma :: "string list \<Rightarrow> string" where
  "join_comma [] = ''''"
| "join_comma [s] = s"
| "join_comma (s # t # ts) = s @ '', '' @ join_comma (t # ts)"

definition requirePermission :: "admin_user \<Rightarrow> string \<Rightarrow> unit result" where
  "requirePermission user permission =
     (if \<not> hasPermission user permission
      then Inl (Error (''Permission denied: '' @ permission @ '' required'')) else Inr ())"

definition requireAnyPermission :: "admin_user \<Rightarrow> string list \<Rightarrow> unit result" where
  "requireAnyPermission user permissions =
     (if \<not> hasAnyPermission user permissions
      then Inl (Error (''Permission denied: one of ['' @ join_comma permissions @ ''] required''))
      else Inr ())"

definition requireAllPermissions :: "admin_user \<Rightarrow> string list \<Rightarrow> unit result" where
  "requireAllPermissions user permissions =
     (if \<not> hasAllPermissions user permissions
      then Inl (Error (''Permission denied: all of ['' @ join_comma permissions @ ''] required''))
      else Inr ())"

text \<open>\<open>[...new Set(xs)]\<close> keeps the first occurrence of each element.\<close>

fun spread_set :: "'a list \<Rightarrow> 'a list" where
  "spread_set [] = []"
| "spread_set (x # xs) = x # spread_set (removeAll x xs)"

definition getUserPermissions :: "admin_user \<Rightarrow> string list" where
  "getUserPermissions user =
     (if u_role user = ''super_admin'' then filter (hasPermission user) (map perm_name PERMISSIONS)
      else spread_set (getRolePermissions (u_role user) @ nullish (u_permissions user) []))"

definition dash_to_underscore :: "char \<Rightarrow> char" where
  "dash_to_underscore c = (if c = CHR ''-'' then CHR ''_'' else c)"

definition normalizeRole :: "string \<Rightarrow> string" where
  "normalizeRole role = map dash_to_underscore (toLowerCase role)"

definition canManageRole :: "string \<Rightarrow> string \<Rightarrow> bool" where
  "canManageRole actorRole targetRole =
     (let normalizedActor = normalizeRole actorRole; normalizedTarget = normalizeRole targetRole
      in if \<not> isValidAdminRole normalizedActor \<or> \<not> isValidAdminRole normalizedTarget then False
         else hasHigherRole normalizedActor normalizedTarget)"

definition isValidPermission :: "string \<Rightarrow> bool" where
  "isValidPermission permission \<longleftrightarrow> permission \<in> set (map perm_name PERMISSIONS)"

fun display_name :: "permission \<Rightarrow> string" where
  "display_name ADMIN_ACCESS = ''Admin Panel Access''"
| "display_name ADMIN_USERS_VIEW = ''View Users''"
| "display_name ADMIN_USERS_MANAGE = ''Manage Users''"
| "display_name ADMIN_USERS_DELETE = ''Delete Users''"
| "display_name ADMIN_CONTENT_VIEW = ''View Content''"
| "display_name ADMIN_CONTENT_PUBLISH = ''Publish Public Content''"
| "display_name ADMIN_CONTENT_MEDIA_CREATE = ''Create Media Content''"
| "display_name ADMIN_CONTENT_MANAGE = ''Manage Content''"
| "display_name ADMIN_CONTENT_MODERATE = ''Moderate Content''"
| "display_name ADMIN_CONTENT_DELETE = ''Delete Content''"
| "display_name ADMIN_EVENTS_VIEW = ''View Events''"
| "display_name ADMIN_EVENTS_MANAGE = ''Manage Events''"
| "display_name ADMIN_EVENTS_DELETE = ''Delete Events''"
| "display_name ADMIN_ANALYTICS_VIEW = ''View Analytics''"
| "display_name ADMIN_ANALYTICS_EXPORT = ''Export Analytics''"
| "display_name ADMIN_SETTINGS_VIEW = ''View Settings''"
| "display_name ADMIN_SETTINGS_MANAGE = ''Manage Settings''"
| "display_name ADMIN_SECURITY_VIEW = ''View Security''"
| "display_name ADMIN_SECURITY_MANAGE = ''Manage Security''"
| "display_name ADMIN_LOGS_VIEW = ''View Logs''"
| "display_name ADMIN_LOGS_EXPORT = ''Export Logs''"
| "display_name ADMIN_FEDERATION_VIEW = ''View Federation''"
| "display_name ADMIN_FEDERATION_DELIVER = ''Deliver Federation''"
| "display_name CONTENT_OWN_PUBLISH = ''Publish Own Public Content''"
| "display_name FEDERATION_OWN_DELIVER = ''Deliver Own Federation Content''"

definition getPermissionDisplayName :: "string \<Rightarrow> string" where
  "getPermissionDisplayName permission =
     (case List.find (\<lambda>p. perm_name p = permission) PERMISSIONS of
        Some p \<Rightarrow> display_name p
      | None \<Rightarrow> permission)"

section \<open>Role predicates\<close>

definition roleHoldsPermission :: "string \<Rightarrow> permission \<Rightarrow> bool" where
  "roleHoldsPermission role permission =
     (case role_of (normalizeRole role) of
        None \<Rightarrow> False
      | Some r \<Rightarrow> permission \<in> set (ROLE_PERMISSIONS r))"

definition roleHoldsAnyPermission :: "string \<Rightarrow> permission list \<Rightarrow> bool" where
  "roleHoldsAnyPermission role permissions = list_ex (roleHoldsPermission role) permissions"

definition canViewPosts :: "string \<Rightarrow> bool" where
  "canViewPosts role = roleHoldsPermission role ADMIN_ACCESS"

definition canCreatePosts :: "string \<Rightarrow> bool" where
  "canCreatePosts role = roleHoldsPermission role ADMIN_CONTENT_VIEW"

definition canEditPosts :: "string \<Rightarrow> bool" where
  "canEditPosts role = roleHoldsPermission role ADMIN_CONTENT_MANAGE"

definition canDeletePosts :: "string \<Rightarrow> bool" where
  "canDeletePosts role = roleHoldsPermission role ADMIN_CONTENT_DELETE"

definition canViewEvents :: "string \<Rightarrow> bool" where
  "canViewEvents role = roleHoldsPermission role ADMIN_ACCESS"

definition canCreateEvents :: "string \<Rightarrow> bool" where
  "canCreateEvents role = roleHoldsPermission role ADMIN_EVENTS_VIEW"

definition canEditEvents :: "string \<Rightarrow> bool" where
  "canEditEvents role = roleHoldsPermission role ADMIN_EVENTS_MANAGE"

definition canDeleteEvents :: "string \<Rightarrow> bool" where
  "canDeleteEvents role = roleHoldsPermission role ADMIN_EVENTS_DELETE"

definition canViewProfiles :: "string \<Rightarrow> bool" where
  "canViewProfiles role = roleHoldsPermission role ADMIN_ACCESS"

definition canCreateProfiles :: "string \<Rightarrow> bool" where
  "canCreateProfiles role = roleHoldsPermission role ADMIN_USERS_MANAGE"

definition canEditOwnProfile :: "string \<Rightarrow> bool" where
  "canEditOwnProfile role = roleHoldsPermission role ADMIN_ACCESS"

definition canEditAnyProfile :: "string \<Rightarrow> bool" where
  "canEditAnyProfile role = roleHoldsPermission role ADMIN_USERS_MANAGE"

definition canDeleteProfiles :: "string \<Rightarrow> bool" where
  "canDeleteProfiles role = roleHoldsPermission role ADMIN_USERS_DELETE"

definition canViewUsers :: "string \<Rightarrow> bool" where
  "canViewUsers role = roleHoldsPermission role ADMIN_USERS_VIEW"

definition canManageUsers :: "string \<Rightarrow> bool" where
  "canManageUsers role = roleHoldsPermission role ADMIN_USERS_MANAGE"

definition canViewVideos :: "string \<Rightarrow> bool" where
  "canViewVideos role = roleHoldsPermission role ADMIN_ACCESS"

definition canCreateVideos :: "string \<Rightarrow> bool" where
  "canCreateVideos role = roleHoldsPermission role ADMIN_CONTENT_MEDIA_CREATE"

definition canEditVideos :: "string \<Rightarrow> bool" where
  "canEditVideos role = roleHoldsPermission role ADMIN_CONTENT_MANAGE"

definition canDeleteVideos :: "string \<Rightarrow> bool" where
  "canDeleteVideos role = roleHoldsPermission role ADMIN_CONTENT_DELETE"

definition canCreatePublicContent :: "string \<Rightarrow> bool" where
  "canCreatePublicContent role = roleHoldsPermission role ADMIN_CONTENT_PUBLISH"

definition canCreateMemberOnlyContent :: "string \<Rightarrow> bool" where
  "canCreateMemberOnlyContent role = roleHoldsPermission role ADMIN_CONTENT_VIEW"

definition canFeatureProfile :: "string \<Rightarrow> bool" where
  "canFeatureProfile role = roleHoldsPermission role ADMIN_USERS_MANAGE"

definition canEditOwnContent :: "string \<Rightarrow> bool" where
  "canEditOwnContent role = roleHoldsPermission role ADMIN_CONTENT_VIEW"

definition canDeleteOwnContent :: "string \<Rightarrow> bool" where
  "canDeleteOwnContent role = roleHoldsPermission role ADMIN_CONTENT_VIEW"

definition canEditContent :: "string \<Rightarrow> bool" where
  "canEditContent role = roleHoldsAnyPermission role [ADMIN_CONTENT_MANAGE, ADMIN_CONTENT_MODERATE]"

definition canDeleteContent :: "string \<Rightarrow> bool" where
  "canDeleteContent role = roleHoldsPermission role ADMIN_CONTENT_DELETE"

definition isMemberRole :: "string \<Rightarrow> bool" where
  "isMemberRole role \<longleftrightarrow> normalizeRole role = ''member''"

definition canViewMemberOnlyContent :: "string \<Rightarrow> bool" where
  "canViewMemberOnlyContent role = roleHoldsPermission role ADMIN_CONTENT_VIEW"

definition canDeliverFederation :: "string \<Rightarrow> bool" where
  "canDeliverFederation role = roleHoldsPermission role ADMIN_FEDERATION_DELIVER"

definition getAllowedVisibilityOptions :: "string \<Rightarrow> string list" where
  "getAllowedVisibilityOptions role =
     (if \<not> canCreateMemberOnlyContent role then []
      else (if canCreatePublicContent role then [''public''] else [])
           @ [''members'']
           @ (if canDeleteContent role then [''admin''] else [])
           @ [''private''])"

text \<open>
  \<open>canViewContent\<close>: the visibility defaults to public; a missing or empty role is an anonymous
  reader; \<open>private\<close> needs both ids present and equal.
\<close>

definition canViewContent ::
  "string option \<Rightarrow> string option \<Rightarrow> string option \<Rightarrow> string option \<Rightarrow> bool" where
  "canViewContent visibility userRole authorId userId =
     (let v = toLowerCase (str_or visibility ''public'') in
      if v = ''public'' then True
      else if \<not> truthy userRole then False
      else let r = normalizeRole (the userRole) in
        if r = ''super_admin'' then True
        else if v = ''private'' then userId \<noteq> None \<and> authorId \<noteq> None \<and> userId = authorId
        else if v = ''admin'' then
          roleHoldsAnyPermission r [ADMIN_CONTENT_MANAGE, ADMIN_CONTENT_MODERATE, ADMIN_EVENTS_MANAGE]
        else if v = ''members'' then roleHoldsPermission r ADMIN_CONTENT_VIEW
        else False)"

record content_item =
  ci_visibility :: "string option"
  ci_authorId :: "string option"

definition filterContentByVisibility ::
  "'a content_item_scheme list \<Rightarrow> string option \<Rightarrow> string option \<Rightarrow> 'a content_item_scheme list" where
  "filterContentByVisibility items userRole userId =
     filter (\<lambda>item. canViewContent (ci_visibility item) userRole (ci_authorId item) userId) items"

lemmas role_predicate_defs =
  canViewPosts_def canCreatePosts_def canEditPosts_def canDeletePosts_def
  canViewEvents_def canCreateEvents_def canEditEvents_def canDeleteEvents_def
  canViewProfiles_def canCreateProfiles_def canEditOwnProfile_def canEditAnyProfile_def
  canDeleteProfiles_def canViewUsers_def canManageUsers_def canViewVideos_def
  canCreateVideos_def canEditVideos_def canDeleteVideos_def canCreatePublicContent_def
  canCreateMemberOnlyContent_def canFeatureProfile_def canEditOwnContent_def
  canDeleteOwnContent_def canEditContent_def canDeleteContent_def
  canViewMemberOnlyContent_def canDeliverFederation_def

section \<open>Lemmas\<close>

lemma set_PERMISSIONS [simp]: "p \<in> set PERMISSIONS"
  by (cases p) (simp_all add: PERMISSIONS_def ADMIN_PERMISSIONS_def)

lemma distinct_perm_names: "distinct (map perm_name PERMISSIONS)"
  by code_simp

lemma perm_name_inj [simp]: "perm_name p = perm_name q \<longleftrightarrow> p = q"
  using distinct_perm_names by (auto simp: distinct_map dest: inj_onD)

lemma perm_name_in_map [simp]: "perm_name p \<in> set (map perm_name ps) \<longleftrightarrow> p \<in> set ps"
  by auto

lemma perm_name_in_image [simp]: "perm_name p \<in> perm_name ` A \<longleftrightarrow> p \<in> A"
  by auto

lemma isValidPermission_iff: "isValidPermission s \<longleftrightarrow> (\<exists>p. s = perm_name p)"
  by (auto simp: isValidPermission_def)

lemma explicit_iff:
  "p \<in> set EXPLICIT_USER_PERMISSIONS \<longleftrightarrow> p = CONTENT_OWN_PUBLISH \<or> p = FEDERATION_OWN_DELIVER"
  by (auto simp: EXPLICIT_USER_PERMISSIONS_def)

lemma set_ADMIN_PERMISSIONS:
  "p \<in> set ADMIN_PERMISSIONS \<longleftrightarrow> p \<notin> set EXPLICIT_USER_PERMISSIONS"
  by (cases p) (simp_all add: ADMIN_PERMISSIONS_def EXPLICIT_USER_PERMISSIONS_def)

lemma role_permissions_admin: "p \<in> set (ROLE_PERMISSIONS r) \<Longrightarrow> p \<in> set ADMIN_PERMISSIONS"
  by (cases r) (auto simp: set_ADMIN_PERMISSIONS explicit_iff)

lemma getRolePermissions_role_name [simp]:
  "getRolePermissions (role_name r) = map perm_name (ROLE_PERMISSIONS r)"
  by (simp add: getRolePermissions_def)

lemma getRolePermissions_valid:
  assumes "s \<in> set (getRolePermissions role)"
  shows "\<exists>p \<in> set ADMIN_PERMISSIONS. s = perm_name p"
proof (cases "role_of role")
  case None
  then have "s = perm_name ADMIN_ACCESS"
    using assms by (simp add: getRolePermissions_def)
  then show ?thesis
    by (intro bexI [of _ ADMIN_ACCESS]) (simp_all add: set_ADMIN_PERMISSIONS explicit_iff)
next
  case (Some r)
  then show ?thesis
    using assms role_permissions_admin by (auto simp: getRolePermissions_def)
qed

lemma getRolePermissions_not_explicit:
  "s \<in> set (getRolePermissions role) \<Longrightarrow> s \<notin> perm_name ` set EXPLICIT_USER_PERMISSIONS"
  by (auto dest!: getRolePermissions_valid simp: set_ADMIN_PERMISSIONS)

lemma set_spread_set [simp]: "set (spread_set xs) = set xs"
  by (induction xs rule: spread_set.induct) auto

lemma distinct_spread_set [simp]: "distinct (spread_set xs)"
  by (induction xs rule: spread_set.induct) auto

lemma spread_set_id: "distinct xs \<Longrightarrow> spread_set xs = xs"
  by (induction xs rule: spread_set.induct) (auto simp: removeAll_id)

lemma normalizeRole_role_name [simp]: "normalizeRole (role_name r) = role_name r"
proof -
  have "\<forall>r \<in> set ADMIN_ROLES. normalizeRole (role_name r) = role_name r"
    by code_simp
  then show ?thesis by simp
qed

lemma dash_lower_char [simp]:
  "lower_char (dash_to_underscore (lower_char c)) = dash_to_underscore (lower_char c)"
  by (cases "lower_char c = CHR ''-''") (simp_all add: dash_to_underscore_def, code_simp)

lemma dash_idem [simp]: "dash_to_underscore (dash_to_underscore c) = dash_to_underscore c"
  by (simp add: dash_to_underscore_def)

lemma normalizeRole_idem [simp]: "normalizeRole (normalizeRole s) = normalizeRole s"
  by (simp add: normalizeRole_def toLowerCase_def)

lemma roleHoldsPermission_normalizeRole [simp]:
  "roleHoldsPermission (normalizeRole role) p = roleHoldsPermission role p"
  by (simp add: roleHoldsPermission_def)

lemma roleHoldsPermission_role_name [simp]:
  "roleHoldsPermission (role_name r) p \<longleftrightarrow> p \<in> set (ROLE_PERMISSIONS r)"
  by (simp add: roleHoldsPermission_def)

lemma roleHoldsPermission_iff:
  "roleHoldsPermission role p \<longleftrightarrow>
     (\<exists>r. normalizeRole role = role_name r \<and> p \<in> set (ROLE_PERMISSIONS r))"
  by (auto simp: roleHoldsPermission_def role_of_Some_iff split: option.splits)

lemma canManageRole_iff:
  "canManageRole a t \<longleftrightarrow>
     (\<exists>ra rt. normalizeRole a = role_name ra \<and> normalizeRole t = role_name rt \<and> ra > rt)"
  by (auto simp: canManageRole_def Let_def isValidAdminRole_iff)

lemma member_floor: "Member \<le> r \<Longrightarrow> set (ROLE_PERMISSIONS Member) \<subseteq> set (ROLE_PERMISSIONS r)"
  by (cases r) (auto simp: role_order_defs ADMIN_PERMISSIONS_def)

lemma hasPermission_own:
  "p \<in> set EXPLICIT_USER_PERMISSIONS \<Longrightarrow> hasPermission u (perm_name p) = holds_grant u (perm_name p)"
  by (simp add: hasPermission_def)

lemma hasPermission_super_admin:
  "u_role u = ''super_admin'' \<Longrightarrow> p \<in> set ADMIN_PERMISSIONS \<Longrightarrow> hasPermission u (perm_name p)"
  by (simp add: hasPermission_def set_ADMIN_PERMISSIONS)

lemma hasPermission_grant: "holds_grant u s \<Longrightarrow> hasPermission u s"
  by (simp add: hasPermission_def)

lemma hasPermission_role: "s \<in> set (getRolePermissions (u_role u)) \<Longrightarrow> hasPermission u s"
  by (simp add: hasPermission_def getRolePermissions_not_explicit)

lemma hasPermission_non_super:
  "u_role u \<noteq> ''super_admin'' \<Longrightarrow>
   hasPermission u s \<longleftrightarrow> holds_grant u s \<or> s \<in> set (getRolePermissions (u_role u))"
  using getRolePermissions_not_explicit by (auto simp: hasPermission_def)

lemma holds_grant_iff: "holds_grant u s \<longleftrightarrow> s \<in> set (nullish (u_permissions u) [])"
  by (simp add: holds_grant_def split: option.split)

section \<open>Properties\<close>

text \<open>
  C24. Own-scope permissions come from the account's explicit grants alone: whatever role the
  account is given, the check answers the same, and a \<open>super_admin\<close> without the grant is refused.
\<close>

theorem own_permission_role_independent:
  assumes "p = CONTENT_OWN_PUBLISH \<or> p = FEDERATION_OWN_DELIVER"
  shows "hasPermission (u\<lparr>u_role := r\<rparr>) (perm_name p) = hasPermission u (perm_name p)
    \<and> hasPermission u (perm_name p) = holds_grant u (perm_name p)
    \<and> perm_name p \<notin> set (getRolePermissions r)"
proof -
  from assms have p: "p \<in> set EXPLICIT_USER_PERMISSIONS"
    by (simp add: explicit_iff)
  then have "perm_name p \<notin> set (getRolePermissions r)"
    by (auto dest: getRolePermissions_not_explicit)
  with p show ?thesis
    by (simp add: hasPermission_own holds_grant_def)
qed

text \<open>
  C33. \<open>getUserPermissions\<close> lists, without repetition, exactly the names \<open>hasPermission\<close>
  grants, among them an explicit grant of a name that is not registered; for a \<open>super_admin\<close>,
  whose check accepts every name that is not an own-scope permission, it lists exactly the
  registered names that are granted.
\<close>

theorem getUserPermissions_iff_hasPermission:
  "distinct (getUserPermissions u) \<and>
   (s \<in> set (getUserPermissions u) \<longleftrightarrow>
     hasPermission u s \<and> (if u_role u = ''super_admin'' then isValidPermission s else True))"
proof (cases "u_role u = ''super_admin''")
  case True
  then show ?thesis
    using distinct_perm_names by (auto simp: getUserPermissions_def isValidPermission_def)
next
  case False
  then show ?thesis
    by (auto simp: getUserPermissions_def hasPermission_non_super holds_grant_iff)
qed

text \<open>
  Invariant P2 of the role charter, at the account check: a role of rank \<open>member\<close> or above,
  however it is spelled, holds every permission of the member self-service core, and so does
  every account of such a role.
\<close>

theorem member_core_floor:
  assumes "Member \<le> r" and "p \<in> set MEMBER_SELF_SERVICE_CORE"
    and "normalizeRole s = role_name r"
  shows "roleHoldsPermission s p \<and> hasPermission (u\<lparr>u_role := role_name r\<rparr>) (perm_name p)"
proof -
  have p: "p \<in> set (ROLE_PERMISSIONS r)"
    using member_floor [OF assms(1)] assms(2) by (auto simp: MEMBER_SELF_SERVICE_CORE_def)
  have "hasPermission (u\<lparr>u_role := role_name r\<rparr>) (perm_name p)"
    by (rule hasPermission_role) (use p in simp)
  with p assms(3) show ?thesis
    by (auto simp: roleHoldsPermission_iff)
qed

theorem member_core_floor_witness:
  "roleHoldsPermission ''Event-Manager'' ADMIN_EVENTS_VIEW"
proof -
  have "normalizeRole ''Event-Manager'' = role_name Event_manager" by code_simp
  then show ?thesis
    using member_core_floor [of Event_manager ADMIN_EVENTS_VIEW "''Event-Manager''"]
    by (simp add: role_order_defs MEMBER_SELF_SERVICE_CORE_def)
qed

theorem own_permission_role_independent_witness:
  "\<not> hasPermission (example_user ''1'' ''ada'' ''super_admin'') (perm_name CONTENT_OWN_PUBLISH)"
  using own_permission_role_independent
    [of CONTENT_OWN_PUBLISH "''super_admin''" "example_user ''1'' ''ada'' ''super_admin''"]
  by (simp add: holds_grant_def example_user_def blank_user_def)

text \<open>
  C25. Role management is a strict order on the roles: no role manages its own rank, management
  is transitive, of two different valid roles exactly one manages the other, nobody manages
  \<open>super_admin\<close>, and spelling (case, hyphens) does not matter.
\<close>

theorem canManageRole_strict_order:
  "\<not> canManageRole a a
   \<and> (canManageRole a b \<and> canManageRole b c \<longrightarrow> canManageRole a c)
   \<and> (normalizeRole a = role_name ra \<and> normalizeRole b = role_name rb \<and> ra \<noteq> rb \<longrightarrow>
        canManageRole a b \<noteq> canManageRole b a)
   \<and> \<not> canManageRole a ''super_admin''
   \<and> canManageRole (normalizeRole a) b = canManageRole a b"
proof -
  have top: "\<not> canManageRole a ''super_admin''"
    using normalizeRole_role_name [of Super_admin]
    by (auto simp: canManageRole_iff role_name_inj [of Super_admin, simplified])
  have trans: "canManageRole a b \<Longrightarrow> canManageRole b c \<Longrightarrow> canManageRole a c"
    by (force simp: canManageRole_iff)
  show ?thesis
    using top trans by (auto simp: canManageRole_iff)
qed

theorem canManageRole_strict_order_witness:
  "canManageRole ''Super-Admin'' ''moderator'' \<and> canManageRole ''moderator'' ''viewer''
   \<and> canManageRole ''Super-Admin'' ''viewer''"
proof -
  have "canManageRole ''Super-Admin'' ''moderator''" "canManageRole ''moderator'' ''viewer''"
    by code_simp+
  then show ?thesis
    using canManageRole_strict_order [of "''Super-Admin''" "''moderator''" "''viewer''"] by blast
qed

text \<open>
  What an author may choose is what the author may read: every visibility
  \<open>getAllowedVisibilityOptions\<close> offers a role lets an author of that role read the result.
\<close>

theorem authored_content_visible:
  assumes "v \<in> set (getAllowedVisibilityOptions role)"
  shows "canViewContent (Some v) (Some role) (Some me) (Some me)"
proof -
  have lower: "toLowerCase ''public'' = ''public''" "toLowerCase ''members'' = ''members''"
    "toLowerCase ''admin'' = ''admin''" "toLowerCase ''private'' = ''private''"
    by code_simp+
  have nonempty: "role \<noteq> []" if "roleHoldsPermission role p" for p
    using that by (auto simp: roleHoldsPermission_iff normalizeRole_def toLowerCase_def)
  have "ADMIN_CONTENT_DELETE \<in> set (ROLE_PERMISSIONS r) \<Longrightarrow>
      ADMIN_CONTENT_MANAGE \<in> set (ROLE_PERMISSIONS r)" for r
    by (cases r) (simp_all add: ADMIN_PERMISSIONS_def)
  then have del: "roleHoldsPermission role ADMIN_CONTENT_MANAGE"
    if "roleHoldsPermission role ADMIN_CONTENT_DELETE"
    using that by (auto simp: roleHoldsPermission_iff)
  show ?thesis
    using assms nonempty del
    by (auto simp: getAllowedVisibilityOptions_def canViewContent_def role_predicate_defs
        roleHoldsAnyPermission_def lower split: if_splits)
qed

theorem authored_content_visible_witness:
  "''members'' \<in> set (getAllowedVisibilityOptions ''contributor'')
   \<and> canViewContent (Some ''members'') (Some ''contributor'') (Some ''7'') (Some ''7'')"
proof -
  have options: "''members'' \<in> set (getAllowedVisibilityOptions ''contributor'')"
    by code_simp
  show ?thesis
    using options authored_content_visible [OF options, of "''7''"] by simp
qed

end
