(* ===== verification/Ownership.thy ===== *)
theory Ownership
  imports Permissions
begin

text \<open>
  Content ownership, \<open>src/core/permissions/ownership.ts\<close>, and its SvelteKit twin
  \<open>src/adapters/sveltekit/ownership.ts\<close>: who the author of a piece of content is, and which
  user may edit or delete it. The two \<open>can*\<close> functions share their names with the role
  predicates of \<^theory_text>\<open>Permissions\<close>; here they carry the names the index re-exports them
  under, \<open>canEditOwnedContent\<close> and \<open>canDeleteOwnedContent\<close>.
\<close>

record ownership_user =
  ou_id :: string
  ou_role :: "string option"
  ou_handle :: "string option"
  ou_username :: "string option"

record author_ref =
  au_id :: "string option"
  au_handle :: "string option"

record frontmatter =
  fm_authorId :: "string option"
  fm_authorHandle :: "string option"
  fm_author :: "author_ref option"

record owned_content =
  oc_authorId :: "string option"
  oc_authorHandle :: "string option"
  oc_author :: "author_ref option"
  oc_frontmatter :: "frontmatter option"

text \<open>Optional chaining: \<open>o?.f\<close> is missing when \<open>o\<close> is.\<close>

definition chain :: "'a option \<Rightarrow> ('a \<Rightarrow> 'b option) \<Rightarrow> 'b option" where
  "chain v f = (case v of None \<Rightarrow> None | Some a \<Rightarrow> f a)"

definition extractAuthorId :: "owned_content \<Rightarrow> string option" where
  "extractAuthorId content =
     (if truthy (oc_authorId content) then oc_authorId content
      else if truthy (chain (oc_author content) au_id) then chain (oc_author content) au_id
      else if truthy (chain (oc_frontmatter content) fm_authorId)
        then chain (oc_frontmatter content) fm_authorId
      else if truthy (chain (chain (oc_frontmatter content) fm_author) au_id)
        then chain (chain (oc_frontmatter content) fm_author) au_id
      else None)"

definition extractAuthorHandle :: "owned_content \<Rightarrow> string option" where
  "extractAuthorHandle content =
     (if truthy (oc_authorHandle content) then oc_authorHandle content
      else if truthy (chain (oc_author content) au_handle) then chain (oc_author content) au_handle
      else if truthy (chain (oc_frontmatter content) fm_authorHandle)
        then chain (oc_frontmatter content) fm_authorHandle
      else if truthy (chain (chain (oc_frontmatter content) fm_author) au_handle)
        then chain (chain (oc_frontmatter content) fm_author) au_handle
      else None)"

definition isContentOwner :: "ownership_user \<Rightarrow> owned_content \<Rightarrow> bool" where
  "isContentOwner user content =
     (let contentAuthorId = extractAuthorId content;
          contentAuthorHandle = extractAuthorHandle content
      in if truthy contentAuthorId \<and> Some (ou_id user) = contentAuthorId then True
         else let userHandle = (if truthy (ou_handle user) then ou_handle user else ou_username user)
              in if truthy contentAuthorHandle \<and> userHandle = contentAuthorHandle then True
                 else False)"

definition canEditOwnedContent :: "ownership_user \<Rightarrow> owned_content \<Rightarrow> bool" where
  "canEditOwnedContent user content =
     (if \<not> truthy (ou_role user) then False
      else let role = the (ou_role user) in
        if role \<in> set [''super_admin'', ''admin'', ''editor''] then True
        else if role = ''moderator'' then True
        else if role = ''event_manager'' then True
        else if role \<in> set [''contributor'', ''member''] then isContentOwner user content
        else False)"

definition canDeleteOwnedContent :: "ownership_user \<Rightarrow> owned_content \<Rightarrow> bool" where
  "canDeleteOwnedContent user content =
     (if \<not> truthy (ou_role user) then False
      else let role = the (ou_role user) in
        if role \<in> set [''super_admin'', ''admin''] then True
        else if role \<in> set [''contributor'', ''member''] then isContentOwner user content
        else if role = ''event_manager'' then isContentOwner user content
        else False)"

datatype ownership_error = FORBIDDEN string

definition requireContentEditPermission ::
  "ownership_user \<Rightarrow> owned_content \<Rightarrow> ownership_error + unit" where
  "requireContentEditPermission user content =
     (if \<not> canEditOwnedContent user content
      then Inl (FORBIDDEN ''You do not have permission to edit this content'') else Inr ())"

definition requireContentDeletePermission ::
  "ownership_user \<Rightarrow> owned_content \<Rightarrow> ownership_error + unit" where
  "requireContentDeletePermission user content =
     (if \<not> canDeleteOwnedContent user content
      then Inl (FORBIDDEN ''You do not have permission to delete this content'') else Inr ())"

definition isSoleOwner :: "ownership_user \<Rightarrow> owned_content \<Rightarrow> bool" where
  "isSoleOwner user content =
     (let role = ou_role user in
      if truthy role \<and> the role \<in> set [''super_admin'', ''admin'', ''editor'', ''moderator'']
      then False else isContentOwner user content)"

section \<open>Lemmas\<close>

lemma truthy_extractAuthorId: "extractAuthorId content \<noteq> None \<Longrightarrow> truthy (extractAuthorId content)"
  by (auto simp: extractAuthorId_def split: if_splits)

lemma truthy_extractAuthorHandle:
  "extractAuthorHandle content \<noteq> None \<Longrightarrow> truthy (extractAuthorHandle content)"
  by (auto simp: extractAuthorHandle_def split: if_splits)

lemma isContentOwner_iff:
  "isContentOwner user content \<longleftrightarrow>
     extractAuthorId content = Some (ou_id user) \<or>
     (extractAuthorHandle content \<noteq> None \<and>
      extractAuthorHandle content =
        (if truthy (ou_handle user) then ou_handle user else ou_username user))"
  using truthy_extractAuthorId [of content] truthy_extractAuthorHandle [of content]
  by (auto simp: isContentOwner_def Let_def)

lemma canEdit_cases:
  "canEditOwnedContent user content \<longleftrightarrow>
     (\<exists>role. ou_role user = Some role \<and>
        (role \<in> role_name ` {Super_admin, Admin, Editor, Moderator, Event_manager} \<or>
         role \<in> role_name ` {Contributor, Member} \<and> isContentOwner user content))"
  by (auto simp: canEditOwnedContent_def Let_def truthy_iff)

lemma canDelete_cases:
  "canDeleteOwnedContent user content \<longleftrightarrow>
     (\<exists>role. ou_role user = Some role \<and>
        (role \<in> role_name ` {Super_admin, Admin} \<or>
         role \<in> role_name ` {Contributor, Member, Event_manager} \<and> isContentOwner user content))"
  by (auto simp: canDeleteOwnedContent_def Let_def truthy_iff)

lemma canEdit_role:
  "canEditOwnedContent user content \<Longrightarrow> \<exists>r. ou_role user = Some (role_name r) \<and> r \<noteq> Viewer"
  unfolding canEdit_cases by (auto simp del: image_insert)

lemma canDelete_canEdit: "canDeleteOwnedContent user content \<Longrightarrow> canEditOwnedContent user content"
  unfolding canEdit_cases canDelete_cases by (auto simp del: image_insert role_name.simps)

lemma canDelete_owner:
  "canDeleteOwnedContent user content \<Longrightarrow>
   ou_role user \<in> {Some ''super_admin'', Some ''admin''} \<or> isContentOwner user content"
  unfolding canDelete_cases by auto

section \<open>Properties\<close>

text \<open>
  Deleting needs more than editing: whoever may delete a piece of content may edit it, and
  anyone but a \<open>super_admin\<close> or \<open>admin\<close> who may delete it owns it; a viewer, an unknown role
  and a user with no role may do neither.
\<close>

theorem delete_implies_edit:
  "(canDeleteOwnedContent user content \<longrightarrow> canEditOwnedContent user content)
   \<and> (canDeleteOwnedContent user content \<longrightarrow>
        ou_role user \<in> {Some ''super_admin'', Some ''admin''} \<or> isContentOwner user content)
   \<and> (ou_role user = None \<or> ou_role user = Some ''viewer'' \<or>
        (\<exists>role. ou_role user = Some role \<and> \<not> isValidAdminRole role) \<longrightarrow>
        \<not> canEditOwnedContent user content \<and> \<not> canDeleteOwnedContent user content)"
proof (intro conjI impI)
  assume no_role: "ou_role user = None \<or> ou_role user = Some ''viewer'' \<or>
    (\<exists>role. ou_role user = Some role \<and> \<not> isValidAdminRole role)"
  show edit: "\<not> canEditOwnedContent user content"
  proof
    assume "canEditOwnedContent user content"
    then obtain r where "ou_role user = Some (role_name r)" "r \<noteq> Viewer"
      by (blast dest: canEdit_role)
    with no_role show False
      using role_name_inj [of r Viewer] by simp
  qed
  then show "\<not> canDeleteOwnedContent user content"
    by (blast dest: canDelete_canEdit)
qed (simp_all only: canDelete_canEdit canDelete_owner)

theorem delete_implies_edit_witness:
  "canEditOwnedContent \<lparr>ou_id = ''7'', ou_role = Some ''member'', ou_handle = None, ou_username = None\<rparr>
     \<lparr>oc_authorId = Some ''7'', oc_authorHandle = None, oc_author = None, oc_frontmatter = None\<rparr>"
  using delete_implies_edit
    [of "\<lparr>ou_id = ''7'', ou_role = Some ''member'', ou_handle = None, ou_username = None\<rparr>"
        "\<lparr>oc_authorId = Some ''7'', oc_authorHandle = None, oc_author = None, oc_frontmatter = None\<rparr>"]
  by (simp add: canDeleteOwnedContent_def isContentOwner_iff extractAuthorId_def)

end
