(* ===== verification/Session_Policy.thy ===== *)
theory Session_Policy
  imports Auth_Types "HOL-Library.List_Lexorder" "HOL-Library.Product_Lexorder"
begin

text \<open>
  The bounded-session policy, \<open>src/storage/session-policy.ts\<close>: validation of a policy and of a
  stored session list, and the replacement list that holds a new session and the newest of the
  owner's live ones. Session ids are compared by code unit, the library's lexicographic order.
\<close>

definition isSafeInteger :: "int \<Rightarrow> bool" where
  "isSafeInteger n \<longleftrightarrow> - (2 ^ 53 - 1) \<le> n \<and> n \<le> 2 ^ 53 - 1"

record bounded_session_policy =
  maxConcurrentSessions :: int
  overflow :: string

definition assertBoundedSessionPolicy :: "bounded_session_policy \<Rightarrow> unit result" where
  "assertBoundedSessionPolicy policy =
     (if \<not> isSafeInteger (maxConcurrentSessions policy) \<or> maxConcurrentSessions policy < 1 \<or>
         overflow policy \<noteq> ''evict-oldest-created''
      then Inl (Error ''Invalid bounded session policy'') else Inr ())"

text \<open>
  \<open>assertStoredSessions\<close> on a list of session records: the loop over the sessions with the ids
  seen so far. (That the value is an array of objects with string fields is the record type.)
\<close>

fun stored_sessions_loop :: "string set \<Rightarrow> session list \<Rightarrow> unit result" where
  "stored_sessions_loop ids [] = Inr ()"
| "stored_sessions_loop ids (s # rest) =
     (if s_id s = [] \<or> has_nul (s_id s) \<or> s_userId s = [] \<or> has_nul (s_userId s) \<or>
         \<not> finite_date (s_createdAt s) \<or> \<not> finite_date (s_expires s) \<or> s_id s \<in> ids
      then Inl (Error ''Invalid session store'')
      else stored_sessions_loop (insert (s_id s) ids) rest)"

definition assertStoredSessions :: "session list \<Rightarrow> unit result" where
  "assertStoredSessions value = stored_sessions_loop {} value"

text \<open>The comparator of the sort: creation time, then id.\<close>

definition creation_key :: "session \<Rightarrow> int \<times> string" where
  "creation_key s = (the (date_parse (s_createdAt s)), s_id s)"

definition boundedSessions ::
  "session list \<Rightarrow> session \<Rightarrow> bounded_session_policy \<Rightarrow> int \<Rightarrow> session list result" where
  "boundedSessions sessions session policy now =
     (case assertBoundedSessionPolicy policy of Inl e \<Rightarrow> Inl e | Inr _ \<Rightarrow>
      case assertStoredSessions (sessions @ [session]) of Inl e \<Rightarrow> Inl e | Inr _ \<Rightarrow>
        let own = filter (\<lambda>item. s_userId item = s_userId session \<and> after (s_expires item) now) sessions;
            sorted_own = sort_key creation_key own;
            retained = drop (length sorted_own - nat (maxConcurrentSessions policy - 1)) sorted_own
        in Inr (filter (\<lambda>item. s_userId item \<noteq> s_userId session) sessions @ retained @ [session]))"

section \<open>Lemmas\<close>

text \<open>What a valid stored session list is, without the loop.\<close>

definition valid_session :: "session \<Rightarrow> bool" where
  "valid_session s \<longleftrightarrow> s_id s \<noteq> [] \<and> \<not> has_nul (s_id s) \<and> s_userId s \<noteq> [] \<and> \<not> has_nul (s_userId s)
     \<and> finite_date (s_createdAt s) \<and> finite_date (s_expires s)"

definition valid_store :: "session list \<Rightarrow> bool" where
  "valid_store xs \<longleftrightarrow> (\<forall>s \<in> set xs. valid_session s) \<and> distinct (map s_id xs)"

lemma stored_sessions_loop_iff:
  "stored_sessions_loop ids xs = Inr () \<longleftrightarrow>
     (\<forall>s \<in> set xs. valid_session s) \<and> distinct (map s_id xs) \<and> s_id ` set xs \<inter> ids = {}"
  by (induction ids xs rule: stored_sessions_loop.induct) (auto simp: valid_session_def)

lemma assertStoredSessions_iff: "assertStoredSessions xs = Inr () \<longleftrightarrow> valid_store xs"
  by (simp add: assertStoredSessions_def stored_sessions_loop_iff valid_store_def)

lemma stored_sessions_loop_error:
  "stored_sessions_loop ids xs = Inl e \<Longrightarrow> e = Error ''Invalid session store''"
  by (induction ids xs rule: stored_sessions_loop.induct) (auto split: if_splits)

lemma assertStoredSessions_cases:
  "assertStoredSessions xs =
     (if valid_store xs then Inr () else Inl (Error ''Invalid session store''))"
proof (cases "assertStoredSessions xs")
  case (Inl e)
  then show ?thesis
    using stored_sessions_loop_error assertStoredSessions_iff [of xs]
    by (auto simp: assertStoredSessions_def)
next
  case (Inr u)
  then show ?thesis
    using assertStoredSessions_iff [of xs] by simp
qed

lemma valid_store_Nil [simp, wf_intros]: "valid_store []"
  by (simp add: valid_store_def)

lemma valid_store_append:
  "valid_store (xs @ ys) \<longleftrightarrow> valid_store xs \<and> valid_store ys \<and> s_id ` set xs \<inter> s_id ` set ys = {}"
  by (auto simp: valid_store_def)

lemma valid_store_single [simp]: "valid_store [s] \<longleftrightarrow> valid_session s"
  by (simp add: valid_store_def)

lemma valid_store_filter [simp, wf_intros]: "valid_store xs \<Longrightarrow> valid_store (filter P xs)"
  by (auto simp: valid_store_def distinct_map_filter)

lemma valid_store_sublist:
  "valid_store xs \<Longrightarrow> distinct (map s_id ys) \<Longrightarrow> set ys \<subseteq> set xs \<Longrightarrow> valid_store ys"
  by (auto simp: valid_store_def)

lemma valid_store_inj: "valid_store xs \<Longrightarrow> s \<in> set xs \<Longrightarrow> t \<in> set xs \<Longrightarrow> s_id s = s_id t \<Longrightarrow> s = t"
  by (auto simp: valid_store_def distinct_map dest: inj_onD)

lemma distinct_ids_sort [simp]:
  "distinct (map s_id (sort_key f xs)) \<longleftrightarrow> distinct (map s_id xs)"
  by (simp add: distinct_map)

text \<open>Dropping a prefix of a sorted list keeps the greatest elements.\<close>

lemma sorted_drop_greatest:
  assumes "sorted (map f xs)" and "x \<in> set xs" and "x \<notin> set (drop n xs)" and "y \<in> set (drop n xs)"
  shows "f x \<le> f y"
proof -
  have "x \<in> set (take n xs)"
    using assms(2,3) by (metis UnE append_take_drop_id set_append)
  moreover have "sorted (map f (take n xs) @ map f (drop n xs))"
    using assms(1) by (metis append_take_drop_id map_append)
  ultimately show ?thesis
    using assms(4) by (auto simp: sorted_append)
qed

lemma boundedSessions_Inr:
  assumes "boundedSessions sessions session policy now = Inr xs"
  obtains own where
    "1 \<le> maxConcurrentSessions policy" and "valid_store (sessions @ [session])"
    and "own = sort_key creation_key
           (filter (\<lambda>item. s_userId item = s_userId session \<and> after (s_expires item) now) sessions)"
    and "xs = filter (\<lambda>item. s_userId item \<noteq> s_userId session) sessions
           @ drop (length own - nat (maxConcurrentSessions policy - 1)) own @ [session]"
  using assms
  by (auto simp: boundedSessions_def assertBoundedSessionPolicy_def assertStoredSessions_cases Let_def
      split: if_splits sum.splits)

lemma boundedSessions_set:
  assumes "boundedSessions sessions session policy now = Inr xs"
  shows "set xs \<subseteq> insert session (set sessions)"
  by (rule boundedSessions_Inr [OF assms]) (auto dest: in_set_dropD)

lemma boundedSessions_valid:
  assumes "boundedSessions sessions session policy now = Inr xs"
  shows "valid_store xs"
proof (rule boundedSessions_Inr [OF assms])
  fix own :: "session list"
  let ?live = "filter (\<lambda>item. s_userId item = s_userId session \<and> after (s_expires item) now) sessions"
  let ?n = "length own - nat (maxConcurrentSessions policy - 1)"
  assume valid: "valid_store (sessions @ [session])"
    and own: "own = sort_key creation_key ?live"
    and xs: "xs = filter (\<lambda>item. s_userId item \<noteq> s_userId session) sessions @ drop ?n own @ [session]"
  have sub: "set (drop ?n own) \<subseteq> set ?live"
    by (rule subset_trans [OF set_drop_subset]) (simp add: own)
  have "distinct (map s_id own)"
    using valid own by (auto simp: valid_store_def distinct_map_filter)
  then have dist: "distinct (map s_id (drop ?n own))"
    by (simp add: drop_map [symmetric])
  have disj: "s_id ` set (filter (\<lambda>item. s_userId item \<noteq> s_userId session) sessions)
       \<inter> s_id ` set (drop ?n own) = {}"
  proof (rule ccontr)
    assume "\<not> ?thesis"
    then obtain s t where st: "s \<in> set sessions" "s_userId s \<noteq> s_userId session"
      "t \<in> set (drop ?n own)" "s_id s = s_id t" by auto
    from st(3) sub have t: "t \<in> set sessions" "s_userId t = s_userId session" by auto
    have "valid_store sessions" using valid by (simp add: valid_store_append)
    then have "s = t" using st(1) t(1) st(4) by (rule valid_store_inj)
    with st(2) t(2) show False by simp
  qed
  have subs: "set (drop ?n own) \<subseteq> set sessions"
    by (rule subset_trans [OF sub filter_is_subset])
  have vs: "valid_store sessions" and new: "s_id session \<notin> s_id ` set sessions" "valid_session session"
    using valid by (simp_all add: valid_store_append)
  have kept: "valid_store (drop ?n own @ [session])"
    using valid_store_sublist [OF vs dist subs] new subs by (auto simp: valid_store_append)
  have "s_id ` set (filter (\<lambda>item. s_userId item \<noteq> s_userId session) sessions)
       \<inter> s_id ` set (drop ?n own @ [session]) = {}"
    using disj new(1) by auto
  with kept vs show ?thesis
    unfolding xs by (subst valid_store_append) (intro conjI valid_store_filter)
qed

lemma boundedSessions_facts:
  assumes "boundedSessions sessions session policy now = Inr xs"
  defines "mine \<equiv> \<lambda>s. s_userId s = s_userId session"
  shows "last xs = session"
    and "length (filter mine xs) \<le> nat (maxConcurrentSessions policy)"
    and "filter (\<lambda>s. \<not> mine s) xs = filter (\<lambda>s. \<not> mine s) sessions"
    and "\<forall>s \<in> set xs. mine s \<longrightarrow> s = session \<or> (s \<in> set sessions \<and> after (s_expires s) now)"
    and "\<forall>e \<in> set sessions - set xs. \<forall>r \<in> set xs - {session}.
           mine e \<and> after (s_expires e) now \<and> mine r \<longrightarrow> creation_key e \<le> creation_key r"
    and "valid_store xs"
    and "length (filter mine xs) = min (nat (maxConcurrentSessions policy))
           (Suc (length (filter (\<lambda>s. mine s \<and> after (s_expires s) now) sessions)))"
proof -
  from assms(1) obtain own where max: "1 \<le> maxConcurrentSessions policy"
    and own: "own = sort_key creation_key (filter (\<lambda>s. mine s \<and> after (s_expires s) now) sessions)"
    and xs: "xs = filter (\<lambda>s. \<not> mine s) sessions
           @ drop (length own - nat (maxConcurrentSessions policy - 1)) own @ [session]"
    unfolding mine_def by (rule boundedSessions_Inr)
  let ?kept = "drop (length own - nat (maxConcurrentSessions policy - 1)) own"
  have kept: "s \<in> set own" if "s \<in> set ?kept" for s
    using that by (rule in_set_dropD)
  have set_own: "s \<in> set own \<longleftrightarrow> s \<in> set sessions \<and> mine s \<and> after (s_expires s) now" for s
    by (simp add: own)
  have mine_kept: "filter mine ?kept = ?kept" "filter (\<lambda>s. \<not> mine s) ?kept = []"
    using kept set_own by (auto simp: filter_empty_conv filter_id_conv)
  have mine_session: "mine session" by (simp add: mine_def)
  show "last xs = session" by (simp add: xs)
  show "length (filter mine xs) \<le> nat (maxConcurrentSessions policy)"
    using max by (simp add: xs mine_kept mine_session filter_False)
  show "filter (\<lambda>s. \<not> mine s) xs = filter (\<lambda>s. \<not> mine s) sessions"
    by (simp add: xs mine_kept mine_session)
  show "\<forall>s \<in> set xs. mine s \<longrightarrow> s = session \<or> (s \<in> set sessions \<and> after (s_expires s) now)"
    using kept set_own by (auto simp: xs)
  show "\<forall>e \<in> set sessions - set xs. \<forall>r \<in> set xs - {session}.
           mine e \<and> after (s_expires e) now \<and> mine r \<longrightarrow> creation_key e \<le> creation_key r"
  proof (intro ballI impI)
    fix e r
    assume e: "e \<in> set sessions - set xs" and r: "r \<in> set xs - {session}"
      and live: "mine e \<and> after (s_expires e) now \<and> mine r"
    have "e \<in> set own" "e \<notin> set ?kept" using e live by (auto simp: set_own xs)
    moreover have "r \<in> set ?kept" using r live by (auto simp: xs)
    moreover have "sorted (map creation_key own)" by (simp add: own)
    ultimately show "creation_key e \<le> creation_key r"
      by (rule sorted_drop_greatest [rotated])
  qed
  show "valid_store xs" using assms(1) by (rule boundedSessions_valid)
  have "length own = length (filter (\<lambda>s. mine s \<and> after (s_expires s) now) sessions)"
    by (simp add: own)
  moreover have "length (filter mine xs) = Suc (length ?kept)"
    by (simp add: xs mine_kept mine_session filter_False)
  moreover have "length ?kept = min (nat (maxConcurrentSessions policy - 1)) (length own)" by simp
  moreover have "nat (maxConcurrentSessions policy) = Suc (nat (maxConcurrentSessions policy - 1))"
    using max by simp
  ultimately show "length (filter mine xs) = min (nat (maxConcurrentSessions policy))
      (Suc (length (filter (\<lambda>s. mine s \<and> after (s_expires s) now) sessions)))"
    by (simp only: min_Suc_Suc)
qed

text \<open>The policy succeeds on a valid store and a valid new session with a fresh id.\<close>

lemma boundedSessions_succeeds:
  assumes "assertBoundedSessionPolicy policy = Inr ()" "valid_store sessions"
    and "valid_session session" "s_id session \<notin> s_id ` set sessions"
  obtains xs where "boundedSessions sessions session policy now = Inr xs"
proof -
  have "valid_store (sessions @ [session])"
    using assms(2-4) by (simp add: valid_store_append)
  then show thesis
    using that assms(1) by (simp add: boundedSessions_def assertStoredSessions_cases Let_def)
qed

section \<open>Properties\<close>

text \<open>
  C27. The bounded policy: the list that replaces the store ends with the new session. Of its
  owner it holds exactly \<open>maxConcurrentSessions\<close> sessions, or all live ones and the new one when
  these are fewer: no live session is evicted that had room. Every other account's sessions stay
  as they were, the owner's expired ones are dropped, a live one is evicted only when every
  retained one was created no earlier, and the list is again a valid store.
\<close>

theorem boundedSessions_policy:
  assumes "boundedSessions sessions session policy now = Inr xs"
  shows "last xs = session
    \<and> length (filter (\<lambda>s. s_userId s = s_userId session) xs)
        = min (nat (maxConcurrentSessions policy))
            (Suc (length (filter (\<lambda>s. s_userId s = s_userId session \<and> after (s_expires s) now) sessions)))
    \<and> filter (\<lambda>s. s_userId s \<noteq> s_userId session) xs
        = filter (\<lambda>s. s_userId s \<noteq> s_userId session) sessions
    \<and> (\<forall>s \<in> set xs. s_userId s = s_userId session \<longrightarrow>
          s = session \<or> (s \<in> set sessions \<and> after (s_expires s) now))
    \<and> (\<forall>e \<in> set sessions - set xs. \<forall>r \<in> set xs - {session}.
          s_userId e = s_userId session \<and> after (s_expires e) now \<and> s_userId r = s_userId session
          \<longrightarrow> creation_key e \<le> creation_key r)
    \<and> valid_store xs"
  using boundedSessions_facts(1,3-7) [OF assms] by blast

text \<open>Two live sessions and a limit of two: the older one is evicted.\<close>

definition example_session :: "string \<Rightarrow> string \<Rightarrow> int \<Rightarrow> int \<Rightarrow> session" where
  "example_session sid uid created expires =
     \<lparr>s_id = sid, s_userId = uid, s_expires = Iso expires, s_expiresAt = Iso expires,
      s_createdAt = Iso created, s_user = None, s_clientIp = ''ip'', s_clientIpMasked = None,
      s_userAgent = ''ua'', s_deviceType = None, s_browserFingerprint = None,
      s_geoLocation = None, s_tempTotpSecret = None, s_tempTotpExpiresAt = None\<rparr>"

theorem boundedSessions_policy_witness:
  "boundedSessions [example_session ''a'' ''u'' 1 100, example_session ''b'' ''u'' 2 100]
     (example_session ''c'' ''u'' 3 100)
     \<lparr>maxConcurrentSessions = 2, overflow = ''evict-oldest-created''\<rparr> 50
     = Inr [example_session ''b'' ''u'' 2 100, example_session ''c'' ''u'' 3 100]
   \<and> valid_store [example_session ''b'' ''u'' 2 100, example_session ''c'' ''u'' 3 100]"
proof -
  have run: "boundedSessions [example_session ''a'' ''u'' 1 100, example_session ''b'' ''u'' 2 100]
     (example_session ''c'' ''u'' 3 100)
     \<lparr>maxConcurrentSessions = 2, overflow = ''evict-oldest-created''\<rparr> 50
     = Inr [example_session ''b'' ''u'' 2 100, example_session ''c'' ''u'' 3 100]"
    by code_simp
  show ?thesis
    using run boundedSessions_policy [OF run] by blast
qed

end
