(* ===== verification/Patches.thy ===== *)
theory Patches
  imports Auth_Types
begin

text \<open>
  \<open>Partial<T>\<close> and the object spread \<open>{...value, ...updates}\<close>. A field of a patch is \<open>None\<close>
  when the update object has no such property; \<open>Some v\<close> puts \<open>v\<close>, and for an optional
  property \<open>Some None\<close> puts \<open>undefined\<close>.
\<close>

section \<open>Accounts\<close>

record user_patch =
  p_id :: "string option"
  p_handle :: "string option"
  p_email :: "string option option"
  p_displayName :: "string option option"
  p_passwordHash :: "string option"
  p_totpEnabled :: "bool option"
  p_totpSecretId :: "string option option"
  p_role :: "string option"
  p_permissions :: "string list option option"
  p_isActive :: "bool option"
  p_isLocked :: "bool option option"
  p_lockReason :: "string option option"
  p_lockedAt :: "stamp option option"
  p_needsOnboarding :: "bool option"
  p_onboardingStep :: "int option"
  p_firstLogin :: "bool option option"
  p_createdAt :: "stamp option"
  p_updatedAt :: "stamp option"
  p_lastLoginAt :: "stamp option option"
  p_passwordChangedAt :: "stamp option option"
  p_bio :: "string option option"
  p_avatarUrl :: "string option option"
  p_pronouns :: "string option option"
  p_timezone :: "string option option"
  p_locale :: "string option option"
  p_theme :: "theme option option"
  p_emailNotifications :: "bool option option"
  p_loginAttempts :: "int option option"
  p_lastFailedLoginAt :: "stamp option option"
  p_ipAddress :: "string option option"
  p_userAgent :: "string option option"
  p_githubId :: "int option option"
  p_githubLogin :: "string option option"
  p_githubLinkedAt :: "stamp option option"

definition no_user_patch :: user_patch where
  "no_user_patch =
     \<lparr>p_id = None, p_handle = None, p_email = None, p_displayName = None,
      p_passwordHash = None, p_totpEnabled = None, p_totpSecretId = None, p_role = None,
      p_permissions = None, p_isActive = None, p_isLocked = None, p_lockReason = None,
      p_lockedAt = None, p_needsOnboarding = None, p_onboardingStep = None,
      p_firstLogin = None, p_createdAt = None, p_updatedAt = None, p_lastLoginAt = None,
      p_passwordChangedAt = None, p_bio = None, p_avatarUrl = None, p_pronouns = None,
      p_timezone = None, p_locale = None, p_theme = None, p_emailNotifications = None,
      p_loginAttempts = None, p_lastFailedLoginAt = None, p_ipAddress = None,
      p_userAgent = None, p_githubId = None, p_githubLogin = None, p_githubLinkedAt = None\<rparr>"

definition apply_user_patch :: "user_patch \<Rightarrow> admin_user \<Rightarrow> admin_user" where
  "apply_user_patch p v =
     \<lparr>u_id = nullish (p_id p) (u_id v),
      u_handle = nullish (p_handle p) (u_handle v),
      u_email = nullish (p_email p) (u_email v),
      u_displayName = nullish (p_displayName p) (u_displayName v),
      u_passwordHash = nullish (p_passwordHash p) (u_passwordHash v),
      u_totpEnabled = nullish (p_totpEnabled p) (u_totpEnabled v),
      u_totpSecretId = nullish (p_totpSecretId p) (u_totpSecretId v),
      u_role = nullish (p_role p) (u_role v),
      u_permissions = nullish (p_permissions p) (u_permissions v),
      u_isActive = nullish (p_isActive p) (u_isActive v),
      u_isLocked = nullish (p_isLocked p) (u_isLocked v),
      u_lockReason = nullish (p_lockReason p) (u_lockReason v),
      u_lockedAt = nullish (p_lockedAt p) (u_lockedAt v),
      u_needsOnboarding = nullish (p_needsOnboarding p) (u_needsOnboarding v),
      u_onboardingStep = nullish (p_onboardingStep p) (u_onboardingStep v),
      u_firstLogin = nullish (p_firstLogin p) (u_firstLogin v),
      u_createdAt = nullish (p_createdAt p) (u_createdAt v),
      u_updatedAt = nullish (p_updatedAt p) (u_updatedAt v),
      u_lastLoginAt = nullish (p_lastLoginAt p) (u_lastLoginAt v),
      u_passwordChangedAt = nullish (p_passwordChangedAt p) (u_passwordChangedAt v),
      u_bio = nullish (p_bio p) (u_bio v),
      u_avatarUrl = nullish (p_avatarUrl p) (u_avatarUrl v),
      u_pronouns = nullish (p_pronouns p) (u_pronouns v),
      u_timezone = nullish (p_timezone p) (u_timezone v),
      u_locale = nullish (p_locale p) (u_locale v),
      u_theme = nullish (p_theme p) (u_theme v),
      u_emailNotifications = nullish (p_emailNotifications p) (u_emailNotifications v),
      u_loginAttempts = nullish (p_loginAttempts p) (u_loginAttempts v),
      u_lastFailedLoginAt = nullish (p_lastFailedLoginAt p) (u_lastFailedLoginAt v),
      u_ipAddress = nullish (p_ipAddress p) (u_ipAddress v),
      u_userAgent = nullish (p_userAgent p) (u_userAgent v),
      u_githubId = nullish (p_githubId p) (u_githubId v),
      u_githubLogin = nullish (p_githubLogin p) (u_githubLogin v),
      u_githubLinkedAt = nullish (p_githubLinkedAt p) (u_githubLinkedAt v),
      u_ownRemovedAt = u_ownRemovedAt v,
      u_ownRemovedBy = u_ownRemovedBy v\<rparr>"

text \<open>Reading a property of a \<open>Partial<AdminUser>\<close> whose own type is optional.\<close>

definition flat :: "'a option option \<Rightarrow> 'a option" where
  "flat v = (case v of None \<Rightarrow> None | Some w \<Rightarrow> w)"

lemma flat_simps [simp]: "flat None = None" "flat (Some w) = w"
  by (simp_all add: flat_def)

lemma apply_no_user_patch [simp]: "apply_user_patch no_user_patch u = u"
  by (simp add: apply_user_patch_def no_user_patch_def)

text \<open>The whole record as a patch, for a caller that passes an account as a \<open>Partial\<close>.\<close>

definition user_as_patch :: "admin_user \<Rightarrow> user_patch" where
  "user_as_patch u =
     \<lparr>p_id = Some (u_id u),
      p_handle = Some (u_handle u),
      p_email = Some (u_email u),
      p_displayName = Some (u_displayName u),
      p_passwordHash = Some (u_passwordHash u),
      p_totpEnabled = Some (u_totpEnabled u),
      p_totpSecretId = Some (u_totpSecretId u),
      p_role = Some (u_role u),
      p_permissions = Some (u_permissions u),
      p_isActive = Some (u_isActive u),
      p_isLocked = Some (u_isLocked u),
      p_lockReason = Some (u_lockReason u),
      p_lockedAt = Some (u_lockedAt u),
      p_needsOnboarding = Some (u_needsOnboarding u),
      p_onboardingStep = Some (u_onboardingStep u),
      p_firstLogin = Some (u_firstLogin u),
      p_createdAt = Some (u_createdAt u),
      p_updatedAt = Some (u_updatedAt u),
      p_lastLoginAt = Some (u_lastLoginAt u),
      p_passwordChangedAt = Some (u_passwordChangedAt u),
      p_bio = Some (u_bio u),
      p_avatarUrl = Some (u_avatarUrl u),
      p_pronouns = Some (u_pronouns u),
      p_timezone = Some (u_timezone u),
      p_locale = Some (u_locale u),
      p_theme = Some (u_theme u),
      p_emailNotifications = Some (u_emailNotifications u),
      p_loginAttempts = Some (u_loginAttempts u),
      p_lastFailedLoginAt = Some (u_lastFailedLoginAt u),
      p_ipAddress = Some (u_ipAddress u),
      p_userAgent = Some (u_userAgent u),
      p_githubId = Some (u_githubId u),
      p_githubLogin = Some (u_githubLogin u),
      p_githubLinkedAt = Some (u_githubLinkedAt u)\<rparr>"

section \<open>Sessions\<close>

record session_patch =
  sp_id :: "string option"
  sp_userId :: "string option"
  sp_expires :: "stamp option"
  sp_expiresAt :: "stamp option"
  sp_createdAt :: "stamp option"
  sp_user :: "session_user option option"
  sp_clientIp :: "string option"
  sp_clientIpMasked :: "string option option"
  sp_userAgent :: "string option"
  sp_deviceType :: "device_type option option"
  sp_browserFingerprint :: "string option option"
  sp_geoLocation :: "geo_location option option"
  sp_tempTotpSecret :: "string option option"
  sp_tempTotpExpiresAt :: "stamp option option"

definition no_session_patch :: session_patch where
  "no_session_patch =
     \<lparr>sp_id = None, sp_userId = None, sp_expires = None, sp_expiresAt = None,
      sp_createdAt = None, sp_user = None, sp_clientIp = None, sp_clientIpMasked = None,
      sp_userAgent = None, sp_deviceType = None, sp_browserFingerprint = None,
      sp_geoLocation = None, sp_tempTotpSecret = None, sp_tempTotpExpiresAt = None\<rparr>"

definition apply_session_patch :: "session_patch \<Rightarrow> session \<Rightarrow> session" where
  "apply_session_patch p v =
     \<lparr>s_id = nullish (sp_id p) (s_id v),
      s_userId = nullish (sp_userId p) (s_userId v),
      s_expires = nullish (sp_expires p) (s_expires v),
      s_expiresAt = nullish (sp_expiresAt p) (s_expiresAt v),
      s_createdAt = nullish (sp_createdAt p) (s_createdAt v),
      s_user = nullish (sp_user p) (s_user v),
      s_clientIp = nullish (sp_clientIp p) (s_clientIp v),
      s_clientIpMasked = nullish (sp_clientIpMasked p) (s_clientIpMasked v),
      s_userAgent = nullish (sp_userAgent p) (s_userAgent v),
      s_deviceType = nullish (sp_deviceType p) (s_deviceType v),
      s_browserFingerprint = nullish (sp_browserFingerprint p) (s_browserFingerprint v),
      s_geoLocation = nullish (sp_geoLocation p) (s_geoLocation v),
      s_tempTotpSecret = nullish (sp_tempTotpSecret p) (s_tempTotpSecret v),
      s_tempTotpExpiresAt = nullish (sp_tempTotpExpiresAt p) (s_tempTotpExpiresAt v)\<rparr>"

record session_user_patch =
  sup_id :: "string option"
  sup_username :: "string option"
  sup_name :: "string option"
  sup_role :: "string option"
  sup_needsOnboarding :: "bool option option"
  sup_onboardingStep :: "int option option"

text \<open>
  \<open>{...user, ...data, id}\<close> for a session's user, which may be missing: the spread of
  \<open>undefined\<close> adds no property.
\<close>

definition apply_session_user_patch ::
  "session_user_patch \<Rightarrow> session_user option \<Rightarrow> string \<Rightarrow> session_user" where
  "apply_session_user_patch p v uid =
     \<lparr>su_id = uid,
      su_username = (case sup_username p of Some n \<Rightarrow> Some n | None \<Rightarrow> Option.bind v su_username),
      su_name = (case sup_name p of Some n \<Rightarrow> Some n | None \<Rightarrow> Option.bind v su_name),
      su_role = (case sup_role p of Some r \<Rightarrow> Some r | None \<Rightarrow> Option.bind v su_role),
      su_needsOnboarding =
        (case sup_needsOnboarding p of Some b \<Rightarrow> b | None \<Rightarrow> Option.bind v su_needsOnboarding),
      su_onboardingStep =
        (case sup_onboardingStep p of Some n \<Rightarrow> n | None \<Rightarrow> Option.bind v su_onboardingStep)\<rparr>"

lemma apply_session_user_patch_id [simp]: "su_id (apply_session_user_patch p v uid) = uid"
  by (simp add: apply_session_user_patch_def)

lemma apply_no_session_patch [simp]: "apply_session_patch no_session_patch s = s"
  by (simp add: apply_session_patch_def no_session_patch_def)

section \<open>Invitations\<close>

record invitation_patch =
  ip_id :: "string option"
  ip_token :: "string option"
  ip_email :: "string option option"
  ip_role :: "string option"
  ip_createdBy :: "string option"
  ip_createdAt :: "stamp option"
  ip_expiresAt :: "stamp option"
  ip_usedAt :: "stamp option option"
  ip_usedBy :: "string option option"
  ip_temporaryTotpSecret :: "string option option"
  ip_isActive :: "bool option"
  ip_metadata :: "invitation_metadata option option"

definition no_invitation_patch :: invitation_patch where
  "no_invitation_patch =
     \<lparr>ip_id = None, ip_token = None, ip_email = None, ip_role = None, ip_createdBy = None,
      ip_createdAt = None, ip_expiresAt = None, ip_usedAt = None, ip_usedBy = None,
      ip_temporaryTotpSecret = None, ip_isActive = None, ip_metadata = None\<rparr>"

definition apply_invitation_patch :: "invitation_patch \<Rightarrow> admin_invitation \<Rightarrow> admin_invitation" where
  "apply_invitation_patch p v =
     \<lparr>i_id = nullish (ip_id p) (i_id v),
      i_token = nullish (ip_token p) (i_token v),
      i_email = nullish (ip_email p) (i_email v),
      i_role = nullish (ip_role p) (i_role v),
      i_createdBy = nullish (ip_createdBy p) (i_createdBy v),
      i_createdAt = nullish (ip_createdAt p) (i_createdAt v),
      i_expiresAt = nullish (ip_expiresAt p) (i_expiresAt v),
      i_usedAt = nullish (ip_usedAt p) (i_usedAt v),
      i_usedBy = nullish (ip_usedBy p) (i_usedBy v),
      i_temporaryTotpSecret = nullish (ip_temporaryTotpSecret p) (i_temporaryTotpSecret v),
      i_isActive = nullish (ip_isActive p) (i_isActive v),
      i_metadata = nullish (ip_metadata p) (i_metadata v)\<rparr>"

lemma apply_no_invitation_patch [simp]: "apply_invitation_patch no_invitation_patch i = i"
  by (simp add: apply_invitation_patch_def no_invitation_patch_def)

section \<open>Which fields a patch leaves alone\<close>

lemma apply_user_patch_fields [simp]:
  "u_id (apply_user_patch p v) = nullish (p_id p) (u_id v)"
  "u_handle (apply_user_patch p v) = nullish (p_handle p) (u_handle v)"
  "u_email (apply_user_patch p v) = nullish (p_email p) (u_email v)"
  "u_displayName (apply_user_patch p v) = nullish (p_displayName p) (u_displayName v)"
  "u_passwordHash (apply_user_patch p v) = nullish (p_passwordHash p) (u_passwordHash v)"
  "u_totpEnabled (apply_user_patch p v) = nullish (p_totpEnabled p) (u_totpEnabled v)"
  "u_totpSecretId (apply_user_patch p v) = nullish (p_totpSecretId p) (u_totpSecretId v)"
  "u_role (apply_user_patch p v) = nullish (p_role p) (u_role v)"
  "u_permissions (apply_user_patch p v) = nullish (p_permissions p) (u_permissions v)"
  "u_isActive (apply_user_patch p v) = nullish (p_isActive p) (u_isActive v)"
  "u_isLocked (apply_user_patch p v) = nullish (p_isLocked p) (u_isLocked v)"
  "u_lockReason (apply_user_patch p v) = nullish (p_lockReason p) (u_lockReason v)"
  "u_lockedAt (apply_user_patch p v) = nullish (p_lockedAt p) (u_lockedAt v)"
  "u_needsOnboarding (apply_user_patch p v) = nullish (p_needsOnboarding p) (u_needsOnboarding v)"
  "u_onboardingStep (apply_user_patch p v) = nullish (p_onboardingStep p) (u_onboardingStep v)"
  "u_firstLogin (apply_user_patch p v) = nullish (p_firstLogin p) (u_firstLogin v)"
  "u_createdAt (apply_user_patch p v) = nullish (p_createdAt p) (u_createdAt v)"
  "u_updatedAt (apply_user_patch p v) = nullish (p_updatedAt p) (u_updatedAt v)"
  "u_lastLoginAt (apply_user_patch p v) = nullish (p_lastLoginAt p) (u_lastLoginAt v)"
  "u_passwordChangedAt (apply_user_patch p v) = nullish (p_passwordChangedAt p) (u_passwordChangedAt v)"
  "u_bio (apply_user_patch p v) = nullish (p_bio p) (u_bio v)"
  "u_avatarUrl (apply_user_patch p v) = nullish (p_avatarUrl p) (u_avatarUrl v)"
  "u_pronouns (apply_user_patch p v) = nullish (p_pronouns p) (u_pronouns v)"
  "u_timezone (apply_user_patch p v) = nullish (p_timezone p) (u_timezone v)"
  "u_locale (apply_user_patch p v) = nullish (p_locale p) (u_locale v)"
  "u_theme (apply_user_patch p v) = nullish (p_theme p) (u_theme v)"
  "u_emailNotifications (apply_user_patch p v) = nullish (p_emailNotifications p) (u_emailNotifications v)"
  "u_loginAttempts (apply_user_patch p v) = nullish (p_loginAttempts p) (u_loginAttempts v)"
  "u_lastFailedLoginAt (apply_user_patch p v) = nullish (p_lastFailedLoginAt p) (u_lastFailedLoginAt v)"
  "u_ipAddress (apply_user_patch p v) = nullish (p_ipAddress p) (u_ipAddress v)"
  "u_userAgent (apply_user_patch p v) = nullish (p_userAgent p) (u_userAgent v)"
  "u_githubId (apply_user_patch p v) = nullish (p_githubId p) (u_githubId v)"
  "u_githubLogin (apply_user_patch p v) = nullish (p_githubLogin p) (u_githubLogin v)"
  "u_githubLinkedAt (apply_user_patch p v) = nullish (p_githubLinkedAt p) (u_githubLinkedAt v)"
  "u_ownRemovedAt (apply_user_patch p v) = u_ownRemovedAt v"
  "u_ownRemovedBy (apply_user_patch p v) = u_ownRemovedBy v"
  by (simp_all add: apply_user_patch_def)

lemma apply_session_patch_fields [simp]:
  "s_id (apply_session_patch p v) = nullish (sp_id p) (s_id v)"
  "s_userId (apply_session_patch p v) = nullish (sp_userId p) (s_userId v)"
  "s_expires (apply_session_patch p v) = nullish (sp_expires p) (s_expires v)"
  "s_expiresAt (apply_session_patch p v) = nullish (sp_expiresAt p) (s_expiresAt v)"
  "s_createdAt (apply_session_patch p v) = nullish (sp_createdAt p) (s_createdAt v)"
  "s_user (apply_session_patch p v) = nullish (sp_user p) (s_user v)"
  "s_clientIp (apply_session_patch p v) = nullish (sp_clientIp p) (s_clientIp v)"
  "s_clientIpMasked (apply_session_patch p v) = nullish (sp_clientIpMasked p) (s_clientIpMasked v)"
  "s_userAgent (apply_session_patch p v) = nullish (sp_userAgent p) (s_userAgent v)"
  "s_deviceType (apply_session_patch p v) = nullish (sp_deviceType p) (s_deviceType v)"
  "s_browserFingerprint (apply_session_patch p v) = nullish (sp_browserFingerprint p) (s_browserFingerprint v)"
  "s_geoLocation (apply_session_patch p v) = nullish (sp_geoLocation p) (s_geoLocation v)"
  "s_tempTotpSecret (apply_session_patch p v) = nullish (sp_tempTotpSecret p) (s_tempTotpSecret v)"
  "s_tempTotpExpiresAt (apply_session_patch p v) = nullish (sp_tempTotpExpiresAt p) (s_tempTotpExpiresAt v)"
  by (simp_all add: apply_session_patch_def)

lemma apply_invitation_patch_fields [simp]:
  "i_id (apply_invitation_patch p v) = nullish (ip_id p) (i_id v)"
  "i_token (apply_invitation_patch p v) = nullish (ip_token p) (i_token v)"
  "i_email (apply_invitation_patch p v) = nullish (ip_email p) (i_email v)"
  "i_role (apply_invitation_patch p v) = nullish (ip_role p) (i_role v)"
  "i_createdBy (apply_invitation_patch p v) = nullish (ip_createdBy p) (i_createdBy v)"
  "i_createdAt (apply_invitation_patch p v) = nullish (ip_createdAt p) (i_createdAt v)"
  "i_expiresAt (apply_invitation_patch p v) = nullish (ip_expiresAt p) (i_expiresAt v)"
  "i_usedAt (apply_invitation_patch p v) = nullish (ip_usedAt p) (i_usedAt v)"
  "i_usedBy (apply_invitation_patch p v) = nullish (ip_usedBy p) (i_usedBy v)"
  "i_temporaryTotpSecret (apply_invitation_patch p v) = nullish (ip_temporaryTotpSecret p) (i_temporaryTotpSecret v)"
  "i_isActive (apply_invitation_patch p v) = nullish (ip_isActive p) (i_isActive v)"
  "i_metadata (apply_invitation_patch p v) = nullish (ip_metadata p) (i_metadata v)"
  by (simp_all add: apply_invitation_patch_def)

lemma no_user_patch_fields [simp]:
  "p_id no_user_patch = None"
  "p_handle no_user_patch = None"
  "p_email no_user_patch = None"
  "p_displayName no_user_patch = None"
  "p_passwordHash no_user_patch = None"
  "p_totpEnabled no_user_patch = None"
  "p_totpSecretId no_user_patch = None"
  "p_role no_user_patch = None"
  "p_permissions no_user_patch = None"
  "p_isActive no_user_patch = None"
  "p_isLocked no_user_patch = None"
  "p_lockReason no_user_patch = None"
  "p_lockedAt no_user_patch = None"
  "p_needsOnboarding no_user_patch = None"
  "p_onboardingStep no_user_patch = None"
  "p_firstLogin no_user_patch = None"
  "p_createdAt no_user_patch = None"
  "p_updatedAt no_user_patch = None"
  "p_lastLoginAt no_user_patch = None"
  "p_passwordChangedAt no_user_patch = None"
  "p_bio no_user_patch = None"
  "p_avatarUrl no_user_patch = None"
  "p_pronouns no_user_patch = None"
  "p_timezone no_user_patch = None"
  "p_locale no_user_patch = None"
  "p_theme no_user_patch = None"
  "p_emailNotifications no_user_patch = None"
  "p_loginAttempts no_user_patch = None"
  "p_lastFailedLoginAt no_user_patch = None"
  "p_ipAddress no_user_patch = None"
  "p_userAgent no_user_patch = None"
  "p_githubId no_user_patch = None"
  "p_githubLogin no_user_patch = None"
  "p_githubLinkedAt no_user_patch = None"
  by (simp_all add: no_user_patch_def)

lemma no_session_patch_fields [simp]:
  "sp_id no_session_patch = None"
  "sp_userId no_session_patch = None"
  "sp_expires no_session_patch = None"
  "sp_expiresAt no_session_patch = None"
  "sp_createdAt no_session_patch = None"
  "sp_user no_session_patch = None"
  "sp_clientIp no_session_patch = None"
  "sp_clientIpMasked no_session_patch = None"
  "sp_userAgent no_session_patch = None"
  "sp_deviceType no_session_patch = None"
  "sp_browserFingerprint no_session_patch = None"
  "sp_geoLocation no_session_patch = None"
  "sp_tempTotpSecret no_session_patch = None"
  "sp_tempTotpExpiresAt no_session_patch = None"
  by (simp_all add: no_session_patch_def)

lemma no_invitation_patch_fields [simp]:
  "ip_id no_invitation_patch = None"
  "ip_token no_invitation_patch = None"
  "ip_email no_invitation_patch = None"
  "ip_role no_invitation_patch = None"
  "ip_createdBy no_invitation_patch = None"
  "ip_createdAt no_invitation_patch = None"
  "ip_expiresAt no_invitation_patch = None"
  "ip_usedAt no_invitation_patch = None"
  "ip_usedBy no_invitation_patch = None"
  "ip_temporaryTotpSecret no_invitation_patch = None"
  "ip_isActive no_invitation_patch = None"
  "ip_metadata no_invitation_patch = None"
  by (simp_all add: no_invitation_patch_def)

end
