(* ===== verification/Session_Interface.thy ===== *)
theory Session_Interface
  imports Session_Policy Patches
begin

text \<open>
  The storage interface the session services rely on (\<open>SessionStorage\<close> in
  \<open>src/storage/interface.ts\<close>): its operations as a record over the adapter's state, and the
  contract every adapter promises as the locale \<open>session_storage\<close>, stated over a view of the
  adapter's state as a map from session ids to sessions.

  Every operation takes the clock readings and the random id it uses as arguments.
\<close>

record 's session_ops =
  st_getSession :: "int \<Rightarrow> string \<Rightarrow> ('s, session option) op"
  st_getSessionsByUser :: "int \<Rightarrow> string \<Rightarrow> ('s, session list) op"
  st_createSession ::
    "int \<Rightarrow> string \<Rightarrow> string \<Rightarrow> user_patch \<Rightarrow> session_metadata option \<Rightarrow> ('s, session) op"
  st_createSessionWithPolicy ::
    "(int \<Rightarrow> string \<Rightarrow> string \<Rightarrow> user_patch \<Rightarrow> session_metadata option \<Rightarrow> bounded_session_policy
        \<Rightarrow> ('s, session) op) option"
  st_updateSession :: "string \<Rightarrow> session_patch \<Rightarrow> ('s, session) op"
  st_deleteSession :: "string \<Rightarrow> ('s, bool) op"
  st_deleteUserSessions :: "string \<Rightarrow> ('s, int) op"
  st_cleanupExpiredSessions :: "int \<Rightarrow> ('s, int) op"

text \<open>
  Texts that may name a session or an account, and patches that keep a session's identity: the
  services of this package only send such patches.
\<close>

definition key_text :: "string \<Rightarrow> bool" where
  "key_text s \<longleftrightarrow> s \<noteq> [] \<and> \<not> has_nul s"

definition plain_patch :: "session_patch \<Rightarrow> bool" where
  "plain_patch p \<longleftrightarrow> sp_id p = None \<and> sp_userId p = None \<and> sp_createdAt p = None
     \<and> (case sp_expires p of None \<Rightarrow> True | Some d \<Rightarrow> finite_date d)"

lemma plain_patch_ids [simp]:
  "plain_patch p \<Longrightarrow> s_id (apply_session_patch p x) = s_id x"
  "plain_patch p \<Longrightarrow> s_userId (apply_session_patch p x) = s_userId x"
  "plain_patch p \<Longrightarrow> s_createdAt (apply_session_patch p x) = s_createdAt x"
  by (simp_all add: plain_patch_def)

lemma plain_patch_valid:
  "plain_patch p \<Longrightarrow> valid_session x \<Longrightarrow> valid_session (apply_session_patch p x)"
  by (auto simp: plain_patch_def valid_session_def split: option.splits)

text \<open>Counting the sessions of a view that lists a valid store.\<close>

lemma ids_of_user_card:
  assumes "valid_store xs" "\<And>i y. f i = Some y \<longleftrightarrow> y \<in> set xs \<and> s_id y = i"
  shows "card {i. \<exists>y. f i = Some y \<and> P y} = length (filter P xs)"
proof -
  have "{i. \<exists>y. f i = Some y \<and> P y} = s_id ` set (filter P xs)"
    using assms(2) by auto
  moreover have "distinct (map s_id (filter P xs))"
    using assms(1) by (auto simp: valid_store_def distinct_map_filter)
  ultimately show ?thesis
    by (metis distinct_card length_map list.set_map)
qed

section \<open>The contract\<close>

text \<open>
  \<open>view s\<close> is the abstract content. A lookup may drop the session it finds expired, and then
  answers nothing; every other operation does to the view what its name says.
\<close>

locale session_storage =
  fixes st :: "'s session_ops"
    and view :: "'s \<Rightarrow> string \<Rightarrow> session option"
    and inv :: "'s \<Rightarrow> bool"
  assumes view_id: "\<lbrakk>inv s; view s i = Some x\<rbrakk> \<Longrightarrow> s_id x = i"
    and view_finite: "inv s \<Longrightarrow> finite (dom (view s))"
    and get_law:
      "inv s \<Longrightarrow> \<exists>r s'. st_getSession st now i s = (Inr r, s') \<and> inv s'
         \<and> (case r of Some x \<Rightarrow> s' = s \<and> view s i = Some x
            | None \<Rightarrow> (view s i = None \<and> view s' = view s)
                \<or> (\<exists>x. view s i = Some x \<and> before (s_expires x) now \<and> view s' = (view s)(i := None)))"
    and by_user_law:
      "inv s \<Longrightarrow> \<exists>xs. st_getSessionsByUser st now u s = (Inr xs, s)
         \<and> (\<forall>x \<in> set xs. view s (s_id x) = Some x \<and> s_userId x = u)
         \<and> (\<forall>i x. view s i = Some x \<and> s_userId x = u \<and> after (s_expires x) now \<longrightarrow> x \<in> set xs)"
    and create_law:
      "\<lbrakk>inv s; view s new = None; key_text new; key_text u\<rbrakk> \<Longrightarrow>
         \<exists>x s'. st_createSession st now new u usr md s = (Inr x, s') \<and> inv s'
           \<and> s_id x = new \<and> s_userId x = u \<and> s_createdAt x = Iso now
           \<and> s_expires x = s_expiresAt x \<and> view s' = (view s)(new \<mapsto> x)"
    and policy_law:
      "\<lbrakk>inv s; view s new = None; key_text new; key_text u; 
        st_createSessionWithPolicy st = Some f; assertBoundedSessionPolicy pol = Inr ()\<rbrakk> \<Longrightarrow>
         \<exists>x s'. f now new u usr md pol s = (Inr x, s') \<and> inv s'
           \<and> s_id x = new \<and> s_userId x = u \<and> view s' new = Some x
           \<and> card {i. \<exists>y. view s' i = Some y \<and> s_userId y = u} \<le> nat (maxConcurrentSessions pol)
           \<and> (\<forall>i y. i \<noteq> new \<and> view s' i = Some y \<longrightarrow> view s i = Some y)
           \<and> (\<forall>i y. s_userId y \<noteq> u \<and> view s i = Some y \<longrightarrow> view s' i = Some y)"
    and update_law:
      "\<lbrakk>inv s; view s i = Some x; plain_patch p\<rbrakk> \<Longrightarrow>
         \<exists>s'. st_updateSession st i p s = (Inr (apply_session_patch p x), s') \<and> inv s'
           \<and> view s' = (view s)(i \<mapsto> apply_session_patch p x)"
    and update_missing_law:
      "\<lbrakk>inv s; view s i = None\<rbrakk> \<Longrightarrow> \<exists>e. st_updateSession st i p s = (Inl e, s)"
    and delete_law:
      "inv s \<Longrightarrow> \<exists>s'. st_deleteSession st i s = (Inr (view s i \<noteq> None), s') \<and> inv s'
         \<and> view s' = (view s)(i := None)"
    and delete_user_law:
      "inv s \<Longrightarrow> \<exists>n s'. st_deleteUserSessions st u s = (Inr n, s') \<and> inv s'
         \<and> n = int (card {i. \<exists>x. view s i = Some x \<and> s_userId x = u})
         \<and> view s' = (\<lambda>i. case view s i of None \<Rightarrow> None
                          | Some x \<Rightarrow> if s_userId x = u then None else Some x)"
    and cleanup_law:
      "inv s \<Longrightarrow> \<exists>n s'. st_cleanupExpiredSessions st now s = (Inr n, s') \<and> inv s'
         \<and> (\<forall>i x. view s' i = Some x \<longrightarrow> view s i = Some x \<and> \<not> before (s_expires x) now)
         \<and> (\<forall>i x. view s i = Some x \<and> after (s_expires x) now \<longrightarrow> view s' i = Some x)"
begin

lemma get_cases:
  assumes "inv s"
  obtains (found) x where "st_getSession st now i s = (Inr (Some x), s)" "view s i = Some x" "s_id x = i"
  | (missing) s' where "st_getSession st now i s = (Inr None, s')" "inv s'" "view s i = None"
      "view s' = view s"
  | (dropped) x s' where "st_getSession st now i s = (Inr None, s')" "inv s'" "view s i = Some x"
      "before (s_expires x) now" "view s' = (view s)(i := None)"
proof -
  obtain r s' where law: "st_getSession st now i s = (Inr r, s')" "inv s'"
      "case r of Some x \<Rightarrow> s' = s \<and> view s i = Some x
       | None \<Rightarrow> (view s i = None \<and> view s' = view s)
           \<or> (\<exists>x. view s i = Some x \<and> before (s_expires x) now \<and> view s' = (view s)(i := None))"
    using get_law [OF assms, of now i] by blast
  show thesis
  proof (cases r)
    case None
    then show thesis using law missing dropped by auto
  next
    case (Some x)
    then show thesis using law found view_id [OF assms] by auto
  qed
qed

lemma delete_cases:
  assumes "inv s"
  obtains s' where "st_deleteSession st i s = (Inr (view s i \<noteq> None), s')" "inv s'"
    "view s' = (view s)(i := None)"
  using delete_law [OF assms] by blast

lemma delete_user_cases:
  assumes "inv s"
  obtains n s' where "st_deleteUserSessions st u s = (Inr n, s')" "inv s'"
    "view s' = (\<lambda>i. case view s i of None \<Rightarrow> None | Some x \<Rightarrow> if s_userId x = u then None else Some x)"
  using delete_user_law [OF assms] by blast

lemma create_cases:
  assumes "inv s" "view s new = None" "key_text new" "key_text u"
  obtains x s' where "st_createSession st now new u usr md s = (Inr x, s')" "inv s'"
    "s_id x = new" "s_userId x = u" "view s' = (view s)(new \<mapsto> x)"
  using create_law [OF assms] by blast

lemma update_cases:
  assumes "inv s" "view s i = Some x" "plain_patch p"
  obtains s' where "st_updateSession st i p s = (Inr (apply_session_patch p x), s')" "inv s'"
    "view s' = (view s)(i \<mapsto> apply_session_patch p x)"
  using update_law [OF assms] by blast

end

end
