(* ===== verification/Session_Manager.thy ===== *)
theory Session_Manager
  imports Session_Interface
begin

text \<open>
  The session service, \<open>src/core/session/index.ts\<close>, over any storage adapter: a manager is its
  storage operations and its configuration, its operations act on the adapter's state. The
  theory proves what the service adds to the storage contract, once, for every adapter.

  \<open>t\<close> is the adapter's reading of the clock and \<open>now\<close> the service's own (\<open>this.now()\<close>), which
  a test build may replace.
\<close>

text \<open>The settings of \<open>SessionConfig\<close> the service reads.\<close>

record session_config =
  sessionStrategy :: "string option"
  cfg_maxAge :: int
  cfg_renewThreshold :: int
  cfg_maxConcurrentSessions :: int

definition session_policy :: "session_config \<Rightarrow> bounded_session_policy" where
  "session_policy cfg =
     \<lparr>maxConcurrentSessions = cfg_maxConcurrentSessions cfg, overflow = ''evict-oldest-created''\<rparr>"

definition sm_createSession ::
  "'s session_ops \<Rightarrow> session_config \<Rightarrow> int \<Rightarrow> string \<Rightarrow> string \<Rightarrow> user_patch
     \<Rightarrow> session_metadata option \<Rightarrow> ('s, session) op" where
  "sm_createSession st cfg t new userId user md =
     (if sessionStrategy cfg = Some ''bounded'' then
        (case assertBoundedSessionPolicy (session_policy cfg) of
           Inl e \<Rightarrow> throw_op e
         | Inr _ \<Rightarrow>
             (case st_createSessionWithPolicy st of
                None \<Rightarrow> throw_op (Error ''Storage does not support atomic bounded sessions'')
              | Some create \<Rightarrow> create t new userId user md (session_policy cfg)))
      else if sessionStrategy cfg \<noteq> None \<and> sessionStrategy cfg \<noteq> Some ''single'' then
        throw_op (Error ''Invalid session strategy'')
      else bind_op (st_deleteUserSessions st userId) (\<lambda>_.
           st_createSession st t new userId user md))"

definition sm_getSession ::
  "'s session_ops \<Rightarrow> int \<Rightarrow> int \<Rightarrow> string \<Rightarrow> ('s, session option) op" where
  "sm_getSession st t now sessionId =
     (if sessionId = [] then return_op None
      else bind_op (st_getSession st t sessionId) (\<lambda>session.
        case session of
          None \<Rightarrow> return_op None
        | Some x \<Rightarrow>
            if before (s_expires x) now
            then bind_op (st_deleteSession st sessionId) (\<lambda>_. return_op None)
            else return_op (Some x)))"

definition sm_validateSession ::
  "'s session_ops \<Rightarrow> int \<Rightarrow> int \<Rightarrow> string \<Rightarrow> ('s, session option) op" where
  "sm_validateSession = sm_getSession"

definition sm_updateSession :: "'s session_ops \<Rightarrow> string \<Rightarrow> session_patch \<Rightarrow> ('s, session) op" where
  "sm_updateSession st sessionId updates = st_updateSession st sessionId updates"

definition updated_session_user :: "session_user_patch \<Rightarrow> session \<Rightarrow> session_user" where
  "updated_session_user userData x =
     apply_session_user_patch userData (s_user x) (str_or (map_option su_id (s_user x)) (s_userId x))"

definition sm_updateSessionUser ::
  "'s session_ops \<Rightarrow> int \<Rightarrow> int \<Rightarrow> string \<Rightarrow> session_user_patch \<Rightarrow> ('s, bool) op" where
  "sm_updateSessionUser st t now sessionId userData =
     bind_op (sm_getSession st t now sessionId) (\<lambda>session.
       case session of
         None \<Rightarrow> return_op False
       | Some x \<Rightarrow>
           bind_op (st_updateSession st sessionId
                      (no_session_patch\<lparr>sp_user := Some (Some (updated_session_user userData x))\<rparr>))
             (\<lambda>_. return_op True))"

text \<open>\<open>refreshSession\<close> reads its clock once in \<open>getSession\<close> (\<open>now\<close>) and once for the new expiry
  (\<open>now'\<close>).\<close>

definition refresh_patch :: "session_config \<Rightarrow> int \<Rightarrow> session_patch" where
  "refresh_patch cfg now' =
     no_session_patch\<lparr>sp_expires := Some (Iso (now' + cfg_maxAge cfg)),
                      sp_expiresAt := Some (Iso (now' + cfg_maxAge cfg))\<rparr>"

definition sm_refreshSession ::
  "'s session_ops \<Rightarrow> session_config \<Rightarrow> int \<Rightarrow> int \<Rightarrow> int \<Rightarrow> string \<Rightarrow> ('s, session option) op" where
  "sm_refreshSession st cfg t now now' sessionId =
     bind_op (sm_getSession st t now sessionId) (\<lambda>session.
       case session of
         None \<Rightarrow> return_op None
       | Some x \<Rightarrow> bind_op (st_updateSession st sessionId (refresh_patch cfg now'))
                     (\<lambda>y. return_op (Some y)))"

definition sm_removeSession :: "'s session_ops \<Rightarrow> string \<Rightarrow> ('s, bool) op" where
  "sm_removeSession st sessionId = st_deleteSession st sessionId"

definition sm_removeUserSessions :: "'s session_ops \<Rightarrow> string \<Rightarrow> ('s, int) op" where
  "sm_removeUserSessions st userId = st_deleteUserSessions st userId"

definition sm_cleanupExpiredSessions :: "'s session_ops \<Rightarrow> int \<Rightarrow> ('s, int) op" where
  "sm_cleanupExpiredSessions st t = st_cleanupExpiredSessions st t"

definition sm_getUserSessions :: "'s session_ops \<Rightarrow> int \<Rightarrow> string \<Rightarrow> ('s, session list) op" where
  "sm_getUserSessions st t userId = st_getSessionsByUser st t userId"

definition sm_shouldRenewSession :: "session_config \<Rightarrow> int \<Rightarrow> session \<Rightarrow> bool" where
  "sm_shouldRenewSession cfg now x =
     (case date_parse (s_expires x) of
        None \<Rightarrow> False
      | Some e \<Rightarrow> e - now < cfg_renewThreshold cfg)"

definition sm_isSessionValid :: "int \<Rightarrow> session option \<Rightarrow> bool" where
  "sm_isSessionValid now session =
     (case session of None \<Rightarrow> False | Some x \<Rightarrow> after (s_expires x) now)"

section \<open>Reading the user agent\<close>

text \<open>
  \<open>android(?!.*mobile)\<close>: an \<open>android\<close> after which no \<open>mobile\<close> follows on the same line.
\<close>

definition rest_of_line :: "string \<Rightarrow> string" where
  "rest_of_line s = takeWhile (\<lambda>c. (of_char c :: nat) \<noteq> 10 \<and> (of_char c :: nat) \<noteq> 13) s"

definition android_without_mobile :: "string \<Rightarrow> bool" where
  "android_without_mobile ua =
     list_ex (\<lambda>t. prefix ''android'' t
                \<and> \<not> str_includes (rest_of_line (drop (length ''android'') t)) ''mobile'')
       (suffixes ua)"

definition classifyDevice :: "string \<Rightarrow> device_type" where
  "classifyDevice userAgent =
     (let ua = toLowerCase userAgent;
          some_of = list_ex (str_includes ua)
      in if some_of [''mobile'', ''android'', ''iphone'', ''ipod'', ''blackberry'', ''opera mini'',
                     ''iemobile'']
         then if some_of [''tablet'', ''ipad''] \<or> android_without_mobile ua then Tablet else Mobile
         else if some_of [''tablet'', ''ipad''] then Tablet
         else if some_of [''mozilla'', ''chrome'', ''safari'', ''firefox'', ''edge'', ''opera'']
         then Desktop else Unknown_device)"

definition extractBrowserInfo :: "string \<Rightarrow> string \<times> string" where
  "extractBrowserInfo userAgent =
     (let ua = toLowerCase userAgent;
          browser =
            (if str_includes ua ''firefox'' then ''Firefox''
             else if str_includes ua ''edg'' then ''Edge''
             else if str_includes ua ''chrome'' then ''Chrome''
             else if str_includes ua ''safari'' then ''Safari''
             else if str_includes ua ''opera'' then ''Opera'' else ''Unknown'');
          platform =
            (if str_includes ua ''windows'' then ''Windows''
             else if str_includes ua ''mac'' then ''macOS''
             else if str_includes ua ''linux'' then ''Linux''
             else if str_includes ua ''android'' then ''Android''
             else if str_includes ua ''iphone'' \<or> str_includes ua ''ipad'' then ''iOS''
             else ''Unknown'')
      in (browser, platform))"

section \<open>What the service guarantees over any adapter\<close>

lemma refresh_patch_plain [simp]: "plain_patch (refresh_patch cfg now')"
  by (simp add: refresh_patch_def plain_patch_def)

lemma refresh_patch_fields [simp]:
  "sp_expires (refresh_patch cfg now') = Some (Iso (now' + cfg_maxAge cfg))"
  "sp_expiresAt (refresh_patch cfg now') = Some (Iso (now' + cfg_maxAge cfg))"
  by (simp_all add: refresh_patch_def)

lemma refresh_patch_expires:
  "s_expires (apply_session_patch (refresh_patch cfg now') x) = Iso (now' + cfg_maxAge cfg)"
  "s_expiresAt (apply_session_patch (refresh_patch cfg now') x) = Iso (now' + cfg_maxAge cfg)"
  by simp_all

lemma user_patch_plain [simp]: "plain_patch (no_session_patch\<lparr>sp_user := v\<rparr>)"
  by (simp add: plain_patch_def)

lemma user_patch_expires [simp]:
  "s_expires (apply_session_patch (no_session_patch\<lparr>sp_user := v\<rparr>) x) = s_expires x"
  by simp

lemma user_patch_user [simp]:
  "s_user (apply_session_patch (no_session_patch\<lparr>sp_user := Some v\<rparr>) x) = v"
  by simp

lemma sm_createSession_invalid:
  "sessionStrategy cfg = Some n \<Longrightarrow> n \<noteq> ''bounded'' \<Longrightarrow> n \<noteq> ''single'' \<Longrightarrow>
   sm_createSession st cfg t new u usr md s = (Inl (Error ''Invalid session strategy''), s)"
  by (simp add: sm_createSession_def)

context session_storage
begin

text \<open>The default strategy leaves the account with the new session only, and others alone.\<close>

lemma createSession_single:
  assumes "inv s" "view s new = None" "key_text new" "key_text u"
    and strategy: "sessionStrategy cfg = None \<or> sessionStrategy cfg = Some ''single''"
  shows "\<exists>x s'. sm_createSession st cfg t new u usr md s = (Inr x, s') \<and> inv s'
           \<and> s_id x = new \<and> s_userId x = u
           \<and> (\<forall>i y. view s' i = Some y \<longleftrightarrow>
                (i = new \<and> y = x) \<or> (view s i = Some y \<and> s_userId y \<noteq> u))"
proof -
  obtain n s1 where del: "st_deleteUserSessions st u s = (Inr n, s1)" "inv s1"
      "view s1 = (\<lambda>i. case view s i of None \<Rightarrow> None
                     | Some x \<Rightarrow> if s_userId x = u then None else Some x)"
    using delete_user_cases [OF assms(1)] by blast
  have fresh: "view s1 new = None"
    using assms(2) by (simp add: del(3))
  obtain x s' where x: "st_createSession st t new u usr md s1 = (Inr x, s')" "inv s'"
      "s_id x = new" "s_userId x = u" "view s' = (view s1)(new \<mapsto> x)"
    using create_cases [OF del(2) fresh assms(3,4)] by blast
  have run: "sm_createSession st cfg t new u usr md s = (Inr x, s')"
    using strategy by (auto simp: sm_createSession_def bind_op_def del(1) x(1))
  have "view s' i = Some y \<longleftrightarrow>
      (i = new \<and> y = x) \<or> (view s i = Some y \<and> s_userId y \<noteq> u)" for i y
    using assms(2) by (auto simp: x(5) del(3) split: option.splits)
  with run x(2-4) show ?thesis by blast
qed

text \<open>The bounded strategy keeps the account at the configured number of sessions.\<close>

lemma createSession_bounded:
  assumes "inv s" "view s new = None" "key_text new" "key_text u"
    and strategy: "sessionStrategy cfg = Some ''bounded''"
    and policy: "assertBoundedSessionPolicy (session_policy cfg) = Inr ()"
    and provided: "st_createSessionWithPolicy st = Some f"
  shows "\<exists>x s'. sm_createSession st cfg t new u usr md s = (Inr x, s') \<and> inv s'
           \<and> s_id x = new \<and> s_userId x = u \<and> view s' new = Some x
           \<and> card {i. \<exists>y. view s' i = Some y \<and> s_userId y = u}
               \<le> nat (cfg_maxConcurrentSessions cfg)
           \<and> (\<forall>i y. i \<noteq> new \<and> view s' i = Some y \<longrightarrow> view s i = Some y)
           \<and> (\<forall>i y. s_userId y \<noteq> u \<and> view s i = Some y \<longrightarrow> view s' i = Some y)"
proof -
  have "sm_createSession st cfg t new u usr md s = f t new u usr md (session_policy cfg) s"
    by (simp add: sm_createSession_def strategy policy provided)
  then show ?thesis
    using policy_law [OF assms(1-4) provided policy, of t usr md]
    by (simp add: session_policy_def)
qed

text \<open>A lookup never returns a session that is expired at the service's clock.\<close>

lemma getSession_live:
  assumes "inv s"
  shows "\<exists>r s'. sm_getSession st t now i s = (Inr r, s') \<and> inv s'
     \<and> (\<forall>j. j \<noteq> i \<longrightarrow> view s' j = view s j)
     \<and> (case r of
          Some x \<Rightarrow> s' = s \<and> view s i = Some x \<and> s_id x = i \<and> \<not> before (s_expires x) now
        | None \<Rightarrow> i = [] \<or> view s' i = None)"
proof (cases "i = []")
  case True
  then show ?thesis using assms by (simp add: sm_getSession_def)
next
  case False
  show ?thesis
  proof (cases rule: get_cases [OF assms, of t i])
    case (1 x)
    show ?thesis
    proof (cases "before (s_expires x) now")
      case True
      obtain s' where "st_deleteSession st i s = (Inr (view s i \<noteq> None), s')" "inv s'"
          "view s' = (view s)(i := None)"
        using delete_cases [OF assms] by blast
      then show ?thesis
        using False True 1 by (simp add: sm_getSession_def)
    next
      case live: False
      then show ?thesis
        using False 1 assms by (simp add: sm_getSession_def)
    qed
  next
    case (2 s')
    then show ?thesis using False by (simp add: sm_getSession_def)
  next
    case (3 x s')
    then show ?thesis using False by (simp add: sm_getSession_def)
  qed
qed

lemma getSession_cases:
  assumes "inv s"
  obtains (live) x where "sm_getSession st t now i s = (Inr (Some x), s)" "view s i = Some x"
      "s_id x = i" "\<not> before (s_expires x) now"
  | (gone) s' where "sm_getSession st t now i s = (Inr None, s')" "inv s'"
      "i = [] \<or> view s' i = None" "\<forall>j. j \<noteq> i \<longrightarrow> view s' j = view s j"
proof -
  obtain r s' where "sm_getSession st t now i s = (Inr r, s')" "inv s'"
     "\<forall>j. j \<noteq> i \<longrightarrow> view s' j = view s j"
     "case r of
          Some x \<Rightarrow> s' = s \<and> view s i = Some x \<and> s_id x = i \<and> \<not> before (s_expires x) now
        | None \<Rightarrow> i = [] \<or> view s' i = None"
    using getSession_live [OF assms, of t now i] by blast
  then show thesis
    using live gone by (cases r) auto
qed

text \<open>Refreshing a live session moves both expiry fields and nothing else about its identity.\<close>

lemma refreshSession_result:
  assumes "inv s"
  shows "\<exists>r s'. sm_refreshSession st cfg t now now' i s = (Inr r, s') \<and> inv s'
     \<and> (\<forall>j. j \<noteq> i \<longrightarrow> view s' j = view s j)
     \<and> (case r of
          None \<Rightarrow> i = [] \<or> view s' i = None
        | Some y \<Rightarrow> (\<exists>x. view s i = Some x \<and> \<not> before (s_expires x) now
              \<and> y = apply_session_patch (refresh_patch cfg now') x) \<and> view s' i = Some y)"
proof (cases rule: getSession_cases [OF assms, of t now i])
  case (1 x)
  obtain s' where "st_updateSession st i (refresh_patch cfg now') s
        = (Inr (apply_session_patch (refresh_patch cfg now') x), s')" "inv s'"
      "view s' = (view s)(i \<mapsto> apply_session_patch (refresh_patch cfg now') x)"
    using update_cases [OF assms 1(2) refresh_patch_plain] by blast
  then show ?thesis
    using 1 by (simp add: sm_refreshSession_def)
next
  case (2 s')
  then show ?thesis by (simp add: sm_refreshSession_def)
qed

text \<open>After a refresh the session answers until its new expiry.\<close>

lemma refreshed_session_valid:
  assumes "inv s" "sm_refreshSession st cfg t now now' i s = (Inr (Some y), s')"
    and "later \<le> now' + cfg_maxAge cfg" "later_t \<le> now' + cfg_maxAge cfg" "i \<noteq> []"
  shows "sm_getSession st later_t later i s' = (Inr (Some y), s') \<and> s_id y = i"
proof -
  from refreshSession_result [OF assms(1), of cfg t now now' i] assms(2)
  obtain x where inv: "inv s'" and y: "view s' i = Some y"
      "y = apply_session_patch (refresh_patch cfg now') x"
    by auto
  have expires: "s_expires y = Iso (now' + cfg_maxAge cfg)" by (simp add: y(2))
  show ?thesis
  proof (cases rule: get_cases [OF inv, of later_t i])
    case (1 z)
    then show ?thesis
      using y(1) expires assms(3,5) by (simp add: sm_getSession_def)
  next
    case (2 s2)
    then show ?thesis using y(1) by simp
  next
    case (3 z s2)
    then show ?thesis using y(1) expires assms(4) by simp
  qed
qed

text \<open>Changing a session's user keeps the user's id and the expiry.\<close>

lemma updateSessionUser_result:
  assumes "inv s"
  shows "\<exists>b s'. sm_updateSessionUser st t now i d s = (Inr b, s') \<and> inv s'
     \<and> (\<forall>j. j \<noteq> i \<longrightarrow> view s' j = view s j)
     \<and> (if b then \<exists>x y. view s i = Some x \<and> \<not> before (s_expires x) now \<and> view s' i = Some y
              \<and> s_id y = i \<and> s_userId y = s_userId x \<and> s_expires y = s_expires x
              \<and> s_user y = Some (updated_session_user d x)
        else i = [] \<or> view s' i = None)"
proof (cases rule: getSession_cases [OF assms, of t now i])
  case (1 x)
  let ?p = "no_session_patch\<lparr>sp_user := Some (Some (updated_session_user d x))\<rparr>"
  obtain s' where s': "st_updateSession st i ?p s = (Inr (apply_session_patch ?p x), s')" "inv s'"
      "view s' = (view s)(i \<mapsto> apply_session_patch ?p x)"
    using update_cases [OF assms 1(2) user_patch_plain] by blast
  have run: "sm_updateSessionUser st t now i d s = (Inr True, s')"
    using 1 s'(1) by (simp add: sm_updateSessionUser_def)
  have "s_id (apply_session_patch ?p x) = i" using 1(3) by simp
  then show ?thesis
    using 1 s'(2,3) by (intro exI [of _ True] exI [of _ s']) (simp add: run)
next
  case (2 s')
  then show ?thesis
    by (intro exI [of _ False] exI [of _ s']) (simp add: sm_updateSessionUser_def)
qed

text \<open>A removed session is gone, and removing an account's sessions removes exactly those.\<close>

lemma removed_session_gone:
  assumes "inv s" "sm_removeSession st i s = (Inr b, s')"
  shows "fst (sm_getSession st t now i s') = Inr None \<and> b = (view s i \<noteq> None)"
proof -
  obtain s1 where "st_deleteSession st i s = (Inr (view s i \<noteq> None), s1)" "inv s1"
      "view s1 = (view s)(i := None)"
    using delete_cases [OF assms(1)] by blast
  then have s': "inv s'" "view s' i = None" "b = (view s i \<noteq> None)"
    using assms(2) by (auto simp: sm_removeSession_def)
  show ?thesis
  proof (cases rule: getSession_cases [OF s'(1), of t now i])
    case (1 x)
    then show ?thesis using s'(2) by simp
  next
    case (2 s2)
    then show ?thesis using s'(3) by simp
  qed
qed

lemma removed_user_sessions_gone:
  assumes "inv s" "sm_removeUserSessions st u s = (Inr n, s')"
  shows "fst (sm_getUserSessions st t u s') = Inr []
    \<and> n = int (card {i. \<exists>x. view s i = Some x \<and> s_userId x = u})
    \<and> (\<forall>i x. view s i = Some x \<and> s_userId x \<noteq> u \<longrightarrow> view s' i = Some x)"
proof -
  obtain n1 s1 where del: "st_deleteUserSessions st u s = (Inr n1, s1)" "inv s1"
      "n1 = int (card {i. \<exists>x. view s i = Some x \<and> s_userId x = u})"
      "view s1 = (\<lambda>i. case view s i of None \<Rightarrow> None
                     | Some x \<Rightarrow> if s_userId x = u then None else Some x)"
    using delete_user_law [OF assms(1)] by blast
  have s': "s1 = s'" "n1 = n"
    using assms(2) del(1) by (auto simp: sm_removeUserSessions_def)
  obtain xs where xs: "st_getSessionsByUser st t u s' = (Inr xs, s')"
      "\<forall>x \<in> set xs. view s' (s_id x) = Some x \<and> s_userId x = u"
    using by_user_law [OF del(2), of t u] s' by blast
  have "xs = []"
  proof (cases xs)
    case (Cons y ys)
    then have "view s' (s_id y) = Some y" "s_userId y = u" using xs(2) by auto
    then show ?thesis using del(4) s'(1) by (auto split: option.splits if_splits)
  qed simp
  then show ?thesis
    using xs(1) del(3,4) s' by (auto simp: sm_getUserSessions_def)
qed

end

text \<open>
  The service's two tests agree except at the very instant of expiry, where a lookup still
  returns the session and \<open>isSessionValid\<close> calls it invalid.
\<close>

lemma isSessionValid_not_expired:
  "sm_isSessionValid now (Some x) \<Longrightarrow> \<not> before (s_expires x) now"
  by (simp add: sm_isSessionValid_def after_not_before)

lemma isSessionValid_boundary:
  "\<not> before (s_expires x) now \<Longrightarrow> \<not> sm_isSessionValid now (Some x) \<Longrightarrow>
     date_parse (s_expires x) = Some now \<or> date_parse (s_expires x) = None"
  by (auto simp: sm_isSessionValid_def before_def after_def split: option.splits)

end
