(* ===== verification/Memory_Storage.thy ===== *)
theory Memory_Storage
  imports Session_Manager
begin

text \<open>
  The in-memory adapter, \<open>src/storage/memory.ts\<close>: its eight collections as a record of
  insertion-ordered maps, one operation per method, the invariant of the session map and of
  the two user indexes, and the adapter as a provider of the session contract.

  Each method runs without waiting in between, except \<open>deleteUser\<close>, whose three last calls are
  awaited; it is modelled as one step.
\<close>

record memory =
  m_users :: "admin_user jsmap"
  m_usersByHandle :: "string jsmap"
  m_usersByEmail :: "string jsmap"
  m_sessions :: "session jsmap"
  m_totpSecrets :: "encrypted_totp_secret jsmap"
  m_backupCodes :: "backup_code_set jsmap"
  m_invitations :: "admin_invitation jsmap"
  m_auditEvents :: "audit_event list"

definition empty_memory :: memory where
  "empty_memory =
     \<lparr>m_users = [], m_usersByHandle = [], m_usersByEmail = [], m_sessions = [],
      m_totpSecrets = [], m_backupCodes = [], m_invitations = [], m_auditEvents = []\<rparr>"

definition mem_init :: "(memory, unit) op" where
  "mem_init = return_op ()"

definition mem_close :: "(memory, unit) op" where
  "mem_close = (\<lambda>m. (Inr (), empty_memory))"

section \<open>Accounts\<close>

definition mem_getUser :: "string \<Rightarrow> (memory, admin_user option) op" where
  "mem_getUser uid = (\<lambda>m. (Inr (map_of (m_users m) uid), m))"

definition indexed_user :: "string jsmap \<Rightarrow> memory \<Rightarrow> string \<Rightarrow> admin_user option" where
  "indexed_user index m key =
     (case map_of index (toLowerCase key) of
        None \<Rightarrow> None
      | Some uid \<Rightarrow> if uid = [] then None else map_of (m_users m) uid)"

definition mem_getUserByHandle :: "string \<Rightarrow> (memory, admin_user option) op" where
  "mem_getUserByHandle handle = (\<lambda>m. (Inr (indexed_user (m_usersByHandle m) m handle), m))"

definition mem_getUserByEmail :: "string \<Rightarrow> (memory, admin_user option) op" where
  "mem_getUserByEmail email = (\<lambda>m. (Inr (indexed_user (m_usersByEmail m) m email), m))"

definition mem_getAllUsers :: "(memory, admin_user list) op" where
  "mem_getAllUsers = (\<lambda>m. (Inr (map_values (m_users m)), m))"

definition mem_createUser :: "string \<Rightarrow> admin_user \<Rightarrow> (memory, admin_user) op" where
  "mem_createUser uid user = (\<lambda>m.
     let newUser = user\<lparr>u_id := uid\<rparr>
     in (Inr newUser,
         m\<lparr>m_users := map_set uid newUser (m_users m),
           m_usersByHandle := map_set (toLowerCase (u_handle newUser)) uid (m_usersByHandle m),
           m_usersByEmail :=
             (case u_email newUser of
                None \<Rightarrow> m_usersByEmail m
              | Some e \<Rightarrow> if e = [] then m_usersByEmail m
                          else map_set (toLowerCase e) uid (m_usersByEmail m))\<rparr>))"

text \<open>\<open>if (updates.handle && updates.handle !== user.handle)\<close> and the same for the email.\<close>

definition reindex_handle :: "string \<Rightarrow> user_patch \<Rightarrow> admin_user \<Rightarrow> string jsmap \<Rightarrow> string jsmap" where
  "reindex_handle uid p user index =
     (case p_handle p of
        None \<Rightarrow> index
      | Some h \<Rightarrow> if h \<noteq> [] \<and> h \<noteq> u_handle user
                  then map_set (toLowerCase h) uid (map_del (toLowerCase (u_handle user)) index)
                  else index)"

definition unindex_email :: "admin_user \<Rightarrow> string jsmap \<Rightarrow> string jsmap" where
  "unindex_email user index =
     (case u_email user of
        None \<Rightarrow> index
      | Some e \<Rightarrow> if e = [] then index else map_del (toLowerCase e) index)"

definition reindex_email :: "string \<Rightarrow> user_patch \<Rightarrow> admin_user \<Rightarrow> string jsmap \<Rightarrow> string jsmap" where
  "reindex_email uid p user index =
     (case flat (p_email p) of
        None \<Rightarrow> index
      | Some e \<Rightarrow> if e \<noteq> [] \<and> Some e \<noteq> u_email user
                  then map_set (toLowerCase e) uid (unindex_email user index)
                  else index)"

definition mem_updateUser :: "int \<Rightarrow> string \<Rightarrow> user_patch \<Rightarrow> (memory, admin_user) op" where
  "mem_updateUser now uid updates = (\<lambda>m.
     case map_of (m_users m) uid of
       None \<Rightarrow> (Inl (Error (''User '' @ uid @ '' not found'')), m)
     | Some user \<Rightarrow>
         let updatedUser = (apply_user_patch updates user)\<lparr>u_id := uid, u_updatedAt := Iso now\<rparr>
         in (Inr updatedUser,
             m\<lparr>m_usersByHandle := reindex_handle uid updates user (m_usersByHandle m),
               m_usersByEmail := reindex_email uid updates user (m_usersByEmail m),
               m_users := map_set uid updatedUser (m_users m)\<rparr>))"

definition mem_hasUsers :: "(memory, bool) op" where
  "mem_hasUsers = (\<lambda>m. (Inr (m_users m \<noteq> []), m))"

section \<open>Sessions\<close>

definition mem_getSession :: "int \<Rightarrow> string \<Rightarrow> (memory, session option) op" where
  "mem_getSession now i = (\<lambda>m.
     case map_of (m_sessions m) i of
       None \<Rightarrow> (Inr None, m)
     | Some x \<Rightarrow> if before (s_expires x) now
                 then (Inr None, m\<lparr>m_sessions := map_del i (m_sessions m)\<rparr>)
                 else (Inr (Some x), m))"

definition mem_getSessionsByUser :: "int \<Rightarrow> string \<Rightarrow> (memory, session list) op" where
  "mem_getSessionsByUser now userId = (\<lambda>m.
     (Inr (filter (\<lambda>s. s_userId s = userId \<and> after (s_expires s) now) (map_values (m_sessions m))), m))"

definition mem_getAllSessions :: "(memory, session list) op" where
  "mem_getAllSessions = (\<lambda>m. (Inr (map_values (m_sessions m)), m))"

definition week_ms :: int where
  "week_ms = 7 * 24 * 60 * 60 * 1000"

definition mem_newSession ::
  "int \<Rightarrow> string \<Rightarrow> string \<Rightarrow> user_patch \<Rightarrow> session_metadata option \<Rightarrow> session" where
  "mem_newSession now new userId user md =
     \<lparr>s_id = new, s_userId = userId,
      s_expires = Iso (now + week_ms), s_expiresAt = Iso (now + week_ms), s_createdAt = Iso now,
      s_user = Some
        \<lparr>su_id = str_or (p_id user) userId,
         su_username = Some (str_or (p_handle user) []),
         su_name = Some (str_or (flat (p_displayName user)) (str_or (p_handle user) [])),
         su_role = Some (str_or (p_role user) ''viewer''),
         su_needsOnboarding = p_needsOnboarding user,
         su_onboardingStep = p_onboardingStep user\<rparr>,
      s_clientIp = str_or (map_option md_clientIp md) ''unknown'',
      s_clientIpMasked = Option.bind md md_clientIpMasked,
      s_userAgent = str_or (map_option md_userAgent md) ''unknown'',
      s_deviceType = Some (nullish (Option.bind md md_deviceType) Unknown_device),
      s_browserFingerprint = Option.bind md md_browserFingerprint,
      s_geoLocation = Option.bind md md_geoLocation,
      s_tempTotpSecret = None, s_tempTotpExpiresAt = None\<rparr>"

definition mem_createSession ::
  "int \<Rightarrow> string \<Rightarrow> string \<Rightarrow> user_patch \<Rightarrow> session_metadata option \<Rightarrow> (memory, session) op" where
  "mem_createSession now new userId user md = (\<lambda>m.
     let session = mem_newSession now new userId user md
     in (Inr session, m\<lparr>m_sessions := map_set (s_id session) session (m_sessions m)\<rparr>))"

text \<open>\<open>new Map(next.map(item => [item.id, item]))\<close>.\<close>

definition session_map :: "session list \<Rightarrow> session jsmap" where
  "session_map xs = foldl (\<lambda>acc x. map_set (s_id x) x acc) [] xs"

text \<open>The service reads the clock once in \<open>newSession\<close> and once for the policy (\<open>now'\<close>).\<close>

definition mem_createSessionWithPolicy ::
  "int \<Rightarrow> int \<Rightarrow> string \<Rightarrow> string \<Rightarrow> user_patch \<Rightarrow> session_metadata option \<Rightarrow> bounded_session_policy
     \<Rightarrow> (memory, session) op" where
  "mem_createSessionWithPolicy now now' new userId user md policy = (\<lambda>m.
     case assertBoundedSessionPolicy policy of
       Inl e \<Rightarrow> (Inl e, m)
     | Inr _ \<Rightarrow>
         let session = mem_newSession now new userId user md
         in case boundedSessions (map_values (m_sessions m)) session policy now' of
              Inl e \<Rightarrow> (Inl e, m)
            | Inr next \<Rightarrow> (Inr session, m\<lparr>m_sessions := session_map next\<rparr>))"

definition mem_updateSession :: "string \<Rightarrow> session_patch \<Rightarrow> (memory, session) op" where
  "mem_updateSession i updates = (\<lambda>m.
     case map_of (m_sessions m) i of
       None \<Rightarrow> (Inl (Error (''Session '' @ i @ '' not found'')), m)
     | Some x \<Rightarrow>
         let updatedSession = (apply_session_patch updates x)\<lparr>s_id := i\<rparr>
         in (Inr updatedSession, m\<lparr>m_sessions := map_set i updatedSession (m_sessions m)\<rparr>))"

definition mem_deleteSession :: "string \<Rightarrow> (memory, bool) op" where
  "mem_deleteSession i = (\<lambda>m.
     (Inr (map_has i (m_sessions m)), m\<lparr>m_sessions := map_del i (m_sessions m)\<rparr>))"

definition mem_deleteUserSessions :: "string \<Rightarrow> (memory, int) op" where
  "mem_deleteUserSessions userId = (\<lambda>m.
     let (n, rest) = delete_where (\<lambda>s. s_userId s = userId) (m_sessions m)
     in (Inr n, m\<lparr>m_sessions := rest\<rparr>))"

definition mem_cleanupExpiredSessions :: "int \<Rightarrow> (memory, int) op" where
  "mem_cleanupExpiredSessions now = (\<lambda>m.
     let (n, rest) = delete_where (\<lambda>s. before (s_expires s) now) (m_sessions m)
     in (Inr n, m\<lparr>m_sessions := rest\<rparr>))"

section \<open>Second factors\<close>

definition mem_getTOTPSecret :: "string \<Rightarrow> (memory, encrypted_totp_secret option) op" where
  "mem_getTOTPSecret handle = (\<lambda>m. (Inr (map_of (m_totpSecrets m) (toLowerCase handle)), m))"

definition mem_saveTOTPSecret :: "string \<Rightarrow> encrypted_totp_secret \<Rightarrow> (memory, unit) op" where
  "mem_saveTOTPSecret handle secret = (\<lambda>m.
     (Inr (), m\<lparr>m_totpSecrets := map_set (toLowerCase handle) secret (m_totpSecrets m)\<rparr>))"

definition mem_deleteTOTPSecret :: "string \<Rightarrow> (memory, bool) op" where
  "mem_deleteTOTPSecret handle = (\<lambda>m.
     (Inr (map_has (toLowerCase handle) (m_totpSecrets m)),
      m\<lparr>m_totpSecrets := map_del (toLowerCase handle) (m_totpSecrets m)\<rparr>))"

definition mem_getBackupCodes :: "string \<Rightarrow> (memory, backup_code_set option) op" where
  "mem_getBackupCodes userId = (\<lambda>m. (Inr (map_of (m_backupCodes m) userId), m))"

definition mem_saveBackupCodes :: "string \<Rightarrow> backup_code_set \<Rightarrow> (memory, unit) op" where
  "mem_saveBackupCodes userId codes = (\<lambda>m.
     (Inr (), m\<lparr>m_backupCodes := map_set userId codes (m_backupCodes m)\<rparr>))"

definition mem_deleteBackupCodes :: "string \<Rightarrow> (memory, bool) op" where
  "mem_deleteBackupCodes userId = (\<lambda>m.
     (Inr (map_has userId (m_backupCodes m)),
      m\<lparr>m_backupCodes := map_del userId (m_backupCodes m)\<rparr>))"

text \<open>\<open>deleteUser\<close>: the account, its index entries, and then its sessions and second factors.\<close>

definition mem_deleteUser :: "string \<Rightarrow> (memory, bool) op" where
  "mem_deleteUser uid = (\<lambda>m.
     case map_of (m_users m) uid of
       None \<Rightarrow> (Inr False, m)
     | Some user \<Rightarrow>
         bind_op (mem_deleteUserSessions uid) (\<lambda>_.
         bind_op (mem_deleteTOTPSecret (u_handle user)) (\<lambda>_.
         bind_op (mem_deleteBackupCodes uid) (\<lambda>_. return_op True)))
           (m\<lparr>m_users := map_del uid (m_users m),
              m_usersByHandle := map_del (toLowerCase (u_handle user)) (m_usersByHandle m),
              m_usersByEmail := unindex_email user (m_usersByEmail m)\<rparr>))"

section \<open>Invitations\<close>

definition mem_getInvitation :: "int \<Rightarrow> string \<Rightarrow> (memory, admin_invitation option) op" where
  "mem_getInvitation now token = (\<lambda>m.
     (Inr (case map_of (m_invitations m) token of
             None \<Rightarrow> None
           | Some i \<Rightarrow> if before (i_expiresAt i) now then None else Some i), m))"

definition mem_getInvitationById :: "string \<Rightarrow> (memory, admin_invitation option) op" where
  "mem_getInvitationById iid = (\<lambda>m.
     (Inr (List.find (\<lambda>i. i_id i = iid) (map_values (m_invitations m))), m))"

definition mem_getAllInvitations :: "(memory, admin_invitation list) op" where
  "mem_getAllInvitations = (\<lambda>m. (Inr (map_values (m_invitations m)), m))"

definition mem_getPendingInvitations :: "int \<Rightarrow> (memory, admin_invitation list) op" where
  "mem_getPendingInvitations now = (\<lambda>m.
     (Inr (filter (\<lambda>i. after (i_expiresAt i) now \<and> \<not> stamp_truthy (i_usedAt i))
             (map_values (m_invitations m))), m))"

definition mem_createInvitation :: "string \<Rightarrow> admin_invitation \<Rightarrow> (memory, admin_invitation) op" where
  "mem_createInvitation iid invitation = (\<lambda>m.
     let newInvitation = invitation\<lparr>i_id := iid\<rparr>
     in (Inr newInvitation,
         m\<lparr>m_invitations := map_set (i_token invitation) newInvitation (m_invitations m)\<rparr>))"

definition mem_updateInvitation :: "string \<Rightarrow> invitation_patch \<Rightarrow> (memory, admin_invitation) op" where
  "mem_updateInvitation token updates = (\<lambda>m.
     case map_of (m_invitations m) token of
       None \<Rightarrow> (Inl (Error ''Invitation not found''), m)
     | Some i \<Rightarrow>
         let updatedInvitation = apply_invitation_patch updates i
         in (Inr updatedInvitation,
             m\<lparr>m_invitations := map_set token updatedInvitation (m_invitations m)\<rparr>))"

definition mem_deleteInvitation :: "string \<Rightarrow> (memory, bool) op" where
  "mem_deleteInvitation token = (\<lambda>m.
     (Inr (map_has token (m_invitations m)),
      m\<lparr>m_invitations := map_del token (m_invitations m)\<rparr>))"

definition mem_cleanupExpiredInvitations :: "int \<Rightarrow> (memory, int) op" where
  "mem_cleanupExpiredInvitations now = (\<lambda>m.
     let (n, rest) = delete_where (\<lambda>i. before (i_expiresAt i) now \<or> stamp_truthy (i_usedAt i))
                       (m_invitations m)
     in (Inr n, m\<lparr>m_invitations := rest\<rparr>))"

section \<open>Audit events\<close>

definition mem_logAuditEvent :: "string \<Rightarrow> audit_event \<Rightarrow> (memory, audit_event) op" where
  "mem_logAuditEvent eid event = (\<lambda>m.
     let auditEvent = event\<lparr>ae_id := eid\<rparr>;
         events = m_auditEvents m @ [auditEvent]
     in (Inr auditEvent,
         m\<lparr>m_auditEvents :=
             (if length events > 10000 then js_slice (- 10000) None events else events)\<rparr>))"

text \<open>\<open>AuditEventFilters\<close>; the two dates are valid \<open>Date\<close> objects.\<close>

record audit_event_filters =
  af_type :: "audit_event_type option"
  af_userId :: "string option"
  af_startDate :: "int option"
  af_endDate :: "int option"
  af_severity :: "audit_severity option"
  af_limit :: "int option"
  af_offset :: "int option"

definition when_given :: "'a option \<Rightarrow> ('a \<Rightarrow> 'b list \<Rightarrow> 'b list) \<Rightarrow> 'b list \<Rightarrow> 'b list" where
  "when_given v f xs = (case v of None \<Rightarrow> xs | Some a \<Rightarrow> f a xs)"

definition truthy_num :: "int option \<Rightarrow> int option" where
  "truthy_num v = (case v of None \<Rightarrow> None | Some n \<Rightarrow> if n = 0 then None else Some n)"

definition mem_getAuditEvents :: "audit_event_filters \<Rightarrow> (memory, audit_event list) op" where
  "mem_getAuditEvents filters = (\<lambda>m.
     let events = m_auditEvents m;
         events = when_given (af_type filters) (\<lambda>t. filter (\<lambda>e. ae_type e = t)) events;
         events = (if truthy (af_userId filters)
                   then filter (\<lambda>e. ae_userId e = af_userId filters) events else events);
         events = when_given (af_severity filters) (\<lambda>v. filter (\<lambda>e. ae_severity e = v)) events;
         events = when_given (af_startDate filters) (\<lambda>d. filter (\<lambda>e. at_or_after (ae_timestamp e) d)) events;
         events = when_given (af_endDate filters) (\<lambda>d. filter (\<lambda>e. at_or_before (ae_timestamp e) d)) events;
         events = when_given (truthy_num (af_offset filters)) (\<lambda>n. js_slice n None) events;
         events = when_given (truthy_num (af_limit filters)) (\<lambda>n. js_slice 0 (Some n)) events
     in (Inr events, m))"

definition mem_getRecentAuditEvents :: "int option \<Rightarrow> (memory, audit_event list) op" where
  "mem_getRecentAuditEvents limit = (\<lambda>m.
     (Inr (rev (js_slice (- nullish limit 100) None (m_auditEvents m))), m))"

definition memory_sessions :: "memory session_ops" where
  "memory_sessions =
     \<lparr>st_getSession = mem_getSession, st_getSessionsByUser = mem_getSessionsByUser,
      st_createSession = mem_createSession,
      st_createSessionWithPolicy = Some (\<lambda>now. mem_createSessionWithPolicy now now),
      st_updateSession = mem_updateSession, st_deleteSession = mem_deleteSession,
      st_deleteUserSessions = mem_deleteUserSessions,
      st_cleanupExpiredSessions = mem_cleanupExpiredSessions\<rparr>"

section \<open>The session map\<close>

lemma map_set_new: "k \<notin> fst ` set m \<Longrightarrow> map_set k v m = m @ [(k, v)]"
  by (induction m) auto

lemma foldl_session_map:
  "distinct (map fst acc @ map s_id xs) \<Longrightarrow>
   foldl (\<lambda>acc x. map_set (s_id x) x acc) acc xs = acc @ map (\<lambda>x. (s_id x, x)) xs"
proof (induction xs arbitrary: acc)
  case Nil
  then show ?case by simp
next
  case (Cons x xs)
  have "map_set (s_id x) x acc = acc @ [(s_id x, x)]"
    using Cons.prems by (intro map_set_new) auto
  then show ?case using Cons by simp
qed

lemma session_map_eq: "distinct (map s_id xs) \<Longrightarrow> session_map xs = map (\<lambda>x. (s_id x, x)) xs"
  using foldl_session_map [of "[]" xs] by (simp add: session_map_def)

text \<open>Each session is stored once, under its own id, with the fields a stored session needs.\<close>

definition sessions_keyed :: "session jsmap \<Rightarrow> bool" where
  "sessions_keyed m \<longleftrightarrow> keys_distinct m \<and> (\<forall>(k, x) \<in> set m. s_id x = k \<and> valid_session x)"

lemma sessions_keyed_Nil [simp, wf_intros]: "sessions_keyed []"
  by (simp add: sessions_keyed_def)

lemma sessions_keyed_del [simp, wf_intros]: "sessions_keyed m \<Longrightarrow> sessions_keyed (map_del k m)"
  by (auto simp: sessions_keyed_def AList.delete_eq)

lemma sessions_keyed_filter [simp, wf_intros]: "sessions_keyed m \<Longrightarrow> sessions_keyed (filter P m)"
  by (auto simp: sessions_keyed_def)

lemma set_map_set_subset: "set (map_set k v m) \<subseteq> insert (k, v) (set m)"
  by (induction m) auto

lemma sessions_keyed_set [simp, wf_intros]:
  "sessions_keyed m \<Longrightarrow> s_id x = k \<Longrightarrow> valid_session x \<Longrightarrow> sessions_keyed (map_set k x m)"
  using set_map_set_subset [of k x m] by (fastforce simp: sessions_keyed_def)

lemma sessions_keyed_map_of:
  assumes "sessions_keyed m" "map_of m k = Some x"
  shows "s_id x = k \<and> valid_session x"
  using assms map_of_SomeD [of m k x] by (auto simp: sessions_keyed_def)

lemma sessions_keyed_store:
  assumes "sessions_keyed m"
  shows "valid_store (map_values m)"
proof -
  have same: "map (s_id \<circ> snd) m = map fst m"
    using assms by (auto simp: sessions_keyed_def)
  have "distinct (map (s_id \<circ> snd) m)"
    by (subst same) (use assms in \<open>simp add: sessions_keyed_def keys_distinct_def\<close>)
  then show ?thesis
    using assms by (auto simp: valid_store_def sessions_keyed_def)
qed

lemma sessions_keyed_of_store:
  "valid_store xs \<Longrightarrow> sessions_keyed (map (\<lambda>x. (s_id x, x)) xs)"
  by (auto simp: valid_store_def sessions_keyed_def keys_distinct_def comp_def)

lemma map_of_ids:
  "distinct (map s_id xs) \<Longrightarrow> map_of (map (\<lambda>x. (s_id x, x)) xs) i = Some x \<longleftrightarrow> x \<in> set xs \<and> s_id x = i"
  by (subst map_of_eq_Some_iff) (auto simp: comp_def)

lemma set_values_iff:
  assumes "sessions_keyed m"
  shows "x \<in> set (map_values m) \<longleftrightarrow> map_of m (s_id x) = Some x"
proof
  assume "x \<in> set (map_values m)"
  then show "map_of m (s_id x) = Some x"
    using assms by (auto simp: sessions_keyed_def keys_distinct_def)
next
  assume "map_of m (s_id x) = Some x"
  from map_of_SomeD [OF this] show "x \<in> set (map_values m)"
    by (force simp: image_iff)
qed

lemma mem_newSession_fields [simp]:
  "s_id (mem_newSession now new u usr md) = new"
  "s_userId (mem_newSession now new u usr md) = u"
  "s_createdAt (mem_newSession now new u usr md) = Iso now"
  "s_expires (mem_newSession now new u usr md) = Iso (now + week_ms)"
  "s_expiresAt (mem_newSession now new u usr md) = Iso (now + week_ms)"
  by (simp_all add: mem_newSession_def)

lemma mem_newSession_valid:
  "key_text new \<Longrightarrow> key_text u \<Longrightarrow> valid_session (mem_newSession now new u usr md)"
  by (simp add: valid_session_def key_text_def)

section \<open>The adapter provides the session contract\<close>

definition mem_view :: "memory \<Rightarrow> string \<Rightarrow> session option" where
  "mem_view m = map_of (m_sessions m)"

definition mem_sessions_ok :: "memory \<Rightarrow> bool" where
  "mem_sessions_ok m \<longleftrightarrow> sessions_keyed (m_sessions m)"

lemmas mem_session_defs =
  mem_view_def mem_sessions_ok_def memory_sessions_def mem_getSession_def mem_getSessionsByUser_def
  mem_createSession_def mem_updateSession_def mem_deleteSession_def mem_deleteUserSessions_def
  mem_cleanupExpiredSessions_def

lemma mem_sessions_ok_keys: "mem_sessions_ok m \<Longrightarrow> keys_distinct (m_sessions m)"
  by (simp add: mem_sessions_ok_def sessions_keyed_def)

lemma delete_sessions_where:
  assumes "mem_sessions_ok m"
  shows "delete_where p (m_sessions m)
    = (int (card {i. \<exists>x. mem_view m i = Some x \<and> p x}), filter (Not \<circ> p \<circ> snd) (m_sessions m))"
proof -
  have keyed: "sessions_keyed (m_sessions m)" using assms by (simp add: mem_sessions_ok_def)
  have "card {i. \<exists>x. mem_view m i = Some x \<and> p x} = length (filter p (map_values (m_sessions m)))"
    using keyed set_values_iff [OF keyed] sessions_keyed_map_of [OF keyed]
    by (intro ids_of_user_card sessions_keyed_store) (auto simp: mem_view_def)
  then show ?thesis
    using delete_where_filter [OF mem_sessions_ok_keys [OF assms], of p]
    by (simp add: filter_map)
qed

lemma view_of_filter:
  assumes "mem_sessions_ok m"
  shows "map_of (filter (Not \<circ> p \<circ> snd) (m_sessions m)) i
    = (case mem_view m i of None \<Rightarrow> None | Some x \<Rightarrow> if p x then None else Some x)"
  using map_of_filter_distinct [OF mem_sessions_ok_keys [OF assms], of "Not \<circ> p \<circ> snd" i]
  by (auto simp: mem_view_def split: option.splits)

lemma mem_policy_result:
  assumes ok: "mem_sessions_ok m" and fresh: "mem_view m new = None"
    and keys: "key_text new" "key_text u" and policy: "assertBoundedSessionPolicy pol = Inr ()"
  shows "\<exists>x m'. mem_createSessionWithPolicy now now' new u usr md pol m = (Inr x, m')
     \<and> mem_sessions_ok m' \<and> s_id x = new \<and> s_userId x = u \<and> mem_view m' new = Some x
     \<and> card {i. \<exists>y. mem_view m' i = Some y \<and> s_userId y = u} \<le> nat (maxConcurrentSessions pol)
     \<and> (\<forall>i y. i \<noteq> new \<and> mem_view m' i = Some y \<longrightarrow> mem_view m i = Some y)
     \<and> (\<forall>i y. s_userId y \<noteq> u \<and> mem_view m i = Some y \<longrightarrow> mem_view m' i = Some y)"
proof -
  let ?x = "mem_newSession now new u usr md"
  let ?old = "map_values (m_sessions m)"
  have keyed: "sessions_keyed (m_sessions m)" using ok by (simp add: mem_sessions_ok_def)
  have in_old: "y \<in> set ?old \<longleftrightarrow> mem_view m (s_id y) = Some y" for y
    using set_values_iff [OF keyed] by (simp add: mem_view_def)
  have "s_id ?x \<notin> s_id ` set ?old"
    using fresh in_old by (metis imageE mem_newSession_fields(1) option.distinct(1))
  then obtain xs where xs: "boundedSessions ?old ?x pol now' = Inr xs"
    using boundedSessions_succeeds [OF policy sessions_keyed_store [OF keyed]
        mem_newSession_valid [OF keys]] by blast
  note facts = boundedSessions_facts [OF xs, simplified]
  have dist: "distinct (map s_id xs)" using facts(6) by (simp add: valid_store_def)
  let ?m = "m\<lparr>m_sessions := session_map xs\<rparr>"
  have run: "mem_createSessionWithPolicy now now' new u usr md pol m = (Inr ?x, ?m)"
    by (simp add: mem_createSessionWithPolicy_def policy xs)
  have view: "mem_view ?m i = Some y \<longleftrightarrow> y \<in> set xs \<and> s_id y = i" for i y
    using map_of_ids [OF dist] by (simp add: mem_view_def session_map_eq [OF dist])
  have last: "?x \<in> set xs"
  proof -
    have "xs \<noteq> []" by (rule boundedSessions_Inr [OF xs]) simp
    then show ?thesis using facts(1) last_in_set by metis
  qed
  have sub: "set xs \<subseteq> insert ?x (set ?old)"
    using boundedSessions_set [OF xs] .
  have others: "y \<in> set xs" if "y \<in> set ?old" "s_userId y \<noteq> u" for y
  proof -
    have "y \<in> set (filter (\<lambda>s. s_userId s \<noteq> u) ?old)" using that by simp
    then show ?thesis unfolding facts(3) [symmetric] by simp
  qed
  have "card {i. \<exists>y. mem_view ?m i = Some y \<and> s_userId y = u}
      = length (filter (\<lambda>s. s_userId s = u) xs)"
    using ids_of_user_card [OF facts(6) view] .
  moreover have "mem_sessions_ok ?m"
    using sessions_keyed_of_store [OF facts(6)]
    by (simp add: mem_sessions_ok_def session_map_eq [OF dist])
  moreover have "mem_view m i = Some y" if "i \<noteq> new" "mem_view ?m i = Some y" for i y
  proof -
    have "y \<in> set xs" "s_id y = i" using view that(2) by auto
    then have "y \<in> set ?old" using sub that(1) by auto
    then show ?thesis using in_old \<open>s_id y = i\<close> by simp
  qed
  moreover have "mem_view ?m i = Some y" if "s_userId y \<noteq> u" "mem_view m i = Some y" for i y
  proof -
    have "s_id y = i"
      using sessions_keyed_map_of [OF keyed, of i y] that(2) by (simp add: mem_view_def)
    then show ?thesis using view others in_old that by blast
  qed
  ultimately show ?thesis
    using run facts(2) view last by auto
qed

interpretation mem: session_storage memory_sessions mem_view mem_sessions_ok
proof
  fix s :: memory and i x
  assume "mem_sessions_ok s" "mem_view s i = Some x"
  then show "s_id x = i"
    using sessions_keyed_map_of by (auto simp: mem_view_def mem_sessions_ok_def)
next
  fix s :: memory
  show "finite (dom (mem_view s))"
    by (simp add: mem_view_def finite_dom_map_of)
next
  fix s :: memory and now i
  assume "mem_sessions_ok s"
  then show "\<exists>r s'. st_getSession memory_sessions now i s = (Inr r, s') \<and> mem_sessions_ok s'
         \<and> (case r of Some x \<Rightarrow> s' = s \<and> mem_view s i = Some x
            | None \<Rightarrow> (mem_view s i = None \<and> mem_view s' = mem_view s)
                \<or> (\<exists>x. mem_view s i = Some x \<and> before (s_expires x) now
                      \<and> mem_view s' = (mem_view s)(i := None)))"
    by (auto simp: mem_session_defs fun_eq_iff split: option.splits)
next
  fix s :: memory and now u
  assume "mem_sessions_ok s"
  then have keyed: "sessions_keyed (m_sessions s)" by (simp add: mem_sessions_ok_def)
  show "\<exists>xs. st_getSessionsByUser memory_sessions now u s = (Inr xs, s)
         \<and> (\<forall>x \<in> set xs. mem_view s (s_id x) = Some x \<and> s_userId x = u)
         \<and> (\<forall>i x. mem_view s i = Some x \<and> s_userId x = u \<and> after (s_expires x) now \<longrightarrow> x \<in> set xs)"
    using set_values_iff [OF keyed] sessions_keyed_map_of [OF keyed]
    by (simp add: mem_session_defs del: set_map) metis
next
  fix s :: memory and new u now usr md
  assume "mem_sessions_ok s" "mem_view s new = None" "key_text new" "key_text u"
  then show "\<exists>x s'. st_createSession memory_sessions now new u usr md s = (Inr x, s') \<and> mem_sessions_ok s'
           \<and> s_id x = new \<and> s_userId x = u \<and> s_createdAt x = Iso now
           \<and> s_expires x = s_expiresAt x \<and> mem_view s' = (mem_view s)(new \<mapsto> x)"
    by (auto simp: mem_session_defs fun_eq_iff Let_def mem_newSession_valid)
next
  fix s :: memory and new u f pol now usr md
  assume asm: "mem_sessions_ok s" "mem_view s new = None" "key_text new" "key_text u"
    "st_createSessionWithPolicy memory_sessions = Some f" "assertBoundedSessionPolicy pol = Inr ()"
  have "f = (\<lambda>now. mem_createSessionWithPolicy now now)"
    using asm(5) by (simp add: memory_sessions_def)
  then show "\<exists>x s'. f now new u usr md pol s = (Inr x, s') \<and> mem_sessions_ok s'
           \<and> s_id x = new \<and> s_userId x = u \<and> mem_view s' new = Some x
           \<and> card {i. \<exists>y. mem_view s' i = Some y \<and> s_userId y = u} \<le> nat (maxConcurrentSessions pol)
           \<and> (\<forall>i y. i \<noteq> new \<and> mem_view s' i = Some y \<longrightarrow> mem_view s i = Some y)
           \<and> (\<forall>i y. s_userId y \<noteq> u \<and> mem_view s i = Some y \<longrightarrow> mem_view s' i = Some y)"
    using mem_policy_result [OF asm(1-4,6), of now now usr md] by simp
next
  fix s :: memory and i x p
  assume asm: "mem_sessions_ok s" "mem_view s i = Some x" "plain_patch p"
  then have x: "s_id x = i" "valid_session x"
    using sessions_keyed_map_of by (auto simp: mem_view_def mem_sessions_ok_def)
  have same: "(apply_session_patch p x)\<lparr>s_id := i\<rparr> = apply_session_patch p x"
    using asm(3) x(1) by (intro session.equality) (simp_all add: plain_patch_def)
  show "\<exists>s'. st_updateSession memory_sessions i p s = (Inr (apply_session_patch p x), s')
           \<and> mem_sessions_ok s' \<and> mem_view s' = (mem_view s)(i \<mapsto> apply_session_patch p x)"
  proof -
    have "sessions_keyed (map_set i (apply_session_patch p x) (m_sessions s))"
      using asm(1,3) x plain_patch_valid [OF asm(3) x(2)]
      by (intro sessions_keyed_set) (simp_all add: mem_sessions_ok_def plain_patch_def)
    then show ?thesis
      using asm(2) same by (auto simp: mem_session_defs fun_eq_iff Let_def)
  qed
next
  fix s :: memory and i p
  assume "mem_sessions_ok s" "mem_view s i = None"
  then show "\<exists>e. st_updateSession memory_sessions i p s = (Inl e, s)"
    by (simp add: mem_session_defs)
next
  fix s :: memory and i
  assume "mem_sessions_ok s"
  then show "\<exists>s'. st_deleteSession memory_sessions i s = (Inr (mem_view s i \<noteq> None), s')
      \<and> mem_sessions_ok s' \<and> mem_view s' = (mem_view s)(i := None)"
    by (auto simp: mem_session_defs map_has_def fun_eq_iff)
next
  fix s :: memory and u
  assume ok: "mem_sessions_ok s"
  let ?rest = "filter (Not \<circ> (\<lambda>x. s_userId x = u) \<circ> snd) (m_sessions s)"
  have "st_deleteUserSessions memory_sessions u s
      = (Inr (int (card {i. \<exists>x. mem_view s i = Some x \<and> s_userId x = u})), s\<lparr>m_sessions := ?rest\<rparr>)"
    using delete_sessions_where [OF ok, of "\<lambda>x. s_userId x = u"]
    by (simp add: memory_sessions_def mem_deleteUserSessions_def)
  moreover have "mem_sessions_ok (s\<lparr>m_sessions := ?rest\<rparr>)"
    using ok by (simp add: mem_sessions_ok_def)
  moreover have "mem_view (s\<lparr>m_sessions := ?rest\<rparr>) = (\<lambda>i. case mem_view s i of None \<Rightarrow> None
                          | Some x \<Rightarrow> if s_userId x = u then None else Some x)"
    using view_of_filter [OF ok, of "\<lambda>x. s_userId x = u"]
    by (intro ext) (simp add: mem_view_def)
  ultimately show "\<exists>n s'. st_deleteUserSessions memory_sessions u s = (Inr n, s') \<and> mem_sessions_ok s'
         \<and> n = int (card {i. \<exists>x. mem_view s i = Some x \<and> s_userId x = u})
         \<and> mem_view s' = (\<lambda>i. case mem_view s i of None \<Rightarrow> None
                          | Some x \<Rightarrow> if s_userId x = u then None else Some x)"
    by blast
next
  fix s :: memory and now
  assume ok: "mem_sessions_ok s"
  let ?rest = "filter (Not \<circ> (\<lambda>x. before (s_expires x) now) \<circ> snd) (m_sessions s)"
  have "mem_view (s\<lparr>m_sessions := ?rest\<rparr>) i = (case mem_view s i of None \<Rightarrow> None
                          | Some x \<Rightarrow> if before (s_expires x) now then None else Some x)" for i
    using view_of_filter [OF ok, of "\<lambda>x. before (s_expires x) now" i] by (simp add: mem_view_def)
  then show "\<exists>n s'. st_cleanupExpiredSessions memory_sessions now s = (Inr n, s') \<and> mem_sessions_ok s'
         \<and> (\<forall>i x. mem_view s' i = Some x \<longrightarrow> mem_view s i = Some x \<and> \<not> before (s_expires x) now)
         \<and> (\<forall>i x. mem_view s i = Some x \<and> after (s_expires x) now \<longrightarrow> mem_view s' i = Some x)"
    using delete_sessions_where [OF ok, of "\<lambda>x. before (s_expires x) now"] ok
    by (simp add: memory_sessions_def mem_cleanupExpiredSessions_def mem_sessions_ok_def
        after_not_before split: option.splits)
qed

end
