(* ===== verification/File_Storage.thy ===== *)
theory File_Storage
  imports Memory_Storage
begin

text \<open>
  The file adapter, \<open>src/storage/file.ts\<close>: each JSON file as the value it holds (a missing file
  is the default its reader gives, the empty list), the credential files of \<open>totpDir\<close> by handle
  and by account, one operation per method, and the adapter as a provider of the session
  contract.

  A method is one step here: how the mutations of sessions queue up is the subject of
  \<open>Session_Queue\<close>, the locked updates of accounts are that of \<open>File_Lock\<close>. The mutations of
  sessions take how their file calls end (\<open>store_io\<close>). For the other files the calls succeed here;
  \<open>Atomic_Files\<close> models the single calls and their failures, and \<open>Credential_Files\<close> a credential
  file that is missing, unreadable, not JSON or ill-shaped. A handle or an account id is the
  name of one file (no path separators).
\<close>

record files =
  f_users :: "admin_user list"
  f_sessions :: "session list"
  f_invites :: "admin_invitation list"
  f_audit :: "audit_event list"
  f_totp :: "encrypted_totp_secret jsmap"
  f_codes :: "backup_code_set jsmap"

definition empty_files :: files where
  "empty_files =
     \<lparr>f_users = [], f_sessions = [], f_invites = [], f_audit = [], f_totp = [], f_codes = []\<rparr>"

section \<open>Checks of stored credentials\<close>

definition isText :: "string \<Rightarrow> bool" where
  "isText s \<longleftrightarrow> s \<noteq> [] \<and> \<not> has_nul s"

fun isTimestamp :: "stamp \<Rightarrow> bool" where
  "isTimestamp (Iso t) = True"
| "isTimestamp (OtherText s t) = (isText s \<and> t \<noteq> None)"

definition optional :: "('a \<Rightarrow> bool) \<Rightarrow> 'a option \<Rightarrow> bool" where
  "optional p v = (case v of None \<Rightarrow> True | Some a \<Rightarrow> p a)"

definition isStoredFactor :: "encrypted_totp_secret \<Rightarrow> string \<Rightarrow> bool" where
  "isStoredFactor v handle \<longleftrightarrow>
     ts_handle v = handle \<and> isText (ts_userId v)
     \<and> (\<forall>t \<in> set [ts_encryptedSecret v, ts_iv v, ts_authTag v, ts_salt v]. isText t)
     \<and> isTimestamp (ts_createdAt v)
     \<and> optional isTimestamp (ts_lastUsedAt v)
     \<and> optional (\<lambda>n. isSafeInteger n \<and> n \<ge> 0) (ts_lastUsedTotpStep v)
     \<and> isSafeInteger (ts_version v) \<and> ts_version v \<ge> 1"

text \<open>The pattern \<open>^[a-f0-9]{64}$\<close>.\<close>

fun stored_codes_loop :: "string set \<Rightarrow> string set \<Rightarrow> encrypted_backup_code list \<Rightarrow> bool" where
  "stored_codes_loop ids hashes [] = True"
| "stored_codes_loop ids hashes (c # cs) =
     (if \<not> isText (bc_id c) \<or> \<not> is_sha256_hex (bc_hash c) \<or> \<not> optional isTimestamp (bc_usedAt c)
         \<or> bc_id c \<in> ids \<or> bc_hash c \<in> hashes
      then False
      else stored_codes_loop (insert (bc_id c) ids) (insert (bc_hash c) hashes) cs)"

definition isStoredBackupCodes :: "backup_code_set \<Rightarrow> string \<Rightarrow> bool" where
  "isStoredBackupCodes v userId \<longleftrightarrow>
     bs_userId v = userId \<and> isTimestamp (bs_generatedAt v) \<and> optional isTimestamp (bs_lastUsedAt v)
     \<and> stored_codes_loop {} {} (bs_codes v)"

section \<open>Accounts\<close>

definition file_hasUsers :: "(files, bool) op" where
  "file_hasUsers = (\<lambda>f. (Inr (0 < length (f_users f)), f))"

definition file_getUser :: "string \<Rightarrow> (files, admin_user option) op" where
  "file_getUser uid = (\<lambda>f. (Inr (List.find (\<lambda>u. u_id u = uid) (f_users f)), f))"

definition file_getUserByHandle :: "string \<Rightarrow> (files, admin_user option) op" where
  "file_getUserByHandle handle = (\<lambda>f. (Inr (List.find (\<lambda>u. u_handle u = handle) (f_users f)), f))"

definition file_getUserByEmail :: "string \<Rightarrow> (files, admin_user option) op" where
  "file_getUserByEmail email = (\<lambda>f. (Inr (List.find (\<lambda>u. u_email u = Some email) (f_users f)), f))"

definition file_getAllUsers :: "(files, admin_user list) op" where
  "file_getAllUsers = (\<lambda>f. (Inr (f_users f), f))"

text \<open>\<open>createUser\<close> on data without an id of its own, as its type demands.\<close>

definition file_createUser :: "int \<Rightarrow> int \<Rightarrow> string \<Rightarrow> admin_user \<Rightarrow> (files, admin_user) op" where
  "file_createUser now now' uid userData = (\<lambda>f.
     let user = userData\<lparr>u_id := uid, u_createdAt := Iso now, u_updatedAt := Iso now'\<rparr>
     in (Inr user, f\<lparr>f_users := f_users f @ [user]\<rparr>))"

definition file_updateUser :: "int \<Rightarrow> string \<Rightarrow> user_patch \<Rightarrow> (files, admin_user) op" where
  "file_updateUser now uid updates = (\<lambda>f.
     case findIndex (\<lambda>u. u_id u = uid) (f_users f) of
       None \<Rightarrow> (Inl (Error (''User not found: '' @ uid)), f)
     | Some i \<Rightarrow>
         let user = (apply_user_patch updates (f_users f ! i))\<lparr>u_updatedAt := Iso now\<rparr>
         in (Inr user, f\<lparr>f_users := (f_users f)[i := user]\<rparr>))"

definition file_deleteUser :: "string \<Rightarrow> (files, bool) op" where
  "file_deleteUser uid = (\<lambda>f.
     case findIndex (\<lambda>u. u_id u = uid) (f_users f) of
       None \<Rightarrow> (Inr False, f)
     | Some i \<Rightarrow> (Inr True, f\<lparr>f_users := remove_at i (f_users f)\<rparr>))"

section \<open>Sessions\<close>

definition file_readSessions :: "(files, session list) op" where
  "file_readSessions = (\<lambda>f.
     case assertStoredSessions (f_sessions f) of
       Inl e \<Rightarrow> (Inl e, f)
     | Inr _ \<Rightarrow> (Inr (f_sessions f), f))"

definition file_getAllSessions :: "(files, session list) op" where
  "file_getAllSessions = file_readSessions"

text \<open>
  How the file calls of one mutation end: all succeed; the read fails; the write fails with the
  old file in place; or the write fails after the rename, when syncing the directory, with the
  new file in place (\<open>Atomic_Files\<close> derives these ends from the single calls).
\<close>

datatype store_io = Io_done | Read_failed error | Write_failed error | Sync_failed error

definition file_mutateSessions ::
  "store_io \<Rightarrow> (session list \<Rightarrow> (session list \<times> 'a) result) \<Rightarrow> (files, 'a) op" where
  "file_mutateSessions io operation =
     bind_op (case io of Read_failed e \<Rightarrow> throw_op e | _ \<Rightarrow> file_readSessions) (\<lambda>sessions f.
       case operation sessions of
         Inl e \<Rightarrow> (Inl e, f)
       | Inr (next, r) \<Rightarrow>
           (case assertStoredSessions next of
              Inl e \<Rightarrow> (Inl e, f)
            | Inr _ \<Rightarrow>
                (case io of
                   Write_failed e \<Rightarrow> (Inl e, f)
                 | Sync_failed e \<Rightarrow> (Inl e, f\<lparr>f_sessions := next\<rparr>)
                 | _ \<Rightarrow> (Inr r, f\<lparr>f_sessions := next\<rparr>))))"

definition file_getSession :: "string \<Rightarrow> (files, session option) op" where
  "file_getSession i =
     bind_op file_getAllSessions (\<lambda>sessions. return_op (List.find (\<lambda>s. s_id s = i) sessions))"

definition file_newSession ::
  "int \<Rightarrow> int \<Rightarrow> string \<Rightarrow> string \<Rightarrow> user_patch \<Rightarrow> session_metadata option \<Rightarrow> session" where
  "file_newSession maxAge now new userId userData md =
     \<lparr>s_id = new, s_userId = userId,
      s_expires = Iso (now + maxAge), s_expiresAt = Iso (now + maxAge), s_createdAt = Iso now,
      s_user =
        (if truthy (p_id userData)
         then Some
           \<lparr>su_id = the (p_id userData),
            su_username = Some (str_or (p_handle userData) []),
            su_name = Some (str_or (flat (p_displayName userData)) (str_or (p_handle userData) [])),
            su_role = Some (str_or (p_role userData) ''viewer''),
            su_needsOnboarding = p_needsOnboarding userData,
            su_onboardingStep = p_onboardingStep userData\<rparr>
         else None),
      s_clientIp = str_or (map_option md_clientIp md) [],
      s_clientIpMasked = Option.bind md md_clientIpMasked,
      s_userAgent = str_or (map_option md_userAgent md) [],
      s_deviceType = Option.bind md md_deviceType,
      s_browserFingerprint = Option.bind md md_browserFingerprint,
      s_geoLocation = Option.bind md md_geoLocation,
      s_tempTotpSecret = None, s_tempTotpExpiresAt = None\<rparr>"

definition file_insertSession ::
  "store_io \<Rightarrow> int \<Rightarrow> int \<Rightarrow> string \<Rightarrow> string \<Rightarrow> user_patch \<Rightarrow> session_metadata option
     \<Rightarrow> bounded_session_policy option \<Rightarrow> (files, session) op" where
  "file_insertSession io maxAge now new userId userData md policy =
     file_mutateSessions io (\<lambda>sessions.
       let session = file_newSession maxAge now new userId userData md
       in case policy of
            None \<Rightarrow> Inr (sessions @ [session], session)
          | Some pol \<Rightarrow>
              (case boundedSessions sessions session pol now of
                 Inl e \<Rightarrow> Inl e
               | Inr next \<Rightarrow> Inr (next, session)))"

definition file_createSession ::
  "store_io \<Rightarrow> int \<Rightarrow> int \<Rightarrow> string \<Rightarrow> string \<Rightarrow> user_patch \<Rightarrow> session_metadata option \<Rightarrow> (files, session) op" where
  "file_createSession io maxAge now new userId userData md =
     file_insertSession io maxAge now new userId userData md None"

definition file_createSessionWithPolicy ::
  "store_io \<Rightarrow> int \<Rightarrow> int \<Rightarrow> string \<Rightarrow> string \<Rightarrow> user_patch \<Rightarrow> session_metadata option \<Rightarrow> bounded_session_policy
     \<Rightarrow> (files, session) op" where
  "file_createSessionWithPolicy io maxAge now new userId userData md policy =
     (case assertBoundedSessionPolicy policy of
        Inl e \<Rightarrow> throw_op e
      | Inr _ \<Rightarrow> file_insertSession io maxAge now new userId userData md (Some policy))"

definition file_updateSession :: "store_io \<Rightarrow> string \<Rightarrow> session_patch \<Rightarrow> (files, session) op" where
  "file_updateSession io i updates =
     file_mutateSessions io (\<lambda>sessions.
       case findIndex (\<lambda>s. s_id s = i) sessions of
         None \<Rightarrow> Inl (Error (''Session not found: '' @ i))
       | Some n \<Rightarrow>
           let session = apply_session_patch updates (sessions ! n)
           in Inr (sessions[n := session], session))"

definition file_deleteSession :: "store_io \<Rightarrow> string \<Rightarrow> (files, bool) op" where
  "file_deleteSession io i =
     file_mutateSessions io (\<lambda>sessions.
       case findIndex (\<lambda>s. s_id s = i) sessions of
         None \<Rightarrow> Inr (sessions, False)
       | Some n \<Rightarrow> Inr (remove_at n sessions, True))"

definition file_deleteUserSessions :: "store_io \<Rightarrow> string \<Rightarrow> (files, int) op" where
  "file_deleteUserSessions io userId =
     file_mutateSessions io (\<lambda>sessions.
       let filtered = filter (\<lambda>s. s_userId s \<noteq> userId) sessions
       in Inr (filtered, int (length sessions) - int (length filtered)))"

definition file_getSessionsByUser :: "string \<Rightarrow> (files, session list) op" where
  "file_getSessionsByUser userId =
     bind_op file_getAllSessions (\<lambda>sessions. return_op (filter (\<lambda>s. s_userId s = userId) sessions))"

definition file_cleanupExpiredSessions :: "store_io \<Rightarrow> int \<Rightarrow> (files, int) op" where
  "file_cleanupExpiredSessions io now =
     file_mutateSessions io (\<lambda>sessions.
       let filtered = filter (\<lambda>s. after (s_expires s) now) sessions
       in Inr (filtered, int (length sessions) - int (length filtered)))"

section \<open>Second factors\<close>

definition file_getTOTPSecret :: "string \<Rightarrow> (files, encrypted_totp_secret option) op" where
  "file_getTOTPSecret handle = (\<lambda>f.
     case map_of (f_totp f) handle of
       None \<Rightarrow> (Inr None, f)
     | Some v \<Rightarrow> if \<not> isStoredFactor v handle then (Inl (Error ''Invalid stored TOTP credential''), f)
                 else (Inr (Some v), f))"

definition file_saveTOTPSecret :: "string \<Rightarrow> encrypted_totp_secret \<Rightarrow> (files, unit) op" where
  "file_saveTOTPSecret handle secret = (\<lambda>f. (Inr (), f\<lparr>f_totp := map_set handle secret (f_totp f)\<rparr>))"

definition file_deleteTOTPSecret :: "string \<Rightarrow> (files, bool) op" where
  "file_deleteTOTPSecret handle = (\<lambda>f.
     if map_has handle (f_totp f) then (Inr True, f\<lparr>f_totp := map_del handle (f_totp f)\<rparr>)
     else (Inr False, f))"

definition file_getBackupCodes :: "string \<Rightarrow> (files, backup_code_set option) op" where
  "file_getBackupCodes userId = (\<lambda>f.
     case map_of (f_codes f) userId of
       None \<Rightarrow> (Inr None, f)
     | Some v \<Rightarrow> if \<not> isStoredBackupCodes v userId
                 then (Inl (Error ''Invalid stored backup-code credential''), f)
                 else (Inr (Some v), f))"

definition file_saveBackupCodes :: "string \<Rightarrow> backup_code_set \<Rightarrow> (files, unit) op" where
  "file_saveBackupCodes userId codes = (\<lambda>f. (Inr (), f\<lparr>f_codes := map_set userId codes (f_codes f)\<rparr>))"

definition file_deleteBackupCodes :: "string \<Rightarrow> (files, bool) op" where
  "file_deleteBackupCodes userId = (\<lambda>f.
     if map_has userId (f_codes f) then (Inr True, f\<lparr>f_codes := map_del userId (f_codes f)\<rparr>)
     else (Inr False, f))"

section \<open>Expected deletion\<close>

text \<open>\<open>retirementComponent\<close>: at most 256 characters of \<open>[A-Za-z0-9_-]\<close>.\<close>

definition retirementComponent :: "string \<Rightarrow> unit result" where
  "retirementComponent v =
     (if length v > 256 \<or> v = [] \<or> \<not> list_all is_word_dash v
      then Inl (Error ''Invalid retirement identity'') else Inr ())"

text \<open>
  \<open>deleteCredentialExpected\<close> on the file content: a missing file is success; a present one is
  deleted only when an expected digest is given and is the content's. Every failure is the same
  error. \<open>digest\<close> is the digest of a checked content, which may itself fail.
\<close>

definition deleteCredentialExpected ::
  "string \<Rightarrow> 'v jsmap \<Rightarrow> string option \<Rightarrow> ('v \<Rightarrow> string result) \<Rightarrow> unit result \<times> 'v jsmap" where
  "deleteCredentialExpected name dir expected digest =
     (case map_of dir name of
        None \<Rightarrow> (Inr (), dir)
      | Some v \<Rightarrow>
          (case expected of
             None \<Rightarrow> (Inl (Error ''Durable credential retirement unavailable''), dir)
           | Some d \<Rightarrow>
               if digest v = Inr d then (Inr (), map_del name dir)
               else (Inl (Error ''Durable credential retirement unavailable''), dir)))"

definition file_deleteTOTPSecretExpected ::
  "(encrypted_totp_secret \<Rightarrow> string result) \<Rightarrow> string \<Rightarrow> string \<Rightarrow> (files, unit) op" where
  "file_deleteTOTPSecretExpected factorDigest handle expectedDigest = (\<lambda>f.
     case retirementComponent handle of
       Inl e \<Rightarrow> (Inl e, f)
     | Inr _ \<Rightarrow>
         if \<not> is_sha256_hex expectedDigest then (Inl (Error ''Invalid retirement material''), f)
         else let (r, dir) = deleteCredentialExpected handle (f_totp f) (Some expectedDigest)
                (\<lambda>v. if \<not> isStoredFactor v handle then Inl (Error ''Invalid retirement material'')
                     else factorDigest v)
              in (r, f\<lparr>f_totp := dir\<rparr>))"

definition file_deleteBackupCodesExpected ::
  "(backup_code_set \<Rightarrow> string result) \<Rightarrow> string \<Rightarrow> string option \<Rightarrow> (files, unit) op" where
  "file_deleteBackupCodesExpected setDigest userId expectedDigest = (\<lambda>f.
     case retirementComponent userId of
       Inl e \<Rightarrow> (Inl e, f)
     | Inr _ \<Rightarrow>
         if \<not> optional is_sha256_hex expectedDigest then (Inl (Error ''Invalid retirement material''), f)
         else let (r, dir) = deleteCredentialExpected userId (f_codes f) expectedDigest
                (\<lambda>v. if \<not> isStoredBackupCodes v userId then Inl (Error ''Invalid retirement material'')
                     else setDigest v)
              in (r, f\<lparr>f_codes := dir\<rparr>))"

definition totp_flags_clearable :: "admin_user \<Rightarrow> string \<Rightarrow> bool" where
  "totp_flags_clearable u handle \<longleftrightarrow>
     (u_totpEnabled u \<and> u_totpSecretId u = Some handle)
     \<or> (\<not> u_totpEnabled u \<and> \<not> truthy (u_totpSecretId u))"

definition file_clearTotpFlagsExpected :: "int \<Rightarrow> string \<Rightarrow> string \<Rightarrow> (files, unit) op" where
  "file_clearTotpFlagsExpected now userId handle = (\<lambda>f.
     case retirementComponent userId of Inl e \<Rightarrow> (Inl e, f) | Inr _ \<Rightarrow>
     case retirementComponent handle of Inl e \<Rightarrow> (Inl e, f) | Inr _ \<Rightarrow>
     bind_op file_getAllUsers (\<lambda>users.
       case filter (\<lambda>u. u_id u = userId \<or> u_handle u = handle) users of
         [u] \<Rightarrow>
           if u_id u \<noteq> userId \<or> u_handle u \<noteq> handle \<or> \<not> totp_flags_clearable u handle
           then throw_op (Error ''Retirement owner changed'')
           else
             bind_op (file_updateUser now userId
                        (no_user_patch\<lparr>p_totpEnabled := Some False, p_totpSecretId := Some None\<rparr>)) (\<lambda>_.
             bind_op (file_getUser userId) (\<lambda>current.
               case current of
                 None \<Rightarrow> throw_op (Error ''Retirement flags unavailable'')
               | Some c \<Rightarrow>
                   if u_handle c \<noteq> handle \<or> u_totpEnabled c \<or> truthy (u_totpSecretId c)
                   then throw_op (Error ''Retirement flags unavailable'') else return_op ()))
       | _ \<Rightarrow> throw_op (Error ''Retirement owner changed'')) f)"

section \<open>Invitations\<close>

definition file_getInvitation :: "string \<Rightarrow> (files, admin_invitation option) op" where
  "file_getInvitation token = (\<lambda>f. (Inr (List.find (\<lambda>i. i_token i = token) (f_invites f)), f))"

definition file_getInvitationById :: "string \<Rightarrow> (files, admin_invitation option) op" where
  "file_getInvitationById iid = (\<lambda>f. (Inr (List.find (\<lambda>i. i_id i = iid) (f_invites f)), f))"

definition file_createInvitation :: "string \<Rightarrow> admin_invitation \<Rightarrow> (files, admin_invitation) op" where
  "file_createInvitation iid data = (\<lambda>f.
     let invitation = data\<lparr>i_id := iid\<rparr>
     in (Inr invitation, f\<lparr>f_invites := f_invites f @ [invitation]\<rparr>))"

definition file_updateInvitation :: "string \<Rightarrow> invitation_patch \<Rightarrow> (files, admin_invitation) op" where
  "file_updateInvitation token updates = (\<lambda>f.
     case findIndex (\<lambda>i. i_token i = token) (f_invites f) of
       None \<Rightarrow> (Inl (Error (''Invitation not found: '' @ token)), f)
     | Some n \<Rightarrow>
         let invitation = apply_invitation_patch updates (f_invites f ! n)
         in (Inr invitation, f\<lparr>f_invites := (f_invites f)[n := invitation]\<rparr>))"

definition file_deleteInvitation :: "string \<Rightarrow> (files, bool) op" where
  "file_deleteInvitation token = (\<lambda>f.
     case findIndex (\<lambda>i. i_token i = token) (f_invites f) of
       None \<Rightarrow> (Inr False, f)
     | Some n \<Rightarrow> (Inr True, f\<lparr>f_invites := remove_at n (f_invites f)\<rparr>))"

definition file_getPendingInvitations :: "int \<Rightarrow> (files, admin_invitation list) op" where
  "file_getPendingInvitations now = (\<lambda>f.
     (Inr (filter (\<lambda>i. after (i_expiresAt i) now \<and> \<not> stamp_truthy (i_usedAt i) \<and> i_isActive i)
             (f_invites f)), f))"

definition file_getAllInvitations :: "(files, admin_invitation list) op" where
  "file_getAllInvitations = (\<lambda>f. (Inr (f_invites f), f))"

definition file_cleanupExpiredInvitations :: "int \<Rightarrow> (files, int) op" where
  "file_cleanupExpiredInvitations now = (\<lambda>f.
     let filtered = filter (\<lambda>i. after (i_expiresAt i) now \<or> stamp_truthy (i_usedAt i)) (f_invites f)
     in (Inr (int (length (f_invites f)) - int (length filtered)), f\<lparr>f_invites := filtered\<rparr>))"

section \<open>Audit events\<close>

definition file_logAuditEvent :: "string \<Rightarrow> audit_event \<Rightarrow> (files, audit_event) op" where
  "file_logAuditEvent eid event = (\<lambda>f.
     let auditEvent = event\<lparr>ae_id := eid\<rparr>;
         events = f_audit f @ [auditEvent]
     in (Inr auditEvent,
         f\<lparr>f_audit := (if length events > 10000 then drop (length events - 10000) events else events)\<rparr>))"

definition num_or :: "int option \<Rightarrow> int \<Rightarrow> int" where
  "num_or v d = (case v of None \<Rightarrow> d | Some n \<Rightarrow> if n = 0 then d else n)"

definition file_getAuditEvents :: "audit_event_filters \<Rightarrow> (files, audit_event list) op" where
  "file_getAuditEvents filters = (\<lambda>f.
     let events = f_audit f;
         events = when_given (af_type filters) (\<lambda>t. filter (\<lambda>e. ae_type e = t)) events;
         events = (if truthy (af_userId filters)
                   then filter (\<lambda>e. ae_userId e = af_userId filters
                                  \<or> ae_targetUserId e = af_userId filters) events
                   else events);
         events = when_given (af_severity filters) (\<lambda>v. filter (\<lambda>e. ae_severity e = v)) events;
         events = when_given (af_startDate filters) (\<lambda>d. filter (\<lambda>e. at_or_after (ae_timestamp e) d)) events;
         events = when_given (af_endDate filters) (\<lambda>d. filter (\<lambda>e. at_or_before (ae_timestamp e) d)) events;
         limit = num_or (af_limit filters) 100;
         offset = num_or (af_offset filters) 0
     in (Inr (js_slice offset (Some (offset + limit)) events), f))"

definition file_getRecentAuditEvents :: "int option \<Rightarrow> (files, audit_event list) op" where
  "file_getRecentAuditEvents limit = (\<lambda>f.
     (Inr (rev (js_slice (- nullish limit 100) None (f_audit f))), f))"

definition file_sessions :: "int \<Rightarrow> files session_ops" where
  "file_sessions maxAge =
     \<lparr>st_getSession = (\<lambda>now. file_getSession), st_getSessionsByUser = (\<lambda>now. file_getSessionsByUser),
      st_createSession = file_createSession Io_done maxAge,
      st_createSessionWithPolicy = Some (file_createSessionWithPolicy Io_done maxAge),
      st_updateSession = file_updateSession Io_done, st_deleteSession = file_deleteSession Io_done,
      st_deleteUserSessions = file_deleteUserSessions Io_done,
      st_cleanupExpiredSessions = file_cleanupExpiredSessions Io_done\<rparr>"

section \<open>The session list\<close>

lemma findIndex_distinct:
  assumes "distinct (map f xs)" "findIndex (\<lambda>s. f s = i) xs = Some n"
  shows "remove_at n xs = filter (\<lambda>s. f s \<noteq> i) xs"
    and "xs[n := y] = map (\<lambda>s. if f s = i then y else s) xs"
    and "xs ! n \<in> set xs" and "f (xs ! n) = i"
proof -
  have "remove_at n xs = filter (\<lambda>s. f s \<noteq> i) xs \<and> xs[n := y] = map (\<lambda>s. if f s = i then y else s) xs"
    using assms
  proof (induction xs arbitrary: n)
    case Nil
    then show ?case by simp
  next
    case (Cons x xs)
    show ?case
    proof (cases "f x = i")
      case True
      have other: "f s \<noteq> i" if "s \<in> set xs" for s
      proof -
        have "f s \<in> f ` set xs" using that by simp
        then show ?thesis using True Cons.prems(1) by auto
      qed
      then have "filter (\<lambda>s. f s \<noteq> i) xs = xs" "map (\<lambda>s. if f s = i then y else s) xs = xs"
        by (auto simp: filter_id_conv map_idI)
      then show ?thesis using True Cons.prems(2) by (simp add: remove_at_def)
    next
      case False
      then obtain m where "n = Suc m" "findIndex (\<lambda>s. f s = i) xs = Some m"
        using Cons.prems(2) by (auto split: option.splits)
      then show ?thesis
        using False Cons.IH [of m] Cons.prems(1) by (simp add: remove_at_def)
    qed
  qed
  then show "remove_at n xs = filter (\<lambda>s. f s \<noteq> i) xs"
    and "xs[n := y] = map (\<lambda>s. if f s = i then y else s) xs" by simp_all
  show "xs ! n \<in> set xs" "f (xs ! n) = i"
    using findIndex_SomeD [OF assms(2)] by simp_all
qed

lemma option_eqI: "(\<And>x. a = Some x \<longleftrightarrow> b = Some x) \<Longrightarrow> a = b"
  by (cases a; cases b) auto

lemma find_id_iff:
  assumes "valid_store xs"
  shows "List.find (\<lambda>s. s_id s = i) xs = Some x \<longleftrightarrow> x \<in> set xs \<and> s_id x = i"
proof
  assume "List.find (\<lambda>s. s_id s = i) xs = Some x"
  then show "x \<in> set xs \<and> s_id x = i" by (auto simp: find_Some_iff)
next
  assume x: "x \<in> set xs \<and> s_id x = i"
  then obtain y where y: "List.find (\<lambda>s. s_id s = i) xs = Some y"
    using find_None_iff [of "\<lambda>s. s_id s = i" xs] by (cases "List.find (\<lambda>s. s_id s = i) xs") auto
  then have "y \<in> set xs" "s_id y = i" by (auto simp: find_Some_iff)
  then have "y = x" using valid_store_inj [OF assms] x by blast
  with y show "List.find (\<lambda>s. s_id s = i) xs = Some x" by simp
qed

definition file_view :: "files \<Rightarrow> string \<Rightarrow> session option" where
  "file_view f i = List.find (\<lambda>s. s_id s = i) (f_sessions f)"

definition file_sessions_ok :: "files \<Rightarrow> bool" where
  "file_sessions_ok f \<longleftrightarrow> valid_store (f_sessions f)"

lemma file_view_iff:
  "file_sessions_ok f \<Longrightarrow> file_view f i = Some x \<longleftrightarrow> x \<in> set (f_sessions f) \<and> s_id x = i"
  by (simp add: file_view_def file_sessions_ok_def find_id_iff)

lemma file_readSessions_ok: "file_sessions_ok f \<Longrightarrow> file_readSessions f = (Inr (f_sessions f), f)"
  by (simp add: file_readSessions_def file_sessions_ok_def assertStoredSessions_cases)

lemma file_mutateSessions_eq:
  assumes "file_sessions_ok f"
  shows "file_mutateSessions io operation f =
    (case io of Read_failed e \<Rightarrow> (Inl e, f) | _ \<Rightarrow>
     case operation (f_sessions f) of
       Inl e \<Rightarrow> (Inl e, f)
     | Inr (next, r) \<Rightarrow>
         if valid_store next
         then (case io of Write_failed e \<Rightarrow> Inl e | Sync_failed e \<Rightarrow> Inl e | _ \<Rightarrow> Inr r,
               case io of Write_failed e \<Rightarrow> f | _ \<Rightarrow> f\<lparr>f_sessions := next\<rparr>)
         else (Inl (Error ''Invalid session store''), f))"
  by (cases io) (simp_all add: file_mutateSessions_def throw_op_def bind_op_def
      file_readSessions_ok [OF assms] assertStoredSessions_cases split: sum.splits)

lemma valid_store_replace:
  assumes "valid_store xs" "x \<in> set xs" "valid_session y" "s_id y = s_id x"
  shows "valid_store (map (\<lambda>s. if s_id s = s_id x then y else s) xs)"
proof -
  have "map s_id (map (\<lambda>s. if s_id s = s_id x then y else s) xs) = map s_id xs"
    using assms(4) by simp
  then show ?thesis
    using assms(1,3) unfolding valid_store_def by (auto simp del: map_map)
qed

lemma file_newSession_fields [simp]:
  "s_id (file_newSession maxAge now new u usr md) = new"
  "s_userId (file_newSession maxAge now new u usr md) = u"
  "s_createdAt (file_newSession maxAge now new u usr md) = Iso now"
  "s_expires (file_newSession maxAge now new u usr md) = Iso (now + maxAge)"
  "s_expiresAt (file_newSession maxAge now new u usr md) = Iso (now + maxAge)"
  by (simp_all add: file_newSession_def)

lemma file_newSession_valid:
  "key_text new \<Longrightarrow> key_text u \<Longrightarrow> valid_session (file_newSession maxAge now new u usr md)"
  by (simp add: valid_session_def key_text_def)

lemma file_create_result:
  fixes maxAge now :: int and usr :: user_patch and md :: "session_metadata option"
  assumes ok: "file_sessions_ok f" and fresh: "file_view f new = None" and keys: "key_text new" "key_text u"
  defines "x \<equiv> file_newSession maxAge now new u usr md"
  shows "file_createSession Io_done maxAge now new u usr md f = (Inr x, f\<lparr>f_sessions := f_sessions f @ [x]\<rparr>)
    \<and> file_sessions_ok (f\<lparr>f_sessions := f_sessions f @ [x]\<rparr>)
    \<and> file_view (f\<lparr>f_sessions := f_sessions f @ [x]\<rparr>) = (file_view f)(new \<mapsto> x)"
proof -
  have new: "new \<notin> s_id ` set (f_sessions f)"
    using fresh file_view_iff [OF ok, of new] by auto
  have valid: "valid_store (f_sessions f @ [x])"
    using ok new file_newSession_valid [OF keys]
    by (simp add: valid_store_append file_sessions_ok_def x_def)
  have "file_view (f\<lparr>f_sessions := f_sessions f @ [x]\<rparr>) = (file_view f)(new \<mapsto> x)"
  proof (rule ext, rule option_eqI)
    fix i y
    have "file_sessions_ok (f\<lparr>f_sessions := f_sessions f @ [x]\<rparr>)"
      using valid by (simp add: file_sessions_ok_def)
    then show "file_view (f\<lparr>f_sessions := f_sessions f @ [x]\<rparr>) i = Some y
        \<longleftrightarrow> ((file_view f)(new \<mapsto> x)) i = Some y"
      using file_view_iff [OF ok, of i y] new by (auto simp: file_view_iff x_def)
  qed
  then show ?thesis
    using valid
    by (simp add: file_mutateSessions_eq [OF ok] file_createSession_def file_insertSession_def Let_def x_def file_sessions_ok_def)
qed

lemma file_policy_result:
  assumes ok: "file_sessions_ok f" and fresh: "file_view f new = None"
    and keys: "key_text new" "key_text u" and policy: "assertBoundedSessionPolicy pol = Inr ()"
  shows "\<exists>x f'. file_createSessionWithPolicy Io_done maxAge now new u usr md pol f = (Inr x, f')
     \<and> file_sessions_ok f' \<and> s_id x = new \<and> s_userId x = u \<and> file_view f' new = Some x
     \<and> card {i. \<exists>y. file_view f' i = Some y \<and> s_userId y = u} \<le> nat (maxConcurrentSessions pol)
     \<and> (\<forall>i y. i \<noteq> new \<and> file_view f' i = Some y \<longrightarrow> file_view f i = Some y)
     \<and> (\<forall>i y. s_userId y \<noteq> u \<and> file_view f i = Some y \<longrightarrow> file_view f' i = Some y)"
proof -
  let ?x = "file_newSession maxAge now new u usr md"
  have new: "s_id ?x \<notin> s_id ` set (f_sessions f)"
    using fresh file_view_iff [OF ok, of new] by auto
  obtain xs where xs: "boundedSessions (f_sessions f) ?x pol now = Inr xs"
    using boundedSessions_succeeds [OF policy ok [unfolded file_sessions_ok_def]
        file_newSession_valid [OF keys] new] by blast
  note facts = boundedSessions_facts [OF xs, simplified]
  let ?f = "f\<lparr>f_sessions := xs\<rparr>"
  have ok': "file_sessions_ok ?f" using facts(6) by (simp add: file_sessions_ok_def)
  have run: "file_createSessionWithPolicy Io_done maxAge now new u usr md pol f = (Inr ?x, ?f)"
    using facts(6)
    by (simp add: file_mutateSessions_eq [OF ok] file_createSessionWithPolicy_def policy file_insertSession_def Let_def xs)
  have view: "file_view ?f i = Some y \<longleftrightarrow> y \<in> set xs \<and> s_id y = i" for i y
    using file_view_iff [OF ok'] by simp
  have last: "?x \<in> set xs"
  proof -
    have "xs \<noteq> []" by (rule boundedSessions_Inr [OF xs]) simp
    then show ?thesis using facts(1) last_in_set by metis
  qed
  have sub: "set xs \<subseteq> insert ?x (set (f_sessions f))"
    using boundedSessions_set [OF xs] .
  have others: "y \<in> set xs" if "y \<in> set (f_sessions f)" "s_userId y \<noteq> u" for y
  proof -
    have "y \<in> set (filter (\<lambda>s. s_userId s \<noteq> u) (f_sessions f))" using that by simp
    then show ?thesis unfolding facts(3) [symmetric] by simp
  qed
  have "card {i. \<exists>y. file_view ?f i = Some y \<and> s_userId y = u} = length (filter (\<lambda>s. s_userId s = u) xs)"
    using ids_of_user_card [OF facts(6) view] .
  moreover have "file_view f i = Some y" if "i \<noteq> new" "file_view ?f i = Some y" for i y
    using view [of i y] that sub file_view_iff [OF ok, of i y] by auto
  moreover have "file_view ?f i = Some y" if "s_userId y \<noteq> u" "file_view f i = Some y" for i y
    using view [of i y] others that file_view_iff [OF ok, of i y] by auto
  ultimately show ?thesis
    using run facts(2) view last ok' by auto
qed

section \<open>The adapter provides the session contract\<close>

lemma file_update_result:
  assumes ok: "file_sessions_ok f" and x: "file_view f i = Some x" and p: "plain_patch p"
  shows "\<exists>f'. file_updateSession Io_done i p f = (Inr (apply_session_patch p x), f') \<and> file_sessions_ok f'
           \<and> file_view f' = (file_view f)(i \<mapsto> apply_session_patch p x)"
proof -
  let ?xs = "f_sessions f" and ?y = "apply_session_patch p x"
  have xi: "x \<in> set ?xs" "s_id x = i" using file_view_iff [OF ok] x by auto
  have dist: "distinct (map s_id ?xs)" and valid: "valid_store ?xs" "valid_session x"
    using ok xi(1) by (auto simp: file_sessions_ok_def valid_store_def)
  obtain n where n: "findIndex (\<lambda>s. s_id s = i) ?xs = Some n"
    using findIndex_None_iff [of "\<lambda>s. s_id s = i" ?xs] xi by (cases "findIndex (\<lambda>s. s_id s = i) ?xs") auto
  have "?xs ! n = x"
    using valid_store_inj [OF valid(1)] findIndex_distinct(3,4) [OF dist n] xi by blast
  moreover have y: "valid_session ?y" "s_id ?y = s_id x"
    using plain_patch_valid [OF p valid(2)] p by (simp_all add: plain_patch_def)
  define f' where "f' = f\<lparr>f_sessions := map (\<lambda>s. if s_id s = i then ?y else s) ?xs\<rparr>"
  have valid': "valid_store (map (\<lambda>s. if s_id s = i then ?y else s) ?xs)"
    using valid_store_replace [OF valid(1) xi(1) y] xi(2) by simp
  ultimately have run: "file_updateSession Io_done i p f = (Inr ?y, f')"
    using valid' n findIndex_distinct(2) [OF dist n, of ?y]
    by (simp add: file_mutateSessions_eq [OF ok] file_updateSession_def f'_def Let_def)
  have ok': "file_sessions_ok f'" using valid' by (simp add: f'_def file_sessions_ok_def)
  have "file_view f' j = Some z \<longleftrightarrow> ((file_view f)(i \<mapsto> ?y)) j = Some z" for j z
    unfolding file_view_iff [OF ok'] using file_view_iff [OF ok, of j z] xi y(2)
    by (auto simp: f'_def)
  then have "file_view f' = (file_view f)(i \<mapsto> ?y)"
    by (intro ext option_eqI)
  with run ok' show ?thesis by blast
qed

lemma file_filter_result:
  fixes P :: "session \<Rightarrow> bool"
  assumes ok: "file_sessions_ok f"
  defines "f' \<equiv> f\<lparr>f_sessions := filter P (f_sessions f)\<rparr>"
  shows "file_sessions_ok f'"
    and "file_view f' i = (case file_view f i of None \<Rightarrow> None | Some x \<Rightarrow> if P x then Some x else None)"
proof -
  show ok': "file_sessions_ok f'" using ok by (simp add: f'_def file_sessions_ok_def)
  show "file_view f' i = (case file_view f i of None \<Rightarrow> None | Some x \<Rightarrow> if P x then Some x else None)"
  proof (rule option_eqI)
    fix x
    have "file_view f' i = Some x \<longleftrightarrow> P x \<and> file_view f i = Some x"
      using file_view_iff [OF ok', of i x] file_view_iff [OF ok, of i x] by (auto simp: f'_def)
    then show "file_view f' i = Some x \<longleftrightarrow>
        (case file_view f i of None \<Rightarrow> None | Some x \<Rightarrow> if P x then Some x else None) = Some x"
      by (auto split: option.splits)
  qed
qed

lemma file_delete_result:
  assumes ok: "file_sessions_ok f"
  shows "\<exists>f'. file_deleteSession Io_done i f = (Inr (file_view f i \<noteq> None), f') \<and> file_sessions_ok f'
           \<and> file_view f' = (file_view f)(i := None)"
proof (cases "findIndex (\<lambda>s. s_id s = i) (f_sessions f)")
  case None
  then have "file_view f i = None"
    by (simp add: file_view_def find_findIndex)
  moreover have "file_deleteSession Io_done i f = (Inr False, f)"
    using None ok
    by (simp add: file_mutateSessions_eq [OF ok] file_deleteSession_def file_sessions_ok_def)
  ultimately show ?thesis using ok by (auto simp: fun_eq_iff)
next
  case (Some n)
  have dist: "distinct (map s_id (f_sessions f))"
    using ok by (simp add: file_sessions_ok_def valid_store_def)
  let ?f = "f\<lparr>f_sessions := filter (\<lambda>s. s_id s \<noteq> i) (f_sessions f)\<rparr>"
  note result = file_filter_result [OF ok, of "\<lambda>s. s_id s \<noteq> i"]
  have "file_deleteSession Io_done i f = (Inr True, ?f)"
    using findIndex_distinct(1) [OF dist Some] Some ok
    by (simp add: file_mutateSessions_eq [OF ok] file_deleteSession_def file_sessions_ok_def)
  moreover have "file_view f i \<noteq> None"
    using Some by (simp add: file_view_def find_findIndex)
  moreover have "file_view ?f = (file_view f)(i := None)"
  proof
    fix j
    have "s_id x = j" if "file_view f j = Some x" for x
      using file_view_iff [OF ok, of j x] that by simp
    then show "file_view ?f j = ((file_view f)(i := None)) j"
      by (simp add: result(2) split: option.splits)
  qed
  ultimately show ?thesis using result(1) by auto
qed

lemma filtered_count:
  "int (length xs) - int (length (filter (\<lambda>s. \<not> P s) xs)) = int (length (filter P xs))"
  using sum_length_filter_compl [of P xs] by simp

interpretation fstore: session_storage "file_sessions maxAge" file_view file_sessions_ok for maxAge
proof
  fix s :: files and i x
  assume "file_sessions_ok s" "file_view s i = Some x"
  then show "s_id x = i" by (simp add: file_view_iff)
next
  fix s :: files
  assume ok: "file_sessions_ok s"
  have "dom (file_view s) \<subseteq> s_id ` set (f_sessions s)"
    using file_view_iff [OF ok] by auto
  then show "finite (dom (file_view s))" by (rule finite_subset) simp
next
  fix s :: files and now i
  assume ok: "file_sessions_ok s"
  show "\<exists>r s'. st_getSession (file_sessions maxAge) now i s = (Inr r, s') \<and> file_sessions_ok s'
         \<and> (case r of Some x \<Rightarrow> s' = s \<and> file_view s i = Some x
            | None \<Rightarrow> (file_view s i = None \<and> file_view s' = file_view s)
                \<or> (\<exists>x. file_view s i = Some x \<and> before (s_expires x) now
                      \<and> file_view s' = (file_view s)(i := None)))"
    using ok by (auto simp: file_sessions_def file_getSession_def file_getAllSessions_def
        bind_op_def file_readSessions_ok file_view_def split: option.splits)
next
  fix s :: files and now u
  assume ok: "file_sessions_ok s"
  show "\<exists>xs. st_getSessionsByUser (file_sessions maxAge) now u s = (Inr xs, s)
         \<and> (\<forall>x \<in> set xs. file_view s (s_id x) = Some x \<and> s_userId x = u)
         \<and> (\<forall>i x. file_view s i = Some x \<and> s_userId x = u \<and> after (s_expires x) now \<longrightarrow> x \<in> set xs)"
    using file_view_iff [OF ok] by (simp add: file_sessions_def file_getSessionsByUser_def
        file_getAllSessions_def bind_op_def file_readSessions_ok [OF ok])
next
  fix s :: files and new u now usr md
  assume "file_sessions_ok s" "file_view s new = None" "key_text new" "key_text u"
  from file_create_result [OF this, of maxAge now usr md]
  show "\<exists>x s'. st_createSession (file_sessions maxAge) now new u usr md s = (Inr x, s') \<and> file_sessions_ok s'
           \<and> s_id x = new \<and> s_userId x = u \<and> s_createdAt x = Iso now
           \<and> s_expires x = s_expiresAt x \<and> file_view s' = (file_view s)(new \<mapsto> x)"
    by (auto simp: file_sessions_def)
next
  fix s :: files and new u f pol now usr md
  assume asm: "file_sessions_ok s" "file_view s new = None" "key_text new" "key_text u"
    "st_createSessionWithPolicy (file_sessions maxAge) = Some f"
    "assertBoundedSessionPolicy pol = Inr ()"
  have "f = file_createSessionWithPolicy Io_done maxAge" using asm(5) by (simp add: file_sessions_def)
  then show "\<exists>x s'. f now new u usr md pol s = (Inr x, s') \<and> file_sessions_ok s'
           \<and> s_id x = new \<and> s_userId x = u \<and> file_view s' new = Some x
           \<and> card {i. \<exists>y. file_view s' i = Some y \<and> s_userId y = u} \<le> nat (maxConcurrentSessions pol)
           \<and> (\<forall>i y. i \<noteq> new \<and> file_view s' i = Some y \<longrightarrow> file_view s i = Some y)
           \<and> (\<forall>i y. s_userId y \<noteq> u \<and> file_view s i = Some y \<longrightarrow> file_view s' i = Some y)"
    using file_policy_result [OF asm(1-4,6), of maxAge now usr md] by simp
next
  fix s :: files and i x p
  assume "file_sessions_ok s" "file_view s i = Some x" "plain_patch p"
  from file_update_result [OF this]
  show "\<exists>s'. st_updateSession (file_sessions maxAge) i p s = (Inr (apply_session_patch p x), s')
           \<and> file_sessions_ok s' \<and> file_view s' = (file_view s)(i \<mapsto> apply_session_patch p x)"
    by (simp add: file_sessions_def)
next
  fix s :: files and i p
  assume ok: "file_sessions_ok s" and none: "file_view s i = None"
  then show "\<exists>e. st_updateSession (file_sessions maxAge) i p s = (Inl e, s)"
    by (cases "findIndex (\<lambda>x. s_id x = i) (f_sessions s)")
      (simp_all add: file_sessions_def file_updateSession_def file_mutateSessions_def
        file_readSessions_ok file_view_def find_findIndex)
next
  fix s :: files and i
  assume "file_sessions_ok s"
  from file_delete_result [OF this]
  show "\<exists>s'. st_deleteSession (file_sessions maxAge) i s = (Inr (file_view s i \<noteq> None), s')
      \<and> file_sessions_ok s' \<and> file_view s' = (file_view s)(i := None)"
    by (simp add: file_sessions_def)
next
  fix s :: files and u
  assume ok: "file_sessions_ok s"
  let ?s = "s\<lparr>f_sessions := filter (\<lambda>x. s_userId x \<noteq> u) (f_sessions s)\<rparr>"
  note result = file_filter_result [OF ok, of "\<lambda>x. s_userId x \<noteq> u"]
  have "card {i. \<exists>x. file_view s i = Some x \<and> s_userId x = u}
      = length (filter (\<lambda>x. s_userId x = u) (f_sessions s))"
    using file_view_iff [OF ok] ok by (intro ids_of_user_card) (auto simp: file_sessions_ok_def)
  then have "st_deleteUserSessions (file_sessions maxAge) u s
      = (Inr (int (card {i. \<exists>x. file_view s i = Some x \<and> s_userId x = u})), ?s)"
    using ok filtered_count [of "f_sessions s" "\<lambda>x. s_userId x = u"]
    by (simp add: file_mutateSessions_eq [OF ok] file_sessions_def file_deleteUserSessions_def Let_def file_sessions_ok_def)
  moreover have "file_view ?s = (\<lambda>i. case file_view s i of None \<Rightarrow> None
                          | Some x \<Rightarrow> if s_userId x = u then None else Some x)"
    using result(2) by (auto simp: fun_eq_iff split: option.splits)
  ultimately show "\<exists>n s'. st_deleteUserSessions (file_sessions maxAge) u s = (Inr n, s') \<and> file_sessions_ok s'
         \<and> n = int (card {i. \<exists>x. file_view s i = Some x \<and> s_userId x = u})
         \<and> file_view s' = (\<lambda>i. case file_view s i of None \<Rightarrow> None
                          | Some x \<Rightarrow> if s_userId x = u then None else Some x)"
    using result(1) by blast
next
  fix s :: files and now
  assume ok: "file_sessions_ok s"
  let ?s = "s\<lparr>f_sessions := filter (\<lambda>x. after (s_expires x) now) (f_sessions s)\<rparr>"
  note result = file_filter_result [OF ok, of "\<lambda>x. after (s_expires x) now"]
  have "\<exists>n. st_cleanupExpiredSessions (file_sessions maxAge) now s = (Inr n, ?s)"
    using ok
    by (simp add: file_mutateSessions_eq [OF ok] file_sessions_def file_cleanupExpiredSessions_def Let_def file_sessions_ok_def)
  then show "\<exists>n s'. st_cleanupExpiredSessions (file_sessions maxAge) now s = (Inr n, s') \<and> file_sessions_ok s'
         \<and> (\<forall>i x. file_view s' i = Some x \<longrightarrow> file_view s i = Some x \<and> \<not> before (s_expires x) now)
         \<and> (\<forall>i x. file_view s i = Some x \<and> after (s_expires x) now \<longrightarrow> file_view s' i = Some x)"
    using result by (auto simp: after_not_before split: option.splits if_splits)
qed

end
