(* ===== verification/File_Flags.thy ===== *)
theory File_Flags
  imports File_Storage
begin

text \<open>
  \<open>clearTotpFlagsExpected\<close> of the file adapter as one equation per outcome: it fails and leaves the
  files alone, or it rewrites the two flags of the one account concerned.
\<close>

lemma findIndex_split:
  "\<lbrakk>\<forall>x \<in> set us. \<not> p x; p u\<rbrakk> \<Longrightarrow> findIndex p (us @ u # vs) = Some (length us)"
  by (induction us) simp_all

lemma find_split: "\<lbrakk>\<forall>x \<in> set us. \<not> p x; p u\<rbrakk> \<Longrightarrow> List.find p (us @ u # vs) = Some u"
  by (induction us) simp_all

definition flags_rewritten :: "int \<Rightarrow> admin_user \<Rightarrow> admin_user" where
  "flags_rewritten now u = u\<lparr>u_totpEnabled := False, u_totpSecretId := None, u_updatedAt := Iso now\<rparr>"

lemma flags_rewritten_patch:
  "(apply_user_patch (no_user_patch\<lparr>p_totpEnabled := Some False, p_totpSecretId := Some None\<rparr>) u)\<lparr>u_updatedAt := Iso now\<rparr>
   = flags_rewritten now u"
  by (intro admin_user.equality) (simp_all add: flags_rewritten_def)

lemma flags_rewritten_simps [simp]:
  "u_id (flags_rewritten now u) = u_id u" "u_handle (flags_rewritten now u) = u_handle u"
  "u_totpEnabled (flags_rewritten now u) = False" "u_totpSecretId (flags_rewritten now u) = None"
  by (simp_all add: flags_rewritten_def)

lemma clearTotpFlags_succeeds:
  assumes "f_users f = us @ u # vs" "u_id u = userId" "u_handle u = handle" "totp_flags_clearable u handle"
    and "\<forall>x \<in> set (us @ vs). u_id x \<noteq> userId \<and> u_handle x \<noteq> handle"
    and "retirementComponent userId = Inr ()" "retirementComponent handle = Inr ()"
  shows "file_clearTotpFlagsExpected now userId handle f = (Inr (), f\<lparr>f_users := us @ flags_rewritten now u # vs\<rparr>)"
proof -
  have one: "filter (\<lambda>x. u_id x = userId \<or> u_handle x = handle) (f_users f) = [u]"
    using assms(1-5) by (auto simp: filter_empty_conv)
  have index: "findIndex (\<lambda>x. u_id x = userId) (f_users f) = Some (length us)"
    using assms(1,2,5) by (simp add: findIndex_split)
  show ?thesis
    using assms one index
    by (simp add: file_clearTotpFlagsExpected_def file_getAllUsers_def file_updateUser_def file_getUser_def
        bind_op_def Let_def flags_rewritten_patch find_split return_op_def nth_append list_update_append)
qed

lemma clearTotpFlags_cases:
  obtains (Fails) e where "file_clearTotpFlagsExpected now userId handle f = (Inl e, f)"
  | (Clears) us u vs where "f_users f = us @ u # vs" "u_id u = userId" "u_handle u = handle"
      "totp_flags_clearable u handle" "\<forall>x \<in> set (us @ vs). u_id x \<noteq> userId \<and> u_handle x \<noteq> handle"
      "file_clearTotpFlagsExpected now userId handle f = (Inr (), f\<lparr>f_users := us @ flags_rewritten now u # vs\<rparr>)"
proof -
  let ?p = "\<lambda>x. u_id x = userId \<or> u_handle x = handle"
  let ?ok = "retirementComponent userId = Inr () \<and> retirementComponent handle = Inr ()
     \<and> (\<exists>u. filter ?p (f_users f) = [u] \<and> u_id u = userId \<and> u_handle u = handle \<and> totp_flags_clearable u handle)"
  show thesis
  proof (cases ?ok)
    case True
    then obtain u where one: "filter ?p (f_users f) = [u]"
        and u: "u_id u = userId" "u_handle u = handle" "totp_flags_clearable u handle" by blast
    from one obtain us vs where split: "f_users f = us @ u # vs" "\<forall>x \<in> set us. \<not> ?p x" "filter ?p vs = []"
      by (auto simp: filter_eq_Cons_iff)
    have others: "\<forall>x \<in> set (us @ vs). u_id x \<noteq> userId \<and> u_handle x \<noteq> handle"
      using split(2,3) by (auto simp: filter_empty_conv)
    show thesis using Clears [OF split(1) u others clearTotpFlags_succeeds [OF split(1) u others]] True by simp
  next
    case False
    then have "\<exists>e. file_clearTotpFlagsExpected now userId handle f = (Inl e, f)"
      by (auto simp: file_clearTotpFlagsExpected_def file_getAllUsers_def bind_op_def throw_op_def
          split: sum.splits list.splits)
    then show thesis using Fails by blast
  qed
qed

end
