(* ===== verification/Session_Guarantees.thy ===== *)
theory Session_Guarantees
  imports File_Flags
begin

text \<open>
  What the session service guarantees on the two adapters of the package: the lemmas proved
  once over the session contract, read off at its two interpretations, and what the file
  adapter adds about its stored data.
\<close>

section \<open>Sessions of an account\<close>

text \<open>After the call the account has the session \<open>x\<close> only, and the others have what they had.\<close>

definition only_new_session ::
  "(string \<Rightarrow> session option) \<Rightarrow> (string \<Rightarrow> session option) \<Rightarrow> string \<Rightarrow> session \<Rightarrow> bool" where
  "only_new_session old new u x \<longleftrightarrow>
     (\<forall>i y. new i = Some y \<longleftrightarrow> (i = s_id x \<and> y = x) \<or> (old i = Some y \<and> s_userId y \<noteq> u))"

text \<open>
  With the default strategy, logging in leaves an account with exactly the new session and
  every other account with the sessions it had, on both adapters.
\<close>

theorem single_strategy_one_session:
  assumes "key_text new" "key_text u" "sessionStrategy cfg = None \<or> sessionStrategy cfg = Some ''single''"
  shows "(mem_sessions_ok m \<and> mem_view m new = None \<longrightarrow>
      (\<exists>x m'. sm_createSession memory_sessions cfg t new u usr md m = (Inr x, m')
         \<and> s_id x = new \<and> s_userId x = u \<and> mem_sessions_ok m'
         \<and> only_new_session (mem_view m) (mem_view m') u x))
    \<and> (file_sessions_ok f \<and> file_view f new = None \<longrightarrow>
      (\<exists>x f'. sm_createSession (file_sessions maxAge) cfg t new u usr md f = (Inr x, f')
         \<and> s_id x = new \<and> s_userId x = u \<and> file_sessions_ok f'
         \<and> only_new_session (file_view f) (file_view f') u x))"
proof (intro conjI impI)
  assume "mem_sessions_ok m \<and> mem_view m new = None"
  then show "\<exists>x m'. sm_createSession memory_sessions cfg t new u usr md m = (Inr x, m')
         \<and> s_id x = new \<and> s_userId x = u \<and> mem_sessions_ok m'
         \<and> only_new_session (mem_view m) (mem_view m') u x"
    using mem.createSession_single [OF _ _ assms, of m t usr md] unfolding only_new_session_def by blast
next
  assume "file_sessions_ok f \<and> file_view f new = None"
  then show "\<exists>x f'. sm_createSession (file_sessions maxAge) cfg t new u usr md f = (Inr x, f')
         \<and> s_id x = new \<and> s_userId x = u \<and> file_sessions_ok f'
         \<and> only_new_session (file_view f) (file_view f') u x"
    using fstore.createSession_single [OF _ _ assms, of f maxAge t usr md]
    unfolding only_new_session_def by blast
qed

definition default_session_config :: session_config where
  "default_session_config =
     \<lparr>sessionStrategy = None, cfg_maxAge = week_ms, cfg_renewThreshold = 86400000,
      cfg_maxConcurrentSessions = 5\<rparr>"

theorem single_strategy_one_session_witness:
  "\<exists>x f'. sm_createSession (file_sessions 1000) default_session_config 7 ''n'' ''u'' no_user_patch None
      (empty_files\<lparr>f_sessions := [example_session ''a'' ''u'' 1 100, example_session ''b'' ''v'' 1 100]\<rparr>)
      = (Inr x, f') \<and> file_view f' ''a'' = None
      \<and> file_view f' ''b'' = Some (example_session ''b'' ''v'' 1 100)"
proof -
  let ?f = "empty_files\<lparr>f_sessions := [example_session ''a'' ''u'' 1 100, example_session ''b'' ''v'' 1 100]\<rparr>"
  have hyps: "key_text ''n''" "key_text ''u''"
      "sessionStrategy default_session_config = None \<or> sessionStrategy default_session_config = Some ''single''"
    by (code_simp, code_simp, simp add: default_session_config_def)
  have valid: "valid_store (f_sessions ?f)"
    by (simp add: assertStoredSessions_iff [symmetric]) code_simp
  have ok: "file_sessions_ok ?f" "file_view ?f ''n'' = None"
      "file_view ?f ''a'' = Some (example_session ''a'' ''u'' 1 100)"
      "file_view ?f ''b'' = Some (example_session ''b'' ''v'' 1 100)"
    using valid by (simp_all add: file_sessions_ok_def file_view_def example_session_def)
  obtain x f' where run: "sm_createSession (file_sessions 1000) default_session_config 7 ''n'' ''u''
        no_user_patch None ?f = (Inr x, f')" and x: "s_id x = ''n''"
      and only: "only_new_session (file_view ?f) (file_view f') ''u'' x"
    using single_strategy_one_session [OF hyps, of undefined 7 no_user_patch None ?f 1000] ok(1,2) by blast
  have "file_view f' ''a'' = None"
  proof (cases "file_view f' ''a''")
    case (Some y)
    then have "''a'' = s_id x \<or> (file_view ?f ''a'' = Some y \<and> s_userId y \<noteq> ''u'')"
      using only by (auto simp: only_new_session_def)
    then show ?thesis using x ok(3) by (auto simp: example_session_def)
  qed simp
  moreover have "file_view f' ''b'' = Some (example_session ''b'' ''v'' 1 100)"
    using only ok(4) unfolding only_new_session_def by (simp add: example_session_def)
  ultimately show ?thesis using run by blast
qed

text \<open>
  C19. On both adapters a lookup through the service answers and returns only a stored session
  that is not expired, without changing the store; when it answers nothing, no session is left
  under that id, and no other session is touched.
\<close>

theorem getSession_never_expired:
  "(mem_sessions_ok m \<longrightarrow>
      (\<exists>r m'. sm_getSession memory_sessions t now i m = (Inr r, m') \<and> mem_sessions_ok m'
        \<and> (\<forall>j. j \<noteq> i \<longrightarrow> mem_view m' j = mem_view m j)
        \<and> (case r of
             Some x \<Rightarrow> m' = m \<and> mem_view m i = Some x \<and> s_id x = i \<and> \<not> before (s_expires x) now
           | None \<Rightarrow> i = [] \<or> mem_view m' i = None)))
   \<and> (file_sessions_ok f \<longrightarrow>
      (\<exists>r f'. sm_getSession (file_sessions maxAge) t now i f = (Inr r, f') \<and> file_sessions_ok f'
        \<and> (\<forall>j. j \<noteq> i \<longrightarrow> file_view f' j = file_view f j)
        \<and> (case r of
             Some x \<Rightarrow> f' = f \<and> file_view f i = Some x \<and> s_id x = i \<and> \<not> before (s_expires x) now
           | None \<Rightarrow> i = [] \<or> file_view f' i = None)))"
proof (intro conjI impI)
  show "\<exists>r m'. sm_getSession memory_sessions t now i m = (Inr r, m') \<and> mem_sessions_ok m'
        \<and> (\<forall>j. j \<noteq> i \<longrightarrow> mem_view m' j = mem_view m j)
        \<and> (case r of
             Some x \<Rightarrow> m' = m \<and> mem_view m i = Some x \<and> s_id x = i \<and> \<not> before (s_expires x) now
           | None \<Rightarrow> i = [] \<or> mem_view m' i = None)" if "mem_sessions_ok m"
    using that by (rule mem.getSession_live)
  show "\<exists>r f'. sm_getSession (file_sessions maxAge) t now i f = (Inr r, f') \<and> file_sessions_ok f'
        \<and> (\<forall>j. j \<noteq> i \<longrightarrow> file_view f' j = file_view f j)
        \<and> (case r of
             Some x \<Rightarrow> f' = f \<and> file_view f i = Some x \<and> s_id x = i \<and> \<not> before (s_expires x) now
           | None \<Rightarrow> i = [] \<or> file_view f' i = None)" if "file_sessions_ok f"
    using that by (rule fstore.getSession_live)
qed

theorem getSession_never_expired_witness:
  "\<exists>f'. sm_getSession (file_sessions 1000) 150 150 ''a''
      (empty_files\<lparr>f_sessions := [example_session ''a'' ''u'' 1 100]\<rparr>) = (Inr None, f')
      \<and> file_view f' ''a'' = None"
proof -
  let ?f = "empty_files\<lparr>f_sessions := [example_session ''a'' ''u'' 1 100]\<rparr>"
  have ok: "file_sessions_ok ?f"
    by (simp add: file_sessions_ok_def assertStoredSessions_iff [symmetric]) code_simp
  have view: "file_view ?f ''a'' = Some (example_session ''a'' ''u'' 1 100)"
    by (simp add: file_view_def example_session_def)
  obtain r f' where run: "sm_getSession (file_sessions 1000) 150 150 ''a'' ?f = (Inr r, f')"
      and r: "case r of Some x \<Rightarrow> f' = ?f \<and> file_view ?f ''a'' = Some x \<and> s_id x = ''a''
                          \<and> \<not> before (s_expires x) 150
              | None \<Rightarrow> ''a'' = [] \<or> file_view f' ''a'' = None"
    using getSession_never_expired [of undefined 150 150 "''a''" ?f 1000] ok by blast
  show ?thesis
  proof (cases r)
    case None
    then show ?thesis using run r by auto
  next
    case (Some x)
    then show ?thesis using r view by (simp add: example_session_def)
  qed
qed

text \<open>
  A session that was refreshed at \<open>now'\<close> on the file adapter keeps its id and answers every
  lookup up to \<open>now' + maxAge\<close>, with both expiry fields moved there.
\<close>

theorem refreshed_session_answers:
  assumes "file_sessions_ok f" "i \<noteq> []"
    and "sm_refreshSession (file_sessions maxAge) cfg t now now' i f = (Inr (Some y), f')"
    and "later \<le> now' + cfg_maxAge cfg" "later_t \<le> now' + cfg_maxAge cfg"
  shows "sm_getSession (file_sessions maxAge) later_t later i f' = (Inr (Some y), f') \<and> s_id y = i
    \<and> s_expires y = Iso (now' + cfg_maxAge cfg) \<and> s_expiresAt y = s_expires y"
proof -
  have "s_expires y = Iso (now' + cfg_maxAge cfg) \<and> s_expiresAt y = s_expires y"
    using fstore.refreshSession_result [OF assms(1), of maxAge cfg t now now' i] assms(3)
    by (auto simp: refresh_patch_expires)
  then show ?thesis
    using fstore.refreshed_session_valid [OF assms(1,3-5,2)] by blast
qed

theorem refreshed_session_answers_witness:
  "\<exists>y f'. sm_refreshSession (file_sessions 1000) default_session_config 50 50 50 ''a''
      (empty_files\<lparr>f_sessions := [example_session ''a'' ''u'' 1 100]\<rparr>) = (Inr (Some y), f')
      \<and> sm_getSession (file_sessions 1000) 604800050 604800050 ''a'' f' = (Inr (Some y), f')"
proof -
  let ?f = "empty_files\<lparr>f_sessions := [example_session ''a'' ''u'' 1 100]\<rparr>"
  let ?y = "(example_session ''a'' ''u'' 1 100)\<lparr>s_expires := Iso 604800050, s_expiresAt := Iso 604800050\<rparr>"
  have ok: "file_sessions_ok ?f"
    by (simp add: file_sessions_ok_def assertStoredSessions_iff [symmetric]) code_simp
  have run: "sm_refreshSession (file_sessions 1000) default_session_config 50 50 50 ''a'' ?f
      = (Inr (Some ?y), empty_files\<lparr>f_sessions := [?y]\<rparr>)"
    by code_simp
  have age: "604800050 \<le> 50 + cfg_maxAge default_session_config"
    by (simp add: default_session_config_def week_ms_def)
  show ?thesis
    using run refreshed_session_answers [OF ok _ run age age] by blast
qed

section \<open>The bounded strategy\<close>



section \<open>The stored data of the file adapter\<close>

text \<open>
  C28. No session operation of the file adapter writes over a session file it cannot trust, and
  none leaves an untrusted one, however its file calls end: every mutation fails on an invalid
  store and leaves the file alone, and a valid store stays valid. A mutation that fails leaves
  the file as it was, unless syncing the directory failed after the rename: then the file holds
  the complete new list, which is valid. A mutation that returns has written what it computed.
\<close>

theorem file_store_guarded:
  "(\<not> valid_store (f_sessions f) \<longrightarrow>
      file_mutateSessions io operation f
        = (Inl (case io of Read_failed e \<Rightarrow> e | _ \<Rightarrow> Error ''Invalid session store''), f))
   \<and> (valid_store (f_sessions f) \<longrightarrow> valid_store (f_sessions (snd (file_mutateSessions io operation f))))
   \<and> (\<forall>e. fst (file_mutateSessions io operation f) = Inl e \<longrightarrow>
        snd (file_mutateSessions io operation f) = f
        \<or> (\<exists>next r. io = Sync_failed e \<and> operation (f_sessions f) = Inr (next, r) \<and> valid_store next
              \<and> snd (file_mutateSessions io operation f) = f\<lparr>f_sessions := next\<rparr>))
   \<and> (\<forall>r. fst (file_mutateSessions io operation f) = Inr r \<longrightarrow>
        io = Io_done \<and> (\<exists>next. operation (f_sessions f) = Inr (next, r) \<and> valid_store next
              \<and> snd (file_mutateSessions io operation f) = f\<lparr>f_sessions := next\<rparr>))"
proof (cases "valid_store (f_sessions f)")
  case True
  then have ok: "file_sessions_ok f" by (simp add: file_sessions_ok_def)
  show ?thesis
    using True by (cases io) (auto simp: file_mutateSessions_eq [OF ok] split: sum.splits if_splits)
next
  case False
  then show ?thesis
    by (cases io) (simp_all add: file_mutateSessions_def bind_op_def throw_op_def file_readSessions_def
        assertStoredSessions_cases)
qed

theorem file_store_guarded_witness:
  "file_deleteUserSessions Io_done ''v''
     (empty_files\<lparr>f_sessions := [example_session ''a'' ''u'' 1 100, example_session ''a'' ''v'' 1 100]\<rparr>)
   = (Inl (Error ''Invalid session store''),
      empty_files\<lparr>f_sessions := [example_session ''a'' ''u'' 1 100, example_session ''a'' ''v'' 1 100]\<rparr>)"
proof -
  let ?f = "empty_files\<lparr>f_sessions := [example_session ''a'' ''u'' 1 100, example_session ''a'' ''v'' 1 100]\<rparr>"
  have "\<not> valid_store (f_sessions ?f)"
    by (simp add: valid_store_def example_session_def)
  then show ?thesis
    unfolding file_deleteUserSessions_def using conjunct1 [OF file_store_guarded [of ?f Io_done]] by simp
qed

text \<open>A deletion whose directory sync fails answers with the failure and has deleted.\<close>

lemma unsynced_deletion:
  "file_deleteUserSessions (Sync_failed (Error ''EIO'')) ''u''
     (empty_files\<lparr>f_sessions := [example_session ''a'' ''u'' 1 100, example_session ''b'' ''v'' 1 100]\<rparr>)
   = (Inl (Error ''EIO''), empty_files\<lparr>f_sessions := [example_session ''b'' ''v'' 1 100]\<rparr>)"
  by code_simp

text \<open>
  \<open>clearTotpFlagsExpected\<close> succeeds only for the one account that has both the id and the
  handle, neither of which another account has, and then changes nothing in the file but that
  account's two TOTP fields and its update time.
\<close>

theorem clearTotpFlags_exact:
  assumes "file_clearTotpFlagsExpected now userId handle f = (Inr (), f')"
  shows "\<exists>us u vs. f_users f = us @ u # vs \<and> u_id u = userId \<and> u_handle u = handle
    \<and> totp_flags_clearable u handle
    \<and> (\<forall>x \<in> set (us @ vs). u_id x \<noteq> userId \<and> u_handle x \<noteq> handle)
    \<and> f' = f\<lparr>f_users := us @ u\<lparr>u_totpEnabled := False, u_totpSecretId := None,
                                 u_updatedAt := Iso now\<rparr> # vs\<rparr>"
  by (rule clearTotpFlags_cases [of now userId handle f]) (use assms in \<open>auto simp: flags_rewritten_def\<close>)

definition ada_with_totp :: admin_user where
  "ada_with_totp = (example_user ''u1'' ''ada'' ''admin'')\<lparr>u_totpEnabled := True, u_totpSecretId := Some ''ada''\<rparr>"

theorem clearTotpFlags_exact_witness:
  "\<exists>us u vs. [example_user ''u2'' ''bob'' ''member'', ada_with_totp] = us @ u # vs \<and> u_id u = ''u1''
      \<and> totp_flags_clearable u ''ada''"
proof -
  let ?f = "empty_files\<lparr>f_users := [example_user ''u2'' ''bob'' ''member'', ada_with_totp]\<rparr>"
  have "file_clearTotpFlagsExpected 9 ''u1'' ''ada'' ?f = (Inr (), snd (file_clearTotpFlagsExpected 9 ''u1'' ''ada'' ?f))"
    by code_simp
  from clearTotpFlags_exact [OF this] show ?thesis by auto
qed

end
