(* ===== verification/Activity_Tracking.thy ===== *)
theory Activity_Tracking
  imports Session_Guarantees
begin

text \<open>
  Session renewal on activity, \<open>src/core/session/activity-tracking.ts\<close>: the closure that
  \<open>createActivityTracker\<close> returns, as a state of the time of each session's last renewal beside
  the storage adapter's state. Log calls are left out: the logger is the caller's, and is taken
  to return.
\<close>

datatype activity_type =
  Page_view | Api_call | Websocket_message | Form_submit | Click | Scroll | Heartbeat

text \<open>The fields of \<open>ActivityEvent\<close> that are not only logged.\<close>

record activity_event =
  act_sessionId :: string
  act_type :: activity_type

record activity_config =
  renewThresholdMs :: int
  renewExtensionMs :: int
  minRenewalIntervalMs :: int
  renewalActivities :: "activity_type set"

definition DEFAULT_RENEWAL_ACTIVITIES :: "activity_type set" where
  "DEFAULT_RENEWAL_ACTIVITIES = {Page_view, Api_call, Form_submit, Heartbeat}"

definition default_activity_config :: activity_config where
  "default_activity_config =
     \<lparr>renewThresholdMs = 24 * 60 * 60 * 1000, renewExtensionMs = 7 * 24 * 60 * 60 * 1000,
      minRenewalIntervalMs = 5 * 60 * 1000, renewalActivities = DEFAULT_RENEWAL_ACTIVITIES\<rparr>"

record 's tracker =
  lastRenewalMap :: "int jsmap"
  tracked :: 's

definition on_store :: "('s, 'a) op \<Rightarrow> ('s tracker, 'a) op" where
  "on_store m = (\<lambda>k. let (r, s) = m (tracked k) in (r, k\<lparr>tracked := s\<rparr>))"

text \<open>
  \<open>shouldRenewSession\<close>: an unreadable expiry makes the first comparison false, and a last
  renewal at time 0 counts as none.
\<close>

definition shouldRenewSession :: "activity_config \<Rightarrow> int \<Rightarrow> int jsmap \<Rightarrow> session \<Rightarrow> bool" where
  "shouldRenewSession cfg now renewals x =
     (if (case date_parse (s_expires x) of None \<Rightarrow> False
          | Some e \<Rightarrow> e - now > renewThresholdMs cfg) then False
      else case map_of renewals (s_id x) of
             None \<Rightarrow> True
           | Some t \<Rightarrow> t = 0 \<or> \<not> now - t < minRenewalIntervalMs cfg)"

text \<open>
  \<open>renewSessionOnActivity\<close>: \<open>t\<close> is the adapter's reading of the clock; the tracker reads it for
  the decision (\<open>now\<close>), for the new expiry (\<open>now1\<close>) and for its record (\<open>now2\<close>).
\<close>

definition renewSessionOnActivity ::
  "'s session_ops \<Rightarrow> activity_config \<Rightarrow> int \<Rightarrow> int \<Rightarrow> int \<Rightarrow> int \<Rightarrow> string \<Rightarrow> ('s tracker, bool) op" where
  "renewSessionOnActivity st cfg t now now1 now2 sessionId =
     catch_op
       (bind_op (on_store (st_getSession st t sessionId)) (\<lambda>session k.
          case session of
            None \<Rightarrow> (Inr False, k)
          | Some x \<Rightarrow>
              if \<not> shouldRenewSession cfg now (lastRenewalMap k) x then (Inr False, k)
              else bind_op
                (on_store (st_updateSession st sessionId
                   (no_session_patch\<lparr>sp_expires := Some (Iso (now1 + renewExtensionMs cfg))\<rparr>)))
                (\<lambda>_ k. (Inr True, k\<lparr>lastRenewalMap := map_set sessionId now2 (lastRenewalMap k)\<rparr>)) k))
       (\<lambda>e. return_op False)"

definition trackActivityAndRenew ::
  "'s session_ops \<Rightarrow> activity_config \<Rightarrow> int \<Rightarrow> int \<Rightarrow> int \<Rightarrow> int \<Rightarrow> activity_event \<Rightarrow> ('s tracker, unit) op" where
  "trackActivityAndRenew st cfg t now now1 now2 activity =
     (if act_type activity \<in> renewalActivities cfg
      then bind_op (renewSessionOnActivity st cfg t now now1 now2 (act_sessionId activity))
             (\<lambda>_. return_op ())
      else return_op ())"

definition cleanupRenewalTracking :: "activity_config \<Rightarrow> int \<Rightarrow> ('s tracker, unit) op" where
  "cleanupRenewalTracking cfg now = (\<lambda>k.
     (Inr (), k\<lparr>lastRenewalMap :=
        snd (delete_where (\<lambda>t. t < now - minRenewalIntervalMs cfg) (lastRenewalMap k))\<rparr>))"

section \<open>What the tracker does to the store\<close>

lemma expires_patch_plain [simp]: "plain_patch (no_session_patch\<lparr>sp_expires := Some (Iso e)\<rparr>)"
  by (simp add: plain_patch_def)

context session_storage
begin

lemma renew_cases:
  assumes "inv (tracked k)"
  obtains (renewed) x k' where
      "renewSessionOnActivity st cfg t now now1 now2 i k = (Inr True, k')" "inv (tracked k')"
      "view (tracked k) i = Some x" "s_id x = i" "shouldRenewSession cfg now (lastRenewalMap k) x"
      "view (tracked k') = (view (tracked k))
         (i \<mapsto> apply_session_patch (no_session_patch\<lparr>sp_expires := Some (Iso (now1 + renewExtensionMs cfg))\<rparr>) x)"
      "lastRenewalMap k' = map_set i now2 (lastRenewalMap k)"
  | (kept) x where
      "renewSessionOnActivity st cfg t now now1 now2 i k = (Inr False, k)"
      "view (tracked k) i = Some x" "s_id x = i" "\<not> shouldRenewSession cfg now (lastRenewalMap k) x"
  | (gone) k' where
      "renewSessionOnActivity st cfg t now now1 now2 i k = (Inr False, k')" "inv (tracked k')"
      "view (tracked k') i = None" "\<forall>j. j \<noteq> i \<longrightarrow> view (tracked k') j = view (tracked k) j"
      "lastRenewalMap k' = lastRenewalMap k"
proof (cases rule: get_cases [OF assms, of t i])
  case (1 x)
  let ?p = "no_session_patch\<lparr>sp_expires := Some (Iso (now1 + renewExtensionMs cfg))\<rparr>"
  show thesis
  proof (cases "shouldRenewSession cfg now (lastRenewalMap k) x")
    case True
    obtain s' where s': "st_updateSession st i ?p (tracked k) = (Inr (apply_session_patch ?p x), s')"
        "inv s'" "view s' = (view (tracked k))(i \<mapsto> apply_session_patch ?p x)"
      using update_cases [OF assms 1(2) expires_patch_plain] by blast
    let ?k = "k\<lparr>tracked := s', lastRenewalMap := map_set i now2 (lastRenewalMap k)\<rparr>"
    have "renewSessionOnActivity st cfg t now now1 now2 i k = (Inr True, ?k)"
      using True 1 s'(1)
      by (simp add: renewSessionOnActivity_def bind_op_def catch_op_def on_store_def)
    then show thesis
      using renewed [of ?k x] True 1 s' by simp
  next
    case False
    then have "renewSessionOnActivity st cfg t now now1 now2 i k = (Inr False, k)"
      using 1 by (simp add: renewSessionOnActivity_def bind_op_def catch_op_def on_store_def)
    then show thesis using kept 1 False by simp
  qed
next
  case (2 s')
  have "renewSessionOnActivity st cfg t now now1 now2 i k = (Inr False, k\<lparr>tracked := s'\<rparr>)"
    using 2 by (simp add: renewSessionOnActivity_def bind_op_def catch_op_def on_store_def)
  then show thesis using gone [of "k\<lparr>tracked := s'\<rparr>"] 2 by simp
next
  case (3 x s')
  have "renewSessionOnActivity st cfg t now now1 now2 i k = (Inr False, k\<lparr>tracked := s'\<rparr>)"
    using 3 by (simp add: renewSessionOnActivity_def bind_op_def catch_op_def on_store_def)
  then show thesis using gone [of "k\<lparr>tracked := s'\<rparr>"] 3 by simp
qed

text \<open>Within the minimal interval after a renewal, activity renews nothing.\<close>

lemma renewal_throttled:
  assumes "inv (tracked k)" "renewSessionOnActivity st cfg t now now1 now2 i k = (Inr True, k')"
    and "now2 \<noteq> 0" "later - now2 < minRenewalIntervalMs cfg"
  shows "\<exists>k''. renewSessionOnActivity st cfg t' later later1 later2 i k' = (Inr False, k'')
    \<and> lastRenewalMap k'' = lastRenewalMap k'
    \<and> (view (tracked k'') i = view (tracked k') i \<or> view (tracked k'') i = None)"
proof (cases rule: renew_cases [OF assms(1), of cfg t now now1 now2 i])
  case (1 x k1)
  then have k': "inv (tracked k')" "lastRenewalMap k' = map_set i now2 (lastRenewalMap k)"
    using assms(2) by auto
  have quiet: "\<not> shouldRenewSession cfg later (lastRenewalMap k') y" if "s_id y = i" for y
    using assms(3,4) that by (simp add: shouldRenewSession_def k'(2) split: option.splits)
  show ?thesis
  proof (cases rule: renew_cases [OF k'(1), of cfg t' later later1 later2 i])
    case (1 x k2)
    then show ?thesis using quiet by blast
  next
    case (2 x)
    then show ?thesis by blast
  next
    case (3 k2)
    then show ?thesis by blast
  qed
next
  case (2 x)
  then show ?thesis using assms(2) by simp
next
  case (3 k1)
  then show ?thesis using assms(2) by simp
qed

end

section \<open>Properties\<close>

text \<open>
  On the file adapter, a session that activity renewed is not renewed again within the
  minimal interval: the next activity answers no, records nothing and leaves the stored session
  (or finds none).
\<close>

theorem renewal_once_per_interval:
  assumes "file_sessions_ok (tracked k)"
    and "renewSessionOnActivity (file_sessions maxAge) cfg t now now1 now2 i k = (Inr True, k')"
    and "now2 \<noteq> 0" "later - now2 < minRenewalIntervalMs cfg"
  shows "\<exists>k''. renewSessionOnActivity (file_sessions maxAge) cfg t' later later1 later2 i k' = (Inr False, k'')
    \<and> lastRenewalMap k'' = lastRenewalMap k'
    \<and> (file_view (tracked k'') i = file_view (tracked k') i \<or> file_view (tracked k'') i = None)"
  using fstore.renewal_throttled [OF assms] .

definition example_tracker :: "files tracker" where
  "example_tracker =
     \<lparr>lastRenewalMap = [], tracked = empty_files\<lparr>f_sessions := [example_session ''a'' ''u'' 1 1000]\<rparr>\<rparr>"

theorem renewal_once_per_interval_witness:
  "\<exists>k' k''. renewSessionOnActivity (file_sessions 5) default_activity_config 10 10 10 10 ''a'' example_tracker
        = (Inr True, k')
     \<and> renewSessionOnActivity (file_sessions 5) default_activity_config 20 20 20 20 ''a'' k' = (Inr False, k'')"
proof -
  let ?k' = "\<lparr>lastRenewalMap = [(''a'', 10)], tracked = empty_files\<lparr>f_sessions :=
      [(example_session ''a'' ''u'' 1 1000)\<lparr>s_expires := Iso 604800010\<rparr>]\<rparr>\<rparr>"
  have ok: "file_sessions_ok (tracked example_tracker)"
    by (simp add: file_sessions_ok_def assertStoredSessions_iff [symmetric]) code_simp
  have run: "renewSessionOnActivity (file_sessions 5) default_activity_config 10 10 10 10 ''a'' example_tracker
        = (Inr True, ?k')"
    by code_simp
  have "20 - 10 < minRenewalIntervalMs default_activity_config"
    by (simp add: default_activity_config_def)
  from renewal_once_per_interval [OF ok run _ this, of 20 20 20] run
  show ?thesis by auto
qed

text \<open>
  Dropping old entries from the renewal record is invisible: every later decision is the one
  the full record would give.
\<close>

theorem cleanup_invisible:
  assumes "keys_distinct (lastRenewalMap k)" "now \<le> later"
  shows "shouldRenewSession cfg later (lastRenewalMap (snd (cleanupRenewalTracking cfg now k))) x
    = shouldRenewSession cfg later (lastRenewalMap k) x"
  using assms map_of_filter_distinct [OF assms(1), of "Not \<circ> (\<lambda>t. t < now - minRenewalIntervalMs cfg) \<circ> snd"]
  by (simp add: shouldRenewSession_def cleanupRenewalTracking_def delete_where_filter split: option.splits)

theorem cleanup_invisible_witness:
  "shouldRenewSession default_activity_config 400010
     (lastRenewalMap (snd (cleanupRenewalTracking default_activity_config 400000
        (example_tracker\<lparr>lastRenewalMap := [(''a'', 10)]\<rparr>)))) (example_session ''a'' ''u'' 1 1000)
   = shouldRenewSession default_activity_config 400010 [(''a'', 10)] (example_session ''a'' ''u'' 1 1000)"
proof -
  have "keys_distinct (lastRenewalMap (example_tracker\<lparr>lastRenewalMap := [(''a'', 10)]\<rparr>))"
    by (simp add: keys_distinct_def)
  from cleanup_invisible [OF this, of 400000 400010 default_activity_config "example_session ''a'' ''u'' 1 1000"]
  show ?thesis by simp
qed

section \<open>Where renewal departs from its purpose\<close>

text \<open>
  The file adapter's \<open>getSession\<close> returns expired sessions, and the tracker does not test for
  expiry: activity on a session that expired long ago renews it for a week. The renewal also
  moves only \<open>expires\<close>, so the session's two expiry fields disagree afterwards.
\<close>

theorem activity_revives_expired:
  "let r = renewSessionOnActivity (file_sessions 5) default_activity_config 5000 5000 5000 5000 ''a'' example_tracker
   in fst r = Inr True
      \<and> map_option (\<lambda>x. (s_expires x, s_expiresAt x)) (file_view (tracked (snd r)) ''a'')
          = Some (Iso (5000 + 604800000), Iso 1000)"
  by code_simp

end
