(* ===== verification/Account_Interface.thy ===== *)
theory Account_Interface
  imports Auth_Types
begin

text \<open>
  The storage interface of the services that create and look up accounts (\<open>BootstrapStorage\<close>
  and \<open>HandleValidationStorage\<close> in \<open>src/storage/interface.ts\<close>), as a record of operations, and
  the contract an adapter promises as the locale \<open>account_storage\<close>. \<open>stored s\<close> is the list of
  stored accounts and \<open>factor s h\<close> the TOTP secret stored under a handle.
\<close>

record 's account_ops =
  ao_hasUsers :: "('s, bool) op"
  ao_getUserByHandle :: "string \<Rightarrow> ('s, admin_user option) op"
  ao_getAllUsers :: "('s, admin_user list) op"
  ao_createUser :: "int \<Rightarrow> string \<Rightarrow> admin_user \<Rightarrow> ('s, admin_user) op"
  ao_deleteUser :: "string \<Rightarrow> ('s, bool) op"
  ao_saveTOTPSecret :: "string \<Rightarrow> encrypted_totp_secret \<Rightarrow> ('s, unit) op"
  ao_getTOTPSecret :: "string \<Rightarrow> ('s, encrypted_totp_secret option) op"
  ao_saveBackupCodes :: "string \<Rightarrow> backup_code_set \<Rightarrow> ('s, unit) op"
  ao_logAuditEvent :: "string \<Rightarrow> audit_event \<Rightarrow> ('s, audit_event) op"

text \<open>The account a store makes of the data: with its id, and possibly its own timestamps.\<close>

definition created_from :: "string \<Rightarrow> admin_user \<Rightarrow> admin_user \<Rightarrow> bool" where
  "created_from uid data u \<longleftrightarrow>
     u = data\<lparr>u_id := uid, u_createdAt := u_createdAt u, u_updatedAt := u_updatedAt u\<rparr>"

lemma created_fromD:
  assumes "created_from uid data u"
  shows "u_id u = uid" "u_handle u = u_handle data" "u_role u = u_role data"
    "u_passwordHash u = u_passwordHash data" "u_isActive u = u_isActive data"
    "u_totpEnabled u = u_totpEnabled data"
  by (subst assms [unfolded created_from_def], simp)+

locale account_storage =
  fixes st :: "'s account_ops"
    and stored :: "'s \<Rightarrow> admin_user list"
    and inv :: "'s \<Rightarrow> bool"
  assumes has_users_law: "inv s \<Longrightarrow> ao_hasUsers st s = (Inr (stored s \<noteq> []), s)"
    and by_handle_law:
      "inv s \<Longrightarrow> \<exists>r. ao_getUserByHandle st h s = (Inr r, s)
         \<and> (case r of Some u \<Rightarrow> u \<in> set (stored s) \<and> toLowerCase (u_handle u) = toLowerCase h
            | None \<Rightarrow> h \<notin> u_handle ` set (stored s))"
    and all_users_law: "inv s \<Longrightarrow> ao_getAllUsers st s = (Inr (stored s), s)"
    and create_user_law:
      "\<lbrakk>inv s; uid \<noteq> []; uid \<notin> u_id ` set (stored s);
        toLowerCase (u_handle data) \<notin> (toLowerCase \<circ> u_handle) ` set (stored s);
        \<not> truthy (u_email data) \<or> stored s = []\<rbrakk> \<Longrightarrow>
         \<exists>u s'. ao_createUser st now uid data s = (Inr u, s') \<and> inv s'
           \<and> created_from uid data u \<and> stored s' = stored s @ [u]"
    and save_totp_law:
      "inv s \<Longrightarrow> \<exists>s'. ao_saveTOTPSecret st h ts s = (Inr (), s') \<and> inv s' \<and> stored s' = stored s"
    and get_totp_law: "inv s \<Longrightarrow> snd (ao_getTOTPSecret st h s) = s"
    and save_codes_law:
      "inv s \<Longrightarrow> \<exists>s'. ao_saveBackupCodes st u bs s = (Inr (), s') \<and> inv s' \<and> stored s' = stored s"
    and log_law:
      "inv s \<Longrightarrow> \<exists>e s'. ao_logAuditEvent st eid ev s = (Inr e, s') \<and> inv s' \<and> stored s' = stored s"

end
