(* ===== verification/Backup_Codes.thy ===== *)
theory Backup_Codes
  imports Auth_Types "HOL-Library.Word"
begin

text \<open>
  Backup codes, \<open>src/core/backup-codes/index.ts\<close>. SHA-256 is the parameter \<open>sha256\<close>; random
  bytes are words of 8 bits given as arguments.
\<close>

section \<open>Making codes\<close>

definition hex_byte :: "8 word \<Rightarrow> string" where
  "hex_byte b = [hex_digit (unat (drop_bit 4 b)), hex_digit (unat (take_bit 4 b))]"

definition hex_bytes :: "8 word list \<Rightarrow> string" where
  "hex_bytes bs = concat (map hex_byte bs)"

text \<open>One round of the loop of \<open>generateBackupCodes\<close> draws two bytes twice.\<close>

definition code_of_bytes :: "8 word \<times> 8 word \<times> 8 word \<times> 8 word \<Rightarrow> string" where
  "code_of_bytes draw = (case draw of (a, b, c, d) \<Rightarrow>
     toUpperCase (hex_bytes [a, b]) @ ''-'' @ toUpperCase (hex_bytes [c, d]))"

definition generateBackupCodes :: "(8 word \<times> 8 word \<times> 8 word \<times> 8 word) list \<Rightarrow> string list" where
  "generateBackupCodes draws = map code_of_bytes draws"

definition is_code_char :: "char \<Rightarrow> bool" where
  "is_code_char c = (is_upper c \<or> is_digit c)"

definition normalizeBackupCode :: "string \<Rightarrow> string" where
  "normalizeBackupCode code = filter is_code_char (toUpperCase code)"

definition hashBackupCode :: "(string \<Rightarrow> string) \<Rightarrow> string \<Rightarrow> string" where
  "hashBackupCode sha256 code = sha256 (normalizeBackupCode code)"

definition createBackupCodeSet ::
  "(string \<Rightarrow> string) \<Rightarrow> int \<Rightarrow> string list \<Rightarrow> string \<Rightarrow> string list \<Rightarrow> backup_code_set" where
  "createBackupCodeSet sha256 now ids userId codes =
     \<lparr>bs_userId = userId,
      bs_codes = map (\<lambda>(i, code). \<lparr>bc_id = i, bc_hash = hashBackupCode sha256 code,
                                   bc_used = False, bc_usedAt = None\<rparr>) (zip ids codes),
      bs_generatedAt = Iso now, bs_lastUsedAt = None\<rparr>"

section \<open>Using codes\<close>

definition unused_count :: "encrypted_backup_code list \<Rightarrow> nat" where
  "unused_count cs = length (filter (\<lambda>c. \<not> bc_used c) cs)"

text \<open>\<open>verifyBackupCode\<close> reads the clock for the code and for the set; it returns whether the code
  was accepted, the set to store and the number of codes left.\<close>

definition verifyBackupCode ::
  "(string \<Rightarrow> string) \<Rightarrow> int \<Rightarrow> int \<Rightarrow> backup_code_set \<Rightarrow> string \<Rightarrow> bool \<times> backup_code_set \<times> nat" where
  "verifyBackupCode sha256 now now' codeSet code =
     (let hashedCode = hashBackupCode sha256 code
      in case findIndex (\<lambda>c. bc_hash c = hashedCode \<and> \<not> bc_used c) (bs_codes codeSet) of
           None \<Rightarrow> (False, codeSet, unused_count (bs_codes codeSet))
         | Some i \<Rightarrow>
             let updatedCodes = (bs_codes codeSet)
                   [i := (bs_codes codeSet ! i)\<lparr>bc_used := True, bc_usedAt := Some (Iso now)\<rparr>]
             in (True, codeSet\<lparr>bs_codes := updatedCodes, bs_lastUsedAt := Some (Iso now')\<rparr>,
                 unused_count updatedCodes))"

definition getRemainingCodesCount :: "backup_code_set option \<Rightarrow> nat" where
  "getRemainingCodesCount codeSet =
     (case codeSet of None \<Rightarrow> 0 | Some cs \<Rightarrow> unused_count (bs_codes cs))"

definition hasUnusedCodes :: "backup_code_set option \<Rightarrow> bool" where
  "hasUnusedCodes codeSet \<longleftrightarrow> getRemainingCodesCount codeSet > 0"

text \<open>The default format \<open>^[A-Z0-9]{4}-[A-Z0-9]{4}$\<close>; a caller may give another.\<close>

definition default_code_format :: "string \<Rightarrow> bool" where
  "default_code_format s \<longleftrightarrow> length s = 9 \<and> s ! 4 = CHR ''-''
     \<and> list_all is_code_char (take 4 s) \<and> list_all is_code_char (drop 5 s)"

definition isValidCodeFormat :: "string \<Rightarrow> (string \<Rightarrow> bool) \<Rightarrow> bool" where
  "isValidCodeFormat code format =
     format (filter (\<lambda>c. is_code_char c \<or> c = CHR ''-'') (toUpperCase code))"

definition formatCodesForDisplay :: "string list \<Rightarrow> string list" where
  "formatCodesForDisplay codes =
     map (\<lambda>(code, index). pad_start 2 (CHR ''0'') (show_nat (index + 1)) @ ''. '' @ code)
       (zip codes [0..<length codes])"

definition shouldRegenerateCodes :: "backup_code_set option \<Rightarrow> nat \<Rightarrow> bool" where
  "shouldRegenerateCodes codeSet threshold \<longleftrightarrow> getRemainingCodesCount codeSet \<le> threshold"

section \<open>Lemmas\<close>

lemma unused_count_update:
  assumes "i < length cs" "\<not> bc_used (cs ! i)" "bc_used c"
  shows "Suc (unused_count (cs[i := c])) = unused_count cs"
proof -
  have split: "cs = take i cs @ cs ! i # drop (Suc i) cs" using assms(1) by (rule id_take_nth_drop)
  have upd: "cs[i := c] = take i cs @ c # drop (Suc i) cs"
    using assms(1) by (rule upd_conv_take_nth_drop)
  show ?thesis
    unfolding upd unused_count_def using assms(2,3) by (subst (3) split) simp
qed

lemma verify_cases:
  obtains (rejected) "verifyBackupCode sha n n' cs code = (False, cs, unused_count (bs_codes cs))"
      "\<forall>c \<in> set (bs_codes cs). bc_hash c = hashBackupCode sha code \<longrightarrow> bc_used c"
  | (accepted) i where "i < length (bs_codes cs)" "bc_hash (bs_codes cs ! i) = hashBackupCode sha code"
      "\<not> bc_used (bs_codes cs ! i)"
      "verifyBackupCode sha n n' cs code =
        (True, cs\<lparr>bs_codes := (bs_codes cs)[i := (bs_codes cs ! i)\<lparr>bc_used := True, bc_usedAt := Some (Iso n)\<rparr>],
                  bs_lastUsedAt := Some (Iso n')\<rparr>, unused_count (bs_codes cs) - 1)"
proof (cases "findIndex (\<lambda>c. bc_hash c = hashBackupCode sha code \<and> \<not> bc_used c) (bs_codes cs)")
  case None
  then have "\<forall>c \<in> set (bs_codes cs). bc_hash c = hashBackupCode sha code \<longrightarrow> bc_used c"
    by (simp add: findIndex_None_iff)
  moreover have "verifyBackupCode sha n n' cs code = (False, cs, unused_count (bs_codes cs))"
    using None by (simp add: verifyBackupCode_def)
  ultimately show thesis by (rule rejected [rotated])
next
  case (Some i)
  from findIndex_SomeD [OF this]
  have i: "i < length (bs_codes cs)" "bc_hash (bs_codes cs ! i) = hashBackupCode sha code"
      "\<not> bc_used (bs_codes cs ! i)" by simp_all
  have "Suc (unused_count ((bs_codes cs)[i := (bs_codes cs ! i)\<lparr>bc_used := True, bc_usedAt := Some (Iso n)\<rparr>]))
      = unused_count (bs_codes cs)"
    using i(1,3) by (intro unused_count_update) simp_all
  then show thesis
    using accepted [OF i] Some by (simp add: verifyBackupCode_def Let_def)
qed

lemma verify_accepts_iff:
  "fst (verifyBackupCode sha n n' cs code) \<longleftrightarrow>
     (\<exists>c \<in> set (bs_codes cs). bc_hash c = hashBackupCode sha code \<and> \<not> bc_used c)"
proof (cases rule: verify_cases [of sha n n' cs code])
  case rejected
  then show ?thesis by auto
next
  case (accepted i)
  then show ?thesis by (auto intro!: bexI [of _ "bs_codes cs ! i"])
qed

text \<open>Generated codes have the default format.\<close>

lemma toUpperCase_Cons: "toUpperCase (c # s) = upper_char c @ toUpperCase s"
  by (simp add: toUpperCase_def)

lemma toUpperCase_append: "toUpperCase (s @ t) = toUpperCase s @ toUpperCase t"
  by (simp add: toUpperCase_def)

lemma hex_digit_upper:
  assumes "n < 16"
  shows "\<exists>c. upper_char (hex_digit n) = [c] \<and> is_code_char c"
proof -
  have "list_all (\<lambda>n. upper_char (hex_digit n) = [''0123456789ABCDEF'' ! n]
      \<and> is_code_char (''0123456789ABCDEF'' ! n)) [0..<16]"
    by code_simp
  then show ?thesis using assms by (auto simp: list_all_iff)
qed

lemma nibbles: "unat (drop_bit 4 (b :: 8 word)) < 16" "unat (take_bit 4 (b :: 8 word)) < 16"
proof -
  have "unat b < 2 ^ 8" using unsigned_less [of b] by simp
  then show "unat (drop_bit 4 b) < 16"
    using unat_div [of b 16] by (simp add: drop_bit_eq_div)
  show "unat (take_bit 4 b) < 16"
    using unat_mod [of b 16] by (simp add: take_bit_eq_mod)
qed

lemma upper_hex_byte:
  "\<exists>c d. toUpperCase (hex_byte b) = [c, d] \<and> is_code_char c \<and> is_code_char d"
proof -
  obtain c d where "upper_char (hex_digit (unat (drop_bit 4 b))) = [c]" "is_code_char c"
      "upper_char (hex_digit (unat (take_bit 4 b))) = [d]" "is_code_char d"
    using hex_digit_upper nibbles by meson
  then show ?thesis by (simp add: hex_byte_def toUpperCase_def)
qed

lemma code_of_bytes_shape:
  "\<exists>p q. code_of_bytes draw = p @ ''-'' @ q \<and> length p = 4 \<and> length q = 4
     \<and> list_all is_code_char p \<and> list_all is_code_char q"
proof -
  obtain a b c d where draw: "draw = (a, b, c, d)" by (cases draw)
  have half: "length (toUpperCase (hex_bytes [x, y])) = 4
      \<and> list_all is_code_char (toUpperCase (hex_bytes [x, y]))" for x y
    using upper_hex_byte [of x] upper_hex_byte [of y]
    by (auto simp: hex_bytes_def toUpperCase_append)
  show ?thesis
    using half [of a b] half [of c d] by (auto simp: draw code_of_bytes_def)
qed

lemma upper_code_char: "is_code_char c \<or> c = CHR ''-'' \<Longrightarrow> upper_char c = [c]"
  by (auto simp: is_code_char_def is_upper_def is_digit_def upper_char_def Let_def)

lemma toUpperCase_code: "list_all (\<lambda>c. is_code_char c \<or> c = CHR ''-'') s \<Longrightarrow> toUpperCase s = s"
  by (induction s) (auto simp: toUpperCase_Cons upper_code_char, simp add: toUpperCase_def)

lemma code_of_bytes_format: "isValidCodeFormat (code_of_bytes draw) default_code_format"
proof -
  obtain p q where pq: "code_of_bytes draw = p @ ''-'' @ q" "length p = 4" "length q = 4"
      "list_all is_code_char p" "list_all is_code_char q"
    using code_of_bytes_shape by blast
  have all: "list_all (\<lambda>c. is_code_char c \<or> c = CHR ''-'') (p @ ''-'' @ q)"
    using pq(4,5) by (auto simp: list_all_iff)
  have same: "filter (\<lambda>c. is_code_char c \<or> c = CHR ''-'') (p @ ''-'' @ q) = p @ ''-'' @ q"
    using all by (intro filter_True) (auto simp: list_all_iff)
  show ?thesis
    unfolding isValidCodeFormat_def pq(1) toUpperCase_code [OF all] same
    using pq(2-5) by (simp add: default_code_format_def nth_append)
qed

lemma createBackupCodeSet_hashes:
  "length ids = length codes \<Longrightarrow>
   map bc_hash (bs_codes (createBackupCodeSet sha now ids u codes)) = map (hashBackupCode sha) codes
   \<and> (\<forall>c \<in> set (bs_codes (createBackupCodeSet sha now ids u codes)). \<not> bc_used c)"
  by (induction ids codes rule: list_induct2) (auto simp: createBackupCodeSet_def)

section \<open>Properties\<close>

text \<open>
  C23. A backup code works once. When a code of a set without repeated hashes is accepted, one
  code fewer is left, the same code is refused from then on however it is typed, and every code
  with another hash is accepted or refused as before; a refused code changes nothing.
\<close>

theorem backup_code_single_use:
  assumes "distinct (map bc_hash (bs_codes cs))"
    and "verifyBackupCode sha n n' cs code = (valid, cs', k)"
  shows "k = unused_count (bs_codes cs')
    \<and> (\<not> valid \<longrightarrow> cs' = cs)
    \<and> (valid \<longrightarrow> Suc k = unused_count (bs_codes cs)
        \<and> (\<forall>other. normalizeBackupCode other = normalizeBackupCode code \<longrightarrow>
              \<not> fst (verifyBackupCode sha m m' cs' other))
        \<and> (\<forall>other. hashBackupCode sha other \<noteq> hashBackupCode sha code \<longrightarrow>
              fst (verifyBackupCode sha m m' cs' other) = fst (verifyBackupCode sha m m' cs other)))"
proof (cases rule: verify_cases [of sha n n' cs code])
  case rejected
  then show ?thesis using assms(2) by auto
next
  case (accepted i)
  let ?c = "(bs_codes cs ! i)\<lparr>bc_used := True, bc_usedAt := Some (Iso n)\<rparr>"
  have cs': "cs' = cs\<lparr>bs_codes := (bs_codes cs)[i := ?c], bs_lastUsedAt := Some (Iso n')\<rparr>"
      and k: "k = unused_count (bs_codes cs) - 1" and v: "valid"
    using accepted(4) assms(2) by simp_all
  have count: "Suc (unused_count (bs_codes cs')) = unused_count (bs_codes cs)"
    using accepted(1,3) by (simp add: cs' unused_count_update)
  have members: "c \<in> set (bs_codes cs') \<longleftrightarrow>
      c = ?c \<or> (c \<in> set (bs_codes cs) \<and> bc_hash c \<noteq> hashBackupCode sha code)" for c
  proof -
    have "bs_codes cs' = map (\<lambda>s. if bc_hash s = hashBackupCode sha code then ?c else s) (bs_codes cs)"
      using list_update_key [OF assms(1) accepted(1), of ?c] accepted(2) by (simp add: cs')
    moreover have "bs_codes cs ! i \<in> set (bs_codes cs)" using accepted(1) by simp
    ultimately show ?thesis using accepted(2) by auto
  qed
  have "\<not> fst (verifyBackupCode sha m m' cs' other)"
    if "normalizeBackupCode other = normalizeBackupCode code" for other
  proof -
    have "hashBackupCode sha other = hashBackupCode sha code"
      using that by (simp add: hashBackupCode_def)
    then show ?thesis unfolding verify_accepts_iff using members by auto
  qed
  moreover have "fst (verifyBackupCode sha m m' cs' other) = fst (verifyBackupCode sha m m' cs other)"
    if "hashBackupCode sha other \<noteq> hashBackupCode sha code" for other
  proof -
    have "c \<in> set (bs_codes cs') \<longleftrightarrow> c \<in> set (bs_codes cs)" if "bc_hash c = hashBackupCode sha other" for c
      using members [of c] that \<open>hashBackupCode sha other \<noteq> _\<close> accepted(2) by auto
    then show ?thesis unfolding verify_accepts_iff by blast
  qed
  ultimately show ?thesis using count k v by auto
qed

definition two_codes :: backup_code_set where
  "two_codes = createBackupCodeSet id 1 [''1'', ''2''] ''u'' [''AAAA-1111'', ''BBBB-2222'']"

theorem backup_code_single_use_witness:
  "\<exists>cs'. verifyBackupCode id 5 5 two_codes ''aaaa 1111'' = (True, cs', 1)
     \<and> \<not> fst (verifyBackupCode id 6 6 cs' ''AAAA-1111'')
     \<and> fst (verifyBackupCode id 6 6 cs' ''BBBB-2222'') = fst (verifyBackupCode id 6 6 two_codes ''BBBB-2222'')"
proof -
  let ?r = "verifyBackupCode id 5 5 two_codes ''aaaa 1111''"
  have dist: "distinct (map bc_hash (bs_codes two_codes))" by code_simp
  have run: "?r = (True, fst (snd ?r), 1)" by code_simp
  have keys: "normalizeBackupCode ''AAAA-1111'' = normalizeBackupCode ''aaaa 1111''"
      "hashBackupCode id ''BBBB-2222'' \<noteq> hashBackupCode id ''aaaa 1111''" by code_simp+
  show ?thesis
    using run keys backup_code_single_use [OF dist run, of 6 6] by blast
qed

text \<open>
  Codes made from any random bytes have the default format, and each of them is accepted by
  the set made from them, however its letters are capitalised and wherever separators are put,
  while an account with a fresh set has as many codes left as were made.
\<close>

theorem generated_codes_usable:
  fixes sha :: "string \<Rightarrow> string" and now :: int and u :: string
  assumes "length ids = length draws" "code \<in> set (generateBackupCodes draws)"
    and "normalizeBackupCode typed = normalizeBackupCode code"
  defines "cs \<equiv> createBackupCodeSet sha now ids u (generateBackupCodes draws)"
  shows "isValidCodeFormat code default_code_format
    \<and> fst (verifyBackupCode sha n n' cs typed)
    \<and> getRemainingCodesCount (Some cs) = length draws"
proof -
  have len: "length ids = length (generateBackupCodes draws)"
    using assms(1) by (simp add: generateBackupCodes_def)
  note hashes = createBackupCodeSet_hashes [OF len, of sha now u]
  have typed: "hashBackupCode sha typed = hashBackupCode sha code"
    using assms(3) by (simp add: hashBackupCode_def)
  have "hashBackupCode sha code \<in> set (map (hashBackupCode sha) (generateBackupCodes draws))"
    using assms(2) by simp
  then have "hashBackupCode sha code \<in> set (map bc_hash (bs_codes cs))"
    using hashes unfolding cs_def by argo
  then obtain c where "c \<in> set (bs_codes cs)" "bc_hash c = hashBackupCode sha code" by auto
  then have "fst (verifyBackupCode sha n n' cs typed)"
    unfolding verify_accepts_iff typed using hashes unfolding cs_def by blast
  moreover have "length (bs_codes cs) = length draws"
    using map_eq_imp_length_eq [of bc_hash "bs_codes cs" "hashBackupCode sha" "generateBackupCodes draws"] hashes
    by (simp add: cs_def generateBackupCodes_def)
  then have "getRemainingCodesCount (Some cs) = length draws"
    using hashes by (simp add: getRemainingCodesCount_def unused_count_def cs_def filter_True)
  moreover have "isValidCodeFormat code default_code_format"
    using assms(2) code_of_bytes_format by (auto simp: generateBackupCodes_def)
  ultimately show ?thesis by blast
qed

theorem generated_codes_usable_witness:
  "''0A0B-0C0D'' \<in> set (generateBackupCodes [(10, 11, 12, 13)])
   \<and> fst (verifyBackupCode id 2 2 (createBackupCodeSet id 1 [''i''] ''u''
        (generateBackupCodes [(10, 11, 12, 13)])) ''0a0b 0c0d'')"
proof -
  have gen: "''0A0B-0C0D'' \<in> set (generateBackupCodes [(10, 11, 12, 13)])" by code_simp
  have norm: "normalizeBackupCode ''0a0b 0c0d'' = normalizeBackupCode ''0A0B-0C0D''" by code_simp
  have "length [''i''] = length [(10 :: 8 word, 11 :: 8 word, 12 :: 8 word, 13 :: 8 word)]" by simp
  from generated_codes_usable [OF this gen norm, of id 2 2 1 "''u''"] gen
  show ?thesis by simp
qed

end
