(* ===== verification/Security.thy ===== *)
theory Security
  imports Prelude
begin

text \<open>
  The security helpers: \<open>src/core/security/index.ts\<close> (comparison, timing, masking, the password
  policy), \<open>password.ts\<close> and \<open>mtls.ts\<close>. SHA-256 and bcrypt are parameters.
\<close>

section \<open>Comparison in constant time\<close>

text \<open>\<open>padEnd\<close> with NUL, \<open>Buffer.from(_, 'utf-8')\<close> on code units below 256, and \<open>timingSafeEqual\<close>,
  which throws on different lengths.\<close>

definition pad_end :: "nat \<Rightarrow> string \<Rightarrow> string" where
  "pad_end n s = s @ replicate (n - length s) (char_of (0 :: nat))"

definition utf8_char :: "char \<Rightarrow> nat list" where
  "utf8_char c = (let n = of_char c in if n < 128 then [n] else [192 + n div 64, 128 + n mod 64])"

definition utf8 :: "string \<Rightarrow> nat list" where
  "utf8 s = concat (map utf8_char s)"

definition timingSafeEqual :: "nat list \<Rightarrow> nat list \<Rightarrow> bool result" where
  "timingSafeEqual a b =
     (if length a \<noteq> length b then Inl (Error ''Input buffers must have the same byte length'')
      else Inr (a = b))"

definition constantTimeCompare :: "string \<Rightarrow> string \<Rightarrow> bool" where
  "constantTimeCompare a b =
     (let n = max (length a) (length b)
      in case timingSafeEqual (utf8 (pad_end n a)) (utf8 (pad_end n b)) of
           Inl e \<Rightarrow> False
         | Inr r \<Rightarrow> r)"

text \<open>
  \<open>timingSafeVerify\<close> and \<open>timingSafeQuery\<close>: the wrapped call's outcome, whether it returned or
  threw, is passed on after a sleep that fills up the target time. The result is paired with the
  time the call took in all, in milliseconds.
\<close>

definition sleep_time :: "int \<Rightarrow> int \<Rightarrow> int" where
  "sleep_time elapsed target = (if elapsed < target then target - elapsed else 0)"

definition timingSafeVerify :: "int \<Rightarrow> int \<Rightarrow> bool result \<Rightarrow> bool result \<times> int" where
  "timingSafeVerify targetTimeMs elapsed outcome =
     (case outcome of
        Inr result \<Rightarrow> (Inr result, elapsed + sleep_time elapsed targetTimeMs)
      | Inl e \<Rightarrow> (Inl e, elapsed + sleep_time elapsed targetTimeMs))"

definition timingSafeQuery :: "int \<Rightarrow> int \<Rightarrow> 'a option result \<Rightarrow> 'a option result \<times> int" where
  "timingSafeQuery minimumTimeMs elapsed outcome =
     (case outcome of
        Inr result \<Rightarrow> (Inr result, elapsed + sleep_time elapsed minimumTimeMs)
      | Inl e \<Rightarrow> (Inl e, elapsed + sleep_time elapsed minimumTimeMs))"

definition timingSafeError :: "string \<Rightarrow> string" where
  "timingSafeError errorType = ''Invalid credentials''"

section \<open>Addresses\<close>

text \<open>\<open>s.split(c)\<close> for a separator of one character.\<close>

fun js_split :: "char \<Rightarrow> string \<Rightarrow> string list" where
  "js_split c [] = [[]]"
| "js_split c (x # s) = (if x = c then [] # js_split c s
     else (case js_split c s of [] \<Rightarrow> [[x]] | p # ps \<Rightarrow> (x # p) # ps))"

definition hashIp :: "(string \<Rightarrow> string) \<Rightarrow> string \<Rightarrow> string option \<Rightarrow> string" where
  "hashIp sha256 ip salt =
     (let data = (if truthy salt then ip @ '':'' @ the salt else ip) in take 16 (sha256 data))"

definition maskIp :: "string \<Rightarrow> string" where
  "maskIp ip =
     (if CHR '':'' \<in> set ip then
        (let parts = js_split (CHR '':'') ip
         in if length parts \<ge> 2 then parts ! 0 @ '':'' @ parts ! 1 @ '':*:*:*:*:*:*''
            else ''*:*:*:*:*:*:*:*'')
      else
        (let parts = js_split (CHR ''.'') ip
         in if length parts = 4 then parts ! 0 @ ''.'' @ parts ! 1 @ ''.*.*'' else ''*.*.*.*''))"

section \<open>The password policy\<close>

record password_policy =
  pp_minLength :: int
  pp_requireUppercase :: bool
  pp_requireLowercase :: bool
  pp_requireNumbers :: bool
  pp_requireSpecialChars :: bool

text \<open>The class \<open>[!@#$%^&*()_+\-=[\]{};':"\\|,.<>/?]\<close>.\<close>

definition special_chars :: string where
  "special_chars = ''!@#$%^&*()_+-=[]{};:|,.<>/?'' @ [CHR 0x27, CHR 0x22, CHR 0x5C]"

definition is_special :: "char \<Rightarrow> bool" where
  "is_special c = (c \<in> set special_chars)"

definition validatePassword :: "string \<Rightarrow> password_policy \<Rightarrow> bool \<times> string list" where
  "validatePassword password policy =
     (let errors =
        (if int (length password) < pp_minLength policy
         then [''Password must be at least '' @ show_int (pp_minLength policy) @ '' characters''] else [])
        @ (if pp_requireUppercase policy \<and> \<not> list_ex is_upper password
           then [''Password must contain at least one uppercase letter''] else [])
        @ (if pp_requireLowercase policy \<and> \<not> list_ex is_lower password
           then [''Password must contain at least one lowercase letter''] else [])
        @ (if pp_requireNumbers policy \<and> \<not> list_ex is_digit password
           then [''Password must contain at least one number''] else [])
        @ (if pp_requireSpecialChars policy \<and> \<not> list_ex is_special password
           then [''Password must contain at least one special character''] else [])
      in (errors = [], errors))"

section \<open>Timing measurements\<close>

text \<open>\<open>TimingMetrics\<close> without its statistics, which are floating-point: the last 1000 measurements.\<close>

definition tm_record :: "int \<Rightarrow> int list \<Rightarrow> int list" where
  "tm_record durationMs measurements =
     (let m = measurements @ [durationMs] in if length m > 1000 then tl m else m)"

definition tm_reset :: "int list \<Rightarrow> int list" where
  "tm_reset measurements = []"

section \<open>Password hashes\<close>

definition hashPassword :: "(string \<Rightarrow> int \<Rightarrow> string) \<Rightarrow> string \<Rightarrow> int option \<Rightarrow> string result" where
  "hashPassword bcrypt_hash password rounds =
     (let r = nullish rounds 12
      in if r < 4 \<or> r > 31 then Inl (Error ''bcrypt rounds must be between 4 and 31'')
         else Inr (bcrypt_hash password r))"

definition verifyPassword :: "(string \<Rightarrow> string \<Rightarrow> bool) \<Rightarrow> string \<Rightarrow> string \<Rightarrow> bool" where
  "verifyPassword bcrypt_compare password hash = bcrypt_compare password hash"

text \<open>\<open>parseInt\<close> on decimal digits.\<close>

definition digit_value :: "char \<Rightarrow> int" where
  "digit_value c = int (of_char c) - 48"

definition parse_digits :: "string \<Rightarrow> int" where
  "parse_digits s = foldl (\<lambda>n c. 10 * n + digit_value c) 0 s"

text \<open>The rounds \<open>^\$2[aby]?\$(\d+)\$\<close> finds.\<close>

definition after_version :: "string \<Rightarrow> string" where
  "after_version s = (case s of [] \<Rightarrow> [] | c # t \<Rightarrow> if c \<in> set ''aby'' then t else s)"

definition getHashRounds :: "string \<Rightarrow> int option" where
  "getHashRounds hash =
     (if \<not> startsWith hash ''$2'' then None
      else case after_version (drop 2 hash) of
             [] \<Rightarrow> None
           | d # rest \<Rightarrow>
               (let digits = takeWhile is_digit rest
                in if d = CHR ''$'' \<and> digits \<noteq> [] \<and> startsWith (dropWhile is_digit rest) ''$''
                   then Some (parse_digits digits) else None))"

definition needsRehash :: "string \<Rightarrow> int \<Rightarrow> bool" where
  "needsRehash hash desiredRounds =
     (case getHashRounds hash of
        None \<Rightarrow> True
      | Some currentRounds \<Rightarrow> currentRounds < desiredRounds)"

definition password_charset :: "bool \<Rightarrow> bool \<Rightarrow> bool \<Rightarrow> bool \<Rightarrow> string" where
  "password_charset upper lower numbers special =
     (let charset =
        (if upper then ''ABCDEFGHIJKLMNOPQRSTUVWXYZ'' else [])
        @ (if lower then ''abcdefghijklmnopqrstuvwxyz'' else [])
        @ (if numbers then ''0123456789'' else [])
        @ (if special then ''!@#$%^&*()_+-=[]{}|;:,.<>?'' else [])
      in if charset = [] then ''abcdefghijklmnopqrstuvwxyz0123456789'' else charset)"

text \<open>\<open>draw i\<close> is the \<open>i\<close>-th value of \<open>randomInt(charset.length)\<close>.\<close>

definition generateSecurePassword ::
  "(nat \<Rightarrow> nat) \<Rightarrow> nat \<Rightarrow> bool \<Rightarrow> bool \<Rightarrow> bool \<Rightarrow> bool \<Rightarrow> string" where
  "generateSecurePassword draw len upper lower numbers special =
     map (\<lambda>i. password_charset upper lower numbers special ! draw i) [0..<len]"

section \<open>Forwarded client certificates\<close>

record certificate_headers =
  ch_clientCert :: "string option"
  ch_clientSubject :: "string option"
  ch_clientVerify :: "string option"
  ch_clientIssuer :: "string option"

record certificate_info =
  ci_isValid :: bool
  ci_fingerprint :: "string option"
  ci_subject :: "string option"
  ci_issuer :: "string option"
  ci_validFrom :: "int option"
  ci_validTo :: "int option"

text \<open>
  \<open>decodeURIComponent\<close> on code units below 256: escapes of one byte, and of the two bytes of a
  character below U+0100; any other escape is taken as malformed.
\<close>

definition hex_value :: "char \<Rightarrow> nat option" where
  "hex_value c = (let n = of_char c :: nat in
     if 48 \<le> n \<and> n \<le> 57 then Some (n - 48)
     else if 65 \<le> n \<and> n \<le> 70 then Some (n - 55)
     else if 97 \<le> n \<and> n \<le> 102 then Some (n - 87) else None)"

definition escape_value :: "char \<Rightarrow> char \<Rightarrow> nat option" where
  "escape_value h l = (case (hex_value h, hex_value l) of
     (Some a, Some b) \<Rightarrow> Some (16 * a + b) | _ \<Rightarrow> None)"

fun decodeURIComponent :: "string \<Rightarrow> string result" where
  "decodeURIComponent [] = Inr []"
| "decodeURIComponent (c # s) =
     (if c \<noteq> CHR ''%'' then map_sum id (\<lambda>t. c # t) (decodeURIComponent s)
      else case s of
        h # l # s1 \<Rightarrow>
          (case escape_value h l of
             None \<Rightarrow> Inl (Error ''URI malformed'')
           | Some n \<Rightarrow>
               if n < 128 then map_sum id (\<lambda>t. char_of n # t) (decodeURIComponent s1)
               else if n = 194 \<or> n = 195 then
                 (case s1 of
                    p # h' # l' # s2 \<Rightarrow>
                      (case escape_value h' l' of
                         Some n' \<Rightarrow>
                           if p = CHR ''%'' \<and> 128 \<le> n' \<and> n' < 192
                           then map_sum id (\<lambda>t. char_of (64 * (n - 192) + (n' - 128)) # t)
                                  (decodeURIComponent s2)
                           else Inl (Error ''URI malformed'')
                       | None \<Rightarrow> Inl (Error ''URI malformed''))
                  | _ \<Rightarrow> Inl (Error ''URI malformed''))
               else Inl (Error ''URI malformed''))
      | _ \<Rightarrow> Inl (Error ''URI malformed''))"

text \<open>\<open>replace(/\s+/g, '\n')\<close>, and the two replacements of a marker whose blank is any space.\<close>

fun collapse_spaces :: "string \<Rightarrow> string" where
  "collapse_spaces [] = []"
| "collapse_spaces (c # s) =
     (if is_space c
      then char_of (10 :: nat) # (case collapse_spaces s of [] \<Rightarrow> []
             | d # t \<Rightarrow> if (case s of [] \<Rightarrow> False | e # _ \<Rightarrow> is_space e) then t else d # t)
      else c # collapse_spaces s)"

fun replace_marker :: "string \<Rightarrow> string \<Rightarrow> string" where
  "replace_marker word [] = []"
| "replace_marker word (c # s) =
     (let pre = ''-----'' @ word; rest = drop (length pre) (c # s)
      in if startsWith (c # s) pre \<and> rest \<noteq> [] \<and> is_space (hd rest)
            \<and> startsWith (tl rest) ''CERTIFICATE-----''
         then pre @ '' CERTIFICATE-----'' @ drop (length ''CERTIFICATE-----'') (tl rest)
         else c # replace_marker word s)"

definition clean_certificate :: "string \<Rightarrow> string" where
  "clean_certificate cert = replace_marker ''END'' (replace_marker ''BEGIN'' (collapse_spaces cert))"

definition invalid_certificate :: certificate_info where
  "invalid_certificate =
     \<lparr>ci_isValid = False, ci_fingerprint = None, ci_subject = None, ci_issuer = None,
      ci_validFrom = None, ci_validTo = None\<rparr>"

definition extractCertificate ::
  "(string \<Rightarrow> string) \<Rightarrow> int \<Rightarrow> int \<Rightarrow> certificate_headers \<Rightarrow> string set option
     \<Rightarrow> certificate_info result" where
  "extractCertificate sha256 now now' headers validFingerprints =
     (if truthy (ch_clientVerify headers) \<and> ch_clientVerify headers \<noteq> Some ''SUCCESS''
         \<and> ch_clientVerify headers \<noteq> Some ''NONE'' then Inr invalid_certificate
      else if \<not> truthy (ch_clientCert headers) \<and> \<not> truthy (ch_clientSubject headers)
      then Inr invalid_certificate
      else
        case (if truthy (ch_clientCert headers)
              then map_sum id (\<lambda>c. ''sha256:'' @ sha256 (clean_certificate c))
                     (decodeURIComponent (the (ch_clientCert headers)))
              else Inr []) of
          Inl e \<Rightarrow> Inl e
        | Inr fingerprint \<Rightarrow> Inr
            \<lparr>ci_isValid = (case validFingerprints of None \<Rightarrow> True | Some fs \<Rightarrow> fingerprint \<in> fs),
             ci_fingerprint = Some fingerprint,
             ci_subject = Some (str_or (ch_clientSubject headers) ''Unknown''),
             ci_issuer = Some (str_or (ch_clientIssuer headers) ''Unknown''),
             ci_validFrom = Some now,
             ci_validTo = Some (now' + 365 * 24 * 60 * 60 * 1000)\<rparr>)"

definition getCertificateFingerprint ::
  "(string \<Rightarrow> string) \<Rightarrow> int \<Rightarrow> int \<Rightarrow> certificate_headers \<Rightarrow> string set option
     \<Rightarrow> string option result" where
  "getCertificateFingerprint sha256 now now' headers validFingerprints =
     (case extractCertificate sha256 now now' headers validFingerprints of
        Inl e \<Rightarrow> Inl e
      | Inr certInfo \<Rightarrow>
          Inr (if ci_isValid certInfo \<and> truthy (ci_fingerprint certInfo)
               then ci_fingerprint certInfo else None))"

section \<open>Lemmas\<close>

lemma div_mod_64: "m div 64 = n div 64 \<and> m mod 64 = n mod 64 \<longleftrightarrow> m = (n :: nat)"
  by (metis div_mult_mod_eq)

lemma utf8_char_prefix:
  "utf8_char c @ xs = utf8_char d @ ys \<longleftrightarrow> c = d \<and> xs = ys"
proof -
  have same: "c = d \<longleftrightarrow> (of_char c :: nat) = of_char d" by simp
  show ?thesis
    unfolding same utf8_char_def Let_def
    using div_mod_64 [of "of_char c" "of_char d"]
    by (cases "(of_char c :: nat) < 128"; cases "(of_char d :: nat) < 128") (simp_all del: of_char_eq_iff, linarith+)
qed

lemma utf8_char_not_Nil: "utf8_char c \<noteq> []"
  by (simp add: utf8_char_def Let_def)

lemma utf8_inj: "utf8 s = utf8 t \<longleftrightarrow> s = t"
proof (induction s arbitrary: t)
  case Nil
  then show ?case by (cases t) (auto simp: utf8_def utf8_char_not_Nil)
next
  case (Cons c s)
  show ?case
  proof (cases t)
    case Nil
    then show ?thesis by (simp add: utf8_def utf8_char_not_Nil)
  next
    case (Cons d t')
    then show ?thesis using Cons.IH [of t'] utf8_char_prefix [of c "utf8 s" d "utf8 t'"]
      by (simp add: utf8_def)
  qed
qed

lemma constantTimeCompare_pad:
  "constantTimeCompare a b \<longleftrightarrow> pad_end (max (length a) (length b)) a = pad_end (max (length a) (length b)) b"
  by (auto simp: constantTimeCompare_def timingSafeEqual_def utf8_inj Let_def)

lemma pad_end_takeWhile:
  "\<not> has_nul s \<Longrightarrow> takeWhile (\<lambda>c. c \<noteq> char_of (0 :: nat)) (pad_end n s) = s"
  by (subst pad_end_def, subst takeWhile_append2) (auto simp: has_nul_def)

section \<open>Properties\<close>

text \<open>
  On texts without NUL characters the constant-time comparison is equality. (A text and the
  same text with NUL characters after it compare equal.)
\<close>

theorem constantTimeCompare_exact:
  assumes "\<not> has_nul a" "\<not> has_nul b"
  shows "constantTimeCompare a b \<longleftrightarrow> a = b"
proof
  assume "constantTimeCompare a b"
  then have "takeWhile (\<lambda>c. c \<noteq> char_of (0 :: nat)) (pad_end (max (length a) (length b)) a)
      = takeWhile (\<lambda>c. c \<noteq> char_of (0 :: nat)) (pad_end (max (length a) (length b)) b)"
    by (simp add: constantTimeCompare_pad)
  then show "a = b" using assms by (simp only: pad_end_takeWhile not_False_eq_True)
qed (simp add: constantTimeCompare_pad)

theorem constantTimeCompare_exact_witness: "\<not> constantTimeCompare ''abc'' ''abcd''"
proof -
  have "\<not> has_nul ''abc''" "\<not> has_nul ''abcd''" by code_simp+
  then show ?thesis using constantTimeCompare_exact [of "''abc''" "''abcd''"] by simp
qed

lemma constantTimeCompare_nul: "constantTimeCompare ''abc'' (''abc'' @ [char_of (0 :: nat)])"
  by code_simp

text \<open>
  The password policy accepts exactly the passwords that meet every requirement it has, and
  reports one message per requirement that fails.
\<close>

theorem validatePassword_exact:
  "(fst (validatePassword pw pol) \<longleftrightarrow>
      pp_minLength pol \<le> int (length pw)
      \<and> (pp_requireUppercase pol \<longrightarrow> (\<exists>c \<in> set pw. is_upper c))
      \<and> (pp_requireLowercase pol \<longrightarrow> (\<exists>c \<in> set pw. is_lower c))
      \<and> (pp_requireNumbers pol \<longrightarrow> (\<exists>c \<in> set pw. is_digit c))
      \<and> (pp_requireSpecialChars pol \<longrightarrow> (\<exists>c \<in> set pw. is_special c)))
   \<and> length (snd (validatePassword pw pol)) =
      of_bool (int (length pw) < pp_minLength pol)
      + of_bool (pp_requireUppercase pol \<and> \<not> (\<exists>c \<in> set pw. is_upper c))
      + of_bool (pp_requireLowercase pol \<and> \<not> (\<exists>c \<in> set pw. is_lower c))
      + of_bool (pp_requireNumbers pol \<and> \<not> (\<exists>c \<in> set pw. is_digit c))
      + of_bool (pp_requireSpecialChars pol \<and> \<not> (\<exists>c \<in> set pw. is_special c))"
  by (simp add: validatePassword_def Let_def list_ex_iff not_less)

theorem validatePassword_exact_witness:
  "fst (validatePassword ''Abcdefgh1234!'' \<lparr>pp_minLength = 12, pp_requireUppercase = True,
      pp_requireLowercase = True, pp_requireNumbers = True, pp_requireSpecialChars = True\<rparr>)"
proof -
  have "\<exists>c \<in> set ''Abcdefgh1234!''. is_upper c" "\<exists>c \<in> set ''Abcdefgh1234!''. is_lower c"
      "\<exists>c \<in> set ''Abcdefgh1234!''. is_digit c" "\<exists>c \<in> set ''Abcdefgh1234!''. is_special c"
      "12 \<le> int (length ''Abcdefgh1234!'')"
    by code_simp+
  then show ?thesis by (subst validatePassword_exact [THEN conjunct1]) simp
qed

text \<open>
  With a list of pinned fingerprints that does not hold the empty text, a request is accepted
  only with a forwarded certificate whose SHA-256 fingerprint is on the list; the subject header
  alone, or a failed verification, never passes.
\<close>

theorem pinned_certificate_required:
  assumes "extractCertificate sha256 now now' headers (Some pinned) = Inr info" "ci_isValid info"
    and "[] \<notin> pinned"
  shows "\<exists>cert clean. ch_clientCert headers = Some cert \<and> cert \<noteq> []
    \<and> decodeURIComponent cert = Inr clean
    \<and> ci_fingerprint info = Some (''sha256:'' @ sha256 (clean_certificate clean))
    \<and> ''sha256:'' @ sha256 (clean_certificate clean) \<in> pinned
    \<and> (\<not> truthy (ch_clientVerify headers) \<or> ch_clientVerify headers \<in> {Some ''SUCCESS'', Some ''NONE''})"
proof (cases "truthy (ch_clientCert headers)")
  case True
  then obtain cert where cert: "ch_clientCert headers = Some cert" "cert \<noteq> []"
    by (auto simp: truthy_iff)
  with assms show ?thesis
    by (cases "decodeURIComponent cert")
      (auto simp: extractCertificate_def invalid_certificate_def split: if_splits)
next
  case False
  then show ?thesis
    using assms by (auto simp: extractCertificate_def invalid_certificate_def split: if_splits)
qed

theorem pinned_certificate_required_witness:
  "\<exists>info. extractCertificate id 1 1 \<lparr>ch_clientCert = Some ''A'', ch_clientSubject = None,
       ch_clientVerify = Some ''SUCCESS'', ch_clientIssuer = None\<rparr> (Some {''sha256:A''}) = Inr info
     \<and> ci_fingerprint info = Some ''sha256:A''"
proof -
  let ?h = "\<lparr>ch_clientCert = Some ''A'', ch_clientSubject = None,
       ch_clientVerify = Some ''SUCCESS'', ch_clientIssuer = None\<rparr>"
  let ?info = "\<lparr>ci_isValid = True, ci_fingerprint = Some ''sha256:A'', ci_subject = Some ''Unknown'',
       ci_issuer = Some ''Unknown'', ci_validFrom = Some 1, ci_validTo = Some (1 + 31536000000)\<rparr>"
  have clean: "clean_certificate ''A'' = ''A''" by code_simp
  have run: "extractCertificate id 1 1 ?h (Some {''sha256:A''}) = Inr ?info"
    by (simp add: extractCertificate_def clean)
  have "\<exists>cert clean. ch_clientCert ?h = Some cert \<and> cert \<noteq> [] \<and> decodeURIComponent cert = Inr clean
    \<and> ci_fingerprint ?info = Some (''sha256:'' @ id (clean_certificate clean))
    \<and> ''sha256:'' @ id (clean_certificate clean) \<in> {''sha256:A''}
    \<and> (\<not> truthy (ch_clientVerify ?h) \<or> ch_clientVerify ?h \<in> {Some ''SUCCESS'', Some ''NONE''})"
    by (rule pinned_certificate_required [OF run]) simp_all
  then show ?thesis using run by auto
qed

end
