(* ===== verification/Totp.thy ===== *)
theory Totp
  imports Auth_Types Security
begin

text \<open>
  Time-based one-time passwords: the otplib shim \<open>src/totp/otplib-compat.ts\<close>, the helpers of
  \<open>src/totp/compat.ts\<close> and the service \<open>src/core/totp/index.ts\<close>.

  otplib is a parameter: \<open>check secret token digits period tolerance epoch\<close> is its
  \<open>verifySync\<close>, the number of time steps the token is off when it is valid and nothing
  otherwise, or an error it throws; \<open>verify\<close> and \<open>generate\<close> stand for the functions of those names.
  Encryption is in \<open>Totp_Cipher\<close>, secrets and QR codes are in \<open>Totp_Secrets\<close>.
\<close>

section \<open>The shim\<close>

type_synonym otp_check = "string \<Rightarrow> string \<Rightarrow> int \<Rightarrow> int \<Rightarrow> int \<Rightarrow> int \<Rightarrow> int option result"
type_synonym otp_verify = "string \<Rightarrow> string \<Rightarrow> int \<Rightarrow> int \<Rightarrow> int \<Rightarrow> int \<Rightarrow> bool result"
type_synonym otp_generate = "string \<Rightarrow> int \<Rightarrow> int \<Rightarrow> int \<Rightarrow> string"

definition MIN_SECRET_BYTES :: nat where
  "MIN_SECRET_BYTES = 16"

record authenticator_config =
  ac_step :: int
  ac_window :: int
  ac_digits :: int

definition initial_authenticator_config :: authenticator_config where
  "initial_authenticator_config = \<lparr>ac_step = 30, ac_window = 1, ac_digits = 6\<rparr>"

definition base32ByteLength :: "string \<Rightarrow> nat" where
  "base32ByteLength secret =
     (length (rev (dropWhile (\<lambda>c. c = CHR ''='') (rev (remove_spaces secret)))) * 5) div 8"

definition assertSecretMeetsFloor :: "string \<Rightarrow> unit result" where
  "assertSecretMeetsFloor secret =
     (if base32ByteLength secret < MIN_SECRET_BYTES
      then Inl (Error (''TOTP secret is below the 16-byte (128-bit) security floor and can no longer be used; '' @
                       ''re-enroll this credential with a freshly generated secret.''))
      else Inr ())"

definition epochTolerance :: "authenticator_config \<Rightarrow> int" where
  "epochTolerance cfg = ac_window cfg * ac_step cfg"

definition configureAuthenticator ::
  "int option \<Rightarrow> int option \<Rightarrow> int option \<Rightarrow> authenticator_config \<Rightarrow> authenticator_config" where
  "configureAuthenticator step window digits cfg =
     \<lparr>ac_step = nullish step (ac_step cfg), ac_window = nullish window (ac_window cfg),
      ac_digits = nullish digits (ac_digits cfg)\<rparr>"

definition generateAuthenticatorToken ::
  "otp_generate \<Rightarrow> authenticator_config \<Rightarrow> string \<Rightarrow> int \<Rightarrow> string result" where
  "generateAuthenticatorToken generate cfg secret epoch =
     (case assertSecretMeetsFloor secret of
        Inl e \<Rightarrow> Inl e
      | Inr _ \<Rightarrow> Inr (generate secret (ac_digits cfg) (ac_step cfg) epoch))"

definition verifyAuthenticatorToken ::
  "otp_verify \<Rightarrow> authenticator_config \<Rightarrow> string \<Rightarrow> string \<Rightarrow> int \<Rightarrow> bool result" where
  "verifyAuthenticatorToken verify cfg secret token epoch =
     (case assertSecretMeetsFloor secret of
        Inl e \<Rightarrow> Inl e
      | Inr _ \<Rightarrow> verify secret token (ac_digits cfg) (ac_step cfg) (epochTolerance cfg) epoch)"

definition getAuthenticatorStep :: "authenticator_config \<Rightarrow> int" where
  "getAuthenticatorStep cfg = ac_step cfg"

definition getAuthenticatorCheckDelta ::
  "otp_check \<Rightarrow> authenticator_config \<Rightarrow> string \<Rightarrow> string \<Rightarrow> int \<Rightarrow> int option result" where
  "getAuthenticatorCheckDelta check cfg secret token epoch =
     (case assertSecretMeetsFloor secret of
        Inl e \<Rightarrow> Inl e
      | Inr _ \<Rightarrow> check secret token (ac_digits cfg) (ac_step cfg) (epochTolerance cfg) epoch)"

section \<open>The service\<close>

definition DUMMY_SECRET :: string where
  "DUMMY_SECRET = ''JBSWY3DPEHPK3PXPJBSWY3DPEHPK3PXP''"

text \<open>\<open>Math.floor(nowMs / 1000 / stepSeconds)\<close>.\<close>

definition currentStepFor :: "authenticator_config \<Rightarrow> int \<Rightarrow> int" where
  "currentStepFor cfg nowMs = nowMs div (1000 * getAuthenticatorStep cfg)"

definition totp_verifyToken ::
  "otp_verify \<Rightarrow> authenticator_config \<Rightarrow> int \<Rightarrow> int \<Rightarrow> totp_secret option \<Rightarrow> string \<Rightarrow> bool result" where
  "totp_verifyToken verify cfg elapsed epoch secretOrNull token =
     (let cleanToken = remove_spaces token
      in fst (timingSafeVerify 150 elapsed
        (case secretOrNull of
           None \<Rightarrow>
             (case verifyAuthenticatorToken verify cfg DUMMY_SECRET cleanToken epoch of
                Inl e \<Rightarrow> Inl e | Inr _ \<Rightarrow> Inr False)
         | Some s \<Rightarrow> verifyAuthenticatorToken verify cfg (tot_secret s) cleanToken epoch)))"

text \<open>
  \<open>verifyTokenWithStep\<close>. \<open>epoch\<close> is otplib's clock in seconds and \<open>nowMs\<close> the service's own in
  milliseconds: two readings when no test clock is installed. The result is the pair of
  \<open>valid\<close> and \<open>step\<close>.
\<close>

definition matched_step ::
  "otp_check \<Rightarrow> authenticator_config \<Rightarrow> int \<Rightarrow> int \<Rightarrow> totp_secret option \<Rightarrow> string \<Rightarrow> int option
     \<Rightarrow> int option result" where
  "matched_step check cfg epoch nowMs secretOrNull cleanToken lastUsedStep =
     (case secretOrNull of
        None \<Rightarrow>
          (case getAuthenticatorCheckDelta check cfg DUMMY_SECRET cleanToken epoch of
             Inl e \<Rightarrow> Inl e | Inr _ \<Rightarrow> Inr None)
      | Some s \<Rightarrow>
          (case getAuthenticatorCheckDelta check cfg (tot_secret s) cleanToken epoch of
             Inl e \<Rightarrow> Inl e
           | Inr None \<Rightarrow> Inr None
           | Inr (Some delta) \<Rightarrow>
               let step = currentStepFor cfg nowMs + delta
               in if (case lastUsedStep of None \<Rightarrow> False | Some l \<Rightarrow> step \<le> l) then Inr None
                  else Inr (Some step)))"

definition totp_verifyTokenWithStep ::
  "otp_check \<Rightarrow> authenticator_config \<Rightarrow> int \<Rightarrow> int \<Rightarrow> int \<Rightarrow> totp_secret option \<Rightarrow> string \<Rightarrow> int option
     \<Rightarrow> (bool \<times> int option) result" where
  "totp_verifyTokenWithStep check cfg elapsed epoch nowMs secretOrNull token lastUsedStep =
     (let matched = matched_step check cfg epoch nowMs secretOrNull (remove_spaces token) lastUsedStep;
          valid = fst (timingSafeVerify 150 elapsed (map_sum id (\<lambda>m. m \<noteq> None) matched))
      in case valid of
           Inl e \<Rightarrow> Inl e
         | Inr v \<Rightarrow> Inr (if v then (True, case matched of Inr m \<Rightarrow> m | Inl _ \<Rightarrow> None) else (False, None)))"

definition totp_generateToken ::
  "otp_generate \<Rightarrow> authenticator_config \<Rightarrow> int \<Rightarrow> totp_secret \<Rightarrow> string result" where
  "totp_generateToken generate cfg epoch secret =
     generateAuthenticatorToken generate cfg (tot_secret secret) epoch"

text \<open>
  \<open>bindTrustedTOTPService\<close>: what the code can see of the value it is given, and the service it
  binds the captured methods to.
\<close>

record totp_service =
  sv_encryptionKey :: string
  sv_issuer :: string

record service_value =
  val_isObject :: bool
  val_genuine :: "totp_service option"
  val_isTOTPServicePrototype :: bool
  val_ownNames :: "string list"

definition intrinsic_names :: "string list" where
  "intrinsic_names =
     [''generateSecret'', ''generateQRCode'', ''encrypt'', ''decrypt'', ''verifyTokenWithStep'']"

definition bindTrustedTOTPService :: "service_value \<Rightarrow> totp_service result" where
  "bindTrustedTOTPService v =
     (if \<not> val_isObject v \<or> val_genuine v = None \<or> \<not> val_isTOTPServicePrototype v
      then Inl (Error (''Authority coordinators require a TOTPService from createTOTPService(); '' @
                       ''custom or wrapped TOTP implementations are refused (RS6)''))
      else case List.find (\<lambda>n. n \<in> set (val_ownNames v)) intrinsic_names of
             Some n \<Rightarrow> Inl (Error (''Authority coordinators refuse a TOTPService whose '' @ n @
                                   '' is overridden (RS6)''))
           | None \<Rightarrow> Inr (the (val_genuine v)))"

section \<open>The helpers of compat.ts\<close>

definition compat_generateTOTPSecret :: "string result \<Rightarrow> string result" where
  "compat_generateTOTPSecret generated =
     (case generated of
        Inr secret \<Rightarrow> Inr secret
      | Inl e \<Rightarrow> Inl (Error ''Failed to generate secure TOTP secret''))"

text \<open>The pattern \<open>^[A-Z2-7]+=*$\<close> without regard to case.\<close>

definition is_base32_char :: "char \<Rightarrow> bool" where
  "is_base32_char c = (is_upper c \<or> is_lower c \<or> (let n = of_char c :: nat in 50 \<le> n \<and> n \<le> 55))"

definition is_base32_secret :: "string \<Rightarrow> bool" where
  "is_base32_secret s \<longleftrightarrow>
     takeWhile is_base32_char s \<noteq> [] \<and> list_all (\<lambda>c. c = CHR ''='') (dropWhile is_base32_char s)"

text \<open>\<open>encodeURIComponent\<close>: the unreserved marks stand for themselves, every other byte is escaped.\<close>

definition is_unreserved :: "char \<Rightarrow> bool" where
  "is_unreserved c = (is_upper c \<or> is_lower c \<or> is_digit c \<or> c \<in> set ''-_.!~*()'' \<or> c = CHR 0x27)"

definition escape_byte :: "nat \<Rightarrow> string" where
  "escape_byte n = [CHR ''%'', ''0123456789ABCDEF'' ! (n div 16), ''0123456789ABCDEF'' ! (n mod 16)]"

definition encode_char :: "char \<Rightarrow> string" where
  "encode_char c = (if is_unreserved c then [c] else concat (map escape_byte (utf8_char c)))"

definition encodeURIComponent :: "string \<Rightarrow> string" where
  "encodeURIComponent s = concat (map encode_char s)"

definition generateTOTPUri :: "string \<Rightarrow> string \<Rightarrow> string \<Rightarrow> string result" where
  "generateTOTPUri secret issuer label =
     (if secret = [] \<or> issuer = [] \<or> label = []
      then Inl (Error ''Secret, issuer, and label are required'')
      else if \<not> is_base32_secret secret then Inl (Error ''Invalid base32 secret'')
      else Inr (''otpauth://totp/'' @ encodeURIComponent label @ ''?secret='' @ secret @ ''&issuer=''
                @ encodeURIComponent issuer @ ''&algorithm=SHA1&digits=6&period=30''))"

definition temp_charset :: string where
  "temp_charset = ''ABCDEFGHJKLMNPQRSTUVWXYZabcdefghjkmnpqrstuvwxyz23456789''"

definition has_all_classes :: "string \<Rightarrow> bool" where
  "has_all_classes pw \<longleftrightarrow> list_ex is_upper pw \<and> list_ex is_lower pw \<and> list_ex is_digit pw"

text \<open>
  \<open>generateTempPassword\<close> starts again until its password has all three classes, which may never
  happen; \<open>draw i\<close> is the \<open>i\<close>-th value of \<open>randomInt\<close> and \<open>pos\<close> the number of values drawn.
\<close>

definition temp_block :: "(nat \<Rightarrow> nat) \<Rightarrow> nat \<Rightarrow> nat \<Rightarrow> string" where
  "temp_block draw pos len = map (\<lambda>i. temp_charset ! draw (pos + i)) [0..<len]"

partial_function (option) temp_password_loop :: "(nat \<Rightarrow> nat) \<Rightarrow> nat \<Rightarrow> nat \<Rightarrow> string option" where
  "temp_password_loop draw pos len =
     (let password = temp_block draw pos len
      in if has_all_classes password then Some password
         else temp_password_loop draw (pos + len) len)"

definition generateTempPassword :: "(nat \<Rightarrow> nat) \<Rightarrow> int \<Rightarrow> string option result" where
  "generateTempPassword draw len =
     (if len < 8 then Inl (Error ''Password must be at least 8 characters'')
      else Inr (temp_password_loop draw 0 (nat len)))"

definition compat_generateTOTPToken ::
  "otp_generate \<Rightarrow> authenticator_config \<Rightarrow> int \<Rightarrow> string \<Rightarrow> string result" where
  "compat_generateTOTPToken generate cfg epoch secret =
     (if secret = [] \<or> \<not> is_base32_secret secret then Inl (Error ''Invalid base32 secret'')
      else generateAuthenticatorToken generate cfg secret epoch)"

definition getTOTPTimeRemaining :: "authenticator_config \<Rightarrow> int \<Rightarrow> int" where
  "getTOTPTimeRemaining cfg nowMs =
     (let step = getAuthenticatorStep cfg; now = nowMs div 1000 in step - (now mod step))"

section \<open>Lemmas\<close>

lemma verifyTokenWithStep_matched:
  "totp_verifyTokenWithStep check cfg elapsed epoch nowMs s token used =
     (case matched_step check cfg epoch nowMs s (remove_spaces token) used of
        Inl e \<Rightarrow> Inl e
      | Inr m \<Rightarrow> Inr (m \<noteq> None, m))"
  by (auto simp: totp_verifyTokenWithStep_def timingSafeVerify_def Let_def split: sum.splits)

lemma matched_step_SomeD:
  assumes "matched_step check cfg epoch nowMs s token used = Inr (Some step)"
  obtains secret delta where "s = Some secret" "MIN_SECRET_BYTES \<le> base32ByteLength (tot_secret secret)"
    "check (tot_secret secret) token (ac_digits cfg) (ac_step cfg) (epochTolerance cfg) epoch
       = Inr (Some delta)"
    "step = currentStepFor cfg nowMs + delta" "\<forall>l. used = Some l \<longrightarrow> l < step"
  using assms
  by (auto simp: matched_step_def getAuthenticatorCheckDelta_def assertSecretMeetsFloor_def Let_def
      split: option.splits sum.splits if_splits)

text \<open>
  What otplib documents: a valid token is the code of the step its delta names, and the delta
  stays within the tolerance.
\<close>

definition otp_documented :: "(string \<Rightarrow> int \<Rightarrow> string) \<Rightarrow> otp_check \<Rightarrow> bool" where
  "otp_documented code check \<longleftrightarrow>
     (\<forall>secret token digits period tolerance epoch delta.
        check secret token digits period tolerance epoch = Inr (Some delta) \<longrightarrow>
          token = code secret (epoch div period + delta) \<and> \<bar>delta\<bar> * period \<le> tolerance)"

text \<open>A run of logins of one account: each success stores its step, which the next one is given.\<close>

fun login_run ::
  "otp_check \<Rightarrow> authenticator_config \<Rightarrow> totp_secret \<Rightarrow> int option \<Rightarrow> (int \<times> int \<times> string) list \<Rightarrow> int list" where
  "login_run check cfg secret used [] = []"
| "login_run check cfg secret used ((epoch, nowMs, token) # rest) =
     (case totp_verifyTokenWithStep check cfg 0 epoch nowMs (Some secret) token used of
        Inr (True, Some step) \<Rightarrow> step # login_run check cfg secret (Some step) rest
      | _ \<Rightarrow> login_run check cfg secret used rest)"

lemma login_run_increasing:
  "sorted_wrt (<) (login_run check cfg secret used attempts)
   \<and> (\<forall>l. used = Some l \<longrightarrow> (\<forall>s \<in> set (login_run check cfg secret used attempts). l < s))"
proof (induction attempts arbitrary: used)
  case Nil
  then show ?case by simp
next
  case (Cons attempt rest)
  obtain epoch nowMs token where attempt: "attempt = (epoch, nowMs, token)" by (cases attempt)
  let ?m = "matched_step check cfg epoch nowMs (Some secret) (remove_spaces token) used"
  show ?case
  proof (cases "\<exists>step. ?m = Inr (Some step)")
    case False
    then have run: "login_run check cfg secret used (attempt # rest) = login_run check cfg secret used rest"
      by (auto simp: attempt verifyTokenWithStep_matched split: sum.splits)
    show ?thesis unfolding run by (rule Cons.IH)
  next
    case True
    then obtain step where step: "?m = Inr (Some step)" by blast
    then have run: "login_run check cfg secret used (attempt # rest)
        = step # login_run check cfg secret (Some step) rest"
      by (simp add: attempt verifyTokenWithStep_matched)
    have later: "\<forall>l. used = Some l \<longrightarrow> l < step"
      using step by (auto elim: matched_step_SomeD)
    have "sorted_wrt (<) (login_run check cfg secret (Some step) rest)"
        "\<forall>s \<in> set (login_run check cfg secret (Some step) rest). step < s"
      using Cons.IH [of "Some step"] by simp_all
    with later show ?thesis unfolding run by fastforce
  qed
qed

section \<open>Properties\<close>

text \<open>
  C21. A time step is consumed at most once: along any sequence of logins of an account that
  stores the step of each success, the accepted steps strictly increase, whatever the tokens,
  the clocks and otplib's answers, and every step the account used before stays refused.
\<close>

theorem totp_steps_increase:
  "sorted_wrt (<) (login_run check cfg secret used attempts)
   \<and> (used = Some l \<and> step \<in> set (login_run check cfg secret used attempts) \<longrightarrow> l < step)"
  using login_run_increasing [of check cfg secret used attempts] by blast

definition example_secret :: totp_secret where
  "example_secret = \<lparr>tot_handle = ''ada'', tot_email = None, tot_secret = DUMMY_SECRET,
     tot_qrCodeUrl = None, tot_createdAt = 0\<rparr>"

text \<open>A generator whose code is the step, read in a window of one step to either side.\<close>

definition step_code :: "string \<Rightarrow> int \<Rightarrow> string" where
  "step_code secret n = show_int n"

definition step_check :: otp_check where
  "step_check secret token digits period tolerance epoch =
     Inr (List.find (\<lambda>d. token = step_code secret (epoch div period + d))
            (filter (\<lambda>d. \<bar>d\<bar> * period \<le> tolerance) [0, - 1, 1]))"

lemma find_SomeD: "List.find P xs = Some x \<Longrightarrow> P x \<and> x \<in> set xs"
  by (induction xs) (auto split: if_splits)

lemma step_check_documented: "otp_documented step_code step_check"
  unfolding otp_documented_def step_check_def sum.inject
  by (intro allI impI, drule find_SomeD, simp only: set_filter mem_Collect_eq simp_thms)

theorem totp_steps_increase_witness:
  "login_run step_check initial_authenticator_config example_secret (Some 1)
     [(60, 60000, ''2''), (61, 61000, ''2''), (95, 95000, ''3'')] = [2, 3]
   \<and> (1 :: int) < 2"
proof -
  have run: "login_run step_check initial_authenticator_config example_secret (Some 1)
     [(60, 60000, ''2''), (61, 61000, ''2''), (95, 95000, ''3'')] = [2, 3]"
    by code_simp
  show ?thesis
    using run totp_steps_increase [of step_check initial_authenticator_config example_secret "Some 1"
      "[(60, 60000, ''2''), (61, 61000, ''2''), (95, 95000, ''3'')]" 1 2] by simp
qed

text \<open>
  Replay is refused: after a token was accepted and its step stored, presenting the same
  token again, at any later clock reading, fails as long as otplib's clock and the service's lie
  in the same step and the token is not by chance also the code of a later step in the window.
\<close>

theorem totp_replay_refused:
  assumes "otp_documented code check" "0 < ac_step cfg"
    and "totp_verifyTokenWithStep check cfg e0 epoch nowMs (Some secret) token used = Inr (True, Some step)"
    and same: "epoch' div ac_step cfg = currentStepFor cfg nowMs'"
    and "\<forall>n. step < n \<and> n \<le> currentStepFor cfg nowMs' + ac_window cfg \<longrightarrow>
            code (tot_secret secret) n \<noteq> remove_spaces token"
  shows "\<forall>step'. totp_verifyTokenWithStep check cfg e1 epoch' nowMs' (Some secret) token (Some step)
            \<noteq> Inr (True, Some step')"
proof (intro allI notI)
  fix step'
  assume "totp_verifyTokenWithStep check cfg e1 epoch' nowMs' (Some secret) token (Some step) = Inr (True, Some step')"
  then have "matched_step check cfg epoch' nowMs' (Some secret) (remove_spaces token) (Some step) = Inr (Some step')"
    by (auto simp: verifyTokenWithStep_matched split: sum.splits)
  then obtain delta where delta: "check (tot_secret secret) (remove_spaces token) (ac_digits cfg) (ac_step cfg)
        (epochTolerance cfg) epoch' = Inr (Some delta)"
      "step' = currentStepFor cfg nowMs' + delta" "step < step'"
    by (auto elim: matched_step_SomeD)
  then have doc: "remove_spaces token = code (tot_secret secret) (epoch' div ac_step cfg + delta)"
      "\<bar>delta\<bar> * ac_step cfg \<le> ac_window cfg * ac_step cfg"
    using assms(1) unfolding otp_documented_def epochTolerance_def by blast+
  then have "delta \<le> ac_window cfg"
    using assms(2) by (auto simp: mult_le_cancel_right)
  then show False
    using assms(5) delta(2,3) doc(1) same by auto
qed

theorem totp_replay_refused_witness:
  "totp_verifyTokenWithStep step_check initial_authenticator_config 0 60 60000 (Some example_secret) ''2'' None
     = Inr (True, Some 2)
   \<and> totp_verifyTokenWithStep step_check initial_authenticator_config 0 70 70000 (Some example_secret) ''2'' (Some 2)
     \<noteq> Inr (True, Some 2)"
proof -
  have run: "totp_verifyTokenWithStep step_check initial_authenticator_config 0 60 60000 (Some example_secret)
      ''2'' None = Inr (True, Some 2)"
    by code_simp
  have conf: "0 < ac_step initial_authenticator_config"
      "70 div ac_step initial_authenticator_config = currentStepFor initial_authenticator_config 70000"
    by code_simp+
  have bound: "currentStepFor initial_authenticator_config 70000 + ac_window initial_authenticator_config = 3"
    by code_simp
  have "step_code (tot_secret example_secret) 3 \<noteq> remove_spaces ''2''" by code_simp
  moreover have "n = 3" if "2 < n" "n \<le> 3" for n :: int using that by simp
  ultimately have "\<forall>n. 2 < n \<and> n \<le> currentStepFor initial_authenticator_config 70000
        + ac_window initial_authenticator_config \<longrightarrow>
      step_code (tot_secret example_secret) n \<noteq> remove_spaces ''2''"
    unfolding bound by blast
  from totp_replay_refused [OF step_check_documented conf(1) run conf(2) this, of 0] run
  show ?thesis by blast
qed

text \<open>
  Without a common clock the guarantee fails at a step boundary: otplib reads its clock just
  before the boundary and the service reads its own just after, and a token that was accepted
  and stored as step 2 is accepted again as step 3.
\<close>

theorem totp_replay_race:
  "totp_verifyTokenWithStep step_check initial_authenticator_config 0 88 88000 (Some example_secret) ''2'' None
     = Inr (True, Some 2)
   \<and> totp_verifyTokenWithStep step_check initial_authenticator_config 0 89 90000 (Some example_secret) ''2'' (Some 2)
     = Inr (True, Some 3)"
  by code_simp

lemma temp_password_loop_first:
  "(\<forall>j < k. \<not> has_all_classes (temp_block draw (pos + j * len) len)) \<Longrightarrow>
   has_all_classes (temp_block draw (pos + k * len) len) \<Longrightarrow>
   temp_password_loop draw pos len = Some (temp_block draw (pos + k * len) len)"
proof (induction k arbitrary: pos)
  case 0
  then show ?case by (subst temp_password_loop.simps) (simp add: Let_def)
next
  case (Suc k)
  have "\<not> has_all_classes (temp_block draw pos len)" using Suc.prems(1) by (auto dest: spec [of _ 0])
  moreover have "temp_password_loop draw (pos + len) len = Some (temp_block draw ((pos + len) + k * len) len)"
  proof (rule Suc.IH)
    show "\<forall>j < k. \<not> has_all_classes (temp_block draw (pos + len + j * len) len)"
      using Suc.prems(1) by (auto simp: add.assoc dest: spec [of _ "Suc j" for j])
    show "has_all_classes (temp_block draw (pos + len + k * len) len)"
      using Suc.prems(2) by (simp add: add.assoc)
  qed
  ultimately show ?case
    by (subst temp_password_loop.simps) (simp add: Let_def add.assoc)
qed

lemma temp_password_loop_classes:
  assumes "temp_password_loop draw pos len = Some pw"
  shows "has_all_classes pw \<and> length pw = len"
  by (rule temp_password_loop.raw_induct [OF _ assms, where P = "\<lambda>draw pos len pw. has_all_classes pw \<and> length pw = len"])
    (auto simp: Let_def temp_block_def split: if_splits)

text \<open>
  C36. A temporary password is refused below eight characters. Otherwise the generator returns as
  soon as a block of draws holds the three classes of characters: its result is the first such
  block, of the requested length.
\<close>

theorem temp_password_first_block:
  assumes "8 \<le> len" "has_all_classes (temp_block draw (k * nat len) (nat len))"
    and "\<forall>j < k. \<not> has_all_classes (temp_block draw (j * nat len) (nat len))"
  shows "generateTempPassword draw len = Inr (Some (temp_block draw (k * nat len) (nat len)))
    \<and> length (temp_block draw (k * nat len) (nat len)) = nat len
    \<and> generateTempPassword draw 7 = Inl (Error ''Password must be at least 8 characters'')"
  using temp_password_loop_first [of k draw 0 "nat len"] assms
  by (simp add: generateTempPassword_def temp_block_def)

definition example_draw :: "nat \<Rightarrow> nat" where
  "example_draw i = (if i < 8 then 0 else if i = 9 then 30 else if i = 10 then 50 else 1)"

theorem temp_password_first_block_witness:
  "generateTempPassword example_draw 8 = Inr (Some ''Bg5BBBBB'')"
proof -
  have block: "temp_block example_draw (1 * nat 8) (nat 8) = ''Bg5BBBBB''" by code_simp
  have hyps: "(8 :: int) \<le> 8" "has_all_classes (temp_block example_draw (1 * nat 8) (nat 8))"
      "\<forall>j < 1. \<not> has_all_classes (temp_block example_draw (j * nat 8) (nat 8))"
    by code_simp+
  show ?thesis
    using temp_password_first_block [OF hyps] unfolding block by blast
qed

end
