(* ===== verification/Bootstrap.thy ===== *)
theory Bootstrap
  imports Account_Interface Backup_Codes Totp
begin

text \<open>
  First-admin bootstrap, \<open>src/modules/bootstrap/index.ts\<close>, over any account storage. The
  configured callbacks, bcrypt, otplib and the generated secret are parameters.
\<close>

record bootstrap_profile =
  bp_bio :: "string option"
  bp_pronouns :: "string option"
  bp_avatarUrl :: "string option"

record bootstrap_state =
  bst_handle :: string
  bst_passwordHash :: string
  bst_displayName :: string
  bst_email :: "string option"
  bst_totpSecret :: string
  bst_backupCodes :: "string list"
  bst_timestamp :: int
  bst_step :: int
  bst_profile :: "bootstrap_profile option"

record bootstrap_status =
  needsBootstrap :: bool
  hasUsers :: bool
  systemConfigured :: bool

record bootstrap_request =
  brq_handle :: string
  brq_password :: string
  brq_displayName :: string
  brq_email :: "string option"

text \<open>The response; in the returned account the deleted password hash is the empty text.\<close>

record bootstrap_response =
  br_success :: bool
  br_user :: "admin_user option"
  br_backupCodes :: "string list option"
  br_error :: "string option"

text \<open>What the service is configured with and what it calls outside the package.\<close>

record bootstrap_env =
  be_appName :: string
  be_bcryptRounds :: "int option"
  be_backupCodesCount :: "nat option"
  be_generateQRCode :: "string \<Rightarrow> string \<Rightarrow> string \<Rightarrow> string result"
  be_encryptTOTPSecret :: "string \<Rightarrow> string \<Rightarrow> encrypted_totp_secret result"
  be_bcrypt :: "string \<Rightarrow> int \<Rightarrow> string"
  be_sha256 :: "string \<Rightarrow> string"
  be_verify :: otp_verify
  be_authenticator :: authenticator_config

definition bs_getStatus :: "'s account_ops \<Rightarrow> ('s, bootstrap_status) op" where
  "bs_getStatus st = bind_op (ao_hasUsers st) (\<lambda>has.
     return_op \<lparr>needsBootstrap = \<not> has, hasUsers = has, systemConfigured = has\<rparr>)"

text \<open>The pattern \<open>^[a-zA-Z][a-zA-Z0-9_-]{2,29}$\<close>.\<close>

definition is_bootstrap_handle :: "string \<Rightarrow> bool" where
  "is_bootstrap_handle h \<longleftrightarrow> 3 \<le> length h \<and> length h \<le> 30
     \<and> (is_upper (hd h) \<or> is_lower (hd h)) \<and> list_all is_word_dash (tl h)"

text \<open>\<open>totpSecret\<close> is what the secret generator returned and \<open>draws\<close> the random bytes of the codes.\<close>

definition bs_initiate ::
  "'s account_ops \<Rightarrow> bootstrap_env \<Rightarrow> int \<Rightarrow> string \<Rightarrow> (8 word \<times> 8 word \<times> 8 word \<times> 8 word) list
     \<Rightarrow> bootstrap_request \<Rightarrow> ('s, bootstrap_state \<times> string \<times> string list) op" where
  "bs_initiate st env now totpSecret draws request =
     bind_op (bs_getStatus st) (\<lambda>status.
     if \<not> needsBootstrap status then throw_op (Error ''Bootstrap not allowed: users already exist'')
     else if \<not> is_bootstrap_handle (brq_handle request)
     then throw_op (Error (''Handle must start with a letter, be 3-30 characters, and contain only '' @
                           ''letters, numbers, underscores, or hyphens''))
     else
       bind_op (of_result (hashPassword (be_bcrypt env) (brq_password request)
                  (Some (nullish (be_bcryptRounds env) 12)))) (\<lambda>passwordHash.
       bind_op (of_result (be_generateQRCode env (brq_handle request) totpSecret (be_appName env))) (\<lambda>qrCodeUrl.
         let backupCodes = generateBackupCodes (take (nullish (be_backupCodesCount env) 10) draws);
             state = \<lparr>bst_handle = brq_handle request, bst_passwordHash = passwordHash,
                      bst_displayName = brq_displayName request, bst_email = brq_email request,
                      bst_totpSecret = totpSecret, bst_backupCodes = backupCodes,
                      bst_timestamp = now, bst_step = 1, bst_profile = None\<rparr>
         in return_op (state, qrCodeUrl, backupCodes))))"

definition bs_updateProfile :: "bootstrap_state \<Rightarrow> bootstrap_profile \<Rightarrow> bootstrap_state" where
  "bs_updateProfile state profile = state\<lparr>bst_profile := Some profile, bst_step := 2\<rparr>"

text \<open>\<open>verifyCode\<close>: six to eight digits, and whatever the verification throws is a refusal.\<close>

definition bs_verifyCode :: "bootstrap_env \<Rightarrow> int \<Rightarrow> string \<Rightarrow> string \<Rightarrow> bool" where
  "bs_verifyCode env epoch secret code =
     (if \<not> (6 \<le> length code \<and> length code \<le> 8 \<and> list_all is_digit code) then False
      else case verifyAuthenticatorToken (be_verify env) (be_authenticator env) secret code epoch of
             Inl e \<Rightarrow> False
           | Inr valid \<Rightarrow> valid)"

definition bootstrap_refusal :: "string \<Rightarrow> bootstrap_response" where
  "bootstrap_refusal msg =
     \<lparr>br_success = False, br_user = None, br_backupCodes = None, br_error = Some msg\<rparr>"

definition bootstrap_account :: "int \<Rightarrow> int \<Rightarrow> bootstrap_state \<Rightarrow> admin_user" where
  "bootstrap_account now now' state =
     blank_user\<lparr>u_handle := bst_handle state, u_email := bst_email state,
       u_displayName := Some (bst_displayName state), u_passwordHash := bst_passwordHash state,
       u_role := ''super_admin'', u_isActive := True, u_totpEnabled := True,
       u_totpSecretId := Some (bst_handle state), u_needsOnboarding := False, u_onboardingStep := 0,
       u_createdAt := Iso now, u_updatedAt := Iso now',
       u_bio := Option.bind (bst_profile state) bp_bio,
       u_pronouns := Option.bind (bst_profile state) bp_pronouns,
       u_avatarUrl := Option.bind (bst_profile state) bp_avatarUrl\<rparr>"

text \<open>
  The body of the \<open>try\<close> block. \<open>now\<close> is read for every timestamp, \<open>uid\<close>, \<open>ids\<close> and \<open>eid\<close> are
  the random ids of the account, of its backup codes and of the audit event.
\<close>

definition bs_commit ::
  "'s account_ops \<Rightarrow> bootstrap_env \<Rightarrow> int \<Rightarrow> string \<Rightarrow> string list \<Rightarrow> string \<Rightarrow> bootstrap_state
     \<Rightarrow> ('s, bootstrap_response) op" where
  "bs_commit st env now uid ids eid state =
     bind_op (of_result (be_encryptTOTPSecret env (bst_handle state) (bst_totpSecret state))) (\<lambda>encryptedSecret.
     bind_op (ao_saveTOTPSecret st (bst_handle state) encryptedSecret) (\<lambda>_.
     bind_op (ao_getTOTPSecret st (bst_handle state)) (\<lambda>savedSecret.
     if savedSecret = None then throw_op (Error ''Failed to verify TOTP secret was saved'')
     else
       let backupCodeSet = createBackupCodeSet (be_sha256 env) now ids ''pending'' (bst_backupCodes state)
       in bind_op (ao_createUser st now uid (bootstrap_account now now state)) (\<lambda>user.
          bind_op (ao_saveBackupCodes st (u_id user) (backupCodeSet\<lparr>bs_userId := u_id user\<rparr>)) (\<lambda>_.
          bind_op (ao_logAuditEvent st eid
              \<lparr>ae_id = [], ae_timestamp = Iso now, ae_type = BOOTSTRAP_COMPLETED,
               ae_userId = Some (u_id user), ae_targetUserId = None, ae_handle = Some (u_handle user),
               ae_ipAddress = None, ae_userAgent = None, ae_details = [(''role'', ''super_admin'')],
               ae_severity = Info, ae_source = From_system\<rparr>) (\<lambda>_.
          return_op
            \<lparr>br_success = True, br_user = Some (user\<lparr>u_passwordHash := []\<rparr>),
             br_backupCodes = Some (bst_backupCodes state), br_error = None\<rparr>))))))"

definition bs_complete ::
  "'s account_ops \<Rightarrow> bootstrap_env \<Rightarrow> int \<Rightarrow> int \<Rightarrow> string \<Rightarrow> string list \<Rightarrow> string \<Rightarrow> bootstrap_state option
     \<Rightarrow> string \<Rightarrow> string \<Rightarrow> ('s, bootstrap_response) op" where
  "bs_complete st env now epoch uid ids eid state_arg handle totpCode =
     (case state_arg of
        None \<Rightarrow> return_op (bootstrap_refusal ''Invalid bootstrap state'')
      | Some state \<Rightarrow>
          if bst_handle state = [] \<or> bst_totpSecret state = []
          then return_op (bootstrap_refusal ''Invalid bootstrap state'')
          else if now - bst_timestamp state > 10 * 60 * 1000
          then return_op (bootstrap_refusal ''Bootstrap session expired. Please start over.'')
          else if bst_handle state \<noteq> handle then return_op (bootstrap_refusal ''Handle mismatch'')
          else
            bind_op (ao_hasUsers st) (\<lambda>has.
            if has then return_op (bootstrap_refusal ''Bootstrap not allowed: users already exist'')
            else if \<not> bs_verifyCode env epoch (bst_totpSecret state) totpCode
            then return_op (bootstrap_refusal ''Invalid TOTP code. Please check your authenticator app.'')
            else catch_op (bs_commit st env now uid ids eid state)
                   (\<lambda>e. return_op (bootstrap_refusal (message e)))))"

definition bs_isStateValid :: "int \<Rightarrow> bootstrap_state option \<Rightarrow> int \<Rightarrow> bool" where
  "bs_isStateValid now state maxAgeMs =
     (case state of
        None \<Rightarrow> False
      | Some s \<Rightarrow> bst_timestamp s \<noteq> 0 \<and> now - bst_timestamp s < maxAgeMs)"

section \<open>What completing the bootstrap does\<close>

lemma bs_complete_guards:
  assumes "fst (bs_complete st env now epoch uid ids eid (Some state) handle code s) = Inr r" "br_success r"
  shows "bst_handle state = handle" "now - bst_timestamp state \<le> 600000"
    "bs_verifyCode env epoch (bst_totpSecret state) code"
    "fst (ao_hasUsers st s) = Inr False"
  using assms
  by (auto simp: bs_complete_def bootstrap_refusal_def bind_op_def split: if_splits prod.splits sum.splits)

context account_storage
begin

text \<open>With an account in the store, completing is refused and changes nothing.\<close>

lemma complete_refused:
  assumes "inv s" "stored s \<noteq> []"
  shows "\<exists>r. bs_complete st env now epoch uid ids eid state handle code s = (Inr r, s) \<and> \<not> br_success r"
  using assms by (auto simp: bs_complete_def bootstrap_refusal_def bind_op_def has_users_law split: option.splits)

text \<open>Whatever \<open>complete\<close> does to an empty store, it ends with at most the one new account.\<close>

lemma commit_stored:
  assumes "inv s" "stored s = []" "uid \<noteq> []"
  shows "\<exists>r s'. bs_commit st env now uid ids eid state s = (r, s') \<and> inv s'
    \<and> (case r of
         Inr resp \<Rightarrow> br_success resp \<and> (\<exists>u. stored s' = [u]
            \<and> created_from uid (bootstrap_account now now state) u
            \<and> br_user resp = Some (u\<lparr>u_passwordHash := []\<rparr>)
            \<and> br_backupCodes resp = Some (bst_backupCodes state))
       | Inl e \<Rightarrow> stored s' = [])"
proof (cases "be_encryptTOTPSecret env (bst_handle state) (bst_totpSecret state)")
  case (Inl e)
  then show ?thesis using assms by (simp add: bs_commit_def of_result_def)
next
  case (Inr ts)
  obtain s1 where s1: "ao_saveTOTPSecret st (bst_handle state) ts s = (Inr (), s1)" "inv s1" "stored s1 = []"
    using save_totp_law [OF assms(1)] assms(2) by metis
  obtain saved where saved: "ao_getTOTPSecret st (bst_handle state) s1 = (saved, s1)"
    using get_totp_law [OF s1(2)] by (metis prod.collapse)
  show ?thesis
  proof (cases "\<exists>v. saved = Inr (Some v)")
    case False
    then have "\<exists>e. bs_commit st env now uid ids eid state s = (Inl e, s1)"
      using saved by (cases saved) (auto simp: bs_commit_def of_result_def Inr s1(1))
    then show ?thesis using s1 by auto
  next
    case True
    then obtain v where v: "saved = Inr (Some v)" by blast
    let ?data = "bootstrap_account now now state"
    obtain u s2 where u: "ao_createUser st now uid ?data s1 = (Inr u, s2)" "inv s2"
        "created_from uid ?data u" "stored s2 = [u]"
      using create_user_law [OF s1(2) assms(3), of ?data now] s1(3) by auto
    obtain s3 where s3: "ao_saveBackupCodes st (u_id u)
          ((createBackupCodeSet (be_sha256 env) now ids ''pending'' (bst_backupCodes state))\<lparr>bs_userId := u_id u\<rparr>) s2
          = (Inr (), s3)" "inv s3" "stored s3 = [u]"
      using save_codes_law [OF u(2)] u(4) by metis
    obtain ev s4 where s4: "ao_logAuditEvent st eid
              \<lparr>ae_id = [], ae_timestamp = Iso now, ae_type = BOOTSTRAP_COMPLETED,
               ae_userId = Some (u_id u), ae_targetUserId = None, ae_handle = Some (u_handle u),
               ae_ipAddress = None, ae_userAgent = None, ae_details = [(''role'', ''super_admin'')],
               ae_severity = Info, ae_source = From_system\<rparr> s3 = (Inr ev, s4)" "inv s4" "stored s4 = [u]"
      using log_law [OF s3(2)] s3(3) by metis
    show ?thesis
      using u(3) s4
      by (simp add: bs_commit_def of_result_def Inr s1(1) saved v u(1) s3(1) s4(1) Let_def)
  qed
qed

lemma complete_stored:
  assumes "inv s" "stored s = []" "uid \<noteq> []"
  shows "\<exists>r s'. bs_complete st env now epoch uid ids eid (Some state) handle code s = (Inr r, s') \<and> inv s'
    \<and> (if br_success r then \<exists>u. stored s' = [u] \<and> created_from uid (bootstrap_account now now state) u
            \<and> br_user r = Some (u\<lparr>u_passwordHash := []\<rparr>)
       else stored s' = [])"
proof -
  obtain r s' where commit: "bs_commit st env now uid ids eid state s = (r, s')" "inv s'"
      "case r of
         Inr resp \<Rightarrow> br_success resp \<and> (\<exists>u. stored s' = [u]
            \<and> created_from uid (bootstrap_account now now state) u
            \<and> br_user resp = Some (u\<lparr>u_passwordHash := []\<rparr>)
            \<and> br_backupCodes resp = Some (bst_backupCodes state))
       | Inl e \<Rightarrow> stored s' = []"
    using commit_stored [OF assms, of env now ids eid state] by blast
  have "ao_hasUsers st s = (Inr False, s)" using has_users_law [OF assms(1)] assms(2) by simp
  then show ?thesis
    using assms(1,2) commit
    by (cases r) (auto simp: bs_complete_def bootstrap_refusal_def)
qed

end

end
