(* ===== verification/Handle_Validator.thy ===== *)
theory Handle_Validator
  imports Account_Interface Security
begin

text \<open>
  Password login by handle and the management of handles, \<open>src/validation/handle-validator.ts\<close>,
  over any account storage. bcrypt is a parameter whose comparison may throw; log calls and the
  fixed delay of a refusal are left out.
\<close>

definition validateHandle ::
  "'s account_ops \<Rightarrow> (string \<Rightarrow> string \<Rightarrow> bool result) \<Rightarrow> string \<Rightarrow> string \<Rightarrow> ('s, string option) op" where
  "validateHandle st compare handle password =
     bind_op (ao_getUserByHandle st handle) (\<lambda>user.
       case user of
         None \<Rightarrow> return_op None
       | Some u \<Rightarrow>
           if \<not> u_isActive u then return_op None
           else case compare password (u_passwordHash u) of
                  Inr True \<Rightarrow> return_op (Some (u_id u))
                | _ \<Rightarrow> return_op None)"

definition addHandle ::
  "'s account_ops \<Rightarrow> (string \<Rightarrow> int \<Rightarrow> string) \<Rightarrow> int \<Rightarrow> string \<Rightarrow> string \<Rightarrow> string \<Rightarrow> ('s, bool) op" where
  "addHandle st bcrypt now uid handle password =
     catch_op
       (bind_op (ao_getUserByHandle st handle) (\<lambda>existing.
          if existing \<noteq> None then return_op False
          else
            bind_op (\<lambda>s. (hashPassword bcrypt password None, s)) (\<lambda>passwordHash.
            bind_op (ao_createUser st now uid
              (blank_user\<lparr>u_handle := handle, u_email := Some [], u_passwordHash := passwordHash,
                 u_role := ''admin'', u_isActive := True, u_needsOnboarding := True,
                 u_onboardingStep := 0, u_totpEnabled := False,
                 u_createdAt := Iso now, u_updatedAt := Iso now\<rparr>)) (\<lambda>_. return_op True))))
       (\<lambda>e. return_op False)"

definition removeHandle :: "'s account_ops \<Rightarrow> string \<Rightarrow> ('s, bool) op" where
  "removeHandle st handle =
     catch_op
       (bind_op (ao_getUserByHandle st handle) (\<lambda>user.
          case user of
            None \<Rightarrow> return_op False
          | Some u \<Rightarrow> ao_deleteUser st (u_id u)))
       (\<lambda>e. return_op False)"

definition listHandles :: "'s account_ops \<Rightarrow> ('s, string list option) op" where
  "listHandles st =
     catch_op
       (bind_op (ao_getAllUsers st) (\<lambda>users.
          return_op (Some (map u_handle (filter u_isActive users)))))
       (\<lambda>e. return_op None)"

context account_storage
begin

lemma validateHandle_result:
  assumes "inv s"
  shows "\<exists>r. validateHandle st compare h pw s = (Inr r, s)
    \<and> (\<forall>uid. r = Some uid \<longrightarrow> (\<exists>u \<in> set (stored s). u_id u = uid \<and> u_isActive u
          \<and> toLowerCase (u_handle u) = toLowerCase h \<and> compare pw (u_passwordHash u) = Inr True))"
proof -
  obtain user where user: "ao_getUserByHandle st h s = (Inr user, s)"
      "case user of Some u \<Rightarrow> u \<in> set (stored s) \<and> toLowerCase (u_handle u) = toLowerCase h
       | None \<Rightarrow> h \<notin> u_handle ` set (stored s)"
    using by_handle_law [OF assms] by blast
  then show ?thesis
    by (cases user) (auto simp: validateHandle_def split: sum.splits bool.splits)
qed

lemma addHandle_taken:
  assumes "inv s" "u \<in> set (stored s)" "u_handle u = h"
  shows "addHandle st bcrypt now uid h pw s = (Inr False, s)"
proof -
  obtain user where user: "ao_getUserByHandle st h s = (Inr user, s)"
      "case user of Some u \<Rightarrow> u \<in> set (stored s) \<and> toLowerCase (u_handle u) = toLowerCase h
       | None \<Rightarrow> h \<notin> u_handle ` set (stored s)"
    using by_handle_law [OF assms(1)] by blast
  then show ?thesis
    using assms(2,3) by (cases user) (auto simp: addHandle_def)
qed

lemma addHandle_then_login:
  assumes "inv s" "uid \<noteq> []" "uid \<notin> u_id ` set (stored s)"
    and free: "toLowerCase h \<notin> (toLowerCase \<circ> u_handle) ` set (stored s)"
    and hash: "compare pw (bcrypt pw 12) = Inr True"
  shows "\<exists>s'. addHandle st bcrypt now uid h pw s = (Inr True, s') \<and> inv s'
    \<and> fst (validateHandle st compare h pw s') = Inr (Some uid)
    \<and> length (stored s') = Suc (length (stored s))"
proof -
  obtain user where user: "ao_getUserByHandle st h s = (Inr user, s)"
      "case user of Some u \<Rightarrow> u \<in> set (stored s) \<and> toLowerCase (u_handle u) = toLowerCase h
       | None \<Rightarrow> h \<notin> u_handle ` set (stored s)"
    using by_handle_law [OF assms(1)] by blast
  then have none: "user = None" using free by (cases user) force+
  let ?data = "blank_user\<lparr>u_handle := h, u_email := Some [], u_passwordHash := bcrypt pw 12,
                 u_role := ''admin'', u_isActive := True, u_needsOnboarding := True,
                 u_onboardingStep := 0, u_totpEnabled := False,
                 u_createdAt := Iso now, u_updatedAt := Iso now\<rparr>"
  obtain u s' where u: "ao_createUser st now uid ?data s = (Inr u, s')" "inv s'"
      "created_from uid ?data u" "stored s' = stored s @ [u]"
    using create_user_law [OF assms(1-3), of ?data now] free by auto
  have fields: "u_id u = uid" "u_handle u = h" "u_isActive u" "u_passwordHash u = bcrypt pw 12"
    using created_fromD [OF u(3)] by simp_all
  obtain found where found: "ao_getUserByHandle st h s' = (Inr found, s')"
      "case found of Some v \<Rightarrow> v \<in> set (stored s') \<and> toLowerCase (u_handle v) = toLowerCase h
       | None \<Rightarrow> h \<notin> u_handle ` set (stored s')"
    using by_handle_law [OF u(2)] by blast
  have "found = Some u"
  proof (cases found)
    case None
    then show ?thesis using found(2) u(4) fields(2) by simp
  next
    case (Some v)
    then have v: "v = u \<or> v \<in> set (stored s)" "toLowerCase (u_handle v) = toLowerCase h"
      using found(2) u(4) by auto
    have "(toLowerCase \<circ> u_handle) v \<notin> (toLowerCase \<circ> u_handle) ` set (stored s)"
      using free v(2) by simp
    then show ?thesis using v(1) Some by blast
  qed
  then have "fst (validateHandle st compare h pw s') = Inr (Some uid)"
    using found(1) fields hash by (simp add: validateHandle_def)
  moreover have "addHandle st bcrypt now uid h pw s = (Inr True, s')"
    using user(1) none u(1) by (simp add: addHandle_def hashPassword_def)
  ultimately show ?thesis using u(2,4) by auto
qed

end

end
