(* ===== verification/Memory_Accounts.thy ===== *)
theory Memory_Accounts
  imports Memory_Storage Bootstrap Handle_Validator
begin

text \<open>
  The in-memory adapter as a state machine: the states its methods reach from the empty
  adapter with any arguments (only the id that \<open>randomUUID\<close> gives a new account is fresh), and what
  holds in all of them: accounts and sessions are stored under their own ids, and the audit
  trail stays within its cap.

  The adapter checks neither that a handle or an email is free nor that an account keeps one;
  that is the duty of its callers. What its two account indexes answer is therefore stated
  for the histories in which the callers did their part (\<open>keys_kept\<close>, \<open>keys_unique\<close>); where they
  did not, an index can be wrong (\<open>mem_stale_email\<close>).
\<close>

section \<open>The invariant\<close>

definition users_keyed :: "memory \<Rightarrow> bool" where
  "users_keyed m \<longleftrightarrow> keys_distinct (m_users m)
     \<and> (\<forall>uid u. map_of (m_users m) uid = Some u \<longrightarrow> u_id u = uid \<and> uid \<noteq> [])"

text \<open>The key an account has in an index, if any.\<close>

definition handle_key :: "admin_user \<Rightarrow> string option" where
  "handle_key u = Some (toLowerCase (u_handle u))"

definition email_key :: "admin_user \<Rightarrow> string option" where
  "email_key u = (case u_email u of None \<Rightarrow> None
                  | Some e \<Rightarrow> if e = [] then None else Some (toLowerCase e))"

definition index_ok ::
  "(admin_user \<Rightarrow> string option) \<Rightarrow> admin_user jsmap \<Rightarrow> string jsmap \<Rightarrow> bool" where
  "index_ok key users index \<longleftrightarrow>
     (\<forall>k uid. map_of index k = Some uid \<longleftrightarrow> (\<exists>u. map_of users uid = Some u \<and> key u = Some k))"

text \<open>Half of it: what the index answers is right, but it may miss an account.\<close>

definition index_sound ::
  "(admin_user \<Rightarrow> string option) \<Rightarrow> admin_user jsmap \<Rightarrow> string jsmap \<Rightarrow> bool" where
  "index_sound key users index \<longleftrightarrow>
     (\<forall>k uid. map_of index k = Some uid \<longrightarrow> (\<exists>u. map_of users uid = Some u \<and> key u = Some k))"

definition ids_keyed :: "session jsmap \<Rightarrow> bool" where
  "ids_keyed xs \<longleftrightarrow> keys_distinct xs \<and> (\<forall>i x. map_of xs i = Some x \<longrightarrow> s_id x = i)"

definition mem_keyed :: "memory \<Rightarrow> bool" where
  "mem_keyed m \<longleftrightarrow> users_keyed m
     \<and> map_of (m_usersByEmail m) [] = None
     \<and> ids_keyed (m_sessions m)
     \<and> length (m_auditEvents m) \<le> 10000"

section \<open>Steps\<close>

inductive mem_step :: "memory \<Rightarrow> memory \<Rightarrow> bool" where
  close: "mem_step m (snd (mem_close m))"
| create_user:
    "\<lbrakk>map_of (m_users m) uid = None; uid \<noteq> []\<rbrakk> \<Longrightarrow> mem_step m (snd (mem_createUser uid user m))"
| update_user: "mem_step m (snd (mem_updateUser now uid p m))"
| delete_user: "mem_step m (snd (mem_deleteUser uid m))"
| get_session: "mem_step m (snd (mem_getSession now i m))"
| create_session: "mem_step m (snd (mem_createSession now new u usr md m))"
| create_session_with_policy:
    "mem_step m (snd (mem_createSessionWithPolicy now now' new u usr md pol m))"
| update_session: "mem_step m (snd (mem_updateSession i sp m))"
| delete_session: "mem_step m (snd (mem_deleteSession i m))"
| delete_user_sessions: "mem_step m (snd (mem_deleteUserSessions u m))"
| cleanup_sessions: "mem_step m (snd (mem_cleanupExpiredSessions now m))"
| save_totp: "mem_step m (snd (mem_saveTOTPSecret h ts m))"
| delete_totp: "mem_step m (snd (mem_deleteTOTPSecret h m))"
| save_codes: "mem_step m (snd (mem_saveBackupCodes u bs m))"
| delete_codes: "mem_step m (snd (mem_deleteBackupCodes u m))"
| create_invitation: "mem_step m (snd (mem_createInvitation i iv m))"
| update_invitation: "mem_step m (snd (mem_updateInvitation t ip m))"
| delete_invitation: "mem_step m (snd (mem_deleteInvitation t m))"
| cleanup_invitations: "mem_step m (snd (mem_cleanupExpiredInvitations now m))"
| log_event: "mem_step m (snd (mem_logAuditEvent eid ev m))"

text \<open>
  The states reached by steps that each satisfy a condition on the states before and after it;
  the reachable states are those of all histories.
\<close>

inductive mem_history :: "(memory \<Rightarrow> memory \<Rightarrow> bool) \<Rightarrow> memory \<Rightarrow> bool" for cond where
  start: "mem_history cond empty_memory"
| step: "\<lbrakk>mem_history cond m; mem_step m m'; cond m m'\<rbrakk> \<Longrightarrow> mem_history cond m'"

abbreviation mem_reachable :: "memory \<Rightarrow> bool" where
  "mem_reachable \<equiv> mem_history (\<lambda>_ _. True)"

text \<open>What the callers owe: no account loses its handle or its email, and no two share one.\<close>

definition keys_kept :: "memory \<Rightarrow> memory \<Rightarrow> bool" where
  "keys_kept m m' \<longleftrightarrow> (\<forall>uid u u'. map_of (m_users m) uid = Some u \<and> map_of (m_users m') uid = Some u' \<longrightarrow>
     (u_handle u \<noteq> [] \<longrightarrow> u_handle u' \<noteq> []) \<and> (email_key u \<noteq> None \<longrightarrow> email_key u' \<noteq> None))"

definition keys_unique :: "memory \<Rightarrow> bool" where
  "keys_unique m \<longleftrightarrow> (\<forall>uid uid' u u'.
     map_of (m_users m) uid = Some u \<and> map_of (m_users m) uid' = Some u' \<and> uid \<noteq> uid' \<longrightarrow>
     handle_key u \<noteq> handle_key u' \<and> (email_key u = None \<or> email_key u \<noteq> email_key u'))"

inductive_cases mem_stepE: "mem_step m m'"

section \<open>The indexes\<close>

text \<open>
  An index follows the accounts when an entry is added for a new account, removed with a
  deleted one, and both for a changed one. Each fact comes for an exact and for a sound index.
\<close>

lemma index_ok_insert:
  assumes "index_ok key users index" "map_of users uid = None"
    and free: "\<And>uid' u'. map_of users uid' = Some u' \<Longrightarrow> key u' \<noteq> key u \<or> key u = None"
  shows "index_ok key (map_set uid u users)
           (case key u of None \<Rightarrow> index | Some k \<Rightarrow> map_set k uid index)"
  unfolding index_ok_def
proof (intro allI)
  fix k uid'
  have old: "map_of index k = Some uid' \<longleftrightarrow> (\<exists>u. map_of users uid' = Some u \<and> key u = Some k)"
    using assms(1) by (simp add: index_ok_def)
  have clash: "\<not> (\<exists>u'. map_of users uid' = Some u' \<and> key u' = Some k)" if "key u = Some k"
    using free that by force
  show "map_of (case key u of None \<Rightarrow> index | Some k \<Rightarrow> map_set k uid index) k = Some uid' \<longleftrightarrow>
      (\<exists>u'. map_of (map_set uid u users) uid' = Some u' \<and> key u' = Some k)"
    using old clash assms(2) by (cases "key u") auto
qed

lemma index_ok_delete:
  assumes "index_ok key users index" "map_of users uid = Some u"
  shows "index_ok key (map_del uid users)
           (case key u of None \<Rightarrow> index | Some k \<Rightarrow> map_del k index)"
  unfolding index_ok_def
proof (intro allI)
  fix k uid'
  have old: "map_of index k = Some uid'' \<longleftrightarrow> (\<exists>u. map_of users uid'' = Some u \<and> key u = Some k)" for uid''
    using assms(1) by (simp add: index_ok_def)
  have owner: "map_of index k = Some uid" if "key u = Some k"
    using old assms(2) that by auto
  show "map_of (case key u of None \<Rightarrow> index | Some k \<Rightarrow> map_del k index) k = Some uid' \<longleftrightarrow>
      (\<exists>u'. map_of (map_del uid users) uid' = Some u' \<and> key u' = Some k)"
    using old [of uid'] owner assms(2) by (cases "key u") (auto split: if_splits)
qed

lemma index_soundD:
  "index_sound key users index \<Longrightarrow> map_of index k = Some uid \<Longrightarrow>
   \<exists>u. map_of users uid = Some u \<and> key u = Some k"
  by (simp add: index_sound_def)

lemma index_sound_insert:
  assumes "index_sound key users index" "map_of users uid = None"
  shows "index_sound key (map_set uid u users)
           (case key u of None \<Rightarrow> index | Some k \<Rightarrow> map_set k uid index)"
  unfolding index_sound_def using assms(2)
  by (cases "key u") (auto dest!: index_soundD [OF assms(1)])

lemma index_sound_delete:
  assumes "index_sound key users index" "map_of users uid = Some u"
  shows "index_sound key (map_del uid users)
           (case key u of None \<Rightarrow> index | Some k \<Rightarrow> map_del k index)"
  unfolding index_sound_def using assms(2)
  by (cases "key u") (auto dest!: index_soundD [OF assms(1)])

lemma map_of_map_set_del:
  "map_of users uid = Some u \<Longrightarrow> map_of (map_set uid v users) = map_of (map_set uid v (map_del uid users))"
  by (rule ext) simp

lemma index_cong_users:
  "map_of us = map_of vs \<Longrightarrow> index_ok key us index = index_ok key vs index"
  "map_of us = map_of vs \<Longrightarrow> index_sound key us index = index_sound key vs index"
  by (simp_all add: index_ok_def index_sound_def)

lemma Nil_eq_toLowerCase [simp]: "[] = toLowerCase e \<longleftrightarrow> e = []" "toLowerCase [] = []"
  by (auto simp: toLowerCase_def)

text \<open>What an index becomes when the account \<open>u\<close> under \<open>uid\<close> becomes \<open>v\<close>: the old key goes, the new one comes.\<close>

definition replaced_key ::
  "(admin_user \<Rightarrow> string option) \<Rightarrow> string \<Rightarrow> admin_user \<Rightarrow> admin_user \<Rightarrow> string jsmap \<Rightarrow> string jsmap" where
  "replaced_key key uid u v index =
     (let rest = (case key u of None \<Rightarrow> index | Some k \<Rightarrow> map_del k index)
      in case key v of None \<Rightarrow> rest | Some k \<Rightarrow> map_set k uid rest)"

definition index_follows ::
  "(admin_user \<Rightarrow> string option) \<Rightarrow> string \<Rightarrow> admin_user \<Rightarrow> admin_user \<Rightarrow> string jsmap \<Rightarrow> string jsmap \<Rightarrow> bool" where
  "index_follows key uid u v index index' \<longleftrightarrow>
     key v = key u \<and> index' = index \<or> index' = replaced_key key uid u v index"

lemma index_ok_follows:
  assumes ok: "index_ok key users index" "map_of users uid = Some u"
    and free: "\<And>uid' u'. map_of users uid' = Some u' \<Longrightarrow> uid' \<noteq> uid \<Longrightarrow> key u' \<noteq> key v \<or> key v = None"
    and "index_follows key uid u v index index'"
  shows "index_ok key (map_set uid v users) index'"
proof (cases "key v = key u \<and> index' = index")
  case True
  then show ?thesis using ok unfolding index_ok_def by auto
next
  case False
  have "index_ok key (map_set uid v (map_del uid users)) (replaced_key key uid u v index)"
    using index_ok_delete [OF ok] free unfolding replaced_key_def Let_def
    by (intro index_ok_insert) (auto split: if_splits)
  moreover have "index' = replaced_key key uid u v index"
    using False assms(4) by (auto simp: index_follows_def)
  ultimately show ?thesis
    using index_cong_users(1) [OF map_of_map_set_del [OF ok(2), of v]] by simp
qed

lemma index_sound_follows:
  assumes ok: "index_sound key users index" "map_of users uid = Some u"
    and "index_follows key uid u v index index'"
  shows "index_sound key (map_set uid v users) index'"
proof (cases "key v = key u \<and> index' = index")
  case True
  then show ?thesis using ok unfolding index_sound_def by (metis map_of_map_set option.inject)
next
  case False
  have "index_sound key (map_set uid v (map_del uid users)) (replaced_key key uid u v index)"
    using index_sound_delete [OF ok] unfolding replaced_key_def Let_def
    by (intro index_sound_insert) auto
  moreover have "index' = replaced_key key uid u v index"
    using False assms(3) by (auto simp: index_follows_def)
  ultimately show ?thesis
    using index_cong_users(2) [OF map_of_map_set_del [OF ok(2), of v]] by simp
qed

lemma unindex_email_key:
  "unindex_email u index = (case email_key u of None \<Rightarrow> index | Some k \<Rightarrow> map_del k index)"
  by (simp add: unindex_email_def email_key_def split: option.splits)

lemma reindex_handle_follows:
  assumes "u_handle v = nullish (p_handle p) (u_handle u)" "u_handle u \<noteq> [] \<longrightarrow> u_handle v \<noteq> []"
  shows "index_follows handle_key uid u v index (reindex_handle uid p u index)"
  using assms
  by (auto simp: index_follows_def reindex_handle_def replaced_key_def handle_key_def split: option.splits)

lemma reindex_email_follows:
  assumes v: "u_email v = nullish (p_email p) (u_email u)"
    and kept: "email_key u \<noteq> None \<longrightarrow> email_key v \<noteq> None"
  shows "index_follows email_key uid u v index (reindex_email uid p u index)"
proof (cases "\<exists>e. flat (p_email p) = Some e \<and> e \<noteq> [] \<and> Some e \<noteq> u_email u")
  case True
  then obtain e where e: "p_email p = Some (Some e)" "e \<noteq> []" "Some e \<noteq> u_email u"
    by (cases "p_email p") auto
  then have "email_key v = Some (toLowerCase e)" using v by (simp add: email_key_def)
  then show ?thesis
    using e by (simp add: index_follows_def replaced_key_def reindex_email_def unindex_email_key)
next
  case False
  then have same: "reindex_email uid p u index = index"
    by (auto simp: reindex_email_def split: option.splits)
  have "email_key v = email_key u"
  proof (cases "p_email p")
    case None
    then show ?thesis using v by (simp add: email_key_def)
  next
    case (Some pe)
    then have pe: "u_email v = pe" using v by simp
    show ?thesis
    proof (cases "pe = u_email u")
      case True
      then show ?thesis using pe by (simp add: email_key_def)
    next
      case other: False
      then have "email_key v = None"
        using False Some pe by (cases pe) (auto simp: email_key_def)
      then show ?thesis using kept by simp
    qed
  qed
  then show ?thesis using same by (simp add: index_follows_def)
qed

lemma updateUser_state:
  fixes p :: user_patch and now :: int
  assumes "map_of (m_users m) uid = Some u"
  defines "v \<equiv> (apply_user_patch p u)\<lparr>u_id := uid, u_updatedAt := Iso now\<rparr>"
  shows "mem_updateUser now uid p m = (Inr v,
    m\<lparr>m_usersByHandle := reindex_handle uid p u (m_usersByHandle m),
      m_usersByEmail := reindex_email uid p u (m_usersByEmail m), m_users := map_set uid v (m_users m)\<rparr>)"
  using assms(1) by (simp add: mem_updateUser_def v_def Let_def)

lemma updateUser_missing: "map_of (m_users m) uid = None \<Longrightarrow> snd (mem_updateUser now uid p m) = m"
  by (simp add: mem_updateUser_def)

lemma updateUser_follows:
  assumes u: "map_of (m_users m) uid = Some u" and kept: "keys_kept m (snd (mem_updateUser now uid p m))"
  obtains v m' where "snd (mem_updateUser now uid p m) = m'" "m_users m' = map_set uid v (m_users m)"
    "index_follows handle_key uid u v (m_usersByHandle m) (m_usersByHandle m')"
    "index_follows email_key uid u v (m_usersByEmail m) (m_usersByEmail m')"
proof -
  let ?v = "(apply_user_patch p u)\<lparr>u_id := uid, u_updatedAt := Iso now\<rparr>"
  have "map_of (m_users (snd (mem_updateUser now uid p m))) uid = Some ?v"
    by (simp add: updateUser_state [OF u])
  with kept u have "u_handle u \<noteq> [] \<longrightarrow> u_handle ?v \<noteq> []" "email_key u \<noteq> None \<longrightarrow> email_key ?v \<noteq> None"
    unfolding keys_kept_def by blast+
  then have "index_follows handle_key uid u ?v (m_usersByHandle m) (reindex_handle uid p u (m_usersByHandle m))"
      "index_follows email_key uid u ?v (m_usersByEmail m) (reindex_email uid p u (m_usersByEmail m))"
    by (intro reindex_handle_follows reindex_email_follows; simp)+
  then show thesis
    by (intro that [OF refl]) (simp_all add: updateUser_state [OF u])
qed

lemma deleteUser_state:
  assumes "keys_distinct (m_sessions m)" "map_of (m_users m) uid = Some u"
  shows "mem_deleteUser uid m = (Inr True,
     m\<lparr>m_users := map_del uid (m_users m),
       m_usersByHandle := map_del (toLowerCase (u_handle u)) (m_usersByHandle m),
       m_usersByEmail := unindex_email u (m_usersByEmail m),
       m_sessions := filter (Not \<circ> (\<lambda>s. s_userId s = uid) \<circ> snd) (m_sessions m),
       m_totpSecrets := map_del (toLowerCase (u_handle u)) (m_totpSecrets m),
       m_backupCodes := map_del uid (m_backupCodes m)\<rparr>)"
proof -
  have "delete_where (\<lambda>s. s_userId s = uid) (m_sessions m)
      = (int (length (filter ((\<lambda>s. s_userId s = uid) \<circ> snd) (m_sessions m))),
         filter (Not \<circ> (\<lambda>s. s_userId s = uid) \<circ> snd) (m_sessions m))"
    using delete_where_filter [OF assms(1)] .
  then show ?thesis
    using assms(2)
    by (simp add: mem_deleteUser_def bind_op_def mem_deleteUserSessions_def mem_deleteTOTPSecret_def
        mem_deleteBackupCodes_def)
qed

lemma deleteUser_missing: "map_of (m_users m) uid = None \<Longrightarrow> mem_deleteUser uid m = (Inr False, m)"
  by (simp add: mem_deleteUser_def)

section \<open>Every operation keeps the maps keyed\<close>

lemma ids_keyed_simps [simp]:
  "ids_keyed []"
  "ids_keyed xs \<Longrightarrow> s_id x = i \<Longrightarrow> ids_keyed (map_set i x xs)"
  "ids_keyed xs \<Longrightarrow> ids_keyed (map_del i xs)"
  "ids_keyed xs \<Longrightarrow> ids_keyed (filter P xs)"
  by (auto simp: ids_keyed_def map_of_filter_distinct split: if_splits option.splits)

lemma ids_keyed_delete_where [simp]: "ids_keyed xs \<Longrightarrow> ids_keyed (snd (delete_where p xs))"
proof -
  assume xs: "ids_keyed xs"
  then have "keys_distinct xs" by (simp add: ids_keyed_def)
  then show ?thesis using xs by (simp only: delete_where_filter snd_conv ids_keyed_simps(4))
qed

lemma ids_keyed_session_map: "distinct (map s_id xs) \<Longrightarrow> ids_keyed (session_map xs)"
  using map_of_ids [of xs] by (auto simp: ids_keyed_def keys_distinct_def session_map_eq comp_def)

lemma mem_keyed_frame:
  assumes "mem_keyed m" "m_users m' = m_users m" "m_usersByEmail m' = m_usersByEmail m"
    "ids_keyed (m_sessions m')" "length (m_auditEvents m') \<le> 10000"
  shows "mem_keyed m'"
  using assms by (simp add: mem_keyed_def users_keyed_def)

lemma mem_keyed_parts:
  assumes "mem_keyed m"
  shows "ids_keyed (m_sessions m)" "length (m_auditEvents m) \<le> 10000"
    "keys_distinct (m_sessions m)" "users_keyed m" "map_of (m_usersByEmail m) [] = None"
  using assms by (simp_all add: mem_keyed_def ids_keyed_def)

lemma mem_keyed_irrelevant [simp]:
  "mem_keyed (m\<lparr>m_totpSecrets := t\<rparr>) = mem_keyed m"
  "mem_keyed (m\<lparr>m_backupCodes := b\<rparr>) = mem_keyed m"
  "mem_keyed (m\<lparr>m_invitations := i\<rparr>) = mem_keyed m"
  "mem_keyed (m\<lparr>m_usersByHandle := x\<rparr>) = mem_keyed m"
  by (simp_all add: mem_keyed_def users_keyed_def)

lemma mem_keyed_createUser:
  assumes "mem_keyed m" "uid \<noteq> []"
  shows "mem_keyed (snd (mem_createUser uid user m))"
  using assms
  by (auto simp: mem_keyed_def users_keyed_def mem_createUser_def Let_def split: option.splits if_splits)

lemma mem_keyed_updateUser:
  assumes "mem_keyed m"
  shows "mem_keyed (snd (mem_updateUser now uid p m))"
proof (cases "map_of (m_users m) uid")
  case None
  then show ?thesis using assms by (simp add: updateUser_missing)
next
  case (Some u)
  then have "uid \<noteq> []" using assms by (auto simp: mem_keyed_def users_keyed_def)
  moreover have "map_of (reindex_email uid p u (m_usersByEmail m)) [] = None"
    using mem_keyed_parts(5) [OF assms]
    by (auto simp: reindex_email_def unindex_email_def split: option.splits)
  ultimately show ?thesis
    using assms by (auto simp: updateUser_state [OF Some] mem_keyed_def users_keyed_def)
qed

lemma mem_keyed_deleteUser:
  assumes "mem_keyed m"
  shows "mem_keyed (snd (mem_deleteUser uid m))"
proof (cases "map_of (m_users m) uid")
  case None
  then show ?thesis using assms by (simp add: deleteUser_missing)
next
  case (Some u)
  then show ?thesis
    using assms mem_keyed_parts [OF assms]
    by (auto simp: deleteUser_state [OF mem_keyed_parts(3) [OF assms] Some] mem_keyed_def users_keyed_def
        unindex_email_def split: option.splits if_splits)
qed

lemma mem_keyed_session_steps:
  assumes "mem_keyed m"
  shows "mem_keyed (snd (mem_getSession now i m))"
    and "mem_keyed (snd (mem_deleteSession i m))"
    and "mem_keyed (snd (mem_deleteUserSessions u m))"
    and "mem_keyed (snd (mem_cleanupExpiredSessions now m))"
    and "mem_keyed (snd (mem_createSession now new u usr md m))"
    and "mem_keyed (snd (mem_updateSession i sp m))"
  by (rule mem_keyed_frame [OF assms];
      simp add: mem_getSession_def mem_deleteSession_def mem_deleteUserSessions_def split_def
        mem_cleanupExpiredSessions_def mem_createSession_def mem_updateSession_def Let_def
        mem_newSession_def mem_keyed_parts [OF assms] split: option.splits)+

lemma mem_keyed_policy_step:
  assumes "mem_keyed m"
  shows "mem_keyed (snd (mem_createSessionWithPolicy now now' new u usr md pol m))"
proof (cases "\<exists>xs. boundedSessions (map_values (m_sessions m)) (mem_newSession now new u usr md) pol now' = Inr xs
      \<and> snd (mem_createSessionWithPolicy now now' new u usr md pol m) = m\<lparr>m_sessions := session_map xs\<rparr>")
  case True
  then obtain xs where xs: "boundedSessions (map_values (m_sessions m)) (mem_newSession now new u usr md) pol now' = Inr xs"
      "snd (mem_createSessionWithPolicy now now' new u usr md pol m) = m\<lparr>m_sessions := session_map xs\<rparr>"
    by blast
  then have "ids_keyed (session_map xs)"
    using boundedSessions_valid [OF xs(1)] by (intro ids_keyed_session_map) (simp add: valid_store_def)
  then show ?thesis
    unfolding xs(2) by (intro mem_keyed_frame [OF assms]) (simp_all add: mem_keyed_parts [OF assms])
next
  case False
  then have "snd (mem_createSessionWithPolicy now now' new u usr md pol m) = m"
    by (auto simp: mem_createSessionWithPolicy_def Let_def split: sum.splits)
  then show ?thesis using assms by simp
qed

lemma mem_keyed_log:
  assumes "mem_keyed m"
  shows "mem_keyed (snd (mem_logAuditEvent eid ev m))"
proof -
  have "js_slice (- 10000) None xs = slice_last 10000 xs" for xs :: "audit_event list"
    using js_slice_from_end [of 10000 xs] by simp
  then show ?thesis
    using mem_keyed_parts [OF assms]
    by - (rule mem_keyed_frame [OF assms], simp_all add: mem_logAuditEvent_def Let_def)
qed

lemma mem_keyed_empty [simp]: "mem_keyed empty_memory"
  by (simp add: mem_keyed_def empty_memory_def users_keyed_def)

lemma mem_keyed_step: "mem_step m m' \<Longrightarrow> mem_keyed m \<Longrightarrow> mem_keyed m'"
  by (induction rule: mem_step.induct)
    (simp_all add: mem_keyed_createUser mem_keyed_updateUser mem_keyed_deleteUser mem_keyed_session_steps
      mem_keyed_policy_step mem_keyed_log mem_close_def mem_saveTOTPSecret_def mem_deleteTOTPSecret_def
      mem_saveBackupCodes_def mem_deleteBackupCodes_def mem_createInvitation_def mem_updateInvitation_def
      mem_deleteInvitation_def mem_cleanupExpiredInvitations_def Let_def split_def split: option.splits)

lemma mem_history_keyed: "mem_history cond m \<Longrightarrow> mem_keyed m"
  by (induction rule: mem_history.induct) (simp_all add: mem_keyed_step)

section \<open>What the indexes keep\<close>

definition accounts_of :: "memory \<Rightarrow> admin_user jsmap \<times> string jsmap \<times> string jsmap" where
  "accounts_of m = (m_users m, m_usersByHandle m, m_usersByEmail m)"

lemma mem_step_accounts:
  "mem_step m m' \<Longrightarrow>
     accounts_of m' = accounts_of m \<or> m' = empty_memory
     \<or> (\<exists>uid user. map_of (m_users m) uid = None \<and> m' = snd (mem_createUser uid user m))
     \<or> (\<exists>now uid p. m' = snd (mem_updateUser now uid p m))
     \<or> (\<exists>uid. m' = snd (mem_deleteUser uid m))"
proof (induction rule: mem_step.induct)
  case (create_session_with_policy m now now' new u usr md pol)
  then show ?case
    by (auto simp: accounts_of_def mem_createSessionWithPolicy_def Let_def split: sum.splits)
next
  case (create_user m uid user)
  then show ?case by blast
next
  case (update_user m now uid p)
  then show ?case by blast
next
  case (delete_user m uid)
  then show ?case by blast
qed (simp_all add: accounts_of_def mem_close_def mem_getSession_def mem_deleteSession_def
    mem_deleteUserSessions_def mem_cleanupExpiredSessions_def mem_createSession_def mem_updateSession_def
    mem_logAuditEvent_def mem_saveTOTPSecret_def mem_deleteTOTPSecret_def mem_saveBackupCodes_def
    mem_deleteBackupCodes_def mem_createInvitation_def mem_updateInvitation_def mem_deleteInvitation_def
    mem_cleanupExpiredInvitations_def Let_def split_def split: option.splits)

definition indexes_sound :: "memory \<Rightarrow> bool" where
  "indexes_sound m \<longleftrightarrow> index_sound handle_key (m_users m) (m_usersByHandle m)
     \<and> index_sound email_key (m_users m) (m_usersByEmail m)"

definition indexes_ok :: "memory \<Rightarrow> bool" where
  "indexes_ok m \<longleftrightarrow> index_ok handle_key (m_users m) (m_usersByHandle m)
     \<and> index_ok email_key (m_users m) (m_usersByEmail m)"

definition mem_ok :: "memory \<Rightarrow> bool" where
  "mem_ok m \<longleftrightarrow> mem_keyed m \<and> indexes_ok m"

lemma indexes_cong:
  "accounts_of m' = accounts_of m \<Longrightarrow> indexes_sound m \<Longrightarrow> indexes_sound m'"
  "accounts_of m' = accounts_of m \<Longrightarrow> indexes_ok m \<Longrightarrow> indexes_ok m'"
  by (simp_all add: accounts_of_def indexes_sound_def indexes_ok_def)

lemma indexes_empty: "indexes_sound empty_memory" "indexes_ok empty_memory"
  by (simp_all add: empty_memory_def indexes_sound_def indexes_ok_def index_sound_def index_ok_def)

lemma createUser_accounts:
  "accounts_of (snd (mem_createUser uid user m)) =
     (let u = user\<lparr>u_id := uid\<rparr>
      in (map_set uid u (m_users m),
          case handle_key u of None \<Rightarrow> m_usersByHandle m | Some k \<Rightarrow> map_set k uid (m_usersByHandle m),
          case email_key u of None \<Rightarrow> m_usersByEmail m | Some k \<Rightarrow> map_set k uid (m_usersByEmail m)))"
  by (simp add: accounts_of_def mem_createUser_def Let_def handle_key_def email_key_def split: option.splits)

lemma deleteUser_accounts:
  assumes "keys_distinct (m_sessions m)" "map_of (m_users m) uid = Some u"
  shows "accounts_of (snd (mem_deleteUser uid m)) =
     (map_del uid (m_users m),
      case handle_key u of None \<Rightarrow> m_usersByHandle m | Some k \<Rightarrow> map_del k (m_usersByHandle m),
      case email_key u of None \<Rightarrow> m_usersByEmail m | Some k \<Rightarrow> map_del k (m_usersByEmail m))"
  by (simp add: accounts_of_def deleteUser_state [OF assms] handle_key_def unindex_email_key)

lemma indexes_sound_step:
  assumes "mem_step m m'" "mem_keyed m" "indexes_sound m" "keys_kept m m'"
  shows "indexes_sound m'"
  using mem_step_accounts [OF assms(1)]
proof (elim disjE exE conjE)
  fix uid user
  assume "map_of (m_users m) uid = None" "m' = snd (mem_createUser uid user m)"
  then show ?thesis
    using assms(3) createUser_accounts [of uid user m]
    by (simp add: indexes_sound_def accounts_of_def Let_def index_sound_insert)
next
  fix now uid p
  assume m': "m' = snd (mem_updateUser now uid p m)"
  show ?thesis
  proof (cases "map_of (m_users m) uid")
    case None
    then show ?thesis using assms(3) m' by (simp add: updateUser_missing)
  next
    case (Some u)
    from updateUser_follows [OF Some assms(4) [unfolded m']] obtain v where
      "m_users m' = map_set uid v (m_users m)"
      "index_follows handle_key uid u v (m_usersByHandle m) (m_usersByHandle m')"
      "index_follows email_key uid u v (m_usersByEmail m) (m_usersByEmail m')"
      unfolding m' by metis
    then show ?thesis
      using assms(3) Some by (auto simp: indexes_sound_def intro: index_sound_follows)
  qed
next
  fix uid
  assume m': "m' = snd (mem_deleteUser uid m)"
  show ?thesis
  proof (cases "map_of (m_users m) uid")
    case None
    then show ?thesis using assms(3) m' by (simp add: deleteUser_missing)
  next
    case (Some u)
    then show ?thesis
      using assms(3) deleteUser_accounts [OF mem_keyed_parts(3) [OF assms(2)] Some]
      by (simp add: m' indexes_sound_def accounts_of_def index_sound_delete)
  qed
qed (use assms(3) indexes_cong indexes_empty in \<open>blast, blast\<close>)

lemma createUser_ok:
  assumes "indexes_ok m" "map_of (m_users m) uid = None"
    and "\<And>i u. map_of (m_users m) i = Some u \<Longrightarrow> handle_key u \<noteq> handle_key (user\<lparr>u_id := uid\<rparr>)"
    and "\<And>i u. map_of (m_users m) i = Some u \<Longrightarrow>
           email_key u \<noteq> email_key (user\<lparr>u_id := uid\<rparr>) \<or> email_key (user\<lparr>u_id := uid\<rparr>) = None"
  shows "indexes_ok (snd (mem_createUser uid user m))"
proof -
  let ?u = "user\<lparr>u_id := uid\<rparr>"
  have "index_ok handle_key (map_set uid ?u (m_users m))
          (case handle_key ?u of None \<Rightarrow> m_usersByHandle m | Some k \<Rightarrow> map_set k uid (m_usersByHandle m))"
    using assms(1,2,3) by (intro index_ok_insert) (auto simp: indexes_ok_def)
  moreover have "index_ok email_key (map_set uid ?u (m_users m))
          (case email_key ?u of None \<Rightarrow> m_usersByEmail m | Some k \<Rightarrow> map_set k uid (m_usersByEmail m))"
    using assms(1,2,4) by (intro index_ok_insert) (auto simp: indexes_ok_def)
  ultimately show ?thesis
    using createUser_accounts [of uid user m] by (simp add: indexes_ok_def accounts_of_def Let_def)
qed

lemma keys_uniqueD:
  assumes "keys_unique m" "map_of (m_users m) i = Some u" "map_of (m_users m) j = Some v" "i \<noteq> j"
  shows "handle_key u \<noteq> handle_key v" "email_key u \<noteq> email_key v \<or> email_key v = None"
  using assms unfolding keys_unique_def by metis+

lemma indexes_ok_step:
  assumes "mem_step m m'" "mem_keyed m" "indexes_ok m" "keys_kept m m'" "keys_unique m'"
  shows "indexes_ok m'"
  using mem_step_accounts [OF assms(1)]
proof (elim disjE exE conjE)
  fix uid user
  assume new: "map_of (m_users m) uid = None" and m': "m' = snd (mem_createUser uid user m)"
  have users: "m_users m' = map_set uid (user\<lparr>u_id := uid\<rparr>) (m_users m)"
    by (simp add: m' mem_createUser_def Let_def)
  have other: "i \<noteq> uid" "map_of (m_users m') i = Some u" if "map_of (m_users m) i = Some u" for i u
    using that new by (auto simp: users)
  have own: "map_of (m_users m') uid = Some (user\<lparr>u_id := uid\<rparr>)" by (simp add: users)
  have free: "handle_key u \<noteq> handle_key (user\<lparr>u_id := uid\<rparr>)"
      "email_key u \<noteq> email_key (user\<lparr>u_id := uid\<rparr>) \<or> email_key (user\<lparr>u_id := uid\<rparr>) = None"
    if "map_of (m_users m) i = Some u" for i u
    using keys_uniqueD [OF assms(5) other(2) [OF that] own other(1) [OF that]] by simp_all
  show ?thesis
    unfolding m' by (rule createUser_ok [OF assms(3) new]) (erule free)+
next
  fix now uid p
  assume m': "m' = snd (mem_updateUser now uid p m)"
  show ?thesis
  proof (cases "map_of (m_users m) uid")
    case None
    then show ?thesis using assms(3) m' by (simp add: updateUser_missing)
  next
    case (Some u)
    from updateUser_follows [OF Some assms(4) [unfolded m']] obtain v where v:
      "m_users m' = map_set uid v (m_users m)"
      "index_follows handle_key uid u v (m_usersByHandle m) (m_usersByHandle m')"
      "index_follows email_key uid u v (m_usersByEmail m) (m_usersByEmail m')"
      unfolding m' by metis
    have own: "map_of (m_users m') uid = Some v" by (simp add: v(1))
    have other: "map_of (m_users m') i = Some w" if "map_of (m_users m) i = Some w" "i \<noteq> uid" for i w
      using that by (simp add: v(1))
    note free = keys_uniqueD [OF assms(5) other own, rotated]
    have "index_ok handle_key (map_set uid v (m_users m)) (m_usersByHandle m')"
      using assms(3) free(1) by (intro index_ok_follows [OF _ Some _ v(2)]) (simp_all add: indexes_ok_def)
    moreover have "index_ok email_key (map_set uid v (m_users m)) (m_usersByEmail m')"
      using assms(3) free(2) by (intro index_ok_follows [OF _ Some _ v(3)]) (simp_all add: indexes_ok_def)
    ultimately show ?thesis by (simp add: indexes_ok_def v(1))
  qed
next
  fix uid
  assume m': "m' = snd (mem_deleteUser uid m)"
  show ?thesis
  proof (cases "map_of (m_users m) uid")
    case None
    then show ?thesis using assms(3) m' by (simp add: deleteUser_missing)
  next
    case (Some u)
    then show ?thesis
      using assms(3) deleteUser_accounts [OF mem_keyed_parts(3) [OF assms(2)] Some]
      by (simp add: m' indexes_ok_def accounts_of_def index_ok_delete)
  qed
qed (use assms(3) indexes_cong indexes_empty in \<open>blast, blast\<close>)

lemma mem_history_sound: "mem_history keys_kept m \<Longrightarrow> indexes_sound m"
proof (induction rule: mem_history.induct)
  case (step m m')
  then show ?case using indexes_sound_step mem_history_keyed by blast
qed (rule indexes_empty)

lemma mem_history_ok: "mem_history (\<lambda>m m'. keys_kept m m' \<and> keys_unique m') m \<Longrightarrow> indexes_ok m"
proof (induction rule: mem_history.induct)
  case (step m m')
  then show ?case using indexes_ok_step mem_history_keyed by blast
qed (rule indexes_empty)

section \<open>Lookups, deletion and the audit trail\<close>

lemma indexed_user_stored:
  assumes "users_keyed m" "indexed_user index m k = Some u"
  shows "map_of (m_users m) (u_id u) = Some u"
    and "map_of index (toLowerCase k) = Some (u_id u)"
  using assms by (auto simp: indexed_user_def users_keyed_def split: option.splits if_splits)

lemma indexed_user_sound:
  assumes "users_keyed m" "index_sound key (m_users m) index" "indexed_user index m k = Some u"
  shows "key u = Some (toLowerCase k)"
  using index_soundD [OF assms(2) indexed_user_stored(2) [OF assms(1,3)]]
    indexed_user_stored(1) [OF assms(1,3)] by simp

lemma indexed_user_iff:
  assumes "users_keyed m" "index_ok key (m_users m) index"
  shows "indexed_user index m k = Some u \<longleftrightarrow>
    map_of (m_users m) (u_id u) = Some u \<and> key u = Some (toLowerCase k)"
proof -
  have id: "u_id u = uid \<and> uid \<noteq> []" if "map_of (m_users m) uid = Some u" for uid u
    using assms(1) that by (simp add: users_keyed_def)
  have index: "map_of index (toLowerCase k) = Some uid \<longleftrightarrow>
      (\<exists>u. map_of (m_users m) uid = Some u \<and> key u = Some (toLowerCase k))" for uid
    using assms(2) by (simp add: index_ok_def)
  show ?thesis
  proof
    assume "indexed_user index m k = Some u"
    then obtain uid where uid: "map_of index (toLowerCase k) = Some uid" "map_of (m_users m) uid = Some u"
      by (auto simp: indexed_user_def split: option.splits if_splits)
    then show "map_of (m_users m) (u_id u) = Some u \<and> key u = Some (toLowerCase k)"
      using index [of uid] id [OF uid(2)] by simp
  next
    assume u: "map_of (m_users m) (u_id u) = Some u \<and> key u = Some (toLowerCase k)"
    then have "map_of index (toLowerCase k) = Some (u_id u)" using index by blast
    then show "indexed_user index m k = Some u"
      using u id [of "u_id u" u] by (simp add: indexed_user_def)
  qed
qed

definition log_all :: "(string \<times> audit_event) list \<Rightarrow> memory \<Rightarrow> memory" where
  "log_all evs m = foldl (\<lambda>m (eid, e). snd (mem_logAuditEvent eid e m)) m evs"

lemma log_one:
  assumes "length (m_auditEvents m) \<le> 10000"
  shows "m_auditEvents (snd (mem_logAuditEvent eid e m))
    = slice_last 10000 (m_auditEvents m @ [e\<lparr>ae_id := eid\<rparr>])"
proof -
  have "js_slice (- 10000) None xs = slice_last 10000 xs" for xs :: "audit_event list"
    using js_slice_from_end [of 10000 xs] by simp
  then show ?thesis
    using assms by (simp add: mem_logAuditEvent_def Let_def slice_last_def)
qed

section \<open>Properties\<close>

text \<open>
  C3. In every state the in-memory adapter reaches, whatever it was called with, accounts are
  stored under their own ids and the lookups by id, handle and email answer only stored
  accounts. As long as no account lost its handle or its email, an account found by a handle
  (an email), in any capitalisation, has it; and as long as, besides, no two accounts shared a
  handle or an email, every account is found by its own. Keeping them so is the callers' duty:
  the adapter does not check it.
\<close>

theorem mem_lookup_exact:
  assumes "mem_reachable m"
  shows "(fst (mem_getUser i m) = Inr (Some u) \<longrightarrow> u_id u = i)
    \<and> (fst (mem_getUserByHandle h m) = Inr (Some u) \<or> fst (mem_getUserByEmail h m) = Inr (Some u) \<longrightarrow>
         fst (mem_getUser (u_id u) m) = Inr (Some u))
    \<and> (mem_history keys_kept m \<longrightarrow>
         (fst (mem_getUserByHandle h m) = Inr (Some u) \<longrightarrow> toLowerCase (u_handle u) = toLowerCase h)
         \<and> (fst (mem_getUserByEmail h m) = Inr (Some u) \<longrightarrow>
              (\<exists>e. u_email u = Some e \<and> e \<noteq> [] \<and> toLowerCase e = toLowerCase h)))
    \<and> (mem_history (\<lambda>m m'. keys_kept m m' \<and> keys_unique m') m \<longrightarrow>
         (fst (mem_getUserByHandle h m) = Inr (Some u) \<longleftrightarrow>
            map_of (m_users m) (u_id u) = Some u \<and> toLowerCase (u_handle u) = toLowerCase h)
         \<and> (fst (mem_getUserByEmail h m) = Inr (Some u) \<longleftrightarrow>
            map_of (m_users m) (u_id u) = Some u
            \<and> (\<exists>e. u_email u = Some e \<and> e \<noteq> [] \<and> toLowerCase e = toLowerCase h)))"
proof (intro conjI impI)
  have keyed: "users_keyed m" using mem_history_keyed [OF assms] by (rule mem_keyed_parts(4))
  have email: "email_key u = Some (toLowerCase h) \<longleftrightarrow>
      (\<exists>e. u_email u = Some e \<and> e \<noteq> [] \<and> toLowerCase e = toLowerCase h)"
    by (auto simp: email_key_def split: option.splits)
  have handle: "handle_key u = Some (toLowerCase h) \<longleftrightarrow> toLowerCase (u_handle u) = toLowerCase h"
    by (simp add: handle_key_def)
  note lookups = mem_getUser_def mem_getUserByHandle_def mem_getUserByEmail_def
  show "u_id u = i" if "fst (mem_getUser i m) = Inr (Some u)"
    using that keyed by (simp add: lookups users_keyed_def)
  show "fst (mem_getUser (u_id u) m) = Inr (Some u)"
    if "fst (mem_getUserByHandle h m) = Inr (Some u) \<or> fst (mem_getUserByEmail h m) = Inr (Some u)"
    using that indexed_user_stored(1) [OF keyed] by (auto simp: lookups)
  {
    assume "mem_history keys_kept m"
    note sound = mem_history_sound [OF this, unfolded indexes_sound_def]
    show "toLowerCase (u_handle u) = toLowerCase h" if "fst (mem_getUserByHandle h m) = Inr (Some u)"
      using that indexed_user_sound [OF keyed conjunct1 [OF sound]] handle by (simp add: lookups)
    show "\<exists>e. u_email u = Some e \<and> e \<noteq> [] \<and> toLowerCase e = toLowerCase h"
      if "fst (mem_getUserByEmail h m) = Inr (Some u)"
      using that indexed_user_sound [OF keyed conjunct2 [OF sound]] email by (simp add: lookups)
  }
  assume "mem_history (\<lambda>m m'. keys_kept m m' \<and> keys_unique m') m"
  note ok = mem_history_ok [OF this, unfolded indexes_ok_def]
  show "fst (mem_getUserByHandle h m) = Inr (Some u) \<longleftrightarrow>
      map_of (m_users m) (u_id u) = Some u \<and> toLowerCase (u_handle u) = toLowerCase h"
    using indexed_user_iff [OF keyed conjunct1 [OF ok]] handle by (simp add: lookups)
  show "fst (mem_getUserByEmail h m) = Inr (Some u) \<longleftrightarrow> map_of (m_users m) (u_id u) = Some u
      \<and> (\<exists>e. u_email u = Some e \<and> e \<noteq> [] \<and> toLowerCase e = toLowerCase h)"
    using indexed_user_iff [OF keyed conjunct2 [OF ok]] email by (simp add: lookups)
qed

text \<open>What deleting an account does to each of the adapter's maps, and to the lookups.\<close>

lemma deleteUser_maps:
  assumes "mem_keyed m" "map_of (m_users m) uid = Some u"
  defines "m' \<equiv> snd (mem_deleteUser uid m)"
  shows "map_of (m_users m') = (map_of (m_users m))(uid := None)"
    and "map_of (m_sessions m') i
      = (case map_of (m_sessions m) i of None \<Rightarrow> None | Some x \<Rightarrow> if s_userId x = uid then None else Some x)"
    and "map_of (m_totpSecrets m') = (map_of (m_totpSecrets m))(toLowerCase (u_handle u) := None)"
    and "map_of (m_backupCodes m') = (map_of (m_backupCodes m))(uid := None)"
    and "m_invitations m' = m_invitations m" and "m_auditEvents m' = m_auditEvents m"
    and "map_of (m_usersByHandle m') = (map_of (m_usersByHandle m))(toLowerCase (u_handle u) := None)"
    and "m_usersByEmail m' = unindex_email u (m_usersByEmail m)"
  using map_of_filter_distinct [OF mem_keyed_parts(3) [OF assms(1)]]
  by (auto simp: m'_def deleteUser_state [OF mem_keyed_parts(3) [OF assms(1)] assms(2)] fun_eq_iff
      split: option.splits)

lemma deleted_user_sessions:
  "filter (\<lambda>s. s_userId s = uid \<and> P s)
      (map_values (filter (Not \<circ> (\<lambda>s. s_userId s = uid) \<circ> snd) xs)) = []"
  by (auto simp: filter_empty_conv)

lemma indexed_user_after_delete:
  assumes keyed: "users_keyed m" and users: "map_of (m_users m') = (map_of (m_users m))(uid := None)"
    and same: "map_of index' (toLowerCase k) = map_of index (toLowerCase k)" and "u_id v \<noteq> uid"
  shows "indexed_user index' m' k = Some v \<longleftrightarrow> indexed_user index m k = Some v"
  using keyed assms(4) by (auto simp: indexed_user_def users same users_keyed_def split: option.splits)

text \<open>
  C26. Deleting a user of a reachable state, whatever handles and emails its accounts have,
  removes the account from every lookup together with its sessions, the TOTP secret under its
  handle and its backup codes, and nothing else: every other account, every other account's
  sessions and backup codes, the TOTP secrets under other handles, the invitations and the audit
  trail are as before, and so is every lookup by another handle or another email that does not
  answer the deleted account.
\<close>

theorem mem_deleteUser_cascade:
  assumes "mem_reachable m" "map_of (m_users m) uid = Some u"
  defines "m' \<equiv> snd (mem_deleteUser uid m)"
  shows "fst (mem_deleteUser uid m) = Inr True
    \<and> fst (mem_getUserByHandle (u_handle u) m') = Inr None
    \<and> (\<forall>e. u_email u = Some e \<longrightarrow> fst (mem_getUserByEmail e m') = Inr None)
    \<and> (\<forall>h. fst (mem_getUserByHandle h m') \<noteq> Inr (Some u) \<and> fst (mem_getUserByEmail h m') \<noteq> Inr (Some u))
    \<and> fst (mem_getSessionsByUser now uid m') = Inr []
    \<and> fst (mem_getTOTPSecret (u_handle u) m') = Inr None
    \<and> fst (mem_getBackupCodes uid m') = Inr None
    \<and> (\<forall>i. fst (mem_getUser i m') = (if i = uid then Inr None else fst (mem_getUser i m)))
    \<and> (\<forall>i. map_of (m_sessions m') i = (case map_of (m_sessions m) i of
             None \<Rightarrow> None | Some x \<Rightarrow> if s_userId x = uid then None else Some x))
    \<and> (\<forall>h. toLowerCase h \<noteq> toLowerCase (u_handle u) \<longrightarrow>
          fst (mem_getTOTPSecret h m') = fst (mem_getTOTPSecret h m))
    \<and> (\<forall>i. i \<noteq> uid \<longrightarrow> fst (mem_getBackupCodes i m') = fst (mem_getBackupCodes i m))
    \<and> m_invitations m' = m_invitations m \<and> m_auditEvents m' = m_auditEvents m
    \<and> (\<forall>h v. u_id v \<noteq> uid \<and> toLowerCase h \<noteq> toLowerCase (u_handle u) \<longrightarrow>
          (fst (mem_getUserByHandle h m') = Inr (Some v) \<longleftrightarrow> fst (mem_getUserByHandle h m) = Inr (Some v)))
    \<and> (\<forall>e v. u_id v \<noteq> uid \<and> map_option toLowerCase (u_email u) \<noteq> Some (toLowerCase e) \<longrightarrow>
          (fst (mem_getUserByEmail e m') = Inr (Some v) \<longleftrightarrow> fst (mem_getUserByEmail e m) = Inr (Some v)))"
proof -
  have keyed: "mem_keyed m" using assms(1) by (rule mem_history_keyed)
  note parts = mem_keyed_parts [OF keyed]
  note state = deleteUser_state [OF parts(3) assms(2)]
  note maps = deleteUser_maps [OF keyed assms(2), folded m'_def]
  have keyed': "users_keyed m'"
    using mem_keyed_deleteUser [OF keyed] by (simp add: m'_def mem_keyed_def)
  have uid: "u_id u = uid" using parts(4) assms(2) by (simp add: users_keyed_def)
  have never: "indexed_user index m' h \<noteq> Some u" for index h
    using indexed_user_stored(1) [OF keyed', of index h u] by (auto simp: maps(1) uid)
  have email: "map_of (m_usersByEmail m') (toLowerCase e)
      = (if map_option toLowerCase (u_email u) = Some (toLowerCase e) then None
         else map_of (m_usersByEmail m) (toLowerCase e))" for e
    using parts(5) by (auto simp: maps(8) unindex_email_def split: option.splits)
  have "fst (mem_getSessionsByUser now uid m') = Inr []"
    using deleted_user_sessions by (simp add: mem_getSessionsByUser_def m'_def state)
  moreover have "indexed_user (m_usersByHandle m') m' h = Some v
      \<longleftrightarrow> indexed_user (m_usersByHandle m) m h = Some v"
    if "u_id v \<noteq> uid" "toLowerCase h \<noteq> toLowerCase (u_handle u)" for h v
    using that by (intro indexed_user_after_delete [OF parts(4) maps(1)]) (simp_all add: maps(7))
  moreover have "indexed_user (m_usersByEmail m') m' e = Some v
      \<longleftrightarrow> indexed_user (m_usersByEmail m) m e = Some v"
    if "u_id v \<noteq> uid" "map_option toLowerCase (u_email u) \<noteq> Some (toLowerCase e)" for e v
    using that by (intro indexed_user_after_delete [OF parts(4) maps(1)]) (auto simp: email)
  moreover have "indexed_user (m_usersByHandle m') m' (u_handle u) = None"
    by (simp add: indexed_user_def maps(7))
  moreover have "indexed_user (m_usersByEmail m') m' e = None" if "u_email u = Some e" for e
    using that by (simp add: indexed_user_def email)
  ultimately show ?thesis
    using never
    by (simp add: mem_getUser_def mem_getUserByHandle_def mem_getUserByEmail_def
        mem_getTOTPSecret_def mem_getBackupCodes_def maps) (simp add: m'_def state)
qed

text \<open>
  However many events are logged, the trail holds the newest 10000 of all of them in order,
  and the recent events are the newest ones, newest first.
\<close>

theorem mem_audit_trail:
  assumes "length (m_auditEvents m) \<le> 10000"
  shows "m_auditEvents (log_all evs m)
      = slice_last 10000 (m_auditEvents m @ map (\<lambda>(eid, e). e\<lparr>ae_id := eid\<rparr>) evs)
    \<and> (0 < n \<longrightarrow> fst (mem_getRecentAuditEvents (Some (int n)) (log_all evs m))
          = Inr (take n (rev (m_auditEvents (log_all evs m)))))"
proof
  show "m_auditEvents (log_all evs m)
      = slice_last 10000 (m_auditEvents m @ map (\<lambda>(eid, e). e\<lparr>ae_id := eid\<rparr>) evs)"
    using assms
  proof (induction evs arbitrary: m)
    case Nil
    then show ?case by (simp add: log_all_def slice_last_def)
  next
    case (Cons ev evs)
    obtain eid e where ev: "ev = (eid, e)" by (cases ev)
    let ?m = "snd (mem_logAuditEvent eid e m)"
    have one: "m_auditEvents ?m = slice_last 10000 (m_auditEvents m @ [e\<lparr>ae_id := eid\<rparr>])"
      using log_one [OF Cons.prems] .
    then have "length (m_auditEvents ?m) \<le> 10000" by simp
    from Cons.IH [OF this] show ?case
      by (simp add: log_all_def ev one slice_last_append)
  qed
next
  show "0 < n \<longrightarrow> fst (mem_getRecentAuditEvents (Some (int n)) (log_all evs m))
          = Inr (take n (rev (m_auditEvents (log_all evs m))))"
    by (simp add: mem_getRecentAuditEvents_def js_slice_from_end rev_slice_last)
qed

text \<open>An adapter with one account, one session of it and its second factor.\<close>

definition ada :: admin_user where
  "ada = (example_user [] ''Ada'' ''admin'')\<lparr>u_email := Some ''Ada@x''\<rparr>"

definition ada_memory :: memory where
  "ada_memory = snd (mem_createSession 5 ''s1'' ''u1'' no_user_patch None
     (snd (mem_createUser ''u1'' ada empty_memory)))"

lemma ada_memory_history: "mem_history (\<lambda>m m'. keys_kept m m' \<and> keys_unique m') ada_memory"
proof -
  let ?m = "snd (mem_createUser ''u1'' ada empty_memory)"
  have users: "m_users ?m = [(''u1'', ada\<lparr>u_id := ''u1''\<rparr>)]" "m_users ada_memory = m_users ?m"
    by (simp_all add: mem_createUser_def empty_memory_def Let_def ada_memory_def mem_createSession_def)
  have "mem_history (\<lambda>m m'. keys_kept m m' \<and> keys_unique m') ?m"
    by (rule mem_history.step [OF mem_history.start], rule mem_step.create_user)
      (simp_all add: keys_kept_def keys_unique_def users, simp_all add: empty_memory_def)
  moreover have "mem_step ?m ada_memory"
    unfolding ada_memory_def by (rule mem_step.create_session)
  moreover have "keys_kept ?m ada_memory \<and> keys_unique ada_memory"
    by (auto simp: keys_kept_def keys_unique_def users)
  ultimately show ?thesis by (rule mem_history.step)
qed

lemma ada_memory_reachable: "mem_reachable ada_memory"
  using ada_memory_history by (induction rule: mem_history.induct) (blast intro: mem_history.intros)+

lemma ada_memory_users: "map_of (m_users ada_memory) ''u1'' = Some (ada\<lparr>u_id := ''u1''\<rparr>)"
  by code_simp

theorem mem_lookup_exact_witness:
  "fst (mem_getUserByHandle ''ADA'' ada_memory) = Inr (Some (ada\<lparr>u_id := ''u1''\<rparr>))
   \<and> fst (mem_getUserByEmail ''ada@X'' ada_memory) = Inr (Some (ada\<lparr>u_id := ''u1''\<rparr>))"
proof -
  have exact:
    "(fst (mem_getUserByHandle h ada_memory) = Inr (Some (ada\<lparr>u_id := ''u1''\<rparr>)) \<longleftrightarrow>
       toLowerCase (u_handle (ada\<lparr>u_id := ''u1''\<rparr>)) = toLowerCase h)
     \<and> (fst (mem_getUserByEmail h ada_memory) = Inr (Some (ada\<lparr>u_id := ''u1''\<rparr>)) \<longleftrightarrow>
       (\<exists>e. u_email (ada\<lparr>u_id := ''u1''\<rparr>) = Some e \<and> e \<noteq> [] \<and> toLowerCase e = toLowerCase h))" for h
    using mem_lookup_exact [OF ada_memory_reachable, of "''u1''" "ada\<lparr>u_id := ''u1''\<rparr>" h]
      ada_memory_history ada_memory_users by auto
  have keys: "u_id (ada\<lparr>u_id := ''u1''\<rparr>) = ''u1''"
      "toLowerCase (u_handle (ada\<lparr>u_id := ''u1''\<rparr>)) = toLowerCase ''ADA''"
      "u_email (ada\<lparr>u_id := ''u1''\<rparr>) = Some ''Ada@x''"
      "toLowerCase ''Ada@x'' = toLowerCase ''ada@X''"
    by code_simp+
  show ?thesis
    using exact [of "''ADA''"] exact [of "''ada@X''"] keys ada_memory_users by auto
qed

theorem mem_deleteUser_cascade_witness:
  "fst (mem_deleteUser ''u1'' ada_memory) = Inr True
   \<and> fst (mem_getSessionsByUser 6 ''u1'' ada_memory) \<noteq> Inr []
   \<and> fst (mem_getSessionsByUser 6 ''u1'' (snd (mem_deleteUser ''u1'' ada_memory))) = Inr []"
proof -
  have "fst (mem_getSessionsByUser 6 ''u1'' ada_memory) \<noteq> Inr []"
    by code_simp
  then show ?thesis
    using mem_deleteUser_cascade [OF ada_memory_reachable ada_memory_users, of 6] by blast
qed

definition example_event :: audit_event where
  "example_event =
     \<lparr>ae_id = [], ae_timestamp = Iso 1, ae_type = LOGIN_SUCCESS, ae_userId = Some ''u1'',
      ae_targetUserId = None, ae_handle = None, ae_ipAddress = None, ae_userAgent = None,
      ae_details = [], ae_severity = Info, ae_source = From_user\<rparr>"

theorem mem_audit_trail_witness:
  "fst (mem_getRecentAuditEvents (Some (int 1))
      (log_all [(''e1'', example_event), (''e2'', example_event)] empty_memory))
    = Inr [example_event\<lparr>ae_id := ''e2''\<rparr>]"
proof -
  have "length (m_auditEvents empty_memory) \<le> 10000" by (simp add: empty_memory_def)
  from mem_audit_trail [OF this, of "[(''e1'', example_event), (''e2'', example_event)]" 1]
  show ?thesis by (simp add: empty_memory_def slice_last_def)
qed

section \<open>The adapter provides the account contract\<close>

definition memory_accounts :: "memory account_ops" where
  "memory_accounts =
     \<lparr>ao_hasUsers = mem_hasUsers, ao_getUserByHandle = mem_getUserByHandle,
      ao_getAllUsers = mem_getAllUsers, ao_createUser = (\<lambda>now. mem_createUser),
      ao_deleteUser = mem_deleteUser, ao_saveTOTPSecret = mem_saveTOTPSecret,
      ao_getTOTPSecret = mem_getTOTPSecret, ao_saveBackupCodes = mem_saveBackupCodes,
      ao_logAuditEvent = mem_logAuditEvent\<rparr>"

definition mem_stored :: "memory \<Rightarrow> admin_user list" where
  "mem_stored m = map_values (m_users m)"

lemma mem_ok_empty [simp]: "mem_ok empty_memory"
  by (simp add: mem_ok_def indexes_empty)

lemma mem_ok_accounts: "accounts_of m' = accounts_of m \<Longrightarrow> mem_keyed m' \<Longrightarrow> mem_ok m \<Longrightarrow> mem_ok m'"
  unfolding mem_ok_def using indexes_cong(2) by blast

lemma mem_ok_users_keyed: "mem_ok m \<Longrightarrow> users_keyed m"
  by (simp add: mem_ok_def mem_keyed_def)

lemma mem_ok_irrelevant [simp]:
  "mem_ok (m\<lparr>m_totpSecrets := t\<rparr>) = mem_ok m"
  "mem_ok (m\<lparr>m_backupCodes := b\<rparr>) = mem_ok m"
  by (simp_all add: mem_ok_def indexes_ok_def)

lemma mem_ok_log: "mem_ok m \<Longrightarrow> mem_ok (snd (mem_logAuditEvent eid ev m))"
  by (rule mem_ok_accounts [where m = m])
    (simp_all add: mem_keyed_log mem_ok_def, simp add: accounts_of_def mem_logAuditEvent_def Let_def)

lemma mem_stored_iff:
  "mem_ok m \<Longrightarrow> u \<in> set (mem_stored m) \<longleftrightarrow> map_of (m_users m) (u_id u) = Some u"
  using set_map_values [of "m_users m" u] mem_ok_users_keyed [of m]
  by (auto simp: users_keyed_def mem_stored_def simp del: set_map)

lemma mem_by_handle:
  assumes "mem_ok m"
  shows "\<exists>r. mem_getUserByHandle h m = (Inr r, m)
     \<and> (case r of Some u \<Rightarrow> u \<in> set (mem_stored m) \<and> toLowerCase (u_handle u) = toLowerCase h
        | None \<Rightarrow> h \<notin> u_handle ` set (mem_stored m))"
proof -
  let ?r = "indexed_user (m_usersByHandle m) m h"
  have iff: "?r = Some u \<longleftrightarrow> u \<in> set (mem_stored m) \<and> toLowerCase (u_handle u) = toLowerCase h" for u
    using indexed_user_iff [OF mem_ok_users_keyed [OF assms], of handle_key "m_usersByHandle m" h u] assms
      mem_stored_iff [OF assms]
    by (simp add: mem_ok_def indexes_ok_def handle_key_def)
  show ?thesis
    using iff by (cases ?r) (auto simp: mem_getUserByHandle_def)
qed

lemma mem_create_user:
  assumes ok: "mem_ok m" and new: "uid \<noteq> []" "uid \<notin> u_id ` set (mem_stored m)"
    and free: "toLowerCase (u_handle data) \<notin> (toLowerCase \<circ> u_handle) ` set (mem_stored m)"
    and email: "\<not> truthy (u_email data) \<or> mem_stored m = []"
  shows "\<exists>u m'. mem_createUser uid data m = (Inr u, m') \<and> mem_ok m' \<and> created_from uid data u
    \<and> mem_stored m' = mem_stored m @ [u]"
proof -
  have id: "u_id u = i" if "map_of (m_users m) i = Some u" for i u
    using mem_ok_users_keyed [OF ok] that by (simp add: users_keyed_def)
  have stored: "u \<in> set (mem_stored m)" if "map_of (m_users m) i = Some u" for i u
    using id [OF that] that mem_stored_iff [OF ok] by simp
  have fresh: "map_of (m_users m) uid = None"
  proof (cases "map_of (m_users m) uid")
    case (Some u)
    then have "u_id u \<in> u_id ` set (mem_stored m)" using stored by blast
    then show ?thesis using new(2) id [OF Some] by simp
  qed simp
  have other: "toLowerCase (u_handle u) \<noteq> toLowerCase (u_handle data)"
    if "map_of (m_users m) i = Some u" for i u
  proof -
    have "(toLowerCase \<circ> u_handle) u \<in> (toLowerCase \<circ> u_handle) ` set (mem_stored m)"
      using stored [OF that] by (rule imageI)
    then show ?thesis using free by auto
  qed
  have "indexes_ok (snd (mem_createUser uid data m))"
  proof (rule createUser_ok [OF _ fresh])
    fix i u assume u: "map_of (m_users m) i = Some u"
    show "handle_key u \<noteq> handle_key (data\<lparr>u_id := uid\<rparr>)" using other [OF u] by (simp add: handle_key_def)
    show "email_key u \<noteq> email_key (data\<lparr>u_id := uid\<rparr>) \<or> email_key (data\<lparr>u_id := uid\<rparr>) = None"
      using email stored [OF u] by (auto simp: email_key_def split: option.splits)
  qed (use ok in \<open>simp add: mem_ok_def\<close>)
  then have "mem_ok (snd (mem_createUser uid data m))"
    using mem_keyed_createUser ok new(1) by (simp add: mem_ok_def)
  moreover have "uid \<notin> fst ` set (m_users m)"
    using fresh by (simp add: map_of_eq_None_iff)
  ultimately show ?thesis
    by (simp add: mem_createUser_def Let_def mem_stored_def map_set_new created_from_def)
qed

interpretation mem_accounts: account_storage memory_accounts mem_stored mem_ok
proof
  fix s :: memory and h
  assume ok: "mem_ok s"
  show "ao_hasUsers memory_accounts s = (Inr (mem_stored s \<noteq> []), s)"
    by (simp add: memory_accounts_def mem_hasUsers_def mem_stored_def)
  show "\<exists>r. ao_getUserByHandle memory_accounts h s = (Inr r, s)
         \<and> (case r of Some u \<Rightarrow> u \<in> set (mem_stored s) \<and> toLowerCase (u_handle u) = toLowerCase h
            | None \<Rightarrow> h \<notin> u_handle ` set (mem_stored s))"
    using mem_by_handle [OF ok] by (simp add: memory_accounts_def)
  show "ao_getAllUsers memory_accounts s = (Inr (mem_stored s), s)"
    by (simp add: memory_accounts_def mem_getAllUsers_def mem_stored_def)
  show "snd (ao_getTOTPSecret memory_accounts h s) = s"
    by (simp add: memory_accounts_def mem_getTOTPSecret_def)
next
  fix s :: memory and uid and data :: admin_user and now :: int
  assume "mem_ok s" "uid \<noteq> []" "uid \<notin> u_id ` set (mem_stored s)"
    "toLowerCase (u_handle data) \<notin> (toLowerCase \<circ> u_handle) ` set (mem_stored s)"
    "\<not> truthy (u_email data) \<or> mem_stored s = []"
  from mem_create_user [OF this]
  show "\<exists>u s'. ao_createUser memory_accounts now uid data s = (Inr u, s') \<and> mem_ok s'
           \<and> created_from uid data u \<and> mem_stored s' = mem_stored s @ [u]"
    by (simp add: memory_accounts_def)
next
  fix s :: memory and h ts
  assume "mem_ok s"
  then show "\<exists>s'. ao_saveTOTPSecret memory_accounts h ts s = (Inr (), s') \<and> mem_ok s' \<and> mem_stored s' = mem_stored s"
    by (simp add: memory_accounts_def mem_saveTOTPSecret_def mem_stored_def)
next
  fix s :: memory and u bs
  assume "mem_ok s"
  then show "\<exists>s'. ao_saveBackupCodes memory_accounts u bs s = (Inr (), s') \<and> mem_ok s' \<and> mem_stored s' = mem_stored s"
    by (simp add: memory_accounts_def mem_saveBackupCodes_def mem_stored_def)
next
  fix s :: memory and eid ev
  assume "mem_ok s"
  from mem_ok_log [OF this, of eid ev]
  show "\<exists>e s'. ao_logAuditEvent memory_accounts eid ev s = (Inr e, s') \<and> mem_ok s' \<and> mem_stored s' = mem_stored s"
    by (simp add: memory_accounts_def mem_logAuditEvent_def mem_stored_def Let_def)
qed

section \<open>Where the adapter departs from what its callers expect\<close>

text \<open>
  Clearing an account's email leaves the old address in the index: the account is still found
  under it.
\<close>

theorem mem_stale_email:
  "let m = snd (mem_createUser ''u1'' ada empty_memory);
       m' = snd (mem_updateUser 9 ''u1'' (no_user_patch\<lparr>p_email := Some None\<rparr>) m)
   in map_option u_email (map_of (m_users m') ''u1'') = Some None
      \<and> (case fst (mem_getUserByEmail ''ada@x'' m') of Inr (Some u) \<Rightarrow> u_id u = ''u1'' | _ \<Rightarrow> False)"
  by code_simp

text \<open>Asking for the last zero events answers with all of them: \<open>slice(-0)\<close> is \<open>slice(0)\<close>.\<close>

theorem mem_recent_zero: "fst (mem_getRecentAuditEvents (Some 0) m) = Inr (rev (m_auditEvents m))"
  by (simp add: mem_getRecentAuditEvents_def)

end
