(* ===== verification/File_Accounts.thy ===== *)
theory File_Accounts
  imports File_Storage Bootstrap Handle_Validator
begin

text \<open>
  The file adapter as a provider of the account contract: its accounts are the list in
  \<open>admin-users.json\<close>.
\<close>

definition file_accounts :: "files account_ops" where
  "file_accounts =
     \<lparr>ao_hasUsers = file_hasUsers, ao_getUserByHandle = file_getUserByHandle,
      ao_getAllUsers = file_getAllUsers, ao_createUser = (\<lambda>now. file_createUser now now),
      ao_deleteUser = file_deleteUser, ao_saveTOTPSecret = file_saveTOTPSecret,
      ao_getTOTPSecret = file_getTOTPSecret, ao_saveBackupCodes = file_saveBackupCodes,
      ao_logAuditEvent = file_logAuditEvent\<rparr>"

lemma file_by_handle:
  "\<exists>r. file_getUserByHandle h f = (Inr r, f)
     \<and> (case r of Some u \<Rightarrow> u \<in> set (f_users f) \<and> toLowerCase (u_handle u) = toLowerCase h
        | None \<Rightarrow> h \<notin> u_handle ` set (f_users f))"
proof (cases "List.find (\<lambda>u. u_handle u = h) (f_users f)")
  case None
  then have "h \<notin> u_handle ` set (f_users f)" by (auto simp: find_None_iff)
  then show ?thesis using None by (simp add: file_getUserByHandle_def)
next
  case (Some u)
  then have "u \<in> set (f_users f)" "u_handle u = h" by (auto simp: find_Some_iff)
  then show ?thesis using Some by (auto simp: file_getUserByHandle_def)
qed

interpretation file_acc: account_storage file_accounts f_users "\<lambda>f. True"
proof
  fix s :: files and h
  show "ao_hasUsers file_accounts s = (Inr (f_users s \<noteq> []), s)"
    by (simp add: file_accounts_def file_hasUsers_def)
  show "\<exists>r. ao_getUserByHandle file_accounts h s = (Inr r, s)
         \<and> (case r of Some u \<Rightarrow> u \<in> set (f_users s) \<and> toLowerCase (u_handle u) = toLowerCase h
            | None \<Rightarrow> h \<notin> u_handle ` set (f_users s))"
    using file_by_handle by (simp add: file_accounts_def)
  show "ao_getAllUsers file_accounts s = (Inr (f_users s), s)"
    by (simp add: file_accounts_def file_getAllUsers_def)
  show "snd (ao_getTOTPSecret file_accounts h s) = s"
    by (simp add: file_accounts_def file_getTOTPSecret_def split: option.splits)
next
  fix s :: files and uid :: string and data :: admin_user and now :: int
  show "\<exists>u s'. ao_createUser file_accounts now uid data s = (Inr u, s') \<and> True
           \<and> created_from uid data u \<and> f_users s' = f_users s @ [u]"
    by (simp add: file_accounts_def file_createUser_def Let_def created_from_def)
qed (simp_all add: file_accounts_def file_saveTOTPSecret_def file_saveBackupCodes_def
    file_logAuditEvent_def Let_def)

end
