(* ===== verification/Account_Guarantees.thy ===== *)
theory Account_Guarantees
  imports Memory_Accounts File_Accounts
begin

text \<open>
  What bootstrap and handle login guarantee on the adapters of the package: the lemmas proved
  over the account contract, read off at its interpretations.
\<close>

definition example_env :: bootstrap_env where
  "example_env =
     \<lparr>be_appName = ''app'', be_bcryptRounds = None, be_backupCodesCount = Some 1,
      be_generateQRCode = (\<lambda>h s i. Inr ''qr''),
      be_encryptTOTPSecret = (\<lambda>h s. Inr
        \<lparr>ts_userId = ''p'', ts_handle = h, ts_encryptedSecret = s, ts_iv = ''i'', ts_authTag = ''t'',
         ts_salt = ''s'', ts_createdAt = Iso 1, ts_lastUsedAt = None, ts_lastUsedTotpStep = None,
         ts_backupCodesGenerated = True, ts_version = 1\<rparr>),
      be_bcrypt = (\<lambda>pw n. ''hash:'' @ pw), be_sha256 = id,
      be_verify = (\<lambda>secret token digits period tolerance epoch. Inr (token = ''123456'')),
      be_authenticator = initial_authenticator_config\<rparr>"

definition example_state :: bootstrap_state where
  "example_state =
     \<lparr>bst_handle = ''ada'', bst_passwordHash = ''h'', bst_displayName = ''Ada'', bst_email = None,
      bst_totpSecret = DUMMY_SECRET, bst_backupCodes = [''AAAA-1111''], bst_timestamp = 5,
      bst_step = 1, bst_profile = None\<rparr>"

text \<open>
  C18. On the file adapter, a bootstrap completes only on a store without accounts, with the
  handle of its state, at most ten minutes after it began, and with an authenticator code that
  verifies against the enrolled secret. The store then holds exactly one account, an active
  super_admin with that handle, the password hash of the state and TOTP on, and every later
  completion, of any state, is refused and changes nothing.
\<close>

theorem bootstrap_creates_only_admin:
  assumes "bs_complete file_accounts env now epoch uid ids eid (Some state) handle code f = (Inr r, f')"
    and "br_success r" "uid \<noteq> []"
  shows "f_users f = [] \<and> bst_handle state = handle \<and> now - bst_timestamp state \<le> 600000
    \<and> bs_verifyCode env epoch (bst_totpSecret state) code
    \<and> (\<exists>u. f_users f' = [u] \<and> u_id u = uid \<and> u_handle u = handle \<and> u_role u = ''super_admin''
          \<and> u_passwordHash u = bst_passwordHash state \<and> u_isActive u \<and> u_totpEnabled u)
    \<and> (\<forall>env' now' epoch' uid' ids' eid' state' handle' code'.
          \<exists>r'. bs_complete file_accounts env' now' epoch' uid' ids' eid' state' handle' code' f' = (Inr r', f')
             \<and> \<not> br_success r')"
proof -
  have run: "fst (bs_complete file_accounts env now epoch uid ids eid (Some state) handle code f) = Inr r"
    using assms(1) by simp
  note guards = bs_complete_guards [OF run assms(2)]
  have empty: "f_users f = []"
    using guards(4) file_acc.has_users_law [OF TrueI, of f] by simp
  obtain u where u: "f_users f' = [u]" "created_from uid (bootstrap_account now now state) u"
    using file_acc.complete_stored [OF TrueI empty assms(3), of env now epoch ids eid state handle code]
      assms(1,2) by auto
  have "u_id u = uid \<and> u_handle u = handle \<and> u_role u = ''super_admin''
      \<and> u_passwordHash u = bst_passwordHash state \<and> u_isActive u \<and> u_totpEnabled u"
    using created_fromD [OF u(2)] guards(1) by (simp add: bootstrap_account_def)
  moreover have "\<exists>r'. bs_complete file_accounts env' now' epoch' uid' ids' eid' state' handle' code' f' = (Inr r', f')
             \<and> \<not> br_success r'" for env' now' epoch' uid' ids' eid' state' handle' code'
    using file_acc.complete_refused [OF TrueI, of f'] u(1) by simp
  ultimately show ?thesis
    using empty guards(1-3) u(1) by blast
qed

theorem bootstrap_creates_only_admin_witness:
  "\<exists>r f' u. bs_complete file_accounts example_env 6 0 ''u1'' [''i''] ''e'' (Some example_state) ''ada'' ''123456''
       empty_files = (Inr r, f') \<and> f_users f' = [u] \<and> u_role u = ''super_admin''"
proof -
  let ?run = "bs_complete file_accounts example_env 6 0 ''u1'' [''i''] ''e'' (Some example_state) ''ada'' ''123456''
       empty_files"
  have ok: "(case fst ?run of Inr r \<Rightarrow> br_success r | Inl e \<Rightarrow> False)" by code_simp
  then obtain r where r: "fst ?run = Inr r" "br_success r" by (cases "fst ?run") simp_all
  then have run: "?run = (Inr r, snd ?run)" by (metis prod.collapse)
  from bootstrap_creates_only_admin [OF run r(2)] run show ?thesis by blast
qed

text \<open>
  On the in-memory adapter, in any well-formed state, a password login by handle answers
  only with an active stored account of that handle whose hash the password matches; adding a
  handle that is taken is refused without a change; and after a free handle was added, its
  password logs in as the account that was made.
\<close>

theorem handle_login_sound:
  assumes "mem_ok m"
  shows "(\<forall>uid. fst (validateHandle memory_accounts compare h pw m) = Inr (Some uid) \<longrightarrow>
        (\<exists>u \<in> set (mem_stored m). u_id u = uid \<and> u_isActive u
           \<and> toLowerCase (u_handle u) = toLowerCase h \<and> compare pw (u_passwordHash u) = Inr True))
    \<and> (h \<in> u_handle ` set (mem_stored m) \<longrightarrow>
        addHandle memory_accounts bcrypt now new h pw m = (Inr False, m))
    \<and> (new \<noteq> [] \<and> new \<notin> u_id ` set (mem_stored m)
        \<and> toLowerCase h \<notin> (toLowerCase \<circ> u_handle) ` set (mem_stored m)
        \<and> compare pw (bcrypt pw 12) = Inr True \<longrightarrow>
        fst (addHandle memory_accounts bcrypt now new h pw m) = Inr True
        \<and> fst (validateHandle memory_accounts compare h pw
                 (snd (addHandle memory_accounts bcrypt now new h pw m))) = Inr (Some new))"
proof (intro conjI allI impI)
  fix uid
  assume "fst (validateHandle memory_accounts compare h pw m) = Inr (Some uid)"
  then show "\<exists>u \<in> set (mem_stored m). u_id u = uid \<and> u_isActive u
           \<and> toLowerCase (u_handle u) = toLowerCase h \<and> compare pw (u_passwordHash u) = Inr True"
    using mem_accounts.validateHandle_result [OF assms, of compare h pw] by auto
next
  assume "h \<in> u_handle ` set (mem_stored m)"
  then show "addHandle memory_accounts bcrypt now new h pw m = (Inr False, m)"
    using mem_accounts.addHandle_taken [OF assms] by blast
next
  assume free: "new \<noteq> [] \<and> new \<notin> u_id ` set (mem_stored m)
        \<and> toLowerCase h \<notin> (toLowerCase \<circ> u_handle) ` set (mem_stored m)
        \<and> compare pw (bcrypt pw 12) = Inr True"
  then obtain s' where "addHandle memory_accounts bcrypt now new h pw m = (Inr True, s')"
      "fst (validateHandle memory_accounts compare h pw s') = Inr (Some new)"
    using mem_accounts.addHandle_then_login [OF assms, of new h compare pw bcrypt now] by blast
  then show "fst (addHandle memory_accounts bcrypt now new h pw m) = Inr True"
      "fst (validateHandle memory_accounts compare h pw
                 (snd (addHandle memory_accounts bcrypt now new h pw m))) = Inr (Some new)"
    by simp_all
qed

theorem handle_login_sound_witness:
  "fst (validateHandle memory_accounts (\<lambda>pw hash. Inr (hash = pw)) ''Ada'' ''pw''
     (snd (addHandle memory_accounts (\<lambda>pw n. pw) 1 ''u1'' ''Ada'' ''pw'' empty_memory))) = Inr (Some ''u1'')"
proof -
  have "''u1'' \<noteq> [] \<and> ''u1'' \<notin> u_id ` set (mem_stored empty_memory)
        \<and> toLowerCase ''Ada'' \<notin> (toLowerCase \<circ> u_handle) ` set (mem_stored empty_memory)
        \<and> (\<lambda>pw hash. Inr (hash = pw)) ''pw'' ((\<lambda>pw n. pw) ''pw'' (12 :: int)) = (Inr True :: bool result)"
    by (simp add: mem_stored_def empty_memory_def)
  then show ?thesis
    using handle_login_sound [OF mem_ok_empty, of "\<lambda>pw hash. Inr (hash = pw)" "''Ada''" "''pw''" "\<lambda>pw n. pw" 1 "''u1''"]
    by blast
qed

end
