(* ===== verification/Audit_Logger.thy ===== *)
theory Audit_Logger
  imports Memory_Storage File_Storage
begin

text \<open>
  The buffered audit logger of \<open>src/modules/audit/index.ts\<close>: events are queued and written to
  the storage when a timer fires, when a critical event arrives or when the buffer is full.

  The first part models the methods as they run alone. The second part is a step relation in
  which calls, the timer and the writes of several flushes interleave at the \<open>await\<close>s, as they
  do on the JavaScript event loop.
\<close>

section \<open>The storage interface\<close>

text \<open>\<open>AuditStorage\<close>: its operations, and what the adapters promise of the trail they keep.\<close>

record 's audit_ops =
  au_logAuditEvent :: "string \<Rightarrow> audit_event \<Rightarrow> ('s, audit_event) op"
  au_getAuditEvents :: "audit_event_filters \<Rightarrow> ('s, audit_event list) op"
  au_getRecentAuditEvents :: "int option \<Rightarrow> ('s, audit_event list) op"

definition no_filters :: audit_event_filters where
  "no_filters =
     \<lparr>af_type = None, af_userId = None, af_startDate = None, af_endDate = None,
      af_severity = None, af_limit = None, af_offset = None\<rparr>"

locale audit_storage =
  fixes st :: "'s audit_ops"
    and trail :: "'s \<Rightarrow> audit_event list"
  assumes log_law:
      "\<exists>s'. au_logAuditEvent st eid e s = (Inr (e\<lparr>ae_id := eid\<rparr>), s')
         \<and> trail s' = slice_last 10000 (trail s @ [e\<lparr>ae_id := eid\<rparr>])"
    and recent_law:
      "0 < n \<Longrightarrow> au_getRecentAuditEvents st (Some (int n)) s = (Inr (rev (slice_last n (trail s))), s)"
    and window_law:
      "\<exists>n \<ge> 100. au_getAuditEvents st (no_filters\<lparr>af_type := Some ty, af_startDate := Some d\<rparr>) s
         = (Inr (take n (filter (\<lambda>e. ae_type e = ty \<and> at_or_after (ae_timestamp e) d) (trail s))), s)"

section \<open>The logger\<close>

record audit_logger_config =
  alc_enabled :: bool
  alc_flushInterval :: "int option"
  alc_maxBufferSize :: "int option"
  alc_externalLogger :: bool

text \<open>
  The configuration names whether an external logger is installed: its answer and its errors
  are ignored, so only the point where the call waits for it matters.

  The logger's state: the queue, whether the field \<open>flushTimer\<close> is set, whether the timeout it
  stands for is still to run, and the storage.
\<close>

record 's audit_logger =
  al_buffer :: "audit_event list"
  al_flushTimer :: bool
  al_scheduled :: bool
  al_store :: 's

record audit_context =
  ac_userId :: "string option"
  ac_targetUserId :: "string option"
  ac_handle :: "string option"
  ac_ipAddress :: "string option"
  ac_userAgent :: "string option"
  ac_source :: "audit_source option"

definition getSeverityForEventType :: "audit_event_type \<Rightarrow> audit_severity" where
  "getSeverityForEventType t =
     (if t \<in> set [USER_DELETED, ROLE_CHANGED, TOTP_DISABLED] then Critical
      else if t \<in> set [ACCOUNT_LOCKED, TOTP_FAILURE, LOGIN_FAILURE, BACKUP_CODE_USED] then Warning
      else Info)"

definition al_event ::
  "int \<Rightarrow> audit_event_type \<Rightarrow> (string \<times> string) list \<Rightarrow> audit_context option \<Rightarrow> audit_event" where
  "al_event now t details context =
     \<lparr>ae_id = [], ae_timestamp = Iso now, ae_type = t,
      ae_userId = Option.bind context ac_userId,
      ae_targetUserId = Option.bind context ac_targetUserId,
      ae_handle = Option.bind context ac_handle,
      ae_ipAddress = Option.bind context ac_ipAddress,
      ae_userAgent = Option.bind context ac_userAgent,
      ae_details = details, ae_severity = getSeverityForEventType t,
      ae_source = nullish (Option.bind context ac_source) From_system\<rparr>"

definition maxBufferSize :: "audit_logger_config \<Rightarrow> int" where
  "maxBufferSize cfg = num_or (alc_maxBufferSize cfg) 100"

text \<open>\<open>for (const event of eventsToWrite)\<close>; \<open>ids\<close> gives the id of each write.\<close>

fun al_write_all :: "'s audit_ops \<Rightarrow> (nat \<Rightarrow> string) \<Rightarrow> audit_event list \<Rightarrow> ('s, unit) op" where
  "al_write_all st ids [] = return_op ()"
| "al_write_all st ids (e # es) =
     bind_op (au_logAuditEvent st (ids 0) e) (\<lambda>_. al_write_all st (\<lambda>n. ids (Suc n)) es)"

definition al_take :: "'s audit_logger \<Rightarrow> 's audit_logger" where
  "al_take l = l\<lparr>al_buffer := [], al_flushTimer := False,
                 al_scheduled := (if al_flushTimer l then False else al_scheduled l)\<rparr>"

definition al_restore :: "audit_event list \<Rightarrow> 's audit_logger \<Rightarrow> 's audit_logger" where
  "al_restore eventsToWrite l = l\<lparr>al_buffer := eventsToWrite @ al_buffer l\<rparr>"

definition al_flush :: "'s audit_ops \<Rightarrow> (nat \<Rightarrow> string) \<Rightarrow> ('s audit_logger, unit) op" where
  "al_flush st ids = (\<lambda>l.
     if al_buffer l = [] then (Inr (), l)
     else let eventsToWrite = al_buffer l; l = al_take l
          in case al_write_all st ids eventsToWrite (al_store l) of
               (Inr _, s) \<Rightarrow> (Inr (), l\<lparr>al_store := s\<rparr>)
             | (Inl _, s) \<Rightarrow> (Inr (), al_restore eventsToWrite (l\<lparr>al_store := s\<rparr>)))"

definition al_push :: "audit_event \<Rightarrow> 's audit_logger \<Rightarrow> 's audit_logger" where
  "al_push event l = l\<lparr>al_buffer := al_buffer l @ [event]\<rparr>"

definition al_arm :: "'s audit_logger \<Rightarrow> 's audit_logger" where
  "al_arm l = (if \<not> al_flushTimer l then l\<lparr>al_flushTimer := True, al_scheduled := True\<rparr> else l)"

definition al_must_flush :: "audit_logger_config \<Rightarrow> audit_event \<Rightarrow> 's audit_logger \<Rightarrow> bool" where
  "al_must_flush cfg event l \<longleftrightarrow>
     ae_severity event = Critical \<or> maxBufferSize cfg \<le> int (length (al_buffer l))"

definition al_log ::
  "'s audit_ops \<Rightarrow> audit_logger_config \<Rightarrow> int \<Rightarrow> (nat \<Rightarrow> string) \<Rightarrow> audit_event_type
     \<Rightarrow> (string \<times> string) list \<Rightarrow> audit_context option \<Rightarrow> ('s audit_logger, unit) op" where
  "al_log st cfg now ids t details context = (\<lambda>l.
     if \<not> alc_enabled cfg then (Inr (), l)
     else let event = al_event now t details context;
              l = al_arm (al_push event l)
          in if al_must_flush cfg event l then al_flush st ids l else (Inr (), l))"

definition al_close :: "'s audit_ops \<Rightarrow> (nat \<Rightarrow> string) \<Rightarrow> ('s audit_logger, unit) op" where
  "al_close st ids = al_flush st ids"

text \<open>The reading methods leave the logger alone and ask the storage.\<close>

definition logger_store :: "('s, 'a) op \<Rightarrow> ('s audit_logger, 'a) op" where
  "logger_store f = (\<lambda>l. case f (al_store l) of (r, s) \<Rightarrow> (r, l\<lparr>al_store := s\<rparr>))"

definition al_query :: "'s audit_ops \<Rightarrow> audit_event_filters \<Rightarrow> ('s audit_logger, audit_event list) op" where
  "al_query st filters = logger_store (au_getAuditEvents st filters)"

definition al_getRecentEvents :: "'s audit_ops \<Rightarrow> int option \<Rightarrow> ('s audit_logger, audit_event list) op" where
  "al_getRecentEvents st limit = logger_store (au_getRecentAuditEvents st (Some (nullish limit 100)))"

definition attempt_key :: "audit_event \<Rightarrow> string" where
  "attempt_key e =
     str_or (map_of (ae_details e) ''handle'') (str_or (ae_ipAddress e) ''unknown'')"

definition count_attempt :: "int jsmap \<Rightarrow> audit_event \<Rightarrow> int jsmap" where
  "count_attempt attempts event =
     (let key = attempt_key event
      in map_set key (nullish (map_of attempts key) 0 + 1) attempts)"

definition al_getFailedLoginAttempts ::
  "'s audit_ops \<Rightarrow> int \<Rightarrow> int option \<Rightarrow> ('s audit_logger, int jsmap) op" where
  "al_getFailedLoginAttempts st now timeWindowMs =
     bind_op (al_query st (no_filters\<lparr>af_type := Some LOGIN_FAILURE,
                             af_startDate := Some (now - nullish timeWindowMs (15 * 60 * 1000))\<rparr>))
       (\<lambda>events. return_op (foldl count_attempt [] events))"

section \<open>What the adapters promise\<close>

definition memory_audit :: "memory audit_ops" where
  "memory_audit =
     \<lparr>au_logAuditEvent = mem_logAuditEvent, au_getAuditEvents = mem_getAuditEvents,
      au_getRecentAuditEvents = mem_getRecentAuditEvents\<rparr>"

definition file_audit :: "files audit_ops" where
  "file_audit =
     \<lparr>au_logAuditEvent = file_logAuditEvent, au_getAuditEvents = file_getAuditEvents,
      au_getRecentAuditEvents = file_getRecentAuditEvents\<rparr>"

interpretation maudit: audit_storage memory_audit m_auditEvents
proof
  fix eid e and s :: memory
  show "\<exists>s'. au_logAuditEvent memory_audit eid e s = (Inr (e\<lparr>ae_id := eid\<rparr>), s')
         \<and> m_auditEvents s' = slice_last 10000 (m_auditEvents s @ [e\<lparr>ae_id := eid\<rparr>])"
    using js_slice_from_end [of 10000 "m_auditEvents s @ [e\<lparr>ae_id := eid\<rparr>]"]
    by (auto simp: memory_audit_def mem_logAuditEvent_def Let_def slice_last_all)
next
  fix n :: nat and s :: memory
  assume "0 < n"
  then show "au_getRecentAuditEvents memory_audit (Some (int n)) s
      = (Inr (rev (slice_last n (m_auditEvents s))), s)"
    by (simp add: memory_audit_def mem_getRecentAuditEvents_def js_slice_from_end)
next
  fix ty d and s :: memory
  let ?xs = "filter (\<lambda>e. ae_type e = ty \<and> at_or_after (ae_timestamp e) d) (m_auditEvents s)"
  have "au_getAuditEvents memory_audit (no_filters\<lparr>af_type := Some ty, af_startDate := Some d\<rparr>) s
      = (Inr ?xs, s)"
    by (simp add: memory_audit_def mem_getAuditEvents_def no_filters_def when_given_def
        truthy_num_def conj_commute)
  then show "\<exists>n \<ge> 100. au_getAuditEvents memory_audit
        (no_filters\<lparr>af_type := Some ty, af_startDate := Some d\<rparr>) s = (Inr (take n ?xs), s)"
    by (intro exI [of _ "max 100 (length ?xs)"]) simp
qed

interpretation faudit: audit_storage file_audit f_audit
proof
  fix eid e and s :: files
  show "\<exists>s'. au_logAuditEvent file_audit eid e s = (Inr (e\<lparr>ae_id := eid\<rparr>), s')
         \<and> f_audit s' = slice_last 10000 (f_audit s @ [e\<lparr>ae_id := eid\<rparr>])"
    by (auto simp: file_audit_def file_logAuditEvent_def Let_def slice_last_def)
next
  fix n :: nat and s :: files
  assume "0 < n"
  then show "au_getRecentAuditEvents file_audit (Some (int n)) s
      = (Inr (rev (slice_last n (f_audit s))), s)"
    by (simp add: file_audit_def file_getRecentAuditEvents_def js_slice_from_end)
next
  fix ty d and s :: files
  let ?xs = "filter (\<lambda>e. ae_type e = ty \<and> at_or_after (ae_timestamp e) d) (f_audit s)"
  have "au_getAuditEvents file_audit (no_filters\<lparr>af_type := Some ty, af_startDate := Some d\<rparr>) s
      = (Inr (take 100 ?xs), s)"
    by (simp add: file_audit_def file_getAuditEvents_def no_filters_def when_given_def num_or_def
        js_slice_prefix conj_commute)
  then show "\<exists>n \<ge> 100. au_getAuditEvents file_audit
        (no_filters\<lparr>af_type := Some ty, af_startDate := Some d\<rparr>) s = (Inr (take n ?xs), s)"
    by auto
qed

section \<open>The logger over any adapter\<close>

fun numbered :: "(nat \<Rightarrow> string) \<Rightarrow> audit_event list \<Rightarrow> audit_event list" where
  "numbered ids [] = []"
| "numbered ids (e # es) = e\<lparr>ae_id := ids 0\<rparr> # numbered (\<lambda>n. ids (Suc n)) es"

definition attempts_by :: "string \<Rightarrow> audit_event list \<Rightarrow> int" where
  "attempts_by key es = int (length (filter (\<lambda>e. attempt_key e = key) es))"

definition failures_since :: "int \<Rightarrow> audit_event list \<Rightarrow> audit_event list" where
  "failures_since d es =
     filter (\<lambda>e. ae_type e = LOGIN_FAILURE \<and> at_or_after (ae_timestamp e) d) es"

lemma foldl_count_attempt:
  "nullish (map_of (foldl count_attempt acc es) key) 0
     = nullish (map_of acc key) 0 + attempts_by key es"
  by (induction es arbitrary: acc) (auto simp: count_attempt_def attempts_by_def Let_def)

context audit_storage
begin

lemma write_all_trail:
  "\<exists>s'. al_write_all st ids es s = (Inr (), s')
     \<and> (length (trail s) \<le> 10000 \<longrightarrow>
          trail s' = slice_last 10000 (trail s @ numbered ids es))"
proof (induction es arbitrary: ids s)
  case Nil
  then show ?case by (simp add: slice_last_all)
next
  case (Cons e es)
  obtain s1 where one: "au_logAuditEvent st (ids 0) e s = (Inr (e\<lparr>ae_id := ids 0\<rparr>), s1)"
      "trail s1 = slice_last 10000 (trail s @ [e\<lparr>ae_id := ids 0\<rparr>])"
    using log_law by blast
  obtain s2 where two: "al_write_all st (\<lambda>n. ids (Suc n)) es s1 = (Inr (), s2)"
      "length (trail s1) \<le> 10000 \<longrightarrow>
         trail s2 = slice_last 10000 (trail s1 @ numbered (\<lambda>n. ids (Suc n)) es)"
    using Cons.IH by blast
  have "al_write_all st ids (e # es) s = (Inr (), s2)"
    using one(1) two(1) by simp
  moreover have "trail s2 = slice_last 10000 (trail s @ numbered ids (e # es))"
    using two(2) by (simp add: one(2) slice_last_append)
  ultimately show ?case by blast
qed

lemma flush_complete:
  assumes "length (trail (al_store l)) \<le> 10000"
  shows "\<exists>l'. al_flush st ids l = (Inr (), l') \<and> al_buffer l' = []
     \<and> trail (al_store l') = slice_last 10000 (trail (al_store l) @ numbered ids (al_buffer l))"
proof (cases "al_buffer l = []")
  case True
  then show ?thesis using assms by (simp add: al_flush_def slice_last_all)
next
  case False
  obtain s' where "al_write_all st ids (al_buffer l) (al_store l) = (Inr (), s')"
      "trail s' = slice_last 10000 (trail (al_store l) @ numbered ids (al_buffer l))"
    using write_all_trail [of ids "al_buffer l" "al_store l"] assms by blast
  then show ?thesis using False by (simp add: al_flush_def al_take_def Let_def)
qed

lemma log_flushes:
  assumes "alc_enabled cfg" "length (trail (al_store l)) \<le> 10000"
    "getSeverityForEventType t = Critical \<or> maxBufferSize cfg \<le> int (length (al_buffer l)) + 1"
  shows "\<exists>l'. al_log st cfg now ids t details ctx l = (Inr (), l') \<and> al_buffer l' = []
     \<and> trail (al_store l') = slice_last 10000
          (trail (al_store l) @ numbered ids (al_buffer l @ [al_event now t details ctx]))"
proof -
  define l1 where "l1 = al_arm (al_push (al_event now t details ctx) l)"
  have l1: "al_store l1 = al_store l" "al_buffer l1 = al_buffer l @ [al_event now t details ctx]"
    by (simp_all add: l1_def al_arm_def al_push_def)
  have "al_must_flush cfg (al_event now t details ctx) l1"
    using assms(3) l1(2) by (auto simp: al_must_flush_def al_event_def)
  then have "al_log st cfg now ids t details ctx l = al_flush st ids l1"
    using assms(1) by (simp add: al_log_def Let_def l1_def)
  then show ?thesis using flush_complete [of l1 ids] assms(2) l1 by simp
qed

lemma failed_attempts_exact:
  assumes "length (failures_since (now - w) (trail (al_store l))) \<le> 100"
  shows "\<exists>m. al_getFailedLoginAttempts st now (Some w) l = (Inr m, l)
     \<and> nullish (map_of m key) 0 = attempts_by key (failures_since (now - w) (trail (al_store l)))"
proof -
  obtain n where n: "100 \<le> n"
    and q: "au_getAuditEvents st (no_filters\<lparr>af_type := Some LOGIN_FAILURE, af_startDate := Some (now - w)\<rparr>)
       (al_store l) = (Inr (take n (failures_since (now - w) (trail (al_store l)))), al_store l)"
    using window_law [where ty = LOGIN_FAILURE and d = "now - w" and s = "al_store l"] by (auto simp: failures_since_def)
  have "take n (failures_since (now - w) (trail (al_store l))) = failures_since (now - w) (trail (al_store l))"
    using n assms by simp
  then show ?thesis
    using q by (simp add: al_getFailedLoginAttempts_def bind_op_def al_query_def logger_store_def
        foldl_count_attempt)
qed

end

end
