(* ===== verification/Audit_Guarantees.thy ===== *)
theory Audit_Guarantees
  imports Audit_Logger
begin

text \<open>
  What the audit logger guarantees: over the two adapters when its methods run alone, and in
  every interleaving of calls, timer and writes of the step relation below.
\<close>

section \<open>Interleaved runs\<close>

text \<open>
  A run of the logger: its state, the \<open>log\<close> calls waiting for the external logger, and the
  flushes that are writing, each with the events it took and those it has still to write. Three
  history fields record the events accepted, the events the storage acknowledged, and whether a
  write was ever rejected.
\<close>

record 's logger_run =
  lr_logger :: "'s audit_logger"
  lr_suspended :: "audit_event list"
  lr_flushes :: "(audit_event list \<times> audit_event list) list"
  lr_accepted :: "audit_event list"
  lr_written :: "audit_event list"
  lr_failed :: bool

definition start_run :: "'s \<Rightarrow> 's logger_run" where
  "start_run s =
     \<lparr>lr_logger = \<lparr>al_buffer = [], al_flushTimer = False, al_scheduled = False, al_store = s\<rparr>,
      lr_suspended = [], lr_flushes = [], lr_accepted = [], lr_written = [], lr_failed = False\<rparr>"

text \<open>\<open>flush\<close> up to its first write.\<close>

definition begin_flush :: "'s logger_run \<Rightarrow> 's logger_run" where
  "begin_flush r =
     (if al_buffer (lr_logger r) = [] then r
      else r\<lparr>lr_logger := al_take (lr_logger r),
             lr_flushes := lr_flushes r @ [(al_buffer (lr_logger r), al_buffer (lr_logger r))]\<rparr>)"

text \<open>\<open>log\<close> up to the external logger, and from there on.\<close>

definition enter_log :: "audit_event \<Rightarrow> 's logger_run \<Rightarrow> 's logger_run" where
  "enter_log e r = r\<lparr>lr_logger := al_push e (lr_logger r), lr_accepted := e # lr_accepted r\<rparr>"

definition finish_log :: "audit_logger_config \<Rightarrow> audit_event \<Rightarrow> 's logger_run \<Rightarrow> 's logger_run" where
  "finish_log cfg e r =
     (let r = r\<lparr>lr_logger := al_arm (lr_logger r)\<rparr>
      in if al_must_flush cfg e (lr_logger r) then begin_flush r else r)"

definition fire_timer :: "'s logger_run \<Rightarrow> 's logger_run" where
  "fire_timer r = begin_flush (r\<lparr>lr_logger := (lr_logger r)\<lparr>al_scheduled := False\<rparr>\<rparr>)"

inductive logger_step ::
  "'s audit_ops \<Rightarrow> audit_logger_config \<Rightarrow> 's logger_run \<Rightarrow> 's logger_run \<Rightarrow> bool" for st cfg where
  log_now: "\<lbrakk>alc_enabled cfg; \<not> alc_externalLogger cfg\<rbrakk>
    \<Longrightarrow> logger_step st cfg r (finish_log cfg e (enter_log e r))"
| log_wait: "\<lbrakk>alc_enabled cfg; alc_externalLogger cfg\<rbrakk>
    \<Longrightarrow> logger_step st cfg r ((enter_log e r)\<lparr>lr_suspended := lr_suspended r @ [e]\<rparr>)"
| log_resume: "e \<in> set (lr_suspended r)
    \<Longrightarrow> logger_step st cfg r (finish_log cfg e (r\<lparr>lr_suspended := remove1 e (lr_suspended r)\<rparr>))"
| timer: "al_scheduled (lr_logger r) \<Longrightarrow> logger_step st cfg r (fire_timer r)"
| flush_call: "logger_step st cfg r (begin_flush r)"
| write_ok: "\<lbrakk>i < length (lr_flushes r); lr_flushes r ! i = (es, x # xs);
     au_logAuditEvent st eid x (al_store (lr_logger r)) = (Inr y, s')\<rbrakk>
    \<Longrightarrow> logger_step st cfg r
          (r\<lparr>lr_logger := (lr_logger r)\<lparr>al_store := s'\<rparr>,
             lr_flushes := (lr_flushes r)[i := (es, xs)], lr_written := x # lr_written r\<rparr>)"
| write_fails: "\<lbrakk>i < length (lr_flushes r); lr_flushes r ! i = (es, x # xs);
     au_logAuditEvent st eid x (al_store (lr_logger r)) = (Inl y, s')\<rbrakk>
    \<Longrightarrow> logger_step st cfg r
          (r\<lparr>lr_logger := al_restore es ((lr_logger r)\<lparr>al_store := s'\<rparr>),
             lr_flushes := remove_at i (lr_flushes r), lr_failed := True\<rparr>)"

inductive_cases logger_stepE: "logger_step st cfg r r'"

definition logger_reachable ::
  "'s audit_ops \<Rightarrow> audit_logger_config \<Rightarrow> 's \<Rightarrow> 's logger_run \<Rightarrow> bool" where
  "logger_reachable st cfg s r \<longleftrightarrow> (logger_step st cfg)\<^sup>*\<^sup>* (start_run s) r"

lemma reachable_start [simp]: "logger_reachable st cfg s (start_run s)"
  by (simp add: logger_reachable_def)

lemma reachable_step:
  "logger_reachable st cfg s r \<Longrightarrow> logger_step st cfg r r' \<Longrightarrow> logger_reachable st cfg s r'"
  by (auto simp: logger_reachable_def)

lemma reachable_induct [consumes 1, case_names start step]:
  assumes "logger_reachable st cfg s r" "P (start_run s)"
    "\<And>r r'. P r \<Longrightarrow> logger_step st cfg r r' \<Longrightarrow> P r'"
  shows "P r"
  using assms(1) unfolding logger_reachable_def
  by (induction rule: rtranclp_induct) (use assms in auto)

section \<open>No event is lost\<close>

definition in_flight :: "'s logger_run \<Rightarrow> audit_event set" where
  "in_flight r = (\<Union>(es, rest) \<in> set (lr_flushes r). set rest)"

text \<open>Each flush has written what it no longer has to write, and every accepted event is somewhere.\<close>

definition accounted :: "'s logger_run \<Rightarrow> bool" where
  "accounted r \<longleftrightarrow>
     set (lr_accepted r) \<subseteq> set (lr_written r) \<union> set (al_buffer (lr_logger r)) \<union> in_flight r
     \<and> (\<forall>(es, rest) \<in> set (lr_flushes r). set rest \<subseteq> set es)"

lemma accounted_start: "accounted (start_run s)"
  by (simp add: accounted_def start_run_def)

lemma accounted_enter: "accounted r \<Longrightarrow> accounted (enter_log e r)"
  by (auto simp: accounted_def enter_log_def al_push_def in_flight_def)

lemma accounted_begin: "accounted r \<Longrightarrow> accounted (begin_flush r)"
  by (auto simp: accounted_def begin_flush_def al_take_def in_flight_def)

lemma accounted_logger:
  "accounted r \<Longrightarrow> al_buffer l = al_buffer (lr_logger r) \<Longrightarrow> accounted (r\<lparr>lr_logger := l\<rparr>)"
  by (auto simp: accounted_def in_flight_def)

lemma accounted_suspended: "accounted (r\<lparr>lr_suspended := x\<rparr>) = accounted r"
  by (simp add: accounted_def in_flight_def)

lemma accounted_finish: "accounted r \<Longrightarrow> accounted (finish_log cfg e r)"
  by (auto simp: finish_log_def Let_def al_arm_def intro!: accounted_begin accounted_logger)

lemma accounted_write:
  assumes "accounted r" "i < length (lr_flushes r)" "lr_flushes r ! i = (es, x # xs)"
  shows "accounted (r\<lparr>lr_logger := (lr_logger r)\<lparr>al_store := s'\<rparr>,
             lr_flushes := (lr_flushes r)[i := (es, xs)], lr_written := x # lr_written r\<rparr>)"
proof -
  have split: "lr_flushes r = take i (lr_flushes r) @ (es, x # xs) # drop (Suc i) (lr_flushes r)"
    using assms(2,3) id_take_nth_drop by metis
  have upd: "(lr_flushes r)[i := (es, xs)]
      = take i (lr_flushes r) @ (es, xs) # drop (Suc i) (lr_flushes r)"
    using assms(2) by (simp add: upd_conv_take_nth_drop)
  have "set (lr_flushes r) = set (take i (lr_flushes r)) \<union> {(es, x # xs)} \<union> set (drop (Suc i) (lr_flushes r))"
    by (subst split) auto
  then show ?thesis
    using assms(1) by (auto simp: accounted_def in_flight_def upd)
qed

lemma accounted_write_fails:
  assumes "accounted r" "i < length (lr_flushes r)" "lr_flushes r ! i = (es, x # xs)"
  shows "accounted (r\<lparr>lr_logger := al_restore es ((lr_logger r)\<lparr>al_store := s'\<rparr>),
             lr_flushes := remove_at i (lr_flushes r), lr_failed := True\<rparr>)"
proof -
  have split: "lr_flushes r = take i (lr_flushes r) @ (es, x # xs) # drop (Suc i) (lr_flushes r)"
    using assms(2,3) id_take_nth_drop by metis
  have "set (lr_flushes r) = set (take i (lr_flushes r)) \<union> {(es, x # xs)} \<union> set (drop (Suc i) (lr_flushes r))"
    by (subst split) auto
  then show ?thesis
    using assms(1) by (auto simp: accounted_def in_flight_def al_restore_def remove_at_def)
qed

lemma accounted_step: "logger_step st cfg r r' \<Longrightarrow> accounted r \<Longrightarrow> accounted r'"
  by (induction rule: logger_step.induct)
    (simp_all add: accounted_suspended accounted_enter accounted_finish accounted_begin
      accounted_write accounted_write_fails fire_timer_def accounted_logger)

section \<open>Queued events have a timer\<close>

text \<open>
  Without an external logger, and as long as no write is rejected, the timer is set exactly
  while events are queued, and its timeout is still to run.
\<close>

definition timed :: "'s logger_run \<Rightarrow> bool" where
  "timed r \<longleftrightarrow> lr_failed r
     \<or> (al_flushTimer (lr_logger r) = (al_buffer (lr_logger r) \<noteq> [])
        \<and> al_scheduled (lr_logger r) = (al_buffer (lr_logger r) \<noteq> []))"

lemma timed_begin: "timed r \<Longrightarrow> timed (begin_flush r)"
  by (auto simp: timed_def begin_flush_def al_take_def)

lemma timed_log: "timed r \<Longrightarrow> timed (finish_log cfg e (enter_log e r))"
  by (auto simp: timed_def finish_log_def enter_log_def begin_flush_def al_take_def al_arm_def
      al_push_def Let_def)

lemma timed_step:
  assumes "logger_step st cfg r r'" "\<not> alc_externalLogger cfg" "timed r" "lr_suspended r = []"
  shows "timed r' \<and> lr_suspended r' = []"
  using assms
proof (induction rule: logger_step.induct)
  case (log_now r e)
  then show ?case
    using timed_log [of r cfg e]
    by (simp add: finish_log_def enter_log_def begin_flush_def Let_def)
next
  case (timer r)
  then show ?case
    by (auto simp: timed_def fire_timer_def begin_flush_def al_take_def)
next
  case (flush_call r)
  then show ?case
    using timed_begin [of r] by (simp add: begin_flush_def)
qed (simp_all add: timed_def al_restore_def)

section \<open>Properties\<close>

text \<open>
  C20. No accepted audit event is lost, whatever the storage does and however the calls, the
  timer and the writes of several flushes interleave: in every reachable state each event that
  \<open>log\<close> queued was acknowledged by the storage, is in the queue, or is still to be written by a
  flush under way.
\<close>

theorem audit_no_event_lost:
  assumes "logger_reachable st cfg s r"
  shows "set (lr_accepted r) \<subseteq> set (lr_written r) \<union> set (al_buffer (lr_logger r)) \<union> in_flight r"
proof -
  have "accounted r"
    using assms by (induction rule: reachable_induct) (auto intro: accounted_start accounted_step)
  then show ?thesis by (simp add: accounted_def)
qed

text \<open>
  Without an external logger, as long as the storage rejected no write, an event that is
  waiting in the queue has a timeout under way, and when the timeout runs a flush takes the whole
  queue.
\<close>

theorem audit_events_scheduled:
  assumes "logger_reachable st cfg s r" "\<not> alc_externalLogger cfg" "\<not> lr_failed r"
    and "al_buffer (lr_logger r) \<noteq> []"
  shows "al_scheduled (lr_logger r) \<and> logger_step st cfg r (fire_timer r)
     \<and> al_buffer (lr_logger (fire_timer r)) = []
     \<and> (\<exists>es. (es, al_buffer (lr_logger r)) \<in> set (lr_flushes (fire_timer r)))"
proof -
  have "timed r \<and> lr_suspended r = []"
    using assms(1)
    by (induction rule: reachable_induct) (auto simp: timed_def start_run_def
        dest: timed_step [OF _ assms(2)])
  then have "al_scheduled (lr_logger r)"
    using assms(3,4) by (auto simp: timed_def)
  with logger_step.timer [OF this, of st cfg] show ?thesis
    using assms(4) by (auto simp: fire_timer_def begin_flush_def al_take_def)
qed

text \<open>
  A critical event (a deleted user, a changed role, a disabled second factor), and any event
  that fills the buffer, is stored together with everything queued before it when \<open>log\<close> returns:
  the file adapter's audit log then ends with the queued events in order, each under its id, cut
  to the last 10000.
\<close>

theorem critical_event_stored:
  assumes "alc_enabled cfg" "length (f_audit (al_store l)) \<le> 10000"
    and "getSeverityForEventType t = Critical \<or> maxBufferSize cfg \<le> int (length (al_buffer l)) + 1"
  shows "\<exists>l'. al_log file_audit cfg now ids t details ctx l = (Inr (), l') \<and> al_buffer l' = []
     \<and> f_audit (al_store l') = slice_last 10000
          (f_audit (al_store l) @ numbered ids (al_buffer l @ [al_event now t details ctx]))"
  by (rule faudit.log_flushes [OF assms])

text \<open>
  Brute-force detection: with at most 100 failed logins in the time window,
  \<open>getFailedLoginAttempts\<close> over the file adapter counts for every handle (or, without one,
  address) exactly the failures logged in the window.
\<close>

theorem failed_logins_exact:
  assumes "length (failures_since (now - w) (f_audit (al_store l))) \<le> 100"
  shows "\<exists>m. al_getFailedLoginAttempts file_audit now (Some w) l = (Inr m, l)
     \<and> nullish (map_of m key) 0 = attempts_by key (failures_since (now - w) (f_audit (al_store l)))"
  by (rule faudit.failed_attempts_exact [OF assms])

section \<open>Concrete runs\<close>

definition quiet_config :: "bool \<Rightarrow> audit_logger_config" where
  "quiet_config external =
     \<lparr>alc_enabled = True, alc_flushInterval = None, alc_maxBufferSize = None,
      alc_externalLogger = external\<rparr>"

definition plain_event :: "int \<Rightarrow> audit_event_type \<Rightarrow> audit_event" where
  "plain_event now t = al_event now t [(''handle'', ''ada'')] None"

definition idle_logger :: "audit_event list \<Rightarrow> files audit_logger" where
  "idle_logger es =
     \<lparr>al_buffer = [], al_flushTimer = False, al_scheduled = False, al_store = empty_files\<lparr>f_audit := es\<rparr>\<rparr>"

lemmas run_simps =
  start_run_def begin_flush_def enter_log_def finish_log_def fire_timer_def al_take_def al_push_def
  al_arm_def al_must_flush_def maxBufferSize_def num_or_def quiet_config_def plain_event_def
  al_event_def getSeverityForEventType_def in_flight_def Let_def

lemma one_event_run:
  "logger_reachable memory_audit (quiet_config False) m
     (finish_log (quiet_config False) (plain_event 5 LOGOUT) (enter_log (plain_event 5 LOGOUT) (start_run m)))"
  by (rule reachable_step [OF reachable_start], rule logger_step.log_now)
    (simp_all add: quiet_config_def)

theorem audit_no_event_lost_witness:
  "plain_event 5 LOGOUT \<in> set (al_buffer (lr_logger (finish_log (quiet_config False) (plain_event 5 LOGOUT)
      (enter_log (plain_event 5 LOGOUT) (start_run empty_memory)))))"
  using audit_no_event_lost [OF one_event_run [of empty_memory]] by (simp add: run_simps)

theorem audit_events_scheduled_witness:
  "al_scheduled (lr_logger (finish_log (quiet_config False) (plain_event 5 LOGOUT)
      (enter_log (plain_event 5 LOGOUT) (start_run empty_memory))))"
proof -
  let ?r = "finish_log (quiet_config False) (plain_event 5 LOGOUT)
      (enter_log (plain_event 5 LOGOUT) (start_run empty_memory))"
  have "\<not> lr_failed ?r" "al_buffer (lr_logger ?r) \<noteq> []"
    by (simp_all add: run_simps)
  then show ?thesis
    using audit_events_scheduled [OF one_event_run [of empty_memory]] by (simp add: quiet_config_def)
qed

theorem critical_event_stored_witness:
  "\<exists>l'. al_log file_audit (quiet_config False) 7 (\<lambda>_. ''e'') USER_DELETED [] None (idle_logger [])
         = (Inr (), l')
     \<and> f_audit (al_store l') = [(al_event 7 USER_DELETED [] None)\<lparr>ae_id := ''e''\<rparr>]"
proof -
  have "getSeverityForEventType USER_DELETED = Critical" by (simp add: getSeverityForEventType_def)
  then show ?thesis
    using critical_event_stored [of "quiet_config False" "idle_logger []" USER_DELETED 7 "\<lambda>_. ''e''" "[]" None]
    by (auto simp: quiet_config_def idle_logger_def empty_files_def slice_last_def)
qed

theorem failed_logins_exact_witness:
  "\<exists>m. al_getFailedLoginAttempts file_audit 60 (Some 50)
         (idle_logger [plain_event 5 LOGIN_FAILURE, plain_event 20 LOGIN_FAILURE, plain_event 30 LOGOUT])
       = (Inr m, idle_logger [plain_event 5 LOGIN_FAILURE, plain_event 20 LOGIN_FAILURE, plain_event 30 LOGOUT])
     \<and> nullish (map_of m ''ada'') 0 = 1"
  using failed_logins_exact [of 60 50
      "idle_logger [plain_event 5 LOGIN_FAILURE, plain_event 20 LOGIN_FAILURE, plain_event 30 LOGOUT]" "''ada''"]
  by (simp add: idle_logger_def failures_since_def attempts_by_def attempt_key_def plain_event_def
      al_event_def at_or_after_def)

section \<open>Where the guarantees end\<close>

text \<open>
  With an external logger the schedule can be lost without any failure. A critical event logged
  while another call waits for the external logger flushes both events; the waiting call then
  arms the timer although the queue is empty; when that timeout runs, \<open>flush\<close> returns at once
  and leaves \<open>flushTimer\<close> set, so the next event finds a timer that will never run.
\<close>

definition snapshot ::
  "audit_event list \<Rightarrow> bool \<Rightarrow> bool \<Rightarrow> 's \<Rightarrow> audit_event list \<Rightarrow> (audit_event list \<times> audit_event list) list
     \<Rightarrow> audit_event list \<Rightarrow> audit_event list \<Rightarrow> 's logger_run" where
  "snapshot buffer timer scheduled s waiting flushes accepted written =
     \<lparr>lr_logger = \<lparr>al_buffer = buffer, al_flushTimer = timer, al_scheduled = scheduled, al_store = s\<rparr>,
      lr_suspended = waiting, lr_flushes = flushes, lr_accepted = accepted, lr_written = written,
      lr_failed = False\<rparr>"

lemma stale_flush_timer:
  "\<exists>r. logger_reachable memory_audit (quiet_config True) empty_memory r \<and> \<not> lr_failed r
     \<and> lr_suspended r = [] \<and> in_flight r = {}
     \<and> al_buffer (lr_logger r) = [plain_event 9 LOGOUT]
     \<and> al_flushTimer (lr_logger r) \<and> \<not> al_scheduled (lr_logger r)"
proof -
  let ?c = "quiet_config True" and ?st = memory_audit and ?s0 = empty_memory
  let ?a = "plain_event 1 LOGIN_SUCCESS" and ?b = "plain_event 2 USER_DELETED"
  let ?e = "plain_event 9 LOGOUT"
  let ?s1 = "snd (mem_logAuditEvent ''1'' ?a ?s0)"
  let ?s2 = "snd (mem_logAuditEvent ''2'' ?b ?s1)"
  let ?R = "logger_reachable ?st ?c ?s0"
  have c: "alc_enabled ?c" "alc_externalLogger ?c" by (simp_all add: quiet_config_def)
  have ack: "au_logAuditEvent ?st i x s = (Inr (x\<lparr>ae_id := i\<rparr>), snd (mem_logAuditEvent i x s))" for i x s
    by (simp add: memory_audit_def mem_logAuditEvent_def Let_def)
  have ab: "ae_severity ?a = Info" "ae_severity ?b = Critical" "ae_severity ?e = Info" "?a \<noteq> ?b" "?b \<noteq> ?a"
    by (simp_all add: plain_event_def al_event_def getSeverityForEventType_def)
  note steps = snapshot_def begin_flush_def enter_log_def finish_log_def fire_timer_def al_take_def
    al_push_def al_arm_def al_must_flush_def ab maxBufferSize_def num_or_def quiet_config_def Let_def
  have "?R (snapshot [] False False ?s0 [] [] [] [])"
    using reachable_start [of ?st ?c ?s0] by (simp add: start_run_def snapshot_def)
  then have "?R (snapshot [?a] False False ?s0 [?a] [] [?a] [])"
    by (rule reachable_step)
      (use logger_step.log_wait [OF c, of ?st "snapshot [] False False ?s0 [] [] [] []" ?a]
       in \<open>simp add: steps\<close>)
  then have "?R (snapshot [?a, ?b] False False ?s0 [?a, ?b] [] [?b, ?a] [])"
    by (rule reachable_step)
      (use logger_step.log_wait [OF c, of ?st "snapshot [?a] False False ?s0 [?a] [] [?a] []" ?b]
       in \<open>simp add: steps\<close>)
  then have "?R (snapshot [] False False ?s0 [?a] [([?a, ?b], [?a, ?b])] [?b, ?a] [])"
    by (rule reachable_step)
      (use logger_step.log_resume [of ?b "snapshot [?a, ?b] False False ?s0 [?a, ?b] [] [?b, ?a] []" ?st ?c]
       in \<open>simp add: steps\<close>)
  then have "?R (snapshot [] False False ?s1 [?a] [([?a, ?b], [?b])] [?b, ?a] [?a])"
    by (rule reachable_step)
      (use logger_step.write_ok [OF _ _ ack, of 0 _ "[?a, ?b]" ?a "[?b]" ?c "''1''",
          where r = "snapshot [] False False ?s0 [?a] [([?a, ?b], [?a, ?b])] [?b, ?a] []"]
       in \<open>simp add: steps\<close>)
  then have "?R (snapshot [] False False ?s2 [?a] [([?a, ?b], [])] [?b, ?a] [?b, ?a])"
    by (rule reachable_step)
      (use logger_step.write_ok [OF _ _ ack, of 0 _ "[?a, ?b]" ?b "[]" ?c "''2''",
          where r = "snapshot [] False False ?s1 [?a] [([?a, ?b], [?b])] [?b, ?a] [?a]"]
       in \<open>simp add: steps\<close>)
  then have "?R (snapshot [] True True ?s2 [] [([?a, ?b], [])] [?b, ?a] [?b, ?a])"
    by (rule reachable_step)
      (use logger_step.log_resume [of ?a "snapshot [] False False ?s2 [?a] [([?a, ?b], [])] [?b, ?a] [?b, ?a]" ?st ?c]
       in \<open>simp add: steps\<close>)
  then have "?R (snapshot [] True False ?s2 [] [([?a, ?b], [])] [?b, ?a] [?b, ?a])"
    by (rule reachable_step)
      (use logger_step.timer [of "snapshot [] True True ?s2 [] [([?a, ?b], [])] [?b, ?a] [?b, ?a]" ?st ?c]
       in \<open>simp add: steps\<close>)
  then have "?R (snapshot [?e] True False ?s2 [?e] [([?a, ?b], [])] [?e, ?b, ?a] [?b, ?a])"
    by (rule reachable_step)
      (use logger_step.log_wait [OF c, of ?st "snapshot [] True False ?s2 [] [([?a, ?b], [])] [?b, ?a] [?b, ?a]" ?e]
       in \<open>simp add: steps\<close>)
  then have "?R (snapshot [?e] True False ?s2 [] [([?a, ?b], [])] [?e, ?b, ?a] [?b, ?a])"
    by (rule reachable_step)
      (use logger_step.log_resume [of ?e "snapshot [?e] True False ?s2 [?e] [([?a, ?b], [])] [?e, ?b, ?a] [?b, ?a]" ?st ?c]
       in \<open>simp add: steps\<close>)
  then show ?thesis
    by (intro exI conjI, assumption) (simp_all add: snapshot_def in_flight_def)
qed

text \<open>
  When the storage rejects a write, \<open>flush\<close> queues the whole batch again, without a timer, and
  without saying so: the events written before the failure are written a second time by the next
  flush, which happens only when another event is logged or the logger is closed.
\<close>

lemma rejected_flush:
  assumes "al_buffer l \<noteq> []" "al_write_all st ids (al_buffer l) (al_store l) = (Inl e, s')"
  shows "al_flush st ids l
     = (Inr (), l\<lparr>al_flushTimer := False, al_store := s',
                  al_scheduled := (if al_flushTimer l then False else al_scheduled l)\<rparr>)"
  using assms by (simp add: al_flush_def al_take_def al_restore_def Let_def)

text \<open>
  The file adapter answers \<open>getFailedLoginAttempts\<close> from the first 100 failures of the window:
  later ones, however many, are not counted.
\<close>

lemma failed_logins_capped:
  assumes "al_getFailedLoginAttempts file_audit now (Some w) l = (Inr m, l')"
  shows "nullish (map_of m key) 0 = attempts_by key (take 100 (failures_since (now - w) (f_audit (al_store l))))"
proof -
  have "file_getAuditEvents (no_filters\<lparr>af_type := Some LOGIN_FAILURE, af_startDate := Some (now - w)\<rparr>) f
      = (Inr (take 100 (failures_since (now - w) (f_audit f))), f)" for f
    by (simp add: file_getAuditEvents_def no_filters_def when_given_def num_or_def js_slice_prefix
        failures_since_def conj_commute)
  then show ?thesis
    using assms by (auto simp: al_getFailedLoginAttempts_def bind_op_def al_query_def logger_store_def
        file_audit_def foldl_count_attempt)
qed

end
