(* ===== verification/Invitations.thy ===== *)
theory Invitations
  imports Memory_Storage File_Storage Permissions
begin

text \<open>
  The invitation service of \<open>src/modules/invitation/index.ts\<close> over any adapter that keeps
  invitations by token, and the two adapters as providers of that contract.

  Random tokens, the TOTP secret and the QR code come from libraries and are arguments, as is
  \<open>setHours\<close>, which counts hours in the time zone of the host.
\<close>

section \<open>The storage interface\<close>

record 's invitation_ops =
  io_getInvitation :: "int \<Rightarrow> string \<Rightarrow> ('s, admin_invitation option) op"
  io_getInvitationById :: "string \<Rightarrow> ('s, admin_invitation option) op"
  io_getAllInvitations :: "('s, admin_invitation list) op"
  io_getPendingInvitations :: "int \<Rightarrow> ('s, admin_invitation list) op"
  io_createInvitation :: "string \<Rightarrow> admin_invitation \<Rightarrow> ('s, admin_invitation) op"
  io_updateInvitation :: "string \<Rightarrow> invitation_patch \<Rightarrow> ('s, admin_invitation) op"
  io_deleteInvitation :: "string \<Rightarrow> ('s, bool) op"
  io_cleanupExpiredInvitations :: "int \<Rightarrow> ('s, int) op"

definition pending :: "int \<Rightarrow> admin_invitation \<Rightarrow> bool" where
  "pending now i \<longleftrightarrow> after (i_expiresAt i) now \<and> \<not> stamp_truthy (i_usedAt i)"

text \<open>
  \<open>listed s\<close> are the stored invitations in order, no two with the same token. A lookup may hide
  an expired invitation.
\<close>

definition distinct_tokens :: "admin_invitation list \<Rightarrow> bool" where
  "distinct_tokens is \<longleftrightarrow> distinct (map i_token is)"

locale invitation_storage =
  fixes st :: "'s invitation_ops"
    and listed :: "'s \<Rightarrow> admin_invitation list"
    and inv :: "'s \<Rightarrow> bool"
  assumes tokens_law: "inv s \<Longrightarrow> distinct_tokens (listed s)"
    and get_law:
      "inv s \<Longrightarrow> \<exists>r. io_getInvitation st now t s = (Inr r, s)
         \<and> (case r of Some i \<Rightarrow> i \<in> set (listed s) \<and> i_token i = t
            | None \<Rightarrow> \<forall>i \<in> set (listed s). i_token i = t \<longrightarrow> before (i_expiresAt i) now)"
    and all_law: "inv s \<Longrightarrow> io_getAllInvitations st s = (Inr (listed s), s)"
    and pending_law:
      "inv s \<Longrightarrow> \<exists>xs. io_getPendingInvitations st now s = (Inr xs, s)
         \<and> set xs \<subseteq> {i \<in> set (listed s). pending now i}
         \<and> (\<forall>i \<in> set (listed s). pending now i \<and> i_isActive i \<longrightarrow> i \<in> set xs)"
    and create_law:
      "\<lbrakk>inv s; i_token data \<notin> i_token ` set (listed s)\<rbrakk> \<Longrightarrow>
         \<exists>s'. io_createInvitation st iid data s = (Inr (data\<lparr>i_id := iid\<rparr>), s') \<and> inv s'
           \<and> set (listed s') = insert (data\<lparr>i_id := iid\<rparr>) (set (listed s))"
    and update_law:
      "\<lbrakk>inv s; i \<in> set (listed s); i_token i = t; ip_token p = None\<rbrakk> \<Longrightarrow>
         \<exists>s'. io_updateInvitation st t p s = (Inr (apply_invitation_patch p i), s') \<and> inv s'
           \<and> set (listed s') = insert (apply_invitation_patch p i) (set (listed s) - {i})"
    and update_missing_law:
      "\<lbrakk>inv s; t \<notin> i_token ` set (listed s)\<rbrakk> \<Longrightarrow>
         \<exists>e. io_updateInvitation st t p s = (Inl e, s)"
    and delete_law:
      "inv s \<Longrightarrow> \<exists>s'. io_deleteInvitation st t s = (Inr (t \<in> i_token ` set (listed s)), s') \<and> inv s'
         \<and> set (listed s') = {i \<in> set (listed s). i_token i \<noteq> t}"
    and cleanup_law:
      "inv s \<Longrightarrow> \<exists>n s'. io_cleanupExpiredInvitations st now s = (Inr n, s') \<and> inv s'
         \<and> n = int (length (listed s)) - int (length (listed s'))
         \<and> set (listed s') \<subseteq> set (listed s)
         \<and> (\<forall>i \<in> set (listed s). pending now i \<longrightarrow> i \<in> set (listed s'))
         \<and> (\<forall>i \<in> set (listed s'). \<not> before (i_expiresAt i) now \<or> stamp_truthy (i_usedAt i))"

section \<open>The service\<close>

record invitation_options =
  iv_role :: string
  iv_createdBy :: string
  iv_createdByHandle :: string
  iv_expiresInHours :: "int option"
  iv_message :: "string option"
  iv_email :: "string option"

record invitation_created =
  ir_success :: bool
  ir_invitation :: "admin_invitation option"
  ir_inviteUrl :: "string option"
  ir_totpSecret :: "string option"
  ir_qrCode :: "string option"
  ir_error :: "string option"

text \<open>
  What the service is configured with, and what it calls: \<open>setHours\<close> on the host, the secret
  generator and the URI builder of the TOTP library, and the QR encoder.
\<close>

record invitation_config =
  defaultExpiryHours :: int
  baseUrl :: string
  totpIssuer :: "string option"

record invitation_env =
  addHours :: "int \<Rightarrow> int \<Rightarrow> int"
  authenticatorSecret :: "string result"
  authenticatorUri :: "string \<Rightarrow> string \<Rightarrow> string \<Rightarrow> string result"
  toDataURL :: "string \<Rightarrow> string result"

definition create_failed :: invitation_created where
  "create_failed =
     \<lparr>ir_success = False, ir_invitation = None, ir_inviteUrl = None, ir_totpSecret = None,
      ir_qrCode = None, ir_error = Some ''Failed to create invitation''\<rparr>"

definition invitation_data ::
  "invitation_config \<Rightarrow> invitation_env \<Rightarrow> int \<Rightarrow> int \<Rightarrow> string \<Rightarrow> string \<Rightarrow> invitation_options
     \<Rightarrow> admin_invitation" where
  "invitation_data cfg env now now' token totpSecret opts =
     (let expiresInHours = num_or (iv_expiresInHours opts) (defaultExpiryHours cfg);
          expiresAt = addHours env now expiresInHours
      in \<lparr>i_id = [], i_token = token, i_email = iv_email opts, i_role = iv_role opts,
          i_createdBy = iv_createdBy opts, i_createdAt = Iso now', i_expiresAt = Iso expiresAt,
          i_usedAt = None, i_usedBy = None, i_temporaryTotpSecret = Some totpSecret,
          i_isActive = True,
          i_metadata = Some \<lparr>im_inviterHandle = iv_createdByHandle opts,
             im_inviterDisplayName = None, im_message = iv_message opts,
             im_customInstructions = None\<rparr>\<rparr>)"

definition iv_createInvitation ::
  "'s invitation_ops \<Rightarrow> invitation_config \<Rightarrow> invitation_env \<Rightarrow> int \<Rightarrow> int \<Rightarrow> string \<Rightarrow> string
     \<Rightarrow> invitation_options \<Rightarrow> ('s, invitation_created) op" where
  "iv_createInvitation st cfg env now now' token iid opts =
     catch_op
       (bind_op (of_result (authenticatorSecret env)) (\<lambda>totpSecret.
        bind_op (io_createInvitation st iid (invitation_data cfg env now now' token totpSecret opts))
          (\<lambda>invitation.
        bind_op (of_result (authenticatorUri env (''invite-'' @ i_id invitation)
                   (str_or (totpIssuer cfg) ''Tinyland.dev'' @ '' (Invite)'') totpSecret)) (\<lambda>otpauth.
        bind_op (of_result (toDataURL env otpauth)) (\<lambda>qrCode.
          return_op
            \<lparr>ir_success = True, ir_invitation = Some invitation,
             ir_inviteUrl = Some (baseUrl cfg @ ''/admin/accept-invite?token='' @ token),
             ir_totpSecret = Some totpSecret, ir_qrCode = Some qrCode, ir_error = None\<rparr>)))))
       (\<lambda>_. return_op create_failed)"

definition iv_getInvitation :: "'s invitation_ops \<Rightarrow> int \<Rightarrow> string \<Rightarrow> ('s, admin_invitation option) op" where
  "iv_getInvitation st now token =
     bind_op (io_getInvitation st now token) (\<lambda>r.
       return_op (case r of
           None \<Rightarrow> None
         | Some invitation \<Rightarrow>
             if before (i_expiresAt invitation) now then None
             else if stamp_truthy (i_usedAt invitation) then None
             else Some invitation))"

definition iv_markAsUsed :: "'s invitation_ops \<Rightarrow> int \<Rightarrow> string \<Rightarrow> string \<Rightarrow> ('s, bool) op" where
  "iv_markAsUsed st now token usedBy =
     catch_op
       (bind_op (io_updateInvitation st token
                   (no_invitation_patch\<lparr>ip_usedAt := Some (Some (Iso now)), ip_usedBy := Some (Some usedBy),
                                       ip_isActive := Some False\<rparr>))
          (\<lambda>_. return_op True))
       (\<lambda>_. return_op False)"

definition iv_revokeInvitation :: "'s invitation_ops \<Rightarrow> string \<Rightarrow> ('s, bool) op" where
  "iv_revokeInvitation st token = io_deleteInvitation st token"

definition iv_listPendingInvitations :: "'s invitation_ops \<Rightarrow> int \<Rightarrow> ('s, admin_invitation list) op" where
  "iv_listPendingInvitations st now = io_getPendingInvitations st now"

record invitation_statistics =
  is_total :: int
  is_pending :: int
  is_expired :: int
  is_used :: int

definition iv_getStatistics :: "'s invitation_ops \<Rightarrow> int \<Rightarrow> ('s, invitation_statistics) op" where
  "iv_getStatistics st now =
     bind_op (io_getAllInvitations st) (\<lambda>xs.
       return_op
         \<lparr>is_total = int (length xs),
          is_pending = int (length (filter (\<lambda>i. after (i_expiresAt i) now \<and> \<not> stamp_truthy (i_usedAt i)) xs)),
          is_expired = int (length (filter (\<lambda>i. at_or_before (i_expiresAt i) now
                                             \<and> \<not> stamp_truthy (i_usedAt i)) xs)),
          is_used = int (length (filter (\<lambda>i. stamp_truthy (i_usedAt i)) xs))\<rparr>)"

definition iv_cleanupExpired :: "'s invitation_ops \<Rightarrow> int \<Rightarrow> ('s, int) op" where
  "iv_cleanupExpired st now = io_cleanupExpiredInvitations st now"

text \<open>An expiry that does not parse makes \<open>toISOString\<close> throw, inside the \<open>try\<close>.\<close>

definition iv_extendInvitation ::
  "'s invitation_ops \<Rightarrow> invitation_env \<Rightarrow> int \<Rightarrow> string \<Rightarrow> int \<Rightarrow> ('s, bool) op" where
  "iv_extendInvitation st env now token additionalHours =
     bind_op (io_getInvitation st now token) (\<lambda>r.
       case r of
         None \<Rightarrow> return_op False
       | Some invitation \<Rightarrow>
           if stamp_truthy (i_usedAt invitation) then return_op False
           else case date_parse (i_expiresAt invitation) of
                  None \<Rightarrow> return_op False
                | Some d \<Rightarrow>
                    catch_op
                      (bind_op (io_updateInvitation st token
                                  (no_invitation_patch\<lparr>ip_expiresAt := Some (Iso (addHours env d additionalHours))\<rparr>))
                         (\<lambda>_. return_op True))
                      (\<lambda>_. return_op False))"

definition iv_canInviteForRole :: "string \<Rightarrow> string \<Rightarrow> bool" where
  "iv_canInviteForRole creatorRole targetRole = canManageRole creatorRole targetRole"

section \<open>The service over any adapter\<close>

text \<open>
  The calls that change the stored invitations while the invitation with token \<open>t\<close> is
  outstanding; a new invitation gets a random token that no other invitation has.
\<close>

inductive iv_step ::
  "'s invitation_ops \<Rightarrow> ('s \<Rightarrow> admin_invitation list) \<Rightarrow> string \<Rightarrow> 's \<Rightarrow> 's \<Rightarrow> bool" for st listed t where
  create: "\<lbrakk>token \<noteq> t; token \<notin> i_token ` set (listed s)\<rbrakk>
    \<Longrightarrow> iv_step st listed t s (snd (iv_createInvitation st cfg env now now' token iid opts s))"
| mark: "iv_step st listed t s (snd (iv_markAsUsed st now token usedBy s))"
| revoke: "iv_step st listed t s (snd (iv_revokeInvitation st token s))"
| extend: "iv_step st listed t s (snd (iv_extendInvitation st env now token hours s))"
| cleanup: "iv_step st listed t s (snd (iv_cleanupExpired st now s))"

definition spent :: "string \<Rightarrow> admin_invitation list \<Rightarrow> bool" where
  "spent t is \<longleftrightarrow> (\<forall>i \<in> set is. i_token i = t \<longrightarrow> stamp_truthy (i_usedAt i))"

lemma tokens_inj:
  "distinct_tokens is \<Longrightarrow> i \<in> set is \<Longrightarrow> j \<in> set is \<Longrightarrow> i_token i = i_token j \<Longrightarrow> i = j"
  by (auto simp: distinct_tokens_def distinct_map dest: inj_onD)

context invitation_storage
begin

lemma listed_inj: "\<lbrakk>inv s; i \<in> set (listed s); j \<in> set (listed s); i_token i = i_token j\<rbrakk> \<Longrightarrow> i = j"
  by (rule tokens_inj [OF tokens_law])

lemma get_found:
  assumes "inv s" "i \<in> set (listed s)" "i_token i = t" "\<not> before (i_expiresAt i) now"
  shows "io_getInvitation st now t s = (Inr (Some i), s)"
proof -
  obtain r where r: "io_getInvitation st now t s = (Inr r, s)"
      "case r of Some i \<Rightarrow> i \<in> set (listed s) \<and> i_token i = t
       | None \<Rightarrow> \<forall>i \<in> set (listed s). i_token i = t \<longrightarrow> before (i_expiresAt i) now"
    using get_law [OF assms(1), of now t] by blast
  show ?thesis
  proof (cases r)
    case None
    then show ?thesis using r(2) assms(2-4) by simp
  next
    case (Some j)
    then have "j = i" using r(2) listed_inj [OF assms(1) _ assms(2)] assms(3) by simp
    then show ?thesis using r(1) Some by simp
  qed
qed

lemma getInvitation_iff:
  assumes "inv s"
  shows "\<exists>r. iv_getInvitation st now t s = (Inr r, s)
     \<and> (\<forall>i. r = Some i \<longleftrightarrow> i \<in> set (listed s) \<and> i_token i = t
            \<and> \<not> before (i_expiresAt i) now \<and> \<not> stamp_truthy (i_usedAt i))"
proof -
  obtain r where r: "io_getInvitation st now t s = (Inr r, s)"
      "case r of Some i \<Rightarrow> i \<in> set (listed s) \<and> i_token i = t
       | None \<Rightarrow> \<forall>i \<in> set (listed s). i_token i = t \<longrightarrow> before (i_expiresAt i) now"
    using get_law [OF assms, of now t] by blast
  show ?thesis
  proof (cases r)
    case None
    then show ?thesis using r by (auto simp: iv_getInvitation_def)
  next
    case (Some i)
    then have i: "i \<in> set (listed s)" "i_token i = t" using r(2) by auto
    let ?ok = "\<not> before (i_expiresAt i) now \<and> \<not> stamp_truthy (i_usedAt i)"
    have run: "iv_getInvitation st now t s = (Inr (if ?ok then Some i else None), s)"
      using r(1) Some by (simp add: iv_getInvitation_def)
    have uniq: "j \<in> set (listed s) \<and> i_token j = t \<longleftrightarrow> i = j" for j
      using i listed_inj [OF assms i(1), of j] by blast
    have "(if ?ok then Some i else None) = Some j \<longleftrightarrow> j \<in> set (listed s) \<and> i_token j = t
        \<and> \<not> before (i_expiresAt j) now \<and> \<not> stamp_truthy (i_usedAt j)" for j
      using uniq [of j] by (cases "i = j") auto
    then show ?thesis using run by blast
  qed
qed

lemma spent_hidden:
  assumes "inv s" "spent t (listed s)"
  shows "iv_getInvitation st now t s = (Inr None, s)"
proof -
  obtain r where "iv_getInvitation st now t s = (Inr r, s)"
      "\<forall>i. r = Some i \<longleftrightarrow> i \<in> set (listed s) \<and> i_token i = t
            \<and> \<not> before (i_expiresAt i) now \<and> \<not> stamp_truthy (i_usedAt i)"
    using getInvitation_iff [OF assms(1), of now t] by blast
  with assms(2) show ?thesis by (cases r) (auto simp: spent_def)
qed

lemma mark_cases:
  assumes "inv s"
  obtains (marked) i s' where "iv_markAsUsed st now token who s = (Inr True, s')" "inv s'"
      "i \<in> set (listed s)" "i_token i = token"
      "set (listed s') = insert (i\<lparr>i_usedAt := Some (Iso now), i_usedBy := Some who, i_isActive := False\<rparr>)
                           (set (listed s) - {i})"
  | (unknown) "iv_markAsUsed st now token who s = (Inr False, s)" "token \<notin> i_token ` set (listed s)"
proof (cases "token \<in> i_token ` set (listed s)")
  case True
  let ?p = "no_invitation_patch\<lparr>ip_usedAt := Some (Some (Iso now)), ip_usedBy := Some (Some who),
              ip_isActive := Some False\<rparr>"
  obtain i where i: "i \<in> set (listed s)" "i_token i = token" using True by blast
  have y: "apply_invitation_patch ?p i
      = i\<lparr>i_usedAt := Some (Iso now), i_usedBy := Some who, i_isActive := False\<rparr>"
    by (simp add: apply_invitation_patch_def)
  have p: "ip_token ?p = None" by simp
  obtain s' where "io_updateInvitation st token ?p s = (Inr (apply_invitation_patch ?p i), s')" "inv s'"
      "set (listed s') = insert (apply_invitation_patch ?p i) (set (listed s) - {i})"
    using update_law [OF assms i p] by blast
  then show thesis
    using marked i by (simp add: iv_markAsUsed_def y)
next
  case False
  obtain e where "io_updateInvitation st token
      (no_invitation_patch\<lparr>ip_usedAt := Some (Some (Iso now)), ip_usedBy := Some (Some who),
              ip_isActive := Some False\<rparr>) s = (Inl e, s)"
    using update_missing_law [OF assms False] by blast
  then have "iv_markAsUsed st now token who s = (Inr False, s)"
    by (simp add: iv_markAsUsed_def)
  then show thesis using False by (rule unknown)
qed

lemma spent_step:
  assumes "iv_step st listed t s s'" "inv s" "spent t (listed s)"
  shows "inv s' \<and> spent t (listed s')"
  using assms
proof (induction rule: iv_step.induct)
  case (create token s cfg env now now' iid opts)
  show ?case
  proof (cases "authenticatorSecret env")
    case (Inl e)
    then show ?thesis using create by (simp add: iv_createInvitation_def of_result_def bind_op_def)
  next
    case (Inr secret)
    let ?d = "invitation_data cfg env now now' token secret opts"
    have tok: "i_token ?d = token" by (simp add: invitation_data_def Let_def)
    then obtain s1 where s1: "io_createInvitation st iid ?d s = (Inr (?d\<lparr>i_id := iid\<rparr>), s1)" "inv s1"
        "set (listed s1) = insert (?d\<lparr>i_id := iid\<rparr>) (set (listed s))"
      using create_law [OF create.prems(1), of ?d iid] create.hyps(2) by auto
    have "snd (iv_createInvitation st cfg env now now' token iid opts s) = s1"
      using Inr s1(1) by (simp add: iv_createInvitation_def of_result_def bind_op_def catch_op_def
          split: sum.splits)
    then show ?thesis
      using s1(2,3) tok create by (simp add: spent_def)
  qed
next
  case (mark s now token who)
  show ?case
    by (cases rule: mark_cases [OF mark.prems(1), of now token who])
      (use mark.prems in \<open>auto simp: spent_def\<close>)
next
  case (revoke s token)
  then show ?case
    using delete_law [OF revoke.prems(1), of token] by (auto simp: iv_revokeInvitation_def spent_def)
next
  case (extend s env now token hours)
  obtain r where r: "io_getInvitation st now token s = (Inr r, s)"
      "case r of Some i \<Rightarrow> i \<in> set (listed s) \<and> i_token i = token
       | None \<Rightarrow> \<forall>i \<in> set (listed s). i_token i = token \<longrightarrow> before (i_expiresAt i) now"
    using get_law [OF extend.prems(1), of now token] by blast
  show ?case
  proof (cases "\<exists>i d. r = Some i \<and> \<not> stamp_truthy (i_usedAt i) \<and> date_parse (i_expiresAt i) = Some d")
    case False
    then have "snd (iv_extendInvitation st env now token hours s) = s"
      using r(1) by (auto simp: iv_extendInvitation_def split: option.splits)
    then show ?thesis using extend by simp
  next
    case True
    then obtain i d where i: "r = Some i" "\<not> stamp_truthy (i_usedAt i)" "date_parse (i_expiresAt i) = Some d"
      by blast
    let ?p = "no_invitation_patch\<lparr>ip_expiresAt := Some (Iso (addHours env d hours))\<rparr>"
    have l: "i \<in> set (listed s)" "i_token i = token" using r(2) i(1) by auto
    obtain s' where s': "io_updateInvitation st token ?p s = (Inr (apply_invitation_patch ?p i), s')" "inv s'"
        "set (listed s') = insert (apply_invitation_patch ?p i) (set (listed s) - {i})"
      using update_law [OF extend.prems(1) l, of ?p] by auto
    have "snd (iv_extendInvitation st env now token hours s) = s'"
      using r(1) i s'(1) by (simp add: iv_extendInvitation_def)
    moreover have "token \<noteq> t" using extend.prems(2) l i(2) by (auto simp: spent_def)
    ultimately show ?thesis
      using s'(2,3) extend.prems(2) l(2) by (simp add: spent_def)
  qed
next
  case (cleanup s now)
  then show ?case
    using cleanup_law [OF cleanup.prems(1), of now] by (auto simp: iv_cleanupExpired_def spent_def)
qed

lemma single_use:
  assumes "inv s" "i \<in> set (listed s)" "i_token i = t" "iv_markAsUsed st now t who s = (r, s1)"
    and "(iv_step st listed t)\<^sup>*\<^sup>* s1 s2"
  shows "r = Inr True \<and> iv_getInvitation st now' t s2 = (Inr None, s2)"
proof -
  have marked: "r = Inr True \<and> inv s1 \<and> spent t (listed s1)"
  proof (cases rule: mark_cases [OF assms(1), of now t who])
    case (1 j s')
    then have "j = i" using listed_inj [OF assms(1) 1(3) assms(2)] assms(3) by simp
    moreover have "i = k" if "k \<in> set (listed s)" "i_token k = t" for k
      by (rule listed_inj [OF assms(1,2) that(1)]) (simp add: assms(3) that)
    ultimately show ?thesis
      using 1 assms(4) by (auto simp: spent_def)
  next
    case 2
    then show ?thesis using assms(2,3) by auto
  qed
  from assms(5) have "inv s2 \<and> spent t (listed s2)"
    by (induction rule: rtranclp_induct) (use marked spent_step in auto)
  then show ?thesis using marked spent_hidden by simp
qed

lemma statistics_partition:
  assumes "inv s" "\<forall>i \<in> set (listed s). date_parse (i_expiresAt i) \<noteq> None"
  shows "\<exists>v. iv_getStatistics st now s = (Inr v, s)
     \<and> is_total v = is_pending v + is_expired v + is_used v
     \<and> is_pending v = int (card {i \<in> set (listed s). pending now i})"
proof -
  let ?xs = "listed s"
  have "length xs = length (filter (\<lambda>i. after (i_expiresAt i) now \<and> \<not> stamp_truthy (i_usedAt i)) xs)
      + length (filter (\<lambda>i. at_or_before (i_expiresAt i) now \<and> \<not> stamp_truthy (i_usedAt i)) xs)
      + length (filter (\<lambda>i. stamp_truthy (i_usedAt i)) xs)"
    if "\<forall>i \<in> set xs. date_parse (i_expiresAt i) \<noteq> None" for xs
    using that by (induction xs) (auto simp: after_def at_or_before_def)
  then have parts: "length ?xs = length (filter (\<lambda>i. after (i_expiresAt i) now \<and> \<not> stamp_truthy (i_usedAt i)) ?xs)
      + length (filter (\<lambda>i. at_or_before (i_expiresAt i) now \<and> \<not> stamp_truthy (i_usedAt i)) ?xs)
      + length (filter (\<lambda>i. stamp_truthy (i_usedAt i)) ?xs)"
    using assms(2) by blast
  have "distinct (filter (pending now) ?xs)"
    using tokens_law [OF assms(1)] by (auto simp: distinct_tokens_def distinct_map)
  then have "card {i \<in> set ?xs. pending now i} = length (filter (pending now) ?xs)"
    by (metis distinct_card set_filter)
  moreover have "pending now = (\<lambda>i. after (i_expiresAt i) now \<and> \<not> stamp_truthy (i_usedAt i))"
    by (simp add: pending_def fun_eq_iff)
  ultimately show ?thesis
    using parts all_law [OF assms(1)] by (simp add: iv_getStatistics_def)
qed

end

section \<open>The adapters\<close>

definition memory_invitations :: "memory invitation_ops" where
  "memory_invitations =
     \<lparr>io_getInvitation = mem_getInvitation, io_getInvitationById = mem_getInvitationById,
      io_getAllInvitations = mem_getAllInvitations, io_getPendingInvitations = mem_getPendingInvitations,
      io_createInvitation = mem_createInvitation, io_updateInvitation = mem_updateInvitation,
      io_deleteInvitation = mem_deleteInvitation,
      io_cleanupExpiredInvitations = mem_cleanupExpiredInvitations\<rparr>"

definition file_invitations :: "files invitation_ops" where
  "file_invitations =
     \<lparr>io_getInvitation = (\<lambda>now. file_getInvitation), io_getInvitationById = file_getInvitationById,
      io_getAllInvitations = file_getAllInvitations, io_getPendingInvitations = file_getPendingInvitations,
      io_createInvitation = file_createInvitation, io_updateInvitation = file_updateInvitation,
      io_deleteInvitation = file_deleteInvitation,
      io_cleanupExpiredInvitations = file_cleanupExpiredInvitations\<rparr>"

text \<open>In the memory adapter every invitation is stored under its token.\<close>

definition token_keyed :: "admin_invitation jsmap \<Rightarrow> bool" where
  "token_keyed m \<longleftrightarrow> keys_distinct m \<and> (\<forall>(k, i) \<in> set m. i_token i = k)"

lemma token_keyed_Nil [simp]: "token_keyed []"
  by (simp add: token_keyed_def)

lemma token_keyed_del [simp, wf_intros]: "token_keyed m \<Longrightarrow> token_keyed (map_del k m)"
  by (auto simp: token_keyed_def AList.delete_eq)

lemma token_keyed_filter [simp, wf_intros]: "token_keyed m \<Longrightarrow> token_keyed (filter P m)"
  by (auto simp: token_keyed_def)

lemma token_keyed_set [simp, wf_intros]:
  "token_keyed m \<Longrightarrow> i_token i = k \<Longrightarrow> token_keyed (map_set k i m)"
  using set_map_set_subset [of k i m] by (auto simp: token_keyed_def)

lemma token_keyed_map_of: "token_keyed m \<Longrightarrow> map_of m t = Some i \<Longrightarrow> i_token i = t"
  using map_of_SomeD [of m t i] by (auto simp: token_keyed_def)

lemma token_values_iff:
  assumes "token_keyed m"
  shows "i \<in> set (map_values m) \<longleftrightarrow> map_of m (i_token i) = Some i"
  using assms set_map_values [of m i] token_keyed_map_of [OF assms] by (auto simp: token_keyed_def)

lemma token_keyed_distinct:
  assumes "token_keyed m"
  shows "distinct_tokens (map_values m)"
proof -
  have same: "map (i_token \<circ> snd) m = map fst m"
    using assms by (auto simp: token_keyed_def)
  show ?thesis
    unfolding distinct_tokens_def map_map same
    using assms by (simp add: token_keyed_def keys_distinct_def)
qed

lemma token_key_iff:
  assumes "token_keyed m"
  shows "t \<in> i_token ` set (map_values m) \<longleftrightarrow> map_of m t \<noteq> None"
proof
  assume "t \<in> i_token ` set (map_values m)"
  then obtain i where "i \<in> set (map_values m)" "i_token i = t" by blast
  then show "map_of m t \<noteq> None"
    using token_values_iff [OF assms, of i] by simp
next
  assume "map_of m t \<noteq> None"
  then obtain i where i: "map_of m t = Some i" by blast
  then have "i_token i = t" "i \<in> set (map_values m)"
    using token_keyed_map_of [OF assms i] token_values_iff [OF assms, of i] by simp_all
  then show "t \<in> i_token ` set (map_values m)" by blast
qed

lemma find_unique:
  assumes "distinct (map f xs)" "x \<in> set xs"
  shows "List.find (\<lambda>y. f y = f x) xs = Some x"
  using assms by (induction xs) force+

lemma mem_find_law:
  assumes "token_keyed (m_invitations m)"
  shows "\<exists>r. mem_getInvitation now t m = (Inr r, m)
         \<and> (case r of Some i \<Rightarrow> i \<in> set (map_values (m_invitations m)) \<and> i_token i = t
            | None \<Rightarrow> \<forall>i \<in> set (map_values (m_invitations m)). i_token i = t \<longrightarrow> before (i_expiresAt i) now)"
proof (cases "map_of (m_invitations m) t")
  case None
  then show ?thesis
    unfolding mem_getInvitation_def Ball_def token_values_iff [OF assms] by auto
next
  case (Some i)
  then show ?thesis
    using token_keyed_map_of [OF assms Some]
    unfolding mem_getInvitation_def Ball_def token_values_iff [OF assms] by auto
qed

lemma mem_create_invitation:
  assumes "token_keyed (m_invitations m)" "i_token data \<notin> i_token ` set (map_values (m_invitations m))"
  shows "\<exists>s'. mem_createInvitation iid data m = (Inr (data\<lparr>i_id := iid\<rparr>), s')
     \<and> token_keyed (m_invitations s')
     \<and> set (map_values (m_invitations s')) = insert (data\<lparr>i_id := iid\<rparr>) (set (map_values (m_invitations m)))"
proof -
  have "i_token data \<notin> fst ` set (m_invitations m)"
    using assms token_key_iff [OF assms(1), of "i_token data"] map_of_eq_None_iff by metis
  then show ?thesis
    using assms(1) by (simp add: mem_createInvitation_def Let_def map_set_new insert_commute
        token_keyed_def keys_distinct_def)
qed

lemma mem_update_invitation:
  assumes ok: "token_keyed (m_invitations m)" and i: "i \<in> set (map_values (m_invitations m))" "i_token i = t"
    and p: "ip_token p = None"
  shows "\<exists>s'. mem_updateInvitation t p m = (Inr (apply_invitation_patch p i), s')
     \<and> token_keyed (m_invitations s')
     \<and> set (map_values (m_invitations s'))
         = insert (apply_invitation_patch p i) (set (map_values (m_invitations m)) - {i})"
proof -
  let ?m' = "map_set t (apply_invitation_patch p i) (m_invitations m)"
  have old: "map_of (m_invitations m) t = Some i"
    using i token_values_iff [OF ok, of i] by simp
  have ok': "token_keyed ?m'" using ok i(2) p by simp
  have "x \<in> set (map_values ?m')
      \<longleftrightarrow> x \<in> insert (apply_invitation_patch p i) (set (map_values (m_invitations m)) - {i})" for x
    unfolding token_values_iff [OF ok'] insert_iff Diff_iff token_values_iff [OF ok]
    using i(2) p old token_keyed_map_of [OF ok] by auto
  then have "set (map_values ?m')
      = insert (apply_invitation_patch p i) (set (map_values (m_invitations m)) - {i})"
    by blast
  then show ?thesis
    using old ok' by (simp add: mem_updateInvitation_def Let_def)
qed

lemma mem_cleanup_invitations:
  assumes "token_keyed (m_invitations m)"
  shows "\<exists>n s'. mem_cleanupExpiredInvitations now m = (Inr n, s') \<and> token_keyed (m_invitations s')
     \<and> n = int (length (map_values (m_invitations m))) - int (length (map_values (m_invitations s')))
     \<and> map_values (m_invitations s')
         = filter (\<lambda>i. \<not> before (i_expiresAt i) now \<and> \<not> stamp_truthy (i_usedAt i)) (map_values (m_invitations m))"
proof -
  let ?p = "\<lambda>i. before (i_expiresAt i) now \<or> stamp_truthy (i_usedAt i)"
  have k: "keys_distinct (m_invitations m)" using assms by (simp add: token_keyed_def)
  have "length (filter (?p \<circ> snd) (m_invitations m)) + length (filter (Not \<circ> ?p \<circ> snd) (m_invitations m))
      = length (m_invitations m)"
    using sum_length_filter_compl [of "?p \<circ> snd" "m_invitations m"] by (simp add: comp_def)
  then show ?thesis
    using assms by (simp add: mem_cleanupExpiredInvitations_def delete_where_filter [OF k]
        filter_map comp_def)
qed

interpretation minv: invitation_storage memory_invitations "\<lambda>m. map_values (m_invitations m)"
    "\<lambda>m. token_keyed (m_invitations m)"
proof
  fix s :: memory
  assume ok: "token_keyed (m_invitations s)"
  note vals = token_values_iff [OF ok]
  show "distinct_tokens (map_values (m_invitations s))"
    by (rule token_keyed_distinct [OF ok])
  show "io_getAllInvitations memory_invitations s = (Inr (map_values (m_invitations s)), s)"
    by (simp add: memory_invitations_def mem_getAllInvitations_def)
  fix now t
  show "\<exists>r. io_getInvitation memory_invitations now t s = (Inr r, s)
         \<and> (case r of Some i \<Rightarrow> i \<in> set (map_values (m_invitations s)) \<and> i_token i = t
            | None \<Rightarrow> \<forall>i \<in> set (map_values (m_invitations s)). i_token i = t \<longrightarrow> before (i_expiresAt i) now)"
    using mem_find_law [OF ok] by (simp add: memory_invitations_def)
  show "\<exists>xs. io_getPendingInvitations memory_invitations now s = (Inr xs, s)
         \<and> set xs \<subseteq> {i \<in> set (map_values (m_invitations s)). pending now i}
         \<and> (\<forall>i \<in> set (map_values (m_invitations s)). pending now i \<and> i_isActive i \<longrightarrow> i \<in> set xs)"
    by (auto simp: memory_invitations_def mem_getPendingInvitations_def pending_def)
  show "\<exists>s'. io_deleteInvitation memory_invitations t s
      = (Inr (t \<in> i_token ` set (map_values (m_invitations s))), s') \<and> token_keyed (m_invitations s')
         \<and> set (map_values (m_invitations s')) = {i \<in> set (map_values (m_invitations s)). i_token i \<noteq> t}"
    using ok by (simp only: token_key_iff [OF ok]) (force simp: memory_invitations_def
        mem_deleteInvitation_def map_has_def AList.delete_eq token_keyed_def)
  show "\<exists>n s'. io_cleanupExpiredInvitations memory_invitations now s = (Inr n, s')
      \<and> token_keyed (m_invitations s')
         \<and> n = int (length (map_values (m_invitations s))) - int (length (map_values (m_invitations s')))
         \<and> set (map_values (m_invitations s')) \<subseteq> set (map_values (m_invitations s))
         \<and> (\<forall>i \<in> set (map_values (m_invitations s)). pending now i \<longrightarrow> i \<in> set (map_values (m_invitations s')))
         \<and> (\<forall>i \<in> set (map_values (m_invitations s')). \<not> before (i_expiresAt i) now \<or> stamp_truthy (i_usedAt i))"
  proof -
    obtain n s' where run: "mem_cleanupExpiredInvitations now s = (Inr n, s')"
        "token_keyed (m_invitations s')"
        "n = int (length (map_values (m_invitations s))) - int (length (map_values (m_invitations s')))"
        "map_values (m_invitations s') = filter (\<lambda>i. \<not> before (i_expiresAt i) now \<and> \<not> stamp_truthy (i_usedAt i))
             (map_values (m_invitations s))"
      using mem_cleanup_invitations [OF ok] by blast
    have "\<forall>i \<in> set (map_values (m_invitations s)). pending now i \<longrightarrow> i \<in> set (map_values (m_invitations s'))"
      "set (map_values (m_invitations s')) \<subseteq> set (map_values (m_invitations s))"
      "\<forall>i \<in> set (map_values (m_invitations s')). \<not> before (i_expiresAt i) now \<or> stamp_truthy (i_usedAt i)"
      unfolding run(4) by (auto simp: pending_def dest: after_not_before)
    then show ?thesis using run(1,2,3) by (simp add: memory_invitations_def)
  qed
next
  fix s :: memory and data :: admin_invitation and iid
  assume "token_keyed (m_invitations s)" "i_token data \<notin> i_token ` set (map_values (m_invitations s))"
  then show "\<exists>s'. io_createInvitation memory_invitations iid data s = (Inr (data\<lparr>i_id := iid\<rparr>), s')
      \<and> token_keyed (m_invitations s')
      \<and> set (map_values (m_invitations s')) = insert (data\<lparr>i_id := iid\<rparr>) (set (map_values (m_invitations s)))"
    using mem_create_invitation by (simp add: memory_invitations_def)
next
  fix s :: memory and i :: admin_invitation and t and p :: invitation_patch
  assume "token_keyed (m_invitations s)" "i \<in> set (map_values (m_invitations s))" "i_token i = t"
    "ip_token p = None"
  then show "\<exists>s'. io_updateInvitation memory_invitations t p s = (Inr (apply_invitation_patch p i), s')
      \<and> token_keyed (m_invitations s')
      \<and> set (map_values (m_invitations s'))
          = insert (apply_invitation_patch p i) (set (map_values (m_invitations s)) - {i})"
    using mem_update_invitation by (simp add: memory_invitations_def)
next
  fix s :: memory and t and p :: invitation_patch
  assume ok: "token_keyed (m_invitations s)" and t: "t \<notin> i_token ` set (map_values (m_invitations s))"
  have "map_of (m_invitations s) t = None"
    using t unfolding token_key_iff [OF ok] by simp
  then show "\<exists>e. io_updateInvitation memory_invitations t p s = (Inl e, s)"
    by (simp add: memory_invitations_def mem_updateInvitation_def)
qed

text \<open>The file adapter keeps the list itself; its operations act on the first entry of a token.\<close>

lemma file_find_law:
  "\<exists>r. file_getInvitation t f = (Inr r, f)
     \<and> (case r of Some i \<Rightarrow> i \<in> set (f_invites f) \<and> i_token i = t
        | None \<Rightarrow> \<forall>i \<in> set (f_invites f). i_token i = t \<longrightarrow> before (i_expiresAt i) now)"
proof (cases "List.find (\<lambda>i. i_token i = t) (f_invites f)")
  case None
  then have "\<forall>i \<in> set (f_invites f). i_token i \<noteq> t" by (auto simp: find_None_iff)
  then show ?thesis using None by (simp add: file_getInvitation_def)
next
  case (Some i)
  then have "i \<in> set (f_invites f)" "i_token i = t" by (auto simp: find_Some_iff)
  then show ?thesis using Some by (simp add: file_getInvitation_def)
qed

lemma file_update_invitation:
  assumes ok: "distinct_tokens (f_invites f)" and i: "i \<in> set (f_invites f)" "i_token i = t"
    and p: "ip_token p = None"
  shows "\<exists>s'. file_updateInvitation t p f = (Inr (apply_invitation_patch p i), s')
     \<and> distinct_tokens (f_invites s')
     \<and> set (f_invites s') = insert (apply_invitation_patch p i) (set (f_invites f) - {i})"
proof -
  let ?y = "apply_invitation_patch p i"
  have dist: "distinct (map i_token (f_invites f))" using ok by (simp add: distinct_tokens_def)
  obtain n where n: "findIndex (\<lambda>i. i_token i = t) (f_invites f) = Some n"
    using i findIndex_None_iff [of "\<lambda>i. i_token i = t" "f_invites f"] by fastforce
  have at: "f_invites f ! n = i"
    using tokens_inj [OF ok] findIndex_distinct(3,4) [OF dist n] i by metis
  let ?new = "map (\<lambda>s. if i_token s = t then ?y else s) (f_invites f)"
  have new: "(f_invites f)[n := ?y] = ?new" by (rule findIndex_distinct(2) [OF dist n])
  have "map i_token ?new = map i_token (f_invites f)"
    using i(2) p by auto
  then have ok': "distinct_tokens ?new"
    unfolding distinct_tokens_def using dist by presburger
  have "i_token s = t \<longleftrightarrow> s = i" if "s \<in> set (f_invites f)" for s
    using tokens_inj [OF ok that i(1)] i(2) by auto
  then have "set ?new = insert ?y (set (f_invites f) - {i})"
    using i(1) by (auto simp: image_iff)
  then show ?thesis
    using n at new ok' by (simp add: file_updateInvitation_def Let_def)
qed

lemma file_delete_invitation:
  assumes ok: "distinct_tokens (f_invites f)"
  shows "\<exists>s'. file_deleteInvitation t f = (Inr (t \<in> i_token ` set (f_invites f)), s')
     \<and> distinct_tokens (f_invites s') \<and> set (f_invites s') = {i \<in> set (f_invites f). i_token i \<noteq> t}"
proof (cases "findIndex (\<lambda>i. i_token i = t) (f_invites f)")
  case None
  then have none: "\<forall>i \<in> set (f_invites f). i_token i \<noteq> t" by (simp add: findIndex_None_iff)
  then have "t \<notin> i_token ` set (f_invites f)"
    "{i \<in> set (f_invites f). i_token i \<noteq> t} = set (f_invites f)" by auto
  then show ?thesis
    using ok None by (simp add: file_deleteInvitation_def)
next
  case (Some n)
  have dist: "distinct (map i_token (f_invites f))" using ok by (simp add: distinct_tokens_def)
  have "t \<in> i_token ` set (f_invites f)"
    using findIndex_distinct(3,4) [OF dist Some] by blast
  moreover have "distinct_tokens (filter (\<lambda>i. i_token i \<noteq> t) (f_invites f))"
    using dist by (simp add: distinct_tokens_def distinct_map_filter)
  ultimately show ?thesis
    using Some findIndex_distinct(1) [OF dist Some] by (simp add: file_deleteInvitation_def)
qed

interpretation finv: invitation_storage file_invitations f_invites "\<lambda>f. distinct_tokens (f_invites f)"
proof
  fix s :: files
  assume ok: "distinct_tokens (f_invites s)"
  show "distinct_tokens (f_invites s)" by (rule ok)
  show "io_getAllInvitations file_invitations s = (Inr (f_invites s), s)"
    by (simp add: file_invitations_def file_getAllInvitations_def)
  fix now t
  show "\<exists>r. io_getInvitation file_invitations now t s = (Inr r, s)
         \<and> (case r of Some i \<Rightarrow> i \<in> set (f_invites s) \<and> i_token i = t
            | None \<Rightarrow> \<forall>i \<in> set (f_invites s). i_token i = t \<longrightarrow> before (i_expiresAt i) now)"
    using file_find_law by (simp add: file_invitations_def)
  show "\<exists>xs. io_getPendingInvitations file_invitations now s = (Inr xs, s)
         \<and> set xs \<subseteq> {i \<in> set (f_invites s). pending now i}
         \<and> (\<forall>i \<in> set (f_invites s). pending now i \<and> i_isActive i \<longrightarrow> i \<in> set xs)"
    by (auto simp: file_invitations_def file_getPendingInvitations_def pending_def)
  show "\<exists>s'. io_deleteInvitation file_invitations t s
      = (Inr (t \<in> i_token ` set (f_invites s)), s') \<and> distinct_tokens (f_invites s')
         \<and> set (f_invites s') = {i \<in> set (f_invites s). i_token i \<noteq> t}"
    using file_delete_invitation [OF ok] by (simp add: file_invitations_def)
  show "\<exists>n s'. io_cleanupExpiredInvitations file_invitations now s = (Inr n, s')
      \<and> distinct_tokens (f_invites s')
         \<and> n = int (length (f_invites s)) - int (length (f_invites s'))
         \<and> set (f_invites s') \<subseteq> set (f_invites s)
         \<and> (\<forall>i \<in> set (f_invites s). pending now i \<longrightarrow> i \<in> set (f_invites s'))
         \<and> (\<forall>i \<in> set (f_invites s'). \<not> before (i_expiresAt i) now \<or> stamp_truthy (i_usedAt i))"
    using ok by (auto simp: file_invitations_def file_cleanupExpiredInvitations_def Let_def
        distinct_tokens_def distinct_map_filter pending_def dest: after_not_before)
next
  fix s :: files and data :: admin_invitation and iid
  assume "distinct_tokens (f_invites s)" "i_token data \<notin> i_token ` set (f_invites s)"
  then show "\<exists>s'. io_createInvitation file_invitations iid data s = (Inr (data\<lparr>i_id := iid\<rparr>), s')
      \<and> distinct_tokens (f_invites s')
      \<and> set (f_invites s') = insert (data\<lparr>i_id := iid\<rparr>) (set (f_invites s))"
    by (simp add: file_invitations_def file_createInvitation_def Let_def distinct_tokens_def)
next
  fix s :: files and i :: admin_invitation and t and p :: invitation_patch
  assume "distinct_tokens (f_invites s)" "i \<in> set (f_invites s)" "i_token i = t" "ip_token p = None"
  then show "\<exists>s'. io_updateInvitation file_invitations t p s = (Inr (apply_invitation_patch p i), s')
      \<and> distinct_tokens (f_invites s')
      \<and> set (f_invites s') = insert (apply_invitation_patch p i) (set (f_invites s) - {i})"
    using file_update_invitation by (simp add: file_invitations_def)
next
  fix s :: files and t and p :: invitation_patch
  assume "distinct_tokens (f_invites s)" and t: "t \<notin> i_token ` set (f_invites s)"
  then have "findIndex (\<lambda>i. i_token i = t) (f_invites s) = None"
    by (auto simp: findIndex_None_iff)
  then show "\<exists>e. io_updateInvitation file_invitations t p s = (Inl e, s)"
    by (simp add: file_invitations_def file_updateInvitation_def)
qed

end
