(* ===== verification/Invitation_Guarantees.thy ===== *)
theory Invitation_Guarantees
  imports Invitations
begin

text \<open>
  What the invitation service guarantees over the two adapters: an invitation is accepted once,
  the lookup answers exactly the valid invitations, and the statistics partition them. The last
  section shows where the two adapters and the service differ from that picture.
\<close>

section \<open>Properties\<close>

text \<open>
  C29. An invitation is used once: marking a stored invitation as used succeeds, and from then on,
  whatever invitations are created under fresh tokens, marked, revoked, extended or cleaned up,
  and at any later time, the service answers nothing for its token.
\<close>

theorem invitation_single_use:
  assumes "distinct_tokens (f_invites f)" "i \<in> set (f_invites f)" "i_token i = t"
    and "iv_markAsUsed file_invitations now t who f = (r, f1)"
    and "(iv_step file_invitations f_invites t)\<^sup>*\<^sup>* f1 f2"
  shows "r = Inr True \<and> iv_getInvitation file_invitations now' t f2 = (Inr None, f2)"
  by (rule finv.single_use [OF assms])

text \<open>
  Over the in-memory adapter the service finds an invitation by its token exactly when it is
  stored, unexpired and unused, and \<open>getStatistics\<close> splits the stored invitations, when their
  expiry dates parse, into the pending, the expired and the used ones.
\<close>

theorem invitation_lookup_and_statistics:
  assumes "token_keyed (m_invitations m)"
    and "\<forall>i \<in> set (map_values (m_invitations m)). date_parse (i_expiresAt i) \<noteq> None"
  shows "(\<exists>r. iv_getInvitation memory_invitations now t m = (Inr r, m)
           \<and> (\<forall>i. r = Some i \<longleftrightarrow> i \<in> set (map_values (m_invitations m)) \<and> i_token i = t
                  \<and> \<not> before (i_expiresAt i) now \<and> \<not> stamp_truthy (i_usedAt i)))
     \<and> (\<exists>v. iv_getStatistics memory_invitations now m = (Inr v, m)
           \<and> is_total v = is_pending v + is_expired v + is_used v
           \<and> is_pending v = int (card {i \<in> set (map_values (m_invitations m)). pending now i}))"
  using minv.getInvitation_iff [OF assms(1)] minv.statistics_partition [OF assms] by blast

section \<open>Concrete invitations\<close>

definition sample_options :: invitation_options where
  "sample_options =
     \<lparr>iv_role = ''editor'', iv_createdBy = ''u1'', iv_createdByHandle = ''ada'',
      iv_expiresInHours = Some 2, iv_message = None, iv_email = None\<rparr>"

definition sample_config :: invitation_config where
  "sample_config = \<lparr>defaultExpiryHours = 72, baseUrl = ''https://x'', totpIssuer = None\<rparr>"

text \<open>A host in UTC, and libraries that answer; \<open>qr\<close> is the answer of the QR encoder.\<close>

definition sample_env :: "string result \<Rightarrow> invitation_env" where
  "sample_env qr =
     \<lparr>addHours = (\<lambda>t h. t + h * 3600000), authenticatorSecret = Inr ''SECRET'',
      authenticatorUri = (\<lambda>account issuer secret. Inr (''otpauth:'' @ account)),
      toDataURL = (\<lambda>uri. qr)\<rparr>"

definition sample_invitation :: admin_invitation where
  "sample_invitation =
     (invitation_data sample_config (sample_env (Inr [])) 0 0 ''tok'' ''SECRET'' sample_options)\<lparr>i_id := ''i1''\<rparr>"

lemmas sample_simps =
  sample_options_def sample_config_def sample_env_def sample_invitation_def invitation_data_def
  num_or_def

theorem invitation_single_use_witness:
  "iv_getInvitation file_invitations 9 ''tok''
     (snd (iv_markAsUsed file_invitations 5 ''tok'' ''u2'' (empty_files\<lparr>f_invites := [sample_invitation]\<rparr>)))
   = (Inr None, snd (iv_markAsUsed file_invitations 5 ''tok'' ''u2'' (empty_files\<lparr>f_invites := [sample_invitation]\<rparr>)))"
  using invitation_single_use [of "empty_files\<lparr>f_invites := [sample_invitation]\<rparr>" sample_invitation "''tok''" 5 "''u2''",
      OF _ _ _ surjective_pairing rtranclp.rtrancl_refl, of 9]
  by (simp add: distinct_tokens_def sample_simps Let_def)

theorem invitation_lookup_and_statistics_witness:
  "\<exists>v. iv_getStatistics memory_invitations 7 (empty_memory\<lparr>m_invitations := [(''tok'', sample_invitation)]\<rparr>)
         = (Inr v, empty_memory\<lparr>m_invitations := [(''tok'', sample_invitation)]\<rparr>)
     \<and> is_total v = is_pending v + is_expired v + is_used v"
proof -
  have "token_keyed [(''tok'', sample_invitation)]"
    by (simp add: token_keyed_def keys_distinct_def sample_simps Let_def)
  moreover have "date_parse (i_expiresAt sample_invitation) \<noteq> None"
    by (simp add: sample_simps Let_def)
  ultimately show ?thesis
    using invitation_lookup_and_statistics
      [of "empty_memory\<lparr>m_invitations := [(''tok'', sample_invitation)]\<rparr>" 7 "''tok''"]
    by auto
qed

section \<open>Where the service is weaker\<close>

text \<open>
  \<open>markAsUsed\<close> does not look at \<open>usedAt\<close>: two acceptances of one invitation both succeed, and
  the second overwrites who used it. Only a \<open>getInvitation\<close> just before keeps them apart.
\<close>

lemma mark_used_twice:
  "let f = empty_files\<lparr>f_invites := [sample_invitation]\<rparr>;
       (r1, f1) = iv_markAsUsed file_invitations 5 ''tok'' ''u2'' f;
       (r2, f2) = iv_markAsUsed file_invitations 6 ''tok'' ''u3'' f1
   in r1 = Inr True \<and> r2 = Inr True \<and> map i_usedBy (f_invites f2) = [Some ''u3'']"
  by (simp add: iv_markAsUsed_def file_invitations_def file_updateInvitation_def sample_simps Let_def)

text \<open>
  \<open>createInvitation\<close> stores the invitation before it makes the QR code: when that fails, the
  caller is told that no invitation was created, and the invitation stays valid.
\<close>

lemma failed_create_leaves_invitation:
  "let (r, f) = iv_createInvitation file_invitations sample_config (sample_env (Inl (Error ''qr''))) 0 0
                  ''tok'' ''i1'' sample_options empty_files
   in r = Inr create_failed \<and> iv_getInvitation file_invitations 5 ''tok'' f = (Inr (Some sample_invitation), f)"
  by (simp add: iv_createInvitation_def iv_getInvitation_def file_invitations_def file_createInvitation_def
      file_getInvitation_def of_result_def sample_simps empty_files_def Let_def)

text \<open>
  The adapters disagree on expired and used invitations. An expired invitation can be extended,
  and so revived, over files, but not in memory; a used one is kept by the cleanup of the file
  adapter and removed by the one in memory.
\<close>

lemma adapters_disagree_on_expiry:
  "fst (iv_extendInvitation file_invitations (sample_env (Inr [])) 99999999 ''tok'' 1
         (empty_files\<lparr>f_invites := [sample_invitation]\<rparr>)) = Inr True
   \<and> fst (iv_extendInvitation memory_invitations (sample_env (Inr [])) 99999999 ''tok'' 1
         (empty_memory\<lparr>m_invitations := [(''tok'', sample_invitation)]\<rparr>)) = Inr False"
  by (simp add: iv_extendInvitation_def file_invitations_def memory_invitations_def file_getInvitation_def
      mem_getInvitation_def file_updateInvitation_def sample_simps Let_def)

lemma adapters_disagree_on_cleanup:
  assumes "i_usedAt i = Some (Iso t)"
  shows "f_invites (snd (file_cleanupExpiredInvitations now (f\<lparr>f_invites := [i]\<rparr>))) = [i]
     \<and> m_invitations (snd (mem_cleanupExpiredInvitations now (m\<lparr>m_invitations := [(i_token i, i)]\<rparr>))) = []"
  using assms by (simp add: file_cleanupExpiredInvitations_def mem_cleanupExpiredInvitations_def
      delete_where_filter keys_distinct_def Let_def)

end
