(* ===== verification/Json_Text.thy ===== *)
theory Json_Text
  imports Prelude
begin

text \<open>
  \<open>JSON.stringify\<close> of strings and of arrays of strings, which the step-up store hashes, with
  the proof that the text determines the strings.
\<close>

section \<open>Strings\<close>

text \<open>The two quoting characters and the control characters are escaped, the rest stands for itself.\<close>

definition json_char :: "char \<Rightarrow> string" where
  "json_char c =
     (let n = of_char c :: nat in
      if n = 34 then [CHR 0x5C, CHR 0x22]
      else if n = 92 then [CHR 0x5C, CHR 0x5C]
      else if n = 8 then [CHR 0x5C, CHR ''b'']
      else if n = 9 then [CHR 0x5C, CHR ''t'']
      else if n = 10 then [CHR 0x5C, CHR ''n'']
      else if n = 12 then [CHR 0x5C, CHR ''f'']
      else if n = 13 then [CHR 0x5C, CHR ''r'']
      else if n < 32 then [CHR 0x5C, CHR ''u'', CHR ''0'', CHR ''0'', hex_digit (n div 16), hex_digit (n mod 16)]
      else [c])"

definition json_body :: "string \<Rightarrow> string" where
  "json_body s = concat (map json_char s)"

definition json_string :: "string \<Rightarrow> string" where
  "json_string s = [CHR 0x22] @ json_body s @ [CHR 0x22]"

fun json_join :: "string list \<Rightarrow> string" where
  "json_join [] = []"
| "json_join [x] = x"
| "json_join (x # y # xs) = x @ [CHR '',''] @ json_join (y # xs)"

definition json_array :: "string list \<Rightarrow> string" where
  "json_array xs = [CHR ''[''] @ json_join (map json_string xs) @ [CHR '']'']"

section \<open>The text determines the strings\<close>

text \<open>Reading the first character of a body back.\<close>

definition unletter :: "char \<Rightarrow> char" where
  "unletter x =
     (if x = CHR ''b'' then char_of (8 :: nat) else if x = CHR ''t'' then char_of (9 :: nat)
      else if x = CHR ''n'' then char_of (10 :: nat) else if x = CHR ''f'' then char_of (12 :: nat)
      else if x = CHR ''r'' then char_of (13 :: nat) else x)"

definition unhex :: "char \<Rightarrow> nat" where
  "unhex c = (let n = of_char c :: nat in if n \<le> 57 then n - 48 else n - 87)"

definition json_read :: "string \<Rightarrow> (char \<times> string) option" where
  "json_read s =
     (case s of [] \<Rightarrow> None | c # r \<Rightarrow>
        if c \<noteq> CHR 0x5C then Some (c, r)
        else case r of [] \<Rightarrow> None | x # r' \<Rightarrow>
          if x = CHR ''u'' then Some (char_of (16 * unhex (r' ! 2) + unhex (r' ! 3)), drop 4 r')
          else Some (unletter x, r'))"

definition json_char_ok :: "char \<Rightarrow> bool" where
  "json_char_ok c \<longleftrightarrow>
     json_read (json_char c) = Some (c, [])
     \<and> (case json_char c of [] \<Rightarrow> False
        | a # r \<Rightarrow> a \<noteq> CHR 0x22
            \<and> (case r of [] \<Rightarrow> True | x # r' \<Rightarrow> a = CHR 0x5C \<and> x = CHR ''u'' \<longrightarrow> length r' = 4))"

lemma unhex_hex_digit: "n < 16 \<Longrightarrow> unhex (hex_digit n) = n"
proof -
  have "list_all (\<lambda>n. unhex (hex_digit n) = n) [0..<16]" by code_simp
  moreover assume "n < 16"
  ultimately show ?thesis by (simp only: list_all_iff set_upt) simp
qed

lemma json_char_ok: "json_char_ok c"
proof -
  define n where "n = (of_char c :: nat)"
  have c: "c = char_of n" by (simp add: n_def)
  consider "n \<in> {34, 92, 8, 9, 10, 12, 13}" | "n \<notin> {34, 92, 8, 9, 10, 12, 13}" "n < 32"
    | "n \<notin> {34, 92, 8, 9, 10, 12, 13}" "32 \<le> n"
    by linarith
  then show ?thesis
  proof cases
    case 1
    have "char_of (34 :: nat) = CHR 0x22" "char_of (92 :: nat) = CHR 0x5C" by code_simp+
    with 1 show ?thesis
      unfolding c by (auto simp: json_char_ok_def json_char_def json_read_def unletter_def)
  next
    case 2
    then have "json_char c
        = [CHR 0x5C, CHR ''u'', CHR ''0'', CHR ''0'', hex_digit (n div 16), hex_digit (n mod 16)]"
      by (simp add: json_char_def Let_def flip: n_def)
    moreover have "unhex (hex_digit (n div 16)) = n div 16" "unhex (hex_digit (n mod 16)) = n mod 16"
      using 2(2) by (simp_all add: unhex_hex_digit)
    ultimately show ?thesis
      by (simp add: json_char_ok_def json_read_def c numeral_2_eq_2 numeral_3_eq_3)
  next
    case 3
    then have "json_char c = [c]" by (simp add: json_char_def Let_def flip: n_def)
    moreover have "c \<noteq> CHR 0x5C" "c \<noteq> CHR 0x22" using 3(1) by (auto simp: n_def)
    ultimately show ?thesis by (simp add: json_char_ok_def json_read_def)
  qed
qed

lemma json_char_Cons: "\<exists>a r. json_char c = a # r \<and> a \<noteq> CHR 0x22"
  using json_char_ok [of c] by (auto simp: json_char_ok_def split: list.splits)

lemma json_read_extend:
  assumes "json_read s = Some (d, [])" "\<And>r. s = CHR 0x5C # CHR ''u'' # r \<Longrightarrow> length r = 4"
  shows "json_read (s @ xs) = Some (d, xs)"
proof (cases s)
  case Nil
  then show ?thesis using assms(1) by (simp add: json_read_def)
next
  case (Cons a r)
  note s = Cons
  show ?thesis
  proof (cases r)
    case Nil
    then show ?thesis using assms(1) s by (simp add: json_read_def split: if_splits)
  next
    case (Cons x r')
    show ?thesis
    proof (cases "a = CHR 0x5C \<and> x = CHR ''u''")
      case True
      then have "length r' = 4" using assms(2) s Cons by simp
      then show ?thesis using assms(1) True s Cons by (simp add: json_read_def nth_append)
    next
      case False
      then show ?thesis using assms(1) s Cons by (auto simp: json_read_def split: if_splits)
    qed
  qed
qed

lemma json_read_append: "json_read (json_char c @ xs) = Some (c, xs)"
proof (rule json_read_extend)
  show "json_read (json_char c) = Some (c, [])"
    using json_char_ok [of c] by (simp only: json_char_ok_def)
  fix r
  assume "json_char c = CHR 0x5C # CHR ''u'' # r"
  then show "length r = 4"
    using json_char_ok [of c] by (simp only: json_char_ok_def list.case simp_thms)
qed

lemma json_char_prefix: "json_char c @ xs = json_char d @ ys \<longleftrightarrow> c = d \<and> xs = ys"
  by (metis json_read_append option.inject prod.inject)

lemma json_body_close:
  "json_body s @ CHR 0x22 # xs = json_body t @ CHR 0x22 # ys \<longleftrightarrow> s = t \<and> xs = ys"
proof (induction s arbitrary: t)
  case Nil
  show ?case
  proof (cases t)
    case (Cons d t')
    obtain a r where "json_char d = a # r" "a \<noteq> CHR 0x22" using json_char_Cons by blast
    then show ?thesis using Cons by (simp add: json_body_def)
  qed (simp add: json_body_def)
next
  case (Cons c s)
  show ?case
  proof (cases t)
    case Nil
    obtain a r where "json_char c = a # r" "a \<noteq> CHR 0x22" using json_char_Cons by blast
    then show ?thesis using Nil by (simp add: json_body_def)
  next
    case (Cons d t')
    have body: "json_body (x # u) @ v = json_char x @ (json_body u @ v)" for x u v
      by (simp add: json_body_def)
    show ?thesis
      unfolding Cons body json_char_prefix Cons.IH [of t'] by auto
  qed
qed

lemma json_string_prefix:
  "json_string s @ xs = json_string t @ ys \<longleftrightarrow> s = t \<and> xs = ys"
  using json_body_close [of s xs t ys] by (simp add: json_string_def)

lemma json_string_Cons: "json_string s = CHR 0x22 # (json_body s @ [CHR 0x22])"
  by (simp add: json_string_def)

lemma json_join_Cons:
  "json_join (map json_string (s # ss)) @ zs
     = json_string s @ (if ss = [] then zs else CHR '','' # json_join (map json_string ss) @ zs)"
  by (cases ss) simp_all

lemma json_join_inj:
  "json_join (map json_string ss) @ CHR '']'' # xs = json_join (map json_string ts) @ CHR '']'' # ys
     \<longleftrightarrow> ss = ts \<and> xs = ys"
proof (induction ss arbitrary: ts)
  case Nil
  show ?case
  proof (cases ts)
    case (Cons t ts')
    show ?thesis
      unfolding Cons json_join_Cons by (simp add: json_string_Cons)
  qed simp
next
  case (Cons s ss)
  show ?case
  proof (cases ts)
    case Nil
    show ?thesis
      unfolding Nil json_join_Cons by (simp add: json_string_Cons)
  next
    case (Cons t ts')
    show ?thesis
      unfolding Cons json_join_Cons json_string_prefix
      using Cons.IH [of ts'] by (cases "ss = []"; cases "ts' = []") auto
  qed
qed

lemma json_array_inj [simp]: "json_array ss = json_array ts \<longleftrightarrow> ss = ts"
  using json_join_inj [of ss "[]" ts "[]"] by (simp add: json_array_def)

end
