(* ===== verification/Action_Step_Up.thy ===== *)
theory Action_Step_Up
  imports Json_Text Security
begin

text \<open>
  The action permits of \<open>src/storage/action-step-up.ts\<close>: a challenge is issued for one action
  on one resource, verified by a second factor, and consumed once.

  The store keeps one sealed record per challenge in a private directory. Here the directory is
  a map from file names to contents; a file that does not parse as an envelope carries the
  message it is refused with. HMAC, the signing key, the clock readings, the random references
  and the outcome of every file-system call are arguments. The directory queue makes the
  operations atomic with respect to each other. Times stay below the year 275760, where
  \<open>toISOString\<close> is defined, and the temporary file of a failed publication is removed.
\<close>

section \<open>Errors and limits\<close>

datatype step_up_code = INVALID | EXPIRED | UNAUTHORIZED | CONFLICT | UNAVAILABLE

datatype step_up_error = ActionStepUpError (step_up_code: step_up_code) (step_up_message: string)

definition MAX_TTL_MS :: int where "MAX_TTL_MS = 5 * 60 * 1000"
definition MAX_RECORDS :: int where "MAX_RECORDS = 4096"
definition MAX_FAILURES :: int where "MAX_FAILURES = 5"

text \<open>\<open>Number.isSafeInteger\<close> of an integer.\<close>

definition safe_int :: "int \<Rightarrow> bool" where
  "safe_int n \<longleftrightarrow> \<bar>n\<bar> \<le> 2 ^ 53 - 1"

record step_up_config =
  su_ttlMs :: int
  su_maxRecords :: int
  su_maxFailures :: int

definition su_configure ::
  "string \<Rightarrow> int option \<Rightarrow> int option \<Rightarrow> int option \<Rightarrow> step_up_error + step_up_config" where
  "su_configure directory ttlMs maxRecords maxFailures =
     (if directory = [] then Inl (ActionStepUpError INVALID ''Step-up directory is required'')
      else
        let ttl = nullish ttlMs MAX_TTL_MS;
            records = nullish maxRecords MAX_RECORDS;
            failures = nullish maxFailures MAX_FAILURES
        in if \<not> safe_int ttl \<or> ttl \<le> 0 \<or> ttl > MAX_TTL_MS
              \<or> \<not> safe_int records \<or> records \<le> 0 \<or> records > MAX_RECORDS
              \<or> \<not> safe_int failures \<or> failures \<le> 0 \<or> failures > MAX_FAILURES
           then Inl (ActionStepUpError INVALID ''Invalid step-up limits'')
           else Inr \<lparr>su_ttlMs = ttl, su_maxRecords = records, su_maxFailures = failures\<rparr>)"

section \<open>Bindings\<close>

record action_identity =
  ai_userId :: string
  ai_sessionBinding :: string
  ai_credentialBinding :: string
  ai_authorityBinding :: string
  ai_factorBinding :: string

record action_binding = action_identity +
  ab_action :: string
  ab_resourceKind :: string
  ab_resourceId :: string
  ab_intentDigest :: string
  ab_targetDigest :: string

definition ACTIONS :: "string list" where
  "ACTIONS =
     [''user.password.reset'', ''user.access.update'', ''user.remove'', ''factor.disable'',
      ''federation.activate'', ''invitation.create'', ''invitation.extend'', ''spoke.owner.bind'']"

definition step_up_text :: "string \<Rightarrow> bool" where
  "step_up_text s \<longleftrightarrow> s \<noteq> [] \<and> length s \<le> 256 \<and> \<not> has_nul s"

definition assertIdentity :: "'a action_identity_scheme \<Rightarrow> step_up_error + unit" where
  "assertIdentity i =
     (if \<not> step_up_text (ai_userId i) then Inl (ActionStepUpError INVALID ''Invalid step-up binding'')
      else if \<not> list_all is_sha256_hex
             [ai_sessionBinding i, ai_credentialBinding i, ai_authorityBinding i, ai_factorBinding i]
      then Inl (ActionStepUpError INVALID ''Invalid step-up digest'')
      else Inr ())"

definition assertBinding :: "action_binding \<Rightarrow> step_up_error + unit" where
  "assertBinding b =
     (case assertIdentity b of
        Inl e \<Rightarrow> Inl e
      | Inr _ \<Rightarrow>
          if ab_action b \<notin> set ACTIONS then Inl (ActionStepUpError INVALID ''Unknown step-up action'')
          else if ab_resourceKind b \<noteq> ''user'' \<and> ab_resourceKind b \<noteq> ''invitation''
          then Inl (ActionStepUpError INVALID ''Unknown step-up resource'')
          else if \<not> step_up_text (ab_resourceId b)
          then Inl (ActionStepUpError INVALID ''Invalid step-up binding'')
          else if \<not> is_sha256_hex (ab_intentDigest b) \<or> \<not> is_sha256_hex (ab_targetDigest b)
          then Inl (ActionStepUpError INVALID ''Invalid step-up digest'')
          else Inr ())"

definition identityValues :: "'a action_identity_scheme \<Rightarrow> string list" where
  "identityValues i =
     [ai_userId i, ai_sessionBinding i, ai_credentialBinding i, ai_authorityBinding i, ai_factorBinding i]"

definition bindingValues :: "action_binding \<Rightarrow> string list" where
  "bindingValues b =
     identityValues b @
     [ab_action b, ab_resourceKind b, ab_resourceId b, ab_intentDigest b, ab_targetDigest b]"

text \<open>\<open>timingSafeEqual\<close> on two buffers of 32 bytes is equality of the hexadecimal texts.\<close>

definition equalDigest :: "string \<Rightarrow> string \<Rightarrow> bool" where
  "equalDigest left right \<longleftrightarrow> is_sha256_hex left \<and> is_sha256_hex right \<and> left = right"

section \<open>Records\<close>

datatype step_up_state = Pending | Verified | Consumed

record step_up_record =
  sr_state :: step_up_state
  sr_referenceDigest :: string
  sr_identityDigest :: string
  sr_bindingDigest :: string
  sr_userDigest :: string
  sr_factorBinding :: string
  sr_action :: string
  sr_resourceKind :: string
  sr_resourceDigest :: string
  sr_intentDigest :: string
  sr_targetDigest :: string
  sr_createdAt :: int
  sr_expiresAt :: int
  sr_failures :: int
  sr_verifiedAt :: "int option"
  sr_permitDigest :: "string option"
  sr_consumedAt :: "int option"
  sr_receiptDigest :: "string option"

definition state_fields :: "step_up_record \<Rightarrow> bool" where
  "state_fields r \<longleftrightarrow>
     (sr_verifiedAt r \<noteq> None) = (sr_state r \<noteq> Pending)
     \<and> (sr_permitDigest r \<noteq> None) = (sr_state r \<noteq> Pending)
     \<and> (sr_consumedAt r \<noteq> None) = (sr_state r = Consumed)
     \<and> (sr_receiptDigest r \<noteq> None) = (sr_state r = Consumed)"

definition assertRecord :: "step_up_record \<Rightarrow> step_up_error + unit" where
  "assertRecord r =
     (if \<not> state_fields r then Inl (ActionStepUpError INVALID ''Unexpected step-up record fields'')
      else if sr_action r \<notin> set ACTIONS
              \<or> (sr_resourceKind r \<noteq> ''user'' \<and> sr_resourceKind r \<noteq> ''invitation'')
      then Inl (ActionStepUpError INVALID ''Invalid step-up record authority'')
      else if \<not> list_all is_sha256_hex
                [sr_referenceDigest r, sr_identityDigest r, sr_bindingDigest r, sr_userDigest r,
                 sr_factorBinding r, sr_resourceDigest r, sr_intentDigest r, sr_targetDigest r]
      then Inl (ActionStepUpError INVALID ''Invalid step-up digest'')
      else if \<not> safe_int (sr_createdAt r) \<or> \<not> safe_int (sr_expiresAt r)
              \<or> sr_expiresAt r \<le> sr_createdAt r \<or> sr_expiresAt r - sr_createdAt r > MAX_TTL_MS
              \<or> \<not> safe_int (sr_failures r) \<or> sr_failures r < 0 \<or> sr_failures r > MAX_FAILURES
      then Inl (ActionStepUpError INVALID ''Invalid step-up lifetime or failure count'')
      else if sr_state r \<noteq> Pending
              \<and> (\<not> safe_int (the (sr_verifiedAt r)) \<or> the (sr_verifiedAt r) < sr_createdAt r
                 \<or> the (sr_verifiedAt r) \<ge> sr_expiresAt r)
      then Inl (ActionStepUpError INVALID ''Invalid verification time'')
      else if sr_state r \<noteq> Pending \<and> \<not> is_sha256_hex (the (sr_permitDigest r))
      then Inl (ActionStepUpError INVALID ''Invalid step-up digest'')
      else if sr_state r = Consumed
              \<and> (\<not> safe_int (the (sr_consumedAt r)) \<or> the (sr_consumedAt r) < the (sr_verifiedAt r)
                 \<or> the (sr_consumedAt r) \<ge> sr_expiresAt r)
      then Inl (ActionStepUpError INVALID ''Invalid consumption time'')
      else if sr_state r = Consumed \<and> \<not> is_sha256_hex (the (sr_receiptDigest r))
      then Inl (ActionStepUpError INVALID ''Invalid step-up digest'')
      else Inr ())"

text \<open>\<open>JSON.stringify(record)\<close>: the keys in the order the code writes them.\<close>

definition json_field :: "string \<Rightarrow> string \<Rightarrow> string" where
  "json_field name v = json_string name @ '':'' @ v"

fun state_name :: "step_up_state \<Rightarrow> string" where
  "state_name Pending = ''pending''"
| "state_name Verified = ''verified''"
| "state_name Consumed = ''consumed''"

definition optional_field :: "string \<Rightarrow> ('a \<Rightarrow> string) \<Rightarrow> 'a option \<Rightarrow> string list" where
  "optional_field name f v = (case v of None \<Rightarrow> [] | Some a \<Rightarrow> [json_field name (f a)])"

definition record_json :: "step_up_record \<Rightarrow> string" where
  "record_json r =
     ''{'' @ json_join
       ([json_field ''version'' ''1'',
         json_field ''state'' (json_string (state_name (sr_state r))),
         json_field ''referenceDigest'' (json_string (sr_referenceDigest r)),
         json_field ''identityDigest'' (json_string (sr_identityDigest r)),
         json_field ''bindingDigest'' (json_string (sr_bindingDigest r)),
         json_field ''userDigest'' (json_string (sr_userDigest r)),
         json_field ''factorBinding'' (json_string (sr_factorBinding r)),
         json_field ''action'' (json_string (sr_action r)),
         json_field ''resourceKind'' (json_string (sr_resourceKind r)),
         json_field ''resourceDigest'' (json_string (sr_resourceDigest r)),
         json_field ''intentDigest'' (json_string (sr_intentDigest r)),
         json_field ''targetDigest'' (json_string (sr_targetDigest r)),
         json_field ''createdAt'' (show_int (sr_createdAt r)),
         json_field ''expiresAt'' (show_int (sr_expiresAt r)),
         json_field ''failures'' (show_int (sr_failures r))]
        @ optional_field ''verifiedAt'' show_int (sr_verifiedAt r)
        @ optional_field ''permitDigest'' json_string (sr_permitDigest r)
        @ optional_field ''consumedAt'' show_int (sr_consumedAt r)
        @ optional_field ''receiptDigest'' json_string (sr_receiptDigest r)) @ ''}''"

section \<open>The store\<close>

text \<open>
  \<open>Malformed\<close> stands for every file that is not JSON of an envelope of version 1 with a record
  of the right fields; it carries the message of the check that refuses it.
\<close>

datatype step_up_content = Envelope step_up_record string | Malformed string

record step_up_file =
  sf_content :: step_up_content
  sf_mtime :: int

type_synonym step_up_dir = "step_up_file jsmap"
type_synonym 'a step_up_op = "(step_up_error, step_up_dir, 'a) fallible"

text \<open>The signing key, or \<open>None\<close> when \<open>signingKey\<close> throws, and HMAC-SHA-256 in hexadecimal.\<close>

record step_up_env =
  se_key :: "string option"
  se_hmac :: "string \<Rightarrow> string \<Rightarrow> string"

text \<open>
  What the file system answers during one operation: whether the directory could be prepared,
  listed, and synced after a cleanup, whether a file could be read or removed, and the outcome
  of a publication. \<open>Unacknowledged\<close> is a rename whose directory sync failed.
\<close>

datatype publication = Published int | Unacknowledged int | Unpublished

record step_up_io =
  si_prepare :: bool
  si_list :: bool
  si_readable :: "string \<Rightarrow> bool"
  si_removable :: "string \<Rightarrow> bool"
  si_cleaned :: bool
  si_publish :: publication

definition unavailable :: "string \<Rightarrow> step_up_error" where
  "unavailable m = ActionStepUpError UNAVAILABLE m"

definition su_clock :: "int \<Rightarrow> step_up_error + int" where
  "su_clock now =
     (if \<not> safe_int now then Inl (unavailable ''Step-up clock is unavailable'') else Inr now)"

definition su_key :: "step_up_env \<Rightarrow> step_up_error + string" where
  "su_key env =
     (case se_key env of
        None \<Rightarrow> Inl (unavailable ''Step-up signing custody is unavailable'')
      | Some k \<Rightarrow> if length (utf8 k) < 32
                  then Inl (unavailable ''Step-up signing custody is unavailable'') else Inr k)"

definition domain_text :: "string \<Rightarrow> string \<Rightarrow> string" where
  "domain_text domain v = ''tinyland-auth:action-step-up:'' @ domain @ '':v1'' @ [CHR 0x00] @ v"

definition su_digest :: "step_up_env \<Rightarrow> string \<Rightarrow> string \<Rightarrow> step_up_error + string" where
  "su_digest env domain v =
     (case su_key env of Inl e \<Rightarrow> Inl e | Inr k \<Rightarrow> Inr (se_hmac env k (domain_text domain v)))"

text \<open>The pattern \<open>^[A-Za-z0-9_-]{43}$\<close>.\<close>

definition assertReference :: "string \<Rightarrow> step_up_error + unit" where
  "assertReference s =
     (if length s = 43 \<and> list_all is_word_dash s then Inr ()
      else Inl (ActionStepUpError INVALID ''Invalid step-up reference''))"

definition su_filename :: "string \<Rightarrow> string" where
  "su_filename referenceDigest = referenceDigest @ ''.json''"

definition su_prepare :: "step_up_io \<Rightarrow> unit step_up_op" where
  "su_prepare io = (if si_prepare io then return_op ()
     else throw_op (unavailable ''Step-up storage is unavailable''))"

text \<open>What \<open>read\<close> and the cleanup both check of a parsed envelope.\<close>

definition open_envelope :: "step_up_content \<Rightarrow> step_up_error + (step_up_record \<times> string)" where
  "open_envelope c =
     (case c of
        Malformed m \<Rightarrow> Inl (ActionStepUpError INVALID m)
      | Envelope r seal \<Rightarrow>
          (case assertRecord r of
             Inl e \<Rightarrow> Inl e
           | Inr _ \<Rightarrow> if \<not> is_sha256_hex seal then Inl (ActionStepUpError INVALID ''Invalid step-up digest'')
                      else Inr (r, seal)))"

definition su_read :: "step_up_env \<Rightarrow> step_up_io \<Rightarrow> string \<Rightarrow> step_up_record step_up_op" where
  "su_read env io reference =
     bind_op (of_result (su_digest env ''reference'' reference)) (\<lambda>expectedDigest dir.
       case map_of dir (su_filename expectedDigest) of
         None \<Rightarrow> (Inl (ActionStepUpError INVALID ''Unknown step-up reference''), dir)
       | Some file \<Rightarrow>
           if \<not> si_readable io (su_filename expectedDigest)
           then (Inl (unavailable ''Step-up storage is unavailable''), dir)
           else bind_op (of_result (open_envelope (sf_content file))) (\<lambda>(r, seal).
                bind_op (of_result (su_digest env ''seal'' (record_json r))) (\<lambda>expectedSeal.
                  if \<not> equalDigest seal expectedSeal \<or> \<not> equalDigest (sr_referenceDigest r) expectedDigest
                  then throw_op (ActionStepUpError INVALID ''Invalid step-up seal'')
                  else return_op r)) dir)"

definition su_write :: "step_up_env \<Rightarrow> step_up_io \<Rightarrow> step_up_record \<Rightarrow> unit step_up_op" where
  "su_write env io r =
     bind_op (of_result (assertRecord r)) (\<lambda>_.
     bind_op (of_result (su_digest env ''seal'' (record_json r))) (\<lambda>seal dir.
       let file = (\<lambda>t. \<lparr>sf_content = Envelope r seal, sf_mtime = t\<rparr>);
           name = su_filename (sr_referenceDigest r)
       in case si_publish io of
            Published t \<Rightarrow> (Inr (), map_set name (file t) dir)
          | Unacknowledged t \<Rightarrow> (Inl (unavailable ''Step-up publication is unavailable''), map_set name (file t) dir)
          | Unpublished \<Rightarrow> (Inl (unavailable ''Step-up publication is unavailable''), dir)))"

text \<open>The file-name patterns of the cleanup.\<close>

definition endsWith :: "string \<Rightarrow> string \<Rightarrow> bool" where
  "endsWith s t = suffix t s"

definition is_record_name :: "string \<Rightarrow> bool" where
  "is_record_name s \<longleftrightarrow> length s = 69 \<and> list_all is_lower_hex (take 64 s) \<and> drop 64 s = ''.json''"

definition is_temporary_name :: "string \<Rightarrow> bool" where
  "is_temporary_name s \<longleftrightarrow>
     length s = 98 \<and> list_all is_lower_hex (take 64 s) \<and> take 6 (drop 64 s) = ''.json.''
     \<and> list_all is_lower_hex (take 24 (drop 70 s)) \<and> drop 94 s = ''.tmp''"

text \<open>The loop of \<open>pruneExpired\<close>; \<open>clock\<close> gives the reading taken for each entry.\<close>

fun prune_entries ::
  "step_up_env \<Rightarrow> step_up_io \<Rightarrow> (string \<Rightarrow> int) \<Rightarrow> string list \<Rightarrow> int \<Rightarrow> bool \<Rightarrow> (int \<times> bool) step_up_op" where
  "prune_entries env io clock [] live removed = return_op (live, removed)"
| "prune_entries env io clock (entry # es) live removed = (\<lambda>dir.
     if is_temporary_name entry then
       (case map_of dir entry of
          None \<Rightarrow> (Inl (unavailable ''Step-up storage is unavailable''), dir)
        | Some file \<Rightarrow>
            if \<not> si_readable io entry then (Inl (unavailable ''Step-up storage is unavailable''), dir)
            else bind_op (of_result (su_clock (clock entry))) (\<lambda>now dir.
                   if sf_mtime file \<le> now - MAX_TTL_MS then
                     if \<not> si_removable io entry then (Inl (unavailable ''Step-up storage is unavailable''), dir)
                     else prune_entries env io clock es live True (map_del entry dir)
                   else prune_entries env io clock es live removed dir) dir)
     else if \<not> endsWith entry ''.json'' then prune_entries env io clock es live removed dir
     else if \<not> is_record_name entry then (Inl (ActionStepUpError INVALID ''Invalid step-up filename''), dir)
     else
       (case map_of dir entry of
          None \<Rightarrow> (Inl (unavailable ''Step-up storage is unavailable''), dir)
        | Some file \<Rightarrow>
            if \<not> si_readable io entry then (Inl (unavailable ''Step-up storage is unavailable''), dir)
            else
              bind_op (of_result (open_envelope (sf_content file))) (\<lambda>(r, seal).
                if entry \<noteq> su_filename (sr_referenceDigest r)
                then throw_op (ActionStepUpError INVALID ''Invalid step-up seal'')
                else
                  bind_op (of_result (su_digest env ''seal'' (record_json r))) (\<lambda>expectedSeal.
                    if \<not> equalDigest seal expectedSeal
                    then throw_op (ActionStepUpError INVALID ''Invalid step-up seal'')
                    else
                      bind_op (of_result (su_clock (clock entry))) (\<lambda>now dir.
                        if sr_expiresAt r \<le> now then
                          if \<not> si_removable io entry then (Inl (unavailable ''Step-up storage is unavailable''), dir)
                          else prune_entries env io clock es live True (map_del entry dir)
                        else prune_entries env io clock es (live + 1) removed dir))) dir))"

definition pruneExpired :: "step_up_env \<Rightarrow> step_up_io \<Rightarrow> (string \<Rightarrow> int) \<Rightarrow> int step_up_op" where
  "pruneExpired env io clock = (\<lambda>dir.
     if \<not> si_list io then (Inl (unavailable ''Step-up storage is unavailable''), dir)
     else bind_op (prune_entries env io clock (map fst dir) 0 False) (\<lambda>(live, removed).
            if removed \<and> \<not> si_cleaned io then throw_op (unavailable ''Step-up cleanup is unavailable'')
            else return_op live) dir)"

definition assertLive :: "step_up_record \<Rightarrow> int \<Rightarrow> step_up_error + unit" where
  "assertLive r now =
     (case su_clock now of
        Inl e \<Rightarrow> Inl e
      | Inr now \<Rightarrow> if now < sr_createdAt r \<or> now \<ge> sr_expiresAt r
                   then Inl (ActionStepUpError EXPIRED ''Step-up permit expired'') else Inr ())"

definition match_error :: "string \<Rightarrow> step_up_error" where
  "match_error m = ActionStepUpError UNAUTHORIZED m"

definition assertIdentityMatch ::
  "step_up_env \<Rightarrow> step_up_record \<Rightarrow> 'a action_identity_scheme \<Rightarrow> step_up_error + unit" where
  "assertIdentityMatch env r i =
     (case su_digest env ''identity'' (json_array (identityValues i)) of Inl e \<Rightarrow> Inl e | Inr identityDigest \<Rightarrow>
      case su_digest env ''user'' (ai_userId i) of Inl e \<Rightarrow> Inl e | Inr userDigest \<Rightarrow>
        if \<not> equalDigest (sr_identityDigest r) identityDigest \<or> \<not> equalDigest (sr_userDigest r) userDigest
           \<or> \<not> equalDigest (sr_factorBinding r) (ai_factorBinding i)
        then Inl (match_error ''Step-up principal or factor changed'') else Inr ())"

definition assertBindingMatch ::
  "step_up_env \<Rightarrow> step_up_record \<Rightarrow> action_binding \<Rightarrow> step_up_error + unit" where
  "assertBindingMatch env r b =
     (case assertIdentityMatch env r b of Inl e \<Rightarrow> Inl e | Inr _ \<Rightarrow>
      case su_digest env ''binding'' (json_array (bindingValues b)) of Inl e \<Rightarrow> Inl e | Inr bindingDigest \<Rightarrow>
      case su_digest env ''resource'' (ab_resourceId b) of Inl e \<Rightarrow> Inl e | Inr resourceDigest \<Rightarrow>
        if \<not> equalDigest (sr_bindingDigest r) bindingDigest \<or> sr_action r \<noteq> ab_action b
           \<or> sr_resourceKind r \<noteq> ab_resourceKind b \<or> \<not> equalDigest (sr_resourceDigest r) resourceDigest
           \<or> \<not> equalDigest (sr_intentDigest r) (ab_intentDigest b)
           \<or> \<not> equalDigest (sr_targetDigest r) (ab_targetDigest b)
        then Inl (match_error ''Step-up action or intent changed'') else Inr ())"

section \<open>Operations\<close>

record step_up_challenge =
  sc_challengeId :: string
  sc_expiresAt :: stamp

record step_up_permit = step_up_challenge +
  sp_permitId :: string

record step_up_receipt =
  rr_receiptId :: string
  rr_userId :: string
  rr_factorBinding :: string
  rr_action :: string
  rr_resourceId :: string

text \<open>
  \<open>issue\<close>: \<open>clock\<close> are the readings of the cleanup, \<open>now\<close> the one of the record and
  \<open>published\<close> the one after the write.
\<close>

definition issued_record ::
  "step_up_env \<Rightarrow> step_up_config \<Rightarrow> int \<Rightarrow> string \<Rightarrow> action_binding \<Rightarrow> step_up_error + step_up_record" where
  "issued_record env cfg now challengeId b =
     (case su_digest env ''reference'' challengeId of Inl e \<Rightarrow> Inl e | Inr referenceDigest \<Rightarrow>
      case su_digest env ''identity'' (json_array (identityValues b)) of Inl e \<Rightarrow> Inl e | Inr identityDigest \<Rightarrow>
      case su_digest env ''binding'' (json_array (bindingValues b)) of Inl e \<Rightarrow> Inl e | Inr bindingDigest \<Rightarrow>
      case su_digest env ''user'' (ai_userId b) of Inl e \<Rightarrow> Inl e | Inr userDigest \<Rightarrow>
      case su_digest env ''resource'' (ab_resourceId b) of Inl e \<Rightarrow> Inl e | Inr resourceDigest \<Rightarrow>
        Inr \<lparr>sr_state = Pending, sr_referenceDigest = referenceDigest, sr_identityDigest = identityDigest,
             sr_bindingDigest = bindingDigest, sr_userDigest = userDigest,
             sr_factorBinding = ai_factorBinding b, sr_action = ab_action b,
             sr_resourceKind = ab_resourceKind b, sr_resourceDigest = resourceDigest,
             sr_intentDigest = ab_intentDigest b, sr_targetDigest = ab_targetDigest b,
             sr_createdAt = now, sr_expiresAt = now + su_ttlMs cfg, sr_failures = 0,
             sr_verifiedAt = None, sr_permitDigest = None, sr_consumedAt = None,
             sr_receiptDigest = None\<rparr>)"

definition su_issue ::
  "step_up_env \<Rightarrow> step_up_config \<Rightarrow> step_up_io \<Rightarrow> (string \<Rightarrow> int) \<Rightarrow> int \<Rightarrow> int \<Rightarrow> string \<Rightarrow> action_binding
     \<Rightarrow> step_up_challenge step_up_op" where
  "su_issue env cfg io clock now published challengeId b =
     bind_op (of_result (assertBinding b)) (\<lambda>_.
     bind_op (su_prepare io) (\<lambda>_.
     bind_op (pruneExpired env io clock) (\<lambda>liveCount.
     if liveCount \<ge> su_maxRecords cfg then throw_op (unavailable ''Step-up capacity is unavailable'')
     else
       bind_op (of_result (su_clock now)) (\<lambda>now.
       bind_op (of_result (issued_record env cfg now challengeId b)) (\<lambda>r.
       bind_op (su_write env io r) (\<lambda>_.
       bind_op (of_result (assertLive r published)) (\<lambda>_.
         return_op \<lparr>sc_challengeId = challengeId, sc_expiresAt = Iso (sr_expiresAt r)\<rparr>)))))))"

text \<open>
  \<open>verify\<close>: \<open>factor\<close> is what \<open>verifyFactor\<close> answers, \<open>None\<close> when it throws; \<open>t1\<close> to \<open>t4\<close> are
  the clock readings before the factor, after it, of \<open>verifiedAt\<close> and after the write.
\<close>

definition su_verify ::
  "step_up_env \<Rightarrow> step_up_config \<Rightarrow> step_up_io \<Rightarrow> int \<Rightarrow> int \<Rightarrow> int \<Rightarrow> int \<Rightarrow> bool option \<Rightarrow> string
     \<Rightarrow> string \<Rightarrow> action_identity \<Rightarrow> step_up_permit step_up_op" where
  "su_verify env cfg io t1 t2 t3 t4 factor permitId challengeId i =
     bind_op (of_result (assertIdentity i)) (\<lambda>_.
     bind_op (of_result (assertReference challengeId)) (\<lambda>_.
     bind_op (su_prepare io) (\<lambda>_.
     bind_op (su_read env io challengeId) (\<lambda>r.
     bind_op (of_result (assertIdentityMatch env r i)) (\<lambda>_.
     bind_op (of_result (assertLive r t1)) (\<lambda>_.
     if sr_state r = Consumed then throw_op (ActionStepUpError CONFLICT ''Step-up permit was consumed'')
     else if sr_state r = Verified
     then throw_op (ActionStepUpError CONFLICT ''Step-up challenge was already verified'')
     else if sr_failures r \<ge> su_maxFailures cfg
     then throw_op (ActionStepUpError UNAUTHORIZED ''Step-up verification budget exhausted'')
     else
       (case factor of
          None \<Rightarrow> throw_op (unavailable ''Step-up factor verification is unavailable'')
        | Some valid \<Rightarrow>
            bind_op (of_result (assertLive r t2)) (\<lambda>_.
            if \<not> valid then
              bind_op (su_write env io (r\<lparr>sr_failures := sr_failures r + 1\<rparr>)) (\<lambda>_.
                throw_op (ActionStepUpError UNAUTHORIZED ''Invalid step-up factor''))
            else
              bind_op (of_result (su_clock t3)) (\<lambda>verifiedAt.
              if verifiedAt \<ge> sr_expiresAt r
              then throw_op (ActionStepUpError EXPIRED ''Step-up permit expired'')
              else
                bind_op (of_result (su_digest env ''permit'' permitId)) (\<lambda>permitDigest.
                bind_op (su_write env io (r\<lparr>sr_state := Verified, sr_verifiedAt := Some verifiedAt,
                                           sr_permitDigest := Some permitDigest\<rparr>)) (\<lambda>_.
                bind_op (of_result (assertLive r t4)) (\<lambda>_.
                  return_op \<lparr>sc_challengeId = challengeId, sc_expiresAt = Iso (sr_expiresAt r),
                             sp_permitId = permitId\<rparr>))))))))))))"

definition su_consume ::
  "step_up_env \<Rightarrow> step_up_io \<Rightarrow> int \<Rightarrow> int \<Rightarrow> int \<Rightarrow> string \<Rightarrow> string \<Rightarrow> string \<Rightarrow> action_binding
     \<Rightarrow> step_up_receipt step_up_op" where
  "su_consume env io t1 t2 t3 receiptId challengeId permitId b =
     bind_op (of_result (assertBinding b)) (\<lambda>_.
     bind_op (of_result (assertReference challengeId)) (\<lambda>_.
     bind_op (of_result (assertReference permitId)) (\<lambda>_.
     bind_op (su_prepare io) (\<lambda>_.
     bind_op (su_read env io challengeId) (\<lambda>r.
     bind_op (of_result (assertBindingMatch env r b)) (\<lambda>_.
     bind_op (of_result (assertLive r t1)) (\<lambda>_.
     if sr_state r \<noteq> Verified
     then throw_op (ActionStepUpError CONFLICT ''Step-up permit is not verified'')
     else
       bind_op (of_result (su_digest env ''permit'' permitId)) (\<lambda>permitDigest.
       if \<not> equalDigest (the (sr_permitDigest r)) permitDigest
       then throw_op (ActionStepUpError UNAUTHORIZED ''Invalid step-up permit'')
       else
         bind_op (of_result (su_clock t2)) (\<lambda>consumedAt.
         if consumedAt \<ge> sr_expiresAt r
         then throw_op (ActionStepUpError EXPIRED ''Step-up permit expired'')
         else
           bind_op (of_result (su_digest env ''receipt'' receiptId)) (\<lambda>receiptDigest.
           bind_op (su_write env io (r\<lparr>sr_state := Consumed, sr_consumedAt := Some consumedAt,
                                      sr_receiptDigest := Some receiptDigest\<rparr>)) (\<lambda>_.
           bind_op (of_result (assertLive r t3)) (\<lambda>_.
             return_op \<lparr>rr_receiptId = receiptId, rr_userId = ai_userId b,
                        rr_factorBinding = ai_factorBinding b, rr_action = ab_action b,
                        rr_resourceId = ab_resourceId b\<rparr>))))))))))))"

section \<open>What the operations do to the directory\<close>

lemma of_result_apply [simp]: "of_result r s = (r, s)"
  by (simp add: of_result_def)

text \<open>The cleanup only removes files, and of the records only expired ones.\<close>

definition pruned :: "(string \<Rightarrow> int) \<Rightarrow> step_up_dir \<Rightarrow> step_up_dir \<Rightarrow> bool" where
  "pruned clock d d' \<longleftrightarrow>
     (\<forall>n. map_of d' n = map_of d n
        \<or> (map_of d' n = None
           \<and> (is_temporary_name n
              \<or> (\<exists>r seal t. map_of d n = Some \<lparr>sf_content = Envelope r seal, sf_mtime = t\<rparr>
                   \<and> sr_expiresAt r \<le> clock n))))"

lemma pruned_refl [simp]: "pruned clock d d"
  by (simp add: pruned_def)

lemma pruned_del:
  assumes "pruned clock (map_del n d) d'"
    and "is_temporary_name n \<or> (\<exists>r seal t. map_of d n = Some \<lparr>sf_content = Envelope r seal, sf_mtime = t\<rparr>
           \<and> sr_expiresAt r \<le> clock n)"
  shows "pruned clock d d'"
  unfolding pruned_def
proof
  fix k
  show "map_of d' k = map_of d k \<or> (map_of d' k = None
           \<and> (is_temporary_name k
              \<or> (\<exists>r seal t. map_of d k = Some \<lparr>sf_content = Envelope r seal, sf_mtime = t\<rparr>
                   \<and> sr_expiresAt r \<le> clock k)))"
  proof (cases "k = n")
    case True
    then have "map_of d' k = None" using assms(1) [unfolded pruned_def, rule_format, of k] by auto
    then show ?thesis using assms(2) True by blast
  next
    case False
    then show ?thesis using assms(1) [unfolded pruned_def, rule_format, of k] by simp
  qed
qed

lemma open_envelope_Inr:
  "open_envelope c = Inr (r, seal) \<longleftrightarrow> c = Envelope r seal \<and> assertRecord r = Inr () \<and> is_sha256_hex seal"
  by (cases c) (auto simp: open_envelope_def split: sum.splits)

lemma prune_entries_pruned: "pruned clock d (snd (prune_entries env io clock es live removed d))"
proof (induction es arbitrary: live removed d)
  case Nil
  then show ?case by simp
next
  case (Cons entry es)
  show ?case
  proof (cases "map_of d entry")
    case None
    then show ?thesis using Cons.IH by simp
  next
    case (Some f)
    obtain c t where content: "f = \<lparr>sf_content = c, sf_mtime = t\<rparr>" by (cases f)
    have expired: "pruned clock d (snd (prune_entries env io clock es l rm (map_del entry d)))"
      if "c = Envelope r seal" "sr_expiresAt r \<le> clock entry" for r seal l rm
      by (rule pruned_del [OF Cons.IH]) (use that Some content in auto)
    have temporary: "pruned clock d (snd (prune_entries env io clock es l rm (map_del entry d)))"
      if "is_temporary_name entry" for l rm
      by (rule pruned_del [OF Cons.IH]) (use that in simp)
    show ?thesis
    proof (cases "is_temporary_name entry")
      case True
      then show ?thesis
        using Some Cons.IH temporary by (auto simp: bind_op_def su_clock_def)
    next
      case False
      then show ?thesis
        using Some content Cons.IH expired
        by (auto simp: bind_op_def su_clock_def open_envelope_Inr split: sum.splits)
    qed
  qed
qed

lemma pruneExpired_pruned: "pruneExpired env io clock d = (r, d') \<Longrightarrow> pruned clock d d'"
  using prune_entries_pruned [of clock d env io "map fst d" 0 False]
  by (auto simp: pruneExpired_def bind_op_def split: if_splits prod.splits sum.splits)

text \<open>\<open>read\<close> leaves the directory alone and answers with the sealed record of the reference.\<close>

lemma su_read_state: "snd (su_read env io c d) = d"
  by (auto simp: su_read_def bind_op_def split: sum.splits option.splits)

lemma su_read_Inr:
  assumes "su_read env io c d = (Inr r, d')"
  shows "d' = d \<and> (\<exists>ref f seal. su_digest env ''reference'' c = Inr ref
     \<and> map_of d (su_filename ref) = Some f \<and> sf_content f = Envelope r seal
     \<and> assertRecord r = Inr () \<and> su_digest env ''seal'' (record_json r) = Inr seal
     \<and> sr_referenceDigest r = ref)"
  using assms
  by (auto simp: su_read_def bind_op_def open_envelope_Inr equalDigest_def split: sum.splits option.splits if_splits)

lemma su_read_cases:
  obtains (found) r ref f seal where "su_read env io c d = (Inr r, d)" "su_digest env ''reference'' c = Inr ref"
      "map_of d (su_filename ref) = Some f" "sf_content f = Envelope r seal" "assertRecord r = Inr ()"
      "su_digest env ''seal'' (record_json r) = Inr seal" "sr_referenceDigest r = ref"
  | (failed) e where "su_read env io c d = (Inl e, d)"
proof (cases "su_read env io c d")
  case (Pair x d')
  then have "d' = d" using su_read_state [of env io c d] by simp
  then show thesis
    using Pair failed found su_read_Inr [of env io c d _ d'] by (cases x) blast+
qed

lemma su_write_cases:
  obtains (kept) e where "su_write env io r d = (Inl e, d)"
  | (wrote) x seal t where "su_write env io r d
        = (x, map_set (su_filename (sr_referenceDigest r)) \<lparr>sf_content = Envelope r seal, sf_mtime = t\<rparr> d)"
      "assertRecord r = Inr ()" "su_digest env ''seal'' (record_json r) = Inr seal"
  by (cases "assertRecord r"; cases "su_digest env ''seal'' (record_json r)"; cases "si_publish io")
    (auto simp: su_write_def bind_op_def Let_def)

text \<open>The record a successful or failed publication leaves under its reference.\<close>

definition put_record :: "step_up_record \<Rightarrow> string \<Rightarrow> int \<Rightarrow> step_up_dir \<Rightarrow> step_up_dir" where
  "put_record r seal t d =
     map_set (su_filename (sr_referenceDigest r)) \<lparr>sf_content = Envelope r seal, sf_mtime = t\<rparr> d"

definition stored_record :: "step_up_env \<Rightarrow> string \<Rightarrow> step_up_record \<Rightarrow> step_up_dir \<Rightarrow> bool" where
  "stored_record env c r d \<longleftrightarrow>
     (\<exists>ref f seal. su_digest env ''reference'' c = Inr ref \<and> map_of d (su_filename ref) = Some f
        \<and> sf_content f = Envelope r seal \<and> su_digest env ''seal'' (record_json r) = Inr seal
        \<and> assertRecord r = Inr () \<and> sr_referenceDigest r = ref)"

lemma issue_effect:
  obtains (cleaned) "pruned clock d (snd (su_issue env cfg io clock now later c b d))"
      "\<exists>e. fst (su_issue env cfg io clock now later c b d) = Inl e"
  | (issued) d1 r seal t where "pruned clock d d1"
      "snd (su_issue env cfg io clock now later c b d) = put_record r seal t d1"
      "issued_record env cfg now c b = Inr r" "assertRecord r = Inr ()" "assertBinding b = Inr ()"
      "su_digest env ''seal'' (record_json r) = Inr seal"
proof (cases "assertBinding b = Inr () \<and> si_prepare io \<and> safe_int now")
  case False
  show thesis
  proof (cases "assertBinding b = Inr () \<and> si_prepare io")
    case True
    then have unsafe: "\<not> safe_int now" using False by simp
    obtain x d1 where p: "pruneExpired env io clock d = (x, d1)" by fastforce
    show thesis
      by (rule cleaned) (use True unsafe p pruneExpired_pruned [OF p] in
        \<open>auto simp: su_issue_def bind_op_def su_prepare_def su_clock_def split: sum.splits\<close>)
  next
    case no: False
    show thesis
      by (rule cleaned) (use no in \<open>auto simp: su_issue_def bind_op_def su_prepare_def split: sum.splits\<close>)
  qed
next
  case True
  obtain x d1 where p: "pruneExpired env io clock d = (x, d1)" by fastforce
  note d1 = pruneExpired_pruned [OF p]
  show thesis
  proof (cases x)
    case (Inl e)
    show thesis
      by (rule cleaned) (use True p d1 Inl in \<open>auto simp: su_issue_def bind_op_def su_prepare_def\<close>)
  next
    case (Inr live)
    show thesis
    proof (cases "live \<ge> su_maxRecords cfg")
      case full: True
      show thesis
        by (rule cleaned) (use True p d1 Inr full in \<open>auto simp: su_issue_def bind_op_def su_prepare_def\<close>)
    next
      case room: False
      show thesis
      proof (cases "issued_record env cfg now c b")
        case (Inl e)
        show thesis
          by (rule cleaned) (use True p d1 \<open>x = Inr live\<close> room Inl in
            \<open>auto simp: su_issue_def bind_op_def su_prepare_def su_clock_def\<close>)
      next
        case (Inr r)
        have run: "su_issue env cfg io clock now later c b d
            = bind_op (su_write env io r) (\<lambda>_.
              bind_op (of_result (assertLive r later)) (\<lambda>_.
                return_op \<lparr>sc_challengeId = c, sc_expiresAt = Iso (sr_expiresAt r)\<rparr>)) d1"
          using True p \<open>x = Inr live\<close> room Inr
          by (simp add: su_issue_def bind_op_def su_prepare_def su_clock_def)
        show thesis
        proof (cases rule: su_write_cases [of env io r d1])
          case (kept e)
          show thesis by (rule cleaned) (use run kept d1 in auto)
        next
          case (wrote y seal t)
          show thesis
            by (rule issued [OF d1 _ Inr]) (use run wrote True in
              \<open>auto simp: put_record_def bind_op_def split: sum.splits\<close>)
        qed
      qed
    qed
  qed
qed

text \<open>The change a verification makes to a record: one more failure, or the permit.\<close>

definition verified_record ::
  "step_up_env \<Rightarrow> int \<Rightarrow> bool \<Rightarrow> string \<Rightarrow> step_up_record \<Rightarrow> step_up_record \<Rightarrow> bool" where
  "verified_record env t valid permitId r r' \<longleftrightarrow>
     (if valid
      then \<exists>p. su_digest env ''permit'' permitId = Inr p \<and> t < sr_expiresAt r
             \<and> r' = r\<lparr>sr_state := Verified, sr_verifiedAt := Some t, sr_permitDigest := Some p\<rparr>
      else r' = r\<lparr>sr_failures := sr_failures r + 1\<rparr>)"

lemma verified_record_reference:
  "verified_record env t valid p r r' \<Longrightarrow> sr_referenceDigest r' = sr_referenceDigest r
     \<and> sr_identityDigest r' = sr_identityDigest r \<and> sr_bindingDigest r' = sr_bindingDigest r
     \<and> sr_expiresAt r' = sr_expiresAt r \<and> sr_createdAt r' = sr_createdAt r"
  by (auto simp: verified_record_def split: if_splits)

text \<open>
  An operation either fails and changes nothing or does \<open>P\<close>; the rules walk through its checks.
\<close>

definition fails_or :: "(('e + 'a) \<times> 's \<Rightarrow> bool) \<Rightarrow> ('e, 's, 'a) fallible \<Rightarrow> 's \<Rightarrow> bool" where
  "fails_or P m d \<longleftrightarrow> (\<exists>e. m d = (Inl e, d)) \<or> P (m d)"

lemma fails_or_result:
  "(\<And>a. x = Inr a \<Longrightarrow> fails_or P (f a) d) \<Longrightarrow> fails_or P (bind_op (of_result x) f) d"
  by (cases x) (auto simp: fails_or_def)

lemma fails_or_throw: "fails_or P (throw_op e) d"
  by (auto simp: fails_or_def)

lemma fails_or_if:
  "(c \<Longrightarrow> fails_or P m d) \<Longrightarrow> (\<not> c \<Longrightarrow> fails_or P n d) \<Longrightarrow> fails_or P (if c then m else n) d"
  by simp

lemma fails_or_prepare:
  "(\<And>u. fails_or P (f u) d) \<Longrightarrow> fails_or P (bind_op (su_prepare io) f) d"
  by (auto simp: fails_or_def su_prepare_def bind_op_def)

lemma fails_or_read:
  "(\<And>r. stored_record env c r d \<Longrightarrow> fails_or P (f r) d) \<Longrightarrow> fails_or P (bind_op (su_read env io c) f) d"
  by (cases rule: su_read_cases [of env io c d]) (auto simp: fails_or_def stored_record_def bind_op_def)

lemma fails_or_option:
  "(x = None \<Longrightarrow> fails_or P n d) \<Longrightarrow> (\<And>a. x = Some a \<Longrightarrow> fails_or P (f a) d)
     \<Longrightarrow> fails_or P (case x of None \<Rightarrow> n | Some a \<Rightarrow> f a) d"
  by (cases x) auto

lemma fails_or_write:
  assumes "\<And>x seal t. su_write env io r d = (x, put_record r seal t d) \<Longrightarrow> assertRecord r = Inr ()
      \<Longrightarrow> su_digest env ''seal'' (record_json r) = Inr seal
      \<Longrightarrow> P (bind_op (su_write env io r) f d)"
  shows "fails_or P (bind_op (su_write env io r) f) d"
proof (cases rule: su_write_cases [of env io r d])
  case (kept e)
  then show ?thesis by (simp add: fails_or_def)
next
  case (wrote x seal t)
  then show ?thesis using assms [of x seal t] by (simp add: fails_or_def put_record_def)
qed

lemma bind_keeps:
  assumes "m d = (x, d')" "\<And>y s. snd (f y s) = s"
  obtains z where "bind_op m f d = (z, d')"
  using assms by (cases x) (auto simp: bind_op_def prod_eq_iff)

lemma of_result_then: "snd (bind_op (of_result x) (\<lambda>_. return_op y) s) = s"
  by (cases x) simp_all

text \<open>What a verification or a consumption writes.\<close>

definition verify_writes ::
  "step_up_env \<Rightarrow> step_up_config \<Rightarrow> int \<Rightarrow> int \<Rightarrow> bool option \<Rightarrow> string \<Rightarrow> string \<Rightarrow> action_identity
     \<Rightarrow> step_up_dir \<Rightarrow> (step_up_error + step_up_permit) \<times> step_up_dir \<Rightarrow> bool" where
  "verify_writes env cfg t1 t3 factor p c i d = (\<lambda>(x, d').
     \<exists>r r' valid seal t. d' = put_record r' seal t d \<and> stored_record env c r d \<and> sr_state r = Pending
       \<and> sr_failures r < su_maxFailures cfg \<and> factor = Some valid
       \<and> assertIdentityMatch env r i = Inr () \<and> assertLive r t1 = Inr ()
       \<and> verified_record env t3 valid p r r' \<and> assertRecord r' = Inr ()
       \<and> su_digest env ''seal'' (record_json r') = Inr seal \<and> ((\<exists>y. x = Inr y) \<longrightarrow> valid))"

lemma verify_writesI:
  assumes "stored_record env c r d" "assertIdentityMatch env r i = Inr ()" "assertLive r t1 = Inr ()"
    "sr_state r = Pending" "sr_failures r < su_maxFailures cfg" "factor = Some valid"
    "verified_record env t3 valid p r r'" "assertRecord r' = Inr ()"
    "su_digest env ''seal'' (record_json r') = Inr seal" "(\<exists>y. x = Inr y) \<longrightarrow> valid"
  shows "verify_writes env cfg t1 t3 factor p c i d (x, put_record r' seal t d)"
  unfolding verify_writes_def prod.case using assms by blast

lemma verify_effect:
  "fails_or (verify_writes env cfg t1 t3 factor p c i d) (su_verify env cfg io t1 t2 t3 t4 factor p c i) d"
  unfolding su_verify_def
proof (rule fails_or_result, rule fails_or_result, rule fails_or_prepare, rule fails_or_read,
    rule fails_or_result, rule fails_or_result, rule fails_or_if, rule fails_or_throw,
    rule fails_or_if, rule fails_or_throw, rule fails_or_if, rule fails_or_throw,
    rule fails_or_option, rule fails_or_throw, rule fails_or_result, rule fails_or_if)
  fix r valid and u v :: unit
  assume stored: "stored_record env c r d"
    and checks: "assertIdentityMatch env r i = Inr u" "assertLive r t1 = Inr v"
    and state: "sr_state r \<noteq> Consumed" "sr_state r \<noteq> Verified" "\<not> su_maxFailures cfg \<le> sr_failures r"
    and factor: "factor = Some valid"
  have match: "assertIdentityMatch env r i = Inr ()" "assertLive r t1 = Inr ()"
    using checks by simp_all
  have pending: "sr_state r = Pending" "sr_failures r < su_maxFailures cfg"
    using state by (cases "sr_state r", simp_all)
  note facts = stored match pending factor
  {
    assume "\<not> valid"
    show "fails_or (verify_writes env cfg t1 t3 factor p c i d)
        (bind_op (su_write env io (r\<lparr>sr_failures := sr_failures r + 1\<rparr>))
           (\<lambda>_. throw_op (ActionStepUpError UNAUTHORIZED ''Invalid step-up factor''))) d"
    proof (rule fails_or_write)
      fix x seal t
      let ?r = "r\<lparr>sr_failures := sr_failures r + 1\<rparr>"
      let ?e = "ActionStepUpError UNAUTHORIZED ''Invalid step-up factor''"
      assume w: "su_write env io ?r d = (x, put_record ?r seal t d)" "assertRecord ?r = Inr ()"
          "su_digest env ''seal'' (record_json ?r) = Inr seal"
      obtain e where run: "bind_op (su_write env io ?r) (\<lambda>_. throw_op ?e) d
          = (Inl e :: step_up_error + step_up_permit, put_record ?r seal t d)"
        by (cases x) (use w(1) in \<open>simp_all add: bind_op_def\<close>)
      have verified: "verified_record env t3 valid p r ?r" using \<open>\<not> valid\<close> by (simp add: verified_record_def)
      show "verify_writes env cfg t1 t3 factor p c i d (bind_op (su_write env io ?r) (\<lambda>_. throw_op ?e) d)"
        unfolding run by (rule verify_writesI [OF facts(1-6) verified w(2,3)]) simp
    qed
  next
    assume "\<not> \<not> valid"
    show "fails_or (verify_writes env cfg t1 t3 factor p c i d)
        (bind_op (of_result (su_clock t3)) (\<lambda>verifiedAt.
           if verifiedAt \<ge> sr_expiresAt r
           then throw_op (ActionStepUpError EXPIRED ''Step-up permit expired'')
           else bind_op (of_result (su_digest env ''permit'' p)) (\<lambda>permitDigest.
                bind_op (su_write env io (r\<lparr>sr_state := Verified, sr_verifiedAt := Some verifiedAt,
                                           sr_permitDigest := Some permitDigest\<rparr>)) (\<lambda>_.
                bind_op (of_result (assertLive r t4)) (\<lambda>_.
                  return_op \<lparr>sc_challengeId = c, sc_expiresAt = Iso (sr_expiresAt r), sp_permitId = p\<rparr>))))) d"
    proof (rule fails_or_result, rule fails_or_if, rule fails_or_throw, rule fails_or_result, rule fails_or_write)
      fix verifiedAt permitDigest x seal t
      let ?r = "r\<lparr>sr_state := Verified, sr_verifiedAt := Some verifiedAt, sr_permitDigest := Some permitDigest\<rparr>"
      assume "su_clock t3 = Inr verifiedAt" "\<not> sr_expiresAt r \<le> verifiedAt"
        "su_digest env ''permit'' p = Inr permitDigest"
        and w: "su_write env io ?r d = (x, put_record ?r seal t d)" "assertRecord ?r = Inr ()"
          "su_digest env ''seal'' (record_json ?r) = Inr seal"
      then have verified: "verified_record env t3 valid p r ?r"
        using \<open>\<not> \<not> valid\<close> by (auto simp: verified_record_def su_clock_def split: if_splits)
      obtain z where run: "bind_op (su_write env io ?r) (\<lambda>_. bind_op (of_result (assertLive r t4)) (\<lambda>_.
             return_op \<lparr>sc_challengeId = c, sc_expiresAt = Iso (sr_expiresAt r), sp_permitId = p\<rparr>)) d
           = (z, put_record ?r seal t d)"
        by (rule bind_keeps, rule w(1), rule of_result_then)
      show "verify_writes env cfg t1 t3 factor p c i d
          (bind_op (su_write env io ?r) (\<lambda>_. bind_op (of_result (assertLive r t4)) (\<lambda>_.
             return_op \<lparr>sc_challengeId = c, sc_expiresAt = Iso (sr_expiresAt r), sp_permitId = p\<rparr>)) d)"
        unfolding run by (rule verify_writesI [OF facts(1-6) verified w(2,3)]) (use \<open>\<not> \<not> valid\<close> in simp)
    qed
  }
qed

definition consume_writes ::
  "step_up_env \<Rightarrow> int \<Rightarrow> int \<Rightarrow> string \<Rightarrow> string \<Rightarrow> action_binding \<Rightarrow> step_up_dir
     \<Rightarrow> (step_up_error + step_up_receipt) \<times> step_up_dir \<Rightarrow> bool" where
  "consume_writes env t1 t2 c p b d = (\<lambda>(x, d').
     \<exists>r receipt pd seal t.
       d' = put_record (r\<lparr>sr_state := Consumed, sr_consumedAt := Some t2, sr_receiptDigest := Some receipt\<rparr>) seal t d
       \<and> stored_record env c r d \<and> sr_state r = Verified \<and> assertBindingMatch env r b = Inr ()
       \<and> assertLive r t1 = Inr () \<and> t2 < sr_expiresAt r
       \<and> su_digest env ''permit'' p = Inr pd \<and> sr_permitDigest r = Some pd)"

lemma assertRecord_fields: "assertRecord r = Inr () \<Longrightarrow> state_fields r"
  by (simp add: assertRecord_def split: if_splits)

lemma consume_effect:
  "fails_or (consume_writes env t1 t2 c p b d) (su_consume env io t1 t2 t3 rid c p b) d"
  unfolding su_consume_def
proof (rule fails_or_result, rule fails_or_result, rule fails_or_result, rule fails_or_prepare,
    rule fails_or_read, rule fails_or_result, rule fails_or_result, rule fails_or_if, rule fails_or_throw,
    rule fails_or_result, rule fails_or_if, rule fails_or_throw, rule fails_or_result,
    rule fails_or_if, rule fails_or_throw, rule fails_or_result, rule fails_or_write)
  fix r :: step_up_record and pd consumedAt receipt x seal t and u v :: unit
  let ?r = "r\<lparr>sr_state := Consumed, sr_consumedAt := Some consumedAt, sr_receiptDigest := Some receipt\<rparr>"
  assume stored: "stored_record env c r d" and state: "\<not> sr_state r \<noteq> Verified"
    and match: "assertBindingMatch env r b = Inr u" "assertLive r t1 = Inr v"
    and permit: "su_digest env ''permit'' p = Inr pd" "\<not> \<not> equalDigest (the (sr_permitDigest r)) pd"
    and time: "su_clock t2 = Inr consumedAt" "\<not> sr_expiresAt r \<le> consumedAt"
    and w: "su_write env io ?r d = (x, put_record ?r seal t d)"
  have "sr_permitDigest r \<noteq> None"
    using stored state assertRecord_fields by (auto simp: stored_record_def state_fields_def)
  then have "sr_permitDigest r = Some pd"
    using permit(2) by (auto simp: equalDigest_def)
  moreover have "consumedAt = t2" using time(1) by (simp add: su_clock_def split: if_splits)
  moreover obtain z where run: "bind_op (su_write env io ?r) (\<lambda>_. bind_op (of_result (assertLive r t3)) (\<lambda>_.
         return_op \<lparr>rr_receiptId = rid, rr_userId = ai_userId b, rr_factorBinding = ai_factorBinding b,
                    rr_action = ab_action b, rr_resourceId = ab_resourceId b\<rparr>)) d
      = (z, put_record ?r seal t d)"
    by (rule bind_keeps, rule w, rule of_result_then)
  ultimately show "consume_writes env t1 t2 c p b d
      (bind_op (su_write env io ?r) (\<lambda>_. bind_op (of_result (assertLive r t3)) (\<lambda>_.
         return_op \<lparr>rr_receiptId = rid, rr_userId = ai_userId b, rr_factorBinding = ai_factorBinding b,
                    rr_action = ab_action b, rr_resourceId = ab_resourceId b\<rparr>)) d)"
    unfolding consume_writes_def prod.case run using stored state match permit(1) time(2)
    by (intro exI [of _ r] exI [of _ receipt] exI [of _ pd] exI [of _ seal] exI [of _ t]) simp
qed

end
