(* ===== verification/Step_Up_Guarantees.thy ===== *)
theory Step_Up_Guarantees
  imports Action_Step_Up
begin

text \<open>
  What the action permits promise. The store refines a small machine in which a permit is open
  with a count of failures, granted, or used; and a consumption that succeeds was authorised: the
  same action was challenged, the same person passed the second factor after that, and the
  permit was not spent before.
\<close>

section \<open>Requests\<close>

text \<open>One call of the service with everything the outside answers during it.\<close>

datatype step_up_request =
    Issue step_up_io "string \<Rightarrow> int" int int string action_binding
  | Verify step_up_io int int int int "bool option" string string action_identity
  | Consume step_up_io int int int string string string action_binding

datatype step_up_answer =
    Challenged step_up_challenge | Granted step_up_permit | Received step_up_receipt | Refused step_up_error

definition answered :: "('a \<Rightarrow> step_up_answer) \<Rightarrow> (step_up_error + 'a) \<times> step_up_dir \<Rightarrow> step_up_answer \<times> step_up_dir" where
  "answered f = (\<lambda>(x, d). (case x of Inl e \<Rightarrow> Refused e | Inr a \<Rightarrow> f a, d))"

fun su_exec :: "step_up_env \<Rightarrow> step_up_config \<Rightarrow> step_up_request \<Rightarrow> step_up_dir \<Rightarrow> step_up_answer \<times> step_up_dir" where
  "su_exec env cfg (Issue io clock now later c b) d =
     answered Challenged (su_issue env cfg io clock now later c b d)"
| "su_exec env cfg (Verify io t1 t2 t3 t4 factor p c i) d =
     answered Granted (su_verify env cfg io t1 t2 t3 t4 factor p c i d)"
| "su_exec env cfg (Consume io t1 t2 t3 rid c p b) d =
     answered Received (su_consume env io t1 t2 t3 rid c p b d)"

lemma answered_simps [simp]:
  "answered f (Inl e, d) = (Refused e, d)" "answered f (Inr a, d) = (f a, d)"
  by (simp_all add: answered_def)

lemma answered_snd [simp]: "snd (answered f r) = snd r"
  by (cases r) (simp add: answered_def)

section \<open>The permit machine\<close>

datatype permit = Open int | Permitted string | Used string

datatype permit_outcome = Opened string | Allowed string string | Spent string string | Denied

inductive permit_step :: "int \<Rightarrow> (string \<rightharpoonup> permit) \<Rightarrow> permit_outcome \<Rightarrow> (string \<rightharpoonup> permit) \<Rightarrow> bool"
  for N :: int
  where
    expire: "m' \<subseteq>\<^sub>m m \<Longrightarrow> permit_step N m Denied m'"
  | openP: "m' \<subseteq>\<^sub>m m \<Longrightarrow> a = Opened n \<or> a = Denied \<Longrightarrow> permit_step N m a (m'(n \<mapsto> Open 0))"
  | failP: "m n = Some (Open k) \<Longrightarrow> k < N \<Longrightarrow> permit_step N m Denied (m(n \<mapsto> Open (k + 1)))"
  | allowP: "m n = Some (Open k) \<Longrightarrow> k < N \<Longrightarrow> a = Allowed n p \<or> a = Denied
       \<Longrightarrow> permit_step N m a (m(n \<mapsto> Permitted p))"
  | spendP: "m n = Some (Permitted p) \<Longrightarrow> a = Spent n p \<or> a = Denied \<Longrightarrow> permit_step N m a (m(n \<mapsto> Used p))"

inductive_cases permit_stepE: "permit_step N m a m'"

definition permit_of :: "step_up_record \<Rightarrow> permit" where
  "permit_of r =
     (case sr_state r of
        Pending \<Rightarrow> Open (sr_failures r)
      | Verified \<Rightarrow> Permitted (the (sr_permitDigest r))
      | Consumed \<Rightarrow> Used (the (sr_permitDigest r)))"

definition permits :: "step_up_dir \<Rightarrow> string \<rightharpoonup> permit" where
  "permits d n =
     (case map_of d n of
        None \<Rightarrow> None
      | Some f \<Rightarrow> (case sf_content f of Malformed m \<Rightarrow> None | Envelope r seal \<Rightarrow> Some (permit_of r)))"

fun outcome_of :: "step_up_env \<Rightarrow> step_up_request \<Rightarrow> step_up_answer \<Rightarrow> permit_outcome" where
  "outcome_of env (Issue _ _ _ _ c _) (Challenged _) = Opened (su_filename (projr (su_digest env ''reference'' c)))"
| "outcome_of env (Verify _ _ _ _ _ _ p c _) (Granted _) =
     Allowed (su_filename (projr (su_digest env ''reference'' c))) (projr (su_digest env ''permit'' p))"
| "outcome_of env (Consume _ _ _ _ _ c p _) (Received _) =
     Spent (su_filename (projr (su_digest env ''reference'' c))) (projr (su_digest env ''permit'' p))"
| "outcome_of env _ _ = Denied"

lemma permits_put [simp]:
  "permits (put_record r seal t d) = (permits d)(su_filename (sr_referenceDigest r) \<mapsto> permit_of r)"
  by (rule ext) (simp add: permits_def put_record_def)

lemma permits_pruned: "pruned clock d d' \<Longrightarrow> permits d' \<subseteq>\<^sub>m permits d"
  unfolding map_le_def
proof
  fix n
  assume "pruned clock d d'" "n \<in> dom (permits d')"
  then show "permits d' n = permits d n"
    using \<open>pruned clock d d'\<close> [unfolded pruned_def, rule_format, of n]
    by (auto simp: permits_def dom_def split: option.splits)
qed

lemma permits_stored:
  "stored_record env c r d \<Longrightarrow> su_digest env ''reference'' c = Inr (sr_referenceDigest r)
     \<and> permits d (su_filename (sr_referenceDigest r)) = Some (permit_of r)"
  by (auto simp: stored_record_def permits_def)

lemma issued_record_facts:
  assumes "issued_record env cfg now c b = Inr r"
  shows "su_digest env ''reference'' c = Inr (sr_referenceDigest r)"
    "su_digest env ''identity'' (json_array (identityValues b)) = Inr (sr_identityDigest r)"
    "su_digest env ''binding'' (json_array (bindingValues b)) = Inr (sr_bindingDigest r)"
    "sr_expiresAt r = now + su_ttlMs cfg" "sr_createdAt r = now"
    "sr_state r = Pending" "permit_of r = Open 0"
  using assms by (auto simp: issued_record_def permit_of_def split: sum.splits)

lemma issue_refines:
  "permit_step N (permits d) (outcome_of env (Issue io clock now later c b) (fst (su_exec env cfg (Issue io clock now later c b) d)))
     (permits (snd (su_issue env cfg io clock now later c b d)))"
proof (cases rule: issue_effect [of clock d env cfg io now later c b])
  case cleaned
  then obtain e d' where run: "su_issue env cfg io clock now later c b d = (Inl e, d')"
    by (metis prod.collapse)
  show ?thesis using permit_step.expire [OF permits_pruned] cleaned(1) by (simp add: run)
next
  case (issued d1 r seal t)
  note facts = issued_record_facts [OF issued(3)]
  obtain x where run: "su_issue env cfg io clock now later c b d = (x, put_record r seal t d1)"
    using issued(2) by (metis prod.collapse)
  have "outcome_of env (Issue io clock now later c b) (fst (answered Challenged (x, put_record r seal t d1)))
      = Opened (su_filename (sr_referenceDigest r))
    \<or> outcome_of env (Issue io clock now later c b) (fst (answered Challenged (x, put_record r seal t d1))) = Denied"
    using facts(1) by (cases x) simp_all
  then show ?thesis
    using permit_step.openP [OF permits_pruned [OF issued(1)]] facts(7) by (simp add: run)
qed

lemma verify_refines:
  "permit_step (su_maxFailures cfg) (permits d)
     (outcome_of env (Verify io t1 t2 t3 t4 factor p c i) (fst (su_exec env cfg (Verify io t1 t2 t3 t4 factor p c i) d)))
     (permits (snd (su_verify env cfg io t1 t2 t3 t4 factor p c i d)))"
proof -
  let ?run = "su_verify env cfg io t1 t2 t3 t4 factor p c i d"
  from verify_effect [of env cfg t1 t3 factor p c i d io t2 t4]
  consider (refused) e where "?run = (Inl e, d)"
    | (wrote) "verify_writes env cfg t1 t3 factor p c i d ?run"
    by (auto simp: fails_or_def)
  then show ?thesis
  proof cases
    case refused
    then show ?thesis by (simp add: permit_step.expire)
  next
    case wrote
    then obtain x r r' valid seal t where run: "?run = (x, put_record r' seal t d)"
      and stored: "stored_record env c r d" and pending: "sr_state r = Pending"
      and budget: "sr_failures r < su_maxFailures cfg" and change: "verified_record env t3 valid p r r'"
      and success: "(\<exists>y. x = Inr y) \<longrightarrow> valid"
      by (cases ?run) (auto simp: verify_writes_def)
    have name: "sr_referenceDigest r' = sr_referenceDigest r"
      using verified_record_reference [OF change] by simp
    note at = permits_stored [OF stored]
    have opened: "permits d (su_filename (sr_referenceDigest r)) = Some (Open (sr_failures r))"
      using at pending by (simp add: permit_of_def)
    show ?thesis
    proof (cases valid)
      case True
      then obtain q where q: "su_digest env ''permit'' p = Inr q" and r': "permit_of r' = Permitted q"
        using change by (auto simp: verified_record_def permit_of_def)
      have "outcome_of env (Verify io t1 t2 t3 t4 factor p c i) (fst (answered Granted (x, put_record r' seal t d)))
          = Allowed (su_filename (sr_referenceDigest r)) q
        \<or> outcome_of env (Verify io t1 t2 t3 t4 factor p c i) (fst (answered Granted (x, put_record r' seal t d))) = Denied"
        using at q by (cases x) simp_all
      then show ?thesis
        using permit_step.allowP [where m = "permits d", OF opened budget] by (simp add: run name r')
    next
      case False
      then obtain e where x: "x = Inl e" using success by (cases x) auto
      have "permit_of r' = Open (sr_failures r + 1)"
        using change False pending by (simp add: verified_record_def permit_of_def)
      then show ?thesis
        using permit_step.failP [where m = "permits d", OF opened budget] by (simp add: run name x)
    qed
  qed
qed

lemma consume_refines:
  "permit_step N (permits d)
     (outcome_of env (Consume io t1 t2 t3 rid c p b) (fst (su_exec env cfg (Consume io t1 t2 t3 rid c p b) d)))
     (permits (snd (su_consume env io t1 t2 t3 rid c p b d)))"
proof -
  let ?run = "su_consume env io t1 t2 t3 rid c p b d"
  from consume_effect [of env t1 t2 c p b d io t3 rid]
  consider (refused) e where "?run = (Inl e, d)"
    | (wrote) "consume_writes env t1 t2 c p b d ?run"
    by (auto simp: fails_or_def)
  then show ?thesis
  proof cases
    case refused
    then show ?thesis by (simp add: permit_step.expire)
  next
    case wrote
    then obtain x r receipt pd seal t where
      run: "?run = (x, put_record (r\<lparr>sr_state := Consumed, sr_consumedAt := Some t2, sr_receiptDigest := Some receipt\<rparr>) seal t d)"
      and stored: "stored_record env c r d" and state: "sr_state r = Verified"
      and permit: "su_digest env ''permit'' p = Inr pd" "sr_permitDigest r = Some pd"
      by (cases ?run) (auto simp: consume_writes_def)
    let ?r = "r\<lparr>sr_state := Consumed, sr_consumedAt := Some t2, sr_receiptDigest := Some receipt\<rparr>"
    note at = permits_stored [OF stored]
    have permitted: "permits d (su_filename (sr_referenceDigest r)) = Some (Permitted pd)"
      using at state permit by (simp add: permit_of_def)
    have used: "permit_of ?r = Used pd" using permit by (simp add: permit_of_def)
    have "outcome_of env (Consume io t1 t2 t3 rid c p b) (fst (answered Received (x, put_record ?r seal t d)))
        = Spent (su_filename (sr_referenceDigest r)) pd
      \<or> outcome_of env (Consume io t1 t2 t3 rid c p b) (fst (answered Received (x, put_record ?r seal t d))) = Denied"
      using at permit by (cases x) simp_all
    then show ?thesis
      using permit_step.spendP [where m = "permits d", OF permitted] by (simp add: run used)
  qed
qed

text \<open>
  C5. Every call of the step-up service refines one step of the permit machine: a challenge opens
  a permit with no failures, a failed factor counts one within the budget, a passed factor allows
  an open permit, a consumption spends an allowed one, expiry only forgets. A call that answers
  with a challenge, a permit or a receipt did that very step; a call that is refused changed
  nothing, or did a step whose success was not acknowledged, so a permit is never spent twice.
\<close>
theorem step_up_refines:
  "permit_step (su_maxFailures cfg) (permits d)
     (outcome_of env q (fst (su_exec env cfg q d))) (permits (snd (su_exec env cfg q d)))"
proof (cases q)
  case (Issue io clock now later c b)
  then show ?thesis using issue_refines [of "su_maxFailures cfg" d env io clock now later c b cfg] by simp
next
  case (Verify io t1 t2 t3 t4 factor p c i)
  then show ?thesis using verify_refines [of cfg d env io t1 t2 t3 t4 factor p c i] by simp
next
  case (Consume io t1 t2 t3 rid c p b)
  then show ?thesis using consume_refines [of "su_maxFailures cfg" d env io t1 t2 t3 rid c p b cfg] by simp
qed

section \<open>Authorisation\<close>

type_synonym step_up_trace = "(step_up_request \<times> step_up_answer) list"

inductive su_reach :: "step_up_env \<Rightarrow> step_up_config \<Rightarrow> step_up_trace \<Rightarrow> step_up_dir \<Rightarrow> bool"
  for env cfg
  where
    start: "su_reach env cfg [] []"
  | step: "su_reach env cfg tr d \<Longrightarrow> su_exec env cfg q d = (a, d') \<Longrightarrow> su_reach env cfg (tr @ [(q, a)]) d'"

fun challenge_of :: "step_up_request \<Rightarrow> string option" where
  "challenge_of (Issue _ _ _ _ c _) = Some c"
| "challenge_of _ = None"

definition challenges :: "step_up_trace \<Rightarrow> string list" where
  "challenges tr = List.map_filter (challenge_of \<circ> fst) tr"

text \<open>The texts whose digests a request stores or compares.\<close>

fun request_texts :: "step_up_request \<Rightarrow> string set" where
  "request_texts (Issue _ _ _ _ c b) =
     {domain_text ''reference'' c, domain_text ''identity'' (json_array (identityValues b)),
      domain_text ''binding'' (json_array (bindingValues b))}"
| "request_texts (Verify _ _ _ _ _ _ p c i) =
     {domain_text ''reference'' c, domain_text ''permit'' p,
      domain_text ''identity'' (json_array (identityValues i))}"
| "request_texts (Consume _ _ _ _ _ c p b) =
     {domain_text ''reference'' c, domain_text ''permit'' p,
      domain_text ''identity'' (json_array (identityValues b)),
      domain_text ''binding'' (json_array (bindingValues b))}"

definition trace_texts :: "step_up_trace \<Rightarrow> string set" where
  "trace_texts tr = (\<Union>x \<in> set tr. request_texts (fst x))"

fun issues :: "string \<Rightarrow> action_binding \<Rightarrow> int \<Rightarrow> step_up_request \<times> step_up_answer \<Rightarrow> bool" where
  "issues c b now (Issue _ _ now' _ c' b', _) \<longleftrightarrow> c' = c \<and> b' = b \<and> now' = now"
| "issues c b now _ \<longleftrightarrow> False"

fun proves :: "string \<Rightarrow> action_identity \<Rightarrow> string \<Rightarrow> step_up_request \<times> step_up_answer \<Rightarrow> bool" where
  "proves c i p (Verify _ _ _ _ _ factor p' c' i', _) \<longleftrightarrow> factor = Some True \<and> c' = c \<and> p' = p \<and> i' = i"
| "proves c i p _ \<longleftrightarrow> False"

fun spends :: "string \<Rightarrow> step_up_request \<times> step_up_answer \<Rightarrow> bool" where
  "spends c (Consume _ _ _ _ _ c' _ _, Received _) \<longleftrightarrow> c' = c"
| "spends c _ \<longleftrightarrow> False"

text \<open>An event of the first kind happened, and one of the second after it.\<close>

definition happened :: "('e \<Rightarrow> bool) \<Rightarrow> 'e list \<Rightarrow> bool" where
  "happened P tr \<longleftrightarrow> (\<exists>x \<in> set tr. P x)"

definition happened_then :: "('e \<Rightarrow> bool) \<Rightarrow> ('e \<Rightarrow> bool) \<Rightarrow> 'e list \<Rightarrow> bool" where
  "happened_then P Q tr \<longleftrightarrow> (\<exists>tr1 x tr2. tr = tr1 @ x # tr2 \<and> Q x \<and> happened P tr1)"

lemma happened_snoc [simp]: "happened P (tr @ [x]) \<longleftrightarrow> happened P tr \<or> P x"
  by (auto simp: happened_def)

lemma happened_then_snoc: "happened_then P Q tr \<or> Q x \<and> happened P tr \<Longrightarrow> happened_then P Q (tr @ [x])"
  unfolding happened_then_def by fastforce

lemma challenges_snoc [simp]:
  "challenges (tr @ [(q, a)]) = challenges tr @ (case challenge_of q of None \<Rightarrow> [] | Some c \<Rightarrow> [c])"
  by (simp add: challenges_def map_filter_def split: option.split)

lemma trace_texts_snoc [simp]: "trace_texts (tr @ [(q, a)]) = trace_texts tr \<union> request_texts q"
  by (auto simp: trace_texts_def)

lemma issues_challenge: "happened (issues c b now) tr \<Longrightarrow> c \<in> set (challenges tr)"
  by (force simp: happened_def challenges_def map_filter_def elim!: issues.elims)

lemma issues_texts: "happened (issues c b now) tr \<Longrightarrow>
    domain_text ''reference'' c \<in> trace_texts tr
    \<and> domain_text ''identity'' (json_array (identityValues b)) \<in> trace_texts tr
    \<and> domain_text ''binding'' (json_array (bindingValues b)) \<in> trace_texts tr"
  by (force simp: happened_def trace_texts_def elim!: issues.elims)

lemma spends_texts: "happened (spends c) tr \<Longrightarrow> domain_text ''reference'' c \<in> trace_texts tr"
  by (force simp: happened_def trace_texts_def elim!: spends.elims)

lemma domain_text_inj [simp]: "domain_text kind v = domain_text kind w \<longleftrightarrow> v = w"
  by (simp add: domain_text_def)

lemma identityValues_inj:
  "identityValues i = identityValues b \<longleftrightarrow> action_identity.truncate i = action_identity.truncate b"
  by (auto simp: identityValues_def action_identity.defs)

lemma identityValues_truncate: "identityValues (action_identity.truncate b) = identityValues b"
  by (simp add: identityValues_def action_identity.defs)

lemma bindingValues_inj: "bindingValues b = bindingValues b' \<longleftrightarrow> b = b'"
  by (auto simp: bindingValues_def identityValues_def intro: action_binding.equality)

lemma su_digest_Inr: "su_digest env kind v = Inr x \<Longrightarrow> \<exists>k. su_key env = Inr k \<and> x = se_hmac env k (domain_text kind v)"
  by (simp add: su_digest_def split: sum.splits)

lemma su_digest_inj:
  assumes "inj_on (se_hmac env k) T" "su_key env = Inr k" "domain_text kind v \<in> T" "domain_text kind w \<in> T"
    and "su_digest env kind v = Inr x" "su_digest env kind w = Inr x"
  shows "v = w"
  using assms by (auto simp: su_digest_def dest: inj_onD)

text \<open>What every stored record says about the past.\<close>

definition explained ::
  "step_up_env \<Rightarrow> step_up_config \<Rightarrow> step_up_trace \<Rightarrow> step_up_record \<Rightarrow> bool" where
  "explained env cfg tr r \<longleftrightarrow>
     (\<exists>c b now. happened (issues c b now) tr
        \<and> su_digest env ''reference'' c = Inr (sr_referenceDigest r)
        \<and> su_digest env ''identity'' (json_array (identityValues b)) = Inr (sr_identityDigest r)
        \<and> su_digest env ''binding'' (json_array (bindingValues b)) = Inr (sr_bindingDigest r)
        \<and> sr_createdAt r = now \<and> sr_expiresAt r = now + su_ttlMs cfg
        \<and> (sr_state r \<noteq> Pending \<longrightarrow>
             (\<exists>p. su_digest env ''permit'' p = Inr (the (sr_permitDigest r))
                \<and> domain_text ''permit'' p \<in> trace_texts tr
                \<and> happened_then (issues c b now) (proves c (action_identity.truncate b) p) tr))
        \<and> (happened (spends c) tr \<longrightarrow> sr_state r = Consumed))"

definition su_inv :: "step_up_env \<Rightarrow> step_up_config \<Rightarrow> step_up_trace \<Rightarrow> step_up_dir \<Rightarrow> bool" where
  "su_inv env cfg tr d \<longleftrightarrow>
     (\<forall>n f r seal. map_of d n = Some f \<longrightarrow> sf_content f = Envelope r seal
        \<longrightarrow> n = su_filename (sr_referenceDigest r) \<and> explained env cfg tr r)
     \<and> (\<forall>c. happened (spends c) tr \<longrightarrow> c \<in> set (challenges tr))"

lemma explained_snoc:
  assumes "explained env cfg tr r" "\<And>c. spends c x \<Longrightarrow> su_digest env ''reference'' c \<noteq> Inr (sr_referenceDigest r)"
  shows "explained env cfg (tr @ [x]) r"
proof -
  obtain c b now where past: "happened (issues c b now) tr"
    "su_digest env ''reference'' c = Inr (sr_referenceDigest r)"
    "su_digest env ''identity'' (json_array (identityValues b)) = Inr (sr_identityDigest r)"
    "su_digest env ''binding'' (json_array (bindingValues b)) = Inr (sr_bindingDigest r)"
    "sr_createdAt r = now" "sr_expiresAt r = now + su_ttlMs cfg"
    "sr_state r \<noteq> Pending \<longrightarrow>
       (\<exists>p. su_digest env ''permit'' p = Inr (the (sr_permitDigest r)) \<and> domain_text ''permit'' p \<in> trace_texts tr
          \<and> happened_then (issues c b now) (proves c (action_identity.truncate b) p) tr)"
    "happened (spends c) tr \<longrightarrow> sr_state r = Consumed"
    using assms(1) unfolding explained_def by blast
  have "\<not> spends c x" using assms(2) past(2) by blast
  then show ?thesis unfolding explained_def
    by (intro exI [of _ c] exI [of _ b] exI [of _ now])
      (use past in \<open>auto simp: trace_texts_def intro: happened_then_snoc\<close>)
qed

lemma su_filename_inj [simp]: "su_filename a = su_filename b \<longleftrightarrow> a = b"
  by (simp add: su_filename_def)

lemma su_inv_put:
  assumes inv: "su_inv env cfg tr d" and pruned: "pruned clock d d1"
    and new: "explained env cfg (tr @ [x]) r"
    and others: "\<And>c. spends c x \<Longrightarrow> su_digest env ''reference'' c = Inr (sr_referenceDigest r)
        \<and> c \<in> set (challenges (tr @ [x]))"
    and grows: "set (challenges tr) \<subseteq> set (challenges (tr @ [x]))"
  shows "su_inv env cfg (tr @ [x]) (put_record r seal t d1)"
  unfolding su_inv_def
proof (intro conjI allI impI)
  fix n f r' seal'
  assume at: "map_of (put_record r seal t d1) n = Some f" "sf_content f = Envelope r' seal'"
  have "n = su_filename (sr_referenceDigest r') \<and> explained env cfg (tr @ [x]) r'"
  proof (cases "n = su_filename (sr_referenceDigest r)")
    case True
    then show ?thesis using at new by (auto simp: put_record_def)
  next
    case False
    then have "map_of d1 n = Some f" using at by (simp add: put_record_def)
    then have "map_of d n = Some f" using pruned [unfolded pruned_def, rule_format, of n] by auto
    then have old: "n = su_filename (sr_referenceDigest r')" "explained env cfg tr r'"
      using inv at(2) unfolding su_inv_def by blast+
    then show ?thesis using False others by (auto intro!: explained_snoc)
  qed
  then show "n = su_filename (sr_referenceDigest r')" "explained env cfg (tr @ [x]) r'" by simp_all
next
  fix c
  assume "happened (spends c) (tr @ [x])"
  then show "c \<in> set (challenges (tr @ [x]))"
    using inv grows others by (auto simp: su_inv_def)
qed

lemma su_inv_same:
  assumes "su_inv env cfg tr d" "pruned clock d d1" "\<And>c. \<not> spends c x"
    "set (challenges tr) \<subseteq> set (challenges (tr @ [x]))"
  shows "su_inv env cfg (tr @ [x]) d1"
  unfolding su_inv_def
proof (intro conjI allI impI)
  fix n f r seal
  assume at: "map_of d1 n = Some f" "sf_content f = Envelope r seal"
  then have "map_of d n = Some f" using assms(2) [unfolded pruned_def, rule_format, of n] by auto
  then have old: "n = su_filename (sr_referenceDigest r)" "explained env cfg tr r"
    using assms(1) at(2) unfolding su_inv_def by blast+
  then show "n = su_filename (sr_referenceDigest r)" "explained env cfg (tr @ [x]) r"
    using assms(3) by (auto intro!: explained_snoc)
next
  fix c
  assume "happened (spends c) (tr @ [x])"
  then show "c \<in> set (challenges (tr @ [x]))" using assms by (auto simp: su_inv_def)
qed

lemma stored_explained:
  "stored_record env c r d \<Longrightarrow> su_inv env cfg tr d
     \<Longrightarrow> explained env cfg tr r \<and> su_digest env ''reference'' c = Inr (sr_referenceDigest r)"
  unfolding stored_record_def su_inv_def by blast

lemma identity_match_digest:
  "assertIdentityMatch env r i = Inr () \<Longrightarrow>
     su_digest env ''identity'' (json_array (identityValues i)) = Inr (sr_identityDigest r)"
  by (auto simp: assertIdentityMatch_def equalDigest_def split: sum.splits if_splits)

lemma binding_match_digest:
  "assertBindingMatch env r b = Inr () \<Longrightarrow>
     su_digest env ''binding'' (json_array (bindingValues b)) = Inr (sr_bindingDigest r)
     \<and> assertIdentityMatch env r b = Inr ()"
  by (auto simp: assertBindingMatch_def equalDigest_def split: sum.splits if_splits)

lemma digest_key: "su_digest env kind v = Inr x \<Longrightarrow> \<exists>k. su_key env = Inr k"
  by (auto simp: su_digest_def split: sum.splits)

lemma verify_inv:
  assumes inv: "su_inv env cfg tr d" and wrote: "verify_writes env cfg t1 t3 factor p c i d (y, d')"
    and x: "x = (Verify io t1 t2 t3 t4 factor p c i, a)"
    and key: "su_key env = Inr k" and inj: "inj_on (se_hmac env k) (trace_texts (tr @ [x]))"
  shows "su_inv env cfg (tr @ [x]) d'"
proof -
  obtain r r' valid seal t where d': "d' = put_record r' seal t d" and stored: "stored_record env c r d"
    and pending: "sr_state r = Pending" and factor: "factor = Some valid"
    and match: "assertIdentityMatch env r i = Inr ()" and change: "verified_record env t3 valid p r r'"
    using wrote unfolding verify_writes_def prod.case by blast
  note same = verified_record_reference [OF change]
  note past = stored_explained [OF stored inv]
  then obtain c0 b now where known: "happened (issues c0 b now) tr"
    "su_digest env ''reference'' c0 = Inr (sr_referenceDigest r)"
    "su_digest env ''identity'' (json_array (identityValues b)) = Inr (sr_identityDigest r)"
    "su_digest env ''binding'' (json_array (bindingValues b)) = Inr (sr_bindingDigest r)"
    "sr_createdAt r = now" "sr_expiresAt r = now + su_ttlMs cfg"
    "happened (spends c0) tr \<longrightarrow> sr_state r = Consumed"
    unfolding explained_def by blast
  note texts = issues_texts [OF known(1)]
  have c: "c0 = c"
    by (rule su_digest_inj [OF inj key _ _ known(2)]) (use past texts in \<open>auto simp: x\<close>)
  have "json_array (identityValues i) = json_array (identityValues b)"
    by (rule su_digest_inj [OF inj key _ _ identity_match_digest [OF match] known(3)]) (use texts in \<open>auto simp: x\<close>)
  then have i: "i = action_identity.truncate b"
    by (simp add: identityValues_inj action_identity.defs)
  have fresh: "\<not> happened (spends c) (tr @ [x])" using known(7) pending by (simp add: x c)
  have permit: "\<exists>q. su_digest env ''permit'' q = Inr (the (sr_permitDigest r'))
      \<and> domain_text ''permit'' q \<in> trace_texts (tr @ [x])
      \<and> happened_then (issues c b now) (proves c (action_identity.truncate b) q) (tr @ [x])"
    if "sr_state r' \<noteq> Pending"
    by (rule exI [of _ p])
      (use that change pending factor known(1) in
        \<open>auto simp: x c i verified_record_def intro!: happened_then_snoc split: if_splits\<close>)
  have "explained env cfg (tr @ [x]) r'"
    unfolding explained_def
    by (intro exI [of _ c] exI [of _ b] exI [of _ now])
      (use known same permit fresh in \<open>auto simp: c\<close>)
  then show ?thesis unfolding d'
    by (rule su_inv_put [OF inv pruned_refl]) (simp_all add: x)
qed

lemma consume_authorised:
  assumes inv: "su_inv env cfg tr d" and wrote: "consume_writes env t1 t2 c p b d (y, d')"
    and x: "x = (Consume io t1 t2 t3 rid c p b, a)"
    and key: "su_key env = Inr k" and inj: "inj_on (se_hmac env k) (trace_texts (tr @ [x]))"
  obtains now where "su_inv env cfg (tr @ [x]) d'"
    "happened_then (issues c b now) (proves c (action_identity.truncate b) p) tr"
    "\<not> happened (spends c) tr" "now \<le> t1" "t2 < now + su_ttlMs cfg"
proof -
  obtain r receipt pd seal t where
    d': "d' = put_record (r\<lparr>sr_state := Consumed, sr_consumedAt := Some t2, sr_receiptDigest := Some receipt\<rparr>) seal t d"
    and stored: "stored_record env c r d" and state: "sr_state r = Verified"
    and match: "assertBindingMatch env r b = Inr ()" and live: "assertLive r t1 = Inr ()" "t2 < sr_expiresAt r"
    and permit: "su_digest env ''permit'' p = Inr pd" "sr_permitDigest r = Some pd"
    using wrote unfolding consume_writes_def prod.case by blast
  let ?r = "r\<lparr>sr_state := Consumed, sr_consumedAt := Some t2, sr_receiptDigest := Some receipt\<rparr>"
  note past = stored_explained [OF stored inv]
  then obtain c0 b0 now q where known: "happened (issues c0 b0 now) tr"
    "su_digest env ''reference'' c0 = Inr (sr_referenceDigest r)"
    "su_digest env ''identity'' (json_array (identityValues b0)) = Inr (sr_identityDigest r)"
    "su_digest env ''binding'' (json_array (bindingValues b0)) = Inr (sr_bindingDigest r)"
    "sr_createdAt r = now" "sr_expiresAt r = now + su_ttlMs cfg"
    "happened (spends c0) tr \<longrightarrow> sr_state r = Consumed"
    and proof_of: "su_digest env ''permit'' q = Inr (the (sr_permitDigest r))"
      "domain_text ''permit'' q \<in> trace_texts tr"
      "happened_then (issues c0 b0 now) (proves c0 (action_identity.truncate b0) q) tr"
    unfolding explained_def using state by auto
  note texts = issues_texts [OF known(1)]
  have c: "c0 = c"
    by (rule su_digest_inj [OF inj key _ _ known(2)]) (use past texts in \<open>auto simp: x\<close>)
  have "json_array (bindingValues b) = json_array (bindingValues b0)"
    by (rule su_digest_inj [OF inj key _ _ _ known(4)])
      (use texts binding_match_digest [OF match] in \<open>auto simp: x\<close>)
  then have b: "b0 = b" by (simp add: bindingValues_inj)
  have p: "q = p"
    by (rule su_digest_inj [OF inj key _ _ proof_of(1)]) (use proof_of(2) permit in \<open>auto simp: x\<close>)
  note done_before = proof_of(3) [unfolded c b p]
  have later: "\<exists>q. su_digest env ''permit'' q = Inr (the (sr_permitDigest ?r))
      \<and> domain_text ''permit'' q \<in> trace_texts (tr @ [x])
      \<and> happened_then (issues c b now) (proves c (action_identity.truncate b) q) (tr @ [x])"
    by (rule exI [of _ p]) (use proof_of(1,2) done_before p in \<open>auto simp: x intro: happened_then_snoc\<close>)
  have "explained env cfg (tr @ [x]) ?r"
    unfolding explained_def
    by (intro exI [of _ c] exI [of _ b] exI [of _ now])
      (use known later in \<open>simp add: c b\<close>)
  then have "su_inv env cfg (tr @ [x]) d'"
    unfolding d' by (rule su_inv_put [OF inv pruned_refl])
      (use past issues_challenge [OF known(1)] in \<open>auto simp: x c elim!: spends.elims\<close>)
  moreover have "now \<le> t1" using live(1) known(5) by (auto simp: assertLive_def su_clock_def split: sum.splits if_splits)
  ultimately show thesis
    using that [of now] done_before known(6,7) state live(2) c by simp
qed

lemma writes_key:
  "verify_writes env cfg t1 t3 factor p c i d r \<Longrightarrow> \<exists>k. su_key env = Inr k"
  "consume_writes env t1 t2 c p b d r2 \<Longrightarrow> \<exists>k. su_key env = Inr k"
  by (auto simp: verify_writes_def consume_writes_def stored_record_def dest: digest_key split: prod.splits)

lemma issue_inv:
  assumes inv: "su_inv env cfg tr d" and run: "su_exec env cfg (Issue io clock now later c b) d = (a, d')"
    and fresh: "c \<notin> set (challenges tr)"
  shows "su_inv env cfg (tr @ [(Issue io clock now later c b, a)]) d'"
proof (cases rule: issue_effect [of clock d env cfg io now later c b])
  case cleaned
  then have "pruned clock d d'" using run by (metis answered_snd snd_conv su_exec.simps(1))
  then show ?thesis by (rule su_inv_same [OF inv]) auto
next
  case (issued d1 r seal t)
  note facts = issued_record_facts [OF issued(3)]
  have d': "d' = put_record r seal t d1"
    using run issued(2) by (metis answered_snd snd_conv su_exec.simps(1))
  have "\<not> happened (spends c) tr" using inv fresh by (auto simp: su_inv_def)
  then have "explained env cfg (tr @ [(Issue io clock now later c b, a)]) r"
    unfolding explained_def
    by (intro exI [of _ c] exI [of _ b] exI [of _ now]) (use facts in simp)
  then show ?thesis unfolding d' by (rule su_inv_put [OF inv issued(1)]) auto
qed

lemma su_inv_step:
  assumes inv: "su_inv env cfg tr d" and run: "su_exec env cfg q d = (a, d')"
    and inj: "\<And>k. su_key env = Inr k \<Longrightarrow> inj_on (se_hmac env k) (trace_texts (tr @ [(q, a)]))"
    and fresh: "distinct (challenges (tr @ [(q, a)]))"
  shows "su_inv env cfg (tr @ [(q, a)]) d'"
proof (cases q)
  case (Issue io clock now later c b)
  show ?thesis unfolding Issue
    by (rule issue_inv [OF inv]) (use run fresh Issue in simp_all)
next
  case (Verify io t1 t2 t3 t4 factor p c i)
  from verify_effect [of env cfg t1 t3 factor p c i d io t2 t4]
  show ?thesis unfolding fails_or_def
  proof
    assume "\<exists>e. su_verify env cfg io t1 t2 t3 t4 factor p c i d = (Inl e, d)"
    then have "d' = d" using run Verify by auto
    then show ?thesis using su_inv_same [OF inv pruned_refl] run Verify \<open>\<exists>e. _ = (Inl e, d)\<close> by auto
  next
    assume wrote: "verify_writes env cfg t1 t3 factor p c i d (su_verify env cfg io t1 t2 t3 t4 factor p c i d)"
    obtain y where "su_verify env cfg io t1 t2 t3 t4 factor p c i d = (y, d')"
      using run Verify by (auto simp: answered_def split: prod.splits)
    then show ?thesis
      using verify_inv [OF inv _ _ _ inj] wrote writes_key(1) [OF wrote] Verify by metis
  qed
next
  case (Consume io t1 t2 t3 rid c p b)
  from consume_effect [of env t1 t2 c p b d io t3 rid]
  show ?thesis unfolding fails_or_def
  proof
    assume "\<exists>e. su_consume env io t1 t2 t3 rid c p b d = (Inl e, d)"
    then have "d' = d" using run Consume by auto
    then show ?thesis using su_inv_same [OF inv pruned_refl] run Consume \<open>\<exists>e. _ = (Inl e, d)\<close> by auto
  next
    assume wrote: "consume_writes env t1 t2 c p b d (su_consume env io t1 t2 t3 rid c p b d)"
    obtain y where "su_consume env io t1 t2 t3 rid c p b d = (y, d')"
      using run Consume by (auto simp: answered_def split: prod.splits)
    then show ?thesis
      using consume_authorised [OF inv _ _ _ inj] wrote writes_key(2) [OF wrote] Consume by metis
  qed
qed

lemma challenges_prefix: "distinct (challenges (tr @ [x])) \<Longrightarrow> distinct (challenges tr)"
  by (cases x) (simp split: option.splits)

lemma su_reach_inv:
  assumes "su_reach env cfg tr d"
    and "\<And>k. su_key env = Inr k \<Longrightarrow> inj_on (se_hmac env k) (trace_texts tr)" "distinct (challenges tr)"
  shows "su_inv env cfg tr d"
  using assms
proof (induction rule: su_reach.induct)
  case start
  then show ?case by (simp add: su_inv_def happened_def)
next
  case (step tr d q a d')
  have "su_inv env cfg tr d"
    by (rule step.IH) (use step.prems in \<open>auto intro: inj_on_subset challenges_prefix\<close>)
  then show ?case by (rule su_inv_step [OF _ step.hyps(2)]) (use step.prems in auto)
qed

text \<open>
  C1. A consumption that returns a receipt was authorised, in every history of the store that
  starts empty: a challenge was issued for exactly this action, resource and intent and this
  identity, the second factor was accepted for that challenge and identity afterwards, producing
  this permit, no earlier consumption of the challenge returned a receipt, and the consumption
  falls in the lifetime of the challenge. Challenge references are fresh random values, and
  HMAC-SHA-256 does not collide on the texts of the history.
\<close>
theorem step_up_authorised:
  assumes "su_reach env cfg tr d"
    and "su_exec env cfg (Consume io t1 t2 t3 rid c p b) d = (Received receipt, d')"
    and "inj_on (se_hmac env (the (se_key env))) (trace_texts (tr @ [(Consume io t1 t2 t3 rid c p b, Received receipt)]))"
    and "distinct (challenges tr)"
  shows "\<exists>now. happened_then (issues c b now) (proves c (action_identity.truncate b) p) tr
     \<and> \<not> happened (spends c) tr \<and> now \<le> t1 \<and> t2 < now + su_ttlMs cfg"
proof -
  let ?x = "(Consume io t1 t2 t3 rid c p b, Received receipt)"
  have inj: "inj_on (se_hmac env k) (trace_texts (tr @ [?x]))" if "su_key env = Inr k" for k
    using assms(3) that by (auto simp: su_key_def split: option.splits if_splits)
  have inv: "su_inv env cfg tr d"
    by (rule su_reach_inv [OF assms(1) _ assms(4)]) (use inj in \<open>auto intro: inj_on_subset\<close>)
  obtain y where y: "su_consume env io t1 t2 t3 rid c p b d = (Inr y, d')"
    using assms(2) by (auto simp: answered_def split: prod.splits sum.splits)
  then have wrote: "consume_writes env t1 t2 c p b d (Inr y, d')"
    using consume_effect [of env t1 t2 c p b d io t3 rid] by (auto simp: fails_or_def)
  obtain k where k: "su_key env = Inr k" using writes_key(2) [OF wrote] by blast
  show ?thesis by (rule consume_authorised [OF inv wrote refl k inj [OF k]]) blast
qed

subsection \<open>A run\<close>

definition hex64 :: "char \<Rightarrow> string" where "hex64 ch = replicate 64 ch"

lemma hex64 [simp]: "is_sha256_hex (hex64 ch) \<longleftrightarrow> is_lower_hex ch" "equalDigest (hex64 ch) (hex64 ch) \<longleftrightarrow> is_lower_hex ch"
  by (simp_all add: hex64_def is_sha256_hex_def equalDigest_def list_all_iff)

lemma hex64_inj: "hex64 a = hex64 b \<longleftrightarrow> a = b"
  by (simp add: hex64_def replicate_eq_replicate)

definition demo_env :: step_up_env where
  "demo_env =
     \<lparr>se_key = Some (replicate 32 CHR ''k''),
      se_hmac = (\<lambda>k t. hex64 (if t ! 29 = CHR ''i'' then CHR ''1'' else if t ! 29 = CHR ''b'' then CHR ''2''
        else if t ! 29 = CHR ''p'' then CHR ''3'' else CHR ''4''))\<rparr>"

definition demo_cfg :: step_up_config where
  "demo_cfg = \<lparr>su_ttlMs = 1000, su_maxRecords = 8, su_maxFailures = 3\<rparr>"

definition demo_io :: step_up_io where
  "demo_io = \<lparr>si_prepare = True, si_list = True, si_readable = (\<lambda>_. True), si_removable = (\<lambda>_. True),
     si_cleaned = True, si_publish = Published 0\<rparr>"

definition demo_binding :: action_binding where
  "demo_binding =
     \<lparr>ai_userId = ''ann'', ai_sessionBinding = hex64 CHR ''a'', ai_credentialBinding = hex64 CHR ''a'',
      ai_authorityBinding = hex64 CHR ''a'', ai_factorBinding = hex64 CHR ''a'',
      ab_action = ''user.remove'', ab_resourceKind = ''user'', ab_resourceId = ''bob'',
      ab_intentDigest = hex64 CHR ''a'', ab_targetDigest = hex64 CHR ''a''\<rparr>"

definition demo_c :: string where "demo_c = replicate 43 CHR ''C''"
definition demo_p :: string where "demo_p = replicate 43 CHR ''P''"

definition demo_issue :: step_up_request where
  "demo_issue = Issue demo_io (\<lambda>_. 0) 0 1 demo_c demo_binding"
definition demo_verify :: step_up_request where
  "demo_verify = Verify demo_io 2 3 4 5 (Some True) demo_p demo_c (action_identity.truncate demo_binding)"
definition demo_consume :: step_up_request where
  "demo_consume = Consume demo_io 6 7 8 demo_c demo_c demo_p demo_binding"

lemma demo_digest:
  "su_digest demo_env ''reference'' v = Inr (hex64 CHR ''4'')"
  "su_digest demo_env ''user'' v = Inr (hex64 CHR ''4'')"
  "su_digest demo_env ''resource'' v = Inr (hex64 CHR ''4'')"
  "su_digest demo_env ''receipt'' v = Inr (hex64 CHR ''4'')"
  "su_digest demo_env ''seal'' v = Inr (hex64 CHR ''4'')"
  "su_digest demo_env ''identity'' v = Inr (hex64 CHR ''1'')"
  "su_digest demo_env ''binding'' v = Inr (hex64 CHR ''2'')"
  "su_digest demo_env ''permit'' v = Inr (hex64 CHR ''3'')"
proof -
  have "length (utf8 (replicate 32 CHR ''k'')) = 32" by code_simp
  then show
    "su_digest demo_env ''reference'' v = Inr (hex64 CHR ''4'')"
    "su_digest demo_env ''user'' v = Inr (hex64 CHR ''4'')"
    "su_digest demo_env ''resource'' v = Inr (hex64 CHR ''4'')"
    "su_digest demo_env ''receipt'' v = Inr (hex64 CHR ''4'')"
    "su_digest demo_env ''seal'' v = Inr (hex64 CHR ''4'')"
    "su_digest demo_env ''identity'' v = Inr (hex64 CHR ''1'')"
    "su_digest demo_env ''binding'' v = Inr (hex64 CHR ''2'')"
    "su_digest demo_env ''permit'' v = Inr (hex64 CHR ''3'')"
    by (simp_all add: su_digest_def su_key_def demo_env_def domain_text_def)
qed

lemma demo_lower: "is_lower_hex CHR ''1''" "is_lower_hex CHR ''2''" "is_lower_hex CHR ''3''"
  "is_lower_hex CHR ''4''" "is_lower_hex CHR ''a''"
  by code_simp+

lemma demo_checks:
  "assertBinding demo_binding = Inr ()"
  "assertIdentity (action_identity.truncate demo_binding) = Inr ()"
  "assertReference demo_c = Inr ()" "assertReference demo_p = Inr ()"
proof -
  have "step_up_text ''ann''" "step_up_text ''bob''" "is_word_dash CHR ''C''" "is_word_dash CHR ''P''" by code_simp+
  then show "assertBinding demo_binding = Inr ()"
    "assertIdentity (action_identity.truncate demo_binding) = Inr ()"
    "assertReference demo_c = Inr ()" "assertReference demo_p = Inr ()"
    by (simp_all add: assertBinding_def assertIdentity_def demo_binding_def action_identity.defs demo_lower
        ACTIONS_def assertReference_def demo_c_def demo_p_def list_all_iff)
qed

definition demo_record :: step_up_record where
  "demo_record =
     \<lparr>sr_state = Pending, sr_referenceDigest = hex64 CHR ''4'', sr_identityDigest = hex64 CHR ''1'',
      sr_bindingDigest = hex64 CHR ''2'', sr_userDigest = hex64 CHR ''4'',
      sr_factorBinding = hex64 CHR ''a'', sr_action = ''user.remove'', sr_resourceKind = ''user'',
      sr_resourceDigest = hex64 CHR ''4'', sr_intentDigest = hex64 CHR ''a'',
      sr_targetDigest = hex64 CHR ''a'', sr_createdAt = 0, sr_expiresAt = 1000, sr_failures = 0,
      sr_verifiedAt = None, sr_permitDigest = None, sr_consumedAt = None, sr_receiptDigest = None\<rparr>"

definition demo_verified :: step_up_record where
  "demo_verified = demo_record\<lparr>sr_state := Verified, sr_verifiedAt := Some 4,
     sr_permitDigest := Some (hex64 CHR ''3'')\<rparr>"

definition demo_consumed :: step_up_record where
  "demo_consumed = demo_verified\<lparr>sr_state := Consumed, sr_consumedAt := Some 7,
     sr_receiptDigest := Some (hex64 CHR ''4'')\<rparr>"

definition demo_dir :: "step_up_record \<Rightarrow> step_up_dir" where
  "demo_dir r = [(su_filename (hex64 CHR ''4''), \<lparr>sf_content = Envelope r (hex64 CHR ''4''), sf_mtime = 0\<rparr>)]"

lemma demo_records: "assertRecord demo_record = Inr ()" "assertRecord demo_verified = Inr ()"
  "assertRecord demo_consumed = Inr ()"
  unfolding demo_consumed_def demo_verified_def demo_record_def assertRecord_def state_fields_def 
  by (simp_all add: demo_lower ACTIONS_def safe_int_def MAX_TTL_MS_def MAX_FAILURES_def)

lemma demo_write:
  assumes "assertRecord r = Inr ()" "sr_referenceDigest r = hex64 CHR ''4''" "d = [] \<or> d = demo_dir r'"
  shows "su_write demo_env demo_io r d = (Inr (), demo_dir r)"
  using assms by (auto simp: su_write_def bind_op_def demo_digest demo_io_def demo_dir_def Let_def)

lemma demo_read:
  assumes "assertRecord r = Inr ()" "sr_referenceDigest r = hex64 CHR ''4''"
  shows "su_read demo_env demo_io c (demo_dir r) = (Inr r, demo_dir r)"
  using assms demo_lower
  by (simp add: su_read_def bind_op_def demo_digest demo_io_def demo_dir_def open_envelope_def equalDigest_def
     )

lemma demo_match:
  assumes "sr_identityDigest r = sr_identityDigest demo_record" "sr_bindingDigest r = sr_bindingDigest demo_record"
    "sr_userDigest r = sr_userDigest demo_record" "sr_factorBinding r = sr_factorBinding demo_record"
    "sr_action r = sr_action demo_record" "sr_resourceKind r = sr_resourceKind demo_record"
    "sr_resourceDigest r = sr_resourceDigest demo_record" "sr_intentDigest r = sr_intentDigest demo_record"
    "sr_targetDigest r = sr_targetDigest demo_record"
  shows "assertIdentityMatch demo_env r (action_identity.truncate demo_binding) = Inr ()"
    "assertBindingMatch demo_env r demo_binding = Inr ()"
  using assms
  by (simp_all add: assertIdentityMatch_def assertBindingMatch_def demo_digest demo_record_def demo_binding_def
      action_identity.defs demo_lower)

lemma demo_live: "sr_createdAt r = 0 \<Longrightarrow> sr_expiresAt r = 1000 \<Longrightarrow> 0 \<le> now \<Longrightarrow> now < 1000 \<Longrightarrow> assertLive r now = Inr ()"
  by (simp add: assertLive_def su_clock_def safe_int_def)

lemma demo_issued: "issued_record demo_env demo_cfg 0 demo_c demo_binding = Inr demo_record"
  by (simp add: issued_record_def demo_digest demo_record_def demo_binding_def demo_cfg_def)

lemma demo_fields [simp]:
  "sr_state demo_record = Pending" "sr_failures demo_record = 0" "sr_expiresAt demo_record = 1000"
  "sr_createdAt demo_record = 0" "sr_referenceDigest demo_record = hex64 CHR ''4''"
  "sr_state demo_verified = Verified" "sr_expiresAt demo_verified = 1000" "sr_createdAt demo_verified = 0"
  "sr_referenceDigest demo_verified = hex64 CHR ''4''" "sr_permitDigest demo_verified = Some (hex64 CHR ''3'')"
  "sr_referenceDigest demo_consumed = hex64 CHR ''4''" "sr_createdAt demo_consumed = 0" "sr_expiresAt demo_consumed = 1000"
  "su_maxRecords demo_cfg = 8" "su_maxFailures demo_cfg = 3"
  "su_prepare demo_io = return_op ()" "pruneExpired demo_env demo_io clock [] = (Inr 0, [])"
  by (simp_all add: demo_record_def demo_verified_def demo_consumed_def demo_cfg_def demo_io_def su_prepare_def
      pruneExpired_def)

lemma demo_clock [simp]: "0 \<le> t \<Longrightarrow> t < 1000 \<Longrightarrow> su_clock t = Inr t"
  by (simp add: su_clock_def safe_int_def)

lemma demo_run_issue: "\<exists>y. su_exec demo_env demo_cfg demo_issue [] = (Challenged y, demo_dir demo_record)"
  using demo_write [of demo_record "[]"] demo_live [of demo_record 1]
  by (simp add: demo_issue_def su_issue_def bind_op_def demo_checks demo_issued demo_records)

lemma demo_run_verify:
  "\<exists>y. su_exec demo_env demo_cfg demo_verify (demo_dir demo_record) = (Granted y, demo_dir demo_verified)"
  using demo_write [of demo_verified "demo_dir demo_record" demo_record] demo_live [of demo_record]
    demo_match(1) [of demo_record] demo_read [of demo_record]
  by (simp add: demo_verify_def su_verify_def bind_op_def demo_checks demo_records demo_digest
      flip: demo_verified_def)

lemma demo_run_consume:
  "\<exists>y. su_exec demo_env demo_cfg demo_consume (demo_dir demo_verified) = (Received y, demo_dir demo_consumed)"
proof -
  have "assertBindingMatch demo_env demo_verified demo_binding = Inr ()"
    by (rule demo_match(2)) (simp_all add: demo_verified_def)
  then show ?thesis
    using demo_write [of demo_consumed "demo_dir demo_verified" demo_verified] demo_live [of demo_verified]
      demo_read [of demo_verified]
    by (simp add: demo_consume_def su_consume_def bind_op_def demo_checks demo_records demo_digest demo_lower
        flip: demo_consumed_def)
qed

lemma demo_hmac:
  "se_hmac demo_env k (domain_text ''reference'' v) = hex64 CHR ''4''"
  "se_hmac demo_env k (domain_text ''identity'' v) = hex64 CHR ''1''"
  "se_hmac demo_env k (domain_text ''binding'' v) = hex64 CHR ''2''"
  "se_hmac demo_env k (domain_text ''permit'' v) = hex64 CHR ''3''"
  by (simp_all add: demo_env_def domain_text_def)

lemma demo_inj:
  "inj_on (se_hmac demo_env k) (trace_texts [(demo_issue, x), (demo_verify, y), (demo_consume, z)])"
  by (auto simp: inj_on_def trace_texts_def demo_issue_def demo_verify_def demo_consume_def
      identityValues_truncate demo_hmac hex64_inj)

theorem step_up_authorised_witness:
  "\<exists>tr now. happened_then (issues demo_c demo_binding now)
      (proves demo_c (action_identity.truncate demo_binding) demo_p) tr \<and> 7 < now + su_ttlMs demo_cfg"
proof -
  obtain x y z where run:
    "su_exec demo_env demo_cfg demo_issue [] = (Challenged x, demo_dir demo_record)"
    "su_exec demo_env demo_cfg demo_verify (demo_dir demo_record) = (Granted y, demo_dir demo_verified)"
    "su_exec demo_env demo_cfg demo_consume (demo_dir demo_verified) = (Received z, demo_dir demo_consumed)"
    using demo_run_issue demo_run_verify demo_run_consume by blast
  let ?tr = "[(demo_issue, Challenged x), (demo_verify, Granted y)]"
  have reach: "su_reach demo_env demo_cfg ?tr (demo_dir demo_verified)"
    using su_reach.step [OF su_reach.step [OF su_reach.start run(1)] run(2)] by simp
  have "challenges ?tr = [demo_c]"
    by (simp add: challenges_def map_filter_def demo_issue_def demo_verify_def)
  then show ?thesis
    using step_up_authorised [OF reach run(3) [unfolded demo_consume_def]] demo_inj
    by (auto simp flip: demo_consume_def)
qed

end
