(* ===== verification/Web_Guards.thy ===== *)
theory Web_Guards
  imports Permissions Session_Manager Security Totp Json_Text Complex_Main
begin

text \<open>
  The SvelteKit adapter: the request hook, the composition of hooks and the CSRF hook of
  \<open>src/adapters/sveltekit/hook.ts\<close>, the route guards of \<open>guards.ts\<close>, the certificate guard of
  \<open>mtls.ts\<close> and the session cookies of \<open>session-cookies.ts\<close>.

  A handler is an operation on the state of the storage. What SvelteKit does after the hook
  (\<open>resolve\<close>) is an argument. Hooks write to \<open>event.locals\<close>; here they pass the changed event
  on, which is the only later reader. A thrown \<open>redirect\<close> or \<open>error\<close> of a guard is a value of
  the type \<open>guard_error\<close>.
\<close>

section \<open>Requests\<close>

record locals =
  lo_session :: "session option"
  lo_user :: "admin_user option"
  lo_clientIp :: "string option"
  lo_clientIpMasked :: "string option"
  lo_userAgent :: "string option"
  lo_mTLSCert :: "certificate_info option"

text \<open>
  Header names compare without case: \<open>ev_headers\<close> is keyed by lower-case names.
  \<open>ev_clientAddress\<close> is what \<open>getClientAddress\<close> answers, if there is one.
\<close>

record request_event =
  ev_method :: string
  ev_path :: string
  ev_headers :: "string jsmap"
  ev_cookies :: "string jsmap"
  ev_clientAddress :: "string option"
  ev_locals :: locals

definition header :: "request_event \<Rightarrow> string \<Rightarrow> string option" where
  "header event name = map_of (ev_headers event) (toLowerCase name)"

section \<open>Session cookies\<close>

datatype same_site = Strict | Lax | No_restriction

record cookie_config =
  co_sessionCookieName :: string
  co_authDataCookieName :: string
  co_secure :: bool
  co_path :: string
  co_sameSite :: same_site
  co_maxAge :: rat

text \<open>\<open>node_env\<close> is \<open>process.env.NODE_ENV\<close>.\<close>

definition DEFAULT_COOKIE_CONFIG :: "string option \<Rightarrow> cookie_config" where
  "DEFAULT_COOKIE_CONFIG node_env =
     \<lparr>co_sessionCookieName = ''sessionId'', co_authDataCookieName = ''authData'',
      co_secure = (node_env \<noteq> Some ''development'' \<and> node_env \<noteq> Some ''test''),
      co_path = ''/'', co_sameSite = Lax, co_maxAge = 60 * 60 * 24 * 7\<rparr>"

text \<open>\<open>Partial<CookieConfig>\<close> and its spread over the defaults.\<close>

record cookie_options =
  op_sessionCookieName :: "string option"
  op_authDataCookieName :: "string option"
  op_secure :: "bool option"
  op_path :: "string option"
  op_sameSite :: "same_site option"
  op_maxAge :: "rat option"

definition cookie_config_of :: "string option \<Rightarrow> cookie_options \<Rightarrow> cookie_config" where
  "cookie_config_of node_env config =
     (let d = DEFAULT_COOKIE_CONFIG node_env in
      \<lparr>co_sessionCookieName = nullish (op_sessionCookieName config) (co_sessionCookieName d),
       co_authDataCookieName = nullish (op_authDataCookieName config) (co_authDataCookieName d),
       co_secure = nullish (op_secure config) (co_secure d),
       co_path = nullish (op_path config) (co_path d),
       co_sameSite = nullish (op_sameSite config) (co_sameSite d),
       co_maxAge = nullish (op_maxAge config) (co_maxAge d)\<rparr>)"

text \<open>What the response does to the cookies of the browser, in order.\<close>

record cookie =
  wc_name :: string
  wc_value :: string
  wc_path :: string
  wc_httpOnly :: bool
  wc_secure :: bool
  wc_sameSite :: same_site
  wc_maxAge :: rat

datatype cookie_change = Set_cookie cookie | Delete_cookie string string

definition setSessionCookie ::
  "string option \<Rightarrow> string \<Rightarrow> cookie_options \<Rightarrow> cookie_change list \<Rightarrow> cookie_change list" where
  "setSessionCookie node_env sessionId config cookies =
     (let cfg = cookie_config_of node_env config in
      cookies @ [Set_cookie
        \<lparr>wc_name = co_sessionCookieName cfg, wc_value = sessionId, wc_path = co_path cfg, wc_httpOnly = True,
         wc_secure = co_secure cfg, wc_sameSite = co_sameSite cfg, wc_maxAge = co_maxAge cfg\<rparr>])"

text \<open>
  \<open>user_json\<close> is the text \<open>JSON.stringify\<close> gives for the session's user, whose keys stand in the
  order of the object, \<open>None\<close> when the session has none; \<open>expires\<close> is the text of the field.
\<close>

definition auth_data_json :: "string \<Rightarrow> string option \<Rightarrow> string \<Rightarrow> string" where
  "auth_data_json sessionId user_json expires =
     ''{'' @ json_string ''sessionId'' @ '':'' @ json_string sessionId
     @ (case user_json of None \<Rightarrow> [] | Some u \<Rightarrow> '','' @ json_string ''user'' @ '':'' @ u)
     @ '','' @ json_string ''expires'' @ '':'' @ json_string expires @ ''}''"

definition setAuthDataCookie ::
  "string option \<Rightarrow> (session_user \<Rightarrow> string) \<Rightarrow> (stamp \<Rightarrow> string) \<Rightarrow> session \<Rightarrow> cookie_options
     \<Rightarrow> cookie_change list \<Rightarrow> cookie_change list" where
  "setAuthDataCookie node_env user_json stamp_text session config cookies =
     (let cfg = cookie_config_of node_env config;
          authData = auth_data_json (s_id session) (map_option user_json (s_user session))
                       (stamp_text (s_expires session))
      in cookies @ [Set_cookie
        \<lparr>wc_name = co_authDataCookieName cfg, wc_value = authData, wc_path = co_path cfg, wc_httpOnly = False,
         wc_secure = co_secure cfg, wc_sameSite = Lax, wc_maxAge = co_maxAge cfg\<rparr>])"

definition clearSessionCookies ::
  "string option \<Rightarrow> cookie_options \<Rightarrow> cookie_change list \<Rightarrow> cookie_change list" where
  "clearSessionCookies node_env config cookies =
     (let cfg = cookie_config_of node_env config in
      cookies @ [Delete_cookie (co_sessionCookieName cfg) (co_path cfg),
                 Delete_cookie (co_authDataCookieName cfg) (co_path cfg),
                 Delete_cookie ''admin_totp_handle'' ''/admin''])"

definition getSessionIdFromCookies :: "request_event \<Rightarrow> string option \<Rightarrow> string option" where
  "getSessionIdFromCookies event cookieName =
     map_of (ev_cookies event) (nullish cookieName (co_sessionCookieName (DEFAULT_COOKIE_CONFIG None)))"

definition sessionConfigToCookieConfig :: "string \<Rightarrow> bool \<Rightarrow> same_site \<Rightarrow> session_config \<Rightarrow> cookie_config" where
  "sessionConfigToCookieConfig cookieName secureCookie sameSite sessionConfig =
     \<lparr>co_sessionCookieName = cookieName, co_authDataCookieName = ''authData'', co_secure = secureCookie,
      co_path = ''/'', co_sameSite = sameSite, co_maxAge = of_int (cfg_maxAge sessionConfig) / 1000\<rparr>"

section \<open>The hook\<close>

definition getClientIp :: "request_event \<Rightarrow> string" where
  "getClientIp event =
     (let forwardedFor = header event ''x-forwarded-for'';
          ips = (if truthy forwardedFor then map js_trim (js_split (CHR '','') (the forwardedFor)) else [])
      in if ips \<noteq> [] \<and> hd ips \<noteq> [] then hd ips
         else if truthy (header event ''x-real-ip'') then the (header event ''x-real-ip'')
         else if truthy (header event ''cf-connecting-ip'') then the (header event ''cf-connecting-ip'')
         else str_or (ev_clientAddress event) ''0.0.0.0'')"

text \<open>
  The clock readings of one request: the storage's and the service's for the lookup, the one of
  \<open>shouldRenewSession\<close>, and the three of a refresh.
\<close>

record request_clock =
  rc_lookup :: int
  rc_expiry :: int
  rc_renew :: int
  rc_refresh_lookup :: int
  rc_refresh_expiry :: int
  rc_refresh :: int

record 's auth_handle_config =
  ah_storage :: "'s session_ops"
  ah_session :: session_config
  ah_cookieName :: string
  ah_loadUser :: "(string \<Rightarrow> ('s, admin_user option) op) option"
  ah_skipRoutes :: "string list option"
  ah_sha256 :: "string \<Rightarrow> string"

definition skipped :: "string list \<Rightarrow> string \<Rightarrow> bool" where
  "skipped routes path = list_ex (\<lambda>route. startsWith path route) routes"

text \<open>The session and the user of a request, as \<open>createAuthHandle\<close> finds them.\<close>

definition identify ::
  "'s auth_handle_config \<Rightarrow> request_clock \<Rightarrow> string option
     \<Rightarrow> ('s, session option \<times> admin_user option) op" where
  "identify cfg clock sessionId =
     (if \<not> truthy sessionId then return_op (None, None)
      else bind_op (sm_getSession (ah_storage cfg) (rc_lookup clock) (rc_expiry clock) (the sessionId)) (\<lambda>found.
        case found of
          None \<Rightarrow> return_op (None, None)
        | Some session \<Rightarrow>
            bind_op (case ah_loadUser cfg of
                       None \<Rightarrow> return_op None
                     | Some loadUser \<Rightarrow>
                         if s_userId session \<noteq> [] then loadUser (s_userId session) else return_op None) (\<lambda>user.
            if sm_shouldRenewSession (ah_session cfg) (rc_renew clock) session
            then bind_op (sm_refreshSession (ah_storage cfg) (ah_session cfg) (rc_refresh_lookup clock)
                           (rc_refresh_expiry clock) (rc_refresh clock) (the sessionId))
                   (\<lambda>session. return_op (session, user))
            else return_op (Some session, user))))"

type_synonym ('s, 'r) hook = "request_event \<Rightarrow> (request_event \<Rightarrow> ('s, 'r) op) \<Rightarrow> ('s, 'r) op"

definition identified ::
  "(string \<Rightarrow> string) \<Rightarrow> session option \<Rightarrow> admin_user option \<Rightarrow> request_event \<Rightarrow> request_event" where
  "identified sha256 session user event =
     event\<lparr>ev_locals := (ev_locals event)
       \<lparr>lo_session := session, lo_user := user,
        lo_clientIp := Some (hashIp sha256 (getClientIp event) None),
        lo_clientIpMasked := Some (maskIp (getClientIp event)),
        lo_userAgent := Some (str_or (header event ''user-agent'') ''unknown'')\<rparr>\<rparr>"

definition createAuthHandle :: "'s auth_handle_config \<Rightarrow> request_clock \<Rightarrow> ('s, 'r) hook" where
  "createAuthHandle cfg clock event resolve =
     (if skipped (nullish (ah_skipRoutes cfg) [''/api/health'', ''/favicon.ico'']) (ev_path event)
      then resolve event
      else bind_op (identify cfg clock (getSessionIdFromCookies event (Some (ah_cookieName cfg))))
             (\<lambda>(session, user). resolve (identified (ah_sha256 cfg) session user event)))"

text \<open>\<open>sequence(h1, ..., hn)\<close> wraps \<open>resolve\<close> from the last handle to the first.\<close>

definition sequence :: "('s, 'r) hook list \<Rightarrow> ('s, 'r) hook" where
  "sequence handles event resolve = foldr (\<lambda>handle next e. handle e next) handles resolve event"

lemma sequence_simps [simp]:
  "sequence [] event resolve = resolve event"
  "sequence (handle # handles) event resolve = handle event (\<lambda>e. sequence handles e resolve)"
  by (simp_all add: sequence_def)

lemma sequence_append: "sequence (hs @ ks) event resolve = sequence hs event (\<lambda>e. sequence ks e resolve)"
  by (induction hs arbitrary: event) simp_all

record csrf_config =
  cs_tokenHeader :: "string option"
  cs_tokenCookie :: "string option"
  cs_skipMethods :: "string list option"
  cs_skipRoutes :: "string list option"

definition csrf_skips :: "csrf_config \<Rightarrow> request_event \<Rightarrow> bool" where
  "csrf_skips cfg event \<longleftrightarrow>
     ev_method event \<in> set (nullish (cs_skipMethods cfg) [''GET'', ''HEAD'', ''OPTIONS''])
     \<or> skipped (nullish (cs_skipRoutes cfg) []) (ev_path event)"

text \<open>\<open>forbidden\<close> is the response with status 403.\<close>

definition createCSRFHandle :: "csrf_config \<Rightarrow> 'r \<Rightarrow> ('s, 'r) hook" where
  "createCSRFHandle cfg forbidden event resolve =
     (if csrf_skips cfg event then resolve event
      else let headerToken = header event (nullish (cs_tokenHeader cfg) ''x-csrf-token'');
               cookieToken = map_of (ev_cookies event) (nullish (cs_tokenCookie cfg) ''csrf_token'')
           in if \<not> truthy headerToken \<or> \<not> truthy cookieToken \<or> headerToken \<noteq> cookieToken
              then return_op forbidden
              else resolve event)"

section \<open>The guards\<close>

datatype guard_error = Redirect int string | Http_error int string

record guard_options =
  go_loginUrl :: "string option"
  go_returnUrl :: "string option"
  go_errorMessage :: "string option"

definition no_guard_options :: guard_options where
  "no_guard_options = \<lparr>go_loginUrl = None, go_returnUrl = None, go_errorMessage = None\<rparr>"

definition requireAuth ::
  "locals \<Rightarrow> guard_options \<Rightarrow> guard_error + (session \<times> admin_user option)" where
  "requireAuth locals options =
     (case lo_session locals of
        None \<Rightarrow>
          let loginUrl = str_or (go_loginUrl options) ''/admin/login'';
              returnUrl = (if truthy (go_returnUrl options)
                           then ''?returnUrl='' @ encodeURIComponent (the (go_returnUrl options)) else [])
          in Inl (Redirect 303 (loginUrl @ returnUrl))
      | Some session \<Rightarrow> Inr (session, lo_user locals))"

text \<open>\<open>!userRole || !hasEqualOrHigherRole(userRole, requiredRole)\<close>, negated.\<close>

definition session_role_ok :: "session \<Rightarrow> string \<Rightarrow> bool" where
  "session_role_ok session requiredRole \<longleftrightarrow>
     (case s_user session of
        None \<Rightarrow> False
      | Some u \<Rightarrow> truthy (su_role u) \<and> hasEqualOrHigherRole (the (su_role u)) requiredRole)"

definition user_may :: "locals \<Rightarrow> string \<Rightarrow> bool" where
  "user_may locals permission \<longleftrightarrow>
     (case lo_user locals of None \<Rightarrow> False | Some user \<Rightarrow> hasPermission user permission)"

definition role_message :: "string \<Rightarrow> string" where
  "role_message requiredRole = ''Role '' @ requiredRole @ '' or higher required''"

definition permission_message :: "string \<Rightarrow> string" where
  "permission_message permission = ''Permission '' @ permission @ '' required''"

definition requireRole ::
  "locals \<Rightarrow> string \<Rightarrow> guard_options \<Rightarrow> guard_error + (session \<times> admin_user option)" where
  "requireRole locals requiredRole options =
     (case requireAuth locals options of
        Inl e \<Rightarrow> Inl e
      | Inr (session, user) \<Rightarrow>
          if \<not> session_role_ok session requiredRole
          then Inl (Http_error 403 (str_or (go_errorMessage options) (role_message requiredRole)))
          else Inr (session, user))"

definition guard_requirePermission ::
  "locals \<Rightarrow> string \<Rightarrow> guard_options \<Rightarrow> guard_error + (session \<times> admin_user option)" where
  "guard_requirePermission locals permission options =
     (case requireAuth locals options of
        Inl e \<Rightarrow> Inl e
      | Inr (session, _) \<Rightarrow>
          if \<not> user_may locals permission
          then Inl (Http_error 403 (str_or (go_errorMessage options) (permission_message permission)))
          else Inr (session, lo_user locals))"

text \<open>\<open>{ loginUrl: '/admin/login', ...options }\<close>: an option given as \<open>undefined\<close> falls to the same default.\<close>

definition adminGuard ::
  "locals \<Rightarrow> guard_options \<Rightarrow> guard_error + (session \<times> admin_user option)" where
  "adminGuard locals options =
     requireAuth locals (options\<lparr>go_loginUrl := Some (nullish (go_loginUrl options) ''/admin/login'')\<rparr>)"

definition canManageTargetRole :: "locals \<Rightarrow> string \<Rightarrow> bool" where
  "canManageTargetRole locals targetRole =
     (case Option.bind (lo_session locals) s_user of
        None \<Rightarrow> False
      | Some u \<Rightarrow> truthy (su_role u) \<and> canManageRole (the (su_role u)) targetRole)"

record check_options =
  ck_requiredRole :: "string option"
  ck_requiredPermission :: "string option"
  ck_loginUrl :: "string option"

record guard_result =
  gr_allowed :: bool
  gr_session :: "session option"
  gr_user :: "admin_user option"
  gr_redirectUrl :: "string option"
  gr_error :: "string option"

definition checkAuth :: "locals \<Rightarrow> check_options \<Rightarrow> guard_result" where
  "checkAuth locals options =
     (case lo_session locals of
        None \<Rightarrow> \<lparr>gr_allowed = False, gr_session = None, gr_user = None,
                 gr_redirectUrl = Some (str_or (ck_loginUrl options) ''/admin/login''),
                 gr_error = Some ''Authentication required''\<rparr>
      | Some session \<Rightarrow>
          if truthy (ck_requiredRole options) \<and> \<not> session_role_ok session (the (ck_requiredRole options))
          then \<lparr>gr_allowed = False, gr_session = Some session, gr_user = None, gr_redirectUrl = None,
                gr_error = Some (role_message (the (ck_requiredRole options)))\<rparr>
          else if truthy (ck_requiredPermission options)
                  \<and> \<not> user_may locals (the (ck_requiredPermission options))
          then \<lparr>gr_allowed = False, gr_session = Some session, gr_user = None, gr_redirectUrl = None,
                gr_error = Some (permission_message (the (ck_requiredPermission options)))\<rparr>
          else \<lparr>gr_allowed = True, gr_session = Some session, gr_user = lo_user locals,
                gr_redirectUrl = None, gr_error = None\<rparr>)"

definition protectEndpoint ::
  "request_event \<Rightarrow> check_options \<Rightarrow> guard_error + (session \<times> admin_user option)" where
  "protectEndpoint event options =
     (case lo_session (ev_locals event) of
        None \<Rightarrow> Inl (Http_error 401 ''Authentication required'')
      | Some session \<Rightarrow>
          if truthy (ck_requiredRole options) \<and> \<not> session_role_ok session (the (ck_requiredRole options))
          then Inl (Http_error 403 (role_message (the (ck_requiredRole options))))
          else if truthy (ck_requiredPermission options)
                  \<and> \<not> user_may (ev_locals event) (the (ck_requiredPermission options))
          then Inl (Http_error 403 (permission_message (the (ck_requiredPermission options))))
          else Inr (session, lo_user (ev_locals event)))"

section \<open>The certificate guard\<close>

text \<open>\<open>headers.get(a) || headers.get(b) || undefined\<close>.\<close>

fun first_header :: "request_event \<Rightarrow> string list \<Rightarrow> string option" where
  "first_header event [] = None"
| "first_header event (name # names) =
     (if truthy (header event name) then header event name else first_header event names)"

definition extractHeadersFromEvent :: "request_event \<Rightarrow> certificate_headers" where
  "extractHeadersFromEvent event =
     \<lparr>ch_clientCert = first_header event [''X-SSL-Client-Cert'', ''X-Client-Cert'', ''X-Forwarded-Client-Cert''],
      ch_clientSubject = first_header event [''X-SSL-Client-S-DN'', ''X-Client-DN''],
      ch_clientVerify = first_header event [''X-SSL-Client-Verify'', ''X-Client-Verified''],
      ch_clientIssuer = first_header event [''X-SSL-Client-I-DN'']\<rparr>"

definition extractCertificateFromEvent ::
  "(string \<Rightarrow> string) \<Rightarrow> int \<Rightarrow> int \<Rightarrow> request_event \<Rightarrow> string set option \<Rightarrow> certificate_info result" where
  "extractCertificateFromEvent sha256 now now' event validFingerprints =
     extractCertificate sha256 now now' (extractHeadersFromEvent event) validFingerprints"

text \<open>The answer and the event, whose locals carry the certificate of an admitted request.\<close>

definition requireMTLS ::
  "(string \<Rightarrow> string) \<Rightarrow> int \<Rightarrow> int \<Rightarrow> request_event \<Rightarrow> string set option \<Rightarrow> (bool \<times> request_event) result" where
  "requireMTLS sha256 now now' event validFingerprints =
     (case extractCertificateFromEvent sha256 now now' event validFingerprints of
        Inl e \<Rightarrow> Inl e
      | Inr certInfo \<Rightarrow>
          Inr (if \<not> ci_isValid certInfo then (False, event)
               else (True, event\<lparr>ev_locals := (ev_locals event)\<lparr>lo_mTLSCert := Some certInfo\<rparr>\<rparr>)))"

definition getCertificateFingerprintFromEvent ::
  "(string \<Rightarrow> string) \<Rightarrow> int \<Rightarrow> int \<Rightarrow> request_event \<Rightarrow> string set option \<Rightarrow> string option result" where
  "getCertificateFingerprintFromEvent sha256 now now' event validFingerprints =
     getCertificateFingerprint sha256 now now' (extractHeadersFromEvent event) validFingerprints"

end
