(* ===== verification/Web_Guarantees.thy ===== *)
theory Web_Guarantees
  imports Web_Guards File_Storage
begin

text \<open>
  What the request hook and the guards promise: the four ways of guarding a route decide alike, and
  a request that reaches a protected endpoint carries a session that the storage holds.
\<close>

section \<open>The guards\<close>

text \<open>
  The guards decide alike: the value \<open>checkAuth\<close> allows exactly the requests that
  \<open>protectEndpoint\<close> lets through, with the same session and user, and these are the requests
  that \<open>requireAuth\<close>, \<open>requireRole\<close> for a required role and \<open>requirePermission\<close> for a required
  permission all let through; a request without a session is refused by every one of them.
\<close>
theorem guards_agree:
  "(gr_allowed (checkAuth (ev_locals event) options) \<longleftrightarrow>
      protectEndpoint event options = Inr (the (lo_session (ev_locals event)), lo_user (ev_locals event)))
   \<and> (gr_allowed (checkAuth (ev_locals event) options) \<longleftrightarrow> \<not> isl (protectEndpoint event options))
   \<and> (gr_allowed (checkAuth (ev_locals event) options) \<longleftrightarrow>
        \<not> isl (requireAuth (ev_locals event) g)
        \<and> (if truthy (ck_requiredRole options)
             then \<not> isl (requireRole (ev_locals event) (the (ck_requiredRole options)) g) else True)
        \<and> (if truthy (ck_requiredPermission options)
             then \<not> isl (guard_requirePermission (ev_locals event) (the (ck_requiredPermission options)) g)
             else True))"
  by (auto simp: checkAuth_def protectEndpoint_def requireAuth_def requireRole_def guard_requirePermission_def
      Let_def split: option.splits)

lemma session_role_ok_cong: "s_user x = s_user y \<Longrightarrow> session_role_ok x r = session_role_ok y r"
  by (simp add: session_role_ok_def)

section \<open>The hook\<close>

context session_storage
begin

text \<open>What the hook finds for a request whose user is loaded by a reader of the state.\<close>

lemma identify_session:
  assumes inv: "inv s" and storage: "ah_storage cfg = st"
    and reader: "\<And>f uid s. ah_loadUser cfg = Some f \<Longrightarrow> f uid s = (Inr (look uid s), s)"
  shows "\<exists>session user s'. identify cfg clock sid s = (Inr (session, user), s') \<and> inv s'
     \<and> (case session of None \<Rightarrow> True
        | Some y \<Rightarrow> \<exists>i x. sid = Some i \<and> view s i = Some x \<and> \<not> before (s_expires x) (rc_expiry clock)
            \<and> view s' i = Some y \<and> s_id y = i \<and> s_userId y = s_userId x \<and> s_user y = s_user x
            \<and> user = (if ah_loadUser cfg = None \<or> s_userId x = [] then None else look (s_userId x) s))"
proof (cases "truthy sid")
  case False
  then show ?thesis using inv by (simp add: identify_def)
next
  case True
  then obtain i where sid: "sid = Some i" by (cases sid) (auto simp: truthy_def)
  show ?thesis
  proof (cases rule: getSession_cases [OF inv, of "rc_lookup clock" "rc_expiry clock" i])
    case (2 s')
    then show ?thesis using True sid storage by (simp add: identify_def bind_op_def)
  next
    case (1 x)
    obtain u where load: "(case ah_loadUser cfg of None \<Rightarrow> return_op None
         | Some loadUser \<Rightarrow> if s_userId x \<noteq> [] then loadUser (s_userId x) else return_op None) s = (Inr u, s)"
      and u: "u = (if ah_loadUser cfg = None \<or> s_userId x = [] then None else look (s_userId x) s)"
      using reader by (cases "ah_loadUser cfg") auto
    show ?thesis
    proof (cases "sm_shouldRenewSession (ah_session cfg) (rc_renew clock) x")
      case False
      then show ?thesis using True sid storage 1 load u inv
        by (simp add: identify_def bind_op_def)
    next
      case renew: True
      obtain r s' where ref: "sm_refreshSession st (ah_session cfg) (rc_refresh_lookup clock)
            (rc_refresh_expiry clock) (rc_refresh clock) i s = (Inr r, s')" "inv s'"
          "case r of None \<Rightarrow> True | Some y \<Rightarrow> (\<exists>x. view s i = Some x
              \<and> y = apply_session_patch (refresh_patch (ah_session cfg) (rc_refresh clock)) x) \<and> view s' i = Some y"
        using refreshSession_result [OF inv, of "ah_session cfg" "rc_refresh_lookup clock"
            "rc_refresh_expiry clock" "rc_refresh clock" i] by (force split: option.splits)
      then show ?thesis using True sid storage 1 load u renew
        by (cases r) (auto simp: identify_def bind_op_def refresh_patch_def no_session_patch_def)
    qed
  qed
qed

end

lemma protectEndpoint_Inr:
  "protectEndpoint event options = Inr (y, u) \<Longrightarrow>
     lo_session (ev_locals event) = Some y \<and> lo_user (ev_locals event) = u
     \<and> (\<forall>r. ck_requiredRole options = Some r \<longrightarrow> r = [] \<or> session_role_ok y r)
     \<and> (\<forall>p. ck_requiredPermission options = Some p \<longrightarrow> p = [] \<or> (\<exists>user. u = Some user \<and> hasPermission user p))"
  by (auto simp: protectEndpoint_def truthy_def user_may_def split: option.splits if_splits)

text \<open>
  C2. A request that gets past the hook and \<open>protectEndpoint\<close> on the file storage named in its cookie
  a stored session that had not expired; the session the endpoint sees is that session, perhaps with a
  later expiry, and is still stored. A required permission is held by the account as it is stored at
  that moment, a required role by the role the session was created with or last given.
\<close>
theorem admitted_request:
  assumes "file_sessions_ok f" "ah_storage cfg = file_sessions maxAge" "ah_loadUser cfg = Some file_getUser"
    and "lo_session (ev_locals event) = None"
    and "createAuthHandle cfg clock event (\<lambda>e. return_op (protectEndpoint e options)) f = (Inr (Inr (y, u)), f')"
  shows "\<exists>i x. map_of (ev_cookies event) (ah_cookieName cfg) = Some i \<and> file_view f i = Some x
     \<and> \<not> before (s_expires x) (rc_expiry clock) \<and> file_view f' i = Some y
     \<and> s_id y = i \<and> s_userId y = s_userId x \<and> s_user y = s_user x
     \<and> (truthy (ck_requiredPermission options) \<longrightarrow>
          (\<exists>user. List.find (\<lambda>v. u_id v = s_userId x) (f_users f) = Some user \<and> u = Some user
             \<and> hasPermission user (the (ck_requiredPermission options))))
     \<and> (truthy (ck_requiredRole options) \<longrightarrow> session_role_ok x (the (ck_requiredRole options)))"
proof -
  let ?sid = "map_of (ev_cookies event) (ah_cookieName cfg)"
  obtain session user g where id: "identify cfg clock ?sid f = (Inr (session, user), g)"
    and found: "case session of None \<Rightarrow> True
        | Some y \<Rightarrow> \<exists>i x. ?sid = Some i \<and> file_view f i = Some x \<and> \<not> before (s_expires x) (rc_expiry clock)
            \<and> file_view g i = Some y \<and> s_id y = i \<and> s_userId y = s_userId x \<and> s_user y = s_user x
            \<and> user = (if ah_loadUser cfg = None \<or> s_userId x = [] then None
                      else List.find (\<lambda>v. u_id v = s_userId x) (f_users f))"
    using fstore.identify_session [OF assms(1,2), of "\<lambda>uid f. List.find (\<lambda>v. u_id v = uid) (f_users f)" clock ?sid]
      assms(3) by (auto simp: file_getUser_def)
  have cookie: "getSessionIdFromCookies event (Some (ah_cookieName cfg)) = ?sid"
    by (simp add: getSessionIdFromCookies_def)
  have run: "protectEndpoint (identified (ah_sha256 cfg) session user event) options = Inr (y, u) \<and> g = f'"
    using assms(4,5) id protectEndpoint_Inr [of event options y u]
    by (auto simp: createAuthHandle_def cookie bind_op_def split: if_splits)
  note admitted = protectEndpoint_Inr [OF conjunct1 [OF run]]
  have y: "session = Some y" "user = u" using admitted by (simp_all add: identified_def)
  then obtain i x where "?sid = Some i" "file_view f i = Some x" "\<not> before (s_expires x) (rc_expiry clock)"
      "file_view f' i = Some y" "s_id y = i" "s_userId y = s_userId x" "s_user y = s_user x"
      "u = (if s_userId x = [] then None else List.find (\<lambda>v. u_id v = s_userId x) (f_users f))"
    using found run assms(3) by auto
  then show ?thesis using admitted session_role_ok_cong [of y x] y
    by (intro exI [of _ i] exI [of _ x]) (auto simp: truthy_def split: option.splits if_splits)
qed

subsection \<open>A request\<close>

definition demo_files :: "admin_user \<Rightarrow> files" where
  "demo_files user = empty_files\<lparr>f_users := [user], f_sessions := [example_session ''a'' (u_id user) 1 100]\<rparr>"

definition demo_handle :: "files auth_handle_config" where
  "demo_handle =
     \<lparr>ah_storage = file_sessions 1000,
      ah_session = \<lparr>sessionStrategy = None, cfg_maxAge = 1000, cfg_renewThreshold = 0, cfg_maxConcurrentSessions = 1\<rparr>,
      ah_cookieName = ''sessionId'', ah_loadUser = Some file_getUser, ah_skipRoutes = None,
      ah_sha256 = (\<lambda>s. s)\<rparr>"

definition demo_clock :: request_clock where
  "demo_clock = \<lparr>rc_lookup = 50, rc_expiry = 50, rc_renew = 50, rc_refresh_lookup = 50, rc_refresh_expiry = 50,
     rc_refresh = 50\<rparr>"

definition demo_event :: request_event where
  "demo_event =
     \<lparr>ev_method = ''POST'', ev_path = ''/admin'', ev_headers = [], ev_cookies = [(''sessionId'', ''a'')],
      ev_clientAddress = Some ''10.0.0.1'',
      ev_locals = \<lparr>lo_session = None, lo_user = None, lo_clientIp = None, lo_clientIpMasked = None,
        lo_userAgent = None, lo_mTLSCert = None\<rparr>\<rparr>"

definition demo_options :: check_options where
  "demo_options = \<lparr>ck_requiredRole = None, ck_requiredPermission = Some ''admin.access'', ck_loginUrl = None\<rparr>"

definition locked_user :: admin_user where
  "locked_user = (example_user ''u'' ''ann'' ''editor'')\<lparr>u_isActive := False, u_isLocked := Some True\<rparr>"

lemma demo_sessions_ok: "u_id user = ''u'' \<Longrightarrow> file_sessions_ok (demo_files user)"
proof -
  have "assertStoredSessions [example_session ''a'' ''u'' 1 100] = Inr ()" by code_simp
  then show "u_id user = ''u'' \<Longrightarrow> file_sessions_ok (demo_files user)"
    by (simp add: file_sessions_ok_def demo_files_def assertStoredSessions_iff [symmetric])
qed

lemma demo_identify:
  assumes "u_id user = ''u''"
  shows "identify demo_handle demo_clock (Some ''a'') (demo_files user)
     = (Inr (Some (example_session ''a'' ''u'' 1 100), Some user), demo_files user)"
proof -
  have "file_getSession ''a'' (demo_files user) = (Inr (Some (example_session ''a'' ''u'' 1 100)), demo_files user)"
    using file_readSessions_ok [OF demo_sessions_ok [OF assms]] assms
    by (simp add: file_getSession_def file_getAllSessions_def bind_op_def demo_files_def example_session_def)
  then show ?thesis
    using assms
    by (simp add: identify_def truthy_def demo_handle_def demo_clock_def sm_getSession_def file_sessions_def
        example_session_def bind_op_def file_getUser_def sm_shouldRenewSession_def)
      (simp add: demo_files_def)
qed

lemma demo_admitted:
  assumes "u_id user = ''u''" "hasPermission user ''admin.access''"
  shows "createAuthHandle demo_handle demo_clock demo_event (\<lambda>e. return_op (protectEndpoint e demo_options))
      (demo_files user) = (Inr (Inr (example_session ''a'' ''u'' 1 100, Some user)), demo_files user)"
proof -
  have "\<not> skipped [''/api/health'', ''/favicon.ico''] ''/admin''" by code_simp
  then show ?thesis
    using demo_identify [OF assms(1)] assms(2)
    by (simp add: createAuthHandle_def demo_event_def getSessionIdFromCookies_def bind_op_def protectEndpoint_def
        identified_def demo_options_def truthy_def user_may_def)
      (simp add: demo_handle_def)
qed

theorem admitted_request_witness:
  "\<exists>user. List.find (\<lambda>v. u_id v = ''u'') (f_users (demo_files locked_user)) = Some user
     \<and> hasPermission user ''admin.access''"
proof -
  have user: "u_id locked_user = ''u''" "hasPermission locked_user ''admin.access''" by code_simp+
  have "ah_storage demo_handle = file_sessions 1000" "ah_loadUser demo_handle = Some file_getUser"
      "lo_session (ev_locals demo_event) = None"
    by (simp_all add: demo_handle_def demo_event_def)
  from admitted_request [OF demo_sessions_ok [OF user(1)] this demo_admitted [OF user]]
  show ?thesis by (auto simp: demo_options_def example_session_def truthy_def)
qed

text \<open>Neither the hook nor a guard looks at \<open>isActive\<close> or \<open>isLocked\<close>: an open session outlives both.\<close>

lemma locked_account_admitted:
  "createAuthHandle demo_handle demo_clock demo_event (\<lambda>e. return_op (protectEndpoint e demo_options))
      (demo_files locked_user) = (Inr (Inr (example_session ''a'' ''u'' 1 100, Some locked_user)), demo_files locked_user)
   \<and> \<not> u_isActive locked_user \<and> u_isLocked locked_user = Some True"
proof -
  have user: "u_id locked_user = ''u''" "hasPermission locked_user ''admin.access''" by code_simp+
  show ?thesis using demo_admitted [OF user] by (simp add: locked_user_def)
qed

end
