(* ===== verification/Csrf_Store.thy ===== *)
theory Csrf_Store
  imports Security "HOL-Library.Word"
begin

text \<open>
  The CSRF token store of the browser, \<open>src/adapters/sveltekit/stores/csrf.svelte.ts\<close>.

  The store is a Svelte rune: \<open>isValid\<close>, \<open>isExpiringSoon\<close> and \<open>timeUntilExpiry\<close> are \<open>$derived\<close>
  values. Svelte computes such a value when it is read and keeps it until one of the state
  fields it read changes; the clock is not one of them. A derived value is therefore a field of
  the model, empty until the next read. Cookies, the answers of the token endpoint and the
  readings of the clock are arguments.
\<close>

unbundle bit_operations_syntax

section \<open>State\<close>

record csrf_store_config =
  cg_headerName :: string
  cg_cookieName :: string
  cg_tokenLifetimeMs :: int
  cg_refreshThresholdMs :: int
  cg_tokenEndpoint :: string

definition DEFAULT_CSRF_CONFIG :: csrf_store_config where
  "DEFAULT_CSRF_CONFIG =
     \<lparr>cg_headerName = ''x-csrf-token'', cg_cookieName = ''csrf_token'',
      cg_tokenLifetimeMs = 24 * 60 * 60 * 1000, cg_refreshThresholdMs = 30 * 60 * 1000,
      cg_tokenEndpoint = ''/api/csrf-token''\<rparr>"

record csrf_state =
  ct_token :: "string option"
  ct_tokenHash :: "string option"
  ct_issuedAt :: "int option"
  ct_expiresAt :: "int option"
  ct_role :: "string option"

text \<open>The state with the derived values computed since it last changed.\<close>

record csrf_store =
  cx_state :: csrf_state
  cx_isValid :: "bool option"
  cx_isExpiringSoon :: "bool option"
  cx_timeUntilExpiry :: "int option option"

definition empty_csrf_state :: csrf_state where
  "empty_csrf_state =
     \<lparr>ct_token = None, ct_tokenHash = None, ct_issuedAt = None, ct_expiresAt = None, ct_role = None\<rparr>"

text \<open>An assignment \<open>state = s\<close> drops every derived value.\<close>

definition assign_state :: "csrf_state \<Rightarrow> csrf_store" where
  "assign_state s = \<lparr>cx_state = s, cx_isValid = None, cx_isExpiringSoon = None, cx_timeUntilExpiry = None\<rparr>"

definition createCSRFStore :: csrf_store where
  "createCSRFStore = assign_state empty_csrf_state"

section \<open>The token hash\<close>

text \<open>
  \<open>hash << 5\<close> and \<open>hash & hash\<close> are taken modulo \<open>2 ^ 32\<close>; the difference and the sum between
  them are exact, so the whole step is arithmetic on 32-bit words.
\<close>

definition hash_step :: "32 word \<Rightarrow> char \<Rightarrow> 32 word" where
  "hash_step hash ch = (push_bit 5 hash - hash) + of_nat (of_char ch)"

fun show_hex :: "nat \<Rightarrow> string" where
  "show_hex n = (if n < 16 then [hex_digit n] else show_hex (n div 16) @ [hex_digit (n mod 16)])"

declare show_hex.simps [simp del]

definition hashToken :: "string \<Rightarrow> string" where
  "hashToken token =
     (let h = sint (foldl hash_step 0 token)
      in if h < 0 then CHR ''-'' # show_hex (nat (- h)) else show_hex (nat h))"

lemma hash_step_times: "hash_step h ch = 31 * h + of_nat (of_char ch)"
  by (simp add: hash_step_def push_bit_eq_mult)

text \<open>The hash is the polynomial of the character codes at 31, in the signed range of 32 bits.\<close>

fun horner :: "nat list \<Rightarrow> nat" where
  "horner [] = 0"
| "horner (c # cs) = c * 31 ^ length cs + horner cs"

lemma foldl_hash: "foldl hash_step h token
    = h * 31 ^ length token + of_nat (horner (map of_char token))"
  by (induction token arbitrary: h) (simp_all add: hash_step_times algebra_simps)

lemma hash_polynomial: "unat (foldl hash_step 0 token) = horner (map of_char token) mod 2 ^ 32"
  by (simp add: foldl_hash unat_of_nat)

lemma hash_bounds: "- (2 ^ 31) \<le> sint (foldl hash_step 0 token) \<and> sint (foldl hash_step 0 token) < 2 ^ 31"
  using sint_ge [of "foldl hash_step 0 token"] sint_lt [of "foldl hash_step 0 token"] by simp

section \<open>Reading the cookie\<close>


text \<open>
  \<open>document_cookie\<close> is \<open>None\<close> outside a browser. The token is what stands between the first and
  the second \<open>=\<close>.
\<close>

definition readTokenFromCookie :: "string option \<Rightarrow> string \<Rightarrow> string option result" where
  "readTokenFromCookie document_cookie cookieName =
     (case document_cookie of
        None \<Rightarrow> Inr None
      | Some text \<Rightarrow>
          (case List.find (\<lambda>c. startsWith c (cookieName @ ''='')) (map js_trim (js_split (CHR '';'') text)) of
             None \<Rightarrow> Inr None
           | Some csrfCookie \<Rightarrow>
               map_sum id Some (decodeURIComponent (js_split (CHR ''='') csrfCookie ! 1))))"

section \<open>Operations\<close>

text \<open>The derived values: read at \<open>now\<close>, computed if the state changed since the last read.\<close>

definition read_isValid :: "int \<Rightarrow> csrf_store \<Rightarrow> bool \<times> csrf_store" where
  "read_isValid now c =
     (case cx_isValid c of
        Some v \<Rightarrow> (v, c)
      | None \<Rightarrow>
          let v = (ct_token (cx_state c) \<noteq> None
                   \<and> (case ct_expiresAt (cx_state c) of None \<Rightarrow> False | Some e \<Rightarrow> now < e))
          in (v, c\<lparr>cx_isValid := Some v\<rparr>))"

definition read_isExpiringSoon :: "csrf_store_config \<Rightarrow> int \<Rightarrow> csrf_store \<Rightarrow> bool \<times> csrf_store" where
  "read_isExpiringSoon cfg now c =
     (case cx_isExpiringSoon c of
        Some v \<Rightarrow> (v, c)
      | None \<Rightarrow>
          let v = (case ct_expiresAt (cx_state c) of None \<Rightarrow> False
                   | Some e \<Rightarrow> now > e - cg_refreshThresholdMs cfg)
          in (v, c\<lparr>cx_isExpiringSoon := Some v\<rparr>))"

definition read_timeUntilExpiry :: "int \<Rightarrow> csrf_store \<Rightarrow> int option \<times> csrf_store" where
  "read_timeUntilExpiry now c =
     (case cx_timeUntilExpiry c of
        Some v \<Rightarrow> (v, c)
      | None \<Rightarrow>
          let v = map_option (\<lambda>e. max 0 (e - now)) (ct_expiresAt (cx_state c))
          in (v, c\<lparr>cx_timeUntilExpiry := Some v\<rparr>))"

definition csrf_initialize :: "csrf_store_config \<Rightarrow> int \<Rightarrow> string \<Rightarrow> string option \<Rightarrow> csrf_store" where
  "csrf_initialize cfg now token role =
     assign_state
       \<lparr>ct_token = Some token, ct_tokenHash = Some (hashToken token), ct_issuedAt = Some now,
        ct_expiresAt = Some (now + cg_tokenLifetimeMs cfg), ct_role = role\<rparr>"

text \<open>
  What the endpoint answers: a good response with its \<open>token\<close> field, a bad one, or an exception
  of \<open>fetch\<close> or of parsing.
\<close>

datatype token_response = Token_response "string option" | Bad_response | Fetch_failed

definition fetchToken ::
  "csrf_store_config \<Rightarrow> string option \<Rightarrow> token_response \<Rightarrow> int \<Rightarrow> csrf_store \<Rightarrow> string option \<times> csrf_store" where
  "fetchToken cfg document_cookie response now c =
     (case readTokenFromCookie document_cookie (cg_cookieName cfg) of
        Inl e \<Rightarrow> (None, c)
      | Inr cookieToken \<Rightarrow>
          if truthy cookieToken then (cookieToken, csrf_initialize cfg now (the cookieToken) None)
          else case response of
                 Token_response token \<Rightarrow>
                   if truthy token then (token, csrf_initialize cfg now (the token) None) else (None, c)
               | Bad_response \<Rightarrow> (None, c)
               | Fetch_failed \<Rightarrow> (None, c))"

definition renewed_by :: "csrf_store_config \<Rightarrow> token_response \<Rightarrow> int \<Rightarrow> string option \<Rightarrow> csrf_store \<Rightarrow> csrf_store" where
  "renewed_by cfg response now role c =
     (case response of
        Token_response token \<Rightarrow> if truthy token then csrf_initialize cfg now (the token) role else c
      | _ \<Rightarrow> c)"

definition rotateOnRoleChange ::
  "csrf_store_config \<Rightarrow> token_response \<Rightarrow> int \<Rightarrow> string \<Rightarrow> csrf_store \<Rightarrow> csrf_store" where
  "rotateOnRoleChange cfg response now newRole c =
     (if ct_role (cx_state c) = Some newRole then c else renewed_by cfg response now (Some newRole) c)"

definition refreshIfNeeded ::
  "csrf_store_config \<Rightarrow> token_response \<Rightarrow> int \<Rightarrow> int \<Rightarrow> csrf_store \<Rightarrow> csrf_store" where
  "refreshIfNeeded cfg response asked now c =
     (let (soon, c) = read_isExpiringSoon cfg asked c
      in if \<not> soon then c else renewed_by cfg response now (ct_role (cx_state c)) c)"

definition getHeaders :: "csrf_store_config \<Rightarrow> int \<Rightarrow> csrf_store \<Rightarrow> (string \<times> string) list \<times> csrf_store" where
  "getHeaders cfg now c =
     (if \<not> truthy (ct_token (cx_state c)) then ([], c)
      else let (valid, c) = read_isValid now c
           in if \<not> valid then ([], c) else ([(cg_headerName cfg, the (ct_token (cx_state c)))], c))"

definition csrf_validate :: "int \<Rightarrow> string \<Rightarrow> csrf_store \<Rightarrow> bool \<times> csrf_store" where
  "csrf_validate now token c =
     (if \<not> truthy (ct_token (cx_state c)) then (False, c)
      else if Some token \<noteq> ct_token (cx_state c) then (False, c)
      else read_isValid now c)"

definition csrf_clear :: csrf_store where
  "csrf_clear = assign_state empty_csrf_state"

text \<open>\<open>state.role = role\<close>: no derived value reads the role.\<close>

definition setRole :: "string option \<Rightarrow> csrf_store \<Rightarrow> csrf_store" where
  "setRole role c = c\<lparr>cx_state := (cx_state c)\<lparr>ct_role := role\<rparr>\<rparr>"

section \<open>What the store keeps\<close>

text \<open>
  A token never outlives its lifetime in the state: expiry is issue plus lifetime, and a computed
  validity means the token was unexpired at some reading after the last change.
\<close>

definition csrf_ok :: "csrf_store_config \<Rightarrow> csrf_store \<Rightarrow> bool" where
  "csrf_ok cfg c \<longleftrightarrow>
     (case ct_token (cx_state c) of
        None \<Rightarrow> ct_issuedAt (cx_state c) = None \<and> ct_expiresAt (cx_state c) = None \<and> cx_isValid c \<noteq> Some True
      | Some t \<Rightarrow> ct_tokenHash (cx_state c) = Some (hashToken t)
          \<and> (\<exists>i. ct_issuedAt (cx_state c) = Some i \<and> ct_expiresAt (cx_state c) = Some (i + cg_tokenLifetimeMs cfg)))"

lemma csrf_ok_assign [simp]:
  "csrf_ok cfg (csrf_initialize cfg now token role)" "csrf_ok cfg csrf_clear" "csrf_ok cfg createCSRFStore"
  by (simp_all add: csrf_ok_def csrf_initialize_def csrf_clear_def createCSRFStore_def assign_state_def
      empty_csrf_state_def)

lemma csrf_ok_reads:
  "read_isValid now c = (v, c') \<Longrightarrow> csrf_ok cfg c \<Longrightarrow> csrf_ok cfg c'"
  "read_isExpiringSoon cfg' now c = (v, c') \<Longrightarrow> csrf_ok cfg c \<Longrightarrow> csrf_ok cfg c'"
  "read_timeUntilExpiry now c = (w, c') \<Longrightarrow> csrf_ok cfg c \<Longrightarrow> csrf_ok cfg c'"
  by (auto simp: csrf_ok_def read_isValid_def read_isExpiringSoon_def read_timeUntilExpiry_def Let_def
      split: option.splits)

lemma csrf_ok_renewed: "csrf_ok cfg c \<Longrightarrow> csrf_ok cfg (renewed_by cfg response now role c)"
  by (auto simp: renewed_by_def split: token_response.split)

lemma csrf_ok_operations:
  assumes "csrf_ok cfg c"
  shows "csrf_ok cfg (snd (fetchToken cfg cookie response now c))"
    "csrf_ok cfg (rotateOnRoleChange cfg response now role c)"
    "csrf_ok cfg (refreshIfNeeded cfg response asked now c)"
    "csrf_ok cfg (snd (getHeaders cfg now c))" "csrf_ok cfg (snd (csrf_validate now token c))"
    "csrf_ok cfg (setRole newRole c)"
proof -
  show "csrf_ok cfg (snd (fetchToken cfg cookie response now c))"
    using assms by (auto simp: fetchToken_def split: sum.split token_response.split)
  show "csrf_ok cfg (rotateOnRoleChange cfg response now role c)"
    using assms by (simp add: rotateOnRoleChange_def csrf_ok_renewed)
  show "csrf_ok cfg (refreshIfNeeded cfg response asked now c)"
    using assms csrf_ok_reads(2) [of cfg asked c] by (auto simp: refreshIfNeeded_def csrf_ok_renewed split: prod.split)
  show "csrf_ok cfg (snd (getHeaders cfg now c))"
    using assms csrf_ok_reads(1) [of now c] by (auto simp: getHeaders_def split: prod.split)
  show "csrf_ok cfg (snd (csrf_validate now token c))"
    using assms csrf_ok_reads(1) [of now c] by (cases "read_isValid now c") (auto simp: csrf_validate_def)
  show "csrf_ok cfg (setRole newRole c)"
    using assms by (simp add: setRole_def csrf_ok_def split: option.splits)
qed

text \<open>Read for the first time after a change, the headers carry a token within its lifetime.\<close>

lemma headers_fresh:
  assumes "csrf_ok cfg c" "cx_isValid c = None" "fst (getHeaders cfg now c) = [(name, token)]"
  shows "name = cg_headerName cfg \<and> ct_token (cx_state c) = Some token
     \<and> (\<exists>i. ct_issuedAt (cx_state c) = Some i \<and> now < i + cg_tokenLifetimeMs cfg)"
  using assms
  by (auto simp: csrf_ok_def getHeaders_def read_isValid_def truthy_def Let_def split: option.splits if_splits)

text \<open>
  A validity computed once holds at every later time: the store offers its token, and does not
  refresh it, long after the expiry.
\<close>

lemma validity_does_not_age:
  "fst (getHeaders DEFAULT_CSRF_CONFIG 10 (csrf_initialize DEFAULT_CSRF_CONFIG 0 ''t'' None)) = [(''x-csrf-token'', ''t'')]
   \<and> fst (getHeaders DEFAULT_CSRF_CONFIG (10 ^ 12)
        (snd (getHeaders DEFAULT_CSRF_CONFIG 10 (csrf_initialize DEFAULT_CSRF_CONFIG 0 ''t'' None))))
     = [(''x-csrf-token'', ''t'')]
   \<and> ct_expiresAt (cx_state (csrf_initialize DEFAULT_CSRF_CONFIG 0 ''t'' None)) = Some 86400000"
  by code_simp

end
