(* ===== verification/Fixed_Tenant.thy ===== *)
theory Fixed_Tenant
  imports Session_Manager Memory_Storage
begin

text \<open>
  The fixed-tenant adapter of \<open>src/storage/fixedTenant.ts\<close>: a storage whose methods all take a
  tenant identifier is used as a plain storage by passing one identifier everywhere.

  The clock readings and fresh identifiers that a storage draws are arguments of its operations, as
  in the other storage theories. The backend is an argument; \<open>per_tenant\<close> makes one out of
  a plain storage by keeping one state per tenant.
\<close>

section \<open>The two interfaces\<close>

text \<open>\<open>IStorageAdapter\<close>.\<close>

record 's storage =
  sto_init :: "('s, unit) op"
  sto_close :: "('s, unit) op"
  sto_getUser :: "string \<Rightarrow> ('s, admin_user option) op"
  sto_getUserByHandle :: "string \<Rightarrow> ('s, admin_user option) op"
  sto_getUserByEmail :: "string \<Rightarrow> ('s, admin_user option) op"
  sto_getAllUsers :: "('s, admin_user list) op"
  sto_createUser :: "int \<Rightarrow> string \<Rightarrow> admin_user \<Rightarrow> ('s, admin_user) op"
  sto_updateUser :: "int \<Rightarrow> string \<Rightarrow> user_patch \<Rightarrow> ('s, admin_user) op"
  sto_deleteUser :: "string \<Rightarrow> ('s, bool) op"
  sto_hasUsers :: "('s, bool) op"
  sto_getSession :: "int \<Rightarrow> string \<Rightarrow> ('s, session option) op"
  sto_getSessionsByUser :: "int \<Rightarrow> string \<Rightarrow> ('s, session list) op"
  sto_getAllSessions :: "('s, session list) op"
  sto_createSession :: "int \<Rightarrow> string \<Rightarrow> string \<Rightarrow> user_patch \<Rightarrow> session_metadata option \<Rightarrow> ('s, session) op"
  sto_updateSession :: "string \<Rightarrow> session_patch \<Rightarrow> ('s, session) op"
  sto_deleteSession :: "string \<Rightarrow> ('s, bool) op"
  sto_deleteUserSessions :: "string \<Rightarrow> ('s, int) op"
  sto_cleanupExpiredSessions :: "int \<Rightarrow> ('s, int) op"
  sto_getTOTPSecret :: "string \<Rightarrow> ('s, encrypted_totp_secret option) op"
  sto_saveTOTPSecret :: "string \<Rightarrow> encrypted_totp_secret \<Rightarrow> ('s, unit) op"
  sto_deleteTOTPSecret :: "string \<Rightarrow> ('s, bool) op"
  sto_getBackupCodes :: "string \<Rightarrow> ('s, backup_code_set option) op"
  sto_saveBackupCodes :: "string \<Rightarrow> backup_code_set \<Rightarrow> ('s, unit) op"
  sto_deleteBackupCodes :: "string \<Rightarrow> ('s, bool) op"
  sto_getInvitation :: "int \<Rightarrow> string \<Rightarrow> ('s, admin_invitation option) op"
  sto_getInvitationById :: "string \<Rightarrow> ('s, admin_invitation option) op"
  sto_getAllInvitations :: "('s, admin_invitation list) op"
  sto_getPendingInvitations :: "int \<Rightarrow> ('s, admin_invitation list) op"
  sto_createInvitation :: "string \<Rightarrow> admin_invitation \<Rightarrow> ('s, admin_invitation) op"
  sto_updateInvitation :: "string \<Rightarrow> invitation_patch \<Rightarrow> ('s, admin_invitation) op"
  sto_deleteInvitation :: "string \<Rightarrow> ('s, bool) op"
  sto_cleanupExpiredInvitations :: "int \<Rightarrow> ('s, int) op"
  sto_logAuditEvent :: "string \<Rightarrow> audit_event \<Rightarrow> ('s, audit_event) op"
  sto_getAuditEvents :: "audit_event_filters \<Rightarrow> ('s, audit_event list) op"
  sto_getRecentAuditEvents :: "int option \<Rightarrow> ('s, audit_event list) op"
  sto_createSessionWithPolicy ::
    "(int \<Rightarrow> string \<Rightarrow> string \<Rightarrow> user_patch \<Rightarrow> session_metadata option \<Rightarrow> bounded_session_policy
        \<Rightarrow> ('s, session) op) option"

text \<open>\<open>TenantScopedStorage\<close>.\<close>

record 's tenant_storage =
  tn_init :: "('s, unit) op"
  tn_close :: "('s, unit) op"
  tn_getUser :: "string \<Rightarrow> string \<Rightarrow> ('s, admin_user option) op"
  tn_getUserByHandle :: "string \<Rightarrow> string \<Rightarrow> ('s, admin_user option) op"
  tn_getUserByEmail :: "string \<Rightarrow> string \<Rightarrow> ('s, admin_user option) op"
  tn_getAllUsers :: "string \<Rightarrow> ('s, admin_user list) op"
  tn_createUser :: "string \<Rightarrow> int \<Rightarrow> string \<Rightarrow> admin_user \<Rightarrow> ('s, admin_user) op"
  tn_updateUser :: "string \<Rightarrow> int \<Rightarrow> string \<Rightarrow> user_patch \<Rightarrow> ('s, admin_user) op"
  tn_deleteUser :: "string \<Rightarrow> string \<Rightarrow> ('s, bool) op"
  tn_hasUsers :: "string \<Rightarrow> ('s, bool) op"
  tn_getSession :: "string \<Rightarrow> int \<Rightarrow> string \<Rightarrow> ('s, session option) op"
  tn_getSessionsByUser :: "string \<Rightarrow> int \<Rightarrow> string \<Rightarrow> ('s, session list) op"
  tn_getAllSessions :: "string \<Rightarrow> ('s, session list) op"
  tn_createSession :: "string \<Rightarrow> int \<Rightarrow> string \<Rightarrow> string \<Rightarrow> user_patch \<Rightarrow> session_metadata option \<Rightarrow> ('s, session) op"
  tn_updateSession :: "string \<Rightarrow> string \<Rightarrow> session_patch \<Rightarrow> ('s, session) op"
  tn_deleteSession :: "string \<Rightarrow> string \<Rightarrow> ('s, bool) op"
  tn_deleteUserSessions :: "string \<Rightarrow> string \<Rightarrow> ('s, int) op"
  tn_cleanupExpiredSessions :: "string \<Rightarrow> int \<Rightarrow> ('s, int) op"
  tn_getTOTPSecret :: "string \<Rightarrow> string \<Rightarrow> ('s, encrypted_totp_secret option) op"
  tn_saveTOTPSecret :: "string \<Rightarrow> string \<Rightarrow> encrypted_totp_secret \<Rightarrow> ('s, unit) op"
  tn_deleteTOTPSecret :: "string \<Rightarrow> string \<Rightarrow> ('s, bool) op"
  tn_getBackupCodes :: "string \<Rightarrow> string \<Rightarrow> ('s, backup_code_set option) op"
  tn_saveBackupCodes :: "string \<Rightarrow> string \<Rightarrow> backup_code_set \<Rightarrow> ('s, unit) op"
  tn_deleteBackupCodes :: "string \<Rightarrow> string \<Rightarrow> ('s, bool) op"
  tn_getInvitation :: "string \<Rightarrow> int \<Rightarrow> string \<Rightarrow> ('s, admin_invitation option) op"
  tn_getInvitationById :: "string \<Rightarrow> string \<Rightarrow> ('s, admin_invitation option) op"
  tn_getAllInvitations :: "string \<Rightarrow> ('s, admin_invitation list) op"
  tn_getPendingInvitations :: "string \<Rightarrow> int \<Rightarrow> ('s, admin_invitation list) op"
  tn_createInvitation :: "string \<Rightarrow> string \<Rightarrow> admin_invitation \<Rightarrow> ('s, admin_invitation) op"
  tn_updateInvitation :: "string \<Rightarrow> string \<Rightarrow> invitation_patch \<Rightarrow> ('s, admin_invitation) op"
  tn_deleteInvitation :: "string \<Rightarrow> string \<Rightarrow> ('s, bool) op"
  tn_cleanupExpiredInvitations :: "string \<Rightarrow> int \<Rightarrow> ('s, int) op"
  tn_logAuditEvent :: "string \<Rightarrow> string \<Rightarrow> audit_event \<Rightarrow> ('s, audit_event) op"
  tn_getAuditEvents :: "string \<Rightarrow> audit_event_filters \<Rightarrow> ('s, audit_event list) op"
  tn_getRecentAuditEvents :: "string \<Rightarrow> int option \<Rightarrow> ('s, audit_event list) op"

section \<open>Tenant identifiers\<close>

text \<open>The pattern \<open>UUID_RE\<close>, without regard to case.\<close>

definition is_hex :: "char \<Rightarrow> bool" where
  "is_hex ch = is_lower_hex (lower_char ch)"

definition is_uuid :: "string \<Rightarrow> bool" where
  "is_uuid s \<longleftrightarrow>
     length s = 36
     \<and> (\<forall>i < 36. if i \<in> {8, 13, 18, 23} then s ! i = CHR ''-''
          else if i = 14 then s ! i \<in> set ''12345''
          else if i = 19 then lower_char (s ! i) \<in> set ''89ab''
          else is_hex (s ! i))"

fun join_or :: "string list \<Rightarrow> string" where
  "join_or [] = []"
| "join_or [k] = k"
| "join_or (k # ks) = k @ '' or '' @ join_or ks"

definition resolveAuthTenantId :: "(string \<times> string option) list \<Rightarrow> string result" where
  "resolveAuthTenantId values =
     (case List.find truthy (map snd values) of
        Some (Some tenantId) \<Rightarrow>
          if \<not> is_uuid tenantId then Inl (Error (''tenant id must be a UUID, received: '' @ tenantId))
          else Inr (toLowerCase tenantId)
      | _ \<Rightarrow>
          let keys = join_or (map fst values)
          in Inl (Error ((if keys \<noteq> [] then keys else ''tenant id'')
                   @ '' is required for the tenant-scoped auth storage.'')))"

section \<open>The adapter\<close>

definition fixedTenantAdapter :: "string \<Rightarrow> 's tenant_storage \<Rightarrow> 's storage" where
  "fixedTenantAdapter tenantId storage =
     \<lparr>sto_init = tn_init storage, sto_close = tn_close storage,
      sto_getUser = tn_getUser storage tenantId,
      sto_getUserByHandle = tn_getUserByHandle storage tenantId,
      sto_getUserByEmail = tn_getUserByEmail storage tenantId,
      sto_getAllUsers = tn_getAllUsers storage tenantId,
      sto_createUser = tn_createUser storage tenantId,
      sto_updateUser = tn_updateUser storage tenantId,
      sto_deleteUser = tn_deleteUser storage tenantId,
      sto_hasUsers = tn_hasUsers storage tenantId,
      sto_getSession = tn_getSession storage tenantId,
      sto_getSessionsByUser = tn_getSessionsByUser storage tenantId,
      sto_getAllSessions = tn_getAllSessions storage tenantId,
      sto_createSession = tn_createSession storage tenantId,
      sto_updateSession = tn_updateSession storage tenantId,
      sto_deleteSession = tn_deleteSession storage tenantId,
      sto_deleteUserSessions = tn_deleteUserSessions storage tenantId,
      sto_cleanupExpiredSessions = tn_cleanupExpiredSessions storage tenantId,
      sto_getTOTPSecret = tn_getTOTPSecret storage tenantId,
      sto_saveTOTPSecret = tn_saveTOTPSecret storage tenantId,
      sto_deleteTOTPSecret = tn_deleteTOTPSecret storage tenantId,
      sto_getBackupCodes = tn_getBackupCodes storage tenantId,
      sto_saveBackupCodes = tn_saveBackupCodes storage tenantId,
      sto_deleteBackupCodes = tn_deleteBackupCodes storage tenantId,
      sto_getInvitation = tn_getInvitation storage tenantId,
      sto_getInvitationById = tn_getInvitationById storage tenantId,
      sto_getAllInvitations = tn_getAllInvitations storage tenantId,
      sto_getPendingInvitations = tn_getPendingInvitations storage tenantId,
      sto_createInvitation = tn_createInvitation storage tenantId,
      sto_updateInvitation = tn_updateInvitation storage tenantId,
      sto_deleteInvitation = tn_deleteInvitation storage tenantId,
      sto_cleanupExpiredInvitations = tn_cleanupExpiredInvitations storage tenantId,
      sto_logAuditEvent = tn_logAuditEvent storage tenantId,
      sto_getAuditEvents = tn_getAuditEvents storage tenantId,
      sto_getRecentAuditEvents = tn_getRecentAuditEvents storage tenantId,
      sto_createSessionWithPolicy = None\<rparr>"

definition createFixedTenantStorageAdapter :: "string \<Rightarrow> 's tenant_storage \<Rightarrow> 's storage result" where
  "createFixedTenantStorageAdapter tenantId storage =
     (if \<not> is_uuid tenantId then Inl (Error (''tenantId must be a UUID, received: '' @ tenantId))
      else Inr (fixedTenantAdapter (toLowerCase tenantId) storage))"

text \<open>The session operations of a storage, and the plain storage of the in-memory adapter.\<close>

definition sessions_of :: "'s storage \<Rightarrow> 's session_ops" where
  "sessions_of st =
     \<lparr>st_getSession = sto_getSession st, st_getSessionsByUser = sto_getSessionsByUser st,
      st_createSession = sto_createSession st,
      st_createSessionWithPolicy = sto_createSessionWithPolicy st,
      st_updateSession = sto_updateSession st, st_deleteSession = sto_deleteSession st,
      st_deleteUserSessions = sto_deleteUserSessions st,
      st_cleanupExpiredSessions = sto_cleanupExpiredSessions st\<rparr>"

definition memory_storage :: "memory storage" where
  "memory_storage =
     \<lparr>sto_init = mem_init, sto_close = mem_close,
      sto_getUser = mem_getUser,
      sto_getUserByHandle = mem_getUserByHandle,
      sto_getUserByEmail = mem_getUserByEmail,
      sto_getAllUsers = mem_getAllUsers,
      sto_createUser = (\<lambda>now. mem_createUser),
      sto_updateUser = mem_updateUser,
      sto_deleteUser = mem_deleteUser,
      sto_hasUsers = mem_hasUsers,
      sto_getSession = mem_getSession,
      sto_getSessionsByUser = mem_getSessionsByUser,
      sto_getAllSessions = mem_getAllSessions,
      sto_createSession = mem_createSession,
      sto_updateSession = mem_updateSession,
      sto_deleteSession = mem_deleteSession,
      sto_deleteUserSessions = mem_deleteUserSessions,
      sto_cleanupExpiredSessions = mem_cleanupExpiredSessions,
      sto_getTOTPSecret = mem_getTOTPSecret,
      sto_saveTOTPSecret = mem_saveTOTPSecret,
      sto_deleteTOTPSecret = mem_deleteTOTPSecret,
      sto_getBackupCodes = mem_getBackupCodes,
      sto_saveBackupCodes = mem_saveBackupCodes,
      sto_deleteBackupCodes = mem_deleteBackupCodes,
      sto_getInvitation = mem_getInvitation,
      sto_getInvitationById = mem_getInvitationById,
      sto_getAllInvitations = mem_getAllInvitations,
      sto_getPendingInvitations = mem_getPendingInvitations,
      sto_createInvitation = mem_createInvitation,
      sto_updateInvitation = mem_updateInvitation,
      sto_deleteInvitation = mem_deleteInvitation,
      sto_cleanupExpiredInvitations = mem_cleanupExpiredInvitations,
      sto_logAuditEvent = mem_logAuditEvent,
      sto_getAuditEvents = mem_getAuditEvents,
      sto_getRecentAuditEvents = mem_getRecentAuditEvents,
      sto_createSessionWithPolicy = Some (\<lambda>now. mem_createSessionWithPolicy now now)\<rparr>"

lemma memory_sessions_of: "sessions_of memory_storage = memory_sessions"
  by (simp add: sessions_of_def memory_storage_def memory_sessions_def)

section \<open>One state per tenant\<close>

definition at_tenant :: "string \<Rightarrow> ('s, 'a) op \<Rightarrow> (string \<Rightarrow> 's, 'a) op" where
  "at_tenant t f s = (fst (f (s t)), s(t := snd (f (s t))))"

lemma at_tenant_isolated: "t' \<noteq> t \<Longrightarrow> snd (at_tenant t f s) t' = s t'"
  by (simp add: at_tenant_def)

lemma at_tenant_result:
  "f (s t) = (r, x) \<Longrightarrow> at_tenant t f s = (r, s(t := x))"
  by (simp add: at_tenant_def)

lemma at_tenant_bind:
  "bind_op (at_tenant t m) (\<lambda>a. at_tenant t (f a)) = at_tenant t (bind_op m f)"
  by (rule ext) (auto simp: at_tenant_def bind_op_def split: prod.splits sum.splits)

lemma at_tenant_return: "at_tenant t (return_op a) = return_op a"
  by (rule ext) (simp add: at_tenant_def)

definition per_tenant :: "'s storage \<Rightarrow> (string \<Rightarrow> 's) tenant_storage" where
  "per_tenant st =
     \<lparr>tn_init = return_op (), tn_close = return_op (),
      tn_getUser = (\<lambda>t a. at_tenant t (sto_getUser st a)),
      tn_getUserByHandle = (\<lambda>t a. at_tenant t (sto_getUserByHandle st a)),
      tn_getUserByEmail = (\<lambda>t a. at_tenant t (sto_getUserByEmail st a)),
      tn_getAllUsers = (\<lambda>t. at_tenant t (sto_getAllUsers st)),
      tn_createUser = (\<lambda>t a b c. at_tenant t (sto_createUser st a b c)),
      tn_updateUser = (\<lambda>t a b c. at_tenant t (sto_updateUser st a b c)),
      tn_deleteUser = (\<lambda>t a. at_tenant t (sto_deleteUser st a)),
      tn_hasUsers = (\<lambda>t. at_tenant t (sto_hasUsers st)),
      tn_getSession = (\<lambda>t a b. at_tenant t (sto_getSession st a b)),
      tn_getSessionsByUser = (\<lambda>t a b. at_tenant t (sto_getSessionsByUser st a b)),
      tn_getAllSessions = (\<lambda>t. at_tenant t (sto_getAllSessions st)),
      tn_createSession = (\<lambda>t a b c d e. at_tenant t (sto_createSession st a b c d e)),
      tn_updateSession = (\<lambda>t a b. at_tenant t (sto_updateSession st a b)),
      tn_deleteSession = (\<lambda>t a. at_tenant t (sto_deleteSession st a)),
      tn_deleteUserSessions = (\<lambda>t a. at_tenant t (sto_deleteUserSessions st a)),
      tn_cleanupExpiredSessions = (\<lambda>t a. at_tenant t (sto_cleanupExpiredSessions st a)),
      tn_getTOTPSecret = (\<lambda>t a. at_tenant t (sto_getTOTPSecret st a)),
      tn_saveTOTPSecret = (\<lambda>t a b. at_tenant t (sto_saveTOTPSecret st a b)),
      tn_deleteTOTPSecret = (\<lambda>t a. at_tenant t (sto_deleteTOTPSecret st a)),
      tn_getBackupCodes = (\<lambda>t a. at_tenant t (sto_getBackupCodes st a)),
      tn_saveBackupCodes = (\<lambda>t a b. at_tenant t (sto_saveBackupCodes st a b)),
      tn_deleteBackupCodes = (\<lambda>t a. at_tenant t (sto_deleteBackupCodes st a)),
      tn_getInvitation = (\<lambda>t a b. at_tenant t (sto_getInvitation st a b)),
      tn_getInvitationById = (\<lambda>t a. at_tenant t (sto_getInvitationById st a)),
      tn_getAllInvitations = (\<lambda>t. at_tenant t (sto_getAllInvitations st)),
      tn_getPendingInvitations = (\<lambda>t a. at_tenant t (sto_getPendingInvitations st a)),
      tn_createInvitation = (\<lambda>t a b. at_tenant t (sto_createInvitation st a b)),
      tn_updateInvitation = (\<lambda>t a b. at_tenant t (sto_updateInvitation st a b)),
      tn_deleteInvitation = (\<lambda>t a. at_tenant t (sto_deleteInvitation st a)),
      tn_cleanupExpiredInvitations = (\<lambda>t a. at_tenant t (sto_cleanupExpiredInvitations st a)),
      tn_logAuditEvent = (\<lambda>t a b. at_tenant t (sto_logAuditEvent st a b)),
      tn_getAuditEvents = (\<lambda>t a. at_tenant t (sto_getAuditEvents st a)),
      tn_getRecentAuditEvents = (\<lambda>t a. at_tenant t (sto_getRecentAuditEvents st a))\<rparr>"

text \<open>
  Over such a backend the session service of a fixed tenant does to that tenant's state what it
  does to a plain one, and leaves every other tenant alone.
\<close>

lemma fixed_sessions:
  "sessions_of (fixedTenantAdapter t (per_tenant st)) =
     \<lparr>st_getSession = (\<lambda>now i. at_tenant t (sto_getSession st now i)),
      st_getSessionsByUser = (\<lambda>now u. at_tenant t (sto_getSessionsByUser st now u)),
      st_createSession = (\<lambda>now i u usr md. at_tenant t (sto_createSession st now i u usr md)),
      st_createSessionWithPolicy = None,
      st_updateSession = (\<lambda>i p. at_tenant t (sto_updateSession st i p)),
      st_deleteSession = (\<lambda>i. at_tenant t (sto_deleteSession st i)),
      st_deleteUserSessions = (\<lambda>u. at_tenant t (sto_deleteUserSessions st u)),
      st_cleanupExpiredSessions = (\<lambda>now. at_tenant t (sto_cleanupExpiredSessions st now))\<rparr>"
  by (simp add: sessions_of_def fixedTenantAdapter_def per_tenant_def)

definition tenant_sessions :: "string \<Rightarrow> 's session_ops \<Rightarrow> (string \<Rightarrow> 's) session_ops" where
  "tenant_sessions t st =
     \<lparr>st_getSession = (\<lambda>now i. at_tenant t (st_getSession st now i)),
      st_getSessionsByUser = (\<lambda>now u. at_tenant t (st_getSessionsByUser st now u)),
      st_createSession = (\<lambda>now i u usr md. at_tenant t (st_createSession st now i u usr md)),
      st_createSessionWithPolicy = None,
      st_updateSession = (\<lambda>i p. at_tenant t (st_updateSession st i p)),
      st_deleteSession = (\<lambda>i. at_tenant t (st_deleteSession st i)),
      st_deleteUserSessions = (\<lambda>u. at_tenant t (st_deleteUserSessions st u)),
      st_cleanupExpiredSessions = (\<lambda>now. at_tenant t (st_cleanupExpiredSessions st now))\<rparr>"

lemma fixed_tenant_sessions:
  "sessions_of (fixedTenantAdapter t (per_tenant st)) = tenant_sessions t (sessions_of st)"
  unfolding fixed_sessions by (simp add: tenant_sessions_def sessions_of_def)

lemma tenant_sessions_simps [simp]:
  "st_getSession (tenant_sessions t st) now i s = at_tenant t (st_getSession st now i) s"
  "st_getSessionsByUser (tenant_sessions t st) now u s = at_tenant t (st_getSessionsByUser st now u) s"
  "st_createSession (tenant_sessions t st) now i u usr md s = at_tenant t (st_createSession st now i u usr md) s"
  "st_createSessionWithPolicy (tenant_sessions t st) = None"
  "st_updateSession (tenant_sessions t st) i p s = at_tenant t (st_updateSession st i p) s"
  "st_deleteSession (tenant_sessions t st) i s = at_tenant t (st_deleteSession st i) s"
  "st_deleteUserSessions (tenant_sessions t st) u s = at_tenant t (st_deleteUserSessions st u) s"
  "st_cleanupExpiredSessions (tenant_sessions t st) now s = at_tenant t (st_cleanupExpiredSessions st now) s"
  by (simp_all add: tenant_sessions_def)

text \<open>The session contract of a plain storage gives the contract at every tenant.\<close>

context session_storage
begin

lemma tenant_storage_contract:
  "session_storage (tenant_sessions t st) (\<lambda>s. view (s t)) (\<lambda>s. inv (s t))"
proof
  fix s i x
  assume "inv (s t)" "view (s t) i = Some x"
  then show "s_id x = i" by (rule view_id)
next
  fix s
  assume "inv (s t)"
  then show "finite (dom (view (s t)))" by (rule view_finite)
next
  fix s :: "string \<Rightarrow> 's" and now i
  assume "inv (s t)"
  then obtain r x where run: "st_getSession st now i (s t) = (Inr r, x)" and inv: "inv x"
    and r: "case r of Some y \<Rightarrow> x = s t \<and> view (s t) i = Some y
            | None \<Rightarrow> (view (s t) i = None \<and> view x = view (s t))
                \<or> (\<exists>y. view (s t) i = Some y \<and> before (s_expires y) now \<and> view x = (view (s t))(i := None))"
    using get_law by blast
  show "\<exists>r s'. st_getSession (tenant_sessions t st) now i s = (Inr r, s') \<and> inv (s' t)
         \<and> (case r of Some x \<Rightarrow> s' = s \<and> view (s t) i = Some x
            | None \<Rightarrow> (view (s t) i = None \<and> view (s' t) = view (s t))
                \<or> (\<exists>x. view (s t) i = Some x \<and> before (s_expires x) now \<and> view (s' t) = (view (s t))(i := None)))"
    by (rule exI [of _ r], rule exI [of _ "s(t := x)"])
      (use run inv r in \<open>simp add: at_tenant_result split: option.splits\<close>)
next
  fix s :: "string \<Rightarrow> 's" and now u
  assume "inv (s t)"
  from by_user_law [OF this, of now u] show "\<exists>xs. st_getSessionsByUser (tenant_sessions t st) now u s = (Inr xs, s)
         \<and> (\<forall>x \<in> set xs. view (s t) (s_id x) = Some x \<and> s_userId x = u)
         \<and> (\<forall>i x. view (s t) i = Some x \<and> s_userId x = u \<and> after (s_expires x) now \<longrightarrow> x \<in> set xs)"
    by (auto simp: at_tenant_def)
next
  fix s :: "string \<Rightarrow> 's" and new u now usr md
  assume "inv (s t)" "view (s t) new = None" "key_text new" "key_text u"
  from create_law [OF this, of now usr md] show "\<exists>x s'. st_createSession (tenant_sessions t st) now new u usr md s = (Inr x, s') \<and> inv (s' t)
           \<and> s_id x = new \<and> s_userId x = u \<and> s_createdAt x = Iso now
           \<and> s_expires x = s_expiresAt x \<and> view (s' t) = (view (s t))(new \<mapsto> x)"
    by (auto simp: at_tenant_def)
next
  fix s :: "string \<Rightarrow> 's" and i x p
  assume "inv (s t)" "view (s t) i = Some x" "plain_patch p"
  from update_law [OF this] show "\<exists>s'. st_updateSession (tenant_sessions t st) i p s = (Inr (apply_session_patch p x), s') \<and> inv (s' t)
           \<and> view (s' t) = (view (s t))(i \<mapsto> apply_session_patch p x)"
    by (auto simp: at_tenant_def)
next
  fix s :: "string \<Rightarrow> 's" and i p
  assume "inv (s t)" "view (s t) i = None"
  from update_missing_law [OF this, of p] show "\<exists>e. st_updateSession (tenant_sessions t st) i p s = (Inl e, s)"
    by (auto simp: at_tenant_def)
next
  fix s :: "string \<Rightarrow> 's" and i
  assume "inv (s t)"
  from delete_law [OF this, of i] show "\<exists>s'. st_deleteSession (tenant_sessions t st) i s = (Inr (view (s t) i \<noteq> None), s') \<and> inv (s' t)
         \<and> view (s' t) = (view (s t))(i := None)"
    by (auto simp: at_tenant_def)
next
  fix s :: "string \<Rightarrow> 's" and u
  assume "inv (s t)"
  from delete_user_law [OF this, of u] show "\<exists>n s'. st_deleteUserSessions (tenant_sessions t st) u s = (Inr n, s') \<and> inv (s' t)
         \<and> n = int (card {i. \<exists>x. view (s t) i = Some x \<and> s_userId x = u})
         \<and> view (s' t) = (\<lambda>i. case view (s t) i of None \<Rightarrow> None
                          | Some x \<Rightarrow> if s_userId x = u then None else Some x)"
    by (auto simp: at_tenant_def)
next
  fix s :: "string \<Rightarrow> 's" and now
  assume "inv (s t)"
  then obtain n x where run: "st_cleanupExpiredSessions st now (s t) = (Inr n, x)" and inv: "inv x"
    and kept: "\<forall>i y. view x i = Some y \<longrightarrow> view (s t) i = Some y \<and> \<not> before (s_expires y) now"
      "\<forall>i y. view (s t) i = Some y \<and> after (s_expires y) now \<longrightarrow> view x i = Some y"
    using cleanup_law by blast
  show "\<exists>n s'. st_cleanupExpiredSessions (tenant_sessions t st) now s = (Inr n, s') \<and> inv (s' t)
         \<and> (\<forall>i x. view (s' t) i = Some x \<longrightarrow> view (s t) i = Some x \<and> \<not> before (s_expires x) now)
         \<and> (\<forall>i x. view (s t) i = Some x \<and> after (s_expires x) now \<longrightarrow> view (s' t) i = Some x)"
    unfolding tenant_sessions_simps at_tenant_result [where f = "st_cleanupExpiredSessions st now" and s = s and t = t, OF run]
    by (intro exI [of _ n] exI [of _ "s(t := x)"]) (use inv kept in \<open>unfold fun_upd_same, blast\<close>)
qed simp

end

interpretation tenant: session_storage "tenant_sessions t memory_sessions" "\<lambda>s. mem_view (s t)"
    "\<lambda>s. mem_sessions_ok (s t)" for t
  by (rule mem.tenant_storage_contract)

text \<open>
  A session of one tenant is invisible to every other: over a backend with a state per tenant, the
  service of a fixed tenant answers a lookup only with a live session of that tenant, and changes no
  other tenant's state.
\<close>

lemma fixed_tenant_getSession:
  assumes "createFixedTenantStorageAdapter tid (per_tenant memory_storage) = Inr a"
    and "mem_sessions_ok (s (toLowerCase tid))"
  shows "\<exists>r s'. sm_getSession (sessions_of a) t now i s = (Inr r, s')
     \<and> (\<forall>t'. t' \<noteq> toLowerCase tid \<longrightarrow> s' t' = s t')
     \<and> (case r of
          Some x \<Rightarrow> mem_view (s (toLowerCase tid)) i = Some x \<and> \<not> before (s_expires x) now
        | None \<Rightarrow> i = [] \<or> mem_view (s' (toLowerCase tid)) i = None)"
proof -
  let ?t = "toLowerCase tid"
  have a: "sessions_of a = tenant_sessions ?t memory_sessions"
    using assms(1) by (auto simp: createFixedTenantStorageAdapter_def fixed_tenant_sessions memory_sessions_of
        split: if_splits)
  obtain r s' where run: "sm_getSession (sessions_of a) t now i s = (Inr r, s')"
      and r: "case r of Some x \<Rightarrow> s' = s \<and> mem_view (s ?t) i = Some x \<and> s_id x = i \<and> \<not> before (s_expires x) now
        | None \<Rightarrow> i = [] \<or> mem_view (s' ?t) i = None"
    using tenant.getSession_live [where s = s, OF assms(2), of t now i] unfolding a by blast
  have "s' t' = s t'" if "t' \<noteq> ?t" for t'
    using run that
    by (auto simp: a sm_getSession_def bind_op_def at_tenant_def split: if_splits sum.splits option.splits)
  then show ?thesis using run r by (auto split: option.splits)
qed

text \<open>
  \<open>resolveAuthTenantId\<close> takes the first value that is not empty and refuses it when it is not an
  identifier; a later candidate that is one is not considered.
\<close>

lemma find_map: "List.find P (map f xs) = map_option f (List.find (P \<circ> f) xs)"
  by (induction xs) auto

lemma find_Some_split:
  "List.find P xs = Some x \<Longrightarrow> \<exists>pre post. xs = pre @ x # post \<and> P x \<and> list_all (\<lambda>y. \<not> P y) pre"
proof (induction xs)
  case (Cons y ys)
  show ?case
  proof (cases "P y")
    case True
    then show ?thesis using Cons.prems by (intro exI [of _ "[]"] exI [of _ ys]) simp
  next
    case False
    then obtain pre post where "ys = pre @ x # post" "P x" "list_all (\<lambda>y. \<not> P y) pre" using Cons by auto
    then show ?thesis using False by (intro exI [of _ "y # pre"] exI [of _ post]) simp
  qed
qed simp

lemma resolve_result:
  assumes "resolveAuthTenantId values = Inr t"
  shows "\<exists>k v pre post. values = pre @ (k, Some v) # post \<and> list_all (\<lambda>kw. \<not> truthy (snd kw)) pre
     \<and> is_uuid v \<and> t = toLowerCase v"
proof -
  obtain v where first: "List.find truthy (map snd values) = Some (Some v)" "is_uuid v" "t = toLowerCase v"
    using assms by (auto simp: resolveAuthTenantId_def Let_def split: option.splits if_splits)
  then obtain k where "List.find (\<lambda>kw. truthy (snd kw)) values = Some (k, Some v)"
    by (auto simp: find_map comp_def)
  from find_Some_split [OF this] show ?thesis using first by blast
qed

lemma first_candidate_only:
  "resolveAuthTenantId [(''A'', Some ''main''), (''B'', Some ''0f8fad5b-d9cb-469f-a165-70867728950e'')]
     = Inl (Error ''tenant id must be a UUID, received: main'')"
  by code_simp

end
