(* ===== verification/Admin_Repository.thy ===== *)
theory Admin_Repository
  imports Prelude
begin

text \<open>
  The account repository of \<open>src/admin-user-repository/\<close>: accounts as JSON objects in one file,
  read through a cache, with public projections for readers without rights.

  An account is a JavaScript object: a list of properties in order. The file, bcrypt, the random
  identifiers and the readings of the clock are arguments; one call of the repository is one step,
  with \<open>read_start\<close> and \<open>read_finish\<close> splitting a lookup at its wait for the file.
\<close>

section \<open>Objects\<close>

text \<open>\<open>Iso_text t\<close> is the text \<open>toISOString\<close> gives for \<open>t\<close>; \<open>Opaque\<close> stands for nested values.\<close>

datatype js_value =
    Undefined | Null | Bool bool | Num int | Str string | Strs "string list" | Iso_text int | Opaque string

type_synonym account = "js_value jsmap"

text \<open>\<open>o.k\<close>, \<open>a ?? b\<close>, \<open>!v\<close> and \<open>{ ...a, ...b }\<close>.\<close>

definition field :: "account \<Rightarrow> string \<Rightarrow> js_value" where
  "field a k = (case map_of a k of None \<Rightarrow> Undefined | Some v \<Rightarrow> v)"

definition coalesce :: "js_value \<Rightarrow> js_value \<Rightarrow> js_value" where
  "coalesce v w = (if v = Undefined \<or> v = Null then w else v)"

fun falsy :: "js_value \<Rightarrow> bool" where
  "falsy Undefined = True" | "falsy Null = True" | "falsy (Bool b) = (\<not> b)" | "falsy (Num n) = (n = 0)"
| "falsy (Str s) = (s = [])" | "falsy _ = False"

definition spread :: "account \<Rightarrow> account \<Rightarrow> account" where
  "spread a b = foldl (\<lambda>acc (k, v). map_set k v acc) a b"

definition in_quotes :: "string \<Rightarrow> string" where
  "in_quotes s = [CHR 0x27] @ s @ [CHR 0x27]"

section \<open>Configuration\<close>

record repo_settings =
  rs_usersFilePath :: "string option"
  rs_cacheTtl :: "int option"
  rs_saltRounds :: "int option"
  rs_filePermissions :: "int option"

record repo_config =
  rp_usersFilePath :: string
  rp_cacheTtl :: int
  rp_saltRounds :: int
  rp_filePermissions :: int

definition no_settings :: repo_settings where
  "no_settings = \<lparr>rs_usersFilePath = None, rs_cacheTtl = None, rs_saltRounds = None, rs_filePermissions = None\<rparr>"

text \<open>A setting given as \<open>undefined\<close> would also erase an earlier one; here it is left out.\<close>

definition repo_configure :: "repo_settings \<Rightarrow> repo_settings \<Rightarrow> repo_settings" where
  "repo_configure config c =
     \<lparr>rs_usersFilePath = (case rs_usersFilePath c of None \<Rightarrow> rs_usersFilePath config | Some v \<Rightarrow> Some v),
      rs_cacheTtl = (case rs_cacheTtl c of None \<Rightarrow> rs_cacheTtl config | Some v \<Rightarrow> Some v),
      rs_saltRounds = (case rs_saltRounds c of None \<Rightarrow> rs_saltRounds config | Some v \<Rightarrow> Some v),
      rs_filePermissions = (case rs_filePermissions c of None \<Rightarrow> rs_filePermissions config | Some v \<Rightarrow> Some v)\<rparr>"

definition getConfig :: "string \<Rightarrow> repo_settings \<Rightarrow> repo_config" where
  "getConfig cwd config =
     \<lparr>rp_usersFilePath = nullish (rs_usersFilePath config) (cwd @ ''/content/auth/admin-users.json''),
      rp_cacheTtl = nullish (rs_cacheTtl config) 5000,
      rp_saltRounds = nullish (rs_saltRounds config) 10,
      rp_filePermissions = nullish (rs_filePermissions config) 384\<rparr>"

section \<open>State\<close>

text \<open>What the users file holds: an array, an object with a \<open>users\<close> array or none, or no readable JSON.\<close>

datatype repo_file =
    No_file | Array_file "account list" | Object_file "account list option" | Bad_file string

record repository =
  ur_file :: repo_file
  ur_cache :: "(account \<times> int) jsmap"

text \<open>A write succeeds, fails before the rename, or fails after it with the new file in place.\<close>

datatype write_outcome = Write_done | Write_kept string | Write_replaced string

definition normalized :: "account \<Rightarrow> account" where
  "normalized user = map_set ''federationEnabled'' (Bool (field user ''federationEnabled'' = Bool True)) user"

definition readUsers :: "(repository, account list) op" where
  "readUsers = (\<lambda>s.
     case ur_file s of
       No_file \<Rightarrow> (Inr [], s)
     | Array_file us \<Rightarrow> (Inr (map normalized us), s)
     | Object_file us \<Rightarrow> (Inr (map normalized (nullish us [])), s)
     | Bad_file m \<Rightarrow> (Inl (Error m), s))"

text \<open>\<open>JSON.stringify\<close> leaves undefined properties out.\<close>

definition json_object :: "account \<Rightarrow> account" where
  "json_object user = filter (\<lambda>(k, v). v \<noteq> Undefined) user"

definition writeUsers :: "write_outcome \<Rightarrow> account list \<Rightarrow> (repository, unit) op" where
  "writeUsers outcome users = (\<lambda>s.
     case outcome of
       Write_done \<Rightarrow> (Inr (), \<lparr>ur_file = Array_file (map json_object users), ur_cache = []\<rparr>)
     | Write_kept m \<Rightarrow> (Inl (Error m), s\<lparr>ur_cache := []\<rparr>)
     | Write_replaced m \<Rightarrow> (Inl (Error m), \<lparr>ur_file = Array_file (map json_object users), ur_cache = []\<rparr>))"

section \<open>Lookups\<close>

definition handle_matches :: "string \<Rightarrow> account \<Rightarrow> bool" where
  "handle_matches handle u \<longleftrightarrow> field u ''handle'' = Str handle \<or> field u ''username'' = Str handle"

definition is_active :: "account \<Rightarrow> bool" where
  "is_active u \<longleftrightarrow> field u ''isActive'' \<noteq> Bool False"

definition cached :: "string \<Rightarrow> repo_config \<Rightarrow> int \<Rightarrow> repository \<Rightarrow> account option" where
  "cached key cfg now s =
     (case map_of (ur_cache s) key of
        None \<Rightarrow> None
      | Some (user, timestamp) \<Rightarrow> if now - timestamp < rp_cacheTtl cfg then Some user else None)"

text \<open>
  A lookup answers from the cache, or reads the file and remembers what it finds. \<open>now\<close> is the
  reading for the age of the entry, \<open>later\<close> the one of the new entry.
\<close>

definition read_finish ::
  "string \<Rightarrow> (account \<Rightarrow> bool) \<Rightarrow> int \<Rightarrow> account list \<Rightarrow> (repository, account option) op" where
  "read_finish key P later users = (\<lambda>s.
     case List.find P users of
       None \<Rightarrow> (Inr None, s)
     | Some user \<Rightarrow> (Inr (Some user), s\<lparr>ur_cache := map_set key (user, later) (ur_cache s)\<rparr>))"

definition cached_find ::
  "string \<Rightarrow> (account \<Rightarrow> bool) \<Rightarrow> repo_config \<Rightarrow> int \<Rightarrow> int \<Rightarrow> (repository, account option) op" where
  "cached_find key P cfg now later = (\<lambda>s.
     case cached key cfg now s of
       Some user \<Rightarrow> (Inr (Some user), s)
     | None \<Rightarrow> bind_op readUsers (read_finish key P later) s)"

definition findByHandle :: "repo_config \<Rightarrow> int \<Rightarrow> int \<Rightarrow> string \<Rightarrow> (repository, account option) op" where
  "findByHandle cfg now later handle =
     cached_find (''handle:'' @ handle) (\<lambda>u. handle_matches handle u \<and> is_active u) cfg now later"

definition findById :: "repo_config \<Rightarrow> int \<Rightarrow> int \<Rightarrow> string \<Rightarrow> (repository, account option) op" where
  "findById cfg now later uid =
     cached_find (''id:'' @ uid) (\<lambda>u. field u ''id'' = Str uid) cfg now later"

definition findByGitHubId :: "int \<Rightarrow> (repository, account option) op" where
  "findByGitHubId githubId =
     bind_op readUsers (\<lambda>users.
       return_op (List.find (\<lambda>u. field u ''githubId'' = Num githubId \<and> is_active u) users))"

definition findByEmail :: "string \<Rightarrow> (repository, account option) op" where
  "findByEmail email =
     bind_op readUsers (\<lambda>users.
       return_op (List.find (\<lambda>u. field u ''username'' = Str email \<and> is_active u) users))"

definition findAll :: "(repository, account list) op" where
  "findAll = readUsers"

definition hasAnyUsers :: "(repository, bool) op" where
  "hasAnyUsers = bind_op readUsers (\<lambda>users. return_op (users \<noteq> []))"

section \<open>Public projections\<close>

definition PUBLIC_ADMIN_USER_FIELDS :: "string list" where
  "PUBLIC_ADMIN_USER_FIELDS =
     [''id'', ''username'', ''handle'', ''displayName'', ''role'', ''isActive'', ''createdAt'',
      ''updatedAt'', ''lastLoginAt'', ''lastLogin'', ''totpEnabled'', ''needsOnboarding'',
      ''onboardingStep'', ''firstLogin'', ''githubId'', ''githubLogin'', ''githubLinkedAt'']"

definition sanitizeUser :: "account \<Rightarrow> account" where
  "sanitizeUser user =
     map (\<lambda>name. (name, field user name))
       (filter (\<lambda>name. map_has name user \<and> field user name \<noteq> Undefined) PUBLIC_ADMIN_USER_FIELDS)"

definition sanitizePublicHandleIdentity :: "account \<Rightarrow> account" where
  "sanitizePublicHandleIdentity user =
     [(''id'', field user ''id''), (''username'', field user ''username''), (''handle'', field user ''handle''),
      (''displayName'', field user ''displayName''), (''role'', field user ''role''),
      (''isActive'', field user ''isActive''), (''createdAt'', field user ''createdAt''),
      (''updatedAt'', field user ''updatedAt''), (''bio'', field user ''bio''),
      (''avatarUrl'', field user ''avatarUrl''), (''bannerUrl'', field user ''bannerUrl''),
      (''website'', field user ''website''), (''location'', field user ''location''),
      (''pronouns'', field user ''pronouns''),
      (''githubLogin'', coalesce (field user ''githubLogin'') Null),
      (''githubLinkedAt'', coalesce (field user ''githubLinkedAt'') Null)]"

definition map_found :: "('a \<Rightarrow> 'b) \<Rightarrow> ('s, 'a option) op \<Rightarrow> ('s, 'b option) op" where
  "map_found f m = bind_op m (\<lambda>r. return_op (map_option f r))"

definition findByHandlePublic :: "repo_config \<Rightarrow> int \<Rightarrow> int \<Rightarrow> string \<Rightarrow> (repository, account option) op" where
  "findByHandlePublic cfg now later handle = map_found sanitizeUser (findByHandle cfg now later handle)"

definition findPublicHandleIdentity :: "repo_config \<Rightarrow> int \<Rightarrow> int \<Rightarrow> string \<Rightarrow> (repository, account option) op" where
  "findPublicHandleIdentity cfg now later handle =
     map_found sanitizePublicHandleIdentity (findByHandle cfg now later handle)"

definition findByIdPublic :: "repo_config \<Rightarrow> int \<Rightarrow> int \<Rightarrow> string \<Rightarrow> (repository, account option) op" where
  "findByIdPublic cfg now later uid = map_found sanitizeUser (findById cfg now later uid)"

definition findByEmailPublic :: "string \<Rightarrow> (repository, account option) op" where
  "findByEmailPublic email = map_found sanitizeUser (findByEmail email)"

definition findAllPublic :: "(repository, account list) op" where
  "findAllPublic = bind_op findAll (\<lambda>users. return_op (map sanitizeUser users))"

definition findAllPublicHandleIdentities :: "(repository, account list) op" where
  "findAllPublicHandleIdentities =
     bind_op findAll (\<lambda>users. return_op (map sanitizePublicHandleIdentity (filter is_active users)))"

section \<open>Changes\<close>

definition repo_update :: "write_outcome \<Rightarrow> int \<Rightarrow> string \<Rightarrow> account \<Rightarrow> (repository, account) op" where
  "repo_update outcome now uid updates =
     bind_op readUsers (\<lambda>users.
       case findIndex (\<lambda>u. field u ''id'' = Str uid) users of
         None \<Rightarrow> throw_op (Error (''User with id '' @ in_quotes uid @ '' not found''))
       | Some index \<Rightarrow>
           let user = normalized (map_set ''updatedAt'' (Iso_text now) (spread (users ! index) updates))
           in bind_op (writeUsers outcome (users[index := user])) (\<lambda>_. return_op user))"

definition linkGitHub ::
  "write_outcome \<Rightarrow> int \<Rightarrow> int \<Rightarrow> string \<Rightarrow> int \<Rightarrow> string \<Rightarrow> (repository, account) op" where
  "linkGitHub outcome now later userId githubId githubLogin =
     bind_op (findByGitHubId githubId) (\<lambda>existing.
       case existing of
         Some u \<Rightarrow>
           if field u ''id'' \<noteq> Str userId
           then throw_op (Error (''GitHub account '' @ githubLogin @ '' is already linked to another admin user''))
           else repo_update outcome later userId
                  [(''githubId'', Num githubId), (''githubLogin'', Str githubLogin), (''githubLinkedAt'', Iso_text now)]
       | None \<Rightarrow>
           repo_update outcome later userId
             [(''githubId'', Num githubId), (''githubLogin'', Str githubLogin), (''githubLinkedAt'', Iso_text now)])"

definition unlinkGitHub :: "write_outcome \<Rightarrow> int \<Rightarrow> string \<Rightarrow> (repository, account) op" where
  "unlinkGitHub outcome now userId =
     repo_update outcome now userId [(''githubId'', Null), (''githubLogin'', Null), (''githubLinkedAt'', Null)]"

record create_user_data =
  cu_handle :: string
  cu_password :: string
  cu_role :: "string option"
  cu_email :: "string option"
  cu_totpEnabled :: "bool option"
  cu_totpSecretId :: "string option"
  cu_githubId :: "int option"
  cu_githubLogin :: "string option"

definition text_or_null :: "string option \<Rightarrow> js_value" where
  "text_or_null v = (if truthy v then Str (the v) else Null)"

definition exists_error :: "string \<Rightarrow> error" where
  "exists_error handle = Error (''User with handle '' @ in_quotes handle @ '' already exists'')"

text \<open>\<open>bcrypt pw rounds\<close> is the hash bcrypt makes, with its salt; \<open>t1\<close> to \<open>t3\<close> are clock readings.\<close>

definition created_account ::
  "string \<Rightarrow> int \<Rightarrow> int \<Rightarrow> int \<Rightarrow> string \<Rightarrow> create_user_data \<Rightarrow> account" where
  "created_account uid t1 t2 t3 passwordHash userData =
     [(''id'', Str uid), (''username'', Str (cu_handle userData)), (''handle'', Str (cu_handle userData)),
      (''passwordHash'', Str passwordHash), (''role'', Str (str_or (cu_role userData) ''admin'')),
      (''isActive'', Bool True), (''createdAt'', Iso_text t1), (''updatedAt'', Iso_text t2),
      (''lastLoginAt'', Null), (''permissions'', Strs []), (''federationEnabled'', Bool False),
      (''totpEnabled'', Bool (cu_totpEnabled userData = Some True)),
      (''totpSecretId'', text_or_null (cu_totpSecretId userData)),
      (''needsOnboarding'', Bool False), (''onboardingStep'', Num 0), (''firstLogin'', Bool False),
      (''githubId'', (case cu_githubId userData of None \<Rightarrow> Null | Some n \<Rightarrow> if n = 0 then Null else Num n)),
      (''githubLogin'', text_or_null (cu_githubLogin userData)),
      (''githubLinkedAt'', (case cu_githubId userData of None \<Rightarrow> Null | Some n \<Rightarrow> if n = 0 then Null else Iso_text t3))]"

definition repo_create ::
  "(string \<Rightarrow> int \<Rightarrow> string) \<Rightarrow> repo_config \<Rightarrow> write_outcome \<Rightarrow> string \<Rightarrow> int \<Rightarrow> int \<Rightarrow> int \<Rightarrow> create_user_data
     \<Rightarrow> (repository, account) op" where
  "repo_create bcrypt cfg outcome uid t1 t2 t3 userData =
     bind_op readUsers (\<lambda>users.
       if list_ex (handle_matches (cu_handle userData)) users
       then throw_op (exists_error (cu_handle userData))
       else
         let newUser = created_account uid t1 t2 t3 (bcrypt (cu_password userData) (rp_saltRounds cfg)) userData
         in bind_op (writeUsers outcome (users @ [newUser])) (\<lambda>_. return_op newUser))"

definition stored_account :: "string \<Rightarrow> int \<Rightarrow> string \<Rightarrow> account \<Rightarrow> account" where
  "stored_account uid timestamp handle d =
     [(''id'', coalesce (field d ''id'') (Str uid)), (''username'', coalesce (field d ''username'') (Str handle)),
      (''handle'', Str handle), (''displayName'', field d ''displayName''), (''email'', field d ''email''),
      (''passwordHash'', field d ''passwordHash''), (''role'', field d ''role''),
      (''isActive'', coalesce (field d ''isActive'') (Bool True)),
      (''createdAt'', coalesce (field d ''createdAt'') (Iso_text timestamp)),
      (''updatedAt'', coalesce (field d ''updatedAt'') (Iso_text timestamp)),
      (''lastLoginAt'', coalesce (field d ''lastLoginAt'') Null), (''lastLogin'', coalesce (field d ''lastLogin'') Null),
      (''permissions'', coalesce (field d ''permissions'') (Strs [])),
      (''federationEnabled'', Bool (field d ''federationEnabled'' = Bool True)),
      (''totpEnabled'', coalesce (field d ''totpEnabled'') (Bool False)),
      (''totpSecretId'', coalesce (field d ''totpSecretId'') Null),
      (''needsOnboarding'', coalesce (field d ''needsOnboarding'') (Bool False)),
      (''onboardingStep'', coalesce (field d ''onboardingStep'') (Num 0)),
      (''firstLogin'', coalesce (field d ''firstLogin'') (Bool False)),
      (''githubId'', coalesce (field d ''githubId'') Null), (''githubLogin'', coalesce (field d ''githubLogin'') Null),
      (''githubLinkedAt'', coalesce (field d ''githubLinkedAt'') Null)]"

text \<open>The handle of stored data is a text; any other value counts as missing here.\<close>

definition createStoredUser ::
  "write_outcome \<Rightarrow> string \<Rightarrow> int \<Rightarrow> account \<Rightarrow> (repository, account) op" where
  "createStoredUser outcome uid timestamp userData =
     bind_op readUsers (\<lambda>users.
       case coalesce (field userData ''handle'') (field userData ''username'') of
         Str handle \<Rightarrow>
           if handle = [] then throw_op (Error ''Stored admin user must include a handle or username'')
           else if list_ex (handle_matches handle) users then throw_op (exists_error handle)
           else
             let newUser = stored_account uid timestamp handle userData
             in bind_op (writeUsers outcome (users @ [newUser])) (\<lambda>_. return_op newUser)
       | _ \<Rightarrow> throw_op (Error ''Stored admin user must include a handle or username''))"

definition repo_delete :: "write_outcome \<Rightarrow> int \<Rightarrow> string \<Rightarrow> (repository, unit) op" where
  "repo_delete outcome now uid =
     bind_op (repo_update outcome now uid [(''isActive'', Bool False)]) (\<lambda>_. return_op ())"

definition deletePermanently :: "write_outcome \<Rightarrow> string \<Rightarrow> (repository, bool) op" where
  "deletePermanently outcome uid =
     bind_op readUsers (\<lambda>users.
       case findIndex (\<lambda>u. field u ''id'' = Str uid) users of
         None \<Rightarrow> return_op False
       | Some index \<Rightarrow> bind_op (writeUsers outcome (remove_at index users)) (\<lambda>_. return_op True))"

definition repo_verifyPassword ::
  "(string \<Rightarrow> js_value \<Rightarrow> bool) \<Rightarrow> repo_config \<Rightarrow> int \<Rightarrow> int \<Rightarrow> string \<Rightarrow> string \<Rightarrow> (repository, account option) op" where
  "repo_verifyPassword compare cfg now later handle password =
     bind_op (findByHandle cfg now later handle) (\<lambda>user.
       case user of
         None \<Rightarrow> return_op None
       | Some u \<Rightarrow>
           if falsy (field u ''passwordHash'') then return_op None
           else return_op (if compare password (field u ''passwordHash'') then Some u else None))"

definition repo_updatePassword ::
  "(string \<Rightarrow> int \<Rightarrow> string) \<Rightarrow> repo_config \<Rightarrow> write_outcome \<Rightarrow> int \<Rightarrow> string \<Rightarrow> string \<Rightarrow> (repository, unit) op" where
  "repo_updatePassword bcrypt cfg outcome now uid newPassword =
     bind_op (repo_update outcome now uid [(''passwordHash'', Str (bcrypt newPassword (rp_saltRounds cfg)))])
       (\<lambda>_. return_op ())"

definition enableTotp :: "write_outcome \<Rightarrow> int \<Rightarrow> string \<Rightarrow> string \<Rightarrow> (repository, unit) op" where
  "enableTotp outcome now uid secretId =
     bind_op (repo_update outcome now uid [(''totpEnabled'', Bool True), (''totpSecretId'', Str secretId)])
       (\<lambda>_. return_op ())"

definition disableTotp :: "write_outcome \<Rightarrow> int \<Rightarrow> string \<Rightarrow> (repository, unit) op" where
  "disableTotp outcome now uid =
     bind_op (repo_update outcome now uid [(''totpEnabled'', Bool False), (''totpSecretId'', Null)])
       (\<lambda>_. return_op ())"

definition updateLastLogin :: "write_outcome \<Rightarrow> int \<Rightarrow> int \<Rightarrow> string \<Rightarrow> (repository, unit) op" where
  "updateLastLogin outcome t now uid =
     bind_op (repo_update outcome now uid [(''lastLoginAt'', Iso_text t)]) (\<lambda>_. return_op ())"

definition needsFirstLoginSetup :: "repo_config \<Rightarrow> int \<Rightarrow> int \<Rightarrow> string \<Rightarrow> (repository, bool) op" where
  "needsFirstLoginSetup cfg now later uid =
     bind_op (findById cfg now later uid) (\<lambda>user.
       return_op (case user of None \<Rightarrow> False | Some u \<Rightarrow> field u ''firstLogin'' = Bool True))"

definition clearCache :: "(repository, unit) op" where
  "clearCache = (\<lambda>s. (Inr (), s\<lparr>ur_cache := []\<rparr>))"

section \<open>The public handle directory\<close>

record 's directory_source =
  ds_sourceModel :: string
  ds_backingSurface :: string
  ds_backingFile :: "string option"
  ds_findByHandle :: "string \<Rightarrow> ('s, account option) op"
  ds_findAll :: "('s, account list) op"

definition repositoryBackedSource :: "repo_config \<Rightarrow> int \<Rightarrow> int \<Rightarrow> repository directory_source" where
  "repositoryBackedSource cfg now later =
     \<lparr>ds_sourceModel = ''repository_backed_admin_identity'',
      ds_backingSurface = ''content/auth/admin-users.json'',
      ds_backingFile = Some ''content/auth/admin-users.json'',
      ds_findByHandle = findPublicHandleIdentity cfg now later,
      ds_findAll = findAllPublicHandleIdentities\<rparr>"

text \<open>The directory object has the source's names and hands both calls on.\<close>

definition createPublicHandleDirectory :: "'s directory_source \<Rightarrow> 's directory_source" where
  "createPublicHandleDirectory source =
     \<lparr>ds_sourceModel = ds_sourceModel source, ds_backingSurface = ds_backingSurface source,
      ds_backingFile = ds_backingFile source, ds_findByHandle = ds_findByHandle source,
      ds_findAll = ds_findAll source\<rparr>"

end
