(* ===== verification/Repository_Guarantees.thy ===== *)
theory Repository_Guarantees
  imports Admin_Repository
begin

text \<open>
  What the account repository promises: the public reads show allowlisted fields only and depend on
  nothing else, the cache is invisible as long as calls do not overlap, and new accounts have a
  handle of their own. At the end, what it does not promise.
\<close>

section \<open>Public reads\<close>

definition HANDLE_IDENTITY_FIELDS :: "string list" where
  "HANDLE_IDENTITY_FIELDS =
     [''id'', ''username'', ''handle'', ''displayName'', ''role'', ''isActive'', ''createdAt'', ''updatedAt'',
      ''bio'', ''avatarUrl'', ''bannerUrl'', ''website'', ''location'', ''pronouns'', ''githubLogin'',
      ''githubLinkedAt'']"

definition secret_fields :: "string set" where
  "secret_fields = {''passwordHash'', ''totpSecretId'', ''email'', ''permissions'', ''federationEnabled''}"

definition only_fields :: "string list \<Rightarrow> account \<Rightarrow> bool" where
  "only_fields names a \<longleftrightarrow>
     set (map fst a) \<subseteq> set names \<and> distinct (map fst a) \<and> set (map fst a) \<inter> secret_fields = {}"

definition result_ok :: "('a \<Rightarrow> bool) \<Rightarrow> 'a option result \<Rightarrow> bool" where
  "result_ok P r = (case r of Inr (Some a) \<Rightarrow> P a | _ \<Rightarrow> True)"

lemma fields_distinct: "distinct PUBLIC_ADMIN_USER_FIELDS" "distinct HANDLE_IDENTITY_FIELDS"
  by code_simp+

lemma fields_public: "set PUBLIC_ADMIN_USER_FIELDS \<inter> secret_fields = {}" "set HANDLE_IDENTITY_FIELDS \<inter> secret_fields = {}"
  by (auto simp: PUBLIC_ADMIN_USER_FIELDS_def HANDLE_IDENTITY_FIELDS_def secret_fields_def)

lemma sanitizeUser_fields [simp]: "only_fields PUBLIC_ADMIN_USER_FIELDS (sanitizeUser u)"
proof -
  have names: "map fst (sanitizeUser u) =
      filter (\<lambda>name. map_has name u \<and> field u name \<noteq> Undefined) PUBLIC_ADMIN_USER_FIELDS"
    by (simp add: sanitizeUser_def comp_def)
  show ?thesis unfolding only_fields_def names using fields_distinct(1) fields_public(1) by auto
qed

lemma identity_names: "map fst (sanitizePublicHandleIdentity u) = HANDLE_IDENTITY_FIELDS"
  by (simp add: sanitizePublicHandleIdentity_def HANDLE_IDENTITY_FIELDS_def)

lemma identity_fields [simp]: "only_fields HANDLE_IDENTITY_FIELDS (sanitizePublicHandleIdentity u)"
  unfolding only_fields_def identity_names using fields_distinct(2) fields_public(2) by simp

lemma map_found_ok: "(\<And>a. P (f a)) \<Longrightarrow> result_ok P (fst (map_found f m s))"
  by (cases "m s"; cases "fst (m s)") (auto simp: map_found_def bind_op_def result_ok_def split: option.split)

lemma findAll_ok: "(\<And>a. P (f a)) \<Longrightarrow>
    (case fst (bind_op m (\<lambda>users. return_op (map f (g users))) s) of Inr xs \<Rightarrow> list_all P xs | Inl e \<Rightarrow> True)"
  by (cases "m s"; cases "fst (m s)") (auto simp: bind_op_def list_all_iff)

text \<open>
  C30. Whatever an account or the cache holds, a public read answers with objects whose property
  names are distinct and on the allowlist of its projection, so no answer has a password hash, a
  TOTP secret reference, an email, permissions or the federation opt-in.
\<close>
theorem public_reads_allowlisted:
  "result_ok (only_fields PUBLIC_ADMIN_USER_FIELDS) (fst (findByHandlePublic cfg now later handle s))
   \<and> result_ok (only_fields PUBLIC_ADMIN_USER_FIELDS) (fst (findByIdPublic cfg now later uid s))
   \<and> result_ok (only_fields PUBLIC_ADMIN_USER_FIELDS) (fst (findByEmailPublic email s))
   \<and> (case fst (findAllPublic s) of Inr xs \<Rightarrow> list_all (only_fields PUBLIC_ADMIN_USER_FIELDS) xs | Inl e \<Rightarrow> True)
   \<and> result_ok (only_fields HANDLE_IDENTITY_FIELDS) (fst (findPublicHandleIdentity cfg now later handle s))
   \<and> (case fst (findAllPublicHandleIdentities s) of
        Inr xs \<Rightarrow> list_all (only_fields HANDLE_IDENTITY_FIELDS) xs | Inl e \<Rightarrow> True)"
  using findAll_ok [of "only_fields PUBLIC_ADMIN_USER_FIELDS" sanitizeUser findAll "\<lambda>x. x" s]
    findAll_ok [of "only_fields HANDLE_IDENTITY_FIELDS" sanitizePublicHandleIdentity findAll "filter is_active" s]
  by (simp add: map_found_ok findByHandlePublic_def findByIdPublic_def findByEmailPublic_def findAllPublic_def
      findPublicHandleIdentity_def findAllPublicHandleIdentities_def)

section \<open>Nothing else shows\<close>

text \<open>Two accounts that a reader of the public projection cannot tell apart.\<close>

definition public_equal :: "account \<Rightarrow> account \<Rightarrow> bool" where
  "public_equal u v \<longleftrightarrow> (\<forall>name \<in> set PUBLIC_ADMIN_USER_FIELDS. field u name = field v name)"

definition same_public_state :: "repository \<Rightarrow> repository \<Rightarrow> bool" where
  "same_public_state s s' \<longleftrightarrow>
     (\<exists>us vs. ur_file s = Array_file us \<and> ur_file s' = Array_file vs \<and> list_all2 public_equal us vs)
     \<and> list_all2 (\<lambda>(k, u, t) (k', v, t'). k' = k \<and> t' = t \<and> public_equal u v) (ur_cache s) (ur_cache s')"

lemma public_equalD:
  assumes "public_equal u v"
  shows "field u ''id'' = field v ''id''" "field u ''username'' = field v ''username''"
    "field u ''handle'' = field v ''handle''" "field u ''isActive'' = field v ''isActive''"
  using assms by (simp_all add: public_equal_def PUBLIC_ADMIN_USER_FIELDS_def)

lemma field_map_set: "field (map_set k v u) n = (if n = k then v else field u n)"
  by (simp add: field_def)

lemma public_equal_normalized: "public_equal u v \<Longrightarrow> public_equal (normalized u) (normalized v)"
  by (auto simp: public_equal_def normalized_def field_map_set PUBLIC_ADMIN_USER_FIELDS_def)

lemma map_has_field: "field u name \<noteq> Undefined \<Longrightarrow> map_has name u"
  by (auto simp: field_def map_has_def split: option.splits)

lemma sanitizeUser_public: "public_equal u v \<Longrightarrow> sanitizeUser u = sanitizeUser v"
proof -
  have "map (\<lambda>name. (name, field u name)) (filter (\<lambda>name. field u name \<noteq> Undefined) fs)
      = map (\<lambda>name. (name, field v name)) (filter (\<lambda>name. field v name \<noteq> Undefined) fs)"
    if "\<forall>name \<in> set fs. field u name = field v name" for fs
    using that by (induction fs) auto
  moreover have "(\<lambda>name. map_has name w \<and> field w name \<noteq> Undefined) = (\<lambda>name. field w name \<noteq> Undefined)" for w
    using map_has_field by auto
  ultimately show "public_equal u v \<Longrightarrow> sanitizeUser u = sanitizeUser v"
    by (simp add: sanitizeUser_def public_equal_def)
qed

lemma find_related:
  assumes "list_all2 R us vs" "\<And>u v. R u v \<Longrightarrow> P u = P v"
  shows "rel_option R (List.find P us) (List.find P vs)"
  using assms by (induction rule: list_all2_induct) auto

lemma map_of_related:
  "list_all2 (\<lambda>(k, u, t) (k', v, t'). k' = k \<and> t' = t \<and> public_equal u v) c c' \<Longrightarrow>
     rel_option (\<lambda>(u, t) (v, t'). t' = t \<and> public_equal u v) (map_of c k) (map_of c' k)"
  by (induction rule: list_all2_induct) (auto split: if_splits)

lemma cached_find_related:
  assumes "same_public_state s s'" "\<And>u v. public_equal u v \<Longrightarrow> P u = P v"
  shows "rel_sum (=) (rel_option public_equal) (fst (cached_find key P cfg now later s))
      (fst (cached_find key P cfg now later s'))"
proof -
  obtain us vs where files: "ur_file s = Array_file us" "ur_file s' = Array_file vs" "list_all2 public_equal us vs"
    and caches: "list_all2 (\<lambda>(k, u, t) (k', v, t'). k' = k \<and> t' = t \<and> public_equal u v) (ur_cache s) (ur_cache s')"
    using assms(1) by (auto simp: same_public_state_def)
  have "list_all2 public_equal (map normalized us) (map normalized vs)"
    using files(3) by (auto simp: list_all2_conv_all_nth public_equal_normalized)
  then have found: "rel_option public_equal (List.find P (map normalized us)) (List.find P (map normalized vs))"
    by (rule find_related) (rule assms(2))
  have hit: "rel_option public_equal (cached key cfg now s) (cached key cfg now s')"
    using map_of_related [OF caches, of key]
    by (cases "map_of (ur_cache s) key"; cases "map_of (ur_cache s') key") (auto simp: cached_def)
  show ?thesis
  proof (cases "cached key cfg now s")
    case None
    then have "cached key cfg now s' = None" using hit by simp
    then show ?thesis using None files found
      by (cases "List.find P (map normalized us)"; cases "List.find P (map normalized vs)")
        (auto simp: cached_find_def bind_op_def readUsers_def read_finish_def)
  next
    case (Some u)
    then obtain v where "cached key cfg now s' = Some v" "public_equal u v" using hit by (cases "cached key cfg now s'") auto
    then show ?thesis using Some by (simp add: cached_find_def)
  qed
qed

lemma map_found_related:
  assumes "rel_sum (=) (rel_option public_equal) (fst (m s)) (fst (m s'))" "\<And>u v. public_equal u v \<Longrightarrow> f u = f v"
  shows "fst (map_found f m s) = fst (map_found f m s')"
  using assms
  by (cases "m s"; cases "m s'"; cases "fst (m s)"; cases "fst (m s')")
    (auto simp: map_found_def bind_op_def option.rel_sel intro!: option.expand)

lemma findAllPublic_related:
  assumes "same_public_state s s'"
  shows "fst (findAllPublic s) = fst (findAllPublic s')"
proof -
  obtain us vs where files: "ur_file s = Array_file us" "ur_file s' = Array_file vs" "list_all2 public_equal us vs"
    using assms by (auto simp: same_public_state_def)
  have "map (sanitizeUser \<circ> normalized) us = map (sanitizeUser \<circ> normalized) vs"
    using files(3) by (induction rule: list_all2_induct)
      (simp_all add: sanitizeUser_public public_equal_normalized)
  then show ?thesis using files by (simp add: findAllPublic_def findAll_def readUsers_def bind_op_def)
qed

text \<open>
  C22. The public reads depend on the public fields only: two stores, caches included, whose
  accounts agree on the allowlisted fields give the same answers, whatever their password hashes,
  second factors, contacts, grants and any other stored fields are.
\<close>
theorem public_reads_hide_the_rest:
  assumes "same_public_state s s'"
  shows "fst (findByHandlePublic cfg now later handle s) = fst (findByHandlePublic cfg now later handle s')
     \<and> fst (findByIdPublic cfg now later uid s) = fst (findByIdPublic cfg now later uid s')
     \<and> fst (findAllPublic s) = fst (findAllPublic s')"
proof -
  have handle: "rel_sum (=) (rel_option public_equal) (fst (findByHandle cfg now later handle s))
      (fst (findByHandle cfg now later handle s'))"
    unfolding findByHandle_def
    by (rule cached_find_related [OF assms]) (simp add: handle_matches_def is_active_def public_equalD)
  have uid: "rel_sum (=) (rel_option public_equal) (fst (findById cfg now later uid s))
      (fst (findById cfg now later uid s'))"
    unfolding findById_def by (rule cached_find_related [OF assms]) (simp add: public_equalD)
  show ?thesis
    unfolding findByHandlePublic_def findByIdPublic_def
    using map_found_related [OF handle sanitizeUser_public] map_found_related [OF uid sanitizeUser_public]
      findAllPublic_related [OF assms] by simp
qed

definition demo_account :: "string \<Rightarrow> account" where
  "demo_account hash = [(''id'', Str ''1''), (''handle'', Str ''ann''), (''passwordHash'', Str hash)]"

definition demo_config :: repo_config where
  "demo_config = getConfig ''/srv'' no_settings"

theorem public_reads_hide_the_rest_witness:
  "fst (findByIdPublic demo_config 1 2 ''1'' \<lparr>ur_file = Array_file [demo_account ''x''], ur_cache = []\<rparr>)
     = fst (findByIdPublic demo_config 1 2 ''1'' \<lparr>ur_file = Array_file [demo_account ''y''], ur_cache = []\<rparr>)
   \<and> demo_account ''x'' \<noteq> demo_account ''y''"
proof -
  have "same_public_state \<lparr>ur_file = Array_file [demo_account ''x''], ur_cache = []\<rparr>
      \<lparr>ur_file = Array_file [demo_account ''y''], ur_cache = []\<rparr>"
    by (simp add: same_public_state_def public_equal_def PUBLIC_ADMIN_USER_FIELDS_def demo_account_def field_def)
  from public_reads_hide_the_rest [OF this] show ?thesis by (simp add: demo_account_def)
qed

section \<open>The cache\<close>

text \<open>Every entry is what a lookup in the file would find.\<close>

definition cache_ok :: "repository \<Rightarrow> bool" where
  "cache_ok s \<longleftrightarrow>
     (\<forall>key u t. map_of (ur_cache s) key = Some (u, t) \<longrightarrow>
        (\<exists>users. fst (readUsers s) = Inr users
           \<and> ((\<exists>h. key = ''handle:'' @ h \<and> List.find (\<lambda>u. handle_matches h u \<and> is_active u) users = Some u)
              \<or> (\<exists>i. key = ''id:'' @ i \<and> List.find (\<lambda>u. field u ''id'' = Str i) users = Some u))))"

inductive repo_reach :: "repository \<Rightarrow> bool" where
  start: "repo_reach \<lparr>ur_file = f, ur_cache = []\<rparr>"
| by_handle: "repo_reach s \<Longrightarrow> repo_reach (snd (findByHandle cfg now later handle s))"
| by_id: "repo_reach s \<Longrightarrow> repo_reach (snd (findById cfg now later uid s))"
| change: "repo_reach s \<Longrightarrow> repo_reach (snd (repo_update outcome now uid updates s))"
| create: "repo_reach s \<Longrightarrow> repo_reach (snd (repo_create bcrypt cfg outcome uid t1 t2 t3 d s))"
| create_stored: "repo_reach s \<Longrightarrow> repo_reach (snd (createStoredUser outcome uid t1 a s))"
| remove: "repo_reach s \<Longrightarrow> repo_reach (snd (deletePermanently outcome uid s))"
| clear: "repo_reach s \<Longrightarrow> repo_reach (snd (clearCache s))"

lemma readUsers_state [simp]: "snd (readUsers s) = s"
  by (auto simp: readUsers_def split: repo_file.split)

lemma readUsers_cache [simp]: "fst (readUsers (s\<lparr>ur_cache := c\<rparr>)) = fst (readUsers s)"
  by (auto simp: readUsers_def split: repo_file.split)

lemma cache_ok_empty [simp]: "ur_cache s = [] \<Longrightarrow> cache_ok s"
  by (simp add: cache_ok_def)

lemma writeUsers_cache: "ur_cache (snd (writeUsers outcome users s)) = []"
  by (auto simp: writeUsers_def split: write_outcome.split)

lemma read_write_ok:
  assumes "cache_ok s" "\<And>users s. cache_ok s \<Longrightarrow> cache_ok (snd (f users s))"
  shows "cache_ok (snd (bind_op readUsers f s))"
  using assms by (cases "readUsers s"; cases "fst (readUsers s)") (auto simp: bind_op_def dest: arg_cong [of _ _ snd])

lemma write_ok: "cache_ok (snd (bind_op (writeUsers outcome users) (\<lambda>_. return_op a) s))"
  using writeUsers_cache [of outcome users s]
  by (cases "writeUsers outcome users s"; cases "fst (writeUsers outcome users s)") (auto simp: bind_op_def)

lemma cached_find_ok:
  assumes ok: "cache_ok s"
    and key: "\<And>users u. List.find P users = Some u \<Longrightarrow>
       (\<exists>h. key = ''handle:'' @ h \<and> List.find (\<lambda>u. handle_matches h u \<and> is_active u) users = Some u)
       \<or> (\<exists>i. key = ''id:'' @ i \<and> List.find (\<lambda>u. field u ''id'' = Str i) users = Some u)"
  shows "cache_ok (snd (cached_find key P cfg now later s))"
proof (cases "cached key cfg now s")
  case (Some u)
  then show ?thesis using ok by (simp add: cached_find_def)
next
  case None
  show ?thesis
  proof (cases "fst (readUsers s)")
    case (Inl e)
    then have "readUsers s = (Inl e, s)" by (simp add: prod_eq_iff)
    then show ?thesis using None ok by (simp add: cached_find_def bind_op_def)
  next
    case (Inr users)
    then have read: "readUsers s = (Inr users, s)" by (simp add: prod_eq_iff)
    show ?thesis
    proof (cases "List.find P users")
      case None
      then show ?thesis using \<open>cached key cfg now s = None\<close> read ok
        by (simp add: cached_find_def bind_op_def read_finish_def)
    next
      case (Some u)
      then have "snd (cached_find key P cfg now later s) = s\<lparr>ur_cache := map_set key (u, later) (ur_cache s)\<rparr>"
        using None read by (simp add: cached_find_def bind_op_def read_finish_def)
      then show ?thesis using ok key [OF Some] Inr unfolding cache_ok_def by (auto split: if_splits)
    qed
  qed
qed

lemma reach_cache_ok: "repo_reach s \<Longrightarrow> cache_ok s"
proof (induction rule: repo_reach.induct)
  case (by_handle s cfg now later handle)
  from by_handle.IH show ?case unfolding findByHandle_def by (rule cached_find_ok) blast
next
  case (by_id s cfg now later uid)
  from by_id.IH show ?case unfolding findById_def by (rule cached_find_ok) blast
next
  case (change s outcome now uid updates)
  from change.IH show ?case unfolding repo_update_def
    by (rule read_write_ok) (auto simp: Let_def write_ok split: option.split)
next
  case (create s bcrypt cfg outcome uid t1 t2 t3 d)
  from create.IH show ?case unfolding repo_create_def by (rule read_write_ok) (auto simp: Let_def write_ok)
next
  case (create_stored s outcome uid t1 a)
  from create_stored.IH show ?case unfolding createStoredUser_def
    by (rule read_write_ok) (auto simp: Let_def write_ok split: js_value.split)
next
  case (remove s outcome uid)
  from remove.IH show ?case unfolding deletePermanently_def
    by (rule read_write_ok) (auto simp: write_ok split: option.split)
qed (simp_all add: clearCache_def)

lemma cached_find_transparent:
  assumes "cache_ok s"
    and key: "\<And>users u. (\<exists>h. key = ''handle:'' @ h \<and> List.find (\<lambda>u. handle_matches h u \<and> is_active u) users = Some u)
       \<or> (\<exists>i. key = ''id:'' @ i \<and> List.find (\<lambda>u. field u ''id'' = Str i) users = Some u)
       \<Longrightarrow> List.find P users = Some u"
  shows "fst (cached_find key P cfg now later s) = fst (cached_find key P cfg now later (s\<lparr>ur_cache := []\<rparr>))"
proof -
  have uncached: "fst (cached_find key P cfg now later (s\<lparr>ur_cache := []\<rparr>))
      = (case fst (readUsers s) of Inl e \<Rightarrow> Inl e | Inr users \<Rightarrow> Inr (List.find P users))" for s
    by (cases "ur_file s")
      (auto simp: cached_find_def cached_def bind_op_def readUsers_def read_finish_def split: option.split)
  show ?thesis
  proof (cases "cached key cfg now s")
    case (Some u)
    then obtain t where "map_of (ur_cache s) key = Some (u, t)"
      by (auto simp: cached_def split: option.splits if_splits)
    then obtain users where "fst (readUsers s) = Inr users" "List.find P users = Some u"
      using assms(1) key unfolding cache_ok_def by meson
    then show ?thesis using Some uncached [of s] by (simp add: cached_find_def)
  next
    case None
    then show ?thesis unfolding uncached
      by (cases "ur_file s")
        (auto simp: cached_find_def bind_op_def readUsers_def read_finish_def split: option.split)
  qed
qed

text \<open>
  C37. The cache is invisible: in every state reached by calls that do not overlap, failed and
  unacknowledged writes included, a lookup by handle or by id answers what the same lookup answers
  with an empty cache, that is, the account as the file holds it.
\<close>
theorem cache_transparent:
  assumes "repo_reach s"
  shows "fst (findByHandle cfg now later handle s) = fst (findByHandle cfg now later handle (s\<lparr>ur_cache := []\<rparr>))
     \<and> fst (findById cfg now later uid s) = fst (findById cfg now later uid (s\<lparr>ur_cache := []\<rparr>))"
  unfolding findByHandle_def findById_def
  by (rule conjI; rule cached_find_transparent [OF reach_cache_ok [OF assms]]) auto

theorem cache_transparent_witness:
  "fst (findById demo_config 1 2 ''1'' (snd (findById demo_config 0 0 ''1'' \<lparr>ur_file = Array_file [demo_account ''x''], ur_cache = []\<rparr>)))
     = Inr (Some (normalized (demo_account ''x'')))
   \<and> ur_cache (snd (findById demo_config 0 0 ''1'' \<lparr>ur_file = Array_file [demo_account ''x''], ur_cache = []\<rparr>)) \<noteq> []"
proof -
  let ?s = "snd (findById demo_config 0 0 ''1'' \<lparr>ur_file = Array_file [demo_account ''x''], ur_cache = []\<rparr>)"
  have "repo_reach ?s" by (rule repo_reach.by_id [OF repo_reach.start])
  from cache_transparent [OF this, of demo_config 1 2 "''1''" "''1''"]
  have "fst (findById demo_config 1 2 ''1'' ?s) = fst (findById demo_config 1 2 ''1'' (?s\<lparr>ur_cache := []\<rparr>))" by blast
  moreover have "fst (findById demo_config 1 2 ''1'' (?s\<lparr>ur_cache := []\<rparr>)) = Inr (Some (normalized (demo_account ''x'')))"
    by code_simp
  moreover have "ur_cache ?s \<noteq> []" by code_simp
  ultimately show ?thesis by simp
qed

section \<open>What is not promised\<close>

text \<open>
  A lookup that waits for the file while an update completes puts what it read before into the
  cache: for the lifetime of the entry the old password hash answers, and the new one does not.
\<close>

lemma stale_entry_after_overlap:
  "let users = projr (fst (readUsers \<lparr>ur_file = Array_file [demo_account ''old''], ur_cache = []\<rparr>));
       s1 = snd (repo_updatePassword (\<lambda>pw n. pw) demo_config Write_done 5 ''1'' ''new''
              \<lparr>ur_file = Array_file [demo_account ''old''], ur_cache = []\<rparr>);
       s2 = snd (read_finish ''handle:ann'' (\<lambda>u. handle_matches ''ann'' u \<and> is_active u) 6 users s1);
       found = projr (fst (findByHandle demo_config 7 8 ''ann'' s2))
   in map_option (\<lambda>u. field u ''passwordHash'') found = Some (Str ''old'')
      \<and> map_option (\<lambda>u. field u ''passwordHash'')
          (projr (fst (findByHandle demo_config 7 8 ''ann'' s1))) = Some (Str ''new'')"
  by code_simp

text \<open>An update may give an account the handle of another one; the second is then hidden.\<close>

lemma update_takes_a_handle:
  "let s = \<lparr>ur_file = Array_file [[(''id'', Str ''1''), (''handle'', Str ''ann'')], [(''id'', Str ''2''), (''handle'', Str ''bob'')]],
            ur_cache = []\<rparr>
   in case repo_update Write_done 5 ''1'' [(''handle'', Str ''bob'')] s of
        (Inr u, s') \<Rightarrow> map_option (\<lambda>u. field u ''id'') (projr (fst (findByHandle demo_config 6 7 ''bob'' s')))
            = Some (Str ''1'')
      | _ \<Rightarrow> False"
  by code_simp

text \<open>\<open>findByEmail\<close> compares user names, so the email of an account does not find it; \<open>create\<close> drops the email.\<close>

lemma email_lookup_ignores_email:
  "fst (findByEmail ''a@b'' \<lparr>ur_file = Array_file [[(''id'', Str ''1''), (''username'', Str ''ann''), (''email'', Str ''a@b'')]],
      ur_cache = []\<rparr>) = Inr None"
  by code_simp

lemma create_drops_email:
  "fst (repo_create bcrypt cfg outcome uid t1 t2 t3 d s) = Inr u \<Longrightarrow> field u ''email'' = Undefined"
proof -
  have none: "field (created_account uid t1 t2 t3 h d) ''email'' = Undefined" for h
    by (simp add: created_account_def field_def)
  show "fst (repo_create bcrypt cfg outcome uid t1 t2 t3 d s) = Inr u \<Longrightarrow> field u ''email'' = Undefined"
    by (cases "ur_file s"; cases outcome)
      (auto simp: repo_create_def readUsers_def bind_op_def writeUsers_def Let_def none split: if_splits)
qed

end
