(* ===== verification/Canonical_Json.thy ===== *)
theory Canonical_Json
  imports Json_Text "HOL-Library.List_Lexorder" "HOL-Library.Char_ord"
begin

text \<open>
  JSON values and their canonical text, with object keys sorted as \<open>Array.prototype.sort\<close> sorts
  them: by their code units. The coordinators hash and seal this text.

  Numbers are integers here: versions, steps and times.
\<close>

datatype json =
    JNull | JBool bool | JNum int | JStr string | JArr "json list" | JObj "(string \<times> json) list"

definition json_bool :: "bool \<Rightarrow> string" where
  "json_bool b = (if b then ''true'' else ''false'')"

definition json_braces :: "string \<Rightarrow> string" where
  "json_braces s = ''{'' @ s @ ''}''"

text \<open>\<open>JSON.stringify\<close>: the keys in the order of the object.\<close>

fun stringify :: "json \<Rightarrow> string" where
  "stringify JNull = ''null''"
| "stringify (JBool b) = json_bool b"
| "stringify (JNum n) = show_int n"
| "stringify (JStr s) = json_string s"
| "stringify (JArr xs) = ''['' @ json_join (map stringify xs) @ '']''"
| "stringify (JObj kvs) =
     json_braces (json_join (map (\<lambda>(k, v). json_string k @ '':'' @ stringify v) kvs))"

text \<open>The canonical text: keys sorted.\<close>

fun encoded :: "json \<Rightarrow> string" where
  "encoded JNull = ''null''"
| "encoded (JBool b) = json_bool b"
| "encoded (JNum n) = show_int n"
| "encoded (JStr s) = json_string s"
| "encoded (JArr xs) = ''['' @ json_join (map encoded xs) @ '']''"
| "encoded (JObj kvs) =
     json_braces (json_join (map (\<lambda>(k, t). json_string k @ '':'' @ t)
       (sort_key fst (map (\<lambda>(k, v). (k, encoded v)) kvs))))"

text \<open>An optional property is left out of an object when it is undefined.\<close>

definition opt_key :: "string \<Rightarrow> ('a \<Rightarrow> json) \<Rightarrow> 'a option \<Rightarrow> (string \<times> json) list" where
  "opt_key k f v = (case v of None \<Rightarrow> [] | Some a \<Rightarrow> [(k, f a)])"

text \<open>The order in which an object's properties were written does not show in its canonical text.\<close>

lemma encoded_order:
  assumes "distinct (map fst kvs)" "distinct (map fst kvs')" "set kvs = set kvs'"
  shows "encoded (JObj kvs) = encoded (JObj kvs')"
proof -
  let ?f = "\<lambda>(k, v). (k, encoded v)"
  have keys: "map fst (map ?f xs) = map fst xs" for xs :: "(string \<times> json) list"
    by (simp add: comp_def split_def)
  have inj: "inj_on fst (set (map ?f kvs))"
    using assms(1) keys [of kvs] by (metis distinct_map)
  have dist: "distinct (map ?f kvs)" "distinct (map ?f kvs')"
    using assms(1,2) keys [of kvs] keys [of kvs'] by (metis distinct_map)+
  have sets: "set (map ?f kvs') = set (map ?f kvs)" using assms(3) by simp
  have "sort_key fst (map ?f kvs) = sort_key fst (map ?f kvs')"
    by (rule map_sorted_distinct_set_unique [where f = fst])
      (use inj sets dist in \<open>simp_all only: set_sort set_map sorted_sort_key distinct_map distinct_sort Un_absorb\<close>)
  then show ?thesis by simp
qed

end
