(* ===== verification/Totp_Material.thy ===== *)
theory Totp_Material
  imports Canonical_Json Session_Policy
begin

text \<open>
  The digests of second-factor material, \<open>src/storage/totp-retirement-material.ts\<close>: the shape a
  stored factor and a set of recovery codes must have to be retired, and what is hashed of them.
  SHA-256 and the text of a timestamp are arguments.
\<close>

record material_env =
  me_sha256 :: "string \<Rightarrow> string"
  me_stamp :: "stamp \<Rightarrow> string"

definition material_error :: "error" where
  "material_error = Error ''Invalid retirement material''"

definition material_text :: "string \<Rightarrow> bool" where
  "material_text s \<longleftrightarrow> s \<noteq> [] \<and> length s \<le> 16384 \<and> \<not> has_nul s"

definition material_timestamp :: "material_env \<Rightarrow> stamp \<Rightarrow> bool" where
  "material_timestamp env t \<longleftrightarrow> material_text (me_stamp env t) \<and> finite_date t"

definition retirementMaterialDigest :: "material_env \<Rightarrow> string \<Rightarrow> json \<Rightarrow> string" where
  "retirementMaterialDigest env domain v =
     me_sha256 env (''tinyland-auth:totp-retirement:'' @ domain @ '':v1'' @ [CHR 0x00] @ encoded v)"

definition assertRetirementFactor :: "material_env \<Rightarrow> encrypted_totp_secret \<Rightarrow> bool" where
  "assertRetirementFactor env v \<longleftrightarrow>
     list_all material_text [ts_userId v, ts_handle v, ts_encryptedSecret v, ts_iv v, ts_authTag v, ts_salt v]
     \<and> material_timestamp env (ts_createdAt v) \<and> ts_version v = 1
     \<and> (case ts_lastUsedAt v of None \<Rightarrow> True | Some t \<Rightarrow> material_timestamp env t)
     \<and> (case ts_lastUsedTotpStep v of None \<Rightarrow> True | Some n \<Rightarrow> isSafeInteger n \<and> n \<ge> 0)"

text \<open>The loop of \<open>assertRetirementBackupCodes\<close> with the ids and hashes seen so far.\<close>

fun distinct_codes ::
  "material_env \<Rightarrow> string list \<Rightarrow> string list \<Rightarrow> encrypted_backup_code list \<Rightarrow> bool" where
  "distinct_codes env ids hashes [] = True"
| "distinct_codes env ids hashes (code # cs) =
     (material_text (bc_id code) \<and> is_sha256_hex (bc_hash code) \<and> bc_id code \<notin> set ids
      \<and> bc_hash code \<notin> set hashes
      \<and> (case bc_usedAt code of None \<Rightarrow> True | Some t \<Rightarrow> material_timestamp env t)
      \<and> distinct_codes env (bc_id code # ids) (bc_hash code # hashes) cs)"

definition assertRetirementBackupCodes :: "material_env \<Rightarrow> backup_code_set \<Rightarrow> bool" where
  "assertRetirementBackupCodes env v \<longleftrightarrow>
     material_text (bs_userId v) \<and> material_timestamp env (bs_generatedAt v)
     \<and> (case bs_lastUsedAt v of None \<Rightarrow> True | Some t \<Rightarrow> material_timestamp env t)
     \<and> length (bs_codes v) \<le> 256 \<and> distinct_codes env [] [] (bs_codes v)"

text \<open>The material without and with the use of the factor.\<close>

definition generation_fields :: "material_env \<Rightarrow> encrypted_totp_secret \<Rightarrow> (string \<times> json) list" where
  "generation_fields env v =
     [(''userId'', JStr (ts_userId v)), (''handle'', JStr (ts_handle v)),
      (''encryptedSecret'', JStr (ts_encryptedSecret v)), (''iv'', JStr (ts_iv v)),
      (''authTag'', JStr (ts_authTag v)), (''salt'', JStr (ts_salt v)),
      (''createdAt'', JStr (me_stamp env (ts_createdAt v))),
      (''backupCodesGenerated'', JBool (ts_backupCodesGenerated v)), (''version'', JNum (ts_version v))]"

definition factor_json :: "material_env \<Rightarrow> encrypted_totp_secret \<Rightarrow> json" where
  "factor_json env v =
     JObj (generation_fields env v @ opt_key ''lastUsedAt'' (\<lambda>t. JStr (me_stamp env t)) (ts_lastUsedAt v)
       @ opt_key ''lastUsedTotpStep'' JNum (ts_lastUsedTotpStep v))"

definition code_json :: "material_env \<Rightarrow> encrypted_backup_code \<Rightarrow> json" where
  "code_json env c =
     JObj ([(''id'', JStr (bc_id c)), (''hash'', JStr (bc_hash c)), (''used'', JBool (bc_used c))]
       @ opt_key ''usedAt'' (\<lambda>t. JStr (me_stamp env t)) (bc_usedAt c))"

definition codes_json :: "material_env \<Rightarrow> backup_code_set \<Rightarrow> json" where
  "codes_json env v =
     JObj ([(''userId'', JStr (bs_userId v)), (''codes'', JArr (map (code_json env) (bs_codes v))),
            (''generatedAt'', JStr (me_stamp env (bs_generatedAt v)))]
       @ opt_key ''lastUsedAt'' (\<lambda>t. JStr (me_stamp env t)) (bs_lastUsedAt v))"

definition totpRetirementFactorGeneration :: "material_env \<Rightarrow> encrypted_totp_secret \<Rightarrow> string result" where
  "totpRetirementFactorGeneration env factor =
     (if \<not> assertRetirementFactor env factor then Inl material_error
      else Inr (retirementMaterialDigest env ''factor-generation'' (JObj (generation_fields env factor))))"

definition totpRetirementFactorSnapshotDigest :: "material_env \<Rightarrow> encrypted_totp_secret \<Rightarrow> string result" where
  "totpRetirementFactorSnapshotDigest env factor =
     (if \<not> assertRetirementFactor env factor then Inl material_error
      else Inr (retirementMaterialDigest env ''factor-snapshot'' (factor_json env factor)))"

definition totpRetirementRecoverySetDigest :: "material_env \<Rightarrow> backup_code_set option \<Rightarrow> string option result" where
  "totpRetirementRecoverySetDigest env codes =
     (case codes of
        None \<Rightarrow> Inr None
      | Some v \<Rightarrow>
          if \<not> assertRetirementBackupCodes env v then Inl material_error
          else Inr (Some (retirementMaterialDigest env ''recovery-set'' (codes_json env v))))"

text \<open>Using the factor changes its snapshot and not its generation.\<close>

lemma generation_ignores_use:
  "assertRetirementFactor env v \<Longrightarrow> assertRetirementFactor env (v\<lparr>ts_lastUsedAt := a, ts_lastUsedTotpStep := n\<rparr>)
   \<Longrightarrow> totpRetirementFactorGeneration env (v\<lparr>ts_lastUsedAt := a, ts_lastUsedTotpStep := n\<rparr>) = totpRetirementFactorGeneration env v"
  by (simp add: totpRetirementFactorGeneration_def generation_fields_def)

lemma distinct_codes_iff:
  "distinct_codes env ids hashes cs \<longleftrightarrow>
     list_all (\<lambda>c. material_text (bc_id c) \<and> is_sha256_hex (bc_hash c)
       \<and> (case bc_usedAt c of None \<Rightarrow> True | Some t \<Rightarrow> material_timestamp env t)) cs
     \<and> distinct (map bc_id cs) \<and> distinct (map bc_hash cs)
     \<and> set (map bc_id cs) \<inter> set ids = {} \<and> set (map bc_hash cs) \<inter> set hashes = {}"
  by (induction cs arbitrary: ids hashes) auto

end
