(* ===== verification/Totp_Retirement.thy ===== *)
theory Totp_Retirement
  imports Totp_Material File_Storage Security
begin

text \<open>
  Retirement of a second factor, \<open>src/storage/file-totp-retirement.ts\<close>: a record of the decision
  is sealed and committed to a journal first, then sessions, factor, recovery codes and flags go,
  then the record is marked as applied. A run that stopped anywhere is finished by the next one.

  The storage is any provider of \<open>TotpRetirementStorage\<close>; its operations may fail, and may have
  done their work when they fail. The journal is a map from file names to contents. HMAC, SHA-256,
  the key, the clock readings and the outcome of every file-system call on the journal are
  arguments. The exclusive gate makes a call atomic with respect to other calls; the temporary
  file of a failed publication is removed.
\<close>

section \<open>Types\<close>

datatype retirement_code = INVALID | UNAUTHORIZED | CONFLICT | RECOVERY_REQUIRED

text \<open>Errors of the storage and of the caller's callbacks pass through as they are.\<close>

datatype retirement_error = TotpRetirementError (retirement_code: retirement_code) | Foreign error

record 's retirement_ops =
  rto_getAllUsers :: "('s, admin_user list) op"
  rto_getSession :: "string \<Rightarrow> ('s, session option) op"
  rto_getTOTPSecret :: "string \<Rightarrow> ('s, encrypted_totp_secret option) op"
  rto_getBackupCodes :: "string \<Rightarrow> ('s, backup_code_set option) op"
  rto_getSessionsByUser :: "string \<Rightarrow> ('s, session list) op"
  rto_deleteUserSessions :: "string \<Rightarrow> ('s, int) op"
  rto_deleteTOTPSecretExpected :: "string \<Rightarrow> string \<Rightarrow> ('s, unit) op"
  rto_deleteBackupCodesExpected :: "string \<Rightarrow> string option \<Rightarrow> ('s, unit) op"
  rto_clearTotpFlagsExpected :: "string \<Rightarrow> string \<Rightarrow> ('s, unit) op"

record retirement_binding =
  rb_userId :: string
  rb_handle :: string
  rb_sessionId :: string

record authorization_context =
  ac_user :: admin_user
  ac_session :: session
  ac_factorGeneration :: string
  ac_recoverySetDigest :: "string option"

record consumed_authorization =
  ca_receiptId :: string
  ca_actorId :: string
  ca_action :: string
  ca_resourceId :: string
  ca_factorBinding :: string

text \<open>\<open>Malformed_authorization\<close> is any other value the callback answers.\<close>

datatype 'r authorization =
    Consumed_authorization consumed_authorization | Not_consumed 'r | Malformed_authorization

record retirement_receipt =
  tr_operationId :: string
  tr_userId :: string
  tr_handle :: string
  tr_factorGeneration :: string
  tr_committedAt :: stamp
  tr_appliedAt :: stamp

datatype 'r retirement_result = Retired retirement_receipt | Not_retired 'r

record committed =
  cm_operationId :: string
  cm_userId :: string
  cm_handle :: string
  cm_factorGeneration :: string
  cm_factorSnapshotDigest :: string
  cm_recoverySetDigest :: "string option"
  cm_authorizationDigest :: string
  cm_factorBinding :: string
  cm_committedAt :: stamp

datatype retirement_record = Committed committed | Applied string retirement_receipt

definition RETIREMENT_MAX_RECORDS :: nat where "RETIREMENT_MAX_RECORDS = 4096"
definition RETIREMENT_MAX_BYTES :: nat where "RETIREMENT_MAX_BYTES = 8192"

text \<open>A journal file that is not a sealed envelope of version 1 is \<open>Unreadable\<close>.\<close>

datatype journal_file = Sealed retirement_record string | Unreadable

type_synonym journal = "journal_file jsmap"

record 's retirement_state =
  rw_store :: 's
  rw_journal :: journal

type_synonym ('s, 'a) retirement_op = "(retirement_error, 's retirement_state, 'a) fallible"

record retirement_env =
  re_key :: "string result"
  re_hmac :: "string \<Rightarrow> string \<Rightarrow> string"
  re_material :: material_env

text \<open>
  The answers of the file system: whether the directory could be prepared and opened, which of its
  entries are regular files and readable, and the outcome of publishing a record.
  \<open>Journal_unacknowledged\<close> is a rename whose directory sync failed.
\<close>

datatype journal_outcome = Journal_done | Journal_unacknowledged | Journal_refused

record retirement_io =
  ri_prepare :: bool
  ri_open :: "unit result"
  ri_regular :: "string \<Rightarrow> bool"
  ri_readable :: "string \<Rightarrow> bool"
  ri_commit :: journal_outcome
  ri_apply :: "string \<Rightarrow> journal_outcome"

section \<open>Checks\<close>

definition fail_with :: "retirement_code \<Rightarrow> (retirement_error, 's, 'a) fallible" where
  "fail_with code = throw_op (TotpRetirementError code)"

definition require :: "bool \<Rightarrow> retirement_code \<Rightarrow> (retirement_error, 's, unit) fallible" where
  "require b code = (if b then return_op () else fail_with code)"

definition in_store :: "('s, 'a) op \<Rightarrow> ('s, 'a) retirement_op" where
  "in_store m w =
     (let (r, s) = m (rw_store w)
      in (case r of Inl e \<Rightarrow> Inl (Foreign e) | Inr a \<Rightarrow> Inr a, w\<lparr>rw_store := s\<rparr>))"

definition retirement_text :: "string \<Rightarrow> bool" where
  "retirement_text v \<longleftrightarrow> v \<noteq> [] \<and> length v \<le> 256 \<and> \<not> has_nul v"

definition retirement_component :: "string \<Rightarrow> bool" where
  "retirement_component v \<longleftrightarrow> retirement_text v \<and> list_all is_word_dash v"

definition retirement_stamp :: "retirement_env \<Rightarrow> stamp \<Rightarrow> bool" where
  "retirement_stamp env t \<longleftrightarrow> retirement_text (me_stamp (re_material env) t) \<and> finite_date t"

definition parse_less :: "stamp \<Rightarrow> stamp \<Rightarrow> bool" where
  "parse_less a b = (case (date_parse a, date_parse b) of (Some x, Some y) \<Rightarrow> x < y | _ \<Rightarrow> False)"

definition receipt_ok :: "retirement_env \<Rightarrow> retirement_receipt \<Rightarrow> bool" where
  "receipt_ok env v \<longleftrightarrow>
     is_sha256_hex (tr_operationId v) \<and> retirement_component (tr_userId v) \<and> retirement_component (tr_handle v)
     \<and> is_sha256_hex (tr_factorGeneration v) \<and> retirement_stamp env (tr_committedAt v)
     \<and> retirement_stamp env (tr_appliedAt v) \<and> \<not> parse_less (tr_appliedAt v) (tr_committedAt v)"

fun record_ok :: "retirement_env \<Rightarrow> retirement_record \<Rightarrow> bool" where
  "record_ok env (Applied authorizationDigest receipt) \<longleftrightarrow>
     is_sha256_hex authorizationDigest \<and> receipt_ok env receipt"
| "record_ok env (Committed c) \<longleftrightarrow>
     retirement_component (cm_userId c) \<and> retirement_component (cm_handle c) \<and> retirement_stamp env (cm_committedAt c)
     \<and> list_all is_sha256_hex [cm_operationId c, cm_factorGeneration c, cm_factorSnapshotDigest c,
                               cm_authorizationDigest c, cm_factorBinding c]
     \<and> (case cm_recoverySetDigest c of None \<Rightarrow> True | Some d \<Rightarrow> is_sha256_hex d)"

definition is_reference :: "string \<Rightarrow> bool" where
  "is_reference s \<longleftrightarrow> length s = 43 \<and> list_all is_word_dash s"

definition authorization_check :: "consumed_authorization \<Rightarrow> retirement_binding \<Rightarrow> (retirement_error, 's, unit) fallible" where
  "authorization_check v b =
     bind_op (require (ca_action v = ''factor.disable'' \<and> ca_actorId v = rb_userId b
                \<and> ca_resourceId v = rb_userId b \<and> is_reference (ca_receiptId v)) UNAUTHORIZED) (\<lambda>_.
     require (is_sha256_hex (ca_factorBinding v)) INVALID)"

text \<open>The parts of an account whose change withdraws the authority to retire.\<close>

definition null_or :: "('a \<Rightarrow> json) \<Rightarrow> 'a option \<Rightarrow> json" where
  "null_or f v = (case v of None \<Rightarrow> JNull | Some a \<Rightarrow> f a)"

definition principal_json :: "material_env \<Rightarrow> admin_user \<Rightarrow> json" where
  "principal_json env u =
     JObj [(''id'', JStr (u_id u)), (''handle'', JStr (u_handle u)), (''passwordHash'', JStr (u_passwordHash u)),
           (''githubId'', null_or JNum (u_githubId u)), (''githubLogin'', null_or JStr (u_githubLogin u)),
           (''githubLinkedAt'', null_or (\<lambda>t. JStr (me_stamp env t)) (u_githubLinkedAt u)),
           (''role'', JStr (u_role u)), (''permissions'', null_or (\<lambda>ps. JArr (map JStr ps)) (u_permissions u)),
           (''isActive'', JBool (u_isActive u)), (''isLocked'', null_or JBool (u_isLocked u)),
           (''needsOnboarding'', JBool (u_needsOnboarding u)), (''firstLogin'', null_or JBool (u_firstLogin u)),
           (''removedAt'', JNull), (''removedBy'', JNull), (''totpEnabled'', JBool (u_totpEnabled u)),
           (''totpSecretId'', null_or JStr (u_totpSecretId u))]"

definition principalDigest :: "retirement_env \<Rightarrow> admin_user \<Rightarrow> string" where
  "principalDigest env u = retirementMaterialDigest (re_material env) ''principal'' (principal_json (re_material env) u)"

section \<open>The journal\<close>

definition retirement_now :: "int \<Rightarrow> (retirement_error, 's, int) fallible" where
  "retirement_now now =
     (if \<not> isSafeInteger now \<or> \<bar>now\<bar> > 8640000000000000 then fail_with RECOVERY_REQUIRED else return_op now)"

definition mac :: "retirement_env \<Rightarrow> string \<Rightarrow> string \<Rightarrow> (retirement_error, 's, string) fallible" where
  "mac env domain v =
     (case re_key env of
        Inl e \<Rightarrow> throw_op (Foreign e)
      | Inr k \<Rightarrow>
          if length (utf8 k) < 32 then fail_with RECOVERY_REQUIRED
          else return_op (re_hmac env k (''tinyland-auth:totp-retirement:'' @ domain @ '':v1'' @ [CHR 0x00] @ v)))"

text \<open>\<open>JSON.stringify\<close> of a record, with its keys in the order the code writes them.\<close>

definition receipt_json :: "retirement_env \<Rightarrow> retirement_receipt \<Rightarrow> json" where
  "receipt_json env r =
     JObj [(''version'', JNum 1), (''operationId'', JStr (tr_operationId r)), (''userId'', JStr (tr_userId r)),
           (''handle'', JStr (tr_handle r)), (''factorGeneration'', JStr (tr_factorGeneration r)),
           (''committedAt'', JStr (me_stamp (re_material env) (tr_committedAt r))),
           (''appliedAt'', JStr (me_stamp (re_material env) (tr_appliedAt r)))]"

fun retirement_json :: "retirement_env \<Rightarrow> retirement_record \<Rightarrow> json" where
  "retirement_json env (Committed c) =
     JObj [(''version'', JNum 1), (''state'', JStr ''committed''), (''operationId'', JStr (cm_operationId c)),
           (''userId'', JStr (cm_userId c)), (''handle'', JStr (cm_handle c)),
           (''authorizationDigest'', JStr (cm_authorizationDigest c)), (''factorBinding'', JStr (cm_factorBinding c)),
           (''factorGeneration'', JStr (cm_factorGeneration c)),
           (''factorSnapshotDigest'', JStr (cm_factorSnapshotDigest c)),
           (''recoverySetDigest'', null_or JStr (cm_recoverySetDigest c)),
           (''committedAt'', JStr (me_stamp (re_material env) (cm_committedAt c)))]"
| "retirement_json env (Applied authorizationDigest receipt) =
     JObj [(''version'', JNum 1), (''state'', JStr ''applied''), (''authorizationDigest'', JStr authorizationDigest),
           (''receipt'', receipt_json env receipt)]"

fun record_id :: "retirement_record \<Rightarrow> string" where
  "record_id (Committed c) = cm_operationId c"
| "record_id (Applied a receipt) = tr_operationId receipt"

definition journal_name :: "string \<Rightarrow> string" where
  "journal_name operationId = operationId @ ''.json''"

definition is_journal_name :: "string \<Rightarrow> bool" where
  "is_journal_name s \<longleftrightarrow> length s = 69 \<and> list_all is_lower_hex (take 64 s) \<and> drop 64 s = ''.json''"

definition is_journal_temporary :: "string \<Rightarrow> bool" where
  "is_journal_temporary s \<longleftrightarrow>
     length s = 98 \<and> list_all is_lower_hex (take 64 s) \<and> take 6 (drop 64 s) = ''.json.''
     \<and> list_all is_lower_hex (take 24 (drop 70 s)) \<and> drop 94 s = ''.tmp''"

definition journal_prepare :: "retirement_io \<Rightarrow> ('s, unit) retirement_op" where
  "journal_prepare io = require (ri_prepare io) RECOVERY_REQUIRED"

text \<open>The loop of \<open>filenames\<close>: the entries seen so far and the names taken.\<close>

fun scan_names :: "retirement_io \<Rightarrow> nat \<Rightarrow> string list \<Rightarrow> string list \<Rightarrow> (retirement_error, 's, string list) fallible" where
  "scan_names io count names [] = return_op names"
| "scan_names io count names (item # items) =
     (if count + 1 > RETIREMENT_MAX_RECORDS * 2 then fail_with RECOVERY_REQUIRED
      else if is_journal_temporary item \<and> ri_regular io item then scan_names io (count + 1) names items
      else if \<not> is_journal_name item \<or> \<not> ri_regular io item \<or> length names \<ge> RETIREMENT_MAX_RECORDS
      then fail_with RECOVERY_REQUIRED
      else scan_names io (count + 1) (names @ [item]) items)"

definition filenames :: "retirement_io \<Rightarrow> ('s, string list) retirement_op" where
  "filenames io = (\<lambda>w.
     case ri_open io of
       Inl e \<Rightarrow> (Inl (Foreign e), w)
     | Inr _ \<Rightarrow> bind_op (scan_names io 0 [] (map fst (rw_journal w))) (\<lambda>names. return_op (sort names)) w)"

definition journal_read :: "retirement_env \<Rightarrow> retirement_io \<Rightarrow> string \<Rightarrow> ('s, retirement_record option) retirement_op" where
  "journal_read env io operationId =
     bind_op (require (is_sha256_hex operationId) INVALID) (\<lambda>_ w.
       case map_of (rw_journal w) (journal_name operationId) of
         None \<Rightarrow> (Inr None, w)
       | Some file \<Rightarrow>
           if \<not> ri_readable io (journal_name operationId) then (Inl (TotpRetirementError RECOVERY_REQUIRED), w)
           else case file of
                  Unreadable \<Rightarrow> (Inl (TotpRetirementError RECOVERY_REQUIRED), w)
                | Sealed r seal \<Rightarrow>
                    if \<not> record_ok env r \<or> \<not> is_sha256_hex seal then (Inl (TotpRetirementError RECOVERY_REQUIRED), w)
                    else catch_op
                      (bind_op (mac env ''seal'' (stringify (retirement_json env r))) (\<lambda>expected.
                         if seal \<noteq> expected \<or> record_id r \<noteq> operationId then fail_with INVALID
                         else return_op (Some r)))
                      (\<lambda>_. fail_with RECOVERY_REQUIRED) w)"

definition journal_body :: "retirement_env \<Rightarrow> retirement_record \<Rightarrow> string \<Rightarrow> string" where
  "journal_body env r seal =
     stringify (JObj [(''version'', JNum 1), (''record'', retirement_json env r), (''seal'', JStr seal)])"

definition journal_write ::
  "retirement_env \<Rightarrow> journal_outcome \<Rightarrow> retirement_record \<Rightarrow> ('s, unit) retirement_op" where
  "journal_write env outcome r =
     bind_op (require (record_ok env r) INVALID) (\<lambda>_.
     bind_op (mac env ''seal'' (stringify (retirement_json env r))) (\<lambda>seal.
     bind_op (require (length (utf8 (journal_body env r seal)) \<le> RETIREMENT_MAX_BYTES) INVALID) (\<lambda>_ w.
       let written = w\<lparr>rw_journal := map_set (journal_name (record_id r)) (Sealed r seal) (rw_journal w)\<rparr>
       in case outcome of
            Journal_done \<Rightarrow> (Inr (), written)
          | Journal_unacknowledged \<Rightarrow> (Inl (TotpRetirementError RECOVERY_REQUIRED), written)
          | Journal_refused \<Rightarrow> (Inl (TotpRetirementError RECOVERY_REQUIRED), w))))"

section \<open>Applying a committed record\<close>

definition owner :: "'s retirement_ops \<Rightarrow> string \<Rightarrow> string \<Rightarrow> ('s, admin_user) retirement_op" where
  "owner st userId handle =
     bind_op (in_store (rto_getAllUsers st)) (\<lambda>users.
       case filter (\<lambda>u. u_id u = userId \<or> u_handle u = handle) users of
         [u] \<Rightarrow> if u_id u \<noteq> userId \<or> u_handle u \<noteq> handle then fail_with CONFLICT else return_op u
       | _ \<Rightarrow> fail_with CONFLICT)"

definition factor_matches :: "retirement_env \<Rightarrow> committed \<Rightarrow> encrypted_totp_secret \<Rightarrow> bool" where
  "factor_matches env v factor \<longleftrightarrow>
     ts_userId factor = cm_userId v \<and> ts_handle factor = cm_handle v
     \<and> totpRetirementFactorGeneration (re_material env) factor = Inr (cm_factorGeneration v)
     \<and> totpRetirementFactorSnapshotDigest (re_material env) factor = Inr (cm_factorSnapshotDigest v)"

definition codes_match :: "retirement_env \<Rightarrow> committed \<Rightarrow> backup_code_set \<Rightarrow> bool" where
  "codes_match env v codes \<longleftrightarrow>
     bs_userId codes = cm_userId v
     \<and> totpRetirementRecoverySetDigest (re_material env) (Some codes) = Inr (cm_recoverySetDigest v)"

definition option_ok :: "('a \<Rightarrow> bool) \<Rightarrow> 'a option \<Rightarrow> bool" where
  "option_ok P v = (case v of None \<Rightarrow> True | Some a \<Rightarrow> P a)"

definition applied_receipt :: "committed \<Rightarrow> int \<Rightarrow> retirement_receipt" where
  "applied_receipt v now =
     \<lparr>tr_operationId = cm_operationId v, tr_userId = cm_userId v, tr_handle = cm_handle v,
      tr_factorGeneration = cm_factorGeneration v, tr_committedAt = cm_committedAt v, tr_appliedAt = Iso now\<rparr>"

text \<open>The body of the \<open>try\<close> in \<open>apply\<close>, in its four stages.\<close>

definition apply_checks :: "'s retirement_ops \<Rightarrow> retirement_env \<Rightarrow> committed \<Rightarrow> ('s, unit) retirement_op" where
  "apply_checks st env v =
     bind_op (owner st (cm_userId v) (cm_handle v)) (\<lambda>user.
     bind_op (require (totp_flags_clearable user (cm_handle v)) CONFLICT) (\<lambda>_.
     bind_op (in_store (rto_getTOTPSecret st (cm_handle v))) (\<lambda>factor.
     bind_op (in_store (rto_getBackupCodes st (cm_userId v))) (\<lambda>codes.
       require (option_ok (factor_matches env v) factor \<and> option_ok (codes_match env v) codes) CONFLICT))))"

definition apply_changes :: "'s retirement_ops \<Rightarrow> committed \<Rightarrow> ('s, unit) retirement_op" where
  "apply_changes st v =
     bind_op (in_store (rto_deleteUserSessions st (cm_userId v))) (\<lambda>_.
     bind_op (in_store (rto_getSessionsByUser st (cm_userId v))) (\<lambda>left.
     bind_op (require (left = []) RECOVERY_REQUIRED) (\<lambda>_.
     bind_op (in_store (rto_deleteTOTPSecretExpected st (cm_handle v) (cm_factorSnapshotDigest v))) (\<lambda>_.
     bind_op (in_store (rto_deleteBackupCodesExpected st (cm_userId v) (cm_recoverySetDigest v))) (\<lambda>_.
       in_store (rto_clearTotpFlagsExpected st (cm_userId v) (cm_handle v)))))))"

definition apply_confirms :: "'s retirement_ops \<Rightarrow> committed \<Rightarrow> ('s, unit) retirement_op" where
  "apply_confirms st v =
     bind_op (in_store (rto_getTOTPSecret st (cm_handle v))) (\<lambda>factor.
     bind_op (require (factor = None) RECOVERY_REQUIRED) (\<lambda>_.
     bind_op (in_store (rto_getBackupCodes st (cm_userId v))) (\<lambda>codes.
     bind_op (require (codes = None) RECOVERY_REQUIRED) (\<lambda>_.
     bind_op (in_store (rto_getSessionsByUser st (cm_userId v))) (\<lambda>left.
     bind_op (require (left = []) RECOVERY_REQUIRED) (\<lambda>_.
     bind_op (owner st (cm_userId v) (cm_handle v)) (\<lambda>after.
       require (\<not> u_totpEnabled after \<and> \<not> truthy (u_totpSecretId after)) RECOVERY_REQUIRED)))))))"

definition apply_records ::
  "retirement_env \<Rightarrow> retirement_io \<Rightarrow> int \<Rightarrow> committed \<Rightarrow> ('s, retirement_receipt) retirement_op" where
  "apply_records env io now v =
     bind_op (retirement_now now) (\<lambda>now.
       let result = applied_receipt v now in
       bind_op (require (receipt_ok env result) INVALID) (\<lambda>_.
       bind_op (journal_write env (ri_apply io (cm_operationId v)) (Applied (cm_authorizationDigest v) result)) (\<lambda>_.
         return_op result)))"

definition retirement_apply ::
  "'s retirement_ops \<Rightarrow> retirement_env \<Rightarrow> retirement_io \<Rightarrow> int \<Rightarrow> committed \<Rightarrow> ('s, retirement_receipt) retirement_op" where
  "retirement_apply st env io now v =
     catch_op
       (bind_op (apply_checks st env v) (\<lambda>_.
        bind_op (apply_changes st v) (\<lambda>_.
        bind_op (apply_confirms st v) (\<lambda>_.
          apply_records env io now v))))
       (\<lambda>_. fail_with RECOVERY_REQUIRED)"

fun recover_names ::
  "'s retirement_ops \<Rightarrow> retirement_env \<Rightarrow> retirement_io \<Rightarrow> (string \<Rightarrow> int) \<Rightarrow> string list \<Rightarrow> ('s, unit) retirement_op" where
  "recover_names st env io clock [] = return_op ()"
| "recover_names st env io clock (name # names) =
     bind_op (journal_read env io (take (length name - 5) name)) (\<lambda>value.
       case value of
         None \<Rightarrow> fail_with RECOVERY_REQUIRED
       | Some (Applied a r) \<Rightarrow> recover_names st env io clock names
       | Some (Committed v) \<Rightarrow>
           bind_op (retirement_apply st env io (clock name) v) (\<lambda>_. recover_names st env io clock names))"

definition retirement_recover ::
  "'s retirement_ops \<Rightarrow> retirement_env \<Rightarrow> retirement_io \<Rightarrow> (string \<Rightarrow> int) \<Rightarrow> ('s, unit) retirement_op" where
  "retirement_recover st env io clock =
     bind_op (journal_prepare io) (\<lambda>_.
     bind_op (filenames io) (\<lambda>names. recover_names st env io clock names))"

section \<open>Retiring\<close>

definition session_current :: "retirement_binding \<Rightarrow> session \<Rightarrow> bool" where
  "session_current b session \<longleftrightarrow>
     s_id session = rb_sessionId b \<and> s_userId session = rb_userId b
     \<and> (case s_user session of None \<Rightarrow> True
        | Some u \<Rightarrow> su_id u = rb_userId b \<and> su_needsOnboarding u \<noteq> Some True)"

definition account_current :: "retirement_binding \<Rightarrow> admin_user \<Rightarrow> bool" where
  "account_current b user \<longleftrightarrow>
     u_isActive user \<and> u_isLocked user \<noteq> Some True \<and> \<not> u_needsOnboarding user \<and> u_firstLogin user \<noteq> Some True
     \<and> \<not> u_ownRemovedAt user \<and> \<not> u_ownRemovedBy user \<and> isValidAdminRole (u_role user)
     \<and> u_totpEnabled user \<and> u_totpSecretId user = Some (rb_handle b)"

text \<open>The two clock readings of the session check.\<close>

definition live_at :: "int \<Rightarrow> int \<Rightarrow> session \<Rightarrow> ('s, unit) retirement_op" where
  "live_at t1 t2 session =
     (case date_parse (s_createdAt session) of
        None \<Rightarrow> fail_with UNAUTHORIZED
      | Some c \<Rightarrow>
          bind_op (retirement_now t1) (\<lambda>t1.
            if c > t1 then fail_with UNAUTHORIZED
            else case date_parse (s_expires session) of
                   None \<Rightarrow> fail_with UNAUTHORIZED
                 | Some e \<Rightarrow> bind_op (retirement_now t2) (\<lambda>t2. require (e > t2) UNAUTHORIZED)))"

definition retirement_current ::
  "'s retirement_ops \<Rightarrow> retirement_env \<Rightarrow> int \<Rightarrow> int \<Rightarrow> retirement_binding
     \<Rightarrow> ('s, authorization_context \<times> encrypted_totp_secret) retirement_op" where
  "retirement_current st env t1 t2 b =
     bind_op (owner st (rb_userId b) (rb_handle b)) (\<lambda>user.
     bind_op (require (account_current b user) UNAUTHORIZED) (\<lambda>_.
     bind_op (in_store (rto_getTOTPSecret st (rb_handle b))) (\<lambda>found.
     bind_op (in_store (rto_getBackupCodes st (rb_userId b))) (\<lambda>codes.
     case found of
       None \<Rightarrow> fail_with CONFLICT
     | Some factor \<Rightarrow>
         bind_op (require (ts_userId factor = rb_userId b \<and> ts_handle factor = rb_handle b
                    \<and> option_ok (\<lambda>c. bs_userId c = rb_userId b) codes) CONFLICT) (\<lambda>_.
         bind_op (in_store (of_result (totpRetirementFactorGeneration (re_material env) factor))) (\<lambda>generation.
         bind_op (in_store (of_result (totpRetirementRecoverySetDigest (re_material env) codes))) (\<lambda>recovery.
         bind_op (in_store (rto_getSession st (rb_sessionId b))) (\<lambda>session.
           case session of
             None \<Rightarrow> fail_with UNAUTHORIZED
           | Some session \<Rightarrow>
               if \<not> session_current b session then fail_with UNAUTHORIZED
               else bind_op (live_at t1 t2 session) (\<lambda>_.
                      return_op (\<lparr>ac_user = user, ac_session = session, ac_factorGeneration = generation,
                                  ac_recoverySetDigest = recovery\<rparr>, factor))))))))))"

definition unchanged ::
  "retirement_env \<Rightarrow> authorization_context \<times> encrypted_totp_secret \<Rightarrow> authorization_context \<times> encrypted_totp_secret \<Rightarrow> bool" where
  "unchanged env first second \<longleftrightarrow>
     principalDigest env (ac_user (fst first)) = principalDigest env (ac_user (fst second))
     \<and> s_createdAt (ac_session (fst first)) = s_createdAt (ac_session (fst second))
     \<and> ac_factorGeneration (fst first) = ac_factorGeneration (fst second)
     \<and> ac_recoverySetDigest (fst first) = ac_recoverySetDigest (fst second)
     \<and> \<not> nullish (ts_lastUsedTotpStep (snd second)) (- 1) < nullish (ts_lastUsedTotpStep (snd first)) (- 1)
     \<and> \<not> (stamp_truthy (ts_lastUsedAt (snd first))
          \<and> (\<not> stamp_truthy (ts_lastUsedAt (snd second))
             \<or> parse_less (the (ts_lastUsedAt (snd second))) (the (ts_lastUsedAt (snd first)))))"

text \<open>
  The clock readings of a retirement: the two session checks, the expiry check, the commit and
  the application.
\<close>

record retirement_clock =
  rk_before1 :: int
  rk_before2 :: int
  rk_after1 :: int
  rk_after2 :: int
  rk_expiry :: int
  rk_commit :: int
  rk_applied :: int

definition committed_record ::
  "retirement_env \<Rightarrow> retirement_binding \<Rightarrow> consumed_authorization \<Rightarrow> string \<Rightarrow> string
     \<Rightarrow> authorization_context \<times> encrypted_totp_secret \<Rightarrow> int \<Rightarrow> committed result" where
  "committed_record env b decision authorizationDigest operationId second now =
     (case totpRetirementFactorSnapshotDigest (re_material env) (snd second) of
        Inl e \<Rightarrow> Inl e
      | Inr snapshot \<Rightarrow> Inr
          \<lparr>cm_operationId = operationId, cm_userId = rb_userId b, cm_handle = rb_handle b,
           cm_factorGeneration = ac_factorGeneration (fst second), cm_factorSnapshotDigest = snapshot,
           cm_recoverySetDigest = ac_recoverySetDigest (fst second), cm_authorizationDigest = authorizationDigest,
           cm_factorBinding = ca_factorBinding decision, cm_committedAt = Iso now\<rparr>)"

definition retire_consumed ::
  "'s retirement_ops \<Rightarrow> retirement_env \<Rightarrow> retirement_io \<Rightarrow> retirement_clock \<Rightarrow> retirement_binding
     \<Rightarrow> authorization_context \<times> encrypted_totp_secret \<Rightarrow> consumed_authorization \<Rightarrow> ('s, retirement_receipt) retirement_op" where
  "retire_consumed st env io clock b first decision =
     bind_op (authorization_check decision b) (\<lambda>_.
     bind_op (retirement_current st env (rk_after1 clock) (rk_after2 clock) b) (\<lambda>second.
     bind_op (require (unchanged env first second) CONFLICT) (\<lambda>_.
     bind_op (mac env ''authorization'' (ca_receiptId decision)) (\<lambda>authorizationDigest.
     bind_op (mac env ''operation'' (ca_receiptId decision)) (\<lambda>operationId.
     bind_op (journal_read env io operationId) (\<lambda>earlier.
     bind_op (require (earlier = None) CONFLICT) (\<lambda>_.
     bind_op (filenames io) (\<lambda>names.
     bind_op (require (length names < RETIREMENT_MAX_RECORDS) RECOVERY_REQUIRED) (\<lambda>_.
     bind_op (retirement_now (rk_expiry clock)) (\<lambda>now.
     bind_op (require (\<not> at_or_before (s_expires (ac_session (fst second))) now) UNAUTHORIZED) (\<lambda>_.
     bind_op (in_store (of_result (totpRetirementFactorSnapshotDigest (re_material env) (snd second)))) (\<lambda>_.
     bind_op (retirement_now (rk_commit clock)) (\<lambda>now.
     bind_op (in_store (of_result (committed_record env b decision authorizationDigest operationId second now))) (\<lambda>v.
     bind_op (journal_write env (ri_commit io) (Committed v)) (\<lambda>_.
       retirement_apply st env io (rk_applied clock) v)))))))))))))))"

definition retire ::
  "'s retirement_ops \<Rightarrow> retirement_env \<Rightarrow> retirement_io \<Rightarrow> (string \<Rightarrow> int) \<Rightarrow> retirement_clock
     \<Rightarrow> (authorization_context \<Rightarrow> ('s, 'r authorization) op) \<Rightarrow> retirement_binding
     \<Rightarrow> ('s, 'r retirement_result) retirement_op" where
  "retire st env io recovery clock authorize b =
     bind_op (require (retirement_component (rb_userId b) \<and> retirement_component (rb_handle b)
                \<and> retirement_text (rb_sessionId b)) INVALID) (\<lambda>_.
     bind_op (retirement_recover st env io recovery) (\<lambda>_.
     bind_op (retirement_current st env (rk_before1 clock) (rk_before2 clock) b) (\<lambda>before.
     bind_op (in_store (authorize (fst before))) (\<lambda>decision.
       case decision of
         Not_consumed r \<Rightarrow> return_op (Not_retired r)
       | Malformed_authorization \<Rightarrow> fail_with INVALID
       | Consumed_authorization d \<Rightarrow>
           bind_op (retire_consumed st env io clock b before d) (\<lambda>receipt. return_op (Retired receipt))))))"

definition readReceipt ::
  "'s retirement_ops \<Rightarrow> retirement_env \<Rightarrow> retirement_io \<Rightarrow> (string \<Rightarrow> int) \<Rightarrow> string \<Rightarrow> string
     \<Rightarrow> ('s, retirement_receipt option) retirement_op" where
  "readReceipt st env io recovery receiptId userId =
     bind_op (require (is_reference receiptId \<and> retirement_component userId) INVALID) (\<lambda>_.
     bind_op (retirement_recover st env io recovery) (\<lambda>_.
     bind_op (mac env ''operation'' receiptId) (\<lambda>operationId.
     bind_op (journal_read env io operationId) (\<lambda>value.
       case value of
         Some (Applied authorizationDigest r) \<Rightarrow>
           if tr_userId r \<noteq> userId then return_op None
           else bind_op (mac env ''authorization'' receiptId) (\<lambda>expected.
                  return_op (if authorizationDigest = expected then Some r else None))
       | _ \<Rightarrow> return_op None))))"

end
