(* ===== verification/Triples.thy ===== *)
theory Triples
  imports Prelude
begin

text \<open>
  Triples over the operations of the model: what holds before, after a result and after an error.
  The state after an error counts, because an operation that fails keeps what it did before.
\<close>

text \<open>From a state with \<open>P\<close>, a result \<open>a\<close> comes with \<open>Q a\<close> and an error with \<open>E\<close>.\<close>

definition triple ::
  "('s \<Rightarrow> bool) \<Rightarrow> ('e, 's, 'a) fallible \<Rightarrow> ('a \<Rightarrow> 's \<Rightarrow> bool) \<Rightarrow> ('s \<Rightarrow> bool) \<Rightarrow> bool" where
  "triple P m Q E \<longleftrightarrow>
     (\<forall>s. P s \<longrightarrow> (\<forall>e s'. m s = (Inl e, s') \<longrightarrow> E s') \<and> (\<forall>a s'. m s = (Inr a, s') \<longrightarrow> Q a s'))"

lemma tripleI:
  "(\<And>s e s'. P s \<Longrightarrow> m s = (Inl e, s') \<Longrightarrow> E s') \<Longrightarrow> (\<And>s a s'. P s \<Longrightarrow> m s = (Inr a, s') \<Longrightarrow> Q a s')
   \<Longrightarrow> triple P m Q E"
  by (simp add: triple_def)

lemma triple_Inr: "triple P m Q E \<Longrightarrow> P s \<Longrightarrow> m s = (Inr a, s') \<Longrightarrow> Q a s'"
  by (simp add: triple_def)

lemma triple_Inl: "triple P m Q E \<Longrightarrow> P s \<Longrightarrow> m s = (Inl e, s') \<Longrightarrow> E s'"
  by (simp add: triple_def)

lemma triple_keep: "triple P m (\<lambda>_. P) P \<Longrightarrow> P s \<Longrightarrow> m s = (r, s') \<Longrightarrow> P s'"
  unfolding triple_def by (cases r) blast+

lemma triple_total:
  assumes "triple P m Q (\<lambda>_. False)" "P s"
  obtains a s' where "m s = (Inr a, s')" "Q a s'"
  using assms by (cases "m s"; cases "fst (m s)") (auto simp: triple_def)

lemma triple_weaken:
  "triple P m Q E \<Longrightarrow> (\<And>s. P' s \<Longrightarrow> P s) \<Longrightarrow> (\<And>a s. Q a s \<Longrightarrow> Q' a s) \<Longrightarrow> (\<And>s. E s \<Longrightarrow> E' s)
   \<Longrightarrow> triple P' m Q' E'"
  unfolding triple_def by blast

lemma triple_both: "triple P m Q E \<Longrightarrow> triple P m Q' E' \<Longrightarrow> triple P m (\<lambda>a s. Q a s \<and> Q' a s) (\<lambda>s. E s \<and> E' s)"
  unfolding triple_def by blast

lemma triple_bind:
  assumes "triple P m R E" "\<And>a. triple (R a) (f a) Q E"
  shows "triple P (bind_op m f) Q E"
proof (rule tripleI)
  fix s e s' assume "P s" "bind_op m f s = (Inl e, s')"
  then show "E s'" using assms
    by (cases "m s"; cases "fst (m s)") (auto dest: triple_Inr triple_Inl)
next
  fix s b s' assume "P s" "bind_op m f s = (Inr b, s')"
  then show "Q b s'" using assms by (auto simp: bind_op_eq_Inr dest: triple_Inr)
qed

lemma triple_return: "(\<And>s. P s \<Longrightarrow> Q a s) \<Longrightarrow> triple P (return_op a) Q E"
  by (simp add: triple_def)

lemma triple_catch:
  assumes "triple P m Q R" "\<And>e. triple R (h e) Q E"
  shows "triple P (catch_op m h) Q E"
proof (rule tripleI)
  fix s e s' assume "P s" "catch_op m h s = (Inl e, s')"
  then show "E s'" using assms
    by (cases "m s"; cases "fst (m s)") (auto dest: triple_Inr triple_Inl)
next
  fix s b s' assume "P s" "catch_op m h s = (Inr b, s')"
  then show "Q b s'" using assms
    by (cases "m s"; cases "fst (m s)") (auto dest: triple_Inr triple_Inl)
qed

text \<open>A premise that does not mention the state.\<close>

lemma triple_assume: "(\<And>s. P s \<Longrightarrow> b) \<Longrightarrow> (b \<Longrightarrow> triple P m Q E) \<Longrightarrow> triple P m Q E"
  by (auto simp: triple_def)

lemma triple_bind_fact:
  assumes "triple P m (\<lambda>a s. R s \<and> B a) E'" "\<And>a. B a \<Longrightarrow> triple R (f a) Q E" "\<And>s. E' s \<Longrightarrow> E s"
  shows "triple P (bind_op m f) Q E"
proof (rule triple_bind)
  show "triple P m (\<lambda>a s. R s \<and> B a) E" using assms(1,3) unfolding triple_def by blast
  show "triple (\<lambda>s. R s \<and> B a) (f a) Q E" for a using assms(2) [of a] unfolding triple_def by blast
qed

end
