(* ===== verification/Retirement_Interface.thy ===== *)
theory Retirement_Interface
  imports Totp_Retirement Triples
begin

text \<open>
  The contract of a retirement storage, in triples over its operations, and the protocol a
  retirement follows. The contract lets every operation fail, before or after it has done its
  work: what holds at the end of a failed call holds wherever the process may stop.
\<close>

section \<open>Triples of the retirement's operations\<close>

lemma triple_fail: "(\<And>s. P s \<Longrightarrow> E s) \<Longrightarrow> triple P (fail_with code) Q E"
  by (simp add: triple_def fail_with_def)

lemma triple_require:
  "(\<And>s. P s \<Longrightarrow> b \<Longrightarrow> Q () s) \<Longrightarrow> (\<And>s. P s \<Longrightarrow> \<not> b \<Longrightarrow> E s) \<Longrightarrow> triple P (require b code) Q E"
  by (simp add: triple_def require_def fail_with_def)

lemma triple_bind_require:
  "(b \<Longrightarrow> triple P (f ()) Q E) \<Longrightarrow> (\<And>s. P s \<Longrightarrow> \<not> b \<Longrightarrow> E s) \<Longrightarrow> triple P (bind_op (require b code) f) Q E"
  unfolding triple_def require_def fail_with_def by (cases b) auto

lemma triple_in_store:
  assumes "triple P m Q E"
  shows "triple (\<lambda>w. P (rw_store w) \<and> F (rw_journal w)) (in_store m)
           (\<lambda>a w. Q a (rw_store w) \<and> F (rw_journal w)) (\<lambda>w. E (rw_store w) \<and> F (rw_journal w))"
  using assms by (intro tripleI) (auto simp: in_store_def triple_def Let_def split: prod.splits sum.splits)



section \<open>The contract\<close>

record credentials =
  cr_accounts :: "admin_user list"
  cr_sessions :: "string \<Rightarrow> session list"
  cr_factor :: "string \<Rightarrow> encrypted_totp_secret option"
  cr_codes :: "string \<Rightarrow> backup_code_set option"

definition without_sessions :: "string \<Rightarrow> credentials \<Rightarrow> credentials" where
  "without_sessions u c = c\<lparr>cr_sessions := (cr_sessions c)(u := [])\<rparr>"

definition without_factor :: "string \<Rightarrow> credentials \<Rightarrow> credentials" where
  "without_factor h c = c\<lparr>cr_factor := (cr_factor c)(h := None)\<rparr>"

definition without_codes :: "string \<Rightarrow> credentials \<Rightarrow> credentials" where
  "without_codes u c = c\<lparr>cr_codes := (cr_codes c)(u := None)\<rparr>"

definition factor_expected :: "material_env \<Rightarrow> string \<Rightarrow> encrypted_totp_secret option \<Rightarrow> bool" where
  "factor_expected m d = option_ok (\<lambda>v. totpRetirementFactorSnapshotDigest m v = Inr d)"

definition codes_expected :: "material_env \<Rightarrow> string option \<Rightarrow> backup_code_set option \<Rightarrow> bool" where
  "codes_expected m d = option_ok (\<lambda>v. totpRetirementRecoverySetDigest m (Some v) = Inr d)"

text \<open>One account has the id or the handle; it has both, and \<open>P\<close>.\<close>

definition one_account :: "string \<Rightarrow> string \<Rightarrow> (admin_user \<Rightarrow> bool) \<Rightarrow> admin_user list \<Rightarrow> bool" where
  "one_account u h P xs \<longleftrightarrow>
     (case filter (\<lambda>x. u_id x = u \<or> u_handle x = h) xs of
        [a] \<Rightarrow> u_id a = u \<and> u_handle a = h \<and> P a
      | _ \<Rightarrow> False)"

definition flags_off :: "admin_user \<Rightarrow> bool" where
  "flags_off a \<longleftrightarrow> \<not> u_totpEnabled a \<and> \<not> truthy (u_totpSecretId a)"

text \<open>That account keeps its id and handle and loses its factor flags; the others stay.\<close>

definition clears :: "string \<Rightarrow> string \<Rightarrow> admin_user \<Rightarrow> admin_user \<Rightarrow> bool" where
  "clears u h a b \<longleftrightarrow>
     (if u_id a = u \<and> u_handle a = h then u_id b = u \<and> u_handle b = h \<and> flags_off b else b = a)"

definition flags_cleared :: "string \<Rightarrow> string \<Rightarrow> admin_user list \<Rightarrow> admin_user list \<Rightarrow> bool" where
  "flags_cleared u h xs ys \<longleftrightarrow> one_account u h (\<lambda>_. True) xs \<and> list_all2 (clears u h) xs ys"

locale retirement_storage =
  fixes st :: "'s retirement_ops"
    and creds :: "'s \<Rightarrow> credentials"
    and material :: material_env
    and sound :: "'s \<Rightarrow> bool"
  assumes users_sound: "triple sound (rto_getAllUsers st) (\<lambda>_. sound) sound"
    and factor_sound: "triple sound (rto_getTOTPSecret st h) (\<lambda>_. sound) sound"
    and codes_sound: "triple sound (rto_getBackupCodes st u) (\<lambda>_. sound) sound"
    and sessions_sound: "triple sound (rto_getSessionsByUser st u) (\<lambda>_. sound) sound"
    and delete_sessions_sound: "triple sound (rto_deleteUserSessions st u) (\<lambda>_. sound) sound"
    and delete_factor_sound: "triple sound (rto_deleteTOTPSecretExpected st h d) (\<lambda>_. sound) sound"
    and delete_codes_sound: "triple sound (rto_deleteBackupCodesExpected st u e) (\<lambda>_. sound) sound"
    and clear_flags_sound: "triple sound (rto_clearTotpFlagsExpected st u h) (\<lambda>_. sound) sound"
    and users_law:
      "triple (\<lambda>s. creds s = c) (rto_getAllUsers st) (\<lambda>xs s. creds s = c \<and> xs = cr_accounts c) (\<lambda>s. creds s = c)"
    and factor_law:
      "triple (\<lambda>s. creds s = c) (rto_getTOTPSecret st h) (\<lambda>v s. creds s = c \<and> v = cr_factor c h) (\<lambda>s. creds s = c)"
    and codes_law:
      "triple (\<lambda>s. creds s = c) (rto_getBackupCodes st u) (\<lambda>v s. creds s = c \<and> v = cr_codes c u) (\<lambda>s. creds s = c)"
    and sessions_law:
      "triple (\<lambda>s. creds s = c) (rto_getSessionsByUser st u) (\<lambda>xs s. creds s = c \<and> xs = cr_sessions c u)
         (\<lambda>s. creds s = c)"
    and delete_sessions_law:
      "triple (\<lambda>s. creds s = c) (rto_deleteUserSessions st u) (\<lambda>_ s. creds s = without_sessions u c)
         (\<lambda>s. creds s = c \<or> creds s = without_sessions u c)"
    and delete_factor_law:
      "triple (\<lambda>s. creds s = c) (rto_deleteTOTPSecretExpected st h d)
         (\<lambda>_ s. creds s = without_factor h c \<and> factor_expected material d (cr_factor c h))
         (\<lambda>s. creds s = c \<or> creds s = without_factor h c \<and> factor_expected material d (cr_factor c h))"
    and delete_codes_law:
      "triple (\<lambda>s. creds s = c) (rto_deleteBackupCodesExpected st u e)
         (\<lambda>_ s. creds s = without_codes u c \<and> codes_expected material e (cr_codes c u))
         (\<lambda>s. creds s = c \<or> creds s = without_codes u c \<and> codes_expected material e (cr_codes c u))"
    and clear_flags_law:
      "triple (\<lambda>s. creds s = c) (rto_clearTotpFlagsExpected st u h)
         (\<lambda>_ s. \<exists>xs. creds s = c\<lparr>cr_accounts := xs\<rparr> \<and> flags_cleared u h (cr_accounts c) xs)
         (\<lambda>s. creds s = c \<or> (\<exists>xs. creds s = c\<lparr>cr_accounts := xs\<rparr> \<and> flags_cleared u h (cr_accounts c) xs))"

text \<open>A storage that works: from a sound state no call fails on a request the code would make.\<close>

locale working_storage = retirement_storage st creds material sound
  for st :: "'s retirement_ops" and creds material sound +
  assumes users_works:
      "triple (\<lambda>s. sound s \<and> creds s = c) (rto_getAllUsers st) (\<lambda>_ _. True) (\<lambda>_. False)"
    and factor_works:
      "triple (\<lambda>s. sound s \<and> creds s = c) (rto_getTOTPSecret st h) (\<lambda>_ _. True) (\<lambda>_. False)"
    and codes_works:
      "triple (\<lambda>s. sound s \<and> creds s = c) (rto_getBackupCodes st u) (\<lambda>_ _. True) (\<lambda>_. False)"
    and sessions_works:
      "triple (\<lambda>s. sound s \<and> creds s = c) (rto_getSessionsByUser st u) (\<lambda>_ _. True) (\<lambda>_. False)"
    and delete_sessions_works:
      "triple (\<lambda>s. sound s \<and> creds s = c) (rto_deleteUserSessions st u) (\<lambda>_ _. True) (\<lambda>_. False)"
    and delete_factor_works:
      "retirement_component h \<Longrightarrow> is_sha256_hex d \<Longrightarrow> factor_expected material d (cr_factor c h)
       \<Longrightarrow> triple (\<lambda>s. sound s \<and> creds s = c) (rto_deleteTOTPSecretExpected st h d) (\<lambda>_ _. True) (\<lambda>_. False)"
    and delete_codes_works:
      "retirement_component u \<Longrightarrow> option_ok is_sha256_hex e \<Longrightarrow> codes_expected material e (cr_codes c u)
       \<Longrightarrow> triple (\<lambda>s. sound s \<and> creds s = c) (rto_deleteBackupCodesExpected st u e) (\<lambda>_ _. True) (\<lambda>_. False)"
    and clear_flags_works:
      "retirement_component u \<Longrightarrow> retirement_component h
       \<Longrightarrow> one_account u h (\<lambda>a. totp_flags_clearable a h) (cr_accounts c)
       \<Longrightarrow> triple (\<lambda>s. sound s \<and> creds s = c) (rto_clearTotpFlagsExpected st u h) (\<lambda>_ _. True) (\<lambda>_. False)"

section \<open>Failures of the storage\<close>

text \<open>A storage whose calls follow a script: work, fail first, or fail after the work.\<close>

datatype fault = Works | Fails_before | Fails_after

definition io_error :: error where
  "io_error = Error ''EIO''"

definition with_faults :: "('s, 'a) op \<Rightarrow> (fault list \<times> 's, 'a) op" where
  "with_faults m = (\<lambda>(script, s).
     case script of
       [] \<Rightarrow> (fst (m s), [], snd (m s))
     | Works # rest \<Rightarrow> (fst (m s), rest, snd (m s))
     | Fails_before # rest \<Rightarrow> (Inl io_error, rest, s)
     | Fails_after # rest \<Rightarrow> (Inl io_error, rest, snd (m s)))"

definition faulty_retirement :: "'s retirement_ops \<Rightarrow> (fault list \<times> 's) retirement_ops" where
  "faulty_retirement st =
     \<lparr>rto_getAllUsers = with_faults (rto_getAllUsers st), rto_getSession = (\<lambda>i. with_faults (rto_getSession st i)),
      rto_getTOTPSecret = (\<lambda>h. with_faults (rto_getTOTPSecret st h)),
      rto_getBackupCodes = (\<lambda>u. with_faults (rto_getBackupCodes st u)),
      rto_getSessionsByUser = (\<lambda>u. with_faults (rto_getSessionsByUser st u)),
      rto_deleteUserSessions = (\<lambda>u. with_faults (rto_deleteUserSessions st u)),
      rto_deleteTOTPSecretExpected = (\<lambda>h d. with_faults (rto_deleteTOTPSecretExpected st h d)),
      rto_deleteBackupCodesExpected = (\<lambda>u d. with_faults (rto_deleteBackupCodesExpected st u d)),
      rto_clearTotpFlagsExpected = (\<lambda>u h. with_faults (rto_clearTotpFlagsExpected st u h))\<rparr>"

lemma triple_with_faults:
  assumes "triple P m Q E" "\<And>s. P s \<Longrightarrow> E s" "\<And>a s. Q a s \<Longrightarrow> E s"
  shows "triple (\<lambda>w. P (snd w)) (with_faults m) (\<lambda>a w. Q a (snd w)) (\<lambda>w. E (snd w))"
proof -
  have ends: "E s'" if "P s" "m s = (r, s')" for r s s'
    using assms that by (cases r) (auto simp: triple_def)
  show ?thesis
  proof (rule tripleI)
    fix w e w' assume P: "P (snd w)" and run: "with_faults m w = (Inl e, w')"
    have "w' = (drop 1 (fst w), snd w) \<or> w' = (drop 1 (fst w), snd (m (snd w)))"
      using run by (cases w) (auto simp: with_faults_def split: list.splits fault.splits)
    then show "E (snd w')" using ends [OF P, of "fst (m (snd w))" "snd (m (snd w))"] assms(2) [OF P] by auto
  next
    fix w a w' assume P: "P (snd w)" and run: "with_faults m w = (Inr a, w')"
    then have "m (snd w) = (Inr a, snd w')"
      by (cases w) (auto simp: with_faults_def prod_eq_iff split: list.splits fault.splits)
    with P show "Q a (snd w')" using assms(1) by (auto simp: triple_def)
  qed
qed

context retirement_storage
begin

lemma faulty_contract: "retirement_storage (faulty_retirement st) (\<lambda>w. creds (snd w)) material (\<lambda>w. sound (snd w))"
  unfolding retirement_storage_def faulty_retirement_def retirement_ops.simps
  by (intro conjI allI; rule triple_with_faults,
      rule users_sound factor_sound codes_sound sessions_sound delete_sessions_sound delete_factor_sound
         delete_codes_sound clear_flags_sound users_law factor_law codes_law sessions_law delete_sessions_law
         delete_factor_law delete_codes_law clear_flags_law; blast)

end

end
