(* ===== verification/Retirement_Protocol.thy ===== *)
theory Retirement_Protocol
  imports Retirement_Interface
begin

text \<open>
  The protocol of a retirement as a step relation on the stored credentials, its invariants, and
  the proof that \<open>apply\<close> follows it on every storage that meets the contract, to the end on one
  that works.
\<close>

section \<open>The steps\<close>

text \<open>Sessions first, then the factor, the recovery codes and the flags of the account.\<close>

inductive retirement_step :: "material_env \<Rightarrow> committed \<Rightarrow> credentials \<Rightarrow> credentials \<Rightarrow> bool" for m v where
  Revoke: "retirement_step m v c (without_sessions (cm_userId v) c)"
| Remove_factor:
    "cr_sessions c (cm_userId v) = [] \<Longrightarrow> factor_expected m (cm_factorSnapshotDigest v) (cr_factor c (cm_handle v))
     \<Longrightarrow> retirement_step m v c (without_factor (cm_handle v) c)"
| Remove_codes:
    "cr_sessions c (cm_userId v) = [] \<Longrightarrow> cr_factor c (cm_handle v) = None
     \<Longrightarrow> codes_expected m (cm_recoverySetDigest v) (cr_codes c (cm_userId v))
     \<Longrightarrow> retirement_step m v c (without_codes (cm_userId v) c)"
| Clear_flags:
    "cr_sessions c (cm_userId v) = [] \<Longrightarrow> cr_factor c (cm_handle v) = None \<Longrightarrow> cr_codes c (cm_userId v) = None
     \<Longrightarrow> flags_cleared (cm_userId v) (cm_handle v) (cr_accounts c) xs
     \<Longrightarrow> retirement_step m v c (c\<lparr>cr_accounts := xs\<rparr>)"

inductive_cases retirement_stepE: "retirement_step m v c c'"

abbreviation retirement_run :: "material_env \<Rightarrow> committed \<Rightarrow> credentials \<Rightarrow> credentials \<Rightarrow> bool" where
  "retirement_run m v \<equiv> (retirement_step m v)\<^sup>*\<^sup>*"

text \<open>The end of the protocol, and what lets it be run again from the start.\<close>

definition retired :: "committed \<Rightarrow> credentials \<Rightarrow> bool" where
  "retired v c \<longleftrightarrow>
     cr_sessions c (cm_userId v) = [] \<and> cr_factor c (cm_handle v) = None \<and> cr_codes c (cm_userId v) = None
     \<and> one_account (cm_userId v) (cm_handle v) flags_off (cr_accounts c)"

definition resumable :: "retirement_env \<Rightarrow> committed \<Rightarrow> credentials \<Rightarrow> bool" where
  "resumable env v c \<longleftrightarrow>
     one_account (cm_userId v) (cm_handle v) (\<lambda>a. totp_flags_clearable a (cm_handle v)) (cr_accounts c)
     \<and> option_ok (factor_matches env v) (cr_factor c (cm_handle v))
     \<and> option_ok (codes_match env v) (cr_codes c (cm_userId v))"

section \<open>Accounts\<close>

lemma flags_off_clearable: "flags_off a \<Longrightarrow> totp_flags_clearable a h"
  by (simp add: flags_off_def totp_flags_clearable_def)

lemma one_account_mono: "one_account u h P xs \<Longrightarrow> (\<And>a. P a \<Longrightarrow> Q a) \<Longrightarrow> one_account u h Q xs"
  by (auto simp: one_account_def split: list.splits)

lemma list_all2_filter:
  assumes "list_all2 R xs ys" "\<And>a b. R a b \<Longrightarrow> P a = P b"
  shows "list_all2 R (filter P xs) (filter P ys)"
  using assms by (induction rule: list_all2_induct) auto

lemma clears_same: "clears u h a b \<Longrightarrow> u_id b = u_id a \<and> u_handle b = u_handle a"
  by (auto simp: clears_def split: if_splits)

lemma one_account_cleared:
  assumes "list_all2 (clears u h) xs ys" "one_account u' h' P xs"
    "\<And>a b. clears u h a b \<Longrightarrow> u_id a = u' \<Longrightarrow> u_handle a = h' \<Longrightarrow> P a \<Longrightarrow> Q b"
  shows "one_account u' h' Q ys"
proof -
  let ?p = "\<lambda>x. u_id x = u' \<or> u_handle x = h'"
  have two: "list_all2 (clears u h) (filter ?p xs) (filter ?p ys)"
    using assms(1) by (rule list_all2_filter) (auto dest: clears_same)
  from assms(2) obtain a where a: "filter ?p xs = [a]" "u_id a = u'" "u_handle a = h'" "P a"
    by (auto simp: one_account_def split: list.splits)
  from two obtain b where b: "filter ?p ys = [b]" "clears u h a b"
    by (auto simp: a(1) list_all2_Cons1)
  show ?thesis using b a assms(3) [OF b(2)] clears_same [OF b(2)] by (simp add: one_account_def)
qed

lemma flags_cleared_off: "flags_cleared u h xs ys \<Longrightarrow> one_account u h flags_off ys"
  by (auto simp: flags_cleared_def elim!: one_account_cleared) (simp add: clears_def)

section \<open>Invariants of the protocol\<close>

text \<open>Nothing is weakened before the sessions of the account are gone.\<close>

lemma run_revokes_first:
  "retirement_run m v c0 c \<Longrightarrow>
     cr_sessions c (cm_userId v) = []
     \<or> cr_factor c = cr_factor c0 \<and> cr_codes c = cr_codes c0 \<and> cr_accounts c = cr_accounts c0"
  by (induction rule: rtranclp_induct)
    (auto elim!: retirement_stepE simp: without_sessions_def without_factor_def without_codes_def)

text \<open>A retirement touches the credentials of one account.\<close>

definition elsewhere_same :: "committed \<Rightarrow> credentials \<Rightarrow> credentials \<Rightarrow> bool" where
  "elsewhere_same v c0 c \<longleftrightarrow>
     (\<forall>u. u \<noteq> cm_userId v \<longrightarrow> cr_sessions c u = cr_sessions c0 u \<and> cr_codes c u = cr_codes c0 u)
     \<and> (\<forall>h. h \<noteq> cm_handle v \<longrightarrow> cr_factor c h = cr_factor c0 h)
     \<and> list_all2 (\<lambda>a b. u_id a = cm_userId v \<or> b = a) (cr_accounts c0) (cr_accounts c)"

lemma flags_cleared_elsewhere:
  "flags_cleared u h xs ys \<Longrightarrow> list_all2 (\<lambda>a b. u_id a = u \<and> u_id b = u \<or> b = a) xs ys"
  by (auto simp: flags_cleared_def clears_def elim: list_all2_mono split: if_splits)

lemma list_all2_step:
  "list_all2 (\<lambda>a b. u_id a = u \<or> b = a) xs ys \<Longrightarrow> list_all2 (\<lambda>a b. u_id a = u \<and> u_id b = u \<or> b = a) ys zs
   \<Longrightarrow> list_all2 (\<lambda>a b. u_id a = u \<or> b = a) xs zs"
  by (rule list_all2_trans) auto

lemma run_elsewhere: "retirement_run m v c0 c \<Longrightarrow> elsewhere_same v c0 c"
proof (induction rule: rtranclp_induct)
  case base
  then show ?case by (simp add: elsewhere_same_def list_all2_refl)
next
  case (step c c')
  from step(2,3) show ?case
    by (auto elim!: retirement_stepE simp: elsewhere_same_def without_sessions_def without_factor_def
        without_codes_def elim: list_all2_step [OF _ flags_cleared_elsewhere])
qed

text \<open>Every committed retirement stays resumable under the steps of every other one.\<close>

lemma clearable_step:
  "clears u h a b \<Longrightarrow> totp_flags_clearable a h' \<Longrightarrow> totp_flags_clearable b h'"
  by (auto simp: clears_def flags_off_clearable split: if_splits)

lemma step_resumable: "retirement_step m v c c' \<Longrightarrow> resumable env w c \<Longrightarrow> resumable env w c'"
  by (erule retirement_stepE)
    (auto simp: resumable_def without_sessions_def without_factor_def without_codes_def option_ok_def
      flags_cleared_def intro: one_account_cleared [OF _ _ clearable_step])

lemma run_resumable: "retirement_run m v c0 c \<Longrightarrow> resumable env w c0 \<Longrightarrow> resumable env w c"
  by (induction rule: rtranclp_induct) (auto intro: step_resumable)

text \<open>And a retirement that is done stays done.\<close>

lemma step_retired: "retirement_step m v c c' \<Longrightarrow> retired w c \<Longrightarrow> retired w c'"
  by (erule retirement_stepE)
    (auto simp: retired_def without_sessions_def without_factor_def without_codes_def
      flags_cleared_def clears_def elim!: one_account_cleared split: if_splits)

lemma run_retired: "retirement_run m v c0 c \<Longrightarrow> retired w c0 \<Longrightarrow> retired w c"
  by (induction rule: rtranclp_induct) (auto intro: step_retired)

section \<open>\<open>apply\<close> follows the protocol\<close>

definition applied_record :: "committed \<Rightarrow> int \<Rightarrow> retirement_record" where
  "applied_record v now = Applied (cm_authorizationDigest v) (applied_receipt v now)"

text \<open>The seal of a record, and the journal with the record published in it.\<close>

definition key_ready :: "retirement_env \<Rightarrow> bool" where
  "key_ready env \<longleftrightarrow> (case re_key env of Inl e \<Rightarrow> False | Inr k \<Rightarrow> 32 \<le> length (utf8 k))"

definition mac_value :: "retirement_env \<Rightarrow> string \<Rightarrow> string \<Rightarrow> string" where
  "mac_value env domain x =
     (case re_key env of
        Inl e \<Rightarrow> []
      | Inr k \<Rightarrow> re_hmac env k (''tinyland-auth:totp-retirement:'' @ domain @ '':v1'' @ [CHR 0x00] @ x))"

definition seal_of :: "retirement_env \<Rightarrow> retirement_record \<Rightarrow> string" where
  "seal_of env r = mac_value env ''seal'' (stringify (retirement_json env r))"

definition journaled :: "retirement_env \<Rightarrow> retirement_record \<Rightarrow> journal \<Rightarrow> journal" where
  "journaled env r j = map_set (journal_name (record_id r)) (Sealed r (seal_of env r)) j"

lemma mac_eq_Inr: "mac env domain x w = (Inr y, w') \<longleftrightarrow> key_ready env \<and> y = mac_value env domain x \<and> w' = w"
  by (auto simp: mac_def key_ready_def mac_value_def fail_with_def return_op_def split: sum.splits)

lemma mac_ready: "key_ready env \<Longrightarrow> mac env domain x w = (Inr (mac_value env domain x), w)"
  by (simp add: mac_eq_Inr)

lemma mac_state: "mac env domain x w = (r, w') \<Longrightarrow> w' = w"
  by (auto simp: mac_def fail_with_def return_op_def split: sum.splits if_splits)

lemma triple_mac:
  "triple P (mac env domain x) (\<lambda>y w. P w \<and> key_ready env \<and> y = mac_value env domain x) P"
  by (rule tripleI) (auto simp: mac_eq_Inr dest: mac_state)

text \<open>Publishing a record changes one journal file, and nothing else.\<close>

lemma triple_journal_write:
  "triple (\<lambda>w. P (rw_store w) \<and> rw_journal w = j) (journal_write env outcome r)
     (\<lambda>_ w. P (rw_store w) \<and> record_ok env r \<and> rw_journal w = journaled env r j)
     (\<lambda>w. P (rw_store w) \<and> (rw_journal w = j \<or> record_ok env r \<and> rw_journal w = journaled env r j))"
  unfolding journal_write_def
proof (rule triple_bind_require, rule triple_bind_fact [OF triple_mac], rule triple_bind_require)
  fix seal
  assume *: "key_ready env \<and> seal = mac_value env ''seal'' (stringify (retirement_json env r))" "record_ok env r"
  show "triple (\<lambda>w. P (rw_store w) \<and> rw_journal w = j)
      (\<lambda>w. let written = w\<lparr>rw_journal := map_set (journal_name (record_id r)) (Sealed r seal) (rw_journal w)\<rparr>
       in case outcome of
            Journal_done \<Rightarrow> (Inr (), written)
          | Journal_unacknowledged \<Rightarrow> (Inl (TotpRetirementError RECOVERY_REQUIRED), written)
          | Journal_refused \<Rightarrow> (Inl (TotpRetirementError RECOVERY_REQUIRED), w))
     (\<lambda>_ w. P (rw_store w) \<and> record_ok env r \<and> rw_journal w = journaled env r j)
     (\<lambda>w. P (rw_store w) \<and> (rw_journal w = j \<or> record_ok env r \<and> rw_journal w = journaled env r j))"
    using * by (auto simp: triple_def Let_def journaled_def seal_of_def split: journal_outcome.splits)
qed auto

lemma triple_now: "(\<And>s. P s \<Longrightarrow> E s) \<Longrightarrow> triple P (retirement_now now) (\<lambda>n s. P s \<and> n = now) E"
  by (auto simp: retirement_now_def triple_def fail_with_def)

context retirement_storage
begin

definition at :: "credentials \<Rightarrow> journal \<Rightarrow> 's retirement_state \<Rightarrow> bool" where
  "at c j w \<longleftrightarrow> creds (rw_store w) = c \<and> rw_journal w = j"

definition within :: "committed \<Rightarrow> credentials \<Rightarrow> journal \<Rightarrow> 's retirement_state \<Rightarrow> bool" where
  "within v c j w \<longleftrightarrow> retirement_run material v c (creds (rw_store w)) \<and> rw_journal w = j"

lemma withinI: "at c' j w \<Longrightarrow> retirement_run material v c c' \<Longrightarrow> within v c j w"
  by (simp add: at_def within_def)

lemma triple_at:
  assumes "triple (\<lambda>s. creds s = c) m (\<lambda>a s. creds s = c' \<and> B a) (\<lambda>s. creds s = c)"
  shows "triple (at c j) (in_store m) (\<lambda>a w. at c' j w \<and> B a) (at c j)"
  unfolding at_def by (rule triple_weaken [OF triple_in_store [OF assms, of "\<lambda>x. x = j"]]) auto

lemmas read_users = triple_at [OF users_law]
lemmas read_factor = triple_at [OF factor_law]
lemmas read_codes = triple_at [OF codes_law]
lemmas read_sessions = triple_at [OF sessions_law]

lemma read_owner:
  "triple (at c j) (owner st u h) (\<lambda>a w. at c j w \<and> one_account u h (\<lambda>x. x = a) (cr_accounts c)) (at c j)"
  unfolding owner_def
  by (rule triple_bind_fact [OF read_users])
    (auto intro!: triple_fail triple_return simp: one_account_def split: list.split)

lemma checks_read: "triple (at c j) (apply_checks st env v) (\<lambda>_. at c j) (at c j)"
  unfolding apply_checks_def
  by (rule triple_bind_fact [OF read_owner] triple_bind_fact [OF read_factor] triple_bind_fact [OF read_codes]
      triple_bind_require triple_require | assumption)+

lemma confirms_read:
  "triple (at c j) (apply_confirms st v) (\<lambda>_ w. at c j w \<and> retired v c) (at c j)"
  unfolding apply_confirms_def
proof (rule triple_bind_fact [OF read_factor], rule triple_bind_require,
    rule triple_bind_fact [OF read_codes], rule triple_bind_require,
    rule triple_bind_fact [OF read_sessions], rule triple_bind_require, rule triple_bind_fact [OF read_owner])
  fix f k xs a
  assume "f = cr_factor c (cm_handle v)" "f = None" "k = cr_codes c (cm_userId v)" "k = None"
    "xs = cr_sessions c (cm_userId v)" "xs = []"
    "one_account (cm_userId v) (cm_handle v) (\<lambda>x. x = a) (cr_accounts c)"
  then show "triple (at c j) (require (\<not> u_totpEnabled a \<and> \<not> truthy (u_totpSecretId a)) RECOVERY_REQUIRED)
      (\<lambda>_ w. at c j w \<and> retired v c) (at c j)"
    by (intro triple_require) (auto simp: retired_def flags_off_def elim: one_account_mono)
qed assumption+

lemma within_confirms:
  "triple (within v c j) (apply_confirms st v)
     (\<lambda>_ w. within v c j w \<and> retired v (creds (rw_store w))) (within v c j)"
proof -
  have "triple (at c' j) (apply_confirms st v)
      (\<lambda>_ w. within v c j w \<and> retired v (creds (rw_store w))) (within v c j)"
    if "retirement_run material v c c'" for c'
    by (rule triple_weaken [OF confirms_read]) (use that in \<open>auto simp: at_def within_def\<close>)
  then show ?thesis unfolding triple_def within_def at_def by blast
qed

lemma triple_change:
  assumes "triple (\<lambda>s. creds s = c') m (\<lambda>a s. creds s = c'' \<and> B) (\<lambda>s. creds s = c' \<or> creds s = c'' \<and> B)"
    and "retirement_run material v c c'" "B \<Longrightarrow> retirement_step material v c' c''"
  shows "triple (at c' j) (in_store m) (\<lambda>a w. at c'' j w \<and> B) (within v c j)"
  unfolding at_def within_def
  by (rule triple_weaken [OF triple_in_store [OF assms(1), of "\<lambda>x. x = j"]])
    (use assms(2,3) in \<open>auto intro: rtranclp.rtrancl_into_rtrancl\<close>)

lemma changes_follow: "triple (at c j) (apply_changes st v) (\<lambda>_. within v c j) (within v c j)"
proof -
  let ?u = "cm_userId v" and ?h = "cm_handle v"
  define c1 c2 c3 where cs: "c1 = without_sessions ?u c" "c2 = without_factor ?h c1" "c3 = without_codes ?u c2"
  note c_defs = without_sessions_def without_factor_def without_codes_def
  have run1: "retirement_run material v c c1" unfolding cs by (blast intro: Revoke)
  have step2: "retirement_step material v c1 c2" if "factor_expected material (cm_factorSnapshotDigest v) (cr_factor c1 ?h)"
    unfolding cs(2) by (rule Remove_factor) (use that in \<open>auto simp: cs c_defs\<close>)
  have step3: "retirement_step material v c2 c3" if "codes_expected material (cm_recoverySetDigest v) (cr_codes c2 ?u)"
    unfolding cs(3) by (rule Remove_codes) (use that in \<open>auto simp: cs c_defs\<close>)
  have step4: "retirement_step material v c3 (c3\<lparr>cr_accounts := xs\<rparr>)" if "flags_cleared ?u ?h (cr_accounts c3) xs" for xs
    by (rule Clear_flags) (use that in \<open>auto simp: cs c_defs\<close>)
  have first: "triple (at c j) (in_store (rto_deleteUserSessions st ?u)) (\<lambda>a w. at c1 j w \<and> True) (within v c j)"
    by (rule triple_change) (auto simp: cs(1) intro: triple_weaken [OF delete_sessions_law] Revoke)
  have second: "triple (at c1 j) (in_store (rto_deleteTOTPSecretExpected st ?h (cm_factorSnapshotDigest v)))
      (\<lambda>a w. at c2 j w \<and> factor_expected material (cm_factorSnapshotDigest v) (cr_factor c1 ?h)) (within v c j)"
    by (rule triple_change [OF _ run1 step2]) (auto simp: cs(2) intro: delete_factor_law)
  have third: "triple (at c2 j) (in_store (rto_deleteBackupCodesExpected st ?u (cm_recoverySetDigest v)))
      (\<lambda>a w. at c3 j w \<and> codes_expected material (cm_recoverySetDigest v) (cr_codes c2 ?u)) (within v c j)"
    if "retirement_run material v c c2"
    by (rule triple_change [OF _ that step3]) (auto simp: cs(3) intro: delete_codes_law)
  have last: "triple (at c3 j) (in_store (rto_clearTotpFlagsExpected st ?u ?h)) (\<lambda>_. within v c j) (within v c j)"
    if "retirement_run material v c c3"
    unfolding at_def within_def
    by (rule triple_weaken [OF triple_in_store [where F = "\<lambda>x. x = j", OF clear_flags_law]])
      (use that in \<open>auto intro: rtranclp.rtrancl_into_rtrancl dest!: step4\<close>)
  show ?thesis
    unfolding apply_changes_def
  proof (rule triple_bind_fact [OF first], rule triple_bind_fact [OF read_sessions], rule triple_bind_require,
      rule triple_bind_fact [OF second])
    assume "factor_expected material (cm_factorSnapshotDigest v) (cr_factor c1 ?h)"
    then have run2: "retirement_run material v c c2" using run1 step2 by (rule_tac rtranclp.rtrancl_into_rtrancl)
    show "triple (at c2 j) (bind_op (in_store (rto_deleteBackupCodesExpected st ?u (cm_recoverySetDigest v)))
        (\<lambda>_. in_store (rto_clearTotpFlagsExpected st ?u ?h))) (\<lambda>_. within v c j) (within v c j)"
      by (rule triple_bind_fact [OF third [OF run2]])
        (auto intro: last rtranclp.rtrancl_into_rtrancl [OF run2] step3)
  qed (auto intro: withinI [OF _ run1])
qed

text \<open>Credentials on the way with the journal untouched; or at the end with the application recorded.\<close>

definition recorded :: "retirement_env \<Rightarrow> committed \<Rightarrow> credentials \<Rightarrow> journal \<Rightarrow> int \<Rightarrow> 's retirement_state \<Rightarrow> bool" where
  "recorded env v c j now w \<longleftrightarrow>
     retirement_run material v c (creds (rw_store w)) \<and> retired v (creds (rw_store w))
     \<and> record_ok env (applied_record v now) \<and> rw_journal w = journaled env (applied_record v now) j"

definition stored :: "retirement_env \<Rightarrow> committed \<Rightarrow> credentials \<Rightarrow> journal \<Rightarrow> int \<Rightarrow> 's retirement_state \<Rightarrow> bool" where
  "stored env v c j now w \<longleftrightarrow> within v c j w \<or> recorded env v c j now w"

lemma within_stored: "within v c j w \<Longrightarrow> stored env v c j now w"
  by (simp add: stored_def)

lemma records_follow:
  "triple (\<lambda>w. within v c j w \<and> retired v (creds (rw_store w))) (apply_records env io now v)
     (\<lambda>r w. recorded env v c j now w \<and> r = applied_receipt v now) (stored env v c j now)"
proof -
  let ?r = "Applied (cm_authorizationDigest v) (applied_receipt v now)"
  have publish: "triple (\<lambda>w. within v c j w \<and> retired v (creds (rw_store w)))
      (journal_write env (ri_apply io (cm_operationId v)) ?r)
      (\<lambda>_ w. recorded env v c j now w) (stored env v c j now)"
    by (rule triple_weaken [OF triple_journal_write
          [where P = "\<lambda>s. retirement_run material v c (creds s) \<and> retired v (creds s)" and j = j]])
      (auto simp: within_def stored_def recorded_def applied_record_def)
  show ?thesis
    unfolding apply_records_def
    by (rule triple_bind_fact [OF triple_now])
      (auto simp: Let_def intro!: triple_bind_require triple_bind [OF publish] triple_return dest: within_stored)
qed

lemma checks_stored: "triple (at c j) (apply_checks st env v) (\<lambda>_. at c j) (stored env v c j now)"
  by (rule triple_weaken [OF checks_read]) (auto simp: at_def stored_def within_def)

lemma apply_follows:
  "triple (at c j) (retirement_apply st env io now v)
     (\<lambda>r w. recorded env v c j now w \<and> r = applied_receipt v now) (stored env v c j now)"
  unfolding retirement_apply_def
proof (rule triple_catch [where R = "stored env v c j now"], rule triple_bind, rule checks_stored)
  show "triple (at c j) (bind_op (apply_changes st v) (\<lambda>_. bind_op (apply_confirms st v) (\<lambda>_. apply_records env io now v)))
      (\<lambda>r w. recorded env v c j now w \<and> r = applied_receipt v now) (stored env v c j now)"
    by (rule triple_bind, rule triple_weaken [OF changes_follow], assumption, assumption, erule within_stored,
        rule triple_bind, rule triple_weaken [OF within_confirms], assumption, assumption, erule within_stored,
        rule records_follow)
qed (rule triple_fail)

text \<open>Whatever its result, \<open>apply\<close> leaves data the storage can read.\<close>

lemma sound_in_store:
  "triple sound m (\<lambda>_. sound) sound
   \<Longrightarrow> triple (\<lambda>w. sound (rw_store w)) (in_store m) (\<lambda>_ w. sound (rw_store w)) (\<lambda>w. sound (rw_store w))"
  using triple_in_store [where F = "\<lambda>_. True" and P = sound and m = m] by simp

lemma sound_only_journal:
  "(\<And>w. rw_store (snd (m w)) = rw_store w)
   \<Longrightarrow> triple (\<lambda>w. sound (rw_store w)) m (\<lambda>_ w. sound (rw_store w)) (\<lambda>w. sound (rw_store w))"
  by (auto simp: triple_def) (metis snd_conv)+

lemma apply_keeps_sound:
  "triple (\<lambda>w. sound (rw_store w)) (retirement_apply st env io now v)
     (\<lambda>_ w. sound (rw_store w)) (\<lambda>w. sound (rw_store w))"
proof -
  let ?S = "\<lambda>w. sound (rw_store w)"
  note bind = triple_bind [where R = "\<lambda>_. ?S"]
  note stores = sound_in_store [OF users_sound] sound_in_store [OF factor_sound] sound_in_store [OF codes_sound]
    sound_in_store [OF sessions_sound] sound_in_store [OF delete_sessions_sound] sound_in_store [OF delete_factor_sound]
    sound_in_store [OF delete_codes_sound] sound_in_store [OF clear_flags_sound]
  have require: "triple ?S (require b code) (\<lambda>_. ?S) ?S" for b code by (simp add: triple_require)
  have owner: "triple ?S (owner st u h) (\<lambda>_. ?S) ?S" for u h
    unfolding owner_def
    by (rule bind [OF stores(1)]) (auto intro!: triple_fail triple_return split: list.split)
  have records: "triple ?S (apply_records env io now v) (\<lambda>_. ?S) ?S"
    by (rule sound_only_journal)
      (auto simp: apply_records_def retirement_now_def fail_with_def bind_op_def Let_def require_def return_op_def
        journal_write_def mac_def split: sum.splits journal_outcome.splits)
  show ?thesis
    unfolding retirement_apply_def apply_checks_def apply_changes_def apply_confirms_def
    by (rule triple_catch [where R = ?S]) (rule bind owner require stores records triple_fail | assumption)+
qed

end

end
