(* ===== verification/Retirement_Bounds.thy ===== *)
theory Retirement_Bounds
  imports Totp_Retirement
begin

text \<open>
  The size of a journal file: a record that passes \<open>record\<close> always fits in \<open>MAX_BYTES\<close>, whatever
  characters its timestamps hold.
\<close>

section \<open>Sizes of JSON texts\<close>

definition utf8_size :: "string \<Rightarrow> nat" where
  "utf8_size s = length (utf8 s)"

lemma utf8_size_append [simp]: "utf8_size (s @ t) = utf8_size s + utf8_size t"
  by (simp add: utf8_size_def utf8_def)

lemma utf8_size_Nil [simp]: "utf8_size [] = 0"
  by (simp add: utf8_size_def utf8_def)

lemma utf8_size_Cons: "utf8_size (c # s) = (if of_char c < (128 :: nat) then 1 else 2) + utf8_size s"
  by (simp add: utf8_size_def utf8_def utf8_char_def Let_def)

lemma utf8_size_le: "utf8_size s \<le> 2 * length s"
  by (induction s) (auto simp: utf8_size_Cons)

text \<open>A quoted string grows at most sixfold; one of \<open>[A-Za-z0-9_-]\<close> by its quotes.\<close>

lemma hex_digit_ascii: "k < 16 \<Longrightarrow> of_char (hex_digit k) < (128 :: nat)"
proof -
  have "list_all (\<lambda>c. of_char c < (128 :: nat)) ''0123456789abcdef''" by simp
  then show "k < 16 \<Longrightarrow> of_char (hex_digit k) < (128 :: nat)"
    unfolding hex_digit_def list_all_length by (elim allE impE) auto
qed

lemma json_char_size: "utf8_size (json_char c) \<le> 6"
proof (cases "8 \<le> length (json_char c) \<or> length (json_char c) = 6")
  case True
  then have small: "of_char c < (32 :: nat)"
      "json_char c = [CHR 0x5C, CHR ''u'', CHR ''0'', CHR ''0'', hex_digit (of_char c div 16), hex_digit (of_char c mod 16)]"
    by (auto simp: json_char_def Let_def split: if_splits)
  moreover from this have "of_char c div 16 < (16 :: nat)" by simp
  ultimately show ?thesis by (simp add: utf8_size_Cons hex_digit_ascii)
next
  case False
  then have "length (json_char c) \<le> 2" by (auto simp: json_char_def Let_def split: if_splits)
  then show ?thesis using utf8_size_le [of "json_char c"] by simp
qed

lemma json_string_size: "utf8_size (json_string s) \<le> 6 * length s + 2"
proof -
  have "utf8_size (concat (map json_char s)) \<le> 6 * length s"
  proof (induction s)
    case (Cons c s)
    then show ?case using json_char_size [of c] by simp
  qed simp
  then show ?thesis by (simp add: json_string_def json_body_def utf8_size_Cons)
qed

lemma word_dash_size: "is_word_dash c \<Longrightarrow> json_char c = [c] \<and> utf8_size [c] = 1"
  by (auto simp: is_word_dash_def is_upper_def is_lower_def is_digit_def json_char_def utf8_size_Cons Let_def)

lemma plain_size:
  assumes "list_all is_word_dash s"
  shows "utf8_size (json_string s) = length s + 2"
proof -
  have "utf8_size (concat (map json_char s)) = length s"
    using assms
  proof (induction s)
    case (Cons c s)
    then show ?case using word_dash_size [of c] utf8_size_append [of "[c]"] by simp
  qed simp
  then show ?thesis by (simp add: json_string_def json_body_def utf8_size_Cons)
qed

lemma hex_is_word: "is_sha256_hex s \<Longrightarrow> list_all is_word_dash s"
  by (auto simp: is_sha256_hex_def list_all_iff is_word_dash_def is_lower_hex_def is_lower_def Let_def)

lemma hex_size: "is_sha256_hex s \<Longrightarrow> utf8_size (json_string s) = 66"
  using plain_size [OF hex_is_word, of s] by (simp add: is_sha256_hex_def)

lemma component_size: "retirement_component s \<Longrightarrow> utf8_size (json_string s) \<le> 258"
  by (simp add: retirement_component_def retirement_text_def plain_size)

lemma stamp_size: "retirement_stamp env t \<Longrightarrow> utf8_size (json_string (me_stamp (re_material env) t)) \<le> 1538"
  using json_string_size [of "me_stamp (re_material env) t"]
  by (simp add: retirement_stamp_def retirement_text_def)

text \<open>An object is at most its keys, sixfold, and its values, with five bytes of punctuation for each.\<close>

lemma object_size:
  assumes "list_all2 (\<lambda>(k, v) n. utf8_size (stringify v) \<le> n) kvs ns"
  shows "utf8_size (stringify (JObj kvs)) \<le> sum_list (map (\<lambda>(k, v). 6 * length k + 4) kvs) + sum_list ns + 2"
proof -
  let ?pair = "\<lambda>(k, v). json_string k @ '':'' @ stringify v"
  have "utf8_size (json_join (map ?pair kvs)) \<le> sum_list (map (\<lambda>(k, v). 6 * length k + 4) kvs) + sum_list ns"
    using assms
  proof (induction rule: list_all2_induct)
    case (Cons p kvs n ns)
    obtain k v where p: "p = (k, v)" by (cases p)
    have "utf8_size (json_join (map ?pair (p # kvs)))
        \<le> utf8_size (json_string k @ '':'' @ stringify v) + 1 + utf8_size (json_join (map ?pair kvs))"
      by (cases kvs) (auto simp: p utf8_size_Cons)
    then show ?case using Cons json_string_size [of k] by (simp add: p utf8_size_Cons)
  qed simp
  then show ?thesis by (simp add: json_braces_def utf8_size_Cons)
qed

section \<open>Sizes of records\<close>

lemma num_size: "utf8_size (stringify (JNum 1)) \<le> 1"
  by code_simp

lemma receipt_size:
  assumes "receipt_ok env r"
  shows "utf8_size (stringify (receipt_json env r)) \<le> 4200"
proof -
  have "utf8_size (stringify (receipt_json env r))
      \<le> sum_list (map (\<lambda>(k, v). 6 * length k + 4) (case receipt_json env r of JObj kvs \<Rightarrow> kvs | _ \<Rightarrow> []))
        + sum_list [1, 66, 258, 258, 66, 1538, 1538] + 2"
    unfolding receipt_json_def json.case
    by (rule object_size) (use assms in \<open>auto simp: receipt_ok_def hex_size component_size stamp_size num_size [simplified]\<close>)
  then show ?thesis by (simp add: receipt_json_def)
qed

lemma record_size:
  assumes "record_ok env r"
  shows "utf8_size (stringify (retirement_json env r)) \<le> 4700"
proof (cases r)
  case (Committed c)
  have "utf8_size (stringify (retirement_json env r))
      \<le> sum_list (map (\<lambda>(k, v). 6 * length k + 4) (case retirement_json env r of JObj kvs \<Rightarrow> kvs | _ \<Rightarrow> []))
        + sum_list [1, 11, 66, 258, 258, 66, 66, 66, 66, 66, 1538] + 2"
    unfolding Committed retirement_json.simps json.case
    by (rule object_size)
      (use assms Committed in \<open>auto simp: hex_size component_size stamp_size num_size [simplified] null_or_def
        plain_size is_word_dash_def is_lower_def utf8_size_Cons split: option.splits\<close>)
  then show ?thesis by (simp add: Committed)
next
  case (Applied a x)
  have "utf8_size (stringify (retirement_json env r))
      \<le> sum_list (map (\<lambda>(k, v). 6 * length k + 4) (case retirement_json env r of JObj kvs \<Rightarrow> kvs | _ \<Rightarrow> []))
        + sum_list [1, 9, 66, 4200] + 2"
    unfolding Applied retirement_json.simps json.case
    by (rule object_size)
      (use assms Applied receipt_size [of env x] in \<open>auto simp: hex_size num_size [simplified]
        plain_size is_word_dash_def is_lower_def\<close>)
  then show ?thesis by (simp add: Applied)
qed

text \<open>So the size limit never refuses a record that was accepted.\<close>

lemma record_fits:
  assumes "record_ok env r" "is_sha256_hex seal"
  shows "length (utf8 (journal_body env r seal)) \<le> RETIREMENT_MAX_BYTES"
proof -
  have "utf8_size (journal_body env r seal)
      \<le> sum_list (map (\<lambda>(k, v). 6 * length k + 4)
          [(''version'', JNum 1), (''record'', retirement_json env r), (''seal'', JStr seal)])
        + sum_list [1, 4700, 66] + 2"
    unfolding journal_body_def
    by (rule object_size) (use record_size [OF assms(1)] hex_size [OF assms(2)] num_size in auto)
  then show ?thesis by (simp add: utf8_size_def RETIREMENT_MAX_BYTES_def)
qed

end
