(* ===== verification/Retirement_Recovery.thy ===== *)
theory Retirement_Recovery
  imports Retirement_Protocol Retirement_Bounds
begin

text \<open>
  On a storage that works, \<open>apply\<close> ends with the retirement applied from every state in which it
  is resumable, and \<open>recover\<close> ends with every record of the journal applied.
\<close>

section \<open>One record\<close>

text \<open>What the clock, the key and the file system have to provide for the record to be published.\<close>

definition publishable :: "retirement_env \<Rightarrow> retirement_io \<Rightarrow> int \<Rightarrow> committed \<Rightarrow> bool" where
  "publishable env io now v \<longleftrightarrow>
     isSafeInteger now \<and> \<bar>now\<bar> \<le> 8640000000000000 \<and> record_ok env (applied_record v now)
     \<and> ri_apply io (cm_operationId v) = Journal_done
     \<and> is_sha256_hex (seal_of env (applied_record v now))"

lemma records_work:
  fixes P :: "'s \<Rightarrow> bool"
  assumes "key_ready env" "publishable env io now v"
  shows "triple (\<lambda>w. P (rw_store w)) (apply_records env io now v) (\<lambda>_ w. P (rw_store w)) (\<lambda>_. False)"
proof -
  have "apply_records env io now v w =
      (Inr (applied_receipt v now), w\<lparr>rw_journal := journaled env (applied_record v now) (rw_journal w)\<rparr>)" for w :: "'s retirement_state"
    using assms record_fits [of env "applied_record v now" "seal_of env (applied_record v now)"]
    by (simp add: apply_records_def publishable_def retirement_now_def Let_def require_def journal_write_def
        applied_record_def bind_op_def mac_ready seal_of_def journaled_def return_op_def)
  then show ?thesis by (simp add: triple_def)
qed

context working_storage
begin

definition sound_at :: "credentials \<Rightarrow> journal \<Rightarrow> 's retirement_state \<Rightarrow> bool" where
  "sound_at c j w \<longleftrightarrow> sound (rw_store w) \<and> at c j w"

lemma works_at:
  assumes "triple (\<lambda>s. creds s = c) m Q E" "\<And>a s. Q a s \<Longrightarrow> creds s = c' \<and> B a" "triple sound m (\<lambda>_. sound) sound"
    and "triple (\<lambda>s. sound s \<and> creds s = c) m (\<lambda>_ _. True) (\<lambda>_. False)"
  shows "triple (sound_at c j) (in_store m) (\<lambda>a w. sound_at c' j w \<and> B a) (\<lambda>_. False)"
proof -
  have "triple (\<lambda>s. sound s \<and> creds s = c) m (\<lambda>a s. sound s \<and> creds s = c' \<and> B a) (\<lambda>_. False)"
    using assms unfolding triple_def by blast
  then show ?thesis
    unfolding sound_at_def at_def
    by (rule triple_weaken [OF triple_in_store [where F = "\<lambda>x. x = j"]]) auto
qed

lemmas sound_users = works_at [OF users_law _ users_sound users_works]
lemmas sound_factor = works_at [OF factor_law _ factor_sound factor_works]
lemmas sound_codes = works_at [OF codes_law _ codes_sound codes_works]
lemmas sound_sessions = works_at [OF sessions_law _ sessions_sound sessions_works]

lemma sound_owner:
  assumes "one_account u h P (cr_accounts c)"
  shows "triple (sound_at c j) (owner st u h) (\<lambda>a w. sound_at c j w \<and> P a) (\<lambda>_. False)"
  unfolding owner_def
proof (rule triple_bind_fact [OF sound_users])
  fix xs assume "xs = cr_accounts c"
  with assms show "triple (sound_at c j)
     (case filter (\<lambda>x. u_id x = u \<or> u_handle x = h) xs of
        [x] \<Rightarrow> if u_id x \<noteq> u \<or> u_handle x \<noteq> h then fail_with CONFLICT else return_op x
      | _ \<Rightarrow> fail_with CONFLICT) (\<lambda>a w. sound_at c j w \<and> P a) (\<lambda>_. False)"
    by (auto intro!: triple_return simp: one_account_def split: list.splits)
qed auto

lemma sound_checks:
  assumes "resumable env v c"
  shows "triple (sound_at c j) (apply_checks st env v) (\<lambda>_. sound_at c j) (\<lambda>_. False)"
proof -
  have res: "one_account (cm_userId v) (cm_handle v) (\<lambda>a. totp_flags_clearable a (cm_handle v)) (cr_accounts c)"
    "option_ok (factor_matches env v) (cr_factor c (cm_handle v))"
    "option_ok (codes_match env v) (cr_codes c (cm_userId v))"
    using assms by (simp_all add: resumable_def)
  show ?thesis
    unfolding apply_checks_def
    by (rule triple_bind_fact [OF sound_owner [OF res(1)]], rule triple_bind_require,
        rule triple_bind_fact [OF sound_factor], assumption, rule triple_bind_fact [OF sound_codes], assumption)
      (auto intro!: triple_require simp: res)
qed

lemma resumable_expected:
  assumes "resumable env v c" "material = re_material env"
  shows "factor_expected material (cm_factorSnapshotDigest v) (cr_factor c (cm_handle v))"
    "codes_expected material (cm_recoverySetDigest v) (cr_codes c (cm_userId v))"
  using assms by (auto simp: resumable_def factor_expected_def codes_expected_def option_ok_def
      factor_matches_def codes_match_def split: option.splits)

lemma sound_changes:
  assumes "resumable env v c" "material = re_material env" "record_ok env (Committed v)"
  shows "triple (sound_at c j) (apply_changes st v)
    (\<lambda>_ w. sound (rw_store w) \<and> rw_journal w = j \<and> retired v (creds (rw_store w))) (\<lambda>_. False)"
proof -
  let ?u = "cm_userId v" and ?h = "cm_handle v"
  define c1 c2 c3 where cs: "c1 = without_sessions ?u c" "c2 = without_factor ?h c1" "c3 = without_codes ?u c2"
  note c_defs = without_sessions_def without_factor_def without_codes_def
  have names: "retirement_component ?u" "retirement_component ?h" "is_sha256_hex (cm_factorSnapshotDigest v)"
    "option_ok is_sha256_hex (cm_recoverySetDigest v)"
    using assms(3) by (auto simp: option_ok_def split: option.splits)
  have acc: "cr_accounts c3 = cr_accounts c" by (simp add: cs c_defs)
  have one: "one_account ?u ?h (\<lambda>a. totp_flags_clearable a ?h) (cr_accounts c3)"
    using assms(1) by (simp add: resumable_def acc)
  note exp = resumable_expected [OF assms(1,2)]
  have exp1: "factor_expected material (cm_factorSnapshotDigest v) (cr_factor c1 ?h)"
    "codes_expected material (cm_recoverySetDigest v) (cr_codes c2 ?u)"
    using exp by (simp_all add: cs c_defs)
  have s1: "triple (sound_at c j) (in_store (rto_deleteUserSessions st ?u)) (\<lambda>a w. sound_at c1 j w \<and> True) (\<lambda>_. False)"
    by (rule works_at [OF delete_sessions_law _ delete_sessions_sound delete_sessions_works]) (simp add: cs)
  have s2: "triple (sound_at c1 j) (in_store (rto_deleteTOTPSecretExpected st ?h (cm_factorSnapshotDigest v)))
      (\<lambda>a w. sound_at c2 j w \<and> True) (\<lambda>_. False)"
    by (rule works_at [OF delete_factor_law _ delete_factor_sound delete_factor_works]) (simp_all add: cs(2) names exp1)
  have s3: "triple (sound_at c2 j) (in_store (rto_deleteBackupCodesExpected st ?u (cm_recoverySetDigest v)))
      (\<lambda>a w. sound_at c3 j w \<and> True) (\<lambda>_. False)"
    by (rule works_at [OF delete_codes_law _ delete_codes_sound delete_codes_works]) (simp_all add: cs(3) names exp1)
  have ends: "retired v (c3\<lparr>cr_accounts := xs\<rparr>)" if "flags_cleared ?u ?h (cr_accounts c3) xs" for xs
    using flags_cleared_off [OF that] by (simp add: retired_def cs c_defs)
  have final: "triple (\<lambda>s. sound s \<and> creds s = c3) (rto_clearTotpFlagsExpected st ?u ?h)
      (\<lambda>_ s. sound s \<and> retired v (creds s)) (\<lambda>_. False)"
    using clear_flags_law [of c3 ?u ?h] clear_flags_sound [of ?u ?h] clear_flags_works [OF names(1,2) one] ends
    unfolding triple_def by metis
  have s4: "triple (sound_at c3 j) (in_store (rto_clearTotpFlagsExpected st ?u ?h))
      (\<lambda>_ w. sound (rw_store w) \<and> rw_journal w = j \<and> retired v (creds (rw_store w))) (\<lambda>_. False)"
    unfolding sound_at_def at_def
    by (rule triple_weaken [OF triple_in_store [where F = "\<lambda>x. x = j", OF final]]) auto
  show ?thesis
    unfolding apply_changes_def
    by (rule triple_bind_fact [OF s1], rule triple_bind_fact [OF sound_sessions], assumption, rule triple_bind_require,
        rule triple_bind_fact [OF s2], rule triple_bind_fact [OF s3], rule s4)
      (auto simp: cs(1) without_sessions_def)
qed

lemma sound_confirms:
  assumes "retired v c"
  shows "triple (sound_at c j) (apply_confirms st v) (\<lambda>_. sound_at c j) (\<lambda>_. False)"
proof -
  have one: "one_account (cm_userId v) (cm_handle v) flags_off (cr_accounts c)"
    using assms by (simp add: retired_def)
  show ?thesis
    unfolding apply_confirms_def
    by (rule triple_bind_fact [OF sound_factor], assumption, rule triple_bind_require,
        rule triple_bind_fact [OF sound_codes], assumption, rule triple_bind_require,
        rule triple_bind_fact [OF sound_sessions], assumption, rule triple_bind_require,
        rule triple_bind_fact [OF sound_owner [OF one]], rule triple_require)
      (use assms in \<open>auto simp: retired_def flags_off_def\<close>)
qed

theorem sound_apply:
  assumes "resumable env v c" "material = re_material env" "record_ok env (Committed v)" "key_ready env"
    "publishable env io now v"
  shows "triple (sound_at c j) (retirement_apply st env io now v)
    (\<lambda>r w. sound (rw_store w) \<and> recorded env v c j now w \<and> r = applied_receipt v now) (\<lambda>_. False)"
proof -
  let ?mid = "\<lambda>w. sound (rw_store w) \<and> rw_journal w = j \<and> retired v (creds (rw_store w))"
  have confirms: "triple ?mid (apply_confirms st v) (\<lambda>_ w. sound (rw_store w)) (\<lambda>_. False)"
    using sound_confirms unfolding triple_def sound_at_def at_def by blast
  have "triple (sound_at c j) (retirement_apply st env io now v) (\<lambda>_ w. sound (rw_store w)) (\<lambda>_. False)"
    unfolding retirement_apply_def
    by (rule triple_catch [where R = "\<lambda>_. False"], rule triple_bind [OF sound_checks [OF assms(1)]],
        rule triple_bind [OF sound_changes [OF assms(1-3)]], rule triple_bind [OF confirms],
        rule records_work [OF assms(4,5)]) (simp add: triple_def)
  moreover have "triple (sound_at c j) (retirement_apply st env io now v)
      (\<lambda>r w. recorded env v c j now w \<and> r = applied_receipt v now) (stored env v c j now)"
    by (rule triple_weaken [OF apply_follows]) (auto simp: sound_at_def)
  ultimately show ?thesis unfolding triple_def by blast
qed

end

section \<open>The whole journal\<close>

text \<open>Every file of the journal can be read, and every committed record in it can be published as applied.\<close>

fun file_ready :: "retirement_env \<Rightarrow> retirement_io \<Rightarrow> (string \<Rightarrow> int) \<Rightarrow> string \<Rightarrow> journal_file \<Rightarrow> bool" where
  "file_ready env io clock name Unreadable = False"
| "file_ready env io clock name (Sealed r seal) \<longleftrightarrow>
     seal = seal_of env r \<and> is_sha256_hex seal \<and> record_ok env r \<and> name = journal_name (record_id r)
     \<and> ri_regular io name \<and> ri_readable io name
     \<and> (case r of
          Committed v \<Rightarrow> publishable env io (clock name) v
        | Applied a x \<Rightarrow> True)"

definition journal_ready :: "retirement_env \<Rightarrow> retirement_io \<Rightarrow> (string \<Rightarrow> int) \<Rightarrow> journal \<Rightarrow> bool" where
  "journal_ready env io clock j \<longleftrightarrow>
     ri_prepare io \<and> (case ri_open io of Inl e \<Rightarrow> False | Inr u \<Rightarrow> True) \<and> key_ready env
     \<and> length j \<le> RETIREMENT_MAX_RECORDS \<and> list_all (\<lambda>(name, f). file_ready env io clock name f) j"

text \<open>A committed record of the journal under a name.\<close>

definition committed_at :: "journal \<Rightarrow> string \<Rightarrow> committed \<Rightarrow> bool" where
  "committed_at j name v \<longleftrightarrow> (\<exists>seal. map_of j name = Some (Sealed (Committed v) seal))"

lemma journal_ready_file: "journal_ready env io clock j \<Longrightarrow> map_of j name = Some f \<Longrightarrow> file_ready env io clock name f"
  by (auto simp: journal_ready_def list_all_iff dest: map_of_SomeD)

lemma journal_ready_record:
  assumes "journal_ready env io clock j" "committed_at j name v"
    "record_ok env (applied_record v now)" "is_sha256_hex (seal_of env (applied_record v now))"
  shows "journal_ready env io clock (journaled env (applied_record v now) j)"
    "map_of (journaled env (applied_record v now) j) n =
       (if n = name then Some (Sealed (applied_record v now) (seal_of env (applied_record v now))) else map_of j n)"
proof -
  obtain seal where at: "map_of j name = Some (Sealed (Committed v) seal)"
    using assms(2) by (auto simp: committed_at_def)
  have ready: "file_ready env io clock name (Sealed (Committed v) seal)"
    using journal_ready_file [OF assms(1) at] .
  have name: "journal_name (record_id (applied_record v now)) = name"
    using ready by (simp add: applied_record_def applied_receipt_def)
  let ?f = "Sealed (applied_record v now) (seal_of env (applied_record v now))"
  have new: "file_ready env io clock name ?f"
    using ready name assms(3,4) by (auto simp: applied_record_def)
  have dom: "name \<in> fst ` set j" using at by (force dest: map_of_SomeD)
  have "length (map_set name ?f j) = length j"
    using dom by (induction j) auto
  moreover have "set (map_set name ?f j) \<subseteq> insert (name, ?f) (set j)"
    by (induction j) auto
  ultimately show "journal_ready env io clock (journaled env (applied_record v now) j)"
    using assms(1) new by (auto simp: journal_ready_def journaled_def name list_all_iff)
  show "map_of (journaled env (applied_record v now) j) n = (if n = name then Some ?f else map_of j n)"
    by (simp add: journaled_def name)
qed

lemma committed_publishable:
  assumes "journal_ready env io clock j" "committed_at j name v"
  shows "record_ok env (applied_record v (clock name))" "is_sha256_hex (seal_of env (applied_record v (clock name)))"
proof -
  obtain seal where "map_of j name = Some (Sealed (Committed v) seal)"
    using assms(2) by (auto simp: committed_at_def)
  then show "record_ok env (applied_record v (clock name))" "is_sha256_hex (seal_of env (applied_record v (clock name)))"
    using journal_ready_file [OF assms(1)] by (fastforce simp: publishable_def)+
qed

text \<open>Reading back what was sealed.\<close>

lemma journal_name_take: "take (length (journal_name i) - 5) (journal_name i) = i"
  by (simp add: journal_name_def)

lemma record_ok_id: "record_ok env r \<Longrightarrow> is_sha256_hex (record_id r)"
  by (cases r) (auto simp: receipt_ok_def)

lemma journal_read_sealed:
  assumes "journal_ready env io clock (rw_journal w)" "map_of (rw_journal w) name = Some (Sealed r seal)"
  shows "journal_read env io (take (length name - 5) name) w = (Inr (Some r), w)"
proof -
  have ready: "file_ready env io clock name (Sealed r seal)" using journal_ready_file [OF assms] .
  then have name: "name = journal_name (record_id r)" "is_sha256_hex (record_id r)"
    by (auto intro: record_ok_id)
  have "key_ready env" using assms(1) by (simp add: journal_ready_def)
  then show ?thesis
    using ready assms(2) name
    by (auto simp: journal_read_def journal_name_take require_def bind_op_def mac_ready catch_op_def seal_of_def return_op_def)
qed

lemma is_journal_name_id: "is_sha256_hex i \<Longrightarrow> is_journal_name (journal_name i) \<and> \<not> is_journal_temporary (journal_name i)"
  by (simp add: is_sha256_hex_def is_journal_name_def is_journal_temporary_def journal_name_def)

lemma scan_names_all:
  assumes "list_all (\<lambda>n. is_journal_name n \<and> \<not> is_journal_temporary n \<and> ri_regular io n) items"
    "count = length names" "length names + length items \<le> RETIREMENT_MAX_RECORDS"
  shows "scan_names io count names items w = (Inr (names @ items), w)"
  using assms
proof (induction items arbitrary: count names)
  case (Cons item items)
  then show ?case using Cons.IH [of "count + 1" "names @ [item]"] by (simp add: RETIREMENT_MAX_RECORDS_def)
qed (simp add: return_op_def)

lemma filenames_ready:
  assumes "journal_ready env io clock (rw_journal w)"
  shows "filenames io w = (Inr (sort (map fst (rw_journal w))), w)"
proof -
  have name: "is_journal_name n \<and> \<not> is_journal_temporary n \<and> ri_regular io n" if "(n, f) \<in> set (rw_journal w)" for n f
  proof -
    have "file_ready env io clock n f" using assms that by (auto simp: journal_ready_def list_all_iff)
    then show ?thesis by (cases f) (use is_journal_name_id record_ok_id in auto)
  qed
  have "scan_names io 0 [] (map fst (rw_journal w)) w' = (Inr (map fst (rw_journal w)), w')" for w' :: "'a retirement_state"
    using assms name
    by (subst scan_names_all) (auto simp: list_all_iff journal_ready_def)
  then show ?thesis
    using assms by (auto simp: filenames_def journal_ready_def bind_op_def return_op_def split: sum.splits)
qed

context working_storage
begin

text \<open>How far a recovery from the journal \<open>j0\<close> and the credentials \<open>c0\<close> is: every file is as it was or its retirement is done.\<close>

definition progress ::
  "retirement_env \<Rightarrow> retirement_io \<Rightarrow> (string \<Rightarrow> int) \<Rightarrow> journal \<Rightarrow> credentials \<Rightarrow> string set \<Rightarrow> 's retirement_state \<Rightarrow> bool" where
  "progress env io clock j0 c0 D w \<longleftrightarrow>
     sound (rw_store w) \<and> journal_ready env io clock (rw_journal w)
     \<and> (\<forall>n v. committed_at j0 n v \<longrightarrow> resumable env v (creds (rw_store w)))
     \<and> (\<forall>v. retired v c0 \<longrightarrow> retired v (creds (rw_store w)))
     \<and> (\<forall>n. map_of (rw_journal w) n = map_of j0 n
          \<or> (\<exists>v. committed_at j0 n v \<and> retired v (creds (rw_store w))
                \<and> map_of (rw_journal w) n =
                    Some (Sealed (applied_record v (clock n)) (seal_of env (applied_record v (clock n))))))
     \<and> (\<forall>n \<in> D. \<forall>v. \<not> committed_at (rw_journal w) n v)"

lemma progress_known: "progress env io clock j0 c0 D w \<Longrightarrow> map_of (rw_journal w) n = None \<longleftrightarrow> map_of j0 n = None"
  unfolding progress_def committed_at_def by (metis option.distinct(1))

lemma progress_committed:
  assumes "progress env io clock j0 c0 D w" "committed_at (rw_journal w) n v"
  shows "committed_at j0 n v"
proof -
  have "map_of (rw_journal w) n = map_of j0 n"
    using assms by (auto simp: progress_def committed_at_def applied_record_def)
  then show ?thesis using assms(2) by (simp add: committed_at_def)
qed

lemma progress_step:
  assumes "progress env io clock j0 c0 D w" "committed_at (rw_journal w) n v" "material = re_material env"
    "recorded env v (creds (rw_store w)) (rw_journal w) (clock n) w'" "sound (rw_store w')"
  shows "progress env io clock j0 c0 (insert n D) w'"
proof -
  let ?f = "Sealed (applied_record v (clock n)) (seal_of env (applied_record v (clock n)))"
  have run: "retirement_run material v (creds (rw_store w)) (creds (rw_store w'))"
    and retired: "retired v (creds (rw_store w'))"
    and journal: "rw_journal w' = journaled env (applied_record v (clock n)) (rw_journal w)"
    using assms(4) by (simp_all add: recorded_def)
  have ready: "journal_ready env io clock (rw_journal w)" using assms(1) by (simp add: progress_def)
  note update = journal_ready_record [OF ready assms(2) committed_publishable [OF ready assms(2)], folded journal]
  have n: "committed_at j0 n v" using progress_committed [OF assms(1,2)] .
  have old: "\<forall>m. map_of (rw_journal w) m = map_of j0 m
          \<or> (\<exists>u. committed_at j0 m u \<and> retired u (creds (rw_store w))
                \<and> map_of (rw_journal w) m =
                    Some (Sealed (applied_record u (clock m)) (seal_of env (applied_record u (clock m)))))"
    using assms(1) by (simp add: progress_def)
  have settled: "map_of (rw_journal w') m = map_of j0 m
          \<or> (\<exists>u. committed_at j0 m u \<and> retired u (creds (rw_store w'))
                \<and> map_of (rw_journal w') m =
                    Some (Sealed (applied_record u (clock m)) (seal_of env (applied_record u (clock m)))))" for m
  proof (cases "m = n")
    case True
    then show ?thesis using n retired update(2) by auto
  next
    case False
    then show ?thesis using old [rule_format, of m] run_retired [OF run] update(2) by auto
  qed
  have "\<forall>m u. committed_at j0 m u \<longrightarrow> resumable env u (creds (rw_store w'))"
    using assms(1) run_resumable [OF run] by (auto simp: progress_def)
  moreover have "\<forall>u. retired u c0 \<longrightarrow> retired u (creds (rw_store w'))"
    using assms(1) run_retired [OF run] by (auto simp: progress_def)
  moreover have "\<forall>m \<in> insert n D. \<forall>u. \<not> committed_at (rw_journal w') m u"
    using assms(1) update(2) by (auto simp: progress_def committed_at_def applied_record_def)
  ultimately show ?thesis using assms(5) update(1) settled unfolding progress_def by blast
qed

theorem recover_names_works:
  assumes "material = re_material env"
  shows "triple (\<lambda>w. progress env io clock j0 c0 D w \<and> (\<forall>n \<in> set names. map_of (rw_journal w) n \<noteq> None))
    (recover_names st env io clock names) (\<lambda>_. progress env io clock j0 c0 (D \<union> set names)) (\<lambda>_. False)"
proof (induction names arbitrary: D)
  case Nil
  show ?case by (simp add: triple_def return_op_def)
next
  case (Cons n names)
  let ?run = "recover_names st env io clock (n # names)"
  have step: "\<exists>w'. ?run w = recover_names st env io clock names w'
      \<and> progress env io clock j0 c0 (insert n D) w' \<and> (\<forall>m \<in> set names. map_of (rw_journal w') m \<noteq> None)"
    if now: "progress env io clock j0 c0 D w" "\<forall>m \<in> set (n # names). map_of (rw_journal w) m \<noteq> None" for w
  proof -
    have ready: "journal_ready env io clock (rw_journal w)" using now(1) by (simp add: progress_def)
    obtain r seal where entry: "map_of (rw_journal w) n = Some (Sealed r seal)"
    proof -
      obtain f where f: "map_of (rw_journal w) n = Some f" using now(2) by auto
      with journal_ready_file [OF ready f] that show thesis by (cases f) auto
    qed
    note read = journal_read_sealed [OF ready entry]
    show ?thesis
    proof (cases r)
      case (Applied a x)
      have "?run w = recover_names st env io clock names w"
        using read Applied by (simp add: bind_op_def)
      moreover have "progress env io clock j0 c0 (insert n D) w"
        using now(1) entry Applied by (auto simp: progress_def committed_at_def)
      ultimately show ?thesis using now(2) by auto
    next
      case (Committed v)
      have at: "committed_at (rw_journal w) n v" using entry Committed by (auto simp: committed_at_def)
      have ok: "record_ok env (Committed v)" "publishable env io (clock n) v"
        using journal_ready_file [OF ready entry] Committed by auto
      have key: "key_ready env" using ready by (simp add: journal_ready_def)
      have "committed_at j0 n v" using progress_committed [OF now(1) at] .
      then have res: "resumable env v (creds (rw_store w))" using now(1) by (auto simp: progress_def)
      have "sound_at (creds (rw_store w)) (rw_journal w) w" using now(1) by (simp add: sound_at_def at_def progress_def)
      then obtain x w' where run: "retirement_apply st env io (clock n) v w = (Inr x, w')" "sound (rw_store w')"
          "recorded env v (creds (rw_store w)) (rw_journal w) (clock n) w'"
        using triple_total [OF sound_apply [OF res assms ok(1) key ok(2)]] by metis
      then have "?run w = recover_names st env io clock names w'"
        using read Committed by (simp add: bind_op_def)
      moreover have onward: "progress env io clock j0 c0 (insert n D) w'"
        using progress_step [OF now(1) at assms run(3,2)] .
      moreover have "\<forall>m \<in> set names. map_of (rw_journal w') m \<noteq> None"
        using now(2) by (simp only: progress_known [OF onward] progress_known [OF now(1)]) simp
      ultimately show ?thesis by blast
    qed
  qed
  show ?case
  proof (rule tripleI)
    fix w e w' assume "progress env io clock j0 c0 D w \<and> (\<forall>m \<in> set (n # names). map_of (rw_journal w) m \<noteq> None)"
      "?run w = (Inl e, w')"
    then show False using step Cons.IH [of "insert n D"] unfolding triple_def by metis
  next
    fix w a w' assume "progress env io clock j0 c0 D w \<and> (\<forall>m \<in> set (n # names). map_of (rw_journal w) m \<noteq> None)"
      "?run w = (Inr a, w')"
    then have "progress env io clock j0 c0 (insert n D \<union> set names) w'"
      using step Cons.IH [of "insert n D"] unfolding triple_def by metis
    then show "progress env io clock j0 c0 (D \<union> set (n # names)) w'" by simp
  qed
qed

theorem recover_works:
  assumes "material = re_material env" "sound (rw_store w)" "journal_ready env io clock (rw_journal w)"
    "\<And>n v. committed_at (rw_journal w) n v \<Longrightarrow> resumable env v (creds (rw_store w))"
  obtains w' where "retirement_recover st env io clock w = (Inr (), w')" "sound (rw_store w')"
    "\<And>n v. \<not> committed_at (rw_journal w') n v"
    "\<And>n v. committed_at (rw_journal w) n v \<Longrightarrow> retired v (creds (rw_store w'))
       \<and> map_of (rw_journal w') n = Some (Sealed (applied_record v (clock n)) (seal_of env (applied_record v (clock n))))"
    "\<And>n. (\<forall>v. \<not> committed_at (rw_journal w) n v) \<Longrightarrow> map_of (rw_journal w') n = map_of (rw_journal w) n"
    "\<And>v. retired v (creds (rw_store w)) \<Longrightarrow> retired v (creds (rw_store w'))"
proof -
  let ?names = "sort (map fst (rw_journal w))"
  have "progress env io clock (rw_journal w) (creds (rw_store w)) {} w"
    using assms by (simp add: progress_def)
  moreover have "\<forall>n \<in> set ?names. map_of (rw_journal w) n \<noteq> None"
    by (auto simp: map_of_eq_None_iff image_iff)
  ultimately have start: "progress env io clock (rw_journal w) (creds (rw_store w)) {} w \<and> (\<forall>n \<in> set ?names. map_of (rw_journal w) n \<noteq> None)"
    by blast
  obtain u w' where run: "recover_names st env io clock ?names w = (Inr u, w')"
      and finish: "progress env io clock (rw_journal w) (creds (rw_store w)) (set ?names) w'"
    using triple_total [OF recover_names_works [OF assms(1)] start] by auto
  have "retirement_recover st env io clock w = (Inr (), w')"
    using run assms(3) filenames_ready [OF assms(3)]
    by (simp add: retirement_recover_def journal_prepare_def require_def journal_ready_def bind_op_def return_op_def)
  moreover have none: "\<not> committed_at (rw_journal w') n v" for n v
  proof
    assume at: "committed_at (rw_journal w') n v"
    then have "map_of (rw_journal w) n \<noteq> None"
      unfolding committed_at_def by (metis progress_known [OF finish] option.distinct(1))
    then have "n \<in> set ?names" by (simp add: map_of_eq_None_iff)
    then show False using finish at unfolding progress_def by blast
  qed
  moreover have "retired v (creds (rw_store w'))
       \<and> map_of (rw_journal w') n = Some (Sealed (applied_record v (clock n)) (seal_of env (applied_record v (clock n))))"
    if at: "committed_at (rw_journal w) n v" for n v
  proof -
    have "map_of (rw_journal w') n \<noteq> map_of (rw_journal w) n" using none [of n v] at by (auto simp: committed_at_def)
    then show ?thesis using finish at by (auto simp: progress_def committed_at_def)
  qed
  moreover have "map_of (rw_journal w') n = map_of (rw_journal w) n" if "\<forall>v. \<not> committed_at (rw_journal w) n v" for n
    using finish that by (auto simp: progress_def)
  ultimately show thesis using finish that by (simp add: progress_def)
qed

end

end
