(* ===== verification/File_Retirement.thy ===== *)
theory File_Retirement
  imports Retirement_Recovery File_Flags
begin

text \<open>
  The file adapter as a retirement storage: the nine operations the coordinator calls, what they
  mean for the stored credentials, and the two contracts for it and for its faulty version.
\<close>

section \<open>The operations\<close>

definition recovery_digest :: "material_env \<Rightarrow> backup_code_set \<Rightarrow> string result" where
  "recovery_digest m v =
     (case totpRetirementRecoverySetDigest m (Some v) of
        Inl e \<Rightarrow> Inl e
      | Inr None \<Rightarrow> Inl material_error
      | Inr (Some d) \<Rightarrow> Inr d)"

definition file_retirement :: "material_env \<Rightarrow> int \<Rightarrow> files retirement_ops" where
  "file_retirement m now =
     \<lparr>rto_getAllUsers = file_getAllUsers, rto_getSession = file_getSession, rto_getTOTPSecret = file_getTOTPSecret,
      rto_getBackupCodes = file_getBackupCodes, rto_getSessionsByUser = file_getSessionsByUser,
      rto_deleteUserSessions = file_deleteUserSessions Io_done,
      rto_deleteTOTPSecretExpected = file_deleteTOTPSecretExpected (totpRetirementFactorSnapshotDigest m),
      rto_deleteBackupCodesExpected = file_deleteBackupCodesExpected (recovery_digest m),
      rto_clearTotpFlagsExpected = file_clearTotpFlagsExpected now\<rparr>"

definition file_credentials :: "files \<Rightarrow> credentials" where
  "file_credentials f =
     \<lparr>cr_accounts = f_users f, cr_sessions = (\<lambda>u. filter (\<lambda>s. s_userId s = u) (f_sessions f)),
      cr_factor = map_of (f_totp f), cr_codes = map_of (f_codes f)\<rparr>"

definition sound_files :: "files \<Rightarrow> bool" where
  "sound_files f \<longleftrightarrow>
     file_sessions_ok f \<and> list_all (\<lambda>(h, v). isStoredFactor v h) (f_totp f)
     \<and> list_all (\<lambda>(u, v). isStoredBackupCodes v u) (f_codes f)"

section \<open>The contracts\<close>

lemma recovery_digest_expected:
  "recovery_digest m v = Inr d \<longleftrightarrow> totpRetirementRecoverySetDigest m (Some v) = Inr (Some d)"
  by (auto simp: recovery_digest_def split: sum.splits option.splits)

lemma digest_never_none: "totpRetirementRecoverySetDigest m (Some v) \<noteq> Inr None"
  by (simp add: totpRetirementRecoverySetDigest_def)

lemma deleteCredentialExpected_cases:
  "(\<exists>e. deleteCredentialExpected k dir d digest = (Inl e, dir))
   \<or> map_of dir k = None \<and> deleteCredentialExpected k dir d digest = (Inr (), dir)
   \<or> (\<exists>v x. map_of dir k = Some v \<and> d = Some x \<and> digest v = Inr x
        \<and> deleteCredentialExpected k dir d digest = (Inr (), map_del k dir))"
  by (auto simp: deleteCredentialExpected_def split: option.splits)

lemma triple_outcome:
  "(\<And>s. P s \<Longrightarrow> (\<exists>e. m s = (Inl e, s)) \<and> E s \<or> (\<exists>a s'. m s = (Inr a, s') \<and> Q a s')) \<Longrightarrow> triple P m Q E"
  unfolding triple_def by fastforce

lemma list_all_map_del: "list_all P m \<Longrightarrow> list_all P (map_del k m)"
  by (auto simp: list_all_iff AList.delete_eq)

lemma file_creds_without:
  "file_credentials (f\<lparr>f_sessions := filter (\<lambda>s. s_userId s \<noteq> u) (f_sessions f)\<rparr>) = without_sessions u (file_credentials f)"
  "map_of (f_totp f) h = None \<Longrightarrow> file_credentials f = without_factor h (file_credentials f)"
  "map_of (f_codes f) u = None \<Longrightarrow> file_credentials f = without_codes u (file_credentials f)"
  "file_credentials (f\<lparr>f_totp := map_del h (f_totp f)\<rparr>) = without_factor h (file_credentials f)"
  "file_credentials (f\<lparr>f_codes := map_del u (f_codes f)\<rparr>) = without_codes u (file_credentials f)"
  by (auto simp: file_credentials_def without_sessions_def without_factor_def without_codes_def fun_eq_iff
      intro!: filter_cong)

lemma clears_split:
  assumes "u_id a = u" "u_handle a = h" "\<forall>x \<in> set (us @ vs). u_id x \<noteq> u \<and> u_handle x \<noteq> h"
  shows "flags_cleared u h (us @ a # vs) (us @ flags_rewritten now a # vs)"
proof -
  have "filter (\<lambda>x. u_id x = u \<or> u_handle x = h) (us @ a # vs) = [a]"
    using assms by (auto simp: filter_empty_conv)
  moreover have "list_all2 (clears u h) us us" "list_all2 (clears u h) vs vs"
    using assms(3) by (auto intro!: list_all2_refl simp: list_all2_same clears_def)
  ultimately show ?thesis
    using assms(1,2) by (auto simp: flags_cleared_def one_account_def clears_def flags_off_def
        intro!: list_all2_appendI)
qed

lemma file_deleteFactor_cases:
  "(\<exists>e. file_deleteTOTPSecretExpected digest h d f = (Inl e, f))
   \<or> map_of (f_totp f) h = None \<and> file_deleteTOTPSecretExpected digest h d f = (Inr (), f)
   \<or> (\<exists>v. map_of (f_totp f) h = Some v \<and> digest v = Inr d
        \<and> file_deleteTOTPSecretExpected digest h d f = (Inr (), f\<lparr>f_totp := map_del h (f_totp f)\<rparr>))"
  using deleteCredentialExpected_cases [of h "f_totp f" "Some d"
        "\<lambda>v. if \<not> isStoredFactor v h then Inl (Error ''Invalid retirement material'') else digest v"]
  by (auto simp: file_deleteTOTPSecretExpected_def Let_def split: sum.splits if_splits)

lemma file_deleteCodes_cases:
  "(\<exists>e. file_deleteBackupCodesExpected digest u d f = (Inl e, f))
   \<or> map_of (f_codes f) u = None \<and> file_deleteBackupCodesExpected digest u d f = (Inr (), f)
   \<or> (\<exists>v x. map_of (f_codes f) u = Some v \<and> d = Some x \<and> digest v = Inr x
        \<and> file_deleteBackupCodesExpected digest u d f = (Inr (), f\<lparr>f_codes := map_del u (f_codes f)\<rparr>))"
  using deleteCredentialExpected_cases [of u "f_codes f" d
        "\<lambda>v. if \<not> isStoredBackupCodes v u then Inl (Error ''Invalid retirement material'') else digest v"]
  by (auto simp: file_deleteBackupCodesExpected_def Let_def split: sum.splits if_splits)

text \<open>Deleting the sessions of an account fails on a store that cannot be read, and changes nothing then.\<close>

lemma file_deleteUserSessions_cases:
  "(\<exists>e. file_deleteUserSessions Io_done u f = (Inl e, f))
   \<or> (\<exists>n. file_deleteUserSessions Io_done u f = (Inr n, f\<lparr>f_sessions := filter (\<lambda>s. s_userId s \<noteq> u) (f_sessions f)\<rparr>))"
  by (auto simp: file_deleteUserSessions_def file_mutateSessions_def file_readSessions_def bind_op_def Let_def
      split: sum.splits prod.splits)

interpretation file_retires: retirement_storage "file_retirement m now" file_credentials m sound_files for m now
proof (unfold_locales, unfold file_retirement_def retirement_ops.simps)
  fix c :: credentials and h u d e
  show "triple sound_files file_getAllUsers (\<lambda>_. sound_files) sound_files"
    "triple (\<lambda>s. file_credentials s = c) file_getAllUsers (\<lambda>xs s. file_credentials s = c \<and> xs = cr_accounts c)
       (\<lambda>s. file_credentials s = c)"
    by (auto simp: triple_def file_getAllUsers_def file_credentials_def)
  show "triple sound_files (file_getTOTPSecret h) (\<lambda>_. sound_files) sound_files"
    "triple (\<lambda>s. file_credentials s = c) (file_getTOTPSecret h) (\<lambda>v s. file_credentials s = c \<and> v = cr_factor c h)
       (\<lambda>s. file_credentials s = c)"
    by (auto simp: triple_def file_getTOTPSecret_def file_credentials_def split: option.splits if_splits)
  show "triple sound_files (file_getBackupCodes u) (\<lambda>_. sound_files) sound_files"
    "triple (\<lambda>s. file_credentials s = c) (file_getBackupCodes u) (\<lambda>v s. file_credentials s = c \<and> v = cr_codes c u)
       (\<lambda>s. file_credentials s = c)"
    by (auto simp: triple_def file_getBackupCodes_def file_credentials_def split: option.splits if_splits)
  show "triple sound_files (file_getSessionsByUser u) (\<lambda>_. sound_files) sound_files"
    "triple (\<lambda>s. file_credentials s = c) (file_getSessionsByUser u)
       (\<lambda>xs s. file_credentials s = c \<and> xs = cr_sessions c u) (\<lambda>s. file_credentials s = c)"
    by (auto simp: triple_def file_getSessionsByUser_def file_getAllSessions_def file_readSessions_def bind_op_def
        file_credentials_def return_op_def split: sum.splits)
  show "triple sound_files (file_deleteUserSessions Io_done u) (\<lambda>_. sound_files) sound_files"
  proof (rule triple_outcome)
    fix f assume "sound_files f"
    then show "(\<exists>e. file_deleteUserSessions Io_done u f = (Inl e, f)) \<and> sound_files f
        \<or> (\<exists>a f'. file_deleteUserSessions Io_done u f = (Inr a, f') \<and> sound_files f')"
      using file_deleteUserSessions_cases [of u f] by (auto simp: sound_files_def file_sessions_ok_def)
  qed
  show "triple (\<lambda>s. file_credentials s = c) (file_deleteUserSessions Io_done u)
      (\<lambda>_ s. file_credentials s = without_sessions u c)
      (\<lambda>s. file_credentials s = c \<or> file_credentials s = without_sessions u c)"
  proof (rule triple_outcome)
    fix f assume "file_credentials f = c"
    then show "(\<exists>e. file_deleteUserSessions Io_done u f = (Inl e, f))
          \<and> (file_credentials f = c \<or> file_credentials f = without_sessions u c)
        \<or> (\<exists>a f'. file_deleteUserSessions Io_done u f = (Inr a, f') \<and> file_credentials f' = without_sessions u c)"
      using file_deleteUserSessions_cases [of u f] file_creds_without(1) [where f = f and u = u] by auto
  qed
  let ?factor = "file_deleteTOTPSecretExpected (totpRetirementFactorSnapshotDigest m) h d"
  note factor = file_deleteFactor_cases [of "totpRetirementFactorSnapshotDigest m" h d]
  show "triple sound_files ?factor (\<lambda>_. sound_files) sound_files"
  proof (rule triple_outcome)
    fix f assume "sound_files f"
    then show "(\<exists>e. ?factor f = (Inl e, f)) \<and> sound_files f \<or> (\<exists>a f'. ?factor f = (Inr a, f') \<and> sound_files f')"
      using factor [of f] by (auto simp: sound_files_def file_sessions_ok_def list_all_map_del)
  qed
  show "triple (\<lambda>s. file_credentials s = c) ?factor
      (\<lambda>_ s. file_credentials s = without_factor h c \<and> factor_expected m d (cr_factor c h))
      (\<lambda>s. file_credentials s = c \<or> file_credentials s = without_factor h c \<and> factor_expected m d (cr_factor c h))"
  proof (rule triple_outcome)
    fix f assume "file_credentials f = c"
    moreover from this have "cr_factor c h = map_of (f_totp f) h" by (auto simp: file_credentials_def)
    ultimately show "(\<exists>e. ?factor f = (Inl e, f)) \<and> (file_credentials f = c
          \<or> file_credentials f = without_factor h c \<and> factor_expected m d (cr_factor c h))
        \<or> (\<exists>a f'. ?factor f = (Inr a, f') \<and> file_credentials f' = without_factor h c \<and> factor_expected m d (cr_factor c h))"
      using factor [of f] file_creds_without(2,4) [where f = f and h = h] by (auto simp: factor_expected_def option_ok_def)
  qed
  let ?codes = "file_deleteBackupCodesExpected (recovery_digest m) u e"
  note codes = file_deleteCodes_cases [of "recovery_digest m" u e]
  show "triple sound_files ?codes (\<lambda>_. sound_files) sound_files"
  proof (rule triple_outcome)
    fix f assume "sound_files f"
    then show "(\<exists>e. ?codes f = (Inl e, f)) \<and> sound_files f \<or> (\<exists>a f'. ?codes f = (Inr a, f') \<and> sound_files f')"
      using codes [of f] by (auto simp: sound_files_def file_sessions_ok_def list_all_map_del)
  qed
  show "triple (\<lambda>s. file_credentials s = c) ?codes
      (\<lambda>_ s. file_credentials s = without_codes u c \<and> codes_expected m e (cr_codes c u))
      (\<lambda>s. file_credentials s = c \<or> file_credentials s = without_codes u c \<and> codes_expected m e (cr_codes c u))"
  proof (rule triple_outcome)
    fix f assume "file_credentials f = c"
    moreover from this have "cr_codes c u = map_of (f_codes f) u" by (auto simp: file_credentials_def)
    ultimately show "(\<exists>x. ?codes f = (Inl x, f)) \<and> (file_credentials f = c
          \<or> file_credentials f = without_codes u c \<and> codes_expected m e (cr_codes c u))
        \<or> (\<exists>a f'. ?codes f = (Inr a, f') \<and> file_credentials f' = without_codes u c \<and> codes_expected m e (cr_codes c u))"
      using codes [of f] file_creds_without(3,5) [where f = f and u = u]
      by (auto simp: codes_expected_def option_ok_def recovery_digest_expected)
  qed
  let ?flags = "file_clearTotpFlagsExpected now u h"
  show "triple sound_files ?flags (\<lambda>_. sound_files) sound_files"
  proof (rule triple_outcome)
    fix f assume sound: "sound_files f"
    show "(\<exists>e. ?flags f = (Inl e, f)) \<and> sound_files f \<or> (\<exists>a f'. ?flags f = (Inr a, f') \<and> sound_files f')"
      by (rule clearTotpFlags_cases [of now u h f]) (use sound in \<open>auto simp: sound_files_def file_sessions_ok_def\<close>)
  qed
  show "triple (\<lambda>s. file_credentials s = c) ?flags
      (\<lambda>_ s. \<exists>xs. file_credentials s = c\<lparr>cr_accounts := xs\<rparr> \<and> flags_cleared u h (cr_accounts c) xs)
      (\<lambda>s. file_credentials s = c
         \<or> (\<exists>xs. file_credentials s = c\<lparr>cr_accounts := xs\<rparr> \<and> flags_cleared u h (cr_accounts c) xs))"
  proof (rule triple_outcome)
    fix f assume c: "file_credentials f = c"
    show "(\<exists>e. ?flags f = (Inl e, f)) \<and> (file_credentials f = c
         \<or> (\<exists>xs. file_credentials f = c\<lparr>cr_accounts := xs\<rparr> \<and> flags_cleared u h (cr_accounts c) xs))
       \<or> (\<exists>a f'. ?flags f = (Inr a, f')
            \<and> (\<exists>xs. file_credentials f' = c\<lparr>cr_accounts := xs\<rparr> \<and> flags_cleared u h (cr_accounts c) xs))"
    proof (rule clearTotpFlags_cases [of now u h f])
      fix us a vs
      assume *: "f_users f = us @ a # vs" "u_id a = u" "u_handle a = h"
        "\<forall>x \<in> set (us @ vs). u_id x \<noteq> u \<and> u_handle x \<noteq> h"
        "?flags f = (Inr (), f\<lparr>f_users := us @ flags_rewritten now a # vs\<rparr>)"
      have "file_credentials (f\<lparr>f_users := us @ flags_rewritten now a # vs\<rparr>)
          = c\<lparr>cr_accounts := us @ flags_rewritten now a # vs\<rparr>" "cr_accounts c = us @ a # vs"
        using c *(1) by (auto simp: file_credentials_def)
      then show ?thesis using *(5) clears_split [OF *(2-4), of now] by force
    qed (use c in simp)
  qed
qed

interpretation faulty_file_retires:
  retirement_storage "faulty_retirement (file_retirement m now)" "\<lambda>w. file_credentials (snd w)" m "\<lambda>w. sound_files (snd w)"
  for m now
  by (rule file_retires.faulty_contract)

lemma component_accepted: "retirement_component v \<Longrightarrow> retirementComponent v = Inr ()"
  by (simp add: retirement_component_def retirement_text_def retirementComponent_def)

lemma one_account_split:
  assumes "one_account u h P xs"
  obtains us a vs where "xs = us @ a # vs" "u_id a = u" "u_handle a = h" "P a"
    "\<forall>x \<in> set (us @ vs). u_id x \<noteq> u \<and> u_handle x \<noteq> h"
proof -
  from assms obtain a where a: "filter (\<lambda>x. u_id x = u \<or> u_handle x = h) xs = [a]" "u_id a = u" "u_handle a = h" "P a"
    by (auto simp: one_account_def split: list.splits)
  from a(1) obtain us vs where split: "xs = us @ a # vs" "\<forall>x \<in> set us. \<not> (u_id x = u \<or> u_handle x = h)"
      "filter (\<lambda>x. u_id x = u \<or> u_handle x = h) vs = []"
    by (auto simp: filter_eq_Cons_iff)
  then have "\<forall>x \<in> set (us @ vs). u_id x \<noteq> u \<and> u_handle x \<noteq> h"
    by (auto simp: filter_empty_conv)
  with that [OF split(1) a(2-4)] show thesis .
qed

lemma sound_files_sessions: "sound_files f \<Longrightarrow> file_readSessions f = (Inr (f_sessions f), f)"
  by (simp add: sound_files_def file_readSessions_ok)

lemma sound_files_factor: "sound_files f \<Longrightarrow> map_of (f_totp f) h = Some v \<Longrightarrow> isStoredFactor v h"
  by (auto simp: sound_files_def list_all_iff dest: map_of_SomeD)

lemma sound_files_codes: "sound_files f \<Longrightarrow> map_of (f_codes f) u = Some v \<Longrightarrow> isStoredBackupCodes v u"
  by (auto simp: sound_files_def list_all_iff dest: map_of_SomeD)

interpretation file_works: working_storage "file_retirement m now" file_credentials m sound_files for m now
proof (unfold_locales, unfold file_retirement_def retirement_ops.simps)
  fix c :: credentials and h u d e
  have no_error: "triple P m' (\<lambda>_ _. True) (\<lambda>_. False)" if "\<And>f. P f \<Longrightarrow> \<exists>r. fst (m' f) = Inr r"
    for P and m' :: "(files, 'b) op"
    using that by (auto simp: triple_def) (metis Inr_Inl_False fst_conv)
  show "triple (\<lambda>s. sound_files s \<and> file_credentials s = c) file_getAllUsers (\<lambda>_ _. True) (\<lambda>_. False)"
    by (rule no_error) (simp add: file_getAllUsers_def)
  show "triple (\<lambda>s. sound_files s \<and> file_credentials s = c) (file_getTOTPSecret h) (\<lambda>_ _. True) (\<lambda>_. False)"
    by (rule no_error) (auto simp: file_getTOTPSecret_def sound_files_factor split: option.split)
  show "triple (\<lambda>s. sound_files s \<and> file_credentials s = c) (file_getBackupCodes u) (\<lambda>_ _. True) (\<lambda>_. False)"
    by (rule no_error) (auto simp: file_getBackupCodes_def sound_files_codes split: option.split)
  show "triple (\<lambda>s. sound_files s \<and> file_credentials s = c) (file_getSessionsByUser u) (\<lambda>_ _. True) (\<lambda>_. False)"
    by (rule no_error)
      (auto simp: file_getSessionsByUser_def file_getAllSessions_def bind_op_def sound_files_sessions return_op_def)
  show "triple (\<lambda>s. sound_files s \<and> file_credentials s = c) (file_deleteUserSessions Io_done u) (\<lambda>_ _. True) (\<lambda>_. False)"
    by (rule no_error)
      (auto simp: file_deleteUserSessions_def file_mutateSessions_eq sound_files_def file_sessions_ok_def Let_def)
  show "triple (\<lambda>s. sound_files s \<and> file_credentials s = c)
      (file_deleteTOTPSecretExpected (totpRetirementFactorSnapshotDigest m) h d) (\<lambda>_ _. True) (\<lambda>_. False)"
    if "retirement_component h" "is_sha256_hex d" "factor_expected m d (cr_factor c h)"
    by (rule no_error) (use that in \<open>auto simp: file_deleteTOTPSecretExpected_def component_accepted Let_def
        deleteCredentialExpected_def file_credentials_def factor_expected_def option_ok_def sound_files_factor
        split: option.splits\<close>)
  show "triple (\<lambda>s. sound_files s \<and> file_credentials s = c)
      (file_deleteBackupCodesExpected (recovery_digest m) u e) (\<lambda>_ _. True) (\<lambda>_. False)"
    if "retirement_component u" "option_ok is_sha256_hex e" "codes_expected m e (cr_codes c u)"
    by (rule no_error) (use that in \<open>auto simp: file_deleteBackupCodesExpected_def component_accepted Let_def
        deleteCredentialExpected_def file_credentials_def codes_expected_def option_ok_def optional_def
        sound_files_codes recovery_digest_expected digest_never_none split: option.splits\<close>)
  show "triple (\<lambda>s. sound_files s \<and> file_credentials s = c) (file_clearTotpFlagsExpected now u h)
      (\<lambda>_ _. True) (\<lambda>_. False)"
    if "retirement_component u" "retirement_component h"
      "one_account u h (\<lambda>a. totp_flags_clearable a h) (cr_accounts c)"
  proof (rule no_error)
    fix f assume "sound_files f \<and> file_credentials f = c"
    then have "one_account u h (\<lambda>a. totp_flags_clearable a h) (f_users f)"
      using that(3) by (auto simp: file_credentials_def)
    from one_account_split [OF this] show "\<exists>r. fst (file_clearTotpFlagsExpected now u h f) = Inr r"
      by (metis clearTotpFlags_succeeds component_accepted fst_conv that(1,2))
  qed
qed

end
