(* ===== verification/Retirement_Guarantees.thy ===== *)
theory Retirement_Guarantees
  imports File_Retirement
begin

text \<open>
  What the retirement coordinator guarantees on the file adapter: its steps and their order under
  any failures of the storage, recovery after an interruption, and the authority it asks for.
\<close>

section \<open>Order\<close>

text \<open>The stored credentials of a storage under faults, in a state of the coordinator.\<close>

definition credentials_of :: "(fault list \<times> files) retirement_state \<Rightarrow> credentials" where
  "credentials_of w = file_credentials (snd (rw_store w))"

lemma apply_runs:
  fixes w :: "(fault list \<times> files) retirement_state"
  assumes "retirement_apply (faulty_retirement (file_retirement m t)) env io now v w = (r, w')"
  shows "retirement_run m v (credentials_of w) (credentials_of w')
    \<and> (rw_journal w' = rw_journal w
       \<or> retired v (credentials_of w') \<and> record_ok env (applied_record v now)
         \<and> rw_journal w' = journaled env (applied_record v now) (rw_journal w))"
proof -
  note follows = faulty_file_retires.apply_follows [of "credentials_of w" "rw_journal w" m t env io now v]
  have start: "faulty_file_retires.at (credentials_of w) (rw_journal w) w"
    by (simp add: faulty_file_retires.at_def credentials_of_def)
  show ?thesis
  proof (cases r)
    case (Inl e)
    then have "faulty_file_retires.stored m env v (credentials_of w) (rw_journal w) now w'"
      using triple_Inl [OF follows start] assms by simp
    then show ?thesis
      by (auto simp: faulty_file_retires.stored_def faulty_file_retires.within_def
          faulty_file_retires.recorded_def credentials_of_def)
  next
    case (Inr x)
    then have "faulty_file_retires.recorded m env v (credentials_of w) (rw_journal w) now w'"
      using triple_Inr [OF follows start] assms by simp
    then show ?thesis by (auto simp: faulty_file_retires.recorded_def credentials_of_def)
  qed
qed

lemma apply_run:
  "retirement_run m v (credentials_of w)
    (credentials_of (snd (retirement_apply (faulty_retirement (file_retirement m t)) env io now v w)))"
  using apply_runs [of m t env io now v w] by (simp add: prod_eq_iff)

text \<open>
  C17. Refinement: whatever calls of the storage fail, before or after their work, \<open>apply\<close> takes the
  stored credentials along steps of the protocol: the sessions of the account are deleted first, the
  factor only with them gone and only if it is the one committed, the recovery codes after the
  factor, the flags of the account last.
\<close>

theorem apply_refines_protocol:
  fixes w :: "(fault list \<times> files) retirement_state"
  shows "retirement_run m v (credentials_of w)
    (credentials_of (snd (retirement_apply (faulty_retirement (file_retirement m t)) env io now v w)))"
  by (rule apply_run)

text \<open>
  C38. However an application of a retirement ends, the account has no session left or still has its
  factor, its recovery codes and its account record; and no session, recovery codes, factor or
  account record of anybody else has changed.
\<close>

theorem apply_revokes_first:
  fixes w :: "(fault list \<times> files) retirement_state"
  shows "let c = credentials_of w;
             c' = credentials_of (snd (retirement_apply (faulty_retirement (file_retirement m t)) env io now v w))
         in (cr_sessions c' (cm_userId v) = []
             \<or> cr_factor c' = cr_factor c \<and> cr_codes c' = cr_codes c \<and> cr_accounts c' = cr_accounts c)
            \<and> elsewhere_same v c c'"
  unfolding Let_def by (intro conjI run_revokes_first [OF apply_run] run_elsewhere [OF apply_run])

section \<open>Recovery\<close>

lemma hex_seal: "(\<And>k x. is_sha256_hex (re_hmac env k x)) \<Longrightarrow> key_ready env \<Longrightarrow> is_sha256_hex (seal_of env r)"
  by (auto simp: seal_of_def mac_value_def key_ready_def split: sum.splits)

text \<open>
  C7. Let the journal hold committed records whose retirements are resumable, and let one of them
  be applied on a storage that fails anywhere. When the storage works again, \<open>recover\<close> returns, and
  then every committed record of the journal is recorded as applied and its retirement done: no
  sessions, no factor, no recovery codes, flags cleared.
\<close>

theorem recovery_completes:
  fixes f :: files
  assumes "sound_files f" "journal_ready env io clock j"
    "\<And>m u. committed_at j m u \<Longrightarrow> resumable env u (file_credentials f)"
    "committed_at j n v" "\<And>k x. is_sha256_hex (re_hmac env k x)"
    "retirement_apply (faulty_retirement (file_retirement (re_material env) t)) env io' now v
       \<lparr>rw_store = (script, f), rw_journal = j\<rparr> = (r, \<lparr>rw_store = (script', f'), rw_journal = j'\<rparr>)"
  shows "\<exists>w. retirement_recover (file_retirement (re_material env) t') env io clock
              \<lparr>rw_store = f', rw_journal = j'\<rparr> = (Inr (), w)
     \<and> (\<forall>m u. committed_at j m u \<longrightarrow> retired u (file_credentials (rw_store w))
            \<and> (\<exists>x s. map_of (rw_journal w) m = Some (Sealed (Applied (cm_authorizationDigest u) x) s)))"
proof -
  let ?w = "\<lparr>rw_store = f', rw_journal = j'\<rparr>"
  have runs: "retirement_run (re_material env) v (file_credentials f) (file_credentials f')"
    "j' = j \<or> retired v (file_credentials f') \<and> record_ok env (applied_record v now) \<and> j' = journaled env (applied_record v now) j"
    using apply_runs [OF assms(6)] by (simp_all add: credentials_of_def)
  have sound: "sound_files f'"
    using triple_keep [OF faulty_file_retires.apply_keeps_sound _ assms(6)] assms(1) by simp
  have key: "key_ready env" using assms(2) by (simp add: journal_ready_def)
  have resumable: "resumable env u (file_credentials f')" if "committed_at j n u" for n u
    using run_resumable [OF runs(1) assms(3) [OF that]] .
  have step: "journal_ready env io clock j' \<and>
      (\<forall>m u. committed_at j' m u \<longrightarrow> committed_at j m u) \<and>
      (\<forall>m u. committed_at j m u \<longrightarrow> committed_at j' m u \<or> retired u (file_credentials f')
         \<and> (\<exists>x s. map_of j' m = Some (Sealed (Applied (cm_authorizationDigest u) x) s)))"
    using runs(2)
  proof
    assume *: "retired v (file_credentials f') \<and> record_ok env (applied_record v now) \<and> j' = journaled env (applied_record v now) j"
    then have "record_ok env (applied_record v now)" by simp
    note new_record = journal_ready_record [OF assms(2,4) this hex_seal [OF assms(5) key]]
    show ?thesis using * assms(4) new_record by (auto simp: committed_at_def applied_record_def)
  qed (use assms(2) in simp)
  have still: "resumable env u (file_credentials f')" if "committed_at j' m u" for m u
    using resumable step that by blast
  have conds: "sound_files (rw_store ?w)" "journal_ready env io clock (rw_journal ?w)"
      "\<And>m u. committed_at (rw_journal ?w) m u \<Longrightarrow> resumable env u (file_credentials (rw_store ?w))"
    using sound step still by auto
  obtain w where run: "retirement_recover (file_retirement (re_material env) t') env io clock ?w = (Inr (), w)"
    and applied: "\<And>n u. committed_at j' n u \<Longrightarrow> retired u (file_credentials (rw_store w))
       \<and> map_of (rw_journal w) n = Some (Sealed (applied_record u (clock n)) (seal_of env (applied_record u (clock n))))"
    and others: "\<And>n. (\<forall>u. \<not> committed_at j' n u) \<Longrightarrow> map_of (rw_journal w) n = map_of j' n"
    and stays: "\<And>u. retired u (file_credentials f') \<Longrightarrow> retired u (file_credentials (rw_store w))"
    by (rule file_works.recover_works [OF refl conds(1,2), where now = t']) (erule conds(3), rule that, simp_all)
  have ends: "retired u (file_credentials (rw_store w))
      \<and> (\<exists>x s. map_of (rw_journal w) m = Some (Sealed (Applied (cm_authorizationDigest u) x) s))"
    if at: "committed_at j m u" for m u
  proof (cases "committed_at j' m u")
    case True
    then show ?thesis using applied [OF True] by (auto simp: applied_record_def)
  next
    case False
    then obtain x s where gone: "retired u (file_credentials f')"
        "map_of j' m = Some (Sealed (Applied (cm_authorizationDigest u) x) s)"
      using step at by blast
    then have "map_of (rw_journal w) m = map_of j' m" by (intro others) (simp add: committed_at_def)
    then show ?thesis using gone stays by auto
  qed
  then show ?thesis using run by blast
qed

text \<open>An application of the demonstration record that is cut off after the factor went.\<close>

definition retiring_env :: retirement_env where
  "retiring_env = \<lparr>re_key = Inr (hexes CHR ''k''), re_hmac = (\<lambda>_ _. hexes CHR ''0''),
     re_material = \<lparr>me_sha256 = (\<lambda>_. hexes CHR ''a''), me_stamp = (\<lambda>_. ''t'')\<rparr>\<rparr>"

definition retiring_committed :: committed where
  "retiring_committed = \<lparr>cm_operationId = hexes CHR ''b'', cm_userId = ''u1'', cm_handle = ''ada'',
     cm_factorGeneration = hexes CHR ''a'', cm_factorSnapshotDigest = hexes CHR ''a'',
     cm_recoverySetDigest = None, cm_authorizationDigest = hexes CHR ''0'',
     cm_factorBinding = hexes CHR ''c'', cm_committedAt = Iso 5\<rparr>"

definition retiring_journal :: journal where
  "retiring_journal = [(journal_name (hexes CHR ''b''), Sealed (Committed retiring_committed) (hexes CHR ''0''))]"

definition retiring_io :: retirement_io where
  "retiring_io = \<lparr>ri_prepare = True, ri_open = Inr (), ri_regular = (\<lambda>_. True), ri_readable = (\<lambda>_. True),
     ri_commit = Journal_done, ri_apply = (\<lambda>_. Journal_done)\<rparr>"

lemma retiring_hex: "is_lower_hex CHR ''0''" "is_lower_hex CHR ''a''" "is_lower_hex CHR ''b''" "is_lower_hex CHR ''c''"
  by code_simp+

lemma retiring_words: "retirement_component ''u1''" "retirement_component ''ada''" "retirement_text ''t''" "retirement_text ''a''"
  by code_simp+

lemma utf8_ascii_length: "length s \<le> length (utf8 s)"
  by (induction s) (auto simp: utf8_def utf8_char_def Let_def)

lemma retiring_key: "key_ready retiring_env"
  using utf8_ascii_length [of "hexes CHR ''k''"] by (simp add: key_ready_def retiring_env_def hexes_def)

lemma retiring_seal: "seal_of retiring_env r = hexes CHR ''0''"
  by (simp add: seal_of_def mac_value_def retiring_env_def)

lemma retiring_record: "record_ok retiring_env (Committed retiring_committed)"
  "record_ok retiring_env (applied_record retiring_committed 9)"
  by (simp_all add: retiring_committed_def applied_record_def applied_receipt_def receipt_ok_def retiring_hex retiring_words
      retirement_stamp_def retiring_env_def parse_less_def finite_date_def)

lemma retiring_journal_ready: "journal_ready retiring_env retiring_io (\<lambda>_. 9) retiring_journal" 
  by (simp add: journal_ready_def retiring_journal_def retiring_io_def retiring_key RETIREMENT_MAX_RECORDS_def retiring_seal retiring_record
    retiring_hex publishable_def isSafeInteger_def del: record_ok.simps) (simp add: retiring_committed_def)


definition retiring_factor :: encrypted_totp_secret where
  "retiring_factor = \<lparr>ts_userId = ''u1'', ts_handle = ''ada'', ts_encryptedSecret = ''e'', ts_iv = ''i'', ts_authTag = ''t'',
      ts_salt = ''s'', ts_createdAt = Iso 1, ts_lastUsedAt = None, ts_lastUsedTotpStep = None,
      ts_backupCodesGenerated = False, ts_version = 1\<rparr>"

definition retiring_user :: admin_user where
  "retiring_user = (example_user ''u1'' ''ada'' ''admin'')\<lparr>u_totpEnabled := True, u_totpSecretId := Some ''ada''\<rparr>"

definition retiring_session :: session where
  "retiring_session = example_session ''a'' ''u1'' 1 100"

definition retiring_files :: files where
  "retiring_files = empty_files\<lparr>f_users := [retiring_user], f_sessions := [retiring_session], f_totp := [(''ada'', retiring_factor)]\<rparr>"

lemma retiring_sound: "sound_files retiring_files"
  by code_simp

lemma retiring_material: "assertRetirementFactor (re_material retiring_env) retiring_factor"
  by code_simp

lemma retiring_digests:
  "totpRetirementFactorGeneration (re_material retiring_env) retiring_factor = Inr (hexes CHR ''a'')"
  "totpRetirementFactorSnapshotDigest (re_material retiring_env) retiring_factor = Inr (hexes CHR ''a'')"
  using retiring_material by (simp_all add: totpRetirementFactorGeneration_def totpRetirementFactorSnapshotDigest_def
    retirementMaterialDigest_def retiring_env_def)

lemma retiring_user_simps [simp]: "u_id retiring_user = ''u1''" "u_handle retiring_user = ''ada''"
  "u_totpEnabled retiring_user" "u_totpSecretId retiring_user = Some ''ada''"
  by (simp_all add: retiring_user_def example_user_def)

lemma retiring_factor_simps [simp]: "ts_userId retiring_factor = ''u1''" "ts_handle retiring_factor = ''ada''"
  by (simp_all add: retiring_factor_def)

lemma retiring_committed_simps [simp]: "cm_userId retiring_committed = ''u1''" "cm_handle retiring_committed = ''ada''"
  "cm_factorGeneration retiring_committed = hexes CHR ''a''" "cm_factorSnapshotDigest retiring_committed = hexes CHR ''a''"
  "cm_recoverySetDigest retiring_committed = None" "cm_operationId retiring_committed = hexes CHR ''b''"
  by (simp_all add: retiring_committed_def)

lemma retiring_files_simps [simp]: "f_users retiring_files = [retiring_user]" "f_sessions retiring_files = [retiring_session]"
  "f_totp retiring_files = [(''ada'', retiring_factor)]" "f_codes retiring_files = []"
  by (simp_all add: retiring_files_def empty_files_def)

lemma retiring_committed_at: "committed_at retiring_journal n v \<longleftrightarrow> n = journal_name (hexes CHR ''b'') \<and> v = retiring_committed"
  by (auto simp: committed_at_def retiring_journal_def)

lemma retiring_resumable: "resumable retiring_env retiring_committed (file_credentials retiring_files)"
  by (simp add: resumable_def file_credentials_def one_account_def totp_flags_clearable_def factor_matches_def
     codes_match_def option_ok_def retiring_digests)

definition cut_script :: "fault list" where
  "cut_script = [Works, Works, Works, Works, Works, Fails_after]"

lemma retiring_faulty_ops:
  "rto_getAllUsers (faulty_retirement (file_retirement m t)) = with_faults file_getAllUsers"
  "rto_getTOTPSecret (faulty_retirement (file_retirement m t)) h = with_faults (file_getTOTPSecret h)"
  "rto_getBackupCodes (faulty_retirement (file_retirement m t)) u = with_faults (file_getBackupCodes u)"
  "rto_getSessionsByUser (faulty_retirement (file_retirement m t)) u = with_faults (file_getSessionsByUser u)"
  "rto_deleteUserSessions (faulty_retirement (file_retirement m t)) u = with_faults (file_deleteUserSessions Io_done u)"
  "rto_deleteTOTPSecretExpected (faulty_retirement (file_retirement m t)) h d =
     with_faults (file_deleteTOTPSecretExpected (totpRetirementFactorSnapshotDigest m) h d)"
  by (simp_all add: faulty_retirement_def file_retirement_def)

lemma retiring_stored: "isStoredFactor retiring_factor ''ada''" "assertStoredSessions [retiring_session] = Inr ()"
  "assertStoredSessions [] = Inr ()" "s_userId retiring_session = ''u1''"
  by code_simp+

lemma retiring_cut:
  "retirement_apply (faulty_retirement (file_retirement (re_material retiring_env) 3)) retiring_env retiring_io 9 retiring_committed
     \<lparr>rw_store = (cut_script, retiring_files), rw_journal = retiring_journal\<rparr>
   = (Inl (TotpRetirementError RECOVERY_REQUIRED),
      \<lparr>rw_store = ([], retiring_files\<lparr>f_sessions := [], f_totp := []\<rparr>), rw_journal = retiring_journal\<rparr>)"
  by (simp add: retirement_apply_def apply_checks_def apply_changes_def retiring_faulty_ops cut_script_def with_faults_def
      in_store_def owner_def bind_op_def catch_op_def Let_def file_getAllUsers_def require_def return_op_def
      totp_flags_clearable_def file_getTOTPSecret_def file_getBackupCodes_def file_getSessionsByUser_def
      file_deleteUserSessions_def file_mutateSessions_def file_readSessions_def file_getAllSessions_def
      file_deleteTOTPSecretExpected_def deleteCredentialExpected_def retiring_stored factor_matches_def option_ok_def
      retiring_digests component_accepted retiring_words retiring_hex fail_with_def)


theorem recovery_completes_witness:
  "\<exists>w. retirement_recover (file_retirement (re_material retiring_env) 12) retiring_env retiring_io (\<lambda>_. 9)
          \<lparr>rw_store = retiring_files\<lparr>f_sessions := [], f_totp := []\<rparr>, rw_journal = retiring_journal\<rparr> = (Inr (), w)
     \<and> retired retiring_committed (file_credentials (rw_store w))"
proof -
  note cut = recovery_completes [OF retiring_sound retiring_journal_ready _ _ _ retiring_cut, where t' = 12 and n = "journal_name (hexes CHR ''b'')"]
  have "is_sha256_hex (re_hmac retiring_env k x)" for k x by (simp add: retiring_env_def retiring_hex)
  then show ?thesis using cut by (auto simp: retiring_committed_at retiring_resumable)
qed

section \<open>Authority\<close>








definition only_faults :: "(fault list \<times> files) retirement_state \<Rightarrow> (fault list \<times> files) retirement_state \<Rightarrow> bool" where
  "only_faults w w' \<longleftrightarrow> snd (rw_store w') = snd (rw_store w) \<and> rw_journal w' = rw_journal w"

lemma only_faults_trans: "only_faults w w1 \<Longrightarrow> only_faults w1 w2 \<Longrightarrow> only_faults w w2"
  by (simp add: only_faults_def)







































































end
