(* ===== verification/Json_Parse.thy ===== *)
theory Json_Parse
  imports Canonical_Json
begin

text \<open>
  \<open>JSON.parse\<close>, on texts whose numbers are integers and whose characters are below U+0100: a
  number with a fraction or an exponent and an escape above \<open>\u00ff\<close> are refused here, and no
  text the program writes has one. A key that occurs twice keeps its first place and its last
  value. What \<open>JSON.stringify\<close> writes is read back as it was.
\<close>

section \<open>Tokens\<close>

definition is_json_space :: "char \<Rightarrow> bool" where
  "is_json_space c = (let n = of_char c :: nat in n = 32 \<or> n = 9 \<or> n = 10 \<or> n = 13)"

definition skip_space :: "string \<Rightarrow> string" where
  "skip_space = dropWhile is_json_space"

definition hex_digit_value :: "char \<Rightarrow> nat option" where
  "hex_digit_value c =
     (let n = of_char c :: nat in
      if 48 \<le> n \<and> n \<le> 57 then Some (n - 48)
      else if 97 \<le> n \<and> n \<le> 102 then Some (n - 87)
      else if 65 \<le> n \<and> n \<le> 70 then Some (n - 55)
      else None)"

text \<open>The four digits after \<open>\u\<close> and the letter after any other backslash.\<close>

definition read_unicode :: "string \<Rightarrow> (char \<times> string) option" where
  "read_unicode s =
     (case s of
        a # b # c # d # r \<Rightarrow>
          if hex_digit_value a \<noteq> Some 0 \<or> hex_digit_value b \<noteq> Some 0 then None
          else Option.bind (hex_digit_value c) (\<lambda>x. map_option (\<lambda>y. (char_of (16 * x + y), r)) (hex_digit_value d))
      | _ \<Rightarrow> None)"

definition read_escape :: "string \<Rightarrow> (char \<times> string) option" where
  "read_escape s =
     (case s of
        [] \<Rightarrow> None
      | x # r \<Rightarrow>
          if x = CHR ''u'' then read_unicode r
          else if x \<in> set [CHR 0x22, CHR 0x5C, CHR ''/'', CHR ''b'', CHR ''f'', CHR ''n'', CHR ''r'', CHR ''t'']
          then Some (unletter x, r)
          else None)"

definition read_char :: "string \<Rightarrow> (char \<times> string) option" where
  "read_char s =
     (case s of
        [] \<Rightarrow> None
      | c # r \<Rightarrow>
          if c = CHR 0x5C then read_escape r
          else if (of_char c :: nat) < 32 then None
          else Some (c, r))"

lemma length_skip_space: "length (skip_space s) \<le> length s"
  by (simp add: skip_space_def length_dropWhile_le)

lemma read_char_shorter: "read_char s = Some (c, r) \<Longrightarrow> length r < length s"
  by (auto simp: read_char_def read_escape_def read_unicode_def split: list.splits if_splits option.splits bind_splits)

text \<open>A string from after its opening quote.\<close>

function read_body :: "string \<Rightarrow> (string \<times> string) option" where
  "read_body s =
     (case s of
        [] \<Rightarrow> None
      | x # xs \<Rightarrow>
          if x = CHR 0x22 then Some ([], xs)
          else case read_char s of
                 None \<Rightarrow> None
               | Some (c, r) \<Rightarrow> map_option (\<lambda>(t, r'). (c # t, r')) (read_body r))"
  by pat_completeness auto
termination
  by (relation "measure length") (auto dest!: read_char_shorter)

declare read_body.simps [simp del]

lemma read_body_shorter: "read_body s = Some (t, r) \<Longrightarrow> length r < length s"
proof (induction s arbitrary: t r rule: read_body.induct)
  case (1 s)
  show ?case
  proof (cases s)
    case (Cons x xs)
    show ?thesis
    proof (cases "x = CHR 0x22")
      case False
      then obtain c r' t' where c: "read_char s = Some (c, r')" "read_body r' = Some (t', r)"
        using 1(2) unfolding Cons by (auto simp: read_body.simps [of "x # xs"] split: option.splits)
      have "length r < length r'" by (rule 1(1) [OF Cons False _ refl c(2)]) (use c(1) Cons in simp)
      then show ?thesis using read_char_shorter [OF c(1)] by simp
    qed (use 1(2) Cons in \<open>simp add: read_body.simps [of "CHR 0x22 # xs"]\<close>)
  qed (use 1(2) in \<open>simp add: read_body.simps [of "[]"]\<close>)
qed

text \<open>A number: an optional sign and digits without a leading zero, not followed by a fraction.\<close>

definition digit_number :: "char \<Rightarrow> nat" where
  "digit_number c = (of_char c :: nat) - 48"

definition read_nat :: "string \<Rightarrow> nat" where
  "read_nat ds = foldl (\<lambda>n c. 10 * n + digit_number c) 0 ds"

definition read_digits :: "string \<Rightarrow> (nat \<times> string) option" where
  "read_digits s =
     (let ds = takeWhile is_digit s; r = dropWhile is_digit s in
      if ds = [] \<or> (hd ds = CHR ''0'' \<and> tl ds \<noteq> []) \<or> (r \<noteq> [] \<and> hd r \<in> set ''.eE'') then None
      else Some (read_nat ds, r))"

definition read_number :: "string \<Rightarrow> (int \<times> string) option" where
  "read_number s =
     (case s of
        [] \<Rightarrow> None
      | c # r \<Rightarrow>
          if c = CHR ''-'' then map_option (\<lambda>(n, r'). (- int n, r')) (read_digits r)
          else map_option (\<lambda>(n, r'). (int n, r')) (read_digits s))"

definition read_word :: "string \<Rightarrow> string \<Rightarrow> string option" where
  "read_word w s = (if prefix w s then Some (drop (length w) s) else None)"

text \<open>The values that hold no other value.\<close>

definition read_plain :: "string \<Rightarrow> (json \<times> string) option" where
  "read_plain s =
     (case s of
        [] \<Rightarrow> None
      | c # r \<Rightarrow>
          if c = CHR 0x22 then map_option (\<lambda>(t, r'). (JStr t, r')) (read_body r)
          else if c = CHR ''n'' then map_option (\<lambda>r'. (JNull, r')) (read_word ''null'' s)
          else if c = CHR ''t'' then map_option (\<lambda>r'. (JBool True, r')) (read_word ''true'' s)
          else if c = CHR ''f'' then map_option (\<lambda>r'. (JBool False, r')) (read_word ''false'' s)
          else map_option (\<lambda>(n, r'). (JNum n, r')) (read_number s))"

text \<open>A key and its colon.\<close>

definition read_key :: "string \<Rightarrow> (string \<times> string) option" where
  "read_key s =
     (case skip_space s of
        [] \<Rightarrow> None
      | c # r \<Rightarrow>
          if c \<noteq> CHR 0x22 then None
          else case read_body r of
                 None \<Rightarrow> None
               | Some (k, r') \<Rightarrow>
                   (case skip_space r' of
                      [] \<Rightarrow> None
                    | x # r'' \<Rightarrow> if x = CHR '':'' then Some (k, r'') else None))"

section \<open>Values\<close>

definition object_of :: "(string \<times> json) list \<Rightarrow> json" where
  "object_of kvs = JObj (foldl (\<lambda>m (k, v). map_set k v m) [] kvs)"

text \<open>
  An array is read from after its bracket when it is not empty, and so are the members of an
  object. Every text left over is shorter than the text read: the tests of the length say so.
\<close>

function (sequential)
  read_value :: "string \<Rightarrow> (json \<times> string) option" and
  read_elements :: "string \<Rightarrow> (json list \<times> string) option" and
  read_members :: "string \<Rightarrow> ((string \<times> json) list \<times> string) option"
where
  "read_value s =
     (let s' = skip_space s in
      case s' of
        [] \<Rightarrow> None
      | c # r \<Rightarrow>
          if c = CHR ''['' then
            (if startsWith (skip_space r) '']'' then Some (JArr [], tl (skip_space r))
             else map_option (\<lambda>(xs, r'). (JArr xs, r')) (read_elements r))
          else if c = CHR ''{'' then
            (if startsWith (skip_space r) ''}'' then Some (JObj [], tl (skip_space r))
             else map_option (\<lambda>(kvs, r'). (object_of kvs, r')) (read_members r))
          else read_plain s')"
| "read_elements s =
     (case read_value s of
        None \<Rightarrow> None
      | Some (v, r) \<Rightarrow>
          (case skip_space r of
             [] \<Rightarrow> None
           | c # r' \<Rightarrow>
               if c = CHR '']'' then Some ([v], r')
               else if c = CHR '','' \<and> length r' < length s
               then map_option (\<lambda>(xs, r''). (v # xs, r'')) (read_elements r')
               else None))"
| "read_members s =
     (case read_key s of
        None \<Rightarrow> None
      | Some (k, r) \<Rightarrow>
          if \<not> length r < length s then None
          else case read_value r of
                 None \<Rightarrow> None
               | Some (v, r') \<Rightarrow>
                   (case skip_space r' of
                      [] \<Rightarrow> None
                    | c # r'' \<Rightarrow>
                        if c = CHR ''}'' then Some ([(k, v)], r'')
                        else if c = CHR '','' \<and> length r'' < length s
                        then map_option (\<lambda>(kvs, r3). ((k, v) # kvs, r3)) (read_members r'')
                        else None))"
  by pat_completeness auto
termination
proof (relation "measure (\<lambda>x. case x of Inl s \<Rightarrow> 2 * length s | Inr (Inl s) \<Rightarrow> 2 * length s + 1
    | Inr (Inr s) \<Rightarrow> 2 * length s + 1)", goal_cases)
  case (2 s s' c r)
  then have "length (skip_space s) = Suc (length r)" by (metis length_Cons)
  then show ?case using length_skip_space [of s] by simp
next
  case (3 s s' c r)
  then have "length (skip_space s) = Suc (length r)" by (metis length_Cons)
  then show ?case using length_skip_space [of s] by simp
qed auto

declare read_value.simps [simp del] read_elements.simps [simp del] read_members.simps [simp del]

definition json_parse :: "string \<Rightarrow> json option" where
  "json_parse s =
     (case read_value s of
        None \<Rightarrow> None
      | Some (v, r) \<Rightarrow> if skip_space r = [] then Some v else None)"

section \<open>Reading back what is written\<close>

lemma hex_digit_value_digit: "n < 16 \<Longrightarrow> hex_digit_value (hex_digit n) = Some n"
proof -
  have "list_all (\<lambda>n. hex_digit_value (hex_digit n) = Some n) [0..<16]" by code_simp
  moreover assume "n < 16"
  ultimately show ?thesis by (simp only: list_all_iff set_upt) simp
qed

lemma read_unicode_hex:
  assumes "n < 32"
  shows "read_unicode ([CHR ''0'', CHR ''0'', hex_digit (n div 16), hex_digit (n mod 16)] @ xs) = Some (char_of n, xs)"
proof -
  have zero: "hex_digit_value (CHR ''0'') = Some 0" by code_simp
  have "n div 16 < 16" using assms by simp
  then show ?thesis by (simp add: read_unicode_def zero hex_digit_value_digit)
qed

lemma read_char_json: "read_char (json_char c @ xs) = Some (c, xs)"
proof -
  define n where "n = (of_char c :: nat)"
  have c: "c = char_of n" by (simp add: n_def)
  have bs: "char_of (34 :: nat) = CHR 0x22" "char_of (92 :: nat) = CHR 0x5C" by code_simp+
  consider "n \<in> {34, 92, 8, 9, 10, 12, 13}" | "n \<notin> {34, 92, 8, 9, 10, 12, 13}" "n < 32"
    | "n \<notin> {34, 92, 8, 9, 10, 12, 13}" "32 \<le> n"
    by linarith
  then show ?thesis
  proof cases
    case 1
    with bs show ?thesis
      unfolding c by (auto simp: json_char_def read_char_def read_escape_def unletter_def)
  next
    case 2
    then have "json_char c = [CHR 0x5C, CHR ''u''] @ [CHR ''0'', CHR ''0'', hex_digit (n div 16), hex_digit (n mod 16)]"
      by (simp add: json_char_def Let_def flip: n_def)
    then show ?thesis
      using read_unicode_hex [OF 2(2), of xs] by (simp add: read_char_def read_escape_def c)
  next
    case 3
    then have "json_char c = [c]" by (simp add: json_char_def Let_def flip: n_def)
    moreover have "c \<noteq> CHR 0x5C" using 3(1) by (auto simp: n_def)
    ultimately show ?thesis using 3(2) by (simp add: read_char_def flip: n_def)
  qed
qed

lemma read_body_json: "read_body (json_body s @ CHR 0x22 # xs) = Some (s, xs)"
proof (induction s)
  case (Cons c s)
  obtain a r where a: "json_char c = a # r" "a \<noteq> CHR 0x22" using json_char_Cons by blast
  have "json_body (c # s) @ CHR 0x22 # xs = json_char c @ (json_body s @ CHR 0x22 # xs)"
    by (simp add: json_body_def)
  then show ?case
    using a Cons read_char_json [of c "json_body s @ CHR 0x22 # xs"]
    by (simp add: read_body.simps [of "a # r @ json_body s @ CHR 0x22 # xs"])
qed (simp add: json_body_def read_body.simps [of "CHR 0x22 # xs"])

lemma read_nat_snoc: "read_nat (ds @ [c]) = 10 * read_nat ds + digit_number c"
  by (simp add: read_nat_def)

lemma show_digit: "n < 10 \<Longrightarrow> is_digit (char_of (48 + n)) \<and> digit_number (char_of (48 + n)) = n"
  by (simp add: is_digit_def digit_number_def)

lemma show_nat_digits: "list_all is_digit (show_nat n) \<and> read_nat (show_nat n) = n \<and> show_nat n \<noteq> []"
proof (induction n rule: show_nat.induct)
  case (1 n)
  show ?case
  proof (cases "n < 10")
    case True
    then show ?thesis using show_digit [OF True] by (simp add: show_nat.simps [of n] read_nat_def)
  next
    case False
    then show ?thesis
      using 1 [OF False] show_digit [of "n mod 10"] by (simp add: show_nat.simps [of n] read_nat_snoc)
  qed
qed

lemma show_nat_lead: "n > 0 \<Longrightarrow> hd (show_nat n) \<noteq> CHR ''0''"
proof (induction n rule: show_nat.induct)
  case (1 n)
  have zero: "char_of (48 + n) \<noteq> CHR ''0''" if "0 < n" "n < 10" for n :: nat
  proof -
    have "(of_char (char_of (48 + n)) :: nat) \<noteq> of_char (CHR ''0'')" using that by simp
    then show ?thesis by metis
  qed
  show ?case
  proof (cases "n < 10")
    case True
    then show ?thesis using 1(2) zero by (simp add: show_nat.simps [of n])
  next
    case False
    then show ?thesis
      using 1(1) [OF False] show_nat_digits [of "n div 10"]
      by (simp add: show_nat.simps [of n] hd_append)
  qed
qed

text \<open>What may follow a value.\<close>

definition ends :: "string \<Rightarrow> bool" where
  "ends s \<longleftrightarrow> s = [] \<or> hd s \<in> {CHR '','', CHR '']'', CHR ''}''}"

lemma ends_simps [simp]: "ends []" "ends (CHR '','' # s)" "ends (CHR '']'' # s)" "ends (CHR ''}'' # s)"
  by (simp_all add: ends_def)

lemma read_digits_show:
  assumes "ends xs"
  shows "read_digits (show_nat n @ xs) = Some (n, xs)"
proof -
  have follows: "xs = [] \<or> \<not> is_digit (hd xs) \<and> hd xs \<notin> set ''.eE''"
    using assms by (auto simp: ends_def is_digit_def)
  have digits: "\<forall>c \<in> set (show_nat n). is_digit c" using show_nat_digits [of n] by (simp add: list_all_iff)
  have split: "takeWhile is_digit (show_nat n @ xs) = show_nat n" "dropWhile is_digit (show_nat n @ xs) = xs"
    using follows digits by (cases xs; simp add: takeWhile_append2 dropWhile_append2)+
  have lead: "\<not> (hd (show_nat n) = CHR ''0'' \<and> tl (show_nat n) \<noteq> [])"
    using show_nat_lead [of n] by (cases "n = 0") (simp_all add: show_nat.simps [of 0])
  show ?thesis
    using show_nat_digits [of n] lead follows by (auto simp: read_digits_def Let_def split)
qed

lemma show_nat_head: "\<exists>c r. show_nat n = c # r \<and> is_digit c"
  using show_nat_digits [of n] by (cases "show_nat n") auto

lemma read_number_show:
  assumes "ends xs"
  shows "read_number (show_int n @ xs) = Some (n, xs)"
proof (cases "n < 0")
  case True
  then show ?thesis using read_digits_show [OF assms] by (simp add: read_number_def show_int_def)
next
  case False
  obtain c r where c: "show_nat (nat n) = c # r" "is_digit c" using show_nat_head by blast
  then have "c \<noteq> CHR ''-''" by (auto simp: is_digit_def)
  then show ?thesis
    using False c(1) read_digits_show [OF assms, of "nat n"] by (simp add: read_number_def show_int_def)
qed

text \<open>The values whose objects have every key once.\<close>

fun plain_json :: "json \<Rightarrow> bool" where
  "plain_json (JArr xs) \<longleftrightarrow> list_all plain_json xs"
| "plain_json (JObj kvs) \<longleftrightarrow> distinct (map fst kvs) \<and> list_all (\<lambda>kv. plain_json (snd kv)) kvs"
| "plain_json _ \<longleftrightarrow> True"

lemma object_of_distinct: "distinct (map fst kvs) \<Longrightarrow> object_of kvs = JObj kvs"
proof -
  have "distinct (map fst (m @ kvs)) \<Longrightarrow> foldl (\<lambda>m (k, v). map_set k v m) m kvs = m @ kvs" for m
  proof (induction kvs arbitrary: m)
    case (Cons kv kvs)
    obtain k v where kv: "kv = (k, v)" by (cases kv)
    have "k \<notin> set (map fst m)" using Cons.prems by (simp add: kv)
    then have "map_set k v m = m @ [kv]"
      by (induction m) (auto simp: kv)
    then show ?case using Cons.IH [of "m @ [kv]"] Cons.prems by (simp add: kv)
  qed simp
  from this [of "[]"] show "distinct (map fst kvs) \<Longrightarrow> object_of kvs = JObj kvs" by (simp add: object_of_def)
qed

lemma skip_space_id: "s = c # r \<Longrightarrow> \<not> is_json_space c \<Longrightarrow> skip_space s = s"
  by (simp add: skip_space_def)

lemma skip_simps [simp]:
  "skip_space [] = []" "skip_space (CHR '','' # s) = CHR '','' # s" "skip_space (CHR '']'' # s) = CHR '']'' # s"
  "skip_space (CHR ''}'' # s) = CHR ''}'' # s" "skip_space (CHR '':'' # s) = CHR '':'' # s"
  "skip_space (CHR 0x22 # s) = CHR 0x22 # s" "skip_space (CHR ''['' # s) = CHR ''['' # s"
  "skip_space (CHR ''{'' # s) = CHR ''{'' # s"
  by (simp_all add: skip_space_def is_json_space_def)

text \<open>A written value starts with a character that is no space and closes nothing.\<close>

definition opens :: "string \<Rightarrow> bool" where
  "opens s \<longleftrightarrow> s \<noteq> [] \<and> \<not> is_json_space (hd s) \<and> hd s \<notin> {CHR '']'', CHR ''}''}"

lemma digit_opens: "is_digit c \<Longrightarrow> \<not> is_json_space c \<and> c \<notin> {CHR '']'', CHR ''}''}"
  by (auto simp: is_digit_def is_json_space_def Let_def)

lemma opens_stringify: "opens (stringify j @ xs)"
proof (cases j)
  case (JNum n)
  obtain c r where "show_nat (nat n) = c # r" "is_digit c" using show_nat_head by blast
  then show ?thesis
    using JNum digit_opens by (auto simp: opens_def show_int_def is_json_space_def)
qed (auto simp: opens_def json_bool_def json_string_def json_braces_def is_json_space_def)

lemma opens_facts: "opens s \<Longrightarrow> skip_space s = s \<and> \<not> startsWith s '']'' \<and> \<not> startsWith s ''}''"
  by (cases s) (auto simp: opens_def skip_space_def startsWith_def)

lemma read_key_json: "read_key (json_string k @ CHR '':'' # xs) = Some (k, xs)"
  using read_body_json [of k "CHR '':'' # xs"] by (simp add: read_key_def json_string_Cons)

lemma read_plain_value:
  "s = c # r \<Longrightarrow> \<not> is_json_space c \<Longrightarrow> c \<noteq> CHR ''['' \<Longrightarrow> c \<noteq> CHR ''{'' \<Longrightarrow> read_value s = read_plain s"
  by (simp add: read_value.simps [of "c # r"] skip_space_def)

lemma read_number_value:
  assumes "ends xs"
  shows "read_value (show_int n @ xs) = Some (JNum n, xs)"
proof -
  obtain c r where s: "show_int n @ xs = c # r" and c: "c = CHR ''-'' \<or> is_digit c"
    using show_nat_head [of "nat n"] by (cases "n < 0") (auto simp: show_int_def)
  then have "\<not> is_json_space c" "c \<notin> set [CHR ''['', CHR ''{'', CHR 0x22, CHR ''n'', CHR ''t'', CHR ''f'']"
    by (auto simp: is_digit_def is_json_space_def Let_def)
  then show ?thesis
    using s read_number_show [OF assms, of n] by (simp add: read_plain_value read_plain_def)
qed

lemma read_elements_json:
  assumes "xs \<noteq> []" "\<And>x rest. x \<in> set xs \<Longrightarrow> ends rest \<Longrightarrow> read_value (stringify x @ rest) = Some (x, rest)"
  shows "read_elements (json_join (map stringify xs) @ CHR '']'' # rest) = Some (xs, rest)"
  using assms
proof (induction xs rule: list_nonempty_induct)
  case (single x)
  then show ?case by (simp add: read_elements.simps [of "stringify x @ _"])
next
  case (cons x xs)
  obtain y ys where "xs = y # ys" using cons.hyps by (cases xs) auto
  then have join: "json_join (map stringify (x # xs)) = stringify x @ CHR '','' # json_join (map stringify xs)"
    by simp
  have rest: "read_elements (json_join (map stringify xs) @ CHR '']'' # rest) = Some (xs, rest)"
    by (rule cons.IH) (use cons.prems in simp)
  show ?case
    unfolding join using rest cons.prems [of x]
    by (simp add: read_elements.simps [of "stringify x @ _"])
qed

abbreviation member_text :: "string \<times> json \<Rightarrow> string" where
  "member_text \<equiv> \<lambda>(k, v). json_string k @ '':'' @ stringify v"

lemma read_members_json:
  assumes "kvs \<noteq> []" "\<And>k v rest. (k, v) \<in> set kvs \<Longrightarrow> ends rest \<Longrightarrow> read_value (stringify v @ rest) = Some (v, rest)"
  shows "read_members (json_join (map member_text kvs) @ CHR ''}'' # rest) = Some (kvs, rest)"
  using assms
proof (induction kvs rule: list_nonempty_induct)
  case (single kv)
  then show ?case
    by (cases kv) (simp add: read_members.simps [of "json_string _ @ _"] read_key_json)
next
  case (cons kv kvs)
  obtain k v where kv: "kv = (k, v)" by (cases kv)
  obtain y ys where "kvs = y # ys" using cons.hyps by (cases kvs) auto
  then have join: "json_join (map member_text (kv # kvs))
      = json_string k @ CHR '':'' # stringify v @ CHR '','' # json_join (map member_text kvs)"
    by (simp add: kv)
  have rest: "read_members (json_join (map member_text kvs) @ CHR ''}'' # rest) = Some (kvs, rest)"
    by (rule cons.IH) (use cons.prems in auto)
  show ?case
    unfolding join using rest cons.prems [of k v]
    by (simp add: kv read_members.simps [of "json_string k @ _"] read_key_json)
qed

lemma read_value_json: "plain_json j \<Longrightarrow> ends rest \<Longrightarrow> read_value (stringify j @ rest) = Some (j, rest)"
proof (induction j arbitrary: rest)
  case (JNum n)
  then show ?case by (simp add: read_number_value)
next
  case (JStr s)
  then show ?case
    using read_body_json [of s rest]
    by (simp add: json_string_Cons read_value.simps [of "CHR 0x22 # _"] read_plain_def)
next
  case (JArr xs)
  show ?case
  proof (cases "xs = []")
    case True
    then show ?thesis by (simp add: read_value.simps [of "CHR ''['' # _"] startsWith_def)
  next
    case False
    obtain y ys where xs: "xs = y # ys" using False by (cases xs) auto
    let ?r = "json_join (map stringify xs) @ CHR '']'' # rest"
    have "opens ?r" using opens_stringify [of y] by (cases ys) (simp_all add: xs)
    moreover have "read_elements ?r = Some (xs, rest)"
      using JArr False by (intro read_elements_json) (auto simp: list_all_iff)
    ultimately show ?thesis
      by (simp add: read_value.simps [of "CHR ''['' # _"] opens_facts)
  qed
next
  case (JObj kvs)
  show ?case
  proof (cases "kvs = []")
    case True
    then show ?thesis by (simp add: json_braces_def read_value.simps [of "CHR ''{'' # _"] startsWith_def)
  next
    case False
    obtain k v ys where kvs: "kvs = (k, v) # ys" using False by (cases kvs) auto
    let ?r = "json_join (map member_text kvs) @ CHR ''}'' # rest"
    have "opens ?r" by (cases ys) (simp_all add: kvs opens_def json_string_Cons is_json_space_def)
    moreover have "read_members ?r = Some (kvs, rest)"
      using JObj False by (intro read_members_json) (auto simp: list_all_iff)
    moreover have "object_of kvs = JObj kvs" using JObj.prems by (simp add: object_of_distinct)
    ultimately show ?thesis
      by (simp add: json_braces_def read_value.simps [of "CHR ''{'' # _"] opens_facts)
  qed
qed (auto simp: json_bool_def read_value.simps [of "_ # _"] skip_space_def is_json_space_def read_plain_def
      read_word_def)

lemma json_parse_stringify: "plain_json j \<Longrightarrow> json_parse (stringify j) = Some j"
  using read_value_json [of j "[]"] by (simp add: json_parse_def)

text \<open>The tests of the length never refuse: what is left over is always shorter.\<close>

lemma read_digits_shorter: "read_digits s = Some (n, r) \<Longrightarrow> length r < length s"
proof -
  assume read: "read_digits s = Some (n, r)"
  then have "takeWhile is_digit s \<noteq> []" "r = dropWhile is_digit s"
    by (auto simp: read_digits_def Let_def split: if_splits)
  moreover have "length (takeWhile is_digit s @ dropWhile is_digit s) = length s" by simp
  ultimately show "length r < length s" by (cases "takeWhile is_digit s") auto
qed

lemma read_word_shorter: "read_word w s = Some r \<Longrightarrow> w \<noteq> [] \<Longrightarrow> length r < length s"
  by (auto simp: read_word_def prefix_def split: if_splits)

lemma read_plain_shorter: "read_plain s = Some (v, r) \<Longrightarrow> length r < length s"
  by (auto simp: read_plain_def read_number_def split: list.splits if_splits
      dest!: read_body_shorter read_digits_shorter read_word_shorter)

lemma read_key_shorter: "read_key s = Some (k, r) \<Longrightarrow> length r < length s"
proof -
  assume "read_key s = Some (k, r)"
  then obtain r1 r2 where "skip_space s = CHR 0x22 # r1" "read_body r1 = Some (k, r2)" "skip_space r2 = CHR '':'' # r"
    by (auto simp: read_key_def split: list.splits if_splits option.splits)
  then have "Suc (length r1) \<le> length s" "length r2 < length r1" "Suc (length r) \<le> length r2"
    using length_skip_space [of s] length_skip_space [of r2] by (auto dest: read_body_shorter)
  then show "length r < length s" by simp
qed

lemma read_shorter:
  "read_value s = Some (v, r) \<Longrightarrow> length r < length s"
  "read_elements s = Some (vs, r) \<Longrightarrow> length r < length s"
  "read_members s = Some (kvs, r) \<Longrightarrow> length r < length s"
proof (induction s and s and s arbitrary: v r and vs r and kvs r
    rule: read_value_read_elements_read_members.induct)
  case (1 s)
  show ?case
  proof (cases "skip_space s")
    case Nil
    then show ?thesis using 1(3) by (simp add: read_value.simps [of s])
  next
    case (Cons c t)
    have t: "Suc (length t) \<le> length s" using length_skip_space [of s] Cons by simp
    have tail: "length (tl (skip_space t)) \<le> length t" using length_skip_space [of t] by (cases "skip_space t") auto
    consider "c = CHR ''['' \<or> c = CHR ''{''" "r = tl (skip_space t)"
      | xs where "c = CHR ''[''" "\<not> startsWith (skip_space t) '']''" "read_elements t = Some (xs, r)"
      | kvs where "c = CHR ''{''" "\<not> startsWith (skip_space t) ''}''" "read_members t = Some (kvs, r)"
      | "read_plain (skip_space s) = Some (v, r)"
      using 1(3) Cons by (auto simp: read_value.simps [of s] Let_def split: if_splits)
    then show ?thesis
    proof cases
      case 2
      then show ?thesis using 1(1) [OF refl Cons] t by auto
    next
      case 3
      then show ?thesis using 1(2) [OF refl Cons] t by auto
    next
      case 4
      then show ?thesis using length_skip_space [of s] by (auto dest!: read_plain_shorter)
    qed (use t tail in simp)
  qed
next
  case (2 s)
  from 2(3) obtain x t c t' where x: "read_value s = Some (x, t)" and c: "skip_space t = c # t'"
    and rest: "r = t' \<or> c \<noteq> CHR '']'' \<and> c = CHR '','' \<and> length t' < length s \<and> (\<exists>xs. read_elements t' = Some (xs, r))"
    by (auto simp: read_elements.simps [of s] split: option.splits list.splits if_splits)
  have "length t < length s" by (rule 2(1) [OF x])
  then have "length t' < length s" using length_skip_space [of t] c by simp
  then show ?case using rest 2(2) [OF x refl c] by auto
next
  case (3 s)
  from 3(3) obtain k t x t' c t2 where k: "read_key s = Some (k, t)" "length t < length s"
    and x: "read_value t = Some (x, t')" and c: "skip_space t' = c # t2"
    and rest: "r = t2 \<or> c \<noteq> CHR ''}'' \<and> c = CHR '','' \<and> length t2 < length s \<and> (\<exists>xs. read_members t2 = Some (xs, r))"
    by (auto simp: read_members.simps [of s] split: option.splits list.splits if_splits)
  have "length t' < length t" by (rule 3(1) [OF k(1) refl _ x]) (use k in simp)
  then have "length t2 < length s" using length_skip_space [of t'] c k(2) by simp
  then show ?case using rest 3(2) [OF k(1) refl _ x refl c] k(2) by auto
qed

end
