(* ===== verification/Totp_Cipher.thy ===== *)
theory Totp_Cipher
  imports Json_Parse Auth_Types Security
begin

text \<open>
  The encryption of \<open>TOTPService\<close> (\<open>encrypt\<close>, \<open>decrypt\<close>, \<open>encryptBackupCodes\<close>,
  \<open>decryptBackupCodes\<close> of \<open>src/core/totp/index.ts\<close>) with the base64 and UTF-8 conversions it uses.
  scrypt and AES-256-GCM are arguments; the salt and the initialisation vector are random bytes.
  Bytes are natural numbers below 256.
\<close>

section \<open>Base64\<close>

text \<open>The alphabet: capitals, small letters, digits, plus and slash.\<close>

definition base64_char :: "nat \<Rightarrow> char" where
  "base64_char n =
     (if n < 26 then char_of (65 + n) else if n < 52 then char_of (71 + n) else if n < 62 then char_of (n - 4)
      else if n = 62 then CHR ''+'' else CHR ''/'')"

text \<open>Reading also takes the alphabet for URLs.\<close>

definition base64_value :: "char \<Rightarrow> nat option" where
  "base64_value c =
     (if is_upper c then Some (of_char c - 65)
      else if is_lower c then Some (of_char c - 71)
      else if is_digit c then Some (of_char c + 4)
      else if c = CHR ''+'' \<or> c = CHR ''-'' then Some 62
      else if c = CHR ''/'' \<or> c = CHR ''_'' then Some 63
      else None)"

fun base64_encode :: "nat list \<Rightarrow> string" where
  "base64_encode [] = []"
| "base64_encode [a] = [base64_char (a div 4), base64_char (a mod 4 * 16), CHR ''='', CHR ''='']"
| "base64_encode [a, b] =
     [base64_char (a div 4), base64_char (a mod 4 * 16 + b div 16), base64_char (b mod 16 * 4), CHR ''='']"
| "base64_encode (a # b # c # r) =
     [base64_char (a div 4), base64_char (a mod 4 * 16 + b div 16), base64_char (b mod 16 * 4 + c div 64),
      base64_char (c mod 64)] @ base64_encode r"

text \<open>
  \<open>Buffer.from(text, 'base64')\<close>: the text up to the first padding character, without the
  characters that are not of the alphabet.
\<close>

definition base64_sextets :: "string \<Rightarrow> nat list" where
  "base64_sextets s = List.map_filter base64_value (takeWhile (\<lambda>c. c \<noteq> CHR ''='') s)"

fun join_sextets :: "nat list \<Rightarrow> nat list" where
  "join_sextets [] = []"
| "join_sextets [w] = []"
| "join_sextets [w, x] = [w * 4 + x div 16]"
| "join_sextets [w, x, y] = [w * 4 + x div 16, x mod 16 * 16 + y div 4]"
| "join_sextets (w # x # y # z # r) = [w * 4 + x div 16, x mod 16 * 16 + y div 4, y mod 4 * 64 + z] @ join_sextets r"

definition base64_decode :: "string \<Rightarrow> nat list" where
  "base64_decode s = join_sextets (base64_sextets s)"

section \<open>UTF-8\<close>

text \<open>The text of bytes: nothing for bytes that are not the UTF-8 of characters below U+0100.\<close>

fun utf8_text :: "nat list \<Rightarrow> string option" where
  "utf8_text [] = Some []"
| "utf8_text (a # r) =
     (if a < 128 then map_option (Cons (char_of a)) (utf8_text r)
      else if a = 194 \<or> a = 195 then
        (case r of
           [] \<Rightarrow> None
         | b # r' \<Rightarrow> if 128 \<le> b \<and> b < 192 then map_option (Cons (char_of ((a - 192) * 64 + (b - 128)))) (utf8_text r')
                    else None)
      else None)"

section \<open>Encryption\<close>

record encrypted_data =
  en_encrypted :: string
  en_salt :: string
  en_iv :: string
  en_tag :: string

definition SALT_LENGTH :: nat where "SALT_LENGTH = 32"
definition IV_LENGTH :: nat where "IV_LENGTH = 16"
definition KEY_LENGTH :: nat where "KEY_LENGTH = 32"

text \<open>\<open>gc_scrypt\<close> derives a key of the given length; \<open>gc_open\<close> fails when the tag does not match.\<close>

record gcm =
  gc_scrypt :: "string \<Rightarrow> nat list \<Rightarrow> nat \<Rightarrow> nat list"
  gc_seal :: "nat list \<Rightarrow> nat list \<Rightarrow> nat list \<Rightarrow> nat list \<times> nat list"
  gc_open :: "nat list \<Rightarrow> nat list \<Rightarrow> nat list \<Rightarrow> nat list \<Rightarrow> nat list result"

definition totp_encrypt :: "gcm \<Rightarrow> string \<Rightarrow> nat list \<Rightarrow> nat list \<Rightarrow> string \<Rightarrow> encrypted_data" where
  "totp_encrypt g encryptionKey salt iv text =
     (let key = gc_scrypt g encryptionKey salt KEY_LENGTH;
          (encrypted, tag) = gc_seal g key iv (utf8 text)
      in \<lparr>en_encrypted = base64_encode encrypted, en_salt = base64_encode salt, en_iv = base64_encode iv,
          en_tag = base64_encode tag\<rparr>)"

text \<open>A text that has a character above U+00FF is not a text here, and refused.\<close>

definition text_error :: error where
  "text_error = Error ''not a text of characters below U+0100''"

definition totp_decrypt :: "gcm \<Rightarrow> string \<Rightarrow> encrypted_data \<Rightarrow> string result" where
  "totp_decrypt g encryptionKey data =
     (let salt = base64_decode (en_salt data);
          key = gc_scrypt g encryptionKey salt KEY_LENGTH;
          iv = base64_decode (en_iv data);
          tag = base64_decode (en_tag data);
          encrypted = base64_decode (en_encrypted data)
      in case gc_open g key iv encrypted tag of
           Inl e \<Rightarrow> Inl e
         | Inr decrypted \<Rightarrow> (case utf8_text decrypted of None \<Rightarrow> Inl text_error | Some t \<Rightarrow> Inr t))"

definition encryptBackupCodes :: "gcm \<Rightarrow> string \<Rightarrow> nat list \<Rightarrow> nat list \<Rightarrow> string list \<Rightarrow> encrypted_data" where
  "encryptBackupCodes g encryptionKey salt iv codes =
     totp_encrypt g encryptionKey salt iv (stringify (JArr (map JStr codes)))"

text \<open>\<open>JSON.parse\<close> answers whatever value the text holds.\<close>

definition decryptBackupCodes :: "gcm \<Rightarrow> string \<Rightarrow> encrypted_data \<Rightarrow> json result" where
  "decryptBackupCodes g encryptionKey data =
     (case totp_decrypt g encryptionKey data of
        Inl e \<Rightarrow> Inl e
      | Inr t \<Rightarrow> (case json_parse t of None \<Rightarrow> Inl (Error ''SyntaxError'') | Some j \<Rightarrow> Inr j))"

section \<open>Lemmas\<close>

definition byte_list :: "nat list \<Rightarrow> bool" where
  "byte_list bs \<longleftrightarrow> list_all (\<lambda>b. b < 256) bs"

lemma base64_value_char: "n < 64 \<Longrightarrow> base64_value (base64_char n) = Some n \<and> base64_char n \<noteq> CHR ''=''"
proof -
  assume "n < 64"
  then consider "n < 26" | "26 \<le> n" "n < 52" | "52 \<le> n" "n < 62" | "n = 62" | "n = 63" by linarith
  then show ?thesis
  proof cases
    case 1
    then have "(of_char (base64_char n) :: nat) = 65 + n" by (simp add: base64_char_def)
    then show ?thesis using 1 by (auto simp: base64_value_def is_upper_def Let_def)
  next
    case 2
    then have "(of_char (base64_char n) :: nat) = 71 + n" by (simp add: base64_char_def)
    then show ?thesis using 2 by (auto simp: base64_value_def is_upper_def is_lower_def Let_def)
  next
    case 3
    then have "(of_char (base64_char n) :: nat) = n - 4" by (simp add: base64_char_def)
    then show ?thesis using 3 by (auto simp: base64_value_def is_upper_def is_lower_def is_digit_def Let_def)
  qed (auto simp: base64_char_def base64_value_def is_upper_def is_lower_def is_digit_def)
qed

lemma sextets_Cons: "n < 64 \<Longrightarrow> base64_sextets (base64_char n # s) = n # base64_sextets s"
  by (simp add: base64_sextets_def base64_value_char)

lemma sextets_end: "base64_sextets (CHR ''='' # s) = []" "base64_sextets [] = []"
  by (simp_all add: base64_sextets_def List.map_filter_def)

lemma base64_decode_encode: "byte_list bs \<Longrightarrow> base64_decode (base64_encode bs) = bs"
proof (induction bs rule: base64_encode.induct)
  case (2 a)
  then have "a < 256" by (simp add: byte_list_def)
  then show ?case by (simp add: base64_decode_def sextets_Cons sextets_end)
next
  case (3 a b)
  then have "a < 256" "b < 256" by (simp_all add: byte_list_def)
  then show ?case by (simp add: base64_decode_def sextets_Cons sextets_end)
next
  case (4 a b c r)
  then have "a < 256" "b < 256" "c < 256" "base64_decode (base64_encode r) = r" by (simp_all add: byte_list_def)
  then show ?case by (simp add: base64_decode_def sextets_Cons)
qed (simp add: base64_decode_def sextets_end)

lemma utf8_text_utf8: "utf8_text (utf8 s) = Some s"
proof (induction s)
  case (Cons c s)
  let ?n = "of_char c :: nat"
  have "?n < 256" by (rule of_char_less_256)
  then have "?n < 128 \<or> (192 + ?n div 64 = 194 \<or> 192 + ?n div 64 = 195)" by linarith
  then show ?case using Cons by (auto simp: utf8_def utf8_char_def Let_def)
qed (simp add: utf8_def)

lemma utf8_bytes: "byte_list (utf8 s)"
proof -
  have "byte_list (utf8_char c)" for c
  proof -
    have "(of_char c :: nat) div 64 < 4" "(of_char c :: nat) mod 64 < 128"
      using of_char_less_256 [of c] mod_less_divisor [of 64 "of_char c :: nat"]
      by (simp_all add: div_less_iff_less_mult del: mod_less_divisor)
    then show ?thesis by (simp add: byte_list_def utf8_char_def Let_def)
  qed
  then show ?thesis by (induction s) (auto simp: utf8_def byte_list_def)
qed

text \<open>What is documented of GCM: what was sealed under a key and vector opens under them.\<close>

definition gcm_opens :: "gcm \<Rightarrow> bool" where
  "gcm_opens g \<longleftrightarrow>
     (\<forall>key iv bs c t. byte_list bs \<and> gc_seal g key iv bs = (c, t) \<longrightarrow>
        byte_list c \<and> byte_list t \<and> gc_open g key iv c t = Inr bs)"

lemma totp_decrypt_encrypt:
  assumes "gcm_opens g" "byte_list salt" "byte_list iv"
  shows "totp_decrypt g key (totp_encrypt g key salt iv text) = Inr text"
proof -
  obtain c t where c: "gc_seal g (gc_scrypt g key salt KEY_LENGTH) iv (utf8 text) = (c, t)" by fastforce
  then have "byte_list c \<and> byte_list t \<and> gc_open g (gc_scrypt g key salt KEY_LENGTH) iv c t = Inr (utf8 text)"
    using assms(1) utf8_bytes unfolding gcm_opens_def by blast
  then show ?thesis
    using assms by (simp add: totp_encrypt_def totp_decrypt_def c base64_decode_encode utf8_text_utf8 Let_def)
qed

section \<open>Properties\<close>

text \<open>
  C40. What the service encrypts it decrypts: a text comes back as it was, and a list of backup
  codes as the array of these codes, under every key, salt and initialisation vector, when GCM
  opens what it sealed.
\<close>

theorem totp_cipher_roundtrip:
  assumes "gcm_opens g" "byte_list salt" "byte_list iv"
  shows "totp_decrypt g key (totp_encrypt g key salt iv text) = Inr text
    \<and> decryptBackupCodes g key (encryptBackupCodes g key salt iv codes) = Inr (JArr (map JStr codes))"
  using totp_decrypt_encrypt [OF assms]
  by (simp add: decryptBackupCodes_def encryptBackupCodes_def json_parse_stringify list_all_iff
      del: stringify.simps)

text \<open>A cipher that turns every byte around, with the key and the vector as its tag.\<close>

definition turning_gcm :: gcm where
  "turning_gcm =
     \<lparr>gc_scrypt = \<lambda>k salt n. replicate n (length k),
      gc_seal = \<lambda>key iv bs. (map (\<lambda>b. 255 - b) bs, map (\<lambda>b. b mod 256) (key @ iv)),
      gc_open = \<lambda>key iv bs tag. if tag = map (\<lambda>b. b mod 256) (key @ iv)
        then Inr (map (\<lambda>b. 255 - b) bs) else Inl (Error ''bad tag'')\<rparr>"

lemma turning_gcm_opens: "gcm_opens turning_gcm"
  by (auto simp: gcm_opens_def turning_gcm_def byte_list_def list_all_iff intro!: map_idI)

theorem totp_cipher_roundtrip_witness:
  "totp_decrypt turning_gcm ''key'' (totp_encrypt turning_gcm ''key'' [1, 2] [3, 4] ''text'') = Inr ''text''"
  using totp_cipher_roundtrip [OF turning_gcm_opens, of "[1, 2]" "[3, 4]" "''key''" "''text''" "[]"]
  by (simp add: byte_list_def)

end
