(* ===== verification/Bootstrap_Journal.thy ===== *)
theory Bootstrap_Journal
  imports Json_Parse Totp_Cipher Session_Policy Backup_Codes Totp "HOL-Library.Monad_Syntax"
begin

text \<open>
  The journal of the file bootstrap, \<open>src/storage/file-bootstrap.ts\<close>: its records and their
  validators, the JSON text of a record and its reading, and the sealed file. The journal file
  holds the text the code writes, and it is parsed when it is read.

  AES-GCM and scrypt, SHA-256, the text of a time and \<open>Date.parse\<close>, random values and the answers of
  the file system are arguments. The outside world is asked with a running number: \<open>jn_clock env
  n\<close> is its \<open>n\<close>-th answer when that question was for the time, and so on.
\<close>

section \<open>Types\<close>

datatype journal_code = BJ_INVALID | BJ_UNAUTHORIZED | BJ_EXPIRED | BJ_CONFLICT | BJ_RECOVERY_REQUIRED

text \<open>Errors of the file system, the storage and the callbacks pass through as they are.\<close>

datatype bootstrap_error = BootstrapJournalError (journal_code: journal_code) | External error

record journal_profile =
  jp_displayName :: string
  jp_bio :: string
  jp_pronouns :: string
  jp_visibility :: string

record bootstrap_pending =
  pd_attemptId :: string
  pd_referenceDigest :: string
  pd_userId :: string
  pd_handle :: string
  pd_passwordHash :: string
  pd_secret :: string
  pd_backupCodes :: "string list"
  pd_backupCodesAcknowledged :: bool
  pd_createdAt :: stamp
  pd_expiresAt :: stamp
  pd_profile :: "journal_profile option"

record bootstrap_completion =
  cp_attemptId :: string
  cp_completedAt :: stamp
  cp_user :: admin_user
  cp_totpSecret :: encrypted_totp_secret
  cp_backupCodes :: backup_code_set
  cp_profile :: "journal_profile option"

record bootstrap_receipt =
  rc_attemptId :: string
  rc_userId :: string
  rc_handle :: string
  rc_completedAt :: stamp
  rc_materialDigest :: string

datatype bootstrap_record =
    Pending bootstrap_pending
  | Committed string bootstrap_completion bootstrap_receipt
  | Applied string bootstrap_receipt

definition BOOTSTRAP_DOMAIN :: string where
  "BOOTSTRAP_DOMAIN = ''tinyland-auth:bootstrap-journal:v1''"

definition MAX_TTL :: int where "MAX_TTL = 600000"
definition BOOTSTRAP_MAX_BYTES :: nat where "BOOTSTRAP_MAX_BYTES = 131072"

text \<open>What is at the journal's path, and the outcome of publishing a new file there: a rename
  whose directory sync fails is \<open>Journal_unacknowledged\<close>.\<close>

datatype journal_entry = Regular_file string | Other_entry

datatype journal_publication = Journal_published | Journal_unacknowledged error | Journal_refused error

record journal_env =
  jn_scope :: string
  jn_ttl :: int
  jn_gcm :: gcm
  jn_key :: string
  jn_sha256 :: "string \<Rightarrow> string"
  jn_iso :: "int \<Rightarrow> string"
  jn_date :: "string \<Rightarrow> int option"
  jn_clock :: "nat \<Rightarrow> int"
  jn_random :: "nat \<Rightarrow> nat list"
  jn_read :: "nat \<Rightarrow> unit result"
  jn_sync :: "nat \<Rightarrow> unit result"
  jn_publish :: "nat \<Rightarrow> journal_publication"

record 's boot_world =
  bw_store :: 's
  bw_file :: "journal_entry option"
  bw_asked :: nat

type_synonym ('s, 'a) boot_op = "(bootstrap_error, 's boot_world, 'a) fallible"

definition bj_fail :: "journal_code \<Rightarrow> ('s, 'a) boot_op" where
  "bj_fail code = throw_op (BootstrapJournalError code)"

definition bj_require :: "bool \<Rightarrow> journal_code \<Rightarrow> ('s, unit) boot_op" where
  "bj_require b code = (if b then return_op () else bj_fail code)"

text \<open>A question to the outside world, and one that may fail.\<close>

definition ask :: "(nat \<Rightarrow> 'a) \<Rightarrow> ('s, 'a) boot_op" where
  "ask f = (\<lambda>w. (Inr (f (bw_asked w)), w\<lparr>bw_asked := Suc (bw_asked w)\<rparr>))"

definition of_external :: "'a result \<Rightarrow> ('s, 'a) boot_op" where
  "of_external r = (case r of Inl e \<Rightarrow> throw_op (External e) | Inr a \<Rightarrow> return_op a)"

definition in_storage :: "('s, 'a) op \<Rightarrow> ('s, 'a) boot_op" where
  "in_storage m w =
     (let (r, s) = m (bw_store w)
      in (case r of Inl e \<Rightarrow> Inl (External e) | Inr a \<Rightarrow> Inr a, w\<lparr>bw_store := s\<rparr>))"

section \<open>Validators\<close>

definition journal_text :: "nat \<Rightarrow> string \<Rightarrow> bool" where
  "journal_text limit v \<longleftrightarrow> v \<noteq> [] \<and> length v \<le> limit"

text \<open>The text of a stamp. \<open>iso\<close>: a text of at most 24 characters that \<open>toISOString\<close> would write.\<close>

fun stamp_text :: "journal_env \<Rightarrow> stamp \<Rightarrow> string" where
  "stamp_text env (Iso t) = jn_iso env t"
| "stamp_text env (OtherText s t) = s"

definition journal_iso :: "journal_env \<Rightarrow> stamp \<Rightarrow> bool" where
  "journal_iso env d \<longleftrightarrow>
     (case d of Iso t \<Rightarrow> journal_text 24 (jn_iso env t) \<and> \<bar>t\<bar> \<le> 8640000000000000 | OtherText s t \<Rightarrow> False)"

text \<open>The pattern \<open>^[a-z0-9][a-z0-9_-]{2,29}$\<close>.\<close>

definition is_handle_char :: "char \<Rightarrow> bool" where
  "is_handle_char c = (is_lower c \<or> is_digit c \<or> c = CHR ''_'' \<or> c = CHR ''-'')"

definition journal_handle :: "string \<Rightarrow> bool" where
  "journal_handle h \<longleftrightarrow> 3 \<le> length h \<and> length h \<le> 30
     \<and> (is_lower (hd h) \<or> is_digit (hd h)) \<and> list_all is_handle_char (tl h)"

text \<open>The pattern \<open>^\$2[aby]\$(0[4-9]|[12][0-9]|3[01])\$[./A-Za-z0-9]{53}$\<close>.\<close>

definition is_bcrypt_char :: "char \<Rightarrow> bool" where
  "is_bcrypt_char c = (is_upper c \<or> is_lower c \<or> is_digit c \<or> c = CHR ''.'' \<or> c = CHR ''/'')"

definition is_bcrypt_cost :: "char \<Rightarrow> char \<Rightarrow> bool" where
  "is_bcrypt_cost a b \<longleftrightarrow>
     is_digit a \<and> is_digit b \<and> (let n = 10 * digit_number a + digit_number b in 4 \<le> n \<and> n \<le> 31)"

definition journal_passwordHash :: "string \<Rightarrow> bool" where
  "journal_passwordHash v \<longleftrightarrow>
     length v = 60 \<and> take 2 v = ''$2'' \<and> v ! 2 \<in> set ''aby'' \<and> v ! 3 = CHR ''$'' \<and> is_bcrypt_cost (v ! 4) (v ! 5)
     \<and> v ! 6 = CHR ''$'' \<and> list_all is_bcrypt_char (drop 7 v)"

definition visibilities :: "string list" where
  "visibilities = [''public'', ''private'', ''unlisted'', ''draft'', ''published'']"

definition journal_profile_ok :: "journal_profile \<Rightarrow> bool" where
  "journal_profile_ok p \<longleftrightarrow>
     journal_text 200 (jp_displayName p) \<and> length (jp_bio p) \<le> 4096 \<and> length (jp_pronouns p) \<le> 200
     \<and> jp_visibility p \<in> set visibilities"

definition optional_ok :: "('a \<Rightarrow> bool) \<Rightarrow> 'a option \<Rightarrow> bool" where
  "optional_ok P v = (case v of None \<Rightarrow> True | Some a \<Rightarrow> P a)"

definition canonical_base64 :: "string \<Rightarrow> bool" where
  "canonical_base64 s \<longleftrightarrow> base64_encode (base64_decode s) = s"

definition journal_encrypted :: "encrypted_data \<Rightarrow> bool" where
  "journal_encrypted v \<longleftrightarrow>
     list_all (\<lambda>field. journal_text BOOTSTRAP_MAX_BYTES field \<and> canonical_base64 field)
       [en_encrypted v, en_salt v, en_iv v, en_tag v]
     \<and> length (base64_decode (en_salt v)) = 32 \<and> length (base64_decode (en_iv v)) = 16
     \<and> length (base64_decode (en_tag v)) = 16"

text \<open>The pattern \<open>^[A-Z2-7]{16,256}$\<close> of a secret and \<open>^[A-F0-9]{4}-[A-F0-9]{4}$\<close> of a code.\<close>

definition journal_secret :: "string \<Rightarrow> bool" where
  "journal_secret s \<longleftrightarrow> 16 \<le> length s \<and> length s \<le> 256
     \<and> list_all (\<lambda>c. is_upper c \<or> (let n = of_char c :: nat in 50 \<le> n \<and> n \<le> 55)) s"

definition is_upper_hex :: "char \<Rightarrow> bool" where
  "is_upper_hex c = (is_digit c \<or> (let n = of_char c :: nat in 65 \<le> n \<and> n \<le> 70))"

definition journal_code_format :: "string \<Rightarrow> bool" where
  "journal_code_format s \<longleftrightarrow> length s = 9 \<and> s ! 4 = CHR ''-''
     \<and> list_all is_upper_hex (take 4 s) \<and> list_all is_upper_hex (drop 5 s)"

definition pending_ok :: "journal_env \<Rightarrow> bootstrap_pending \<Rightarrow> bool" where
  "pending_ok env v \<longleftrightarrow>
     is_sha256_hex (pd_attemptId v) \<and> is_sha256_hex (pd_referenceDigest v) \<and> journal_text 128 (pd_userId v)
     \<and> journal_handle (pd_handle v) \<and> journal_passwordHash (pd_passwordHash v) \<and> journal_secret (pd_secret v)
     \<and> length (pd_backupCodes v) = 10 \<and> list_all journal_code_format (pd_backupCodes v)
     \<and> distinct (pd_backupCodes v)
     \<and> journal_iso env (pd_createdAt v) \<and> journal_iso env (pd_expiresAt v)
     \<and> (case (date_parse (pd_createdAt v), date_parse (pd_expiresAt v)) of
          (Some c, Some e) \<Rightarrow> c < e \<and> e - c \<le> MAX_TTL | _ \<Rightarrow> False)
     \<and> optional_ok journal_profile_ok (pd_profile v)"

text \<open>The only properties an account, a code and a code set of a completion may have.\<close>

definition completion_user_keys :: "admin_user \<Rightarrow> bool" where
  "completion_user_keys u \<longleftrightarrow>
     u = blank_user\<lparr>u_id := u_id u, u_handle := u_handle u, u_passwordHash := u_passwordHash u, u_role := u_role u,
       u_isActive := u_isActive u, u_totpEnabled := u_totpEnabled u, u_totpSecretId := u_totpSecretId u,
       u_needsOnboarding := u_needsOnboarding u, u_onboardingStep := u_onboardingStep u,
       u_createdAt := u_createdAt u, u_updatedAt := u_updatedAt u\<rparr>"

definition factor_data :: "encrypted_totp_secret \<Rightarrow> encrypted_data" where
  "factor_data f =
     \<lparr>en_encrypted = ts_encryptedSecret f, en_salt = ts_salt f, en_iv = ts_iv f, en_tag = ts_authTag f\<rparr>"

definition completion_user_ok :: "stamp \<Rightarrow> admin_user \<Rightarrow> bool" where
  "completion_user_ok completedAt u \<longleftrightarrow>
     completion_user_keys u \<and> journal_text 128 (u_id u) \<and> journal_handle (u_handle u)
     \<and> journal_passwordHash (u_passwordHash u) \<and> u_role u = ''super_admin'' \<and> u_isActive u \<and> u_totpEnabled u
     \<and> u_totpSecretId u = Some (u_handle u) \<and> \<not> u_needsOnboarding u \<and> u_onboardingStep u = 0
     \<and> u_createdAt u = completedAt \<and> u_updatedAt u = completedAt"

definition completion_factor_ok :: "stamp \<Rightarrow> admin_user \<Rightarrow> encrypted_totp_secret \<Rightarrow> bool" where
  "completion_factor_ok completedAt u f \<longleftrightarrow>
     journal_encrypted (factor_data f) \<and> ts_userId f = u_id u \<and> ts_handle f = u_handle u
     \<and> ts_createdAt f = completedAt \<and> ts_lastUsedAt f = Some completedAt
     \<and> (case ts_lastUsedTotpStep f of None \<Rightarrow> False | Some n \<Rightarrow> isSafeInteger n \<and> n \<ge> 0)
     \<and> ts_backupCodesGenerated f \<and> ts_version f = 1"

text \<open>The loop over the codes with the ids seen so far.\<close>

fun completion_codes_loop :: "string list \<Rightarrow> encrypted_backup_code list \<Rightarrow> bool" where
  "completion_codes_loop ids [] = True"
| "completion_codes_loop ids (code # cs) =
     (bc_usedAt code = None \<and> journal_text 128 (bc_id code) \<and> is_sha256_hex (bc_hash code)
      \<and> \<not> bc_used code \<and> bc_id code \<notin> set ids \<and> completion_codes_loop (bc_id code # ids) cs)"

definition completion_codes_ok :: "stamp \<Rightarrow> admin_user \<Rightarrow> backup_code_set \<Rightarrow> bool" where
  "completion_codes_ok completedAt u cs \<longleftrightarrow>
     bs_lastUsedAt cs = None \<and> bs_userId cs = u_id u \<and> bs_generatedAt cs = completedAt
     \<and> length (bs_codes cs) = 10 \<and> completion_codes_loop [] (bs_codes cs)"

definition completion_ok :: "journal_env \<Rightarrow> bootstrap_completion \<Rightarrow> bool" where
  "completion_ok env v \<longleftrightarrow>
     is_sha256_hex (cp_attemptId v) \<and> journal_iso env (cp_completedAt v)
     \<and> optional_ok journal_profile_ok (cp_profile v)
     \<and> completion_user_ok (cp_completedAt v) (cp_user v)
     \<and> completion_factor_ok (cp_completedAt v) (cp_user v) (cp_totpSecret v)
     \<and> completion_codes_ok (cp_completedAt v) (cp_user v) (cp_backupCodes v)"

definition bootstrap_receipt_ok :: "journal_env \<Rightarrow> bootstrap_receipt \<Rightarrow> bool" where
  "bootstrap_receipt_ok env r \<longleftrightarrow>
     is_sha256_hex (rc_attemptId r) \<and> journal_text 128 (rc_userId r) \<and> journal_handle (rc_handle r)
     \<and> journal_iso env (rc_completedAt r) \<and> is_sha256_hex (rc_materialDigest r)"

section \<open>The text of a record\<close>

definition profile_json :: "journal_profile \<Rightarrow> json" where
  "profile_json p =
     JObj [(''displayName'', JStr (jp_displayName p)), (''bio'', JStr (jp_bio p)),
           (''pronouns'', JStr (jp_pronouns p)), (''visibility'', JStr (jp_visibility p))]"

definition encrypted_json :: "encrypted_data \<Rightarrow> json" where
  "encrypted_json v =
     JObj [(''encrypted'', JStr (en_encrypted v)), (''salt'', JStr (en_salt v)), (''iv'', JStr (en_iv v)),
           (''tag'', JStr (en_tag v))]"

definition stamp_json :: "journal_env \<Rightarrow> stamp \<Rightarrow> json" where
  "stamp_json env d = JStr (stamp_text env d)"

definition pending_json :: "journal_env \<Rightarrow> bootstrap_pending \<Rightarrow> json" where
  "pending_json env v =
     JObj ([(''state'', JStr ''pending''), (''attemptId'', JStr (pd_attemptId v)),
            (''referenceDigest'', JStr (pd_referenceDigest v)), (''userId'', JStr (pd_userId v)),
            (''handle'', JStr (pd_handle v)), (''passwordHash'', JStr (pd_passwordHash v)),
            (''secret'', JStr (pd_secret v)), (''backupCodes'', JArr (map JStr (pd_backupCodes v))),
            (''backupCodesAcknowledged'', JBool (pd_backupCodesAcknowledged v)),
            (''createdAt'', stamp_json env (pd_createdAt v)), (''expiresAt'', stamp_json env (pd_expiresAt v))]
       @ opt_key ''profile'' profile_json (pd_profile v))"

definition completion_user_json :: "journal_env \<Rightarrow> admin_user \<Rightarrow> json" where
  "completion_user_json env u =
     JObj [(''id'', JStr (u_id u)), (''handle'', JStr (u_handle u)), (''passwordHash'', JStr (u_passwordHash u)),
           (''role'', JStr (u_role u)), (''isActive'', JBool (u_isActive u)), (''totpEnabled'', JBool (u_totpEnabled u)),
           (''totpSecretId'', JStr (nullish (u_totpSecretId u) [])), (''needsOnboarding'', JBool (u_needsOnboarding u)),
           (''onboardingStep'', JNum (u_onboardingStep u)), (''createdAt'', stamp_json env (u_createdAt u)),
           (''updatedAt'', stamp_json env (u_updatedAt u))]"

definition completion_factor_json :: "journal_env \<Rightarrow> encrypted_totp_secret \<Rightarrow> json" where
  "completion_factor_json env f =
     JObj [(''userId'', JStr (ts_userId f)), (''handle'', JStr (ts_handle f)),
           (''encryptedSecret'', JStr (ts_encryptedSecret f)), (''salt'', JStr (ts_salt f)), (''iv'', JStr (ts_iv f)),
           (''authTag'', JStr (ts_authTag f)), (''createdAt'', stamp_json env (ts_createdAt f)),
           (''lastUsedAt'', stamp_json env (nullish (ts_lastUsedAt f) (Iso 0))),
           (''lastUsedTotpStep'', JNum (nullish (ts_lastUsedTotpStep f) 0)),
           (''backupCodesGenerated'', JBool (ts_backupCodesGenerated f)), (''version'', JNum (ts_version f))]"

definition completion_code_json :: "encrypted_backup_code \<Rightarrow> json" where
  "completion_code_json c = JObj [(''id'', JStr (bc_id c)), (''hash'', JStr (bc_hash c)), (''used'', JBool (bc_used c))]"

definition completion_codes_json :: "journal_env \<Rightarrow> backup_code_set \<Rightarrow> json" where
  "completion_codes_json env cs =
     JObj [(''userId'', JStr (bs_userId cs)), (''codes'', JArr (map completion_code_json (bs_codes cs))),
           (''generatedAt'', stamp_json env (bs_generatedAt cs))]"

definition completion_json :: "journal_env \<Rightarrow> bootstrap_completion \<Rightarrow> json" where
  "completion_json env v =
     JObj ([(''version'', JNum 1), (''attemptId'', JStr (cp_attemptId v)),
            (''completedAt'', stamp_json env (cp_completedAt v)), (''user'', completion_user_json env (cp_user v)),
            (''totpSecret'', completion_factor_json env (cp_totpSecret v)),
            (''backupCodes'', completion_codes_json env (cp_backupCodes v))]
       @ opt_key ''profile'' profile_json (cp_profile v))"

definition bootstrap_receipt_json :: "journal_env \<Rightarrow> bootstrap_receipt \<Rightarrow> json" where
  "bootstrap_receipt_json env r =
     JObj [(''version'', JNum 1), (''attemptId'', JStr (rc_attemptId r)), (''userId'', JStr (rc_userId r)),
           (''handle'', JStr (rc_handle r)), (''completedAt'', stamp_json env (rc_completedAt r)),
           (''materialDigest'', JStr (rc_materialDigest r))]"

fun bootstrap_record_json :: "journal_env \<Rightarrow> bootstrap_record \<Rightarrow> json" where
  "bootstrap_record_json env (Pending v) = pending_json env v"
| "bootstrap_record_json env (Committed d c r) =
     JObj [(''state'', JStr ''committed''), (''referenceDigest'', JStr d), (''completion'', completion_json env c),
           (''receipt'', bootstrap_receipt_json env r)]"
| "bootstrap_record_json env (Applied d r) =
     JObj [(''state'', JStr ''applied''), (''referenceDigest'', JStr d), (''receipt'', bootstrap_receipt_json env r)]"

section \<open>The digests and the validator of a record\<close>

definition referenceDigest :: "journal_env \<Rightarrow> string \<Rightarrow> bootstrap_error + string" where
  "referenceDigest env reference =
     (if \<not> is_sha256_hex reference then Inl (BootstrapJournalError BJ_UNAUTHORIZED)
      else Inr (jn_sha256 env (BOOTSTRAP_DOMAIN @ '':reference'' @ [CHR 0x00] @ reference)))"

definition materialDigest :: "journal_env \<Rightarrow> bootstrap_completion \<Rightarrow> string" where
  "materialDigest env c = jn_sha256 env (BOOTSTRAP_DOMAIN @ '':completion'' @ [CHR 0x00] @ encoded (completion_json env c))"

fun bootstrap_record_ok :: "journal_env \<Rightarrow> bootstrap_record \<Rightarrow> bool" where
  "bootstrap_record_ok env (Pending v) \<longleftrightarrow> pending_ok env v"
| "bootstrap_record_ok env (Committed d c r) \<longleftrightarrow>
     is_sha256_hex d \<and> completion_ok env c \<and> bootstrap_receipt_ok env r
     \<and> rc_attemptId r = cp_attemptId c \<and> rc_userId r = u_id (cp_user c) \<and> rc_handle r = u_handle (cp_user c)
     \<and> rc_completedAt r = cp_completedAt c \<and> rc_materialDigest r = materialDigest env c"
| "bootstrap_record_ok env (Applied d r) \<longleftrightarrow> is_sha256_hex d \<and> bootstrap_receipt_ok env r"

section \<open>Reading a record\<close>

text \<open>\<open>object\<close>: an object that has the required keys and no key besides these and the optional ones.\<close>

definition exact_object :: "string list \<Rightarrow> string list \<Rightarrow> json \<Rightarrow> (string \<times> json) list option" where
  "exact_object required optional value =
     (case value of
        JObj kvs \<Rightarrow>
          if list_all (\<lambda>k. k \<in> set (map fst kvs)) required
             \<and> list_all (\<lambda>k. k \<in> set required \<or> k \<in> set optional) (map fst kvs)
          then Some kvs else None
      | _ \<Rightarrow> None)"

fun as_text :: "json \<Rightarrow> string option" where
  "as_text (JStr s) = Some s"
| "as_text _ = None"

fun as_number :: "json \<Rightarrow> int option" where
  "as_number (JNum n) = Some n"
| "as_number _ = None"

fun as_bool :: "json \<Rightarrow> bool option" where
  "as_bool (JBool b) = Some b"
| "as_bool _ = None"

fun as_array :: "json \<Rightarrow> json list option" where
  "as_array (JArr xs) = Some xs"
| "as_array _ = None"

definition get :: "(json \<Rightarrow> 'a option) \<Rightarrow> string \<Rightarrow> (string \<times> json) list \<Rightarrow> 'a option" where
  "get f k kvs = Option.bind (map_of kvs k) f"

definition get_optional :: "(json \<Rightarrow> 'a option) \<Rightarrow> string \<Rightarrow> (string \<times> json) list \<Rightarrow> 'a option option" where
  "get_optional f k kvs = (case map_of kvs k of None \<Rightarrow> Some None | Some v \<Rightarrow> map_option Some (f v))"

definition all_of :: "(json \<Rightarrow> 'a option) \<Rightarrow> json \<Rightarrow> 'a list option" where
  "all_of f v = Option.bind (as_array v) (\<lambda>xs. those (map f xs))"

definition expect :: "bool \<Rightarrow> unit option" where
  "expect b = (if b then Some () else None)"

definition as_stamp :: "journal_env \<Rightarrow> json \<Rightarrow> stamp option" where
  "as_stamp env v =
     map_option (\<lambda>s. case jn_date env s of
         None \<Rightarrow> OtherText s None
       | Some t \<Rightarrow> if jn_iso env t = s then Iso t else OtherText s (Some t)) (as_text v)"

definition as_profile :: "json \<Rightarrow> journal_profile option" where
  "as_profile v = do {
     kvs \<leftarrow> exact_object [''displayName'', ''bio'', ''pronouns'', ''visibility''] [] v;
     displayName \<leftarrow> get as_text ''displayName'' kvs;
     bio \<leftarrow> get as_text ''bio'' kvs;
     pronouns \<leftarrow> get as_text ''pronouns'' kvs;
     visibility \<leftarrow> get as_text ''visibility'' kvs;
     Some \<lparr>jp_displayName = displayName, jp_bio = bio, jp_pronouns = pronouns, jp_visibility = visibility\<rparr> }"

definition as_encrypted :: "json \<Rightarrow> encrypted_data option" where
  "as_encrypted v = do {
     kvs \<leftarrow> exact_object [''encrypted'', ''salt'', ''iv'', ''tag''] [] v;
     e \<leftarrow> get as_text ''encrypted'' kvs;
     s \<leftarrow> get as_text ''salt'' kvs;
     i \<leftarrow> get as_text ''iv'' kvs;
     t \<leftarrow> get as_text ''tag'' kvs;
     Some \<lparr>en_encrypted = e, en_salt = s, en_iv = i, en_tag = t\<rparr> }"

definition as_pending :: "journal_env \<Rightarrow> json \<Rightarrow> bootstrap_pending option" where
  "as_pending env v = do {
     kvs \<leftarrow> exact_object [''state'', ''attemptId'', ''referenceDigest'', ''userId'', ''handle'', ''passwordHash'', ''secret'',
       ''backupCodes'', ''backupCodesAcknowledged'', ''createdAt'', ''expiresAt''] [''profile''] v;
     attemptId \<leftarrow> get as_text ''attemptId'' kvs;
     digest \<leftarrow> get as_text ''referenceDigest'' kvs;
     userId \<leftarrow> get as_text ''userId'' kvs;
     handle \<leftarrow> get as_text ''handle'' kvs;
     passwordHash \<leftarrow> get as_text ''passwordHash'' kvs;
     secret \<leftarrow> get as_text ''secret'' kvs;
     codes \<leftarrow> get (all_of as_text) ''backupCodes'' kvs;
     acknowledged \<leftarrow> get as_bool ''backupCodesAcknowledged'' kvs;
     createdAt \<leftarrow> get (as_stamp env) ''createdAt'' kvs;
     expiresAt \<leftarrow> get (as_stamp env) ''expiresAt'' kvs;
     profile \<leftarrow> get_optional as_profile ''profile'' kvs;
     Some \<lparr>pd_attemptId = attemptId, pd_referenceDigest = digest, pd_userId = userId, pd_handle = handle,
       pd_passwordHash = passwordHash, pd_secret = secret, pd_backupCodes = codes,
       pd_backupCodesAcknowledged = acknowledged, pd_createdAt = createdAt, pd_expiresAt = expiresAt,
       pd_profile = profile\<rparr> }"

definition as_completion_user :: "journal_env \<Rightarrow> json \<Rightarrow> admin_user option" where
  "as_completion_user env v = do {
     kvs \<leftarrow> exact_object [''id'', ''handle'', ''passwordHash'', ''role'', ''isActive'', ''totpEnabled'', ''totpSecretId'',
       ''needsOnboarding'', ''onboardingStep'', ''createdAt'', ''updatedAt''] [] v;
     uid \<leftarrow> get as_text ''id'' kvs;
     handle \<leftarrow> get as_text ''handle'' kvs;
     passwordHash \<leftarrow> get as_text ''passwordHash'' kvs;
     role \<leftarrow> get as_text ''role'' kvs;
     isActive \<leftarrow> get as_bool ''isActive'' kvs;
     totpEnabled \<leftarrow> get as_bool ''totpEnabled'' kvs;
     totpSecretId \<leftarrow> get as_text ''totpSecretId'' kvs;
     needsOnboarding \<leftarrow> get as_bool ''needsOnboarding'' kvs;
     onboardingStep \<leftarrow> get as_number ''onboardingStep'' kvs;
     createdAt \<leftarrow> get (as_stamp env) ''createdAt'' kvs;
     updatedAt \<leftarrow> get (as_stamp env) ''updatedAt'' kvs;
     Some (blank_user\<lparr>u_id := uid, u_handle := handle, u_passwordHash := passwordHash, u_role := role,
       u_isActive := isActive, u_totpEnabled := totpEnabled, u_totpSecretId := Some totpSecretId,
       u_needsOnboarding := needsOnboarding, u_onboardingStep := onboardingStep, u_createdAt := createdAt,
       u_updatedAt := updatedAt\<rparr>) }"

definition as_completion_factor :: "journal_env \<Rightarrow> json \<Rightarrow> encrypted_totp_secret option" where
  "as_completion_factor env v = do {
     kvs \<leftarrow> exact_object [''userId'', ''handle'', ''encryptedSecret'', ''iv'', ''authTag'', ''salt'', ''createdAt'',
       ''lastUsedAt'', ''lastUsedTotpStep'', ''backupCodesGenerated'', ''version''] [] v;
     userId \<leftarrow> get as_text ''userId'' kvs;
     handle \<leftarrow> get as_text ''handle'' kvs;
     encryptedSecret \<leftarrow> get as_text ''encryptedSecret'' kvs;
     iv \<leftarrow> get as_text ''iv'' kvs;
     authTag \<leftarrow> get as_text ''authTag'' kvs;
     salt \<leftarrow> get as_text ''salt'' kvs;
     createdAt \<leftarrow> get (as_stamp env) ''createdAt'' kvs;
     lastUsedAt \<leftarrow> get (as_stamp env) ''lastUsedAt'' kvs;
     step \<leftarrow> get as_number ''lastUsedTotpStep'' kvs;
     generated \<leftarrow> get as_bool ''backupCodesGenerated'' kvs;
     version \<leftarrow> get as_number ''version'' kvs;
     Some \<lparr>ts_userId = userId, ts_handle = handle, ts_encryptedSecret = encryptedSecret, ts_iv = iv,
       ts_authTag = authTag, ts_salt = salt, ts_createdAt = createdAt, ts_lastUsedAt = Some lastUsedAt,
       ts_lastUsedTotpStep = Some step, ts_backupCodesGenerated = generated, ts_version = version\<rparr> }"

definition as_completion_code :: "json \<Rightarrow> encrypted_backup_code option" where
  "as_completion_code v = do {
     kvs \<leftarrow> exact_object [''id'', ''hash'', ''used''] [] v;
     i \<leftarrow> get as_text ''id'' kvs;
     h \<leftarrow> get as_text ''hash'' kvs;
     u \<leftarrow> get as_bool ''used'' kvs;
     Some \<lparr>bc_id = i, bc_hash = h, bc_used = u, bc_usedAt = None\<rparr> }"

definition as_completion_codes :: "journal_env \<Rightarrow> json \<Rightarrow> backup_code_set option" where
  "as_completion_codes env v = do {
     kvs \<leftarrow> exact_object [''userId'', ''codes'', ''generatedAt''] [] v;
     userId \<leftarrow> get as_text ''userId'' kvs;
     codes \<leftarrow> get (all_of as_completion_code) ''codes'' kvs;
     generatedAt \<leftarrow> get (as_stamp env) ''generatedAt'' kvs;
     Some \<lparr>bs_userId = userId, bs_codes = codes, bs_generatedAt = generatedAt, bs_lastUsedAt = None\<rparr> }"

definition as_completion :: "journal_env \<Rightarrow> json \<Rightarrow> bootstrap_completion option" where
  "as_completion env v = do {
     kvs \<leftarrow> exact_object [''version'', ''attemptId'', ''completedAt'', ''user'', ''totpSecret'', ''backupCodes'']
       [''profile''] v;
     version \<leftarrow> get as_number ''version'' kvs;
     _ \<leftarrow> expect (version = 1);
     attemptId \<leftarrow> get as_text ''attemptId'' kvs;
     completedAt \<leftarrow> get (as_stamp env) ''completedAt'' kvs;
     profile \<leftarrow> get_optional as_profile ''profile'' kvs;
     user \<leftarrow> get (as_completion_user env) ''user'' kvs;
     factor \<leftarrow> get (as_completion_factor env) ''totpSecret'' kvs;
     codes \<leftarrow> get (as_completion_codes env) ''backupCodes'' kvs;
     Some \<lparr>cp_attemptId = attemptId, cp_completedAt = completedAt, cp_user = user, cp_totpSecret = factor,
       cp_backupCodes = codes, cp_profile = profile\<rparr> }"

definition as_bootstrap_receipt :: "journal_env \<Rightarrow> json \<Rightarrow> bootstrap_receipt option" where
  "as_bootstrap_receipt env v = do {
     kvs \<leftarrow> exact_object [''version'', ''attemptId'', ''userId'', ''handle'', ''completedAt'', ''materialDigest''] [] v;
     version \<leftarrow> get as_number ''version'' kvs;
     _ \<leftarrow> expect (version = 1);
     attemptId \<leftarrow> get as_text ''attemptId'' kvs;
     userId \<leftarrow> get as_text ''userId'' kvs;
     handle \<leftarrow> get as_text ''handle'' kvs;
     completedAt \<leftarrow> get (as_stamp env) ''completedAt'' kvs;
     digest \<leftarrow> get as_text ''materialDigest'' kvs;
     Some \<lparr>rc_attemptId = attemptId, rc_userId = userId, rc_handle = handle, rc_completedAt = completedAt,
       rc_materialDigest = digest\<rparr> }"

definition as_bootstrap_record :: "journal_env \<Rightarrow> json \<Rightarrow> bootstrap_record option" where
  "as_bootstrap_record env v =
     (case v of
        JObj kvs \<Rightarrow>
          (if map_of kvs ''state'' = Some (JStr ''pending'') then map_option Pending (as_pending env v)
           else if map_of kvs ''state'' = Some (JStr ''committed'') then do {
             kvs \<leftarrow> exact_object [''state'', ''referenceDigest'', ''completion'', ''receipt''] [] v;
             digest \<leftarrow> get as_text ''referenceDigest'' kvs;
             completion \<leftarrow> get (as_completion env) ''completion'' kvs;
             receipt \<leftarrow> get (as_bootstrap_receipt env) ''receipt'' kvs;
             Some (Committed digest completion receipt) }
           else if map_of kvs ''state'' = Some (JStr ''applied'') then do {
             kvs \<leftarrow> exact_object [''state'', ''referenceDigest'', ''receipt''] [] v;
             digest \<leftarrow> get as_text ''referenceDigest'' kvs;
             receipt \<leftarrow> get (as_bootstrap_receipt env) ''receipt'' kvs;
             Some (Applied digest receipt) }
           else None)
      | _ \<Rightarrow> None)"

section \<open>The sealed file\<close>

definition invalid_record :: bootstrap_error where
  "invalid_record = BootstrapJournalError BJ_INVALID"

definition open_envelope_text :: "string \<Rightarrow> bootstrap_error + encrypted_data" where
  "open_envelope_text serialized =
     (case json_parse serialized of
        None \<Rightarrow> Inl (External (Error ''SyntaxError''))
      | Some v \<Rightarrow>
          (case do { kvs \<leftarrow> exact_object [''version'', ''encrypted''] [] v;
                     version \<leftarrow> get as_number ''version'' kvs;
                     _ \<leftarrow> expect (version = 1);
                     data \<leftarrow> get as_encrypted ''encrypted'' kvs;
                     _ \<leftarrow> expect (journal_encrypted data);
                     Some data } of
             None \<Rightarrow> Inl invalid_record
           | Some data \<Rightarrow> Inr data))"

definition open_plaintext :: "journal_env \<Rightarrow> string \<Rightarrow> bootstrap_error + bootstrap_record" where
  "open_plaintext env plaintext =
     (case json_parse plaintext of
        None \<Rightarrow> Inl (External (Error ''SyntaxError''))
      | Some v \<Rightarrow>
          (case do { kvs \<leftarrow> exact_object [''domain'', ''scope'', ''record''] [] v;
                     domain \<leftarrow> get as_text ''domain'' kvs;
                     scope \<leftarrow> get as_text ''scope'' kvs;
                     _ \<leftarrow> expect (domain = BOOTSTRAP_DOMAIN \<and> scope = jn_scope env);
                     r \<leftarrow> get (as_bootstrap_record env) ''record'' kvs;
                     _ \<leftarrow> expect (bootstrap_record_ok env r);
                     Some r } of
             None \<Rightarrow> Inl invalid_record
           | Some r \<Rightarrow> Inr r))"

definition open_serialized :: "journal_env \<Rightarrow> string \<Rightarrow> bootstrap_error + bootstrap_record" where
  "open_serialized env serialized =
     (if length (utf8 serialized) > BOOTSTRAP_MAX_BYTES then Inl invalid_record
      else case open_envelope_text serialized of
             Inl e \<Rightarrow> Inl e
           | Inr data \<Rightarrow>
               (case totp_decrypt (jn_gcm env) (jn_key env) data of
                  Inl e \<Rightarrow> Inl (External e)
                | Inr plaintext \<Rightarrow> open_plaintext env plaintext))"

definition readRecord :: "journal_env \<Rightarrow> ('s, bootstrap_record option) boot_op" where
  "readRecord env =
     bind_op (ask (jn_read env)) (\<lambda>answer.
     bind_op (of_external answer) (\<lambda>_ w.
       case bw_file w of
         None \<Rightarrow> (Inr None, w)
       | Some Other_entry \<Rightarrow> (Inl invalid_record, w)
       | Some (Regular_file serialized) \<Rightarrow>
           (case open_serialized env serialized of Inl e \<Rightarrow> Inl e | Inr r \<Rightarrow> Inr (Some r), w)))"

definition record_plaintext :: "journal_env \<Rightarrow> bootstrap_record \<Rightarrow> string" where
  "record_plaintext env r =
     stringify (JObj [(''domain'', JStr BOOTSTRAP_DOMAIN), (''scope'', JStr (jn_scope env)),
                      (''record'', bootstrap_record_json env r)])"

definition serialized_envelope :: "encrypted_data \<Rightarrow> string" where
  "serialized_envelope cipher = stringify (JObj [(''version'', JNum 1), (''encrypted'', encrypted_json cipher)])"

text \<open>\<open>#totp.encrypt\<close> draws the salt and then the initialisation vector.\<close>

definition journal_encrypt :: "journal_env \<Rightarrow> string \<Rightarrow> ('s, encrypted_data) boot_op" where
  "journal_encrypt env text =
     bind_op (ask (jn_random env)) (\<lambda>salt.
     bind_op (ask (jn_random env)) (\<lambda>iv.
       return_op (totp_encrypt (jn_gcm env) (jn_key env) salt iv text)))"

definition journal_decrypt :: "journal_env \<Rightarrow> encrypted_data \<Rightarrow> ('s, string) boot_op" where
  "journal_decrypt env data = of_external (totp_decrypt (jn_gcm env) (jn_key env) data)"

text \<open>Making the directory, writing and syncing the temporary file, the rename and the last sync.\<close>

definition publish_file :: "journal_env \<Rightarrow> string \<Rightarrow> ('s, unit) boot_op" where
  "publish_file env serialized =
     bind_op (ask (jn_publish env)) (\<lambda>outcome w.
       let written = w\<lparr>bw_file := Some (Regular_file serialized)\<rparr>
       in case outcome of
            Journal_published \<Rightarrow> (Inr (), written)
          | Journal_unacknowledged e \<Rightarrow> (Inl (External e), written)
          | Journal_refused e \<Rightarrow> (Inl (External e), w))"

definition writeRecord :: "journal_env \<Rightarrow> bootstrap_record \<Rightarrow> ('s, unit) boot_op" where
  "writeRecord env r =
     bind_op (bj_require (bootstrap_record_ok env r) BJ_INVALID) (\<lambda>_.
       let plaintext = record_plaintext env r in
       bind_op (journal_encrypt env plaintext) (\<lambda>cipher.
       bind_op (bj_require (journal_encrypted cipher) BJ_INVALID) (\<lambda>_.
       bind_op (journal_decrypt env cipher) (\<lambda>back.
       bind_op (bj_require (back = plaintext) BJ_INVALID) (\<lambda>_.
         let serialized = serialized_envelope cipher in
         bind_op (bj_require (length (utf8 serialized) \<le> BOOTSTRAP_MAX_BYTES) BJ_INVALID) (\<lambda>_.
           publish_file env serialized))))))"

section \<open>Reading back what was written\<close>

text \<open>\<open>Date.parse\<close> reads what \<open>toISOString\<close> writes.\<close>

definition dates_read :: "journal_env \<Rightarrow> bool" where
  "dates_read env \<longleftrightarrow> (\<forall>t. \<bar>t\<bar> \<le> 8640000000000000 \<longrightarrow> jn_date env (jn_iso env t) = Some t)"

lemma as_stamp_json:
  assumes "dates_read env" "journal_iso env d"
  shows "as_stamp env (stamp_json env d) = Some d"
proof -
  obtain t where "d = Iso t" "\<bar>t\<bar> \<le> 8640000000000000"
    using assms(2) by (auto simp: journal_iso_def split: stamp.splits)
  then show ?thesis using assms(1) by (simp add: as_stamp_def stamp_json_def dates_read_def)
qed

lemma those_map_Some: "(\<And>x. x \<in> set xs \<Longrightarrow> f (g x) = Some x) \<Longrightarrow> those (map f (map g xs)) = Some xs"
  by (induction xs) auto

lemma all_of_text [simp]: "all_of as_text (JArr (map JStr xs)) = Some xs"
  by (simp add: all_of_def those_map_Some del: map_map)

lemmas decode_simps = exact_object_def get_def get_optional_def expect_def opt_key_def

lemma as_profile_json [simp]: "as_profile (profile_json p) = Some p"
  by (simp add: as_profile_def profile_json_def decode_simps)

lemma as_encrypted_json [simp]: "as_encrypted (encrypted_json v) = Some v"
  by (simp add: as_encrypted_def encrypted_json_def decode_simps)

lemma as_pending_json:
  assumes "dates_read env" "pending_ok env v"
  shows "as_pending env (pending_json env v) = Some v"
proof -
  have "as_stamp env (stamp_json env (pd_createdAt v)) = Some (pd_createdAt v)"
      "as_stamp env (stamp_json env (pd_expiresAt v)) = Some (pd_expiresAt v)"
    using assms by (simp_all add: pending_ok_def as_stamp_json)
  then show ?thesis
    by (cases "pd_profile v") (simp_all add: as_pending_def pending_json_def decode_simps)
qed

lemma as_completion_user_json:
  assumes "dates_read env" "journal_iso env d" "completion_user_ok d u"
  shows "as_completion_user env (completion_user_json env u) = Some u"
proof -
  have "u_createdAt u = d" "u_updatedAt u = d" "u_totpSecretId u = Some (u_handle u)" "completion_user_keys u"
    using assms(3) by (simp_all add: completion_user_ok_def)
  then show ?thesis
    using as_stamp_json [OF assms(1,2)]
    by (simp add: as_completion_user_def completion_user_json_def decode_simps)
      (simp add: completion_user_keys_def)
qed

lemma as_completion_factor_json:
  assumes "dates_read env" "journal_iso env d" "completion_factor_ok d u f"
  shows "as_completion_factor env (completion_factor_json env f) = Some f"
proof -
  obtain n where "ts_createdAt f = d" "ts_lastUsedAt f = Some d" "ts_lastUsedTotpStep f = Some n"
    using assms(3) by (auto simp: completion_factor_ok_def split: option.splits)
  then show ?thesis
    using as_stamp_json [OF assms(1,2)]
    by (simp add: as_completion_factor_def completion_factor_json_def decode_simps)
qed

lemma completion_codes_loop_iff:
  "completion_codes_loop ids cs \<longleftrightarrow>
     list_all (\<lambda>c. bc_usedAt c = None \<and> journal_text 128 (bc_id c) \<and> is_sha256_hex (bc_hash c) \<and> \<not> bc_used c) cs
     \<and> distinct (map bc_id cs) \<and> set (map bc_id cs) \<inter> set ids = {}"
  by (induction cs arbitrary: ids) auto

lemma as_completion_codes_json:
  assumes "dates_read env" "journal_iso env d" "completion_codes_ok d u cs"
  shows "as_completion_codes env (completion_codes_json env cs) = Some cs"
proof -
  have "as_completion_code (completion_code_json c) = Some c" if "c \<in> set (bs_codes cs)" for c
    using assms(3) that
    by (simp add: completion_codes_ok_def completion_codes_loop_iff list_all_iff as_completion_code_def
        completion_code_json_def decode_simps)
  then have "all_of as_completion_code (JArr (map completion_code_json (bs_codes cs))) = Some (bs_codes cs)"
    by (simp add: all_of_def those_map_Some del: map_map)
  moreover have "bs_generatedAt cs = d" "bs_lastUsedAt cs = None" using assms(3) by (simp_all add: completion_codes_ok_def)
  ultimately show ?thesis
    using as_stamp_json [OF assms(1,2)]
    by (simp add: as_completion_codes_def completion_codes_json_def decode_simps)
qed

lemma as_completion_json:
  assumes "dates_read env" "completion_ok env v"
  shows "as_completion env (completion_json env v) = Some v"
proof -
  have parts: "journal_iso env (cp_completedAt v)" "completion_user_ok (cp_completedAt v) (cp_user v)"
      "completion_factor_ok (cp_completedAt v) (cp_user v) (cp_totpSecret v)"
      "completion_codes_ok (cp_completedAt v) (cp_user v) (cp_backupCodes v)"
    using assms(2) by (simp_all add: completion_ok_def)
  note read = as_stamp_json [OF assms(1) parts(1)] as_completion_user_json [OF assms(1) parts(1,2)]
    as_completion_factor_json [OF assms(1) parts(1,3)] as_completion_codes_json [OF assms(1) parts(1,4)]
  show ?thesis
    by (cases "cp_profile v") (simp_all add: as_completion_def completion_json_def decode_simps read)
qed

lemma as_bootstrap_receipt_json:
  assumes "dates_read env" "bootstrap_receipt_ok env r"
  shows "as_bootstrap_receipt env (bootstrap_receipt_json env r) = Some r"
  using as_stamp_json [OF assms(1), of "rc_completedAt r"] assms(2)
  by (simp add: bootstrap_receipt_ok_def as_bootstrap_receipt_def bootstrap_receipt_json_def decode_simps)

lemma as_bootstrap_record_json:
  assumes "dates_read env" "bootstrap_record_ok env r"
  shows "as_bootstrap_record env (bootstrap_record_json env r) = Some r"
proof (cases r)
  case (Pending v)
  then have "as_pending env (pending_json env v) = Some v" using assms by (simp add: as_pending_json)
  then show ?thesis by (simp add: Pending as_bootstrap_record_def pending_json_def)
next
  case (Committed d c x)
  then show ?thesis
    using assms by (simp add: as_bootstrap_record_def decode_simps as_completion_json as_bootstrap_receipt_json)
next
  case (Applied d x)
  then show ?thesis
    using assms by (simp add: as_bootstrap_record_def decode_simps as_bootstrap_receipt_json)
qed

text \<open>Every object the journal writes has each of its keys once.\<close>

lemma plain_profile: "plain_json (profile_json p)"
  by (simp add: profile_json_def)

lemma plain_stamp [simp]: "plain_json (stamp_json env d)"
  by (simp add: stamp_json_def)

lemma plain_encrypted: "plain_json (encrypted_json v)"
  by (simp add: encrypted_json_def)

lemma plain_pending: "plain_json (pending_json env v)"
  by (cases "pd_profile v") (simp_all add: pending_json_def opt_key_def plain_profile list_all_iff)

lemma plain_completion: "plain_json (completion_json env v)"
  by (cases "cp_profile v")
    (simp_all add: completion_json_def completion_user_json_def completion_factor_json_def completion_codes_json_def
      completion_code_json_def opt_key_def plain_profile list_all_iff)

lemma plain_receipt: "plain_json (bootstrap_receipt_json env r)"
  by (simp add: bootstrap_receipt_json_def)

lemma plain_record: "plain_json (bootstrap_record_json env r)"
  by (cases r) (simp_all add: plain_pending plain_completion plain_receipt)

lemma open_plaintext_record:
  assumes "dates_read env" "bootstrap_record_ok env r"
  shows "open_plaintext env (record_plaintext env r) = Inr r"
proof -
  have "json_parse (record_plaintext env r) = Some (JObj [(''domain'', JStr BOOTSTRAP_DOMAIN),
      (''scope'', JStr (jn_scope env)), (''record'', bootstrap_record_json env r)])"
    unfolding record_plaintext_def by (rule json_parse_stringify) (simp add: plain_record)
  then show ?thesis
    using assms by (simp add: open_plaintext_def decode_simps as_bootstrap_record_json)
qed

lemma open_envelope_serialized:
  assumes "journal_encrypted cipher"
  shows "open_envelope_text (serialized_envelope cipher) = Inr cipher"
proof -
  have "json_parse (serialized_envelope cipher) = Some (JObj [(''version'', JNum 1), (''encrypted'', encrypted_json cipher)])"
    unfolding serialized_envelope_def by (rule json_parse_stringify) (simp add: plain_encrypted)
  then show ?thesis using assms by (simp add: open_envelope_text_def decode_simps)
qed

end
