(* ===== verification/File_Bootstrap.thy ===== *)
theory File_Bootstrap
  imports Bootstrap_Journal
begin

text \<open>
  The coordinator of \<open>src/storage/file-bootstrap.ts\<close>: every operation of
  \<open>FileBootstrapCoordinator\<close> over any storage. The storage reads, the projection and the optional
  hooks are arguments, and so are otplib, the QR code and the random values. The exclusive gate
  makes a call atomic with respect to the other calls. \<open>copy\<close> is the identity on the records.
\<close>

section \<open>Configuration\<close>

record 's coordinator =
  co_env :: journal_env
  co_getAllUsers :: "('s, admin_user list) op"
  co_getTOTPSecret :: "string \<Rightarrow> ('s, encrypted_totp_secret option) op"
  co_getBackupCodes :: "string \<Rightarrow> ('s, backup_code_set option) op"
  co_assertNamespaceAvailable :: "(string \<Rightarrow> ('s, unit) op) option"
  co_project :: "bootstrap_completion \<Rightarrow> ('s, unit) op"
  co_beforeComplete :: "('s, unit) op option"
  co_check :: otp_check
  co_authenticator :: authenticator_config
  co_epoch :: "nat \<Rightarrow> int"
  co_generateSecret :: "nat \<Rightarrow> string result"
  co_generateQRCode :: "string \<Rightarrow> string \<Rightarrow> string result"
  co_randomUUID :: "nat \<Rightarrow> string"
  co_codeBytes :: "nat \<Rightarrow> (8 word \<times> 8 word \<times> 8 word \<times> 8 word) list"
  co_codeIds :: "nat \<Rightarrow> string list"

text \<open>The checks of the constructor; the answer is the bound service and the time to live.\<close>

definition newFileBootstrapCoordinator ::
  "string \<Rightarrow> string \<Rightarrow> service_value \<Rightarrow> int option \<Rightarrow> bootstrap_error + totp_service \<times> int" where
  "newFileBootstrapCoordinator directory scope totp ttlMs =
     (if \<not> journal_text 4096 directory \<or> \<not> journal_text 200 scope then Inl invalid_record
      else case bindTrustedTOTPService totp of
             Inl e \<Rightarrow> Inl invalid_record
           | Inr service \<Rightarrow>
               let ttl = nullish ttlMs MAX_TTL in
               if \<not> isSafeInteger ttl \<or> ttl \<le> 0 \<or> ttl > MAX_TTL then Inl invalid_record
               else Inr (service, ttl))"

record bootstrap_setup =
  bse_reference :: string
  bse_attemptId :: string
  bse_handle :: string
  bse_expiresAt :: stamp
  bse_secret :: string
  bse_qrCodeUrl :: string
  bse_backupCodes :: "string list"
  bse_backupCodesAcknowledged :: bool
  bse_profile :: "journal_profile option"

definition bytes_hex :: "nat list \<Rightarrow> string" where
  "bytes_hex bs = concat (map (\<lambda>b. [hex_digit (b div 16), hex_digit (b mod 16)]) bs)"

section \<open>Checks shared by the operations\<close>

definition journal_now :: "'s coordinator \<Rightarrow> ('s, int) boot_op" where
  "journal_now co = ask (jn_clock (co_env co))"

definition namespaceAvailable :: "'s coordinator \<Rightarrow> string \<Rightarrow> ('s, unit) boot_op" where
  "namespaceAvailable co handle =
     (case co_assertNamespaceAvailable co of
        None \<Rightarrow> return_op ()
      | Some f \<Rightarrow> catch_op (in_storage (f handle)) (\<lambda>_. bj_fail BJ_CONFLICT))"

text \<open>The clock is read once more when the first reading is not before the start.\<close>

definition unexpired :: "'s coordinator \<Rightarrow> bootstrap_pending \<Rightarrow> ('s, unit) boot_op" where
  "unexpired co p =
     bind_op (journal_now co) (\<lambda>t.
       if after (pd_createdAt p) t then bj_fail BJ_EXPIRED
       else bind_op (journal_now co) (\<lambda>t'. bj_require (\<not> at_or_before (pd_expiresAt p) t') BJ_EXPIRED))"

definition bound_reference :: "'s coordinator \<Rightarrow> string \<Rightarrow> string \<Rightarrow> ('s, unit) boot_op" where
  "bound_reference co digest reference =
     bind_op (of_result (referenceDigest (co_env co) reference)) (\<lambda>d. bj_require (digest = d) BJ_UNAUTHORIZED)"

definition no_users :: "'s coordinator \<Rightarrow> ('s, unit) boot_op" where
  "no_users co = bind_op (in_storage (co_getAllUsers co)) (\<lambda>users. bj_require (users = []) BJ_CONFLICT)"

definition no_material :: "'s coordinator \<Rightarrow> bootstrap_pending \<Rightarrow> ('s, unit) boot_op" where
  "no_material co p =
     bind_op (in_storage (co_getTOTPSecret co (pd_handle p))) (\<lambda>factor.
       if factor \<noteq> None then bj_fail BJ_CONFLICT
       else bind_op (in_storage (co_getBackupCodes co (pd_userId p))) (\<lambda>codes. bj_require (codes = None) BJ_CONFLICT))"

definition empty :: "'s coordinator \<Rightarrow> bootstrap_pending option \<Rightarrow> ('s, unit) boot_op" where
  "empty co candidate =
     bind_op (no_users co) (\<lambda>_. case candidate of None \<Rightarrow> return_op () | Some p \<Rightarrow> no_material co p)"

text \<open>The frequent pair of checks.\<close>

definition still_free :: "'s coordinator \<Rightarrow> bootstrap_pending \<Rightarrow> ('s, unit) boot_op" where
  "still_free co p = bind_op (empty co (Some p)) (\<lambda>_. unexpired co p)"

definition pending_attempt :: "'s coordinator \<Rightarrow> string \<Rightarrow> ('s, bootstrap_pending) boot_op" where
  "pending_attempt co reference =
     bind_op (of_result (referenceDigest (co_env co) reference)) (\<lambda>_.
     bind_op (readRecord (co_env co)) (\<lambda>value.
       case value of
         Some (Pending p) \<Rightarrow>
           bind_op (bound_reference co (pd_referenceDigest p) reference) (\<lambda>_.
           bind_op (still_free co p) (\<lambda>_. return_op p))
       | _ \<Rightarrow> bj_fail BJ_UNAUTHORIZED))"

definition setup_of :: "'s coordinator \<Rightarrow> bootstrap_pending \<Rightarrow> string \<Rightarrow> ('s, bootstrap_setup) boot_op" where
  "setup_of co p reference =
     bind_op (of_external (co_generateQRCode co (pd_handle p) (pd_secret p))) (\<lambda>qrCodeUrl.
       return_op \<lparr>bse_reference = reference, bse_attemptId = pd_attemptId p, bse_handle = pd_handle p,
         bse_expiresAt = pd_expiresAt p, bse_secret = pd_secret p, bse_qrCodeUrl = qrCodeUrl,
         bse_backupCodes = pd_backupCodes p, bse_backupCodesAcknowledged = pd_backupCodesAcknowledged p,
         bse_profile = pd_profile p\<rparr>)"

section \<open>Applying a committed completion\<close>

text \<open>\<open>checkProjection\<close>: the account, the factor and the codes, in this order.\<close>

definition projected_user :: "admin_user \<Rightarrow> admin_user \<Rightarrow> bool" where
  "projected_user frozen u \<longleftrightarrow>
     u_id u = u_id frozen \<and> u_handle u = u_handle frozen \<and> u_passwordHash u = u_passwordHash frozen
     \<and> u_role u = u_role frozen \<and> u_isActive u = u_isActive frozen \<and> u_totpEnabled u = u_totpEnabled frozen
     \<and> u_totpSecretId u = u_totpSecretId frozen \<and> u_needsOnboarding u = u_needsOnboarding frozen
     \<and> u_onboardingStep u = u_onboardingStep frozen \<and> u_createdAt u = u_createdAt frozen
     \<and> u_isLocked u \<noteq> Some True \<and> u_firstLogin u \<noteq> Some True \<and> \<not> u_ownRemovedAt u \<and> \<not> u_ownRemovedBy u"

definition check_user :: "'s coordinator \<Rightarrow> bootstrap_completion \<Rightarrow> bool \<Rightarrow> ('s, bool) boot_op" where
  "check_user co v finished =
     bind_op (in_storage (co_getAllUsers co)) (\<lambda>users.
       case users of
         [] \<Rightarrow> if finished then bj_fail BJ_CONFLICT else return_op False
       | [u] \<Rightarrow> if projected_user (cp_user v) u then return_op True else bj_fail BJ_CONFLICT
       | _ \<Rightarrow> bj_fail BJ_CONFLICT)"

definition projected_factor :: "encrypted_totp_secret \<Rightarrow> encrypted_totp_secret \<Rightarrow> bool" where
  "projected_factor frozen f \<longleftrightarrow>
     ts_userId f = ts_userId frozen \<and> ts_handle f = ts_handle frozen \<and> ts_encryptedSecret f = ts_encryptedSecret frozen
     \<and> ts_iv f = ts_iv frozen \<and> ts_authTag f = ts_authTag frozen \<and> ts_salt f = ts_salt frozen
     \<and> ts_createdAt f = ts_createdAt frozen \<and> ts_backupCodesGenerated f = ts_backupCodesGenerated frozen
     \<and> ts_version f = ts_version frozen
     \<and> (case ts_lastUsedTotpStep f of
          None \<Rightarrow> False
        | Some n \<Rightarrow> isSafeInteger n \<and> (case ts_lastUsedTotpStep frozen of None \<Rightarrow> True | Some m \<Rightarrow> \<not> n < m))"

definition check_factor :: "'s coordinator \<Rightarrow> bootstrap_completion \<Rightarrow> bool \<Rightarrow> ('s, unit) boot_op" where
  "check_factor co v required =
     bind_op (in_storage (co_getTOTPSecret co (u_handle (cp_user v)))) (\<lambda>factor.
       case factor of
         None \<Rightarrow> bj_require (\<not> required) BJ_CONFLICT
       | Some f \<Rightarrow>
           bind_op (bj_require (projected_factor (cp_totpSecret v) f) BJ_CONFLICT) (\<lambda>_.
             bj_require (optional_ok (journal_iso (co_env co)) (ts_lastUsedAt f)) BJ_INVALID))"

text \<open>The loop over the frozen codes: every one is still there, and its use has a time.\<close>

fun check_each_code ::
  "'s coordinator \<Rightarrow> encrypted_backup_code list \<Rightarrow> encrypted_backup_code list \<Rightarrow> ('s, unit) boot_op" where
  "check_each_code co stored [] = return_op ()"
| "check_each_code co stored (code # cs) =
     (case List.find (\<lambda>item. bc_id item = bc_id code) stored of
        None \<Rightarrow> bj_fail BJ_CONFLICT
      | Some existing \<Rightarrow>
          if bc_hash existing \<noteq> bc_hash code then bj_fail BJ_CONFLICT
          else bind_op (bj_require (optional_ok (journal_iso (co_env co)) (bc_usedAt existing)) BJ_INVALID) (\<lambda>_.
                 check_each_code co stored cs))"

definition check_codes :: "'s coordinator \<Rightarrow> bootstrap_completion \<Rightarrow> bool \<Rightarrow> ('s, unit) boot_op" where
  "check_codes co v required =
     bind_op (in_storage (co_getBackupCodes co (u_id (cp_user v)))) (\<lambda>codes.
       case codes of
         None \<Rightarrow> bj_require (\<not> required) BJ_CONFLICT
       | Some cs \<Rightarrow>
           bind_op (bj_require (bs_userId cs = u_id (cp_user v) \<and> bs_generatedAt cs = bs_generatedAt (cp_backupCodes v)
               \<and> length (bs_codes cs) = length (bs_codes (cp_backupCodes v)) \<and> distinct (map bc_id (bs_codes cs)))
               BJ_CONFLICT) (\<lambda>_.
           bind_op (check_each_code co (bs_codes cs) (bs_codes (cp_backupCodes v))) (\<lambda>_.
             bj_require (optional_ok (journal_iso (co_env co)) (bs_lastUsedAt cs)) BJ_INVALID)))"

definition checkProjection :: "'s coordinator \<Rightarrow> bootstrap_completion \<Rightarrow> bool \<Rightarrow> ('s, unit) boot_op" where
  "checkProjection co v finished =
     bind_op (check_user co v finished) (\<lambda>user.
     bind_op (check_factor co v (finished \<or> user)) (\<lambda>_.
       check_codes co v (finished \<or> user)))"

definition bootstrap_apply ::
  "'s coordinator \<Rightarrow> string \<Rightarrow> bootstrap_completion \<Rightarrow> bootstrap_receipt \<Rightarrow> ('s, unit) boot_op" where
  "bootstrap_apply co digest completion receipt =
     catch_op
       (bind_op (journal_decrypt (co_env co) (factor_data (cp_totpSecret completion))) (\<lambda>secret.
        bind_op (bj_require (journal_text 1024 secret) BJ_INVALID) (\<lambda>_.
        bind_op (checkProjection co completion False) (\<lambda>_.
        bind_op (in_storage (co_project co completion)) (\<lambda>_.
        bind_op (checkProjection co completion True) (\<lambda>_.
          writeRecord (co_env co) (Applied digest receipt)))))))
       (\<lambda>_. bj_fail BJ_RECOVERY_REQUIRED)"

definition recoverUnsafe :: "'s coordinator \<Rightarrow> ('s, unit) boot_op" where
  "recoverUnsafe co =
     catch_op
       (bind_op (readRecord (co_env co)) (\<lambda>value.
          case value of
            None \<Rightarrow> return_op ()
          | Some r \<Rightarrow>
              bind_op (ask (jn_sync (co_env co))) (\<lambda>synced.
              bind_op (of_external synced) (\<lambda>_.
                case r of
                  Committed digest completion receipt \<Rightarrow> bootstrap_apply co digest completion receipt
                | _ \<Rightarrow> return_op ()))))
       (\<lambda>_. bj_fail BJ_RECOVERY_REQUIRED)"

section \<open>Operations\<close>

definition bootstrap_recover :: "'s coordinator \<Rightarrow> ('s, unit) boot_op" where
  "bootstrap_recover co = recoverUnsafe co"

text \<open>A journal that is absent or whose attempt has run out gives way to a new one.\<close>

definition superseded :: "'s coordinator \<Rightarrow> bootstrap_record option \<Rightarrow> ('s, unit) boot_op" where
  "superseded co prior =
     (case prior of
        None \<Rightarrow> return_op ()
      | Some (Pending p) \<Rightarrow> bind_op (journal_now co) (\<lambda>t. bj_require (\<not> after (pd_expiresAt p) t) BJ_CONFLICT)
      | Some _ \<Rightarrow> bj_fail BJ_CONFLICT)"

definition assertAvailable :: "'s coordinator \<Rightarrow> ('s, unit) boot_op" where
  "assertAvailable co =
     bind_op (recoverUnsafe co) (\<lambda>_.
     bind_op (readRecord (co_env co)) (\<lambda>prior.
     bind_op (superseded co prior) (\<lambda>_.
       empty co None)))"

record begin_input =
  bi_handle :: string
  bi_passwordHash :: string
  bi_profile :: "journal_profile option"

definition requested_input :: "begin_input \<Rightarrow> begin_input" where
  "requested_input input = input\<lparr>bi_handle := toLowerCase (js_trim (bi_handle input))\<rparr>"

definition begin_input_ok :: "begin_input \<Rightarrow> bool" where
  "begin_input_ok input \<longleftrightarrow>
     journal_text 128 (bi_handle input) \<and> journal_handle (bi_handle (requested_input input))
     \<and> journal_passwordHash (bi_passwordHash input) \<and> optional_ok journal_profile_ok (bi_profile input)"

text \<open>The pending record of a new attempt and its reference. The values are drawn in this order.\<close>

definition new_attempt :: "'s coordinator \<Rightarrow> begin_input \<Rightarrow> ('s, bootstrap_pending \<times> string) boot_op" where
  "new_attempt co requested =
     bind_op (journal_now co) (\<lambda>createdAt.
     bind_op (ask (jn_random (co_env co))) (\<lambda>bytes.
     let reference = bytes_hex bytes in
     bind_op (ask (co_generateSecret co)) (\<lambda>generated.
     bind_op (of_external generated) (\<lambda>secret.
     bind_op (ask (jn_random (co_env co))) (\<lambda>attempt.
     bind_op (of_result (referenceDigest (co_env co) reference)) (\<lambda>digest.
     bind_op (ask (co_randomUUID co)) (\<lambda>userId.
     bind_op (ask (co_codeBytes co)) (\<lambda>draws.
       return_op (\<lparr>pd_attemptId = bytes_hex attempt, pd_referenceDigest = digest, pd_userId = userId,
             pd_handle = bi_handle requested, pd_passwordHash = bi_passwordHash requested, pd_secret = secret,
             pd_backupCodes = generateBackupCodes (take 10 draws), pd_backupCodesAcknowledged = False,
             pd_createdAt = Iso createdAt, pd_expiresAt = Iso (createdAt + jn_ttl (co_env co)),
             pd_profile = bi_profile requested\<rparr>, reference)))))))))"

definition bootstrap_begin :: "'s coordinator \<Rightarrow> begin_input \<Rightarrow> ('s, bootstrap_setup) boot_op" where
  "bootstrap_begin co input =
     bind_op (bj_require (begin_input_ok input) BJ_INVALID) (\<lambda>_.
     let requested = requested_input input in
     bind_op (recoverUnsafe co) (\<lambda>_.
     bind_op (readRecord (co_env co)) (\<lambda>prior.
     bind_op (superseded co prior) (\<lambda>_.
     bind_op (empty co None) (\<lambda>_.
     bind_op (namespaceAvailable co (bi_handle requested)) (\<lambda>_.
     bind_op (new_attempt co requested) (\<lambda>(p, reference).
     bind_op (bj_require (bootstrap_record_ok (co_env co) (Pending p)) BJ_INVALID) (\<lambda>_.
     bind_op (setup_of co p reference) (\<lambda>setup.
     bind_op (namespaceAvailable co (pd_handle p)) (\<lambda>_.
     bind_op (still_free co p) (\<lambda>_.
     bind_op (writeRecord (co_env co) (Pending p)) (\<lambda>_.
     bind_op (still_free co p) (\<lambda>_.
       return_op setup)))))))))))))"

definition bootstrap_read :: "'s coordinator \<Rightarrow> string \<Rightarrow> ('s, bootstrap_setup) boot_op" where
  "bootstrap_read co reference =
     bind_op (recoverUnsafe co) (\<lambda>_.
     bind_op (pending_attempt co reference) (\<lambda>p.
     bind_op (setup_of co p reference) (\<lambda>setup.
     bind_op (still_free co p) (\<lambda>_.
       return_op setup))))"

definition bootstrap_updateProfile :: "'s coordinator \<Rightarrow> string \<Rightarrow> journal_profile \<Rightarrow> ('s, unit) boot_op" where
  "bootstrap_updateProfile co reference requested =
     bind_op (bj_require (journal_profile_ok requested) BJ_INVALID) (\<lambda>_.
     bind_op (recoverUnsafe co) (\<lambda>_.
     bind_op (pending_attempt co reference) (\<lambda>p.
     let p' = p\<lparr>pd_profile := Some requested\<rparr> in
     bind_op (still_free co p') (\<lambda>_.
     bind_op (writeRecord (co_env co) (Pending p')) (\<lambda>_.
       still_free co p')))))"

definition acknowledgeBackupCodes :: "'s coordinator \<Rightarrow> string \<Rightarrow> ('s, unit) boot_op" where
  "acknowledgeBackupCodes co reference =
     bind_op (recoverUnsafe co) (\<lambda>_.
     bind_op (pending_attempt co reference) (\<lambda>p.
     if pd_backupCodesAcknowledged p then return_op ()
     else
       let acknowledged = p\<lparr>pd_backupCodesAcknowledged := True\<rparr> in
       bind_op (still_free co acknowledged) (\<lambda>_.
       bind_op (writeRecord (co_env co) (Pending acknowledged)) (\<lambda>_.
         still_free co acknowledged))))"

text \<open>The pattern \<open>^\d{6}$\<close>, and the verification against the pending secret.\<close>

definition is_totp_token :: "string \<Rightarrow> bool" where
  "is_totp_token token \<longleftrightarrow> length token = 6 \<and> list_all is_digit token"

definition attempt_secret :: "bootstrap_pending \<Rightarrow> totp_secret" where
  "attempt_secret p =
     \<lparr>tot_handle = pd_handle p, tot_email = None, tot_secret = pd_secret p, tot_qrCodeUrl = None,
      tot_createdAt = nullish (date_parse (pd_createdAt p)) 0\<rparr>"

definition verified_step :: "'s coordinator \<Rightarrow> bootstrap_pending \<Rightarrow> string \<Rightarrow> ('s, int) boot_op" where
  "verified_step co p token =
     bind_op (ask (co_epoch co)) (\<lambda>epoch.
     bind_op (journal_now co) (\<lambda>nowMs.
     bind_op (of_external (totp_verifyTokenWithStep (co_check co) (co_authenticator co) 0 epoch nowMs
         (Some (attempt_secret p)) token None)) (\<lambda>(valid, step).
       case step of
         None \<Rightarrow> bj_fail BJ_INVALID
       | Some n \<Rightarrow> if \<not> valid \<or> \<not> isSafeInteger n \<or> n < 0 then bj_fail BJ_INVALID else return_op n)))"

definition completion_of ::
  "journal_env \<Rightarrow> bootstrap_pending \<Rightarrow> encrypted_data \<Rightarrow> stamp \<Rightarrow> int \<Rightarrow> string list \<Rightarrow> bootstrap_completion" where
  "completion_of env p cipher completedAt step ids =
     \<lparr>cp_attemptId = pd_attemptId p, cp_completedAt = completedAt,
      cp_user = blank_user\<lparr>u_id := pd_userId p, u_handle := pd_handle p, u_passwordHash := pd_passwordHash p,
        u_role := ''super_admin'', u_isActive := True, u_totpEnabled := True, u_totpSecretId := Some (pd_handle p),
        u_needsOnboarding := False, u_onboardingStep := 0, u_createdAt := completedAt, u_updatedAt := completedAt\<rparr>,
      cp_totpSecret = \<lparr>ts_userId = pd_userId p, ts_handle = pd_handle p, ts_encryptedSecret = en_encrypted cipher,
        ts_iv = en_iv cipher, ts_authTag = en_tag cipher, ts_salt = en_salt cipher, ts_createdAt = completedAt,
        ts_lastUsedAt = Some completedAt, ts_lastUsedTotpStep = Some step, ts_backupCodesGenerated = True, ts_version = 1\<rparr>,
      cp_backupCodes = (createBackupCodeSet (jn_sha256 env) 0 ids (pd_userId p) (pd_backupCodes p))
        \<lparr>bs_generatedAt := completedAt\<rparr>,
      cp_profile = pd_profile p\<rparr>"

definition receipt_of :: "journal_env \<Rightarrow> bootstrap_completion \<Rightarrow> bootstrap_receipt" where
  "receipt_of env c =
     \<lparr>rc_attemptId = cp_attemptId c, rc_userId = u_id (cp_user c), rc_handle = u_handle (cp_user c),
      rc_completedAt = cp_completedAt c, rc_materialDigest = materialDigest env c\<rparr>"

text \<open>The part of \<open>complete\<close> after the verification of the code: freezing the completion, then
  committing and applying it.\<close>

definition sealed_secret :: "'s coordinator \<Rightarrow> bootstrap_pending \<Rightarrow> ('s, encrypted_data) boot_op" where
  "sealed_secret co p =
     bind_op (journal_encrypt (co_env co) (pd_secret p)) (\<lambda>cipher.
     bind_op (journal_decrypt (co_env co) cipher) (\<lambda>plain.
     bind_op (bj_require (plain = pd_secret p) BJ_INVALID) (\<lambda>_.
       return_op cipher)))"

definition new_completion :: "'s coordinator \<Rightarrow> bootstrap_pending \<Rightarrow> int \<Rightarrow> ('s, bootstrap_completion) boot_op" where
  "new_completion co p step =
     bind_op (sealed_secret co p) (\<lambda>cipher.
     bind_op (journal_now co) (\<lambda>now.
     bind_op (ask (co_codeIds co)) (\<lambda>ids.
       return_op (completion_of (co_env co) p cipher (Iso now) step ids))))"

definition publish_completion ::
  "'s coordinator \<Rightarrow> bootstrap_pending \<Rightarrow> bootstrap_completion \<Rightarrow> ('s, bootstrap_receipt) boot_op" where
  "publish_completion co p completion =
     (let receipt = receipt_of (co_env co) completion;
          committed = Committed (pd_referenceDigest p) completion receipt in
      bind_op (bj_require (bootstrap_record_ok (co_env co) committed) BJ_INVALID) (\<lambda>_.
      bind_op (namespaceAvailable co (pd_handle p)) (\<lambda>_.
      bind_op (still_free co p) (\<lambda>_.
      bind_op (writeRecord (co_env co) committed) (\<lambda>_.
      bind_op (bootstrap_apply co (pd_referenceDigest p) completion receipt) (\<lambda>_.
        return_op receipt))))))"

definition commit_attempt :: "'s coordinator \<Rightarrow> bootstrap_pending \<Rightarrow> int \<Rightarrow> ('s, bootstrap_receipt) boot_op" where
  "commit_attempt co p step =
     bind_op (still_free co p) (\<lambda>_.
     bind_op (new_completion co p step) (\<lambda>completion.
       publish_completion co p completion))"

definition before_complete :: "'s coordinator \<Rightarrow> ('s, unit) boot_op" where
  "before_complete co = (case co_beforeComplete co of None \<Rightarrow> return_op () | Some deny \<Rightarrow> in_storage deny)"

definition bootstrap_complete :: "'s coordinator \<Rightarrow> string \<Rightarrow> string \<Rightarrow> ('s, bootstrap_receipt) boot_op" where
  "bootstrap_complete co reference token =
     bind_op (recoverUnsafe co) (\<lambda>_.
     bind_op (readRecord (co_env co)) (\<lambda>prior.
     case prior of
       Some (Applied digest receipt) \<Rightarrow>
         bind_op (bound_reference co digest reference) (\<lambda>_. return_op receipt)
     | _ \<Rightarrow>
         bind_op (pending_attempt co reference) (\<lambda>p.
         bind_op (bj_require (pd_backupCodesAcknowledged p) BJ_INVALID) (\<lambda>_.
         bind_op (bj_require (is_totp_token token) BJ_INVALID) (\<lambda>_.
         bind_op (before_complete co) (\<lambda>_.
         bind_op (verified_step co p token) (\<lambda>step.
           commit_attempt co p step)))))))"

end
