(* ===== verification/Bootstrap_Protocol.thy ===== *)
theory Bootstrap_Protocol
  imports File_Bootstrap Triples
begin

text \<open>
  The life of a bootstrap as a step relation on what the journal says and what is stored, the
  contract of the storage the coordinator reads, and the proof that every operation only takes
  steps of the relation, whatever fails on the way.
\<close>

section \<open>The steps\<close>

text \<open>What a read of the journal answers, and the state of the protocol.\<close>

definition entry_view :: "journal_env \<Rightarrow> journal_entry option \<Rightarrow> bootstrap_error + bootstrap_record option" where
  "entry_view env entry =
     (case entry of
        None \<Rightarrow> Inr None
      | Some Other_entry \<Rightarrow> Inl invalid_record
      | Some (Regular_file s) \<Rightarrow> (case open_serialized env s of Inl e \<Rightarrow> Inl e | Inr r \<Rightarrow> Inr (Some r)))"

type_synonym 's phase = "(bootstrap_error + bootstrap_record option) \<times> 's"

definition phase :: "'s coordinator \<Rightarrow> 's boot_world \<Rightarrow> 's phase" where
  "phase co w = (entry_view (co_env co) (bw_file w), bw_store w)"

text \<open>A code that otplib accepts for the pending secret, and the step it stands for.\<close>

definition code_verified :: "'s coordinator \<Rightarrow> bootstrap_pending \<Rightarrow> string \<Rightarrow> int \<Rightarrow> bool" where
  "code_verified co p token step \<longleftrightarrow>
     is_totp_token token \<and> 0 \<le> step
     \<and> (\<exists>epoch nowMs delta.
          co_check co (pd_secret p) token (ac_digits (co_authenticator co)) (ac_step (co_authenticator co))
            (epochTolerance (co_authenticator co)) epoch = Inr (Some delta)
          \<and> step = currentStepFor (co_authenticator co) nowMs + delta)"

text \<open>The completion of an attempt: its secret is sealed in the factor.\<close>

definition completes :: "'s coordinator \<Rightarrow> bootstrap_pending \<Rightarrow> int \<Rightarrow> bootstrap_completion \<Rightarrow> bool" where
  "completes co p step c \<longleftrightarrow>
     (\<exists>cipher completedAt ids.
        c = completion_of (co_env co) p cipher completedAt step ids
        \<and> totp_decrypt (jn_gcm (co_env co)) (jn_key (co_env co)) cipher = Inr (pd_secret p))"

text \<open>The storage holds the completion: its account alone, its factor and its codes.\<close>

definition projected :: "'s coordinator \<Rightarrow> bootstrap_completion \<Rightarrow> 's \<Rightarrow> bool" where
  "projected co c s \<longleftrightarrow>
     (\<exists>u. co_getAllUsers co s = (Inr [u], s) \<and> projected_user (cp_user c) u)
     \<and> (\<exists>f. co_getTOTPSecret co (u_handle (cp_user c)) s = (Inr (Some f), s) \<and> projected_factor (cp_totpSecret c) f)
     \<and> (\<exists>cs. co_getBackupCodes co (u_id (cp_user c)) s = (Inr (Some cs), s)
          \<and> list_all (\<lambda>code. \<exists>item \<in> set (bs_codes cs). bc_id item = bc_id code \<and> bc_hash item = bc_hash code)
              (bs_codes (cp_backupCodes c)))"

definition nothing_stored :: "'s coordinator \<Rightarrow> bootstrap_pending \<Rightarrow> 's \<Rightarrow> bool" where
  "nothing_stored co p s \<longleftrightarrow>
     co_getAllUsers co s = (Inr [], s) \<and> co_getTOTPSecret co (pd_handle p) s = (Inr None, s)
     \<and> co_getBackupCodes co (pd_userId p) s = (Inr None, s)"

text \<open>A clock reading at which an attempt had not run out, or had.\<close>

definition was_live :: "'s coordinator \<Rightarrow> bootstrap_pending \<Rightarrow> bool" where
  "was_live co p \<longleftrightarrow> (\<exists>n. \<not> at_or_before (pd_expiresAt p) (jn_clock (co_env co) n))"

definition was_expired :: "'s coordinator \<Rightarrow> bootstrap_pending \<Rightarrow> bool" where
  "was_expired co p \<longleftrightarrow> (\<exists>n. \<not> after (pd_expiresAt p) (jn_clock (co_env co) n))"

inductive bootstrap_step :: "'s coordinator \<Rightarrow> 's phase \<Rightarrow> 's phase \<Rightarrow> bool" for co where
  Start: "prior = None \<or> (\<exists>p. prior = Some (Pending p) \<and> was_expired co p) \<Longrightarrow> pending_ok (co_env co) new
    \<Longrightarrow> \<not> pd_backupCodesAcknowledged new \<Longrightarrow> nothing_stored co new s
    \<Longrightarrow> bootstrap_step co (Inr prior, s) (Inr (Some (Pending new)), s)"
| Edit: "nothing_stored co p s \<Longrightarrow>
    bootstrap_step co (Inr (Some (Pending p)), s) (Inr (Some (Pending (p\<lparr>pd_profile := Some profile\<rparr>))), s)"
| Acknowledge: "nothing_stored co p s \<Longrightarrow> bootstrap_step co (Inr (Some (Pending p)), s)
    (Inr (Some (Pending (p\<lparr>pd_backupCodesAcknowledged := True\<rparr>))), s)"
| Commit: "pd_backupCodesAcknowledged p \<Longrightarrow> was_live co p \<Longrightarrow> nothing_stored co p s \<Longrightarrow> code_verified co p token step
    \<Longrightarrow> completes co p step c \<Longrightarrow> completion_ok (co_env co) c
    \<Longrightarrow> bootstrap_step co (Inr (Some (Pending p)), s)
          (Inr (Some (Committed (pd_referenceDigest p) c (receipt_of (co_env co) c))), s)"
| Project: "snd (co_project co c s) = s' \<Longrightarrow>
    bootstrap_step co (Inr (Some (Committed d c r)), s) (Inr (Some (Committed d c r)), s')"
| Finish: "projected co c s \<Longrightarrow>
    bootstrap_step co (Inr (Some (Committed d c r)), s) (Inr (Some (Applied d r)), s)"

inductive_cases bootstrap_stepE: "bootstrap_step co x y"
inductive_cases unreadable_stepE: "bootstrap_step co (Inl e, s) y"
inductive_cases committed_stepE: "bootstrap_step co (Inr (Some (Committed d c r)), s) y"
inductive_cases applied_stepE: "bootstrap_step co (Inr (Some (Applied d r)), s) y"

abbreviation bootstrap_run :: "'s coordinator \<Rightarrow> 's phase \<Rightarrow> 's phase \<Rightarrow> bool" where
  "bootstrap_run co \<equiv> (bootstrap_step co)\<^sup>*\<^sup>*"

text \<open>What a committed attempt becomes: it keeps its reference and its receipt.\<close>

definition receipt_in :: "bootstrap_error + bootstrap_record option \<Rightarrow> (string \<times> bootstrap_receipt) option" where
  "receipt_in v =
     (case v of
        Inr (Some (Committed d c r)) \<Rightarrow> Some (d, r) | Inr (Some (Applied d r)) \<Rightarrow> Some (d, r) | _ \<Rightarrow> None)"

lemma step_receipt: "bootstrap_step co x y \<Longrightarrow> receipt_in (fst x) = Some dr \<Longrightarrow> receipt_in (fst y) = Some dr"
  by (erule bootstrap_stepE) (auto simp: receipt_in_def split: option.splits)

lemma run_receipt: "bootstrap_run co x y \<Longrightarrow> receipt_in (fst x) = Some dr \<Longrightarrow> receipt_in (fst y) = Some dr"
  by (induction rule: rtranclp_induct) (auto intro: step_receipt)

lemma run_unreadable: "bootstrap_run co (Inl e, s) y \<Longrightarrow> y = (Inl e, s)"
  by (induction rule: rtranclp_induct) (auto elim: unreadable_stepE)

lemma run_applied: "bootstrap_run co (Inr (Some (Applied d r)), s) y \<Longrightarrow> y = (Inr (Some (Applied d r)), s)"
  by (induction rule: rtranclp_induct) (auto elim: applied_stepE)

section \<open>Operations that change nothing\<close>

named_theorems quiet_intros \<open>operations that leave the journal and the storage alone\<close>

definition quiet :: "('s, 'a) boot_op \<Rightarrow> bool" where
  "quiet m \<longleftrightarrow> (\<forall>w. bw_file (snd (m w)) = bw_file w \<and> bw_store (snd (m w)) = bw_store w)"

lemma quietD: "quiet m \<Longrightarrow> m w = (r, w') \<Longrightarrow> bw_file w' = bw_file w \<and> bw_store w' = bw_store w"
  unfolding quiet_def by (metis snd_conv)

lemma quiet_phase: "quiet m \<Longrightarrow> m w = (r, w') \<Longrightarrow> phase co w' = phase co w"
  by (metis phase_def quiet_def snd_conv)

lemma quiet_bind [quiet_intros]: "quiet m \<Longrightarrow> (\<And>a. quiet (f a)) \<Longrightarrow> quiet (bind_op m f)"
  unfolding quiet_def bind_op_def by (auto split: prod.splits sum.splits; metis snd_conv)

lemma quiet_catch [quiet_intros]: "quiet m \<Longrightarrow> (\<And>e. quiet (h e)) \<Longrightarrow> quiet (catch_op m h)"
  unfolding quiet_def catch_op_def by (auto split: prod.splits sum.splits; metis snd_conv)

lemma quiet_plain [quiet_intros]:
  "quiet (return_op a)" "quiet (throw_op e)" "quiet (bj_fail code)" "quiet (bj_require b code)" "quiet (of_external r)"
  "quiet (ask f)" "quiet (of_result x)"
  by (auto simp: quiet_def of_result_def bj_fail_def bj_require_def of_external_def ask_def split: sum.splits)

lemma quiet_if [quiet_intros]: "(b \<Longrightarrow> quiet m) \<Longrightarrow> (\<not> b \<Longrightarrow> quiet n) \<Longrightarrow> quiet (if b then m else n)"
  by simp

lemma quiet_option [quiet_intros]:
  "(v = None \<Longrightarrow> quiet m) \<Longrightarrow> (\<And>a. v = Some a \<Longrightarrow> quiet (f a)) \<Longrightarrow> quiet (case v of None \<Rightarrow> m | Some a \<Rightarrow> f a)"
  by (cases v) auto

lemma quiet_sum [quiet_intros]:
  "(\<And>a. v = Inl a \<Longrightarrow> quiet (f a)) \<Longrightarrow> (\<And>a. v = Inr a \<Longrightarrow> quiet (g a)) \<Longrightarrow> quiet (case v of Inl a \<Rightarrow> f a | Inr a \<Rightarrow> g a)"
  by (cases v) auto

lemma quiet_record [quiet_intros]:
  "(\<And>p. quiet (f p)) \<Longrightarrow> (\<And>d c r. quiet (g d c r)) \<Longrightarrow> (\<And>d r. quiet (h d r))
   \<Longrightarrow> quiet (case v of Pending p \<Rightarrow> f p | Committed d c r \<Rightarrow> g d c r | Applied d r \<Rightarrow> h d r)"
  by (cases v) auto

lemma quiet_list [quiet_intros]:
  "quiet m \<Longrightarrow> (\<And>a as. quiet (f a as)) \<Longrightarrow> quiet (case v of [] \<Rightarrow> m | a # as \<Rightarrow> f a as)"
  by (cases v) auto

lemma quiet_pair [quiet_intros]: "(\<And>a b. quiet (f a b)) \<Longrightarrow> quiet (case v of (a, b) \<Rightarrow> f a b)"
  by (cases v) auto

lemma quiet_in_storage: "(\<And>s. snd (m s) = s) \<Longrightarrow> quiet (in_storage m)"
  unfolding quiet_def in_storage_def by (auto simp: Let_def split: prod.splits) (metis snd_conv)+

lemma readRecord_view:
  "\<exists>r w'. readRecord env w = (r, w') \<and> bw_file w' = bw_file w \<and> bw_store w' = bw_store w
     \<and> (\<forall>a. r = Inr a \<longrightarrow> entry_view env (bw_file w) = Inr a)"
  by (auto simp: readRecord_def ask_def of_external_def entry_view_def bind_op_def
      split: sum.splits option.splits journal_entry.splits)

lemma quiet_readRecord [quiet_intros]: "quiet (readRecord env)"
  unfolding quiet_def by (metis readRecord_view snd_conv)

lemma quiet_crypt [quiet_intros]: "quiet (journal_encrypt env t)" "quiet (journal_decrypt env d)"
  unfolding journal_encrypt_def journal_decrypt_def by (intro quiet_intros)+

lemma quiet_now [quiet_intros]: "quiet (journal_now co)"
  unfolding journal_now_def by (intro quiet_intros)

lemma quiet_unexpired [quiet_intros]: "quiet (unexpired co p)"
  unfolding unexpired_def by (intro quiet_intros)

lemma quiet_bound [quiet_intros]: "quiet (bound_reference co d reference)"
  unfolding bound_reference_def by (intro quiet_intros)

lemma quiet_completion [quiet_intros]: "quiet (new_completion co p step)"
  unfolding new_completion_def sealed_secret_def by (intro quiet_intros)

lemma quiet_setup [quiet_intros]: "quiet (setup_of co p reference)"
  unfolding setup_of_def by (intro quiet_intros)

lemma quiet_verified [quiet_intros]: "quiet (verified_step co p token)"
  unfolding verified_step_def by (intro quiet_intros)

lemma quiet_new_attempt [quiet_intros]: "quiet (new_attempt co requested)"
  unfolding new_attempt_def Let_def by (intro quiet_intros)

section \<open>The file after a write\<close>

lemma written_view:
  assumes "dates_read env" "bootstrap_record_ok env r" "journal_encrypted cipher"
    and "totp_decrypt (jn_gcm env) (jn_key env) cipher = Inr (record_plaintext env r)"
    and "length (utf8 (serialized_envelope cipher)) \<le> BOOTSTRAP_MAX_BYTES"
  shows "open_serialized env (serialized_envelope cipher) = Inr r"
  using assms(4,5) by (simp add: open_serialized_def open_envelope_serialized [OF assms(3)]
      open_plaintext_record [OF assms(1,2)])

text \<open>A write leaves the record it was given or what was there, and the record when it returns.\<close>

lemma writeRecord_cases:
  assumes "dates_read env" "writeRecord env r w = (res, w')"
  shows "bw_store w' = bw_store w
    \<and> (bw_file w' = bw_file w \<and> res \<noteq> Inr () \<or> entry_view env (bw_file w') = Inr (Some r) \<and> bootstrap_record_ok env r)"
proof -
  have published: "bw_store w2 = bw_store w1
      \<and> (bw_file w2 = bw_file w1 \<and> res \<noteq> Inr () \<or> bw_file w2 = Some (Regular_file s))"
    if "publish_file env s w1 = (res, w2)" for s w1 w2
    using that by (auto simp: publish_file_def ask_def Let_def split: journal_publication.splits)
  show ?thesis
  proof (cases "bootstrap_record_ok env r")
    case False
    then show ?thesis using assms(2) by (auto simp: writeRecord_def bj_require_def bj_fail_def)
  next
    case ok: True
    obtain x w1 where enc: "journal_encrypt env (record_plaintext env r) w = (x, w1)" by fastforce
    have w1: "bw_file w1 = bw_file w" "bw_store w1 = bw_store w"
      using quietD [OF quiet_crypt(1) enc] by simp_all
    show ?thesis
    proof (cases x)
      case (Inl e)
      then show ?thesis
        using assms(2) enc w1 ok by (auto simp: writeRecord_def bj_require_def Let_def)
    next
      case (Inr cipher)
      show ?thesis
      proof (cases "journal_encrypted cipher
          \<and> totp_decrypt (jn_gcm env) (jn_key env) cipher = Inr (record_plaintext env r)
          \<and> length (utf8 (serialized_envelope cipher)) \<le> BOOTSTRAP_MAX_BYTES")
        case True
        then have "writeRecord env r w = publish_file env (serialized_envelope cipher) w1"
          using enc Inr ok
          by (simp add: writeRecord_def bj_require_def Let_def journal_decrypt_def of_external_def)
        then have "publish_file env (serialized_envelope cipher) w1 = (res, w')" using assms(2) by simp
        from published [OF this] show ?thesis
          using w1 ok written_view [OF assms(1) ok] True by (auto simp: entry_view_def)
      next
        case False
        then have "\<exists>e. writeRecord env r w = (Inl e, w1)"
          using enc Inr ok
          by (auto simp: writeRecord_def bj_require_def bj_fail_def Let_def journal_decrypt_def of_external_def
              bind_op_def split: sum.splits)
        then show ?thesis using assms(2) w1 by auto
      qed
    qed
  qed
qed

section \<open>The contract of the storage\<close>

text \<open>The reads and the two hooks change nothing; every call may fail.\<close>

locale bootstrap_reads =
  fixes co :: "'s coordinator"
  assumes users_read: "snd (co_getAllUsers co s) = s"
    and factor_read: "snd (co_getTOTPSecret co h s) = s"
    and codes_read: "snd (co_getBackupCodes co u s) = s"
    and namespace_reads: "co_assertNamespaceAvailable co = Some f \<Longrightarrow> snd (f h s) = s"
    and deny_reads: "co_beforeComplete co = Some deny \<Longrightarrow> snd (deny s) = s"
begin

lemma quiet_reads [quiet_intros]:
  "quiet (in_storage (co_getAllUsers co))" "quiet (in_storage (co_getTOTPSecret co h))"
  "quiet (in_storage (co_getBackupCodes co u))"
  by (auto intro!: quiet_in_storage simp: users_read factor_read codes_read)

lemma quiet_hooks [quiet_intros]: "quiet (namespaceAvailable co h)" "quiet (before_complete co)"
  unfolding namespaceAvailable_def before_complete_def
  by (intro quiet_intros quiet_in_storage; simp add: namespace_reads deny_reads)+

lemma quiet_free [quiet_intros]: "quiet (empty co candidate)" "quiet (still_free co p)" "quiet (superseded co prior)"
  unfolding still_free_def empty_def no_users_def no_material_def superseded_def
  by (intro quiet_intros)+

lemma quiet_pending [quiet_intros]: "quiet (pending_attempt co reference)"
  unfolding pending_attempt_def by (intro quiet_intros)

lemma quiet_each_code [quiet_intros]: "quiet (check_each_code co stored cs)"
  by (induction cs) (simp_all only: check_each_code.simps, intro quiet_intros, intro quiet_intros)

lemma quiet_projection [quiet_intros]: "quiet (checkProjection co v finished)"
  unfolding checkProjection_def check_user_def check_factor_def check_codes_def
  by (intro quiet_intros)

text \<open>What the checks establish when they pass.\<close>

lemma in_storage_read: "in_storage m w = (Inr a, w') \<Longrightarrow> snd (m (bw_store w)) = bw_store w \<Longrightarrow> m (bw_store w) = (Inr a, bw_store w)"
  by (cases "m (bw_store w)") (auto simp: in_storage_def Let_def split: sum.splits)

lemma still_free_Inr:
  assumes "still_free co p w = (Inr x, w')"
  shows "nothing_stored co p (bw_store w) \<and> was_live co p"
proof -
  obtain users w1 factor w2 codes w3 t w4 t' w5 where
      users: "in_storage (co_getAllUsers co) w = (Inr users, w1)" "users = []"
    and factor: "in_storage (co_getTOTPSecret co (pd_handle p)) w1 = (Inr factor, w2)" "factor = None"
    and codes: "in_storage (co_getBackupCodes co (pd_userId p)) w2 = (Inr codes, w3)" "codes = None"
    and live: "journal_now co w4 = (Inr t', w5)" "\<not> at_or_before (pd_expiresAt p) t'"
    using assms
    by (auto simp: still_free_def empty_def no_users_def no_material_def unexpired_def bj_require_def bj_fail_def
        bind_op_eq_Inr split: if_splits)
  have stores: "bw_store w1 = bw_store w" "bw_store w2 = bw_store w"
    using quietD [OF quiet_reads(1) users(1)] quietD [OF quiet_reads(2) factor(1)] by simp_all
  have "was_live co p"
    using live by (auto simp: was_live_def journal_now_def ask_def)
  moreover have "nothing_stored co p (bw_store w)"
    using in_storage_read [OF users(1)] in_storage_read [OF factor(1)] in_storage_read [OF codes(1)] users(2)
      factor(2) codes(2)
    by (simp add: nothing_stored_def stores users_read factor_read codes_read)
  ultimately show ?thesis by simp
qed

lemma superseded_Inr:
  "superseded co prior w = (Inr x, w') \<Longrightarrow> prior = None \<or> (\<exists>p. prior = Some (Pending p) \<and> was_expired co p)"
  by (auto simp: superseded_def journal_now_def ask_def bj_require_def bj_fail_def bind_op_eq_Inr was_expired_def
      split: option.splits bootstrap_record.splits if_splits)

lemma bound_reference_Inr: "bound_reference co d reference w = (Inr x, w') \<Longrightarrow> referenceDigest (co_env co) reference = Inr d"
  by (auto simp: bound_reference_def of_result_def bj_require_def bj_fail_def bind_op_eq_Inr split: if_splits)

lemma pending_attempt_Inr:
  assumes "pending_attempt co reference w = (Inr p, w')"
  shows "fst (phase co w) = Inr (Some (Pending p)) \<and> referenceDigest (co_env co) reference = Inr (pd_referenceDigest p)
    \<and> nothing_stored co p (bw_store w) \<and> was_live co p"
proof -
  obtain v w1 where v: "readRecord (co_env co) w = (Inr v, w1)"
      and go: "(case v of Some (Pending p) \<Rightarrow>
          bind_op (bound_reference co (pd_referenceDigest p) reference) (\<lambda>_. bind_op (still_free co p) (\<lambda>_. return_op p))
        | _ \<Rightarrow> bj_fail BJ_UNAUTHORIZED) w1 = (Inr p, w')"
    using assms by (auto simp only: pending_attempt_def bind_op_eq_Inr of_result_def prod.inject)
  obtain q where q: "v = Some (Pending q)"
    using go by (cases v; cases "the v") (auto simp: bj_fail_def)
  obtain w2 w3 x y where bound: "bound_reference co (pd_referenceDigest p) reference w1 = (Inr x, w2)"
      and free: "still_free co p w2 = (Inr y, w3)" and p: "q = p"
    using go by (auto simp: q bind_op_eq_Inr)
  note read = v [unfolded q p]
  have "bw_store w2 = bw_store w"
    using quietD [OF quiet_readRecord read] quietD [OF quiet_bound bound] by simp
  moreover have "entry_view (co_env co) (bw_file w) = Inr (Some (Pending p))"
    using readRecord_view [of "co_env co" w] read by auto
  ultimately show ?thesis
    using bound_reference_Inr [OF bound] still_free_Inr [OF free] by (simp add: phase_def)
qed

lemma check_each_code_Inr:
  "check_each_code co stored cs w = (Inr x, w') \<Longrightarrow>
   list_all (\<lambda>code. \<exists>item \<in> set stored. bc_id item = bc_id code \<and> bc_hash item = bc_hash code) cs"
proof (induction cs arbitrary: w)
  case (Cons code cs)
  then obtain item where item: "List.find (\<lambda>item. bc_id item = bc_id code) stored = Some item" "bc_hash item = bc_hash code"
      and rest: "\<exists>w1. check_each_code co stored cs w1 = (Inr x, w')"
    by (auto simp: bj_fail_def bind_op_eq_Inr split: option.splits if_splits)
  then have "item \<in> set stored" "bc_id item = bc_id code"
    by (auto simp: find_Some_iff)
  then show ?case using item(2) rest Cons.IH by auto
qed simp

lemma checkProjection_Inr:
  assumes "checkProjection co c True w = (Inr x, w')"
  shows "projected co c (bw_store w)"
proof -
  obtain b w1 y w2 where user: "check_user co c True w = (Inr b, w1)" and factor: "check_factor co c True w1 = (Inr y, w2)"
      and codes: "check_codes co c True w2 = (Inr x, w')"
    using assms by (auto simp: checkProjection_def bind_op_eq_Inr)
  obtain users where users: "in_storage (co_getAllUsers co) w = (Inr users, w1)" "projected_user (cp_user c) (hd users)"
      "tl users = []" "users \<noteq> []"
  proof -
    obtain users w3 where all: "in_storage (co_getAllUsers co) w = (Inr users, w3)"
        and go: "(case users of [] \<Rightarrow> if True then bj_fail BJ_CONFLICT else return_op False
          | [u] \<Rightarrow> if projected_user (cp_user c) u then return_op True else bj_fail BJ_CONFLICT
          | _ \<Rightarrow> bj_fail BJ_CONFLICT) w3 = (Inr b, w1)"
      using user by (auto simp only: check_user_def bind_op_eq_Inr)
    show thesis
      using that all go by (cases users; cases "tl users") (auto simp: bj_fail_def split: if_splits)
  qed
  then obtain u where u: "in_storage (co_getAllUsers co) w = (Inr [u], w1)" "projected_user (cp_user c) u"
    by (cases users) auto
  obtain f where f: "\<exists>w4. in_storage (co_getTOTPSecret co (u_handle (cp_user c))) w1 = (Inr (Some f), w4) \<and> bw_store w2 = bw_store w4"
      "projected_factor (cp_totpSecret c) f"
    using factor by (auto simp: check_factor_def bj_require_def bj_fail_def bind_op_eq_Inr split: option.splits if_splits)
  obtain cs w5 where cs: "in_storage (co_getBackupCodes co (u_id (cp_user c))) w2 = (Inr (Some cs), w5)"
      "\<exists>w6 z w7. check_each_code co (bs_codes cs) (bs_codes (cp_backupCodes c)) w6 = (Inr z, w7)"
  proof -
    obtain v w5 where v: "in_storage (co_getBackupCodes co (u_id (cp_user c))) w2 = (Inr v, w5)"
        and go: "(case v of None \<Rightarrow> bj_require (\<not> True) BJ_CONFLICT
          | Some cs \<Rightarrow>
              bind_op (bj_require (bs_userId cs = u_id (cp_user c) \<and> bs_generatedAt cs = bs_generatedAt (cp_backupCodes c)
                  \<and> length (bs_codes cs) = length (bs_codes (cp_backupCodes c)) \<and> distinct (map bc_id (bs_codes cs)))
                  BJ_CONFLICT) (\<lambda>_.
              bind_op (check_each_code co (bs_codes cs) (bs_codes (cp_backupCodes c))) (\<lambda>_.
                bj_require (optional_ok (journal_iso (co_env co)) (bs_lastUsedAt cs)) BJ_INVALID))) w5 = (Inr x, w')"
      using codes by (auto simp only: check_codes_def bind_op_eq_Inr)
    obtain cs where cs: "v = Some cs" using go by (cases v) (auto simp: bj_require_def bj_fail_def)
    show thesis
      using that v go by (auto simp: cs bind_op_eq_Inr)
  qed
  obtain w4 where w4: "in_storage (co_getTOTPSecret co (u_handle (cp_user c))) w1 = (Inr (Some f), w4)" "bw_store w2 = bw_store w4"
    using f(1) by blast
  have stores: "bw_store w1 = bw_store w" "bw_store w2 = bw_store w"
    using quietD [OF quiet_reads(1) u(1)] quietD [OF quiet_reads(2) w4(1)] w4(2) by simp_all
  show ?thesis
    using in_storage_read [OF u(1)] in_storage_read [OF w4(1)] in_storage_read [OF cs(1)] u(2) f(2) cs(2)
      check_each_code_Inr
    unfolding projected_def by (auto simp: stores users_read factor_read codes_read)
qed

end

lemma remove_spaces_digits: "list_all is_digit s \<Longrightarrow> remove_spaces s = s"
  by (induction s) (auto simp: remove_spaces_def is_digit_def is_space_def Let_def)

lemma verified_step_Inr:
  assumes "verified_step co p token w = (Inr n, w')" "is_totp_token token"
  shows "code_verified co p token n"
proof -
  have token: "remove_spaces token = token" using assms(2) by (simp add: is_totp_token_def remove_spaces_digits)
  obtain epoch nowMs where "matched_step (co_check co) (co_authenticator co) epoch nowMs (Some (attempt_secret p)) token None
      = Inr (Some n)" "0 \<le> n"
    using assms(1)
    by (auto simp: verified_step_def verifyTokenWithStep_matched token of_external_def bj_fail_def bind_op_eq_Inr
        split: sum.splits option.splits if_splits)
  from matched_step_SomeD [OF this(1)] obtain delta where
      "co_check co (pd_secret p) token (ac_digits (co_authenticator co)) (ac_step (co_authenticator co))
         (epochTolerance (co_authenticator co)) epoch = Inr (Some delta)"
      "n = currentStepFor (co_authenticator co) nowMs + delta"
    by (metis attempt_secret_def option.inject totp_secret.select_convs(3))
  then show ?thesis using assms(2) \<open>0 \<le> n\<close> unfolding code_verified_def by blast
qed

section \<open>Every operation follows the protocol\<close>

definition at_phase :: "'s coordinator \<Rightarrow> 's phase \<Rightarrow> 's boot_world \<Rightarrow> bool" where
  "at_phase co x w \<longleftrightarrow> phase co w = x"

definition from_phase :: "'s coordinator \<Rightarrow> 's phase \<Rightarrow> 's boot_world \<Rightarrow> bool" where
  "from_phase co x w \<longleftrightarrow> bootstrap_run co x (phase co w)"

definition follows :: "'s coordinator \<Rightarrow> ('s, 'a) boot_op \<Rightarrow> bool" where
  "follows co m \<longleftrightarrow> (\<forall>x. triple (at_phase co x) m (\<lambda>_. from_phase co x) (from_phase co x))"

lemma at_from: "at_phase co x w \<Longrightarrow> from_phase co x w"
  by (simp add: at_phase_def from_phase_def)

lemma from_trans: "bootstrap_run co x y \<Longrightarrow> from_phase co y w \<Longrightarrow> from_phase co x w"
  by (simp add: from_phase_def)

lemma followsI: "(\<And>x. triple (at_phase co x) m (\<lambda>_. from_phase co x) (from_phase co x)) \<Longrightarrow> follows co m"
  by (simp add: follows_def)

lemma follows_run: "follows co m \<Longrightarrow> m w = (r, w') \<Longrightarrow> bootstrap_run co (phase co w) (phase co w')"
  unfolding follows_def at_phase_def from_phase_def triple_def by (cases r) blast+

lemma triple_follows:
  assumes "follows co m"
  shows "triple (from_phase co x) m (\<lambda>_. from_phase co x) (from_phase co x)"
proof (rule tripleI)
  show "from_phase co x w'" if "from_phase co x w" "m w = (Inl e, w')" for w e w'
    using that follows_run [OF assms that(2)] by (simp add: from_phase_def)
  show "from_phase co x w'" if "from_phase co x w" "m w = (Inr a, w')" for w a w'
    using that follows_run [OF assms that(2)] by (simp add: from_phase_def)
qed

lemma follows_quiet: "quiet m \<Longrightarrow> follows co m"
  by (rule followsI, rule tripleI) (simp_all add: at_phase_def from_phase_def, (metis quiet_phase rtranclp.rtrancl_refl)+)

lemma follows_bind: "follows co m \<Longrightarrow> (\<And>a. follows co (f a)) \<Longrightarrow> follows co (bind_op m f)"
  by (rule followsI, rule triple_bind) (auto simp: follows_def [of _ m] intro: triple_follows)

lemma triple_quiet_bind:
  assumes "quiet m" "\<And>a w w'. phase co w = x \<Longrightarrow> m w = (Inr a, w') \<Longrightarrow> B a"
    and "\<And>a. B a \<Longrightarrow> triple (at_phase co x) (f a) Q E" "\<And>w. from_phase co x w \<Longrightarrow> E w"
  shows "triple (at_phase co x) (bind_op m f) Q E"
proof (rule triple_bind_fact [where R = "at_phase co x" and B = B])
  show "triple (at_phase co x) m (\<lambda>a w. at_phase co x w \<and> B a) E"
    using assms(2,4) quiet_phase [OF assms(1)]
    by (intro tripleI) (auto simp: at_phase_def from_phase_def)
qed (use assms(3) in auto)

lemma triple_quiet_then:
  assumes "quiet m" "\<And>a. triple (at_phase co x) (f a) Q E" "\<And>w. from_phase co x w \<Longrightarrow> E w"
  shows "triple (at_phase co x) (bind_op m f) Q E"
  by (rule triple_quiet_bind [where B = "\<lambda>_. True"]) (use assms in auto)

lemma triple_bj_require:
  assumes "b \<Longrightarrow> triple (at_phase co x) (f ()) Q E" "\<And>w. from_phase co x w \<Longrightarrow> E w"
  shows "triple (at_phase co x) (bind_op (bj_require b code) f) Q E"
  using assms at_from [of co x] unfolding triple_def bj_require_def bj_fail_def by (cases b) auto

lemma triple_bj_fail: "(\<And>w. P w \<Longrightarrow> E w) \<Longrightarrow> triple P (bj_fail code) Q E"
  by (simp add: triple_def bj_fail_def)

lemma readRecord_phase:
  "phase co w = x \<Longrightarrow> readRecord (co_env co) w = (Inr v, w') \<Longrightarrow> fst x = Inr v"
  using readRecord_view [of "co_env co" w] by (auto simp: phase_def)

lemma triple_write:
  assumes "dates_read (co_env co)" "bootstrap_record_ok (co_env co) r \<Longrightarrow> bootstrap_step co x (Inr (Some r), snd x)"
  shows "triple (at_phase co x) (writeRecord (co_env co) r) (\<lambda>_. at_phase co (Inr (Some r), snd x)) (from_phase co x)"
proof (rule tripleI)
  show "from_phase co x w'" if "at_phase co x w" "writeRecord (co_env co) r w = (Inl e, w')" for w e w'
    using that writeRecord_cases [OF assms(1) that(2)] assms(2) unfolding at_phase_def from_phase_def phase_def by auto
  show "at_phase co (Inr (Some r), snd x) w'" if "at_phase co x w" "writeRecord (co_env co) r w = (Inr a, w')" for w a w'
    using that writeRecord_cases [OF assms(1) that(2)] unfolding at_phase_def phase_def by auto
qed

lemma triple_write_bind:
  assumes "dates_read (co_env co)" "bootstrap_record_ok (co_env co) r \<Longrightarrow> bootstrap_step co x (Inr (Some r), snd x)"
    and "triple (at_phase co (Inr (Some r), snd x)) (f ()) Q E" "\<And>w. from_phase co x w \<Longrightarrow> E w"
  shows "triple (at_phase co x) (bind_op (writeRecord (co_env co) r) f) Q E"
proof (rule triple_bind)
  show "triple (at_phase co x) (writeRecord (co_env co) r) (\<lambda>_. at_phase co (Inr (Some r), snd x)) E"
    by (rule triple_weaken [OF triple_write [OF assms(1,2)]]) (use assms(4) in simp_all)
qed (use assms(3) in simp)

lemma triple_from_phase: "(\<And>x. P x \<Longrightarrow> triple (at_phase co x) m Q E) \<Longrightarrow> triple (\<lambda>w. P (phase co w)) m Q E"
  unfolding triple_def at_phase_def by blast

lemma triple_project:
  assumes "x = (Inr (Some (Committed d c r)), s)"
    and "\<And>s'. bootstrap_step co x (fst x, s') \<Longrightarrow> triple (at_phase co (fst x, s')) (f ()) Q E"
    and "\<And>w. from_phase co x w \<Longrightarrow> E w"
  shows "triple (at_phase co x) (bind_op (in_storage (co_project co c)) f) Q E"
proof -
  have step: "bootstrap_step co x (fst x, snd (phase co w'))" "fst (phase co w') = fst x"
    if "at_phase co x w" "in_storage (co_project co c) w = (res, w')" for w res w'
  proof -
    have "phase co w = x" using that(1) by (simp add: at_phase_def)
    then have view: "entry_view (co_env co) (bw_file w) = fst x" "bw_store w = s"
      by (auto simp: assms(1) phase_def)
    have "bw_file w' = bw_file w" "bw_store w' = snd (co_project co c s)"
      using that(2) view(2) by (auto simp: in_storage_def Let_def split: prod.splits)
    then show "fst (phase co w') = fst x" "bootstrap_step co x (fst x, snd (phase co w'))"
      using view by (auto simp: phase_def assms(1) intro: Project)
  qed
  show ?thesis
  proof (rule triple_bind)
    show "triple (at_phase co x) (in_storage (co_project co c))
        (\<lambda>_ w. fst (phase co w) = fst x \<and> bootstrap_step co x (fst x, snd (phase co w))) E"
    proof (rule tripleI)
      fix w e w' assume "at_phase co x w" "in_storage (co_project co c) w = (Inl e, w')"
      from step [OF this] have "bootstrap_step co x (phase co w')" by (metis prod.collapse)
      then show "E w'" by (intro assms(3)) (simp add: from_phase_def r_into_rtranclp)
    next
      fix w a w' assume "at_phase co x w" "in_storage (co_project co c) w = (Inr a, w')"
      from step [OF this] show "fst (phase co w') = fst x \<and> bootstrap_step co x (fst x, snd (phase co w'))" by simp
    qed
    fix a
    show "triple (\<lambda>w. fst (phase co w) = fst x \<and> bootstrap_step co x (fst x, snd (phase co w))) (f a) Q E"
    proof (rule triple_from_phase [where P = "\<lambda>y. fst y = fst x \<and> bootstrap_step co x (fst x, snd y)"])
      fix y assume "fst y = fst x \<and> bootstrap_step co x (fst x, snd y)"
      then show "triple (at_phase co y) (f a) Q E" using assms(2) [of "snd y"] by (cases y) simp
    qed
  qed
qed

text \<open>Recovery finishes a committed attempt and leaves anything else as it is.\<close>

definition recovered :: "'s coordinator \<Rightarrow> 's phase \<Rightarrow> 's boot_world \<Rightarrow> bool" where
  "recovered co x w \<longleftrightarrow>
     (case fst x of Inr (Some (Committed d c r)) \<Rightarrow> fst (phase co w) = Inr (Some (Applied d r)) | _ \<Rightarrow> phase co w = x)"

definition after_recovery :: "'s phase \<Rightarrow> 's phase \<Rightarrow> bool" where
  "after_recovery x y \<longleftrightarrow>
     (case fst x of Inr (Some (Committed d c r)) \<Rightarrow> fst y = Inr (Some (Applied d r)) | _ \<Rightarrow> y = x)"

lemma recovered_after: "recovered co x w \<longleftrightarrow> after_recovery x (phase co w)"
  by (auto simp: recovered_def after_recovery_def split: sum.splits option.splits bootstrap_record.splits)

text \<open>What a completion returns: the receipt of this attempt, or of the attempt it just completed.\<close>

definition newly_completed ::
  "'s coordinator \<Rightarrow> 's phase \<Rightarrow> bootstrap_pending \<Rightarrow> int \<Rightarrow> bootstrap_receipt \<Rightarrow> 's boot_world \<Rightarrow> bool" where
  "newly_completed co x p step r w \<longleftrightarrow>
     (\<exists>c. completes co p step c \<and> completion_ok (co_env co) c \<and> r = receipt_of (co_env co) c \<and> nothing_stored co p (snd x) \<and> was_live co p
        \<and> fst (phase co w) = Inr (Some (Applied (pd_referenceDigest p) r)) \<and> projected co c (snd (phase co w)))"

definition completion_authorised ::
  "'s coordinator \<Rightarrow> 's phase \<Rightarrow> string \<Rightarrow> string \<Rightarrow> bootstrap_receipt \<Rightarrow> 's boot_world \<Rightarrow> bool" where
  "completion_authorised co x reference token r w \<longleftrightarrow>
     (\<exists>d. referenceDigest (co_env co) reference = Inr d \<and> fst (phase co w) = Inr (Some (Applied d r))
        \<and> (receipt_in (fst x) = Some (d, r)
           \<or> (\<exists>p step. fst x = Inr (Some (Pending p)) \<and> pd_referenceDigest p = d \<and> pd_backupCodesAcknowledged p
                \<and> code_verified co p token step \<and> newly_completed co x p step r w)))"

text \<open>The texts of times are read back.\<close>

locale bootstrap_storage = bootstrap_reads co for co :: "'s coordinator" +
  assumes dates: "dates_read (co_env co)"
begin

lemma apply_triple:
  assumes "x = (Inr (Some (Committed d c r)), s)"
  shows "triple (at_phase co x) (bootstrap_apply co d c r)
    (\<lambda>_ w. fst (phase co w) = Inr (Some (Applied d r)) \<and> projected co c (snd (phase co w)) \<and> from_phase co x w)
    (from_phase co x)"
  unfolding bootstrap_apply_def
proof (rule triple_catch)
  show "triple (from_phase co x) (bj_fail BJ_RECOVERY_REQUIRED) Q (from_phase co x)"
    for Q :: "unit \<Rightarrow> 's boot_world \<Rightarrow> bool"
    by (rule triple_bj_fail)
  have finish: "triple (at_phase co (fst x, s')) (bind_op (checkProjection co c True) (\<lambda>_. writeRecord (co_env co) (Applied d r)))
      (\<lambda>_ w. fst (phase co w) = Inr (Some (Applied d r)) \<and> projected co c (snd (phase co w)) \<and> from_phase co x w)
      (from_phase co x)"
    if project: "bootstrap_step co x (fst x, s')" for s'
  proof (rule triple_quiet_bind [where B = "\<lambda>_. projected co c s'"])
    show "quiet (checkProjection co c True)" by (rule quiet_projection)
    show "projected co c s'" if "phase co w = (fst x, s')" "checkProjection co c True w = (Inr a, w')" for a w w'
      using checkProjection_Inr [OF that(2)] that(1) by (auto simp: phase_def)
    show "from_phase co x w" if "from_phase co (fst x, s') w" for w
      using that project by (auto intro: from_trans)
    show "triple (at_phase co (fst x, s')) (writeRecord (co_env co) (Applied d r))
        (\<lambda>_ w. fst (phase co w) = Inr (Some (Applied d r)) \<and> projected co c (snd (phase co w)) \<and> from_phase co x w)
        (from_phase co x)" if "projected co c s'"
    proof (rule triple_weaken [OF triple_write [OF dates]])
      show last: "bootstrap_step co (fst x, s') (Inr (Some (Applied d r)), snd (fst x, s'))"
        using that by (auto simp: assms intro: Finish)
      show "from_phase co x w" if "from_phase co (fst x, s') w" for w
        using that project by (auto intro: from_trans)
      have "bootstrap_run co x (Inr (Some (Applied d r)), s')" using project last by (auto intro: rtranclp.rtrancl_into_rtrancl)
      then show "fst (phase co w) = Inr (Some (Applied d r)) \<and> projected co c (snd (phase co w)) \<and> from_phase co x w"
        if "at_phase co (Inr (Some (Applied d r)), snd (fst x, s')) w" for w
        using that \<open>projected co c s'\<close> by (simp add: at_phase_def from_phase_def)
    qed
  qed
  show "triple (at_phase co x)
      (bind_op (journal_decrypt (co_env co) (factor_data (cp_totpSecret c))) (\<lambda>secret.
       bind_op (bj_require (journal_text 1024 secret) BJ_INVALID) (\<lambda>_.
       bind_op (checkProjection co c False) (\<lambda>_.
       bind_op (in_storage (co_project co c)) (\<lambda>_.
       bind_op (checkProjection co c True) (\<lambda>_. writeRecord (co_env co) (Applied d r)))))))
      (\<lambda>_ w. fst (phase co w) = Inr (Some (Applied d r)) \<and> projected co c (snd (phase co w)) \<and> from_phase co x w)
      (from_phase co x)"
    by (intro triple_quiet_then triple_project [OF assms] finish quiet_intros; assumption)
qed

lemma recover_triple:
  "triple (at_phase co x) (recoverUnsafe co) (\<lambda>_ w. recovered co x w \<and> from_phase co x w) (from_phase co x)"
  unfolding recoverUnsafe_def
proof (rule triple_catch)
  show "triple (from_phase co x) (bj_fail BJ_RECOVERY_REQUIRED) Q (from_phase co x)"
    for Q :: "unit \<Rightarrow> 's boot_world \<Rightarrow> bool"
    by (rule triple_bj_fail)
  have rest: "triple (at_phase co x)
      (case r of Committed d c rc \<Rightarrow> bootstrap_apply co d c rc | _ \<Rightarrow> return_op ())
      (\<lambda>_ w. recovered co x w \<and> from_phase co x w) (from_phase co x)" if "fst x = Inr (Some r)" for r
  proof (cases r)
    case (Committed d c rc)
    then have "x = (Inr (Some (Committed d c rc)), snd x)" using that by (metis prod.collapse)
    from triple_weaken [OF apply_triple [OF this]] show ?thesis
      using that Committed by (simp add: recovered_def)
  qed (use that in \<open>auto simp: recovered_def at_phase_def from_phase_def intro!: triple_return\<close>)
  show "triple (at_phase co x)
      (bind_op (readRecord (co_env co)) (\<lambda>value.
        case value of None \<Rightarrow> return_op ()
        | Some r \<Rightarrow> bind_op (ask (jn_sync (co_env co))) (\<lambda>synced. bind_op (of_external synced) (\<lambda>_.
            case r of Committed d c rc \<Rightarrow> bootstrap_apply co d c rc | _ \<Rightarrow> return_op ()))))
      (\<lambda>_ w. recovered co x w \<and> from_phase co x w) (from_phase co x)"
  proof (rule triple_quiet_bind [where B = "\<lambda>v. fst x = Inr v"])
    fix v assume v: "fst x = Inr v"
    show "triple (at_phase co x)
        (case v of None \<Rightarrow> return_op ()
         | Some r \<Rightarrow> bind_op (ask (jn_sync (co_env co))) (\<lambda>synced. bind_op (of_external synced) (\<lambda>_.
             case r of Committed d c rc \<Rightarrow> bootstrap_apply co d c rc | _ \<Rightarrow> return_op ())))
        (\<lambda>_ w. recovered co x w \<and> from_phase co x w) (from_phase co x)"
    proof (cases v)
      case None
      then show ?thesis using v by (auto simp: recovered_def at_phase_def from_phase_def intro!: triple_return)
    next
      case (Some r)
      then show ?thesis using rest v by (simp, intro triple_quiet_then quiet_intros) auto
    qed
  qed (auto intro: quiet_intros readRecord_phase)
qed

lemma follows_recover: "follows co (recoverUnsafe co)"
  by (rule followsI, rule triple_weaken [OF recover_triple]) auto


lemma write_follows:
  assumes "bootstrap_record_ok (co_env co) r \<Longrightarrow> bootstrap_step co x (Inr (Some r), snd x)" "\<And>a. follows co (f a)"
  shows "triple (at_phase co x) (bind_op (writeRecord (co_env co) r) f) (\<lambda>_. from_phase co x) (from_phase co x)"
proof (rule triple_bind)
  show "triple (at_phase co x) (writeRecord (co_env co) r)
      (\<lambda>_ w. at_phase co (Inr (Some r), snd x) w \<and> bootstrap_step co x (Inr (Some r), snd x)) (from_phase co x)"
  proof (cases "bootstrap_record_ok (co_env co) r")
    case True
    from assms(1) [OF this] show ?thesis by (intro triple_weaken [OF triple_write [OF dates assms(1)]]) auto
  next
    case False
    then show ?thesis
      by (auto simp: triple_def writeRecord_def bj_require_def bj_fail_def at_phase_def from_phase_def)
  qed
  show "triple (\<lambda>w. at_phase co (Inr (Some r), snd x) w \<and> bootstrap_step co x (Inr (Some r), snd x)) (f a)
      (\<lambda>_. from_phase co x) (from_phase co x)" for a
    by (rule triple_weaken [OF triple_follows [OF assms(2)]]) (auto simp: at_phase_def from_phase_def)
qed

lemma follows_empty_then: "follows co (bind_op (still_free co p) (\<lambda>_. return_op a))" "follows co (still_free co p)"
  by (intro follows_quiet quiet_intros)+

lemma new_attempt_fresh: "new_attempt co i w = (Inr (p, reference), w') \<Longrightarrow> \<not> pd_backupCodesAcknowledged p"
  by (auto simp: new_attempt_def bind_op_eq_Inr Let_def)

lemma follows_begin: "follows co (bootstrap_begin co input)"
  unfolding bootstrap_begin_def Let_def
proof (rule follows_bind [OF _ follows_bind [OF follows_recover]])
  show "follows co (bj_require (begin_input_ok input) BJ_INVALID)" by (intro follows_quiet quiet_intros)
  let ?i = "requested_input input"
  let ?last = "\<lambda>(p, reference).
     bind_op (bj_require (bootstrap_record_ok (co_env co) (Pending p)) BJ_INVALID) (\<lambda>_.
     bind_op (setup_of co p reference) (\<lambda>view.
     bind_op (namespaceAvailable co (pd_handle p)) (\<lambda>_.
     bind_op (still_free co p) (\<lambda>_.
     bind_op (writeRecord (co_env co) (Pending p)) (\<lambda>_.
     bind_op (still_free co p) (\<lambda>_. return_op view))))))"
  have last: "triple (at_phase co x) (?last pr) (\<lambda>_. from_phase co x) (from_phase co x)"
    if "fst x = Inr prior" "prior = None \<or> (\<exists>p. prior = Some (Pending p) \<and> was_expired co p)"
      "\<not> pd_backupCodesAcknowledged (fst pr)" for x prior pr
  proof -
    obtain p reference where pr: "pr = (p, reference)" by (cases pr)
    have x: "x = (Inr prior, snd x)" using that(1) by (metis prod.collapse)
    show ?thesis
      unfolding pr prod.case
    proof (rule triple_bj_require [OF triple_quiet_then [OF quiet_setup triple_quiet_then [OF quiet_hooks(1)]]])
      show "triple (at_phase co x)
          (bind_op (still_free co p) (\<lambda>_. bind_op (writeRecord (co_env co) (Pending p)) (\<lambda>_.
             bind_op (still_free co p) (\<lambda>_. return_op view))))
          (\<lambda>_. from_phase co x) (from_phase co x)" if "bootstrap_record_ok (co_env co) (Pending p)" for view :: bootstrap_setup
      proof (rule triple_quiet_bind [where B = "\<lambda>_. nothing_stored co p (snd x)"])
        show "nothing_stored co p (snd x)" if "phase co w = x" "still_free co p w = (Inr a, w')" for a w w'
          using still_free_Inr [OF that(2)] that(1) by (auto simp: phase_def)
        show "triple (at_phase co x) (bind_op (writeRecord (co_env co) (Pending p)) (\<lambda>_.
            bind_op (still_free co p) (\<lambda>_. return_op view))) (\<lambda>_. from_phase co x) (from_phase co x)"
          if "nothing_stored co p (snd x)"
        proof (rule write_follows)
          show "bootstrap_step co x (Inr (Some (Pending p)), snd x)"
            using \<open>bootstrap_record_ok _ _\<close> that \<open>\<not> pd_backupCodesAcknowledged (fst pr)\<close> pr
              \<open>prior = None \<or> _\<close> by (subst x) (auto intro: Start)
        qed (rule follows_empty_then)
      qed (auto intro: quiet_intros)
    qed (auto intro: quiet_intros)
  qed
  show "follows co (bind_op (readRecord (co_env co)) (\<lambda>prior.
      bind_op (superseded co prior) (\<lambda>_.
      bind_op (empty co None) (\<lambda>_.
      bind_op (namespaceAvailable co (bi_handle ?i)) (\<lambda>_.
      bind_op (new_attempt co ?i) ?last)))))"
  proof (rule followsI)
    fix x
    show "triple (at_phase co x) (bind_op (readRecord (co_env co)) (\<lambda>prior.
        bind_op (superseded co prior) (\<lambda>_.
        bind_op (empty co None) (\<lambda>_.
        bind_op (namespaceAvailable co (bi_handle ?i)) (\<lambda>_.
        bind_op (new_attempt co ?i) ?last)))))
        (\<lambda>_. from_phase co x) (from_phase co x)"
    proof (rule triple_quiet_bind [where B = "\<lambda>v. fst x = Inr v"])
      fix prior assume prior: "fst x = Inr prior"
      show "triple (at_phase co x) (bind_op (superseded co prior) (\<lambda>_.
          bind_op (empty co None) (\<lambda>_.
          bind_op (namespaceAvailable co (bi_handle ?i)) (\<lambda>_.
          bind_op (new_attempt co ?i) ?last))))
          (\<lambda>_. from_phase co x) (from_phase co x)"
      proof (rule triple_quiet_bind [where B = "\<lambda>_. prior = None \<or> (\<exists>p. prior = Some (Pending p) \<and> was_expired co p)"])
        assume free: "prior = None \<or> (\<exists>p. prior = Some (Pending p) \<and> was_expired co p)"
        show "triple (at_phase co x) (bind_op (empty co None) (\<lambda>_.
            bind_op (namespaceAvailable co (bi_handle ?i)) (\<lambda>_.
            bind_op (new_attempt co ?i) ?last)))
            (\<lambda>_. from_phase co x) (from_phase co x)"
        proof (rule triple_quiet_then [OF quiet_free(1) triple_quiet_then [OF quiet_hooks(1)]])
          show "triple (at_phase co x) (bind_op (new_attempt co ?i) ?last)
              (\<lambda>_. from_phase co x) (from_phase co x)"
            by (rule triple_quiet_bind [where B = "\<lambda>pr. \<not> pd_backupCodesAcknowledged (fst pr)"])
              (use new_attempt_fresh last [OF prior free] in \<open>auto intro: quiet_intros\<close>)
        qed (auto intro: quiet_intros)
      qed (use superseded_Inr in \<open>auto intro: quiet_intros\<close>)
    qed (auto intro: quiet_intros readRecord_phase)
  qed
qed

text \<open>The operations on a pending attempt read it first.\<close>

lemma follows_pending:
  assumes "\<And>x p. fst x = Inr (Some (Pending p)) \<Longrightarrow> nothing_stored co p (snd x)
      \<Longrightarrow> triple (at_phase co x) (f p) (\<lambda>_. from_phase co x) (from_phase co x)"
  shows "follows co (bind_op (pending_attempt co reference) f)"
proof (rule followsI)
  fix x
  show "triple (at_phase co x) (bind_op (pending_attempt co reference) f) (\<lambda>_. from_phase co x) (from_phase co x)"
  proof (rule triple_quiet_bind [where B = "\<lambda>p. fst x = Inr (Some (Pending p)) \<and> nothing_stored co p (snd x)"])
    show "fst x = Inr (Some (Pending p)) \<and> nothing_stored co p (snd x)"
      if "phase co w = x" "pending_attempt co reference w = (Inr p, w')" for p w w'
      using pending_attempt_Inr [OF that(2)] that(1) by (auto simp: phase_def)
  qed (use assms in \<open>auto intro: quiet_intros\<close>)
qed

lemma follows_read: "follows co (bootstrap_read co reference)"
  unfolding bootstrap_read_def by (intro follows_bind follows_recover follows_quiet quiet_intros)

lemma follows_available: "follows co (assertAvailable co)"
  unfolding assertAvailable_def by (intro follows_bind follows_recover follows_quiet quiet_intros)

lemma replace_pending:
  assumes "fst x = Inr (Some (Pending p))" "bootstrap_step co x (Inr (Some (Pending p')), snd x)"
  shows "triple (at_phase co x) (bind_op (still_free co p') (\<lambda>_. bind_op (writeRecord (co_env co) (Pending p')) (\<lambda>_.
      still_free co p'))) (\<lambda>_. from_phase co x) (from_phase co x)"
  by (rule triple_quiet_then, rule quiet_free, rule write_follows, rule assms(2), rule follows_empty_then, assumption)

lemma follows_updateProfile: "follows co (bootstrap_updateProfile co reference requested)"
  unfolding bootstrap_updateProfile_def Let_def
proof (rule follows_bind [OF _ follows_bind [OF follows_recover follows_pending]])
  show "follows co (bj_require (journal_profile_ok requested) BJ_INVALID)" by (intro follows_quiet quiet_intros)
  fix x :: "'s phase" and p assume x: "fst x = Inr (Some (Pending p))" "nothing_stored co p (snd x)"
  then have "x = (Inr (Some (Pending p)), snd x)" by (metis prod.collapse)
  then have "bootstrap_step co x (Inr (Some (Pending (p\<lparr>pd_profile := Some requested\<rparr>))), snd x)"
    using x(2) by (metis Edit)
  then show "triple (at_phase co x) (bind_op (still_free co (p\<lparr>pd_profile := Some requested\<rparr>)) (\<lambda>_.
      bind_op (writeRecord (co_env co) (Pending (p\<lparr>pd_profile := Some requested\<rparr>))) (\<lambda>_.
      still_free co (p\<lparr>pd_profile := Some requested\<rparr>)))) (\<lambda>_. from_phase co x) (from_phase co x)"
    by (rule replace_pending [OF x(1)])
qed

lemma follows_acknowledge: "follows co (acknowledgeBackupCodes co reference)"
  unfolding acknowledgeBackupCodes_def Let_def
proof (rule follows_bind [OF follows_recover follows_pending])
  fix x :: "'s phase" and p assume x: "fst x = Inr (Some (Pending p))" "nothing_stored co p (snd x)"
  let ?p = "p\<lparr>pd_backupCodesAcknowledged := True\<rparr>"
  from x(1) have "x = (Inr (Some (Pending p)), snd x)" by (metis prod.collapse)
  then have step: "bootstrap_step co x (Inr (Some (Pending ?p)), snd x)" using x(2) by (metis Acknowledge)
  show "triple (at_phase co x)
      (if pd_backupCodesAcknowledged p then return_op ()
       else bind_op (still_free co ?p) (\<lambda>_. bind_op (writeRecord (co_env co) (Pending ?p)) (\<lambda>_. still_free co ?p)))
      (\<lambda>_. from_phase co x) (from_phase co x)"
    using replace_pending [OF x(1) step] by (auto simp: at_phase_def from_phase_def intro: triple_return)
qed

text \<open>A completed attempt: what was checked, and what the journal and the storage hold at the end.\<close>

lemma decrypt_Inr: "journal_decrypt env d w = (Inr t, w') \<Longrightarrow> totp_decrypt (jn_gcm env) (jn_key env) d = Inr t"
  by (auto simp: journal_decrypt_def of_external_def split: sum.splits)

lemma new_completion_Inr: "new_completion co p step w = (Inr c, w') \<Longrightarrow> completes co p step c"
  by (auto simp: new_completion_def sealed_secret_def completes_def bj_require_def bj_fail_def bind_op_eq_Inr
      dest: decrypt_Inr split: if_splits)

lemma commit_triple:
  assumes x: "fst x = Inr (Some (Pending p))" and p: "pd_backupCodesAcknowledged p" "code_verified co p token step"
  shows "triple (at_phase co x) (commit_attempt co p step) (\<lambda>r w. newly_completed co x p step r w \<and> from_phase co x w)
    (from_phase co x)"
  unfolding commit_attempt_def
proof (rule triple_quiet_bind [where B = "\<lambda>_. nothing_stored co p (snd x) \<and> was_live co p"])
  let ?Q = "\<lambda>r w. newly_completed co x p step r w \<and> from_phase co x w"
  show "nothing_stored co p (snd x) \<and> was_live co p" if "phase co w = x" "still_free co p w = (Inr a, w')" for a w w'
    using still_free_Inr [OF that(2)] that(1) by (auto simp: phase_def)
  assume free: "nothing_stored co p (snd x) \<and> was_live co p"
  have x_eq: "x = (Inr (Some (Pending p)), snd x)" using x by (metis prod.collapse)
  have finish: "triple (at_phase co x)
      (bind_op (writeRecord (co_env co) (Committed (pd_referenceDigest p) c (receipt_of (co_env co) c))) (\<lambda>_.
       bind_op (bootstrap_apply co (pd_referenceDigest p) c (receipt_of (co_env co) c)) (\<lambda>_.
         return_op (receipt_of (co_env co) c)))) ?Q (from_phase co x)"
    if c: "completes co p step c"
      and "bootstrap_record_ok (co_env co) (Committed (pd_referenceDigest p) c (receipt_of (co_env co) c))" for c
  proof (rule triple_write_bind [OF dates])
    have ok: "completion_ok (co_env co) c" using that(2) by simp
    let ?d = "pd_referenceDigest p" and ?r = "receipt_of (co_env co) c"
    let ?y = "(Inr (Some (Committed ?d c ?r)), snd x) :: 's phase"
    show step: "bootstrap_step co x ?y"
      using p free c ok by (subst x_eq) (auto intro: Commit)
    show "triple (at_phase co ?y) (bind_op (bootstrap_apply co ?d c ?r) (\<lambda>_. return_op ?r)) ?Q (from_phase co x)"
    proof (rule triple_bind)
      show "triple (at_phase co ?y) (bootstrap_apply co ?d c ?r)
          (\<lambda>_ w. fst (phase co w) = Inr (Some (Applied ?d ?r)) \<and> projected co c (snd (phase co w)) \<and> from_phase co ?y w)
          (from_phase co x)"
        by (rule triple_weaken [OF apply_triple [OF refl]]) (use step in \<open>auto intro: from_trans\<close>)
      show "triple (\<lambda>w. fst (phase co w) = Inr (Some (Applied ?d ?r)) \<and> projected co c (snd (phase co w))
          \<and> from_phase co ?y w) (return_op ?r) ?Q (from_phase co x)" for a
        by (rule triple_return)
          (use step c ok free in \<open>auto simp: newly_completed_def intro: from_trans\<close>)
    qed
  qed
  show "triple (at_phase co x) (bind_op (new_completion co p step) (publish_completion co p)) ?Q (from_phase co x)"
  proof (rule triple_quiet_bind [where B = "completes co p step"])
    show "triple (at_phase co x) (publish_completion co p c) ?Q (from_phase co x)" if "completes co p step c" for c
      unfolding publish_completion_def Let_def
      by (rule triple_bj_require [OF triple_quiet_then [OF quiet_hooks(1) triple_quiet_then [OF quiet_free(2) finish]]])
        (use that in assumption)+
  qed (auto intro: quiet_intros new_completion_Inr)
qed (auto intro: quiet_intros)

lemma complete_triple:
  "triple (at_phase co x) (bootstrap_complete co reference token)
     (\<lambda>r w. completion_authorised co x reference token r w \<and> from_phase co x w) (from_phase co x)"
  unfolding bootstrap_complete_def
proof (rule triple_bind [OF recover_triple])
  let ?Q = "\<lambda>r w. completion_authorised co x reference token r w \<and> from_phase co x w"
  let ?fresh = "bind_op (pending_attempt co reference) (\<lambda>p.
      bind_op (bj_require (pd_backupCodesAcknowledged p) BJ_INVALID) (\<lambda>_.
      bind_op (bj_require (is_totp_token token) BJ_INVALID) (\<lambda>_.
      bind_op (before_complete co) (\<lambda>_.
      bind_op (verified_step co p token) (\<lambda>step. commit_attempt co p step)))))"
  let ?rest = "bind_op (readRecord (co_env co)) (\<lambda>prior.
      case prior of
        Some (Applied digest receipt) \<Rightarrow> bind_op (bound_reference co digest reference) (\<lambda>_. return_op receipt)
      | _ \<Rightarrow> ?fresh)"
  have fresh: "triple (at_phase co y) ?fresh ?Q (from_phase co x)"
    if y: "after_recovery x y" "bootstrap_run co x y" for y
  proof (rule triple_quiet_bind [where B = "\<lambda>p. fst y = Inr (Some (Pending p))
      \<and> referenceDigest (co_env co) reference = Inr (pd_referenceDigest p)"])
    show "fst y = Inr (Some (Pending p)) \<and> referenceDigest (co_env co) reference = Inr (pd_referenceDigest p)"
      if "phase co w = y" "pending_attempt co reference w = (Inr p, w')" for p w w'
      using pending_attempt_Inr [OF that(2)] that(1) by auto
    fix p assume p: "fst y = Inr (Some (Pending p)) \<and> referenceDigest (co_env co) reference = Inr (pd_referenceDigest p)"
    then have yx: "y = x" using y(1) by (auto simp: after_recovery_def split: sum.splits option.splits bootstrap_record.splits)
    have go: "triple (at_phase co y) (bind_op (before_complete co) (\<lambda>_.
        bind_op (verified_step co p token) (\<lambda>step. commit_attempt co p step))) ?Q (from_phase co x)"
      if "pd_backupCodesAcknowledged p" "is_totp_token token"
    proof (rule triple_quiet_then [OF quiet_hooks(2)], rule triple_quiet_bind [where B = "code_verified co p token"])
      fix step assume verified: "code_verified co p token step"
      show "triple (at_phase co y) (commit_attempt co p step) ?Q (from_phase co x)"
        unfolding yx
        by (rule triple_weaken [OF commit_triple [OF _ that(1) verified]])
          (use p yx that verified in \<open>auto simp: completion_authorised_def newly_completed_def\<close>)
    qed (use yx that in \<open>auto intro: quiet_intros verified_step_Inr\<close>)
    show "triple (at_phase co y) (bind_op (bj_require (pd_backupCodesAcknowledged p) BJ_INVALID) (\<lambda>_.
        bind_op (bj_require (is_totp_token token) BJ_INVALID) (\<lambda>_.
        bind_op (before_complete co) (\<lambda>_.
        bind_op (verified_step co p token) (\<lambda>step. commit_attempt co p step))))) ?Q (from_phase co x)"
      by (rule triple_bj_require [OF triple_bj_require [OF go]]) (use yx in auto)
  qed (use y(2) in \<open>auto intro: quiet_intros from_trans\<close>)
  have rest: "triple (at_phase co y) ?rest ?Q (from_phase co x)"
    if y: "after_recovery x y \<and> bootstrap_run co x y" for y
  proof (rule triple_quiet_bind [where B = "\<lambda>v. fst y = Inr v"])
    fix v assume v: "fst y = Inr v"
    show "triple (at_phase co y) (case v of
        Some (Applied digest receipt) \<Rightarrow> bind_op (bound_reference co digest reference) (\<lambda>_. return_op receipt)
      | _ \<Rightarrow> ?fresh) ?Q (from_phase co x)"
    proof (cases "\<exists>d r. v = Some (Applied d r)")
      case True
      then obtain d r where dr: "v = Some (Applied d r)" by blast
      then have held: "receipt_in (fst x) = Some (d, r)"
        using y v by (auto simp: after_recovery_def receipt_in_def split: sum.splits option.splits bootstrap_record.splits)
      have "triple (at_phase co y) (bind_op (bound_reference co d reference) (\<lambda>_. return_op r)) ?Q (from_phase co x)"
      proof (rule triple_quiet_bind [where B = "\<lambda>_. referenceDigest (co_env co) reference = Inr d"])
        assume "referenceDigest (co_env co) reference = Inr d"
        then show "triple (at_phase co y) (return_op r) ?Q (from_phase co x)"
          using y v dr held
          by (intro triple_return) (auto simp: completion_authorised_def at_phase_def from_phase_def)
      qed (use y in \<open>auto intro: quiet_intros bound_reference_Inr from_trans\<close>)
      then show ?thesis by (simp add: dr)
    next
      case False
      then show ?thesis using fresh y by (cases v; cases "the v") auto
    qed
  qed (use y in \<open>auto intro: quiet_intros readRecord_phase from_trans\<close>)
  show "triple (\<lambda>w. recovered co x w \<and> from_phase co x w) ?rest ?Q (from_phase co x)" for a
    using triple_from_phase [where P = "\<lambda>y. after_recovery x y \<and> bootstrap_run co x y", OF rest]
    by (simp add: recovered_after from_phase_def)
qed

lemma follows_complete: "follows co (bootstrap_complete co reference token)"
  by (rule followsI, rule triple_weaken [OF complete_triple]) auto

end

end
