(* ===== verification/Bootstrap_Guarantees.thy ===== *)
theory Bootstrap_Guarantees
  imports Bootstrap_Protocol File_Storage
begin

text \<open>
  The file bootstrap over the file adapter: the journal gives back what it was given, every
  sequence of operations follows the protocol, and a completion is authorised and leaves the one
  account it made.
\<close>

section \<open>The adapter\<close>

text \<open>A coordinator that reads the file adapter; its hooks may refuse and change nothing.\<close>

definition file_coordinator ::
  "files coordinator \<Rightarrow> (string \<Rightarrow> unit result) option \<Rightarrow> unit result option \<Rightarrow> files coordinator" where
  "file_coordinator config namespace deny =
     config\<lparr>co_getAllUsers := file_getAllUsers, co_getTOTPSecret := file_getTOTPSecret,
       co_getBackupCodes := file_getBackupCodes,
       co_assertNamespaceAvailable := map_option (\<lambda>f h. of_result (f h)) namespace,
       co_beforeComplete := map_option of_result deny\<rparr>"

lemma file_coordinator_simps [simp]:
  "co_env (file_coordinator config namespace deny) = co_env config"
  "co_getAllUsers (file_coordinator config namespace deny) = file_getAllUsers"
  "co_getTOTPSecret (file_coordinator config namespace deny) = file_getTOTPSecret"
  "co_getBackupCodes (file_coordinator config namespace deny) = file_getBackupCodes"
  by (simp_all add: file_coordinator_def)

interpretation file_reads: bootstrap_reads "file_coordinator config namespace deny" for config namespace deny
  by unfold_locales
    (auto simp: file_getAllUsers_def file_getTOTPSecret_def file_getBackupCodes_def file_coordinator_def of_result_def
      split: option.split)

lemma file_boots: "dates_read (co_env config) \<Longrightarrow> bootstrap_storage (file_coordinator config namespace deny)"
  by (simp add: bootstrap_storage_def bootstrap_storage_axioms_def file_reads.bootstrap_reads_axioms)

section \<open>Lemmas\<close>

lemma entry_view_ok: "entry_view env e = Inr (Some r) \<Longrightarrow> bootstrap_record_ok env r"
  by (auto simp: entry_view_def open_serialized_def open_plaintext_def expect_def bind_eq_Some_conv
      split: option.splits journal_entry.splits sum.splits if_splits)

lemma zip_short: "length (zip xs ys) = length ys \<Longrightarrow> map snd (zip xs ys) = ys"
  by (simp add: map_snd_zip_take)

lemma completion_hashes:
  assumes "completion_ok env (completion_of env p cipher t n ids)" "length (pd_backupCodes p) = 10"
  shows "map bc_hash (bs_codes (cp_backupCodes (completion_of env p cipher t n ids)))
    = map (hashBackupCode (jn_sha256 env)) (pd_backupCodes p)"
proof -
  have "length (zip ids (pd_backupCodes p)) = length (pd_backupCodes p)"
    using assms by (simp add: completion_ok_def completion_codes_ok_def completion_of_def createBackupCodeSet_def)
  from zip_short [OF this]
  have "map (hashBackupCode (jn_sha256 env)) (map snd (zip ids (pd_backupCodes p)))
      = map (hashBackupCode (jn_sha256 env)) (pd_backupCodes p)" by (rule arg_cong)
  then show ?thesis by (simp add: completion_of_def createBackupCodeSet_def comp_def split_def)
qed

text \<open>A projected completion on the file adapter.\<close>

lemma file_projected:
  assumes "projected (file_coordinator config namespace deny) (completion_of env p cipher t n ids) f"
  obtains u ts cs where "f_users f = [u]" "projected_user (cp_user (completion_of env p cipher t n ids)) u"
    "map_of (f_totp f) (pd_handle p) = Some ts" "projected_factor (cp_totpSecret (completion_of env p cipher t n ids)) ts"
    "map_of (f_codes f) (pd_userId p) = Some cs"
    "list_all (\<lambda>h. h \<in> set (map bc_hash (bs_codes cs)))
       (map bc_hash (bs_codes (cp_backupCodes (completion_of env p cipher t n ids))))"
proof -
  let ?c = "completion_of env p cipher t n ids"
  have ids: "u_handle (cp_user ?c) = pd_handle p" "u_id (cp_user ?c) = pd_userId p" by (simp_all add: completion_of_def)
  obtain u ts cs where "f_users f = [u]" "projected_user (cp_user ?c) u"
      and ts: "file_getTOTPSecret (pd_handle p) f = (Inr (Some ts), f)" "projected_factor (cp_totpSecret ?c) ts"
      and cs: "file_getBackupCodes (pd_userId p) f = (Inr (Some cs), f)"
        "list_all (\<lambda>code. \<exists>item \<in> set (bs_codes cs). bc_id item = bc_id code \<and> bc_hash item = bc_hash code)
           (bs_codes (cp_backupCodes ?c))"
    using assms unfolding projected_def file_coordinator_simps ids
    by (auto simp: file_getAllUsers_def)
  moreover have "map_of (f_totp f) (pd_handle p) = Some ts"
    using ts(1) by (auto simp: file_getTOTPSecret_def split: option.splits if_splits)
  moreover have "map_of (f_codes f) (pd_userId p) = Some cs"
    using cs(1) by (auto simp: file_getBackupCodes_def split: option.splits if_splits)
  moreover have "list_all (\<lambda>h. h \<in> set (map bc_hash (bs_codes cs))) (map bc_hash (bs_codes (cp_backupCodes ?c)))"
    using cs(2) by (auto simp: list_all_iff) (metis image_eqI)
  ultimately show thesis using that by blast
qed

text \<open>A completion made from a pending attempt, as the file adapter holds it.\<close>

lemma file_completed:
  assumes "entry_view (co_env config) (bw_file w) = Inr (Some (Pending p))"
    and "newly_completed (file_coordinator config namespace deny) (phase (file_coordinator config namespace deny) w) p step r w'"
  obtains u ts cs where "was_live (file_coordinator config namespace deny) p"
    "rc_attemptId r = pd_attemptId p" "rc_userId r = pd_userId p" "rc_handle r = pd_handle p"
    "f_users (bw_store w) = []" "f_users (bw_store w') = [u]" "u_id u = pd_userId p" "u_handle u = pd_handle p"
    "u_passwordHash u = pd_passwordHash p" "u_role u = ''super_admin''" "u_isActive u" "u_totpEnabled u"
    "map_of (f_totp (bw_store w')) (pd_handle p) = Some ts"
    "totp_decrypt (jn_gcm (co_env config)) (jn_key (co_env config)) (factor_data ts) = Inr (pd_secret p)"
    "map_of (f_codes (bw_store w')) (pd_userId p) = Some cs"
    "list_all (\<lambda>code. hashBackupCode (jn_sha256 (co_env config)) code \<in> set (map bc_hash (bs_codes cs))) (pd_backupCodes p)"
proof -
  let ?co = "file_coordinator config namespace deny" and ?env = "co_env config"
  obtain cipher t ids where c: "totp_decrypt (jn_gcm ?env) (jn_key ?env) cipher = Inr (pd_secret p)"
      "completion_ok ?env (completion_of ?env p cipher t step ids)"
      "r = receipt_of ?env (completion_of ?env p cipher t step ids)"
    and store: "nothing_stored ?co p (bw_store w)" "was_live ?co p"
      "projected ?co (completion_of ?env p cipher t step ids) (bw_store w')"
    using assms(2) by (auto simp: newly_completed_def completes_def phase_def)
  have "pending_ok ?env p" using entry_view_ok [OF assms(1)] by simp
  then have hashes: "map bc_hash (bs_codes (cp_backupCodes (completion_of ?env p cipher t step ids)))
      = map (hashBackupCode (jn_sha256 ?env)) (pd_backupCodes p)"
    by (intro completion_hashes [OF c(2)]) (simp add: pending_ok_def)
  obtain u ts cs where held: "f_users (bw_store w') = [u]"
      "projected_user (cp_user (completion_of ?env p cipher t step ids)) u"
      "map_of (f_totp (bw_store w')) (pd_handle p) = Some ts"
      "projected_factor (cp_totpSecret (completion_of ?env p cipher t step ids)) ts"
      "map_of (f_codes (bw_store w')) (pd_userId p) = Some cs"
      "list_all (\<lambda>h. h \<in> set (map bc_hash (bs_codes cs)))
         (map bc_hash (bs_codes (cp_backupCodes (completion_of ?env p cipher t step ids))))"
    using file_projected [OF store(3)] by blast
  have "factor_data ts = cipher"
    using held(4) by (simp add: projected_factor_def completion_of_def factor_data_def)
  moreover have "f_users (bw_store w) = []"
    using store(1) by (simp add: nothing_stored_def file_getAllUsers_def)
  moreover have "list_all (\<lambda>code. hashBackupCode (jn_sha256 ?env) code \<in> set (map bc_hash (bs_codes cs))) (pd_backupCodes p)"
    using held(6) unfolding hashes by (simp add: list_all_iff)
  ultimately show thesis
    using c(1,3) held(1,2,3,5) store(2)
    by (intro that [of u ts cs]) (auto simp: projected_user_def completion_of_def receipt_of_def)
qed

section \<open>Properties\<close>

text \<open>The operations of the coordinator as calls, and what a call leaves, whether it returns or fails.\<close>

datatype bootstrap_call =
    Recover | Assert_available | Begin begin_input | Read_setup string | Update_profile string journal_profile
  | Acknowledge_codes string | Complete string string

fun perform :: "'s coordinator \<Rightarrow> bootstrap_call \<Rightarrow> 's boot_world \<Rightarrow> 's boot_world" where
  "perform co Recover w = snd (bootstrap_recover co w)"
| "perform co Assert_available w = snd (assertAvailable co w)"
| "perform co (Begin input) w = snd (bootstrap_begin co input w)"
| "perform co (Read_setup reference) w = snd (bootstrap_read co reference w)"
| "perform co (Update_profile reference profile) w = snd (bootstrap_updateProfile co reference profile w)"
| "perform co (Acknowledge_codes reference) w = snd (acknowledgeBackupCodes co reference w)"
| "perform co (Complete reference token) w = snd (bootstrap_complete co reference token w)"

lemma follows_snd: "follows co m \<Longrightarrow> bootstrap_run co (phase co w) (phase co (snd (m w)))"
  using follows_run by (metis prod.collapse)

lemma perform_follows:
  assumes "bootstrap_storage co"
  shows "bootstrap_run co (phase co w) (phase co (perform co call w))"
  by (cases call) (simp_all add: bootstrap_recover_def follows_snd bootstrap_storage.follows_recover [OF assms]
      bootstrap_storage.follows_available [OF assms] bootstrap_storage.follows_begin [OF assms]
      bootstrap_storage.follows_read [OF assms] bootstrap_storage.follows_updateProfile [OF assms]
      bootstrap_storage.follows_acknowledge [OF assms] bootstrap_storage.follows_complete [OF assms])

lemma performs_follow:
  assumes "bootstrap_storage co"
  shows "bootstrap_run co (phase co w) (phase co (fold (perform co) calls w))"
proof (induction calls arbitrary: w)
  case (Cons call calls)
  show ?case using perform_follows [OF assms, of w call] Cons [of "perform co call w"] by simp
qed simp

text \<open>
  C39. A journal record that was written is the record that is read. What \<open>writeRecord\<close> leaves when
  it returns is, at the next successful read of the file, the record it was given: its JSON text,
  sealed and in its envelope, is parsed and validated back to it.
\<close>

theorem bootstrap_record_roundtrip:
  assumes "dates_read env" "writeRecord env r w = (Inr (), w')" "jn_read env (bw_asked w') = Inr ()"
  shows "fst (readRecord env w') = Inr (Some r)"
proof -
  have "entry_view env (bw_file w') = Inr (Some r)"
    using writeRecord_cases [OF assms(1,2)] by simp
  then show ?thesis
    using assms(3)
    by (auto simp: readRecord_def ask_def of_external_def entry_view_def split: option.splits journal_entry.splits sum.splits)
qed

text \<open>
  C9. Every sequence of operations on the file adapter follows the bootstrap protocol, whatever
  fails on the way, before or after it took effect. An attempt starts only when there is no journal
  or the earlier attempt has run out, on a store without accounts; a pending attempt changes only
  its profile and its acknowledgement; it is committed only when its codes are acknowledged, it is
  live and its code was verified; the store changes only by the projection of the committed
  completion, and the record is applied only when the store holds that completion. In particular a
  receipt, once committed, never changes, and an unreadable journal stays as it is.
\<close>

theorem bootstrap_refines_protocol:
  assumes "dates_read (co_env config)"
  shows "let co = file_coordinator config namespace deny; w' = fold (perform co) calls w in
    bootstrap_run co (phase co w) (phase co w')
    \<and> (case receipt_in (fst (phase co w)) of None \<Rightarrow> True | Some dr \<Rightarrow> receipt_in (fst (phase co w')) = Some dr)
    \<and> (case fst (phase co w) of Inl e \<Rightarrow> phase co w' = phase co w | Inr _ \<Rightarrow> True)"
proof -
  let ?co = "file_coordinator config namespace deny"
  let ?w = "fold (perform ?co) calls w"
  have run: "bootstrap_run ?co (phase ?co w) (phase ?co ?w)"
    by (rule performs_follow [OF file_boots [OF assms]])
  moreover have "phase ?co ?w = phase ?co w" if "fst (phase ?co w) = Inl e" for e
    using run_unreadable [of ?co e "snd (phase ?co w)"] run that by (metis prod.collapse)
  moreover have "receipt_in (fst (phase ?co ?w)) = Some dr" if "receipt_in (fst (phase ?co w)) = Some dr" for dr
    by (rule run_receipt [OF run that])
  ultimately show ?thesis by (auto simp: Let_def split: option.split sum.split)
qed

text \<open>
  C8. A completion is authorised and makes one administrator. When \<open>complete\<close> returns a receipt, the
  journal holds it as applied under the digest of the caller's reference, and either it was already
  committed under that digest, or: a live attempt with that digest was pending, its backup codes
  were acknowledged, the token was six digits that otplib accepted for the secret of the attempt,
  and the store had no account; then the store has exactly one account, the active
  \<open>super_admin\<close> of the attempt with its password hash, its factor decrypts to the secret of the
  attempt, and the hashes of all its backup codes are stored.
\<close>

theorem bootstrap_complete_authorised:
  assumes "dates_read (co_env config)"
    and "bootstrap_complete (file_coordinator config namespace deny) reference token w = (Inr r, w')"
  shows "\<exists>d. referenceDigest (co_env config) reference = Inr d
    \<and> entry_view (co_env config) (bw_file w') = Inr (Some (Applied d r))
    \<and> (receipt_in (entry_view (co_env config) (bw_file w)) = Some (d, r)
       \<or> (\<exists>p step u ts cs. entry_view (co_env config) (bw_file w) = Inr (Some (Pending p))
            \<and> pd_referenceDigest p = d \<and> pd_backupCodesAcknowledged p
            \<and> was_live (file_coordinator config namespace deny) p
            \<and> code_verified (file_coordinator config namespace deny) p token step
            \<and> rc_attemptId r = pd_attemptId p \<and> rc_userId r = pd_userId p \<and> rc_handle r = pd_handle p
            \<and> f_users (bw_store w) = [] \<and> f_users (bw_store w') = [u]
            \<and> u_id u = pd_userId p \<and> u_handle u = pd_handle p \<and> u_passwordHash u = pd_passwordHash p
            \<and> u_role u = ''super_admin'' \<and> u_isActive u \<and> u_totpEnabled u
            \<and> map_of (f_totp (bw_store w')) (pd_handle p) = Some ts
            \<and> totp_decrypt (jn_gcm (co_env config)) (jn_key (co_env config)) (factor_data ts) = Inr (pd_secret p)
            \<and> map_of (f_codes (bw_store w')) (pd_userId p) = Some cs
            \<and> list_all (\<lambda>code. hashBackupCode (jn_sha256 (co_env config)) code \<in> set (map bc_hash (bs_codes cs)))
                (pd_backupCodes p)))"
proof -
  let ?co = "file_coordinator config namespace deny" and ?env = "co_env config"
  have "completion_authorised ?co (phase ?co w) reference token r w'"
    using bootstrap_storage.complete_triple [OF file_boots [OF assms(1)], where x = "phase ?co w" and reference = reference and token = token]
      assms(2) by (auto simp: triple_def at_phase_def)
  then obtain d where d: "referenceDigest ?env reference = Inr d" "entry_view ?env (bw_file w') = Inr (Some (Applied d r))"
      and how: "receipt_in (entry_view ?env (bw_file w)) = Some (d, r)
        \<or> (\<exists>p step. entry_view ?env (bw_file w) = Inr (Some (Pending p)) \<and> pd_referenceDigest p = d
             \<and> pd_backupCodesAcknowledged p \<and> code_verified ?co p token step \<and> newly_completed ?co (phase ?co w) p step r w')"
    by (auto simp: completion_authorised_def phase_def)
  show ?thesis
  proof (cases "receipt_in (entry_view ?env (bw_file w)) = Some (d, r)")
    case True
    then show ?thesis using d by blast
  next
    case False
    then obtain p step where p: "entry_view ?env (bw_file w) = Inr (Some (Pending p))" "pd_referenceDigest p = d"
        "pd_backupCodesAcknowledged p" "code_verified ?co p token step"
        and new: "newly_completed ?co (phase ?co w) p step r w'"
      using how by blast
    show ?thesis
    proof (rule file_completed [OF p(1) new], goal_cases)
      case (1 u ts cs)
      then show ?case using d p
        by (intro exI [of _ d] conjI disjI2 exI [of _ p] exI [of _ step] exI [of _ u] exI [of _ ts] exI [of _ cs])
    qed
  qed
qed

section \<open>A concrete bootstrap\<close>

text \<open>
  An attempt of \<open>ada\<close> that waits for its completion. The cipher of the example seals four texts
  under their numbers.
\<close>

definition booted_sha :: "string \<Rightarrow> string" where
  "booted_sha s = replicate 63 CHR ''a'' @ [if s \<noteq> [] \<and> is_lower_hex (last s) then last s else CHR ''a'']"

definition booted_iso_date :: "string \<Rightarrow> int option" where
  "booted_iso_date s = (case read_number s of Some (n, []) \<Rightarrow> Some n | _ \<Rightarrow> None)"

definition booted_cipher :: "nat \<Rightarrow> encrypted_data" where
  "booted_cipher k =
     \<lparr>en_encrypted = base64_encode [k], en_salt = base64_encode (replicate 32 0),
      en_iv = base64_encode (replicate 16 0), en_tag = base64_encode (replicate 16 0)\<rparr>"

definition booted_table :: "string \<Rightarrow> string \<Rightarrow> string \<Rightarrow> string \<Rightarrow> gcm" where
  "booted_table t1 t2 t3 t4 =
     \<lparr>gc_scrypt = \<lambda>k salt n. [],
      gc_seal = \<lambda>key iv bs. ([if bs = utf8 t1 then 1 else if bs = utf8 t2 then 2 else if bs = utf8 t3 then 3 else 4],
        replicate 16 0),
      gc_open = \<lambda>key iv c t. Inr (if c = [1] then utf8 t1 else if c = [2] then utf8 t2 else if c = [3] then utf8 t3
        else utf8 t4)\<rparr>"

definition booted_base :: journal_env where
  "booted_base =
     \<lparr>jn_scope = ''demo'', jn_ttl = 600000, jn_gcm = turning_gcm, jn_key = ''key'', jn_sha256 = booted_sha,
      jn_iso = show_int, jn_date = booted_iso_date, jn_clock = \<lambda>n. 1000,
      jn_random = \<lambda>n. if n \<in> {10, 16, 19} then replicate 32 0 else replicate 16 0,
      jn_read = \<lambda>n. Inr (), jn_sync = \<lambda>n. Inr (), jn_publish = \<lambda>n. Journal_published\<rparr>"

definition booted_reference :: string where
  "booted_reference = hexes CHR ''c''"

definition booted_reference_digest :: string where
  "booted_reference_digest = booted_sha (BOOTSTRAP_DOMAIN @ '':reference'' @ [CHR 0x00] @ booted_reference)"

definition booted_pending :: bootstrap_pending where
  "booted_pending =
     \<lparr>pd_attemptId = hexes CHR ''b'', pd_referenceDigest = booted_reference_digest, pd_userId = ''u1'', pd_handle = ''ada'',
      pd_passwordHash = ''$2b$10$'' @ replicate 53 CHR ''x'', pd_secret = DUMMY_SECRET,
      pd_backupCodes = map (\<lambda>c. ''0000-000'' @ [c]) ''0123456789'', pd_backupCodesAcknowledged = True,
      pd_createdAt = Iso 500, pd_expiresAt = Iso 2000, pd_profile = None\<rparr>"

definition booted_ids :: "string list" where
  "booted_ids = map (\<lambda>c. [c]) ''0123456789''"

definition booted_completion :: bootstrap_completion where
  "booted_completion = completion_of booted_base booted_pending (booted_cipher 1) (Iso 1000) 0 booted_ids"

definition booted_receipt :: bootstrap_receipt where
  "booted_receipt = receipt_of booted_base booted_completion"

definition booted_committed :: bootstrap_record where
  "booted_committed = Committed booted_reference_digest booted_completion booted_receipt"

definition booted_applied :: bootstrap_record where
  "booted_applied = Applied booted_reference_digest booted_receipt"

definition booted_env :: journal_env where
  "booted_env = booted_base\<lparr>jn_gcm := booted_table DUMMY_SECRET (record_plaintext booted_base booted_committed)
     (record_plaintext booted_base booted_applied) (record_plaintext booted_base (Pending booted_pending))\<rparr>"

definition booted_project :: "bootstrap_completion \<Rightarrow> (files, unit) op" where
  "booted_project c = (\<lambda>f. (Inr (), f\<lparr>f_users := [cp_user c], f_totp := [(u_handle (cp_user c), cp_totpSecret c)],
     f_codes := [(u_id (cp_user c), cp_backupCodes c)]\<rparr>))"

definition booted_config :: "files coordinator" where
  "booted_config =
     \<lparr>co_env = booted_env, co_getAllUsers = file_getAllUsers, co_getTOTPSecret = file_getTOTPSecret,
      co_getBackupCodes = file_getBackupCodes, co_assertNamespaceAvailable = None, co_project = booted_project,
      co_beforeComplete = None, co_check = \<lambda>secret token digits period tolerance epoch. Inr (Some 0),
      co_authenticator = initial_authenticator_config, co_epoch = \<lambda>n. 1, co_generateSecret = \<lambda>n. Inr DUMMY_SECRET,
      co_generateQRCode = \<lambda>h s. Inr ''qr'', co_randomUUID = \<lambda>n. ''u1'', co_codeBytes = \<lambda>n. [], co_codeIds = \<lambda>n. booted_ids\<rparr>"

abbreviation booted_co :: "files coordinator" where
  "booted_co \<equiv> file_coordinator booted_config None None"

definition booted_world :: "files boot_world" where
  "booted_world = \<lparr>bw_store = empty_files, bw_file = Some (Regular_file (serialized_envelope (booted_cipher 4))), bw_asked = 0\<rparr>"

lemma booted_dates: "dates_read booted_env"
  by (simp add: dates_read_def booted_env_def booted_base_def booted_iso_date_def read_number_show [of "[]", simplified])

interpretation booted_boots: bootstrap_storage booted_co
  by (rule file_boots) (simp add: booted_config_def booted_dates)

lemma stamp_text_gcm [simp]: "stamp_text (env\<lparr>jn_gcm := g\<rparr>) d = stamp_text env d"
  by (cases d) simp_all

lemma record_json_gcm [simp]: "bootstrap_record_json (env\<lparr>jn_gcm := g\<rparr>) r = bootstrap_record_json env r"
  by (cases r) (simp_all add: pending_json_def completion_json_def bootstrap_receipt_json_def completion_user_json_def
      completion_factor_json_def completion_codes_json_def stamp_json_def)

lemma plaintext_gcm [simp]: "record_plaintext (env\<lparr>jn_gcm := g\<rparr>) r = record_plaintext env r"
  by (simp add: record_plaintext_def)

lemma digest_gcm [simp]: "materialDigest (env\<lparr>jn_gcm := g\<rparr>) c = materialDigest env c"
  by (simp add: materialDigest_def completion_json_def completion_user_json_def
      completion_factor_json_def completion_codes_json_def stamp_json_def)

lemma booted_sha_hex [simp]: "is_sha256_hex (booted_sha s)"
proof -
  have "is_lower_hex CHR ''a''" by code_simp
  then show ?thesis by (simp add: booted_sha_def is_sha256_hex_def list_all_iff)
qed

lemma booted_hex: "is_lower_hex CHR ''b''" "is_lower_hex CHR ''c''"
  by code_simp+

lemma booted_iso_texts: "journal_text 24 (show_int 500)" "journal_text 24 (show_int 1000)" "journal_text 24 (show_int 2000)"
  by (simp_all add: journal_text_def show_int_def show_nat.simps [of 500] show_nat.simps [of 1000]
      show_nat.simps [of 2000] show_nat.simps [of 200] show_nat.simps [of 100] show_nat.simps [of 50]
      show_nat.simps [of 20] show_nat.simps [of 10] show_nat.simps [of 5] show_nat.simps [of 2] show_nat.simps [of "Suc 0"])

lemma booted_texts: "journal_text 128 ''u1''" "journal_handle ''ada''" "journal_passwordHash (''$2b$10$'' @ replicate 53 CHR ''x'')"
  "journal_secret DUMMY_SECRET" "list_all journal_code_format (map (\<lambda>c. ''0000-000'' @ [c]) ''0123456789'')"
  "distinct (map (\<lambda>c. ''0000-000'' @ [c]) ''0123456789'')" "is_totp_token ''123456''"
  by code_simp+

lemma canonical_encode: "byte_list bs \<Longrightarrow> canonical_base64 (base64_encode bs)"
  by (simp add: canonical_base64_def base64_decode_encode)

lemma length_base64: "length (base64_encode bs) = 4 * ((length bs + 2) div 3)"
  by (induction bs rule: base64_encode.induct) (simp_all, presburger)

lemma booted_encrypted: "k < 5 \<Longrightarrow> journal_encrypted (booted_cipher k)"
proof -
  assume "k < 5"
  then have bytes: "byte_list [k]" "byte_list (replicate 32 0)" "byte_list (replicate 16 0)"
    by (simp_all add: byte_list_def list_all_iff)
  have short: "journal_text BOOTSTRAP_MAX_BYTES (base64_encode bs)" if "bs \<noteq> []" "length bs \<le> 32" for bs
    using that length_base64 [of bs] by (cases bs) (auto simp: journal_text_def BOOTSTRAP_MAX_BYTES_def)
  show ?thesis
    using bytes short [of "[k]"] short [of "replicate 32 0"] short [of "replicate 16 0"]
    by (simp add: journal_encrypted_def booted_cipher_def canonical_encode base64_decode_encode
        del: base64_encode.simps)
qed

lemma length_json_string: "length (json_string s) \<le> 6 * length s + 2"
proof -
  have "length (json_char c) \<le> 6" for c by (simp add: json_char_def Let_def)
  then have "length (json_body s) \<le> 6 * length s"
    by (induction s) (auto simp: json_body_def add_le_mono)
  then show ?thesis by (simp add: json_string_def)
qed

lemma length_utf8: "length (utf8 s) \<le> 2 * length s"
  by (induction s) (auto simp: utf8_def utf8_char_def Let_def)

lemma booted_size: "length (utf8 (serialized_envelope (booted_cipher k))) \<le> BOOTSTRAP_MAX_BYTES"
proof -
  let ?c = "booted_cipher k"
  have "length (serialized_envelope ?c) \<le> 2000"
    using length_json_string [of "''version''"] length_json_string [of "''encrypted''"] length_json_string [of "''salt''"]
      length_json_string [of "''iv''"] length_json_string [of "''tag''"] length_json_string [of "en_encrypted ?c"]
      length_json_string [of "en_salt ?c"] length_json_string [of "en_iv ?c"] length_json_string [of "en_tag ?c"]
    by (simp add: serialized_envelope_def encrypted_json_def json_braces_def show_int_def show_nat.simps [of "Suc 0"]
        booted_cipher_def length_base64)
  then show ?thesis using length_utf8 [of "serialized_envelope ?c"] by (simp add: BOOTSTRAP_MAX_BYTES_def)
qed

lemma booted_pending_ok: "pending_ok booted_env booted_pending"
  using booted_texts
  by (simp add: pending_ok_def booted_pending_def booted_hex booted_reference_digest_def journal_iso_def MAX_TTL_def
      booted_env_def booted_base_def booted_iso_texts optional_ok_def)

lemma encrypted_eta:
  "\<lparr>en_encrypted = en_encrypted c, en_salt = en_salt c, en_iv = en_iv c, en_tag = en_tag c\<rparr> = c"
  by (cases c) simp

lemma booted_completion_ok: "completion_ok booted_env booted_completion"
  using booted_texts booted_encrypted [of 1]
  by (simp add: completion_ok_def booted_completion_def completion_of_def booted_pending_def booted_hex journal_iso_def
      booted_env_def booted_base_def booted_iso_texts optional_ok_def completion_user_ok_def completion_user_keys_def
      completion_factor_ok_def factor_data_def encrypted_eta journal_text_def [of 128 "[_]"] isSafeInteger_def completion_codes_ok_def createBackupCodeSet_def
      booted_ids_def hashBackupCode_def)

lemma booted_records:
  "bootstrap_record_ok booted_env (Pending booted_pending)" "bootstrap_record_ok booted_env booted_committed"
  "bootstrap_record_ok booted_env booted_applied"
proof -
  have receipt: "bootstrap_receipt_ok booted_env booted_receipt"
    using booted_texts
    by (simp add: bootstrap_receipt_ok_def booted_receipt_def receipt_of_def booted_completion_def completion_of_def
        booted_pending_def booted_hex journal_iso_def booted_env_def booted_base_def booted_iso_texts materialDigest_def)
  have digest: "materialDigest booted_env booted_completion = materialDigest booted_base booted_completion"
    by (simp add: booted_env_def)
  show "bootstrap_record_ok booted_env (Pending booted_pending)" by (simp add: booted_pending_ok)
  show "bootstrap_record_ok booted_env booted_committed"
    using receipt booted_completion_ok digest
    by (simp add: booted_committed_def booted_reference_digest_def) (simp add: booted_receipt_def receipt_of_def)
  show "bootstrap_record_ok booted_env booted_applied"
    using receipt by (simp add: booted_applied_def booted_reference_digest_def)
qed

lemma booted_plaintext: "record_plaintext booted_base r = record_plaintext booted_env r"
  by (simp add: booted_env_def)

lemma plaintext_inj:
  assumes "bootstrap_record_ok booted_env r" "bootstrap_record_ok booted_env r'"
    and "record_plaintext booted_env r = record_plaintext booted_env r'"
  shows "r = r'"
  using open_plaintext_record [OF booted_dates assms(1)] open_plaintext_record [OF booted_dates assms(2)] assms(3)
  by (metis sum.inject(2))

lemma plain_not_secret: "record_plaintext env r \<noteq> DUMMY_SECRET"
  by (simp add: record_plaintext_def json_braces_def DUMMY_SECRET_def)

lemma booted_open:
  "k < 5 \<Longrightarrow> totp_decrypt (jn_gcm booted_env) (jn_key booted_env) (booted_cipher k) = Inr
     (if k = 1 then DUMMY_SECRET else if k = 2 then record_plaintext booted_env booted_committed
      else if k = 3 then record_plaintext booted_env booted_applied else record_plaintext booted_env (Pending booted_pending))"
  by (simp add: totp_decrypt_def booted_cipher_def booted_env_def booted_table_def base64_decode_encode byte_list_def
      utf8_text_utf8 del: base64_encode.simps)

lemma booted_seal:
  "totp_encrypt (jn_gcm booted_env) (jn_key booted_env) (replicate 32 0) (replicate 16 0) t = booted_cipher
     (if t = DUMMY_SECRET then 1 else if t = record_plaintext booted_env booted_committed then 2
      else if t = record_plaintext booted_env booted_applied then 3 else 4)"
  by (simp add: totp_encrypt_def booted_cipher_def booted_env_def booted_table_def utf8_inj del: base64_encode.simps)

lemma booted_seals:
  "totp_encrypt (jn_gcm booted_env) (jn_key booted_env) (replicate 32 0) (replicate 16 0) DUMMY_SECRET = booted_cipher 1"
  "totp_encrypt (jn_gcm booted_env) (jn_key booted_env) (replicate 32 0) (replicate 16 0)
     (record_plaintext booted_env booted_committed) = booted_cipher 2"
  "totp_encrypt (jn_gcm booted_env) (jn_key booted_env) (replicate 32 0) (replicate 16 0)
     (record_plaintext booted_env booted_applied) = booted_cipher 3"
proof -
  have "record_plaintext booted_env booted_applied \<noteq> record_plaintext booted_env booted_committed"
    using plaintext_inj [OF booted_records(3,2)] by (auto simp: booted_applied_def booted_committed_def)
  then show
    "totp_encrypt (jn_gcm booted_env) (jn_key booted_env) (replicate 32 0) (replicate 16 0) DUMMY_SECRET = booted_cipher 1"
    "totp_encrypt (jn_gcm booted_env) (jn_key booted_env) (replicate 32 0) (replicate 16 0)
       (record_plaintext booted_env booted_committed) = booted_cipher 2"
    "totp_encrypt (jn_gcm booted_env) (jn_key booted_env) (replicate 32 0) (replicate 16 0)
       (record_plaintext booted_env booted_applied) = booted_cipher 3"
    by (simp_all add: booted_seal plain_not_secret)
qed

lemma booted_opened:
  "open_serialized booted_env (serialized_envelope (booted_cipher 4)) = Inr (Pending booted_pending)"
  "open_serialized booted_env (serialized_envelope (booted_cipher 2)) = Inr booted_committed"
  "open_serialized booted_env (serialized_envelope (booted_cipher 3)) = Inr booted_applied"
  by (rule written_view [OF booted_dates _ booted_encrypted _ booted_size]; simp add: booted_records booted_pending_ok booted_open)+

lemma booted_read:
  "bw_file w = Some (Regular_file s) \<Longrightarrow> open_serialized booted_env s = Inr r
   \<Longrightarrow> readRecord booted_env w = (Inr (Some r), w\<lparr>bw_asked := Suc (bw_asked w)\<rparr>)"
  by (simp add: readRecord_def ask_def of_external_def booted_env_def booted_base_def)

lemma booted_write:
  assumes "bootstrap_record_ok booted_env r" "k < 5" "totp_decrypt (jn_gcm booted_env) (jn_key booted_env) (booted_cipher k) = Inr (record_plaintext booted_env r)"
    and "totp_encrypt (jn_gcm booted_env) (jn_key booted_env) (replicate 32 0) (replicate 16 0) (record_plaintext booted_env r) = booted_cipher k"
    and "bw_asked w \<in> {10, 16, 19}"
  shows "writeRecord booted_env r w = (Inr (), w\<lparr>bw_file := Some (Regular_file (serialized_envelope (booted_cipher k))),
    bw_asked := bw_asked w + 3\<rparr>)"
proof -
  have random: "jn_random booted_env (bw_asked w) = replicate 32 0" "jn_random booted_env (Suc (bw_asked w)) = replicate 16 0"
    using assms(5) by (auto simp: booted_env_def booted_base_def)
  have publish: "jn_publish booted_env n = Journal_published" for n by (simp add: booted_env_def booted_base_def)
  show ?thesis
    by (simp add: writeRecord_def bj_require_def assms(1,3,4) journal_encrypt_def ask_def random journal_decrypt_def
        of_external_def booted_encrypted [OF assms(2)] booted_size publish_file_def publish Let_def numeral_3_eq_3)
qed

theorem bootstrap_record_roundtrip_witness:
  "fst (readRecord booted_env (snd (writeRecord booted_env booted_applied (booted_world\<lparr>bw_asked := 10\<rparr>))))
     = Inr (Some booted_applied)"
proof -
  have w: "writeRecord booted_env booted_applied (booted_world\<lparr>bw_asked := 10\<rparr>)
      = (Inr (), booted_world\<lparr>bw_file := Some (Regular_file (serialized_envelope (booted_cipher 3))), bw_asked := 13\<rparr>)"
    by (subst booted_write [where k = 3]) (simp_all add: booted_records booted_open booted_seals)
  show ?thesis
    unfolding w snd_conv
    by (rule bootstrap_record_roundtrip [OF booted_dates w]) (simp add: booted_env_def booted_base_def)
qed

lemma booted_co_simps [simp]:
  "co_env booted_config = booted_env" "co_env booted_co = booted_env" "co_assertNamespaceAvailable booted_co = None" "co_beforeComplete booted_co = None"
  "co_project booted_co = booted_project" "co_codeIds booted_co = (\<lambda>n. booted_ids)" "jn_clock booted_env = (\<lambda>n. 1000)"
  "jn_sync booted_env = (\<lambda>n. Inr ())"
  by (simp_all add: booted_config_def file_coordinator_def booted_env_def booted_base_def)

lemma booted_pending_simps [simp]:
  "pd_referenceDigest booted_pending = booted_reference_digest" "pd_userId booted_pending = ''u1''"
  "pd_handle booted_pending = ''ada''" "pd_secret booted_pending = DUMMY_SECRET"
  "pd_backupCodesAcknowledged booted_pending" "pd_createdAt booted_pending = Iso 500" "pd_expiresAt booted_pending = Iso 2000"
  by (simp_all add: booted_pending_def)

lemma booted_free:
  "bw_store w = empty_files \<Longrightarrow> still_free booted_co booted_pending w = (Inr (), w\<lparr>bw_asked := bw_asked w + 2\<rparr>)"
  by (simp add: still_free_def empty_def no_users_def no_material_def unexpired_def journal_now_def ask_def in_storage_def
      bj_require_def bj_fail_def file_getAllUsers_def file_getTOTPSecret_def file_getBackupCodes_def empty_files_def
      at_or_before_def)

lemma booted_digest: "referenceDigest booted_env booted_reference = Inr booted_reference_digest"
  by (simp add: referenceDigest_def booted_reference_def booted_hex booted_reference_digest_def booted_env_def booted_base_def)

lemma booted_attempt:
  assumes "bw_store w = empty_files" "bw_file w = Some (Regular_file (serialized_envelope (booted_cipher 4)))"
  shows "pending_attempt booted_co booted_reference w = (Inr booted_pending, w\<lparr>bw_asked := bw_asked w + 3\<rparr>)"
  by (simp add: pending_attempt_def of_result_def booted_digest booted_read [OF assms(2) booted_opened(1)]
      bound_reference_def bj_require_def booted_free assms(1) numeral_3_eq_3)

lemma booted_verified:
  "verified_step booted_co booted_pending ''123456'' w = (Inr 0, w\<lparr>bw_asked := bw_asked w + 2\<rparr>)"
proof -
  have floor: "assertSecretMeetsFloor DUMMY_SECRET = Inr ()" by code_simp
  show ?thesis
    by (simp add: verified_step_def ask_def journal_now_def verifyTokenWithStep_matched matched_step_def attempt_secret_def
        getAuthenticatorCheckDelta_def floor booted_config_def file_coordinator_def of_external_def currentStepFor_def
        getAuthenticatorStep_def initial_authenticator_config_def isSafeInteger_def)
qed

lemma booted_completion_env:
  "completion_of booted_env booted_pending (booted_cipher 1) (Iso 1000) 0 booted_ids = booted_completion"
  "receipt_of booted_env booted_completion = booted_receipt"
  by (simp_all add: booted_completion_def booted_receipt_def completion_of_def receipt_of_def booted_env_def)

lemma booted_new_completion:
  assumes "bw_asked w = 10"
  shows "new_completion booted_co booted_pending 0 w = (Inr booted_completion, w\<lparr>bw_asked := 14\<rparr>)"
proof -
  have random: "jn_random booted_env 10 = replicate 32 0" "jn_random booted_env 11 = replicate 16 0"
    by (simp_all add: booted_env_def booted_base_def)
  have sealed: "journal_encrypt booted_env DUMMY_SECRET w = (Inr (booted_cipher 1), w\<lparr>bw_asked := 12\<rparr>)"
    using booted_seals(1) by (simp add: journal_encrypt_def ask_def assms random)
  have opened: "journal_decrypt booted_env (booted_cipher 1) v = (Inr DUMMY_SECRET, v)" for v :: "files boot_world"
    using booted_open [of 1] by (simp add: journal_decrypt_def of_external_def)
  have sealed_secret: "sealed_secret booted_co booted_pending w = (Inr (booted_cipher 1), w\<lparr>bw_asked := 12\<rparr>)"
    by (simp add: sealed_secret_def sealed opened bj_require_def del: One_nat_def)
  show ?thesis
    by (simp add: new_completion_def sealed_secret ask_def journal_now_def booted_completion_env del: One_nat_def)
qed

definition booted_files :: files where
  "booted_files = empty_files\<lparr>f_users := [cp_user booted_completion], f_totp := [(''ada'', cp_totpSecret booted_completion)],
     f_codes := [(''u1'', cp_backupCodes booted_completion)]\<rparr>"

lemma booted_projects: "booted_project booted_completion empty_files = (Inr (), booted_files)"
  by (simp add: booted_project_def booted_files_def) (simp add: booted_completion_def completion_of_def)

lemma booted_parts:
  "u_id (cp_user booted_completion) = ''u1''" "u_handle (cp_user booted_completion) = ''ada''"
  "projected_user (cp_user booted_completion) (cp_user booted_completion)"
  "projected_factor (cp_totpSecret booted_completion) (cp_totpSecret booted_completion)"
  "ts_lastUsedAt (cp_totpSecret booted_completion) = Some (Iso 1000)"
  "bs_userId (cp_backupCodes booted_completion) = ''u1''" "bs_lastUsedAt (cp_backupCodes booted_completion) = None"
  by (simp_all add: booted_completion_def completion_of_def projected_user_def projected_factor_def blank_user_def
      isSafeInteger_def createBackupCodeSet_def)

lemma in_storage_eval:
  "m (bw_store w) = (Inr a, bw_store w) \<Longrightarrow> in_storage m w = (Inr a, w)"
  by (simp add: in_storage_def)

lemma booted_check_before:
  assumes "bw_store w = empty_files"
  shows "checkProjection booted_co booted_completion False w = (Inr (), w)"
proof -
  have "in_storage file_getAllUsers w = (Inr [], w)" "in_storage (file_getTOTPSecret ''ada'') w = (Inr None, w)"
      "in_storage (file_getBackupCodes ''u1'') w = (Inr None, w)"
    by (rule in_storage_eval, simp add: assms file_getAllUsers_def file_getTOTPSecret_def file_getBackupCodes_def
        empty_files_def)+
  note reads = this
  have user: "check_user booted_co booted_completion False w = (Inr False, w)"
    by (simp add: check_user_def reads)
  have factor: "check_factor booted_co booted_completion False w = (Inr (), w)"
    by (simp add: check_factor_def reads booted_parts bj_require_def)
  have codes: "check_codes booted_co booted_completion False w = (Inr (), w)"
    by (simp add: check_codes_def reads booted_parts bj_require_def)
  show ?thesis by (simp add: checkProjection_def bind_op_def user factor codes)
qed

lemma check_same_codes:
  "distinct (map bc_id (pre @ cs)) \<Longrightarrow> list_all (\<lambda>c. bc_usedAt c = None) cs
   \<Longrightarrow> check_each_code co (pre @ cs) cs w = (Inr (), w)"
proof (induction cs arbitrary: pre)
  case (Cons c cs)
  have "List.find (\<lambda>item. bc_id item = bc_id c) (pre @ c # cs) = Some c"
    using Cons.prems(1) by (induction pre) auto
  then show ?case
    using Cons.prems Cons.IH [of "pre @ [c]"] by (simp add: optional_ok_def bj_require_def)
qed simp

lemma booted_code_list:
  "bs_codes (cp_backupCodes booted_completion) =
     map (\<lambda>c. \<lparr>bc_id = [c], bc_hash = booted_sha (normalizeBackupCode (''0000-000'' @ [c])), bc_used = False,
       bc_usedAt = None\<rparr>) ''0123456789''"
  by (simp add: booted_completion_def completion_of_def createBackupCodeSet_def booted_pending_def booted_ids_def
      hashBackupCode_def booted_base_def)

lemma booted_hashes:
  "map booted_sha (map (\<lambda>c. normalizeBackupCode (''0000-000'' @ [c])) ''0123456789'')
     = map (\<lambda>c. replicate 63 CHR ''a'' @ [c]) ''0123456789''"
proof -
  have normal: "map (\<lambda>c. normalizeBackupCode (''0000-000'' @ [c])) ''0123456789''
      = map (\<lambda>c. ''0000000'' @ [c]) ''0123456789''" by code_simp
  have digits: "list_all is_lower_hex ''0123456789''" by code_simp
  show ?thesis
    unfolding normal using digits by (simp add: booted_sha_def)
qed

lemma booted_codes:
  "distinct (map bc_id (bs_codes (cp_backupCodes booted_completion)))"
  "list_all (\<lambda>c. bc_usedAt c = None \<and> isText (bc_id c)) (bs_codes (cp_backupCodes booted_completion))"
  "distinct (map bc_hash (bs_codes (cp_backupCodes booted_completion)))"
proof -
  have "list_all (\<lambda>c. isText [c]) ''0123456789''" by code_simp
  then show "list_all (\<lambda>c. bc_usedAt c = None \<and> isText (bc_id c)) (bs_codes (cp_backupCodes booted_completion))"
    by (simp add: booted_code_list)
  show "distinct (map bc_id (bs_codes (cp_backupCodes booted_completion)))" by (simp add: booted_code_list)
  have "map bc_hash (bs_codes (cp_backupCodes booted_completion)) = map (\<lambda>c. replicate 63 CHR ''a'' @ [c]) ''0123456789''"
    unfolding booted_code_list booted_hashes [symmetric] by (simp del: list.map)
  then show "distinct (map bc_hash (bs_codes (cp_backupCodes booted_completion)))" by simp
qed

lemma stored_codes_loop_ok:
  "list_all (\<lambda>c. bc_usedAt c = None \<and> isText (bc_id c) \<and> is_sha256_hex (bc_hash c)) cs
   \<Longrightarrow> distinct (map bc_id cs) \<Longrightarrow> distinct (map bc_hash cs) \<Longrightarrow> set (map bc_id cs) \<inter> ids = {}
   \<Longrightarrow> set (map bc_hash cs) \<inter> hashes = {} \<Longrightarrow> stored_codes_loop ids hashes cs"
  by (induction cs arbitrary: ids hashes) (auto simp: optional_def)

lemma booted_stored:
  "isStoredFactor (cp_totpSecret booted_completion) ''ada''" "isStoredBackupCodes (cp_backupCodes booted_completion) ''u1''"
proof -
  have "list_all isText [base64_encode [1], base64_encode (replicate 32 0), base64_encode (replicate 16 0), ''u1'']"
    by code_simp
  then show "isStoredFactor (cp_totpSecret booted_completion) ''ada''"
    by (simp add: isStoredFactor_def booted_completion_def completion_of_def booted_cipher_def optional_def
        isSafeInteger_def del: base64_encode.simps)
  have "list_all (\<lambda>c. is_sha256_hex (bc_hash c)) (bs_codes (cp_backupCodes booted_completion))"
    by (simp add: booted_code_list)
  then have "list_all (\<lambda>c. bc_usedAt c = None \<and> isText (bc_id c) \<and> is_sha256_hex (bc_hash c))
      (bs_codes (cp_backupCodes booted_completion))"
    using booted_codes(2) by (auto simp: list_all_iff)
  then have "stored_codes_loop {} {} (bs_codes (cp_backupCodes booted_completion))"
    using booted_codes(1,3) by (intro stored_codes_loop_ok) auto
  then show "isStoredBackupCodes (cp_backupCodes booted_completion) ''u1''"
    by (simp add: isStoredBackupCodes_def booted_parts) (simp add: booted_completion_def completion_of_def createBackupCodeSet_def optional_def)
qed

lemma booted_check_after:
  assumes "bw_store w = booted_files"
  shows "checkProjection booted_co booted_completion True w = (Inr (), w)"
proof -
  have reads: "in_storage file_getAllUsers w = (Inr [cp_user booted_completion], w)"
      "in_storage (file_getTOTPSecret ''ada'') w = (Inr (Some (cp_totpSecret booted_completion)), w)"
      "in_storage (file_getBackupCodes ''u1'') w = (Inr (Some (cp_backupCodes booted_completion)), w)"
    by (rule in_storage_eval, simp add: assms file_getAllUsers_def file_getTOTPSecret_def file_getBackupCodes_def
        booted_files_def booted_stored)+
  have iso: "journal_iso booted_env (Iso 1000)"
    using booted_completion_ok by (simp add: completion_ok_def) (simp add: booted_completion_def completion_of_def)
  have user: "check_user booted_co booted_completion True w = (Inr True, w)"
    by (simp add: check_user_def reads booted_parts)
  have factor: "check_factor booted_co booted_completion True w = (Inr (), w)"
    by (simp add: check_factor_def reads booted_parts bj_require_def optional_ok_def iso)
  have each: "check_each_code booted_co (bs_codes (cp_backupCodes booted_completion))
      (bs_codes (cp_backupCodes booted_completion)) w = (Inr (), w)"
    using check_same_codes [of "[]" "bs_codes (cp_backupCodes booted_completion)"] booted_codes(1,2)
    by (simp add: list_all_iff)
  have codes: "check_codes booted_co booted_completion True w = (Inr (), w)"
    using booted_codes(1)
    by (simp add: check_codes_def bind_op_def each reads booted_parts bj_require_def optional_ok_def return_op_def)
  show ?thesis by (simp add: checkProjection_def bind_op_def user factor codes)
qed

lemma booted_apply:
  assumes "bw_store w = empty_files" "bw_asked w = 19"
  shows "bootstrap_apply booted_co booted_reference_digest booted_completion booted_receipt w
    = (Inr (), w\<lparr>bw_store := booted_files, bw_file := Some (Regular_file (serialized_envelope (booted_cipher 3))),
        bw_asked := 22\<rparr>)"
proof -
  have factor: "factor_data (cp_totpSecret booted_completion) = booted_cipher 1"
    by (simp add: booted_completion_def completion_of_def factor_data_def encrypted_eta)
  have opened: "journal_decrypt booted_env (booted_cipher 1) w = (Inr DUMMY_SECRET, w)"
    using booted_open [of 1] by (simp add: journal_decrypt_def of_external_def)
  have secret: "journal_text 1024 DUMMY_SECRET" by code_simp
  have project: "in_storage (booted_project booted_completion) w = (Inr (), w\<lparr>bw_store := booted_files\<rparr>)"
    by (simp add: in_storage_def assms(1) booted_projects)
  have last: "writeRecord booted_env (Applied booted_reference_digest booted_receipt) (w\<lparr>bw_store := booted_files\<rparr>)
      = (Inr (), w\<lparr>bw_store := booted_files, bw_file := Some (Regular_file (serialized_envelope (booted_cipher 3))),
          bw_asked := 22\<rparr>)"
    using booted_write [of booted_applied 3 "w\<lparr>bw_store := booted_files\<rparr>"] assms(2)
    by (simp add: booted_records booted_open booted_seals flip: booted_applied_def)
  show ?thesis
    by (simp add: bootstrap_apply_def factor opened secret bj_require_def booted_check_before assms(1) project
        booted_check_after last del: One_nat_def)
qed

lemma booted_complete:
  "bootstrap_complete booted_co booted_reference ''123456'' booted_world = (Inr booted_receipt,
     booted_world\<lparr>bw_store := booted_files, bw_file := Some (Regular_file (serialized_envelope (booted_cipher 3))),
       bw_asked := 22\<rparr>)"
proof -
  let ?w = "\<lambda>n. booted_world\<lparr>bw_asked := n\<rparr>"
  have store: "bw_store booted_world = empty_files"
    and journal: "bw_file booted_world = Some (Regular_file (serialized_envelope (booted_cipher 4)))"
    and asked: "bw_asked booted_world = 0"
    by (simp_all add: booted_world_def)
  have first: "readRecord booted_env booted_world = (Inr (Some (Pending booted_pending)), ?w (Suc 0))"
    using booted_read [OF journal booted_opened(1)] by (simp add: asked)
  have second: "readRecord booted_env (?w 2) = (Inr (Some (Pending booted_pending)), ?w 3)"
    using booted_read [OF _ booted_opened(1), of "?w 2"] by (simp add: journal)
  have attempt: "pending_attempt booted_co booted_reference (?w 3) = (Inr booted_pending, ?w 6)"
    using booted_attempt [of "?w 3"] by (simp add: store journal)
  have verified: "verified_step booted_co booted_pending ''123456'' (?w 6) = (Inr 0, ?w 8)"
    using booted_verified [of "?w 6"] by simp
  have recovers: "recoverUnsafe booted_co booted_world = (Inr (), ?w 2)"
    by (simp add: recoverUnsafe_def catch_op_def bind_op_def first ask_def of_external_def return_op_def numeral_2_eq_2)
  have committed: "writeRecord booted_env (Committed booted_reference_digest booted_completion booted_receipt)
        (booted_world\<lparr>bw_asked := 16\<rparr>)
      = (Inr (), booted_world\<lparr>bw_file := Some (Regular_file (serialized_envelope (booted_cipher 2))), bw_asked := 19\<rparr>)"
    using booted_write [of booted_committed 2 "booted_world\<lparr>bw_asked := 16\<rparr>"]
    by (simp add: booted_records booted_open booted_seals flip: booted_committed_def)
  have ok: "bootstrap_record_ok booted_env (Committed booted_reference_digest booted_completion booted_receipt)"
    using booted_records(2) by (simp only: booted_committed_def)
  have commit: "commit_attempt booted_co booted_pending 0 (booted_world\<lparr>bw_asked := 8\<rparr>) = (Inr booted_receipt,
      booted_world\<lparr>bw_store := booted_files, bw_file := Some (Regular_file (serialized_envelope (booted_cipher 3))),
       bw_asked := 22\<rparr>)"
    using ok committed
    by (simp add: commit_attempt_def booted_free store booted_new_completion publish_completion_def Let_def
        booted_completion_env bj_require_def namespaceAvailable_def booted_apply del: bootstrap_record_ok.simps)
  show ?thesis
    using booted_texts(7) commit
    by (simp add: bootstrap_complete_def bind_op_def recovers second attempt verified before_complete_def
        bj_require_def return_op_def)
qed

theorem bootstrap_complete_authorised_witness:
  "entry_view booted_env (bw_file (snd (bootstrap_complete booted_co booted_reference ''123456'' booted_world)))
      = Inr (Some (Applied booted_reference_digest booted_receipt))
    \<and> list_ex (\<lambda>u. u_role u = ''super_admin'' \<and> u_isActive u)
      (f_users (bw_store (snd (bootstrap_complete booted_co booted_reference ''123456'' booted_world))))"
proof -
  have dates: "dates_read (co_env booted_config)" by (simp add: booted_dates)
  have pending: "receipt_in (entry_view (co_env booted_config) (bw_file booted_world)) = None"
    by (simp add: booted_world_def entry_view_def booted_opened receipt_in_def)
  obtain w' where w': "bootstrap_complete booted_co booted_reference ''123456'' booted_world = (Inr booted_receipt, w')"
    using booted_complete by blast
  obtain d u where "referenceDigest (co_env booted_config) booted_reference = Inr d"
      "entry_view (co_env booted_config) (bw_file w') = Inr (Some (Applied d booted_receipt))"
      "f_users (bw_store w') = [u]" "u_role u = ''super_admin''" "u_isActive u"
    using bootstrap_complete_authorised [OF dates w'] unfolding pending by blast
  then show ?thesis by (simp add: w' booted_digest)
qed

theorem bootstrap_refines_protocol_witness:
  "let w' = fold (perform booted_co) [Complete booted_reference ''123456'', Recover] booted_world in
    bootstrap_run booted_co (phase booted_co booted_world) (phase booted_co w')"
proof -
  have "dates_read (co_env booted_config)" by (simp add: booted_dates)
  from bootstrap_refines_protocol [OF this] show ?thesis unfolding Let_def by blast
qed

end
