(* ===== verification/Enrollment_Journal.thy ===== *)
theory Enrollment_Journal
  imports Bootstrap_Journal
begin

text \<open>
  The records of the enrolment of a second factor, \<open>src/storage/file-totp-enrollment.ts\<close>: pending,
  committed and applied, each in version 1 (onboarding) or 2 (self-enrolment), their validators,
  their JSON texts, and the directory that keeps one file for each account. Dates, digests, the
  cipher and the outcomes of the calls on the directory come from a \<^typ>\<open>journal_env\<close>.
\<close>

section \<open>Records\<close>

datatype enrollment_code = EN_INVALID | EN_CONFLICT | EN_EXPIRED | EN_UNAUTHORIZED | EN_RECOVERY_REQUIRED

datatype enrollment_error = TotpEnrollmentError enrollment_code | Outside error

datatype enrollment_mode = Onboarding | Self_enrollment

record primary_use =
  pu_digest :: string
  pu_attemptId :: string
  pu_expiresAt :: stamp

text \<open>What version 2 adds to a pending record; a record without it is of version 1.\<close>

record primary_binding =
  pb_reauthDigest :: string
  pb_authorizationDigest :: string
  pb_uses :: "primary_use list"

record enrollment_pending =
  ep_attemptId :: string
  ep_userId :: string
  ep_handle :: string
  ep_sessionDigest :: string
  ep_createdAt :: stamp
  ep_expiresAt :: stamp
  ep_secret :: encrypted_data
  ep_recoveryCodes :: encrypted_data
  ep_backupCodes :: backup_code_set
  ep_primary :: "primary_binding option"

text \<open>\<open>userPatch\<close> of version 1 with its onboarding step, and of version 2. The other fields are constants.\<close>

datatype enrollment_patch = Onboarding_patch string int | Self_patch string

record enrollment_completion =
  ec_attemptId :: string
  ec_userId :: string
  ec_handle :: string
  ec_sessionDigest :: string
  ec_completedAt :: stamp
  ec_totpSecret :: encrypted_totp_secret
  ec_backupCodes :: backup_code_set
  ec_userPatch :: enrollment_patch

record enrollment_receipt =
  er_mode :: enrollment_mode
  er_attemptId :: string
  er_userId :: string
  er_handle :: string
  er_completedAt :: stamp
  er_materialDigest :: string

text \<open>\<open>uses\<close> is \<open>primaryReauthUses\<close> of a record of version 2, and missing in version 1.\<close>

datatype enrollment_record =
    Pending_enrollment enrollment_pending
  | Committed_enrollment "primary_use list option" enrollment_completion enrollment_receipt
  | Applied_enrollment "primary_use list option" string enrollment_receipt

definition ENROLLMENT_MAX_TTL_MS :: int where "ENROLLMENT_MAX_TTL_MS = 10 * 60 * 1000"
definition MAX_PRIMARY_REAUTH_TTL_MS :: int where "MAX_PRIMARY_REAUTH_TTL_MS = 5 * 60 * 1000"

definition patch_mode :: "enrollment_patch \<Rightarrow> enrollment_mode" where
  "patch_mode p = (case p of Onboarding_patch i n \<Rightarrow> Onboarding | Self_patch i \<Rightarrow> Self_enrollment)"

definition uses_mode :: "'a option \<Rightarrow> enrollment_mode" where
  "uses_mode uses = (case uses of None \<Rightarrow> Onboarding | Some _ \<Rightarrow> Self_enrollment)"

definition recordMode :: "enrollment_pending \<Rightarrow> enrollment_mode" where
  "recordMode p = uses_mode (ep_primary p)"

definition recordUserId :: "enrollment_record \<Rightarrow> string" where
  "recordUserId r =
     (case r of
        Pending_enrollment p \<Rightarrow> ep_userId p
      | Committed_enrollment uses c receipt \<Rightarrow> er_userId receipt
      | Applied_enrollment uses d receipt \<Rightarrow> er_userId receipt)"

definition primaryUses :: "enrollment_record option \<Rightarrow> primary_use list" where
  "primaryUses r =
     (case r of
        None \<Rightarrow> []
      | Some (Pending_enrollment p) \<Rightarrow> (case ep_primary p of None \<Rightarrow> [] | Some b \<Rightarrow> pb_uses b)
      | Some (Committed_enrollment uses c receipt) \<Rightarrow> nullish uses []
      | Some (Applied_enrollment uses d receipt) \<Rightarrow> nullish uses [])"

section \<open>Validators\<close>

definition enrollment_text :: "string \<Rightarrow> bool" where
  "enrollment_text v \<longleftrightarrow> v \<noteq> [] \<and> length v \<le> 8192 \<and> CHR 0x00 \<notin> set v"

definition enrollment_time :: "journal_env \<Rightarrow> stamp \<Rightarrow> bool" where
  "enrollment_time env d \<longleftrightarrow>
     (case d of Iso t \<Rightarrow> enrollment_text (jn_iso env t) \<and> \<bar>t\<bar> \<le> 8640000000000000 | OtherText s t \<Rightarrow> False)"

text \<open>The pattern \<open>^[a-f0-9]{48}$\<close>.\<close>

definition is_attempt_id :: "string \<Rightarrow> bool" where
  "is_attempt_id s \<longleftrightarrow> length s = 48 \<and> list_all is_lower_hex s"

definition encrypted_ok :: "encrypted_data \<Rightarrow> bool" where
  "encrypted_ok v \<longleftrightarrow> list_all enrollment_text [en_encrypted v, en_salt v, en_iv v, en_tag v]"

text \<open>The loop over the codes with the ids and hashes seen so far.\<close>

fun initial_codes_loop :: "string list \<Rightarrow> string list \<Rightarrow> encrypted_backup_code list \<Rightarrow> bool" where
  "initial_codes_loop ids hashes [] = True"
| "initial_codes_loop ids hashes (code # cs) =
     (bc_usedAt code = None \<and> enrollment_text (bc_id code) \<and> is_sha256_hex (bc_hash code) \<and> \<not> bc_used code
      \<and> bc_id code \<notin> set ids \<and> bc_hash code \<notin> set hashes
      \<and> initial_codes_loop (bc_id code # ids) (bc_hash code # hashes) cs)"

definition initial_codes :: "journal_env \<Rightarrow> backup_code_set \<Rightarrow> string \<Rightarrow> bool" where
  "initial_codes env v userId \<longleftrightarrow>
     bs_lastUsedAt v = None \<and> bs_userId v = userId \<and> length (bs_codes v) = 10
     \<and> enrollment_time env (bs_generatedAt v) \<and> initial_codes_loop [] [] (bs_codes v)"

fun primary_uses_loop :: "journal_env \<Rightarrow> string list \<Rightarrow> string list \<Rightarrow> primary_use list \<Rightarrow> bool" where
  "primary_uses_loop env digests attempts [] = True"
| "primary_uses_loop env digests attempts (u # us) =
     (is_sha256_hex (pu_digest u) \<and> is_attempt_id (pu_attemptId u) \<and> enrollment_time env (pu_expiresAt u)
      \<and> pu_digest u \<notin> set digests \<and> pu_attemptId u \<notin> set attempts
      \<and> primary_uses_loop env (pu_digest u # digests) (pu_attemptId u # attempts) us)"

definition validatePrimaryUses :: "journal_env \<Rightarrow> primary_use list \<Rightarrow> string \<Rightarrow> bool" where
  "validatePrimaryUses env uses currentAttempt \<longleftrightarrow>
     uses \<noteq> [] \<and> length uses \<le> 256 \<and> primary_uses_loop env [] [] uses
     \<and> currentAttempt \<in> set (map pu_attemptId uses)"

definition enrollment_receipt_ok :: "journal_env \<Rightarrow> enrollment_receipt \<Rightarrow> bool" where
  "enrollment_receipt_ok env r \<longleftrightarrow>
     is_attempt_id (er_attemptId r) \<and> enrollment_text (er_userId r) \<and> enrollment_text (er_handle r)
     \<and> enrollment_time env (er_completedAt r) \<and> is_sha256_hex (er_materialDigest r)"

definition enrollment_factor_ok :: "enrollment_completion \<Rightarrow> encrypted_totp_secret \<Rightarrow> bool" where
  "enrollment_factor_ok v f \<longleftrightarrow>
     ts_userId f = ec_userId v \<and> ts_handle f = ec_handle v \<and> ts_version f = 1 \<and> ts_backupCodesGenerated f
     \<and> (case ts_lastUsedTotpStep f of None \<Rightarrow> False | Some n \<Rightarrow> isSafeInteger n \<and> 0 \<le> n)
     \<and> list_all enrollment_text [ts_encryptedSecret f, ts_iv f, ts_authTag f, ts_salt f]
     \<and> ts_createdAt f = ec_completedAt v \<and> ts_lastUsedAt f = Some (ec_completedAt v)"

definition enrollment_patch_ok :: "enrollment_completion \<Rightarrow> bool" where
  "enrollment_patch_ok v \<longleftrightarrow>
     (case ec_userPatch v of
        Onboarding_patch i n \<Rightarrow> i = ec_handle v \<and> isSafeInteger n \<and> 2 \<le> n \<and> n \<le> 3
      | Self_patch i \<Rightarrow> i = ec_handle v)"

definition validateCompletion :: "journal_env \<Rightarrow> enrollment_completion \<Rightarrow> bool" where
  "validateCompletion env v \<longleftrightarrow>
     is_attempt_id (ec_attemptId v) \<and> enrollment_text (ec_userId v) \<and> enrollment_text (ec_handle v)
     \<and> is_sha256_hex (ec_sessionDigest v) \<and> enrollment_time env (ec_completedAt v)
     \<and> initial_codes env (ec_backupCodes v) (ec_userId v) \<and> enrollment_factor_ok v (ec_totpSecret v)
     \<and> enrollment_patch_ok v"

text \<open>A pending record of version 2 is bound to the use of its own attempt.\<close>

definition primary_binding_ok :: "journal_env \<Rightarrow> enrollment_pending \<Rightarrow> primary_binding \<Rightarrow> bool" where
  "primary_binding_ok env p b \<longleftrightarrow>
     is_sha256_hex (pb_reauthDigest b) \<and> is_sha256_hex (pb_authorizationDigest b)
     \<and> validatePrimaryUses env (pb_uses b) (ep_attemptId p)
     \<and> (case List.find (\<lambda>u. pu_attemptId u = ep_attemptId p) (pb_uses b) of
          None \<Rightarrow> False
        | Some use \<Rightarrow>
            pu_digest use = pb_reauthDigest b
            \<and> (case (date_parse (pu_expiresAt use), date_parse (ep_expiresAt p), date_parse (ep_createdAt p)) of
                 (Some until, Some e, Some c) \<Rightarrow> e \<le> until \<and> until - c \<le> MAX_PRIMARY_REAUTH_TTL_MS
               | _ \<Rightarrow> False))"

definition enrollment_pending_ok :: "journal_env \<Rightarrow> enrollment_pending \<Rightarrow> bool" where
  "enrollment_pending_ok env p \<longleftrightarrow>
     is_attempt_id (ep_attemptId p) \<and> enrollment_text (ep_userId p) \<and> enrollment_text (ep_handle p)
     \<and> is_sha256_hex (ep_sessionDigest p) \<and> enrollment_time env (ep_createdAt p) \<and> enrollment_time env (ep_expiresAt p)
     \<and> (case (date_parse (ep_createdAt p), date_parse (ep_expiresAt p)) of
          (Some c, Some e) \<Rightarrow>
            0 < e - c \<and> e - c \<le> (if ep_primary p = None then ENROLLMENT_MAX_TTL_MS else MAX_PRIMARY_REAUTH_TTL_MS)
        | _ \<Rightarrow> False)
     \<and> optional_ok (primary_binding_ok env p) (ep_primary p)
     \<and> encrypted_ok (ep_secret p) \<and> encrypted_ok (ep_recoveryCodes p)
     \<and> initial_codes env (ep_backupCodes p) (ep_userId p)"

section \<open>The text of a record\<close>

text \<open>\<open>version\<close>, and \<open>mode\<close> in version 2.\<close>

definition version_fields :: "enrollment_mode \<Rightarrow> (string \<times> json) list" where
  "version_fields m =
     (case m of
        Onboarding \<Rightarrow> [(''version'', JNum 1)]
      | Self_enrollment \<Rightarrow> [(''version'', JNum 2), (''mode'', JStr ''self-enrollment'')])"

definition primary_use_json :: "journal_env \<Rightarrow> primary_use \<Rightarrow> json" where
  "primary_use_json env u =
     JObj [(''digest'', JStr (pu_digest u)), (''attemptId'', JStr (pu_attemptId u)),
           (''expiresAt'', stamp_json env (pu_expiresAt u))]"

definition uses_json :: "journal_env \<Rightarrow> primary_use list \<Rightarrow> json" where
  "uses_json env us = JArr (map (primary_use_json env) us)"

definition enrollment_pending_json :: "journal_env \<Rightarrow> enrollment_pending \<Rightarrow> json" where
  "enrollment_pending_json env p =
     JObj (version_fields (recordMode p) @
       [(''state'', JStr ''pending''), (''attemptId'', JStr (ep_attemptId p)), (''userId'', JStr (ep_userId p)),
        (''handle'', JStr (ep_handle p)), (''sessionDigest'', JStr (ep_sessionDigest p)),
        (''createdAt'', stamp_json env (ep_createdAt p)), (''expiresAt'', stamp_json env (ep_expiresAt p)),
        (''secret'', encrypted_json (ep_secret p)), (''recoveryCodes'', encrypted_json (ep_recoveryCodes p)),
        (''backupCodes'', completion_codes_json env (ep_backupCodes p))] @
       (case ep_primary p of
          None \<Rightarrow> []
        | Some b \<Rightarrow> [(''primaryReauthDigest'', JStr (pb_reauthDigest b)),
                     (''primaryAuthorizationDigest'', JStr (pb_authorizationDigest b)),
                     (''primaryReauthUses'', uses_json env (pb_uses b))]))"

definition enrollment_factor_json :: "journal_env \<Rightarrow> encrypted_totp_secret \<Rightarrow> json" where
  "enrollment_factor_json env f =
     JObj [(''userId'', JStr (ts_userId f)), (''handle'', JStr (ts_handle f)),
           (''encryptedSecret'', JStr (ts_encryptedSecret f)), (''iv'', JStr (ts_iv f)),
           (''authTag'', JStr (ts_authTag f)), (''salt'', JStr (ts_salt f)), (''createdAt'', stamp_json env (ts_createdAt f)),
           (''backupCodesGenerated'', JBool (ts_backupCodesGenerated f)), (''version'', JNum (ts_version f)),
           (''lastUsedAt'', stamp_json env (nullish (ts_lastUsedAt f) (Iso 0))),
           (''lastUsedTotpStep'', JNum (nullish (ts_lastUsedTotpStep f) 0))]"

definition enrollment_patch_json :: "enrollment_patch \<Rightarrow> json" where
  "enrollment_patch_json p =
     (case p of
        Onboarding_patch i n \<Rightarrow>
          JObj [(''totpEnabled'', JBool True), (''totpSecretId'', JStr i), (''needsOnboarding'', JBool True),
                (''onboardingStep'', JNum n)]
      | Self_patch i \<Rightarrow> JObj [(''totpEnabled'', JBool True), (''totpSecretId'', JStr i)])"

definition enrollment_completion_json :: "journal_env \<Rightarrow> enrollment_completion \<Rightarrow> json" where
  "enrollment_completion_json env v =
     JObj (version_fields (patch_mode (ec_userPatch v)) @
       [(''attemptId'', JStr (ec_attemptId v)), (''userId'', JStr (ec_userId v)), (''handle'', JStr (ec_handle v)),
        (''sessionDigest'', JStr (ec_sessionDigest v)), (''completedAt'', stamp_json env (ec_completedAt v)),
        (''totpSecret'', enrollment_factor_json env (ec_totpSecret v)),
        (''backupCodes'', completion_codes_json env (ec_backupCodes v)),
        (''userPatch'', enrollment_patch_json (ec_userPatch v))])"

definition enrollment_receipt_json :: "journal_env \<Rightarrow> enrollment_receipt \<Rightarrow> json" where
  "enrollment_receipt_json env r =
     JObj (version_fields (er_mode r) @
       [(''attemptId'', JStr (er_attemptId r)), (''userId'', JStr (er_userId r)), (''handle'', JStr (er_handle r)),
        (''completedAt'', stamp_json env (er_completedAt r)), (''materialDigest'', JStr (er_materialDigest r))])"

definition record_uses :: "journal_env \<Rightarrow> primary_use list option \<Rightarrow> (string \<times> json) list" where
  "record_uses env uses = version_fields (uses_mode uses) @ opt_key ''primaryReauthUses'' (uses_json env) uses"

fun enrollment_json :: "journal_env \<Rightarrow> enrollment_record \<Rightarrow> json" where
  "enrollment_json env (Pending_enrollment p) = enrollment_pending_json env p"
| "enrollment_json env (Committed_enrollment uses c r) =
     JObj (record_uses env uses @ [(''state'', JStr ''committed''), (''completion'', enrollment_completion_json env c),
       (''receipt'', enrollment_receipt_json env r)])"
| "enrollment_json env (Applied_enrollment uses d r) =
     JObj (record_uses env uses @ [(''state'', JStr ''applied''), (''sessionDigest'', JStr d),
       (''receipt'', enrollment_receipt_json env r)])"

text \<open>\<open>materialDigest\<close>: each version has a domain of its own.\<close>

definition enrollmentDigest :: "journal_env \<Rightarrow> enrollment_completion \<Rightarrow> string" where
  "enrollmentDigest env c =
     jn_sha256 env ((case patch_mode (ec_userPatch c) of
         Onboarding \<Rightarrow> ''tinyland-auth:totp-enrollment:v1'' | Self_enrollment \<Rightarrow> ''tinyland-auth:totp-enrollment:v2'')
       @ [CHR 0x00] @ encoded (enrollment_completion_json env c))"

text \<open>\<open>parseRecord\<close> on a record whose fields have the expected types.\<close>

fun enrollment_record_ok :: "journal_env \<Rightarrow> enrollment_record \<Rightarrow> bool" where
  "enrollment_record_ok env (Pending_enrollment p) \<longleftrightarrow> enrollment_pending_ok env p"
| "enrollment_record_ok env (Committed_enrollment uses c r) \<longleftrightarrow>
     validateCompletion env c \<and> enrollment_receipt_ok env r
     \<and> optional_ok (\<lambda>us. validatePrimaryUses env us (er_attemptId r)) uses
     \<and> uses_mode uses = patch_mode (ec_userPatch c) \<and> uses_mode uses = er_mode r
     \<and> er_attemptId r = ec_attemptId c \<and> er_userId r = ec_userId c \<and> er_handle r = ec_handle c
     \<and> er_completedAt r = ec_completedAt c \<and> er_materialDigest r = enrollmentDigest env c"
| "enrollment_record_ok env (Applied_enrollment uses d r) \<longleftrightarrow>
     is_sha256_hex d \<and> enrollment_receipt_ok env r \<and> uses_mode uses = er_mode r
     \<and> optional_ok (\<lambda>us. validatePrimaryUses env us (er_attemptId r)) uses"

section \<open>Reading a record\<close>

text \<open>\<open>versionFields\<close>: the version decides the keys, and version 2 is self-enrolment.\<close>

definition versioned :: "string list \<Rightarrow> string list \<Rightarrow> json \<Rightarrow> (enrollment_mode \<times> (string \<times> json) list) option" where
  "versioned legacyKeys v2Extra v =
     (case v of
        JObj members \<Rightarrow>
          if map_of members ''version'' = Some (JNum 1)
          then map_option (Pair Onboarding) (exact_object legacyKeys [] v)
          else if map_of members ''version'' = Some (JNum 2) then do {
            kvs \<leftarrow> exact_object (legacyKeys @ [''mode''] @ v2Extra) [] v;
            mode \<leftarrow> get as_text ''mode'' kvs;
            _ \<leftarrow> expect (mode = ''self-enrollment'');
            Some (Self_enrollment, kvs) }
          else None
      | _ \<Rightarrow> None)"

text \<open>A field that only version 2 has.\<close>

definition in_v2 :: "enrollment_mode \<Rightarrow> 'a option \<Rightarrow> 'a option option" where
  "in_v2 m v = (case m of Onboarding \<Rightarrow> Some None | Self_enrollment \<Rightarrow> map_option Some v)"

definition as_primary_use :: "journal_env \<Rightarrow> json \<Rightarrow> primary_use option" where
  "as_primary_use env v = do {
     kvs \<leftarrow> exact_object [''digest'', ''attemptId'', ''expiresAt''] [] v;
     d \<leftarrow> get as_text ''digest'' kvs;
     a \<leftarrow> get as_text ''attemptId'' kvs;
     e \<leftarrow> get (as_stamp env) ''expiresAt'' kvs;
     Some \<lparr>pu_digest = d, pu_attemptId = a, pu_expiresAt = e\<rparr> }"

definition as_primary_binding :: "journal_env \<Rightarrow> (string \<times> json) list \<Rightarrow> primary_binding option" where
  "as_primary_binding env kvs = do {
     d \<leftarrow> get as_text ''primaryReauthDigest'' kvs;
     a \<leftarrow> get as_text ''primaryAuthorizationDigest'' kvs;
     us \<leftarrow> get (all_of (as_primary_use env)) ''primaryReauthUses'' kvs;
     Some \<lparr>pb_reauthDigest = d, pb_authorizationDigest = a, pb_uses = us\<rparr> }"

definition as_enrollment_pending :: "journal_env \<Rightarrow> json \<Rightarrow> enrollment_pending option" where
  "as_enrollment_pending env v = do {
     (mode, kvs) \<leftarrow> versioned [''version'', ''state'', ''attemptId'', ''userId'', ''handle'', ''sessionDigest'',
       ''createdAt'', ''expiresAt'', ''secret'', ''recoveryCodes'', ''backupCodes'']
       [''primaryReauthDigest'', ''primaryAuthorizationDigest'', ''primaryReauthUses''] v;
     attemptId \<leftarrow> get as_text ''attemptId'' kvs;
     userId \<leftarrow> get as_text ''userId'' kvs;
     handle \<leftarrow> get as_text ''handle'' kvs;
     digest \<leftarrow> get as_text ''sessionDigest'' kvs;
     createdAt \<leftarrow> get (as_stamp env) ''createdAt'' kvs;
     expiresAt \<leftarrow> get (as_stamp env) ''expiresAt'' kvs;
     secret \<leftarrow> get as_encrypted ''secret'' kvs;
     recovery \<leftarrow> get as_encrypted ''recoveryCodes'' kvs;
     codes \<leftarrow> get (as_completion_codes env) ''backupCodes'' kvs;
     primary \<leftarrow> in_v2 mode (as_primary_binding env kvs);
     Some \<lparr>ep_attemptId = attemptId, ep_userId = userId, ep_handle = handle, ep_sessionDigest = digest,
       ep_createdAt = createdAt, ep_expiresAt = expiresAt, ep_secret = secret, ep_recoveryCodes = recovery,
       ep_backupCodes = codes, ep_primary = primary\<rparr> }"

definition as_enrollment_patch :: "enrollment_mode \<Rightarrow> json \<Rightarrow> enrollment_patch option" where
  "as_enrollment_patch mode v = do {
     kvs \<leftarrow> exact_object (case mode of
         Onboarding \<Rightarrow> [''totpEnabled'', ''totpSecretId'', ''needsOnboarding'', ''onboardingStep'']
       | Self_enrollment \<Rightarrow> [''totpEnabled'', ''totpSecretId'']) [] v;
     enabled \<leftarrow> get as_bool ''totpEnabled'' kvs;
     i \<leftarrow> get as_text ''totpSecretId'' kvs;
     _ \<leftarrow> expect enabled;
     (case mode of
        Onboarding \<Rightarrow> do {
          onboarding \<leftarrow> get as_bool ''needsOnboarding'' kvs;
          _ \<leftarrow> expect onboarding;
          n \<leftarrow> get as_number ''onboardingStep'' kvs;
          Some (Onboarding_patch i n) }
      | Self_enrollment \<Rightarrow> Some (Self_patch i)) }"

definition as_enrollment_completion :: "journal_env \<Rightarrow> json \<Rightarrow> enrollment_completion option" where
  "as_enrollment_completion env v = do {
     (mode, kvs) \<leftarrow> versioned [''version'', ''attemptId'', ''userId'', ''handle'', ''sessionDigest'', ''completedAt'',
       ''totpSecret'', ''backupCodes'', ''userPatch''] [] v;
     attemptId \<leftarrow> get as_text ''attemptId'' kvs;
     userId \<leftarrow> get as_text ''userId'' kvs;
     handle \<leftarrow> get as_text ''handle'' kvs;
     digest \<leftarrow> get as_text ''sessionDigest'' kvs;
     completedAt \<leftarrow> get (as_stamp env) ''completedAt'' kvs;
     codes \<leftarrow> get (as_completion_codes env) ''backupCodes'' kvs;
     factor \<leftarrow> get (as_completion_factor env) ''totpSecret'' kvs;
     patch \<leftarrow> get (as_enrollment_patch mode) ''userPatch'' kvs;
     Some \<lparr>ec_attemptId = attemptId, ec_userId = userId, ec_handle = handle, ec_sessionDigest = digest,
       ec_completedAt = completedAt, ec_totpSecret = factor, ec_backupCodes = codes, ec_userPatch = patch\<rparr> }"

definition as_enrollment_receipt :: "journal_env \<Rightarrow> json \<Rightarrow> enrollment_receipt option" where
  "as_enrollment_receipt env v = do {
     (mode, kvs) \<leftarrow> versioned [''version'', ''attemptId'', ''userId'', ''handle'', ''completedAt'', ''materialDigest''] [] v;
     attemptId \<leftarrow> get as_text ''attemptId'' kvs;
     userId \<leftarrow> get as_text ''userId'' kvs;
     handle \<leftarrow> get as_text ''handle'' kvs;
     completedAt \<leftarrow> get (as_stamp env) ''completedAt'' kvs;
     digest \<leftarrow> get as_text ''materialDigest'' kvs;
     Some \<lparr>er_mode = mode, er_attemptId = attemptId, er_userId = userId, er_handle = handle,
       er_completedAt = completedAt, er_materialDigest = digest\<rparr> }"

definition as_enrollment_record :: "journal_env \<Rightarrow> json \<Rightarrow> enrollment_record option" where
  "as_enrollment_record env v =
     (case v of
        JObj kvs \<Rightarrow>
          (if map_of kvs ''state'' = Some (JStr ''pending'')
           then map_option Pending_enrollment (as_enrollment_pending env v)
           else if map_of kvs ''state'' = Some (JStr ''committed'') then do {
             (mode, kvs) \<leftarrow> versioned [''version'', ''state'', ''completion'', ''receipt''] [''primaryReauthUses''] v;
             completion \<leftarrow> get (as_enrollment_completion env) ''completion'' kvs;
             receipt \<leftarrow> get (as_enrollment_receipt env) ''receipt'' kvs;
             uses \<leftarrow> in_v2 mode (get (all_of (as_primary_use env)) ''primaryReauthUses'' kvs);
             Some (Committed_enrollment uses completion receipt) }
           else if map_of kvs ''state'' = Some (JStr ''applied'') then do {
             (mode, kvs) \<leftarrow> versioned [''version'', ''state'', ''sessionDigest'', ''receipt''] [''primaryReauthUses''] v;
             digest \<leftarrow> get as_text ''sessionDigest'' kvs;
             receipt \<leftarrow> get (as_enrollment_receipt env) ''receipt'' kvs;
             uses \<leftarrow> in_v2 mode (get (all_of (as_primary_use env)) ''primaryReauthUses'' kvs);
             Some (Applied_enrollment uses digest receipt) }
           else None)
      | _ \<Rightarrow> None)"

text \<open>\<open>parseRecord(JSON.parse(text))\<close>\<close>

definition parse_enrollment :: "journal_env \<Rightarrow> string \<Rightarrow> enrollment_error + enrollment_record" where
  "parse_enrollment env content =
     (case json_parse content of
        None \<Rightarrow> Inl (Outside (Error ''SyntaxError''))
      | Some v \<Rightarrow>
          (case as_enrollment_record env v of
             None \<Rightarrow> Inl (TotpEnrollmentError EN_INVALID)
           | Some r \<Rightarrow> if enrollment_record_ok env r then Inr r else Inl (TotpEnrollmentError EN_INVALID)))"

section \<open>Reading back what was written\<close>

lemma as_time_json:
  assumes "dates_read env" "enrollment_time env d"
  shows "as_stamp env (stamp_json env d) = Some d"
proof -
  obtain t where "d = Iso t" "\<bar>t\<bar> \<le> 8640000000000000"
    using assms(2) by (auto simp: enrollment_time_def split: stamp.splits)
  then show ?thesis using assms(1) by (simp add: as_stamp_def stamp_json_def dates_read_def)
qed

lemma initial_codes_loop_iff:
  "initial_codes_loop ids hashes cs \<longleftrightarrow>
     list_all (\<lambda>c. bc_usedAt c = None \<and> enrollment_text (bc_id c) \<and> is_sha256_hex (bc_hash c) \<and> \<not> bc_used c) cs
     \<and> distinct (map bc_id cs) \<and> distinct (map bc_hash cs)
     \<and> set (map bc_id cs) \<inter> set ids = {} \<and> set (map bc_hash cs) \<inter> set hashes = {}"
  by (induction cs arbitrary: ids hashes) auto

lemma primary_uses_loop_iff:
  "primary_uses_loop env digests attempts us \<longleftrightarrow>
     list_all (\<lambda>u. is_sha256_hex (pu_digest u) \<and> is_attempt_id (pu_attemptId u) \<and> enrollment_time env (pu_expiresAt u)) us
     \<and> distinct (map pu_digest us) \<and> distinct (map pu_attemptId us)
     \<and> set (map pu_digest us) \<inter> set digests = {} \<and> set (map pu_attemptId us) \<inter> set attempts = {}"
  by (induction us arbitrary: digests attempts) auto

lemma as_initial_codes_json:
  assumes "dates_read env" "initial_codes env cs userId"
  shows "as_completion_codes env (completion_codes_json env cs) = Some cs"
proof -
  have "as_completion_code (completion_code_json c) = Some c" if "c \<in> set (bs_codes cs)" for c
    using assms(2) that
    by (simp add: initial_codes_def initial_codes_loop_iff list_all_iff as_completion_code_def
        completion_code_json_def decode_simps)
  then have "all_of as_completion_code (JArr (map completion_code_json (bs_codes cs))) = Some (bs_codes cs)"
    by (simp add: all_of_def those_map_Some del: map_map)
  moreover have "bs_lastUsedAt cs = None" "as_stamp env (stamp_json env (bs_generatedAt cs)) = Some (bs_generatedAt cs)"
    using assms by (simp_all add: initial_codes_def as_time_json)
  ultimately show ?thesis
    by (simp add: as_completion_codes_def completion_codes_json_def decode_simps)
qed

lemma as_uses_json:
  assumes "dates_read env" "validatePrimaryUses env us a"
  shows "all_of (as_primary_use env) (uses_json env us) = Some us"
proof -
  have "as_primary_use env (primary_use_json env u) = Some u" if "u \<in> set us" for u
    using assms that as_time_json [of env "pu_expiresAt u"]
    by (simp add: validatePrimaryUses_def primary_uses_loop_iff list_all_iff as_primary_use_def primary_use_json_def
        decode_simps)
  then show ?thesis by (simp add: all_of_def uses_json_def those_map_Some del: map_map)
qed

lemma as_enrollment_pending_json:
  assumes "dates_read env" "enrollment_pending_ok env p"
  shows "as_enrollment_pending env (enrollment_pending_json env p) = Some p"
proof -
  have "as_stamp env (stamp_json env (ep_createdAt p)) = Some (ep_createdAt p)"
      "as_stamp env (stamp_json env (ep_expiresAt p)) = Some (ep_expiresAt p)"
      "as_completion_codes env (completion_codes_json env (ep_backupCodes p)) = Some (ep_backupCodes p)"
    using assms as_initial_codes_json [of env "ep_backupCodes p" "ep_userId p"]
    by (simp_all add: enrollment_pending_ok_def as_time_json)
  note read = this
  show ?thesis
  proof (cases "ep_primary p")
    case None
    then show ?thesis
      by (simp add: as_enrollment_pending_def enrollment_pending_json_def versioned_def version_fields_def recordMode_def
          uses_mode_def in_v2_def decode_simps read)
  next
    case (Some b)
    then have "all_of (as_primary_use env) (uses_json env (pb_uses b)) = Some (pb_uses b)"
      using assms by (intro as_uses_json) (auto simp: enrollment_pending_ok_def optional_ok_def primary_binding_ok_def)
    then show ?thesis
      by (simp add: as_enrollment_pending_def enrollment_pending_json_def versioned_def version_fields_def recordMode_def
          uses_mode_def in_v2_def as_primary_binding_def decode_simps read Some)
  qed
qed

lemma as_enrollment_patch_json:
  "as_enrollment_patch (patch_mode p) (enrollment_patch_json p) = Some p"
  by (cases p) (simp_all add: as_enrollment_patch_def enrollment_patch_json_def patch_mode_def decode_simps)

lemma as_enrollment_factor_json:
  assumes "dates_read env" "enrollment_time env (ec_completedAt v)" "enrollment_factor_ok v f"
  shows "as_completion_factor env (enrollment_factor_json env f) = Some f"
proof -
  obtain n where "ts_createdAt f = ec_completedAt v" "ts_lastUsedAt f = Some (ec_completedAt v)" "ts_lastUsedTotpStep f = Some n"
    using assms(3) by (auto simp: enrollment_factor_ok_def split: option.splits)
  then show ?thesis
    using as_time_json [OF assms(1,2)]
    by (simp add: as_completion_factor_def enrollment_factor_json_def decode_simps)
qed

lemma as_enrollment_completion_json:
  assumes "dates_read env" "validateCompletion env v"
  shows "as_enrollment_completion env (enrollment_completion_json env v) = Some v"
proof -
  have "enrollment_time env (ec_completedAt v)" "enrollment_factor_ok v (ec_totpSecret v)"
      "initial_codes env (ec_backupCodes v) (ec_userId v)"
    using assms(2) by (simp_all add: validateCompletion_def)
  note read = as_time_json [OF assms(1) this(1)] as_enrollment_factor_json [OF assms(1) this(1,2)]
    as_initial_codes_json [OF assms(1) this(3)] as_enrollment_patch_json [of "ec_userPatch v"]
  show ?thesis
    using read(4)
    by (cases "patch_mode (ec_userPatch v)")
      (simp_all add: as_enrollment_completion_def enrollment_completion_json_def versioned_def version_fields_def
        decode_simps read(1-3))
qed

lemma as_enrollment_receipt_json:
  assumes "dates_read env" "enrollment_receipt_ok env r"
  shows "as_enrollment_receipt env (enrollment_receipt_json env r) = Some r"
  using as_time_json [OF assms(1), of "er_completedAt r"] assms(2)
  by (cases "er_mode r")
    (auto simp: enrollment_receipt_ok_def as_enrollment_receipt_def enrollment_receipt_json_def versioned_def
      version_fields_def decode_simps)

lemma as_enrollment_record_json:
  assumes "dates_read env" "enrollment_record_ok env r"
  shows "as_enrollment_record env (enrollment_json env r) = Some r"
proof (cases r)
  case (Pending_enrollment p)
  then have "as_enrollment_pending env (enrollment_pending_json env p) = Some p"
    using assms by (simp add: as_enrollment_pending_json)
  moreover have "\<exists>kvs. enrollment_pending_json env p = JObj kvs \<and> map_of kvs ''state'' = Some (JStr ''pending'')"
    by (cases "recordMode p") (simp_all add: enrollment_pending_json_def version_fields_def)
  ultimately show ?thesis by (auto simp: Pending_enrollment as_enrollment_record_def)
next
  case (Committed_enrollment uses c x)
  have uses: "all_of (as_primary_use env) (uses_json env us) = Some us" if "uses = Some us" for us
    by (rule as_uses_json [OF assms(1), of _ "er_attemptId x"])
      (use assms(2) that in \<open>auto simp: Committed_enrollment optional_ok_def\<close>)
  show ?thesis
    using assms Committed_enrollment uses
    by (cases uses) (simp_all add: as_enrollment_record_def record_uses_def uses_mode_def version_fields_def versioned_def
        in_v2_def optional_ok_def as_enrollment_completion_json as_enrollment_receipt_json decode_simps)
next
  case (Applied_enrollment uses d x)
  have uses: "all_of (as_primary_use env) (uses_json env us) = Some us" if "uses = Some us" for us
    by (rule as_uses_json [OF assms(1), of _ "er_attemptId x"])
      (use assms(2) that in \<open>auto simp: Applied_enrollment optional_ok_def\<close>)
  show ?thesis
    using assms Applied_enrollment uses
    by (cases uses) (simp_all add: as_enrollment_record_def record_uses_def uses_mode_def version_fields_def versioned_def
        in_v2_def optional_ok_def as_enrollment_receipt_json decode_simps)
qed

lemma plain_codes: "plain_json (completion_codes_json env cs)"
  by (simp add: completion_codes_json_def completion_code_json_def list_all_iff)

lemma plain_uses: "plain_json (uses_json env us)"
  by (simp add: uses_json_def primary_use_json_def list_all_iff)

lemma plain_enrollment_receipt: "plain_json (enrollment_receipt_json env r)"
  by (cases "er_mode r") (simp_all add: enrollment_receipt_json_def version_fields_def)

lemma plain_enrollment_completion: "plain_json (enrollment_completion_json env c)"
  by (cases "ec_userPatch c")
    (simp_all add: enrollment_completion_json_def version_fields_def patch_mode_def enrollment_factor_json_def
      enrollment_patch_json_def plain_codes)

lemma plain_enrollment: "plain_json (enrollment_json env r)"
proof (cases r)
  case (Pending_enrollment p)
  then show ?thesis
    by (cases "ep_primary p")
      (simp_all add: enrollment_pending_json_def version_fields_def recordMode_def uses_mode_def plain_codes plain_uses
        plain_encrypted)
next
  case (Committed_enrollment uses c x)
  then show ?thesis
    by (cases uses) (simp_all add: record_uses_def version_fields_def uses_mode_def opt_key_def plain_uses
        plain_enrollment_completion plain_enrollment_receipt)
next
  case (Applied_enrollment uses d x)
  then show ?thesis
    by (cases uses) (simp_all add: record_uses_def version_fields_def uses_mode_def opt_key_def plain_uses
        plain_enrollment_receipt)
qed

lemma parse_enrollment_written:
  assumes "dates_read env" "enrollment_record_ok env r"
  shows "parse_enrollment env (stringify (enrollment_json env r)) = Inr r"
  using assms by (simp add: parse_enrollment_def json_parse_stringify plain_enrollment as_enrollment_record_json)

end
