(* ===== verification/Totp_Enrollment.thy ===== *)
theory Totp_Enrollment
  imports Enrollment_Journal File_Bootstrap "HOL-Library.List_Lexorder" "HOL-Library.Char_ord"
begin

text \<open>
  The coordinator of \<open>src/storage/file-totp-enrollment.ts\<close>: the gate with its recovery, the checks
  of the current principal and of the primary proof, and every operation. The directory is a map
  from file names to their text. A call of the host or of an application hook is answered by the
  configuration; \<open>ew_asked\<close> counts the questions, so that two readings of the clock may differ.
\<close>

section \<open>Configuration and state\<close>

record enrollment_request =
  eq_userId :: string
  eq_sessionId :: string
  eq_mode :: "string option"
  eq_primaryReauthRef :: "string option"

record primary_authorization =
  pa_userId :: string
  pa_sessionId :: string
  pa_purpose :: string
  pa_method :: string
  pa_issuedAt :: stamp
  pa_expiresAt :: stamp

record enrollment_current =
  cs_user :: "admin_user option"
  cs_session :: "session option"
  cs_totpSecret :: "encrypted_totp_secret option"
  cs_backupCodes :: "backup_code_set option"

text \<open>The same after the checks, where account and session are present.\<close>

record live_current =
  lc_user :: admin_user
  lc_session :: session
  lc_totpSecret :: "encrypted_totp_secret option"
  lc_backupCodes :: "backup_code_set option"

record enrollment_setup =
  ese_attemptId :: string
  ese_expiresAt :: stamp
  ese_secret :: string
  ese_qrCodeUrl :: string
  ese_backupCodes :: "string list"

record 's enrollment_config =
  cf_env :: journal_env
  cf_loadCurrent :: "string \<Rightarrow> string \<Rightarrow> ('s, enrollment_current) op"
  cf_validatePrimary ::
    "(string \<Rightarrow> string \<Rightarrow> string \<Rightarrow> admin_user \<Rightarrow> session \<Rightarrow> int \<Rightarrow> ('s, primary_authorization option) op) option"
  cf_project :: "enrollment_completion \<Rightarrow> ('s, unit) op"
  cf_beforeComplete :: "('s, unit) op option"
  cf_check :: otp_check
  cf_authenticator :: authenticator_config
  cf_epoch :: "nat \<Rightarrow> int"
  cf_generateSecret :: "nat \<Rightarrow> string result"
  cf_generateQRCode :: "string \<Rightarrow> string \<Rightarrow> string result"
  cf_codeBytes :: "nat \<Rightarrow> (8 word \<times> 8 word \<times> 8 word \<times> 8 word) list"
  cf_codeIds :: "nat \<Rightarrow> string list"

record gate_state =
  gs_projecting :: bool
  gs_recoveryRequired :: bool

record 's enroll_world =
  ew_store :: 's
  ew_files :: "string jsmap"
  ew_gate :: "gate_state option"
  ew_asked :: nat

type_synonym ('s, 'a) enroll_op = "(enrollment_error, 's enroll_world, 'a) fallible"

text \<open>The checks of the constructor; the answer is the bound service and the time to live.\<close>

definition newFileTotpEnrollmentCoordinator ::
  "string \<Rightarrow> service_value \<Rightarrow> int option \<Rightarrow> enrollment_error + totp_service \<times> int" where
  "newFileTotpEnrollmentCoordinator directory totp ttlMs =
     (if directory = [] then Inl (TotpEnrollmentError EN_INVALID)
      else case bindTrustedTOTPService totp of
             Inl e \<Rightarrow> Inl (TotpEnrollmentError EN_INVALID)
           | Inr service \<Rightarrow>
               let ttl = nullish ttlMs ENROLLMENT_MAX_TTL_MS in
               if \<not> isSafeInteger ttl \<or> ttl \<le> 0 \<or> ttl > ENROLLMENT_MAX_TTL_MS then Inl (TotpEnrollmentError EN_INVALID)
               else Inr (service, ttl))"

definition en_fail :: "enrollment_code \<Rightarrow> ('s, 'a) enroll_op" where
  "en_fail code = throw_op (TotpEnrollmentError code)"

definition en_require :: "bool \<Rightarrow> enrollment_code \<Rightarrow> ('s, unit) enroll_op" where
  "en_require b code = (if b then return_op () else en_fail code)"

text \<open>A question to the outside world, and one that may fail.\<close>

definition en_ask :: "(nat \<Rightarrow> 'a) \<Rightarrow> ('s, 'a) enroll_op" where
  "en_ask f = (\<lambda>w. (Inr (f (ew_asked w)), w\<lparr>ew_asked := Suc (ew_asked w)\<rparr>))"

definition outside :: "'a result \<Rightarrow> ('s, 'a) enroll_op" where
  "outside r = (case r of Inl e \<Rightarrow> throw_op (Outside e) | Inr a \<Rightarrow> return_op a)"

definition with_store :: "('s, 'a) op \<Rightarrow> ('s, 'a) enroll_op" where
  "with_store m w =
     (let (r, s) = m (ew_store w)
      in (case r of Inl e \<Rightarrow> Inl (Outside e) | Inr a \<Rightarrow> Inr a, w\<lparr>ew_store := s\<rparr>))"

definition en_now :: "'s enrollment_config \<Rightarrow> ('s, int) enroll_op" where
  "en_now cf = en_ask (jn_clock (cf_env cf))"

text \<open>A call of the file system that may fail.\<close>

definition en_io :: "(nat \<Rightarrow> unit result) \<Rightarrow> ('s, unit) enroll_op" where
  "en_io f = bind_op (en_ask f) outside"

section \<open>Modes and digests\<close>

definition requestMode :: "enrollment_request \<Rightarrow> enrollment_error + enrollment_mode" where
  "requestMode q =
     (if eq_mode q = Some ''self-enrollment''
      then (case eq_primaryReauthRef q of
              None \<Rightarrow> Inl (TotpEnrollmentError EN_INVALID)
            | Some reference \<Rightarrow>
                if enrollment_text reference then Inr Self_enrollment else Inl (TotpEnrollmentError EN_INVALID))
      else if (eq_mode q = None \<or> eq_mode q = Some ''onboarding'') \<and> eq_primaryReauthRef q = None then Inr Onboarding
      else Inl (TotpEnrollmentError EN_INVALID))"

definition sessionDigest :: "journal_env \<Rightarrow> enrollment_request \<Rightarrow> enrollment_error + string" where
  "sessionDigest env q =
     (if \<not> enrollment_text (eq_userId q) \<or> \<not> enrollment_text (eq_sessionId q) then Inl (TotpEnrollmentError EN_INVALID)
      else Inr (jn_sha256 env (''tinyland-auth:enrollment-session:v1'' @ [CHR 0x00]
                  @ json_array [eq_userId q, eq_sessionId q])))"

definition authorization_json :: "journal_env \<Rightarrow> primary_authorization \<Rightarrow> json" where
  "authorization_json env a =
     JObj [(''userId'', JStr (pa_userId a)), (''sessionId'', JStr (pa_sessionId a)), (''purpose'', JStr (pa_purpose a)),
           (''method'', JStr (pa_method a)), (''issuedAt'', stamp_json env (pa_issuedAt a)),
           (''expiresAt'', stamp_json env (pa_expiresAt a))]"

definition primaryReauthDigest :: "journal_env \<Rightarrow> string \<Rightarrow> primary_authorization \<Rightarrow> string" where
  "primaryReauthDigest env reference a =
     jn_sha256 env (''tinyland-auth:totp-primary-reauth:v2'' @ [CHR 0x00]
       @ encoded (JObj [(''reference'', JStr reference), (''authorization'', authorization_json env a)]))"

definition primaryReferenceDigest :: "journal_env \<Rightarrow> string \<Rightarrow> string" where
  "primaryReferenceDigest env reference =
     jn_sha256 env (''tinyland-auth:totp-primary-reference:v2'' @ [CHR 0x00] @ reference)"

section \<open>The journal directory\<close>

definition enrollment_filename :: "journal_env \<Rightarrow> string \<Rightarrow> string" where
  "enrollment_filename env userId = jn_sha256 env userId @ ''.json''"

text \<open>The patterns \<open>\.json$\<close> and \<open>^[a-f0-9]{64}\.json$\<close>.\<close>

definition is_json_name :: "string \<Rightarrow> bool" where
  "is_json_name s \<longleftrightarrow> 5 \<le> length s \<and> drop (length s - 5) s = ''.json''"

definition is_enrollment_name :: "string \<Rightarrow> bool" where
  "is_enrollment_name s \<longleftrightarrow> is_sha256_hex (take 64 s) \<and> drop 64 s = ''.json''"

text \<open>The content of the file under a name, parsed; \<open>None\<close> when there is no such file.\<close>

definition enrollment_at :: "journal_env \<Rightarrow> string jsmap \<Rightarrow> string \<Rightarrow> enrollment_error + enrollment_record option" where
  "enrollment_at env files name =
     (case map_of files name of
        None \<Rightarrow> Inr None
      | Some content \<Rightarrow> map_sum id Some (parse_enrollment env content))"

definition readEnrollment :: "'s enrollment_config \<Rightarrow> string \<Rightarrow> ('s, enrollment_record option) enroll_op" where
  "readEnrollment cf userId =
     bind_op (en_require (enrollment_text userId) EN_INVALID) (\<lambda>_.
     bind_op (en_io (jn_read (cf_env cf))) (\<lambda>_ w.
       case enrollment_at (cf_env cf) (ew_files w) (enrollment_filename (cf_env cf) userId) of
         Inl e \<Rightarrow> (Inl e, w)
       | Inr None \<Rightarrow> (Inr None, w)
       | Inr (Some r) \<Rightarrow>
           (if recordUserId r = userId then Inr (Some r) else Inl (TotpEnrollmentError EN_INVALID), w)))"

text \<open>Making the directory, the temporary file, the rename and the sync of the directory.\<close>

definition publish_enrollment :: "journal_env \<Rightarrow> string \<Rightarrow> string \<Rightarrow> ('s, unit) enroll_op" where
  "publish_enrollment env name content =
     bind_op (en_ask (jn_publish env)) (\<lambda>outcome w.
       let written = w\<lparr>ew_files := map_set name content (ew_files w)\<rparr>
       in case outcome of
            Journal_published \<Rightarrow> (Inr (), written)
          | Journal_unacknowledged e \<Rightarrow> (Inl (Outside e), written)
          | Journal_refused e \<Rightarrow> (Inl (Outside e), w))"

definition writeEnrollment :: "'s enrollment_config \<Rightarrow> enrollment_record \<Rightarrow> ('s, unit) enroll_op" where
  "writeEnrollment cf r =
     bind_op (en_require (enrollment_record_ok (cf_env cf) r) EN_INVALID) (\<lambda>_.
     bind_op (en_require (enrollment_text (recordUserId r)) EN_INVALID) (\<lambda>_.
       publish_enrollment (cf_env cf) (enrollment_filename (cf_env cf) (recordUserId r))
         (stringify (enrollment_json (cf_env cf) r))))"

definition en_encrypt :: "'s enrollment_config \<Rightarrow> string \<Rightarrow> ('s, encrypted_data) enroll_op" where
  "en_encrypt cf t =
     bind_op (en_ask (jn_random (cf_env cf))) (\<lambda>salt.
     bind_op (en_ask (jn_random (cf_env cf))) (\<lambda>iv.
       return_op (totp_encrypt (jn_gcm (cf_env cf)) (jn_key (cf_env cf)) salt iv t)))"

definition en_decrypt :: "'s enrollment_config \<Rightarrow> encrypted_data \<Rightarrow> ('s, string) enroll_op" where
  "en_decrypt cf data = outside (totp_decrypt (jn_gcm (cf_env cf)) (jn_key (cf_env cf)) data)"

section \<open>Applying a committed record, and recovery\<close>

text \<open>The projection flag of the gate.\<close>

definition set_projecting :: "bool \<Rightarrow> 's enroll_world \<Rightarrow> 's enroll_world" where
  "set_projecting b w = w\<lparr>ew_gate := map_option (gs_projecting_update (\<lambda>_. b)) (ew_gate w)\<rparr>"

definition set_recoveryRequired :: "bool \<Rightarrow> ('s, unit) enroll_op" where
  "set_recoveryRequired b =
     (\<lambda>w. (Inr (), w\<lparr>ew_gate := map_option (gs_recoveryRequired_update (\<lambda>_. b)) (ew_gate w)\<rparr>))"

definition enrollment_projection ::
  "'s enrollment_config \<Rightarrow> primary_use list option \<Rightarrow> enrollment_completion \<Rightarrow> enrollment_receipt \<Rightarrow> ('s, unit) enroll_op" where
  "enrollment_projection cf uses c receipt =
     bind_op (en_decrypt cf (factor_data (ec_totpSecret c))) (\<lambda>secret.
     bind_op (en_require (enrollment_text secret) EN_INVALID) (\<lambda>_.
     bind_op (with_store (cf_project cf c)) (\<lambda>_.
       writeEnrollment cf (Applied_enrollment uses (ec_sessionDigest c) receipt))))"

definition enrollment_apply ::
  "'s enrollment_config \<Rightarrow> primary_use list option \<Rightarrow> enrollment_completion \<Rightarrow> enrollment_receipt \<Rightarrow> ('s, unit) enroll_op" where
  "enrollment_apply cf uses c receipt w =
     (if (case ew_gate w of None \<Rightarrow> True | Some g \<Rightarrow> gs_projecting g) then en_fail EN_RECOVERY_REQUIRED w
      else let (r, w') = catch_op (enrollment_projection cf uses c receipt) (\<lambda>_. en_fail EN_RECOVERY_REQUIRED)
                           (set_projecting True w)
           in (r, set_projecting False w'))"

text \<open>One entry of the directory, and the loop over the sorted names.\<close>

definition recover_entry :: "'s enrollment_config \<Rightarrow> string \<Rightarrow> ('s, unit) enroll_op" where
  "recover_entry cf entry =
     bind_op (en_require (is_enrollment_name entry) EN_INVALID) (\<lambda>_.
     bind_op (en_io (jn_read (cf_env cf))) (\<lambda>_ w.
       case enrollment_at (cf_env cf) (ew_files w) entry of
         Inl e \<Rightarrow> (Inl e, w)
       | Inr None \<Rightarrow> (Inl (Outside (Error ''ENOENT'')), w)
       | Inr (Some r) \<Rightarrow>
           bind_op (en_require (enrollment_text (recordUserId r)
               \<and> enrollment_filename (cf_env cf) (recordUserId r) = entry) EN_INVALID) (\<lambda>_.
             case r of
               Committed_enrollment uses c receipt \<Rightarrow> enrollment_apply cf uses c receipt
             | _ \<Rightarrow> return_op ()) w))"

fun recover_entries :: "'s enrollment_config \<Rightarrow> string list \<Rightarrow> ('s, unit) enroll_op" where
  "recover_entries cf [] = return_op ()"
| "recover_entries cf (entry # rest) =
     (if \<not> is_json_name entry then recover_entries cf rest
      else bind_op (recover_entry cf entry) (\<lambda>_. recover_entries cf rest))"

definition enrollment_recoverUnsafe :: "'s enrollment_config \<Rightarrow> ('s, unit) enroll_op" where
  "enrollment_recoverUnsafe cf =
     bind_op (en_io (jn_sync (cf_env cf))) (\<lambda>_.
     bind_op (en_io (jn_sync (cf_env cf))) (\<lambda>_.
     bind_op (en_io (jn_read (cf_env cf))) (\<lambda>_.
     bind_op (\<lambda>w. recover_entries cf (sort (map fst (ew_files w))) w) (\<lambda>_.
     bind_op (en_io (jn_sync (cf_env cf))) (\<lambda>_.
       set_recoveryRequired False)))))"

section \<open>The gate\<close>

definition runContext :: "'s enrollment_config \<Rightarrow> ('s, 'a) enroll_op \<Rightarrow> ('s, 'a) enroll_op" where
  "runContext cf operation =
     bind_op (\<lambda>w. if (case ew_gate w of None \<Rightarrow> False | Some g \<Rightarrow> gs_recoveryRequired g)
                  then enrollment_recoverUnsafe cf w else return_op () w) (\<lambda>_. operation)"

text \<open>Outside a context a call opens one, which ends with it; inside, it runs in the same state.\<close>

definition withReadyAuth :: "'s enrollment_config \<Rightarrow> ('s, 'a) enroll_op \<Rightarrow> ('s, 'a) enroll_op" where
  "withReadyAuth cf operation w =
     (case ew_gate w of
        Some g \<Rightarrow> if gs_projecting g then en_fail EN_RECOVERY_REQUIRED w else runContext cf operation w
      | None \<Rightarrow>
          let (r, w') = runContext cf operation (w\<lparr>ew_gate := Some \<lparr>gs_projecting = False, gs_recoveryRequired = True\<rparr>\<rparr>)
          in (r, w'\<lparr>ew_gate := None\<rparr>))"

section \<open>The current principal\<close>

text \<open>The checks of the account and the session that do not read the clock.\<close>

definition principal_bound :: "enrollment_request \<Rightarrow> admin_user \<Rightarrow> session \<Rightarrow> bool" where
  "principal_bound q u s \<longleftrightarrow>
     u_id u = eq_userId q \<and> u_isActive u \<and> u_isLocked u \<noteq> Some True \<and> \<not> u_ownRemovedAt u \<and> \<not> u_ownRemovedBy u
     \<and> isValidAdminRole (u_role u) \<and> s_id s = eq_sessionId q \<and> s_userId s = eq_userId q
     \<and> (case s_user s of None \<Rightarrow> True | Some su \<Rightarrow> su_id su = eq_userId q) \<and> finite_date (s_expires s)"

definition completed_account :: "admin_user \<Rightarrow> session \<Rightarrow> bool" where
  "completed_account u s \<longleftrightarrow>
     \<not> u_needsOnboarding u \<and> u_firstLogin u \<noteq> Some True
     \<and> (case s_user s of None \<Rightarrow> True | Some su \<Rightarrow> su_needsOnboarding su \<noteq> Some True)"

text \<open>\<open>current\<close> without the demand for an account that has no factor.\<close>

definition current_principal :: "'s enrollment_config \<Rightarrow> enrollment_request \<Rightarrow> ('s, live_current) enroll_op" where
  "current_principal cf q =
     bind_op (of_result (requestMode q)) (\<lambda>mode.
     bind_op (of_result (sessionDigest (cf_env cf) q)) (\<lambda>_.
     bind_op (with_store (cf_loadCurrent cf (eq_userId q) (eq_sessionId q))) (\<lambda>c.
       case (cs_user c, cs_session c) of
         (Some u, Some s) \<Rightarrow>
           bind_op (en_require (principal_bound q u s) EN_UNAUTHORIZED) (\<lambda>_.
           bind_op (en_now cf) (\<lambda>t.
           bind_op (en_require (after (s_expires s) t) EN_UNAUTHORIZED) (\<lambda>_.
           bind_op (en_require (enrollment_text (u_handle u)) EN_INVALID) (\<lambda>_.
           bind_op (en_require (mode = Self_enrollment \<longrightarrow> completed_account u s) EN_CONFLICT) (\<lambda>_.
             return_op \<lparr>lc_user = u, lc_session = s, lc_totpSecret = cs_totpSecret c,
               lc_backupCodes = cs_backupCodes c\<rparr>)))))
       | _ \<Rightarrow> en_fail EN_UNAUTHORIZED)))"

definition absent_factor :: "live_current \<Rightarrow> enrollment_mode \<Rightarrow> bool" where
  "absent_factor c mode \<longleftrightarrow>
     (let u = lc_user c in
      (mode = Onboarding \<longrightarrow>
         u_needsOnboarding u \<and> isSafeInteger (u_onboardingStep u) \<and> 1 \<le> u_onboardingStep u \<and> u_onboardingStep u \<le> 3)
      \<and> \<not> u_totpEnabled u \<and> \<not> truthy (u_totpSecretId u) \<and> lc_totpSecret c = None \<and> lc_backupCodes c = None)"

definition requireAbsentFactor :: "live_current \<Rightarrow> enrollment_mode \<Rightarrow> ('s, unit) enroll_op" where
  "requireAbsentFactor c mode = en_require (absent_factor c mode) EN_CONFLICT"

text \<open>The claims of the resolver, without the clock, and with it.\<close>

definition authorization_bound :: "journal_env \<Rightarrow> enrollment_request \<Rightarrow> primary_authorization \<Rightarrow> bool" where
  "authorization_bound env q a \<longleftrightarrow>
     enrollment_time env (pa_issuedAt a) \<and> enrollment_time env (pa_expiresAt a)
     \<and> pa_userId a = eq_userId q \<and> pa_sessionId a = eq_sessionId q \<and> pa_purpose a = ''totp.enroll''
     \<and> pa_method a \<in> {''password'', ''github''}
     \<and> (case (date_parse (pa_issuedAt a), date_parse (pa_expiresAt a)) of
          (Some issued, Some deadline) \<Rightarrow> issued < deadline \<and> deadline - issued \<le> MAX_PRIMARY_REAUTH_TTL_MS
        | _ \<Rightarrow> False)"

definition authorization_live :: "'s enrollment_config \<Rightarrow> primary_authorization \<Rightarrow> ('s, bool) enroll_op" where
  "authorization_live cf a =
     bind_op (en_now cf) (\<lambda>t.
       if after (pa_issuedAt a) t then return_op False
       else bind_op (en_now cf) (\<lambda>t'. return_op (after (pa_expiresAt a) t')))"

definition resolve_primary :: "'s enrollment_config \<Rightarrow> enrollment_request \<Rightarrow> live_current \<Rightarrow> ('s, primary_authorization) enroll_op" where
  "resolve_primary cf q c =
     (case (cf_validatePrimary cf, eq_primaryReauthRef q) of
        (Some resolver, Some reference) \<Rightarrow>
          catch_op
            (bind_op (en_now cf) (\<lambda>t.
             bind_op (with_store (resolver reference (eq_userId q) (eq_sessionId q) (lc_user c) (lc_session c) t)) (\<lambda>answer.
               case answer of
                 None \<Rightarrow> en_fail EN_INVALID
               | Some a \<Rightarrow>
                   bind_op (en_require (authorization_bound (cf_env cf) q a) EN_INVALID) (\<lambda>_.
                   bind_op (authorization_live cf a) (\<lambda>live.
                   bind_op (en_require live EN_INVALID) (\<lambda>_.
                     return_op a))))))
            (\<lambda>_. en_fail EN_UNAUTHORIZED)
      | _ \<Rightarrow> en_fail EN_UNAUTHORIZED)"

definition unchanged_credential :: "primary_authorization \<Rightarrow> admin_user \<Rightarrow> admin_user \<Rightarrow> bool" where
  "unchanged_credential a before_user after_user \<longleftrightarrow>
     (if pa_method a = ''password''
      then u_passwordHash before_user \<noteq> [] \<and> u_passwordHash before_user = u_passwordHash after_user
      else case u_githubId before_user of
             None \<Rightarrow> False
           | Some i \<Rightarrow> isSafeInteger i \<and> 0 < i \<and> u_githubId after_user = Some i)"

text \<open>\<open>current\<close> with the demand: the account is not enrolled, and a self-enrolment is proved.\<close>

definition current_unenrolled ::
  "'s enrollment_config \<Rightarrow> enrollment_request \<Rightarrow> ('s, live_current \<times> primary_authorization option) enroll_op" where
  "current_unenrolled cf q =
     bind_op (of_result (requestMode q)) (\<lambda>mode.
     bind_op (current_principal cf q) (\<lambda>c.
     bind_op (requireAbsentFactor c mode) (\<lambda>_.
       if mode = Onboarding then return_op (c, None)
       else bind_op (resolve_primary cf q c) (\<lambda>a.
            bind_op (current_principal cf q) (\<lambda>fresh.
            bind_op (requireAbsentFactor fresh mode) (\<lambda>_.
            bind_op (en_require (unchanged_credential a (lc_user c) (lc_user fresh)
                \<and> u_handle (lc_user c) = u_handle (lc_user fresh)) EN_UNAUTHORIZED) (\<lambda>_.
            bind_op (authorization_live cf a) (\<lambda>live.
            bind_op (en_require live EN_UNAUTHORIZED) (\<lambda>_.
              return_op (fresh, Some a))))))))))"

definition requireReceiptOwner :: "'s enrollment_config \<Rightarrow> enrollment_request \<Rightarrow> enrollment_receipt \<Rightarrow> ('s, unit) enroll_op" where
  "requireReceiptOwner cf q receipt =
     bind_op (current_principal cf q) (\<lambda>c.
     bind_op (of_result (requestMode q)) (\<lambda>mode.
       en_require (u_id (lc_user c) = er_userId receipt \<and> u_handle (lc_user c) = er_handle receipt
           \<and> mode = er_mode receipt) EN_UNAUTHORIZED))"

definition checkBinding :: "'s enrollment_config \<Rightarrow> enrollment_pending \<Rightarrow> enrollment_request \<Rightarrow> string \<Rightarrow> ('s, unit) enroll_op" where
  "checkBinding cf p q handle =
     bind_op (of_result (requestMode q)) (\<lambda>mode.
     bind_op (en_require (recordMode p = mode \<and> ep_userId p = eq_userId q \<and> ep_handle p = handle) EN_CONFLICT) (\<lambda>_.
     bind_op (of_result (sessionDigest (cf_env cf) q)) (\<lambda>d.
       en_require (ep_sessionDigest p = d) EN_CONFLICT)))"

definition primary_matches :: "journal_env \<Rightarrow> primary_binding \<Rightarrow> enrollment_request \<Rightarrow> primary_authorization option \<Rightarrow> bool" where
  "primary_matches env b q authorization \<longleftrightarrow>
     (case (eq_primaryReauthRef q, authorization) of
        (Some reference, Some a) \<Rightarrow>
          eq_mode q = Some ''self-enrollment''
          \<and> primaryReferenceDigest env reference = pb_reauthDigest b
          \<and> primaryReauthDigest env reference a = pb_authorizationDigest b
      | _ \<Rightarrow> False)"

definition checkPrimaryAuthorization ::
  "'s enrollment_config \<Rightarrow> enrollment_pending \<Rightarrow> enrollment_request \<Rightarrow> primary_authorization option \<Rightarrow> ('s, unit) enroll_op" where
  "checkPrimaryAuthorization cf p q authorization =
     en_require (optional_ok (\<lambda>b. primary_matches (cf_env cf) b q authorization) (ep_primary p)) EN_UNAUTHORIZED"

definition checkExpiry :: "'s enrollment_config \<Rightarrow> enrollment_pending \<Rightarrow> ('s, unit) enroll_op" where
  "checkExpiry cf p =
     bind_op (en_now cf) (\<lambda>t.
       en_require (\<not> after (ep_createdAt p) t \<and> \<not> at_or_before (ep_expiresAt p) t) EN_EXPIRED)"

text \<open>The three checks of a pending record against a principal.\<close>

definition check_pending ::
  "'s enrollment_config \<Rightarrow> enrollment_pending \<Rightarrow> enrollment_request \<Rightarrow> live_current \<times> primary_authorization option \<Rightarrow> ('s, unit) enroll_op" where
  "check_pending cf p q current =
     bind_op (checkBinding cf p q (u_handle (lc_user (fst current)))) (\<lambda>_.
       checkPrimaryAuthorization cf p q (snd current))"

definition plainRecoveryCodes :: "'s enrollment_config \<Rightarrow> enrollment_pending \<Rightarrow> ('s, string list) enroll_op" where
  "plainRecoveryCodes cf p =
     bind_op (outside (decryptBackupCodes (jn_gcm (cf_env cf)) (jn_key (cf_env cf)) (ep_recoveryCodes p))) (\<lambda>v.
       case all_of as_text v of
         None \<Rightarrow> en_fail EN_INVALID
       | Some codes \<Rightarrow>
           bind_op (en_require (map (hashBackupCode (jn_sha256 (cf_env cf))) codes = map bc_hash (bs_codes (ep_backupCodes p)))
             EN_INVALID) (\<lambda>_. return_op codes))"

definition enrollment_setup_of :: "'s enrollment_config \<Rightarrow> enrollment_pending \<Rightarrow> ('s, enrollment_setup) enroll_op" where
  "enrollment_setup_of cf p =
     bind_op (en_require (enrollment_record_ok (cf_env cf) (Pending_enrollment p)) EN_INVALID) (\<lambda>_.
     bind_op (en_decrypt cf (ep_secret p)) (\<lambda>secret.
     bind_op (plainRecoveryCodes cf p) (\<lambda>codes.
     bind_op (en_require (enrollment_text secret) EN_INVALID) (\<lambda>_.
     bind_op (outside (cf_generateQRCode cf (ep_handle p) secret)) (\<lambda>url.
       return_op \<lparr>ese_attemptId = ep_attemptId p, ese_expiresAt = ep_expiresAt p, ese_secret = secret,
         ese_qrCodeUrl = url, ese_backupCodes = codes\<rparr>)))))"

section \<open>Operations\<close>

definition enrollment_recover :: "'s enrollment_config \<Rightarrow> ('s, unit) enroll_op" where
  "enrollment_recover cf = withReadyAuth cf (enrollment_recoverUnsafe cf)"

text \<open>\<open>begin\<close> when a live attempt is pending: it is shown again.\<close>

definition resume_attempt ::
  "'s enrollment_config \<Rightarrow> enrollment_request \<Rightarrow> live_current \<times> primary_authorization option \<Rightarrow> enrollment_pending \<Rightarrow> ('s, enrollment_setup) enroll_op" where
  "resume_attempt cf q state existing =
     bind_op (check_pending cf existing q state) (\<lambda>_.
     bind_op (checkExpiry cf existing) (\<lambda>_.
     bind_op (enrollment_setup_of cf existing) (\<lambda>setup.
     bind_op (current_unenrolled cf q) (\<lambda>fresh.
     bind_op (check_pending cf existing q fresh) (\<lambda>_.
     bind_op (checkExpiry cf existing) (\<lambda>_.
       return_op setup))))))"

text \<open>The proof bindings that are still live keep their proofs from being used again.\<close>

definition live_uses :: "int \<Rightarrow> enrollment_record option \<Rightarrow> primary_use list" where
  "live_uses now existing = filter (\<lambda>u. after (pu_expiresAt u) now) (primaryUses existing)"

definition check_uses :: "'s enrollment_config \<Rightarrow> enrollment_request \<Rightarrow> primary_use list \<Rightarrow> ('s, unit) enroll_op" where
  "check_uses cf q liveUses =
     (if eq_mode q = Some ''self-enrollment''
      then en_require (primaryReferenceDigest (cf_env cf) (nullish (eq_primaryReauthRef q) []) \<notin> set (map pu_digest liveUses)
             \<and> length liveUses < 256) EN_CONFLICT
      else en_require (liveUses = []) EN_CONFLICT)"

text \<open>The pending record of a new attempt; the values are drawn in this order.\<close>

definition new_binding ::
  "journal_env \<Rightarrow> enrollment_request \<Rightarrow> primary_authorization option \<Rightarrow> string \<Rightarrow> primary_use list \<Rightarrow> primary_binding option" where
  "new_binding env q primary attemptId liveUses =
     (case (eq_primaryReauthRef q, primary) of
        (Some reference, Some a) \<Rightarrow>
          Some \<lparr>pb_reauthDigest = primaryReferenceDigest env reference,
            pb_authorizationDigest = primaryReauthDigest env reference a,
            pb_uses = liveUses @ [\<lparr>pu_digest = primaryReferenceDigest env reference, pu_attemptId = attemptId,
              pu_expiresAt = pa_expiresAt a\<rparr>]\<rparr>
      | _ \<Rightarrow> None)"

definition attempt_deadline :: "journal_env \<Rightarrow> int \<Rightarrow> primary_authorization option \<Rightarrow> int" where
  "attempt_deadline env now primary =
     (case Option.bind primary (\<lambda>a. date_parse (pa_expiresAt a)) of
        None \<Rightarrow> now + jn_ttl env
      | Some e \<Rightarrow> min (now + jn_ttl env) e)"

definition new_enrollment ::
  "'s enrollment_config \<Rightarrow> enrollment_request \<Rightarrow> live_current \<times> primary_authorization option \<Rightarrow> int \<Rightarrow> primary_use list \<Rightarrow> ('s, enrollment_pending) enroll_op" where
  "new_enrollment cf q state now liveUses =
     bind_op (en_ask (cf_generateSecret cf)) (\<lambda>generated.
     bind_op (outside generated) (\<lambda>secret.
     bind_op (en_ask (cf_codeBytes cf)) (\<lambda>draws.
     let codes = generateBackupCodes (take 10 draws) in
     bind_op (en_ask (jn_random (cf_env cf))) (\<lambda>attempt.
     bind_op (of_result (sessionDigest (cf_env cf) q)) (\<lambda>digest.
     bind_op (en_encrypt cf secret) (\<lambda>sealed.
     bind_op (en_encrypt cf (stringify (JArr (map JStr codes)))) (\<lambda>recovery.
     bind_op (en_ask (cf_codeIds cf)) (\<lambda>ids.
       return_op \<lparr>ep_attemptId = bytes_hex attempt, ep_userId = eq_userId q, ep_handle = u_handle (lc_user (fst state)),
         ep_sessionDigest = digest, ep_createdAt = Iso now,
         ep_expiresAt = Iso (attempt_deadline (cf_env cf) now (snd state)),
         ep_secret = sealed, ep_recoveryCodes = recovery,
         ep_backupCodes = (createBackupCodeSet (jn_sha256 (cf_env cf)) 0 ids (eq_userId q) codes)\<lparr>bs_generatedAt := Iso now\<rparr>,
         ep_primary = new_binding (cf_env cf) q (snd state) (bytes_hex attempt) liveUses\<rparr>))))))))"

text \<open>A proof may run out while the record is published: then its setup is not shown.\<close>

definition disclose :: "'s enrollment_config \<Rightarrow> enrollment_request \<Rightarrow> enrollment_pending \<Rightarrow> ('s, unit) enroll_op" where
  "disclose cf q p =
     (if recordMode p = Onboarding then return_op ()
      else bind_op (current_unenrolled cf q) (\<lambda>disclosed.
           bind_op (check_pending cf p q disclosed) (\<lambda>_.
             checkExpiry cf p)))"

definition start_attempt ::
  "'s enrollment_config \<Rightarrow> enrollment_request \<Rightarrow> live_current \<times> primary_authorization option \<Rightarrow> int \<Rightarrow> primary_use list \<Rightarrow> ('s, enrollment_setup) enroll_op" where
  "start_attempt cf q state now liveUses =
     bind_op (new_enrollment cf q state now liveUses) (\<lambda>p.
     bind_op (enrollment_setup_of cf p) (\<lambda>setup.
     bind_op (current_unenrolled cf q) (\<lambda>fresh.
     bind_op (check_pending cf p q fresh) (\<lambda>_.
     bind_op (en_now cf) (\<lambda>t.
     bind_op (en_require (\<not> at_or_before (ep_expiresAt p) t) EN_EXPIRED) (\<lambda>_.
     bind_op (writeEnrollment cf (Pending_enrollment p)) (\<lambda>_.
     bind_op (disclose cf q p) (\<lambda>_.
       return_op setup))))))))"

definition begin_unsafe :: "'s enrollment_config \<Rightarrow> enrollment_request \<Rightarrow> ('s, enrollment_setup) enroll_op" where
  "begin_unsafe cf q =
     bind_op (current_unenrolled cf q) (\<lambda>state.
     bind_op (readEnrollment cf (eq_userId q)) (\<lambda>existing.
     bind_op (en_now cf) (\<lambda>now.
       case existing of
         Some (Pending_enrollment p) \<Rightarrow>
           if after (ep_expiresAt p) now then resume_attempt cf q state p
           else bind_op (check_uses cf q (live_uses now existing)) (\<lambda>_.
                  start_attempt cf q state now (live_uses now existing))
       | _ \<Rightarrow>
           bind_op (check_uses cf q (live_uses now existing)) (\<lambda>_.
             start_attempt cf q state now (live_uses now existing)))))"

definition enrollment_begin :: "'s enrollment_config \<Rightarrow> enrollment_request \<Rightarrow> ('s, enrollment_setup) enroll_op" where
  "enrollment_begin cf q = withReadyAuth cf (begin_unsafe cf q)"

text \<open>\<open>complete\<close>: the verification of the code against the secret of the attempt.\<close>

definition enrollment_secret :: "enrollment_pending \<Rightarrow> string \<Rightarrow> totp_secret" where
  "enrollment_secret p secret =
     \<lparr>tot_handle = ep_handle p, tot_email = None, tot_secret = secret, tot_qrCodeUrl = None,
      tot_createdAt = nullish (date_parse (ep_createdAt p)) 0\<rparr>"

definition enrollment_step :: "'s enrollment_config \<Rightarrow> enrollment_pending \<Rightarrow> string \<Rightarrow> string \<Rightarrow> ('s, int) enroll_op" where
  "enrollment_step cf p secret token =
     bind_op (en_ask (cf_epoch cf)) (\<lambda>epoch.
     bind_op (en_now cf) (\<lambda>nowMs.
     bind_op (outside (totp_verifyTokenWithStep (cf_check cf) (cf_authenticator cf) 0 epoch nowMs
         (Some (enrollment_secret p secret)) token None)) (\<lambda>(valid, step).
       case step of
         None \<Rightarrow> en_fail EN_INVALID
       | Some n \<Rightarrow> if \<not> valid \<or> \<not> isSafeInteger n \<or> n < 0 then en_fail EN_INVALID else return_op n)))"

definition sealed_again :: "'s enrollment_config \<Rightarrow> string \<Rightarrow> ('s, encrypted_data) enroll_op" where
  "sealed_again cf secret =
     bind_op (en_encrypt cf secret) (\<lambda>cipher.
     bind_op (en_decrypt cf cipher) (\<lambda>plain.
     bind_op (en_require (plain = secret) EN_INVALID) (\<lambda>_.
       return_op cipher)))"

definition enrollment_completion_of ::
  "enrollment_pending \<Rightarrow> encrypted_data \<Rightarrow> stamp \<Rightarrow> int \<Rightarrow> int \<Rightarrow> enrollment_completion" where
  "enrollment_completion_of p cipher completedAt step onboardingStep =
     \<lparr>ec_attemptId = ep_attemptId p, ec_userId = ep_userId p, ec_handle = ep_handle p,
      ec_sessionDigest = ep_sessionDigest p, ec_completedAt = completedAt,
      ec_totpSecret = \<lparr>ts_userId = ep_userId p, ts_handle = ep_handle p, ts_encryptedSecret = en_encrypted cipher,
        ts_iv = en_iv cipher, ts_authTag = en_tag cipher, ts_salt = en_salt cipher, ts_createdAt = completedAt,
        ts_lastUsedAt = Some completedAt, ts_lastUsedTotpStep = Some step, ts_backupCodesGenerated = True, ts_version = 1\<rparr>,
      ec_backupCodes = ep_backupCodes p,
      ec_userPatch = (case recordMode p of
          Onboarding \<Rightarrow> Onboarding_patch (ep_handle p) (max onboardingStep 2)
        | Self_enrollment \<Rightarrow> Self_patch (ep_handle p))\<rparr>"

definition enrollment_receipt_of :: "journal_env \<Rightarrow> enrollment_completion \<Rightarrow> enrollment_receipt" where
  "enrollment_receipt_of env c =
     \<lparr>er_mode = patch_mode (ec_userPatch c), er_attemptId = ec_attemptId c, er_userId = ec_userId c,
      er_handle = ec_handle c, er_completedAt = ec_completedAt c, er_materialDigest = enrollmentDigest env c\<rparr>"

definition commit_enrollment ::
  "'s enrollment_config \<Rightarrow> enrollment_request \<Rightarrow> enrollment_pending \<Rightarrow> enrollment_completion \<Rightarrow> ('s, enrollment_receipt) enroll_op" where
  "commit_enrollment cf q p c =
     (let receipt = enrollment_receipt_of (cf_env cf) c; uses = map_option pb_uses (ep_primary p) in
      bind_op (set_recoveryRequired True) (\<lambda>_.
      bind_op (writeEnrollment cf (Committed_enrollment uses c receipt)) (\<lambda>_.
      bind_op (enrollment_apply cf uses c receipt) (\<lambda>_.
      bind_op (set_recoveryRequired False) (\<lambda>_.
      bind_op (if recordMode p = Onboarding then return_op () else requireReceiptOwner cf q receipt) (\<lambda>_.
        return_op receipt))))))"

definition verified_completion ::
  "'s enrollment_config \<Rightarrow> enrollment_request \<Rightarrow> enrollment_pending \<Rightarrow> string \<Rightarrow> ('s, enrollment_completion) enroll_op" where
  "verified_completion cf q p token =
     bind_op (en_decrypt cf (ep_secret p)) (\<lambda>secret.
     bind_op (enrollment_step cf p secret token) (\<lambda>step.
     bind_op (checkExpiry cf p) (\<lambda>_.
     bind_op (current_unenrolled cf q) (\<lambda>fresh.
     bind_op (check_pending cf p q fresh) (\<lambda>_.
     bind_op (sealed_again cf secret) (\<lambda>cipher.
     bind_op (en_now cf) (\<lambda>now.
     bind_op (checkExpiry cf p) (\<lambda>_.
       return_op (enrollment_completion_of p cipher (Iso now) step (u_onboardingStep (lc_user (fst fresh))))))))))))"

definition deny_gate :: "'s enrollment_config \<Rightarrow> ('s, unit) enroll_op" where
  "deny_gate cf = (case cf_beforeComplete cf of None \<Rightarrow> return_op () | Some deny \<Rightarrow> with_store deny)"

definition complete_pending ::
  "'s enrollment_config \<Rightarrow> enrollment_request \<Rightarrow> string \<Rightarrow> string \<Rightarrow> live_current \<Rightarrow> enrollment_pending \<Rightarrow> ('s, enrollment_receipt) enroll_op" where
  "complete_pending cf q attemptId token state p =
     bind_op (checkBinding cf p q (u_handle (lc_user state))) (\<lambda>_.
     bind_op (en_require (ep_attemptId p = attemptId) EN_CONFLICT) (\<lambda>_.
     bind_op (checkExpiry cf p) (\<lambda>_.
     bind_op (current_unenrolled cf q) (\<lambda>authorized.
     bind_op (checkPrimaryAuthorization cf p q (snd authorized)) (\<lambda>_.
     bind_op (plainRecoveryCodes cf p) (\<lambda>_.
     bind_op (en_require (is_totp_token (remove_spaces token)) EN_INVALID) (\<lambda>_.
     bind_op (deny_gate cf) (\<lambda>_.
     bind_op (verified_completion cf q p token) (\<lambda>c.
       commit_enrollment cf q p c)))))))))"

text \<open>\<open>complete\<close> of an attempt that was applied before: its receipt again.\<close>

definition replay_receipt ::
  "'s enrollment_config \<Rightarrow> enrollment_request \<Rightarrow> string \<Rightarrow> live_current \<Rightarrow> primary_use list option \<Rightarrow> string \<Rightarrow> enrollment_receipt \<Rightarrow> ('s, enrollment_receipt) enroll_op" where
  "replay_receipt cf q attemptId state uses digest receipt =
     bind_op (of_result (requestMode q)) (\<lambda>mode.
     bind_op (en_require (uses_mode uses = mode \<and> er_attemptId receipt = attemptId
         \<and> er_handle receipt = u_handle (lc_user state)) EN_CONFLICT) (\<lambda>_.
     bind_op (of_result (sessionDigest (cf_env cf) q)) (\<lambda>d.
     bind_op (en_require (digest = d) EN_CONFLICT) (\<lambda>_.
     bind_op (if uses = None then return_op () else requireReceiptOwner cf q receipt) (\<lambda>_.
       return_op receipt)))))"

definition complete_unsafe :: "'s enrollment_config \<Rightarrow> enrollment_request \<Rightarrow> string \<Rightarrow> string \<Rightarrow> ('s, enrollment_receipt) enroll_op" where
  "complete_unsafe cf q attemptId token =
     bind_op (current_principal cf q) (\<lambda>state.
     bind_op (readEnrollment cf (eq_userId q)) (\<lambda>existing.
       case existing of
         None \<Rightarrow> en_fail EN_CONFLICT
       | Some (Applied_enrollment uses digest receipt) \<Rightarrow> replay_receipt cf q attemptId state uses digest receipt
       | Some (Committed_enrollment uses c receipt) \<Rightarrow> en_fail EN_RECOVERY_REQUIRED
       | Some (Pending_enrollment p) \<Rightarrow> complete_pending cf q attemptId token state p))"

definition enrollment_complete :: "'s enrollment_config \<Rightarrow> enrollment_request \<Rightarrow> string \<Rightarrow> string \<Rightarrow> ('s, enrollment_receipt) enroll_op" where
  "enrollment_complete cf q attemptId token =
     bind_op (en_require (is_attempt_id attemptId) EN_INVALID) (\<lambda>_.
       withReadyAuth cf (complete_unsafe cf q attemptId token))"

end
