(* ===== verification/Preserved.thy ===== *)
theory Preserved
  imports Triples
begin

text \<open>
  Operations that leave a view of the state as it is, whether they return or fail, and how they go
  through triples: what such an operation answers may be used, and the view is what it was.
\<close>

definition preserves :: "('w \<Rightarrow> 'v) \<Rightarrow> ('e, 'w, 'a) fallible \<Rightarrow> bool" where
  "preserves view m \<longleftrightarrow> (\<forall>w. view (snd (m w)) = view w)"

named_theorems preserves_intros \<open>operations that leave a view alone\<close>

lemma preservesI: "(\<And>w. view (snd (m w)) = view w) \<Longrightarrow> preserves view m"
  by (simp add: preserves_def)

lemma preservesD: "preserves view m \<Longrightarrow> m w = (r, w') \<Longrightarrow> view w' = view w"
  unfolding preserves_def by (metis snd_conv)

lemma preserves_plain [preserves_intros]:
  "preserves view (return_op a)" "preserves view (throw_op e)" "preserves view (of_result r)"
  by (simp_all add: preserves_def of_result_def)

lemma preserves_bind [preserves_intros]:
  "preserves view m \<Longrightarrow> (\<And>a. preserves view (f a)) \<Longrightarrow> preserves view (bind_op m f)"
  unfolding preserves_def bind_op_def by (auto split: prod.splits sum.splits; metis snd_conv)

lemma preserves_catch [preserves_intros]:
  "preserves view m \<Longrightarrow> (\<And>e. preserves view (h e)) \<Longrightarrow> preserves view (catch_op m h)"
  unfolding preserves_def catch_op_def by (auto split: prod.splits sum.splits; metis snd_conv)

lemma preserves_if [preserves_intros]:
  "(b \<Longrightarrow> preserves view m) \<Longrightarrow> (\<not> b \<Longrightarrow> preserves view n) \<Longrightarrow> preserves view (if b then m else n)"
  by simp

lemma preserves_option [preserves_intros]:
  "(v = None \<Longrightarrow> preserves view m) \<Longrightarrow> (\<And>a. v = Some a \<Longrightarrow> preserves view (f a))
   \<Longrightarrow> preserves view (case v of None \<Rightarrow> m | Some a \<Rightarrow> f a)"
  by (cases v) auto

lemma preserves_pair [preserves_intros]:
  "(\<And>a b. v = (a, b) \<Longrightarrow> preserves view (f a b)) \<Longrightarrow> preserves view (case v of (a, b) \<Rightarrow> f a b)"
  by (cases v) auto

section \<open>Triples that start from a view\<close>

lemma triple_preserved: "preserves view m \<Longrightarrow> triple (\<lambda>w. view w = x) m (\<lambda>_ w. view w = x) (\<lambda>w. view w = x)"
  by (rule tripleI) (metis preservesD)+

text \<open>After such an operation comes the rest, with the fact its answer gives.\<close>

lemma triple_preserved_bind:
  assumes "preserves view m" "\<And>w a w'. view w = x \<Longrightarrow> m w = (Inr a, w') \<Longrightarrow> F a"
    and "\<And>a. F a \<Longrightarrow> triple (\<lambda>w. view w = x) (f a) Q E" "\<And>w. view w = x \<Longrightarrow> E w"
  shows "triple (\<lambda>w. view w = x) (bind_op m f) Q E"
proof (rule tripleI)
  fix w e w' assume w: "view w = x" "bind_op m f w = (Inl e, w')"
  obtain r w1 where m: "m w = (r, w1)" by fastforce
  note kept = preservesD [OF assms(1) m]
  show "E w'"
  proof (cases r)
    case (Inl e')
    then show ?thesis using w m kept assms(4) by auto
  next
    case (Inr a)
    have "triple (\<lambda>w. view w = x) (f a) Q E"
      by (rule assms(3), rule assms(2) [OF w(1)]) (use m Inr in simp)
    then show ?thesis using w m kept Inr by (auto dest: triple_Inl)
  qed
next
  fix w b w' assume w: "view w = x" "bind_op m f w = (Inr b, w')"
  then obtain a w1 where m: "m w = (Inr a, w1)" "f a w1 = (Inr b, w')" by (auto simp: bind_op_eq_Inr)
  have "triple (\<lambda>w. view w = x) (f a) Q E"
    by (rule assms(3), rule assms(2) [OF w(1) m(1)])
  from triple_Inr [OF this _ m(2)] show "Q b w'" using preservesD [OF assms(1) m(1)] w(1) by simp
qed

lemma triple_preserved_then:
  assumes "preserves view m" "\<And>a. triple (\<lambda>w. view w = x) (f a) Q E" "\<And>w. view w = x \<Longrightarrow> E w"
  shows "triple (\<lambda>w. view w = x) (bind_op m f) Q E"
  by (rule triple_preserved_bind [where F = "\<lambda>_. True", OF assms(1) _ assms(2,3)]) simp

text \<open>At the end of a run only views count.\<close>

lemma triple_view_end:
  assumes "preserves view m" "\<And>w a w'. view w = x \<Longrightarrow> m w = (Inr a, w') \<Longrightarrow> F a" "\<And>a w. F a \<Longrightarrow> view w = x \<Longrightarrow> Q a w"
    "\<And>w. view w = x \<Longrightarrow> E w"
  shows "triple (\<lambda>w. view w = x) m Q E"
  by (rule tripleI) (use assms preservesD [OF assms(1)] in metis)+

end
