(* ===== verification/Enrollment_Protocol.thy ===== *)
theory Enrollment_Protocol
  imports Totp_Enrollment Preserved
begin

text \<open>
  The life of an enrolment as a relation on what the journal files say and what is stored, the
  contract of the application hooks, and the proof that every operation only makes moves of the
  relation, whatever fails on the way.
\<close>

section \<open>The moves\<close>

type_synonym enrollment_view = "enrollment_error + enrollment_record option"

type_synonym 's enrollment_phase = "(string \<Rightarrow> enrollment_view) \<times> 's"

definition enrollment_phase :: "'s enrollment_config \<Rightarrow> 's enroll_world \<Rightarrow> 's enrollment_phase" where
  "enrollment_phase cf w = (enrollment_at (cf_env cf) (ew_files w), ew_store w)"

lemma snd_phase [simp]: "snd (enrollment_phase cf w) = ew_store w"
  by (simp add: enrollment_phase_def)

text \<open>A code that otplib accepts for the sealed secret of an attempt, and the step it stands for.\<close>

definition enrollment_verified :: "'s enrollment_config \<Rightarrow> enrollment_pending \<Rightarrow> string \<Rightarrow> string \<Rightarrow> int \<Rightarrow> bool" where
  "enrollment_verified cf p secret token step \<longleftrightarrow>
     is_totp_token (remove_spaces token) \<and> 0 \<le> step
     \<and> totp_decrypt (jn_gcm (cf_env cf)) (jn_key (cf_env cf)) (ep_secret p) = Inr secret
     \<and> (\<exists>epoch nowMs delta.
          cf_check cf secret (remove_spaces token) (ac_digits (cf_authenticator cf)) (ac_step (cf_authenticator cf))
            (epochTolerance (cf_authenticator cf)) epoch = Inr (Some delta)
          \<and> step = currentStepFor (cf_authenticator cf) nowMs + delta)"

text \<open>A completion of an attempt: a code was verified, and the factor seals the same secret.\<close>

definition completes_enrollment :: "'s enrollment_config \<Rightarrow> enrollment_pending \<Rightarrow> string \<Rightarrow> enrollment_completion \<Rightarrow> bool" where
  "completes_enrollment cf p token c \<longleftrightarrow>
     (\<exists>secret step cipher t onboardingStep.
        enrollment_verified cf p secret token step
        \<and> totp_decrypt (jn_gcm (cf_env cf)) (jn_key (cf_env cf)) cipher = Inr secret
        \<and> c = enrollment_completion_of p cipher t step onboardingStep)"

text \<open>
  A new attempt takes the place of no record, of an applied one, or of an attempt that has run
  out. The proof bindings that are live stay, and the proof of the attempt is not among them.
\<close>

definition may_start :: "enrollment_record option \<Rightarrow> int \<Rightarrow> bool" where
  "may_start old now \<longleftrightarrow>
     (case old of
        None \<Rightarrow> True
      | Some (Pending_enrollment p) \<Rightarrow> \<not> after (ep_expiresAt p) now
      | Some (Committed_enrollment uses c r) \<Rightarrow> False
      | Some (Applied_enrollment uses d r) \<Rightarrow> True)"

definition keeps_uses :: "primary_use list \<Rightarrow> enrollment_pending \<Rightarrow> bool" where
  "keeps_uses live p \<longleftrightarrow>
     (case ep_primary p of
        None \<Rightarrow> live = []
      | Some b \<Rightarrow> pb_reauthDigest b \<notin> set (map pu_digest live) \<and> set live \<subseteq> set (pb_uses b))"

definition starts :: "'s enrollment_config \<Rightarrow> enrollment_record option \<Rightarrow> enrollment_pending \<Rightarrow> bool" where
  "starts cf old p \<longleftrightarrow>
     enrollment_pending_ok (cf_env cf) p
     \<and> (\<exists>n. let now = jn_clock (cf_env cf) n in
            ep_createdAt p = Iso now \<and> may_start old now \<and> keeps_uses (live_uses now old) p)"

definition enters :: "(string \<Rightarrow> enrollment_view) \<Rightarrow> string \<Rightarrow> enrollment_record \<Rightarrow> (string \<Rightarrow> enrollment_view)" where
  "enters J name r = J(name := Inr (Some r))"

inductive enrollment_move :: "'s enrollment_config \<Rightarrow> 's enrollment_phase \<Rightarrow> 's enrollment_phase \<Rightarrow> bool" for cf where
  Start: "name = enrollment_filename (cf_env cf) (ep_userId p) \<Longrightarrow> J name = Inr old \<Longrightarrow> starts cf old p
    \<Longrightarrow> enrollment_move cf (J, s) (enters J name (Pending_enrollment p), s)"
| Commit: "name = enrollment_filename (cf_env cf) (ep_userId p) \<Longrightarrow> J name = Inr (Some (Pending_enrollment p))
    \<Longrightarrow> completes_enrollment cf p token c
    \<Longrightarrow> enrollment_move cf (J, s) (enters J name (Committed_enrollment (map_option pb_uses (ep_primary p)) c
          (enrollment_receipt_of (cf_env cf) c)), s)"
| Project: "J name = Inr (Some (Committed_enrollment uses c r))
    \<Longrightarrow> enrollment_move cf (J, s) (J, snd (cf_project cf c s))"
| Settle: "J name = Inr (Some (Committed_enrollment uses c r)) \<Longrightarrow> cf_project cf c s = (Inr (), s')
    \<Longrightarrow> enrollment_move cf (J, s) (enters J name (Applied_enrollment uses (ec_sessionDigest c) r), s')"

inductive_cases enrollment_moveE: "enrollment_move cf x y"

abbreviation enrollment_run :: "'s enrollment_config \<Rightarrow> 's enrollment_phase \<Rightarrow> 's enrollment_phase \<Rightarrow> bool" where
  "enrollment_run cf \<equiv> (enrollment_move cf)\<^sup>*\<^sup>*"

section \<open>What a result tells\<close>

named_theorems answers \<open>what the answer of a basic operation tells of the states\<close>

lemma basic_answers [answers]:
  "en_require b code w = (Inr x, w') \<longleftrightarrow> b \<and> w' = w"
  "en_fail code w \<noteq> (Inr y, w')"
  "outside r w = (Inr a, w') \<longleftrightarrow> r = Inr a \<and> w' = w"
  "en_ask f w = (Inr v, w') \<longleftrightarrow> v = f (ew_asked w) \<and> w' = w\<lparr>ew_asked := Suc (ew_asked w)\<rparr>"
  "en_now cf w = (Inr t, w') \<longleftrightarrow> t = jn_clock (cf_env cf) (ew_asked w) \<and> w' = w\<lparr>ew_asked := Suc (ew_asked w)\<rparr>"
  "en_decrypt cf d w = (Inr s, w') \<longleftrightarrow> totp_decrypt (jn_gcm (cf_env cf)) (jn_key (cf_env cf)) d = Inr s \<and> w' = w"
  by (auto simp: en_require_def en_fail_def outside_def en_ask_def en_now_def en_decrypt_def split: sum.splits)

lemma io_answers [answers]:
  "en_io f w = (Inr x, w') \<longleftrightarrow> f (ew_asked w) = Inr () \<and> w' = w\<lparr>ew_asked := Suc (ew_asked w)\<rparr>"
  by (cases "f (ew_asked w)") (auto simp: en_io_def bind_op_def en_ask_def outside_def)

lemma result_answers [answers]: "of_result r w = (Inr a, w') \<longleftrightarrow> r = Inr a \<and> w' = w"
  by (auto simp: of_result_def)

section \<open>Operations that change neither\<close>

abbreviation still :: "'s enrollment_config \<Rightarrow> ('s, 'a) enroll_op \<Rightarrow> bool" where
  "still cf \<equiv> preserves (enrollment_phase cf)"

lemma still_basic [preserves_intros]:
  "still cf (en_fail code)" "still cf (en_require b code)" "still cf (outside r)" "still cf (en_ask f)" "still cf (en_io g)"
  "still cf (en_now cf')" "still cf (set_recoveryRequired b)"
  by (auto simp: preserves_def en_fail_def en_require_def outside_def en_ask_def en_io_def en_now_def
      set_recoveryRequired_def enrollment_phase_def bind_op_def split: sum.splits)

lemma still_with_store: "(\<And>s. snd (m s) = s) \<Longrightarrow> still cf (with_store m)"
  by (auto simp: preserves_def with_store_def Let_def enrollment_phase_def split: prod.splits) (metis snd_conv)

lemma still_crypt [preserves_intros]: "still cf (en_encrypt cf t)" "still cf (en_decrypt cf d)" "still cf (sealed_again cf t)"
  unfolding en_encrypt_def en_decrypt_def sealed_again_def by (intro preserves_intros)+

lemma still_checks [preserves_intros]:
  "still cf (requireAbsentFactor c mode)" "still cf (authorization_live cf a)" "still cf (checkExpiry cf p)"
  "still cf (checkBinding cf p q handle)" "still cf (checkPrimaryAuthorization cf p q au)" "still cf (check_pending cf p q cur)"
  "still cf (check_uses cf q live)"
  unfolding requireAbsentFactor_def authorization_live_def checkExpiry_def checkBinding_def checkPrimaryAuthorization_def
    check_pending_def check_uses_def Let_def by (intro preserves_intros)+

lemma still_setup [preserves_intros]:
  "still cf (plainRecoveryCodes cf p)" "still cf (enrollment_setup_of cf p)" "still cf (enrollment_step cf p secret token)"
  "still cf (new_enrollment cf q state now live)"
  unfolding plainRecoveryCodes_def enrollment_setup_of_def enrollment_step_def new_enrollment_def Let_def
    checkPrimaryAuthorization_def by (intro preserves_intros)+

lemma readEnrollment_view:
  assumes "readEnrollment cf uid w = (Inr r, w')"
  shows "fst (enrollment_phase cf w) (enrollment_filename (cf_env cf) uid) = Inr r \<and> enrollment_text uid
    \<and> (case r of None \<Rightarrow> True | Some x \<Rightarrow> recordUserId x = uid)"
  using assms
  by (auto simp: readEnrollment_def answers enrollment_phase_def bind_op_eq_Inr split: sum.splits option.splits if_splits)

lemma still_read [preserves_intros]: "still cf (readEnrollment cf uid)"
proof -
  have "still cf (\<lambda>w. case enrollment_at (cf_env cf) (ew_files w) name of
      Inl e \<Rightarrow> (Inl e, w) | Inr None \<Rightarrow> (Inr None, w)
    | Inr (Some r) \<Rightarrow> (if P r then Inr (Some r) else Inl e', w))" for name P e'
    by (auto simp: preserves_def split: sum.splits option.splits)
  then show ?thesis
    unfolding readEnrollment_def by (intro preserves_intros)
qed

section \<open>The contract of the hooks\<close>

locale enrollment_reads =
  fixes cf :: "'s enrollment_config"
  assumes load_reads: "snd (cf_loadCurrent cf u i s) = s"
    and resolver_reads: "cf_validatePrimary cf = Some f \<Longrightarrow> snd (f r u i account x t s) = s"
    and deny_reads: "cf_beforeComplete cf = Some deny \<Longrightarrow> snd (deny s) = s"
begin

lemma still_principal [preserves_intros]: "still cf (current_principal cf q)"
  unfolding current_principal_def
  by (intro preserves_intros still_with_store load_reads)

lemma still_resolve [preserves_intros]: "still cf (resolve_primary cf q c)"
  unfolding resolve_primary_def
  by (intro preserves_intros still_with_store; simp add: resolver_reads)

lemma still_current [preserves_intros]:
  "still cf (current_unenrolled cf q)" "still cf (requireReceiptOwner cf q r)" "still cf (disclose cf q p)"
  "still cf (resume_attempt cf q state p)" "still cf (verified_completion cf q p token)"
  "still cf (replay_receipt cf q attempt c uses d r)"
  unfolding current_unenrolled_def requireReceiptOwner_def disclose_def resume_attempt_def verified_completion_def
    replay_receipt_def
  by (intro preserves_intros)+

lemma still_deny [preserves_intros]: "still cf (deny_gate cf)"
  unfolding deny_gate_def by (intro preserves_intros still_with_store deny_reads)

end

section \<open>What the checks establish\<close>

text \<open>The principal the checks accepted, as the store gives it.\<close>

definition principal_now :: "'s enrollment_config \<Rightarrow> enrollment_request \<Rightarrow> 's \<Rightarrow> live_current \<Rightarrow> bool" where
  "principal_now cf q s c \<longleftrightarrow>
     (\<exists>cur n. cf_loadCurrent cf (eq_userId q) (eq_sessionId q) s = (Inr cur, s)
        \<and> cs_user cur = Some (lc_user c) \<and> cs_session cur = Some (lc_session c)
        \<and> cs_totpSecret cur = lc_totpSecret c \<and> cs_backupCodes cur = lc_backupCodes c
        \<and> principal_bound q (lc_user c) (lc_session c)
        \<and> after (s_expires (lc_session c)) (jn_clock (cf_env cf) n)
        \<and> (requestMode q = Inr Self_enrollment \<longrightarrow> completed_account (lc_user c) (lc_session c)))"

text \<open>The proof of a self-enrolment the resolver gave for this principal.\<close>

definition proved_now ::
  "'s enrollment_config \<Rightarrow> enrollment_request \<Rightarrow> 's \<Rightarrow> live_current \<Rightarrow> primary_authorization \<Rightarrow> bool" where
  "proved_now cf q s c a \<longleftrightarrow>
     (\<exists>resolver reference t n m.
        cf_validatePrimary cf = Some resolver \<and> eq_primaryReauthRef q = Some reference
        \<and> resolver reference (eq_userId q) (eq_sessionId q) (lc_user c) (lc_session c) t s = (Inr (Some a), s)
        \<and> authorization_bound (cf_env cf) q a \<and> unchanged_credential a (lc_user c) (lc_user c)
        \<and> \<not> after (pa_issuedAt a) (jn_clock (cf_env cf) n) \<and> after (pa_expiresAt a) (jn_clock (cf_env cf) m))"

definition unenrolled_now ::
  "'s enrollment_config \<Rightarrow> enrollment_request \<Rightarrow> 's \<Rightarrow> live_current \<times> primary_authorization option \<Rightarrow> bool" where
  "unenrolled_now cf q s st \<longleftrightarrow>
     (let (c, proof_given) = st in
      principal_now cf q s c
      \<and> (\<exists>mode. requestMode q = Inr mode \<and> absent_factor c mode
           \<and> (case mode of
                Onboarding \<Rightarrow> proof_given = None
              | Self_enrollment \<Rightarrow> (\<exists>a. proof_given = Some a \<and> proved_now cf q s c a))))"

lemma with_store_read:
  "with_store m w = (Inr a, w') \<Longrightarrow> snd (m (ew_store w)) = ew_store w \<Longrightarrow> m (ew_store w) = (Inr a, ew_store w) \<and> w' = w"
  by (cases "m (ew_store w)") (auto simp: with_store_def Let_def split: sum.splits)

lemma authorization_live_True:
  "authorization_live cf a w = (Inr True, w') \<Longrightarrow>
     \<exists>n m. \<not> after (pa_issuedAt a) (jn_clock (cf_env cf) n) \<and> after (pa_expiresAt a) (jn_clock (cf_env cf) m)"
  by (auto simp: authorization_live_def answers bind_op_eq_Inr split: if_splits)

lemma checkExpiry_Inr:
  "checkExpiry cf p w = (Inr x, w') \<Longrightarrow>
     \<exists>n. \<not> after (ep_createdAt p) (jn_clock (cf_env cf) n) \<and> \<not> at_or_before (ep_expiresAt p) (jn_clock (cf_env cf) n)"
  by (auto simp: checkExpiry_def answers bind_op_eq_Inr)

lemma checkBinding_Inr:
  "checkBinding cf p q handle w = (Inr x, w') \<longleftrightarrow>
     requestMode q = Inr (recordMode p) \<and> ep_userId p = eq_userId q \<and> ep_handle p = handle
     \<and> sessionDigest (cf_env cf) q = Inr (ep_sessionDigest p) \<and> w' = w"
  by (auto simp: checkBinding_def answers bind_op_eq_Inr)

lemma checkPrimary_Inr:
  "checkPrimaryAuthorization cf p q a w = (Inr x, w') \<longleftrightarrow>
     optional_ok (\<lambda>b. primary_matches (cf_env cf) b q a) (ep_primary p) \<and> w' = w"
  by (auto simp: checkPrimaryAuthorization_def answers)

lemma enrollment_step_Inr:
  assumes "enrollment_step cf p secret token w = (Inr step, w')"
  shows "0 \<le> step \<and> (\<exists>epoch nowMs delta.
      cf_check cf secret (remove_spaces token) (ac_digits (cf_authenticator cf)) (ac_step (cf_authenticator cf))
        (epochTolerance (cf_authenticator cf)) epoch = Inr (Some delta)
      \<and> step = currentStepFor (cf_authenticator cf) nowMs + delta)"
proof -
  obtain epoch nowMs where "matched_step (cf_check cf) (cf_authenticator cf) epoch nowMs
      (Some (enrollment_secret p secret)) (remove_spaces token) None = Inr (Some step)" "0 \<le> step"
    using assms
    by (auto simp: enrollment_step_def verifyTokenWithStep_matched outside_def en_fail_def bind_op_eq_Inr
        split: sum.splits option.splits if_splits)
  from matched_step_SomeD [OF this(1)] this(2) show ?thesis
    by (metis enrollment_secret_def option.inject totp_secret.select_convs(3))
qed

lemma sealed_again_Inr:
  "sealed_again cf secret w = (Inr cipher, w') \<Longrightarrow> totp_decrypt (jn_gcm (cf_env cf)) (jn_key (cf_env cf)) cipher = Inr secret"
  by (auto simp: sealed_again_def answers bind_op_eq_Inr)

context enrollment_reads
begin

lemma current_principal_Inr:
  assumes "current_principal cf q w = (Inr c, w')"
  shows "principal_now cf q (ew_store w) c"
proof -
  obtain mode d cur w1 where load: "with_store (cf_loadCurrent cf (eq_userId q) (eq_sessionId q)) w = (Inr cur, w1)"
    and mode: "requestMode q = Inr mode"
    and rest: "(case (cs_user cur, cs_session cur) of
         (Some u, Some s) \<Rightarrow>
           bind_op (en_require (principal_bound q u s) EN_UNAUTHORIZED) (\<lambda>_.
           bind_op (en_now cf) (\<lambda>t.
           bind_op (en_require (after (s_expires s) t) EN_UNAUTHORIZED) (\<lambda>_.
           bind_op (en_require (enrollment_text (u_handle u)) EN_INVALID) (\<lambda>_.
           bind_op (en_require (mode = Self_enrollment \<longrightarrow> completed_account u s) EN_CONFLICT) (\<lambda>_.
             return_op \<lparr>lc_user = u, lc_session = s, lc_totpSecret = cs_totpSecret cur,
               lc_backupCodes = cs_backupCodes cur\<rparr>)))))
       | _ \<Rightarrow> en_fail EN_UNAUTHORIZED) w1 = (Inr c, w')"
    using assms by (auto simp: current_principal_def answers bind_op_eq_Inr)
  have "cf_loadCurrent cf (eq_userId q) (eq_sessionId q) (ew_store w) = (Inr cur, ew_store w)"
    using with_store_read [OF load load_reads] by simp
  then show ?thesis
    using rest mode
    by (auto simp: principal_now_def answers bind_op_eq_Inr return_op_def split: option.splits)
qed

lemma resolve_primary_Inr:
  assumes "resolve_primary cf q c w = (Inr a, w')"
  shows "\<exists>resolver reference t. cf_validatePrimary cf = Some resolver \<and> eq_primaryReauthRef q = Some reference
    \<and> resolver reference (eq_userId q) (eq_sessionId q) (lc_user c) (lc_session c) t (ew_store w) = (Inr (Some a), ew_store w)
    \<and> authorization_bound (cf_env cf) q a"
proof -
  obtain resolver reference where some: "cf_validatePrimary cf = Some resolver" "eq_primaryReauthRef q = Some reference"
    using assms by (auto simp: resolve_primary_def answers split: option.splits)
  let ?ask = "\<lambda>t. resolver reference (eq_userId q) (eq_sessionId q) (lc_user c) (lc_session c) t"
  obtain t w1 answer w2 where asked: "with_store (?ask t) w1 = (Inr answer, w2)" "ew_store w1 = ew_store w"
    and rest: "answer = Some a" "authorization_bound (cf_env cf) q a"
    using assms
    by (auto simp: resolve_primary_def some answers bind_op_eq_Inr catch_op_def return_op_def
        split: prod.splits sum.splits option.splits)
  show ?thesis
    using with_store_read [OF asked(1) resolver_reads [OF some(1)]] asked(2) rest some by auto
qed

lemma principal_now_unique: "principal_now cf q s c \<Longrightarrow> principal_now cf q s c' \<Longrightarrow> c = c'"
  by (auto simp: principal_now_def)

lemma still_store: "still cf m \<Longrightarrow> m w = (r, w') \<Longrightarrow> ew_store w' = ew_store w"
  using preservesD [of "enrollment_phase cf" m w r w'] by (simp add: enrollment_phase_def)

lemma current_unenrolled_Inr:
  assumes "current_unenrolled cf q w = (Inr st, w')"
  shows "unenrolled_now cf q (ew_store w) st"
proof -
  obtain mode c w1 where mode: "requestMode q = Inr mode" and first: "current_principal cf q w = (Inr c, w1)"
    and absent: "absent_factor c mode"
    and rest: "(if mode = Onboarding then return_op (c, None)
       else bind_op (resolve_primary cf q c) (\<lambda>a.
            bind_op (current_principal cf q) (\<lambda>fresh.
            bind_op (requireAbsentFactor fresh mode) (\<lambda>_.
            bind_op (en_require (unchanged_credential a (lc_user c) (lc_user fresh)
                \<and> u_handle (lc_user c) = u_handle (lc_user fresh)) EN_UNAUTHORIZED) (\<lambda>_.
            bind_op (authorization_live cf a) (\<lambda>live.
            bind_op (en_require live EN_UNAUTHORIZED) (\<lambda>_.
              return_op (fresh, Some a)))))))) w1 = (Inr st, w')"
    using assms by (auto simp: current_unenrolled_def requireAbsentFactor_def answers bind_op_eq_Inr)
  have store: "ew_store w1 = ew_store w" by (rule still_store [OF still_principal first])
  note c = current_principal_Inr [OF first]
  show ?thesis
  proof (cases mode)
    case Onboarding
    then show ?thesis
      using rest c absent mode by (auto simp: unenrolled_now_def return_op_def)
  next
    case Self_enrollment
    then obtain a w2 fresh w3 w4 where a: "resolve_primary cf q c w1 = (Inr a, w2)"
      and again: "current_principal cf q w2 = (Inr fresh, w3)"
      and same: "unchanged_credential a (lc_user c) (lc_user fresh)" "st = (fresh, Some a)"
      and live: "authorization_live cf a w3 = (Inr True, w4)"
      using rest by (auto simp: requireAbsentFactor_def answers bind_op_eq_Inr return_op_def)
    have "ew_store w2 = ew_store w" using still_store [OF still_resolve a] store by simp
    then have fresh: "fresh = c" using principal_now_unique [OF c] current_principal_Inr [OF again] by simp
    have "proved_now cf q (ew_store w) c a"
      using resolve_primary_Inr [OF a] authorization_live_True [OF live] same(1)
      unfolding proved_now_def fresh store by blast
    then show ?thesis
      using c absent mode Self_enrollment same(2) fresh by (auto simp: unenrolled_now_def)
  qed
qed

end

section \<open>Writing, applying, recovering\<close>

lemma enters_at:
  "enrollment_at env (map_set name content files) = (enrollment_at env files)(name := map_sum id Some (parse_enrollment env content))"
  by (rule ext) (simp add: enrollment_at_def)

lemma writeEnrollment_cases:
  assumes "dates_read (cf_env cf)" "writeEnrollment cf r w = (res, w')"
  shows "enrollment_phase cf w' = enrollment_phase cf w \<and> res \<noteq> Inr ()
    \<or> enrollment_record_ok (cf_env cf) r
      \<and> enrollment_phase cf w' = (enters (fst (enrollment_phase cf w)) (enrollment_filename (cf_env cf) (recordUserId r)) r,
          snd (enrollment_phase cf w))"
proof (cases "enrollment_record_ok (cf_env cf) r \<and> enrollment_text (recordUserId r)")
  case True
  then show ?thesis
    using assms(2) parse_enrollment_written [OF assms(1), of r]
    by (cases "jn_publish (cf_env cf) (ew_asked w)")
      (auto simp: writeEnrollment_def en_require_def publish_enrollment_def en_ask_def Let_def enrollment_phase_def
        enters_def enters_at)
next
  case False
  then show ?thesis
    using assms(2) by (auto simp: writeEnrollment_def en_require_def en_fail_def return_op_def bind_op_def throw_op_def split: if_splits)
qed

text \<open>From a phase, a write ends in the same phase or in that of the new record.\<close>

lemma triple_writeEnrollment:
  assumes "dates_read (cf_env cf)"
    and "\<And>w. enrollment_phase cf w = x \<Longrightarrow> E w"
    and "\<And>w. enrollment_record_ok (cf_env cf) r
      \<Longrightarrow> enrollment_phase cf w = (enters (fst x) (enrollment_filename (cf_env cf) (recordUserId r)) r, snd x) \<Longrightarrow> E w"
    and "\<And>a w. enrollment_record_ok (cf_env cf) r
      \<Longrightarrow> enrollment_phase cf w = (enters (fst x) (enrollment_filename (cf_env cf) (recordUserId r)) r, snd x) \<Longrightarrow> Q a w"
  shows "triple (\<lambda>w. enrollment_phase cf w = x) (writeEnrollment cf r) Q E"
  by (rule tripleI) (use assms writeEnrollment_cases [OF assms(1)] in \<open>fastforce+\<close>)

text \<open>No file that may hold a record holds a committed one.\<close>

definition unsettled :: "enrollment_view \<Rightarrow> bool" where
  "unsettled v \<longleftrightarrow> (case v of Inr (Some (Committed_enrollment uses c r)) \<Rightarrow> True | _ \<Rightarrow> False)"

definition all_settled :: "'s enrollment_phase \<Rightarrow> bool" where
  "all_settled x \<longleftrightarrow> (\<forall>n. is_json_name n \<longrightarrow> \<not> unsettled (fst x n))"

locale enrollment_storage = enrollment_reads cf for cf :: "'s enrollment_config" +
  assumes dates: "dates_read (cf_env cf)"
begin

text \<open>A projection of the committed record under its name, and what \<open>apply\<close> makes of it.\<close>

lemma triple_projection:
  assumes held: "fst x (enrollment_filename (cf_env cf) (er_userId r)) = Inr (Some (Committed_enrollment uses c r))"
  shows "triple (\<lambda>w. enrollment_phase cf w = x) (enrollment_projection cf uses c r)
    (\<lambda>_ w. \<exists>s'. cf_project cf c (snd x) = (Inr (), s')
       \<and> enrollment_phase cf w = (enters (fst x) (enrollment_filename (cf_env cf) (er_userId r))
           (Applied_enrollment uses (ec_sessionDigest c) r), s'))
    (\<lambda>w. enrollment_run cf x (enrollment_phase cf w))"
proof -
  let ?name = "enrollment_filename (cf_env cf) (er_userId r)"
  obtain J s where x: "x = (J, s)" by fastforce
  have project: "enrollment_run cf x (J, snd (cf_project cf c s))"
    using held unfolding x by (intro r_into_rtranclp Project) simp
  have settle: "enrollment_run cf x (enters J ?name (Applied_enrollment uses (ec_sessionDigest c) r), s')"
    if "cf_project cf c s = (Inr (), s')" for s'
    using held that unfolding x by (intro r_into_rtranclp Settle) auto
  have stored: "triple (\<lambda>w. enrollment_phase cf w = x) (with_store (cf_project cf c))
      (\<lambda>_ w. cf_project cf c s = (Inr (), snd (enrollment_phase cf w)) \<and> fst (enrollment_phase cf w) = J)
      (\<lambda>w. enrollment_run cf x (enrollment_phase cf w))"
    using project
    by (intro tripleI) (auto simp: with_store_def Let_def enrollment_phase_def x split: prod.splits sum.splits)
  have published: "triple (\<lambda>w. cf_project cf c s = (Inr (), snd (enrollment_phase cf w)) \<and> fst (enrollment_phase cf w) = J)
      (writeEnrollment cf (Applied_enrollment uses (ec_sessionDigest c) r))
      (\<lambda>_ w. \<exists>s'. cf_project cf c (snd x) = (Inr (), s')
         \<and> enrollment_phase cf w = (enters (fst x) ?name (Applied_enrollment uses (ec_sessionDigest c) r), s'))
      (\<lambda>w. enrollment_run cf x (enrollment_phase cf w))"
  proof -
    have "triple (\<lambda>w. enrollment_phase cf w = (J, s')) (writeEnrollment cf (Applied_enrollment uses (ec_sessionDigest c) r))
        (\<lambda>_ w. \<exists>s'. cf_project cf c (snd x) = (Inr (), s')
           \<and> enrollment_phase cf w = (enters (fst x) ?name (Applied_enrollment uses (ec_sessionDigest c) r), s'))
        (\<lambda>w. enrollment_run cf x (enrollment_phase cf w))" if "cf_project cf c s = (Inr (), s')" for s'
      by (rule triple_writeEnrollment [OF dates])
        (use project settle [OF that] that in \<open>auto simp: x recordUserId_def\<close>)
    then show ?thesis unfolding triple_def by (metis prod.collapse)
  qed
  show ?thesis
    unfolding enrollment_projection_def
    by (intro triple_preserved_then preserves_intros triple_bind [OF stored published]) simp_all
qed

lemma phase_gate [simp]: "enrollment_phase cf (set_projecting b w) = enrollment_phase cf w"
    "enrollment_phase cf (w\<lparr>ew_gate := g\<rparr>) = enrollment_phase cf w"
  by (simp_all add: set_projecting_def enrollment_phase_def)

lemma triple_apply:
  assumes held: "fst x (enrollment_filename (cf_env cf) (er_userId r)) = Inr (Some (Committed_enrollment uses c r))"
  shows "triple (\<lambda>w. enrollment_phase cf w = x) (enrollment_apply cf uses c r)
    (\<lambda>_ w. \<exists>s'. cf_project cf c (snd x) = (Inr (), s')
       \<and> enrollment_phase cf w = (enters (fst x) (enrollment_filename (cf_env cf) (er_userId r))
           (Applied_enrollment uses (ec_sessionDigest c) r), s'))
    (\<lambda>w. enrollment_run cf x (enrollment_phase cf w))"
proof -
  have tried: "triple (\<lambda>w. enrollment_phase cf w = x)
      (catch_op (enrollment_projection cf uses c r) (\<lambda>_. en_fail EN_RECOVERY_REQUIRED))
      (\<lambda>_ w. \<exists>s'. cf_project cf c (snd x) = (Inr (), s')
         \<and> enrollment_phase cf w = (enters (fst x) (enrollment_filename (cf_env cf) (er_userId r))
             (Applied_enrollment uses (ec_sessionDigest c) r), s'))
      (\<lambda>w. enrollment_run cf x (enrollment_phase cf w))"
    by (rule triple_catch [OF triple_projection [OF held]]) (simp add: en_fail_def triple_def throw_op_def)
  show ?thesis
  proof (rule tripleI)
    fix w e w' assume w: "enrollment_phase cf w = x" "enrollment_apply cf uses c r w = (Inl e, w')"
    then show "enrollment_run cf x (enrollment_phase cf w')"
      using triple_Inl [OF tried, of "set_projecting True w" e]
      by (auto simp: enrollment_apply_def en_fail_def throw_op_def Let_def split: if_splits option.splits prod.splits)
  next
    fix w a w' assume w: "enrollment_phase cf w = x" "enrollment_apply cf uses c r w = (Inr a, w')"
    then show "\<exists>s'. cf_project cf c (snd x) = (Inr (), s')
       \<and> enrollment_phase cf w' = (enters (fst x) (enrollment_filename (cf_env cf) (er_userId r))
           (Applied_enrollment uses (ec_sessionDigest c) r), s')"
      using triple_Inr [OF tried, of "set_projecting True w" a]
      by (auto simp: enrollment_apply_def en_fail_def throw_op_def Let_def split: if_splits option.splits prod.splits)
  qed
qed

lemma settle_run:
  assumes "fst x (enrollment_filename (cf_env cf) (er_userId r)) = Inr (Some (Committed_enrollment uses c r))"
    and "cf_project cf c (snd x) = (Inr (), s')"
  shows "enrollment_run cf x (enters (fst x) (enrollment_filename (cf_env cf) (er_userId r))
           (Applied_enrollment uses (ec_sessionDigest c) r), s')"
  using Settle [of "fst x", OF assms] by (simp add: r_into_rtranclp)

text \<open>Recovery leaves no committed record behind, and only touches the entries it reads.\<close>

lemma triple_recover_entry:
  "triple (\<lambda>w. enrollment_phase cf w = x) (recover_entry cf entry)
     (\<lambda>_ w. enrollment_run cf x (enrollment_phase cf w) \<and> \<not> unsettled (fst (enrollment_phase cf w) entry)
        \<and> (\<forall>n. n \<noteq> entry \<longrightarrow> fst (enrollment_phase cf w) n = fst x n))
     (\<lambda>w. enrollment_run cf x (enrollment_phase cf w))"
    (is "triple ?P _ ?Q ?E")
proof -
  let ?go = "\<lambda>r. bind_op (en_require (enrollment_text (recordUserId r)
      \<and> enrollment_filename (cf_env cf) (recordUserId r) = entry) EN_INVALID) (\<lambda>_.
        case r of Committed_enrollment uses c receipt \<Rightarrow> enrollment_apply cf uses c receipt | _ \<Rightarrow> return_op ())"
  have go: "triple ?P (?go r) ?Q ?E" if r: "fst x entry = Inr (Some r)" for r
  proof (rule triple_preserved_bind [where F = "\<lambda>_. enrollment_filename (cf_env cf) (recordUserId r) = entry"])
    assume name: "enrollment_filename (cf_env cf) (recordUserId r) = entry"
    show "triple ?P (case r of Committed_enrollment uses c receipt \<Rightarrow> enrollment_apply cf uses c receipt
        | _ \<Rightarrow> return_op ()) ?Q ?E"
    proof (cases r)
      case (Committed_enrollment uses c receipt)
      then have held: "fst x (enrollment_filename (cf_env cf) (er_userId receipt))
          = Inr (Some (Committed_enrollment uses c receipt))" and entry: "enrollment_filename (cf_env cf) (er_userId receipt) = entry"
        using name r by (simp_all add: recordUserId_def)
      show ?thesis
        unfolding Committed_enrollment enrollment_record.case
        by (rule triple_weaken [OF triple_apply [OF held]])
          (use settle_run [OF held] in \<open>auto simp: enters_def unsettled_def entry\<close>)
    qed (use r in \<open>auto intro!: triple_return simp: unsettled_def\<close>)
  qed (auto intro: preserves_intros simp: answers)
  have found: "triple ?P (\<lambda>w. case enrollment_at (cf_env cf) (ew_files w) entry of
         Inl e \<Rightarrow> (Inl e, w)
       | Inr None \<Rightarrow> (Inl (Outside (Error ''ENOENT'')), w)
       | Inr (Some r) \<Rightarrow> ?go r w) ?Q ?E"
  proof (cases "fst x entry")
    case (Inr v)
    then show ?thesis
    proof (cases v)
      case (Some r)
      then show ?thesis using go [of r] Inr by (auto simp: triple_def enrollment_phase_def)
    qed (auto simp: triple_def enrollment_phase_def)
  qed (auto simp: triple_def enrollment_phase_def)
  show ?thesis
    unfolding recover_entry_def
    by (intro triple_preserved_then preserves_intros found) simp_all
qed

lemma triple_recover_entries:
  "triple (\<lambda>w. enrollment_phase cf w = x) (recover_entries cf names)
     (\<lambda>_ w. enrollment_run cf x (enrollment_phase cf w)
        \<and> (\<forall>n. n \<in> set names \<longrightarrow> is_json_name n \<longrightarrow> \<not> unsettled (fst (enrollment_phase cf w) n))
        \<and> (\<forall>n. n \<notin> set names \<longrightarrow> fst (enrollment_phase cf w) n = fst x n))
     (\<lambda>w. enrollment_run cf x (enrollment_phase cf w))"
proof (induction names arbitrary: x)
  case Nil
  show ?case by (simp only: recover_entries.simps, rule triple_return) auto
next
  case (Cons entry names)
  show ?case
  proof (cases "is_json_name entry")
    case False
    then show ?thesis
      by (simp, intro triple_weaken [OF Cons.IH [of x]]) (auto simp: False)
  next
    case True
    have after: "triple (\<lambda>w. enrollment_run cf x (enrollment_phase cf w) \<and> \<not> unsettled (fst (enrollment_phase cf w) entry)
          \<and> (\<forall>n. n \<noteq> entry \<longrightarrow> fst (enrollment_phase cf w) n = fst x n))
        (recover_entries cf names)
        (\<lambda>_ w. enrollment_run cf x (enrollment_phase cf w)
          \<and> (\<forall>n. n \<in> set (entry # names) \<longrightarrow> is_json_name n \<longrightarrow> \<not> unsettled (fst (enrollment_phase cf w) n))
          \<and> (\<forall>n. n \<notin> set (entry # names) \<longrightarrow> fst (enrollment_phase cf w) n = fst x n))
        (\<lambda>w. enrollment_run cf x (enrollment_phase cf w))"
    proof (rule tripleI, goal_cases)
      case (1 w e w')
      then show ?case using triple_Inl [OF Cons.IH refl 1(2)] by (auto intro: rtranclp_trans)
    next
      case (2 w a w')
      have ended: "enrollment_run cf (enrollment_phase cf w) (enrollment_phase cf w')"
          "\<forall>n. n \<in> set names \<longrightarrow> is_json_name n \<longrightarrow> \<not> unsettled (fst (enrollment_phase cf w') n)"
          "\<forall>n. n \<notin> set names \<longrightarrow> fst (enrollment_phase cf w') n = fst (enrollment_phase cf w) n"
        using triple_Inr [OF Cons.IH refl 2(2)] by blast+
      show ?case
      proof (intro conjI allI impI)
        show "enrollment_run cf x (enrollment_phase cf w')" using 2(1) ended(1) by (auto intro: rtranclp_trans)
        show "\<not> unsettled (fst (enrollment_phase cf w') n)" if "n \<in> set (entry # names)" "is_json_name n" for n
          using that 2(1) ended(2,3) by (cases "n \<in> set names") auto
        show "fst (enrollment_phase cf w') n = fst x n" if "n \<notin> set (entry # names)" for n
          using that 2(1) ended(3) by auto
      qed
    qed
    have "recover_entries cf (entry # names) = bind_op (recover_entry cf entry) (\<lambda>_. recover_entries cf names)"
      using True by simp
    then show ?thesis by (simp only: triple_bind [OF triple_recover_entry after])
  qed
qed

lemma triple_recoverUnsafe:
  "triple (\<lambda>w. enrollment_phase cf w = x) (enrollment_recoverUnsafe cf)
     (\<lambda>_ w. enrollment_run cf x (enrollment_phase cf w) \<and> all_settled (enrollment_phase cf w))
     (\<lambda>w. enrollment_run cf x (enrollment_phase cf w))"
proof -
  have loop: "triple (\<lambda>w. enrollment_phase cf w = x) (\<lambda>w. recover_entries cf (sort (map fst (ew_files w))) w)
     (\<lambda>_ w. enrollment_run cf x (enrollment_phase cf w) \<and> all_settled (enrollment_phase cf w))
     (\<lambda>w. enrollment_run cf x (enrollment_phase cf w))"
  proof (rule tripleI, goal_cases)
    case (1 w e w')
    then show ?case using triple_Inl [OF triple_recover_entries] by blast
  next
    case (2 w a w')
    have names: "fst x n = Inr None" if "n \<notin> set (map fst (ew_files w))" for n
    proof -
      have "map_of (ew_files w) n = None" using that by (simp add: map_of_eq_None_iff)
      then show ?thesis using 2(1) by (auto simp: enrollment_phase_def enrollment_at_def)
    qed
    have "\<not> unsettled (fst (enrollment_phase cf w') n)" if "is_json_name n" for n
      using triple_Inr [OF triple_recover_entries 2(1,2)] that names [of n]
      by (cases "n \<in> set (map fst (ew_files w))") (auto simp: unsettled_def)
    then show ?case
      using triple_Inr [OF triple_recover_entries 2(1,2)] by (simp add: all_settled_def)
  qed
  have rest: "triple (\<lambda>w. enrollment_run cf x (enrollment_phase cf w) \<and> all_settled (enrollment_phase cf w))
      (bind_op (en_io (jn_sync (cf_env cf))) (\<lambda>_. set_recoveryRequired False))
      (\<lambda>_ w. enrollment_run cf x (enrollment_phase cf w) \<and> all_settled (enrollment_phase cf w))
      (\<lambda>w. enrollment_run cf x (enrollment_phase cf w))"
  proof -
    have "still cf (bind_op (en_io (jn_sync (cf_env cf))) (\<lambda>_. set_recoveryRequired False))"
      by (intro preserves_intros)
    from preservesD [OF this] show ?thesis by (auto simp: triple_def)
  qed
  show ?thesis
    unfolding enrollment_recoverUnsafe_def
    by (intro triple_preserved_then preserves_intros triple_bind [OF loop rest]) simp_all
qed

text \<open>A call from outside: it recovers first, and leaves the gate as it found it.\<close>

lemma triple_withReadyAuth:
  assumes "\<And>y. enrollment_run cf x y \<Longrightarrow> all_settled y
      \<Longrightarrow> triple (\<lambda>w. enrollment_phase cf w = y) operation (\<lambda>a w. Q y a (enrollment_phase cf w))
            (\<lambda>w. enrollment_run cf y (enrollment_phase cf w))"
  shows "triple (\<lambda>w. enrollment_phase cf w = x \<and> ew_gate w = None) (withReadyAuth cf operation)
    (\<lambda>a w. ew_gate w = None \<and> (\<exists>y. enrollment_run cf x y \<and> all_settled y \<and> Q y a (enrollment_phase cf w)))
    (\<lambda>w. ew_gate w = None \<and> enrollment_run cf x (enrollment_phase cf w))"
proof -
  let ?open = "\<lambda>w. w\<lparr>ew_gate := Some \<lparr>gs_projecting = False, gs_recoveryRequired = True\<rparr>\<rparr>"
  have opened: "runContext cf operation (?open w) = bind_op (enrollment_recoverUnsafe cf) (\<lambda>_. operation) (?open w)" for w
    by (simp add: runContext_def bind_op_def)
  have run: "triple (\<lambda>w. enrollment_phase cf w = x) (bind_op (enrollment_recoverUnsafe cf) (\<lambda>_. operation))
      (\<lambda>a w. \<exists>y. enrollment_run cf x y \<and> all_settled y \<and> Q y a (enrollment_phase cf w))
      (\<lambda>w. enrollment_run cf x (enrollment_phase cf w))"
  proof (rule triple_bind [OF triple_recoverUnsafe])
    show "triple (\<lambda>w. enrollment_run cf x (enrollment_phase cf w) \<and> all_settled (enrollment_phase cf w)) operation
        (\<lambda>a w. \<exists>y. enrollment_run cf x y \<and> all_settled y \<and> Q y a (enrollment_phase cf w))
        (\<lambda>w. enrollment_run cf x (enrollment_phase cf w))"
    proof (rule tripleI, goal_cases)
      case (1 w e w')
      then show ?case
        using triple_Inl [OF assms refl 1(2)] by (blast intro: rtranclp_trans)
    next
      case (2 w a w')
      then show ?case using triple_Inr [OF assms refl 2(2)] by blast
    qed
  qed
  show ?thesis
  proof (rule tripleI, goal_cases)
    case (1 w e w')
    then obtain w2 where "runContext cf operation (?open w) = (Inl e, w2)" "w' = w2\<lparr>ew_gate := None\<rparr>"
      by (auto simp: withReadyAuth_def Let_def split: prod.splits)
    then show ?case using triple_Inl [OF run, of "?open w"] 1(1) unfolding opened by auto
  next
    case (2 w a w')
    then obtain w2 where "runContext cf operation (?open w) = (Inr a, w2)" "w' = w2\<lparr>ew_gate := None\<rparr>"
      by (auto simp: withReadyAuth_def Let_def split: prod.splits)
    then show ?case using triple_Inr [OF run, of "?open w"] 2(1) unfolding opened by auto
  qed
qed

section \<open>begin\<close>

lemma new_enrollment_Inr:
  "new_enrollment cf q state now live w = (Inr p, w') \<Longrightarrow>
     ep_userId p = eq_userId q \<and> ep_createdAt p = Iso now
     \<and> ep_primary p = new_binding (cf_env cf) q (snd state) (ep_attemptId p) live"
  by (auto simp: new_enrollment_def Let_def answers bind_op_eq_Inr return_op_def)

lemma check_uses_Inr:
  "check_uses cf q live w = (Inr x, w') \<Longrightarrow>
     (if eq_mode q = Some ''self-enrollment''
      then primaryReferenceDigest (cf_env cf) (nullish (eq_primaryReauthRef q) []) \<notin> set (map pu_digest live)
      else live = [])"
  by (auto simp: check_uses_def answers split: if_splits)

lemma keeps_new:
  assumes "unenrolled_now cf q s st"
    and "if eq_mode q = Some ''self-enrollment''
      then primaryReferenceDigest (cf_env cf) (nullish (eq_primaryReauthRef q) []) \<notin> set (map pu_digest live)
      else live = []"
    and "ep_primary p = new_binding (cf_env cf) q (snd st) i live"
  shows "keeps_uses live p"
proof (cases "eq_mode q = Some ''self-enrollment''")
  case True
  then have "requestMode q \<noteq> Inr Onboarding" by (auto simp: requestMode_def split: option.splits if_splits)
  moreover obtain mode where "requestMode q = Inr mode" using assms(1) by (auto simp: unenrolled_now_def Let_def split: prod.splits)
  ultimately have "requestMode q = Inr Self_enrollment" by (cases mode) auto
  then obtain a reference where "snd st = Some a" "eq_primaryReauthRef q = Some reference"
    using assms(1) by (auto simp: unenrolled_now_def proved_now_def Let_def split: prod.splits)
  then show ?thesis using assms(2,3) True by (auto simp: keeps_uses_def new_binding_def)
next
  case False
  then have "requestMode q = Inr Onboarding \<Longrightarrow> eq_primaryReauthRef q = None"
    by (auto simp: requestMode_def split: option.splits if_splits)
  moreover obtain mode where mode: "requestMode q = Inr mode"
    using assms(1) by (auto simp: unenrolled_now_def Let_def split: prod.splits)
  moreover have "mode = Onboarding"
    using False mode by (auto simp: requestMode_def split: if_splits)
  ultimately show ?thesis using assms(2,3) False by (simp add: keeps_uses_def new_binding_def)
qed

lemma triple_start:
  assumes "fst x (enrollment_filename (cf_env cf) (eq_userId q)) = Inr old" "may_start old (jn_clock (cf_env cf) n)"
    and "unenrolled_now cf q (snd x) st"
    and "if eq_mode q = Some ''self-enrollment''
      then primaryReferenceDigest (cf_env cf) (nullish (eq_primaryReauthRef q) [])
        \<notin> set (map pu_digest (live_uses (jn_clock (cf_env cf) n) old))
      else live_uses (jn_clock (cf_env cf) n) old = []"
  shows "triple (\<lambda>w. enrollment_phase cf w = x)
    (start_attempt cf q st (jn_clock (cf_env cf) n) (live_uses (jn_clock (cf_env cf) n) old))
    (\<lambda>_ w. enrollment_run cf x (enrollment_phase cf w)) (\<lambda>w. enrollment_run cf x (enrollment_phase cf w))"
proof -
  let ?now = "jn_clock (cf_env cf) n"
  obtain J s where x: "x = (J, s)" by fastforce
  have made: "triple (\<lambda>w. enrollment_phase cf w = x)
      (bind_op (writeEnrollment cf (Pending_enrollment p)) (\<lambda>_. bind_op (disclose cf q p) (\<lambda>_. return_op shown)))
      (\<lambda>_ w. enrollment_run cf x (enrollment_phase cf w)) (\<lambda>w. enrollment_run cf x (enrollment_phase cf w))"
    if p: "ep_userId p = eq_userId q \<and> ep_createdAt p = Iso ?now
      \<and> ep_primary p = new_binding (cf_env cf) q (snd st) (ep_attemptId p) (live_uses ?now old)" for p and shown :: enrollment_setup
  proof -
    let ?y = "(enters J (enrollment_filename (cf_env cf) (eq_userId q)) (Pending_enrollment p), s)"
    have started: "enrollment_run cf x ?y" if "enrollment_pending_ok (cf_env cf) p"
    proof -
      have "starts cf old p"
        unfolding starts_def Let_def
        using that p assms(2) keeps_new [OF assms(3,4)] by blast
      then show ?thesis
        using Start [of _ cf p J old s] assms(1) p by (simp add: x r_into_rtranclp)
    qed
    have after: "triple (\<lambda>w. enrollment_pending_ok (cf_env cf) p \<and> enrollment_phase cf w = ?y)
        (bind_op (disclose cf q p) (\<lambda>_. return_op shown))
        (\<lambda>_ w. enrollment_run cf x (enrollment_phase cf w)) (\<lambda>w. enrollment_run cf x (enrollment_phase cf w))"
    proof -
      have "still cf (bind_op (disclose cf q p) (\<lambda>_. return_op shown))" by (intro preserves_intros)
      from preservesD [OF this] show ?thesis using started by (auto simp: triple_def)
    qed
    show ?thesis
      by (rule triple_bind [OF triple_writeEnrollment [OF dates] after])
        (use p started in \<open>auto simp: x recordUserId_def\<close>)
  qed
  show ?thesis
    unfolding start_attempt_def
    by (rule triple_preserved_bind [where F = "\<lambda>p. ep_userId p = eq_userId q \<and> ep_createdAt p = Iso ?now
        \<and> ep_primary p = new_binding (cf_env cf) q (snd st) (ep_attemptId p) (live_uses ?now old)"])
      (auto intro!: preserves_intros triple_preserved_then made dest: new_enrollment_Inr)
qed

lemma triple_begin:
  assumes "all_settled x"
  shows "triple (\<lambda>w. enrollment_phase cf w = x) (begin_unsafe cf q)
    (\<lambda>_ w. enrollment_run cf x (enrollment_phase cf w)) (\<lambda>w. enrollment_run cf x (enrollment_phase cf w))"
proof -
  let ?P = "\<lambda>w. enrollment_phase cf w = x" and ?E = "\<lambda>w. enrollment_run cf x (enrollment_phase cf w)"
  let ?name = "enrollment_filename (cf_env cf) (eq_userId q)"
  have json: "is_json_name ?name" by (simp add: enrollment_filename_def is_json_name_def)
  have start: "triple ?P (bind_op (check_uses cf q (live_uses (jn_clock (cf_env cf) n) old)) (\<lambda>_.
      start_attempt cf q st (jn_clock (cf_env cf) n) (live_uses (jn_clock (cf_env cf) n) old))) (\<lambda>_. ?E) ?E"
    if "fst x ?name = Inr old" "may_start old (jn_clock (cf_env cf) n)" "unenrolled_now cf q (snd x) st" for old n st
    by (rule triple_preserved_bind [where F = "\<lambda>_. if eq_mode q = Some ''self-enrollment''
        then primaryReferenceDigest (cf_env cf) (nullish (eq_primaryReauthRef q) [])
          \<notin> set (map pu_digest (live_uses (jn_clock (cf_env cf) n) old))
        else live_uses (jn_clock (cf_env cf) n) old = []"])
      (auto intro!: preserves_intros triple_start that dest: check_uses_Inr)
  have resume: "triple ?P (resume_attempt cf q st p) (\<lambda>_. ?E) ?E" for st p
    using preservesD [OF still_current(4)] by (auto simp: triple_def)
  have chosen: "triple ?P (case old of
         Some (Pending_enrollment p) \<Rightarrow>
           if after (ep_expiresAt p) now then resume_attempt cf q st p
           else bind_op (check_uses cf q (live_uses now old)) (\<lambda>_. start_attempt cf q st now (live_uses now old))
       | _ \<Rightarrow> bind_op (check_uses cf q (live_uses now old)) (\<lambda>_. start_attempt cf q st now (live_uses now old)))
      (\<lambda>_. ?E) ?E"
    if old: "fst x ?name = Inr old" "unenrolled_now cf q (snd x) st" "now = jn_clock (cf_env cf) n" for old st now n
  proof (cases old)
    case (Some r)
    then show ?thesis
      using start [OF old(1) _ old(2), of n] resume old(1,3) assms json
      by (cases r) (auto simp: may_start_def all_settled_def unsettled_def)
  qed (use start [OF old(1) _ old(2), of n] old(3) in \<open>simp add: may_start_def\<close>)
  show ?thesis
    unfolding begin_unsafe_def
  proof (rule triple_preserved_bind [where F = "unenrolled_now cf q (snd x)"])
    fix st assume st: "unenrolled_now cf q (snd x) st"
    show "triple ?P (bind_op (readEnrollment cf (eq_userId q)) (\<lambda>existing. bind_op (en_now cf) (\<lambda>now.
       case existing of
         Some (Pending_enrollment p) \<Rightarrow>
           if after (ep_expiresAt p) now then resume_attempt cf q st p
           else bind_op (check_uses cf q (live_uses now existing)) (\<lambda>_.
                  start_attempt cf q st now (live_uses now existing))
       | _ \<Rightarrow>
           bind_op (check_uses cf q (live_uses now existing)) (\<lambda>_.
             start_attempt cf q st now (live_uses now existing))))) (\<lambda>_. ?E) ?E"
    proof (rule triple_preserved_bind [where F = "\<lambda>old. fst x ?name = Inr old"])
      fix old assume old: "fst x ?name = Inr old"
      show "triple ?P (bind_op (en_now cf) (\<lambda>now. case old of
         Some (Pending_enrollment p) \<Rightarrow>
           if after (ep_expiresAt p) now then resume_attempt cf q st p
           else bind_op (check_uses cf q (live_uses now old)) (\<lambda>_. start_attempt cf q st now (live_uses now old))
       | _ \<Rightarrow> bind_op (check_uses cf q (live_uses now old)) (\<lambda>_. start_attempt cf q st now (live_uses now old)))) (\<lambda>_. ?E) ?E"
        by (rule triple_preserved_bind [where F = "\<lambda>now. \<exists>n. now = jn_clock (cf_env cf) n"])
          (use chosen [OF old st] in \<open>auto intro: preserves_intros simp: answers\<close>)
    qed (auto intro: preserves_intros dest!: readEnrollment_view)
  qed (auto intro: preserves_intros dest: current_unenrolled_Inr)
qed

end

end
