(* ===== verification/Enrollment_Completion.thy ===== *)
theory Enrollment_Completion
  imports Enrollment_Protocol
begin

text \<open>
  \<open>complete\<close>: what has to hold before a receipt is returned, and the moves it makes.
\<close>

section \<open>An authorised completion\<close>

text \<open>A pending attempt whose checks passed on the store \<open>s\<close>.\<close>

definition attempt_checked ::
  "'s enrollment_config \<Rightarrow> enrollment_request \<Rightarrow> 's \<Rightarrow> live_current \<times> primary_authorization option \<Rightarrow> enrollment_pending \<Rightarrow> bool" where
  "attempt_checked cf q s st p \<longleftrightarrow>
     unenrolled_now cf q s st
     \<and> requestMode q = Inr (recordMode p) \<and> ep_userId p = eq_userId q \<and> ep_handle p = u_handle (lc_user (fst st))
     \<and> sessionDigest (cf_env cf) q = Inr (ep_sessionDigest p)
     \<and> optional_ok (\<lambda>b. primary_matches (cf_env cf) b q (snd st)) (ep_primary p)
     \<and> (\<exists>n. \<not> after (ep_createdAt p) (jn_clock (cf_env cf) n) \<and> \<not> at_or_before (ep_expiresAt p) (jn_clock (cf_env cf) n))"

text \<open>The completion of a checked attempt, and the receipt of an applied one for the same session.\<close>

definition newly_enrolled ::
  "'s enrollment_config \<Rightarrow> 's enrollment_phase \<Rightarrow> enrollment_request \<Rightarrow> string \<Rightarrow> string \<Rightarrow> enrollment_receipt \<Rightarrow> 's enrollment_phase \<Rightarrow> bool" where
  "newly_enrolled cf x q attemptId token r y \<longleftrightarrow>
     (let name = enrollment_filename (cf_env cf) (eq_userId q) in
      \<exists>p st c s'. fst x name = Inr (Some (Pending_enrollment p)) \<and> ep_attemptId p = attemptId
        \<and> attempt_checked cf q (snd x) st p \<and> completes_enrollment cf p token c
        \<and> validateCompletion (cf_env cf) c \<and> r = enrollment_receipt_of (cf_env cf) c
        \<and> cf_project cf c (snd x) = (Inr (), s')
        \<and> y = (enters (fst x) name (Applied_enrollment (map_option pb_uses (ep_primary p)) (ec_sessionDigest c) r), s'))"

definition replayed ::
  "'s enrollment_config \<Rightarrow> 's enrollment_phase \<Rightarrow> enrollment_request \<Rightarrow> string \<Rightarrow> enrollment_receipt \<Rightarrow> 's enrollment_phase \<Rightarrow> bool" where
  "replayed cf x q attemptId r y \<longleftrightarrow>
     y = x
     \<and> (\<exists>uses d c. fst x (enrollment_filename (cf_env cf) (eq_userId q)) = Inr (Some (Applied_enrollment uses d r))
          \<and> er_attemptId r = attemptId \<and> sessionDigest (cf_env cf) q = Inr d \<and> requestMode q = Inr (uses_mode uses)
          \<and> principal_now cf q (snd x) c \<and> u_handle (lc_user c) = er_handle r)"

context enrollment_storage
begin

lemma check_pending_Inr:
  "check_pending cf p q st w = (Inr u, w') \<Longrightarrow>
     requestMode q = Inr (recordMode p) \<and> ep_userId p = eq_userId q \<and> ep_handle p = u_handle (lc_user (fst st))
     \<and> sessionDigest (cf_env cf) q = Inr (ep_sessionDigest p)
     \<and> optional_ok (\<lambda>b. primary_matches (cf_env cf) b q (snd st)) (ep_primary p)"
  by (auto simp: check_pending_def checkBinding_Inr checkPrimary_Inr bind_op_eq_Inr)

lemma verified_completion_Inr:
  assumes "verified_completion cf q p token w = (Inr c, w')" "is_totp_token (remove_spaces token)"
  shows "completes_enrollment cf p token c \<and> (\<exists>st. attempt_checked cf q (ew_store w) st p)"
proof -
  obtain secret step w1 w2 st w3 u w4 cipher w5 now where
      secret: "totp_decrypt (jn_gcm (cf_env cf)) (jn_key (cf_env cf)) (ep_secret p) = Inr secret"
    and step: "enrollment_step cf p secret token w = (Inr step, w1)"
    and live: "checkExpiry cf p w1 = (Inr (), w2)" and st: "current_unenrolled cf q w2 = (Inr st, w3)"
    and checked: "check_pending cf p q st w3 = (Inr u, w4)" and cipher: "sealed_again cf secret w4 = (Inr cipher, w5)"
    and c: "c = enrollment_completion_of p cipher (Iso now) step (u_onboardingStep (lc_user (fst st)))"
    using assms(1) by (auto simp: verified_completion_def answers bind_op_eq_Inr return_op_def)
  have store: "ew_store w2 = ew_store w"
    using still_store [OF still_setup(3) step] still_store [OF still_checks(3) live] by simp
  have "completes_enrollment cf p token c"
    unfolding completes_enrollment_def enrollment_verified_def
    using secret enrollment_step_Inr [OF step] sealed_again_Inr [OF cipher] assms(2) c by blast
  moreover have "attempt_checked cf q (ew_store w) st p"
    using current_unenrolled_Inr [OF st] check_pending_Inr [OF checked] checkExpiry_Inr [OF live]
    by (simp add: attempt_checked_def store)
  ultimately show ?thesis by blast
qed

lemma completion_fields:
  "completes_enrollment cf p token c \<Longrightarrow> ec_userId c = ep_userId p \<and> ec_sessionDigest c = ep_sessionDigest p"
  by (auto simp: completes_enrollment_def enrollment_completion_of_def)

text \<open>Committing the completion, applying it, and the last look at the owner of the receipt.\<close>

lemma triple_commit:
  assumes held: "fst x (enrollment_filename (cf_env cf) (eq_userId q)) = Inr (Some (Pending_enrollment p))"
    and p: "ep_attemptId p = attemptId" "attempt_checked cf q (snd x) st p" and c: "completes_enrollment cf p token c"
  shows "triple (\<lambda>w. enrollment_phase cf w = x) (commit_enrollment cf q p c)
    (\<lambda>r w. newly_enrolled cf x q attemptId token r (enrollment_phase cf w) \<and> enrollment_run cf x (enrollment_phase cf w))
    (\<lambda>w. enrollment_run cf x (enrollment_phase cf w))"
proof -
  let ?name = "enrollment_filename (cf_env cf) (eq_userId q)" and ?uses = "map_option pb_uses (ep_primary p)"
  let ?r = "enrollment_receipt_of (cf_env cf) c"
  let ?Q = "\<lambda>r w. newly_enrolled cf x q attemptId token r (enrollment_phase cf w) \<and> enrollment_run cf x (enrollment_phase cf w)"
  let ?E = "\<lambda>w. enrollment_run cf x (enrollment_phase cf w)"
  obtain J s where x: "x = (J, s)" by fastforce
  have user: "ep_userId p = eq_userId q" "er_userId ?r = eq_userId q"
    using p(2) completion_fields [OF c] by (simp_all add: attempt_checked_def enrollment_receipt_of_def)
  let ?y = "(enters J ?name (Committed_enrollment ?uses c ?r), s)"
  have committed: "enrollment_run cf x ?y"
    using Commit [of ?name cf p J token c s] held c user by (simp add: x r_into_rtranclp)
  have at_y: "fst ?y (enrollment_filename (cf_env cf) (er_userId ?r)) = Inr (Some (Committed_enrollment ?uses c ?r))"
    by (simp add: enters_def user)
  let ?last = "bind_op (set_recoveryRequired False) (\<lambda>_.
      bind_op (if recordMode p = Onboarding then return_op () else requireReceiptOwner cf q ?r) (\<lambda>_. return_op ?r))"
  have settled: "triple (\<lambda>w. \<exists>s'. cf_project cf c s = (Inr (), s')
        \<and> enrollment_phase cf w = (enters J ?name (Applied_enrollment ?uses (ec_sessionDigest c) ?r), s')) ?last ?Q ?E"
    if ok: "validateCompletion (cf_env cf) c"
  proof -
    have run: "enrollment_run cf x (enters J ?name (Applied_enrollment ?uses (ec_sessionDigest c) ?r), s')"
        and new: "newly_enrolled cf x q attemptId token ?r (enters J ?name (Applied_enrollment ?uses (ec_sessionDigest c) ?r), s')"
      if s': "cf_project cf c s = (Inr (), s')" for s'
    proof -
      show "enrollment_run cf x (enters J ?name (Applied_enrollment ?uses (ec_sessionDigest c) ?r), s')"
        using committed settle_run [OF at_y, of s'] s' by (auto simp: enters_def user intro: rtranclp_trans)
      show "newly_enrolled cf x q attemptId token ?r (enters J ?name (Applied_enrollment ?uses (ec_sessionDigest c) ?r), s')"
        unfolding newly_enrolled_def Let_def
        using held p c ok s' x by (intro exI [of _ p] exI [of _ st] exI [of _ c] exI [of _ s']) simp
    qed
    have final: "still cf ?last" by (intro preserves_intros)
    have result: "?last w = (Inr a, w') \<Longrightarrow> a = ?r" for w a w'
      by (auto simp: bind_op_eq_Inr return_op_def)
    show ?thesis
    proof (rule tripleI, goal_cases)
      case (1 w e w')
      then show ?case using preservesD [OF final 1(2)] run by auto
    next
      case (2 w a w')
      then show ?case using preservesD [OF final 2(2)] result [OF 2(2)] run new by auto
    qed
  qed
  have applied: "triple (\<lambda>w. validateCompletion (cf_env cf) c \<and> enrollment_phase cf w = ?y)
      (bind_op (enrollment_apply cf ?uses c ?r) (\<lambda>_. ?last)) ?Q ?E"
  proof (cases "validateCompletion (cf_env cf) c")
    case True
    have "triple (\<lambda>w. enrollment_phase cf w = ?y) (bind_op (enrollment_apply cf ?uses c ?r) (\<lambda>_. ?last)) ?Q ?E"
      by (rule triple_bind [OF triple_weaken [OF triple_apply [OF at_y] _ _ _] settled [OF True]])
        (use committed in \<open>auto simp: enters_def user intro: rtranclp_trans\<close>)
    then show ?thesis using True by simp
  qed (simp add: triple_def)
  show ?thesis
    unfolding commit_enrollment_def Let_def
  proof (rule triple_preserved_then)
    show "triple (\<lambda>w. enrollment_phase cf w = x) (bind_op (writeEnrollment cf (Committed_enrollment ?uses c ?r))
        (\<lambda>_. bind_op (enrollment_apply cf ?uses c ?r) (\<lambda>_. ?last))) ?Q ?E"
      by (rule triple_bind [OF triple_writeEnrollment [OF dates] applied])
        (use committed in \<open>auto simp: x recordUserId_def user\<close>)
  qed (auto intro: preserves_intros)
qed

lemma triple_pending:
  assumes held: "fst x (enrollment_filename (cf_env cf) (eq_userId q)) = Inr (Some (Pending_enrollment p))"
  shows "triple (\<lambda>w. enrollment_phase cf w = x) (complete_pending cf q attemptId token c p)
    (\<lambda>r w. newly_enrolled cf x q attemptId token r (enrollment_phase cf w) \<and> enrollment_run cf x (enrollment_phase cf w))
    (\<lambda>w. enrollment_run cf x (enrollment_phase cf w))"
    (is "triple ?P _ ?Q ?E")
proof -
  have finish: "triple ?P (bind_op (verified_completion cf q p token) (\<lambda>c. commit_enrollment cf q p c)) ?Q ?E"
    if "ep_attemptId p = attemptId" "is_totp_token (remove_spaces token)"
  proof (rule triple_preserved_bind [where F = "\<lambda>c. completes_enrollment cf p token c \<and> (\<exists>st. attempt_checked cf q (snd x) st p)"])
    show "triple ?P (commit_enrollment cf q p c) ?Q ?E"
      if "completes_enrollment cf p token c \<and> (\<exists>st. attempt_checked cf q (snd x) st p)" for c
      using that triple_commit [OF held \<open>ep_attemptId p = attemptId\<close>] by blast
    show "completes_enrollment cf p token c \<and> (\<exists>st. attempt_checked cf q (snd x) st p)"
      if "enrollment_phase cf w = x" "verified_completion cf q p token w = (Inr c, w')" for w c w'
      using verified_completion_Inr [OF that(2) \<open>is_totp_token (remove_spaces token)\<close>] that(1) snd_phase [of cf w] by metis
  qed (auto intro: preserves_intros)
  have token: "triple ?P (bind_op (en_require (is_totp_token (remove_spaces token)) EN_INVALID) (\<lambda>_.
      bind_op (deny_gate cf) (\<lambda>_. bind_op (verified_completion cf q p token) (\<lambda>c. commit_enrollment cf q p c)))) ?Q ?E"
    if "ep_attemptId p = attemptId"
  proof (rule triple_preserved_bind [where F = "\<lambda>_. is_totp_token (remove_spaces token)"])
    assume "is_totp_token (remove_spaces token)"
    from finish [OF that this] show "triple ?P (bind_op (deny_gate cf) (\<lambda>_.
        bind_op (verified_completion cf q p token) (\<lambda>c. commit_enrollment cf q p c))) ?Q ?E"
      by (rule triple_preserved_then [OF still_deny]) simp
  qed (auto intro: preserves_intros simp: answers)
  have attempt: "triple ?P (bind_op (en_require (ep_attemptId p = attemptId) EN_CONFLICT) (\<lambda>_.
      bind_op (checkExpiry cf p) (\<lambda>_.
      bind_op (current_unenrolled cf q) (\<lambda>authorized.
      bind_op (checkPrimaryAuthorization cf p q (snd authorized)) (\<lambda>_.
      bind_op (plainRecoveryCodes cf p) (\<lambda>_.
      bind_op (en_require (is_totp_token (remove_spaces token)) EN_INVALID) (\<lambda>_.
      bind_op (deny_gate cf) (\<lambda>_.
      bind_op (verified_completion cf q p token) (\<lambda>c. commit_enrollment cf q p c)))))))) ) ?Q ?E"
  proof (rule triple_preserved_bind [where F = "\<lambda>_. ep_attemptId p = attemptId"])
    assume "ep_attemptId p = attemptId"
    from token [OF this] show "triple ?P (bind_op (checkExpiry cf p) (\<lambda>_.
      bind_op (current_unenrolled cf q) (\<lambda>authorized.
      bind_op (checkPrimaryAuthorization cf p q (snd authorized)) (\<lambda>_.
      bind_op (plainRecoveryCodes cf p) (\<lambda>_.
      bind_op (en_require (is_totp_token (remove_spaces token)) EN_INVALID) (\<lambda>_.
      bind_op (deny_gate cf) (\<lambda>_.
      bind_op (verified_completion cf q p token) (\<lambda>c. commit_enrollment cf q p c))))))) ) ?Q ?E"
      by (intro triple_preserved_then [OF still_checks(3)] triple_preserved_then [OF still_current(1)]
          triple_preserved_then [OF still_checks(5)] triple_preserved_then [OF still_setup(1)]) simp_all
  qed (auto intro: preserves_intros simp: answers)
  show ?thesis
    unfolding complete_pending_def
    by (rule triple_preserved_then [OF _ attempt]) (auto intro: preserves_intros)
qed

lemma replay_receipt_Inr:
  "replay_receipt cf q attemptId c uses d r w = (Inr r', w') \<Longrightarrow>
     r' = r \<and> er_attemptId r = attemptId \<and> sessionDigest (cf_env cf) q = Inr d \<and> requestMode q = Inr (uses_mode uses)
     \<and> u_handle (lc_user c) = er_handle r"
  by (auto simp: replay_receipt_def answers bind_op_eq_Inr return_op_def)

text \<open>\<open>complete\<close> after recovery: a new completion, or the receipt of an earlier one.\<close>

lemma triple_complete:
  "triple (\<lambda>w. enrollment_phase cf w = x) (complete_unsafe cf q attemptId token)
    (\<lambda>r w. (newly_enrolled cf x q attemptId token r (enrollment_phase cf w) \<or> replayed cf x q attemptId r (enrollment_phase cf w))
       \<and> enrollment_run cf x (enrollment_phase cf w))
    (\<lambda>w. enrollment_run cf x (enrollment_phase cf w))"
    (is "triple ?P _ ?Q ?E")
proof -
  let ?name = "enrollment_filename (cf_env cf) (eq_userId q)"
  let ?branch = "\<lambda>c existing. case existing of
         None \<Rightarrow> en_fail EN_CONFLICT
       | Some (Applied_enrollment uses digest receipt) \<Rightarrow> replay_receipt cf q attemptId c uses digest receipt
       | Some (Committed_enrollment uses c receipt) \<Rightarrow> en_fail EN_RECOVERY_REQUIRED
       | Some (Pending_enrollment p) \<Rightarrow> complete_pending cf q attemptId token c p"
  have branch: "triple ?P (?branch c existing) ?Q ?E"
    if c: "principal_now cf q (snd x) c" and held: "fst x ?name = Inr existing" for c existing
  proof (cases existing)
    case (Some r)
    then show ?thesis
    proof (cases r)
      case (Pending_enrollment p)
      then show ?thesis
        using triple_weaken [OF triple_pending [of x q p attemptId token c]] held Some by auto
    next
      case (Applied_enrollment uses d r')
      have kept: "still cf (replay_receipt cf q attemptId c uses d r')" by (intro preserves_intros)
      have "replayed cf x q attemptId r' x" if "replay_receipt cf q attemptId c uses d r' w = (Inr r'', w')" for r'' w w'
        using replay_receipt_Inr [OF that] held c Some Applied_enrollment unfolding replayed_def by blast
      then have "triple ?P (replay_receipt cf q attemptId c uses d r') ?Q ?E"
        using preservesD [OF kept] replay_receipt_Inr
        by (intro tripleI) (metis rtranclp.rtrancl_refl)+
      then show ?thesis by (simp add: Some Applied_enrollment)
    qed (auto simp: Some en_fail_def triple_def throw_op_def)
  qed (auto simp: en_fail_def triple_def throw_op_def)
  show ?thesis
    unfolding complete_unsafe_def
  proof (rule triple_preserved_bind [where F = "principal_now cf q (snd x)"])
    fix c assume c: "principal_now cf q (snd x) c"
    show "triple ?P (bind_op (readEnrollment cf (eq_userId q)) (?branch c)) ?Q ?E"
      by (rule triple_preserved_bind [where F = "\<lambda>existing. fst x ?name = Inr existing"])
        (use branch [OF c] in \<open>auto intro: preserves_intros dest!: readEnrollment_view\<close>)
  qed (auto intro: preserves_intros dest: current_principal_Inr)
qed

end

end
