(* ===== verification/Enrollment_Guarantees.thy ===== *)
theory Enrollment_Guarantees
  imports Enrollment_Completion Bootstrap_Guarantees
begin

text \<open>
  The enrolment coordinator over the file adapter: every sequence of operations follows the
  protocol, a primary proof authorises one attempt, and a completion is authorised.
\<close>

section \<open>The adapter\<close>

text \<open>\<open>loadCurrent\<close> reads the account, its session and its material; the hooks may refuse and change nothing.\<close>

definition file_loadCurrent :: "string \<Rightarrow> string \<Rightarrow> (files, enrollment_current) op" where
  "file_loadCurrent userId sessionId =
     bind_op (file_getUser userId) (\<lambda>user.
     bind_op (file_getSession sessionId) (\<lambda>session.
     bind_op (case user of None \<Rightarrow> return_op None | Some u \<Rightarrow> file_getTOTPSecret (u_handle u)) (\<lambda>factor.
     bind_op (file_getBackupCodes userId) (\<lambda>codes.
       return_op \<lparr>cs_user = user, cs_session = session, cs_totpSecret = factor, cs_backupCodes = codes\<rparr>))))"

definition file_enrollment ::
  "files enrollment_config \<Rightarrow> (string \<Rightarrow> string \<Rightarrow> string \<Rightarrow> admin_user \<Rightarrow> session \<Rightarrow> int \<Rightarrow> primary_authorization option result) option
     \<Rightarrow> unit result option \<Rightarrow> files enrollment_config" where
  "file_enrollment cf resolver deny =
     cf\<lparr>cf_loadCurrent := file_loadCurrent,
       cf_validatePrimary := map_option (\<lambda>f reference u i account session t. of_result (f reference u i account session t)) resolver,
       cf_beforeComplete := map_option of_result deny\<rparr>"

lemma file_enrollment_simps [simp]:
  "cf_env (file_enrollment cf resolver deny) = cf_env cf" "cf_project (file_enrollment cf resolver deny) = cf_project cf"
  "cf_loadCurrent (file_enrollment cf resolver deny) = file_loadCurrent"
  by (simp_all add: file_enrollment_def)

lemma preserves_file_reads:
  "preserves id (file_getUser u)" "preserves id (file_getSession i)" "preserves id (file_getTOTPSecret h)"
  "preserves id (file_getBackupCodes u)"
  by (auto simp: preserves_def file_getUser_def file_getSession_def file_getAllSessions_def file_readSessions_def
      file_getTOTPSecret_def file_getBackupCodes_def bind_op_def return_op_def split: sum.splits option.splits)

lemma file_loadCurrent_reads: "snd (file_loadCurrent u i f) = f"
proof -
  have "preserves id (file_loadCurrent u i)"
    unfolding file_loadCurrent_def by (intro preserves_intros preserves_file_reads)
  then show ?thesis by (simp add: preserves_def)
qed

interpretation file_enrollments: enrollment_reads "file_enrollment cf resolver deny" for cf resolver deny
  by unfold_locales (auto simp: file_loadCurrent_reads file_enrollment_def of_result_def)

lemma file_enrolls: "dates_read (cf_env cf) \<Longrightarrow> enrollment_storage (file_enrollment cf resolver deny)"
  by (simp add: enrollment_storage_def enrollment_storage_axioms_def file_enrollments.enrollment_reads_axioms)

text \<open>What the file adapter tells of an account that may be enrolled.\<close>

lemma file_reads_Inr:
  "file_getUser u f = (Inr a, f') \<Longrightarrow> f' = f \<and> a = List.find (\<lambda>x. u_id x = u) (f_users f)"
  "file_getSession i f = (Inr b, f') \<Longrightarrow> f' = f \<and> b = List.find (\<lambda>x. s_id x = i) (f_sessions f)"
  "file_getTOTPSecret h f = (Inr c, f') \<Longrightarrow> f' = f \<and> c = map_of (f_totp f) h"
  "file_getBackupCodes u f = (Inr d, f') \<Longrightarrow> f' = f \<and> d = map_of (f_codes f) u"
  by (auto simp: file_getUser_def file_getSession_def file_getAllSessions_def file_readSessions_def
      file_getTOTPSecret_def file_getBackupCodes_def bind_op_eq_Inr return_op_def
      split: sum.splits option.splits if_splits)

lemma file_loadCurrent_Inr:
  assumes "file_loadCurrent u i f = (Inr cur, f')"
  shows "cs_user cur = List.find (\<lambda>x. u_id x = u) (f_users f) \<and> cs_session cur = List.find (\<lambda>x. s_id x = i) (f_sessions f)
    \<and> (case cs_user cur of None \<Rightarrow> True | Some x \<Rightarrow> cs_totpSecret cur = map_of (f_totp f) (u_handle x))
    \<and> cs_backupCodes cur = map_of (f_codes f) u"
proof -
  obtain user f1 found f2 factor f3 codes f4 where reads: "file_getUser u f = (Inr user, f1)" "file_getSession i f1 = (Inr found, f2)"
      "(case user of None \<Rightarrow> return_op None | Some x \<Rightarrow> file_getTOTPSecret (u_handle x)) f2 = (Inr factor, f3)"
      "file_getBackupCodes u f3 = (Inr codes, f4)"
    and cur: "cur = \<lparr>cs_user = user, cs_session = found, cs_totpSecret = factor, cs_backupCodes = codes\<rparr>"
    using assms unfolding file_loadCurrent_def by (auto simp: bind_op_eq_Inr return_op_def [of "\<lparr>cs_user = _, cs_session = _, cs_totpSecret = _, cs_backupCodes = _\<rparr>"])
  have f: "f1 = f" "f2 = f" using file_reads_Inr(1) [OF reads(1)] file_reads_Inr(2) [OF reads(2)] by simp_all
  have factor: "f3 = f \<and> (case user of None \<Rightarrow> True | Some x \<Rightarrow> factor = map_of (f_totp f) (u_handle x))"
    using reads(3) file_reads_Inr(3) by (cases user) (simp_all add: f return_op_def)
  show ?thesis
    using file_reads_Inr(1) [OF reads(1)] file_reads_Inr(2) [OF reads(2)] file_reads_Inr(4) [OF reads(4)] factor
    by (simp add: cur f split: option.splits)
qed

section \<open>Calls\<close>

datatype enrollment_call =
    Recover_enrollment | Begin_enrollment enrollment_request | Complete_enrollment enrollment_request string string

fun perform_call :: "'s enrollment_config \<Rightarrow> enrollment_call \<Rightarrow> 's enroll_world \<Rightarrow> 's enroll_world" where
  "perform_call cf Recover_enrollment w = snd (enrollment_recover cf w)"
| "perform_call cf (Begin_enrollment q) w = snd (enrollment_begin cf q w)"
| "perform_call cf (Complete_enrollment q attemptId token) w = snd (enrollment_complete cf q attemptId token w)"

context enrollment_storage
begin

text \<open>A call from outside makes moves only, whether it returns or fails.\<close>

lemma triple_outside:
  assumes "\<And>y. all_settled y \<Longrightarrow> triple (\<lambda>w. enrollment_phase cf w = y) operation
      (\<lambda>_ w. enrollment_run cf y (enrollment_phase cf w)) (\<lambda>w. enrollment_run cf y (enrollment_phase cf w))"
    and "ew_gate w = None"
  shows "ew_gate (snd (withReadyAuth cf operation w)) = None
    \<and> enrollment_run cf (enrollment_phase cf w) (enrollment_phase cf (snd (withReadyAuth cf operation w)))"
proof -
  have called: "triple (\<lambda>v. enrollment_phase cf v = enrollment_phase cf w \<and> ew_gate v = None) (withReadyAuth cf operation)
      (\<lambda>a v. ew_gate v = None \<and> (\<exists>y. enrollment_run cf (enrollment_phase cf w) y \<and> all_settled y
         \<and> enrollment_run cf y (enrollment_phase cf v)))
      (\<lambda>v. ew_gate v = None \<and> enrollment_run cf (enrollment_phase cf w) (enrollment_phase cf v))"
    by (rule triple_withReadyAuth [where Q = "\<lambda>y _ z. enrollment_run cf y z"]) (rule assms(1))
  obtain r w' where run: "withReadyAuth cf operation w = (r, w')" by fastforce
  then show ?thesis
  proof (cases r)
    case (Inl e)
    then show ?thesis using triple_Inl [OF called, of w] run assms(2) by auto
  next
    case (Inr a)
    then show ?thesis
      using triple_Inr [OF called, of w] run assms(2) by (auto intro: rtranclp_trans)
  qed
qed

lemma call_moves:
  assumes "ew_gate w = None"
  shows "ew_gate (perform_call cf call w) = None
    \<and> enrollment_run cf (enrollment_phase cf w) (enrollment_phase cf (perform_call cf call w))"
proof (cases call)
  case Recover_enrollment
  then show ?thesis
    using triple_outside [OF triple_weaken [OF triple_recoverUnsafe] assms] by (simp add: enrollment_recover_def)
next
  case (Begin_enrollment q)
  then show ?thesis using triple_outside [OF triple_begin assms] by (simp add: enrollment_begin_def)
next
  case (Complete_enrollment q attemptId token)
  show ?thesis
  proof (cases "is_attempt_id attemptId")
    case True
    then have "enrollment_complete cf q attemptId token w = withReadyAuth cf (complete_unsafe cf q attemptId token) w"
      by (simp add: enrollment_complete_def en_require_def)
    then show ?thesis
      using triple_outside [OF triple_weaken [OF triple_complete] assms] by (simp add: Complete_enrollment)
  next
    case False
    then show ?thesis
      using assms by (simp add: Complete_enrollment enrollment_complete_def en_require_def en_fail_def)
  qed
qed

lemma calls_move:
  assumes "ew_gate w = None"
  shows "ew_gate (fold (perform_call cf) calls w) = None
    \<and> enrollment_run cf (enrollment_phase cf w) (enrollment_phase cf (fold (perform_call cf) calls w))"
  using assms
proof (induction calls arbitrary: w)
  case (Cons call calls)
  show ?case
    using call_moves [OF Cons.prems, of call] Cons.IH [of "perform_call cf call w"] by (auto intro: rtranclp_trans)
qed simp

end

section \<open>What runs keep\<close>

text \<open>A committed record stays until its projection returned.\<close>

lemma move_committed:
  assumes "enrollment_move cf x y" "fst x name = Inr (Some (Committed_enrollment uses c r))"
  shows "fst y name = fst x name \<or> (\<exists>s s'. cf_project cf c s = (Inr (), s'))"
  using assms(1)
proof (cases rule: enrollment_move.cases)
  case (Settle J name' uses' c' r' s s')
  then show ?thesis using assms(2) by (cases "name' = name") (auto simp: enters_def)
qed (use assms(2) in \<open>auto simp: enters_def starts_def may_start_def Let_def\<close>)

lemma run_committed:
  assumes "enrollment_run cf x y" "fst x name = Inr (Some (Committed_enrollment uses c r))"
  shows "fst y name = fst x name \<or> (\<exists>s s'. cf_project cf c s = (Inr (), s'))"
  using assms(1)
proof (induction rule: rtranclp_induct)
  case (step y z)
  then show ?case using assms(2) move_committed [OF step(2), of name uses c r] by auto
qed simp

text \<open>A proof binding stays while the clock is before its end.\<close>

lemma move_uses:
  assumes "enrollment_move cf x y" "fst x name = Inr old" "u \<in> set (primaryUses old)"
    and "\<And>n. after (pu_expiresAt u) (jn_clock (cf_env cf) n)"
  shows "\<exists>r. fst y name = Inr r \<and> u \<in> set (primaryUses r)"
  using assms(1)
proof (cases rule: enrollment_move.cases)
  case (Start name' p J old' s)
  show ?thesis
  proof (cases "name' = name")
    case True
    then have "old' = old" using Start assms(2) by simp
    then obtain n where "keeps_uses (live_uses (jn_clock (cf_env cf) n) old) p"
      using Start by (auto simp: starts_def Let_def)
    moreover have "u \<in> set (live_uses (jn_clock (cf_env cf) n) old)"
      using assms(3,4) by (simp add: live_uses_def)
    ultimately show ?thesis
      using Start True by (auto simp: enters_def keeps_uses_def primaryUses_def split: option.splits)
  next
    case False
    then show ?thesis using Start assms(2,3) by (simp add: enters_def)
  qed
next
  case (Commit name' p J token c s)
  then show ?thesis
    using assms(2,3) by (auto simp: enters_def primaryUses_def nullish_def split: option.splits)
next
  case (Project J name' uses c r s)
  then show ?thesis using assms(2,3) by auto
next
  case (Settle J name' uses c r s s')
  then show ?thesis using assms(2,3) by (auto simp: enters_def primaryUses_def)
qed

lemma run_uses:
  assumes "enrollment_run cf x y" "fst x name = Inr old" "u \<in> set (primaryUses old)"
    and "\<And>n. after (pu_expiresAt u) (jn_clock (cf_env cf) n)"
  shows "\<exists>r. fst y name = Inr r \<and> u \<in> set (primaryUses r)"
  using assms(1)
proof (induction rule: rtranclp_induct)
  case (step y z)
  then show ?case using move_uses [OF step(2) _ _ assms(4)] by blast
qed (use assms(2,3) in blast)

text \<open>In a valid record a digest is bound to one attempt, that of the record when it is pending.\<close>

lemma phase_ok: "fst (enrollment_phase cf w) name = Inr (Some r) \<Longrightarrow> enrollment_record_ok (cf_env cf) r"
  by (auto simp: enrollment_phase_def enrollment_at_def parse_enrollment_def split: option.splits if_splits)

lemma bound_attempt:
  assumes "enrollment_record_ok env (Pending_enrollment p)" "ep_primary p = Some b" "u \<in> set (pb_uses b)"
    and "pb_reauthDigest b = pu_digest u"
  shows "ep_attemptId p = pu_attemptId u"
proof -
  have b: "validatePrimaryUses env (pb_uses b) (ep_attemptId p)"
      and found: "\<exists>v. List.find (\<lambda>v. pu_attemptId v = ep_attemptId p) (pb_uses b) = Some v \<and> pu_digest v = pb_reauthDigest b"
    using assms(1,2) by (auto simp: enrollment_pending_ok_def optional_ok_def primary_binding_ok_def split: option.splits)
  obtain v where v: "v \<in> set (pb_uses b)" "pu_attemptId v = ep_attemptId p" "pu_digest v = pu_digest u"
    using found assms(4) by (auto dest: find_SomeD)
  have "inj_on pu_digest (set (pb_uses b))"
    using b by (simp add: validatePrimaryUses_def primary_uses_loop_iff distinct_map)
  then have "v = u" using v assms(3) by (auto dest: inj_onD)
  then show ?thesis using v(2) by simp
qed

section \<open>Properties\<close>

text \<open>
  C11. Every sequence of calls from outside follows the enrolment protocol, whatever fails on the
  way, and leaves the gate open. An attempt starts only where no attempt is live and nothing is
  committed; it is committed only with a verified code; the store changes only by projecting a
  committed completion, and a record is applied only when its projection returned. So a committed
  record stays until its projection returned.
\<close>

theorem enrollment_refines_protocol:
  assumes "dates_read (cf_env cf)" "ew_gate w = None"
  shows "let co = file_enrollment cf resolver deny; w' = fold (perform_call co) calls w in
    ew_gate w' = None \<and> enrollment_run co (enrollment_phase co w) (enrollment_phase co w')
    \<and> (case fst (enrollment_phase co w) name of
         Inr (Some (Committed_enrollment uses c r)) \<Rightarrow>
           fst (enrollment_phase co w') name = fst (enrollment_phase co w) name \<or> (\<exists>s s'. cf_project cf c s = (Inr (), s'))
       | _ \<Rightarrow> True)"
proof -
  let ?co = "file_enrollment cf resolver deny"
  note moved = enrollment_storage.calls_move [OF file_enrolls [OF assms(1)] assms(2), where calls = calls]
  then show ?thesis
    using run_committed [of ?co "enrollment_phase ?co w" "enrollment_phase ?co (fold (perform_call ?co) calls w)" name]
    by (auto simp: Let_def split: sum.split option.split enrollment_record.split)
qed

text \<open>
  C12. A primary proof authorises one attempt. While the clock is before the end of a proof that is
  bound to an attempt, every sequence of calls keeps the binding in the account's record, through
  new attempts, commitment and application, and a pending attempt whose proof it is, is the attempt
  it was bound to.
\<close>

theorem primary_proof_bound:
  assumes "dates_read (cf_env cf)" "ew_gate w = None"
    and "fst (enrollment_phase (file_enrollment cf resolver deny) w) name = Inr old" "u \<in> set (primaryUses old)"
    and "\<And>n. after (pu_expiresAt u) (jn_clock (cf_env cf) n)"
  shows "let co = file_enrollment cf resolver deny; w' = fold (perform_call co) calls w in
    \<exists>r. fst (enrollment_phase co w') name = Inr r \<and> u \<in> set (primaryUses r)
      \<and> (case r of
           Some (Pending_enrollment p) \<Rightarrow>
             (case ep_primary p of
                None \<Rightarrow> False
              | Some b \<Rightarrow> if pb_reauthDigest b = pu_digest u then ep_attemptId p = pu_attemptId u else True)
         | _ \<Rightarrow> True)"
proof -
  let ?co = "file_enrollment cf resolver deny"
  let ?w = "fold (perform_call ?co) calls w"
  have "enrollment_run ?co (enrollment_phase ?co w) (enrollment_phase ?co ?w)"
    using enrollment_storage.calls_move [OF file_enrolls [OF assms(1)] assms(2)] by blast
  from run_uses [OF this assms(3,4)] assms(5)
  obtain r where r: "fst (enrollment_phase ?co ?w) name = Inr r" "u \<in> set (primaryUses r)" by auto
  have "case r of
      Some (Pending_enrollment p) \<Rightarrow>
        (case ep_primary p of
           None \<Rightarrow> False
         | Some b \<Rightarrow> if pb_reauthDigest b = pu_digest u then ep_attemptId p = pu_attemptId u else True)
    | _ \<Rightarrow> True"
  proof (cases "\<exists>p. r = Some (Pending_enrollment p)")
    case True
    then obtain p where p: "r = Some (Pending_enrollment p)" ..
    then obtain b where b: "ep_primary p = Some b" "u \<in> set (pb_uses b)"
      using r(2) by (cases "ep_primary p") (auto simp: primaryUses_def)
    show ?thesis
      using bound_attempt [OF phase_ok [OF r(1) [unfolded p]] b] by (simp add: p b(1))
  qed (auto split: option.split enrollment_record.split)
  then show ?thesis
    using r unfolding Let_def by blast
qed

text \<open>The principal of a checked attempt, as the file adapter holds it.\<close>

lemma file_attempt_checked:
  assumes "attempt_checked (file_enrollment cf resolver deny) q f st p"
  obtains u s where "List.find (\<lambda>x. u_id x = eq_userId q) (f_users f) = Some u"
    "List.find (\<lambda>x. s_id x = eq_sessionId q) (f_sessions f) = Some s" "s_userId s = u_id u"
    "u_handle u = ep_handle p" "u_isActive u" "u_isLocked u \<noteq> Some True" "isValidAdminRole (u_role u)" "\<not> u_totpEnabled u"
    "map_of (f_totp f) (u_handle u) = None" "map_of (f_codes f) (u_id u) = None"
    "case ep_primary p of
       None \<Rightarrow> u_needsOnboarding u
     | Some b \<Rightarrow> \<exists>reference a cu. eq_primaryReauthRef q = Some reference
         \<and> primaryReferenceDigest (cf_env cf) reference = pb_reauthDigest b
         \<and> primaryReauthDigest (cf_env cf) reference a = pb_authorizationDigest b
         \<and> proved_now (file_enrollment cf resolver deny) q f cu a"
proof -
  let ?co = "file_enrollment cf resolver deny"
  obtain c g where st: "st = (c, g)" by fastforce
  have now: "principal_now ?co q f c" and absent: "absent_factor c (recordMode p)"
    and proof_given: "case recordMode p of Onboarding \<Rightarrow> g = None | Self_enrollment \<Rightarrow> (\<exists>a. g = Some a \<and> proved_now ?co q f c a)"
    and handle: "ep_handle p = u_handle (lc_user c)"
    and proved: "optional_ok (\<lambda>b. primary_matches (cf_env cf) b q g) (ep_primary p)"
    using assms by (auto simp: attempt_checked_def unenrolled_now_def st)
  obtain cur where load: "file_loadCurrent (eq_userId q) (eq_sessionId q) f = (Inr cur, f)"
    and cur: "cs_user cur = Some (lc_user c)" "cs_session cur = Some (lc_session c)"
      "cs_totpSecret cur = lc_totpSecret c" "cs_backupCodes cur = lc_backupCodes c"
    and bound: "principal_bound q (lc_user c) (lc_session c)"
    using now by (auto simp: principal_now_def)
  have "case ep_primary p of
       None \<Rightarrow> u_needsOnboarding (lc_user c)
     | Some b \<Rightarrow> \<exists>reference a cu. eq_primaryReauthRef q = Some reference
         \<and> primaryReferenceDigest (cf_env cf) reference = pb_reauthDigest b
         \<and> primaryReauthDigest (cf_env cf) reference a = pb_authorizationDigest b \<and> proved_now ?co q f cu a"
    using absent proof_given proved
    by (auto simp: recordMode_def uses_mode_def absent_factor_def Let_def optional_ok_def primary_matches_def
        split: option.splits)
  then show thesis
    using that [of "lc_user c" "lc_session c"] file_loadCurrent_Inr [OF load] cur bound absent handle
    by (auto simp: principal_bound_def absent_factor_def Let_def)
qed

text \<open>
  C10. A completed enrolment is authorised. When \<open>complete\<close> returns a receipt, recovery had settled
  every committed record, and then either the attempt was applied before for the same session, or
  the attempt was pending for this account and session, the account is stored, active, not locked,
  of an administrator's role and without a factor or codes, its session is stored, it is being
  onboarded or proved its primary credential again with the proof of the attempt, otplib accepted
  the code for the sealed secret of the attempt, the projection of the completion returned, and the
  record is applied.
\<close>

theorem enrollment_complete_authorised:
  assumes "dates_read (cf_env cf)" "ew_gate w = None"
    and "enrollment_complete (file_enrollment cf resolver deny) q attemptId token w = (Inr r, w')"
  shows "let co = file_enrollment cf resolver deny; name = enrollment_filename (cf_env cf) (eq_userId q) in
    \<exists>y. enrollment_run co (enrollment_phase co w) y \<and> all_settled y
      \<and> (replayed co y q attemptId r (enrollment_phase co w')
         \<or> (\<exists>p c u s. fst y name = Inr (Some (Pending_enrollment p)) \<and> ep_attemptId p = attemptId
              \<and> ep_userId p = eq_userId q \<and> sessionDigest (cf_env cf) q = Inr (ep_sessionDigest p)
              \<and> List.find (\<lambda>x. u_id x = eq_userId q) (f_users (snd y)) = Some u
              \<and> List.find (\<lambda>x. s_id x = eq_sessionId q) (f_sessions (snd y)) = Some s \<and> s_userId s = u_id u
              \<and> u_handle u = ep_handle p \<and> u_isActive u \<and> u_isLocked u \<noteq> Some True \<and> isValidAdminRole (u_role u)
              \<and> \<not> u_totpEnabled u \<and> map_of (f_totp (snd y)) (u_handle u) = None \<and> map_of (f_codes (snd y)) (u_id u) = None
              \<and> (case ep_primary p of
                   None \<Rightarrow> u_needsOnboarding u
                 | Some b \<Rightarrow> \<exists>reference a cu. eq_primaryReauthRef q = Some reference
                     \<and> primaryReferenceDigest (cf_env cf) reference = pb_reauthDigest b
                     \<and> primaryReauthDigest (cf_env cf) reference a = pb_authorizationDigest b \<and> proved_now co q (snd y) cu a)
              \<and> completes_enrollment co p token c \<and> r = enrollment_receipt_of (cf_env cf) c
              \<and> cf_project cf c (snd y) = (Inr (), ew_store w')
              \<and> fst (enrollment_phase co w') name
                  = Inr (Some (Applied_enrollment (map_option pb_uses (ep_primary p)) (ec_sessionDigest c) r))))"
proof -
  let ?co = "file_enrollment cf resolver deny"
  let ?name = "enrollment_filename (cf_env cf) (eq_userId q)"
  have "is_attempt_id attemptId" "withReadyAuth ?co (complete_unsafe ?co q attemptId token) w = (Inr r, w')"
    using assms(3) by (auto simp: enrollment_complete_def bind_op_eq_Inr answers)
  note called = this(2)
  have "\<exists>y. enrollment_run ?co (enrollment_phase ?co w) y \<and> all_settled y
      \<and> ((newly_enrolled ?co y q attemptId token r (enrollment_phase ?co w') \<or> replayed ?co y q attemptId r (enrollment_phase ?co w'))
         \<and> enrollment_run ?co y (enrollment_phase ?co w'))"
    using triple_Inr [OF enrollment_storage.triple_withReadyAuth [OF file_enrolls [OF assms(1)]
        enrollment_storage.triple_complete [OF file_enrolls [OF assms(1)]]] _ called] assms(2) by blast
  then obtain y where y: "enrollment_run ?co (enrollment_phase ?co w) y" "all_settled y"
      "newly_enrolled ?co y q attemptId token r (enrollment_phase ?co w') \<or> replayed ?co y q attemptId r (enrollment_phase ?co w')"
    by blast
  show ?thesis
  proof (cases "replayed ?co y q attemptId r (enrollment_phase ?co w')")
    case True
    then show ?thesis using y(1,2) unfolding Let_def by blast
  next
    case False
    then obtain p st c where p: "fst y ?name = Inr (Some (Pending_enrollment p))" "ep_attemptId p = attemptId"
        "attempt_checked ?co q (snd y) st p" "completes_enrollment ?co p token c" "r = enrollment_receipt_of (cf_env cf) c"
        "cf_project cf c (snd y) = (Inr (), ew_store w')"
        "fst (enrollment_phase ?co w') ?name
           = Inr (Some (Applied_enrollment (map_option pb_uses (ep_primary p)) (ec_sessionDigest c) r))"
      using y(3) by (auto simp: newly_enrolled_def Let_def enrollment_phase_def enters_def)
    have user: "ep_userId p = eq_userId q" "sessionDigest (cf_env cf) q = Inr (ep_sessionDigest p)"
      using p(3) by (simp_all add: attempt_checked_def)
    show ?thesis
      unfolding Let_def
      by (rule file_attempt_checked [OF p(3)])
        (use y(1,2) p user in \<open>blast\<close>)
  qed
qed

section \<open>A concrete enrolment\<close>

text \<open>
  An attempt of \<open>ada\<close> during onboarding that waits for its code. The cipher of the example seals
  two texts under their numbers, and the clock stands still.
\<close>

definition enrolled_codes :: "string list" where
  "enrolled_codes = map (\<lambda>c. ''0000-000'' @ [c]) ''0123456789''"

definition enrolled_cipher :: "nat \<Rightarrow> encrypted_data" where
  "enrolled_cipher k =
     \<lparr>en_encrypted = base64_encode [k], en_salt = base64_encode [0], en_iv = base64_encode [0], en_tag = base64_encode [0]\<rparr>"

definition enrolled_gcm :: gcm where
  "enrolled_gcm =
     \<lparr>gc_scrypt = \<lambda>k salt n. [], gc_seal = \<lambda>key iv bs. ([if bs = utf8 DUMMY_SECRET then 1 else 2], [0]),
      gc_open = \<lambda>key iv c t. Inr (utf8 (if c = [1] then DUMMY_SECRET else stringify (JArr (map JStr enrolled_codes))))\<rparr>"

definition enrolled_env :: journal_env where
  "enrolled_env = booted_base\<lparr>jn_gcm := enrolled_gcm, jn_random := \<lambda>n. [0]\<rparr>"

definition enrolled_project :: "enrollment_completion \<Rightarrow> (files, unit) op" where
  "enrolled_project c = (\<lambda>f. (Inr (), f\<lparr>f_totp := [(ec_handle c, ec_totpSecret c)], f_codes := [(ec_userId c, ec_backupCodes c)]\<rparr>))"

definition enrolled_config :: "files enrollment_config" where
  "enrolled_config =
     \<lparr>cf_env = enrolled_env, cf_loadCurrent = file_loadCurrent, cf_validatePrimary = None, cf_project = enrolled_project,
      cf_beforeComplete = None, cf_check = \<lambda>secret token digits period tolerance epoch. Inr (Some 0),
      cf_authenticator = initial_authenticator_config, cf_epoch = \<lambda>n. 1, cf_generateSecret = \<lambda>n. Inr DUMMY_SECRET,
      cf_generateQRCode = \<lambda>h s. Inr ''qr'', cf_codeBytes = \<lambda>n. [], cf_codeIds = \<lambda>n. booted_ids\<rparr>"

abbreviation enrolled_co :: "files enrollment_config" where
  "enrolled_co \<equiv> file_enrollment enrolled_config None None"

definition enrolled_user :: admin_user where
  "enrolled_user = blank_user\<lparr>u_id := ''u1'', u_handle := ''ada'', u_role := ''admin'', u_isActive := True,
     u_needsOnboarding := True, u_onboardingStep := 1\<rparr>"

definition enrolled_session :: session where
  "enrolled_session = example_session ''s1'' ''u1'' 500 5000"

definition enrolled_store :: files where
  "enrolled_store = empty_files\<lparr>f_users := [enrolled_user], f_sessions := [enrolled_session]\<rparr>"

definition enrolled_request :: enrollment_request where
  "enrolled_request =
     \<lparr>eq_userId = ''u1'', eq_sessionId = ''s1'', eq_mode = Some ''onboarding'', eq_primaryReauthRef = None\<rparr>"

definition enrolled_pending :: enrollment_pending where
  "enrolled_pending =
     \<lparr>ep_attemptId = replicate 48 CHR ''b'', ep_userId = ''u1'', ep_handle = ''ada'',
      ep_sessionDigest = booted_sha (''tinyland-auth:enrollment-session:v1'' @ [CHR 0x00] @ json_array [''u1'', ''s1'']),
      ep_createdAt = Iso 500, ep_expiresAt = Iso 2000, ep_secret = enrolled_cipher 1, ep_recoveryCodes = enrolled_cipher 2,
      ep_backupCodes = (createBackupCodeSet booted_sha 0 booted_ids ''u1'' enrolled_codes)\<lparr>bs_generatedAt := Iso 500\<rparr>,
      ep_primary = None\<rparr>"

definition enrolled_name :: string where
  "enrolled_name = booted_sha ''u1'' @ ''.json''"

definition enrolled_text :: "enrollment_record \<Rightarrow> string" where
  "enrolled_text r = stringify (enrollment_json enrolled_env r)"

definition enrolled_world :: "enrollment_record \<Rightarrow> files enroll_world" where
  "enrolled_world r =
     \<lparr>ew_store = enrolled_store, ew_files = [(enrolled_name, enrolled_text r)], ew_gate = None, ew_asked = 0\<rparr>"

definition enrolled_completion :: enrollment_completion where
  "enrolled_completion = enrollment_completion_of enrolled_pending (enrolled_cipher 1) (Iso 1000) 0 1"

definition enrolled_receipt :: enrollment_receipt where
  "enrolled_receipt = enrollment_receipt_of enrolled_env enrolled_completion"

lemma enrolled_dates: "dates_read enrolled_env"
  using booted_dates by (simp add: dates_read_def enrolled_env_def booted_env_def)

lemma enrolled_env_simps [simp]:
  "jn_gcm enrolled_env = enrolled_gcm" "jn_sha256 enrolled_env = booted_sha" "jn_clock enrolled_env = (\<lambda>n. 1000)"
  "jn_random enrolled_env = (\<lambda>n. [0])" "jn_read enrolled_env = (\<lambda>n. Inr ())" "jn_sync enrolled_env = (\<lambda>n. Inr ())"
  "jn_publish enrolled_env = (\<lambda>n. Journal_published)" "jn_iso enrolled_env = show_int"
  by (simp_all add: enrolled_env_def booted_base_def)

lemma enrolled_opens:
  "totp_decrypt enrolled_gcm key (enrolled_cipher 1) = Inr DUMMY_SECRET"
  "totp_decrypt enrolled_gcm key (enrolled_cipher 2) = Inr (stringify (JArr (map JStr enrolled_codes)))"
  by (simp_all add: totp_decrypt_def enrolled_cipher_def enrolled_gcm_def base64_decode_encode byte_list_def utf8_text_utf8
      del: base64_encode.simps)

lemma enrolled_seal: "totp_encrypt enrolled_gcm key [0] [0] DUMMY_SECRET = enrolled_cipher 1"
  by (simp add: totp_encrypt_def enrolled_cipher_def enrolled_gcm_def del: base64_encode.simps)

lemma enrolled_base64: "base64_encode [0] = ''AA==''" "base64_encode [1] = ''AQ==''" "base64_encode [2] = ''Ag==''"
  by code_simp+

lemma enrolled_texts: "enrollment_text ''u1''" "enrollment_text ''s1''" "enrollment_text ''ada''" "enrollment_text DUMMY_SECRET"
  "encrypted_ok (enrolled_cipher 1)" "encrypted_ok (enrolled_cipher 2)" "list_all enrollment_text booted_ids"
  by (simp_all add: enrollment_text_def encrypted_ok_def enrolled_cipher_def enrolled_base64 DUMMY_SECRET_def booted_ids_def
      del: base64_encode.simps One_nat_def)

lemma enrolled_forms: "is_attempt_id (replicate 48 CHR ''b'')" "is_totp_token (remove_spaces ''123456'')"
  "isValidAdminRole ''admin''" "distinct booted_ids" "assertSecretMeetsFloor DUMMY_SECRET = Inr ()"
  by code_simp+

lemma enrolled_times: "enrollment_time enrolled_env (Iso 500)" "enrollment_time enrolled_env (Iso 1000)" "enrollment_time enrolled_env (Iso 2000)"
proof -
  have "CHR 0x00 \<notin> set (show_nat n)" for n
    using show_nat_digits [of n] by (auto simp: list_all_iff is_digit_def)
  then show "enrollment_time enrolled_env (Iso 500)" "enrollment_time enrolled_env (Iso 1000)"
      "enrollment_time enrolled_env (Iso 2000)"
    using booted_iso_texts by (simp_all add: enrollment_time_def enrollment_text_def journal_text_def show_int_def)
qed

lemma enrolled_hashes:
  "map (hashBackupCode booted_sha) enrolled_codes = map (\<lambda>c. replicate 63 CHR ''a'' @ [c]) ''0123456789''"
proof -
  have normal: "map normalizeBackupCode enrolled_codes = map (\<lambda>c. ''0000000'' @ [c]) ''0123456789''" by code_simp
  have hex: "list_all is_lower_hex ''0123456789''" by code_simp
  have "map (hashBackupCode booted_sha) enrolled_codes = map booted_sha (map normalizeBackupCode enrolled_codes)"
    by (simp add: hashBackupCode_def)
  also have "\<dots> = map (\<lambda>c. replicate 63 CHR ''a'' @ [c]) ''0123456789''"
    unfolding normal using hex by (simp add: booted_sha_def)
  finally show ?thesis .
qed

lemma enrolled_loop: "initial_codes_loop [] [] (bs_codes (ep_backupCodes enrolled_pending))"
proof -
  let ?cs = "bs_codes (ep_backupCodes enrolled_pending)"
  have hashes: "map bc_hash ?cs = map (hashBackupCode booted_sha) enrolled_codes" and ids: "map bc_id ?cs = booted_ids"
      and unused: "list_all (\<lambda>c. bc_usedAt c = None \<and> \<not> bc_used c) ?cs"
    by (simp_all add: enrolled_pending_def createBackupCodeSet_def booted_ids_def enrolled_codes_def)
  have "list_all enrollment_text (map bc_id ?cs)" "list_all is_sha256_hex (map bc_hash ?cs)"
      "distinct (map bc_id ?cs)" "distinct (map bc_hash ?cs)"
    using enrolled_texts enrolled_forms by (simp_all add: ids hashes list_all_iff hashBackupCode_def) (simp add: enrolled_hashes)
  then show ?thesis
    using unused by (simp add: initial_codes_loop_iff list_all_iff)
qed

lemma enrolled_initial: "initial_codes enrolled_env (ep_backupCodes enrolled_pending) ''u1''"
  using enrolled_loop enrolled_times
  by (simp add: initial_codes_def enrolled_pending_def createBackupCodeSet_def booted_ids_def enrolled_codes_def)

lemma enrolled_fields [simp]:
  "ep_attemptId enrolled_pending = replicate 48 CHR ''b''" "ep_userId enrolled_pending = ''u1''" "ep_handle enrolled_pending = ''ada''"
  "ep_createdAt enrolled_pending = Iso 500" "ep_expiresAt enrolled_pending = Iso 2000" "ep_secret enrolled_pending = enrolled_cipher 1"
  "ep_recoveryCodes enrolled_pending = enrolled_cipher 2" "ep_primary enrolled_pending = None"
  "is_sha256_hex (ep_sessionDigest enrolled_pending)"
  by (simp_all add: enrolled_pending_def)

lemma enrolled_pending_ok: "enrollment_record_ok enrolled_env (Pending_enrollment enrolled_pending)"
  using enrolled_texts enrolled_forms enrolled_times enrolled_initial
  by (simp add: enrollment_pending_ok_def ENROLLMENT_MAX_TTL_MS_def optional_ok_def)

lemma enrolled_completion_ok: "validateCompletion enrolled_env enrolled_completion"
  using enrolled_texts enrolled_forms enrolled_times enrolled_initial
  by (simp add: validateCompletion_def enrolled_completion_def enrollment_completion_of_def recordMode_def uses_mode_def
      enrollment_factor_ok_def enrollment_patch_ok_def isSafeInteger_def encrypted_ok_def)

lemma enrolled_records:
  "enrollment_record_ok enrolled_env (Committed_enrollment None enrolled_completion enrolled_receipt)"
  "enrollment_record_ok enrolled_env (Applied_enrollment None (ep_sessionDigest enrolled_pending) enrolled_receipt)"
proof -
  have "enrollment_receipt_ok enrolled_env enrolled_receipt"
    using enrolled_texts enrolled_forms enrolled_times
    by (simp add: enrollment_receipt_ok_def enrolled_receipt_def enrollment_receipt_of_def enrolled_completion_def
        enrollment_completion_of_def enrollmentDigest_def)
  then show "enrollment_record_ok enrolled_env (Committed_enrollment None enrolled_completion enrolled_receipt)"
      "enrollment_record_ok enrolled_env (Applied_enrollment None (ep_sessionDigest enrolled_pending) enrolled_receipt)"
    using enrolled_completion_ok
    by (simp_all add: optional_ok_def uses_mode_def enrolled_receipt_def enrollment_receipt_of_def)
      (simp_all add: enrolled_completion_def enrollment_completion_of_def recordMode_def uses_mode_def patch_mode_def)
qed

definition enrolled_current :: live_current where
  "enrolled_current =
     \<lparr>lc_user = enrolled_user, lc_session = enrolled_session, lc_totpSecret = None, lc_backupCodes = None\<rparr>"

lemma enrolled_co_simps [simp]:
  "cf_env enrolled_config = enrolled_env" "cf_env enrolled_co = enrolled_env" "cf_project enrolled_config = enrolled_project"
  "cf_beforeComplete enrolled_co = None" "cf_authenticator enrolled_co = initial_authenticator_config" "cf_epoch enrolled_co = (\<lambda>n. 1)"
  "cf_check enrolled_co = (\<lambda>secret token digits period tolerance epoch. Inr (Some 0))"
  by (simp_all add: enrolled_config_def file_enrollment_def)

lemma enrolled_request_simps [simp]:
  "eq_userId enrolled_request = ''u1''" "eq_sessionId enrolled_request = ''s1''" "requestMode enrolled_request = Inr Onboarding"
  "sessionDigest enrolled_env enrolled_request = Inr (ep_sessionDigest enrolled_pending)"
  using enrolled_texts(1,2) by (simp_all add: requestMode_def sessionDigest_def enrolled_request_def enrolled_pending_def)

lemma enrolled_load:
  "file_loadCurrent ''u1'' ''s1'' enrolled_store
     = (Inr \<lparr>cs_user = Some enrolled_user, cs_session = Some enrolled_session, cs_totpSecret = None, cs_backupCodes = None\<rparr>, enrolled_store)"
proof -
  have "assertStoredSessions [enrolled_session] = Inr ()" by code_simp
  then show ?thesis
    by (simp add: file_loadCurrent_def file_getUser_def file_getSession_def file_getAllSessions_def file_readSessions_def
        file_getTOTPSecret_def file_getBackupCodes_def bind_op_def enrolled_store_def empty_files_def enrolled_user_def
        enrolled_session_def example_session_def)
qed

lemma enrolled_principal:
  "ew_store w = enrolled_store
   \<Longrightarrow> current_principal enrolled_co enrolled_request w = (Inr enrolled_current, w\<lparr>ew_asked := Suc (ew_asked w)\<rparr>)"
proof -
  have "principal_bound enrolled_request enrolled_user enrolled_session" "after (s_expires enrolled_session) 1000"
      "enrollment_text (u_handle enrolled_user)"
    by code_simp+
  moreover assume "ew_store w = enrolled_store"
  ultimately show ?thesis
    by (simp add: current_principal_def of_result_def with_store_def enrolled_load en_require_def en_now_def en_ask_def
        enrolled_current_def)
qed

lemma enrolled_absent:
  "ew_store w = enrolled_store
   \<Longrightarrow> current_unenrolled enrolled_co enrolled_request w = (Inr (enrolled_current, None), w\<lparr>ew_asked := Suc (ew_asked w)\<rparr>)"
proof -
  have "absent_factor enrolled_current Onboarding" by code_simp
  moreover assume "ew_store w = enrolled_store"
  ultimately show ?thesis
    by (simp add: current_unenrolled_def of_result_def enrolled_principal requireAbsentFactor_def en_require_def)
qed

lemma enrolled_checks:
  "checkBinding enrolled_co enrolled_pending enrolled_request ''ada'' w = (Inr (), w)"
  "checkPrimaryAuthorization enrolled_co enrolled_pending enrolled_request a w = (Inr (), w)"
  "checkExpiry enrolled_co enrolled_pending w = (Inr (), w\<lparr>ew_asked := Suc (ew_asked w)\<rparr>)"
  "check_pending enrolled_co enrolled_pending enrolled_request (enrolled_current, a) w = (Inr (), w)"
  by (simp_all add: checkBinding_def checkPrimaryAuthorization_def checkExpiry_def check_pending_def of_result_def en_require_def
      en_now_def en_ask_def bind_op_def recordMode_def uses_mode_def optional_ok_def after_def at_or_before_def
      enrolled_current_def enrolled_user_def)

lemma enrolled_plain_codes: "plainRecoveryCodes enrolled_co enrolled_pending w = (Inr enrolled_codes, w)"
proof -
  have "json_parse (stringify (JArr (map JStr enrolled_codes))) = Some (JArr (map JStr enrolled_codes))"
    by (rule json_parse_stringify) (simp add: list_all_iff)
  then have "decryptBackupCodes enrolled_gcm key (enrolled_cipher 2) = Inr (JArr (map JStr enrolled_codes))" for key
    by (simp add: decryptBackupCodes_def enrolled_opens del: stringify.simps)
  moreover have "all_of as_text (JArr (map JStr enrolled_codes)) = Some enrolled_codes"
    by (simp add: enrolled_codes_def) code_simp
  moreover have "map bc_hash (bs_codes (ep_backupCodes enrolled_pending)) = map (hashBackupCode booted_sha) enrolled_codes"
    by (simp add: enrolled_pending_def createBackupCodeSet_def booted_ids_def enrolled_codes_def)
  ultimately show ?thesis
    by (simp add: plainRecoveryCodes_def outside_def en_require_def bind_op_def)
qed

lemma enrolled_verified:
  "enrollment_step enrolled_co enrolled_pending DUMMY_SECRET ''123456'' w = (Inr 0, w\<lparr>ew_asked := ew_asked w + 2\<rparr>)"
  using enrolled_forms
  by (simp add: enrollment_step_def en_ask_def en_now_def verifyTokenWithStep_matched matched_step_def enrollment_secret_def
      getAuthenticatorCheckDelta_def outside_def currentStepFor_def getAuthenticatorStep_def initial_authenticator_config_def
      isSafeInteger_def)

lemma enrolled_resealed:
  "sealed_again enrolled_co DUMMY_SECRET w = (Inr (enrolled_cipher 1), w\<lparr>ew_asked := ew_asked w + 2\<rparr>)"
  by (simp add: sealed_again_def en_encrypt_def en_decrypt_def en_ask_def enrolled_seal enrolled_opens outside_def en_require_def
      del: One_nat_def)

lemma enrolled_completes:
  "ew_store w = enrolled_store \<Longrightarrow> verified_completion enrolled_co enrolled_request enrolled_pending ''123456'' w
     = (Inr enrolled_completion, w\<lparr>ew_asked := ew_asked w + 8\<rparr>)"
  by (simp add: verified_completion_def en_decrypt_def outside_def enrolled_opens enrolled_verified enrolled_checks enrolled_absent
      enrolled_resealed en_now_def en_ask_def enrolled_completion_def del: One_nat_def)
    (simp add: enrolled_current_def enrolled_user_def)

text \<open>Writing the record of the example, recovery before it, and the whole call.\<close>

lemma enrolled_hex: "is_lower_hex (last ''u1'')" "is_enrollment_name enrolled_name" "is_json_name enrolled_name"
  "enrollment_filename enrolled_env ''u1'' = enrolled_name"
proof -
  have "length (booted_sha s) = 64" for s by (simp add: booted_sha_def)
  then show "is_enrollment_name enrolled_name" "is_json_name enrolled_name"
      "enrollment_filename enrolled_env ''u1'' = enrolled_name"
    by (simp_all add: is_enrollment_name_def is_json_name_def enrolled_name_def enrollment_filename_def)
qed code_simp

definition enrolled_owner :: "enrollment_record \<Rightarrow> bool" where
  "enrolled_owner r \<longleftrightarrow> enrollment_record_ok enrolled_env r \<and> recordUserId r = ''u1''"

lemma enrolled_owned:
  "enrolled_owner (Pending_enrollment enrolled_pending)"
  "enrolled_owner (Committed_enrollment None enrolled_completion enrolled_receipt)"
  "enrolled_owner (Applied_enrollment None (ep_sessionDigest enrolled_pending) enrolled_receipt)"
  using enrolled_records enrolled_pending_ok
  by (simp_all add: enrolled_owner_def recordUserId_def del: enrollment_record_ok.simps)
    (simp_all add: enrolled_receipt_def enrollment_receipt_of_def enrolled_completion_def enrollment_completion_of_def)

lemma enrolled_written:
  assumes "enrolled_owner r" "ew_files w = [(enrolled_name, old)]"
  shows "writeEnrollment enrolled_co r w
     = (Inr (), w\<lparr>ew_files := [(enrolled_name, enrolled_text r)], ew_asked := Suc (ew_asked w)\<rparr>)"
  using assms enrolled_texts(1)
  by (simp add: writeEnrollment_def en_require_def enrolled_owner_def publish_enrollment_def en_ask_def enrolled_hex
      enrolled_text_def Let_def del: enrollment_record_ok.simps)

lemma enrolled_found:
  assumes "enrolled_owner r" "ew_files w = [(enrolled_name, enrolled_text r)]"
  shows "enrollment_at enrolled_env (ew_files w) enrolled_name = Inr (Some r)"
    and "readEnrollment enrolled_co ''u1'' w = (Inr (Some r), w\<lparr>ew_asked := Suc (ew_asked w)\<rparr>)"
proof -
  show found: "enrollment_at enrolled_env (ew_files w) enrolled_name = Inr (Some r)"
    using assms parse_enrollment_written [OF enrolled_dates, of r]
    by (simp add: enrollment_at_def enrolled_text_def enrolled_owner_def)
  show "readEnrollment enrolled_co ''u1'' w = (Inr (Some r), w\<lparr>ew_asked := Suc (ew_asked w)\<rparr>)"
    using found assms enrolled_texts(1)
    by (simp add: readEnrollment_def en_require_def en_io_def en_ask_def outside_def enrolled_hex enrolled_owner_def)
qed

definition enrolled_after :: files where
  "enrolled_after = snd (enrolled_project enrolled_completion enrolled_store)"

lemma enrolled_applies:
  assumes "ew_store w = enrolled_store" "ew_files w = [(enrolled_name, old)]" "ew_gate w = Some g" "\<not> gs_projecting g"
  shows "enrollment_apply enrolled_co None enrolled_completion enrolled_receipt w
     = (Inr (), w\<lparr>ew_store := enrolled_after, ew_files := [(enrolled_name, enrolled_text
          (Applied_enrollment None (ep_sessionDigest enrolled_pending) enrolled_receipt))], ew_asked := Suc (ew_asked w)\<rparr>)"
proof -
  have factor: "factor_data (ec_totpSecret enrolled_completion) = enrolled_cipher 1"
      "ec_sessionDigest enrolled_completion = ep_sessionDigest enrolled_pending"
    by (simp_all add: factor_data_def enrolled_completion_def enrollment_completion_of_def encrypted_eta)
  have projects: "enrolled_project enrolled_completion enrolled_store = (Inr (), enrolled_after)"
    by (simp add: enrolled_after_def enrolled_project_def)
  have "enrollment_projection enrolled_co None enrolled_completion enrolled_receipt v
      = (Inr (), v\<lparr>ew_store := enrolled_after, ew_files := [(enrolled_name, enrolled_text
          (Applied_enrollment None (ep_sessionDigest enrolled_pending) enrolled_receipt))], ew_asked := Suc (ew_asked v)\<rparr>)"
    if "ew_store v = enrolled_store" "ew_files v = [(enrolled_name, old)]" for v
    using that enrolled_texts(4)
    by (simp add: enrollment_projection_def en_decrypt_def outside_def factor enrolled_opens en_require_def with_store_def
        projects enrolled_written [OF enrolled_owned(3)] del: One_nat_def)
  then show ?thesis
    using assms by (simp add: enrollment_apply_def set_projecting_def Let_def)
qed

lemma enrolled_commits:
  assumes "ew_store w = enrolled_store" "ew_files w = [(enrolled_name, old)]" "ew_gate w = Some g" "\<not> gs_projecting g"
  shows "commit_enrollment enrolled_co enrolled_request enrolled_pending enrolled_completion w
     = (Inr enrolled_receipt, w\<lparr>ew_store := enrolled_after, ew_files := [(enrolled_name, enrolled_text
          (Applied_enrollment None (ep_sessionDigest enrolled_pending) enrolled_receipt))],
          ew_gate := Some (g\<lparr>gs_recoveryRequired := False\<rparr>), ew_asked := ew_asked w + 2\<rparr>)"
  using assms enrolled_written [OF enrolled_owned(2)]
  by (simp add: commit_enrollment_def Let_def set_recoveryRequired_def enrolled_receipt_def [symmetric] recordMode_def uses_mode_def
      enrolled_applies)

lemma enrolled_recovers:
  assumes "ew_files w = [(enrolled_name, enrolled_text (Pending_enrollment enrolled_pending))]" "ew_gate w = Some g"
  shows "enrollment_recoverUnsafe enrolled_co w
     = (Inr (), w\<lparr>ew_gate := Some (g\<lparr>gs_recoveryRequired := False\<rparr>), ew_asked := ew_asked w + 5\<rparr>)"
  using assms enrolled_found(1) [OF enrolled_owned(1), of "w\<lparr>ew_asked := _\<rparr>"] enrolled_texts(1)
  by (simp add: enrollment_recoverUnsafe_def en_io_def en_ask_def outside_def recover_entry_def en_require_def enrolled_hex
      recordUserId_def set_recoveryRequired_def)

lemma enrolled_completed:
  "enrollment_complete enrolled_co enrolled_request (replicate 48 CHR ''b'') ''123456'' (enrolled_world (Pending_enrollment enrolled_pending))
     = (Inr enrolled_receipt, (enrolled_world (Applied_enrollment None (ep_sessionDigest enrolled_pending) enrolled_receipt))
          \<lparr>ew_store := enrolled_after, ew_asked := 19\<rparr>)"
proof -
  have user: "u_handle (lc_user enrolled_current) = ''ada''" by (simp add: enrolled_current_def enrolled_user_def)
  show ?thesis
    using enrolled_forms
    by (simp add: enrollment_complete_def en_require_def withReadyAuth_def runContext_def enrolled_recovers enrolled_world_def
        complete_unsafe_def enrolled_principal enrolled_found(2) [OF enrolled_owned(1)] complete_pending_def user
        enrolled_checks enrolled_absent enrolled_plain_codes deny_gate_def enrolled_completes enrolled_commits)
qed

theorem enrollment_complete_authorised_witness:
  "\<exists>w'. enrollment_complete enrolled_co enrolled_request (replicate 48 CHR ''b'') ''123456''
         (enrolled_world (Pending_enrollment enrolled_pending)) = (Inr enrolled_receipt, w')
     \<and> ew_store w' = enrolled_after \<and> map_of (f_totp (ew_store w')) ''ada'' = Some (ec_totpSecret enrolled_completion)
     \<and> (\<exists>y. enrollment_run enrolled_co (enrollment_phase enrolled_co (enrolled_world (Pending_enrollment enrolled_pending))) y
            \<and> all_settled y)"
proof -
  have "\<exists>y. enrollment_run enrolled_co (enrollment_phase enrolled_co (enrolled_world (Pending_enrollment enrolled_pending))) y
      \<and> all_settled y"
    using enrollment_complete_authorised [of enrolled_config "enrolled_world (Pending_enrollment enrolled_pending)", OF _ _ enrolled_completed]
    by (auto simp: enrolled_dates enrolled_world_def Let_def)
  moreover have "map_of (f_totp enrolled_after) ''ada'' = Some (ec_totpSecret enrolled_completion)"
    by (simp add: enrolled_after_def enrolled_project_def enrolled_completion_def enrollment_completion_of_def)
  ultimately show ?thesis by (simp add: enrolled_completed)
qed

theorem enrollment_refines_protocol_witness:
  "let w = enrolled_world (Pending_enrollment enrolled_pending);
       calls = [Begin_enrollment enrolled_request, Complete_enrollment enrolled_request (replicate 48 CHR ''b'') ''123456'', Recover_enrollment];
       w' = fold (perform_call enrolled_co) calls w in
     ew_gate w' = None \<and> enrollment_run enrolled_co (enrollment_phase enrolled_co w) (enrollment_phase enrolled_co w')"
  using enrollment_refines_protocol [of enrolled_config "enrolled_world (Pending_enrollment enrolled_pending)" None None
      "[Begin_enrollment enrolled_request, Complete_enrollment enrolled_request (replicate 48 CHR ''b'') ''123456'', Recover_enrollment]"
      enrolled_name]
  unfolding Let_def by (simp add: enrolled_dates enrolled_world_def)

text \<open>A record of an applied self-enrolment, whose proof is still live.\<close>

definition enrolled_use :: primary_use where
  "enrolled_use = \<lparr>pu_digest = hexes CHR ''c'', pu_attemptId = replicate 48 CHR ''b'', pu_expiresAt = Iso 2000\<rparr>"

definition enrolled_proved :: enrollment_record where
  "enrolled_proved = Applied_enrollment (Some [enrolled_use]) (hexes CHR ''c'')
     (enrolled_receipt\<lparr>er_mode := Self_enrollment\<rparr>)"

lemma enrolled_proved_ok: "enrolled_owner enrolled_proved"
proof -
  have "enrollment_receipt_ok enrolled_env enrolled_receipt" using enrolled_records(1) by simp
  moreover have "er_attemptId enrolled_receipt = replicate 48 CHR ''b''" "er_userId enrolled_receipt = ''u1''"
    by (simp_all add: enrolled_receipt_def enrollment_receipt_of_def enrolled_completion_def enrollment_completion_of_def)
  ultimately show ?thesis
    using enrolled_forms(1) enrolled_times booted_hex
    by (simp add: enrolled_owner_def enrolled_proved_def recordUserId_def enrollment_receipt_ok_def uses_mode_def optional_ok_def
        validatePrimaryUses_def enrolled_use_def)
qed

theorem primary_proof_bound_witness:
  "\<exists>r. fst (enrollment_phase enrolled_co (perform_call enrolled_co (Begin_enrollment enrolled_request) (enrolled_world enrolled_proved)))
         enrolled_name = Inr r \<and> enrolled_use \<in> set (primaryUses r)"
proof -
  have found: "fst (enrollment_phase enrolled_co (enrolled_world enrolled_proved)) enrolled_name = Inr (Some enrolled_proved)"
    using enrolled_found(1) [OF enrolled_proved_ok, of "enrolled_world enrolled_proved"]
    by (simp add: enrollment_phase_def enrolled_world_def)
  have used: "enrolled_use \<in> set (primaryUses (Some enrolled_proved))"
    by (simp add: enrolled_proved_def primaryUses_def nullish_def)
  have live: "after (pu_expiresAt enrolled_use) (jn_clock (cf_env enrolled_config) n)" for n
    by (simp add: enrolled_use_def after_def)
  have "ew_gate (enrolled_world enrolled_proved) = None" "dates_read (cf_env enrolled_config)"
    by (simp_all add: enrolled_world_def enrolled_dates)
  from primary_proof_bound [OF this(2,1) found used live, of "[Begin_enrollment enrolled_request]"] show ?thesis
    unfolding Let_def by auto
qed

end
