(* ===== verification/Atomic_Files.thy ===== *)
theory Atomic_Files
  imports Json_Parse File_Storage
begin

text \<open>
  How the file adapter reads and replaces one file, \<open>readJsonFile\<close> and \<open>writeJsonFileAtomic\<close> of
  \<open>src/storage/file.ts\<close>: every call of the file system may fail, and a call that fails while it
  writes may leave any text in the temporary file.
\<close>

section \<open>The disk\<close>

record disk_env =
  dv_call :: "nat \<Rightarrow> unit result"
  dv_partial :: "nat \<Rightarrow> string"
  dv_now :: "nat \<Rightarrow> int"
  dv_random :: "nat \<Rightarrow> string"

record disk =
  dk_files :: "string jsmap"
  dk_asked :: nat

text \<open>One call of the file system; the count makes two calls different questions.\<close>

definition dk_call :: "disk_env \<Rightarrow> (disk, unit) op" where
  "dk_call env d = (dv_call env (dk_asked d), d\<lparr>dk_asked := Suc (dk_asked d)\<rparr>)"

definition dk_ask :: "(nat \<Rightarrow> 'a) \<Rightarrow> (disk, 'a) op" where
  "dk_ask f d = (Inr (f (dk_asked d)), d\<lparr>dk_asked := Suc (dk_asked d)\<rparr>)"

definition dk_put :: "string \<Rightarrow> string \<Rightarrow> (disk, unit) op" where
  "dk_put name content d = (Inr (), d\<lparr>dk_files := map_set name content (dk_files d)\<rparr>)"

text \<open>\<open>try { m } finally { f }\<close>: an error of \<open>f\<close> takes the place of the outcome of \<open>m\<close>.\<close>

definition finally_op :: "(disk, 'a) op \<Rightarrow> (disk, unit) op \<Rightarrow> (disk, 'a) op" where
  "finally_op m f d = (let (r, d') = m d; (r', d'') = f d' in (case r' of Inl e \<Rightarrow> Inl e | Inr _ \<Rightarrow> r, d''))"

section \<open>Reading\<close>

definition ensureDir :: "disk_env \<Rightarrow> (disk, unit) op" where
  "ensureDir env = catch_op (dk_call env) (\<lambda>_. dk_call env)"

text \<open>
  A missing file gives the default, which may be \<open>undefined\<close> (here \<open>None\<close>); everything else that
  fails is an error. A call may answer \<open>ENOENT\<close> by itself, and it is taken for a missing file too.
\<close>

definition readJsonFile :: "disk_env \<Rightarrow> string \<Rightarrow> json option \<Rightarrow> (disk, json option) op" where
  "readJsonFile env filePath defaultValue =
     catch_op
       (bind_op (ensureDir env) (\<lambda>_.
        bind_op (dk_call env) (\<lambda>_ d.
          case map_of (dk_files d) filePath of
            None \<Rightarrow> (Inl (Error ''ENOENT''), d)
          | Some content \<Rightarrow>
              (case json_parse content of None \<Rightarrow> Inl (Error ''SyntaxError'') | Some v \<Rightarrow> Inr (Some v), d))))
       (\<lambda>e. if e = Error ''ENOENT'' then return_op defaultValue else throw_op e)"

section \<open>Replacing\<close>

text \<open>\<open>fs.open\<close> with \<open>wx\<close> makes an empty file and refuses one that exists.\<close>

definition open_new :: "disk_env \<Rightarrow> string \<Rightarrow> (disk, unit) op" where
  "open_new env name =
     bind_op (dk_call env) (\<lambda>_ d.
       if map_of (dk_files d) name \<noteq> None then (Inl (Error ''EEXIST''), d) else dk_put name [] d)"

definition write_text :: "disk_env \<Rightarrow> string \<Rightarrow> string \<Rightarrow> (disk, unit) op" where
  "write_text env name content d =
     (case dv_call env (dk_asked d) of
        Inl e \<Rightarrow> (Inl e, (snd (dk_put name (dv_partial env (dk_asked d)) d))\<lparr>dk_asked := Suc (dk_asked d)\<rparr>)
      | Inr _ \<Rightarrow> (Inr (), (snd (dk_put name content d))\<lparr>dk_asked := Suc (dk_asked d)\<rparr>))"

definition rename_file :: "disk_env \<Rightarrow> string \<Rightarrow> string \<Rightarrow> (disk, unit) op" where
  "rename_file env source target =
     bind_op (dk_call env) (\<lambda>_ d.
       case map_of (dk_files d) source of
         None \<Rightarrow> (Inl (Error ''ENOENT''), d)
       | Some content \<Rightarrow> (Inr (), d\<lparr>dk_files := map_set target content (map_del source (dk_files d))\<rparr>))"

definition unlink_file :: "disk_env \<Rightarrow> string \<Rightarrow> (disk, unit) op" where
  "unlink_file env name = bind_op (dk_call env) (\<lambda>_ d. (Inr (), d\<lparr>dk_files := map_del name (dk_files d)\<rparr>))"

text \<open>\<open>content\<close> is the text \<open>JSON.stringify\<close> made of the data.\<close>

definition temp_path :: "string \<Rightarrow> int \<Rightarrow> string \<Rightarrow> string" where
  "temp_path filePath now random = filePath @ ''.'' @ show_int now @ ''.'' @ random @ ''.tmp''"

definition publish_temp :: "disk_env \<Rightarrow> string \<Rightarrow> string \<Rightarrow> string \<Rightarrow> (disk, unit) op" where
  "publish_temp env filePath temp content =
     bind_op (open_new env temp) (\<lambda>_.
     bind_op (finally_op (bind_op (write_text env temp content) (\<lambda>_. dk_call env)) (dk_call env)) (\<lambda>_.
     bind_op (rename_file env temp filePath) (\<lambda>_.
     bind_op (dk_call env) (\<lambda>_.
       finally_op (dk_call env) (dk_call env)))))"

definition writeJsonFileAtomic :: "disk_env \<Rightarrow> string \<Rightarrow> string \<Rightarrow> (disk, unit) op" where
  "writeJsonFileAtomic env filePath content =
     bind_op (ensureDir env) (\<lambda>_.
     bind_op (dk_ask (dv_now env)) (\<lambda>now.
     bind_op (dk_ask (dv_random env)) (\<lambda>random.
       let temp = temp_path filePath now random in
       catch_op (publish_temp env filePath temp content) (\<lambda>e.
         bind_op (catch_op (unlink_file env temp) (\<lambda>_. return_op ())) (\<lambda>_. throw_op e)))))"

section \<open>What a write leaves\<close>

text \<open>All files but the temporary one and the target are as before, and the target is old or new.\<close>

definition replaced :: "string \<Rightarrow> string \<Rightarrow> string \<Rightarrow> string jsmap \<Rightarrow> string jsmap \<Rightarrow> bool" where
  "replaced target temp content before_files after_files \<longleftrightarrow>
     (\<forall>name. name \<noteq> target \<longrightarrow> name \<noteq> temp \<longrightarrow> map_of after_files name = map_of before_files name)
     \<and> (map_of after_files target = map_of before_files target \<or> map_of after_files target = Some content)"

lemma temp_path_other [simp]: "temp_path filePath now random \<noteq> filePath"
proof
  assume "temp_path filePath now random = filePath"
  then have "length (temp_path filePath now random) = length filePath" by simp
  then show False by (simp add: temp_path_def)
qed

lemma temp_path_other' [simp]: "filePath \<noteq> temp_path filePath now random"
  using temp_path_other by metis

lemma dk_call_files [simp]: "dk_files (snd (dk_call env d)) = dk_files d"
  by (simp add: dk_call_def)

lemma ensureDir_files [simp]: "dk_files (snd (ensureDir env d)) = dk_files d"
  by (simp add: ensureDir_def dk_call_def catch_op_def split: sum.split)

lemma write_text_files:
  "\<exists>written. dk_files (snd (write_text env name content d)) = map_set name written (dk_files d)
     \<and> (\<forall>x. fst (write_text env name content d) = Inr x \<longrightarrow> written = content)"
  by (auto simp: write_text_def dk_put_def split: sum.split)

lemma finally_call:
  assumes "finally_op m (dk_call env) d = (r, d')"
  obtains r1 d1 where "m d = (r1, d1)" "dk_files d' = dk_files d1" "\<And>x. r = Inr x \<Longrightarrow> r1 = Inr x"
proof -
  obtain r1 d1 where m: "m d = (r1, d1)" by fastforce
  have "dk_files d' = dk_files d1" "r = Inr x \<Longrightarrow> r1 = Inr x" for x
    using assms by (auto simp: finally_op_def m dk_call_def split: sum.splits)
  then show thesis using that m by blast
qed

text \<open>The temporary file holds the text when it was written and closed.\<close>

lemma temp_written:
  assumes "finally_op (bind_op (write_text env temp content) (\<lambda>_. dk_call env)) (dk_call env) d = (r, d')"
  shows "\<exists>written. dk_files d' = map_set temp written (dk_files d) \<and> (\<forall>x. r = Inr x \<longrightarrow> written = content)"
proof -
  obtain r1 d1 where run: "bind_op (write_text env temp content) (\<lambda>_. dk_call env) d = (r1, d1)"
    and d': "dk_files d' = dk_files d1" "\<And>x. r = Inr x \<Longrightarrow> r1 = Inr x"
    using finally_call [OF assms] by blast
  obtain r2 d2 where wrote: "write_text env temp content d = (r2, d2)" by fastforce
  obtain written where "dk_files d2 = map_set temp written (dk_files d)" "\<forall>x. r2 = Inr x \<longrightarrow> written = content"
    using write_text_files [of env temp content d] wrote by auto
  moreover have "dk_files d1 = dk_files d2 \<and> (\<forall>x. r1 = Inr x \<longrightarrow> r2 = Inr ())"
    using run wrote by (cases r2) (auto simp: dk_call_def)
  ultimately show ?thesis using d' by metis
qed

lemma rename_files:
  assumes "rename_file env source target d = (r, d')"
  shows "case r of
      Inl e \<Rightarrow> dk_files d' = dk_files d
    | Inr _ \<Rightarrow> (\<exists>content. map_of (dk_files d) source = Some content
                \<and> dk_files d' = map_set target content (map_del source (dk_files d)))"
  using assms by (auto simp: rename_file_def bind_op_def dk_call_def split: sum.splits option.splits)

lemma synced_files: "dk_files (snd (bind_op (dk_call env) (\<lambda>_. finally_op (dk_call env) (dk_call env)) d)) = dk_files d"
  by (auto simp: bind_op_def finally_op_def dk_call_def Let_def split: sum.split)

lemma publish_replaces:
  assumes "publish_temp env target temp content d = (r, d')" "temp \<noteq> target"
  shows "replaced target temp content (dk_files d) (dk_files d')
    \<and> (\<forall>x. r = Inr x \<longrightarrow> map_of (dk_files d') target = Some content \<and> map_of (dk_files d') temp = None)"
proof (cases "fst (open_new env temp d)")
  case (Inl e)
  then have "dk_files d' = dk_files d \<and> r = Inl e"
    using assms(1) by (auto simp: publish_temp_def open_new_def bind_op_def dk_call_def dk_put_def split: sum.splits if_splits)
  then show ?thesis by (simp add: replaced_def)
next
  case (Inr x)
  then obtain d1 where d1: "open_new env temp d = (Inr x, d1)" "dk_files d1 = map_set temp [] (dk_files d)"
    by (auto simp: open_new_def bind_op_def dk_call_def dk_put_def split: sum.splits if_splits)
  obtain r2 d2 where d2: "finally_op (bind_op (write_text env temp content) (\<lambda>_. dk_call env)) (dk_call env) d1 = (r2, d2)"
    by fastforce
  obtain written where written: "dk_files d2 = map_set temp written (dk_files d1)" "r2 = Inr () \<longrightarrow> written = content"
    using temp_written [OF d2] by auto
  show ?thesis
  proof (cases r2)
    case (Inl e)
    then have "dk_files d' = dk_files d2 \<and> r = Inl e"
      using assms(1) d1(1) d2 by (auto simp: publish_temp_def)
    then show ?thesis using assms(2) written d1(2) by (simp add: replaced_def)
  next
    case (Inr y)
    obtain r3 d3 where d3: "rename_file env temp target d2 = (r3, d3)" by fastforce
    show ?thesis
    proof (cases r3)
      case (Inl e)
      then have "dk_files d' = dk_files d3 \<and> r = Inl e"
        using assms(1) d1(1) d2 d3 Inr by (auto simp: publish_temp_def)
      then show ?thesis using assms(2) written d1(2) rename_files [OF d3] Inl by (simp add: replaced_def)
    next
      case inr: (Inr z)
      have "bind_op (dk_call env) (\<lambda>_. finally_op (dk_call env) (dk_call env)) d3 = (r, d')"
        using assms(1) d1(1) d2 d3 Inr inr by (auto simp: publish_temp_def)
      then have "dk_files d' = dk_files d3" using synced_files [of env d3] by simp
      then show ?thesis
        using assms(2) written d1(2) rename_files [OF d3] Inr inr by (auto simp: replaced_def)
    qed
  qed
qed

lemma unlinked_files:
  assumes "bind_op (catch_op (unlink_file env temp) (\<lambda>_. return_op ())) (\<lambda>_. throw_op e) d = (r, d')"
  shows "r = Inl e \<and> (dk_files d' = dk_files d \<or> dk_files d' = map_del temp (dk_files d))"
  using assms
  by (auto simp: bind_op_def catch_op_def unlink_file_def dk_call_def throw_op_def return_op_def split: sum.splits prod.splits)

lemma write_replaces:
  assumes "writeJsonFileAtomic env filePath content d = (r4, d4)"
  shows "\<exists>now random. replaced filePath (temp_path filePath now random) content (dk_files d) (dk_files d4)
     \<and> (r4 = Inr () \<longrightarrow> map_of (dk_files d4) filePath = Some content
          \<and> map_of (dk_files d4) (temp_path filePath now random) = None)"
proof (cases "ensureDir env d")
  case (Pair r1 d1)
  then have d1: "dk_files d1 = dk_files d" using ensureDir_files [of env d] by simp
  show ?thesis
  proof (cases r1)
    case (Inl e)
    then show ?thesis
      using assms Pair d1 by (auto simp: writeJsonFileAtomic_def replaced_def)
  next
    case (Inr x)
    define now where "now = dv_now env (dk_asked d1)"
    define random where "random = dv_random env (Suc (dk_asked d1))"
    let ?temp = "temp_path filePath now random" and ?d2 = "d1\<lparr>dk_asked := Suc (Suc (dk_asked d1))\<rparr>"
    obtain r3 d3 where d3: "publish_temp env filePath ?temp content ?d2 = (r3, d3)" by fastforce
    have run: "writeJsonFileAtomic env filePath content d
        = catch_op (publish_temp env filePath ?temp content) (\<lambda>e.
            bind_op (catch_op (unlink_file env ?temp) (\<lambda>_. return_op ())) (\<lambda>_. throw_op e)) ?d2"
      using Pair Inr by (simp add: writeJsonFileAtomic_def dk_ask_def now_def random_def Let_def)
    have step: "replaced filePath ?temp content (dk_files d) (dk_files d3)
        \<and> (\<forall>x. r3 = Inr x \<longrightarrow> map_of (dk_files d3) filePath = Some content \<and> map_of (dk_files d3) ?temp = None)"
      using publish_replaces [OF d3 temp_path_other] d1 by simp
    have "replaced filePath ?temp content (dk_files d) (dk_files d4)
        \<and> (r4 = Inr () \<longrightarrow> map_of (dk_files d4) filePath = Some content \<and> map_of (dk_files d4) ?temp = None)"
    proof (cases r3)
      case (Inl e)
      then have "bind_op (catch_op (unlink_file env ?temp) (\<lambda>_. return_op ())) (\<lambda>_. throw_op e) d3 = (r4, d4)"
        using run d3 assms by simp
      from unlinked_files [OF this] show ?thesis
        using step by (auto simp: replaced_def)
    next
      case (Inr y)
      then have "r4 = Inr y \<and> d4 = d3" using run d3 assms by simp
      then show ?thesis using step Inr by simp
    qed
    then show ?thesis by blast
  qed
qed

text \<open>
  C13. Replacing a file of the adapter is atomic whatever call of the file system fails on the way:
  afterwards the file is as it was or holds the complete new text, it holds the new text and the
  temporary file is gone when the write returns, and no other file than these two changed.
\<close>

theorem file_write_atomic:
  "let (r, d') = writeJsonFileAtomic env filePath content d in
     \<exists>now random. let temp = temp_path filePath now random in
       temp \<noteq> filePath \<and> replaced filePath temp content (dk_files d) (dk_files d')
       \<and> (case r of
            Inl e \<Rightarrow> True
          | Inr _ \<Rightarrow> map_of (dk_files d') filePath = Some content \<and> map_of (dk_files d') temp = None)"
proof -
  obtain r d' where run: "writeJsonFileAtomic env filePath content d = (r, d')" by fastforce
  obtain now random where "replaced filePath (temp_path filePath now random) content (dk_files d) (dk_files d')"
      "r = Inr () \<longrightarrow> map_of (dk_files d') filePath = Some content
         \<and> map_of (dk_files d') (temp_path filePath now random) = None"
    using write_replaces [OF run] by blast
  then show ?thesis
    using run by (auto simp: Let_def split: sum.split intro!: exI [of _ now] exI [of _ random])
qed

text \<open>A text that was written is read back.\<close>

lemma written_is_read:
  assumes "map_of (dk_files d) filePath = Some (stringify v)" "plain_json v" "\<And>n. dv_call env n = Inr ()"
  shows "fst (readJsonFile env filePath defaultValue d) = Inr (Some v)"
  using assms
  by (simp add: readJsonFile_def ensureDir_def dk_call_def json_parse_stringify)

end
