(* ===== verification/Session_Queue.thy ===== *)
theory Session_Queue
  imports File_Storage
begin

text \<open>
  The queue of the session file, \<open>withSessionFileQueue\<close> and \<open>mutateSessions\<close> of
  \<open>src/storage/file.ts\<close>, with every interleaving of the calls that use it: a call that is made
  waits for the promise of the call before it, whatever that call's outcome, and reads, computes
  and writes in steps between which other calls may be made.
\<close>

section \<open>Calls and steps\<close>

datatype 'a queue_request =
    List_sessions "session list \<Rightarrow> 'a"
  | Mutate_sessions "session list \<Rightarrow> (session list \<times> 'a) result"

text \<open>
  How the calls of the file system end: done, done without the acknowledgement of the write, or
  refused, in the read or before the write replaced the file.
\<close>

datatype write_end = Write_done | Write_unacknowledged error | Refused error

datatype 'a call_status =
    Queued
  | Running
  | Holding "session list"
  | Publishing "session list" 'a
  | Settled "'a result" write_end

record 'a queue_call =
  qc_request :: "'a queue_request"
  qc_previous :: "nat option"
  qc_status :: "'a call_status"

text \<open>
  \<open>sq_tail\<close> is the entry of \<open>sessionFileTails\<close> for the file. The promise of a call is its place in
  the list of the calls.
\<close>

record 'a session_queue =
  sq_calls :: "'a queue_call list"
  sq_tail :: "nat option"
  sq_sessions :: "session list"

definition empty_queue :: "session list \<Rightarrow> 'a session_queue" where
  "empty_queue xs = \<lparr>sq_calls = [], sq_tail = None, sq_sessions = xs\<rparr>"

definition status_at :: "'a session_queue \<Rightarrow> nat \<Rightarrow> 'a call_status" where
  "status_at s i = qc_status (sq_calls s ! i)"

definition is_settled :: "'a call_status \<Rightarrow> bool" where
  "is_settled st = (case st of Settled r f \<Rightarrow> True | _ \<Rightarrow> False)"

definition set_status :: "nat \<Rightarrow> 'a call_status \<Rightarrow> 'a session_queue \<Rightarrow> 'a session_queue" where
  "set_status i st s = s\<lparr>sq_calls := (sq_calls s)[i := (sq_calls s ! i)\<lparr>qc_status := st\<rparr>]\<rparr>"

text \<open>A call takes the place of the tail and remembers what it waits for.\<close>

definition enqueue_call :: "'a queue_request \<Rightarrow> 'a session_queue \<Rightarrow> 'a session_queue" where
  "enqueue_call q s =
     s\<lparr>sq_calls := sq_calls s @ [\<lparr>qc_request = q, qc_previous = sq_tail s, qc_status = Queued\<rparr>],
       sq_tail := Some (length (sq_calls s))\<rparr>"

text \<open>\<open>previous.then(operation, operation)\<close>, or at once when there is no entry.\<close>

definition may_run :: "'a session_queue \<Rightarrow> nat \<Rightarrow> bool" where
  "may_run s i \<longleftrightarrow> (case qc_previous (sq_calls s ! i) of None \<Rightarrow> True | Some p \<Rightarrow> is_settled (status_at s p))"

text \<open>What a call does with the sessions it read, up to the write.\<close>

definition computed :: "'a queue_request \<Rightarrow> session list \<Rightarrow> 'a call_status" where
  "computed q xs =
     (case assertStoredSessions xs of
        Inl e \<Rightarrow> Settled (Inl e) Write_done
      | Inr _ \<Rightarrow>
          (case q of
             List_sessions g \<Rightarrow> Settled (Inr (g xs)) Write_done
           | Mutate_sessions f \<Rightarrow>
               (case f xs of
                  Inl e \<Rightarrow> Settled (Inl e) Write_done
                | Inr (next, r) \<Rightarrow>
                    (case assertStoredSessions next of
                       Inl e \<Rightarrow> Settled (Inl e) Write_done
                     | Inr _ \<Rightarrow> Publishing next r))))"

definition publish_sessions :: "nat \<Rightarrow> session list \<Rightarrow> 'a \<Rightarrow> write_end \<Rightarrow> 'a session_queue \<Rightarrow> 'a session_queue" where
  "publish_sessions i next r outcome s =
     (case outcome of
        Write_done \<Rightarrow> (set_status i (Settled (Inr r) outcome) s)\<lparr>sq_sessions := next\<rparr>
      | Write_unacknowledged e \<Rightarrow> (set_status i (Settled (Inl e) outcome) s)\<lparr>sq_sessions := next\<rparr>
      | Refused e \<Rightarrow> set_status i (Settled (Inl e) outcome) s)"

inductive queue_step :: "'a session_queue \<Rightarrow> 'a session_queue \<Rightarrow> bool" where
  Enqueue: "queue_step s (enqueue_call q s)"
| Start: "i < length (sq_calls s) \<Longrightarrow> status_at s i = Queued \<Longrightarrow> may_run s i \<Longrightarrow> queue_step s (set_status i Running s)"
| Read: "i < length (sq_calls s) \<Longrightarrow> status_at s i = Running \<Longrightarrow> queue_step s (set_status i (Holding (sq_sessions s)) s)"
| Read_fails: "i < length (sq_calls s) \<Longrightarrow> status_at s i = Running \<Longrightarrow> queue_step s (set_status i (Settled (Inl e) (Refused e)) s)"
| Compute: "i < length (sq_calls s) \<Longrightarrow> status_at s i = Holding xs
    \<Longrightarrow> queue_step s (set_status i (computed (qc_request (sq_calls s ! i)) xs) s)"
| Publish: "i < length (sq_calls s) \<Longrightarrow> status_at s i = Publishing next r \<Longrightarrow> queue_step s (publish_sessions i next r outcome s)"
| Cleanup: "i < length (sq_calls s) \<Longrightarrow> is_settled (status_at s i) \<Longrightarrow> sq_tail s = Some i \<Longrightarrow> queue_step s (s\<lparr>sq_tail := None\<rparr>)"

inductive_cases queue_stepE: "queue_step s s'"

abbreviation queue_run :: "'a session_queue \<Rightarrow> 'a session_queue \<Rightarrow> bool" where
  "queue_run \<equiv> queue_step\<^sup>*\<^sup>*"

section \<open>One call after the other\<close>

text \<open>A call that runs alone: its answer and the sessions it leaves, given how its calls of the file system end.\<close>

definition alone :: "'a queue_request \<Rightarrow> write_end \<Rightarrow> session list \<Rightarrow> 'a result \<times> session list" where
  "alone q outcome xs =
     (case outcome of
        Refused e \<Rightarrow> (Inl e, xs)
      | _ \<Rightarrow>
          (case computed q xs of
             Publishing next r \<Rightarrow> (case outcome of Write_unacknowledged e \<Rightarrow> Inl e | _ \<Rightarrow> Inr r, next)
           | Settled r outcome' \<Rightarrow> (r, xs)
           | _ \<Rightarrow> (Inl (Error ''''), xs)))"

text \<open>It is the operation of the adapter's sequential model, however the file calls end.\<close>

fun io_of :: "write_end \<Rightarrow> store_io" where
  "io_of Write_done = Io_done"
| "io_of (Write_unacknowledged e) = Sync_failed e"
| "io_of (Refused e) = Read_failed e"

lemma alone_mutates:
  "file_mutateSessions (io_of outcome) f s = (r, s') \<longleftrightarrow>
     (\<exists>xs. alone (Mutate_sessions f) outcome (f_sessions s) = (r, xs) \<and> s' = s\<lparr>f_sessions := xs\<rparr>)"
  by (cases s; cases outcome)
    (auto simp: alone_def computed_def file_mutateSessions_def file_readSessions_def bind_op_def throw_op_def split: sum.splits prod.splits)

lemma alone_lists:
  "alone (List_sessions g) Write_done (f_sessions s) = (case file_getAllSessions s of (Inl e, s') \<Rightarrow> (Inl e, f_sessions s) | (Inr xs, s') \<Rightarrow> (Inr (g xs), f_sessions s))"
  by (auto simp: alone_def computed_def file_getAllSessions_def file_readSessions_def split: sum.splits)

text \<open>The settled calls of a list, run one after the other.\<close>

fun replayed_calls :: "'a queue_call list \<Rightarrow> session list \<Rightarrow> 'a result list \<times> session list" where
  "replayed_calls [] xs = ([], xs)"
| "replayed_calls (c # cs) xs =
     (let (r, ys) = alone (qc_request c) (case qc_status c of Settled r' outcome \<Rightarrow> outcome | _ \<Rightarrow> Write_done) xs;
          (rs, zs) = replayed_calls cs ys
      in (r # rs, zs))"

definition settled_result :: "'a queue_call \<Rightarrow> 'a result" where
  "settled_result c = (case qc_status c of Settled r outcome \<Rightarrow> r | _ \<Rightarrow> Inl (Error ''''))"

lemma replayed_append:
  "replayed_calls (cs @ ds) xs =
     (let (rs, ys) = replayed_calls cs xs; (rs', zs) = replayed_calls ds ys in (rs @ rs', zs))"
  by (induction cs arbitrary: xs) (simp_all add: Let_def split: prod.splits)

section \<open>The invariant\<close>

text \<open>
  The first \<open>k\<close> calls are settled with the answers they give alone, the calls after the next one
  are queued, and the next one has read the sessions as they are.
\<close>

definition in_order :: "session list \<Rightarrow> 'a session_queue \<Rightarrow> nat \<Rightarrow> bool" where
  "in_order xs s k \<longleftrightarrow>
     k \<le> length (sq_calls s)
     \<and> (\<forall>i<k. is_settled (status_at s i))
     \<and> (\<forall>i. k < i \<longrightarrow> i < length (sq_calls s) \<longrightarrow> status_at s i = Queued)
     \<and> replayed_calls (take k (sq_calls s)) xs = (map settled_result (take k (sq_calls s)), sq_sessions s)
     \<and> (k < length (sq_calls s) \<longrightarrow>
          (case status_at s k of
             Settled r f \<Rightarrow> False
           | Holding ys \<Rightarrow> ys = sq_sessions s
           | Publishing next r \<Rightarrow> computed (qc_request (sq_calls s ! k)) (sq_sessions s) = Publishing next r
           | _ \<Rightarrow> True))"

definition chained :: "'a session_queue \<Rightarrow> nat \<Rightarrow> bool" where
  "chained s k \<longleftrightarrow>
     (\<forall>i<length (sq_calls s). case qc_previous (sq_calls s ! i) of None \<Rightarrow> i \<le> k | Some p \<Rightarrow> i = Suc p)
     \<and> (case sq_tail s of None \<Rightarrow> k = length (sq_calls s) | Some t \<Rightarrow> length (sq_calls s) = Suc t)"

lemma queue_simps [simp]:
  "length (sq_calls (set_status i st s)) = length (sq_calls s)"
  "sq_tail (set_status i st s) = sq_tail s" "sq_sessions (set_status i st s) = sq_sessions s"
  "i < length (sq_calls s) \<Longrightarrow> status_at (set_status i st s) j = (if j = i then st else status_at s j)"
  "i < length (sq_calls s) \<Longrightarrow> qc_previous (sq_calls (set_status i st s) ! j) = qc_previous (sq_calls s ! j)"
  "i < length (sq_calls s) \<Longrightarrow> qc_request (sq_calls (set_status i st s) ! j) = qc_request (sq_calls s ! j)"
  "k \<le> i \<Longrightarrow> take k (sq_calls (set_status i st s)) = take k (sq_calls s)"
  by (auto simp: set_status_def status_at_def nth_list_update)

lemma settled_simps [simp]:
  "is_settled (Settled r f)" "\<not> is_settled Queued" "\<not> is_settled Running" "\<not> is_settled (Holding xs)"
  "\<not> is_settled (Publishing xs a)"
  by (simp_all add: is_settled_def)

text \<open>Only the next call can run.\<close>

lemma next_call:
  assumes "in_order xs s k" "chained s k" "i < length (sq_calls s)" "\<not> is_settled (status_at s i)"
    and "status_at s i \<noteq> Queued \<or> may_run s i"
  shows "i = k"
proof (rule ccontr)
  assume "i \<noteq> k"
  moreover have "\<not> i < k" using assms(1,4) by (auto simp: in_order_def)
  ultimately have "k < i" by simp
  then have "status_at s i = Queued" "may_run s i" using assms(1,3,5) by (auto simp: in_order_def)
  have "case qc_previous (sq_calls s ! i) of None \<Rightarrow> i \<le> k | Some p \<Rightarrow> i = Suc p"
    using assms(2,3) by (simp add: chained_def)
  then obtain p where p: "qc_previous (sq_calls s ! i) = Some p" "i = Suc p"
    using \<open>k < i\<close> by (auto split: option.splits)
  then have "is_settled (status_at s p)" using \<open>may_run s i\<close> by (simp add: may_run_def)
  moreover have "\<not> is_settled (status_at s p)"
    using assms(1,3) p(2) \<open>k < i\<close> by (cases "p = k") (auto simp: in_order_def split: call_status.splits)
  ultimately show False by blast
qed

text \<open>The next call settles: its answer is the one it gives alone.\<close>

lemma settles_next:
  assumes "in_order xs s k" "k < length (sq_calls s)"
    and "alone (qc_request (sq_calls s ! k)) outcome (sq_sessions s) = (r, ys)"
  shows "in_order xs ((set_status k (Settled r outcome) s)\<lparr>sq_sessions := ys\<rparr>) (Suc k)"
proof -
  let ?s = "(set_status k (Settled r outcome) s)\<lparr>sq_sessions := ys\<rparr>"
  have call: "sq_calls ?s ! k = (sq_calls s ! k)\<lparr>qc_status := Settled r outcome\<rparr>"
    using assms(2) by (simp add: set_status_def)
  have "take (Suc k) (sq_calls ?s) = take k (sq_calls s) @ [(sq_calls s ! k)\<lparr>qc_status := Settled r outcome\<rparr>]"
    using assms(2) call by (simp add: take_Suc_conv_app_nth)
  then have "replayed_calls (take (Suc k) (sq_calls ?s)) xs = (map settled_result (take (Suc k) (sq_calls ?s)), ys)"
    using assms(1,3) by (simp add: replayed_append in_order_def settled_result_def)
  then show ?thesis
    using assms(1,2) by (auto simp: in_order_def status_at_def set_status_def nth_list_update less_Suc_eq split: call_status.splits)
qed

lemma chained_same:
  "chained s k \<Longrightarrow> i < length (sq_calls s) \<Longrightarrow> chained (set_status i st s) k"
  by (auto simp: chained_def split: option.splits)

lemma chained_settles:
  "chained s k \<Longrightarrow> k < length (sq_calls s) \<Longrightarrow> chained ((set_status k st s)\<lparr>sq_sessions := ys\<rparr>) (Suc k)"
  by (auto simp: chained_def split: option.splits)

lemma in_order_runs:
  assumes "in_order xs s k" "k < length (sq_calls s)"
    and "case st of Settled r f \<Rightarrow> False | Holding ys \<Rightarrow> ys = sq_sessions s
       | Publishing next r \<Rightarrow> computed (qc_request (sq_calls s ! k)) (sq_sessions s) = Publishing next r | _ \<Rightarrow> True"
  shows "in_order xs (set_status k st s) k"
  using assms by (auto simp: in_order_def split: call_status.splits)

definition serial :: "session list \<Rightarrow> 'a session_queue \<Rightarrow> bool" where
  "serial xs s \<longleftrightarrow> (\<exists>k. in_order xs s k \<and> chained s k)"

lemma serial_runs:
  assumes "in_order xs s k" "chained s k" "k < length (sq_calls s)"
    and "case st of Settled r f \<Rightarrow> False | Holding ys \<Rightarrow> ys = sq_sessions s
       | Publishing next r \<Rightarrow> computed (qc_request (sq_calls s ! k)) (sq_sessions s) = Publishing next r | _ \<Rightarrow> True"
  shows "serial xs (set_status k st s)"
  using in_order_runs [OF assms(1,3,4)] chained_same [OF assms(2,3)] unfolding serial_def by blast

lemma serial_settles:
  assumes "in_order xs s k" "chained s k" "k < length (sq_calls s)"
    and "alone (qc_request (sq_calls s ! k)) outcome (sq_sessions s) = (r, ys)"
  shows "serial xs ((set_status k (Settled r outcome) s)\<lparr>sq_sessions := ys\<rparr>)"
  using settles_next [OF assms(1,3,4)] chained_settles [OF assms(2,3)] unfolding serial_def by blast

lemma serial_enqueue:
  assumes "serial xs s"
  shows "serial xs (enqueue_call q s)"
proof -
  obtain k where k: "in_order xs s k" "chained s k" using assms by (auto simp: serial_def)
  let ?s = "enqueue_call q s"
  have calls: "sq_calls ?s = sq_calls s @ [\<lparr>qc_request = q, qc_previous = sq_tail s, qc_status = Queued\<rparr>]"
    by (simp add: enqueue_call_def)
  have "in_order xs ?s k"
    using k(1) by (auto simp: in_order_def status_at_def calls nth_append less_Suc_eq enqueue_call_def split: call_status.splits)
  moreover have "chained ?s k"
    using k by (auto simp: chained_def in_order_def calls nth_append less_Suc_eq enqueue_call_def split: option.splits)
  ultimately show ?thesis unfolding serial_def by blast
qed

lemma publish_alone:
  assumes "computed q ys = Publishing next r"
  shows "publish_sessions i next r outcome s
    = (set_status i (Settled (fst (alone q outcome ys)) outcome) s)\<lparr>sq_sessions := (case outcome of Refused e \<Rightarrow> sq_sessions s | _ \<Rightarrow> snd (alone q outcome ys))\<rparr>"
  using assms by (cases outcome) (simp_all add: publish_sessions_def alone_def set_status_def)

lemma computed_cases:
  "(\<exists>r. computed q xs = Settled r Write_done) \<or> (\<exists>next r. computed q xs = Publishing next r)"
  by (auto simp: computed_def split: sum.splits queue_request.splits prod.splits)

lemma serial_step:
  assumes "queue_step s s'" "serial xs s"
  shows "serial xs s'"
proof -
  obtain k where k: "in_order xs s k" "chained s k" using assms(2) by (auto simp: serial_def)
  note nexts = next_call [OF k]
  show ?thesis
    using assms(1)
  proof cases
    case (Enqueue q)
    then show ?thesis using serial_enqueue [OF assms(2)] by simp
  next
    case (Start i)
    then have "i = k" using nexts by (simp add: status_at_def)
    then show ?thesis using serial_runs [OF k] Start by simp
  next
    case (Read i)
    then have "i = k" using nexts by simp
    then show ?thesis using serial_runs [OF k] Read by simp
  next
    case (Read_fails i e)
    then have "i = k" using nexts by simp
    moreover have "alone (qc_request (sq_calls s ! k)) (Refused e) (sq_sessions s) = (Inl e, sq_sessions s)"
      by (simp add: alone_def)
    ultimately show ?thesis using serial_settles [OF k, of "Refused e"] Read_fails by (simp add: set_status_def)
  next
    case (Compute i ys)
    then have "i = k" using nexts by simp
    then have ys: "ys = sq_sessions s" using k(1) Compute by (simp add: in_order_def)
    show ?thesis
    proof (cases "\<exists>r. computed (qc_request (sq_calls s ! k)) ys = Settled r Write_done")
      case True
      then obtain r where r: "computed (qc_request (sq_calls s ! k)) ys = Settled r Write_done" ..
      then have "alone (qc_request (sq_calls s ! k)) Write_done (sq_sessions s) = (r, sq_sessions s)"
        by (simp add: alone_def ys)
      from serial_settles [OF k _ this] show ?thesis using Compute \<open>i = k\<close> r by (simp add: set_status_def)
    next
      case False
      then obtain next' r where "computed (qc_request (sq_calls s ! k)) ys = Publishing next' r"
        using computed_cases by blast
      then show ?thesis using serial_runs [OF k, of "Publishing next' r"] Compute \<open>i = k\<close> ys by simp
    qed
  next
    case (Publish i next' r outcome)
    then have "i = k" using nexts by simp
    then have made: "computed (qc_request (sq_calls s ! k)) (sq_sessions s) = Publishing next' r"
      using k(1) Publish by (simp add: in_order_def)
    obtain a ys where a: "alone (qc_request (sq_calls s ! k)) outcome (sq_sessions s) = (a, ys)" by fastforce
    have "s' = (set_status k (Settled a outcome) s)\<lparr>sq_sessions := ys\<rparr>"
      using Publish(1) publish_alone [OF made, of k outcome s] a made \<open>i = k\<close>
      by (cases outcome) (auto simp: alone_def set_status_def)
    then show ?thesis using serial_settles [OF k _ a] Publish \<open>i = k\<close> by simp
  next
    case (Cleanup i)
    have "length (sq_calls s) = Suc i" using k(2) Cleanup by (simp add: chained_def)
    moreover have "i < k"
      using k(1) Cleanup by (cases "k = i") (auto simp: in_order_def not_less_iff_gr_or_eq split: call_status.splits)
    moreover have "k \<le> length (sq_calls s)" using k(1) by (simp add: in_order_def)
    ultimately have "k = length (sq_calls s)" by simp
    then have "in_order xs s' k" "chained s' k"
      using k Cleanup(1) unfolding in_order_def chained_def status_at_def by auto
    then show ?thesis unfolding serial_def by blast
  qed
qed

lemma serial_empty: "serial xs (empty_queue xs)"
  by (simp add: serial_def in_order_def chained_def empty_queue_def)

lemma serial_run: "queue_run (empty_queue xs) s \<Longrightarrow> serial xs s"
  by (induction rule: rtranclp_induct) (auto intro: serial_step serial_empty)

section \<open>Progress\<close>

definition rank :: "'a call_status \<Rightarrow> nat" where
  "rank st = (case st of Queued \<Rightarrow> 4 | Running \<Rightarrow> 3 | Holding xs \<Rightarrow> 2 | Publishing xs a \<Rightarrow> 1 | Settled r f \<Rightarrow> 0)"

definition remaining :: "'a session_queue \<Rightarrow> nat \<Rightarrow> nat" where
  "remaining s k = 5 * (length (sq_calls s) - k) + (if k < length (sq_calls s) then rank (status_at s k) else 0)"

definition requests :: "'a session_queue \<Rightarrow> 'a queue_request list" where
  "requests s = map qc_request (sq_calls s)"

lemma requests_set [simp]:
  "i < length (sq_calls s) \<Longrightarrow> requests (set_status i st s) = requests s" "requests (s\<lparr>sq_sessions := ys\<rparr>) = requests s"
  by (auto simp: requests_def set_status_def map_update intro!: nth_equalityI) (auto simp: nth_list_update)

text \<open>The next call always has a step, and gets nearer to its end by it.\<close>

lemma next_proceeds:
  assumes "in_order xs s k" "chained s k" "k < length (sq_calls s)"
  shows "\<exists>s' k'. queue_step s s' \<and> requests s' = requests s \<and> in_order xs s' k' \<and> chained s' k' \<and> remaining s' k' < remaining s k"
proof -
  let ?q = "qc_request (sq_calls s ! k)"
  have runs: ?thesis if "queue_step s (set_status k st s)" "rank st < rank (status_at s k)"
      "case st of Settled r f \<Rightarrow> False | Holding ys \<Rightarrow> ys = sq_sessions s
       | Publishing next r \<Rightarrow> computed ?q (sq_sessions s) = Publishing next r | _ \<Rightarrow> True" for st
    using that in_order_runs [OF assms(1,3) that(3)] chained_same [OF assms(2,3), of st] assms(3)
    by (intro exI [of _ "set_status k st s"] exI [of _ k]) (simp add: remaining_def)
  have settles: ?thesis if "queue_step s ((set_status k (Settled r outcome) s)\<lparr>sq_sessions := ys\<rparr>)"
      "alone ?q outcome (sq_sessions s) = (r, ys)" for r outcome ys
  proof -
    let ?s = "(set_status k (Settled r outcome) s)\<lparr>sq_sessions := ys\<rparr>"
    have "rank st \<le> 4" for st :: "'a call_status" by (cases st) (simp_all add: rank_def)
    then have "remaining ?s (Suc k) \<le> 5 * (length (sq_calls s) - Suc k) + 4" by (simp add: remaining_def)
    also have "\<dots> < 5 * (length (sq_calls s) - k)" using assms(3) by arith
    finally have "remaining ?s (Suc k) < 5 * (length (sq_calls s) - k)" .
    then have "remaining ?s (Suc k) < remaining s k" by (simp add: remaining_def)
    then show ?thesis
      using that settles_next [OF assms(1,3) that(2)] chained_settles [OF assms(2,3)] assms(3)
      by (intro exI [of _ ?s] exI [of _ "Suc k"]) simp
  qed
  show ?thesis
  proof (cases "status_at s k")
    case Queued
    have "case qc_previous (sq_calls s ! k) of None \<Rightarrow> k \<le> k | Some p \<Rightarrow> k = Suc p"
      using assms(2,3) by (simp add: chained_def)
    then have "may_run s k"
      using assms(1) by (auto simp: may_run_def in_order_def split: option.splits)
    then show ?thesis using runs [of Running] Start [OF assms(3) Queued] Queued by (simp add: rank_def)
  next
    case Running
    then show ?thesis using runs [of "Holding (sq_sessions s)"] Read [OF assms(3) Running] by (simp add: rank_def)
  next
    case (Holding ys)
    then have ys: "ys = sq_sessions s" using assms(1,3) by (simp add: in_order_def)
    note step = Compute [OF assms(3) Holding]
    show ?thesis
    proof (cases "\<exists>r. computed ?q ys = Settled r Write_done")
      case True
      then obtain r where "computed ?q ys = Settled r Write_done" ..
      then show ?thesis using settles [where r = r and outcome = Write_done and ys = "sq_sessions s"] step by (simp add: alone_def ys set_status_def)
    next
      case False
      then obtain next' r where "computed ?q ys = Publishing next' r" using computed_cases by blast
      then show ?thesis using runs [of "Publishing next' r"] step Holding ys by (simp add: rank_def)
    qed
  next
    case (Publishing next' r)
    then have "computed ?q (sq_sessions s) = Publishing next' r" using assms(1,3) by (simp add: in_order_def)
    then show ?thesis
      using settles [where r = "Inr r" and outcome = Write_done and ys = next'] queue_step.Publish [OF assms(3) Publishing, of Write_done]
      by (simp add: alone_def publish_sessions_def set_status_def)
  next
    case (Settled r f)
    then show ?thesis using assms(1,3) by (simp add: in_order_def)
  qed
qed

lemma all_proceed:
  assumes "in_order xs s k" "chained s k"
  shows "\<exists>s'. queue_run s s' \<and> requests s' = requests s \<and> in_order xs s' (length (sq_calls s'))"
  using assms
proof (induction "remaining s k" arbitrary: s k rule: less_induct)
  case less
  show ?case
  proof (cases "k < length (sq_calls s)")
    case True
    then obtain s1 k1 where s1: "queue_step s s1" "requests s1 = requests s" "in_order xs s1 k1" "chained s1 k1"
        "remaining s1 k1 < remaining s k"
      using next_proceeds [OF less.prems] by blast
    then obtain s' where "queue_run s1 s'" "requests s' = requests s1" "in_order xs s' (length (sq_calls s'))"
      using less.hyps by blast
    then show ?thesis using s1(1,2) by (metis converse_rtranclp_into_rtranclp)
  next
    case False
    then have "k = length (sq_calls s)" using less.prems(1) by (simp add: in_order_def)
    then show ?thesis using less.prems(1) by blast
  qed
qed

section \<open>Properties\<close>

text \<open>
  C4. The calls on the session file are serialised. In every interleaving of calls that are made,
  run, write and fail, the calls that are settled are the first ones that were made, each answered
  what it answers when these calls run one after the other in this order, and the file holds the
  sessions this leaves: no update is lost.
\<close>

theorem session_queue_serialises:
  assumes "queue_run (empty_queue xs) s"
  shows "\<exists>k \<le> length (sq_calls s).
     (\<forall>i < length (sq_calls s). is_settled (status_at s i) = (i < k))
     \<and> (\<forall>i < length (sq_calls s). k < i \<longrightarrow> status_at s i = Queued)
     \<and> replayed_calls (take k (sq_calls s)) xs = (map settled_result (take k (sq_calls s)), sq_sessions s)"
proof -
  obtain k where k: "in_order xs s k" using serial_run [OF assms] by (auto simp: serial_def)
  have "is_settled (status_at s i) = (i < k)" if "i < length (sq_calls s)" for i
    using k that by (cases i k rule: linorder_cases) (auto simp: in_order_def split: call_status.splits)
  then show ?thesis using k by (intro exI [of _ k]) (auto simp: in_order_def)
qed

text \<open>
  C15. The queue of the session file never blocks: from every state that calls can reach, all calls
  that were made can be settled, also after calls that failed.
\<close>

theorem session_queue_drains:
  assumes "queue_run (empty_queue xs) s"
  shows "\<exists>s'. queue_run s s' \<and> map qc_request (sq_calls s') = map qc_request (sq_calls s)
     \<and> (\<forall>i < length (sq_calls s'). is_settled (status_at s' i))"
proof -
  obtain k where "in_order xs s k" "chained s k" using serial_run [OF assms] by (auto simp: serial_def)
  from all_proceed [OF this] show ?thesis by (auto simp: in_order_def requests_def)
qed

text \<open>Two sign-ins at once: the second is made while the first holds what it read.\<close>

definition sign_in :: "string \<Rightarrow> string queue_request" where
  "sign_in i = Mutate_sessions (\<lambda>xs. Inr (xs @ [example_session i ''u1'' 1 100], i))"

definition two_sign_ins :: "string session_queue" where
  "two_sign_ins =
     enqueue_call (sign_in ''b'')
       (set_status 0 (Holding []) (set_status 0 Running (enqueue_call (sign_in ''a'') (empty_queue []))))"

lemma two_sign_ins_run: "queue_run (empty_queue []) two_sign_ins"
proof -
  let ?s1 = "enqueue_call (sign_in ''a'') (empty_queue [])"
  let ?s2 = "set_status 0 Running ?s1"
  let ?s3 = "set_status 0 (Holding []) ?s2"
  have "queue_step (empty_queue []) ?s1" by (rule Enqueue)
  moreover have "queue_step ?s1 ?s2"
    by (rule Start) (simp_all add: enqueue_call_def empty_queue_def status_at_def may_run_def)
  moreover have "queue_step ?s2 ?s3"
    using Read [of 0 ?s2] by (simp add: enqueue_call_def empty_queue_def status_at_def set_status_def)
  moreover have "queue_step ?s3 two_sign_ins" unfolding two_sign_ins_def by (rule Enqueue)
  ultimately show ?thesis by (meson converse_rtranclp_into_rtranclp rtranclp.rtrancl_refl)
qed

theorem session_queue_serialises_witness:
  "\<exists>k \<le> 2. (\<forall>i < 2. is_settled (status_at two_sign_ins i) = (i < k))
     \<and> replayed_calls (take k (sq_calls two_sign_ins)) []
         = (map settled_result (take k (sq_calls two_sign_ins)), sq_sessions two_sign_ins)"
proof -
  have "length (sq_calls two_sign_ins) = 2"
    by (simp add: two_sign_ins_def enqueue_call_def empty_queue_def set_status_def)
  then show ?thesis using session_queue_serialises [OF two_sign_ins_run] by auto
qed

theorem session_queue_drains_witness:
  "\<exists>s'. queue_run two_sign_ins s' \<and> map qc_request (sq_calls s') = [sign_in ''a'', sign_in ''b'']
     \<and> (\<forall>i < length (sq_calls s'). is_settled (status_at s' i))"
proof -
  have "map qc_request (sq_calls two_sign_ins) = [sign_in ''a'', sign_in ''b'']"
    by (simp add: two_sign_ins_def enqueue_call_def empty_queue_def set_status_def)
  then show ?thesis using session_queue_drains [OF two_sign_ins_run] by metis
qed

end
