(* ===== verification/File_Lock.thy ===== *)
theory File_Lock
  imports Prelude
begin

text \<open>
  Updates of the account, invitation and audit files, \<open>withFileLock\<close> of \<open>src/storage/file.ts\<close> and
  the methods that read a file, compute and write it under the lock, with every interleaving. The
  lock is taken for the write only, and a call that waited does not look at it again.
\<close>

section \<open>Writers and steps\<close>

text \<open>
  A writer has read and computed, may wait for the promise of another, and then writes and leaves.
  \<open>Waiting v n\<close> awaits the promise of the writer \<open>n\<close>.
\<close>

datatype 'v writer_status = Fresh | Computed 'v | Waiting 'v nat | Locked 'v | Written | Finished

record 'v writer =
  wr_update :: "'v \<Rightarrow> 'v"
  wr_status :: "'v writer_status"

text \<open>\<open>lk_lock\<close> is the entry of \<open>locks\<close> for the file; a promise is named by the writer that made it.\<close>

record 'v locked_file =
  lk_writers :: "'v writer list"
  lk_lock :: "nat option"
  lk_content :: 'v

definition unlocked_file :: "'v \<Rightarrow> 'v locked_file" where
  "unlocked_file v = \<lparr>lk_writers = [], lk_lock = None, lk_content = v\<rparr>"

definition writer_at :: "'v locked_file \<Rightarrow> nat \<Rightarrow> 'v writer_status" where
  "writer_at s i = wr_status (lk_writers s ! i)"

definition set_writer :: "nat \<Rightarrow> 'v writer_status \<Rightarrow> 'v locked_file \<Rightarrow> 'v locked_file" where
  "set_writer i st s = s\<lparr>lk_writers := (lk_writers s)[i := (lk_writers s ! i)\<lparr>wr_status := st\<rparr>]\<rparr>"

definition arrive :: "('v \<Rightarrow> 'v) \<Rightarrow> 'v locked_file \<Rightarrow> 'v locked_file" where
  "arrive f s = s\<lparr>lk_writers := lk_writers s @ [\<lparr>wr_update = f, wr_status = Fresh\<rparr>]\<rparr>"

text \<open>The lock as the writer finds it: it waits, or takes it.\<close>

definition ask_lock :: "nat \<Rightarrow> 'v \<Rightarrow> 'v locked_file \<Rightarrow> 'v locked_file" where
  "ask_lock i v s =
     (case lk_lock s of
        Some n \<Rightarrow> set_writer i (Waiting v n) s
      | None \<Rightarrow> (set_writer i (Locked v) s)\<lparr>lk_lock := Some i\<rparr>)"

text \<open>After the awaited promise the lock is set, whoever holds it.\<close>

definition resume_lock :: "nat \<Rightarrow> 'v \<Rightarrow> 'v locked_file \<Rightarrow> 'v locked_file" where
  "resume_lock i v s = (set_writer i (Locked v) s)\<lparr>lk_lock := Some i\<rparr>"

text \<open>\<open>finally\<close>: the promise is resolved and the entry deleted, whoever made it.\<close>

definition leave_lock :: "nat \<Rightarrow> 'v locked_file \<Rightarrow> 'v locked_file" where
  "leave_lock i s = (set_writer i Finished s)\<lparr>lk_lock := None\<rparr>"

inductive lock_step :: "'v locked_file \<Rightarrow> 'v locked_file \<Rightarrow> bool" where
  Arrive: "lock_step s (arrive f s)"
| Read: "i < length (lk_writers s) \<Longrightarrow> writer_at s i = Fresh
    \<Longrightarrow> lock_step s (set_writer i (Computed (wr_update (lk_writers s ! i) (lk_content s))) s)"
| Ask: "i < length (lk_writers s) \<Longrightarrow> writer_at s i = Computed v \<Longrightarrow> lock_step s (ask_lock i v s)"
| Resume: "i < length (lk_writers s) \<Longrightarrow> writer_at s i = Waiting v n \<Longrightarrow> writer_at s n = Finished \<Longrightarrow> lock_step s (resume_lock i v s)"
| Replace: "i < length (lk_writers s) \<Longrightarrow> writer_at s i = Locked v \<Longrightarrow> lock_step s ((set_writer i Written s)\<lparr>lk_content := v\<rparr>)"
| Leave: "i < length (lk_writers s) \<Longrightarrow> writer_at s i \<in> {Locked v, Written} \<Longrightarrow> lock_step s (leave_lock i s)"

abbreviation lock_run :: "'v locked_file \<Rightarrow> 'v locked_file \<Rightarrow> bool" where
  "lock_run \<equiv> lock_step\<^sup>*\<^sup>*"

lemma writer_simps [simp]:
  "length (lk_writers (set_writer i st s)) = length (lk_writers s)"
  "lk_lock (set_writer i st s) = lk_lock s" "lk_content (set_writer i st s) = lk_content s"
  "i < length (lk_writers s) \<Longrightarrow> writer_at (set_writer i st s) j = (if j = i then st else writer_at s j)"
  "i < length (lk_writers s) \<Longrightarrow> wr_update (lk_writers (set_writer i st s) ! j) = wr_update (lk_writers s ! j)"
  "writer_at (s\<lparr>lk_lock := l\<rparr>) j = writer_at s j" "writer_at (s\<lparr>lk_content := v\<rparr>) j = writer_at s j"
  by (auto simp: set_writer_def writer_at_def nth_list_update)

lemma arrive_simps [simp]:
  "length (lk_writers (arrive f s)) = Suc (length (lk_writers s))" "lk_lock (arrive f s) = lk_lock s"
  "lk_content (arrive f s) = lk_content s"
  "j < length (lk_writers s) \<Longrightarrow> writer_at (arrive f s) j = writer_at s j"
  "j < length (lk_writers s) \<Longrightarrow> wr_update (lk_writers (arrive f s) ! j) = wr_update (lk_writers s ! j)"
  "writer_at (arrive f s) (length (lk_writers s)) = Fresh"
  by (simp_all add: arrive_def writer_at_def nth_append)

section \<open>Contents\<close>

text \<open>\<open>v\<close> comes of some of the updates, one after the other, each at most once.\<close>

definition composed :: "'v \<Rightarrow> 'v locked_file \<Rightarrow> nat set \<Rightarrow> 'v \<Rightarrow> bool" where
  "composed v0 s W v \<longleftrightarrow>
     (\<exists>is. distinct is \<and> set is \<subseteq> W \<and> W \<subseteq> {..<length (lk_writers s)} \<and> v = foldl (\<lambda>v i. wr_update (lk_writers s ! i) v) v0 is)"

definition published :: "'v writer_status \<Rightarrow> bool" where
  "published st \<longleftrightarrow> st = Written \<or> st = Finished"

definition publishers :: "'v locked_file \<Rightarrow> nat set" where
  "publishers s = {i. i < length (lk_writers s) \<and> published (writer_at s i)}"

definition made_of_updates :: "'v \<Rightarrow> 'v locked_file \<Rightarrow> bool" where
  "made_of_updates v0 s \<longleftrightarrow>
     composed v0 s (publishers s) (lk_content s)
     \<and> (\<forall>i<length (lk_writers s). \<forall>v. (writer_at s i = Computed v \<or> (\<exists>n. writer_at s i = Waiting v n) \<or> writer_at s i = Locked v)
          \<longrightarrow> composed v0 s (insert i (publishers s)) v)"

lemma composed_cong:
  assumes "composed v0 s W v" "W \<subseteq> W'" "W' \<subseteq> {..<length (lk_writers s')}"
    and "\<And>i. i \<in> W \<Longrightarrow> wr_update (lk_writers s' ! i) = wr_update (lk_writers s ! i)"
  shows "composed v0 s' W' v"
proof -
  obtain js where js: "distinct js" "set js \<subseteq> W" "v = foldl (\<lambda>v i. wr_update (lk_writers s ! i) v) v0 js"
    using assms(1) by (auto simp: composed_def)
  have "foldl (\<lambda>v i. wr_update (lk_writers s ! i) v) v0 js = foldl (\<lambda>v i. wr_update (lk_writers s' ! i) v) v0 js"
    by (rule foldl_cong) (use js(2) assms(4) in auto)
  then show ?thesis using js assms(2,3) unfolding composed_def by blast
qed

lemma composed_more:
  assumes "composed v0 s W v" "i \<notin> W" "i < length (lk_writers s)"
  shows "composed v0 s (insert i W) (wr_update (lk_writers s ! i) v)"
proof -
  obtain js where js: "distinct js" "set js \<subseteq> W" "W \<subseteq> {..<length (lk_writers s)}" "v = foldl (\<lambda>v i. wr_update (lk_writers s ! i) v) v0 js"
    using assms(1) by (auto simp: composed_def)
  then have "distinct (js @ [i])" "set (js @ [i]) \<subseteq> insert i W"
      "wr_update (lk_writers s ! i) v = foldl (\<lambda>v i. wr_update (lk_writers s ! i) v) v0 (js @ [i])"
    using assms(2) by auto
  then show ?thesis using js(3) assms(3) unfolding composed_def by blast
qed

lemma publishers_lt: "publishers s \<subseteq> {..<length (lk_writers s)}"
  by (auto simp: publishers_def)

text \<open>A step keeps what holds of the contents when it only adds publishers.\<close>

lemma made_mono:
  assumes "made_of_updates v0 s" "length (lk_writers s) \<le> length (lk_writers s')"
    and "\<And>j. j < length (lk_writers s) \<Longrightarrow> wr_update (lk_writers s' ! j) = wr_update (lk_writers s ! j)"
    and "publishers s \<subseteq> publishers s'"
    and "composed v0 s (publishers s') (lk_content s')"
    and "\<And>j v. j < length (lk_writers s') \<Longrightarrow> writer_at s' j = Computed v \<or> (\<exists>n. writer_at s' j = Waiting v n) \<or> writer_at s' j = Locked v
      \<Longrightarrow> j < length (lk_writers s) \<and> composed v0 s (insert j (publishers s)) v"
  shows "made_of_updates v0 s'"
proof -
  have "composed v0 s' (publishers s') (lk_content s')"
    by (rule composed_cong [OF assms(5) subset_refl publishers_lt]) (use assms(3,5) in \<open>auto simp: composed_def\<close>)
  moreover have "composed v0 s' (insert j (publishers s')) v"
    if "j < length (lk_writers s')" "writer_at s' j = Computed v \<or> (\<exists>n. writer_at s' j = Waiting v n) \<or> writer_at s' j = Locked v" for j v
    by (rule composed_cong [of v0 s "insert j (publishers s)"])
      (use assms(2-4,6) that publishers_lt [of s] publishers_lt [of s'] in auto)
  ultimately show ?thesis unfolding made_of_updates_def by blast
qed

lemma publishers_set:
  "i < length (lk_writers s) \<Longrightarrow>
     publishers (set_writer i st s) = (if published st then insert i (publishers s) else publishers s - {i})"
  by (auto simp: publishers_def split: if_splits)

lemma publishers_other [simp]:
  "publishers (s\<lparr>lk_lock := l\<rparr>) = publishers s" "publishers (s\<lparr>lk_content := v\<rparr>) = publishers s"
  by (simp_all add: publishers_def)

lemma publishers_arrive [simp]: "publishers (arrive f s) = publishers s"
  by (auto simp: publishers_def published_def less_Suc_eq)

lemma published_simps [simp]:
  "published Written" "published Finished" "\<not> published Fresh" "\<not> published (Computed v)" "\<not> published (Waiting v n)"
  "\<not> published (Locked v)"
  by (simp_all add: published_def)

lemma not_publisher: "i < length (lk_writers s) \<Longrightarrow> \<not> published (writer_at s i) \<Longrightarrow> i \<notin> publishers s"
  by (simp add: publishers_def)

lemma made_step:
  assumes "lock_step s s'" "made_of_updates v0 s"
  shows "made_of_updates v0 s'"
proof -
  have content: "composed v0 s (publishers s) (lk_content s)" using assms(2) by (simp add: made_of_updates_def)
  have held: "composed v0 s (insert i (publishers s)) v"
    if "i < length (lk_writers s)" "writer_at s i = Computed v \<or> (\<exists>n. writer_at s i = Waiting v n) \<or> writer_at s i = Locked v" for i v
    using assms(2) that unfolding made_of_updates_def by blast
  have same: "made_of_updates v0 (set_writer i st s)"
    if "i < length (lk_writers s)" "\<not> published (writer_at s i)" "\<not> published st"
      "\<And>v. st = Computed v \<or> (\<exists>n. st = Waiting v n) \<or> st = Locked v \<Longrightarrow> composed v0 s (insert i (publishers s)) v" for i st
    by (rule made_mono [OF assms(2)])
      (use that content held not_publisher [OF that(1,2)] in \<open>auto simp: publishers_set split: if_splits\<close>)
  have lock: "made_of_updates v0 (t\<lparr>lk_lock := l\<rparr>) = made_of_updates v0 t" for t :: "'a locked_file" and l
    by (simp add: made_of_updates_def composed_def)
  show ?thesis
    using assms(1)
  proof cases
    case (Arrive f)
    then show ?thesis
      by (intro made_mono [OF assms(2)]) (use content held in \<open>auto simp: less_Suc_eq\<close>)
  next
    case (Read i)
    then show ?thesis
      using same [of i "Computed (wr_update (lk_writers s ! i) (lk_content s))"]
        composed_more [OF content not_publisher] by auto
  next
    case (Ask i v)
    then show ?thesis
      using same [of i "Locked v"] same [of i "Waiting v _"] held [of i v] by (auto simp: ask_lock_def lock split: option.splits)
  next
    case (Resume i v n)
    then show ?thesis using same [of i "Locked v"] held [of i v] by (auto simp: resume_lock_def lock)
  next
    case (Replace i v)
    then show ?thesis
      by (intro made_mono [OF assms(2)]) (use held in \<open>auto simp: publishers_set split: if_splits\<close>)
  next
    case (Leave i v)
    have "composed v0 s (insert i (publishers s)) (lk_content s)"
      using content composed_cong [OF content, of "insert i (publishers s)" s] publishers_lt [of s] Leave by auto
    then have "made_of_updates v0 (set_writer i Finished s)"
      by (intro made_mono [OF assms(2)]) (use Leave held in \<open>auto simp: publishers_set split: if_splits\<close>)
    then show ?thesis using Leave by (simp add: leave_lock_def lock)
  qed
qed

section \<open>Two writers\<close>

definition inside :: "'v writer_status \<Rightarrow> bool" where
  "inside st = (case st of Locked v \<Rightarrow> True | Written \<Rightarrow> True | _ \<Rightarrow> False)"

lemma inside_simps [simp]:
  "inside (Locked v)" "inside Written" "\<not> inside Fresh" "\<not> inside (Computed v)" "\<not> inside (Waiting v n)" "\<not> inside Finished"
  by (simp_all add: inside_def)

definition pair_ok :: "'v locked_file \<Rightarrow> bool" where
  "pair_ok s \<longleftrightarrow>
     (\<forall>i<length (lk_writers s). inside (writer_at s i) \<longrightarrow> lk_lock s = Some i)
     \<and> (\<forall>n. lk_lock s = Some n \<longrightarrow> n < length (lk_writers s) \<and> inside (writer_at s n))
     \<and> (\<forall>i<length (lk_writers s). \<forall>v n. writer_at s i = Waiting v n \<longrightarrow>
          n < length (lk_writers s) \<and> n \<noteq> i \<and> (inside (writer_at s n) \<or> writer_at s n = Finished))"

lemma pair_okI:
  assumes "\<And>i. i < length (lk_writers s) \<Longrightarrow> inside (writer_at s i) \<Longrightarrow> lk_lock s = Some i"
    and "\<And>n. lk_lock s = Some n \<Longrightarrow> n < length (lk_writers s) \<and> inside (writer_at s n)"
    and "\<And>i v n. i < length (lk_writers s) \<Longrightarrow> writer_at s i = Waiting v n \<Longrightarrow>
      n < length (lk_writers s) \<and> n \<noteq> i \<and> (inside (writer_at s n) \<or> writer_at s n = Finished)"
  shows "pair_ok s"
  using assms unfolding pair_ok_def by blast

lemma pair_okD:
  assumes "pair_ok s"
  shows "i < length (lk_writers s) \<Longrightarrow> inside (writer_at s i) \<Longrightarrow> lk_lock s = Some i"
    and "lk_lock s = Some n \<Longrightarrow> n < length (lk_writers s) \<and> inside (writer_at s n)"
    and "i < length (lk_writers s) \<Longrightarrow> writer_at s i = Waiting v n \<Longrightarrow>
      n < length (lk_writers s) \<and> n \<noteq> i \<and> (inside (writer_at s n) \<or> writer_at s n = Finished)"
  using assms unfolding pair_ok_def by blast+

lemma pair_content: "pair_ok s \<Longrightarrow> pair_ok (s\<lparr>lk_content := v\<rparr>)"
proof (rule pair_okI, goal_cases)
  case (1 i)
  then show ?case using pair_okD(1) [OF 1(1), of i] by simp
next
  case (2 n)
  then show ?case using pair_okD(2) [OF 2(1), of n] by simp
next
  case (3 i u n)
  then show ?case using pair_okD(3) [OF 3(1), of i u n] by simp
qed

text \<open>A writer that changes its place without going in or out.\<close>

lemma pair_moves:
  assumes "pair_ok s" "i < length (lk_writers s)" "inside st = inside (writer_at s i)" "writer_at s i \<noteq> Finished"
    and "\<And>v n. st = Waiting v n \<Longrightarrow> n < length (lk_writers s) \<and> n \<noteq> i \<and> (inside (writer_at s n) \<or> writer_at s n = Finished)"
  shows "pair_ok (set_writer i st s)"
proof (rule pair_okI, goal_cases)
  case (1 j)
  then show ?case using pair_okD(1) [OF assms(1), of j] assms(2,3) by (auto split: if_splits)
next
  case (2 n)
  then show ?case using pair_okD(2) [OF assms(1), of n] assms(2,3) by auto
next
  case (3 j v n)
  then have n: "n < length (lk_writers s) \<and> n \<noteq> j \<and> (inside (writer_at s n) \<or> writer_at s n = Finished)"
    using pair_okD(3) [OF assms(1), of j v n] assms(2,5) by (auto split: if_splits)
  then show ?case using assms(2-4) by (cases "n = i") auto
qed

lemma pair_step:
  assumes "lock_step s s'" "pair_ok s" "length (lk_writers s') \<le> 2"
  shows "pair_ok s'"
  using assms(1)
proof cases
  case (Arrive f)
  show ?thesis
    unfolding Arrive
  proof (rule pair_okI, goal_cases)
    case (1 j)
    then show ?case using pair_okD(1) [OF assms(2), of j] by (cases "j < length (lk_writers s)") (auto simp: less_Suc_eq)
  next
    case (2 n)
    then show ?case using pair_okD(2) [OF assms(2), of n] by auto
  next
    case (3 j v n)
    then show ?case
      using pair_okD(3) [OF assms(2), of j v n] by (cases "j < length (lk_writers s)") (auto simp: less_Suc_eq)
  qed
next
  case (Read i)
  then show ?thesis
    using pair_moves [OF assms(2), of i "Computed (wr_update (lk_writers s ! i) (lk_content s))"] by simp
next
  case (Ask i v)
  show ?thesis
  proof (cases "lk_lock s")
    case (Some n)
    then have "n < length (lk_writers s)" "inside (writer_at s n)" using pair_okD(2) [OF assms(2)] by simp_all
    then show ?thesis
      using pair_moves [OF assms(2), of i "Waiting v n"] Ask Some by (cases "n = i") (auto simp: ask_lock_def)
  next
    case None
    then have free: "\<not> inside (writer_at s j)" if "j < length (lk_writers s)" for j
      using pair_okD(1) [OF assms(2) that] by auto
    have "pair_ok ((set_writer i (Locked v) s)\<lparr>lk_lock := Some i\<rparr>)"
    proof (rule pair_okI, goal_cases)
      case (3 j u n)
      then have "j \<noteq> i" "j < length (lk_writers s)" "writer_at s j = Waiting u n" using Ask by (auto split: if_splits)
      then show ?case using pair_okD(3) [OF assms(2), of j u n] Ask by auto
    qed (use Ask free in \<open>auto split: if_splits\<close>)
    then show ?thesis using Ask None by (simp add: ask_lock_def)
  qed
next
  case (Resume i v n)
  have n: "n < length (lk_writers s)" "n \<noteq> i" using pair_okD(3) [OF assms(2), of i v n] Resume by simp_all
  have only: "j = i \<or> j = n" if "j < length (lk_writers s)" for j
    using that n Resume assms(3) by (auto simp: resume_lock_def)
  show ?thesis
    unfolding Resume(1) resume_lock_def
  proof (rule pair_okI, goal_cases)
    case (1 j)
    then show ?case using only [of j] Resume by (auto split: if_splits)
  next
    case (2 m)
    then show ?case using Resume by auto
  next
    case (3 j u m)
    then show ?case using only [of j] Resume by (auto split: if_splits)
  qed
next
  case (Replace i v)
  then have "pair_ok (set_writer i Written s)" using pair_moves [OF assms(2), of i Written] by simp
  then show ?thesis unfolding Replace(1) by (rule pair_content)
next
  case (Leave i v)
  then have i: "inside (writer_at s i)" by auto
  then have held: "lk_lock s = Some i" using pair_okD(1) [OF assms(2)] Leave by simp
  show ?thesis
    unfolding Leave(1) leave_lock_def
  proof (rule pair_okI, goal_cases)
    case (1 j)
    then show ?case using pair_okD(1) [OF assms(2), of j] held Leave by (auto split: if_splits)
  next
    case (3 j u m)
    then have "j \<noteq> i" "j < length (lk_writers s)" "writer_at s j = Waiting u m" using Leave by (auto split: if_splits)
    then show ?case using pair_okD(3) [OF assms(2), of j u m] Leave by auto
  qed simp
qed

lemma writers_grow: "lock_step s s' \<Longrightarrow> length (lk_writers s) \<le> length (lk_writers s')"
  by (cases rule: lock_step.cases) (auto simp: ask_lock_def resume_lock_def leave_lock_def split: option.splits)

lemma pair_run:
  assumes "lock_run (unlocked_file v0) s" "length (lk_writers s) \<le> 2"
  shows "pair_ok s"
  using assms
proof (induction rule: rtranclp_induct)
  case base
  then show ?case by (simp add: pair_ok_def unlocked_file_def)
next
  case (step s s')
  then show ?case using pair_step writers_grow [OF step(2)] by force
qed

lemma made_run: "lock_run (unlocked_file v0) s \<Longrightarrow> made_of_updates v0 s"
proof (induction rule: rtranclp_induct)
  case base
  then show ?case by (auto simp: made_of_updates_def composed_def unlocked_file_def publishers_def)
qed (rule made_step)

section \<open>Properties\<close>

text \<open>
  C16. Whatever the interleaving and whichever calls fail, a file that is updated under the lock
  holds what some of the updates make of its first content, one after the other and each at most
  once: contents are never mixed. With at most two calls the lock is held by one of them at a time.
\<close>

theorem file_updates_compose:
  assumes "lock_run (unlocked_file v0) s"
  shows "(\<exists>is. distinct is \<and> (\<forall>i \<in> set is. i < length (lk_writers s) \<and> writer_at s i \<in> {Written, Finished})
            \<and> lk_content s = foldl (\<lambda>v i. wr_update (lk_writers s ! i) v) v0 is)
     \<and> (length (lk_writers s) \<le> 2 \<longrightarrow>
          (\<forall>i < length (lk_writers s). \<forall>j < length (lk_writers s).
             inside (writer_at s i) \<longrightarrow> inside (writer_at s j) \<longrightarrow> i = j))"
proof -
  obtain js where js: "distinct js" "set js \<subseteq> publishers s"
      "lk_content s = foldl (\<lambda>v i. wr_update (lk_writers s ! i) v) v0 js"
    using made_run [OF assms] by (auto simp: made_of_updates_def composed_def)
  then have "\<exists>is. distinct is \<and> (\<forall>i \<in> set is. i < length (lk_writers s) \<and> writer_at s i \<in> {Written, Finished})
            \<and> lk_content s = foldl (\<lambda>v i. wr_update (lk_writers s ! i) v) v0 is"
    by (intro exI [of _ js]) (auto simp: publishers_def published_def)
  moreover have "i = j" if "length (lk_writers s) \<le> 2" "i < length (lk_writers s)" "j < length (lk_writers s)"
      "inside (writer_at s i)" "inside (writer_at s j)" for i j
    using pair_okD(1) [OF pair_run [OF assms that(1)] that(2,4)] pair_okD(1) [OF pair_run [OF assms that(1)] that(3,5)] by simp
  ultimately show ?thesis by blast
qed

section \<open>What the lock does not give\<close>

text \<open>States of a file that holds a list, with a writer for each update.\<close>

definition adding :: "nat \<Rightarrow> nat list writer_status \<Rightarrow> nat list writer" where
  "adding n st = \<lparr>wr_update = (#) n, wr_status = st\<rparr>"

definition list_file :: "nat list writer list \<Rightarrow> nat option \<Rightarrow> nat list \<Rightarrow> nat list locked_file" where
  "list_file ws l v = \<lparr>lk_writers = ws, lk_lock = l, lk_content = v\<rparr>"

lemmas list_file_simps = list_file_def adding_def writer_at_def set_writer_def arrive_def ask_lock_def resume_lock_def leave_lock_def

lemma two_arrive: "lock_run (unlocked_file []) (list_file [adding 0 Fresh, adding 1 Fresh] None [])"
proof -
  have "lock_step (unlocked_file []) (list_file [adding 0 Fresh] None [])"
    using Arrive [of "unlocked_file []" "(#) 0"] by (simp add: list_file_simps unlocked_file_def)
  moreover have "lock_step (list_file [adding 0 Fresh] None []) (list_file [adding 0 Fresh, adding 1 Fresh] None [])"
    using Arrive [of "list_file [adding 0 Fresh] None []" "(#) 1"] by (simp add: list_file_simps)
  ultimately show ?thesis by auto
qed

lemma two_computed: "lock_run (unlocked_file []) (list_file [adding 0 (Computed [0]), adding 1 (Computed [1])] None [])"
proof -
  have "lock_step (list_file [adding 0 Fresh, adding 1 Fresh] None []) (list_file [adding 0 (Computed [0]), adding 1 Fresh] None [])"
    using Read [of 0 "list_file [adding 0 Fresh, adding 1 Fresh] None []"] by (simp add: list_file_simps)
  moreover have "lock_step (list_file [adding 0 (Computed [0]), adding 1 Fresh] None [])
      (list_file [adding 0 (Computed [0]), adding 1 (Computed [1])] None [])"
    using Read [of 1 "list_file [adding 0 (Computed [0]), adding 1 Fresh] None []"] by (simp add: list_file_simps)
  ultimately show ?thesis using two_arrive by auto
qed

text \<open>Two updates read the same content: the one that is written first is lost.\<close>

lemma update_lost:
  "\<exists>s. lock_run (unlocked_file ([] :: nat list)) s \<and> length (lk_writers s) = 2 \<and> writer_at s 0 = Finished \<and> writer_at s 1 = Finished
     \<and> lk_content s = [1]"
proof -
  let ?s = "\<lambda>a b. list_file [adding 0 a, adding 1 b]"
  have "lock_step (?s (Computed [0]) (Computed [1]) None []) (?s (Locked [0]) (Computed [1]) (Some 0) [])"
    using Ask [of 0 "?s (Computed [0]) (Computed [1]) None []"] by (simp add: list_file_simps)
  moreover have "lock_step (?s (Locked [0]) (Computed [1]) (Some 0) []) (?s Written (Computed [1]) (Some 0) [0])"
    using Replace [of 0 "?s (Locked [0]) (Computed [1]) (Some 0) []"] by (simp add: list_file_simps)
  moreover have "lock_step (?s Written (Computed [1]) (Some 0) [0]) (?s Finished (Computed [1]) None [0])"
    using Leave [of 0 "?s Written (Computed [1]) (Some 0) [0]"] by (simp add: list_file_simps)
  moreover have "lock_step (?s Finished (Computed [1]) None [0]) (?s Finished (Locked [1]) (Some 1) [0])"
    using Ask [of 1 "?s Finished (Computed [1]) None [0]"] by (simp add: list_file_simps)
  moreover have "lock_step (?s Finished (Locked [1]) (Some 1) [0]) (?s Finished Written (Some 1) [1])"
    using Replace [of 1 "?s Finished (Locked [1]) (Some 1) [0]"] by (simp add: list_file_simps)
  moreover have "lock_step (?s Finished Written (Some 1) [1]) (?s Finished Finished None [1])"
    using Leave [of 1 "?s Finished Written (Some 1) [1]"] by (simp add: list_file_simps)
  ultimately have "lock_run (unlocked_file []) (?s Finished Finished None [1])"
    using two_computed by (meson rtranclp.rtrancl_into_rtrancl)
  then have run: "lock_run (unlocked_file []) (?s Finished Finished None [1])" .
  have "length (lk_writers (?s Finished Finished None [1])) = 2 \<and> writer_at (?s Finished Finished None [1]) 0 = Finished
      \<and> writer_at (?s Finished Finished None [1]) 1 = Finished \<and> lk_content (?s Finished Finished None [1]) = [1]"
    by (simp add: list_file_simps)
  with run show ?thesis by blast
qed

text \<open>Two calls that wait for the same holder both go in when it leaves.\<close>

lemma lock_overlap:
  "\<exists>s. lock_run (unlocked_file ([] :: nat list)) s \<and> inside (writer_at s 1) \<and> inside (writer_at s 2)"
proof -
  let ?s = "\<lambda>a b c. list_file [adding 0 a, adding 1 b, adding 2 c]"
  have "lock_step (list_file [adding 0 (Computed [0]), adding 1 (Computed [1])] None []) (?s (Computed [0]) (Computed [1]) Fresh None [])"
    using Arrive [of "list_file [adding 0 (Computed [0]), adding 1 (Computed [1])] None []" "(#) 2"] by (simp add: list_file_simps)
  moreover have "lock_step (?s (Computed [0]) (Computed [1]) Fresh None []) (?s (Computed [0]) (Computed [1]) (Computed [2]) None [])"
    using Read [of 2 "?s (Computed [0]) (Computed [1]) Fresh None []"] by (simp add: list_file_simps)
  moreover have "lock_step (?s (Computed [0]) (Computed [1]) (Computed [2]) None []) (?s (Locked [0]) (Computed [1]) (Computed [2]) (Some 0) [])"
    using Ask [of 0 "?s (Computed [0]) (Computed [1]) (Computed [2]) None []"] by (simp add: list_file_simps)
  moreover have "lock_step (?s (Locked [0]) (Computed [1]) (Computed [2]) (Some 0) []) (?s (Locked [0]) (Waiting [1] 0) (Computed [2]) (Some 0) [])"
    using Ask [of 1 "?s (Locked [0]) (Computed [1]) (Computed [2]) (Some 0) []"] by (simp add: list_file_simps)
  moreover have "lock_step (?s (Locked [0]) (Waiting [1] 0) (Computed [2]) (Some 0) []) (?s (Locked [0]) (Waiting [1] 0) (Waiting [2] 0) (Some 0) [])"
    using Ask [of 2 "?s (Locked [0]) (Waiting [1] 0) (Computed [2]) (Some 0) []"] by (simp add: list_file_simps)
  moreover have "lock_step (?s (Locked [0]) (Waiting [1] 0) (Waiting [2] 0) (Some 0) []) (?s Finished (Waiting [1] 0) (Waiting [2] 0) None [])"
    using Leave [of 0 "?s (Locked [0]) (Waiting [1] 0) (Waiting [2] 0) (Some 0) []"] by (simp add: list_file_simps)
  moreover have "lock_step (?s Finished (Waiting [1] 0) (Waiting [2] 0) None []) (?s Finished (Locked [1]) (Waiting [2] 0) (Some 1) [])"
    using Resume [of 1 "?s Finished (Waiting [1] 0) (Waiting [2] 0) None []"] by (simp add: list_file_simps)
  moreover have "lock_step (?s Finished (Locked [1]) (Waiting [2] 0) (Some 1) []) (?s Finished (Locked [1]) (Locked [2]) (Some 2) [])"
    using Resume [of 2 "?s Finished (Locked [1]) (Waiting [2] 0) (Some 1) []"] by (simp add: list_file_simps)
  ultimately have "lock_run (unlocked_file []) (?s Finished (Locked [1]) (Locked [2]) (Some 2) [])"
    using two_computed by (meson rtranclp.rtrancl_into_rtrancl)
  then have run: "lock_run (unlocked_file []) (?s Finished (Locked [1]) (Locked [2]) (Some 2) [])" .
  have "inside (writer_at (?s Finished (Locked [1]) (Locked [2]) (Some 2) []) 1)
      \<and> inside (writer_at (?s Finished (Locked [1]) (Locked [2]) (Some 2) []) 2)"
    by (simp add: list_file_simps)
  with run show ?thesis by blast
qed

theorem file_updates_compose_witness:
  "\<exists>is. distinct is \<and> lk_content (list_file [adding 0 (Computed [0]), adding 1 (Computed [1])] None [])
     = foldl (\<lambda>v i. wr_update ([adding 0 (Computed [0]), adding 1 (Computed [1])] ! i) v) [] is"
  using file_updates_compose [OF two_computed] by (auto simp: list_file_def)

end
