(* ===== verification/Credential_Deletion.thy ===== *)
theory Credential_Deletion
  imports Json_Parse Security Preserved
begin

text \<open>
  \<open>deleteCredentialExpected\<close> of \<open>src/storage/file.ts\<close> on a tree of directories, links and files: the
  walk over the ancestors, the opened file and its checks, the removal and the acknowledgements.
  Every call may fail. No one else changes the tree meanwhile, as the method demands.
\<close>

section \<open>The tree\<close>

record file_node =
  fl_content :: string
  fl_links :: nat
  fl_size :: nat
  fl_identity :: nat

datatype tree_node = Directory | Symbolic_link | Plain_file file_node

type_synonym tree_nodes = "(string list \<times> tree_node) list"

record tree =
  tr_nodes :: tree_nodes
  tr_asked :: nat

type_synonym 'a tree_op = "(error, tree, 'a) fallible"

text \<open>A call that works, or fails with an error that does not say the file is missing.\<close>

definition tree_call :: "(nat \<Rightarrow> bool) \<Rightarrow> unit tree_op" where
  "tree_call env t = (if env (tr_asked t) then Inr () else Inl (Error ''EIO''), t\<lparr>tr_asked := Suc (tr_asked t)\<rparr>)"

definition tree_finally :: "'a tree_op \<Rightarrow> unit tree_op \<Rightarrow> 'a tree_op" where
  "tree_finally m f t = (let (r, t') = m t; (r', t'') = f t' in (case r' of Inl e \<Rightarrow> Inl e | Inr _ \<Rightarrow> r, t''))"

definition ENOENT :: error where "ENOENT = Error ''ENOENT''"

definition node_at :: "(nat \<Rightarrow> bool) \<Rightarrow> string list \<Rightarrow> tree_node tree_op" where
  "node_at env path =
     bind_op (tree_call env) (\<lambda>_ t. (case map_of (tr_nodes t) path of None \<Rightarrow> Inl ENOENT | Some n \<Rightarrow> Inr n, t))"

text \<open>\<open>lstat\<close>, where a missing node is an answer.\<close>

definition node_or_missing :: "'a tree_op \<Rightarrow> 'a option tree_op" where
  "node_or_missing m = catch_op (bind_op m (\<lambda>n. return_op (Some n))) (\<lambda>e. if e = ENOENT then return_op None else throw_op e)"

definition tree_require :: "bool \<Rightarrow> unit tree_op" where
  "tree_require b = (if b then return_op () else throw_op (Error ''refused''))"

section \<open>The method\<close>

text \<open>Opening an ancestor, its sync and its close.\<close>

definition sync_ancestor :: "(nat \<Rightarrow> bool) \<Rightarrow> unit tree_op" where
  "sync_ancestor env = bind_op (tree_call env) (\<lambda>_. tree_finally (tree_call env) (tree_call env))"

text \<open>The walk; \<open>False\<close> when a directory on the way is missing.\<close>

fun walk_ancestors :: "(nat \<Rightarrow> bool) \<Rightarrow> string list \<Rightarrow> string list \<Rightarrow> bool tree_op" where
  "walk_ancestors env ancestor [] = return_op True"
| "walk_ancestors env ancestor (part # parts) =
     bind_op (node_or_missing (node_at env (ancestor @ [part]))) (\<lambda>state.
       case state of
         None \<Rightarrow> bind_op (sync_ancestor env) (\<lambda>_. return_op False)
       | Some n \<Rightarrow> bind_op (tree_require (n = Directory)) (\<lambda>_. walk_ancestors env (ancestor @ [part]) parts))"

text \<open>\<open>O_NOFOLLOW\<close>: a link is not opened.\<close>

definition open_nofollow :: "(nat \<Rightarrow> bool) \<Rightarrow> string list \<Rightarrow> tree_node tree_op" where
  "open_nofollow env path =
     bind_op (node_at env path) (\<lambda>n. if n = Symbolic_link then throw_op (Error ''ELOOP'') else return_op n)"

definition MAX_CREDENTIAL :: nat where "MAX_CREDENTIAL = 256 * 1024"

definition expected_file :: "string option \<Rightarrow> (json \<Rightarrow> string result) \<Rightarrow> tree_node \<Rightarrow> bool" where
  "expected_file expected digest n \<longleftrightarrow>
     (case n of
        Plain_file f \<Rightarrow>
          fl_links f = 1 \<and> 0 < fl_size f \<and> fl_size f \<le> MAX_CREDENTIAL \<and> length (utf8 (fl_content f)) \<le> MAX_CREDENTIAL
          \<and> (case (expected, json_parse (fl_content f)) of (Some e, Some v) \<Rightarrow> digest v = Inr e | _ \<Rightarrow> False)
      | _ \<Rightarrow> False)"

text \<open>Stat, read, the checks, a second look at the name, and the removal.\<close>

definition unlink_expected ::
  "(nat \<Rightarrow> bool) \<Rightarrow> string list \<Rightarrow> string option \<Rightarrow> (json \<Rightarrow> string result) \<Rightarrow> tree_node \<Rightarrow> unit tree_op" where
  "unlink_expected env path expected digest n =
     bind_op (tree_call env) (\<lambda>_.
     bind_op (tree_call env) (\<lambda>_.
     bind_op (tree_require (expected_file expected digest n)) (\<lambda>_.
     bind_op (node_at env path) (\<lambda>current.
     bind_op (tree_require (current = n)) (\<lambda>_.
     bind_op (tree_call env) (\<lambda>_ t. (Inr (), t\<lparr>tr_nodes := AList.delete path (tr_nodes t)\<rparr>)))))))"

definition delete_opened ::
  "(nat \<Rightarrow> bool) \<Rightarrow> string list \<Rightarrow> string option \<Rightarrow> (json \<Rightarrow> string result) \<Rightarrow> unit tree_op" where
  "delete_opened env path expected digest =
     bind_op (node_or_missing (open_nofollow env path)) (\<lambda>opened.
       case opened of
         None \<Rightarrow> tree_call env
       | Some n \<Rightarrow>
           bind_op (tree_finally (unlink_expected env path expected digest n) (tree_call env)) (\<lambda>_.
           bind_op (tree_call env) (\<lambda>_.
           bind_op (node_or_missing (node_at env path)) (\<lambda>left.
             tree_require (left = None)))))"

definition deleteCredentialFile ::
  "(nat \<Rightarrow> bool) \<Rightarrow> string list \<Rightarrow> string \<Rightarrow> string option \<Rightarrow> (json \<Rightarrow> string result) \<Rightarrow> unit tree_op" where
  "deleteCredentialFile env parent name expected digest =
     catch_op
       (bind_op (walk_ancestors env [] parent) (\<lambda>present.
          if \<not> present then return_op ()
          else bind_op (tree_call env) (\<lambda>_.
            tree_finally (delete_opened env (parent @ [name]) expected digest) (tree_call env))))
       (\<lambda>_. throw_op (Error ''Durable credential retirement unavailable''))"

section \<open>What it removes\<close>

text \<open>The tree as it was, or without the one file that was expected.\<close>

definition removed_at_most ::
  "tree_nodes \<Rightarrow> string list \<Rightarrow> string option \<Rightarrow> (json \<Rightarrow> string result) \<Rightarrow> tree_nodes \<Rightarrow> bool" where
  "removed_at_most N path expected digest M \<longleftrightarrow>
     M = N \<or> (\<exists>n. map_of N path = Some n \<and> expected_file expected digest n \<and> M = AList.delete path N)"

lemma still_tree_call [preserves_intros]: "preserves tr_nodes (tree_call env)"
  by (simp add: preserves_def tree_call_def)

lemma still_finally [preserves_intros]:
  "preserves tr_nodes m \<Longrightarrow> preserves tr_nodes f \<Longrightarrow> preserves tr_nodes (tree_finally m f)"
  by (auto simp: preserves_def tree_finally_def Let_def split: prod.splits) (metis snd_conv)

lemma still_node_at [preserves_intros]: "preserves tr_nodes (node_at env path)"
proof -
  have "preserves tr_nodes (\<lambda>t. (case map_of (tr_nodes t) path of None \<Rightarrow> Inl ENOENT | Some n \<Rightarrow> Inr n, t))"
    by (simp add: preserves_def)
  then show ?thesis unfolding node_at_def by (intro preserves_intros)
qed

lemma still_tree_parts [preserves_intros]:
  "preserves tr_nodes (tree_require b)" "preserves tr_nodes (sync_ancestor env)" "preserves tr_nodes (open_nofollow env path)"
  "preserves tr_nodes m \<Longrightarrow> preserves tr_nodes (node_or_missing m)"
  unfolding tree_require_def sync_ancestor_def open_nofollow_def node_or_missing_def by (intro preserves_intros; assumption?)+

lemma still_walk [preserves_intros]: "preserves tr_nodes (walk_ancestors env ancestor parts)"
  by (induction parts arbitrary: ancestor) (auto intro!: preserves_intros)

lemma node_at_Inr: "node_at env path t = (Inr n, t') \<Longrightarrow> map_of (tr_nodes t) path = Some n"
  by (auto simp: node_at_def bind_op_eq_Inr tree_call_def split: option.splits)

lemma node_or_missing_Inr:
  "node_or_missing m t = (Inr v, t') \<Longrightarrow> (case v of None \<Rightarrow> m t = (Inl ENOENT, t') | Some n \<Rightarrow> m t = (Inr n, t'))"
  by (auto simp: node_or_missing_def catch_op_def bind_op_def throw_op_def return_op_def split: sum.splits prod.splits if_splits)

lemma tree_require_Inr: "tree_require b t = (Inr x, t') \<Longrightarrow> b"
  by (auto simp: tree_require_def split: if_splits)

lemma finally_result:
  assumes "tree_finally m f t = (r, t')" "preserves tr_nodes f"
  obtains r1 t1 where "m t = (r1, t1)" "tr_nodes t' = tr_nodes t1" "\<forall>x. r = Inr x \<longrightarrow> r1 = Inr x"
proof -
  obtain r1 t1 where m: "m t = (r1, t1)" by fastforce
  obtain r2 t2 where f: "f t1 = (r2, t2)" by fastforce
  have run: "r = (case r2 of Inl e \<Rightarrow> Inl e | Inr _ \<Rightarrow> r1)" "t' = t2"
    using assms(1) by (simp_all add: tree_finally_def m f)
  have "r1 = Inr x" if "r = Inr x" for x using run(1) that by (cases r2) auto
  then show thesis using that [OF m] preservesD [OF assms(2) f] run(2) by simp
qed

lemma triple_finally:
  assumes "triple P m (\<lambda>a t. Q a (tr_nodes t)) (\<lambda>t. E (tr_nodes t))" "preserves tr_nodes f" "\<And>a M. Q a M \<Longrightarrow> E M"
  shows "triple P (tree_finally m f) (\<lambda>a t. Q a (tr_nodes t)) (\<lambda>t. E (tr_nodes t))"
proof (rule tripleI, goal_cases)
  case (1 t e t')
  obtain r1 t1 where m: "m t = (r1, t1)" "tr_nodes t' = tr_nodes t1" using finally_result [OF 1(2) assms(2)] by blast
  then show ?case using triple_Inl [OF assms(1) 1(1)] triple_Inr [OF assms(1) 1(1)] assms(3) by (cases r1) auto
next
  case (2 t a t')
  obtain r1 t1 where m: "m t = (r1, t1)" "tr_nodes t' = tr_nodes t1" "r1 = Inr a"
    using finally_result [OF 2(2) assms(2)] by metis
  then show ?case using triple_Inr [OF assms(1) 2(1)] m(1,2) by simp
qed

lemma triple_unlink:
  assumes "map_of N path = Some n"
  shows "triple (\<lambda>t. tr_nodes t = N) (unlink_expected env path expected digest n)
    (\<lambda>_ t. expected_file expected digest n \<and> tr_nodes t = AList.delete path N) (\<lambda>t. tr_nodes t = N)"
    (is "triple ?P _ ?Q ?P")
proof -
  have unlink: "triple ?P (\<lambda>t. (Inr (), t\<lparr>tr_nodes := AList.delete path (tr_nodes t)\<rparr>)) ?Q ?P"
    if "expected_file expected digest n"
    using that by (simp add: triple_def)
  have checked: "triple ?P (bind_op (node_at env path) (\<lambda>current.
      bind_op (tree_require (current = n)) (\<lambda>_. bind_op (tree_call env)
        (\<lambda>_ t. (Inr (), t\<lparr>tr_nodes := AList.delete path (tr_nodes t)\<rparr>))))) ?Q ?P"
    if "expected_file expected digest n"
    by (intro triple_preserved_then unlink [OF that] preserves_intros) simp_all
  have "triple ?P (bind_op (tree_require (expected_file expected digest n)) (\<lambda>_. bind_op (node_at env path) (\<lambda>current.
      bind_op (tree_require (current = n)) (\<lambda>_. bind_op (tree_call env)
        (\<lambda>_ t. (Inr (), t\<lparr>tr_nodes := AList.delete path (tr_nodes t)\<rparr>)))))) ?Q ?P"
  proof (rule triple_preserved_bind [where F = "\<lambda>_. expected_file expected digest n"])
    assume "expected_file expected digest n"
    from checked [OF this] show "triple ?P (bind_op (node_at env path) (\<lambda>current.
      bind_op (tree_require (current = n)) (\<lambda>_. bind_op (tree_call env)
        (\<lambda>_ t. (Inr (), t\<lparr>tr_nodes := AList.delete path (tr_nodes t)\<rparr>))))) ?Q ?P" .
  qed (auto intro: preserves_intros dest: tree_require_Inr)
  then show ?thesis
    unfolding unlink_expected_def
    by (intro triple_preserved_then [OF still_tree_call]) simp_all
qed

lemma triple_delete_opened:
  "triple (\<lambda>t. tr_nodes t = N) (delete_opened env path expected digest)
     (\<lambda>_ t. removed_at_most N path expected digest (tr_nodes t) \<and> map_of (tr_nodes t) path = None)
     (\<lambda>t. removed_at_most N path expected digest (tr_nodes t))"
    (is "triple ?P _ ?Q ?E")
proof -
  let ?F = "\<lambda>v. case v of None \<Rightarrow> map_of N path = None | Some n \<Rightarrow> map_of N path = Some n"
  have opened: "?F v" if "tr_nodes t = N" "node_or_missing (open_nofollow env path) t = (Inr v, t')" for t v t'
  proof (cases v)
    case None
    then have "open_nofollow env path t = (Inl ENOENT, t')" using node_or_missing_Inr [OF that(2)] by simp
    then show ?thesis using that(1) None
      by (auto simp: open_nofollow_def node_at_def bind_op_def tree_call_def ENOENT_def throw_op_def return_op_def
          split: sum.splits option.splits if_splits)
  next
    case (Some n)
    then have "open_nofollow env path t = (Inr n, t')" using node_or_missing_Inr [OF that(2)] by simp
    then show ?thesis using that(1) Some node_at_Inr [of env path t]
      by (auto simp: open_nofollow_def bind_op_eq_Inr throw_op_def split: if_splits)
  qed
  have "triple ?P (case v of None \<Rightarrow> tree_call env
      | Some n \<Rightarrow> bind_op (tree_finally (unlink_expected env path expected digest n) (tree_call env)) (\<lambda>_.
          bind_op (tree_call env) (\<lambda>_. bind_op (node_or_missing (node_at env path)) (\<lambda>left. tree_require (left = None))))) ?Q ?E"
    if "?F v" for v
  proof (cases v)
    case None
    then show ?thesis
      using that triple_weaken [OF triple_preserved [OF still_tree_call]] by (auto simp: removed_at_most_def)
  next
    case (Some n)
    have found: "map_of N path = Some n" using that Some by simp
    have cleared: "triple ?P (tree_finally (unlink_expected env path expected digest n) (tree_call env))
        (\<lambda>_ t. expected_file expected digest n \<and> tr_nodes t = AList.delete path N)
        (\<lambda>t. tr_nodes t = N \<or> expected_file expected digest n \<and> tr_nodes t = AList.delete path N)"
      by (rule triple_finally [where Q = "\<lambda>_ M. expected_file expected digest n \<and> M = AList.delete path N"
            and E = "\<lambda>M. M = N \<or> expected_file expected digest n \<and> M = AList.delete path N"])
        (auto intro: triple_weaken [OF triple_unlink [OF found]] preserves_intros)
    have rest: "triple (\<lambda>t. expected_file expected digest n \<and> tr_nodes t = AList.delete path N)
        (bind_op (tree_call env) (\<lambda>_. bind_op (node_or_missing (node_at env path)) (\<lambda>left. tree_require (left = None)))) ?Q ?E"
    proof (rule triple_assume [where b = "expected_file expected digest n"])
      assume expected: "expected_file expected digest n"
      show "triple (\<lambda>t. expected_file expected digest n \<and> tr_nodes t = AList.delete path N)
        (bind_op (tree_call env) (\<lambda>_. bind_op (node_or_missing (node_at env path)) (\<lambda>left. tree_require (left = None)))) ?Q ?E"
        by (rule triple_weaken [OF triple_preserved [where view = tr_nodes and x = "AList.delete path N"]])
          (use expected in \<open>auto intro!: preserves_intros simp: removed_at_most_def found delete_conv\<close>)
    qed simp
    show ?thesis
      unfolding Some option.case
      by (rule triple_bind [OF triple_weaken [OF cleared] rest]) (auto simp: removed_at_most_def found)
  qed
  then show ?thesis
    unfolding delete_opened_def
    by (intro triple_preserved_bind [where F = ?F] preserves_intros opened) (auto simp: removed_at_most_def)
qed

text \<open>The walk finds a missing directory, or directories only.\<close>

lemma node_at_missing: "node_at env path t = (Inl ENOENT, t') \<Longrightarrow> map_of (tr_nodes t) path = None"
  by (auto simp: node_at_def bind_op_def tree_call_def ENOENT_def split: sum.splits option.splits if_splits)

lemma walk_Inr:
  "walk_ancestors env ancestor parts t = (Inr b, t') \<Longrightarrow>
     if b then (\<forall>k < length parts. map_of (tr_nodes t) (ancestor @ take (Suc k) parts) = Some Directory)
     else (\<exists>k < length parts. (\<forall>j < k. map_of (tr_nodes t) (ancestor @ take (Suc j) parts) = Some Directory)
             \<and> map_of (tr_nodes t) (ancestor @ take (Suc k) parts) = None)"
proof (induction parts arbitrary: ancestor t)
  case (Cons part parts)
  obtain v t1 where v: "node_or_missing (node_at env (ancestor @ [part])) t = (Inr v, t1)"
    and rest: "(case v of None \<Rightarrow> bind_op (sync_ancestor env) (\<lambda>_. return_op False)
       | Some n \<Rightarrow> bind_op (tree_require (n = Directory)) (\<lambda>_. walk_ancestors env (ancestor @ [part]) parts)) t1 = (Inr b, t')"
    using Cons.prems by (auto simp: bind_op_eq_Inr)
  have same: "tr_nodes t1 = tr_nodes t"
    by (rule preservesD [where view = tr_nodes and m = "node_or_missing (node_at env (ancestor @ [part]))" and w = t, OF _ v])
      (intro preserves_intros)
  show ?case
  proof (cases v)
    case None
    then have "map_of (tr_nodes t) (ancestor @ [part]) = None" "\<not> b"
      using node_or_missing_Inr [OF v] node_at_missing rest by (auto simp: bind_op_eq_Inr)
    then show ?thesis by (auto intro!: exI [of _ 0])
  next
    case (Some n)
    then have dir: "map_of (tr_nodes t) (ancestor @ [part]) = Some Directory"
        and walk: "walk_ancestors env (ancestor @ [part]) parts t1 = (Inr b, t')"
      using node_or_missing_Inr [OF v] node_at_Inr rest by (auto simp: bind_op_eq_Inr tree_require_def split: if_splits)
    have "if b then (\<forall>k < length parts. map_of (tr_nodes t) (ancestor @ part # take (Suc k) parts) = Some Directory)
       else (\<exists>k < length parts. (\<forall>j < k. map_of (tr_nodes t) (ancestor @ part # take (Suc j) parts) = Some Directory)
               \<and> map_of (tr_nodes t) (ancestor @ part # take (Suc k) parts) = None)"
      using Cons.IH [OF walk] same by (cases b) auto
    then show ?thesis
    proof (cases b)
      case False
      with \<open>if b then _ else _\<close> obtain k where "k < length parts"
          "\<forall>j < k. map_of (tr_nodes t) (ancestor @ part # take (Suc j) parts) = Some Directory"
          "map_of (tr_nodes t) (ancestor @ part # take (Suc k) parts) = None" by auto
      then have "Suc k < length (part # parts)
          \<and> (\<forall>j < Suc k. map_of (tr_nodes t) (ancestor @ take (Suc j) (part # parts)) = Some Directory)
          \<and> map_of (tr_nodes t) (ancestor @ take (Suc (Suc k)) (part # parts)) = None"
        using dir by (auto simp: less_Suc_eq_0_disj)
      then show ?thesis using False by (simp only: if_False) blast
    qed (use dir in \<open>auto simp: less_Suc_eq_0_disj\<close>)
  qed
qed simp

text \<open>When every call works the method returns exactly when the file is missing or the expected one.\<close>

lemma works_call: "(\<And>n. env n) \<Longrightarrow> tree_call env t = (Inr (), t\<lparr>tr_asked := Suc (tr_asked t)\<rparr>)"
  by (simp add: tree_call_def)

lemma works_walk:
  assumes "\<And>n. env n" "\<And>k. k < length parts \<Longrightarrow> map_of (tr_nodes t) (ancestor @ take (Suc k) parts) = Some Directory"
  shows "\<exists>n. walk_ancestors env ancestor parts t = (Inr True, t\<lparr>tr_asked := n\<rparr>)"
  using assms(2)
proof (induction parts arbitrary: ancestor t)
  case Nil
  then show ?case by (auto intro: exI [of _ "tr_asked t"])
next
  case (Cons part parts)
  have "map_of (tr_nodes t) (ancestor @ [part]) = Some Directory" using Cons.prems [of 0] by simp
  moreover have "\<exists>n. walk_ancestors env (ancestor @ [part]) parts (t\<lparr>tr_asked := Suc (tr_asked t)\<rparr>)
      = (Inr True, t\<lparr>tr_asked := Suc (tr_asked t)\<rparr>\<lparr>tr_asked := n\<rparr>)"
    by (rule Cons.IH) (use Cons.prems [of "Suc _"] in simp)
  ultimately show ?case
    by (simp add: node_or_missing_def node_at_def works_call [of env, OF assms(1)] bind_op_def catch_op_def tree_require_def)
qed

lemma credential_deletion_works:
  assumes "\<And>n. env n" "\<And>k. k < length parent \<Longrightarrow> map_of (tr_nodes t) (take (Suc k) parent) = Some Directory"
  shows "fst (deleteCredentialFile env parent name expected digest t) = Inr () \<longleftrightarrow>
    (case map_of (tr_nodes t) (parent @ [name]) of None \<Rightarrow> True | Some n \<Rightarrow> expected_file expected digest n)"
proof -
  obtain n where walk: "walk_ancestors env [] parent t = (Inr True, t\<lparr>tr_asked := n\<rparr>)"
    using works_walk [of env parent t "[]"] assms by auto
  note call = works_call [of env, OF assms(1)]
  show ?thesis
  proof (cases "map_of (tr_nodes t) (parent @ [name])")
    case None
    then show ?thesis
      by (simp add: deleteCredentialFile_def walk call tree_finally_def delete_opened_def node_or_missing_def open_nofollow_def
          node_at_def bind_op_def catch_op_def throw_op_def)
  next
    case (Some m)
    then show ?thesis
      by (cases "expected_file expected digest m")
        (auto simp: deleteCredentialFile_def walk call tree_finally_def delete_opened_def node_or_missing_def open_nofollow_def
          node_at_def bind_op_def catch_op_def throw_op_def unlink_expected_def tree_require_def delete_conv ENOENT_def
          expected_file_def)
  qed
qed

text \<open>
  C14. Deleting a credential file removes at most that file, and it only when it was a single plain
  file of at most 256 KiB whose content has the expected digest, whatever calls fail. When the
  method returns, either every component on the way to the file is a directory and the file is gone,
  or one component is missing, every one before it is a directory, and nothing has changed: links
  are never followed, not even to find a file missing. Each failure is the one error.
\<close>

theorem credential_deletion_safe:
  "let path = parent @ [name]; N = tr_nodes t; (r, t') = deleteCredentialFile env parent name expected digest t in
     removed_at_most N path expected digest (tr_nodes t')
     \<and> (case r of
          Inl e \<Rightarrow> e = Error ''Durable credential retirement unavailable''
        | Inr _ \<Rightarrow>
            (\<exists>k < length parent. (\<forall>j < k. map_of N (take (Suc j) parent) = Some Directory)
                \<and> map_of N (take (Suc k) parent) = None \<and> tr_nodes t' = N)
            \<or> ((\<forall>k < length parent. map_of N (take (Suc k) parent) = Some Directory) \<and> map_of (tr_nodes t') path = None))"
proof -
  let ?path = "parent @ [name]" and ?N = "tr_nodes t"
  let ?Q = "\<lambda>_ s. removed_at_most ?N ?path expected digest (tr_nodes s) \<and>
      ((\<exists>k < length parent. (\<forall>j < k. map_of ?N (take (Suc j) parent) = Some Directory)
          \<and> map_of ?N (take (Suc k) parent) = None \<and> tr_nodes s = ?N)
       \<or> ((\<forall>k < length parent. map_of ?N (take (Suc k) parent) = Some Directory) \<and> map_of (tr_nodes s) ?path = None))"
  let ?E = "\<lambda>s. removed_at_most ?N ?path expected digest (tr_nodes s)"
  let ?F = "\<lambda>b. if b then (\<forall>k < length parent. map_of ?N (take (Suc k) parent) = Some Directory)
     else (\<exists>k < length parent. (\<forall>j < k. map_of ?N (take (Suc j) parent) = Some Directory)
             \<and> map_of ?N (take (Suc k) parent) = None)"
  have deletes: "triple (\<lambda>s. tr_nodes s = ?N) (bind_op (tree_call env) (\<lambda>_.
      tree_finally (delete_opened env ?path expected digest) (tree_call env))) ?Q ?E" if "?F True"
  proof (rule triple_preserved_then [OF still_tree_call])
    show "triple (\<lambda>s. tr_nodes s = ?N) (tree_finally (delete_opened env ?path expected digest) (tree_call env)) ?Q ?E"
      by (rule triple_weaken [OF triple_finally [where Q = "\<lambda>_ M. removed_at_most ?N ?path expected digest M \<and> map_of M ?path = None"
            and E = "removed_at_most ?N ?path expected digest", OF triple_delete_opened still_tree_call]])
        (use that in auto)
  qed (simp add: removed_at_most_def)
  have walked: "triple (\<lambda>s. tr_nodes s = ?N) (bind_op (walk_ancestors env [] parent) (\<lambda>present.
      if \<not> present then return_op () else bind_op (tree_call env) (\<lambda>_.
        tree_finally (delete_opened env ?path expected digest) (tree_call env)))) ?Q ?E"
  proof (rule triple_preserved_bind [where F = ?F])
    show "?F b" if "tr_nodes s = ?N" "walk_ancestors env [] parent s = (Inr b, s')" for s b s'
      using walk_Inr [OF that(2)] that(1) by (cases b) auto
    show "triple (\<lambda>s. tr_nodes s = ?N) (if \<not> b then return_op () else bind_op (tree_call env) (\<lambda>_.
        tree_finally (delete_opened env ?path expected digest) (tree_call env))) ?Q ?E" if "?F b" for b
      using that deletes by (cases b) (auto intro!: triple_return simp: removed_at_most_def)
  qed (auto intro: preserves_intros simp: removed_at_most_def)
  obtain r s where run: "deleteCredentialFile env parent name expected digest t = (r, s)" by fastforce
  obtain r1 s1 where inner: "bind_op (walk_ancestors env [] parent) (\<lambda>present.
      if \<not> present then return_op () else bind_op (tree_call env) (\<lambda>_.
        tree_finally (delete_opened env ?path expected digest) (tree_call env))) t = (r1, s1)" by fastforce
  show ?thesis
  proof (cases r1)
    case (Inl e)
    then have "r = Inl (Error ''Durable credential retirement unavailable'')" "s = s1"
      using run inner by (simp_all add: deleteCredentialFile_def throw_op_def)
    then show ?thesis using triple_Inl [OF walked refl] inner Inl run by (simp add: Let_def)
  next
    case (Inr x)
    then have "r = Inr x" "s = s1" using run inner by (simp_all add: deleteCredentialFile_def)
    then show ?thesis using triple_Inr [OF walked refl] inner Inr run by (simp add: Let_def)
  qed
qed

text \<open>A tree with one credential, and every call but the sixth working.\<close>

definition one_credential :: tree where
  "one_credential =
     \<lparr>tr_nodes = [([''totp''], Directory),
        ([''totp'', ''ada.json''], Plain_file \<lparr>fl_content = ''null'', fl_links = 1, fl_size = 4, fl_identity = 7\<rparr>)],
      tr_asked = 0\<rparr>"

theorem credential_deletion_safe_witness:
  "removed_at_most (tr_nodes one_credential) [''totp'', ''ada.json''] (Some ''x'') (\<lambda>v. Inr ''x'')
     (tr_nodes (snd (deleteCredentialFile (\<lambda>n. n \<noteq> 5) [''totp''] ''ada.json'' (Some ''x'') (\<lambda>v. Inr ''x'') one_credential)))"
  using credential_deletion_safe [where env = "\<lambda>n. n \<noteq> 5" and parent = "[''totp'']" and name = "''ada.json''"
      and expected = "Some ''x''" and digest = "\<lambda>v. Inr ''x''" and t = one_credential]
  by (simp add: Let_def case_prod_beta del: length_Cons)

end
