(* ===== verification/Credential_Files.thy ===== *)
theory Credential_Files
  imports Atomic_Files Totp_Material
begin

text \<open>
  The credential files of the file adapter, \<open>getTOTPSecret\<close>, \<open>saveTOTPSecret\<close>, \<open>getBackupCodes\<close>
  and \<open>saveBackupCodes\<close> of \<open>src/storage/file.ts\<close>, on the disk: what is read is a text that may be
  missing, unreadable, not JSON or of another shape, and only a missing file is absence. The
  operations of \<open>File_Storage\<close> on typed credentials are their abstraction. \<open>JSON.parse\<close> and its
  bounds are those of \<open>Json_Parse\<close>; \<open>Date.parse\<close> is a parameter. A handle or an account id is one
  component of a path.
\<close>

section \<open>The checks of a stored value\<close>

text \<open>A property of an object that is not there is \<open>undefined\<close>, here \<open>None\<close>.\<close>

fun json_is_text :: "json option \<Rightarrow> bool" where
  "json_is_text (Some (JStr s)) = isText s"
| "json_is_text _ = False"

fun json_is_timestamp :: "(string \<Rightarrow> int option) \<Rightarrow> json option \<Rightarrow> bool" where
  "json_is_timestamp parse (Some (JStr s)) = (isText s \<and> parse s \<noteq> None)"
| "json_is_timestamp parse _ = False"

fun json_is_count :: "int \<Rightarrow> json option \<Rightarrow> bool" where
  "json_is_count least (Some (JNum n)) = (isSafeInteger n \<and> n \<ge> least)"
| "json_is_count least _ = False"

fun json_is_bool :: "json option \<Rightarrow> bool" where
  "json_is_bool (Some (JBool b)) = True"
| "json_is_bool _ = False"

definition stored_factor_value :: "(string \<Rightarrow> int option) \<Rightarrow> json \<Rightarrow> string \<Rightarrow> bool" where
  "stored_factor_value parse v handle =
     (case v of
        JObj kvs \<Rightarrow>
          let at = map_of kvs in
          at ''handle'' = Some (JStr handle) \<and> json_is_text (at ''userId'')
          \<and> list_all (\<lambda>key. json_is_text (at key)) [''encryptedSecret'', ''iv'', ''authTag'', ''salt'']
          \<and> json_is_timestamp parse (at ''createdAt'')
          \<and> (at ''lastUsedAt'' = None \<or> json_is_timestamp parse (at ''lastUsedAt''))
          \<and> (at ''lastUsedTotpStep'' = None \<or> json_is_count 0 (at ''lastUsedTotpStep''))
          \<and> json_is_bool (at ''backupCodesGenerated'')
          \<and> json_is_count 1 (at ''version'')
      | _ \<Rightarrow> False)"

fun stored_code_values :: "(string \<Rightarrow> int option) \<Rightarrow> string set \<Rightarrow> string set \<Rightarrow> json list \<Rightarrow> bool" where
  "stored_code_values parse ids hashes [] = True"
| "stored_code_values parse ids hashes (JObj kvs # cs) =
     (case (map_of kvs ''id'', map_of kvs ''hash'') of
        (Some (JStr i), Some (JStr h)) \<Rightarrow>
          if \<not> isText i \<or> \<not> is_sha256_hex h \<or> \<not> json_is_bool (map_of kvs ''used'')
             \<or> (map_of kvs ''usedAt'' \<noteq> None \<and> \<not> json_is_timestamp parse (map_of kvs ''usedAt''))
             \<or> i \<in> ids \<or> h \<in> hashes
          then False
          else stored_code_values parse (insert i ids) (insert h hashes) cs
      | _ \<Rightarrow> False)"
| "stored_code_values parse ids hashes (_ # cs) = False"

definition stored_codes_value :: "(string \<Rightarrow> int option) \<Rightarrow> json \<Rightarrow> string \<Rightarrow> bool" where
  "stored_codes_value parse v userId =
     (case v of
        JObj kvs \<Rightarrow>
          map_of kvs ''userId'' = Some (JStr userId)
          \<and> json_is_timestamp parse (map_of kvs ''generatedAt'')
          \<and> (map_of kvs ''lastUsedAt'' = None \<or> json_is_timestamp parse (map_of kvs ''lastUsedAt''))
          \<and> (case map_of kvs ''codes'' of Some (JArr cs) \<Rightarrow> stored_code_values parse {} {} cs | _ \<Rightarrow> False)
      | _ \<Rightarrow> False)"

section \<open>The operations\<close>

text \<open>\<open>dir\<close> is the directory of the credentials, \<open>basePath\<close> joined with \<open>totpDir\<close>.\<close>

definition getTotpPath :: "string \<Rightarrow> string \<Rightarrow> string" where
  "getTotpPath dir handle = dir @ ''/'' @ handle @ ''.json''"

definition getBackupCodesPath :: "string \<Rightarrow> string \<Rightarrow> string" where
  "getBackupCodesPath dir userId = dir @ ''/backup-codes/'' @ userId @ ''.json''"

definition getTOTPSecret ::
  "disk_env \<Rightarrow> (string \<Rightarrow> int option) \<Rightarrow> string \<Rightarrow> string \<Rightarrow> (disk, json option) op" where
  "getTOTPSecret env parse dir handle =
     bind_op (readJsonFile env (getTotpPath dir handle) None) (\<lambda>secret.
       case secret of
         None \<Rightarrow> return_op None
       | Some v \<Rightarrow>
           if \<not> stored_factor_value parse v handle then throw_op (Error ''Invalid stored TOTP credential'')
           else return_op (Some v))"

definition getBackupCodes ::
  "disk_env \<Rightarrow> (string \<Rightarrow> int option) \<Rightarrow> string \<Rightarrow> string \<Rightarrow> (disk, json option) op" where
  "getBackupCodes env parse dir userId =
     bind_op (readJsonFile env (getBackupCodesPath dir userId) None) (\<lambda>codes.
       case codes of
         None \<Rightarrow> return_op None
       | Some v \<Rightarrow>
           if \<not> stored_codes_value parse v userId then throw_op (Error ''Invalid stored backup-code credential'')
           else return_op (Some v))"

text \<open>\<open>content\<close> is the text of the credential; the lock around the write is the subject of \<open>File_Lock\<close>.\<close>

definition saveTOTPSecret :: "disk_env \<Rightarrow> string \<Rightarrow> string \<Rightarrow> string \<Rightarrow> (disk, unit) op" where
  "saveTOTPSecret env dir handle content = writeJsonFileAtomic env (getTotpPath dir handle) content"

definition saveBackupCodes :: "disk_env \<Rightarrow> string \<Rightarrow> string \<Rightarrow> string \<Rightarrow> (disk, unit) op" where
  "saveBackupCodes env dir userId content = writeJsonFileAtomic env (getBackupCodesPath dir userId) content"

section \<open>What a read answers\<close>

text \<open>Some call made between one state and the other failed with \<open>e\<close>.\<close>

definition call_failed :: "disk_env \<Rightarrow> disk \<Rightarrow> disk \<Rightarrow> error \<Rightarrow> bool" where
  "call_failed env d d' e \<longleftrightarrow> (\<exists>n. dk_asked d \<le> n \<and> n < dk_asked d' \<and> dv_call env n = Inl e)"

definition calls_work :: "disk_env \<Rightarrow> disk \<Rightarrow> bool" where
  "calls_work env d \<longleftrightarrow> (\<forall>n \<ge> dk_asked d. dv_call env n = Inr ())"

lemma call_failedI: "dk_asked d \<le> n \<Longrightarrow> n < dk_asked d' \<Longrightarrow> dv_call env n = Inl e \<Longrightarrow> call_failed env d d' e"
  by (auto simp: call_failed_def)

lemma ensureDir_asks:
  assumes "ensureDir env d = (r, d')"
  shows "dk_files d' = dk_files d" "dk_asked d < dk_asked d'" "r = Inl e \<Longrightarrow> call_failed env d d' e"
  using assms
  by (auto simp: ensureDir_def catch_op_def dk_call_def split: sum.splits
      intro: call_failedI [where n = "Suc (dk_asked d)"])

lemma readJsonFile_cases:
  assumes "readJsonFile env path defaultValue d = (r, d')"
  shows "dk_files d' = dk_files d
    \<and> (r = Inr defaultValue \<and> (map_of (dk_files d) path = None \<or> call_failed env d d' (Error ''ENOENT''))
       \<or> (\<exists>content v. map_of (dk_files d) path = Some content \<and> json_parse content = Some v \<and> r = Inr (Some v))
       \<or> (\<exists>content. map_of (dk_files d) path = Some content \<and> json_parse content = None
            \<and> r = Inl (Error ''SyntaxError''))
       \<or> (\<exists>e. r = Inl e \<and> call_failed env d d' e))"
proof -
  obtain r1 d1 where d1: "ensureDir env d = (r1, d1)" by fastforce
  note asks = ensureDir_asks [OF d1]
  note read = readJsonFile_def catch_op_def bind_op_def dk_call_def return_op_def throw_op_def
  show ?thesis
  proof (cases r1)
    case (Inl e)
    then have "(if e = Error ''ENOENT'' then r = Inr defaultValue else r = Inl e) \<and> d' = d1"
      using assms d1 by (auto simp: read split: if_splits)
    then show ?thesis using asks(1,3) Inl by (auto split: if_splits)
  next
    case (Inr u)
    show ?thesis
    proof (cases "dv_call env (dk_asked d1)")
      case (Inl e)
      then have "(if e = Error ''ENOENT'' then r = Inr defaultValue else r = Inl e)
          \<and> d' = d1\<lparr>dk_asked := Suc (dk_asked d1)\<rparr>"
        using assms d1 Inr by (auto simp: read split: if_splits)
      moreover from this have "call_failed env d d' e"
        using asks(2) Inl by (intro call_failedI [where n = "dk_asked d1"]) auto
      ultimately show ?thesis using asks(1) by (auto split: if_splits)
    next
      case inr: (Inr x)
      then show ?thesis
        using assms d1 Inr asks(1) by (auto simp: read split: if_splits option.splits)
    qed
  qed
qed

lemma readJsonFile_works:
  assumes "calls_work env d"
  shows "fst (readJsonFile env path defaultValue d) =
    (case map_of (dk_files d) path of
       None \<Rightarrow> Inr defaultValue
     | Some content \<Rightarrow>
         (case json_parse content of None \<Rightarrow> Inl (Error ''SyntaxError'') | Some v \<Rightarrow> Inr (Some v)))"
  using assms
  by (simp add: readJsonFile_def ensureDir_def catch_op_def bind_op_def dk_call_def calls_work_def return_op_def
      throw_op_def split: option.split)

text \<open>Both readers: the file's value, and a check of it.\<close>

lemma checked_read:
  "let (r, d') = bind_op (readJsonFile env path None) (\<lambda>found.
         case found of
           None \<Rightarrow> return_op None
         | Some v \<Rightarrow> if \<not> ok v then throw_op err else return_op (Some v)) d;
       file = map_of (dk_files d) path in
     dk_files d' = dk_files d
     \<and> (case r of
          Inr None \<Rightarrow> file = None \<or> call_failed env d d' (Error ''ENOENT'')
        | Inr (Some v) \<Rightarrow> (\<exists>content. file = Some content \<and> json_parse content = Some v \<and> ok v)
        | Inl e \<Rightarrow>
            call_failed env d d' e
            \<or> (\<exists>content. file = Some content \<and> json_parse content = None \<and> e = Error ''SyntaxError'')
            \<or> (\<exists>content v. file = Some content \<and> json_parse content = Some v \<and> \<not> ok v \<and> e = err))"
proof -
  obtain r d' where run: "readJsonFile env path None d = (r, d')" by fastforce
  from readJsonFile_cases [OF run] show ?thesis
    by (auto simp: Let_def bind_op_def run return_op_def throw_op_def split: if_split_asm)
qed

lemma checked_read_back:
  assumes "writeJsonFileAtomic env path content d = (Inr (), d1) \<and> calls_work env d1
      \<and> json_parse content = Some v \<and> ok v"
  shows "fst (bind_op (readJsonFile env path None) (\<lambda>found.
         case found of
           None \<Rightarrow> return_op None
         | Some v \<Rightarrow> if \<not> ok v then throw_op err else return_op (Some v)) d1) = Inr (Some v)"
proof -
  have "map_of (dk_files d1) path = Some content"
    using write_replaces [of env path content d] assms by blast
  then have "fst (readJsonFile env path None d1) = Inr (Some v)"
    using readJsonFile_works [of env d1 path None] assms by simp
  then show ?thesis
    using assms by (cases "readJsonFile env path None d1") (simp add: bind_op_def return_op_def)
qed

section \<open>Absence\<close>

text \<open>
  C35. The adapter answers that a handle has no TOTP credential only when its file is not there, or
  a call of the file system itself claims so. A file that is there is returned only if it is JSON
  with the shape of a credential of that handle; if it is not JSON, or of another shape, or another
  handle's, or cannot be read, the answer is an error, so enrollment is never told that it may
  replace it. No read changes a file, and a credential whose save returned is what is read back.
  The same holds for the backup codes of an account.
\<close>

theorem credential_absence:
  "(let (r, d') = getTOTPSecret env parse dir handle d; file = map_of (dk_files d) (getTotpPath dir handle) in
      dk_files d' = dk_files d
      \<and> (case r of
           Inr None \<Rightarrow> file = None \<or> call_failed env d d' (Error ''ENOENT'')
         | Inr (Some v) \<Rightarrow>
             (\<exists>content. file = Some content \<and> json_parse content = Some v \<and> stored_factor_value parse v handle)
         | Inl e \<Rightarrow>
             call_failed env d d' e
             \<or> (\<exists>content. file = Some content \<and> json_parse content = None \<and> e = Error ''SyntaxError'')
             \<or> (\<exists>content v. file = Some content \<and> json_parse content = Some v
                   \<and> \<not> stored_factor_value parse v handle \<and> e = Error ''Invalid stored TOTP credential'')))
   \<and> (let (r, d') = getBackupCodes env parse dir userId d; file = map_of (dk_files d) (getBackupCodesPath dir userId) in
      dk_files d' = dk_files d
      \<and> (case r of
           Inr None \<Rightarrow> file = None \<or> call_failed env d d' (Error ''ENOENT'')
         | Inr (Some v) \<Rightarrow>
             (\<exists>content. file = Some content \<and> json_parse content = Some v \<and> stored_codes_value parse v userId)
         | Inl e \<Rightarrow>
             call_failed env d d' e
             \<or> (\<exists>content. file = Some content \<and> json_parse content = None \<and> e = Error ''SyntaxError'')
             \<or> (\<exists>content v. file = Some content \<and> json_parse content = Some v
                   \<and> \<not> stored_codes_value parse v userId \<and> e = Error ''Invalid stored backup-code credential'')))
   \<and> (\<forall>content d1 v. saveTOTPSecret env dir handle content d = (Inr (), d1) \<and> calls_work env d1
        \<and> json_parse content = Some v \<and> stored_factor_value parse v handle \<longrightarrow>
          fst (getTOTPSecret env parse dir handle d1) = Inr (Some v))
   \<and> (\<forall>content d1 v. saveBackupCodes env dir userId content d = (Inr (), d1) \<and> calls_work env d1
        \<and> json_parse content = Some v \<and> stored_codes_value parse v userId \<longrightarrow>
          fst (getBackupCodes env parse dir userId d1) = Inr (Some v))"
proof (intro conjI)
  show "let (r, d') = getTOTPSecret env parse dir handle d; file = map_of (dk_files d) (getTotpPath dir handle) in
      dk_files d' = dk_files d
      \<and> (case r of
           Inr None \<Rightarrow> file = None \<or> call_failed env d d' (Error ''ENOENT'')
         | Inr (Some v) \<Rightarrow>
             (\<exists>content. file = Some content \<and> json_parse content = Some v \<and> stored_factor_value parse v handle)
         | Inl e \<Rightarrow>
             call_failed env d d' e
             \<or> (\<exists>content. file = Some content \<and> json_parse content = None \<and> e = Error ''SyntaxError'')
             \<or> (\<exists>content v. file = Some content \<and> json_parse content = Some v
                   \<and> \<not> stored_factor_value parse v handle \<and> e = Error ''Invalid stored TOTP credential''))"
    unfolding getTOTPSecret_def by (rule checked_read)
  show "let (r, d') = getBackupCodes env parse dir userId d; file = map_of (dk_files d) (getBackupCodesPath dir userId) in
      dk_files d' = dk_files d
      \<and> (case r of
           Inr None \<Rightarrow> file = None \<or> call_failed env d d' (Error ''ENOENT'')
         | Inr (Some v) \<Rightarrow>
             (\<exists>content. file = Some content \<and> json_parse content = Some v \<and> stored_codes_value parse v userId)
         | Inl e \<Rightarrow>
             call_failed env d d' e
             \<or> (\<exists>content. file = Some content \<and> json_parse content = None \<and> e = Error ''SyntaxError'')
             \<or> (\<exists>content v. file = Some content \<and> json_parse content = Some v
                   \<and> \<not> stored_codes_value parse v userId \<and> e = Error ''Invalid stored backup-code credential''))"
    unfolding getBackupCodes_def by (rule checked_read)
  show "\<forall>content d1 v. saveTOTPSecret env dir handle content d = (Inr (), d1) \<and> calls_work env d1
        \<and> json_parse content = Some v \<and> stored_factor_value parse v handle \<longrightarrow>
          fst (getTOTPSecret env parse dir handle d1) = Inr (Some v)"
    unfolding getTOTPSecret_def saveTOTPSecret_def by (intro allI impI) (rule checked_read_back, blast)
  show "\<forall>content d1 v. saveBackupCodes env dir userId content d = (Inr (), d1) \<and> calls_work env d1
        \<and> json_parse content = Some v \<and> stored_codes_value parse v userId \<longrightarrow>
          fst (getBackupCodes env parse dir userId d1) = Inr (Some v)"
    unfolding getBackupCodes_def saveBackupCodes_def by (intro allI impI) (rule checked_read_back, blast)
qed

text \<open>A disk on which every call works, and a credential.\<close>

definition working_disk :: disk_env where
  "working_disk = \<lparr>dv_call = (\<lambda>n. Inr ()), dv_partial = (\<lambda>n. []), dv_now = (\<lambda>n. 5), dv_random = (\<lambda>n. ''r'')\<rparr>"

definition empty_disk :: disk where
  "empty_disk = \<lparr>dk_files = [], dk_asked = 0\<rparr>"

definition ada_factor :: json where
  "ada_factor = JObj [(''userId'', JStr ''u1''), (''handle'', JStr ''ada''), (''encryptedSecret'', JStr ''e''),
     (''iv'', JStr ''i''), (''authTag'', JStr ''t''), (''salt'', JStr ''s''), (''createdAt'', JStr ''now''),
     (''backupCodesGenerated'', JBool False), (''version'', JNum 1)]"

lemma ada_factor_facts: "stored_factor_value (\<lambda>s. Some 1) ada_factor ''ada''"
    "\<not> stored_factor_value (\<lambda>s. Some 1) ada_factor ''bob''" "plain_json ada_factor"
  by code_simp+

theorem credential_absence_witness:
  "\<exists>d. saveTOTPSecret working_disk ''totp'' ''ada'' (stringify ada_factor) empty_disk = (Inr (), d)
     \<and> fst (getTOTPSecret working_disk (\<lambda>s. Some 1) ''totp'' ''ada'' d) = Inr (Some ada_factor)
     \<and> fst (getTOTPSecret working_disk (\<lambda>s. Some 1) ''totp'' ''bob'' d) = Inr None"
proof -
  obtain r d where save: "saveTOTPSecret working_disk ''totp'' ''ada'' (stringify ada_factor) empty_disk = (r, d)"
    by fastforce
  have r: "r = Inr ()" and other: "map_of (dk_files d) (getTotpPath ''totp'' ''bob'') = None"
    using save
    by (auto simp: saveTOTPSecret_def writeJsonFileAtomic_def publish_temp_def open_new_def write_text_def
        rename_file_def finally_op_def ensureDir_def dk_call_def dk_ask_def dk_put_def working_disk_def
        empty_disk_def bind_op_def catch_op_def Let_def getTotpPath_def temp_path_def)
  have works: "calls_work working_disk d" by (simp add: calls_work_def working_disk_def)
  have "fst (getTOTPSecret working_disk (\<lambda>s. Some 1) ''totp'' ''ada'' d) = Inr (Some ada_factor)"
    using credential_absence [of working_disk "\<lambda>s. Some 1" "''totp''" "''ada''" empty_disk] save r works
      json_parse_stringify [OF ada_factor_facts(3)] ada_factor_facts(1) by blast
  moreover have "fst (getTOTPSecret working_disk (\<lambda>s. Some 1) ''totp'' ''bob'' d) = Inr None"
    using readJsonFile_works [OF works, of "getTotpPath ''totp'' ''bob''" None] other
    by (cases "readJsonFile working_disk (getTotpPath ''totp'' ''bob'') None d")
      (simp add: getTOTPSecret_def bind_op_def return_op_def)
  ultimately show ?thesis using save r by blast
qed

section \<open>The typed operations are their abstraction\<close>

text \<open>
  The disk holds the credentials of a typed store, as the texts of their JSON values; the texts
  of the stamps are read as their dates.
\<close>

definition stamps_readable :: "material_env \<Rightarrow> (string \<Rightarrow> int option) \<Rightarrow> bool" where
  "stamps_readable m parse \<longleftrightarrow>
     (\<forall>t. parse (me_stamp m t) = date_parse t \<and> (isTimestamp t \<longleftrightarrow> isText (me_stamp m t) \<and> date_parse t \<noteq> None))"

definition holds_factors :: "material_env \<Rightarrow> string \<Rightarrow> disk \<Rightarrow> files \<Rightarrow> bool" where
  "holds_factors m dir d f \<longleftrightarrow>
     (\<forall>h. case map_of (f_totp f) h of
            None \<Rightarrow> map_of (dk_files d) (getTotpPath dir h) = None
          | Some v \<Rightarrow> (\<exists>content. map_of (dk_files d) (getTotpPath dir h) = Some content
                         \<and> json_parse content = Some (factor_json m v)))"

lemma factor_value_typed:
  assumes "stamps_readable m parse"
  shows "stored_factor_value parse (factor_json m v) h \<longleftrightarrow> isStoredFactor v h"
proof -
  have stamp: "parse (me_stamp m t) = date_parse t" "isTimestamp t \<longleftrightarrow> isText (me_stamp m t) \<and> date_parse t \<noteq> None" for t
    using assms unfolding stamps_readable_def by blast+
  show ?thesis
    by (cases "ts_lastUsedAt v"; cases "ts_lastUsedTotpStep v")
      (auto simp: stored_factor_value_def factor_json_def generation_fields_def isStoredFactor_def opt_key_def
        optional_def Let_def stamp)
qed

lemma getTOTPSecret_refines:
  assumes "holds_factors m dir d f" "stamps_readable m parse" "calls_work env d"
  shows "fst (getTOTPSecret env parse dir h d)
    = (case fst (file_getTOTPSecret h f) of Inl e \<Rightarrow> Inl e | Inr v \<Rightarrow> Inr (map_option (factor_json m) v))"
proof -
  have read: "fst (readJsonFile env (getTotpPath dir h) None d) = Inr (map_option (factor_json m) (map_of (f_totp f) h))"
    using readJsonFile_works [OF assms(3), of "getTotpPath dir h" None] assms(1)
    by (auto simp: holds_factors_def split: option.splits dest: spec [of _ h])
  then show ?thesis
    by (cases "readJsonFile env (getTotpPath dir h) None d"; cases "map_of (f_totp f) h")
      (simp_all add: getTOTPSecret_def file_getTOTPSecret_def bind_op_def return_op_def throw_op_def
        factor_value_typed [OF assms(2)])
qed

lemma getTotpPath_inj: "getTotpPath dir h = getTotpPath dir h' \<longleftrightarrow> h = h'"
  by (simp add: getTotpPath_def)

lemma getTotpPath_not_temp: "getTotpPath dir h \<noteq> temp_path path now random"
proof
  assume "getTotpPath dir h = temp_path path now random"
  then have "last (getTotpPath dir h) = last (temp_path path now random)" by simp
  then show False by (simp add: getTotpPath_def temp_path_def)
qed

lemma saveTOTPSecret_refines:
  assumes "holds_factors m dir d f" "json_parse content = Some (factor_json m v)"
    and "saveTOTPSecret env dir h content d = (Inr (), d')"
  shows "holds_factors m dir d' (snd (file_saveTOTPSecret h v f))"
proof -
  obtain now random where w:
    "replaced (getTotpPath dir h) (temp_path (getTotpPath dir h) now random) content (dk_files d) (dk_files d')"
    "map_of (dk_files d') (getTotpPath dir h) = Some content"
    using write_replaces [of env "getTotpPath dir h" content d] assms(3)
    by (auto simp: saveTOTPSecret_def)
  have others: "map_of (dk_files d') (getTotpPath dir h') = map_of (dk_files d) (getTotpPath dir h')" if "h' \<noteq> h" for h'
    using w(1) that getTotpPath_not_temp by (simp add: replaced_def getTotpPath_inj)
  show ?thesis
    unfolding holds_factors_def
  proof
    fix h'
    show "case map_of (f_totp (snd (file_saveTOTPSecret h v f))) h' of
            None \<Rightarrow> map_of (dk_files d') (getTotpPath dir h') = None
          | Some v \<Rightarrow> (\<exists>content. map_of (dk_files d') (getTotpPath dir h') = Some content
                         \<and> json_parse content = Some (factor_json m v))"
      using spec [OF assms(1) [unfolded holds_factors_def], of h'] w(2) assms(2) others [of h']
      by (cases "h' = h"; cases "map_of (f_totp f) h'") (simp_all add: file_saveTOTPSecret_def)
  qed
qed

end
