(* ===== verification/Auth_Config.thy ===== *)
theory Auth_Config
  imports Session_Manager Totp Backup_Codes Canonical_Json
begin

text \<open>
  The configuration of the package with its defaults, \<open>src/types/config.ts\<close>, and the error codes and
  the recogniser of accounts of \<open>src/types/auth.ts\<close>. A pattern is the predicate of the texts it
  matches.
\<close>

section \<open>Configuration\<close>

record totp_config =
  tc_enabled :: bool
  tc_issuer :: string
  tc_encryptionKey :: string
  tc_digits :: int
  tc_period :: int
  tc_algorithm :: string
  tc_window :: int
  tc_secretLength :: int
  tc_backupCodesCount :: int

record cookie_session_config = session_config +
  cfg_cookieName :: string
  cfg_secureCookie :: bool
  cfg_sameSite :: string
  cfg_httpOnly :: bool
  cfg_rememberMeDuration :: int

record password_config = password_policy +
  pp_bcryptRounds :: int

record rate_limit_config =
  rl_maxLoginAttempts :: int
  rl_lockoutDuration :: int
  rl_slidingWindow :: int
  rl_maxInvitationsPerHour :: int

record invitation_settings =
  iv_defaultExpiryHours :: int
  iv_maxActiveInvitations :: int
  iv_allowEmailOverride :: bool

record backup_codes_config =
  bcc_count :: int
  bcc_length :: int
  bcc_format :: "string \<Rightarrow> bool"

record lockout_config =
  lo_enabled :: bool
  lo_threshold :: int
  lo_duration :: int

record reauth_config =
  ra_enabled :: bool
  ra_operations :: "string list"
  ra_timeout :: int

record security_config =
  sec_auditLogging :: bool
  sec_sessionRotation :: bool
  sec_ipValidation :: bool
  sec_accountLockout :: lockout_config
  sec_reAuthRequired :: reauth_config

record auth_config =
  au_appName :: string
  au_appUrl :: string
  au_totp :: totp_config
  au_session :: cookie_session_config
  au_password :: password_config
  au_rateLimit :: rate_limit_config
  au_invitation :: invitation_settings
  au_backupCodes :: backup_codes_config
  au_security :: security_config

definition DEFAULT_AUTH_CONFIG :: auth_config where
  "DEFAULT_AUTH_CONFIG =
     \<lparr>au_appName = ''Tinyland.dev'',
      au_appUrl = ''http://localhost:9080'',
      au_totp =
        \<lparr>tc_enabled = True, tc_issuer = ''Tinyland.dev'', tc_encryptionKey = [], tc_digits = 6, tc_period = 30,
         tc_algorithm = ''SHA1'', tc_window = 1, tc_secretLength = 32, tc_backupCodesCount = 8\<rparr>,
      au_session =
        \<lparr>sessionStrategy = None, cfg_maxAge = 7 * 24 * 60 * 60 * 1000, cfg_renewThreshold = 24 * 60 * 60 * 1000,
         cfg_maxConcurrentSessions = 5, cfg_cookieName = ''sessionId'', cfg_secureCookie = True,
         cfg_sameSite = ''lax'', cfg_httpOnly = True, cfg_rememberMeDuration = 30 * 24 * 60 * 60 * 1000\<rparr>,
      au_password =
        \<lparr>pp_minLength = 12, pp_requireUppercase = True, pp_requireLowercase = True, pp_requireNumbers = True,
         pp_requireSpecialChars = True, pp_bcryptRounds = 12\<rparr>,
      au_rateLimit =
        \<lparr>rl_maxLoginAttempts = 5, rl_lockoutDuration = 15 * 60 * 1000, rl_slidingWindow = 60 * 60 * 1000,
         rl_maxInvitationsPerHour = 10\<rparr>,
      au_invitation = \<lparr>iv_defaultExpiryHours = 72, iv_maxActiveInvitations = 50, iv_allowEmailOverride = True\<rparr>,
      au_backupCodes = \<lparr>bcc_count = 10, bcc_length = 8, bcc_format = default_code_format\<rparr>,
      au_security =
        \<lparr>sec_auditLogging = True, sec_sessionRotation = True, sec_ipValidation = False,
         sec_accountLockout = \<lparr>lo_enabled = True, lo_threshold = 5, lo_duration = 30 * 60 * 1000\<rparr>,
         sec_reAuthRequired =
           \<lparr>ra_enabled = True, ra_operations = [''deleteUser'', ''changeRole'', ''resetTOTP''], ra_timeout = 5 * 60 * 1000\<rparr>\<rparr>\<rparr>"

text \<open>Overrides: a given section is a whole section, as its type demands.\<close>

record auth_overrides =
  ov_appName :: "string option"
  ov_appUrl :: "string option"
  ov_totp :: "totp_config option"
  ov_session :: "cookie_session_config option"
  ov_password :: "password_config option"
  ov_rateLimit :: "rate_limit_config option"
  ov_invitation :: "invitation_settings option"
  ov_backupCodes :: "backup_codes_config option"
  ov_security :: "security_config option"

definition createAuthConfig :: "auth_overrides \<Rightarrow> auth_config" where
  "createAuthConfig overrides =
     \<lparr>au_appName = nullish (ov_appName overrides) (au_appName DEFAULT_AUTH_CONFIG),
      au_appUrl = nullish (ov_appUrl overrides) (au_appUrl DEFAULT_AUTH_CONFIG),
      au_totp = nullish (ov_totp overrides) (au_totp DEFAULT_AUTH_CONFIG),
      au_session = nullish (ov_session overrides) (au_session DEFAULT_AUTH_CONFIG),
      au_password = nullish (ov_password overrides) (au_password DEFAULT_AUTH_CONFIG),
      au_rateLimit = nullish (ov_rateLimit overrides) (au_rateLimit DEFAULT_AUTH_CONFIG),
      au_invitation = nullish (ov_invitation overrides) (au_invitation DEFAULT_AUTH_CONFIG),
      au_backupCodes = nullish (ov_backupCodes overrides) (au_backupCodes DEFAULT_AUTH_CONFIG),
      au_security = nullish (ov_security overrides) (au_security DEFAULT_AUTH_CONFIG)\<rparr>"

section \<open>Error codes and accounts\<close>

datatype auth_error_code =
    INVALID_CREDENTIALS | ACCOUNT_NOT_FOUND | ACCOUNT_INACTIVE | ACCOUNT_LOCKED_code | SESSION_EXPIRED_code | SESSION_INVALID
  | TOTP_REQUIRED | TOTP_INVALID | TOTP_EXPIRED | BACKUP_CODE_INVALID | BACKUP_CODE_EXHAUSTED
  | TOO_MANY_ATTEMPTS | SUSPICIOUS_ACTIVITY | IP_BLOCKED | DEVICE_NOT_RECOGNIZED
  | HANDLE_TAKEN | HANDLE_INVALID | EMAIL_TAKEN | PASSWORD_TOO_WEAK | INSUFFICIENT_PERMISSIONS
  | INVITATION_INVALID | INVITATION_EXPIRED_code | INVITATION_USED | INVITATION_REVOKED_code
  | ONBOARDING_REQUIRED | ONBOARDING_STEP_INCOMPLETE | ONBOARDING_INVALID_STEP
  | SYSTEM_NOT_CONFIGURED | BOOTSTRAP_NOT_ALLOWED | MAINTENANCE_MODE | FEATURE_DISABLED

record auth_error =
  er_code :: auth_error_code
  er_message :: string
  er_details :: "(string \<times> json) list option"
  er_timestamp :: string
  er_requestId :: "string option"

text \<open>A backup code with its owner; the stored form is \<open>encrypted_backup_code\<close>.\<close>

record backup_code =
  bk_id :: string
  bk_userId :: string
  bk_codeHash :: string
  bk_used :: bool
  bk_usedAt :: "string option"
  bk_createdAt :: string

text \<open>The tests of the properties of an object; an array has none of them.\<close>

definition is_json_text :: "json option \<Rightarrow> bool" where
  "is_json_text v = (case v of Some (JStr _) \<Rightarrow> True | _ \<Rightarrow> False)"

definition isAdminUser :: "json \<Rightarrow> bool" where
  "isAdminUser obj =
     (case obj of
        JObj kvs \<Rightarrow>
          is_json_text (map_of kvs ''id'') \<and> is_json_text (map_of kvs ''handle'')
          \<and> is_json_text (map_of kvs ''passwordHash'') \<and> is_json_text (map_of kvs ''role'')
          \<and> (case map_of kvs ''isActive'' of Some (JBool _) \<Rightarrow> True | _ \<Rightarrow> False)
      | _ \<Rightarrow> False)"

section \<open>The defaults and the modules\<close>

text \<open>The defaults are those of the modules that have defaults of their own.\<close>

lemma defaults_agree:
  "\<lparr>ac_step = tc_period (au_totp DEFAULT_AUTH_CONFIG), ac_window = tc_window (au_totp DEFAULT_AUTH_CONFIG),
    ac_digits = tc_digits (au_totp DEFAULT_AUTH_CONFIG)\<rparr> = initial_authenticator_config"
  by (simp add: DEFAULT_AUTH_CONFIG_def initial_authenticator_config_def)

text \<open>Every generated code has the format of the default configuration.\<close>

lemma generated_format: "isValidCodeFormat (code_of_bytes draw) (bcc_format (au_backupCodes DEFAULT_AUTH_CONFIG))"
  by (simp add: DEFAULT_AUTH_CONFIG_def code_of_bytes_format)

text \<open>
  A configuration without a session section keeps one session for an account, whatever its limit of
  concurrent sessions says: the limit needs the strategy that is opted into.
\<close>

lemma default_single_session:
  assumes "ov_session overrides = None"
  shows "sm_createSession st (session_config.truncate (au_session (createAuthConfig overrides))) t new userId user md
     = bind_op (st_deleteUserSessions st userId) (\<lambda>_. st_createSession st t new userId user md)"
  using assms by (simp add: createAuthConfig_def DEFAULT_AUTH_CONFIG_def session_config.truncate_def sm_createSession_def)

end
