(* ===== verification/Totp_Secrets.thy ===== *)
theory Totp_Secrets
  imports Totp Auth_Config
begin

text \<open>
  Making secrets and their QR codes: \<open>generateSecret\<close>, \<open>generateQRCode\<close> and the constructor of
  \<open>src/core/totp/index.ts\<close>, and the calls of \<open>src/totp\<close> that hand data to otplib and to the QR
  library. \<open>secret_of n\<close> is otplib's \<open>generateSecret\<close> for \<open>n\<close> random bytes, \<open>otp_uri\<close> its \<open>generateURI\<close> and
  \<open>toDataURL\<close> the QR library.
\<close>

definition generateAuthenticatorSecret :: "(nat \<Rightarrow> string) \<Rightarrow> string" where
  "generateAuthenticatorSecret secret_of = secret_of 20"

text \<open>The arguments of \<open>otp_uri\<close>: issuer, label, secret, digits, period.\<close>

type_synonym otp_uri = "string \<Rightarrow> string \<Rightarrow> string \<Rightarrow> int \<Rightarrow> int \<Rightarrow> string"

definition generateAuthenticatorUri :: "otp_uri \<Rightarrow> authenticator_config \<Rightarrow> string \<Rightarrow> string \<Rightarrow> string \<Rightarrow> string" where
  "generateAuthenticatorUri otp_uri cfg label issuer secret = otp_uri issuer label secret (ac_digits cfg) (ac_step cfg)"

definition createTOTPService :: "totp_config \<Rightarrow> totp_service" where
  "createTOTPService config = \<lparr>sv_encryptionKey = tc_encryptionKey config, sv_issuer = tc_issuer config\<rparr>"

definition totp_generateSecret ::
  "(string \<Rightarrow> string result) \<Rightarrow> otp_uri \<Rightarrow> (nat \<Rightarrow> string) \<Rightarrow> authenticator_config \<Rightarrow> int \<Rightarrow> totp_service
     \<Rightarrow> string \<Rightarrow> string option \<Rightarrow> totp_secret result" where
  "totp_generateSecret toDataURL otp_uri secret_of cfg now service handle email =
     (let secret = generateAuthenticatorSecret secret_of;
          otpauth = generateAuthenticatorUri otp_uri cfg (str_or email handle) (sv_issuer service) secret
      in case toDataURL otpauth of
           Inl e \<Rightarrow> Inl e
         | Inr qrCodeUrl \<Rightarrow>
             Inr \<lparr>tot_handle = handle, tot_email = email, tot_secret = secret, tot_qrCodeUrl = Some qrCodeUrl,
                  tot_createdAt = now\<rparr>)"

definition totp_generateQRCode ::
  "(string \<Rightarrow> string result) \<Rightarrow> otp_uri \<Rightarrow> authenticator_config \<Rightarrow> totp_service \<Rightarrow> totp_secret \<Rightarrow> string result" where
  "totp_generateQRCode toDataURL otp_uri cfg service secret =
     toDataURL (generateAuthenticatorUri otp_uri cfg (str_or (tot_email secret) (tot_handle secret)) (sv_issuer service)
       (tot_secret secret))"

text \<open>The helper of \<open>compat.ts\<close> hides the error of the QR library.\<close>

definition generateTOTPQRCode :: "(string \<Rightarrow> string result) \<Rightarrow> string \<Rightarrow> string result" where
  "generateTOTPQRCode toDataURL uri =
     (case toDataURL uri of Inl e \<Rightarrow> Inl (Error ''Failed to generate QR code'') | Inr qrCodeDataUrl \<Rightarrow> Inr qrCodeDataUrl)"

text \<open>The QR code handed out with a new secret is the one that is made of the secret later.\<close>

lemma generated_qr_code:
  assumes "totp_generateSecret toDataURL otp_uri secret_of cfg now service handle email = Inr secret"
  shows "totp_generateQRCode toDataURL otp_uri cfg service secret = Inr (the (tot_qrCodeUrl secret))"
  using assms by (auto simp: totp_generateSecret_def totp_generateQRCode_def Let_def split: sum.splits)

text \<open>A secret of otplib's length meets the floor, so its codes are checked and not refused.\<close>

lemma generated_secret_verifies:
  assumes "totp_generateSecret toDataURL otp_uri secret_of cfg now service handle email = Inr secret" "base32ByteLength (secret_of 20) = 20"
  shows "verifyAuthenticatorToken verify cfg (tot_secret secret) token epoch
     = verify (tot_secret secret) token (ac_digits cfg) (ac_step cfg) (epochTolerance cfg) epoch"
  using assms
  by (auto simp: totp_generateSecret_def Let_def generateAuthenticatorSecret_def verifyAuthenticatorToken_def
      assertSecretMeetsFloor_def MIN_SECRET_BYTES_def split: sum.splits)

end
