(* ===== verification/Handouts.thy ===== *)
theory Handouts
  imports Totp Totp_Cipher
begin

text \<open>
  The handouts of a new account, \<open>src/cred-gen\<close>: the card, the mail and the download with their
  texts as the templates have them, and the link. The temporary password appears in a text with
  its middle masked. The texts of dates are arguments.
\<close>

section \<open>Masking and escaping\<close>

definition maskPassword :: "string \<Rightarrow> string" where
  "maskPassword password =
     (if length password \<le> 4 then ''--------''
      else take 2 password @ replicate (length password - 4) (CHR ''*'') @ drop (length password - 2) password)"

text \<open>\<open>text.replace(/c/g, r)\<close> for one character.\<close>

definition replace_each :: "char \<Rightarrow> string \<Rightarrow> string \<Rightarrow> string" where
  "replace_each c r s = concat (map (\<lambda>x. if x = c then r else [x]) s)"

definition escapeXml :: "string \<Rightarrow> string" where
  "escapeXml s =
     replace_each (CHR 0x27) ''&apos;''
       (replace_each (CHR 0x22) ''&quot;''
         (replace_each (CHR ''>'') ''&gt;''
           (replace_each (CHR ''<'') ''&lt;''
             (replace_each (CHR ''&'') ''&amp;'' s))))"

section \<open>The card\<close>

text \<open>A template: its lines with a line feed after each.\<close>

definition text_lines :: "string list \<Rightarrow> string" where
  "text_lines ls = concat (map (\<lambda>l. l @ [CHR 0x0A]) ls)"

record card_data =
  cd_username :: string
  cd_displayName :: string
  cd_tempPassword :: string
  cd_totpUri :: string
  cd_issuer :: "string option"

definition card_lines :: "card_data \<Rightarrow> string \<Rightarrow> string list" where
  "card_lines d generated =
     (let border = replicate 60 (CHR ''=''); divider = replicate 60 (CHR ''-'') in
    [border,
     ''                    '' @ str_or (cd_issuer d) ''Tinyland.dev'',
     ''                    Account Credentials'',
     border,
     [],
     ''Username:     '' @ cd_username d,
     ''Display Name: '' @ cd_displayName d,
     ''Password:     '' @ maskPassword (cd_tempPassword d),
     [],
     divider,
     ''                 Two-Factor Authentication'',
     [],
     cd_totpUri d,
     [],
     ''Scan the above URL with your authenticator app'',
     ''or enter it manually.'',
     [],
     divider,
     ''                    Setup Instructions'',
     [],
     ''1. Download an authenticator app (Google Authenticator, Authy)'',
     ''2. Scan the QR code or enter the URL above'',
     ''3. Enter the 6-digit code when logging in'',
     ''4. Change your temporary password after first login'',
     [],
     divider,
     ''                   SECURITY WARNING'',
     [],
     ''- Keep this information secure'',
     ''- Do not share your credentials'',
     ''- Change your password immediately after first login'',
     ''- If compromised, contact your administrator'',
     [],
     border,
     ''Generated: '' @ generated,
     border])"

definition generateTextCredentialsCard :: "card_data \<Rightarrow> string \<Rightarrow> string" where
  "generateTextCredentialsCard d generated = CHR 0x0A # text_lines (card_lines d generated)"

section \<open>Credentials of a new account\<close>

record user_credentials =
  uc_username :: string
  uc_displayName :: string
  uc_email :: string
  uc_tempPassword :: "string option"
  uc_totpSecret :: "string option"

text \<open>
  \<open>draw\<close> are the random indices of the password, \<open>made\<close> the outcome of otplib's secret generator
  and \<open>generated\<close> the text of the time. No password at all is the loop that does not end.
\<close>

definition generateUserCredentials ::
  "(nat \<Rightarrow> nat) \<Rightarrow> string result \<Rightarrow> string \<Rightarrow> string \<Rightarrow> string \<Rightarrow> string \<Rightarrow> string option
     \<Rightarrow> (user_credentials \<times> string) option result" where
  "generateUserCredentials draw made generated username displayName email issuer =
     (let issuer = nullish issuer ''Tinyland.dev'' in
      case generateTempPassword draw 12 of
        Inl e \<Rightarrow> Inl e
      | Inr None \<Rightarrow> Inr None
      | Inr (Some tempPassword) \<Rightarrow>
          (case compat_generateTOTPSecret made of
             Inl e \<Rightarrow> Inl e
           | Inr totpSecret \<Rightarrow>
               (case generateTOTPUri totpSecret issuer username of
                  Inl e \<Rightarrow> Inl e
                | Inr totpUri \<Rightarrow>
                    Inr (Some
                      (\<lparr>uc_username = username, uc_displayName = displayName, uc_email = email,
                        uc_tempPassword = Some tempPassword, uc_totpSecret = Some totpSecret\<rparr>,
                       generateTextCredentialsCard
                         \<lparr>cd_username = username, cd_displayName = displayName, cd_tempPassword = tempPassword,
                          cd_totpUri = totpUri, cd_issuer = Some issuer\<rparr> generated)))))"

section \<open>The download and the link\<close>

record download_response =
  dr_body :: "nat list"
  dr_headers :: "(string \<times> string) list"

definition createCredentialsDownloadResponse :: "string \<Rightarrow> string \<Rightarrow> int \<Rightarrow> download_response" where
  "createCredentialsDownloadResponse credentialsText username now =
     (let filename = ''credentials-'' @ username @ ''-'' @ show_int now @ ''.txt'' in
      \<lparr>dr_body = utf8 credentialsText,
       dr_headers =
         [(''Content-Type'', ''text/plain''),
          (''Content-Disposition'', ''attachment; filename=\"'' @ filename @ ''\"''),
          (''Cache-Control'', ''no-store, no-cache, must-revalidate''),
          (''Pragma'', ''no-cache''),
          (''Expires'', ''0'')]\<rparr>)"

definition base64url_char :: "char \<Rightarrow> char" where
  "base64url_char c = (if c = CHR ''+'' then CHR ''-'' else if c = CHR ''/'' then CHR ''_'' else c)"

definition base64url_encode :: "nat list \<Rightarrow> string" where
  "base64url_encode bs = map base64url_char (filter (\<lambda>c. c \<noteq> CHR ''='') (base64_encode bs))"

definition generateSecureCredentialsLink :: "string \<Rightarrow> int option \<Rightarrow> int \<Rightarrow> string \<times> int" where
  "generateSecureCredentialsLink credentialsId expiresInMinutes now =
     (let expiresAt = now + nullish expiresInMinutes 60 * 60 * 1000;
          token = base64url_encode (utf8 (stringify (JObj [(''id'', JStr credentialsId), (''exp'', JNum expiresAt)])))
      in (''/admin/credentials/download/'' @ token, expiresAt))"

section \<open>The mail\<close>

definition mail_head :: "string list" where
  "mail_head =
    [''<!DOCTYPE html>'',
     ''<html>'',
     ''<head>'',
     ''  <meta charset=\"UTF-8\">'',
     ''  <title>Your Account Credentials</title>'',
     ''  <style>'',
     ''    body {'',
     ''      font-family: Arial, sans-serif;'',
     ''      line-height: 1.6;'',
     ''      color: #333;'',
     ''      max-width: 600px;'',
     ''      margin: 0 auto;'',
     ''      padding: 20px;'',
     ''    }'',
     ''    .header {'',
     ''      background-color: #e91e63;'',
     ''      color: white;'',
     ''      padding: 20px;'',
     ''      text-align: center;'',
     ''      border-radius: 8px 8px 0 0;'',
     ''    }'',
     ''    .content {'',
     ''      background-color: #f9f9f9;'',
     ''      padding: 30px;'',
     ''      border: 1px solid #ddd;'',
     ''      border-radius: 0 0 8px 8px;'',
     ''    }'',
     ''    .credentials-box {'',
     ''      background-color: white;'',
     ''      border: 1px solid #ddd;'',
     ''      padding: 20px;'',
     ''      margin: 20px 0;'',
     ''      border-radius: 5px;'',
     ''    }'',
     ''    .credentials-box h3 {'',
     ''      margin-top: 0;'',
     ''      color: #e91e63;'',
     ''    }'',
     ''    .field {'',
     ''      margin: 10px 0;'',
     ''    }'',
     ''    .field-label {'',
     ''      font-weight: bold;'',
     ''      display: inline-block;'',
     ''      width: 120px;'',
     ''    }'',
     ''    .field-value {'',
     ''      font-family: monospace;'',
     ''      background-color: #f5f5f5;'',
     ''      padding: 5px 10px;'',
     ''      border-radius: 3px;'',
     ''      display: inline-block;'',
     ''    }'',
     ''    .warning {'',
     ''      background-color: #ffebee;'',
     ''      border: 1px solid #ffcdd2;'',
     ''      color: #c62828;'',
     ''      padding: 15px;'',
     ''      border-radius: 5px;'',
     ''      margin: 20px 0;'',
     ''    }'',
     ''    .steps {'',
     ''      background-color: #e8f5e9;'',
     ''      border: 1px solid #c8e6c9;'',
     ''      padding: 15px;'',
     ''      border-radius: 5px;'',
     ''      margin: 20px 0;'',
     ''    }'',
     ''    .steps ol {'',
     ''      margin: 10px 0 0 0;'',
     ''      padding-left: 20px;'',
     ''    }'',
     ''    .footer {'',
     ''      text-align: center;'',
     ''      color: #666;'',
     ''      font-size: 12px;'',
     ''      margin-top: 30px;'',
     ''    }'',
     ''  </style>'',
     ''</head>'']"

text \<open>The mail masks the password like the card does, and has a hint in its place when there is none.\<close>

definition mail_password :: "string option \<Rightarrow> string" where
  "mail_password tempPassword =
     (if truthy tempPassword then maskPassword (the tempPassword) else ''See attached card'')"

definition mail_body :: "user_credentials \<Rightarrow> bool \<Rightarrow> string \<Rightarrow> string \<Rightarrow> string list" where
  "mail_body c includeCard dateText timeText =
    [''<body>'',
     ''  <div class=\"header\">'',
     ''    <h1>Welcome</h1>'',
     ''  </div>'',
     [],
     ''  <div class=\"content\">'',
     ''    <p>Hello '' @ uc_displayName c @ '',</p>'',
     [],
     ''    <p>Your account has been created. Below are your login credentials and instructions for setting up two-factor authentication.</p>'',
     [],
     ''    <div class=\"credentials-box\">'',
     ''      <h3>Your Login Credentials</h3>'',
     ''      <div class=\"field\">'',
     ''        <span class=\"field-label\">Username:</span>'',
     ''        <span class=\"field-value\">'' @ uc_username c @ ''</span>'',
     ''      </div>'',
     ''      <div class=\"field\">'',
     ''        <span class=\"field-label\">Email:</span>'',
     ''        <span class=\"field-value\">'' @ uc_email c @ ''</span>'',
     ''      </div>'',
     ''      <div class=\"field\">'',
     ''        <span class=\"field-label\">Password:</span>'',
     ''        <span class=\"field-value\">'' @ mail_password (uc_tempPassword c) @ ''</span>'',
     ''      </div>'',
     ''    </div>'',
     [],
     ''    <div class=\"steps\">'',
     ''      <h3>Setup Instructions</h3>'',
     ''      <ol>'',
     ''        <li>Download an authenticator app on your phone (Google Authenticator, Authy, or similar)</li>'',
     ''        <li>'' @ (if includeCard then ''Open the attached credentials card and scan the QR code'' else ''Use the QR code provided by your administrator'') @ ''</li>'',
     ''        <li>Log in using your username and temporary password</li>'',
     ''        <li>Enter the 6-digit code from your authenticator app</li>'',
     ''        <li>Change your password immediately after first login</li>'',
     ''      </ol>'',
     ''    </div>'',
     [],
     ''    <div class=\"warning\">'',
     ''      <strong>Security Notice:</strong>'',
     ''      <ul style=\"margin: 10px 0 0 0; padding-left: 20px;\">'',
     ''        <li>Keep your credentials secure and do not share them</li>'',
     ''        <li>Change your temporary password immediately after first login</li>'',
     ''        <li>Enable two-factor authentication for account security</li>'',
     ''        <li>If you suspect your account has been compromised, contact us immediately</li>'',
     ''      </ul>'',
     ''    </div>'',
     ''  </div>'',
     [],
     ''  <div class=\"footer\">'',
     ''    <p>This email contains confidential information</p>'',
     ''    <p>Generated on '' @ dateText @ '' at '' @ timeText @ ''</p>'',
     ''  </div>'',
     ''</body>'',
     ''</html>'']"

definition generateCredentialsEmailHtml :: "user_credentials \<Rightarrow> bool \<Rightarrow> string \<Rightarrow> string \<Rightarrow> string" where
  "generateCredentialsEmailHtml c includeCard dateText timeText =
     CHR 0x0A # text_lines (mail_head @ mail_body c includeCard dateText timeText) @ ''  ''"

section \<open>Lemmas\<close>

lemma maskPassword_short [simp]: "length p \<le> 4 \<Longrightarrow> maskPassword p = ''--------''"
  by (simp add: maskPassword_def)

lemma maskPassword_long: "4 < length p \<Longrightarrow> maskPassword p = take 2 p @ replicate (length p - 4) (CHR ''*'') @ drop (length p - 2) p"
  by (simp add: maskPassword_def)

lemma masked_star: "4 < length p \<Longrightarrow> CHR ''*'' \<in> set (maskPassword p)"
  by (simp add: maskPassword_long)

lemma masked_not_short [simp]: "4 < length p \<Longrightarrow> maskPassword p \<noteq> ''--------''"
proof
  assume "4 < length p" "maskPassword p = ''--------''"
  then have "CHR ''*'' \<in> set ''--------''" using masked_star by metis
  then show False by simp
qed

lemmas short_not_masked [simp] = masked_not_short [symmetric]

lemma masked_length: "4 < length p \<Longrightarrow> length (maskPassword p) = length p"
  by (simp add: maskPassword_long)

lemma masked_nth:
  assumes "4 < length p" "i < length p"
  shows "maskPassword p ! i = (if i < 2 \<or> length p - 2 \<le> i then p ! i else CHR ''*'')"
proof -
  consider "i < 2" | "2 \<le> i" "i < length p - 2" | "2 \<le> i" "length p - 2 \<le> i" by linarith
  then show ?thesis
  proof cases
    case 1
    then show ?thesis using assms by (simp add: maskPassword_long nth_append)
  next
    case 2
    then have "i - 2 < length p - 4" by simp
    with 2 show ?thesis using assms by (simp add: maskPassword_long nth_append)
  next
    case 3
    then have "\<not> i - 2 < length p - 4" "length p - 2 + (i - 2 - (length p - 4)) = i" using assms by simp_all
    then have "maskPassword p ! i = p ! i" using 3 assms by (simp add: maskPassword_long nth_append)
    with 3 show ?thesis by simp
  qed
qed

text \<open>What a masked password tells: its length above four, and its first and last two characters.\<close>

definition same_ends :: "string \<Rightarrow> string \<Rightarrow> bool" where
  "same_ends p q \<longleftrightarrow>
     (if length p \<le> 4 then length q \<le> 4
      else length p = length q \<and> take 2 p = take 2 q \<and> drop (length p - 2) p = drop (length q - 2) q)"

lemma maskPassword_eq: "maskPassword p = maskPassword q \<longleftrightarrow> same_ends p q"
proof (cases "length p \<le> 4 \<or> length q \<le> 4")
  case True
  then show ?thesis
    by (cases "length p \<le> 4"; cases "length q \<le> 4") (auto simp: same_ends_def not_le)
next
  case False
  show ?thesis
  proof
    assume eq: "maskPassword p = maskPassword q"
    then have len: "length p = length q" using False masked_length by (metis not_le)
    have "take 2 p @ replicate (length p - 4) (CHR ''*'') @ drop (length p - 2) p
        = take 2 q @ replicate (length p - 4) (CHR ''*'') @ drop (length p - 2) q"
      using eq False len by (simp add: maskPassword_long)
    then have "take 2 p = take 2 q \<and> drop (length p - 2) p = drop (length p - 2) q" using len by simp
    then show "same_ends p q" using len False unfolding same_ends_def by metis
  next
    assume "same_ends p q"
    then have "length p = length q" "take 2 p = take 2 q" "drop (length p - 2) p = drop (length q - 2) q"
      using False unfolding same_ends_def by meson+
    then show "maskPassword p = maskPassword q" using False unfolding maskPassword_def by metis
  qed
qed

lemma text_lines_append [simp]: "text_lines (ls @ ks) = text_lines ls @ text_lines ks"
  by (simp add: text_lines_def)

lemma card_masked:
  "generateTextCredentialsCard (d\<lparr>cd_tempPassword := p\<rparr>) generated = generateTextCredentialsCard (d\<lparr>cd_tempPassword := q\<rparr>) generated"
  if "maskPassword p = maskPassword q"
  using that by (simp add: generateTextCredentialsCard_def card_lines_def)

lemma mail_masked:
  "generateCredentialsEmailHtml (c\<lparr>uc_tempPassword := Some p\<rparr>) withCard dateText timeText
     = generateCredentialsEmailHtml (c\<lparr>uc_tempPassword := Some q\<rparr>) withCard dateText timeText"
  if "maskPassword p = maskPassword q" "p \<noteq> []" "q \<noteq> []"
  using that by (simp add: generateCredentialsEmailHtml_def mail_body_def mail_password_def)

text \<open>The display name stands in the mail as it is; \<open>escapeXml\<close> is not applied.\<close>

lemma line_in_text: "\<exists>a b. text_lines (ls @ l # ks) = a @ l @ b"
  by (intro exI [of _ "text_lines ls"] exI [of _ "CHR 0x0A # text_lines ks"]) (simp add: text_lines_def)

lemma mail_name_unescaped:
  "\<exists>a b. generateCredentialsEmailHtml c withCard dateText timeText = a @ uc_displayName c @ b"
proof -
  obtain ls ks where body: "mail_body c withCard dateText timeText = ls @ (''    <p>Hello '' @ uc_displayName c @ '',</p>'') # ks"
    unfolding mail_body_def using that [of "take 6 (mail_body c withCard dateText timeText)"] by (simp add: mail_body_def)
  obtain a b where "text_lines (ls @ (''    <p>Hello '' @ uc_displayName c @ '',</p>'') # ks) = a @ (''    <p>Hello '' @ uc_displayName c @ '',</p>'') @ b"
    using line_in_text by blast
  then have "generateCredentialsEmailHtml c withCard dateText timeText
      = (CHR 0x0A # text_lines mail_head @ a @ ''    <p>Hello '') @ uc_displayName c @ ('',</p>'' @ b @ ''  '')"
    by (simp add: generateCredentialsEmailHtml_def body)
  then show ?thesis by blast
qed

definition xml_entity :: "char \<Rightarrow> string" where
  "xml_entity c =
     (if c = CHR ''&'' then ''&amp;'' else if c = CHR ''<'' then ''&lt;'' else if c = CHR ''>'' then ''&gt;''
      else if c = CHR 0x22 then ''&quot;'' else if c = CHR 0x27 then ''&apos;'' else [c])"

lemma replace_each_append [simp]: "replace_each c r (s @ t) = replace_each c r s @ replace_each c r t"
  by (simp add: replace_each_def)

lemma escapeXml_entities: "escapeXml s = concat (map xml_entity s)"
proof (induction s)
  case Nil
  show ?case by (simp add: escapeXml_def replace_each_def)
next
  case (Cons c s)
  have "escapeXml (c # s) = escapeXml [c] @ escapeXml s"
    using replace_each_append [of _ _ "[c]" s] by (simp add: escapeXml_def)
  moreover have "escapeXml [c] = xml_entity c"
    by (simp add: escapeXml_def xml_entity_def replace_each_def)
  ultimately show ?case using Cons by simp
qed

definition xml_marks :: "char list" where
  "xml_marks = [CHR ''&'', CHR ''<'', CHR ''>'', CHR 0x22, CHR 0x27]"

lemma entity_marks:
  "xml_entity (CHR ''&'') = ''&amp;''" "xml_entity (CHR ''<'') = ''&lt;''" "xml_entity (CHR ''>'') = ''&gt;''"
  "xml_entity (CHR 0x22) = ''&quot;''" "xml_entity (CHR 0x27) = ''&apos;''"
  by (simp_all add: xml_entity_def)

lemma entity_plain: "c \<notin> set xml_marks \<Longrightarrow> xml_entity c = [c]"
  by (simp add: xml_entity_def xml_marks_def)

lemma entity_head: "c \<in> set xml_marks \<Longrightarrow> \<exists>r. xml_entity c = CHR ''&'' # r"
  by (auto simp: xml_marks_def entity_marks)

lemma entity_marks_prefix:
  "\<forall>c \<in> set xml_marks. \<forall>d \<in> set xml_marks. xml_entity c @ xs = xml_entity d @ ys \<longleftrightarrow> c = d \<and> xs = ys"
  by (simp add: xml_marks_def entity_marks)

lemma amp_mark: "CHR ''&'' \<in> set xml_marks"
  by (simp add: xml_marks_def)

lemma xml_entity_prefix: "xml_entity c @ xs = xml_entity d @ ys \<longleftrightarrow> c = d \<and> xs = ys"
proof (cases "c \<in> set xml_marks"; cases "d \<in> set xml_marks")
  assume "c \<in> set xml_marks" "d \<in> set xml_marks"
  then show ?thesis using entity_marks_prefix by blast
next
  assume c: "c \<in> set xml_marks" and d: "d \<notin> set xml_marks"
  then show ?thesis using entity_head [OF c] amp_mark by (auto simp: entity_plain)
next
  assume c: "c \<notin> set xml_marks" and d: "d \<in> set xml_marks"
  then show ?thesis using entity_head [OF d] amp_mark by (auto simp: entity_plain)
next
  assume "c \<notin> set xml_marks" "d \<notin> set xml_marks"
  then show ?thesis by (simp add: entity_plain)
qed

lemma entity_not_Nil [simp]: "xml_entity c \<noteq> []"
  by (simp add: xml_entity_def)

lemma escapeXml_inj: "escapeXml s = escapeXml t \<longleftrightarrow> s = t"
proof (induction s arbitrary: t)
  case Nil
  show ?case by (cases t) (simp_all add: escapeXml_entities)
next
  case (Cons c s)
  show ?case
  proof (cases t)
    case Nil
    then show ?thesis by (simp add: escapeXml_entities)
  next
    case (Cons d t')
    then show ?thesis using Cons.IH [of t'] by (simp add: escapeXml_entities xml_entity_prefix)
  qed
qed

section \<open>Properties\<close>

text \<open>
  C32. The handouts hide the temporary password: a card, and a mail, is the same text for two
  passwords exactly as the masked passwords are the same, which for passwords of more than four
  characters is when they have the same length and the same two characters at both ends.
\<close>

theorem handouts_hide_password:
  assumes "4 < length p" "length q = length p" "take 2 q = take 2 p" "drop (length p - 2) q = drop (length p - 2) p"
  shows "generateTextCredentialsCard (d\<lparr>cd_tempPassword := q\<rparr>) generated = generateTextCredentialsCard (d\<lparr>cd_tempPassword := p\<rparr>) generated
     \<and> generateCredentialsEmailHtml (c\<lparr>uc_tempPassword := Some q\<rparr>) withCard dateText timeText
         = generateCredentialsEmailHtml (c\<lparr>uc_tempPassword := Some p\<rparr>) withCard dateText timeText
     \<and> length (maskPassword p) = length p
     \<and> (\<forall>i < length p. maskPassword p ! i = (if i < 2 \<or> length p - 2 \<le> i then p ! i else CHR ''*''))"
proof -
  have "same_ends q p" using assms by (simp add: same_ends_def)
  then have mask: "maskPassword q = maskPassword p" by (simp add: maskPassword_eq)
  have "q \<noteq> []" "p \<noteq> []" using assms by auto
  then show ?thesis
    using mail_masked [OF mask] card_masked [OF mask] masked_length [OF assms(1)] masked_nth [OF assms(1)] by blast
qed

theorem handouts_hide_password_witness:
  "maskPassword ''abSECRETyz'' = ''ab******yz''
   \<and> generateTextCredentialsCard \<lparr>cd_username = ''u'', cd_displayName = ''U'', cd_tempPassword = ''abHIDDENyz'', cd_totpUri = ''o'', cd_issuer = None\<rparr> ''now''
     = generateTextCredentialsCard \<lparr>cd_username = ''u'', cd_displayName = ''U'', cd_tempPassword = ''abSECRETyz'', cd_totpUri = ''o'', cd_issuer = None\<rparr> ''now''"
  using handouts_hide_password [of "''abSECRETyz''" "''abHIDDENyz''"
      "\<lparr>cd_username = ''u'', cd_displayName = ''U'', cd_tempPassword = [], cd_totpUri = ''o'', cd_issuer = None\<rparr>" "''now''"]
  by (simp add: maskPassword_def)

text \<open>
  Escaping replaces each of the five characters with its entity and no other: the result has
  none of the four quoting characters, and different texts stay different. The order of the
  replacements is right: no entity is escaped again.
\<close>

theorem escapeXml_exact:
  "escapeXml s = concat (map xml_entity s)
   \<and> set (escapeXml s) \<inter> {CHR ''<'', CHR ''>'', CHR 0x22, CHR 0x27} = {}
   \<and> (escapeXml s = escapeXml t) = (s = t)"
proof -
  have "set (xml_entity c) \<inter> {CHR ''<'', CHR ''>'', CHR 0x22, CHR 0x27} = {}" for c
    by (simp add: xml_entity_def)
  then have "set (concat (map xml_entity s)) \<inter> {CHR ''<'', CHR ''>'', CHR 0x22, CHR 0x27} = {}"
    by (induction s) (simp_all add: Int_Un_distrib2)
  then show ?thesis by (simp add: escapeXml_inj) (simp add: escapeXml_entities)
qed

end
