(* ===== verification/Test_Seams.thy ===== *)
theory Test_Seams
  imports File_Accounts Totp Json_Text
begin

text \<open>
  The seams of the test harness: the registry of \<open>src/core/seams/index.ts\<close>, which production
  reads only, and \<open>src/testing/index.ts\<close> with its two gates, the test clock and the admission of
  test accounts. The environment of the process is a function of the variable's name, read at each
  call; objects are numbers.
\<close>

section \<open>The registry\<close>

record 'g service_seams =
  ss_clock :: "nat option"
  ss_generateBackupCodes :: "'g option"

type_synonym 'g seam_registry = "(nat \<times> 'g service_seams) list"

type_synonym process_env = "string \<Rightarrow> string option"

definition seamsOf :: "'g seam_registry \<Rightarrow> nat \<Rightarrow> 'g service_seams option" where
  "seamsOf registry service = map_of registry service"

text \<open>\<open>clocks\<close> are the readings of the installed clocks and \<open>system\<close> is \<open>Date.now()\<close>.\<close>

definition nowMsFor :: "(nat \<Rightarrow> int) \<Rightarrow> int \<Rightarrow> 'g seam_registry \<Rightarrow> nat \<Rightarrow> int" where
  "nowMsFor clocks system registry service =
     (case Option.bind (map_of registry service) ss_clock of Some c \<Rightarrow> clocks c | None \<Rightarrow> system)"

definition epochSecondsFor :: "(nat \<Rightarrow> int) \<Rightarrow> 'g seam_registry \<Rightarrow> nat \<Rightarrow> int option" where
  "epochSecondsFor clocks registry service =
     map_option (\<lambda>c. clocks c div 1000) (Option.bind (map_of registry service) ss_clock)"

definition installSeams :: "process_env \<Rightarrow> nat \<Rightarrow> 'g service_seams \<Rightarrow> ('g seam_registry, unit) op" where
  "installSeams env service seams registry =
     (let nodeEnv = env ''NODE_ENV'' in
      if nodeEnv \<noteq> Some ''test''
      then (Inl (Error (''Test seams can only be installed when NODE_ENV is exactly \"test\" (it is ''
              @ (case nodeEnv of None \<Rightarrow> ''unset'' | Some v \<Rightarrow> json_string v) @ '')'')), registry)
      else if map_of registry service \<noteq> None
      then (Inl (Error ''Test seams are already installed on this service''), registry)
      else (Inr (), AList.update service seams registry))"

section \<open>The gates\<close>

definition describeNodeEnv :: "string option \<Rightarrow> string" where
  "describeNodeEnv v = (case v of None \<Rightarrow> ''NODE_ENV is unset'' | Some s \<Rightarrow> ''NODE_ENV is '' @ json_string s)"

definition TESTING_ENTRY_SENTINEL :: string where
  "TESTING_ENTRY_SENTINEL = ''tinyland-auth-testing-entry-5a9aa858497cf8b557fcbb77''"

definition TestingEntryRefusedError :: "string \<Rightarrow> error" where
  "TestingEntryRefusedError reason =
     Error (''@tummycrypt/tinyland-auth/testing refused to load: '' @ reason @ ''. ''
       @ ''It loads only when NODE_ENV is exactly \"test\". '' @ ''['' @ TESTING_ENTRY_SENTINEL @ '']'')"

definition TestAdmissionDisabledError :: "string \<Rightarrow> error" where
  "TestAdmissionDisabledError reason = Error (''tinyland-auth test admission is disabled: '' @ reason)"

definition TEST_ADMISSION_ENV :: string where
  "TEST_ADMISSION_ENV = ''TINYLAND_AUTH_TEST_ADMISSION''"

definition assertTestEnvironment :: "process_env \<Rightarrow> unit result" where
  "assertTestEnvironment env =
     (if env ''NODE_ENV'' \<noteq> Some ''test'' then Inl (TestingEntryRefusedError (describeNodeEnv (env ''NODE_ENV'')))
      else Inr ())"

definition isTestAdmissionAllowed :: "process_env \<Rightarrow> bool" where
  "isTestAdmissionAllowed env \<longleftrightarrow> env ''NODE_ENV'' = Some ''test'' \<and> env TEST_ADMISSION_ENV = Some ''enabled''"

definition assertTestAdmissionAllowed :: "process_env \<Rightarrow> unit result" where
  "assertTestAdmissionAllowed env =
     (if env ''NODE_ENV'' \<noteq> Some ''test'' then Inl (TestAdmissionDisabledError (describeNodeEnv (env ''NODE_ENV'')))
      else if env TEST_ADMISSION_ENV \<noteq> Some ''enabled''
      then Inl (TestAdmissionDisabledError (TEST_ADMISSION_ENV @ '' is not \"enabled\"''))
      else Inr ())"

section \<open>The harness\<close>

text \<open>A manual clock is its reading.\<close>

datatype clock_move = Set_clock int | Advance_clock int

definition move_clock :: "clock_move \<Rightarrow> int \<Rightarrow> int" where
  "move_clock m current = (case m of Set_clock epochMs \<Rightarrow> epochMs | Advance_clock deltaMs \<Rightarrow> current + deltaMs)"

text \<open>The generator of recovery codes for a seed: the codes of its \<open>batch\<close>-th call.\<close>

definition deterministic_codes :: "(string \<Rightarrow> string) \<Rightarrow> string \<Rightarrow> nat \<Rightarrow> nat \<Rightarrow> string list result" where
  "deterministic_codes sha256 seed batch count =
     (if seed = [] then Inl (Error ''A non-empty seed is required'')
      else Inr (map (\<lambda>i. let hex = toUpperCase (sha256 (seed @ '':'' @ show_nat batch @ '':'' @ show_nat i))
                        in take 4 hex @ ''-'' @ take 4 (drop 4 hex)) [0..<count]))"

text \<open>The three factories make a service, here its number, and install the seams on it.\<close>

definition create_test_service :: "process_env \<Rightarrow> nat \<Rightarrow> 'g service_seams \<Rightarrow> ('g seam_registry, nat) op" where
  "create_test_service env service seams =
     bind_op (of_result (assertTestEnvironment env)) (\<lambda>_.
     bind_op (installSeams env service seams) (\<lambda>_.
       return_op service))"

section \<open>Test identities\<close>

record test_identity =
  ti_role :: string
  ti_handle :: string
  ti_email :: string
  ti_displayName :: string
  ti_password :: string
  ti_totpSecret :: string

definition dashed :: "string \<Rightarrow> string" where
  "dashed = map (\<lambda>c. if c = CHR ''_'' then CHR ''-'' else c)"

text \<open>\<open>hex\<close>, \<open>ending\<close>, \<open>draw\<close> and \<open>secret\<close> are the random values.\<close>

definition generateTestIdentity ::
  "process_env \<Rightarrow> string \<Rightarrow> string option \<Rightarrow> string option \<Rightarrow> string \<Rightarrow> string \<Rightarrow> (nat \<Rightarrow> nat) \<Rightarrow> string
     \<Rightarrow> test_identity result" where
  "generateTestIdentity env role runId emailDomain hex ending draw secret =
     (case assertTestEnvironment env of
        Inl e \<Rightarrow> Inl e
      | Inr _ \<Rightarrow>
          if \<not> isValidAdminRole role then Inl (Error (''Unknown role: '' @ role))
          else
            let runId = nullish runId hex;
                handle = take 30 (''ax-'' @ dashed role @ ''-'' @ runId @ ''-'' @ ending)
            in Inr \<lparr>ti_role = role, ti_handle = handle,
                    ti_email = handle @ ''@'' @ nullish emailDomain ''ax-harness.test'',
                    ti_displayName = ''AX '' @ role @ '' '' @ runId,
                    ti_password = generateSecurePassword draw 24 True True True True,
                    ti_totpSecret = secret\<rparr>)"

section \<open>Admission\<close>

text \<open>The event is of a kind the audit log's type does not list, so it has a record of its own.\<close>

record admission_event =
  av_timestamp :: stamp
  av_type :: string
  av_userId :: string
  av_handle :: string
  av_role :: string
  av_sessionIssued :: bool

record 's admission_config =
  ad_accounts :: "'s account_ops"
  ad_createSession :: "string \<Rightarrow> admin_user \<Rightarrow> session_metadata option \<Rightarrow> ('s, session) op"
  ad_logAuditEvent :: "admission_event \<Rightarrow> ('s, unit) op"
  ad_encryptTOTPSecret :: "string \<Rightarrow> string \<Rightarrow> encrypted_totp_secret result"
  ad_bcrypt :: "string \<Rightarrow> int \<Rightarrow> string"
  ad_bcryptRounds :: "int option"
  ad_codes :: "int \<Rightarrow> string list"
  ad_backupCodesCount :: "int option"
  ad_sha256 :: "string \<Rightarrow> string"

record admission_request =
  ar_role :: string
  ar_identity :: "test_identity option"
  ar_createSession :: "bool option"
  ar_sessionMetadata :: "session_metadata option"

record test_admission =
  ta_user :: admin_user
  ta_identity :: test_identity
  ta_backupCodes :: "string list"
  ta_session :: "session option"

definition admitted_account :: "test_identity \<Rightarrow> string \<Rightarrow> int \<Rightarrow> admin_user" where
  "admitted_account identity passwordHash now =
     blank_user\<lparr>u_handle := ti_handle identity, u_email := Some (ti_email identity),
       u_displayName := Some (ti_displayName identity), u_passwordHash := passwordHash,
       u_role := ti_role identity, u_isActive := True, u_totpEnabled := True,
       u_totpSecretId := Some (ti_handle identity), u_needsOnboarding := False, u_onboardingStep := 0,
       u_createdAt := Iso now, u_updatedAt := Iso now\<rparr>"

text \<open>
  \<open>fresh\<close> is the identity generated for the role, \<open>now\<close> the reading of the configured clock or the
  system's, \<open>uid\<close> and \<open>ids\<close> the random ids.
\<close>

definition test_admit ::
  "'s admission_config \<Rightarrow> process_env \<Rightarrow> int \<Rightarrow> string \<Rightarrow> string list \<Rightarrow> test_identity result \<Rightarrow> admission_request
     \<Rightarrow> ('s, test_admission) op" where
  "test_admit cfg env now uid ids fresh request =
     bind_op (of_result (assertTestAdmissionAllowed env)) (\<lambda>_.
     bind_op (of_result (case ar_identity request of Some i \<Rightarrow> Inr i | None \<Rightarrow> fresh)) (\<lambda>identity.
     if ti_role identity \<noteq> ar_role request
     then throw_op (Error ''Identity role does not match the requested role'')
     else
       bind_op (ao_getUserByHandle (ad_accounts cfg) (ti_handle identity)) (\<lambda>earlier.
       if earlier \<noteq> None then throw_op (Error (''Handle already exists: '' @ ti_handle identity))
       else
         bind_op (of_result (hashPassword (ad_bcrypt cfg) (ti_password identity)
                    (Some (nullish (ad_bcryptRounds cfg) 4)))) (\<lambda>passwordHash.
         bind_op (of_result (ad_encryptTOTPSecret cfg (ti_handle identity) (ti_totpSecret identity))) (\<lambda>encrypted.
         bind_op (ao_saveTOTPSecret (ad_accounts cfg) (ti_handle identity) encrypted) (\<lambda>_.
         bind_op (ao_createUser (ad_accounts cfg) now uid (admitted_account identity passwordHash now)) (\<lambda>user.
           let backupCodes = ad_codes cfg (nullish (ad_backupCodesCount cfg) 10) in
           bind_op (ao_saveBackupCodes (ad_accounts cfg) (u_id user)
                      (createBackupCodeSet (ad_sha256 cfg) now ids (u_id user) backupCodes)) (\<lambda>_.
           bind_op (if ar_createSession request = Some False then return_op None
                    else bind_op (ad_createSession cfg (u_id user) user (ar_sessionMetadata request)) (\<lambda>s. return_op (Some s)))
                   (\<lambda>session.
           bind_op (ad_logAuditEvent cfg
                      \<lparr>av_timestamp = Iso now, av_type = ''TEST_ADMISSION'', av_userId = u_id user,
                       av_handle = u_handle user, av_role = u_role user, av_sessionIssued = (session \<noteq> None)\<rparr>) (\<lambda>_.
             return_op \<lparr>ta_user = user\<lparr>u_passwordHash := []\<rparr>, ta_identity = identity,
                        ta_backupCodes = backupCodes, ta_session = session\<rparr>))))))))))"

text \<open>Making an issuer asks for the gate as well; every admission asks again.\<close>

definition createTestAdmissionIssuer :: "process_env \<Rightarrow> 's admission_config \<Rightarrow> 's admission_config result" where
  "createTestAdmissionIssuer env cfg = (case assertTestAdmissionAllowed env of Inl e \<Rightarrow> Inl e | Inr _ \<Rightarrow> Inr cfg)"

section \<open>Lemmas\<close>

text \<open>A sequence of installations, each with the environment of its moment.\<close>

fun install_all :: "(process_env \<times> nat \<times> 'g service_seams) list \<Rightarrow> 'g seam_registry \<Rightarrow> 'g seam_registry" where
  "install_all [] registry = registry"
| "install_all ((env, service, seams) # cs) registry = install_all cs (snd (installSeams env service seams registry))"

lemma install_refused: "env ''NODE_ENV'' \<noteq> Some ''test'' \<Longrightarrow> snd (installSeams env service seams registry) = registry"
  by (simp add: installSeams_def Let_def)

lemma install_keeps: "map_of registry service = Some x \<Longrightarrow> map_of (snd (installSeams env s y registry)) service = Some x"
  by (auto simp: installSeams_def Let_def update_conv')

lemma install_all_keeps: "map_of registry service = Some x \<Longrightarrow> map_of (install_all cs registry) service = Some x"
  by (induction cs registry rule: install_all.induct) (simp_all add: install_keeps)

lemma install_all_refused: "\<forall>c \<in> set cs. fst c ''NODE_ENV'' \<noteq> Some ''test'' \<Longrightarrow> install_all cs registry = registry"
  by (induction cs registry rule: install_all.induct) (simp_all add: install_refused)

lemma install_first:
  "env ''NODE_ENV'' = Some ''test'' \<Longrightarrow> map_of registry service = None
     \<Longrightarrow> map_of (snd (installSeams env service x registry)) service = Some x"
  by (simp add: installSeams_def update_conv')

lemma assert_admission: "assertTestAdmissionAllowed env = Inr () \<longleftrightarrow> isTestAdmissionAllowed env"
  by (simp add: assertTestAdmissionAllowed_def isTestAdmissionAllowed_def)

lemma admit_closed:
  assumes "\<not> isTestAdmissionAllowed env"
  shows "\<exists>e. test_admit cfg env now uid ids fresh request s = (Inl e, s)"
proof -
  obtain e where "assertTestAdmissionAllowed env = Inl e"
    using assms assert_admission [of env] by (cases "assertTestAdmissionAllowed env") auto
  then show ?thesis by (simp add: test_admit_def of_result_def bind_op_def)
qed

lemma of_result_Inr: "of_result r s = (Inr a, s') \<longleftrightarrow> r = Inr a \<and> s' = s"
  by (auto simp: of_result_def)

text \<open>The steps of an admission that returns.\<close>

lemma admitE:
  assumes "test_admit cfg env now uid ids fresh request s = (Inr a, s')"
  obtains identity s1 passwordHash encrypted s2 user s3 s4 session s5 where
    "isTestAdmissionAllowed env" "ti_role identity = ar_role request"
    "(case ar_identity request of Some i \<Rightarrow> Inr i | None \<Rightarrow> fresh) = Inr identity"
    "ao_getUserByHandle (ad_accounts cfg) (ti_handle identity) s = (Inr None, s1)"
    "ao_saveTOTPSecret (ad_accounts cfg) (ti_handle identity) encrypted s1 = (Inr (), s2)"
    "ao_createUser (ad_accounts cfg) now uid (admitted_account identity passwordHash now) s2 = (Inr user, s3)"
    "ao_saveBackupCodes (ad_accounts cfg) (u_id user)
       (createBackupCodeSet (ad_sha256 cfg) now ids (u_id user) (ta_backupCodes a)) s3 = (Inr (), s4)"
    "(if ar_createSession request = Some False then return_op None
      else bind_op (ad_createSession cfg (u_id user) user (ar_sessionMetadata request)) (\<lambda>s. return_op (Some s))) s4
       = (Inr session, s5)"
    "\<exists>ev. ad_logAuditEvent cfg ev s5 = (Inr (), s')"
    "ta_user a = user\<lparr>u_passwordHash := []\<rparr>" "ta_identity a = identity" "ta_session a = session"
proof -
  show thesis
    using assms
    unfolding test_admit_def bind_op_eq_Inr of_result_Inr Let_def
    by (auto simp: bind_op_eq_Inr of_result_Inr assert_admission split: if_splits intro!: that)
qed

text \<open>On the file adapter only the creation of the account changes the list of accounts.\<close>

lemma file_account_steps:
  "file_getUserByHandle h f = (Inr None, f1) \<Longrightarrow> f1 = f \<and> h \<notin> u_handle ` set (f_users f)"
  "file_saveTOTPSecret h enc f = (Inr (), f2) \<Longrightarrow> f_users f2 = f_users f"
  "file_createUser now now uid data f = (Inr u, f3) \<Longrightarrow> created_from uid data u \<and> f_users f3 = f_users f @ [u]"
  "file_saveBackupCodes i codes f = (Inr (), f4) \<Longrightarrow> f_users f4 = f_users f"
  using file_by_handle [of h f]
  by (auto simp: file_getUserByHandle_def file_saveTOTPSecret_def file_createUser_def file_saveBackupCodes_def
      Let_def created_from_def)

lemma file_account_fields:
  "ao_getUserByHandle file_accounts = file_getUserByHandle" "ao_saveTOTPSecret file_accounts = file_saveTOTPSecret"
  "ao_createUser file_accounts t = file_createUser t t" "ao_saveBackupCodes file_accounts = file_saveBackupCodes"
  by (simp_all add: file_accounts_def)

lemma file_createSession_users: "f_users (snd (file_createSession Io_done maxAge now new uid usr md f)) = f_users f"
  by (auto simp: file_createSession_def file_insertSession_def file_mutateSessions_def file_readSessions_def bind_op_def
      split: sum.splits prod.splits option.splits)

definition keeps_accounts :: "(files, 'a) op \<Rightarrow> bool" where
  "keeps_accounts m \<longleftrightarrow> (\<forall>f. f_users (snd (m f)) = f_users f)"

lemma keeps_accountsD: "keeps_accounts m \<Longrightarrow> m f = (r, f') \<Longrightarrow> f_users f' = f_users f"
  unfolding keeps_accounts_def by (metis snd_conv)

section \<open>Properties\<close>

text \<open>
  Without \<open>NODE_ENV\<close> being \<open>test\<close> no sequence of installations changes what any service reads:
  time is the system's and otplib reads its own. Under the test environment the first seams of a
  service stay: its clock cannot be swapped by anything that is installed later.
\<close>

theorem test_seams_inert:
  assumes "\<forall>c \<in> set cs. fst c ''NODE_ENV'' \<noteq> Some ''test''"
  shows "nowMsFor clocks system (install_all cs []) service = system
     \<and> epochSecondsFor clocks (install_all cs []) service = None
     \<and> (\<forall>env seams c later. env ''NODE_ENV'' = Some ''test'' \<longrightarrow> ss_clock seams = Some c \<longrightarrow>
          nowMsFor clocks system (install_all ((env, service, seams) # later) (install_all cs [])) service = clocks c)"
proof -
  have none: "install_all cs [] = []" by (rule install_all_refused [OF assms])
  have kept: "map_of (install_all ((env, service, seams) # later) []) service = Some seams"
    if "env ''NODE_ENV'' = Some ''test''" for env seams later
    using install_first [where env = env and registry = "[]" and service = service and x = seams] that
    by (simp add: install_all_keeps)
  have "nowMsFor clocks system (install_all ((env, service, seams) # later) []) service = clocks c"
    if "env ''NODE_ENV'' = Some ''test''" "ss_clock seams = Some c" for env seams c later
  proof -
    have "map_of (install_all ((env, service, seams) # later) []) service = Some seams" by (rule kept) (rule that(1))
    then show ?thesis using that(2) unfolding nowMsFor_def by simp
  qed
  moreover have "nowMsFor clocks system [] service = system" "epochSecondsFor clocks [] service = None"
    by (simp_all add: nowMsFor_def epochSecondsFor_def)
  ultimately show ?thesis unfolding none by blast
qed

theorem test_seams_inert_witness:
  "nowMsFor (\<lambda>_. 7) 5 (install_all [(\<lambda>_. Some ''production'', 1, \<lparr>ss_clock = Some 0, ss_generateBackupCodes = None :: nat option\<rparr>)] []) 1 = 5"
  using test_seams_inert [of "[(\<lambda>_. Some ''production'', 1, \<lparr>ss_clock = Some 0, ss_generateBackupCodes = None :: nat option\<rparr>)]"
      "\<lambda>_. 7" 5 1] by simp

text \<open>
  C31. The admission of test accounts is gated and does what it was asked. Unless both variables of
  the environment have their values, an admission is refused and changes nothing. On the file
  adapter an admission that returns was for a free handle, and adds exactly one account, with the
  requested role and this handle, whose password hash is not handed out; it has a session unless
  none was asked for.
\<close>

theorem test_admission_gated:
  assumes "test_admit cfg env now uid ids fresh request f = (r, f')"
    and "ad_accounts cfg = file_accounts" "\<And>i u md. keeps_accounts (ad_createSession cfg i u md)"
      "\<And>ev. keeps_accounts (ad_logAuditEvent cfg ev)"
  shows "(if isTestAdmissionAllowed env
     then (\<forall>a. r = Inr a \<longrightarrow>
        ti_role (ta_identity a) = ar_role request
        \<and> ti_handle (ta_identity a) \<notin> u_handle ` set (f_users f)
        \<and> (\<exists>u. f_users f' = f_users f @ [u] \<and> u_id u = uid \<and> u_role u = ar_role request
              \<and> u_handle u = ti_handle (ta_identity a) \<and> ta_user a = u\<lparr>u_passwordHash := []\<rparr>)
        \<and> (ta_session a = None) = (ar_createSession request = Some False))
     else (\<exists>e. r = Inl e) \<and> f' = f)"
proof (cases "isTestAdmissionAllowed env")
  case False
  then show ?thesis using admit_closed [OF False, of cfg now uid ids fresh request f] assms(1) by auto
next
  case True
  have "ti_role (ta_identity a) = ar_role request
        \<and> ti_handle (ta_identity a) \<notin> u_handle ` set (f_users f)
        \<and> (\<exists>u. f_users f' = f_users f @ [u] \<and> u_id u = uid \<and> u_role u = ar_role request
              \<and> u_handle u = ti_handle (ta_identity a) \<and> ta_user a = u\<lparr>u_passwordHash := []\<rparr>)
        \<and> (ta_session a = None) = (ar_createSession request = Some False)" if "r = Inr a" for a
  proof -
    have run: "test_admit cfg env now uid ids fresh request f = (Inr a, f')" using assms(1) that by simp
    obtain identity f1 passwordHash encrypted f2 user f3 f4 session f5 where
      role: "ti_role identity = ar_role request" and id: "ta_identity a = identity"
      and free: "ao_getUserByHandle (ad_accounts cfg) (ti_handle identity) f = (Inr None, f1)"
      and saved: "ao_saveTOTPSecret (ad_accounts cfg) (ti_handle identity) encrypted f1 = (Inr (), f2)"
      and made: "ao_createUser (ad_accounts cfg) now uid (admitted_account identity passwordHash now) f2 = (Inr user, f3)"
      and codes: "ao_saveBackupCodes (ad_accounts cfg) (u_id user)
        (createBackupCodeSet (ad_sha256 cfg) now ids (u_id user) (ta_backupCodes a)) f3 = (Inr (), f4)"
      and session: "(if ar_createSession request = Some False then return_op None
        else bind_op (ad_createSession cfg (u_id user) user (ar_sessionMetadata request)) (\<lambda>s. return_op (Some s))) f4 = (Inr session, f5)"
      and logged: "\<exists>ev. ad_logAuditEvent cfg ev f5 = (Inr (), f')"
      and user: "ta_user a = user\<lparr>u_passwordHash := []\<rparr>" and ses: "ta_session a = session"
      by (rule admitE [OF run])
    note steps = free [unfolded assms(2) file_account_fields] saved [unfolded assms(2) file_account_fields]
      made [unfolded assms(2) file_account_fields] codes [unfolded assms(2) file_account_fields]
    have s5: "f_users f5 = f_users f4 \<and> (session = None) = (ar_createSession request = Some False)"
      using session keeps_accountsD [OF assms(3)] by (auto simp: bind_op_eq_Inr split: if_splits)
    have users: "f_users f' = f_users f @ [user]" "created_from uid (admitted_account identity passwordHash now) user"
      using file_account_steps(1) [OF steps(1)] file_account_steps(2) [OF steps(2)] file_account_steps(3) [OF steps(3)]
        file_account_steps(4) [OF steps(4)] s5 logged keeps_accountsD [OF assms(4)] by auto
    then have "u_id user = uid \<and> u_role user = ar_role request \<and> u_handle user = ti_handle identity"
      using created_fromD [OF users(2)] role by (simp add: admitted_account_def)
    then show ?thesis using users(1) file_account_steps(1) [OF steps(1)] role user s5 by (simp add: id ses)
  qed
  with True show ?thesis by simp
qed

definition demo_admission :: "files admission_config" where
  "demo_admission =
     \<lparr>ad_accounts = file_accounts, ad_createSession = (\<lambda>i u md. file_createSession Io_done 1000 5 ''s1'' i no_user_patch md),
      ad_logAuditEvent = (\<lambda>ev. return_op ()),
      ad_encryptTOTPSecret = (\<lambda>h s. Inr
        \<lparr>ts_userId = ''p'', ts_handle = h, ts_encryptedSecret = s, ts_iv = ''i'', ts_authTag = ''t'',
         ts_salt = ''s'', ts_createdAt = Iso 1, ts_lastUsedAt = None, ts_lastUsedTotpStep = None,
         ts_backupCodesGenerated = True, ts_version = 1\<rparr>),
      ad_bcrypt = (\<lambda>pw n. ''hash:'' @ pw), ad_bcryptRounds = None, ad_codes = (\<lambda>n. [''AAAA-1111'']),
      ad_backupCodesCount = None, ad_sha256 = id\<rparr>"

definition demo_identity :: test_identity where
  "demo_identity =
     \<lparr>ti_role = ''editor'', ti_handle = ''ax-editor'', ti_email = ''e@x.test'', ti_displayName = ''AX'',
      ti_password = ''pw'', ti_totpSecret = ''JBSWY3DP''\<rparr>"

definition demo_admit :: "process_env \<Rightarrow> test_admission result \<times> files" where
  "demo_admit env =
     test_admit demo_admission env 5 ''u1'' [''b1''] (Inr demo_identity)
       \<lparr>ar_role = ''editor'', ar_identity = None, ar_createSession = Some False, ar_sessionMetadata = None\<rparr> empty_files"

lemma demo_admit_runs: "\<exists>a. fst (demo_admit (\<lambda>n. if n = ''NODE_ENV'' then Some ''test'' else Some ''enabled'')) = Inr a"
  by (simp add: demo_admit_def test_admit_def demo_admission_def demo_identity_def bind_op_def of_result_def
      assertTestAdmissionAllowed_def TEST_ADMISSION_ENV_def hashPassword_def file_accounts_def file_getUserByHandle_def
      file_saveTOTPSecret_def file_createUser_def file_saveBackupCodes_def empty_files_def Let_def)

theorem test_admission_gated_witness:
  "(\<exists>u. f_users (snd (demo_admit (\<lambda>n. if n = ''NODE_ENV'' then Some ''test'' else Some ''enabled''))) = [u] \<and> u_role u = ''editor'')
   \<and> snd (demo_admit (\<lambda>n. Some ''test'')) = empty_files"
proof -
  have keep: "keeps_accounts (ad_createSession demo_admission i u md)" "keeps_accounts (ad_logAuditEvent demo_admission ev)"
    "ad_accounts demo_admission = file_accounts" for i u md ev
    by (simp_all add: demo_admission_def keeps_accounts_def file_createSession_users)
  have gates: "isTestAdmissionAllowed (\<lambda>n. if n = ''NODE_ENV'' then Some ''test'' else Some ''enabled'')"
      "\<not> isTestAdmissionAllowed (\<lambda>n. Some ''test'')"
    by (simp_all add: isTestAdmissionAllowed_def TEST_ADMISSION_ENV_def)
  note gated = test_admission_gated [OF prod.collapse [symmetric] keep(3) keep(1,2), of _ 5 "''u1''" "[''b1'']" "Inr demo_identity"
      "\<lparr>ar_role = ''editor'', ar_identity = None, ar_createSession = Some False, ar_sessionMetadata = None\<rparr>" empty_files,
      folded demo_admit_def]
  obtain a where a: "fst (demo_admit (\<lambda>n. if n = ''NODE_ENV'' then Some ''test'' else Some ''enabled'')) = Inr a"
    using demo_admit_runs by blast
  have "f_users empty_files = []" by (simp add: empty_files_def)
  then show ?thesis
    using gated [of "\<lambda>n. if n = ''NODE_ENV'' then Some ''test'' else Some ''enabled''"] gated [of "\<lambda>n. Some ''test''"] gates a
    by (simp only: if_True if_False) auto
qed

end
