(* ===== verification/Spec2Isabelle.thy ===== *)
theory Spec2Isabelle
  imports Permissions Ownership Activity_Tracking Account_Guarantees Audit_Guarantees Invitation_Guarantees
    Step_Up_Guarantees Web_Guarantees Csrf_Store Fixed_Tenant Repository_Guarantees Retirement_Guarantees
    Bootstrap_Guarantees Totp_Cipher Enrollment_Guarantees Atomic_Files Session_Queue File_Lock Credential_Deletion
    Credential_Files Totp_Secrets Handouts Test_Seams
begin

text \<open>
  Verification library of tinyland-auth, an authentication and authorisation package without a
  database: accounts, sessions, second factors, invitations and audit events behind one storage
  interface, services over it, file-backed coordinators for the operations that must survive a
  crash, and the SvelteKit adapter that guards requests.

  \<^bold>\<open>Parts and how they interact.\<close> Two adapters implement the storage interface of
  \<open>src/storage/interface.ts\<close>: \<open>MemoryStorageAdapter\<close> and \<open>FileStorageAdapter\<close>. The session, audit,
  invitation, bootstrap and handle services call an adapter and nothing else of the storage. The
  request hook reads a session and an account through a reader and the guards decide on what the
  hook stored. Four coordinators keep a journal or a record of their own beside the adapter: the
  action step-up store, the file bootstrap, the enrolment and the retirement of a second factor.
  They commit a decision to the journal first and then change the adapter, and finish after a
  crash from the journal.

  \<^bold>\<open>How the code is translated.\<close> An interface is a record of operations. An operation of type
  \<^typ>\<open>('s, 'a) op\<close> takes the state and answers an error or a result with the state it leaves,
  so that a failed call keeps what it did before it failed (\<open>Prelude\<close>). A method is one
  definition with its guards in the order of the source; an interface member in TypeScript becomes
  a record field with a prefix for its type (\<open>u_\<close> account, \<open>s_\<close> session, \<open>ts_\<close> factor, \<open>bs_\<close> code
  set, \<open>pd_\<close> pending attempt). A partial update is a patch with an optional value for each property
  (\<open>Patches\<close>). \<open>Date\<close> values and their ISO texts are stamps. Everything from outside is an argument:
  clock readings, random bytes, identifiers, SHA-256, HMAC, scrypt and AES-GCM, bcrypt, otplib's
  check, the host's dates, and the outcome of every call of the file system (done, done but not
  acknowledged, refused). Strings are lists of characters below U+0100; JavaScript numbers of the
  source are whole numbers and appear as \<^typ>\<open>int\<close>, with \<open>Number.isSafeInteger\<close> where the source
  tests it; bytes that are combined bitwise are words of eight bits.

  \<^bold>\<open>Theories.\<close>
  \<^item> \<open>Prelude\<close>: strings, stamps, insertion-ordered maps, slices, failing operations.
  \<open>Triples\<close>: rules for what an operation leaves after a result and after an error.
  \<^item> \<open>Auth_Types\<close>, \<open>Patches\<close>: \<open>src/types/auth.ts\<close>, records of every entity, the role hierarchy.
  \<open>Permissions\<close>: \<open>src/types/permissions.ts\<close>, \<open>src/core/permissions/index.ts\<close>; own-scope permissions come from
  grants only, management of roles is a strict order, the list of permissions is exact.
  \<open>Ownership\<close>: \<open>src/core/permissions/ownership.ts\<close>; whoever deletes may edit.
  \<^item> \<open>Session_Policy\<close>: \<open>src/storage/session-policy.ts\<close>. \<open>Session_Interface\<close>: what the session service
  relies on, as the locale of its contract. \<open>Session_Manager\<close>: \<open>src/core/session/index.ts\<close>, proved over
  the contract. \<open>Memory_Storage\<close>, \<open>File_Storage\<close>, \<open>File_Flags\<close>: \<open>src/storage/memory.ts\<close>, \<open>file.ts\<close>, with the
  interpretations; a mutation of the session file takes how its file calls end. \<open>Session_Guarantees\<close>, \<open>Activity_Tracking\<close>: the properties on both adapters.
  \<^item> \<open>Account_Interface\<close>, \<open>File_Accounts\<close>, \<open>Memory_Accounts\<close>: the account part of the storage contract, and
  the in-memory adapter as a state machine: what holds in every state it reaches with any arguments,
  and the exactness of its indexes while the callers keep handles and emails unique, which the adapter
  does not check. \<open>Bootstrap\<close>: \<open>src/modules/bootstrap\<close>.
  \<open>Handle_Validator\<close>: \<open>src/validation/handle-validator.ts\<close>. \<open>Account_Guarantees\<close>: the properties of both.
  \<open>Atomic_Files\<close>, \<open>Session_Queue\<close>, \<open>File_Lock\<close>, \<open>Credential_Deletion\<close>, \<open>Credential_Files\<close>: the files under
  \<open>FileStorageAdapter\<close>: the replacement of one file with every call failing, the queue of the session
  file and the lock of the others as step relations, the deletion of an expected credential on a tree
  with links, and the reading of a credential file that may be missing, unreadable, not JSON or of
  another shape; the typed credential operations of \<open>File_Storage\<close> are proved to be its abstraction.
  \<open>Fixed_Tenant\<close>: \<open>src/storage/fixedTenant.ts\<close>, equal to the wrapped storage for the one tenant.
  \<open>Admin_Repository\<close>, \<open>Repository_Guarantees\<close>: \<open>src/admin-user-repository\<close>, its projections and its cache.
  \<^item> \<open>Security\<close>: \<open>src/core/security\<close>. \<open>Totp\<close>: the otplib shim of \<open>src/totp\<close> and verification in
  \<open>src/core/totp/index.ts\<close>; steps only grow. \<open>Totp_Cipher\<close>: its encryption, with base64 and UTF-8.
  \<open>Totp_Secrets\<close>: secrets and QR codes. \<open>Auth_Config\<close>: \<open>src/types/config.ts\<close>, the defaults, error codes.
  \<open>Backup_Codes\<close>: \<open>src/core/backup-codes\<close>; a code is used once.
  \<^item> \<open>Audit_Logger\<close>, \<open>Audit_Guarantees\<close>: \<open>src/modules/audit\<close>, with every interleaving of calls, timer and
  writes as a step relation. \<open>Invitations\<close>, \<open>Invitation_Guarantees\<close>: \<open>src/modules/invitation\<close>.
  \<^item> \<open>Json_Text\<close>, \<open>Canonical_Json\<close>, \<open>Json_Parse\<close>: \<open>JSON.stringify\<close>, canonical texts and \<open>JSON.parse\<close> with
  its termination and the round trip. \<open>Action_Step_Up\<close>, \<open>Step_Up_Guarantees\<close>:
  \<open>src/storage/action-step-up.ts\<close>, refined from a machine of three states.
  \<^item> \<open>Totp_Material\<close>, \<open>Totp_Retirement\<close>, \<open>Retirement_Interface\<close>, \<open>Retirement_Protocol\<close>, \<open>Retirement_Bounds\<close>,
  \<open>Retirement_Recovery\<close>, \<open>File_Retirement\<close>, \<open>Retirement_Guarantees\<close>: \<open>src/storage/file-totp-retirement.ts\<close>
  and \<open>totp-retirement-material.ts\<close>: the code, the contract of the storage, the protocol as a step
  relation, the size of a record, recovery, and the file adapter as the provider.
  \<^item> \<open>Bootstrap_Journal\<close>, \<open>File_Bootstrap\<close>, \<open>Bootstrap_Protocol\<close>, \<open>Bootstrap_Guarantees\<close>:
  \<open>src/storage/file-bootstrap.ts\<close>: records and their sealed text, the operations, the protocol with
  the proof that every operation follows it, and the properties on the file adapter.
  \<^item> \<open>Preserved\<close>: operations that leave a view of the state alone. \<open>Enrollment_Journal\<close>,
  \<open>Totp_Enrollment\<close>, \<open>Enrollment_Protocol\<close>, \<open>Enrollment_Completion\<close>, \<open>Enrollment_Guarantees\<close>:
  \<open>src/storage/file-totp-enrollment.ts\<close>: records of both versions with their text, the operations, the
  protocol as a step relation, what a completion requires, and the properties on the file adapter.
  \<^item> \<open>Web_Guards\<close>, \<open>Web_Guarantees\<close>, \<open>Csrf_Store\<close>: \<open>src/adapters/sveltekit\<close>.
  \<^item> \<open>Handouts\<close>: \<open>src/cred-gen\<close>, the texts for a new account; the password is masked in all of them.
  \<open>Test_Seams\<close>: \<open>src/core/seams\<close>, \<open>src/testing\<close>; production time is the system's, test accounts are gated.

  \<^bold>\<open>Bounds and termination.\<close> Every definition is total: recursion is structural or has a measure
  (the JSON reader: the rest of the text gets shorter). The one loop of the source without a bound,
  the rejection sampling of temporary passwords, is given the random blocks as a list and is proved
  to end with the first block that qualifies. No fuel is used.

  \<^bold>\<open>Concurrency.\<close> Calls of a coordinator are atomic with respect to each other, as the exclusive
  gate the source demands makes them; crashes are covered by calls that fail at any point and by
  the states every failed call leaves. The audit logger and the repository cache, which have no
  gate, are modelled with their interleavings (\<open>Audit_Guarantees\<close>, and the overlap shown at the end
  of \<open>Repository_Guarantees\<close>). Calls on the session file of the file adapter are serialised by its
  queue, so the sequential model of \<open>File_Storage\<close> is what every interleaving amounts to
  (\<open>Session_Queue\<close>). The other files have a lock for the write only: \<open>File_Lock\<close> shows what it keeps,
  and that of two concurrent updates the first one can be lost; the sequential model is exact for
  calls on them that do not overlap.

  \<^bold>\<open>Not modelled.\<close> Re-export files (\<open>index.ts\<close>), request and response shapes that no code reads
  (\<open>src/types/api.ts\<close>), log output, artificial delays, the floating-point statistics of
  \<open>TimingMetrics\<close>, the freezing of classes against patches at run time, and the command-line checks
  under \<open>scripts\<close> and the examples, which run other programs over the packed artifact. The images of QR
  codes and otplib's random secrets are arguments.
\<close>

end
